(* ===== verification/Prelude.thy ===== *)
theory Prelude
  imports Main "HOL-Library.AList" "HOL-Library.Char_ord" "HOL-Library.List_Lexorder"
    "HOL-Library.Product_Lexorder"
begin

text \<open>
  Shared vocabulary of the development: results that may carry a thrown error, the
  short-circuit condition lists and the nullish default of the TypeScript sources, ASCII case
  folding, character-class checks, insertion-ordered maps (\<^verbatim>\<open>Map\<close>, an association list
  updated in place) and the stable comparator sort (\<^verbatim>\<open>Array.prototype.sort\<close>) with its
  order contract as a locale.
\<close>

named_theorems js_simps
  \<open>rewrite rules for throwing conditions, defaults and ordered maps\<close>

named_theorems js_intros
  \<open>introduction rules that discharge side conditions of the component lemmas\<close>


section \<open>Results that may throw\<close>

type_synonym ('e, 'a) result = "'e + 'a"

text \<open>
  A conjunction \<^verbatim>\<open>a && b && c\<close> whose operands may throw is the list of its operands:
  the first operand that is false or throws decides, exactly as short-circuit evaluation does.
\<close>

fun all_js :: "('e, bool) result list \<Rightarrow> ('e, bool) result" where
  "all_js [] = Inr True"
| "all_js (c # cs) = (case c of Inl e \<Rightarrow> Inl e | Inr b \<Rightarrow> (if b then all_js cs else Inr False))"

definition js_if :: "('e, bool) result \<Rightarrow> ('e, 'a) result \<Rightarrow> ('e, 'a) result \<Rightarrow> ('e, 'a) result" where
  "js_if c t f = (case c of Inl e \<Rightarrow> Inl e | Inr b \<Rightarrow> (if b then t else f))"

definition js_bind :: "('e, 'a) result \<Rightarrow> ('a \<Rightarrow> ('e, 'b) result) \<Rightarrow> ('e, 'b) result" where
  "js_bind m k = (case m of Inl e \<Rightarrow> Inl e | Inr a \<Rightarrow> k a)"

definition throw_if :: "bool \<Rightarrow> 'e \<Rightarrow> ('e, 'a) result \<Rightarrow> ('e, 'a) result" where
  "throw_if b e k = (if b then Inl e else k)"

text \<open>\<^verbatim>\<open>x !== null && p(x)\<close> for a predicate that may throw.\<close>

definition some_js :: "'a option \<Rightarrow> ('a \<Rightarrow> ('e, bool) result) \<Rightarrow> ('e, bool) result" where
  "some_js x p = (case x of None \<Rightarrow> Inr False | Some a \<Rightarrow> p a)"

text \<open>\<^verbatim>\<open>x ?? d\<close>.\<close>

definition nvl :: "'a option \<Rightarrow> 'a \<Rightarrow> 'a" where
  "nvl x d = (case x of None \<Rightarrow> d | Some a \<Rightarrow> a)"

lemma all_js_True [js_simps]: "all_js cs = Inr True \<longleftrightarrow> list_all (\<lambda>c. c = Inr True) cs"
  by (induction cs rule: all_js.induct) (auto split: sum.splits)

declare all_js.simps [simp del]

lemma all_js_no_throw: "list_all (\<lambda>c. \<exists>b. c = Inr b) cs \<Longrightarrow> \<exists>b. all_js cs = Inr b"
  by (induction cs rule: all_js.induct) (auto simp: all_js.simps)

lemma all_js_throw: "all_js cs = Inl e \<Longrightarrow> Inl e \<in> set cs"
  by (induction cs rule: all_js.induct) (auto simp: all_js.simps split: sum.splits if_splits)

lemma js_if_Inr [js_simps]:
  "js_if c t f = Inr r \<longleftrightarrow> (c = Inr True \<and> t = Inr r) \<or> (c = Inr False \<and> f = Inr r)"
  by (auto simp: js_if_def split: sum.splits)

lemma js_if_simps [simp]:
  "js_if (Inr True) t f = t" "js_if (Inr False) t f = f" "js_if (Inl e) t f = Inl e"
  by (simp_all add: js_if_def)

lemma js_bind_Inr [js_simps]: "js_bind m k = Inr r \<longleftrightarrow> (\<exists>a. m = Inr a \<and> k a = Inr r)"
  by (auto simp: js_bind_def split: sum.splits)

lemma js_bind_simps [simp]: "js_bind (Inl e) k = Inl e" "js_bind (Inr a) k = k a"
  by (simp_all add: js_bind_def)

lemma throw_if_Inr [js_simps]: "throw_if b e k = Inr r \<longleftrightarrow> \<not> b \<and> k = Inr r"
  by (simp add: throw_if_def)

lemma throw_if_simps [simp]: "throw_if True e k = Inl e" "throw_if False e k = k"
  by (simp_all add: throw_if_def)

lemma some_js_Inr_True [js_simps]: "some_js x p = Inr True \<longleftrightarrow> (\<exists>a. x = Some a \<and> p a = Inr True)"
  by (auto simp: some_js_def split: option.splits)

lemma some_js_simps [simp]: "some_js None p = Inr False" "some_js (Some a) p = p a"
  by (simp_all add: some_js_def)

lemma nvl_simps [simp, js_simps]: "nvl None d = d" "nvl (Some a) d = a"
  by (simp_all add: nvl_def)


section \<open>Strings\<close>

definition lower_char :: "char \<Rightarrow> char" where
  "lower_char c = (let n = (of_char c :: nat) in if 65 \<le> n \<and> n \<le> 90 then char_of (n + 32) else c)"

definition upper_char :: "char \<Rightarrow> char" where
  "upper_char c = (let n = (of_char c :: nat) in if 97 \<le> n \<and> n \<le> 122 then char_of (n - 32) else c)"

definition to_lower :: "string \<Rightarrow> string" where
  "to_lower s = map lower_char s"

definition to_upper :: "string \<Rightarrow> string" where
  "to_upper s = map upper_char s"

definition char_in :: "nat \<Rightarrow> nat \<Rightarrow> char \<Rightarrow> bool" where
  "char_in lo hi c \<longleftrightarrow> lo \<le> (of_char c :: nat) \<and> (of_char c :: nat) \<le> hi"

text \<open>The character classes \<^verbatim>\<open>[0-9]\<close>, \<^verbatim>\<open>[0-9a-f]\<close> and \<^verbatim>\<open>[0-9a-fA-F]\<close>.\<close>

definition is_digit :: "char \<Rightarrow> bool" where
  "is_digit c \<longleftrightarrow> char_in 48 57 c"

definition is_hex_lower :: "char \<Rightarrow> bool" where
  "is_hex_lower c \<longleftrightarrow> is_digit c \<or> char_in 97 102 c"

definition is_hex_any :: "char \<Rightarrow> bool" where
  "is_hex_any c \<longleftrightarrow> is_hex_lower c \<or> char_in 65 70 c"

text \<open>\<^verbatim>\<open>/^<prefix>[class]{n}$/\<close>: a fixed prefix and exactly \<open>n\<close> characters of one class.\<close>

definition matches :: "string \<Rightarrow> (char \<Rightarrow> bool) \<Rightarrow> nat \<Rightarrow> string \<Rightarrow> bool" where
  "matches pre cls n s \<longleftrightarrow>
     take (length pre) s = pre \<and> length s = length pre + n \<and> list_all cls (drop (length pre) s)"

lemma length_to_lower [simp]: "length (to_lower s) = length s"
  by (simp add: to_lower_def)

lemma lower_char_idem [simp]: "lower_char (lower_char c) = lower_char c"
proof (cases "65 \<le> (of_char c :: nat) \<and> (of_char c :: nat) \<le> 90")
  case True
  then have "(of_char (char_of (of_char c + 32 :: nat) :: char) :: nat) = of_char c + 32"
    by (simp add: of_char_of)
  with True show ?thesis by (simp add: lower_char_def Let_def)
next
  case False
  then have "lower_char c = c" by (auto simp: lower_char_def Let_def)
  then show ?thesis by simp
qed

lemma to_lower_idem [simp]: "to_lower (to_lower s) = to_lower s"
  by (simp add: to_lower_def)

lemma to_lower_append [simp]: "to_lower (s @ t) = to_lower s @ to_lower t"
  by (simp add: to_lower_def)

lemma matches_length: "matches pre cls n s \<Longrightarrow> length s = length pre + n"
  by (simp add: matches_def)


section \<open>Insertion-ordered maps\<close>

text \<open>
  \<^verbatim>\<open>Map.get\<close>, \<^verbatim>\<open>Map.set\<close> and \<^verbatim>\<open>Map.delete\<close> are \<^const>\<open>map_of\<close>,
  \<^const>\<open>AList.update\<close> (in place for a present key, appended otherwise) and
  \<^const>\<open>AList.delete\<close>. A map never holds a key twice: \<^term>\<open>distinct (map fst m)\<close>.
\<close>

type_synonym ('k, 'v) omap = "('k \<times> 'v) list"

abbreviation omap_wf :: "('k, 'v) omap \<Rightarrow> bool" where
  "omap_wf m \<equiv> distinct (map fst m)"

lemma map_of_omap_update [js_simps]: "map_of (AList.update k v m) = (map_of m)(k \<mapsto> v)"
  by (rule update_conv')

lemma map_of_omap_delete [js_simps]: "map_of (AList.delete k m) = (map_of m)(k := None)"
  by (rule delete_conv')

lemma omap_wf_update [js_intros]: "omap_wf m \<Longrightarrow> omap_wf (AList.update k v m)"
  by (rule distinct_update)

lemma omap_wf_delete [js_intros]: "omap_wf m \<Longrightarrow> omap_wf (AList.delete k m)"
  by (rule distinct_delete)

lemma omap_update_length:
  "length (AList.update k v m) = (if k \<in> fst ` set m then length m else Suc (length m))"
  by (induction m) auto

lemma omap_update_values: "snd ` set (AList.update k v m) \<subseteq> insert v (snd ` set m)"
  by (induction m) auto

lemma omap_update_present:
  "omap_wf m \<Longrightarrow> map_of m k = Some w \<Longrightarrow>
     length (filter P (map snd (AList.update k v m)))
       = length (filter P (map snd m)) + (if P v then 1 else 0) - (if P w then 1 else 0)"
proof (induction m)
  case Nil
  then show ?case by simp
next
  case (Cons p m)
  obtain k' w' where p: "p = (k', w')" by force
  show ?case
  proof (cases "k' = k")
    case True
    with Cons.prems p show ?thesis by auto
  next
    case False
    with Cons.prems p have m: "map_of m k = Some w" "omap_wf m" by auto
    have "P w \<longrightarrow> 0 < length (filter P (map snd m))"
    proof
      assume "P w"
      from m(1) have "w \<in> set (map snd m)" by (force dest: map_of_SomeD)
      with \<open>P w\<close> have "filter P (map snd m) \<noteq> []" by (auto simp: filter_empty_conv)
      then show "0 < length (filter P (map snd m))" by blast
    qed
    with False p Cons.IH [OF m(2) m(1)] show ?thesis by auto
  qed
qed

lemma omap_update_absent:
  "map_of m k = None \<Longrightarrow> AList.update k v m = m @ [(k, v)]"
  by (induction m) auto


text \<open>The total of a measure over the values of a map, as one key is written or removed.\<close>

definition omap_sum :: "('k \<Rightarrow> 'v \<Rightarrow> int) \<Rightarrow> ('k, 'v) omap \<Rightarrow> int" where
  "omap_sum f m = sum_list (map (\<lambda>p. f (fst p) (snd p)) m)"

lemma omap_sum_Nil [simp]: "omap_sum f [] = 0"
  by (simp add: omap_sum_def)

lemma omap_sum_update:
  "omap_wf m \<Longrightarrow> omap_sum f (AList.update k v m)
     = omap_sum f m + f k v - (case map_of m k of None \<Rightarrow> 0 | Some w \<Rightarrow> f k w)"
  by (induction m) (auto simp: omap_sum_def split: option.splits)

lemma omap_sum_nonneg: "\<forall>(k, v)\<in>set m. 0 \<le> f k v \<Longrightarrow> 0 \<le> omap_sum f m"
  by (induction m) (auto simp: omap_sum_def)

lemma omap_sum_member:
  "\<forall>(k, v)\<in>set m. 0 \<le> f k v \<Longrightarrow> map_of m k = Some w \<Longrightarrow> f k w \<le> omap_sum f m"
proof (induction m)
  case Nil
  then show ?case by simp
next
  case (Cons p m)
  have "0 \<le> omap_sum f m" using Cons.prems(1) by (intro omap_sum_nonneg) auto
  with Cons show ?case by (auto simp: omap_sum_def split: if_splits)
qed


section \<open>Stable comparator sort\<close>

text \<open>
  \<^verbatim>\<open>xs.sort(cmp)\<close>: a stable sort by a comparator whose non-positive result keeps the order
  of its two arguments.
\<close>

fun js_insort :: "('a \<Rightarrow> 'a \<Rightarrow> int) \<Rightarrow> 'a \<Rightarrow> 'a list \<Rightarrow> 'a list" where
  "js_insort cmp x [] = [x]"
| "js_insort cmp x (y # ys) = (if cmp x y \<le> 0 then x # y # ys else y # js_insort cmp x ys)"

fun js_sort :: "('a \<Rightarrow> 'a \<Rightarrow> int) \<Rightarrow> 'a list \<Rightarrow> 'a list" where
  "js_sort cmp [] = []"
| "js_sort cmp (x # xs) = js_insort cmp x (js_sort cmp xs)"

text \<open>\<^verbatim>\<open>xs[0] ?? null\<close>.\<close>

definition first_of :: "'a list \<Rightarrow> 'a option" where
  "first_of xs = (case xs of [] \<Rightarrow> None | x # _ \<Rightarrow> Some x)"

text \<open>\<^verbatim>\<open>a || b\<close> on comparator results: the first nonzero one.\<close>

definition or_else :: "int \<Rightarrow> int \<Rightarrow> int" where
  "or_else a b = (if a \<noteq> 0 then a else b)"

text \<open>\<^verbatim>\<open>a.localeCompare(b)\<close> on the lowercase hexadecimal digests it is applied to.\<close>

definition locale_compare :: "string \<Rightarrow> string \<Rightarrow> int" where
  "locale_compare a b = (if a < b then -1 else if a = b then 0 else 1)"

lemma set_js_insort [simp]: "set (js_insort cmp x ys) = insert x (set ys)"
  by (induction ys) auto

lemma set_js_sort [simp]: "set (js_sort cmp xs) = set xs"
  by (induction xs) auto

lemma length_js_insort [simp]: "length (js_insort cmp x ys) = Suc (length ys)"
  by (induction ys) auto

lemma length_js_sort [simp]: "length (js_sort cmp xs) = length xs"
  by (induction xs) auto

lemma first_of_Some: "first_of xs = Some x \<longleftrightarrow> (\<exists>ys. xs = x # ys)"
  by (auto simp: first_of_def split: list.splits)

lemma first_of_None [simp]: "first_of xs = None \<longleftrightarrow> xs = []"
  by (auto simp: first_of_def split: list.splits)

text \<open>
  The contract a comparator has to meet on the elements it is used on: any two are comparable
  and the order is transitive. Its client, the sort, then returns a least element first.
\<close>

locale js_comparator =
  fixes cmp :: "'a \<Rightarrow> 'a \<Rightarrow> int"
    and carrier :: "'a \<Rightarrow> bool"
  assumes cmp_total: "carrier x \<Longrightarrow> carrier y \<Longrightarrow> cmp x y \<le> 0 \<or> cmp y x \<le> 0"
    and cmp_trans: "carrier x \<Longrightarrow> carrier y \<Longrightarrow> carrier z \<Longrightarrow>
      cmp x y \<le> 0 \<Longrightarrow> cmp y z \<le> 0 \<Longrightarrow> cmp x z \<le> 0"
begin

lemma insort_sorted:
  "carrier x \<Longrightarrow> \<forall>y\<in>set ys. carrier y \<Longrightarrow> sorted_wrt (\<lambda>a b. cmp a b \<le> 0) ys \<Longrightarrow>
     sorted_wrt (\<lambda>a b. cmp a b \<le> 0) (js_insort cmp x ys)"
proof (induction ys)
  case Nil
  then show ?case by simp
next
  case (Cons y ys)
  show ?case
  proof (cases "cmp x y \<le> 0")
    case True
    with Cons.prems show ?thesis by (auto intro: cmp_trans)
  next
    case False
    with Cons.prems cmp_total have "cmp y x \<le> 0" by force
    with False Cons show ?thesis by auto
  qed
qed

lemma sort_sorted:
  "\<forall>x\<in>set xs. carrier x \<Longrightarrow> sorted_wrt (\<lambda>a b. cmp a b \<le> 0) (js_sort cmp xs)"
  by (induction xs) (auto intro!: insort_sorted)

lemma sort_first_least:
  assumes "\<forall>x\<in>set xs. carrier x" and "first_of (js_sort cmp xs) = Some m"
  shows "m \<in> set xs \<and> (\<forall>x\<in>set xs. cmp m x \<le> 0)"
proof -
  from assms(2) obtain ys where ys: "js_sort cmp xs = m # ys"
    by (auto simp: first_of_Some)
  then have m: "set xs = insert m (set ys)"
    using set_js_sort [of cmp xs] by simp
  then have "cmp m m \<le> 0" using assms(1) cmp_total by blast
  moreover from sort_sorted [OF assms(1)] ys have "\<forall>y\<in>set ys. cmp m y \<le> 0" by simp
  ultimately show ?thesis using m by auto
qed

end

end
