(* ===== verification/Address.thy ===== *)
theory Address
  imports Prelude
begin

text \<open>
  QRL and Ethereum account spellings: \<^verbatim>\<open>marketmaker/src/qip55.ts\<close>, the address comparison
  of \<^verbatim>\<open>marketmaker/src/htlc.ts\<close> and the one of \<^verbatim>\<open>frontend/src/lib/swapMachine.ts\<close>
  with \<^verbatim>\<open>frontend/src/lib/qrlAddress.ts\<close>. A QIP-55 account is an uppercase \<open>Q\<close> and
  64 bytes of hexadecimal in uniform case or in the case pattern of its SHAKE256 checksum.
  SHAKE256 itself is library code: the argument \<open>shake\<close> of every definition here, from the
  text that is hashed to the digest bytes.
\<close>

type_synonym shake256 = "string \<Rightarrow> nat list"

datatype addr_error =
    Qip55DeploymentError
  | InvalidQrlChecksum
  | Qip55PortableOrderError
  | NotMlDsaKey
  | UnknownAddressShape

definition QIP55_QRL_ADDRESS_RE :: "string \<Rightarrow> bool" where
  "QIP55_QRL_ADDRESS_RE s \<longleftrightarrow> matches ''Q'' is_hex_any 128 s"

definition LEGACY_QRL_ADDRESS_RE :: "string \<Rightarrow> bool" where
  "LEGACY_QRL_ADDRESS_RE s \<longleftrightarrow> matches ''Q'' is_hex_any 40 s"

definition QRVM_ADDRESS_RE :: "string \<Rightarrow> bool" where
  "QRVM_ADDRESS_RE s \<longleftrightarrow> matches ''0x'' is_hex_any 128 s"

definition ETH_ADDRESS_RE :: "string \<Rightarrow> bool" where
  "ETH_ADDRESS_RE s \<longleftrightarrow> matches ''0x'' is_hex_any 40 s"

definition QRVM_ZERO_ADDRESS :: string where
  "QRVM_ZERO_ADDRESS = ''0x'' @ replicate 128 (CHR ''0'')"

definition NATIVE_TOKEN :: string where
  "NATIVE_TOKEN = ''0x'' @ replicate 40 (CHR ''0'')"

definition checksummed_char :: "nat list \<Rightarrow> nat \<Rightarrow> char \<Rightarrow> char" where
  "checksummed_char hash index ch =
     (if char_in 97 102 ch then
        (let byte = (if index div 2 < length hash then hash ! (index div 2) else 0);
             nibble = (if even index then byte div 16 else byte mod 16)
         in if 8 \<le> nibble then upper_char ch else ch)
      else ch)"

fun checksum_from :: "nat list \<Rightarrow> nat \<Rightarrow> string \<Rightarrow> string" where
  "checksum_from hash index [] = []"
| "checksum_from hash index (c # cs) =
     checksummed_char hash index c # checksum_from hash (Suc index) cs"

definition checksummedHex :: "shake256 \<Rightarrow> string \<Rightarrow> string" where
  "checksummedHex shake lowerHex = checksum_from (shake lowerHex) 0 lowerHex"

definition isQip55QrlAddress :: "shake256 \<Rightarrow> string \<Rightarrow> bool" where
  "isQip55QrlAddress shake value \<longleftrightarrow>
     QIP55_QRL_ADDRESS_RE value \<and>
     (let body = drop 1 value; lower = to_lower body
      in body = lower \<or> body = to_upper body \<or> body = checksummedHex shake lower)"

definition canonicalQip55QrlAddress :: "shake256 \<Rightarrow> string \<Rightarrow> (addr_error, string) result" where
  "canonicalQip55QrlAddress shake value =
     (if \<not> isQip55QrlAddress shake value
      then (if LEGACY_QRL_ADDRESS_RE value then Inl Qip55DeploymentError else Inl InvalidQrlChecksum)
      else Inr (CHR ''Q'' # checksummedHex shake (to_lower (drop 1 value))))"

definition hex_digit :: "nat \<Rightarrow> char" where
  "hex_digit n = char_of (if n < 10 then 48 + n else 87 + n)"

definition hex_of_bytes :: "nat list \<Rightarrow> string" where
  "hex_of_bytes bs = concat (map (\<lambda>b. [hex_digit (b div 16), hex_digit (b mod 16)]) bs)"

definition deriveQip55Address ::
    "shake256 \<Rightarrow> (nat list \<Rightarrow> nat list) \<Rightarrow> nat list \<Rightarrow> nat list \<Rightarrow> (addr_error, string) result" where
  "deriveQip55Address shake shakeBytes descriptor publicKey =
     (if length descriptor \<noteq> 3 \<or> hd descriptor \<noteq> 1 \<or> length publicKey \<noteq> 2592
      then Inl NotMlDsaKey
      else Inr (CHR ''Q'' # checksummedHex shake (hex_of_bytes (shakeBytes (descriptor @ publicKey)))))"

definition assertPortableOrderV1CanSign :: "shake256 \<Rightarrow> string \<Rightarrow> (addr_error, unit) result" where
  "assertPortableOrderV1CanSign shake account =
     (if isQip55QrlAddress shake account then Inr () else Inl Qip55PortableOrderError)"

definition assertQip55Deployment :: "shake256 \<Rightarrow> string \<Rightarrow> (addr_error, unit) result" where
  "assertQip55Deployment shake htlc = js_bind (canonicalQip55QrlAddress shake htlc) (\<lambda>_. Inr ())"

definition assertQip55ExecutionReady :: "shake256 \<Rightarrow> string \<Rightarrow> string \<Rightarrow> (addr_error, unit) result" where
  "assertQip55ExecutionReady shake account htlc =
     js_bind (canonicalQip55QrlAddress shake account)
       (\<lambda>_. js_bind (canonicalQip55QrlAddress shake htlc) (\<lambda>_. Inr ()))"

definition qrlOrEthHex :: "shake256 \<Rightarrow> string \<Rightarrow> (addr_error, string) result" where
  "qrlOrEthHex shake address =
     (if isQip55QrlAddress shake address then Inr (''0x'' @ drop 1 address)
      else if QRVM_ADDRESS_RE address \<or> ETH_ADDRESS_RE address then Inr address
      else Inl UnknownAddressShape)"

text \<open>The market maker's comparison throws on a malformed address; the browser's answers false.\<close>

definition sameAddr :: "shake256 \<Rightarrow> string \<Rightarrow> string \<Rightarrow> (addr_error, bool) result" where
  "sameAddr shake a b =
     js_bind (qrlOrEthHex shake a)
       (\<lambda>ha. js_bind (qrlOrEthHex shake b) (\<lambda>hb. Inr (to_lower ha = to_lower hb)))"

definition sameAddr_ui :: "shake256 \<Rightarrow> string \<Rightarrow> string \<Rightarrow> bool" where
  "sameAddr_ui shake a b = (case sameAddr shake a b of Inl _ \<Rightarrow> False | Inr r \<Rightarrow> r)"


section \<open>Case folding and checksums\<close>

lemma lower_char_upper_af: "char_in 97 102 c \<Longrightarrow> lower_char (upper_char c) = c"
proof -
  assume c: "char_in 97 102 c"
  then have n: "97 \<le> (of_char c :: nat)" "(of_char c :: nat) \<le> 102" by (simp_all add: char_in_def)
  then have u: "upper_char c = char_of (of_char c - 32 :: nat)"
    by (simp add: upper_char_def Let_def)
  have v: "(of_char (upper_char c) :: nat) = of_char c - 32"
    using n by (simp add: u)
  have "65 \<le> (of_char c - 32 :: nat)" "(of_char c - 32 :: nat) \<le> 90"
    "(of_char c - 32 + 32 :: nat) = of_char c"
    using n by arith+
  then show ?thesis by (simp add: lower_char_def Let_def v)
qed

lemma lower_char_hex_lower: "is_hex_lower c \<Longrightarrow> lower_char c = c"
  by (auto simp: is_hex_lower_def is_digit_def char_in_def lower_char_def Let_def)

lemma is_hex_lower_lower: "is_hex_any c \<Longrightarrow> is_hex_lower (lower_char c)"
proof -
  assume c: "is_hex_any c"
  show ?thesis
  proof (cases "is_hex_lower c")
    case True
    then show ?thesis by (simp add: lower_char_hex_lower)
  next
    case False
    with c have n: "65 \<le> (of_char c :: nat)" "(of_char c :: nat) \<le> 70"
      by (simp_all add: is_hex_any_def char_in_def)
    then have "(of_char (lower_char c) :: nat) = of_char c + 32"
      by (simp add: lower_char_def Let_def)
    with n show ?thesis by (simp add: is_hex_lower_def char_in_def)
  qed
qed

lemma upper_af_hex_any: "char_in 97 102 c \<Longrightarrow> is_hex_any (upper_char c)"
proof -
  assume "char_in 97 102 c"
  then have n: "97 \<le> (of_char c :: nat)" "(of_char c :: nat) \<le> 102" by (simp_all add: char_in_def)
  then have "(of_char (upper_char c) :: nat) = of_char c - 32"
    by (simp add: upper_char_def Let_def)
  moreover have "65 \<le> (of_char c - 32 :: nat)" "(of_char c - 32 :: nat) \<le> 70"
    using n by arith+
  ultimately show ?thesis by (simp add: is_hex_any_def char_in_def)
qed

lemma length_checksum_from [simp]: "length (checksum_from h i s) = length s"
  by (induction s arbitrary: i) auto

lemma length_checksummedHex [simp]: "length (checksummedHex shake s) = length s"
  by (simp add: checksummedHex_def)

lemma lower_checksum_from: "list_all is_hex_lower s \<Longrightarrow> to_lower (checksum_from h i s) = s"
proof (induction s arbitrary: i)
  case Nil
  then show ?case by (simp add: to_lower_def)
next
  case (Cons c s)
  then have "lower_char (checksummed_char h i c) = c"
    by (auto simp: checksummed_char_def Let_def lower_char_upper_af lower_char_hex_lower)
  with Cons show ?case by (simp add: to_lower_def)
qed

lemma lower_checksummedHex [simp]: "list_all is_hex_lower s \<Longrightarrow> to_lower (checksummedHex shake s) = s"
  by (simp add: checksummedHex_def lower_checksum_from)

lemma checksum_from_zero: "\<forall>b\<in>set h. b = 0 \<Longrightarrow> checksum_from h i s = s"
  by (induction s arbitrary: i) (auto simp: checksummed_char_def Let_def all_set_conv_all_nth)

lemma hex_any_checksum_from: "list_all is_hex_lower s \<Longrightarrow> list_all is_hex_any (checksum_from h i s)"
proof (induction s arbitrary: i)
  case Nil
  then show ?case by simp
next
  case (Cons c s)
  then have "is_hex_any (checksummed_char h i c)"
    by (auto simp: checksummed_char_def Let_def upper_af_hex_any) (simp_all add: is_hex_any_def)
  with Cons show ?case by simp
qed

lemma hex_lower_to_lower: "list_all is_hex_any s \<Longrightarrow> list_all is_hex_lower (to_lower s)"
  by (induction s) (auto simp: to_lower_def is_hex_lower_lower)

lemma checksummed_is_qip55:
  "list_all is_hex_lower s \<Longrightarrow> length s = 128 \<Longrightarrow>
     isQip55QrlAddress shake (CHR ''Q'' # checksummedHex shake s)"
  by (simp add: isQip55QrlAddress_def QIP55_QRL_ADDRESS_RE_def matches_def Let_def
      checksummedHex_def hex_any_checksum_from lower_checksum_from)

lemma qip55_body:
  "isQip55QrlAddress shake a \<Longrightarrow>
     \<exists>body. a = CHR ''Q'' # body \<and> length body = 128 \<and> list_all is_hex_lower (to_lower body)"
  by (cases a) (auto simp: isQip55QrlAddress_def QIP55_QRL_ADDRESS_RE_def matches_def
      intro: hex_lower_to_lower)

lemma hex_digit_lower: "n < 16 \<Longrightarrow> is_hex_lower (hex_digit n)"
  by (auto simp: hex_digit_def is_hex_lower_def is_digit_def char_in_def)

lemma hex_of_bytes_lower: "\<forall>b\<in>set bs. b < 256 \<Longrightarrow> list_all is_hex_lower (hex_of_bytes bs)"
  by (induction bs) (auto simp: hex_of_bytes_def intro!: hex_digit_lower)

lemma length_hex_of_bytes [simp]: "length (hex_of_bytes bs) = 2 * length bs"
  by (induction bs) (auto simp: hex_of_bytes_def)


section \<open>Address identity\<close>

lemma sameAddr_sym: "sameAddr shake a b = Inr r \<Longrightarrow> sameAddr shake b a = Inr r"
  by (auto simp: sameAddr_def js_simps)

lemma sameAddr_trans:
  "sameAddr shake a b = Inr True \<Longrightarrow> sameAddr shake b c = Inr True \<Longrightarrow> sameAddr shake a c = Inr True"
  by (auto simp: sameAddr_def js_simps)

lemma sameAddr_refl: "qrlOrEthHex shake a = Inr h \<Longrightarrow> sameAddr shake a a = Inr True"
  by (simp add: sameAddr_def)

lemma sameAddr_ui_True [simp]: "sameAddr_ui shake a b \<longleftrightarrow> sameAddr shake a b = Inr True"
  by (auto simp: sameAddr_ui_def split: sum.splits)

lemma sameAddr_eth: "ETH_ADDRESS_RE a \<Longrightarrow> ETH_ADDRESS_RE b \<Longrightarrow>
    sameAddr shake a b = Inr (to_lower a = to_lower b)"
proof -
  have "isQip55QrlAddress shake x \<Longrightarrow> \<not> ETH_ADDRESS_RE x" for x
    by (cases x) (auto simp: isQip55QrlAddress_def QIP55_QRL_ADDRESS_RE_def ETH_ADDRESS_RE_def matches_def)
  then show "ETH_ADDRESS_RE a \<Longrightarrow> ETH_ADDRESS_RE b \<Longrightarrow> ?thesis"
    by (auto simp: sameAddr_def qrlOrEthHex_def)
qed

lemma canonical_lower:
  "canonicalQip55QrlAddress shake a = Inr c \<Longrightarrow> to_lower c = to_lower a"
proof -
  assume c: "canonicalQip55QrlAddress shake a = Inr c"
  then have q: "isQip55QrlAddress shake a"
    by (auto simp: canonicalQip55QrlAddress_def split: if_splits)
  then obtain body where b: "a = CHR ''Q'' # body" "list_all is_hex_lower (to_lower body)"
    using qip55_body by blast
  with c q show ?thesis
    using lower_checksummedHex [OF b(2), of shake]
    by (auto simp: canonicalQip55QrlAddress_def to_lower_def)
qed

lemma canonical_fixpoint:
  assumes "canonicalQip55QrlAddress shake a = Inr c"
  shows "canonicalQip55QrlAddress shake c = Inr c"
proof -
  from assms have q: "isQip55QrlAddress shake a"
    by (auto simp: canonicalQip55QrlAddress_def split: if_splits)
  then obtain body where b: "a = CHR ''Q'' # body" "length body = 128"
      "list_all is_hex_lower (to_lower body)"
    using qip55_body by blast
  with assms q have c: "c = CHR ''Q'' # checksummedHex shake (to_lower body)"
    by (auto simp: canonicalQip55QrlAddress_def)
  have "isQip55QrlAddress shake c"
    unfolding c by (rule checksummed_is_qip55) (use b in auto)
  with b(3) show ?thesis by (simp add: canonicalQip55QrlAddress_def c)
qed

text \<open>
  two spellings have the same canonical QIP-55 form exactly when they differ only in letter
  case, and the canonical form is itself accepted and is its own canonical form.
\<close>

lemma canonical_identity:
  assumes "canonicalQip55QrlAddress shake a = Inr ca"
    and "canonicalQip55QrlAddress shake b = Inr cb"
  shows "(ca = cb \<longleftrightarrow> to_lower a = to_lower b) \<and> isQip55QrlAddress shake ca \<and>
    canonicalQip55QrlAddress shake ca = Inr ca"
proof -
  have fix_a: "canonicalQip55QrlAddress shake ca = Inr ca"
    using assms(1) by (rule canonical_fixpoint)
  have "to_lower a = to_lower b \<Longrightarrow> ca = cb"
    using assms by (auto simp: canonicalQip55QrlAddress_def to_lower_def drop_map [symmetric]
        split: if_splits)
  moreover have "ca = cb \<Longrightarrow> to_lower a = to_lower b"
    using assms canonical_lower by metis
  moreover have "isQip55QrlAddress shake ca"
    using fix_a by (auto simp: canonicalQip55QrlAddress_def split: if_splits)
  ultimately show ?thesis using fix_a by blast
qed

lemma derived_address_valid:
  assumes "deriveQip55Address shake shakeBytes d pk = Inr a"
    and "length (shakeBytes (d @ pk)) = 64" and "\<forall>b\<in>set (shakeBytes (d @ pk)). b < 256"
  shows "isQip55QrlAddress shake a \<and> canonicalQip55QrlAddress shake a = Inr a"
proof -
  let ?s = "hex_of_bytes (shakeBytes (d @ pk))"
  have low: "list_all is_hex_lower ?s" using assms(3) by (rule hex_of_bytes_lower)
  have a: "a = CHR ''Q'' # checksummedHex shake ?s"
    using assms(1) by (auto simp: deriveQip55Address_def split: if_splits)
  have q: "isQip55QrlAddress shake a"
    unfolding a by (rule checksummed_is_qip55) (use low assms(2) in auto)
  then show ?thesis using low by (simp add: canonicalQip55QrlAddress_def a)
qed

end
