(* ===== verification/Htlc_Contract.thy ===== *)
theory Htlc_Contract
  imports Prelude
begin

text \<open>
  The escrow contract both legs of a swap run on, \<^verbatim>\<open>contracts/hyperion/HTLCv3.hyp\<close>: its
  storage, every external function with its guards in source order, the best-effort delivery that
  ends as a payout or as a credit, and the transitions between calls. What the contract promises
  is proved over every reachable state: value conservation per token, the write-once life cycle of
  a hashlock (a refinement of a four-state machine), settlements that no payout failure can undo,
  and credits that only their owner can redirect.

  The chain and the token contracts are not part of the source. \<open>sha\<close> is the hash function;
  a \<open>tx\<close> record carries what one call sees of its environment: who calls, with what value and
  at what time, whether the recipient and the delivery gas let a payout through, and what the token
  answered. \<open>balances\<close> is the contract's balance as the token (or the chain, for the native
  coin) reports it: it moves with the contract's own transfers, and may grow by value forced in, but
  a token that lowers it on its own (a negative rebase) is outside the model. \<open>paid\<close> lists the
  transfers the contract has made, each with its token, its recipient and its amount. Amounts are \<open>uint256\<close> values with the checked arithmetic of the language:
  an addition past \<open>2 ^ 256\<close> reverts.
\<close>

type_synonym addr = string
type_synonym bytes32 = string

datatype swap_status = SNone | SOpen | SClaimed | SRefunded

record swap =
  s_initiator :: addr
  s_recipient :: addr
  s_token :: addr
  s_amount :: nat
  s_timeout :: nat
  s_status :: swap_status
  s_preimage :: bytes32

datatype htlc_error =
    HashlockAlreadyUsed | InvalidParams | SwapNotOpen | WrongPreimage | TimeoutNotReached
  | TimeoutPassed | TransferFailed | UnsupportedToken | Reentrancy | NotInitiator
  | AlreadyAssigned | NotAssigned | NoCredit | InsufficientCredit | Unauthorized
  | ArithmeticPanic

datatype htlc_event =
    Locked bytes32 addr addr addr nat nat
  | Assigned bytes32 addr
  | Claimed bytes32 bytes32 addr
  | Refunded bytes32
  | PayoutCredited addr addr bytes32 nat
  | PayoutWithdrawn addr addr addr nat

text \<open>What a token call handed back.\<close>

datatype token_ret = CallReverted | ReturnedNothing | ReturnedBool bool | ReturnedGarbage

record tx =
  tx_sender :: addr
  tx_value :: nat
  tx_now :: nat
  tx_delivery_gas :: bool
  tx_native_accepts :: bool
  tx_token_code :: bool
  tx_balance_readable :: bool
  tx_token_ret :: token_ret
  tx_balance_after :: "nat option"

record htlc_cfg =
  cfg_zero :: addr
  cfg_this :: addr
  cfg_zero32 :: bytes32
  cfg_sha :: "bytes32 \<Rightarrow> bytes32"

record htlc =
  swaps :: "(bytes32, swap) omap"
  credits :: "(addr \<times> addr, nat) omap"
  outstanding :: "addr \<Rightarrow> nat"
  entered :: nat
  balances :: "addr \<Rightarrow> nat"
  log :: "htlc_event list"
  paid :: "(addr \<times> addr \<times> nat) list"

definition init_htlc :: htlc where
  "init_htlc = \<lparr>swaps = [], credits = [], outstanding = (\<lambda>_. 0), entered = 1,
     balances = (\<lambda>_. 0), log = [], paid = []\<rparr>"

definition empty_swap :: "htlc_cfg \<Rightarrow> swap" where
  "empty_swap g = \<lparr>s_initiator = cfg_zero g, s_recipient = cfg_zero g, s_token = cfg_zero g,
     s_amount = 0, s_timeout = 0, s_status = SNone, s_preimage = cfg_zero32 g\<rparr>"

definition getSwap :: "htlc_cfg \<Rightarrow> htlc \<Rightarrow> bytes32 \<Rightarrow> swap" where
  "getSwap g c h = nvl (map_of (swaps c) h) (empty_swap g)"

definition creditOf :: "htlc \<Rightarrow> addr \<Rightarrow> addr \<Rightarrow> nat" where
  "creditOf c token account = nvl (map_of (credits c) (token, account)) 0"

definition outstandingCredit :: "htlc \<Rightarrow> addr \<Rightarrow> nat" where
  "outstandingCredit c token = outstanding c token"

definition deliveryGasPolicy :: "nat \<times> nat" where
  "deliveryGasPolicy = (100000, 150000)"

definition put_swap :: "htlc \<Rightarrow> bytes32 \<Rightarrow> swap \<Rightarrow> htlc" where
  "put_swap c h s = c\<lparr>swaps := AList.update h s (swaps c)\<rparr>"

definition emit :: "htlc_event \<Rightarrow> htlc \<Rightarrow> htlc" where
  "emit e c = c\<lparr>log := log c @ [e]\<rparr>"

definition checked_add :: "nat \<Rightarrow> nat \<Rightarrow> (htlc_error, nat) result" where
  "checked_add a b = (if a + b < 2 ^ 256 then Inr (a + b) else Inl ArithmeticPanic)"

definition checked_sub :: "nat \<Rightarrow> nat \<Rightarrow> (htlc_error, nat) result" where
  "checked_sub a b = (if b \<le> a then Inr (a - b) else Inl ArithmeticPanic)"

definition nonReentrant :: "(htlc \<Rightarrow> (htlc_error, htlc) result) \<Rightarrow> htlc \<Rightarrow> (htlc_error, htlc) result" where
  "nonReentrant body c =
     throw_if (entered c \<noteq> 1) Reentrancy
       (js_bind (body (c\<lparr>entered := 2\<rparr>)) (\<lambda>c'. Inr (c'\<lparr>entered := 1\<rparr>)))"

definition tokenCall :: "tx \<Rightarrow> (htlc_error, unit) result" where
  "tokenCall t = (case tx_token_ret t of
       CallReverted \<Rightarrow> Inl TransferFailed
     | ReturnedNothing \<Rightarrow> Inr ()
     | ReturnedBool b \<Rightarrow> (if b then Inr () else Inl TransferFailed)
     | ReturnedGarbage \<Rightarrow> Inl TransferFailed)"

definition balance_after :: "tx \<Rightarrow> (htlc_error, nat) result" where
  "balance_after t = (case tx_balance_after t of None \<Rightarrow> Inl TransferFailed | Some b \<Rightarrow> Inr b)"

text \<open>A transfer the contract makes: its balance moves and \<open>to\<close> is who gets the amount.\<close>

definition transfer_out :: "addr \<Rightarrow> addr \<Rightarrow> nat \<Rightarrow> nat \<Rightarrow> htlc \<Rightarrow> htlc" where
  "transfer_out token to amount left c =
     c\<lparr>balances := (balances c)(token := left), paid := paid c @ [(token, to, amount)]\<rparr>"

definition strictPayout :: "htlc_cfg \<Rightarrow> tx \<Rightarrow> htlc \<Rightarrow> addr \<Rightarrow> addr \<Rightarrow> nat \<Rightarrow> (htlc_error, htlc) result" where
  "strictPayout g t c token to amount =
     (if token = cfg_zero g then
        throw_if (\<not> tx_native_accepts t \<or> balances c token < amount) TransferFailed
          (Inr (transfer_out token to amount (balances c token - amount) c))
      else
        throw_if (\<not> tx_balance_readable t) TransferFailed
          (js_bind (tokenCall t) (\<lambda>_.
           js_bind (balance_after t) (\<lambda>b.
           js_bind (checked_sub (balances c token) b) (\<lambda>d.
           throw_if (d \<noteq> amount) TransferFailed
             (Inr (transfer_out token to amount b c)))))))"

definition selfDeliver :: "htlc_cfg \<Rightarrow> tx \<Rightarrow> htlc \<Rightarrow> addr \<Rightarrow> addr \<Rightarrow> nat \<Rightarrow> (htlc_error, htlc) result" where
  "selfDeliver g t c token to amount =
     throw_if (tx_sender t \<noteq> cfg_this g) Unauthorized (strictPayout g t c token to amount)"

definition record_credit :: "htlc \<Rightarrow> bytes32 \<Rightarrow> addr \<Rightarrow> addr \<Rightarrow> nat \<Rightarrow> (htlc_error, htlc) result" where
  "record_credit c h token payee amount =
     js_bind (checked_add (creditOf c token payee) amount) (\<lambda>cr.
     js_bind (checked_add (outstanding c token) amount) (\<lambda>os.
       Inr (emit (PayoutCredited token payee h amount)
         (c\<lparr>credits := AList.update (token, payee) cr (credits c),
            outstanding := (outstanding c)(token := os)\<rparr>))))"

definition settle :: "htlc_cfg \<Rightarrow> tx \<Rightarrow> htlc \<Rightarrow> bytes32 \<Rightarrow> addr \<Rightarrow> addr \<Rightarrow> nat \<Rightarrow> (htlc_error, htlc) result" where
  "settle g t c h token payee amount =
     (if tx_delivery_gas t
      then (case selfDeliver g (t\<lparr>tx_sender := cfg_this g\<rparr>) c token payee amount of
              Inr c' \<Rightarrow> Inr c'
            | Inl _ \<Rightarrow> record_credit c h token payee amount)
      else record_credit c h token payee amount)"

definition lock_internal :: "htlc_cfg \<Rightarrow> tx \<Rightarrow> htlc \<Rightarrow> bytes32 \<Rightarrow> addr \<Rightarrow> addr \<Rightarrow> nat \<Rightarrow> nat \<Rightarrow> bool
    \<Rightarrow> (htlc_error, htlc) result" where
  "lock_internal g t c h recipient token amount timeout openRecipient =
     throw_if (s_status (getSwap g c h) \<noteq> SNone) HashlockAlreadyUsed
    (throw_if (h = cfg_zero32 g \<or> amount = 0) InvalidParams
    (throw_if (amount > 2 ^ 128 - 1) InvalidParams
    (throw_if (\<not> openRecipient \<and> (recipient = cfg_zero g \<or> recipient = cfg_this g)) InvalidParams
    (throw_if (openRecipient \<and> recipient \<noteq> cfg_zero g) InvalidParams
    (throw_if (timeout \<le> tx_now t) InvalidParams
    (Inr (emit (Locked h (tx_sender t) recipient token amount timeout)
      (put_swap c h \<lparr>s_initiator = tx_sender t, s_recipient = recipient, s_token = token,
         s_amount = amount, s_timeout = timeout, s_status = SOpen,
         s_preimage = cfg_zero32 g\<rparr>))))))))"

definition lockToken_internal :: "htlc_cfg \<Rightarrow> tx \<Rightarrow> htlc \<Rightarrow> bytes32 \<Rightarrow> addr \<Rightarrow> addr \<Rightarrow> nat \<Rightarrow> nat \<Rightarrow> bool
    \<Rightarrow> (htlc_error, htlc) result" where
  "lockToken_internal g t c h recipient token amount timeout openRecipient =
     throw_if (token = cfg_zero g \<or> \<not> tx_token_code t) InvalidParams
       (js_bind (lock_internal g t c h recipient token amount timeout openRecipient) (\<lambda>c'.
        throw_if (\<not> tx_balance_readable t) TransferFailed
       (js_bind (tokenCall t) (\<lambda>_.
        js_bind (balance_after t) (\<lambda>b.
        js_bind (checked_sub b (balances c' token)) (\<lambda>d.
        throw_if (d \<noteq> amount) UnsupportedToken
          (Inr (c'\<lparr>balances := (balances c')(token := b)\<rparr>))))))))"

text \<open>A payable call arrives with its value already in the contract's native balance.\<close>

definition receive_value :: "htlc_cfg \<Rightarrow> tx \<Rightarrow> htlc \<Rightarrow> htlc" where
  "receive_value g t c =
     c\<lparr>balances := (balances c)(cfg_zero g := balances c (cfg_zero g) + tx_value t)\<rparr>"

definition lockNative :: "htlc_cfg \<Rightarrow> tx \<Rightarrow> bytes32 \<Rightarrow> addr \<Rightarrow> nat \<Rightarrow> htlc \<Rightarrow> (htlc_error, htlc) result" where
  "lockNative g t h recipient timeout = nonReentrant (\<lambda>c.
     lock_internal g t (receive_value g t c) h recipient (cfg_zero g) (tx_value t) timeout False)"

definition lockToken :: "htlc_cfg \<Rightarrow> tx \<Rightarrow> bytes32 \<Rightarrow> addr \<Rightarrow> addr \<Rightarrow> nat \<Rightarrow> nat \<Rightarrow> htlc
    \<Rightarrow> (htlc_error, htlc) result" where
  "lockToken g t h recipient token amount timeout = nonReentrant (\<lambda>c.
     lockToken_internal g t c h recipient token amount timeout False)"

definition lockNativeOpen :: "htlc_cfg \<Rightarrow> tx \<Rightarrow> bytes32 \<Rightarrow> nat \<Rightarrow> htlc \<Rightarrow> (htlc_error, htlc) result" where
  "lockNativeOpen g t h timeout = nonReentrant (\<lambda>c.
     lock_internal g t (receive_value g t c) h (cfg_zero g) (cfg_zero g) (tx_value t) timeout True)"

definition lockTokenOpen :: "htlc_cfg \<Rightarrow> tx \<Rightarrow> bytes32 \<Rightarrow> addr \<Rightarrow> nat \<Rightarrow> nat \<Rightarrow> htlc
    \<Rightarrow> (htlc_error, htlc) result" where
  "lockTokenOpen g t h token amount timeout = nonReentrant (\<lambda>c.
     lockToken_internal g t c h (cfg_zero g) token amount timeout True)"

definition assign :: "htlc_cfg \<Rightarrow> tx \<Rightarrow> bytes32 \<Rightarrow> addr \<Rightarrow> htlc \<Rightarrow> (htlc_error, htlc) result" where
  "assign g t h recipient = nonReentrant (\<lambda>c. let s = getSwap g c h in
     throw_if (s_status s \<noteq> SOpen) SwapNotOpen
    (throw_if (tx_sender t \<noteq> s_initiator s) NotInitiator
    (throw_if (s_recipient s \<noteq> cfg_zero g) AlreadyAssigned
    (throw_if (recipient = cfg_zero g \<or> recipient = cfg_this g) InvalidParams
    (throw_if (tx_now t \<ge> s_timeout s) TimeoutPassed
    (Inr (emit (Assigned h recipient) (put_swap c h (s\<lparr>s_recipient := recipient\<rparr>)))))))))"

definition release :: "htlc_cfg \<Rightarrow> tx \<Rightarrow> bytes32 \<Rightarrow> htlc \<Rightarrow> (htlc_error, htlc) result" where
  "release g t h = nonReentrant (\<lambda>c. let s = getSwap g c h in
     throw_if (s_status s \<noteq> SOpen) SwapNotOpen
    (throw_if (tx_sender t \<noteq> s_initiator s) NotInitiator
    (throw_if (s_recipient s \<noteq> cfg_zero g) AlreadyAssigned
    (settle g t (emit (Refunded h) (put_swap c h (s\<lparr>s_status := SRefunded\<rparr>)))
       h (s_token s) (s_initiator s) (s_amount s)))))"

definition claim :: "htlc_cfg \<Rightarrow> tx \<Rightarrow> bytes32 \<Rightarrow> bytes32 \<Rightarrow> htlc \<Rightarrow> (htlc_error, htlc) result" where
  "claim g t h preimage = nonReentrant (\<lambda>c. let s = getSwap g c h in
     throw_if (s_status s \<noteq> SOpen) SwapNotOpen
    (throw_if (s_recipient s = cfg_zero g) NotAssigned
    (throw_if (tx_now t \<ge> s_timeout s) TimeoutPassed
    (throw_if (cfg_sha g preimage \<noteq> h) WrongPreimage
    (settle g t (emit (Claimed h preimage (tx_sender t))
         (put_swap c h (s\<lparr>s_status := SClaimed, s_preimage := preimage\<rparr>)))
       h (s_token s) (s_recipient s) (s_amount s))))))"

definition refund :: "htlc_cfg \<Rightarrow> tx \<Rightarrow> bytes32 \<Rightarrow> htlc \<Rightarrow> (htlc_error, htlc) result" where
  "refund g t h = nonReentrant (\<lambda>c. let s = getSwap g c h in
     throw_if (s_status s \<noteq> SOpen) SwapNotOpen
    (throw_if (tx_now t < s_timeout s) TimeoutNotReached
    (settle g t (emit (Refunded h) (put_swap c h (s\<lparr>s_status := SRefunded\<rparr>)))
       h (s_token s) (s_initiator s) (s_amount s))))"

definition take_credit :: "htlc \<Rightarrow> addr \<Rightarrow> addr \<Rightarrow> addr \<Rightarrow> nat \<Rightarrow> nat \<Rightarrow> (htlc_error, htlc) result" where
  "take_credit c token account to credit amount =
     js_bind (checked_sub (outstanding c token) amount) (\<lambda>os.
       Inr (emit (PayoutWithdrawn token account to amount)
         (c\<lparr>credits := AList.update (token, account) (credit - amount) (credits c),
            outstanding := (outstanding c)(token := os)\<rparr>)))"

definition withdraw_internal :: "htlc_cfg \<Rightarrow> tx \<Rightarrow> htlc \<Rightarrow> addr \<Rightarrow> addr \<Rightarrow> nat \<Rightarrow> (htlc_error, htlc) result" where
  "withdraw_internal g t c token to amount =
     throw_if (to = cfg_zero g \<or> to = cfg_this g) InvalidParams
    (throw_if (amount = 0) NoCredit
    (throw_if (creditOf c token (tx_sender t) < amount) InsufficientCredit
    (js_bind (take_credit c token (tx_sender t) to (creditOf c token (tx_sender t)) amount)
       (\<lambda>c'. strictPayout g t c' token to amount))))"

definition withdraw :: "htlc_cfg \<Rightarrow> tx \<Rightarrow> addr \<Rightarrow> addr \<Rightarrow> nat \<Rightarrow> htlc \<Rightarrow> (htlc_error, htlc) result" where
  "withdraw g t token to amount = nonReentrant (\<lambda>c. withdraw_internal g t c token to amount)"

definition withdrawAll :: "htlc_cfg \<Rightarrow> tx \<Rightarrow> addr \<Rightarrow> addr \<Rightarrow> htlc \<Rightarrow> (htlc_error, htlc) result" where
  "withdrawAll g t token to =
     nonReentrant (\<lambda>c. withdraw_internal g t c token to (creditOf c token (tx_sender t)))"

definition pushCredit :: "htlc_cfg \<Rightarrow> tx \<Rightarrow> addr \<Rightarrow> addr \<Rightarrow> htlc \<Rightarrow> (htlc_error, htlc) result" where
  "pushCredit g t token account = nonReentrant (\<lambda>c.
     throw_if (creditOf c token account = 0) NoCredit
    (js_bind (take_credit c token account account (creditOf c token account) (creditOf c token account))
       (\<lambda>c'. strictPayout g t c' token account (creditOf c token account))))"

text \<open>
  The transitions of a deployed contract: any successful external call, in any environment, and
  value forced in from outside (a block reward, a self-destructing contract, a plain token
  transfer). A reverted call changes nothing.
\<close>

inductive htlc_step :: "htlc_cfg \<Rightarrow> htlc \<Rightarrow> htlc \<Rightarrow> bool" for g where
  step_lockNative: "lockNative g t h r to c = Inr c' \<Longrightarrow> htlc_step g c c'"
| step_lockToken: "lockToken g t h r tok a to c = Inr c' \<Longrightarrow> htlc_step g c c'"
| step_lockNativeOpen: "lockNativeOpen g t h to c = Inr c' \<Longrightarrow> htlc_step g c c'"
| step_lockTokenOpen: "lockTokenOpen g t h tok a to c = Inr c' \<Longrightarrow> htlc_step g c c'"
| step_assign: "assign g t h r c = Inr c' \<Longrightarrow> htlc_step g c c'"
| step_release: "release g t h c = Inr c' \<Longrightarrow> htlc_step g c c'"
| step_claim: "claim g t h p c = Inr c' \<Longrightarrow> htlc_step g c c'"
| step_refund: "refund g t h c = Inr c' \<Longrightarrow> htlc_step g c c'"
| step_withdraw: "withdraw g t tok to a c = Inr c' \<Longrightarrow> htlc_step g c c'"
| step_withdrawAll: "withdrawAll g t tok to c = Inr c' \<Longrightarrow> htlc_step g c c'"
| step_pushCredit: "pushCredit g t tok acct c = Inr c' \<Longrightarrow> htlc_step g c c'"
| step_forced: "htlc_step g c (c\<lparr>balances := (balances c)(tok := balances c tok + n)\<rparr>)"

inductive htlc_reach :: "htlc_cfg \<Rightarrow> htlc \<Rightarrow> bool" for g where
  reach_init: "htlc_reach g init_htlc"
| reach_step: "htlc_reach g c \<Longrightarrow> htlc_step g c c' \<Longrightarrow> htlc_reach g c'"


section \<open>Effects of the building blocks\<close>

definition open_amount :: "addr \<Rightarrow> swap \<Rightarrow> int" where
  "open_amount t s = (if s_status s = SOpen \<and> s_token s = t then int (s_amount s) else 0)"

definition open_escrow :: "htlc \<Rightarrow> addr \<Rightarrow> int" where
  "open_escrow c t = omap_sum (\<lambda>_. open_amount t) (swaps c)"

definition credit_sum :: "htlc \<Rightarrow> addr \<Rightarrow> int" where
  "credit_sum c t = omap_sum (\<lambda>k v. if fst k = t then int v else 0) (credits c)"

text \<open>The value the contract holds beyond what it owes, per token.\<close>

definition slack :: "htlc \<Rightarrow> addr \<Rightarrow> int" where
  "slack c t = int (balances c t) - open_escrow c t - int (outstanding c t)"

definition credit_ok :: "htlc \<Rightarrow> bool" where
  "credit_ok c \<longleftrightarrow> omap_wf (credits c) \<and> (\<forall>t. int (outstanding c t) = credit_sum c t)"

lemma nonReentrant_Inr [js_simps]:
  "nonReentrant body c = Inr c' \<longleftrightarrow>
     entered c = 1 \<and> (\<exists>c1. body (c\<lparr>entered := 2\<rparr>) = Inr c1 \<and> c' = c1\<lparr>entered := 1\<rparr>)"
  by (auto simp: nonReentrant_def js_simps)

lemma checked_Inr [js_simps]:
  "checked_add a b = Inr r \<longleftrightarrow> a + b < 2 ^ 256 \<and> r = a + b"
  "checked_sub a b = Inr r \<longleftrightarrow> b \<le> a \<and> r = a - b"
  by (auto simp: checked_add_def checked_sub_def)

lemma getSwap_frame [simp]:
  "getSwap g (c\<lparr>entered := n\<rparr>) = getSwap g c" "getSwap g (c\<lparr>balances := b\<rparr>) = getSwap g c"
  "getSwap g (receive_value g t c) = getSwap g c" "getSwap g (emit e c) = getSwap g c"
  by (simp_all add: getSwap_def receive_value_def emit_def fun_eq_iff)

lemma frame [simp]:
  "open_escrow (c\<lparr>entered := n\<rparr>) = open_escrow c" "open_escrow (c\<lparr>balances := b\<rparr>) = open_escrow c"
  "open_escrow (emit e c) = open_escrow c" "credit_sum (c\<lparr>entered := n\<rparr>) = credit_sum c"
  "slack (c\<lparr>entered := n\<rparr>) = slack c" "credit_ok (c\<lparr>entered := n\<rparr>) = credit_ok c"
  "slack (emit e c) = slack c" "credit_ok (emit e c) = credit_ok c"
  "credit_ok (c\<lparr>balances := b\<rparr>) = credit_ok c" "credit_ok (put_swap c h s) = credit_ok c"
  "swaps (emit e c) = swaps c" "swaps (put_swap c h s) = AList.update h s (swaps c)"
  "swaps (receive_value g t c) = swaps c" "credits (receive_value g t c) = credits c"
  "credits (emit e c) = credits c" "credits (put_swap c h s) = credits c"
  "balances (emit e c) = balances c" "balances (put_swap c h s) = balances c"
  "paid (emit e c) = paid c" "paid (put_swap c h s) = paid c" "paid (receive_value g t c) = paid c"
  "outstanding (emit e c) = outstanding c" "outstanding (put_swap c h s) = outstanding c"
  "credit_ok (receive_value g t c) = credit_ok c"
  "creditOf (c\<lparr>entered := n\<rparr>) = creditOf c" "creditOf (emit e c) = creditOf c"
  "creditOf (put_swap c h s) = creditOf c" "creditOf (receive_value g t c) = creditOf c"
  "creditOf (c\<lparr>balances := b\<rparr>) = creditOf c"
  by (simp_all add: open_escrow_def credit_sum_def slack_def credit_ok_def emit_def put_swap_def
      receive_value_def creditOf_def fun_eq_iff)

lemma getSwap_put [simp]: "getSwap g (put_swap c h s) h' = (if h' = h then s else getSwap g c h')"
  by (simp add: getSwap_def put_swap_def js_simps)

lemma selfDeliver_self [simp]:
  "selfDeliver g (t\<lparr>tx_sender := cfg_this g\<rparr>) c token to amount = strictPayout g t c token to amount"
  by (simp add: selfDeliver_def strictPayout_def tokenCall_def balance_after_def)

lemma strictPayout_effect:
  assumes "strictPayout g t c token to amount = Inr c'"
  shows "swaps c' = swaps c" "credits c' = credits c" "outstanding c' = outstanding c"
    "entered c' = entered c" "amount \<le> balances c token"
    "balances c' = (balances c)(token := balances c token - amount)" "paid c' = paid c @ [(token, to, amount)]"
proof -
  have "swaps c' = swaps c \<and> credits c' = credits c \<and> outstanding c' = outstanding c \<and>
    entered c' = entered c \<and> amount \<le> balances c token \<and>
    balances c' = (balances c)(token := balances c token - amount) \<and> paid c' = paid c @ [(token, to, amount)]"
  proof (cases "token = cfg_zero g")
    case True
    with assms show ?thesis by (auto simp: strictPayout_def transfer_out_def js_simps)
  next
    case False
    with assms obtain b where "b \<le> balances c token" "balances c token - b = amount"
      "c' = transfer_out token to amount b c"
      by (auto simp: strictPayout_def js_simps)
    then show ?thesis by (auto simp: transfer_out_def)
  qed
  then show "swaps c' = swaps c" "credits c' = credits c" "outstanding c' = outstanding c"
    "entered c' = entered c" "amount \<le> balances c token"
    "balances c' = (balances c)(token := balances c token - amount)" "paid c' = paid c @ [(token, to, amount)]"
    by blast+
qed

lemma strictPayout_slack:
  assumes "strictPayout g t c token to amount = Inr c'"
  shows "slack c' x = slack c x - (if x = token then int amount else 0)"
    and "credit_ok c' \<longleftrightarrow> credit_ok c"
  using strictPayout_effect [OF assms]
  by (auto simp: slack_def credit_ok_def open_escrow_def credit_sum_def of_nat_diff)

lemma record_credit_effect:
  assumes "record_credit c h token payee amount = Inr c'"
  shows "swaps c' = swaps c" "balances c' = balances c" "entered c' = entered c"
    "creditOf c' a b = creditOf c a b + (if (a, b) = (token, payee) then amount else 0)"
    "slack c' x = slack c x - (if x = token then int amount else 0)"
    "credit_ok c \<Longrightarrow> credit_ok c'" "paid c' = paid c"
proof -
  from assms obtain cr os where c': "cr = creditOf c token payee + amount"
    "os = outstanding c token + amount"
    "c' = emit (PayoutCredited token payee h amount)
       (c\<lparr>credits := AList.update (token, payee) cr (credits c),
          outstanding := (outstanding c)(token := os)\<rparr>)"
    by (auto simp: record_credit_def js_simps)
  then show "swaps c' = swaps c" "balances c' = balances c" "entered c' = entered c"
    "creditOf c' a b = creditOf c a b + (if (a, b) = (token, payee) then amount else 0)"
    "slack c' x = slack c x - (if x = token then int amount else 0)" "paid c' = paid c"
    by (auto simp: emit_def creditOf_def js_simps slack_def open_escrow_def)
  assume "credit_ok c"
  with c' show "credit_ok c'"
    by (auto simp: credit_ok_def credit_sum_def omap_sum_update emit_def creditOf_def
        intro: omap_wf_update split: option.splits)
qed

text \<open>A settlement leaves the swaps alone and removes exactly its amount from the slack.\<close>

lemma settle_effect:
  assumes "settle g t c h token payee amount = Inr c'"
  shows "swaps c' = swaps c" "entered c' = entered c"
    "slack c' x = slack c x - (if x = token then int amount else 0)"
    "credit_ok c \<Longrightarrow> credit_ok c'" "creditOf c a b \<le> creditOf c' a b"
proof -
  have "strictPayout g t c token payee amount = Inr c' \<or> record_credit c h token payee amount = Inr c'"
    using assms by (auto simp: settle_def split: if_splits sum.splits)
  then have "swaps c' = swaps c \<and> entered c' = entered c \<and>
     slack c' x = slack c x - (if x = token then int amount else 0) \<and>
     (credit_ok c \<longrightarrow> credit_ok c') \<and> creditOf c a b \<le> creditOf c' a b"
  proof
    assume p: "strictPayout g t c token payee amount = Inr c'"
    show ?thesis
      using strictPayout_effect [OF p] strictPayout_slack [OF p] by (simp add: creditOf_def)
  next
    assume p: "record_credit c h token payee amount = Inr c'"
    show ?thesis
      using record_credit_effect [OF p] by simp
  qed
  then show "swaps c' = swaps c" "entered c' = entered c"
    "slack c' x = slack c x - (if x = token then int amount else 0)"
    "credit_ok c \<Longrightarrow> credit_ok c'" "creditOf c a b \<le> creditOf c' a b"
    by blast+
qed

lemma slack_put:
  assumes "omap_wf (swaps c)"
  shows "slack (put_swap c h s) x
    = slack c x + open_amount x (getSwap g c h) - open_amount x s"
proof -
  have "open_amount x (empty_swap g) = 0" by (simp add: open_amount_def empty_swap_def)
  then show ?thesis
    using assms
    by (auto simp: slack_def open_escrow_def put_swap_def omap_sum_update getSwap_def
        split: option.splits)
qed

lemma slack_receive:
  "slack (receive_value g t c) x = slack c x + (if x = cfg_zero g then int (tx_value t) else 0)"
  by (simp add: slack_def receive_value_def open_escrow_def)

lemma take_credit_effect:
  assumes "take_credit c token account to (creditOf c token account) amount = Inr c'"
    and "amount \<le> creditOf c token account"
  shows "swaps c' = swaps c" "balances c' = balances c" "entered c' = entered c"
    "creditOf c' a b = creditOf c a b - (if (a, b) = (token, account) then amount else 0)"
    "slack c' x = slack c x + (if x = token then int amount else 0)"
    "credit_ok c \<Longrightarrow> credit_ok c'"
proof -
  from assms(1) have os: "amount \<le> outstanding c token"
    and c': "c' = emit (PayoutWithdrawn token account to amount)
       (c\<lparr>credits := AList.update (token, account) (creditOf c token account - amount) (credits c),
          outstanding := (outstanding c)(token := outstanding c token - amount)\<rparr>)"
    by (auto simp: take_credit_def js_simps)
  then show "swaps c' = swaps c" "balances c' = balances c" "entered c' = entered c"
    "creditOf c' a b = creditOf c a b - (if (a, b) = (token, account) then amount else 0)"
    "slack c' x = slack c x + (if x = token then int amount else 0)"
    by (auto simp: emit_def creditOf_def js_simps slack_def open_escrow_def of_nat_diff)
  assume "credit_ok c"
  with c' os assms(2) show "credit_ok c'"
    by (auto simp: credit_ok_def credit_sum_def omap_sum_update emit_def creditOf_def of_nat_diff
        intro: omap_wf_update split: option.splits)
qed


section \<open>Every call moves one swap record\<close>

text \<open>
  The life cycle of one hashlock as an abstract machine. The terms of a lock are fixed when it is
  made; its recipient is written once; it ends claimed, by a preimage of its hashlock, or returned.
\<close>

record lock_terms =
  l_initiator :: addr
  l_token :: addr
  l_amount :: nat
  l_timeout :: nat

datatype phase =
    Unused
  | Unassigned lock_terms
  | Assigned_to lock_terms addr
  | Claimed_by lock_terms addr bytes32
  | Returned lock_terms "addr option"

inductive phase_step :: "htlc_cfg \<Rightarrow> bytes32 \<Rightarrow> phase \<Rightarrow> phase \<Rightarrow> bool" for g h where
  ph_open: "0 < l_amount l \<Longrightarrow> phase_step g h Unused (Unassigned l)"
| ph_lock: "0 < l_amount l \<Longrightarrow> r \<noteq> cfg_zero g \<Longrightarrow> phase_step g h Unused (Assigned_to l r)"
| ph_assign: "r \<noteq> cfg_zero g \<Longrightarrow> phase_step g h (Unassigned l) (Assigned_to l r)"
| ph_release: "phase_step g h (Unassigned l) (Returned l None)"
| ph_claim: "cfg_sha g p = h \<Longrightarrow> phase_step g h (Assigned_to l r) (Claimed_by l r p)"
| ph_refund: "phase_step g h (Assigned_to l r) (Returned l (Some r))"

definition terms_of :: "swap \<Rightarrow> lock_terms" where
  "terms_of s = \<lparr>l_initiator = s_initiator s, l_token = s_token s, l_amount = s_amount s,
     l_timeout = s_timeout s\<rparr>"

definition phase_of :: "htlc_cfg \<Rightarrow> swap \<Rightarrow> phase" where
  "phase_of g s = (case s_status s of
       SNone \<Rightarrow> Unused
     | SOpen \<Rightarrow> (if s_recipient s = cfg_zero g then Unassigned (terms_of s)
                 else Assigned_to (terms_of s) (s_recipient s))
     | SClaimed \<Rightarrow> Claimed_by (terms_of s) (s_recipient s) (s_preimage s)
     | SRefunded \<Rightarrow> Returned (terms_of s) (if s_recipient s = cfg_zero g then None else Some (s_recipient s)))"

lemma lock_internal_Inr:
  assumes "lock_internal g t c h recipient token amount timeout openR = Inr c'"
  shows "s_status (getSwap g c h) = SNone" "0 < amount" "amount < 2 ^ 128" "tx_now t < timeout"
    "openR \<longleftrightarrow> recipient = cfg_zero g"
    "c' = emit (Locked h (tx_sender t) recipient token amount timeout)
      (put_swap c h \<lparr>s_initiator = tx_sender t, s_recipient = recipient, s_token = token,
         s_amount = amount, s_timeout = timeout, s_status = SOpen, s_preimage = cfg_zero32 g\<rparr>)"
  using assms by (auto simp: lock_internal_def js_simps)

lemma lockToken_internal_Inr:
  assumes "lockToken_internal g t c h recipient token amount timeout openR = Inr c'"
  shows "\<exists>c1. lock_internal g t c h recipient token amount timeout openR = Inr c1 \<and>
    c' = c1\<lparr>balances := (balances c1)(token := balances c token + amount)\<rparr>"
proof -
  from assms obtain c1 b where c1: "lock_internal g t c h recipient token amount timeout openR = Inr c1"
    and b: "balances c1 token \<le> b" "b - balances c1 token = amount"
    and c': "c' = c1\<lparr>balances := (balances c1)(token := b)\<rparr>"
    by (auto simp: lockToken_internal_def js_simps)
  have "balances c1 token = balances c token"
    using lock_internal_Inr(6) [OF c1] by simp
  with b have "b = balances c token + amount" by simp
  with c1 c' show ?thesis by blast
qed

text \<open>
  What a call does to the storage, in one statement: at most one swap record is written, along the
  life cycle above, and the slack of every token is unchanged.
\<close>

definition call_effect :: "htlc_cfg \<Rightarrow> htlc \<Rightarrow> htlc \<Rightarrow> bool" where
  "call_effect g c c' \<longleftrightarrow>
     entered c' = 1 \<and> (\<forall>x. slack c' x = slack c x) \<and> (credit_ok c \<longrightarrow> credit_ok c') \<and>
     (swaps c' = swaps c \<or>
      (\<exists>h s. swaps c' = AList.update h s (swaps c) \<and> s_status s \<noteq> SNone \<and>
         (s_status s = SOpen \<longrightarrow> 0 < s_amount s \<and> s_amount s < 2 ^ 128 \<or>
            s_amount s = s_amount (getSwap g c h) \<and> s_status (getSwap g c h) = SOpen) \<and>
         phase_step g h (phase_of g (getSwap g c h)) (phase_of g s)))"

lemma call_effectI_swap:
  assumes "entered c' = 1" and "\<And>x. slack c' x = slack c x" and "credit_ok c \<Longrightarrow> credit_ok c'"
    and "swaps c' = AList.update h s (swaps c)" and "s_status s \<noteq> SNone"
    and "s_status s = SOpen \<Longrightarrow> 0 < s_amount s \<and> s_amount s < 2 ^ 128 \<or>
            s_amount s = s_amount (getSwap g c h) \<and> s_status (getSwap g c h) = SOpen"
    and "phase_step g h (phase_of g (getSwap g c h)) (phase_of g s)"
  shows "call_effect g c c'"
  using assms unfolding call_effect_def by blast

lemma lock_call_effect:
  assumes l: "lock_internal g t c1 h recipient token amount timeout openR = Inr c2"
    and c1: "swaps c1 = swaps c" "credit_ok c \<Longrightarrow> credit_ok c1" "omap_wf (swaps c)"
    and c': "entered c' = 1" "swaps c' = swaps c2" "credit_ok c2 \<Longrightarrow> credit_ok c'"
    and sl: "\<And>x. slack c' x = slack c2 x + (slack c x - slack c1 x) + (if x = token then int amount else 0)"
  shows "call_effect g c c'"
proof (rule call_effectI_swap)
  note L = lock_internal_Inr [OF l]
  let ?s = "\<lparr>s_initiator = tx_sender t, s_recipient = recipient, s_token = token,
         s_amount = amount, s_timeout = timeout, s_status = SOpen, s_preimage = cfg_zero32 g\<rparr>"
  have g1: "getSwap g c1 h = getSwap g c h" using c1(1) by (simp add: getSwap_def)
  show "entered c' = 1" by (rule c'(1))
  show "swaps c' = AList.update h ?s (swaps c)" using L(6) c1(1) c'(2) by simp
  show "credit_ok c \<Longrightarrow> credit_ok c'" using L(6) c1(2) c'(3) by simp
  have "open_amount x (getSwap g c1 h) = 0" for x using L(1) by (simp add: open_amount_def)
  then have "slack c2 x = slack c1 x - (if x = token then int amount else 0)" for x
    using L(6) slack_put [of c1 h ?s x g] c1(1,3) by (simp add: open_amount_def)
  then show "slack c' x = slack c x" for x using sl by simp
  show "phase_step g h (phase_of g (getSwap g c h)) (phase_of g ?s)"
    using L(1,2) by (auto simp: phase_of_def g1 terms_of_def intro: phase_step.intros)
qed (use lock_internal_Inr [OF l] in auto)

lemma settle_call_effect:
  assumes st: "settle g t (emit e (put_swap c1 h s')) h token payee amount = Inr c2"
    and c1: "c1 = c\<lparr>entered := 2\<rparr>" and c': "c' = c2\<lparr>entered := 1\<rparr>" and wf: "omap_wf (swaps c)"
    and o: "s_status (getSwap g c h) = SOpen" and n: "s_status s' = SClaimed \<or> s_status s' = SRefunded"
    and ta: "token = s_token (getSwap g c h)" "amount = s_amount (getSwap g c h)"
    and ph: "phase_step g h (phase_of g (getSwap g c h)) (phase_of g s')"
  shows "call_effect g c c'"
proof (rule call_effectI_swap)
  note S = settle_effect [OF st]
  show "entered c' = 1" using c' by simp
  show "swaps c' = AList.update h s' (swaps c)" using S(1) c1 c' by simp
  show "credit_ok c \<Longrightarrow> credit_ok c'" using S(4) c1 c' by simp
  have "slack (put_swap c1 h s') x = slack c x + (if x = token then int amount else 0)" for x
    using slack_put [of c1 h s' x g] wf o n c1 ta by (auto simp: open_amount_def)
  then show "slack c' x = slack c x" for x using S(3) [of x] c' by simp
qed (use n ph in auto)

lemma pay_call_effect:
  assumes tk: "take_credit c1 token account to (creditOf c1 token account) amount = Inr c2"
    and le: "amount \<le> creditOf c1 token account"
    and p: "strictPayout g t c2 token dest amount = Inr c3"
    and c1: "c1 = c\<lparr>entered := 2\<rparr>" and c': "c' = c3\<lparr>entered := 1\<rparr>"
  shows "call_effect g c c'"
  using take_credit_effect [OF tk le] strictPayout_effect [OF p] strictPayout_slack [OF p] c1 c'
  by (simp add: call_effect_def)


lemma native_lock_effect:
  assumes l: "lock_internal g t (receive_value g t (c\<lparr>entered := 2\<rparr>)) h r (cfg_zero g) (tx_value t) to b = Inr c2"
    and wf: "omap_wf (swaps c)"
  shows "call_effect g c (c2\<lparr>entered := 1\<rparr>)"
  by (rule lock_call_effect [OF l]) (use wf in \<open>auto simp: slack_receive\<close>)

lemma token_lock_effect:
  assumes l: "lockToken_internal g t (c\<lparr>entered := 2\<rparr>) h r tok a to b = Inr c2"
    and wf: "omap_wf (swaps c)"
  shows "call_effect g c (c2\<lparr>entered := 1\<rparr>)"
proof -
  from lockToken_internal_Inr [OF l] obtain c1
    where c1: "lock_internal g t (c\<lparr>entered := 2\<rparr>) h r tok a to b = Inr c1"
      and c2: "c2 = c1\<lparr>balances := (balances c1)(tok := balances c tok + a)\<rparr>"
    by auto
  have "balances c1 tok = balances c tok" using lock_internal_Inr(6) [OF c1] by simp
  then have "slack c2 x = slack c1 x + (if x = tok then int a else 0)" for x
    by (auto simp: c2 slack_def)
  then show ?thesis
    by (intro lock_call_effect [OF c1]) (use wf in \<open>auto simp: c2\<close>)
qed

lemma step_effect:
  assumes "htlc_step g c c'" and wf: "omap_wf (swaps c)" and "entered c = 1"
  shows "call_effect g c c' \<or>
    (\<exists>tok n. c' = c\<lparr>balances := (balances c)(tok := balances c tok + n)\<rparr>)"
  using assms(1)
proof cases
  case (step_lockNative t h r to)
  then show ?thesis using wf by (auto simp: lockNative_def js_simps simp del: One_nat_def intro: native_lock_effect)
next
  case (step_lockToken t h r tok a to)
  then show ?thesis using wf by (auto simp: lockToken_def js_simps simp del: One_nat_def intro: token_lock_effect)
next
  case (step_lockNativeOpen t h to)
  then show ?thesis using wf by (auto simp: lockNativeOpen_def js_simps simp del: One_nat_def intro: native_lock_effect)
next
  case (step_lockTokenOpen t h tok a to)
  then show ?thesis using wf by (auto simp: lockTokenOpen_def js_simps simp del: One_nat_def intro: token_lock_effect)
next
  case (step_assign t h r)
  let ?s = "getSwap g c h"
  from step_assign have A: "s_status ?s = SOpen" "s_recipient ?s = cfg_zero g" "r \<noteq> cfg_zero g"
    and c': "c' = emit (Assigned h r) (put_swap (c\<lparr>entered := 2\<rparr>) h (?s\<lparr>s_recipient := r\<rparr>))\<lparr>entered := 1\<rparr>"
    by (auto simp: assign_def js_simps Let_def)
  have "slack (put_swap (c\<lparr>entered := 2\<rparr>) h (?s\<lparr>s_recipient := r\<rparr>)) x = slack c x" for x
    using slack_put [of "c\<lparr>entered := 2\<rparr>" h "?s\<lparr>s_recipient := r\<rparr>" x g] wf by (simp add: open_amount_def)
  then have "call_effect g c c'"
    using A c' by (intro call_effectI_swap [where h = h and s = "?s\<lparr>s_recipient := r\<rparr>"])
      (auto simp: phase_of_def terms_of_def intro: phase_step.intros)
  then show ?thesis ..
next
  case (step_release t h)
  then have "call_effect g c c'"
    by (auto simp: release_def js_simps Let_def simp del: One_nat_def
        intro!: settle_call_effect [OF _ refl refl wf])
      (auto simp: phase_of_def terms_of_def intro: phase_step.intros)
  then show ?thesis ..
next
  case (step_claim t h p)
  then have "call_effect g c c'"
    by (auto simp: claim_def js_simps Let_def simp del: One_nat_def
        intro!: settle_call_effect [OF _ refl refl wf])
      (auto simp: phase_of_def terms_of_def intro: phase_step.intros)
  then show ?thesis ..
next
  case (step_refund t h)
  then have "call_effect g c c'"
    by (auto simp: refund_def js_simps Let_def simp del: One_nat_def
        intro!: settle_call_effect [OF _ refl refl wf])
      (auto simp: phase_of_def terms_of_def intro: phase_step.intros)
  then show ?thesis ..
next
  case (step_withdraw t tok to a)
  then show ?thesis
    by (auto simp: withdraw_def withdraw_internal_def js_simps simp del: One_nat_def
        intro!: pay_call_effect [OF _ _ _ refl refl])
next
  case (step_withdrawAll t tok to)
  then show ?thesis
    by (auto simp: withdrawAll_def withdraw_internal_def js_simps simp del: One_nat_def
        intro!: pay_call_effect [OF _ _ _ refl refl])
next
  case (step_pushCredit t tok acct)
  then show ?thesis
    by (auto simp: pushCredit_def js_simps simp del: One_nat_def
        intro!: pay_call_effect [OF _ _ _ refl refl])
next
  case (step_forced tok n)
  then show ?thesis by blast
qed


section \<open>The contract invariant\<close>

definition swap_ok :: "swap \<Rightarrow> bool" where
  "swap_ok s \<longleftrightarrow> s_status s \<noteq> SNone \<and>
     (s_status s = SOpen \<longrightarrow> 0 < s_amount s \<and> s_amount s < 2 ^ 128)"

definition htlc_inv :: "htlc \<Rightarrow> bool" where
  "htlc_inv c \<longleftrightarrow> entered c = 1 \<and> omap_wf (swaps c) \<and> credit_ok c \<and> (\<forall>t. 0 \<le> slack c t) \<and>
     (\<forall>s\<in>snd ` set (swaps c). swap_ok s)"

lemma htlc_inv_init: "htlc_inv init_htlc"
  by (simp add: htlc_inv_def init_htlc_def credit_ok_def credit_sum_def slack_def open_escrow_def)

lemma getSwap_in: "s_status (getSwap g c h) \<noteq> SNone \<Longrightarrow> getSwap g c h \<in> snd ` set (swaps c)"
  by (force simp: getSwap_def empty_swap_def nvl_def split: option.splits dest: map_of_SomeD)

lemma htlc_inv_open:
  assumes "htlc_inv c" and o: "s_status (getSwap g c h) = SOpen"
  shows "0 < s_amount (getSwap g c h) \<and> s_amount (getSwap g c h) < 2 ^ 128"
proof -
  have "getSwap g c h \<in> snd ` set (swaps c)" using o by (intro getSwap_in) simp
  with assms show ?thesis unfolding htlc_inv_def swap_ok_def by blast
qed

lemma htlc_inv_call: "htlc_inv c \<Longrightarrow> call_effect g c c' \<Longrightarrow> htlc_inv c'"
proof -
  assume inv: "htlc_inv c" and ce: "call_effect g c c'"
  from ce consider "swaps c' = swaps c"
    | h s where "swaps c' = AList.update h s (swaps c)" "s_status s \<noteq> SNone"
      "s_status s = SOpen \<longrightarrow> 0 < s_amount s \<and> s_amount s < 2 ^ 128 \<or>
            s_amount s = s_amount (getSwap g c h) \<and> s_status (getSwap g c h) = SOpen"
    unfolding call_effect_def by blast
  then show ?thesis
  proof cases
    case 1
    with inv ce show ?thesis by (simp add: htlc_inv_def call_effect_def)
  next
    case (2 h s)
    from 2(2,3) htlc_inv_open [OF inv, of g h] have "swap_ok s"
      by (auto simp: swap_ok_def)
    moreover have "snd ` set (swaps c') \<subseteq> insert s (snd ` set (swaps c))"
      unfolding 2(1) by (rule omap_update_values)
    ultimately have "\<forall>s\<in>snd ` set (swaps c'). swap_ok s"
      using inv unfolding htlc_inv_def by blast
    moreover have "omap_wf (swaps c')" using inv 2(1) by (simp add: htlc_inv_def omap_wf_update)
    ultimately show ?thesis using inv ce unfolding htlc_inv_def call_effect_def by presburger
  qed
qed

lemma htlc_inv_step: "htlc_inv c \<Longrightarrow> htlc_step g c c' \<Longrightarrow> htlc_inv c'"
proof -
  assume inv: "htlc_inv c" and st: "htlc_step g c c'"
  from step_effect [OF st] inv consider "call_effect g c c'"
    | tok n where "c' = c\<lparr>balances := (balances c)(tok := balances c tok + n)\<rparr>"
    by (auto simp: htlc_inv_def)
  then show ?thesis
  proof cases
    case 1
    with inv show ?thesis by (rule htlc_inv_call)
  next
    case 2
    then have "slack c' t = slack c t + (if t = tok then int n else 0)" for t
      by (simp add: slack_def)
    with 2 inv show ?thesis by (simp add: htlc_inv_def)
  qed
qed

lemma htlc_reach_inv: "htlc_reach g c \<Longrightarrow> htlc_inv c"
  by (induction rule: htlc_reach.induct) (auto intro: htlc_inv_init htlc_inv_step)


lemma creditOf_le_outstanding: "credit_ok c \<Longrightarrow> creditOf c t a \<le> outstanding c t"
proof (cases "map_of (credits c) (t, a)")
  case None
  then show ?thesis by (simp add: creditOf_def)
next
  case (Some v)
  assume ok: "credit_ok c"
  have "(if fst (t, a) = t then int v else 0) \<le> omap_sum (\<lambda>k v. if fst k = t then int v else 0) (credits c)"
    by (rule omap_sum_member) (use Some in auto)
  with ok Some show ?thesis by (simp add: creditOf_def credit_ok_def credit_sum_def) (metis of_nat_le_iff)
qed

text \<open>An open swap's amount is still part of what the balance covers.\<close>

lemma htlc_owed_bound:
  assumes inv: "htlc_inv c" and o: "s_status (getSwap g c h) = SOpen"
  shows "creditOf c (s_token (getSwap g c h)) a + s_amount (getSwap g c h)
      \<le> balances c (s_token (getSwap g c h)) \<and>
    outstanding c (s_token (getSwap g c h)) + s_amount (getSwap g c h)
      \<le> balances c (s_token (getSwap g c h))"
proof -
  let ?t = "s_token (getSwap g c h)"
  have m: "map_of (swaps c) h = Some (getSwap g c h)"
    using o by (auto simp: getSwap_def empty_swap_def nvl_def split: option.splits)
  have "open_amount ?t (getSwap g c h) \<le> omap_sum (\<lambda>_. open_amount ?t) (swaps c)"
    by (rule omap_sum_member [OF _ m]) (auto simp: open_amount_def)
  then have "int (s_amount (getSwap g c h)) \<le> open_escrow c ?t"
    using o by (simp add: open_amount_def open_escrow_def)
  moreover have "0 \<le> slack c ?t" using inv by (simp add: htlc_inv_def)
  ultimately have "outstanding c ?t + s_amount (getSwap g c h) \<le> balances c ?t"
    by (simp add: slack_def)
  with creditOf_le_outstanding [of c ?t a] inv show ?thesis by (simp add: htlc_inv_def)
qed

lemma settle_total:
  assumes "creditOf c tok r + a < 2 ^ 256" and "outstanding c tok + a < 2 ^ 256"
  shows "\<exists>c2. settle g t c h tok r a = Inr c2 \<and>
    (paid c2 = paid c @ [(tok, r, a)] \<and> balances c tok = balances c2 tok + a \<and> credits c2 = credits c \<or>
     paid c2 = paid c \<and> balances c2 = balances c \<and> creditOf c2 tok r = creditOf c tok r + a)"
proof (cases "\<exists>c2. tx_delivery_gas t \<and> strictPayout g t c tok r a = Inr c2")
  case True
  then obtain c2 where gas: "tx_delivery_gas t" and p: "strictPayout g t c tok r a = Inr c2" by blast
  have "balances c tok = balances c2 tok + a" "credits c2 = credits c" "paid c2 = paid c @ [(tok, r, a)]"
    using strictPayout_effect [OF p] by simp_all
  with gas p show ?thesis by (simp add: settle_def)
next
  case False
  then have st: "settle g t c h tok r a = record_credit c h tok r a"
    by (auto simp: settle_def split: sum.splits)
  obtain c2 where c2: "record_credit c h tok r a = Inr c2"
    using assms by (simp add: record_credit_def checked_add_def)
  show ?thesis using record_credit_effect [OF c2] st c2 by simp
qed

section \<open>What the contract promises\<close>

text \<open>A concrete deployment, for evaluating the operations on.\<close>

definition demo_cfg :: htlc_cfg where
  "demo_cfg = \<lparr>cfg_zero = ''0'', cfg_this = ''htlc'', cfg_zero32 = ''z'', cfg_sha = (\<lambda>p. ''h'' @ p)\<rparr>"

definition demo_tx :: "addr \<Rightarrow> nat \<Rightarrow> nat \<Rightarrow> bool \<Rightarrow> tx" where
  "demo_tx who v now pays = \<lparr>tx_sender = who, tx_value = v, tx_now = now, tx_delivery_gas = True,
     tx_native_accepts = pays, tx_token_code = True, tx_balance_readable = True,
     tx_token_ret = ReturnedNothing, tx_balance_after = None\<rparr>"

definition demo_locked :: htlc where
  "demo_locked = projr (lockNative demo_cfg (demo_tx ''alice'' 5 10 True) ''hs'' ''bob'' 100 init_htlc)"

definition demo_credited :: htlc where
  "demo_credited = projr (claim demo_cfg (demo_tx ''carol'' 0 50 False) ''hs'' ''s'' demo_locked)"

lemmas demo_defs = demo_cfg_def demo_tx_def lockNative_def claim_def lock_internal_def
  nonReentrant_def throw_if_def js_bind_def getSwap_def empty_swap_def init_htlc_def
  receive_value_def put_swap_def emit_def settle_def selfDeliver_def strictPayout_def transfer_out_def record_credit_def
  checked_add_def creditOf_def Let_def

lemma demo_locked_ok:
  "lockNative demo_cfg (demo_tx ''alice'' 5 10 True) ''hs'' ''bob'' 100 init_htlc = Inr demo_locked"
  by (simp add: demo_locked_def demo_defs)

lemma demo_locked_eq:
  "demo_locked = \<lparr>swaps = [(''hs'', \<lparr>s_initiator = ''alice'', s_recipient = ''bob'', s_token = ''0'',
     s_amount = 5, s_timeout = 100, s_status = SOpen, s_preimage = ''z''\<rparr>)], credits = [],
     outstanding = (\<lambda>_. 0), entered = 1, balances = (\<lambda>_. 0)(''0'' := 5),
     log = [Locked ''hs'' ''alice'' ''bob'' ''0'' 5 100], paid = []\<rparr>"
  by (simp add: demo_locked_def demo_defs)

lemma demo_credited_ok:
  "claim demo_cfg (demo_tx ''carol'' 0 50 False) ''hs'' ''s'' demo_locked = Inr demo_credited"
  by (simp add: demo_credited_def demo_locked_eq demo_defs)

lemma demo_credited_credit: "creditOf demo_credited ''0'' ''bob'' = 5"
  by (simp add: demo_credited_def demo_locked_eq demo_defs)

lemma demo_reach_locked: "htlc_reach demo_cfg demo_locked"
  using demo_locked_ok by (blast intro: htlc_reach.intros htlc_step.intros)

lemma demo_reach_credited: "htlc_reach demo_cfg demo_credited"
  using demo_reach_locked demo_credited_ok by (blast intro: htlc_reach.intros htlc_step.intros)

text \<open>
  C1: value conservation. In every reachable state of the contract, and for every token, the
  balance covers the escrow of all open swaps and all outstanding credits, and the outstanding
  counter is exactly the sum of the credits the accounts own.
\<close>

theorem htlc_value_conserved:
  assumes "htlc_reach g c"
  shows "open_escrow c t + int (outstandingCredit c t) \<le> int (balances c t) \<and>
    int (outstandingCredit c t) = credit_sum c t"
  using htlc_reach_inv [OF assms]
  by (auto simp: htlc_inv_def slack_def credit_ok_def outstandingCredit_def algebra_simps)

theorem htlc_value_conserved_witness:
  "htlc_reach demo_cfg demo_credited \<and> creditOf demo_credited ''0'' ''bob'' = 5 \<and>
   int (outstandingCredit demo_credited ''0'') = credit_sum demo_credited ''0''"
  using htlc_value_conserved [OF demo_reach_credited, of "''0''"] demo_reach_credited
    demo_credited_credit by simp

lemma phase_step_final [simp]: "\<not> phase_step g h (Claimed_by l r s) q" "\<not> phase_step g h (Returned l v) q"
  by (auto elim: phase_step.cases)

lemma htlc_step_phase:
  assumes "htlc_inv c" and "htlc_step g c c'"
  shows "phase_of g (getSwap g c' h) = phase_of g (getSwap g c h) \<or>
    phase_step g h (phase_of g (getSwap g c h)) (phase_of g (getSwap g c' h))"
proof -
  from step_effect [OF assms(2)] assms(1) consider "call_effect g c c'"
    | tok n where "c' = c\<lparr>balances := (balances c)(tok := balances c tok + n)\<rparr>"
    by (auto simp: htlc_inv_def)
  then show ?thesis
  proof cases
    case 1
    then consider "swaps c' = swaps c"
      | h' s where "swaps c' = AList.update h' s (swaps c)"
        "phase_step g h' (phase_of g (getSwap g c h')) (phase_of g s)"
      unfolding call_effect_def by blast
    then show ?thesis by cases (auto simp: getSwap_def js_simps)
  next
    case 2
    then show ?thesis by simp
  qed
qed

text \<open>
  C3: the contract refines the life-cycle machine. Whatever call is made, in whatever
  environment, each hashlock either keeps its phase or makes one step of the machine: it is used
  at most once, its initiator, token, amount and timeout never change after the lock, its
  recipient is written once and is never the zero address, and it can only become claimed by a
  preimage of the hashlock.
\<close>

theorem htlc_refines_lifecycle:
  assumes "htlc_reach g c" and "htlc_step g c c'"
  shows "phase_of g (getSwap g c' h) = phase_of g (getSwap g c h) \<or>
    phase_step g h (phase_of g (getSwap g c h)) (phase_of g (getSwap g c' h))"
  using htlc_reach_inv [OF assms(1)] assms(2) by (rule htlc_step_phase)

theorem htlc_refines_lifecycle_witness:
  "phase_of demo_cfg (getSwap demo_cfg demo_credited ''hs'')
     = phase_of demo_cfg (getSwap demo_cfg demo_locked ''hs'') \<or>
   phase_step demo_cfg ''hs'' (phase_of demo_cfg (getSwap demo_cfg demo_locked ''hs''))
     (phase_of demo_cfg (getSwap demo_cfg demo_credited ''hs''))"
  using htlc_refines_lifecycle [OF demo_reach_locked step_claim [OF demo_credited_ok], of "''hs''"] .

lemma htlc_inv_steps: "(htlc_step g)\<^sup>*\<^sup>* c c' \<Longrightarrow> htlc_inv c \<Longrightarrow> htlc_inv c'"
  by (induction rule: rtranclp_induct) (auto intro: htlc_inv_step)

lemma htlc_step_settled:
  assumes "htlc_inv c" and "htlc_step g c c'" and settled: "s_status (getSwap g c h) = SClaimed \<or> s_status (getSwap g c h) = SRefunded"
  shows "getSwap g c' h = getSwap g c h"
proof -
  have final: "\<not> phase_step g h (phase_of g (getSwap g c h)) q" for q
    using settled by (auto simp: phase_of_def)
  from step_effect [OF assms(2)] assms(1) consider "call_effect g c c'"
    | tok n where "c' = c\<lparr>balances := (balances c)(tok := balances c tok + n)\<rparr>"
    by (auto simp: htlc_inv_def)
  then show ?thesis
  proof cases
    case 1
    then consider "swaps c' = swaps c"
      | h' s where "swaps c' = AList.update h' s (swaps c)" "phase_step g h' (phase_of g (getSwap g c h')) (phase_of g s)"
      unfolding call_effect_def by blast
    then show ?thesis
    proof cases
      case (2 h' s)
      with final have "h' \<noteq> h" by blast
      with 2(1) show ?thesis by (simp add: getSwap_def js_simps)
    qed (simp add: getSwap_def)
  qed simp
qed

text \<open>
  C19: a settled swap is final. Once a swap is claimed or refunded, no later sequence of calls
  changes anything of its record: status, terms, recipient and published preimage stay as they are. In
  particular a claimed swap can never be refunded to its initiator, and a refunded one is never assigned.
\<close>

theorem htlc_terminal_final:
  assumes "htlc_reach g c" and "(htlc_step g)\<^sup>*\<^sup>* c c'"
    and "s_status (getSwap g c h) = SClaimed \<or> s_status (getSwap g c h) = SRefunded"
  shows "getSwap g c' h = getSwap g c h"
  using assms(2)
proof (induction rule: rtranclp_induct)
  case base
  show ?case ..
next
  case (step d d')
  have "htlc_inv d" using htlc_inv_steps [OF step.hyps(1)] htlc_reach_inv [OF assms(1)] by blast
  moreover have "s_status (getSwap g d h) = SClaimed \<or> s_status (getSwap g d h) = SRefunded"
    unfolding step.IH by (rule assms(3))
  ultimately have "getSwap g d' h = getSwap g d h" by (rule htlc_step_settled [OF _ step.hyps(2)])
  then show ?case unfolding step.IH .
qed

theorem htlc_terminal_final_witness:
  "getSwap demo_cfg demo_credited ''hs'' = \<lparr>s_initiator = ''alice'', s_recipient = ''bob'',
     s_token = ''0'', s_amount = 5, s_timeout = 100, s_status = SClaimed, s_preimage = ''s''\<rparr> \<and>
   getSwap demo_cfg (demo_credited\<lparr>balances := (balances demo_credited)
       (''0'' := balances demo_credited ''0'' + 7)\<rparr>) ''hs'' = getSwap demo_cfg demo_credited ''hs''"
proof -
  have g: "getSwap demo_cfg demo_credited ''hs'' = \<lparr>s_initiator = ''alice'', s_recipient = ''bob'',
     s_token = ''0'', s_amount = 5, s_timeout = 100, s_status = SClaimed, s_preimage = ''s''\<rparr>"
    by (simp add: demo_credited_def demo_locked_eq demo_defs)
  have "(htlc_step demo_cfg)\<^sup>*\<^sup>* demo_credited (demo_credited\<lparr>balances := (balances demo_credited)
       (''0'' := balances demo_credited ''0'' + 7)\<rparr>)"
    by (blast intro: htlc_step.step_forced)
  from htlc_terminal_final [OF demo_reach_credited this, of "''hs''"] show ?thesis
    by (simp add: g)
qed

text \<open>
  C21: a claim settles whatever the payout does. For an open, assigned swap before its timeout, a
  call with the right preimage always succeeds: the swap becomes claimed and the preimage is
  stored, and either the one transfer the contract made is the amount to the recipient, or the contract
  made no transfer and the amount is the recipient's credit. No answer of a token, no refusing recipient
  and no shortage of delivery gas makes it revert.
\<close>

theorem claim_always_settles:
  assumes "htlc_reach g c" and "balances c (s_token (getSwap g c h)) < 2 ^ 256"
    and "s_status (getSwap g c h) = SOpen" and "s_recipient (getSwap g c h) \<noteq> cfg_zero g"
    and "tx_now t < s_timeout (getSwap g c h)" and "cfg_sha g p = h"
  shows "\<exists>c'. claim g t h p c = Inr c' \<and>
    getSwap g c' h = (getSwap g c h)\<lparr>s_status := SClaimed, s_preimage := p\<rparr> \<and>
    (let s = getSwap g c h; tok = s_token s; r = s_recipient s; a = s_amount s in
       (paid c' = paid c @ [(tok, r, a)] \<and> balances c tok = balances c' tok + a \<and> credits c' = credits c) \<or>
       (paid c' = paid c \<and> balances c' = balances c \<and> creditOf c' tok r = creditOf c tok r + a))"
proof -
  let ?s = "getSwap g c h" and ?tok = "s_token (getSwap g c h)" and ?r = "s_recipient (getSwap g c h)"
    and ?a = "s_amount (getSwap g c h)"
  let ?c1 = "emit (Claimed h p (tx_sender t)) (put_swap (c\<lparr>entered := 2\<rparr>) h
    (?s\<lparr>s_status := SClaimed, s_preimage := p\<rparr>))"
  note inv = htlc_reach_inv [OF assms(1)]
  have bound: "creditOf c ?tok ?r + ?a < 2 ^ 256 \<and> outstanding c ?tok + ?a < 2 ^ 256"
    using htlc_owed_bound [OF inv assms(3)] assms(2) by (meson le_less_trans)
  have "\<exists>c2. settle g t ?c1 h ?tok ?r ?a = Inr c2 \<and>
      (paid c2 = paid c @ [(?tok, ?r, ?a)] \<and> balances c ?tok = balances c2 ?tok + ?a \<and> credits c2 = credits c \<or>
       paid c2 = paid c \<and> balances c2 = balances c \<and> creditOf c2 ?tok ?r = creditOf c ?tok ?r + ?a)"
    using settle_total [of ?c1 ?tok ?r ?a g t h] bound by simp
  then obtain c2 where c2: "settle g t ?c1 h ?tok ?r ?a = Inr c2"
    "paid c2 = paid c @ [(?tok, ?r, ?a)] \<and> balances c ?tok = balances c2 ?tok + ?a \<and> credits c2 = credits c \<or>
       paid c2 = paid c \<and> balances c2 = balances c \<and> creditOf c2 ?tok ?r = creditOf c ?tok ?r + ?a"
    by blast
  have "entered c = 1" using inv by (simp add: htlc_inv_def)
  then have "claim g t h p c = Inr (c2\<lparr>entered := 1\<rparr>)"
    using assms(3-6) c2(1) by (simp add: claim_def nonReentrant_def Let_def)
  moreover have "getSwap g c2 h = ?s\<lparr>s_status := SClaimed, s_preimage := p\<rparr>"
    using settle_effect(1) [OF c2(1)] by (simp add: getSwap_def js_simps)
  ultimately show ?thesis using c2(2) by (auto simp: Let_def)
qed

theorem claim_always_settles_witness:
  "\<exists>c'. claim demo_cfg (demo_tx ''carol'' 0 99 False) ''hs'' ''s'' demo_locked = Inr c' \<and>
     s_status (getSwap demo_cfg c' ''hs'') = SClaimed \<and> s_preimage (getSwap demo_cfg c' ''hs'') = ''s''"
proof -
  have s: "getSwap demo_cfg demo_locked ''hs'' = \<lparr>s_initiator = ''alice'', s_recipient = ''bob'',
     s_token = ''0'', s_amount = 5, s_timeout = 100, s_status = SOpen, s_preimage = ''z''\<rparr>"
    by (simp add: demo_locked_eq getSwap_def)
  have z: "cfg_zero demo_cfg = ''0''" "cfg_sha demo_cfg ''s'' = ''hs''" "balances demo_locked ''0'' = 5"
    "tx_now (demo_tx ''carol'' 0 99 False) = 99"
    by (simp_all add: demo_cfg_def demo_locked_eq demo_tx_def)
  show ?thesis
    using claim_always_settles [OF demo_reach_locked, of "''hs''" "demo_tx ''carol'' 0 99 False" "''s''"]
    by (fastforce simp: s z)
qed

lemma pay_credit_frame:
  assumes tk: "take_credit c token account to (creditOf c token account) amount = Inr c2"
    and le: "amount \<le> creditOf c token account" and p: "strictPayout g t c2 token dest amount = Inr c3"
    and lt: "creditOf c3 a b < creditOf c a b"
  shows "a = token \<and> b = account \<and> balances c a = balances c3 a + amount \<and>
     creditOf c a b = creditOf c3 a b + amount"
proof -
  note T = take_credit_effect [OF tk le] and P = strictPayout_effect [OF p]
  have c3: "creditOf c3 a b = creditOf c2 a b" using P(2) by (simp add: creditOf_def)
  with T(4) lt have ab: "a = token" "b = account" by (auto split: if_splits)
  have "creditOf c3 a b = creditOf c a b - amount" using c3 T(4) ab by simp
  moreover have "balances c3 a = balances c a - amount" "amount \<le> balances c a"
    using P(5,6) T(2) ab by simp_all
  ultimately show ?thesis using le ab by simp
qed

text \<open>
  authority over a credit. If any call lowers the credit of an account, that call is the
  account's own withdrawal (with a destination it chose) or a push that pays the account itself,
  and what the credit lost is exactly what left the contract's balance of that token.
\<close>

lemma credit_authority:
  assumes "htlc_step g c c'" and "creditOf c' tok acct < creditOf c tok acct"
  shows "((\<exists>t to amount. tx_sender t = acct \<and> withdraw g t tok to amount c = Inr c') \<or>
      (\<exists>t to. tx_sender t = acct \<and> withdrawAll g t tok to c = Inr c') \<or>
      (\<exists>t. pushCredit g t tok acct c = Inr c')) \<and>
    balances c tok - balances c' tok = creditOf c tok acct - creditOf c' tok acct"
  using assms(1)
proof cases
  case (step_withdraw t tok' to a)
  then obtain c2 c3 where w: "take_credit (c\<lparr>entered := 2\<rparr>) tok' (tx_sender t) to
      (creditOf (c\<lparr>entered := 2\<rparr>) tok' (tx_sender t)) a = Inr c2"
    "a \<le> creditOf (c\<lparr>entered := 2\<rparr>) tok' (tx_sender t)" "strictPayout g t c2 tok' to a = Inr c3" "c' = c3\<lparr>entered := 1\<rparr>"
    by (auto simp: withdraw_def withdraw_internal_def js_simps)
  from pay_credit_frame [OF w(1-3)] w(4) assms(2) step_withdraw show ?thesis by fastforce
next
  case (step_withdrawAll t tok' to)
  let ?a = "creditOf c tok' (tx_sender t)"
  from step_withdrawAll obtain c2 c3 where w: "take_credit (c\<lparr>entered := 2\<rparr>) tok' (tx_sender t) to
      (creditOf (c\<lparr>entered := 2\<rparr>) tok' (tx_sender t)) ?a = Inr c2"
    "strictPayout g t c2 tok' to ?a = Inr c3" "c' = c3\<lparr>entered := 1\<rparr>"
    by (auto simp: withdrawAll_def withdraw_internal_def js_simps)
  from pay_credit_frame [OF w(1) _ w(2)] w(3) assms(2) step_withdrawAll show ?thesis by fastforce
next
  case (step_pushCredit t tok' a')
  let ?a = "creditOf c tok' a'"
  from step_pushCredit obtain c2 c3 where w: "take_credit (c\<lparr>entered := 2\<rparr>) tok' a' a'
      (creditOf (c\<lparr>entered := 2\<rparr>) tok' a') ?a = Inr c2"
    "strictPayout g t c2 tok' a' ?a = Inr c3" "c' = c3\<lparr>entered := 1\<rparr>"
    by (auto simp: pushCredit_def js_simps)
  from pay_credit_frame [OF w(1) _ w(2)] w(3) assms(2) step_pushCredit show ?thesis by fastforce
next
  case (step_lockToken t h r tok a to)
  then show ?thesis using assms(2)
    by (auto simp: lockToken_def js_simps dest!: lockToken_internal_Inr lock_internal_Inr(6))
next
  case (step_lockTokenOpen t h tok a to)
  then show ?thesis using assms(2)
    by (auto simp: lockTokenOpen_def js_simps dest!: lockToken_internal_Inr lock_internal_Inr(6))
next
  case (step_release t h)
  then show ?thesis using assms(2)
    by (auto simp: release_def js_simps Let_def dest!: settle_effect(5) [where a = tok and b = acct])
next
  case (step_claim t h p)
  then show ?thesis using assms(2)
    by (auto simp: claim_def js_simps Let_def dest!: settle_effect(5) [where a = tok and b = acct])
next
  case (step_refund t h)
  then show ?thesis using assms(2)
    by (auto simp: refund_def js_simps Let_def dest!: settle_effect(5) [where a = tok and b = acct])
qed (use assms(2) in \<open>auto simp: lockNative_def lockNativeOpen_def assign_def js_simps Let_def
       dest!: lock_internal_Inr(6)\<close>)

text \<open>
  the claim and refund windows of one lock never overlap. A claim that succeeds runs strictly
  before the lock's timeout, a refund that succeeds runs at or after it, and both require the open
  status; so a lock that some claim could settle at a given time cannot be refunded by then.
\<close>

lemma claim_refund_windows:
  assumes "claim g t h p c = Inr c1" and "refund g t' h c = Inr c2"
  shows "tx_now t < s_timeout (getSwap g c h) \<and> s_timeout (getSwap g c h) \<le> tx_now t'"
  using assms by (auto simp: claim_def refund_def js_simps Let_def)

end
