(* ===== verification/Leg.thy ===== *)
theory Leg
  imports Address Htlc_Contract
begin

text \<open>
  What the off-chain programs see of one swap leg: the decoded escrow record and the claim choke
  point of \<^verbatim>\<open>marketmaker/src/htlc.ts\<close>, and the asset registry of
  \<^verbatim>\<open>marketmaker/src/assets.ts\<close>. The function \<open>leg_state_of\<close> is the decoded
  view of a contract record; it ties the policies of the maker and the taker to the contract model.
\<close>

section \<open>Leg state\<close>

datatype leg_key = EthLeg | QrlLeg

datatype leg_status = LNone | LOpen | LClaimed | LRefunded

record leg_state =
  ls_status :: leg_status
  ls_initiator :: string
  ls_recipient :: string
  ls_token :: string
  ls_amount :: int
  ls_timeout :: int
  ls_preimage :: string

definition MAX_SAFE_INTEGER :: int where
  "MAX_SAFE_INTEGER = 2 ^ 53 - 1"

definition isSwapStatus :: "int \<Rightarrow> leg_status option" where
  "isSwapStatus n = (if n = 0 then Some LNone else if n = 1 then Some LOpen
     else if n = 2 then Some LClaimed else if n = 3 then Some LRefunded else None)"

text \<open>
  The seven decoded words of \<^verbatim>\<open>getSwap\<close>: a status outside the enumeration or a timeout that a
  JavaScript number cannot hold exactly is a read failure.
\<close>

definition getSwapState :: "string \<times> string \<times> string \<times> int \<times> int \<times> int \<times> string \<Rightarrow> leg_state option" where
  "getSwapState tup = (case tup of (initiator, recipient, token, amount, timeout, status, preimage) \<Rightarrow>
     (case isSwapStatus status of
        None \<Rightarrow> None
      | Some st \<Rightarrow>
          if abs timeout \<le> MAX_SAFE_INTEGER
          then Some \<lparr>ls_status = st, ls_initiator = initiator, ls_recipient = recipient, ls_token = token,
            ls_amount = amount, ls_timeout = timeout, ls_preimage = preimage\<rparr>
          else None))"

definition swap_words :: "swap \<Rightarrow> string \<times> string \<times> string \<times> int \<times> int \<times> int \<times> string" where
  "swap_words s = (s_initiator s, s_recipient s, s_token s, int (s_amount s), int (s_timeout s),
     (case s_status s of SNone \<Rightarrow> 0 | SOpen \<Rightarrow> 1 | SClaimed \<Rightarrow> 2 | SRefunded \<Rightarrow> 3), s_preimage s)"

definition leg_state_of :: "swap \<Rightarrow> leg_state option" where
  "leg_state_of s = getSwapState (swap_words s)"

lemma leg_state_of_fields:
  assumes "leg_state_of s = Some l"
  shows "ls_initiator l = s_initiator s" "ls_recipient l = s_recipient s" "ls_token l = s_token s"
    "ls_amount l = int (s_amount s)" "ls_timeout l = int (s_timeout s)" "ls_preimage l = s_preimage s"
    "ls_status l = LNone \<longleftrightarrow> s_status s = SNone" "ls_status l = LOpen \<longleftrightarrow> s_status s = SOpen"
    "ls_status l = LClaimed \<longleftrightarrow> s_status s = SClaimed" "ls_status l = LRefunded \<longleftrightarrow> s_status s = SRefunded"
  using assms
  by (auto simp: leg_state_of_def getSwapState_def swap_words_def isSwapStatus_def
      split: swap_status.splits if_splits option.splits)


section \<open>The claim choke point\<close>

definition claimCutoffBlocked :: "int \<Rightarrow> int \<Rightarrow> int \<Rightarrow> bool" where
  "claimCutoffBlocked timeout nowS marginS \<longleftrightarrow> nowS \<ge> timeout - marginS"

datatype claim_error = PreflightRejected | DeadlineUnreadable | InsideSafetyMargin | SubmissionFailed

record claim_cutoff =
  co_marginS :: int
  co_nowS :: int

text \<open>
  \<open>preflight\<close> is whether the simulated call was accepted, \<open>reread\<close> the escrow as read again
  right before the broadcast (\<open>None\<close> when that read failed) and \<open>submit\<close> the answer of the
  broadcasting callback. The second component says whether the callback was invoked at all, that is
  whether the secret may have left the process.
\<close>

definition submitPreflightedClaim ::
    "bool \<Rightarrow> claim_cutoff option \<Rightarrow> leg_state option \<Rightarrow> string option \<Rightarrow> (claim_error, string) result \<times> bool" where
  "submitPreflightedClaim preflight cutoff reread submit =
     (if \<not> preflight then (Inl PreflightRejected, False)
      else
        (let send = (case submit of Some hash \<Rightarrow> Inr hash | None \<Rightarrow> Inl SubmissionFailed, True)
         in case cutoff of
              None \<Rightarrow> send
            | Some co \<Rightarrow>
                (case reread of
                   None \<Rightarrow> (Inl DeadlineUnreadable, False)
                 | Some state \<Rightarrow>
                     if ls_status state = LOpen \<and>
                        claimCutoffBlocked (ls_timeout state) (co_nowS co) (co_marginS co)
                     then (Inl InsideSafetyMargin, False)
                     else send)))"

lemma submitPreflightedClaim_broadcast:
  "snd (submitPreflightedClaim preflight cutoff reread submit) \<longleftrightarrow>
     preflight \<and> (\<forall>co. cutoff = Some co \<longrightarrow>
       (\<exists>st. reread = Some st \<and> (ls_status st = LOpen \<longrightarrow> co_nowS co < ls_timeout st - co_marginS co)))"
  by (auto simp: submitPreflightedClaim_def Let_def claimCutoffBlocked_def split: option.splits)


section \<open>Assets\<close>

datatype asset_symbol = ETH | USDC | TUSDT

record asset_quirks =
  approvalRace :: bool
  noReturnValue :: bool
  issuerBlocklist :: bool

record price_ids =
  coingecko :: string
  coinpaprika :: string

record asset_info =
  tokenAddress :: "string option"
  decimals :: nat
  minBaseUnits :: int
  quirks :: asset_quirks
  priceIds :: "price_ids option"

definition NO_QUIRKS :: asset_quirks where
  "NO_QUIRKS = \<lparr>approvalRace = False, noReturnValue = False, issuerBlocklist = False\<rparr>"

definition ASSET_SYMBOLS :: "(asset_symbol \<times> string) list" where
  "ASSET_SYMBOLS = [(ETH, ''ETH''), (USDC, ''USDC''), (TUSDT, ''tUSDT'')]"

definition isAssetSymbol :: "string \<Rightarrow> bool" where
  "isAssetSymbol value = list_ex (\<lambda>s. snd s = value) ASSET_SYMBOLS"

fun assetInfo :: "asset_symbol \<Rightarrow> asset_info" where
  "assetInfo ETH = \<lparr>tokenAddress = None, decimals = 18, minBaseUnits = 10 ^ 15, quirks = NO_QUIRKS,
     priceIds = Some \<lparr>coingecko = ''ethereum'', coinpaprika = ''eth-ethereum''\<rparr>\<rparr>"
| "assetInfo USDC = \<lparr>tokenAddress = Some ''0x1c7D4B196Cb0C7B01d743Fbc6116a902379C7238'', decimals = 6,
     minBaseUnits = 10 ^ 6, quirks = NO_QUIRKS\<lparr>issuerBlocklist := True\<rparr>,
     priceIds = Some \<lparr>coingecko = ''usd-coin'', coinpaprika = ''usdc-usd-coin''\<rparr>\<rparr>"
| "assetInfo TUSDT = \<lparr>tokenAddress = Some ''0x027847Dc41C7a3198a28B9c7B27B5a0BC5bD23A0'', decimals = 6,
     minBaseUnits = 10 ^ 6, quirks = NO_QUIRKS\<lparr>approvalRace := True, noReturnValue := True\<rparr>,
     priceIds = None\<rparr>"

lemma assetInfo_decimals: "decimals (assetInfo a) \<le> 18"
  by (cases a) auto


section \<open>Concrete Ethereum accounts\<close>

definition eth_addr :: "char \<Rightarrow> string" where
  "eth_addr c = ''0x'' @ replicate 40 c"

lemma eth_addr_ok: "is_hex_any c \<Longrightarrow> ETH_ADDRESS_RE (eth_addr c)"
  by (simp add: ETH_ADDRESS_RE_def eth_addr_def matches_def list_all_iff)

lemma sameAddr_eth_addr:
  "is_hex_any c \<Longrightarrow> is_hex_any d \<Longrightarrow>
     sameAddr shake (eth_addr c) (eth_addr d) = Inr (lower_char c = lower_char d)"
  by (simp add: sameAddr_eth eth_addr_ok) (simp add: eth_addr_def to_lower_def)

lemma demo_chars:
  "is_hex_any (CHR ''a'')" "is_hex_any (CHR ''b'')" "is_hex_any (CHR ''0'')" "is_hex_any (CHR ''c'')"
  "lower_char (CHR ''a'') \<noteq> lower_char (CHR ''b'')" "lower_char (CHR ''b'') \<noteq> lower_char (CHR ''a'')"
  "lower_char (CHR ''0'') \<noteq> lower_char (CHR ''a'')" "lower_char (CHR ''0'') \<noteq> lower_char (CHR ''b'')"
  "lower_char (CHR ''a'') \<noteq> lower_char (CHR ''0'')" "lower_char (CHR ''b'') \<noteq> lower_char (CHR ''0'')"
  by code_simp+

lemma NATIVE_TOKEN_eth_addr: "NATIVE_TOKEN = eth_addr (CHR ''0'')"
  by (simp add: NATIVE_TOKEN_def eth_addr_def)

text \<open>A digest that leaves every address in lower case; the Ethereum accounts above do not use it.\<close>

definition demo_shake :: shake256 where
  "demo_shake = (\<lambda>_. replicate 64 0)"

lemmas demo_addr_simps = sameAddr_eth_addr demo_chars NATIVE_TOKEN_eth_addr

definition demo_leg :: "leg_status \<Rightarrow> char \<Rightarrow> char \<Rightarrow> int \<Rightarrow> int \<Rightarrow> leg_state" where
  "demo_leg st who for amount timeout = \<lparr>ls_status = st, ls_initiator = eth_addr who,
     ls_recipient = eth_addr for, ls_token = eth_addr (CHR ''0''), ls_amount = amount,
     ls_timeout = timeout, ls_preimage = ''s''\<rparr>"

end
