(* ===== verification/Protocol_Types.thy ===== *)
theory Protocol_Types
  imports Leg
begin

text \<open>
  The data the signed protocol moves between the maker, the taker and the order book, as declared in
  \<^verbatim>\<open>marketmaker/src/protocol-signing.ts\<close> and \<^verbatim>\<open>marketmaker/src/policy.ts\<close>: order, fill
  intent, fill and cancel bodies with their authentication envelopes, and the managed order a maker
  keeps per listing. Untrusted input is a JSON value (\<open>json\<close>); a JSON number is an integer or
  some other number, which is all the validators distinguish.
\<close>

section \<open>Untrusted values\<close>

datatype json = JNull | JBool bool | JInt int | JFloat | JStr string | JArr "json list"
  | JObj "(string \<times> json) list"

definition isSafeInteger :: "int \<Rightarrow> bool" where
  "isSafeInteger n \<longleftrightarrow> abs n \<le> MAX_SAFE_INTEGER"

definition jstr :: "json option \<Rightarrow> string option" where
  "jstr j = (case j of Some (JStr s) \<Rightarrow> Some s | _ \<Rightarrow> None)"

definition jsafe :: "json option \<Rightarrow> int option" where
  "jsafe j = (case j of Some (JInt n) \<Rightarrow> if isSafeInteger n then Some n else None | _ \<Rightarrow> None)"

lemma jstr_Some [js_simps]: "jstr j = Some s \<longleftrightarrow> j = Some (JStr s)"
  by (auto simp: jstr_def split: option.splits json.splits)

lemma jsafe_Some [js_simps]: "jsafe j = Some n \<longleftrightarrow> j = Some (JInt n) \<and> isSafeInteger n"
  by (auto simp: jsafe_def split: option.splits json.splits if_splits)


section \<open>Signed bodies\<close>

datatype direction = EthToQrl | QrlToEth

datatype visibility = Public | Private

record prelock_terms =
  pl_hashlock :: string
  pl_initiatorTimeout :: int

record order_body =
  ob_direction :: direction
  ob_asset :: asset_symbol
  ob_fromAmount :: string
  ob_toAmount :: string
  ob_makerEthAccount :: string
  ob_makerQrlAccount :: string
  ob_visibility :: visibility
  ob_allowedTakerEth :: "string option"
  ob_allowedTakerQrl :: "string option"
  ob_prelock :: "prelock_terms option"

record protocol_auth =
  pa_issuedAt :: int
  pa_expiresAt :: int
  pa_nonce :: string
  pa_signature :: string
  pa_publicKey :: string
  pa_descriptor :: string

record maker_order_auth = protocol_auth +
  pa_makerTokenCommitment :: string
  pa_shareTokenCommitment :: string

record fill_intent_body =
  fi_orderDigest :: string
  fi_takerEthAccount :: string
  fi_takerQrlAccount :: string
  fi_releaseCommitment :: string

record fill_body =
  fb_orderDigest :: string
  fb_intentDigest :: string
  fb_takerEthAccount :: string
  fb_takerQrlAccount :: string
  fb_releaseCommitment :: string
  fb_hashlock :: string
  fb_initiatorTimeout :: int
  fb_responderTimeout :: int

record signed_fill =
  sf_fill :: fill_body
  sf_auth :: protocol_auth

record cancel_body =
  cb_orderDigest :: string
  cb_reasonCode :: int

record signed_cancel =
  sc_cancel :: cancel_body
  sc_auth :: protocol_auth


section \<open>Managed orders\<close>

record selected_fill_intent =
  si_intentDigest :: string
  si_intent :: fill_intent_body
  si_auth :: protocol_auth
  si_receivedAt :: int

record managed_protocol =
  mp_orderDigest :: string
  mp_order :: order_body
  mp_orderAuth :: maker_order_auth
  mp_fillAcknowledged :: bool
  mp_releaseObserved :: bool
  mp_selectedIntent :: "selected_fill_intent option"
  mp_fillProof :: "signed_fill option"
  mp_cancelProof :: "signed_cancel option"

record deployment_identity =
  dp_ethChainId :: string
  dp_qrlChainId :: string
  dp_qrlGenesisHash :: string
  dp_ethHtlc :: string
  dp_qrlHtlc :: string
  dp_configFingerprint :: string

record managed_order =
  mo_id :: string
  mo_deployment :: deployment_identity
  mo_token :: "string option"
  mo_protocol :: "managed_protocol option"
  mo_direction :: direction
  mo_asset :: asset_symbol
  mo_level :: nat
  mo_quotedMidMilli :: "string option"
  mo_fromAmount :: string
  mo_toAmount :: string
  mo_preimage :: "string option"
  mo_hashlock :: "string option"
  mo_initiatorTimeout :: "int option"
  mo_responderTimeout :: "int option"
  mo_announcedAt :: "int option"
  mo_takerEthAccount :: "string option"
  mo_takerQrlAccount :: "string option"
  mo_lockSentAt :: "int option"
  mo_claimSentAt :: "int option"
  mo_sponsorSentAt :: "int option"
  mo_refundSentAt :: "int option"
  mo_withdrawSentAt :: "int option"
  mo_pushSentAt :: "int option"
  mo_withdrawAttempts :: "nat option"
  mo_pushAttempts :: "nat option"
  mo_withdrawFirstRejectedAt :: "int option"
  mo_pushFirstRejectedAt :: "int option"
  mo_createdAt :: int


section \<open>Decimal rendering\<close>

fun show_nat :: "nat \<Rightarrow> string" where
  "show_nat n = (if n < 10 then [char_of (48 + n)]
     else show_nat (n div 10) @ [char_of (48 + n mod 10)])"

declare show_nat.simps [simp del]

definition show_int :: "int \<Rightarrow> string" where
  "show_int i = (if i < 0 then ''-'' @ show_nat (nat (- i)) else show_nat (nat i))"

end
