(* ===== verification/Maker_Policy.thy ===== *)
theory Maker_Policy
  imports Protocol_Types
begin

text \<open>
  The market maker's decision core, \<^verbatim>\<open>marketmaker/src/policy.ts\<close>: which proposal to fill,
  the single next action for one managed order, when an undeliverable credit is parked, the price
  ladder and the repost gate. The decision is a result because the address comparison throws on a
  malformed address; each guarded step of the source is a definition of its own, in source order.
  The lemmas give, per decision, everything that holds when it is taken, for any input whatsoever.
\<close>

section \<open>Selecting a proposal\<close>

definition intentPriority :: "selected_fill_intent \<Rightarrow> int" where
  "intentPriority intent = max (pa_issuedAt (si_auth intent)) (si_receivedAt intent)"

definition intentOrder :: "selected_fill_intent \<Rightarrow> selected_fill_intent \<Rightarrow> int" where
  "intentOrder a b =
     or_else (intentPriority a - intentPriority b)
       (or_else (pa_issuedAt (si_auth a) - pa_issuedAt (si_auth b))
         (locale_compare (si_intentDigest a) (si_intentDigest b)))"

definition validFillIntent ::
    "string \<Rightarrow> int \<Rightarrow> (selected_fill_intent \<Rightarrow> bool) \<Rightarrow> selected_fill_intent \<Rightarrow> bool" where
  "validFillIntent orderDigest now verify c \<longleftrightarrow>
     fi_orderDigest (si_intent c) = orderDigest \<and> pa_issuedAt (si_auth c) \<le> now \<and>
     pa_expiresAt (si_auth c) > now \<and> verify c"

definition earliestValidFillIntent ::
    "selected_fill_intent list \<Rightarrow> string \<Rightarrow> int \<Rightarrow> (selected_fill_intent \<Rightarrow> bool)
      \<Rightarrow> selected_fill_intent option" where
  "earliestValidFillIntent intents orderDigest now verify =
     first_of (js_sort intentOrder (filter (validFillIntent orderDigest now verify) intents))"


section \<open>Managed orders and decisions\<close>

datatype book_status = BookOpen | BookAccepted | BookLocking | BookCancelled | BookGone

datatype decision = Wait | Announce | Lock | Claim | Sponsor | Refund | Withdraw | Push | Finish | Abort

record decide_input =
  di_bookStatus :: book_status
  di_released :: bool
  di_managed :: managed_order
  di_iState :: "leg_state option"
  di_rState :: "leg_state option"
  di_rConfirmed :: "leg_state option"
  di_expectedRecipient :: string
  di_expectedAmountWei :: int
  di_expectedToken :: string
  di_nowS :: int
  di_resendAfterS :: int
  di_claimSafetyS :: int
  di_lockGraceS :: int
  di_sponsorClaims :: bool
  di_ourInitiator :: string
  di_takerOnInitiatorLeg :: "string option"
  di_sponsorMarginS :: int
  di_ourResponderCredit :: "int option"
  di_ourInitiatorCredit :: "int option"
  di_takerCredit :: "int option"

definition retryOk :: "int option \<Rightarrow> int \<Rightarrow> int \<Rightarrow> bool" where
  "retryOk sentAt nowS resendAfterS \<longleftrightarrow>
     (case sentAt of None \<Rightarrow> True | Some s \<Rightarrow> nowS - s > resendAfterS)"

definition terminal :: "leg_state option \<Rightarrow> bool" where
  "terminal s \<longleftrightarrow> (case s of None \<Rightarrow> False | Some l \<Rightarrow> ls_status l = LClaimed \<or> ls_status l = LRefunded)"

definition chainExposed :: "leg_state option \<Rightarrow> bool" where
  "chainExposed s \<longleftrightarrow> (case s of None \<Rightarrow> False | Some l \<Rightarrow> ls_status l \<noteq> LNone)"

definition has_status :: "leg_status \<Rightarrow> leg_state option \<Rightarrow> bool" where
  "has_status st s \<longleftrightarrow> (case s of None \<Rightarrow> False | Some l \<Rightarrow> ls_status l = st)"

definition fillAcknowledged :: "managed_order \<Rightarrow> bool" where
  "fillAcknowledged m \<longleftrightarrow> (case mo_protocol m of None \<Rightarrow> False | Some p \<Rightarrow> mp_fillAcknowledged p)"

definition releaseObserved :: "managed_order \<Rightarrow> bool" where
  "releaseObserved m \<longleftrightarrow> (case mo_protocol m of None \<Rightarrow> False | Some p \<Rightarrow> mp_releaseObserved p)"

definition canContinueWithoutBook :: "managed_order \<Rightarrow> leg_state option \<Rightarrow> bool" where
  "canContinueWithoutBook m iState \<longleftrightarrow>
     fillAcknowledged m \<or> mo_lockSentAt m \<noteq> None \<or> chainExposed iState"

definition MAX_CREDIT_ATTEMPTS :: nat where "MAX_CREDIT_ATTEMPTS = 5"

definition CREDIT_PARK_AFTER_S :: int where "CREDIT_PARK_AFTER_S = 24 * 60 * 60"

definition CREDIT_RETRY_CAP_S :: int where "CREDIT_RETRY_CAP_S = 60 * 60"

definition creditRetryAfterS :: "nat \<Rightarrow> int \<Rightarrow> int" where
  "creditRetryAfterS rejections resendAfterS = min (resendAfterS * 2 ^ rejections) CREDIT_RETRY_CAP_S"

definition parked :: "nat option \<Rightarrow> int option \<Rightarrow> int \<Rightarrow> bool" where
  "parked rejections firstRejectedAt nowS \<longleftrightarrow>
     nvl rejections 0 \<ge> MAX_CREDIT_ATTEMPTS \<and>
     (case firstRejectedAt of None \<Rightarrow> False | Some f \<Rightarrow> nowS - f \<ge> CREDIT_PARK_AFTER_S)"

definition withdrawParked :: "managed_order \<Rightarrow> int \<Rightarrow> bool" where
  "withdrawParked m nowS = parked (mo_withdrawAttempts m) (mo_withdrawFirstRejectedAt m) nowS"

definition pushParked :: "managed_order \<Rightarrow> int \<Rightarrow> bool" where
  "pushParked m nowS = parked (mo_pushAttempts m) (mo_pushFirstRejectedAt m) nowS"


section \<open>The decision\<close>

text \<open>Funds of ours are provably not on chain: nothing was sent and the escrow slot is unused.\<close>

definition exposureExcluded :: "decide_input \<Rightarrow> bool" where
  "exposureExcluded x \<longleftrightarrow>
     mo_lockSentAt (di_managed x) = None \<and>
     (mo_hashlock (di_managed x) = None \<or> has_status LNone (di_iState x))"

definition was_released :: "decide_input \<Rightarrow> bool" where
  "was_released x \<longleftrightarrow> di_released x \<or> releaseObserved (di_managed x)"

definition claimReady :: "shake256 \<Rightarrow> decide_input \<Rightarrow> leg_state \<Rightarrow> int \<Rightarrow> (addr_error, bool) result" where
  "claimReady shake x i t2 = all_js [
     Inr (ls_status i = LOpen),
     Inr (has_status LOpen (di_rState x)),
     Inr (has_status LOpen (di_rConfirmed x)),
     some_js (di_rConfirmed x) (\<lambda>r. sameAddr shake (ls_token r) (di_expectedToken x)),
     some_js (di_rConfirmed x) (\<lambda>r. sameAddr shake (ls_recipient r) (di_expectedRecipient x)),
     some_js (di_rConfirmed x) (\<lambda>r. Inr (ls_amount r = di_expectedAmountWei x)),
     some_js (di_rConfirmed x) (\<lambda>r. Inr (di_nowS x < ls_timeout r - di_claimSafetyS x)),
     Inr (di_nowS x < t2 - di_claimSafetyS x),
     Inr (retryOk (mo_claimSentAt (di_managed x)) (di_nowS x) (di_resendAfterS x))]"

definition sponsorReady :: "shake256 \<Rightarrow> decide_input \<Rightarrow> leg_state \<Rightarrow> (addr_error, bool) result" where
  "sponsorReady shake x i = all_js [
     Inr (di_sponsorClaims x),
     Inr (ls_status i = LOpen),
     sameAddr shake (ls_initiator i) (di_ourInitiator x),
     some_js (di_takerOnInitiatorLeg x) (\<lambda>t. sameAddr shake (ls_recipient i) t),
     Inr (has_status LClaimed (di_rConfirmed x)),
     Inr (di_nowS x < ls_timeout i - di_sponsorMarginS x),
     Inr (retryOk (mo_sponsorSentAt (di_managed x)) (di_nowS x) (di_resendAfterS x))]"

definition lockReady :: "decide_input \<Rightarrow> leg_state \<Rightarrow> int \<Rightarrow> bool" where
  "lockReady x i t2 \<longleftrightarrow>
     ls_status i = LNone \<and> di_bookStatus x = BookLocking \<and> \<not> was_released x \<and>
     (mo_protocol (di_managed x) = None \<or> fillAcknowledged (di_managed x)) \<and>
     di_nowS x - nvl (mo_announcedAt (di_managed x)) 0 \<ge> di_lockGraceS x \<and>
     di_nowS x < t2 - di_claimSafetyS x \<and>
     retryOk (mo_lockSentAt (di_managed x)) (di_nowS x) (di_resendAfterS x)"

definition refundReady :: "decide_input \<Rightarrow> leg_state \<Rightarrow> int \<Rightarrow> bool" where
  "refundReady x i t1 \<longleftrightarrow>
     ls_status i = LOpen \<and> di_nowS x \<ge> t1 \<and>
     retryOk (mo_refundSentAt (di_managed x)) (di_nowS x) (di_resendAfterS x)"

definition withdrawReady :: "decide_input \<Rightarrow> bool" where
  "withdrawReady x \<longleftrightarrow> (let m = di_managed x in
     (nvl (di_ourResponderCredit x) 0 > 0 \<or> nvl (di_ourInitiatorCredit x) 0 > 0) \<and>
     \<not> withdrawParked m (di_nowS x) \<and>
     retryOk (mo_withdrawSentAt m) (di_nowS x)
       (creditRetryAfterS (nvl (mo_withdrawAttempts m) 0) (di_resendAfterS x)))"

definition pushableTakerCredit :: "shake256 \<Rightarrow> decide_input \<Rightarrow> leg_state \<Rightarrow> (addr_error, bool) result" where
  "pushableTakerCredit shake x i = all_js [
     Inr (di_sponsorClaims x),
     Inr (di_takerOnInitiatorLeg x \<noteq> None),
     Inr (ls_status i = LClaimed),
     sameAddr shake (ls_initiator i) (di_ourInitiator x),
     some_js (di_takerOnInitiatorLeg x) (\<lambda>t. sameAddr shake (ls_recipient i) t)]"

definition pushReady :: "decide_input \<Rightarrow> bool \<Rightarrow> bool" where
  "pushReady x pushable \<longleftrightarrow> (let m = di_managed x in
     pushable \<and> nvl (di_takerCredit x) 0 > 0 \<and> \<not> pushParked m (di_nowS x) \<and>
     retryOk (mo_pushSentAt m) (di_nowS x)
       (creditRetryAfterS (nvl (mo_pushAttempts m) 0) (di_resendAfterS x)))"

definition rSettled :: "decide_input \<Rightarrow> int \<Rightarrow> bool" where
  "rSettled x t2 \<longleftrightarrow>
     terminal (di_rState x) \<or> (has_status LNone (di_rState x) \<and> di_nowS x \<ge> t2)"

definition creditsSettled :: "decide_input \<Rightarrow> bool \<Rightarrow> bool" where
  "creditsSettled x pushable \<longleftrightarrow>
     (withdrawParked (di_managed x) (di_nowS x) \<or>
      (di_ourResponderCredit x = Some 0 \<and> di_ourInitiatorCredit x = Some 0)) \<and>
     (\<not> pushable \<or> pushParked (di_managed x) (di_nowS x) \<or> di_takerCredit x = Some 0)"

text \<open>The part of the decision the chain governs, once both timeouts and our leg are known.\<close>

definition decide_chain :: "shake256 \<Rightarrow> decide_input \<Rightarrow> leg_state \<Rightarrow> int \<Rightarrow> int
    \<Rightarrow> (addr_error, decision) result" where
  "decide_chain shake x i t1 t2 =
     js_if (claimReady shake x i t2) (Inr Claim)
    (js_if (sponsorReady shake x i) (Inr Sponsor)
    (if lockReady x i t2 then Inr Lock
     else if refundReady x i t1 then Inr Refund
     else if withdrawReady x then Inr Withdraw
     else js_bind (pushableTakerCredit shake x i) (\<lambda>pushable.
       if pushReady x pushable then Inr Push
       else if terminal (Some i) \<and> rSettled x t2 \<and> creditsSettled x pushable then Inr Finish
       else if ls_status i = LNone \<and> di_nowS x \<ge> t2 \<and> mo_lockSentAt (di_managed x) = None then Inr Abort
       else Inr Wait)))"

definition decide :: "shake256 \<Rightarrow> decide_input \<Rightarrow> (addr_error, decision) result" where
  "decide shake x =
     (if (di_bookStatus x = BookGone \<or> di_bookStatus x = BookCancelled) \<and> exposureExcluded x then Inr Abort
      else if was_released x \<and> exposureExcluded x then Inr Abort
      else if di_bookStatus x = BookOpen then Inr Wait
      else if di_bookStatus x = BookAccepted then Inr Announce
      else (case (mo_preimage (di_managed x), mo_hashlock (di_managed x),
                  mo_initiatorTimeout (di_managed x), mo_responderTimeout (di_managed x), di_iState x) of
              (Some _, Some _, Some t1, Some t2, Some i) \<Rightarrow> decide_chain shake x i t1 t2
            | _ \<Rightarrow> Inr Wait))"


section \<open>Quotes and refill\<close>

record level_quote =
  lq_fromAmount :: int
  lq_toAmount :: int

text \<open>The unsigned amounts are integers here; \<^verbatim>\<open>bigint\<close> division truncates toward zero.\<close>

definition bigint_div :: "int \<Rightarrow> int \<Rightarrow> int" where
  "bigint_div a b = (if 0 \<le> a then a div b else - ((- a) div b))"

definition level_price :: "direction \<Rightarrow> nat \<Rightarrow> int \<Rightarrow> int \<Rightarrow> int" where
  "level_price direction level midPriceMilli stepBps =
     (let offsetBps = stepBps * int (level + 1) in
      if direction = EthToQrl then bigint_div (midPriceMilli * (10000 + offsetBps)) 10000
      else bigint_div (midPriceMilli * (10000 - offsetBps)) 10000)"

definition levelQuote :: "direction \<Rightarrow> nat \<Rightarrow> int \<Rightarrow> int \<Rightarrow> int \<Rightarrow> nat \<Rightarrow> level_quote" where
  "levelQuote direction level baseUnits midPriceMilli stepBps assetDecimals =
     (let units = baseUnits * int (level + 1);
          qrlWei = bigint_div (units * level_price direction level midPriceMilli stepBps
             * 10 ^ (18 - assetDecimals)) 1000
      in if direction = EthToQrl then \<lparr>lq_fromAmount = units, lq_toAmount = qrlWei\<rparr>
         else \<lparr>lq_fromAmount = qrlWei, lq_toAmount = units\<rparr>)"

record refill_input =
  ri_myOpenCount :: nat
  ri_ordersPerDirection :: nat
  ri_ordersPerLevel :: nat
  ri_inflightCount :: nat
  ri_maxInflight :: nat
  ri_balanceWei :: int
  ri_reserveWei :: int
  ri_orderWei :: int
  ri_gasBalanceWei :: int
  ri_gasReserveWei :: int

definition fundsShort :: "refill_input \<Rightarrow> bool" where
  "fundsShort x \<longleftrightarrow> ri_balanceWei x < ri_reserveWei x + ri_orderWei x \<or> ri_gasBalanceWei x < ri_gasReserveWei x"

definition inventoryShort :: "refill_input \<Rightarrow> bool" where
  "inventoryShort x \<longleftrightarrow>
     ri_myOpenCount x < ri_ordersPerDirection x * ri_ordersPerLevel x \<and>
     ri_inflightCount x < ri_maxInflight x \<and> fundsShort x"

definition shouldPost :: "refill_input \<Rightarrow> bool" where
  "shouldPost x \<longleftrightarrow>
     ri_myOpenCount x < ri_ordersPerDirection x * ri_ordersPerLevel x \<and>
     ri_inflightCount x < ri_maxInflight x \<and>
     ri_balanceWei x \<ge> ri_reserveWei x + ri_orderWei x \<and> ri_gasBalanceWei x \<ge> ri_gasReserveWei x"


text \<open>A concrete order and input, for evaluating the decision on.\<close>

definition demo_managed :: managed_order where
  "demo_managed = \<lparr>mo_id = ''o1'', mo_deployment = \<lparr>dp_ethChainId = ''11155111'', dp_qrlChainId = ''1'',
     dp_qrlGenesisHash = ''g'', dp_ethHtlc = ''e'', dp_qrlHtlc = ''q'', dp_configFingerprint = ''f''\<rparr>,
     mo_token = None, mo_protocol = None, mo_direction = EthToQrl, mo_asset = ETH, mo_level = 0,
     mo_quotedMidMilli = None, mo_fromAmount = ''7'', mo_toAmount = ''9'', mo_preimage = Some ''s'',
     mo_hashlock = Some ''hs'', mo_initiatorTimeout = Some 2000, mo_responderTimeout = Some 1000,
     mo_announcedAt = Some 10, mo_takerEthAccount = None, mo_takerQrlAccount = None,
     mo_lockSentAt = Some 20, mo_claimSentAt = None, mo_sponsorSentAt = None, mo_refundSentAt = None,
     mo_withdrawSentAt = None, mo_pushSentAt = None, mo_withdrawAttempts = None, mo_pushAttempts = None,
     mo_withdrawFirstRejectedAt = None, mo_pushFirstRejectedAt = None, mo_createdAt = 0\<rparr>"

definition demo_decide :: "leg_state option \<Rightarrow> leg_state option \<Rightarrow> int \<Rightarrow> decide_input" where
  "demo_decide i r now = \<lparr>di_bookStatus = BookLocking, di_released = False, di_managed = demo_managed,
     di_iState = i, di_rState = r, di_rConfirmed = r, di_expectedRecipient = eth_addr (CHR ''a''),
     di_expectedAmountWei = 9, di_expectedToken = NATIVE_TOKEN, di_nowS = now, di_resendAfterS = 60,
     di_claimSafetyS = 100, di_lockGraceS = 5, di_sponsorClaims = True,
     di_ourInitiator = eth_addr (CHR ''a''), di_takerOnInitiatorLeg = Some (eth_addr (CHR ''b'')),
     di_sponsorMarginS = 50, di_ourResponderCredit = Some 0, di_ourInitiatorCredit = Some 0,
     di_takerCredit = Some 0\<rparr>"

lemmas demo_decide_defs = demo_decide_def demo_managed_def demo_leg_def decide_def decide_chain_def
  exposureExcluded_def was_released_def releaseObserved_def has_status_def claimReady_def
  sponsorReady_def lockReady_def refundReady_def withdrawReady_def pushableTakerCredit_def
  pushReady_def rSettled_def creditsSettled_def retryOk_def all_js.simps demo_addr_simps Let_def
  withdrawParked_def pushParked_def parked_def MAX_CREDIT_ATTEMPTS_def terminal_def


section \<open>Proposal order\<close>

lemma intentOrder_le:
  "intentOrder a b \<le> 0 \<longleftrightarrow>
     (intentPriority a, pa_issuedAt (si_auth a), si_intentDigest a)
       \<le> (intentPriority b, pa_issuedAt (si_auth b), si_intentDigest b)"
  by (auto simp: intentOrder_def or_else_def locale_compare_def less_eq_prod_def)

interpretation intents: js_comparator intentOrder "\<lambda>_. True"
  by unfold_locales (auto simp: intentOrder_le)

lemma earliest_first:
  assumes "earliestValidFillIntent intents d now verify = Some c"
  shows "c \<in> set intents" "validFillIntent d now verify c"
    "c' \<in> set intents \<Longrightarrow> validFillIntent d now verify c' \<Longrightarrow> intentOrder c c' \<le> 0"
  using intents.sort_first_least [of "filter (validFillIntent d now verify) intents" c] assms
  unfolding earliestValidFillIntent_def by auto

lemma earliest_None:
  "earliestValidFillIntent intents d now verify = None \<longleftrightarrow>
     (\<forall>c\<in>set intents. \<not> validFillIntent d now verify c)"
proof -
  have "js_sort intentOrder l = [] \<longleftrightarrow> l = []" for l
    by (metis length_0_conv length_js_sort)
  then show ?thesis by (simp add: earliestValidFillIntent_def filter_empty_conv)
qed

text \<open>
  the proposal the maker fills is a valid one that no valid proposal precedes in first-come
  order (issuance clamped to arrival, then issuance, then digest), and the choice does not depend on
  the order in which the book lists the proposals, as long as digests identify proposals.
\<close>

lemma earliest_intent_canonical:
  assumes "set intents = set intents'"
    and "\<forall>a\<in>set intents. \<forall>b\<in>set intents. si_intentDigest a = si_intentDigest b \<longrightarrow> a = b"
  shows "earliestValidFillIntent intents' d now verify = earliestValidFillIntent intents d now verify \<and>
    (\<forall>c. earliestValidFillIntent intents d now verify = Some c \<longrightarrow>
       validFillIntent d now verify c \<and>
       (\<forall>c'\<in>set intents. validFillIntent d now verify c' \<longrightarrow> intentPriority c \<le> intentPriority c'))"
proof
  show "\<forall>c. earliestValidFillIntent intents d now verify = Some c \<longrightarrow>
       validFillIntent d now verify c \<and>
       (\<forall>c'\<in>set intents. validFillIntent d now verify c' \<longrightarrow> intentPriority c \<le> intentPriority c')"
    using earliest_first by (fastforce simp: intentOrder_le less_eq_prod_def)
  show "earliestValidFillIntent intents' d now verify = earliestValidFillIntent intents d now verify"
  proof (cases "earliestValidFillIntent intents d now verify")
    case None
    then have "earliestValidFillIntent intents' d now verify = None"
      using assms(1) by (simp add: earliest_None)
    with None show ?thesis by simp
  next
    case (Some c)
    then obtain c' where c': "earliestValidFillIntent intents' d now verify = Some c'"
      using assms(1) earliest_None [of intents d now verify] earliest_None [of intents' d now verify]
      by (metis option.exhaust option.distinct(1))
    have "intentOrder c c' \<le> 0" "intentOrder c' c \<le> 0"
      using earliest_first [OF Some] earliest_first [OF c'] assms(1) by auto
    then have "si_intentDigest c = si_intentDigest c'"
      by (auto simp: intentOrder_le less_eq_prod_def)
    then have "c = c'" using earliest_first(1) [OF Some] earliest_first(1) [OF c'] assms by blast
    with Some c' show ?thesis by simp
  qed
qed


section \<open>What each decision guarantees\<close>

lemma retryOk_iff: "retryOk s n r \<longleftrightarrow> (\<forall>t. s = Some t \<longrightarrow> n - t > r)"
  by (auto simp: retryOk_def split: option.splits)

lemma has_status_iff [js_simps]: "has_status st s \<longleftrightarrow> (\<exists>l. s = Some l \<and> ls_status l = st)"
  by (auto simp: has_status_def split: option.splits)

lemma terminal_Some [simp]: "terminal (Some l) \<longleftrightarrow> ls_status l = LClaimed \<or> ls_status l = LRefunded"
  by (simp add: terminal_def)

lemma creditRetryAfterS_bounds:
  "0 \<le> r \<Longrightarrow> min r CREDIT_RETRY_CAP_S \<le> creditRetryAfterS n r \<and> creditRetryAfterS n r \<le> CREDIT_RETRY_CAP_S"
proof -
  assume r: "0 \<le> r"
  have "r * 1 \<le> r * 2 ^ n" using r by (intro mult_left_mono) auto
  then show ?thesis by (auto simp: creditRetryAfterS_def)
qed

text \<open>A decision other than the early ones comes from the chain-governed part.\<close>

lemma decide_chain_reached:
  assumes "decide shake x = Inr d" and "d \<noteq> Wait" and "d \<noteq> Announce" and "d \<noteq> Abort"
  shows "\<exists>i t1 t2. di_iState x = Some i \<and> mo_preimage (di_managed x) \<noteq> None \<and>
    mo_hashlock (di_managed x) \<noteq> None \<and> mo_initiatorTimeout (di_managed x) = Some t1 \<and>
    mo_responderTimeout (di_managed x) = Some t2 \<and> decide_chain shake x i t1 t2 = Inr d"
  using assms by (auto simp: decide_def split: if_splits option.splits)

text \<open>What the gate of each decision tested.\<close>

lemma decide_chain_gate:
  assumes "decide_chain shake x i t1 t2 = Inr d"
  shows "case d of
      Claim \<Rightarrow> claimReady shake x i t2 = Inr True
    | Sponsor \<Rightarrow> sponsorReady shake x i = Inr True
    | Lock \<Rightarrow> lockReady x i t2
    | Refund \<Rightarrow> refundReady x i t1
    | Withdraw \<Rightarrow> withdrawReady x
    | Push \<Rightarrow> (\<exists>p. pushableTakerCredit shake x i = Inr p \<and> pushReady x p)
    | Finish \<Rightarrow> (\<exists>p. pushableTakerCredit shake x i = Inr p \<and> terminal (Some i) \<and> rSettled x t2 \<and>
        creditsSettled x p)
    | Abort \<Rightarrow> ls_status i = LNone \<and> di_nowS x \<ge> t2 \<and> mo_lockSentAt (di_managed x) = None
    | Wait \<Rightarrow> True
    | Announce \<Rightarrow> False"
  using assms unfolding decide_chain_def js_if_Inr
  by (auto simp: js_bind_Inr split: if_splits)

lemma claimReady_True:
  "claimReady shake x i t2 = Inr True \<longleftrightarrow> ls_status i = LOpen \<and> has_status LOpen (di_rState x) \<and>
     (\<exists>r. di_rConfirmed x = Some r \<and> ls_status r = LOpen \<and>
       sameAddr shake (ls_token r) (di_expectedToken x) = Inr True \<and>
       sameAddr shake (ls_recipient r) (di_expectedRecipient x) = Inr True \<and>
       ls_amount r = di_expectedAmountWei x \<and> di_nowS x < ls_timeout r - di_claimSafetyS x) \<and>
     di_nowS x < t2 - di_claimSafetyS x \<and>
     retryOk (mo_claimSentAt (di_managed x)) (di_nowS x) (di_resendAfterS x)"
  by (auto simp: claimReady_def js_simps)

lemma sponsorReady_True:
  "sponsorReady shake x i = Inr True \<longleftrightarrow> di_sponsorClaims x \<and> ls_status i = LOpen \<and>
     sameAddr shake (ls_initiator i) (di_ourInitiator x) = Inr True \<and>
     (\<exists>t. di_takerOnInitiatorLeg x = Some t \<and> sameAddr shake (ls_recipient i) t = Inr True) \<and>
     has_status LClaimed (di_rConfirmed x) \<and> di_nowS x < ls_timeout i - di_sponsorMarginS x \<and>
     retryOk (mo_sponsorSentAt (di_managed x)) (di_nowS x) (di_resendAfterS x)"
  by (auto simp: sponsorReady_def js_simps)

text \<open>
  C5: the maker publishes the secret only into a safe claim. Whenever the decision is to claim, the
  maker's own lock is open, the taker's lock is open both at the head and at confirmation depth, the
  deep one escrows exactly the expected amount of the expected token for the maker's account, and
  both that lock's own on-chain timeout and the announced one are further away than the safety
  margin.
\<close>

theorem maker_claim_safe:
  assumes "decide shake x = Inr Claim"
  shows "\<exists>i r. di_iState x = Some i \<and> ls_status i = LOpen \<and> has_status LOpen (di_rState x) \<and>
    di_rConfirmed x = Some r \<and> ls_status r = LOpen \<and>
    sameAddr shake (ls_token r) (di_expectedToken x) = Inr True \<and>
    sameAddr shake (ls_recipient r) (di_expectedRecipient x) = Inr True \<and>
    ls_amount r = di_expectedAmountWei x \<and>
    \<not> claimCutoffBlocked (ls_timeout r) (di_nowS x) (di_claimSafetyS x) \<and>
    mo_preimage (di_managed x) \<noteq> None"
  using decide_chain_reached [OF assms]
  by (auto simp: claimReady_True claimCutoffBlocked_def dest!: decide_chain_gate)

theorem maker_claim_safe_witness:
  "let x = demo_decide (Some (demo_leg LOpen (CHR ''a'') (CHR ''b'') 7 2000))
         (Some (demo_leg LOpen (CHR ''b'') (CHR ''a'') 9 1000)) 500
   in decide demo_shake x = Inr Claim \<and> has_status LOpen (di_rState x)"
proof -
  have "decide demo_shake (demo_decide (Some (demo_leg LOpen (CHR ''a'') (CHR ''b'') 7 2000))
         (Some (demo_leg LOpen (CHR ''b'') (CHR ''a'') 9 1000)) 500) = Inr Claim"
    by (simp add: demo_decide_defs)
  from maker_claim_safe [OF this] this show ?thesis by (auto simp: Let_def)
qed

text \<open>
  the maker forgets an order only when none of its funds can be on chain: no lock was ever
  sent, and the order has no hashlock yet or the escrow slot of its hashlock is still unused.
\<close>

lemma maker_abort_unexposed:
  assumes "decide shake x = Inr Abort"
  shows "mo_lockSentAt (di_managed x) = None \<and>
    (mo_hashlock (di_managed x) = None \<or> has_status LNone (di_iState x))"
proof (cases "exposureExcluded x")
  case True
  then show ?thesis by (simp add: exposureExcluded_def)
next
  case False
  with assms obtain i t1 t2 where "di_iState x = Some i" "decide_chain shake x i t1 t2 = Inr Abort"
    by (auto simp: decide_def split: if_splits option.splits)
  then show ?thesis by (auto simp: js_simps dest!: decide_chain_gate)
qed

text \<open>
  C30: the maker retires an order only when there is nothing left to do for it: its own leg is
  claimed or refunded, the taker's leg is settled or was never used before its deadline, and every
  credit the maker owns or has to deliver is read as zero, unless the contract refused to move it at
  least five times over at least a day.
\<close>

theorem maker_finish_settled:
  assumes "decide shake x = Inr Finish"
  shows "terminal (di_iState x) \<and>
    (terminal (di_rState x) \<or> has_status LNone (di_rState x)) \<and>
    ((di_ourResponderCredit x = Some 0 \<and> di_ourInitiatorCredit x = Some 0) \<or>
     (\<exists>n f. mo_withdrawAttempts (di_managed x) = Some n \<and> 5 \<le> n \<and>
        mo_withdrawFirstRejectedAt (di_managed x) = Some f \<and> 24 * 60 * 60 \<le> di_nowS x - f)) \<and>
    (\<forall>i. di_iState x = Some i \<longrightarrow> pushableTakerCredit shake x i = Inr True \<longrightarrow>
       di_takerCredit x = Some 0 \<or> pushParked (di_managed x) (di_nowS x))"
proof -
  from decide_chain_reached [OF assms] obtain i t1 t2 p where i: "di_iState x = Some i"
    and p: "pushableTakerCredit shake x i = Inr p" and r: "rSettled x t2"
    and c: "creditsSettled x p" and t: "terminal (Some i)"
    by (auto dest!: decide_chain_gate)
  have park: "withdrawParked (di_managed x) (di_nowS x) \<Longrightarrow>
     \<exists>n f. mo_withdrawAttempts (di_managed x) = Some n \<and> 5 \<le> n \<and>
        mo_withdrawFirstRejectedAt (di_managed x) = Some f \<and> 24 * 60 * 60 \<le> di_nowS x - f"
    by (auto simp: withdrawParked_def parked_def MAX_CREDIT_ATTEMPTS_def CREDIT_PARK_AFTER_S_def
        nvl_def split: option.splits)
  from i p r c t park show ?thesis
    by (auto simp: rSettled_def creditsSettled_def)
qed

theorem maker_finish_settled_witness:
  "let x = demo_decide (Some (demo_leg LClaimed (CHR ''a'') (CHR ''b'') 7 2000))
         (Some (demo_leg LClaimed (CHR ''b'') (CHR ''a'') 9 1000)) 600
   in decide demo_shake x = Inr Finish \<and> terminal (di_iState x)"
proof -
  have "decide demo_shake (demo_decide (Some (demo_leg LClaimed (CHR ''a'') (CHR ''b'') 7 2000))
         (Some (demo_leg LClaimed (CHR ''b'') (CHR ''a'') 9 1000)) 600) = Inr Finish"
    by (simp add: demo_decide_defs)
  from maker_finish_settled [OF this] this show ?thesis by (auto simp: Let_def)
qed

text \<open>The send marker each irreversible action is spaced by.\<close>

fun sent_marker :: "decision \<Rightarrow> managed_order \<Rightarrow> int option" where
  "sent_marker Claim m = mo_claimSentAt m"
| "sent_marker Sponsor m = mo_sponsorSentAt m"
| "sent_marker Lock m = mo_lockSentAt m"
| "sent_marker Refund m = mo_refundSentAt m"
| "sent_marker Withdraw m = mo_withdrawSentAt m"
| "sent_marker Push m = mo_pushSentAt m"
| "sent_marker _ m = None"

text \<open>
  no irreversible action is repeated too soon. Whatever the maker decides to send, the
  persisted marker of that action is absent or older than the resend interval (for credit moves, of
  the interval capped at one hour).
\<close>

lemma maker_send_spacing:
  assumes "decide shake x = Inr d" and "sent_marker d (di_managed x) = Some t" and "0 \<le> di_resendAfterS x"
  shows "di_nowS x - t > min (di_resendAfterS x) CREDIT_RETRY_CAP_S"
proof -
  have d: "d \<noteq> Wait" "d \<noteq> Announce" "d \<noteq> Abort" "d \<noteq> Finish" using assms(2) by auto
  from decide_chain_reached [OF assms(1) d(1-3)] obtain i t1 t2
    where c: "decide_chain shake x i t1 t2 = Inr d" by blast
  have "\<exists>n. di_nowS x - t > di_resendAfterS x \<or> di_nowS x - t > creditRetryAfterS n (di_resendAfterS x)"
    using decide_chain_gate [OF c] d assms(2)
    by (cases d) (auto simp: claimReady_True sponsorReady_True lockReady_def refundReady_def
        withdrawReady_def pushReady_def retryOk_iff Let_def)
  then obtain n where "di_nowS x - t > di_resendAfterS x \<or>
      di_nowS x - t > creditRetryAfterS n (di_resendAfterS x)" by blast
  with creditRetryAfterS_bounds [OF assms(3), of n] show ?thesis by linarith
qed

text \<open>
  the maker escrows only into a swap that can still complete. When the decision is to lock, the
  escrow slot is unused on chain, the book shows the order locking, neither the book nor any earlier
  observation shows a release, a signed order has its fill acknowledged, the announce grace has
  passed, and the responder window is open for longer than the claim safety margin.
\<close>

lemma maker_lock_guarded:
  assumes "decide shake x = Inr Lock"
  shows "has_status LNone (di_iState x) \<and> di_bookStatus x = BookLocking \<and> \<not> di_released x \<and>
    (\<forall>p. mo_protocol (di_managed x) = Some p \<longrightarrow> mp_fillAcknowledged p \<and> \<not> mp_releaseObserved p) \<and>
    (\<forall>a. mo_announcedAt (di_managed x) = Some a \<longrightarrow> a + di_lockGraceS x \<le> di_nowS x) \<and>
    (\<exists>t2. mo_responderTimeout (di_managed x) = Some t2 \<and> di_nowS x + di_claimSafetyS x < t2)"
proof -
  from decide_chain_reached [OF assms] obtain i t1 t2 where i: "di_iState x = Some i"
    "mo_responderTimeout (di_managed x) = Some t2" and l: "lockReady x i t2"
    by (auto dest!: decide_chain_gate)
  then show ?thesis
    by (auto simp: lockReady_def was_released_def releaseObserved_def fillAcknowledged_def js_simps
        split: option.splits)
qed

lemma sameAddr_total:
  "qrlOrEthHex shake a = Inr ha \<Longrightarrow> qrlOrEthHex shake b = Inr hb \<Longrightarrow> \<exists>r. sameAddr shake a b = Inr r"
  by (simp add: sameAddr_def)

text \<open>The addresses a decision may have to compare.\<close>

definition addresses_ok :: "shake256 \<Rightarrow> decide_input \<Rightarrow> bool" where
  "addresses_ok shake x \<longleftrightarrow>
     (\<forall>a\<in>{di_expectedToken x, di_expectedRecipient x, di_ourInitiator x}
        \<union> set_option (di_takerOnInitiatorLeg x)
        \<union> (\<Union>l\<in>set_option (di_rConfirmed x). {ls_token l, ls_recipient l})
        \<union> (\<Union>l\<in>set_option (di_iState x). {ls_initiator l, ls_recipient l}).
        \<exists>h. qrlOrEthHex shake a = Inr h)"

lemma decide_total:
  assumes "addresses_ok shake x"
  shows "\<exists>d. decide shake x = Inr d"
proof -
  have ok: "\<exists>r. sameAddr shake a b = Inr r"
    if "\<exists>h. qrlOrEthHex shake a = Inr h" "\<exists>h. qrlOrEthHex shake b = Inr h" for a b
    using that sameAddr_total by blast
  have chain: "\<exists>d. decide_chain shake x i t1 t2 = Inr d" if i: "di_iState x = Some i" for i t1 t2
  proof -
    have "\<exists>b. claimReady shake x i t2 = Inr b" "\<exists>b. sponsorReady shake x i = Inr b"
      "\<exists>b. pushableTakerCredit shake x i = Inr b"
      unfolding claimReady_def sponsorReady_def pushableTakerCredit_def
      by (rule all_js_no_throw; use assms i ok in
          \<open>auto simp: addresses_ok_def some_js_def split: option.splits\<close>)+
    then show ?thesis by (auto simp: decide_chain_def js_if_def)
  qed
  show ?thesis
    using chain by (auto simp: decide_def split: option.splits)
qed

text \<open>
  C20: expired escrows are acted on. With well-formed addresses, and with the preimage, hashlock and both
  timeouts of the order recorded, the decision never throws, and once the maker's own lock is open at or
  past its timeout, the book shows the order neither open nor accepted, and no refund was sent within
  the resend window, the decision does not wait: it claims the taker's leg, sponsors the taker's claim, or
  refunds.
\<close>

theorem maker_recovers_funds:
  assumes "addresses_ok shake x" and "di_iState x = Some i" and "ls_status i = LOpen"
    and "di_bookStatus x \<noteq> BookOpen" and "di_bookStatus x \<noteq> BookAccepted"
    and "mo_preimage (di_managed x) \<noteq> None" and "mo_hashlock (di_managed x) \<noteq> None"
    and "mo_initiatorTimeout (di_managed x) = Some t1" and "mo_responderTimeout (di_managed x) = Some t2"
    and "t1 \<le> di_nowS x" and "retryOk (mo_refundSentAt (di_managed x)) (di_nowS x) (di_resendAfterS x)"
  shows "\<exists>d. decide shake x = Inr d \<and> d \<in> {Claim, Sponsor, Refund}"
proof -
  obtain d where d: "decide shake x = Inr d" using decide_total [OF assms(1)] by blast
  have "\<not> exposureExcluded x" using assms(2,3,7) by (auto simp: exposureExcluded_def has_status_def)
  then have "decide shake x = decide_chain shake x i t1 t2"
    using assms by (auto simp: decide_def split: option.splits)
  moreover have "\<not> lockReady x i t2" "refundReady x i t1"
    using assms by (simp_all add: lockReady_def refundReady_def)
  ultimately have "d \<in> {Claim, Sponsor, Refund}"
    using d unfolding decide_chain_def by (simp add: js_if_def split: sum.splits if_splits)
  with d show ?thesis by blast
qed

theorem maker_recovers_funds_witness:
  "\<exists>d. decide demo_shake (demo_decide (Some (demo_leg LOpen (CHR ''a'') (CHR ''b'') 7 2000)) None 2000) = Inr d \<and>
     d \<in> {Claim, Sponsor, Refund}"
proof -
  have q: "\<exists>h. qrlOrEthHex demo_shake (eth_addr c) = Inr h" if "is_hex_any c" for c
    using eth_addr_ok [OF that] by (auto simp: qrlOrEthHex_def)
  show ?thesis
    by (rule maker_recovers_funds [of demo_shake _ "demo_leg LOpen (CHR ''a'') (CHR ''b'') 7 2000" 2000 1000])
      (auto simp: addresses_ok_def demo_decide_def demo_leg_def demo_managed_def retryOk_def
        NATIVE_TOKEN_eth_addr demo_chars intro!: q)
qed


section \<open>Prices and refill\<close>

lemma div_scale_ge: "0 \<le> (m::int) \<Longrightarrow> 0 \<le> k \<Longrightarrow> m \<le> m * (10000 + k) div 10000"
proof -
  assume "0 \<le> m" "0 \<le> k"
  then have "m * 10000 \<le> m * (10000 + k)" by (intro mult_left_mono) auto
  then have "m * 10000 div 10000 \<le> m * (10000 + k) div 10000" by (rule zdiv_mono1) simp
  then show ?thesis by simp
qed

lemma div_scale_le: "0 \<le> (m::int) \<Longrightarrow> 0 \<le> k \<Longrightarrow> m * (10000 - k) div 10000 \<le> m"
proof -
  assume "0 \<le> m" "0 \<le> k"
  then have "m * (10000 - k) \<le> m * 10000" by (intro mult_left_mono) auto
  then have "m * (10000 - k) div 10000 \<le> m * 10000 div 10000" by (rule zdiv_mono1) simp
  then show ?thesis by simp
qed

lemma level_price_sides:
  assumes "0 \<le> mid" and "0 \<le> step" and "step * int (l + 1) \<le> 10000"
  shows "0 \<le> level_price QrlToEth l mid step" "level_price QrlToEth l mid step \<le> mid"
    "mid \<le> level_price EthToQrl l' mid step"
proof -
  have n: "0 \<le> mid * (10000 - step * int (l + 1))" using assms by simp
  then show "0 \<le> level_price QrlToEth l mid step"
    by (simp add: level_price_def bigint_div_def Let_def)
  show "level_price QrlToEth l mid step \<le> mid"
    using n div_scale_le [of mid "step * int (l + 1)"] assms
    by (simp add: level_price_def bigint_div_def Let_def)
  have "0 \<le> mid * (10000 + step * int (l' + 1))" using assms by simp
  then show "mid \<le> level_price EthToQrl l' mid step"
    using div_scale_ge [of mid "step * int (l' + 1)"] assms
    by (simp add: level_price_def bigint_div_def Let_def)
qed

text \<open>
  the ladder never quotes against itself. As long as a rung's offset stays within 100 per cent,
  every amount is non-negative, and for the same rung the QRL the maker asks when it sells the asset
  is at least what it offers when it buys the same number of units.
\<close>

lemma ladder_never_crosses:
  assumes "0 \<le> mid" and "0 \<le> step" and "0 \<le> base" and "step * int (level + 1) \<le> 10000"
  shows "let ask = levelQuote EthToQrl level base mid step dec; bid = levelQuote QrlToEth level base mid step dec
    in lq_fromAmount ask = lq_toAmount bid \<and> 0 \<le> lq_fromAmount bid \<and> lq_fromAmount bid \<le> lq_toAmount ask"
proof -
  let ?u = "base * int (level + 1)" and ?k = "10 ^ (18 - dec) :: int"
  let ?b = "level_price QrlToEth level mid step" and ?a = "level_price EthToQrl level mid step"
  note P = level_price_sides [OF assms(1,2,4)]
  have u: "0 \<le> ?u" using assms(3) by simp
  have b0: "0 \<le> ?u * ?b * ?k" using u P(1) by simp
  have "?b \<le> ?a" using P(2) P(3) [of level] by linarith
  then have "?u * ?b * ?k \<le> ?u * ?a * ?k" using u by (intro mult_right_mono mult_left_mono) auto
  with b0 show ?thesis
    by (auto simp: levelQuote_def Let_def bigint_div_def intro!: zdiv_mono1 pos_imp_zdiv_nonneg_iff [THEN iffD2])
qed

text \<open>
  The bound on the offset is needed: nothing in the configuration enforces it, and one rung further
  the maker offers a negative amount.
\<close>

lemma steep_ladder_goes_negative: "lq_fromAmount (levelQuote QrlToEth 200 1000 5000 50 18) < 0"
  by (simp add: levelQuote_def level_price_def bigint_div_def Let_def)

text \<open>
  The refill gate. The maker posts exactly when it has listing capacity and is not short of
  funds, so a rung with capacity is either posted or reported as short of inventory, never both.
\<close>

lemma refill_gate_partition:
  "\<not> (shouldPost x \<and> (inventoryShort x \<or> fundsShort x)) \<and>
   (ri_myOpenCount x < ri_ordersPerDirection x * ri_ordersPerLevel x \<and> ri_inflightCount x < ri_maxInflight x
      \<longleftrightarrow> shouldPost x \<or> inventoryShort x)"
  by (auto simp: shouldPost_def inventoryShort_def fundsShort_def)

end
