(* ===== verification/Taker_Policy.thy ===== *)
theory Taker_Policy
  imports Maker_Policy
begin

text \<open>
  The scripted taker's decision core, \<^verbatim>\<open>marketmaker/src/taker-policy.ts\<close>: the plan of the
  two legs, the verification of the maker's escrow and of the taker's own one, the single next
  action for a take, the order in which takes are resumed and the bounds checked before a proposal
  is signed. Verdicts carry the operator-facing reason, as in the source. The lemmas give what holds
  whenever the taker funds, refunds, claims, finishes or walks away.
\<close>

section \<open>Leg plans\<close>

definition ZERO_BYTES32 :: string where
  "ZERO_BYTES32 = ''0x'' @ replicate 64 (CHR ''0'')"

datatype taker_decision = TWait | TPropose | TLock | TClaim | TRefund | TWithdraw | TRelease | TFinish | TAbort

definition initiatorLeg :: "direction \<Rightarrow> leg_key" where
  "initiatorLeg d = (if d = EthToQrl then EthLeg else QrlLeg)"

definition responderLeg :: "direction \<Rightarrow> leg_key" where
  "responderLeg d = (if d = EthToQrl then QrlLeg else EthLeg)"

definition expectedToken :: "leg_key \<Rightarrow> asset_symbol \<Rightarrow> string" where
  "expectedToken leg asset =
     (if leg = QrlLeg then QRVM_ZERO_ADDRESS else nvl (tokenAddress (assetInfo asset)) NATIVE_TOKEN)"

datatype leg_asset = QrlCoin | EthAsset asset_symbol

record taker_leg_plan =
  tp_leg :: leg_key
  tp_recipient :: string
  tp_amount :: int
  tp_expectedToken :: string
  tp_timeout :: int
  tp_asset :: leg_asset
  tp_decimals :: nat

record taker_plan_input =
  ti_direction :: direction
  ti_asset :: asset_symbol
  ti_fromAmount :: int
  ti_toAmount :: int
  ti_makerEthAccount :: string
  ti_makerQrlAccount :: string
  ti_takerEthAccount :: string
  ti_takerQrlAccount :: string
  ti_initiatorTimeout :: int
  ti_responderTimeout :: int

record taker_plans =
  pl_initiator :: taker_leg_plan
  pl_responder :: taker_leg_plan

definition legAsset :: "leg_key \<Rightarrow> asset_symbol \<Rightarrow> leg_asset \<times> nat" where
  "legAsset leg asset =
     (if leg = QrlLeg then (QrlCoin, 18) else (EthAsset asset, decimals (assetInfo asset)))"

definition takerLegPlans :: "taker_plan_input \<Rightarrow> taker_plans" where
  "takerLegPlans input =
     (let iLeg = initiatorLeg (ti_direction input); rLeg = responderLeg (ti_direction input) in
      \<lparr>pl_initiator =
         \<lparr>tp_leg = iLeg,
          tp_recipient = (if iLeg = EthLeg then ti_takerEthAccount input else ti_takerQrlAccount input),
          tp_amount = ti_fromAmount input,
          tp_expectedToken = expectedToken iLeg (ti_asset input),
          tp_timeout = ti_initiatorTimeout input,
          tp_asset = fst (legAsset iLeg (ti_asset input)),
          tp_decimals = snd (legAsset iLeg (ti_asset input))\<rparr>,
       pl_responder =
         \<lparr>tp_leg = rLeg,
          tp_recipient = (if rLeg = EthLeg then ti_makerEthAccount input else ti_makerQrlAccount input),
          tp_amount = ti_toAmount input,
          tp_expectedToken = expectedToken rLeg (ti_asset input),
          tp_timeout = ti_responderTimeout input,
          tp_asset = fst (legAsset rLeg (ti_asset input)),
          tp_decimals = snd (legAsset rLeg (ti_asset input))\<rparr>\<rparr>)"


section \<open>Checking the two escrows\<close>

datatype maker_lock_check = MAbsent | MAwaitingAssign | MOk | MMismatch string | MSettled

definition legZeroAddress :: "leg_key \<Rightarrow> string" where
  "legZeroAddress leg = (if leg = QrlLeg then QRVM_ZERO_ADDRESS else NATIVE_TOKEN)"

definition checkMakerLock :: "shake256 \<Rightarrow> leg_state option \<Rightarrow> taker_leg_plan \<Rightarrow> int \<Rightarrow> int \<Rightarrow> bool
    \<Rightarrow> (addr_error, maker_lock_check) result" where
  "checkMakerLock shake confirmed plan responderTimeout claimMarginS prelocked =
     (case confirmed of None \<Rightarrow> Inr MAbsent | Some c \<Rightarrow>
        if ls_status c = LNone then Inr MAbsent
        else if ls_status c \<noteq> LOpen then Inr MSettled
        else js_if (sameAddr shake (ls_recipient c) (legZeroAddress (tp_leg plan)))
          (Inr (if prelocked then MAwaitingAssign else MMismatch ''its recipient is unset''))
       (js_bind (sameAddr shake (ls_token c) (tp_expectedToken plan)) (\<lambda>tokenOk.
        if \<not> tokenOk then Inr (MMismatch ''it escrows the wrong asset'')
        else js_bind (sameAddr shake (ls_recipient c) (tp_recipient plan)) (\<lambda>recipientOk.
        if \<not> recipientOk then Inr (MMismatch ''its recipient is not our account'')
        else if ls_amount c \<noteq> tp_amount plan then
          Inr (MMismatch (''it escrows '' @ show_int (ls_amount c) @
            '' base units; the agreed amount is '' @ show_int (tp_amount plan)))
        else if ls_timeout c < responderTimeout + claimMarginS then
          Inr (MMismatch ''its timeout leaves too little claim window after ours closes'')
        else Inr MOk))))"

datatype own_lock_check = OAbsent | OOurs | OMismatched string | OForeign string | OSettled

definition checkOwnLock :: "shake256 \<Rightarrow> leg_state option \<Rightarrow> taker_leg_plan \<Rightarrow> string
    \<Rightarrow> (addr_error, own_lock_check) result" where
  "checkOwnLock shake state plan ourAddress =
     (case state of None \<Rightarrow> Inr OAbsent | Some s \<Rightarrow>
        if ls_status s = LNone then Inr OAbsent
        else js_bind (sameAddr shake (ls_initiator s) ourAddress) (\<lambda>mine.
          if \<not> mine then Inr (OForeign ''another account already used this hashlock on our leg'')
          else if ls_status s \<noteq> LOpen then Inr OSettled
          else js_if (all_js [sameAddr shake (ls_token s) (tp_expectedToken plan),
                       sameAddr shake (ls_recipient s) (tp_recipient plan),
                       Inr (ls_amount s = tp_amount plan)])
            (Inr OOurs)
            (Inr (OMismatched ''our own escrow does not carry the agreed terms''))))"


section \<open>The decision\<close>

record taker_record =
  tr_fillAcknowledged :: bool
  tr_intentSubmittedAt :: "int option"
  tr_lockSentAt :: "int option"
  tr_claimSentAt :: "int option"
  tr_refundSentAt :: "int option"
  tr_withdrawSentAt :: "int option"
  tr_releaseSentAt :: "int option"

record taker_fill =
  tf_hashlock :: string
  tf_initiatorTimeout :: int
  tf_responderTimeout :: int
  tf_respondBy :: int

record taker_input =
  tk_record :: taker_record
  tk_bookStatus :: book_status
  tk_released :: bool
  tk_cancelled :: bool
  tk_prelocked :: bool
  tk_fill :: "taker_fill option"
  tk_plans :: taker_plans
  tk_iState :: "leg_state option"
  tk_iConfirmed :: "leg_state option"
  tk_rState :: "leg_state option"
  tk_ourResponderAddress :: string
  tk_intentPendingUntil :: "int option"
  tk_abandonRequested :: bool
  tk_nowS :: int
  tk_resendAfterS :: int
  tk_claimSafetyS :: int
  tk_lockRunwayS :: int
  tk_claimSubmitMarginS :: int
  tk_initiatorCredit :: "int option"
  tk_responderCredit :: "int option"

record taker_verdict =
  tv_decision :: taker_decision
  tv_reason :: string
  tv_makerLock :: maker_lock_check
  tv_ownLock :: own_lock_check
  tv_revealedPreimage :: "string option"
  tv_creditLeg :: "leg_key option"

definition revealed_preimage :: "taker_input \<Rightarrow> string option" where
  "revealed_preimage x = (case tk_rState x of None \<Rightarrow> None
     | Some r \<Rightarrow> if ls_preimage r \<noteq> ZERO_BYTES32 then Some (ls_preimage r) else None)"

definition credit_leg :: "taker_input \<Rightarrow> leg_key option" where
  "credit_leg x =
     (if nvl (tk_initiatorCredit x) 0 > 0 then Some (tp_leg (pl_initiator (tk_plans x)))
      else if nvl (tk_responderCredit x) 0 > 0 then Some (tp_leg (pl_responder (tk_plans x)))
      else None)"

definition credits_settled :: "taker_input \<Rightarrow> bool" where
  "credits_settled x \<longleftrightarrow> tk_initiatorCredit x = Some 0 \<and> tk_responderCredit x = Some 0"

fun is_mismatched :: "own_lock_check \<Rightarrow> bool" where
  "is_mismatched (OMismatched _) = True"
| "is_mismatched _ = False"

definition exposed :: "taker_input \<Rightarrow> own_lock_check \<Rightarrow> bool" where
  "exposed x own \<longleftrightarrow> tr_lockSentAt (tk_record x) \<noteq> None \<or> own = OOurs \<or> is_mismatched own \<or> own = OSettled"

text \<open>The walk-away answers, before any terms exist or funds moved.\<close>

definition decide_unexposed :: "taker_input \<Rightarrow> (taker_decision \<times> string) option" where
  "decide_unexposed x =
     (if tk_abandonRequested x then
        Some (if tr_releaseSentAt (tk_record x) = None \<and> tr_intentSubmittedAt (tk_record x) \<noteq> None
              then (TRelease, ''operator abandoned this take before funding'')
              else (TAbort, ''operator abandoned this take before funding''))
      else if tk_cancelled x \<or> tk_bookStatus x = BookCancelled then Some (TAbort, ''the maker cancelled this order'')
      else if tk_bookStatus x = BookGone then Some (TAbort, ''the order is no longer on the book'')
      else if tk_released x then Some (TAbort, ''this proposal was released'')
      else None)"

definition decide_proposal :: "taker_input \<Rightarrow> bool \<Rightarrow> taker_decision \<times> string" where
  "decide_proposal x isExposed =
     (if isExposed then (TWait, ''waiting for terms that match our escrow'')
      else if tk_bookStatus x = BookLocking then (TAbort, ''the maker filled a different proposal on this order'')
      else if (case tk_intentPendingUntil x of None \<Rightarrow> False | Some e \<Rightarrow> e > tk_nowS x)
        then (TWait, ''waiting for the maker to publish FillV2'')
      else (TPropose, ''no live proposal for this order''))"

text \<open>The funding ladder, entered only while our leg holds no escrow.\<close>

definition decide_funding :: "taker_input \<Rightarrow> maker_lock_check \<Rightarrow> bool \<Rightarrow> int \<Rightarrow> taker_decision \<times> string" where
  "decide_funding x makerLock isExposed t2 =
     (let give_up = (if isExposed then TWait else TAbort) in
      if terminal (tk_iState x) then (give_up, ''the maker escrow settled without us'')
      else if \<not> tr_fillAcknowledged (tk_record x)
        then (TWait, ''waiting for a durable authenticated FillV2 before funding'')
      else if tk_released x \<or> tk_cancelled x then (TWait, ''funding stopped: this take was released'')
      else if tk_nowS x + tk_lockRunwayS x \<ge> t2
        then (give_up, ''refusing to fund: our own deadline leaves too little runway'')
      else (case makerLock of
          MAbsent \<Rightarrow> (TWait, ''waiting for the maker to escrow their leg'')
        | MAwaitingAssign \<Rightarrow> (TWait, ''waiting for the maker to assign their pre-funded escrow'')
        | MSettled \<Rightarrow> (give_up, ''the maker escrow settled without us'')
        | MMismatch issue \<Rightarrow> (give_up, ''refusing to fund: the maker escrow is wrong, '' @ issue)
        | MOk \<Rightarrow>
            if \<not> retryOk (tr_lockSentAt (tk_record x)) (tk_nowS x) (tk_resendAfterS x)
            then (TWait, ''waiting for our escrow to appear on chain'')
            else (TLock, ''the maker escrow verified at depth'')))"

definition decide_settlement :: "taker_input \<Rightarrow> maker_lock_check \<Rightarrow> own_lock_check \<Rightarrow> taker_fill \<Rightarrow> leg_state
    \<Rightarrow> taker_decision \<times> string" where
  "decide_settlement x makerLock ownLock fill r =
     (let rec = tk_record x; now = tk_nowS x; resend = tk_resendAfterS x;
          iOpen = (case tk_iState x of Some i \<Rightarrow> ls_status i = LOpen | None \<Rightarrow> False);
          iTimeout = (case tk_iState x of Some i \<Rightarrow> ls_timeout i | None \<Rightarrow> 0)
      in
      if revealed_preimage x \<noteq> None \<and> iOpen \<and> now < iTimeout - tk_claimSubmitMarginS x \<and>
         retryOk (tr_claimSentAt rec) now resend
        then (TClaim, ''the preimage is public; claiming our payout'')
      else if revealed_preimage x \<noteq> None \<and> iOpen \<and> now \<ge> iTimeout - tk_claimSubmitMarginS x
        then (TWait, ''the claim window on the maker escrow closed before a claim could be submitted'')
      else if credit_leg x \<noteq> None \<and> retryOk (tr_withdrawSentAt rec) now resend
        then (TWithdraw, ''a settlement could not deliver and credited us; collecting it'')
      else if terminal (tk_iState x) \<and> terminal (Some r)
        then (if credits_settled x then (TFinish, ''both legs settled'')
              else (TWait, ''waiting to collect a deferred payout on this take''))
      else if terminal (Some r) \<and> iOpen \<and> now \<ge> iTimeout
        then (if credits_settled x then (TFinish, ''our leg settled and the maker escrow expired'')
              else (TWait, ''waiting to collect a deferred payout on this take''))
      else if (ownLock = OOurs \<or> is_mismatched ownLock) \<and>
         now \<ge> ls_timeout r \<and> retryOk (tr_refundSentAt rec) now resend
        then (TRefund, ''our escrow passed its timeout unclaimed'')
      else (case ownLock of
          OForeign issue \<Rightarrow> (TAbort, issue)
        | OMismatched issue \<Rightarrow> (TWait, issue @ ''; waiting for its timeout to refund'')
        | OAbsent \<Rightarrow> decide_funding x makerLock (exposed x ownLock) (tf_responderTimeout fill)
        | OOurs \<Rightarrow> (TWait, ''waiting for the maker to claim and reveal'')
        | OSettled \<Rightarrow>
            if \<not> exposed x ownLock \<and> now \<ge> tf_responderTimeout fill
            then (TAbort, ''the responder window closed without a swap'')
            else if tk_iState x = None then (TWait, ''chain state unavailable; nothing decided'')
            else (TWait, ''nothing to do'')))"

definition decideTaker :: "shake256 \<Rightarrow> taker_input \<Rightarrow> (addr_error, taker_verdict) result" where
  "decideTaker shake x =
     js_bind (checkMakerLock shake (tk_iConfirmed x) (pl_initiator (tk_plans x))
         (case tk_fill x of None \<Rightarrow> 0 | Some f \<Rightarrow> tf_responderTimeout f) (tk_claimSafetyS x) (tk_prelocked x))
       (\<lambda>makerLock.
     js_bind (checkOwnLock shake (tk_rState x) (pl_responder (tk_plans x)) (tk_ourResponderAddress x))
       (\<lambda>ownLock.
        let verdict = (\<lambda>d. Inr \<lparr>tv_decision = fst d, tv_reason = snd d, tv_makerLock = makerLock,
              tv_ownLock = ownLock, tv_revealedPreimage = revealed_preimage x, tv_creditLeg = credit_leg x\<rparr>);
            exp = exposed x ownLock
        in case (if exp then None else decide_unexposed x) of
             Some d \<Rightarrow> verdict d
           | None \<Rightarrow>
              (case tk_fill x of
                 None \<Rightarrow> verdict (decide_proposal x exp)
               | Some fill \<Rightarrow>
                   (case tk_rState x of
                      None \<Rightarrow> verdict (TWait, ''our leg state is unavailable; nothing decided'')
                    | Some r \<Rightarrow> verdict (decide_settlement x makerLock ownLock fill r)))))"


section \<open>Resume order and bounds\<close>

record resume_input =
  ru_fill :: "(int \<times> int) option"
  ru_orderExpiresAt :: int
  ru_lockSentAt :: "int option"

definition resumeUrgency :: "resume_input \<Rightarrow> int" where
  "resumeUrgency x = (case ru_fill x of
       None \<Rightarrow> ru_orderExpiresAt x
     | Some (initiatorTimeout, responderTimeout) \<Rightarrow>
         if ru_lockSentAt x \<noteq> None then min initiatorTimeout responderTimeout else responderTimeout)"

datatype take_issue =
    ZeroAmount | AboveMaxIn int int | BelowMinOut int int | ProofRunwayShort int int
  | BalanceShort | BalanceAndGasShort | GasShort

record take_bounds =
  tb_payAmount :: int
  tb_receiveAmount :: int
  tb_maxIn :: "int option"
  tb_minOut :: "int option"
  tb_payBalance :: "int option"
  tb_nativePayLeg :: bool
  tb_gasBalance :: "int option"
  tb_gasReserve :: int
  tb_orderExpiresAt :: int
  tb_nowS :: int
  tb_minOrderRunwayS :: int

definition some_lt :: "int option \<Rightarrow> int \<Rightarrow> bool" where
  "some_lt a b \<longleftrightarrow> (case a of None \<Rightarrow> False | Some v \<Rightarrow> v < b)"

definition takeBoundsIssue :: "take_bounds \<Rightarrow> take_issue option" where
  "takeBoundsIssue x =
     (let runway = tb_orderExpiresAt x - tb_nowS x in
      if tb_payAmount x \<le> 0 \<or> tb_receiveAmount x \<le> 0 then Some ZeroAmount
      else if some_lt (tb_maxIn x) (tb_payAmount x) then Some (AboveMaxIn (tb_payAmount x) (nvl (tb_maxIn x) 0))
      else if (case tb_minOut x of None \<Rightarrow> False | Some v \<Rightarrow> tb_receiveAmount x < v)
        then Some (BelowMinOut (tb_receiveAmount x) (nvl (tb_minOut x) 0))
      else if runway < tb_minOrderRunwayS x then Some (ProofRunwayShort runway (tb_minOrderRunwayS x))
      else if some_lt (tb_payBalance x) (tb_payAmount x) then Some BalanceShort
      else if tb_nativePayLeg x \<and> some_lt (tb_payBalance x) (tb_payAmount x + tb_gasReserve x)
        then Some BalanceAndGasShort
      else if some_lt (tb_gasBalance x) (tb_gasReserve x) then Some GasShort
      else None)"


text \<open>A concrete take, for evaluating the decision on.\<close>

definition demo_take :: "leg_state option \<Rightarrow> leg_state option \<Rightarrow> int \<Rightarrow> taker_input" where
  "demo_take i r now = \<lparr>tk_record = \<lparr>tr_fillAcknowledged = True, tr_intentSubmittedAt = Some 1,
       tr_lockSentAt = None, tr_claimSentAt = None, tr_refundSentAt = None, tr_withdrawSentAt = None,
       tr_releaseSentAt = None\<rparr>,
     tk_bookStatus = BookLocking, tk_released = False, tk_cancelled = False, tk_prelocked = False,
     tk_fill = Some \<lparr>tf_hashlock = ''hs'', tf_initiatorTimeout = 2000, tf_responderTimeout = 1000,
       tf_respondBy = 500\<rparr>,
     tk_plans = \<lparr>pl_initiator = \<lparr>tp_leg = EthLeg, tp_recipient = eth_addr (CHR ''b''), tp_amount = 7,
         tp_expectedToken = NATIVE_TOKEN, tp_timeout = 2000, tp_asset = EthAsset ETH, tp_decimals = 18\<rparr>,
       pl_responder = \<lparr>tp_leg = EthLeg, tp_recipient = eth_addr (CHR ''a''), tp_amount = 9,
         tp_expectedToken = NATIVE_TOKEN, tp_timeout = 1000, tp_asset = EthAsset ETH, tp_decimals = 18\<rparr>\<rparr>,
     tk_iState = i, tk_iConfirmed = i, tk_rState = r, tk_ourResponderAddress = eth_addr (CHR ''b''),
     tk_intentPendingUntil = None, tk_abandonRequested = False, tk_nowS = now, tk_resendAfterS = 60,
     tk_claimSafetyS = 500, tk_lockRunwayS = 100, tk_claimSubmitMarginS = 50,
     tk_initiatorCredit = Some 0, tk_responderCredit = Some 0\<rparr>"

definition demo_mined :: "leg_status \<Rightarrow> char \<Rightarrow> char \<Rightarrow> int \<Rightarrow> int \<Rightarrow> leg_state" where
  "demo_mined st who for amount timeout = (demo_leg st who for amount timeout)\<lparr>ls_preimage := ZERO_BYTES32\<rparr>"

lemmas demo_take_defs = demo_take_def demo_mined_def demo_leg_def decideTaker_def checkMakerLock_def
  checkOwnLock_def legZeroAddress_def demo_addr_simps all_js.simps exposed_def decide_unexposed_def
  decide_settlement_def decide_funding_def revealed_preimage_def credit_leg_def credits_settled_def
  retryOk_def terminal_def Let_def


section \<open>What the checks establish\<close>

lemma checkMakerLock_MOk:
  assumes "checkMakerLock shake confirmed plan t2 marginS prelocked = Inr MOk"
  shows "\<exists>c. confirmed = Some c \<and> ls_status c = LOpen \<and>
    sameAddr shake (ls_recipient c) (legZeroAddress (tp_leg plan)) = Inr False \<and>
    sameAddr shake (ls_token c) (tp_expectedToken plan) = Inr True \<and>
    sameAddr shake (ls_recipient c) (tp_recipient plan) = Inr True \<and>
    ls_amount c = tp_amount plan \<and> t2 + marginS \<le> ls_timeout c"
  using assms
  by (auto simp: checkMakerLock_def js_if_Inr js_bind_Inr split: option.splits if_splits)

lemma checkOwnLock_cases:
  assumes "checkOwnLock shake st plan us = Inr own"
  shows "own = OAbsent \<longleftrightarrow> st = None \<or> has_status LNone st"
    "own = OOurs \<or> is_mismatched own \<Longrightarrow>
       \<exists>s. st = Some s \<and> ls_status s = LOpen \<and> sameAddr shake (ls_initiator s) us = Inr True"
    "own = OForeign i \<Longrightarrow>
       \<exists>s. st = Some s \<and> ls_status s \<noteq> LNone \<and> sameAddr shake (ls_initiator s) us = Inr False"
    "own = OOurs \<Longrightarrow> \<exists>s. st = Some s \<and> sameAddr shake (ls_token s) (tp_expectedToken plan) = Inr True \<and>
       sameAddr shake (ls_recipient s) (tp_recipient plan) = Inr True \<and> ls_amount s = tp_amount plan"
  using assms
  by (auto simp: checkOwnLock_def js_if_Inr js_bind_Inr all_js_True has_status_iff split: option.splits if_splits)

lemma decideTaker_own: "decideTaker shake x = Inr v \<Longrightarrow>
    checkOwnLock shake (tk_rState x) (pl_responder (tk_plans x)) (tk_ourResponderAddress x) = Inr (tv_ownLock v) \<and>
    checkMakerLock shake (tk_iConfirmed x) (pl_initiator (tk_plans x))
      (case tk_fill x of None \<Rightarrow> 0 | Some f \<Rightarrow> tf_responderTimeout f) (tk_claimSafetyS x) (tk_prelocked x)
      = Inr (tv_makerLock v)"
  by (auto simp: decideTaker_def js_bind_Inr Let_def split: option.splits if_splits)

text \<open>A decision that moves funds or finishes comes from the settlement part, with both the terms and
  our own leg known.\<close>

lemma decideTaker_settlement:
  assumes "decideTaker shake x = Inr v" and "tv_decision v \<in> {TLock, TClaim, TRefund, TWithdraw, TFinish}"
  shows "\<exists>fill r. tk_fill x = Some fill \<and> tk_rState x = Some r \<and>
    fst (decide_settlement x (tv_makerLock v) (tv_ownLock v) fill r) = tv_decision v"
  using assms
  by (auto simp: decideTaker_def js_bind_Inr Let_def decide_unexposed_def decide_proposal_def
      split: option.splits if_splits)

lemma decide_funding_lock:
  "fst (decide_funding x ml ex t2) = TLock \<Longrightarrow>
     ml = MOk \<and> tr_fillAcknowledged (tk_record x) \<and> \<not> tk_released x \<and> \<not> tk_cancelled x \<and>
     tk_nowS x + tk_lockRunwayS x < t2 \<and> retryOk (tr_lockSentAt (tk_record x)) (tk_nowS x) (tk_resendAfterS x)"
  by (auto simp: decide_funding_def Let_def split: if_splits maker_lock_check.splits)

lemma decide_funding_others:
  "fst (decide_funding x ml ex t2) \<in> {TWait, TAbort, TLock}"
  "fst (decide_funding x ml ex t2) = TAbort \<Longrightarrow> \<not> ex"
  by (auto simp: decide_funding_def Let_def split: if_splits maker_lock_check.splits)

lemma settlement_lock:
  assumes "fst (decide_settlement x ml own fill r) = TLock"
  shows "own = OAbsent \<and> fst (decide_funding x ml (exposed x own) (tf_responderTimeout fill)) = TLock"
  using assms by (auto simp: decide_settlement_def Let_def split: if_splits own_lock_check.splits)

lemma settlement_refund:
  assumes "fst (decide_settlement x ml own fill r) = TRefund"
  shows "(own = OOurs \<or> is_mismatched own) \<and> ls_timeout r \<le> tk_nowS x \<and>
    retryOk (tr_refundSentAt (tk_record x)) (tk_nowS x) (tk_resendAfterS x)"
  using assms decide_funding_others(1) [of x ml "exposed x own" "tf_responderTimeout fill"]
  by (auto simp: decide_settlement_def Let_def split: if_splits own_lock_check.splits)

lemma settlement_claim:
  assumes "fst (decide_settlement x ml own fill r) = TClaim"
  shows "revealed_preimage x \<noteq> None \<and>
    (\<exists>i. tk_iState x = Some i \<and> ls_status i = LOpen \<and> tk_nowS x < ls_timeout i - tk_claimSubmitMarginS x) \<and>
    retryOk (tr_claimSentAt (tk_record x)) (tk_nowS x) (tk_resendAfterS x)"
  using assms decide_funding_others(1) [of x ml "exposed x own" "tf_responderTimeout fill"]
  by (auto simp: decide_settlement_def Let_def split: if_splits own_lock_check.splits option.splits)

lemma settlement_finish:
  assumes "fst (decide_settlement x ml own fill r) = TFinish"
  shows "terminal (Some r) \<and> credits_settled x \<and>
    (terminal (tk_iState x) \<or> (\<exists>i. tk_iState x = Some i \<and> ls_status i = LOpen \<and> ls_timeout i \<le> tk_nowS x))"
  using assms decide_funding_others(1) [of x ml "exposed x own" "tf_responderTimeout fill"]
  by (auto simp: decide_settlement_def Let_def split: if_splits own_lock_check.splits option.splits)

lemma settlement_abort:
  assumes "fst (decide_settlement x ml own fill r) = TAbort"
  shows "\<not> exposed x own \<or> (\<exists>i. own = OForeign i)"
  using assms decide_funding_others(2) [of x ml "exposed x own" "tf_responderTimeout fill"]
  by (auto simp: decide_settlement_def Let_def split: if_splits own_lock_check.splits)


lemma settlement_no_release:
  assumes "fst (decide_settlement x ml own fill r) = TRelease"
  shows False
  using assms decide_funding_others(1) [of x ml "exposed x own" "tf_responderTimeout fill"]
  by (auto simp: decide_settlement_def Let_def split: if_splits own_lock_check.splits)

lemma decideTaker_exit:
  assumes "decideTaker shake x = Inr v" and "tv_decision v \<in> {TAbort, TRelease}"
  shows "\<not> exposed x (tv_ownLock v) \<or> (\<exists>fill r. tk_fill x = Some fill \<and> tk_rState x = Some r \<and>
    fst (decide_settlement x (tv_makerLock v) (tv_ownLock v) fill r) = tv_decision v)"
  using assms
  by (auto simp: decideTaker_def js_bind_Inr Let_def decide_proposal_def split: option.splits if_splits)


section \<open>What each decision guarantees\<close>

text \<open>
  C6: the taker funds only against a verified maker escrow. Whenever the decision is to lock, the
  maker's lock is open at confirmation depth with the agreed token, recipient and amount, its own
  on-chain timeout lies at least the claim margin after the taker's, the fill is durably
  acknowledged, the take is neither released nor cancelled, enough of the taker's own window is
  left, and the taker's escrow slot was read as unused, so no leg is ever funded twice.
\<close>

theorem taker_lock_verified:
  assumes "decideTaker shake x = Inr v" and "tv_decision v = TLock"
  shows "\<exists>c fill. tk_iConfirmed x = Some c \<and> ls_status c = LOpen \<and> tk_fill x = Some fill \<and>
    sameAddr shake (ls_token c) (tp_expectedToken (pl_initiator (tk_plans x))) = Inr True \<and>
    sameAddr shake (ls_recipient c) (tp_recipient (pl_initiator (tk_plans x))) = Inr True \<and>
    ls_amount c = tp_amount (pl_initiator (tk_plans x)) \<and>
    tf_responderTimeout fill + tk_claimSafetyS x \<le> ls_timeout c \<and>
    tr_fillAcknowledged (tk_record x) \<and> \<not> tk_released x \<and> \<not> tk_cancelled x \<and>
    tk_nowS x + tk_lockRunwayS x < tf_responderTimeout fill \<and> has_status LNone (tk_rState x)"
proof -
  from decideTaker_settlement [OF assms(1)] assms(2) obtain fill r where
    f: "tk_fill x = Some fill" "tk_rState x = Some r"
    and d: "fst (decide_settlement x (tv_makerLock v) (tv_ownLock v) fill r) = TLock" by auto
  note S = settlement_lock [OF d] and F = decide_funding_lock [OF conjunct2 [OF settlement_lock [OF d]]]
  note O = decideTaker_own [OF assms(1)]
  from O F f have "checkMakerLock shake (tk_iConfirmed x) (pl_initiator (tk_plans x))
      (tf_responderTimeout fill) (tk_claimSafetyS x) (tk_prelocked x) = Inr MOk" by simp
  from checkMakerLock_MOk [OF this] F f S O checkOwnLock_cases(1) [of shake "tk_rState x"]
  show ?thesis by fastforce
qed

theorem taker_lock_verified_witness:
  "let x = demo_take (Some (demo_mined LOpen (CHR ''a'') (CHR ''b'') 7 2000))
         (Some (demo_mined LNone (CHR ''0'') (CHR ''0'') 0 0)) 300
   in \<exists>v. decideTaker demo_shake x = Inr v \<and> tv_decision v = TLock \<and> has_status LNone (tk_rState x)"
proof -
  let ?x = "demo_take (Some (demo_mined LOpen (CHR ''a'') (CHR ''b'') 7 2000))
         (Some (demo_mined LNone (CHR ''0'') (CHR ''0'') 0 0)) 300"
  obtain v where v: "decideTaker demo_shake ?x = Inr v" "tv_decision v = TLock"
    by (simp add: demo_take_defs)
  from taker_lock_verified [OF v] v show ?thesis by (auto simp: Let_def)
qed

text \<open>
  C32: a refund is sent only for the taker's own open escrow, at or after that escrow's own on-chain
  timeout.
\<close>

theorem taker_refund_own:
  assumes "decideTaker shake x = Inr v" and "tv_decision v = TRefund"
  shows "\<exists>r. tk_rState x = Some r \<and> ls_status r = LOpen \<and>
    sameAddr shake (ls_initiator r) (tk_ourResponderAddress x) = Inr True \<and> ls_timeout r \<le> tk_nowS x"
proof -
  from decideTaker_settlement [OF assms(1)] assms(2) obtain fill r where
    f: "tk_rState x = Some r"
    and d: "fst (decide_settlement x (tv_makerLock v) (tv_ownLock v) fill r) = TRefund" by auto
  from settlement_refund [OF d] checkOwnLock_cases(2) decideTaker_own [OF assms(1)] f show ?thesis by fastforce
qed

theorem taker_refund_own_witness:
  "let x = demo_take None (Some (demo_mined LOpen (CHR ''b'') (CHR ''a'') 9 1000)) 1000
   in \<exists>v. decideTaker demo_shake x = Inr v \<and> tv_decision v = TRefund \<and> has_status LOpen (tk_rState x)"
proof -
  let ?x = "demo_take None (Some (demo_mined LOpen (CHR ''b'') (CHR ''a'') 9 1000)) 1000"
  obtain v where v: "decideTaker demo_shake ?x = Inr v" "tv_decision v = TRefund"
    by (simp add: demo_take_defs)
  from taker_refund_own [OF v] v show ?thesis by (auto simp: Let_def has_status_def)
qed

text \<open>
  C33: the taker closes a take as settled only when its own leg is claimed or refunded, the maker's
  leg is settled or past the deadline after which it can no longer pay, and both of the taker's
  credits were read as zero.
\<close>

theorem taker_finish_settled:
  assumes "decideTaker shake x = Inr v" and "tv_decision v = TFinish"
  shows "terminal (tk_rState x) \<and> tk_initiatorCredit x = Some 0 \<and> tk_responderCredit x = Some 0 \<and>
    (terminal (tk_iState x) \<or> (\<exists>i. tk_iState x = Some i \<and> ls_status i = LOpen \<and> ls_timeout i \<le> tk_nowS x))"
proof -
  from decideTaker_settlement [OF assms(1)] assms(2) obtain fill r where
    f: "tk_rState x = Some r"
    and d: "fst (decide_settlement x (tv_makerLock v) (tv_ownLock v) fill r) = TFinish" by auto
  from settlement_finish [OF d] f show ?thesis by (auto simp: credits_settled_def)
qed

theorem taker_finish_settled_witness:
  "let x = demo_take (Some (demo_mined LClaimed (CHR ''a'') (CHR ''b'') 7 2000))
         (Some (demo_mined LClaimed (CHR ''b'') (CHR ''a'') 9 1000)) 900
   in \<exists>v. decideTaker demo_shake x = Inr v \<and> tv_decision v = TFinish \<and> terminal (tk_rState x)"
proof -
  let ?x = "demo_take (Some (demo_mined LClaimed (CHR ''a'') (CHR ''b'') 7 2000))
         (Some (demo_mined LClaimed (CHR ''b'') (CHR ''a'') 9 1000)) 900"
  obtain v where v: "decideTaker demo_shake ?x = Inr v" "tv_decision v = TFinish"
    by (simp add: demo_take_defs)
  from taker_finish_settled [OF v] v show ?thesis by (auto simp: Let_def)
qed

text \<open>
  the taker walks away only with nothing at stake. When the decision aborts the take or releases
  it on the book, either no lock was ever sent and the taker's leg shows no escrow of the taker's, or
  the hashlock was already consumed there by a different account, so an escrow of the taker's cannot
  exist.
\<close>

lemma taker_exit_unexposed:
  assumes "decideTaker shake x = Inr v" and "tv_decision v \<in> {TAbort, TRelease}"
  shows "(tr_lockSentAt (tk_record x) = None \<and> (tk_rState x = None \<or> has_status LNone (tk_rState x))) \<or>
    (\<exists>r. tk_rState x = Some r \<and> ls_status r \<noteq> LNone \<and>
       sameAddr shake (ls_initiator r) (tk_ourResponderAddress x) = Inr False)"
proof -
  have "\<not> exposed x (tv_ownLock v) \<or> (\<exists>i. tv_ownLock v = OForeign i)"
    using decideTaker_exit [OF assms] assms(2) by (auto dest: settlement_no_release settlement_abort)
  then consider "tr_lockSentAt (tk_record x) = None" "tv_ownLock v = OAbsent" | i where "tv_ownLock v = OForeign i"
    by (cases "tv_ownLock v") (auto simp: exposed_def)
  then show ?thesis
    using checkOwnLock_cases(1,3) decideTaker_own [OF assms(1)] by cases (fastforce, blast)
qed


text \<open>The addresses a verdict may have to compare.\<close>

definition taker_addresses_ok :: "shake256 \<Rightarrow> taker_input \<Rightarrow> bool" where
  "taker_addresses_ok shake x \<longleftrightarrow>
     (\<forall>a\<in>{tk_ourResponderAddress x, legZeroAddress (tp_leg (pl_initiator (tk_plans x))),
           tp_expectedToken (pl_initiator (tk_plans x)), tp_recipient (pl_initiator (tk_plans x)),
           tp_expectedToken (pl_responder (tk_plans x)), tp_recipient (pl_responder (tk_plans x))}
        \<union> (\<Union>l\<in>set_option (tk_iConfirmed x) \<union> set_option (tk_rState x).
             {ls_initiator l, ls_token l, ls_recipient l}).
        \<exists>h. qrlOrEthHex shake a = Inr h)"

lemma decideTaker_total:
  assumes "taker_addresses_ok shake x"
  shows "\<exists>v. decideTaker shake x = Inr v"
proof -
  let ?ok = "\<lambda>a. \<exists>h. qrlOrEthHex shake a = Inr h"
  have ok: "\<exists>r. sameAddr shake a b = Inr r" if "?ok a" "?ok b" for a b
    using that sameAddr_total by blast
  have "\<exists>m. checkMakerLock shake (tk_iConfirmed x) (pl_initiator (tk_plans x)) t (tk_claimSafetyS x)
      (tk_prelocked x) = Inr m" for t
  proof (cases "tk_iConfirmed x")
    case (Some c)
    then have "\<exists>b. sameAddr shake (ls_recipient c) (legZeroAddress (tp_leg (pl_initiator (tk_plans x)))) = Inr b"
      "\<exists>b. sameAddr shake (ls_token c) (tp_expectedToken (pl_initiator (tk_plans x))) = Inr b"
      "\<exists>b. sameAddr shake (ls_recipient c) (tp_recipient (pl_initiator (tk_plans x))) = Inr b"
      using assms by (auto simp: taker_addresses_ok_def intro!: ok)
    with Some show ?thesis by (auto simp: checkMakerLock_def js_if_def)
  qed (simp add: checkMakerLock_def)
  moreover have "\<exists>m. checkOwnLock shake (tk_rState x) (pl_responder (tk_plans x)) (tk_ourResponderAddress x) = Inr m"
  proof (cases "tk_rState x")
    case (Some r)
    then have "\<exists>b. sameAddr shake (ls_initiator r) (tk_ourResponderAddress x) = Inr b"
      "\<exists>b. sameAddr shake (ls_token r) (tp_expectedToken (pl_responder (tk_plans x))) = Inr b"
      "\<exists>b. sameAddr shake (ls_recipient r) (tp_recipient (pl_responder (tk_plans x))) = Inr b"
      using assms by (auto simp: taker_addresses_ok_def intro!: ok)
    with Some show ?thesis by (auto simp: checkOwnLock_def js_if_def all_js.simps)
  qed (simp add: checkOwnLock_def)
  ultimately obtain ml own where "checkMakerLock shake (tk_iConfirmed x) (pl_initiator (tk_plans x))
      (case tk_fill x of None \<Rightarrow> 0 | Some f \<Rightarrow> tf_responderTimeout f) (tk_claimSafetyS x) (tk_prelocked x) = Inr ml"
    "checkOwnLock shake (tk_rState x) (pl_responder (tk_plans x)) (tk_ourResponderAddress x) = Inr own" by blast
  then show ?thesis by (simp add: decideTaker_def Let_def split: option.splits)
qed

lemma decideTaker_exposed:
  assumes "decideTaker shake x = Inr v" and "tk_fill x = Some fill" and "tk_rState x = Some r"
    and "exposed x (tv_ownLock v)"
  shows "tv_decision v = fst (decide_settlement x (tv_makerLock v) (tv_ownLock v) fill r)"
  using assms by (auto simp: decideTaker_def js_bind_Inr Let_def split: option.splits if_splits)

lemma checkOwnLock_mine:
  assumes "checkOwnLock shake (Some r) plan us = Inr own" and "ls_status r \<noteq> LNone"
    and "sameAddr shake (ls_initiator r) us = Inr True"
  shows "if ls_status r = LOpen then own = OOurs \<or> is_mismatched own else own = OSettled"
  using assms by (auto simp: checkOwnLock_def js_if_Inr)

text \<open>
  C31: the taker acts on its funds. With well-formed addresses, a saved fill and a responder escrow that
  the taker funded itself the decision never throws. Once that escrow is open at or past its timeout with
  the secret unpublished and no refund sent within the resend window, it collects a credit or refunds, even
  when the escrow does not carry the agreed terms; and once the secret is public while the maker's
  escrow is still open, its timeout further away than the submission margin and no claim sent within the
  resend window, it claims that escrow. Neither the book nor the maker can prevent either.
\<close>

theorem taker_acts_on_funds:
  assumes "taker_addresses_ok shake x" and "tk_fill x = Some fill" and "tk_rState x = Some r"
    and "ls_status r \<noteq> LNone" and "sameAddr shake (ls_initiator r) (tk_ourResponderAddress x) = Inr True"
  shows "\<exists>v. decideTaker shake x = Inr v \<and>
    (ls_status r = LOpen \<and> revealed_preimage x = None \<and> ls_timeout r \<le> tk_nowS x \<and>
       retryOk (tr_refundSentAt (tk_record x)) (tk_nowS x) (tk_resendAfterS x)
       \<longrightarrow> tv_decision v \<in> {TWithdraw, TRefund}) \<and>
    (\<forall>i. revealed_preimage x \<noteq> None \<and> tk_iState x = Some i \<and> ls_status i = LOpen \<and>
       tk_nowS x < ls_timeout i - tk_claimSubmitMarginS x \<and>
       retryOk (tr_claimSentAt (tk_record x)) (tk_nowS x) (tk_resendAfterS x)
       \<longrightarrow> tv_decision v = TClaim)"
proof -
  obtain v where v: "decideTaker shake x = Inr v" using decideTaker_total [OF assms(1)] by blast
  from decideTaker_own [OF v] assms(3) have "checkOwnLock shake (Some r) (pl_responder (tk_plans x))
      (tk_ourResponderAddress x) = Inr (tv_ownLock v)" by simp
  note own = checkOwnLock_mine [OF this assms(4,5)]
  then have "exposed x (tv_ownLock v)" by (auto simp: exposed_def split: if_splits)
  note d = decideTaker_exposed [OF v assms(2,3) this]
  have "\<not> terminal (Some r)" if "ls_status r = LOpen" using that by simp
  with own have "(ls_status r = LOpen \<and> revealed_preimage x = None \<and> ls_timeout r \<le> tk_nowS x \<and>
       retryOk (tr_refundSentAt (tk_record x)) (tk_nowS x) (tk_resendAfterS x)
       \<longrightarrow> tv_decision v \<in> {TWithdraw, TRefund})"
    unfolding d by (auto simp: decide_settlement_def Let_def)
  moreover have "\<forall>i. revealed_preimage x \<noteq> None \<and> tk_iState x = Some i \<and> ls_status i = LOpen \<and>
       tk_nowS x < ls_timeout i - tk_claimSubmitMarginS x \<and>
       retryOk (tr_claimSentAt (tk_record x)) (tk_nowS x) (tk_resendAfterS x)
       \<longrightarrow> tv_decision v = TClaim"
    unfolding d by (auto simp: decide_settlement_def Let_def)
  ultimately show ?thesis using v by blast
qed

theorem taker_acts_on_funds_witness:
  "let x = demo_take (Some (demo_mined LOpen (CHR ''a'') (CHR ''b'') 7 2000))
         (Some (demo_leg LClaimed (CHR ''b'') (CHR ''a'') 9 1000)) 900
   in \<exists>v. decideTaker demo_shake x = Inr v \<and> tv_decision v = TClaim"
proof -
  let ?i = "demo_mined LOpen (CHR ''a'') (CHR ''b'') 7 2000" and ?r = "demo_leg LClaimed (CHR ''b'') (CHR ''a'') 9 1000"
  let ?x = "demo_take (Some ?i) (Some ?r) 900"
  have q: "\<exists>h. qrlOrEthHex demo_shake (eth_addr c) = Inr h" if "is_hex_any c" for c
    using eth_addr_ok [OF that] by (auto simp: qrlOrEthHex_def)
  have p: "revealed_preimage ?x \<noteq> None"
    by (simp add: demo_take_def revealed_preimage_def demo_leg_def ZERO_BYTES32_def)
  have f: "tk_fill ?x = Some \<lparr>tf_hashlock = ''hs'', tf_initiatorTimeout = 2000, tf_responderTimeout = 1000,
       tf_respondBy = 500\<rparr>" "tk_rState ?x = Some ?r"
    by (simp_all add: demo_take_def)
  have a: "taker_addresses_ok demo_shake ?x"
    by (auto simp: taker_addresses_ok_def demo_take_def demo_mined_def demo_leg_def legZeroAddress_def
        NATIVE_TOKEN_eth_addr demo_chars intro!: q)
  have m: "ls_status ?r \<noteq> LNone" "sameAddr demo_shake (ls_initiator ?r) (tk_ourResponderAddress ?x) = Inr True"
    by (simp_all add: demo_leg_def demo_take_def demo_addr_simps)
  have h: "tk_iState ?x = Some ?i" "ls_status ?i = LOpen" "tk_nowS ?x < ls_timeout ?i - tk_claimSubmitMarginS ?x"
    "retryOk (tr_claimSentAt (tk_record ?x)) (tk_nowS ?x) (tk_resendAfterS ?x)"
    by (simp_all add: demo_take_def demo_mined_def demo_leg_def retryOk_def)
  from taker_acts_on_funds [OF a f m] p h show ?thesis unfolding Let_def by blast
qed

lemma takerLegPlans_legs:
  "tp_leg (pl_initiator (takerLegPlans i)) \<noteq> tp_leg (pl_responder (takerLegPlans i))"
  by (simp add: takerLegPlans_def Let_def initiatorLeg_def responderLeg_def)

text \<open>
  the checks before a proposal. No issue is reported exactly when both amounts are positive, the
  operator's limits and the proof runway hold, and every known balance covers what the take needs,
  including the gas reserve on top of the escrow when one native balance pays for both.
\<close>

lemma take_bounds_exact:
  "takeBoundsIssue x = None \<longleftrightarrow>
     0 < tb_payAmount x \<and> 0 < tb_receiveAmount x \<and>
     \<not> some_lt (tb_maxIn x) (tb_payAmount x) \<and>
     (tb_minOut x = None \<or> the (tb_minOut x) \<le> tb_receiveAmount x) \<and>
     tb_minOrderRunwayS x \<le> tb_orderExpiresAt x - tb_nowS x \<and>
     (tb_payBalance x = None \<or>
        tb_payAmount x \<le> the (tb_payBalance x) \<and>
        tb_payAmount x + (if tb_nativePayLeg x then tb_gasReserve x else 0) \<le> the (tb_payBalance x)) \<and>
     (tb_gasBalance x = None \<or> tb_gasReserve x \<le> the (tb_gasBalance x))"
  by (cases "tb_payBalance x"; cases "tb_gasBalance x"; cases "tb_minOut x")
    (auto simp: takeBoundsIssue_def Let_def some_lt_def)

end
