(* ===== verification/Swap_Machine.thy ===== *)
theory Swap_Machine
  imports Taker_Policy
begin

text \<open>
  The browser's view of one swap: \<^verbatim>\<open>frontend/src/lib/swapMachine.ts\<close> (which of the four
  steps are done, runnable or blocked), \<^verbatim>\<open>frontend/src/lib/swapStatus.ts\<close> (the public
  verdict on a hashlock) and \<^verbatim>\<open>frontend/src/lib/prelock.ts\<close> (the advisory check of a
  pre-funded listing). Chain reads are arguments; amount formatting (\<^verbatim>\<open>formatUnits\<close>) is the
  parameter \<open>fmt\<close>. A swap's decimal amount strings are the integers they denote. The lemmas show
  what a runnable step implies, and that the browser and the scripted taker accept exactly the same
  maker escrows.
\<close>

section \<open>Swap state and configuration\<close>

datatype swap_role = MakerRole | TakerRole | Sandbox

record active_swap =
  as_role :: swap_role
  as_direction :: direction
  as_ethAsset :: asset_symbol
  as_fromAmount :: int
  as_toAmount :: int
  as_makerEthAccount :: string
  as_makerQrlAccount :: string
  as_takerEthAccount :: string
  as_takerQrlAccount :: string
  as_preimage :: "string option"
  as_hashlock :: "string option"
  as_initiatorTimeout :: "int option"
  as_responderTimeout :: "int option"
  as_prelocked :: "bool option"

definition CLAIM_MARGIN_S :: int where "CLAIM_MARGIN_S = 30 * 60"

definition RESPONDER_TIMEOUT_S :: int where "RESPONDER_TIMEOUT_S = 1 * 3600"

definition MIN_TAKEABLE_RUNWAY_S :: int where
  "MIN_TAKEABLE_RUNWAY_S = 2 * RESPONDER_TIMEOUT_S + CLAIM_MARGIN_S"

definition CLAIM_CUTOFF_ISSUE :: string where
  "CLAIM_CUTOFF_ISSUE = ''the claim window is inside its safety margin; the refund path takes over''"

datatype step_key = LockInitiator | AssignInitiator | LockResponder | ClaimResponder | ClaimInitiator

record step_model =
  sm_key :: step_key
  sm_leg :: leg_key
  sm_own :: bool
  sm_done :: bool
  sm_canRun :: bool
  sm_issue :: "string option"
  sm_awaitingDepth :: bool

record leg_plan =
  lp_recipient :: string
  lp_amount :: int
  lp_expectedToken :: string
  lp_symbol :: string
  lp_decimals :: nat

record machine_input =
  mi_swap :: active_swap
  mi_legs :: "leg_key \<Rightarrow> leg_state option"
  mi_confirmed :: "leg_key \<Rightarrow> leg_state option"
  mi_nowS :: int

record swap_machine =
  ma_iLeg :: leg_key
  ma_rLeg :: leg_key
  ma_steps :: "step_model list"
  ma_complete :: bool
  ma_revealedPreimage :: "string option"
  ma_refundableLegs :: "leg_key list"
  ma_releasableLegs :: "leg_key list"
  ma_awaitingAssign :: bool
  ma_ownLockedLegs :: "leg_key list"
  ma_ownEth :: string
  ma_ownQrl :: string
  ma_legPlan :: "leg_key \<Rightarrow> leg_plan"
  ma_legPayees :: "leg_key \<Rightarrow> string \<times> string"

text \<open>A string used as a condition: null and the empty string are false.\<close>

definition truthy :: "string option \<Rightarrow> bool" where
  "truthy s \<longleftrightarrow> s \<noteq> None \<and> s \<noteq> Some ''''"


section \<open>Parts of the derivation\<close>

definition awaitingDepth :: "leg_state option \<Rightarrow> leg_state option \<Rightarrow> bool" where
  "awaitingDepth latest conf \<longleftrightarrow> has_status LOpen latest \<and> \<not> has_status LOpen conf"

fun mySteps :: "swap_role \<Rightarrow> bool list" where
  "mySteps MakerRole = [True, False, True, False]"
| "mySteps TakerRole = [False, True, False, True]"
| "mySteps Sandbox = [True, True, True, True]"

definition addrOn :: "active_swap \<Rightarrow> leg_key \<Rightarrow> bool \<Rightarrow> string" where
  "addrOn swap leg maker =
     (if leg = EthLeg then (if maker then as_makerEthAccount swap else as_takerEthAccount swap)
      else (if maker then as_makerQrlAccount swap else as_takerQrlAccount swap))"

definition asset_name :: "asset_symbol \<Rightarrow> string" where
  "asset_name a = nvl (map_of ASSET_SYMBOLS a) ''''"

definition planFor :: "active_swap \<Rightarrow> leg_key \<Rightarrow> leg_plan" where
  "planFor swap leg =
     (let iLeg = initiatorLeg (as_direction swap); info = assetInfo (as_ethAsset swap) in
      \<lparr>lp_recipient = addrOn swap leg (leg \<noteq> iLeg),
       lp_amount = (if leg = iLeg then as_fromAmount swap else as_toAmount swap),
       lp_expectedToken = (if leg = EthLeg then nvl (tokenAddress info) NATIVE_TOKEN else QRVM_ZERO_ADDRESS),
       lp_symbol = (if leg = EthLeg then asset_name (as_ethAsset swap) else ''Quanta''),
       lp_decimals = (if leg = EthLeg then decimals info else 18)\<rparr>)"

definition payeesFor :: "active_swap \<Rightarrow> leg_key \<Rightarrow> string \<times> string" where
  "payeesFor swap leg = (let iLeg = initiatorLeg (as_direction swap) in
     (addrOn swap leg (leg \<noteq> iLeg), addrOn swap leg (leg = iLeg)))"

definition tokenIssue :: "shake256 \<Rightarrow> string \<Rightarrow> leg_plan \<Rightarrow> string option" where
  "tokenIssue shake confirmedToken plan =
     (if sameAddr_ui shake confirmedToken (lp_expectedToken plan) then None
      else Some (if sameAddr_ui shake (lp_expectedToken plan) NATIVE_TOKEN \<or>
                    sameAddr_ui shake (lp_expectedToken plan) QRVM_ZERO_ADDRESS
                 then ''it escrows a token, not native '' @ lp_symbol plan
                 else ''it escrows the wrong token contract, not the agreed '' @ lp_symbol plan))"

definition nativeTokenForLeg :: "leg_key \<Rightarrow> string" where
  "nativeTokenForLeg leg = (if leg = QrlLeg then QRVM_ZERO_ADDRESS else NATIVE_TOKEN)"

definition unassigned :: "shake256 \<Rightarrow> leg_state \<Rightarrow> leg_key \<Rightarrow> bool" where
  "unassigned shake st leg = sameAddr_ui shake (ls_recipient st) (nativeTokenForLeg leg)"

definition open_unassigned :: "shake256 \<Rightarrow> leg_state option \<Rightarrow> leg_key \<Rightarrow> bool" where
  "open_unassigned shake st leg \<longleftrightarrow>
     (case st of None \<Rightarrow> False | Some s \<Rightarrow> ls_status s = LOpen \<and> unassigned shake s leg)"

definition is_prelocked :: "active_swap \<Rightarrow> bool" where
  "is_prelocked swap \<longleftrightarrow> as_prelocked swap = Some True"

definition awaitingAssign :: "shake256 \<Rightarrow> active_swap \<Rightarrow> leg_state option \<Rightarrow> leg_key \<Rightarrow> bool" where
  "awaitingAssign shake swap iConfirmed iLeg \<longleftrightarrow>
     is_prelocked swap \<and> open_unassigned shake iConfirmed iLeg"

text \<open>The checks shared by both counterparty locks; \<open>late\<close> is the deadline test of each side.\<close>

definition lockIssue :: "shake256 \<Rightarrow> (int \<Rightarrow> nat \<Rightarrow> string) \<Rightarrow> leg_state \<Rightarrow> leg_plan \<Rightarrow> bool \<Rightarrow> string \<Rightarrow> string option" where
  "lockIssue shake fmt conf plan late lateIssue =
     (case tokenIssue shake (ls_token conf) plan of
        Some bad \<Rightarrow> Some bad
      | None \<Rightarrow>
          if \<not> sameAddr_ui shake (ls_recipient conf) (lp_recipient plan)
          then Some ''its recipient is not your address''
          else if ls_amount conf \<noteq> lp_amount plan
          then Some (''it escrows '' @ fmt (ls_amount conf) (lp_decimals plan) @ '' '' @ lp_symbol plan
                 @ '', not the agreed '' @ fmt (lp_amount plan) (lp_decimals plan))
          else if late then Some lateIssue else None)"

definition initiatorLockIssue :: "shake256 \<Rightarrow> (int \<Rightarrow> nat \<Rightarrow> string) \<Rightarrow> active_swap \<Rightarrow> leg_state option
    \<Rightarrow> leg_key \<Rightarrow> int \<Rightarrow> string option" where
  "initiatorLockIssue shake fmt swap iConfirmed iLeg responderTimeout =
     (case iConfirmed of None \<Rightarrow> None | Some c \<Rightarrow>
        if ls_status c = LOpen \<and> \<not> awaitingAssign shake swap iConfirmed iLeg
        then lockIssue shake fmt c (planFor swap iLeg) (ls_timeout c < responderTimeout + CLAIM_MARGIN_S)
          ''its timeout leaves you too little claim window''
        else None)"

definition responderLockIssue :: "shake256 \<Rightarrow> (int \<Rightarrow> nat \<Rightarrow> string) \<Rightarrow> active_swap \<Rightarrow> leg_state option
    \<Rightarrow> leg_key \<Rightarrow> int \<Rightarrow> string option" where
  "responderLockIssue shake fmt swap rConfirmed rLeg nowS =
     (case rConfirmed of None \<Rightarrow> None | Some c \<Rightarrow>
        if ls_status c = LOpen
        then lockIssue shake fmt c (planFor swap rLeg) (ls_timeout c < nowS + CLAIM_MARGIN_S)
          ''its timeout leaves too little window to reveal the secret safely''
        else None)"

definition revealedPreimage :: "leg_state option \<Rightarrow> string option" where
  "revealedPreimage rState = (case rState of None \<Rightarrow> None
     | Some r \<Rightarrow> if ls_preimage r \<noteq> ZERO_BYTES32 then Some (ls_preimage r) else None)"


section \<open>The four steps\<close>

definition assignStep :: "shake256 \<Rightarrow> bool \<Rightarrow> leg_key \<Rightarrow> leg_state option \<Rightarrow> leg_state option \<Rightarrow> leg_state option
    \<Rightarrow> int \<Rightarrow> int \<Rightarrow> step_model" where
  "assignStep shake own iLeg iState iConfirmed rState responderTimeout nowS =
     \<lparr>sm_key = AssignInitiator, sm_leg = iLeg, sm_own = own,
      sm_done = (case iConfirmed of None \<Rightarrow> False
        | Some c \<Rightarrow> ls_status c \<noteq> LNone \<and> \<not> unassigned shake c iLeg),
      sm_canRun = (open_unassigned shake iState iLeg \<and> has_status LNone rState \<and> nowS < responderTimeout),
      sm_issue = (if own \<and> open_unassigned shake iState iLeg \<and> rState \<noteq> None \<and> \<not> has_status LNone rState
        then Some ''the hashlock is already used on the responder chain; release your escrow and relist''
        else None),
      sm_awaitingDepth = (has_status LOpen iState \<and> \<not> open_unassigned shake iState iLeg \<and>
        \<not> (has_status LOpen iConfirmed \<and> \<not> open_unassigned shake iConfirmed iLeg))\<rparr>"

definition lockInitiatorStep :: "bool \<Rightarrow> leg_key \<Rightarrow> leg_state option \<Rightarrow> step_model" where
  "lockInitiatorStep own iLeg iState =
     \<lparr>sm_key = LockInitiator, sm_leg = iLeg, sm_own = own, sm_done = chainExposed iState,
      sm_canRun = has_status LNone iState, sm_issue = None, sm_awaitingDepth = False\<rparr>"

definition lockResponderStep :: "shake256 \<Rightarrow> (int \<Rightarrow> nat \<Rightarrow> string) \<Rightarrow> active_swap \<Rightarrow> bool \<Rightarrow> leg_key \<Rightarrow> leg_key
    \<Rightarrow> leg_state option \<Rightarrow> leg_state option \<Rightarrow> leg_state option \<Rightarrow> int \<Rightarrow> int \<Rightarrow> step_model" where
  "lockResponderStep shake fmt swap own iLeg rLeg iState iConfirmed rState responderTimeout nowS =
     (let issue = initiatorLockIssue shake fmt swap iConfirmed iLeg responderTimeout in
      \<lparr>sm_key = LockResponder, sm_leg = rLeg, sm_own = own, sm_done = chainExposed rState,
       sm_canRun = (has_status LOpen iConfirmed \<and> issue = None \<and>
         \<not> awaitingAssign shake swap iConfirmed iLeg \<and> has_status LNone rState \<and> nowS < responderTimeout),
       sm_issue = (if own then issue else None),
       sm_awaitingDepth = (has_status LNone rState \<and> awaitingDepth iState iConfirmed)\<rparr>)"

definition claimResponderStep :: "shake256 \<Rightarrow> (int \<Rightarrow> nat \<Rightarrow> string) \<Rightarrow> active_swap \<Rightarrow> bool \<Rightarrow> leg_key \<Rightarrow> leg_key
    \<Rightarrow> leg_state option \<Rightarrow> leg_state option \<Rightarrow> leg_state option \<Rightarrow> int \<Rightarrow> int \<Rightarrow> step_model" where
  "claimResponderStep shake fmt swap own iLeg rLeg iState rState rConfirmed responderTimeout nowS =
     (let issue = responderLockIssue shake fmt swap rConfirmed rLeg nowS in
      \<lparr>sm_key = ClaimResponder, sm_leg = rLeg, sm_own = own, sm_done = has_status LClaimed rState,
       sm_canRun = (truthy (as_preimage swap) \<and> has_status LOpen iState \<and>
         (\<not> is_prelocked swap \<or> \<not> open_unassigned shake iState iLeg) \<and>
         has_status LOpen rConfirmed \<and> issue = None \<and> nowS < responderTimeout),
       sm_issue = (if own then issue else None),
       sm_awaitingDepth = (rState \<noteq> None \<and> \<not> has_status LClaimed rState \<and> awaitingDepth rState rConfirmed)\<rparr>)"

definition claimInitiatorStep :: "shake256 \<Rightarrow> active_swap \<Rightarrow> bool \<Rightarrow> leg_key \<Rightarrow> leg_state option \<Rightarrow> leg_state option
    \<Rightarrow> int \<Rightarrow> step_model" where
  "claimInitiatorStep shake swap own iLeg iState rState nowS =
     (let open_before = (\<lambda>blocked. case iState of None \<Rightarrow> False
            | Some i \<Rightarrow> ls_status i = LOpen \<and> claimCutoffBlocked (ls_timeout i) nowS CLAIM_MARGIN_S = blocked)
      in \<lparr>sm_key = ClaimInitiator, sm_leg = iLeg, sm_own = own, sm_done = has_status LClaimed iState,
       sm_canRun = (truthy (revealedPreimage rState) \<and>
         (\<not> is_prelocked swap \<or> \<not> open_unassigned shake iState iLeg) \<and> open_before False),
       sm_issue = (if own \<and> truthy (revealedPreimage rState) \<and> open_before True
         then Some CLAIM_CUTOFF_ISSUE else None),
       sm_awaitingDepth = False\<rparr>)"

fun myLegs :: "swap_role \<Rightarrow> leg_key \<Rightarrow> leg_key \<Rightarrow> leg_key list" where
  "myLegs MakerRole iLeg rLeg = [iLeg]"
| "myLegs TakerRole iLeg rLeg = [rLeg]"
| "myLegs Sandbox iLeg rLeg = [iLeg, rLeg]"

definition deriveSwapMachine :: "shake256 \<Rightarrow> (int \<Rightarrow> nat \<Rightarrow> string) \<Rightarrow> machine_input \<Rightarrow> swap_machine option" where
  "deriveSwapMachine shake fmt input =
     (let swap = mi_swap input; nowS = mi_nowS input in
      if \<not> truthy (as_hashlock swap) then None
      else (case (as_initiatorTimeout swap, as_responderTimeout swap) of
        (Some initiatorTimeout, Some responderTimeout) \<Rightarrow>
          (let iLeg = initiatorLeg (as_direction swap); rLeg = responderLeg (as_direction swap);
               legs = mi_legs input;
               iState = legs iLeg; rState = legs rLeg;
               iConfirmed = mi_confirmed input iLeg; rConfirmed = mi_confirmed input rLeg;
               own = mySteps (as_role swap);
               ownLocked = filter (\<lambda>leg. has_status LOpen (legs leg)) (myLegs (as_role swap) iLeg rLeg);
               maker = (as_role swap \<noteq> TakerRole)
           in Some
            \<lparr>ma_iLeg = iLeg, ma_rLeg = rLeg,
             ma_steps = [
               (if is_prelocked swap
                then assignStep shake (own ! 0) iLeg iState iConfirmed rState responderTimeout nowS
                else lockInitiatorStep (own ! 0) iLeg iState),
               lockResponderStep shake fmt swap (own ! 1) iLeg rLeg iState iConfirmed rState responderTimeout nowS,
               claimResponderStep shake fmt swap (own ! 2) iLeg rLeg iState rState rConfirmed responderTimeout nowS,
               claimInitiatorStep shake swap (own ! 3) iLeg iState rState nowS],
             ma_complete = (has_status LClaimed iState \<and> has_status LClaimed rState),
             ma_revealedPreimage = revealedPreimage rState,
             ma_refundableLegs = filter (\<lambda>leg. case legs leg of None \<Rightarrow> False
               | Some st \<Rightarrow> nowS \<ge> ls_timeout st) ownLocked,
             ma_releasableLegs = (if \<not> is_prelocked swap then []
               else filter (\<lambda>leg. case legs leg of None \<Rightarrow> False
                 | Some st \<Rightarrow> unassigned shake st leg) ownLocked),
             ma_awaitingAssign = awaitingAssign shake swap iConfirmed iLeg,
             ma_ownLockedLegs = ownLocked,
             ma_ownEth = addrOn swap EthLeg maker, ma_ownQrl = addrOn swap QrlLeg maker,
             ma_legPlan = planFor swap, ma_legPayees = payeesFor swap\<rparr>)
      | _ \<Rightarrow> None))"


section \<open>Public verdict and pre-funded listings\<close>

datatype tone = Success | Pending | Neutral | Warn

record swap_verdict =
  sv_headline :: string
  sv_detail :: string
  sv_tone :: tone

definition verdict_of :: "string \<Rightarrow> string \<Rightarrow> tone \<Rightarrow> swap_verdict" where
  "verdict_of h d t = \<lparr>sv_headline = h, sv_detail = d, sv_tone = t\<rparr>"

definition deriveVerdict :: "leg_state option \<Rightarrow> leg_state option \<Rightarrow> swap_verdict" where
  "deriveVerdict qrl eth =
     (case (map_option ls_status qrl, map_option ls_status eth) of
        (Some a, Some b) \<Rightarrow>
          (let both = (\<lambda>s. a = s \<and> b = s); has = (\<lambda>s. a = s \<or> b = s) in
           if both LClaimed then verdict_of ''Atomic swap complete on both chains''
             ''Both escrows were claimed with the same secret.'' Success
           else if has LClaimed \<and> has LOpen then verdict_of ''Secret revealed; final claim pending''
             ''One leg is claimed, so the preimage is public on-chain. The remaining escrow can be claimed by anyone for its fixed recipient before its timeout.'' Pending
           else if has LClaimed \<and> has LRefunded then verdict_of ''Settled unevenly''
             ''One leg was claimed and the other refunded; a claim missed its window.'' Warn
           else if has LClaimed then verdict_of ''One leg claimed''
             ''The other leg was never escrowed under this hashlock.'' Warn
           else if both LOpen then verdict_of ''Both legs escrowed''
             ''Waiting for the first claim to reveal the secret.'' Pending
           else if has LOpen \<and> has LRefunded then verdict_of ''One leg refunded''
             ''The remaining escrow refunds to its initiator after its own timeout.'' Warn
           else if has LOpen then verdict_of ''One leg escrowed''
             ''Waiting for the counterparty to lock the other leg.'' Pending
           else if has LRefunded then verdict_of ''Swap expired''
             (if both LRefunded then ''Both escrows were refunded.''
              else ''The escrowed leg was refunded; the other was never locked.'') Neutral
           else verdict_of ''No swap found for this hash''
             ''Neither chain has an escrow under this hashlock. It may not be locked yet.'' Neutral)
      | (a, b) \<Rightarrow>
          verdict_of ''Status incomplete''
            (''Could not read '' @ (if a = None \<and> b = None then ''either chain''
               else if a = None then ''QRL v3'' else ''Sepolia'')
             @ '' right now; this page keeps retrying.'') Neutral)"

text \<open>The listing's hashlock, timeout, direction and amount, the escrow read at the head and the clock.\<close>

definition prelockEscrowIssue :: "shake256 \<Rightarrow> (int \<Rightarrow> nat \<Rightarrow> string) \<Rightarrow> string option \<Rightarrow> int option \<Rightarrow> direction
    \<Rightarrow> int \<Rightarrow> asset_symbol \<Rightarrow> leg_state \<Rightarrow> int \<Rightarrow> string option" where
  "prelockEscrowIssue shake fmt hashlock initiatorTimeout direction fromAmount asset state nowS =
     (if hashlock = None \<or> initiatorTimeout = None then Some ''the order carries no escrow anchors''
      else
       (let leg = initiatorLeg direction;
            expected = (if leg = EthLeg then nvl (tokenAddress (assetInfo asset)) NATIVE_TOKEN
                        else nativeTokenForLeg leg);
            dec = (if leg = EthLeg then decimals (assetInfo asset) else 18)
        in
        if ls_status state \<noteq> LOpen then Some ''no open escrow exists under this order's hashlock''
        else if \<not> sameAddr_ui shake (ls_token state) expected
          then Some ''the escrow holds a different asset than the order sells''
        else if ls_amount state \<noteq> fromAmount
          then Some (''the escrow holds '' @ fmt (ls_amount state) dec @ '', not the listed amount'')
        else if \<not> sameAddr_ui shake (ls_recipient state) (nativeTokenForLeg leg)
          then Some ''the escrow is already assigned to another taker''
        else if ls_timeout state - nowS < MIN_TAKEABLE_RUNWAY_S
          then Some ''too little time remains on the escrow to swap safely''
        else None))"


text \<open>A concrete swap, seen by a taker on two native legs.\<close>

definition demo_swap :: active_swap where
  "demo_swap = \<lparr>as_role = Sandbox, as_direction = EthToQrl, as_ethAsset = ETH, as_fromAmount = 7,
     as_toAmount = 9, as_makerEthAccount = eth_addr (CHR ''a''), as_makerQrlAccount = eth_addr (CHR ''a''),
     as_takerEthAccount = eth_addr (CHR ''b''), as_takerQrlAccount = eth_addr (CHR ''b''),
     as_preimage = Some ''s'', as_hashlock = Some ''hs'', as_initiatorTimeout = Some 20000,
     as_responderTimeout = Some 9000, as_prelocked = None\<rparr>"

definition demo_machine :: "leg_state option \<Rightarrow> leg_state option \<Rightarrow> int \<Rightarrow> machine_input" where
  "demo_machine e q now = \<lparr>mi_swap = demo_swap, mi_legs = (\<lambda>leg. if leg = EthLeg then e else q),
     mi_confirmed = (\<lambda>leg. if leg = EthLeg then e else q), mi_nowS = now\<rparr>"

definition demo_fmt :: "int \<Rightarrow> nat \<Rightarrow> string" where
  "demo_fmt n d = show_int n"


section \<open>What a runnable step implies\<close>

lemma tokenIssue_None: "tokenIssue shake t plan = None \<longleftrightarrow> sameAddr shake t (lp_expectedToken plan) = Inr True"
  by (simp add: tokenIssue_def)

lemma lockIssue_None:
  "lockIssue shake fmt c plan late m = None \<longleftrightarrow>
     sameAddr shake (ls_token c) (lp_expectedToken plan) = Inr True \<and>
     sameAddr shake (ls_recipient c) (lp_recipient plan) = Inr True \<and> ls_amount c = lp_amount plan \<and> \<not> late"
  using tokenIssue_None [of shake "ls_token c" plan]
  by (auto simp: lockIssue_def split: option.splits)

lemma lockResponder_canRun:
  "sm_canRun (lockResponderStep shake fmt swap own iLeg rLeg iState iConfirmed rState t2 now) \<longleftrightarrow>
     has_status LNone rState \<and> now < t2 \<and>
     (\<exists>c. iConfirmed = Some c \<and> ls_status c = LOpen \<and>
        \<not> (is_prelocked swap \<and> unassigned shake c iLeg) \<and>
        sameAddr shake (ls_token c) (lp_expectedToken (planFor swap iLeg)) = Inr True \<and>
        sameAddr shake (ls_recipient c) (lp_recipient (planFor swap iLeg)) = Inr True \<and>
        ls_amount c = lp_amount (planFor swap iLeg) \<and> t2 + CLAIM_MARGIN_S \<le> ls_timeout c)"
  by (auto simp: lockResponderStep_def Let_def initiatorLockIssue_def awaitingAssign_def
      open_unassigned_def lockIssue_None has_status_iff split: option.splits if_splits)

lemma claimResponder_canRun:
  "sm_canRun (claimResponderStep shake fmt swap own iLeg rLeg iState rState rConfirmed t2 now) \<longleftrightarrow>
     truthy (as_preimage swap) \<and> has_status LOpen iState \<and>
     (\<not> is_prelocked swap \<or> \<not> open_unassigned shake iState iLeg) \<and> now < t2 \<and>
     (\<exists>c. rConfirmed = Some c \<and> ls_status c = LOpen \<and>
        sameAddr shake (ls_token c) (lp_expectedToken (planFor swap rLeg)) = Inr True \<and>
        sameAddr shake (ls_recipient c) (lp_recipient (planFor swap rLeg)) = Inr True \<and>
        ls_amount c = lp_amount (planFor swap rLeg) \<and> now + CLAIM_MARGIN_S \<le> ls_timeout c)"
  by (auto simp: claimResponderStep_def Let_def responderLockIssue_def lockIssue_None has_status_iff
      split: option.splits if_splits)

lemma deriveSwapMachine_Some:
  assumes "deriveSwapMachine shake fmt x = Some ma"
  shows "\<exists>t1 t2. as_initiatorTimeout (mi_swap x) = Some t1 \<and> as_responderTimeout (mi_swap x) = Some t2 \<and>
    ma_iLeg ma = initiatorLeg (as_direction (mi_swap x)) \<and> ma_rLeg ma = responderLeg (as_direction (mi_swap x)) \<and>
    ma_steps ma ! 2 = claimResponderStep shake fmt (mi_swap x) (mySteps (as_role (mi_swap x)) ! 2)
      (ma_iLeg ma) (ma_rLeg ma) (mi_legs x (ma_iLeg ma)) (mi_legs x (ma_rLeg ma)) (mi_confirmed x (ma_rLeg ma)) t2 (mi_nowS x) \<and>
    ma_steps ma ! 1 = lockResponderStep shake fmt (mi_swap x) (mySteps (as_role (mi_swap x)) ! 1)
      (ma_iLeg ma) (ma_rLeg ma) (mi_legs x (ma_iLeg ma)) (mi_confirmed x (ma_iLeg ma)) (mi_legs x (ma_rLeg ma)) t2 (mi_nowS x) \<and>
    ma_steps ma ! 3 = claimInitiatorStep shake (mi_swap x) (mySteps (as_role (mi_swap x)) ! 3)
      (ma_iLeg ma) (mi_legs x (ma_iLeg ma)) (mi_legs x (ma_rLeg ma)) (mi_nowS x)"
  using assms
  by (auto simp: deriveSwapMachine_def Let_def numeral_2_eq_2 numeral_3_eq_3 split: if_splits option.splits)

lemma machine_exit_legs:
  assumes "deriveSwapMachine shake fmt x = Some ma"
  shows "leg \<in> set (ma_releasableLegs ma) \<Longrightarrow>
      is_prelocked (mi_swap x) \<and> open_unassigned shake (mi_legs x leg) leg"
    "leg \<in> set (ma_refundableLegs ma) \<Longrightarrow>
      \<exists>st. mi_legs x leg = Some st \<and> ls_status st = LOpen \<and> ls_timeout st \<le> mi_nowS x"
  using assms
  by (auto simp: deriveSwapMachine_def Let_def open_unassigned_def has_status_iff split: if_splits option.splits)

text \<open>
  C34: the browser offers to reveal the secret only when it is safe. If the claim of the responder leg
  is runnable, the secret is known, the maker's own escrow is open, the counterparty lock at
  confirmation depth carries the agreed token, recipient and amount with at least the claim margin
  left on its own on-chain timeout, and the maker's escrow can no longer be pulled back by a release.
\<close>

theorem ui_reveal_safe:
  assumes "deriveSwapMachine shake fmt x = Some ma" and "sm_canRun (ma_steps ma ! 2)"
  shows "truthy (as_preimage (mi_swap x)) \<and> has_status LOpen (mi_legs x (ma_iLeg ma)) \<and>
    ma_iLeg ma \<notin> set (ma_releasableLegs ma) \<and>
    (\<exists>c. mi_confirmed x (ma_rLeg ma) = Some c \<and> ls_status c = LOpen \<and>
       sameAddr shake (ls_token c) (lp_expectedToken (planFor (mi_swap x) (ma_rLeg ma))) = Inr True \<and>
       sameAddr shake (ls_recipient c) (lp_recipient (planFor (mi_swap x) (ma_rLeg ma))) = Inr True \<and>
       ls_amount c = lp_amount (planFor (mi_swap x) (ma_rLeg ma)) \<and>
       mi_nowS x + CLAIM_MARGIN_S \<le> ls_timeout c)"
proof -
  from deriveSwapMachine_Some [OF assms(1)] assms(2) obtain t2 where
    c: "sm_canRun (claimResponderStep shake fmt (mi_swap x) (mySteps (as_role (mi_swap x)) ! 2) (ma_iLeg ma)
      (ma_rLeg ma) (mi_legs x (ma_iLeg ma)) (mi_legs x (ma_rLeg ma)) (mi_confirmed x (ma_rLeg ma)) t2 (mi_nowS x))"
    by auto
  from c have "ma_iLeg ma \<notin> set (ma_releasableLegs ma)"
    using machine_exit_legs(1) [OF assms(1), of "ma_iLeg ma"] by (auto simp: claimResponder_canRun)
  with c show ?thesis by (auto simp: claimResponder_canRun)
qed

lemma planFor_demo:
  "planFor demo_swap EthLeg = \<lparr>lp_recipient = eth_addr (CHR ''b''), lp_amount = 7, lp_expectedToken = NATIVE_TOKEN,
     lp_symbol = ''ETH'', lp_decimals = 18\<rparr>"
  "lp_recipient (planFor demo_swap QrlLeg) = eth_addr (CHR ''a'')" "lp_amount (planFor demo_swap QrlLeg) = 9"
  "lp_expectedToken (planFor demo_swap QrlLeg) = QRVM_ZERO_ADDRESS"
  by (simp_all add: planFor_def demo_swap_def addrOn_def initiatorLeg_def asset_name_def ASSET_SYMBOLS_def Let_def)

lemma sameAddr_qrvm_zero: "sameAddr shake QRVM_ZERO_ADDRESS QRVM_ZERO_ADDRESS = Inr True"
proof (rule sameAddr_refl)
  have z: "is_hex_any (CHR ''0'')" by code_simp
  have "QRVM_ADDRESS_RE QRVM_ZERO_ADDRESS"
    by (simp add: QRVM_ADDRESS_RE_def QRVM_ZERO_ADDRESS_def matches_def list_all_iff z)
  moreover have "\<not> isQip55QrlAddress shake QRVM_ZERO_ADDRESS"
    by (simp add: isQip55QrlAddress_def QIP55_QRL_ADDRESS_RE_def matches_def QRVM_ZERO_ADDRESS_def)
  ultimately show "qrlOrEthHex shake QRVM_ZERO_ADDRESS = Inr QRVM_ZERO_ADDRESS"
    by (simp add: qrlOrEthHex_def)
qed

theorem ui_reveal_safe_witness:
  "let x = demo_machine (Some (demo_mined LOpen (CHR ''a'') (CHR ''b'') 7 20000))
         (Some ((demo_mined LOpen (CHR ''b'') (CHR ''a'') 9 9000)\<lparr>ls_token := QRVM_ZERO_ADDRESS\<rparr>)) 3000
   in \<exists>ma. deriveSwapMachine demo_shake demo_fmt x = Some ma \<and> sm_canRun (ma_steps ma ! 2) \<and>
        EthLeg \<notin> set (ma_releasableLegs ma)"
proof -
  let ?x = "demo_machine (Some (demo_mined LOpen (CHR ''a'') (CHR ''b'') 7 20000))
         (Some ((demo_mined LOpen (CHR ''b'') (CHR ''a'') 9 9000)\<lparr>ls_token := QRVM_ZERO_ADDRESS\<rparr>)) 3000"
  obtain ma where ma: "deriveSwapMachine demo_shake demo_fmt ?x = Some ma"
    by (simp add: deriveSwapMachine_def demo_machine_def demo_swap_def truthy_def Let_def)
  have leg: "ma_iLeg ma = EthLeg" "ma_rLeg ma = QrlLeg"
    using deriveSwapMachine_Some [OF ma]
    by (auto simp: demo_machine_def demo_swap_def initiatorLeg_def responderLeg_def)
  have x: "mi_swap ?x = demo_swap" "as_responderTimeout demo_swap = Some 9000" "as_preimage demo_swap = Some ''s''"
    "is_prelocked demo_swap = False" "mi_nowS ?x = 3000"
    by (simp_all add: demo_machine_def demo_swap_def is_prelocked_def)
  have "sm_canRun (ma_steps ma ! 2)"
    using deriveSwapMachine_Some [OF ma]
    by (auto simp: claimResponder_canRun leg x planFor_demo truthy_def CLAIM_MARGIN_S_def sameAddr_qrvm_zero)
      (simp_all add: demo_machine_def demo_mined_def demo_leg_def has_status_def sameAddr_qrvm_zero
        sameAddr_eth_addr demo_chars)
  with ui_reveal_safe [OF ma this] ma leg show ?thesis by (auto simp: Let_def)
qed

text \<open>
  the two exits of an escrow never overlap with its use. When the browser offers the taker's final
  claim, the initiator escrow is open, assigned (if it was pre-funded) and outside the cutoff, so it
  is not listed as refundable, and it is not releasable either.
\<close>

lemma ui_exits_exclusive:
  assumes "deriveSwapMachine shake fmt x = Some ma" and "sm_canRun (ma_steps ma ! 3)"
  shows "ma_iLeg ma \<notin> set (ma_refundableLegs ma) \<and> ma_iLeg ma \<notin> set (ma_releasableLegs ma) \<and>
    has_status LOpen (mi_legs x (ma_iLeg ma)) \<and> truthy (ma_revealedPreimage ma)"
proof -
  from deriveSwapMachine_Some [OF assms(1)] assms(2) have
    "sm_canRun (claimInitiatorStep shake (mi_swap x) (mySteps (as_role (mi_swap x)) ! 3) (ma_iLeg ma)
      (mi_legs x (ma_iLeg ma)) (mi_legs x (ma_rLeg ma)) (mi_nowS x))" by auto
  then obtain i where i: "mi_legs x (ma_iLeg ma) = Some i" "ls_status i = LOpen"
    "mi_nowS x < ls_timeout i - CLAIM_MARGIN_S" "truthy (revealedPreimage (mi_legs x (ma_rLeg ma)))"
    "\<not> is_prelocked (mi_swap x) \<or> \<not> open_unassigned shake (mi_legs x (ma_iLeg ma)) (ma_iLeg ma)"
    by (auto simp: claimInitiatorStep_def Let_def claimCutoffBlocked_def split: option.splits)
  have "ma_revealedPreimage ma = revealedPreimage (mi_legs x (ma_rLeg ma))"
    using assms(1) by (auto simp: deriveSwapMachine_def Let_def split: if_splits option.splits)
  moreover have "ma_iLeg ma \<notin> set (ma_refundableLegs ma)"
    using machine_exit_legs(2) [OF assms(1), of "ma_iLeg ma"] i by (auto simp: CLAIM_MARGIN_S_def)
  moreover have "ma_iLeg ma \<notin> set (ma_releasableLegs ma)"
    using machine_exit_legs(1) [OF assms(1), of "ma_iLeg ma"] i by auto
  ultimately show ?thesis using i by (simp add: has_status_def)
qed

section \<open>Agreement with the scripted taker\<close>

text \<open>The plan input the scripted taker would use for the same swap.\<close>

definition plan_input_of :: "active_swap \<Rightarrow> int \<Rightarrow> int \<Rightarrow> taker_plan_input" where
  "plan_input_of swap t1 t2 = \<lparr>ti_direction = as_direction swap, ti_asset = as_ethAsset swap,
     ti_fromAmount = as_fromAmount swap, ti_toAmount = as_toAmount swap,
     ti_makerEthAccount = as_makerEthAccount swap, ti_makerQrlAccount = as_makerQrlAccount swap,
     ti_takerEthAccount = as_takerEthAccount swap, ti_takerQrlAccount = as_takerQrlAccount swap,
     ti_initiatorTimeout = t1, ti_responderTimeout = t2\<rparr>"

lemma plans_agree:
  assumes "iLeg = initiatorLeg (as_direction swap)"
  shows "tp_leg (pl_initiator (takerLegPlans (plan_input_of swap t1 t2))) = iLeg"
    "tp_recipient (pl_initiator (takerLegPlans (plan_input_of swap t1 t2))) = lp_recipient (planFor swap iLeg)"
    "tp_amount (pl_initiator (takerLegPlans (plan_input_of swap t1 t2))) = lp_amount (planFor swap iLeg)"
    "tp_expectedToken (pl_initiator (takerLegPlans (plan_input_of swap t1 t2))) = lp_expectedToken (planFor swap iLeg)"
  using assms
  by (auto simp: takerLegPlans_def plan_input_of_def planFor_def addrOn_def expectedToken_def Let_def
      initiatorLeg_def split: if_splits)

text \<open>
  C35: the browser and the scripted taker accept the same maker escrows. For addresses that parse and a
  taker account that is not the zero address, the browser offers the responder lock exactly when the
  scripted taker's verification of the same deep escrow, with the browser's margin \<open>CLAIM_MARGIN_S\<close> (1800 seconds, the taker's own default), answers ok,
  the responder leg is unused and its deadline has not passed.
\<close>

theorem ui_agrees_with_taker:
  assumes "iLeg = initiatorLeg (as_direction swap)"
    and "\<exists>h. qrlOrEthHex shake (ls_recipient c) = Inr h" and "\<exists>h. qrlOrEthHex shake (ls_token c) = Inr h"
    and "\<exists>h. qrlOrEthHex shake (lp_expectedToken (planFor swap iLeg)) = Inr h"
    and "sameAddr shake (lp_recipient (planFor swap iLeg)) (legZeroAddress iLeg) = Inr False"
  shows "sm_canRun (lockResponderStep shake fmt swap own iLeg rLeg iState (Some c) rState t2 now) \<longleftrightarrow>
    checkMakerLock shake (Some c) (pl_initiator (takerLegPlans (plan_input_of swap t1 t2))) t2
      CLAIM_MARGIN_S (is_prelocked swap) = Inr MOk \<and> has_status LNone rState \<and> now < t2"
proof -
  note P = plans_agree [OF assms(1), of t1 t2]
  let ?z = "legZeroAddress iLeg" and ?r = "lp_recipient (planFor swap iLeg)"
  obtain hr hz where h: "qrlOrEthHex shake ?r = Inr hr" "qrlOrEthHex shake ?z = Inr hz"
    using assms(5) by (auto simp: sameAddr_def js_bind_Inr)
  obtain z where z: "sameAddr shake (ls_recipient c) ?z = Inr z"
    using assms(2) h(2) sameAddr_total by blast
  obtain r where r: "sameAddr shake (ls_recipient c) ?r = Inr r"
    using assms(2) h(1) sameAddr_total by blast
  obtain k where k: "sameAddr shake (ls_token c) (lp_expectedToken (planFor swap iLeg)) = Inr k"
    using assms(3,4) sameAddr_total by blast
  have "\<not> (r \<and> z)"
  proof
    assume "r \<and> z"
    then have "sameAddr shake ?r (ls_recipient c) = Inr True" "sameAddr shake (ls_recipient c) ?z = Inr True"
      using sameAddr_sym [OF r] z by simp_all
    then have "sameAddr shake ?r ?z = Inr True" by (rule sameAddr_trans)
    with assms(5) show False by simp
  qed
  moreover have "unassigned shake c iLeg \<longleftrightarrow> z"
    using z by (simp add: unassigned_def nativeTokenForLeg_def legZeroAddress_def)
  moreover have "checkMakerLock shake (Some c) (pl_initiator (takerLegPlans (plan_input_of swap t1 t2))) t2
      CLAIM_MARGIN_S (is_prelocked swap) = Inr MOk \<longleftrightarrow> ls_status c = LOpen \<and> \<not> z \<and> k \<and> r \<and>
      ls_amount c = lp_amount (planFor swap iLeg) \<and> t2 + CLAIM_MARGIN_S \<le> ls_timeout c"
    using z r k by (cases z; cases k; cases r) (auto simp: checkMakerLock_def P)
  ultimately show ?thesis
    using r k by (auto simp: lockResponder_canRun)
qed

theorem ui_agrees_with_taker_witness:
  "let c = demo_mined LOpen (CHR ''a'') (CHR ''b'') 7 20000;
       r = Some (demo_mined LNone (CHR ''0'') (CHR ''0'') 0 0)
   in sm_canRun (lockResponderStep demo_shake demo_fmt demo_swap True EthLeg QrlLeg None (Some c) r 9000 3000) \<and>
      checkMakerLock demo_shake (Some c) (pl_initiator (takerLegPlans (plan_input_of demo_swap 20000 9000))) 9000
        CLAIM_MARGIN_S False = Inr MOk"
proof -
  let ?c = "demo_mined LOpen (CHR ''a'') (CHR ''b'') 7 20000"
  let ?r = "Some (demo_mined LNone (CHR ''0'') (CHR ''0'') 0 0)"
  have q: "\<exists>h. qrlOrEthHex demo_shake (eth_addr ch) = Inr h" if "is_hex_any ch" for ch
    using eth_addr_ok [OF that] by (auto simp: qrlOrEthHex_def)
  have i: "EthLeg = initiatorLeg (as_direction demo_swap)" by (simp add: demo_swap_def initiatorLeg_def)
  have np: "is_prelocked demo_swap = False" by (simp add: demo_swap_def is_prelocked_def)
  have run: "sm_canRun (lockResponderStep demo_shake demo_fmt demo_swap True EthLeg QrlLeg None (Some ?c) ?r 9000 3000)"
    by (simp add: lockResponder_canRun np planFor_demo demo_mined_def demo_leg_def has_status_def
        CLAIM_MARGIN_S_def demo_addr_simps)
  have "\<exists>h. qrlOrEthHex demo_shake (ls_recipient ?c) = Inr h" "\<exists>h. qrlOrEthHex demo_shake (ls_token ?c) = Inr h"
    "\<exists>h. qrlOrEthHex demo_shake (lp_expectedToken (planFor demo_swap EthLeg)) = Inr h"
    "sameAddr demo_shake (lp_recipient (planFor demo_swap EthLeg)) (legZeroAddress EthLeg) = Inr False"
    by (simp_all add: demo_mined_def demo_leg_def q demo_chars planFor_demo NATIVE_TOKEN_eth_addr
        legZeroAddress_def sameAddr_eth_addr)
  from ui_agrees_with_taker [OF i this, of demo_fmt True QrlLeg None ?r 9000 3000 20000] run np
  show ?thesis by (simp add: Let_def)
qed

text \<open>
  the public verdict. It reports success exactly when both legs are claimed, never reports a
  settled state while a leg is unreadable, and does not depend on which chain is which when both
  legs are readable.
\<close>

lemma verdict_faithful:
  "(sv_tone (deriveVerdict q e) = Success \<longleftrightarrow> has_status LClaimed q \<and> has_status LClaimed e) \<and>
   (q = None \<or> e = None \<longleftrightarrow> sv_headline (deriveVerdict q e) = ''Status incomplete'') \<and>
   deriveVerdict (Some a) (Some b) = deriveVerdict (Some b) (Some a)"
proof -
  have "sv_tone (deriveVerdict q e) = Success \<longleftrightarrow> has_status LClaimed q \<and> has_status LClaimed e"
    by (cases q; cases e) (auto simp: deriveVerdict_def verdict_of_def has_status_def Let_def)
  moreover have "q = None \<or> e = None \<longleftrightarrow> sv_headline (deriveVerdict q e) = ''Status incomplete''"
    by (cases q; cases e) (auto simp: deriveVerdict_def verdict_of_def Let_def)
  moreover have "deriveVerdict (Some a) (Some b) = deriveVerdict (Some b) (Some a)"
    by (cases "ls_status a"; cases "ls_status b") (simp_all add: deriveVerdict_def Let_def)
  ultimately show ?thesis by blast
qed

lemma prelock_None:
  assumes "prelockEscrowIssue shake fmt h t1 d amount asset st now = None"
  shows "h \<noteq> None" "t1 \<noteq> None" "ls_status st = LOpen" "ls_amount st = amount"
    "sameAddr shake (ls_token st) (expectedToken (initiatorLeg d) asset) = Inr True"
    "unassigned shake st (initiatorLeg d)" "now + MIN_TAKEABLE_RUNWAY_S \<le> ls_timeout st"
  using assms
  by (cases d; auto simp: prelockEscrowIssue_def Let_def unassigned_def expectedToken_def nativeTokenForLeg_def
      initiatorLeg_def split: if_splits)+

text \<open>
  a pre-funded listing that passes the advisory check leaves room for the whole swap. Its escrow
  is open with the listed amount and asset, still unassigned and so still releasable by its owner,
  and for any responder deadline up to twice the responder window from now the hard claim-window
  test at depth will pass once the maker assigns the taker.
\<close>

lemma prelock_check_leaves_room:
  assumes "prelockEscrowIssue shake fmt h t1 d amount asset st now = None"
    and "t2 \<le> now + 2 * RESPONDER_TIMEOUT_S"
  shows "ls_status st = LOpen \<and> ls_amount st = amount \<and> unassigned shake st (initiatorLeg d) \<and>
    t2 + CLAIM_MARGIN_S \<le> ls_timeout st"
  using prelock_None [OF assms(1)] assms(2) by (simp add: MIN_TAKEABLE_RUNWAY_S_def)

end
