(* ===== verification/Maker_Admission.thy ===== *)
theory Maker_Admission
  imports Maker_Policy
begin

text \<open>
  The maker's admission bookkeeping, \<^verbatim>\<open>marketmaker/src/admission.ts\<close>: when an unfunded quote
  may be retired on its own signed deadline, how long a listing counts against the book's retention
  bounds, the parser of the persisted admission history and the shared retry backoff.
\<close>

definition LOCAL_RETAINED_ORDER_BUDGET :: nat where "LOCAL_RETAINED_ORDER_BUDGET = 60"
definition SIGNED_ORDER_RETENTION_GRACE_S :: int where "SIGNED_ORDER_RETENTION_GRACE_S = 5 * 60"
definition FILLED_ORDER_LINGER_S :: int where "FILLED_ORDER_LINGER_S = 24 * 3600"
definition DEFAULT_ORDER_LIFETIME_S :: int where "DEFAULT_ORDER_LIFETIME_S = 5 * 60"

record admission_record =
  ar_id :: string
  ar_retainUntil :: int

definition canRetireExpiredUnfundedQuote :: "managed_order \<Rightarrow> int \<Rightarrow> bool" where
  "canRetireExpiredUnfundedQuote order now \<longleftrightarrow>
     (case mo_protocol order of None \<Rightarrow> False | Some protocol \<Rightarrow>
        pa_expiresAt (mp_orderAuth protocol) \<le> now \<and>
        mp_selectedIntent protocol = None \<and> mp_fillProof protocol = None \<and> mp_cancelProof protocol = None \<and>
        \<not> mp_fillAcknowledged protocol \<and> \<not> mp_releaseObserved protocol \<and>
        ob_prelock (mp_order protocol) = None \<and>
        mo_preimage order = None \<and> mo_hashlock order = None \<and>
        mo_initiatorTimeout order = None \<and> mo_responderTimeout order = None \<and>
        mo_announcedAt order = None \<and> mo_takerEthAccount order = None \<and> mo_takerQrlAccount order = None \<and>
        mo_lockSentAt order = None \<and> mo_claimSentAt order = None \<and> mo_refundSentAt order = None)"

definition orderRetentionUntil :: "managed_order \<Rightarrow> int \<Rightarrow> int option" where
  "orderRetentionUntil order now =
     (case mo_protocol order of None \<Rightarrow> None | Some protocol \<Rightarrow>
       (let until = pa_expiresAt (mp_orderAuth protocol) + SIGNED_ORDER_RETENTION_GRACE_S + 1;
            until = (if mp_cancelProof protocol \<noteq> None
                     then max until (now + SIGNED_ORDER_RETENTION_GRACE_S + 1) else until);
            until = (case mp_fillProof protocol of None \<Rightarrow> until
                     | Some f \<Rightarrow> max until (fb_initiatorTimeout (sf_fill f) + FILLED_ORDER_LINGER_S + 1))
        in Some until))"

datatype admission_error = HistoryMalformed | RecordMalformed

definition parse_admission_row :: "string list \<Rightarrow> json \<Rightarrow> admission_record option" where
  "parse_admission_row ids item =
     (case item of JObj row \<Rightarrow>
        (case (jstr (map_of row ''id''), jsafe (map_of row ''retainUntil'')) of
           (Some i, Some r) \<Rightarrow>
             if length row \<noteq> 2 \<or> \<not> matches '''' is_hex_lower 64 i \<or> i \<in> set ids \<or> r \<le> 0 then None
             else Some \<lparr>ar_id = i, ar_retainUntil = r\<rparr>
         | _ \<Rightarrow> None)
      | _ \<Rightarrow> None)"

fun parse_admission_rows :: "string list \<Rightarrow> json list \<Rightarrow> admission_record list option" where
  "parse_admission_rows ids [] = Some []"
| "parse_admission_rows ids (item # items) =
     (case parse_admission_row ids item of None \<Rightarrow> None
      | Some r \<Rightarrow> map_option (\<lambda>rs. r # rs) (parse_admission_rows (ar_id r # ids) items))"

definition parseAdmissionRecords :: "json \<Rightarrow> (admission_error, admission_record list) result" where
  "parseAdmissionRecords raw =
     (case raw of JArr items \<Rightarrow>
        if length items > 256 then Inl HistoryMalformed
        else (case parse_admission_rows [] items of None \<Rightarrow> Inl RecordMalformed | Some rs \<Rightarrow> Inr rs)
      | _ \<Rightarrow> Inl HistoryMalformed)"

record admission_backoff =
  ab_failures :: nat
  ab_retryAt :: int

definition new_backoff :: admission_backoff where
  "new_backoff = \<lparr>ab_failures = 0, ab_retryAt = 0\<rparr>"

definition canAttempt :: "admission_backoff \<Rightarrow> int \<Rightarrow> bool" where
  "canAttempt b now \<longleftrightarrow> now \<ge> ab_retryAt b"

definition nextAttemptAt :: "admission_backoff \<Rightarrow> int" where
  "nextAttemptAt b = ab_retryAt b"

definition failed :: "admission_backoff \<Rightarrow> int \<Rightarrow> admission_backoff" where
  "failed b now = (let failures = min (ab_failures b + 1) 6 in
     \<lparr>ab_failures = failures, ab_retryAt = now + min 300 (15 * 2 ^ (failures - 1))\<rparr>)"

definition succeeded :: "admission_backoff \<Rightarrow> admission_backoff" where
  "succeeded b = \<lparr>ab_failures = 0, ab_retryAt = 0\<rparr>"

datatype backoff_event = Failed int | Succeeded

fun backoff_step :: "admission_backoff \<Rightarrow> backoff_event \<Rightarrow> admission_backoff" where
  "backoff_step b (Failed now) = failed b now"
| "backoff_step b Succeeded = succeeded b"

definition render_admission :: "admission_record list \<Rightarrow> json" where
  "render_admission rs =
     JArr (map (\<lambda>r. JObj [(''id'', JStr (ar_id r)), (''retainUntil'', JInt (ar_retainUntil r))]) rs)"


section \<open>Retiring quotes\<close>

text \<open>
  a quote that may be retired on its own deadline is one the decision core would forget. It has no
  lock, no hashlock and no acknowledged fill, so it cannot continue without the book, and with the
  book gone or the order cancelled the decision for it is to abort, whatever the chain reads are.
\<close>

lemma retired_quote_unexposed:
  assumes "canRetireExpiredUnfundedQuote m now"
  shows "mo_lockSentAt m = None \<and> mo_hashlock m = None \<and> \<not> canContinueWithoutBook m None \<and>
    decide shake (x\<lparr>di_managed := m, di_bookStatus := BookGone\<rparr>) = Inr Abort \<and>
    decide shake (x\<lparr>di_managed := m, di_bookStatus := BookCancelled\<rparr>) = Inr Abort"
  using assms
  by (auto simp: canRetireExpiredUnfundedQuote_def canContinueWithoutBook_def fillAcknowledged_def
      chainExposed_def decide_def exposureExcluded_def split: option.splits)

definition demo_quote :: managed_order where
  "demo_quote = demo_managed\<lparr>mo_protocol := Some \<lparr>mp_orderDigest = ''d'',
       mp_order = \<lparr>ob_direction = EthToQrl, ob_asset = ETH, ob_fromAmount = ''7'', ob_toAmount = ''9'',
         ob_makerEthAccount = ''e'', ob_makerQrlAccount = ''q'', ob_visibility = Public,
         ob_allowedTakerEth = None, ob_allowedTakerQrl = None, ob_prelock = None\<rparr>,
       mp_orderAuth = \<lparr>pa_issuedAt = 0, pa_expiresAt = 300, pa_nonce = ''n'', pa_signature = ''s'',
         pa_publicKey = ''p'', pa_descriptor = ''d'', pa_makerTokenCommitment = ''m'',
         pa_shareTokenCommitment = ''s''\<rparr>,
       mp_fillAcknowledged = False, mp_releaseObserved = False, mp_selectedIntent = None,
       mp_fillProof = None, mp_cancelProof = None\<rparr>,
     mo_preimage := None, mo_hashlock := None, mo_initiatorTimeout := None, mo_responderTimeout := None,
     mo_announcedAt := None, mo_lockSentAt := None\<rparr>"

lemma orderRetentionUntil_covers:
  assumes "mo_protocol m = Some p" and "orderRetentionUntil m now = Some u"
  shows "pa_expiresAt (mp_orderAuth p) + SIGNED_ORDER_RETENTION_GRACE_S < u"
    "mp_fillProof p = Some f \<Longrightarrow> fb_initiatorTimeout (sf_fill f) + FILLED_ORDER_LINGER_S < u"
  using assms by (auto simp: orderRetentionUntil_def Let_def split: option.splits if_splits)


section \<open>Admission history\<close>

definition admission_ok :: "string list \<Rightarrow> admission_record list \<Rightarrow> bool" where
  "admission_ok ids rs \<longleftrightarrow> distinct (map ar_id rs) \<and> set (map ar_id rs) \<inter> set ids = {} \<and>
     (\<forall>r\<in>set rs. matches '''' is_hex_lower 64 (ar_id r) \<and> 0 < ar_retainUntil r \<and> isSafeInteger (ar_retainUntil r))"

lemma parse_admission_row_Some:
  "parse_admission_row ids item = Some r \<Longrightarrow>
     matches '''' is_hex_lower 64 (ar_id r) \<and> ar_id r \<notin> set ids \<and> 0 < ar_retainUntil r \<and> isSafeInteger (ar_retainUntil r)"
  by (auto simp: parse_admission_row_def js_simps split: json.splits option.splits if_splits)

lemma parse_admission_rows_ok:
  "parse_admission_rows ids items = Some rs \<Longrightarrow> admission_ok ids rs \<and> length rs = length items"
  by (induction ids items arbitrary: rs rule: parse_admission_rows.induct)
    (fastforce simp: admission_ok_def dest: parse_admission_row_Some split: option.splits)+

lemma parse_admission_wf:
  assumes "parseAdmissionRecords raw = Inr rs"
  shows "admission_ok [] rs \<and> length rs \<le> 256"
proof -
  from assms obtain items where i: "\<not> 256 < length items" "parse_admission_rows [] items = Some rs"
    by (auto simp: parseAdmissionRecords_def split: json.splits option.splits if_splits)
  from parse_admission_rows_ok [OF i(2)] i(1) show ?thesis by simp
qed

lemma parse_render_rows:
  "admission_ok ids rs \<Longrightarrow>
     parse_admission_rows ids (map (\<lambda>r. JObj [(''id'', JStr (ar_id r)), (''retainUntil'', JInt (ar_retainUntil r))]) rs)
       = Some rs"
proof (induction rs arbitrary: ids)
  case Nil
  then show ?case by simp
next
  case (Cons r rs)
  then have "admission_ok (ar_id r # ids) rs" by (auto simp: admission_ok_def)
  moreover from Cons.prems have "parse_admission_row ids
      (JObj [(''id'', JStr (ar_id r)), (''retainUntil'', JInt (ar_retainUntil r))]) = Some r"
    by (auto simp: parse_admission_row_def admission_ok_def jstr_def jsafe_def)
  ultimately show ?case using Cons.IH by simp
qed

text \<open>
  the admission history round-trips. Rendering at most 256 well-formed records (distinct 64-digit
  ids, positive safe deadlines) and parsing the result gives the same records, and whatever the
  parser accepts is well formed.
\<close>

lemma admission_history_roundtrip:
  "(length rs \<le> 256 \<and> admission_ok [] rs \<longleftrightarrow> parseAdmissionRecords (render_admission rs) = Inr rs) \<and>
   \<not> (\<exists>raw bad. parseAdmissionRecords raw = Inr bad \<and> \<not> (admission_ok [] bad \<and> length bad \<le> 256))"
proof
  show "length rs \<le> 256 \<and> admission_ok [] rs \<longleftrightarrow> parseAdmissionRecords (render_admission rs) = Inr rs"
    (is "?L \<longleftrightarrow> ?R")
  proof
    assume ?L
    with parse_render_rows [of "[]" rs] show ?R by (simp add: parseAdmissionRecords_def render_admission_def)
  next
    assume ?R
    from parse_admission_wf [OF this] show ?L by blast
  qed
  show "\<not> (\<exists>raw bad. parseAdmissionRecords raw = Inr bad \<and> \<not> (admission_ok [] bad \<and> length bad \<le> 256))"
    using parse_admission_wf by blast
qed


section \<open>Retry backoff\<close>

lemma failed_delay: "15 \<le> ab_retryAt (failed b now) - now \<and> ab_retryAt (failed b now) - now \<le> 300"
proof -
  have "15 * 1 \<le> 15 * (2::int) ^ (min (ab_failures b + 1) 6 - 1)" by (intro mult_left_mono) simp_all
  then show ?thesis by (auto simp: failed_def Let_def)
qed

lemma failed_delay_mono:
  "ab_retryAt (failed b now) - now \<le> ab_retryAt (failed (failed b now) now') - now'"
proof -
  let ?k = "min (ab_failures b + 1) 6"
  have "(2::int) ^ (?k - 1) \<le> 2 ^ (min (?k + 1) 6 - 1)" by (rule power_increasing) auto
  then have "15 * (2::int) ^ (?k - 1) \<le> 15 * 2 ^ (min (?k + 1) 6 - 1)" by simp
  then have "min 300 (15 * (2::int) ^ (?k - 1)) \<le> min 300 (15 * 2 ^ (min (?k + 1) 6 - 1))" by linarith
  moreover have "ab_failures (failed b now) = ?k" by (simp add: failed_def Let_def)
  moreover have "ab_retryAt (failed c t) - t = min 300 (15 * 2 ^ (min (ab_failures c + 1) 6 - 1))" for c t
    by (simp add: failed_def Let_def)
  ultimately show ?thesis by metis
qed

lemma backoff_failures: "ab_failures b \<le> 6 \<Longrightarrow> ab_failures (backoff_step b e) \<le> 6"
  by (cases e) (auto simp: failed_def succeeded_def Let_def)

text \<open>
  The retry backoff is bounded. After any history of failures and successes, a failure at time
  \<open>now\<close> schedules the next attempt between 15 and 300 seconds later, consecutive failures never
  shorten the delay, and the failure counter stays within six.
\<close>

lemma backoff_bounded:
  "let b = foldl backoff_step new_backoff history; d1 = nextAttemptAt (failed b now) - now;
       d2 = nextAttemptAt (failed (failed b now) now') - now'
   in 15 \<le> d1 \<and> d1 \<le> d2 \<and> d2 \<le> 300 \<and> ab_failures b \<le> 6 \<and> \<not> canAttempt (failed b now) (now + 14)"
proof -
  let ?b = "foldl backoff_step new_backoff history"
  have f: "ab_failures ?b \<le> 6"
  proof (induction history rule: rev_induct)
    case Nil
    show ?case by (simp add: new_backoff_def)
  next
    case (snoc e es)
    then show ?case by (simp add: backoff_failures)
  qed
  from f failed_delay_mono [of ?b now now'] failed_delay [of ?b now] failed_delay [of "failed ?b now" now'] show ?thesis
    by (auto simp: Let_def nextAttemptAt_def canAttempt_def)
qed

end
