(* ===== verification/Price_Feed.thy ===== *)
theory Price_Feed
  imports Leg
begin

text \<open>
  The maker's price feed, \<^verbatim>\<open>marketmaker/src/price.ts\<close>: the mid of a pair from two USD quotes,
  the reprice threshold and the cache with its staleness rules and ordered fallback sources. The
  floating-point arithmetic on USD prices is a parameter: \<open>usable\<close> is
  \<^verbatim>\<open>Number.isFinite(x) && x > 0\<close> and \<open>round_milli b q\<close> is
  \<^verbatim>\<open>Math.round((b / q) * 1000)\<close>. What a source answers is the function it carries
  (\<open>None\<close> when its fetch throws); log lines are not modelled.
\<close>

section \<open>Quotes\<close>

record 'u arith =
  usable :: "'u \<Rightarrow> bool"
  round_milli :: "'u \<Rightarrow> 'u \<Rightarrow> int"

definition midMilliFromUsd :: "'u arith \<Rightarrow> 'u \<Rightarrow> 'u \<Rightarrow> int option" where
  "midMilliFromUsd ar baseUsd qrlUsd =
     (if \<not> usable ar baseUsd \<or> \<not> usable ar qrlUsd then None
      else (let milli = round_milli ar baseUsd qrlUsd in if milli > 0 then Some milli else None))"

definition needsReprice :: "int \<Rightarrow> int \<Rightarrow> int \<Rightarrow> bool" where
  "needsReprice quotedMilli currentMilli thresholdBps \<longleftrightarrow>
     (let diff = (if quotedMilli > currentMilli then quotedMilli - currentMilli else currentMilli - quotedMilli)
      in diff * 10000 > currentMilli * thresholdBps)"

record 'u usd_quote =
  uq_usd :: 'u
  uq_atS :: "int option"

record 'u usd_quotes =
  qs_qrl :: "'u usd_quote"
  qs_assets :: "asset_symbol \<Rightarrow> 'u usd_quote option"

record 'u price_source =
  ps_name :: string
  ps_minIntervalS :: int
  ps_fetch :: "asset_symbol list \<Rightarrow> int \<Rightarrow> 'u usd_quotes option"

definition priceIdsOf :: "asset_symbol \<Rightarrow> price_ids option" where
  "priceIdsOf symbol = priceIds (assetInfo symbol)"

definition FEED_SYMBOLS :: "asset_symbol list" where
  "FEED_SYMBOLS = filter (\<lambda>s. priceIdsOf s \<noteq> None) (map fst ASSET_SYMBOLS)"


section \<open>The feed\<close>

record 'u feed_opts =
  fo_sources :: "'u price_source list"
  fo_refreshS :: int
  fo_maxAgeS :: int
  fo_staticMilli :: "int option"
  fo_timeoutMs :: int

record feed =
  fd_mids :: "(asset_symbol, int \<times> int) omap"
  fd_lastAttemptAtS :: "(string, int) omap"
  fd_lastFetchAtS :: int

definition new_feed :: feed where
  "new_feed = \<lparr>fd_mids = [], fd_lastAttemptAtS = [], fd_lastFetchAtS = 0\<rparr>"

datatype skip = Missing | Unusable | Stale int | OlderThanCache

text \<open>One pending symbol against the quotes of one source: the new cache entry or why it is skipped.\<close>

definition apply_symbol :: "'u arith \<Rightarrow> int \<Rightarrow> int \<Rightarrow> 'u usd_quotes \<Rightarrow> (asset_symbol, int \<times> int) omap
    \<Rightarrow> asset_symbol \<Rightarrow> skip + (int \<times> int)" where
  "apply_symbol ar maxAgeS nowS quotes mids symbol =
     (case qs_assets quotes symbol of None \<Rightarrow> Inl Missing | Some quote \<Rightarrow>
       (case midMilliFromUsd ar (uq_usd quote) (uq_usd (qs_qrl quotes)) of None \<Rightarrow> Inl Unusable | Some milli \<Rightarrow>
         (let atS = min nowS (min (nvl (uq_atS (qs_qrl quotes)) nowS) (nvl (uq_atS quote) nowS)) in
          if nowS - atS > maxAgeS then Inl (Stale (nowS - atS))
          else (case map_of mids symbol of
                  Some (_, prevAt) \<Rightarrow> if atS < prevAt then Inl OlderThanCache else Inr (milli, atS)
                | None \<Rightarrow> Inr (milli, atS)))))"

fun apply_quotes :: "'u arith \<Rightarrow> int \<Rightarrow> int \<Rightarrow> 'u usd_quotes \<Rightarrow> asset_symbol list
    \<Rightarrow> (asset_symbol, int \<times> int) omap \<Rightarrow> (asset_symbol, int \<times> int) omap \<times> asset_symbol list" where
  "apply_quotes ar maxAgeS nowS quotes [] mids = (mids, [])"
| "apply_quotes ar maxAgeS nowS quotes (symbol # pending) mids =
     (case apply_symbol ar maxAgeS nowS quotes mids symbol of
        Inl _ \<Rightarrow> (let (mids', left) = apply_quotes ar maxAgeS nowS quotes pending mids in (mids', symbol # left))
      | Inr entry \<Rightarrow> apply_quotes ar maxAgeS nowS quotes pending (AList.update symbol entry mids))"

fun try_sources :: "'u arith \<Rightarrow> int \<Rightarrow> int \<Rightarrow> int \<Rightarrow> 'u price_source list \<Rightarrow> asset_symbol list \<Rightarrow> feed \<Rightarrow> feed" where
  "try_sources ar maxAgeS perSourceMs nowS [] pending f = f"
| "try_sources ar maxAgeS perSourceMs nowS (source # sources) pending f =
     (if pending = [] then f
      else if (case map_of (fd_lastAttemptAtS f) (ps_name source) of None \<Rightarrow> False
               | Some lastS \<Rightarrow> nowS - lastS < ps_minIntervalS source)
      then try_sources ar maxAgeS perSourceMs nowS sources pending f
      else
       (let f1 = f\<lparr>fd_lastAttemptAtS := AList.update (ps_name source) nowS (fd_lastAttemptAtS f)\<rparr> in
        case ps_fetch source pending perSourceMs of
          None \<Rightarrow> try_sources ar maxAgeS perSourceMs nowS sources pending f1
        | Some quotes \<Rightarrow>
            (let (mids', left) = apply_quotes ar maxAgeS nowS quotes pending (fd_mids f1)
             in try_sources ar maxAgeS perSourceMs nowS sources left (f1\<lparr>fd_mids := mids'\<rparr>))))"

definition maybeRefresh :: "'u arith \<Rightarrow> 'u feed_opts \<Rightarrow> int \<Rightarrow> feed \<Rightarrow> feed" where
  "maybeRefresh ar opts nowS f =
     (if fo_staticMilli opts \<noteq> None then f
      else if nowS - fd_lastFetchAtS f < fo_refreshS opts then f
      else try_sources ar (fo_maxAgeS opts)
        (max 1 (fo_timeoutMs opts div int (length (fo_sources opts)))) nowS (fo_sources opts) FEED_SYMBOLS
        (f\<lparr>fd_lastFetchAtS := nowS\<rparr>))"

definition current :: "'u feed_opts \<Rightarrow> feed \<Rightarrow> int \<Rightarrow> asset_symbol \<Rightarrow> int option" where
  "current opts f nowS asset =
     (case fo_staticMilli opts of
        Some m \<Rightarrow> if asset = ETH then Some m else None
      | None \<Rightarrow>
         (case map_of (fd_mids f) asset of None \<Rightarrow> None
          | Some (milli, atS) \<Rightarrow> if nowS - atS > fo_maxAgeS opts then None else Some milli))"


section \<open>Cache invariant\<close>

definition mids_ok :: "int \<Rightarrow> (asset_symbol, int \<times> int) omap \<Rightarrow> bool" where
  "mids_ok now mids \<longleftrightarrow> omap_wf mids \<and>
     (\<forall>(s, milli, atS)\<in>set mids. 0 < milli \<and> atS \<le> now \<and> s \<in> set FEED_SYMBOLS)"

text \<open>No entry is ever replaced by an older one.\<close>

definition newer :: "(asset_symbol, int \<times> int) omap \<Rightarrow> (asset_symbol, int \<times> int) omap \<Rightarrow> bool" where
  "newer mids mids' \<longleftrightarrow>
     (\<forall>s m a. map_of mids s = Some (m, a) \<longrightarrow> (\<exists>m' a'. map_of mids' s = Some (m', a') \<and> a \<le> a'))"

lemma newer_refl [simp]: "newer m m"
  by (auto simp: newer_def)

lemma newer_trans: "newer a b \<Longrightarrow> newer b c \<Longrightarrow> newer a c"
  unfolding newer_def by (meson order_trans)

lemma midMilliFromUsd_pos: "midMilliFromUsd ar b q = Some m \<Longrightarrow> 0 < m"
  by (auto simp: midMilliFromUsd_def Let_def split: if_splits)

lemma apply_symbol_Inr:
  assumes "apply_symbol ar maxAge now quotes mids s = Inr (milli, atS)"
  shows "0 < milli" "atS \<le> now" "now - atS \<le> maxAge"
    "map_of mids s = Some (m, a) \<Longrightarrow> a \<le> atS"
  using assms midMilliFromUsd_pos
  by (auto simp: apply_symbol_def Let_def split: option.splits if_splits)

lemma set_update: "(k, v) \<in> set (AList.update a b xs) \<Longrightarrow> (k, v) = (a, b) \<or> (k, v) \<in> set xs"
  by (induction xs) (auto split: if_splits)

lemma apply_quotes_ok:
  assumes "mids_ok now mids" and "set pending \<subseteq> set FEED_SYMBOLS"
    and "apply_quotes ar maxAge now quotes pending mids = (mids', left)"
  shows "mids_ok now mids' \<and> newer mids mids' \<and> set left \<subseteq> set pending"
  using assms
proof (induction ar maxAge now quotes pending mids arbitrary: mids' left rule: apply_quotes.induct)
  case (1 ar maxAge now quotes mids)
  then show ?case by simp
next
  case (2 ar maxAge now quotes s pending mids)
  show ?case
  proof (cases "apply_symbol ar maxAge now quotes mids s")
    case (Inl e)
    with 2 show ?thesis by (fastforce split: prod.splits)
  next
    case (Inr entry)
    obtain milli atS where e: "entry = (milli, atS)" by force
    note A = apply_symbol_Inr [OF Inr [unfolded e]]
    have "mids_ok now (AList.update s entry mids)"
      using 2(3,4) A e by (auto simp: mids_ok_def intro: omap_wf_update dest!: set_update)
    moreover have "newer mids (AList.update s entry mids)"
      using A(4) e by (auto simp: newer_def js_simps)
    ultimately show ?thesis using 2 Inr newer_trans by fastforce
  qed
qed

lemma try_sources_ok:
  assumes "mids_ok now (fd_mids f)" and "set pending \<subseteq> set FEED_SYMBOLS"
  shows "mids_ok now (fd_mids (try_sources ar maxAge ms now sources pending f)) \<and>
    newer (fd_mids f) (fd_mids (try_sources ar maxAge ms now sources pending f))"
  using assms
proof (induction ar maxAge ms now sources pending f rule: try_sources.induct)
  case (1 ar maxAge ms now pending f)
  then show ?case by simp
next
  case (2 ar maxAge ms now source sources pending f)
  let ?f1 = "f\<lparr>fd_lastAttemptAtS := AList.update (ps_name source) now (fd_lastAttemptAtS f)\<rparr>"
  consider "pending = []"
    | "pending \<noteq> []" "case map_of (fd_lastAttemptAtS f) (ps_name source) of None \<Rightarrow> False
         | Some lastS \<Rightarrow> now - lastS < ps_minIntervalS source"
    | "pending \<noteq> []" "\<not> (case map_of (fd_lastAttemptAtS f) (ps_name source) of None \<Rightarrow> False
         | Some lastS \<Rightarrow> now - lastS < ps_minIntervalS source)" by blast
  then show ?case
  proof cases
    case 1
    with 2 show ?thesis by simp
  next
    case 2
    with "2.IH"(1) "2.prems" show ?thesis by simp
  next
    case 3
    show ?thesis
    proof (cases "ps_fetch source pending ms")
      case None
      with 3 "2.IH"(2) "2.prems" show ?thesis by (simp add: Let_def)
    next
      case (Some quotes)
      obtain mids' left where a: "apply_quotes ar maxAge now quotes pending (fd_mids f) = (mids', left)" by force
      note A = apply_quotes_ok [OF "2.prems" a]
      from "2.IH"(3) [OF 3(1,2) refl Some] a A "2.prems"(2) have
        "mids_ok now (fd_mids (try_sources ar maxAge ms now sources left (?f1\<lparr>fd_mids := mids'\<rparr>))) \<and>
         newer mids' (fd_mids (try_sources ar maxAge ms now sources left (?f1\<lparr>fd_mids := mids'\<rparr>)))" by auto
      with 3 Some a A newer_trans show ?thesis by (auto simp: Let_def)
    qed
  qed
qed

inductive feed_reach :: "'u arith \<Rightarrow> 'u feed_opts \<Rightarrow> int \<Rightarrow> feed \<Rightarrow> bool" for ar opts where
  feed_new: "feed_reach ar opts now new_feed"
| feed_refresh: "feed_reach ar opts t0 f \<Longrightarrow> t0 \<le> now \<Longrightarrow> feed_reach ar opts now (maybeRefresh ar opts now f)"

lemma mids_ok_later: "mids_ok t m \<Longrightarrow> t \<le> u \<Longrightarrow> mids_ok u m"
  by (fastforce simp: mids_ok_def)

lemma maybeRefresh_ok:
  assumes "mids_ok now (fd_mids f)"
  shows "mids_ok now (fd_mids (maybeRefresh ar opts now f)) \<and> newer (fd_mids f) (fd_mids (maybeRefresh ar opts now f))"
  using try_sources_ok [of now "f\<lparr>fd_lastFetchAtS := now\<rparr>" FEED_SYMBOLS ar "fo_maxAgeS opts"] assms
  by (simp add: maybeRefresh_def)

lemma feed_reach_ok: "feed_reach ar opts now f \<Longrightarrow> mids_ok now (fd_mids f)"
proof (induction rule: feed_reach.induct)
  case (feed_new now)
  show ?case by (simp add: mids_ok_def new_feed_def)
next
  case (feed_refresh t f now)
  then have "mids_ok now (fd_mids f)" by (blast intro: mids_ok_later)
  then show ?case by (rule maybeRefresh_ok [THEN conjunct1])
qed

text \<open>
  the maker never quotes blind or stale. In every reachable state of a live feed, a quoted mid is
  positive, is a feed-backed pair, and rests on upstream data at most the configured age old; and a
  refresh never replaces a cached mid by one with an older timestamp, so a source serving stale data
  cannot extend the bound.
\<close>

lemma feed_never_stale:
  assumes "feed_reach ar opts t0 f" and "t0 \<le> now" and "fo_staticMilli opts = None"
  shows "(\<forall>asset m. current opts f now asset = Some m \<longrightarrow>
      0 < m \<and> priceIdsOf asset \<noteq> None \<and>
      (\<exists>atS. map_of (fd_mids f) asset = Some (m, atS) \<and> atS \<le> now \<and> now - atS \<le> fo_maxAgeS opts)) \<and>
    newer (fd_mids f) (fd_mids (maybeRefresh ar opts now f))"
proof -
  have ok: "mids_ok now (fd_mids f)" using feed_reach_ok [OF assms(1)] assms(2) by (rule mids_ok_later)
  have "0 < m \<and> priceIdsOf asset \<noteq> None \<and>
      (\<exists>atS. map_of (fd_mids f) asset = Some (m, atS) \<and> atS \<le> now \<and> now - atS \<le> fo_maxAgeS opts)"
    if c: "current opts f now asset = Some m" for asset m
  proof -
    from c assms(3) obtain atS where a: "map_of (fd_mids f) asset = Some (m, atS)" "now - atS \<le> fo_maxAgeS opts"
      by (auto simp: current_def split: option.splits if_splits)
    then have "(asset, m, atS) \<in> set (fd_mids f)" by (auto dest: map_of_SomeD)
    with ok have "0 < m \<and> atS \<le> now \<and> asset \<in> set FEED_SYMBOLS" by (auto simp: mids_ok_def)
    with a show ?thesis by (auto simp: FEED_SYMBOLS_def)
  qed
  with maybeRefresh_ok [OF ok, of ar opts] show ?thesis by blast
qed

lemma try_sources_attempts:
  assumes "map_of (fd_lastAttemptAtS f) n = Some t" and "\<forall>s\<in>set sources. ps_name s = n \<longrightarrow> iv \<le> ps_minIntervalS s"
    and "t \<le> now" and "0 < iv"
  shows "\<exists>t'. map_of (fd_lastAttemptAtS (try_sources ar maxAge ms now sources pending f)) n = Some t' \<and>
    (t' = t \<or> (t' = now \<and> iv \<le> now - t))"
  using assms
proof (induction ar maxAge ms now sources pending f arbitrary: t rule: try_sources.induct)
  case (1 ar maxAge ms now pending f)
  then show ?case by simp
next
  case (2 ar maxAge ms now source sources pending f)
  let ?f1 = "f\<lparr>fd_lastAttemptAtS := AList.update (ps_name source) now (fd_lastAttemptAtS f)\<rparr>"
  have step: "\<exists>t'. map_of (fd_lastAttemptAtS (try_sources ar maxAge ms now (source # sources) pending f)) n = Some t' \<and>
      (t' = t \<or> t' = now \<and> iv \<le> now - t)"
    if run: "pending \<noteq> []" "\<not> (case map_of (fd_lastAttemptAtS f) (ps_name source) of None \<Rightarrow> False
         | Some lastS \<Rightarrow> now - lastS < ps_minIntervalS source)"
  proof -
    have due: "ps_name source = n \<Longrightarrow> iv \<le> now - t" using run(2) "2.prems"(1,2) by auto
    have g: "\<exists>u. map_of (fd_lastAttemptAtS ?f1) n = Some u \<and> u \<le> now \<and> (u = t \<or> u = now \<and> iv \<le> now - t)"
      using "2.prems" due by (auto simp: js_simps)
    then obtain u where u: "map_of (fd_lastAttemptAtS ?f1) n = Some u" "u \<le> now" "u = t \<or> u = now \<and> iv \<le> now - t"
      by blast
    show ?thesis
    proof (cases "ps_fetch source pending ms")
      case None
      from "2.IH"(2) [OF run refl None u(1)] "2.prems" u run None show ?thesis by (auto simp: Let_def)
    next
      case (Some quotes)
      obtain mids' left where a: "apply_quotes ar maxAge now quotes pending (fd_mids f) = (mids', left)" by force
      from "2.IH"(3) [OF run refl Some, of "(mids', left)" mids' left u] a "2.prems" u run Some
      show ?thesis by (auto simp: Let_def)
    qed
  qed
  show ?case
  proof (cases "pending \<noteq> [] \<and> \<not> (case map_of (fd_lastAttemptAtS f) (ps_name source) of None \<Rightarrow> False
         | Some lastS \<Rightarrow> now - lastS < ps_minIntervalS source)")
    case True
    with step show ?thesis by blast
  next
    case False
    with "2.IH"(1) "2.prems" show ?thesis by auto
  qed
qed

text \<open>
  A rate-limited source is never called early. If a source was last attempted at time \<open>t\<close>, a
  refresh either leaves that attempt time alone or attempts the source again only when its minimum
  interval has passed, however often refreshes run and whatever the other sources answer.
\<close>

lemma fallback_rate_limited:
  assumes "map_of (fd_lastAttemptAtS f) n = Some t" and "t \<le> now" and "0 < iv"
    and "\<forall>s\<in>set (fo_sources opts). ps_name s = n \<longrightarrow> iv \<le> ps_minIntervalS s"
  shows "\<exists>t'. map_of (fd_lastAttemptAtS (maybeRefresh ar opts now f)) n = Some t' \<and>
    (t' = t \<or> (t' = now \<and> iv \<le> now - t))"
  using try_sources_attempts [of "f\<lparr>fd_lastFetchAtS := now\<rparr>" n t "fo_sources opts" iv now] assms
  by (simp add: maybeRefresh_def)

end
