(* ===== verification/Order_Signing.thy ===== *)
theory Order_Signing
  imports Protocol_Types
begin

text \<open>
  Verification of the signed protocol artifacts, \<^verbatim>\<open>server/src/order-signing.ts\<close>: the exact
  shape checks on untrusted JSON, the canonical bodies, and the acceptance rules of an order, a fill
  intent, a fill and a cancel. Cryptography is library code and a parameter (\<open>crypto\<close>): the
  ML-DSA signature check over a payload, SHA-256 based digests and commitments. A payload is the
  primary type with the fields the canonical message is built from; the fixed renderings of those
  fields (account prefixes, decimal timestamps) and the deployment constants that every message
  carries are not repeated. The lemmas give the bounds every accepted artifact satisfies.
\<close>

section \<open>Errors and shapes\<close>

datatype api_code = FederationDependency | TransientCapacity

datatype store_error =
    ApiError nat string "api_code option" bool
  | PlainError string

type_synonym 'a api = "(store_error, 'a) result"

definition api_err :: "nat \<Rightarrow> string \<Rightarrow> 'a api" where
  "api_err status message = Inl (ApiError status message None False)"

definition api_code_err :: "nat \<Rightarrow> string \<Rightarrow> api_code \<Rightarrow> 'a api" where
  "api_code_err status message code = Inl (ApiError status message (Some code) False)"

definition shed :: "'a api \<Rightarrow> 'a api" where
  "shed r = (case r of Inl (ApiError s m c _) \<Rightarrow> Inl (ApiError s m c True) | _ \<Rightarrow> r)"

definition invalid :: "string \<Rightarrow> 'a api" where
  "invalid message = api_err 400 message"

type_synonym jobj = "(string \<times> json) list"

definition objectValue :: "json option \<Rightarrow> string \<Rightarrow> jobj api" where
  "objectValue raw field =
     (case raw of Some (JObj obj) \<Rightarrow> Inr obj | _ \<Rightarrow> invalid (field @ '' must be an object''))"

definition allowedObject :: "json option \<Rightarrow> string \<Rightarrow> string list \<Rightarrow> jobj api" where
  "allowedObject raw field keys = js_bind (objectValue raw field) (\<lambda>obj.
     case find (\<lambda>k. k \<notin> set keys) (map fst obj) of
       Some key \<Rightarrow> invalid (field @ ''.'' @ key @ '' is not supported'')
     | None \<Rightarrow> Inr obj)"

definition exactObject :: "json option \<Rightarrow> string \<Rightarrow> string list \<Rightarrow> jobj api" where
  "exactObject raw field keys = js_bind (allowedObject raw field keys) (\<lambda>obj.
     case find (\<lambda>k. k \<notin> fst ` set obj) keys of
       Some key \<Rightarrow> invalid (field @ ''.'' @ key @ '' is required'')
     | None \<Rightarrow> Inr obj)"

definition exactString :: "json option \<Rightarrow> string \<Rightarrow> (string \<Rightarrow> bool) \<Rightarrow> string api" where
  "exactString raw field pattern =
     (case raw of Some (JStr s) \<Rightarrow> if pattern s then Inr s else invalid (field @ '' is invalid'')
      | _ \<Rightarrow> invalid (field @ '' is invalid''))"

definition exactInteger :: "json option \<Rightarrow> string \<Rightarrow> int api" where
  "exactInteger raw field =
     (case raw of Some (JInt n) \<Rightarrow>
        if isSafeInteger n \<and> 0 \<le> n then Inr n else invalid (field @ '' must be a non-negative safe integer'')
      | _ \<Rightarrow> invalid (field @ '' must be a non-negative safe integer''))"

definition exactUint8 :: "json option \<Rightarrow> string \<Rightarrow> int api" where
  "exactUint8 raw field = js_bind (exactInteger raw field) (\<lambda>value.
     throw_if (value > 255) (ApiError 400 (field @ '' must fit uint8'') None False) (Inr value))"

definition ETH_ADDR_LOWER_RE :: "string \<Rightarrow> bool" where
  "ETH_ADDR_LOWER_RE s = matches ''0x'' is_hex_lower 40 s"

definition QRL_ADDR_LOWER_RE :: "string \<Rightarrow> bool" where
  "QRL_ADDR_LOWER_RE s = matches ''Q'' is_hex_lower 128 s"

definition BYTES32_RE :: "string \<Rightarrow> bool" where
  "BYTES32_RE s = matches ''0x'' is_hex_lower 64 s"

definition HASHLOCK_RE :: "string \<Rightarrow> bool" where
  "HASHLOCK_RE s = BYTES32_RE s"

definition CANONICAL_AMOUNT_RE :: "string \<Rightarrow> bool" where
  "CANONICAL_AMOUNT_RE s \<longleftrightarrow> s = ''0'' \<or>
     (1 \<le> length s \<and> length s \<le> 30 \<and> list_all is_digit s \<and> hd s \<noteq> CHR ''0'')"

definition SIGNATURE_RE :: "string \<Rightarrow> bool" where
  "SIGNATURE_RE s = matches ''0x'' is_hex_lower (2 * 4627) s"

definition PUBLIC_KEY_RE :: "string \<Rightarrow> bool" where
  "PUBLIC_KEY_RE s = matches ''0x'' is_hex_lower (2 * 2592) s"

definition DESCRIPTOR_RE :: "string \<Rightarrow> bool" where
  "DESCRIPTOR_RE s = matches ''0x'' is_hex_lower 6 s"


section \<open>Limits\<close>

definition MAX_ORDER_LIFETIME_S :: int where "MAX_ORDER_LIFETIME_S = 48 * 3600"
definition MAX_FILL_INTENT_LIFETIME_S :: int where "MAX_FILL_INTENT_LIFETIME_S = 120"
definition MIN_FILL_RESPONSE_S :: int where "MIN_FILL_RESPONSE_S = 60"
definition MAX_FILL_RESPONSE_S :: int where "MAX_FILL_RESPONSE_S = 900"
definition MIN_RESPONDER_RUNWAY_AFTER_RESPONSE_S :: int where "MIN_RESPONDER_RUNWAY_AFTER_RESPONSE_S = 600"
definition MIN_PRELOCK_RUNWAY_S :: int where "MIN_PRELOCK_RUNWAY_S = 9000"
definition MAX_RESPONDER_WINDOW_S :: int where "MAX_RESPONDER_WINDOW_S = 2 * 60 * 60"
definition MAX_INITIATOR_WINDOW_S :: int where "MAX_INITIATOR_WINDOW_S = 4 * 60 * 60"
definition MIN_PRELOCK_LISTING_WINDOW_S :: int where "MIN_PRELOCK_LISTING_WINDOW_S = 3 * 60 * 60"
definition MAX_PRELOCK_LISTING_WINDOW_S :: int where "MAX_PRELOCK_LISTING_WINDOW_S = 72 * 60 * 60"
definition MAX_CLOCK_SKEW_S :: int where "MAX_CLOCK_SKEW_S = 5 * 60"
definition MIN_REMAINING_LIFETIME_S :: int where "MIN_REMAINING_LIFETIME_S = 60"

definition ZERO32 :: string where
  "ZERO32 = ''0x'' @ replicate 64 (CHR ''0'')"


section \<open>Payloads and cryptography\<close>

record fill_terms =
  ft_body :: fill_body
  ft_orderNonce :: string
  ft_fillNonce :: string
  ft_issuedAt :: int
  ft_respondBy :: int

datatype payload =
    OrderV2 order_body int int string string string
  | FillIntentV2 fill_intent_body string int int
  | FillV2 fill_terms
  | CancelV2 cancel_body string string int

record crypto =
  cr_deployed :: bool
  cr_verify :: "string \<Rightarrow> protocol_auth \<Rightarrow> payload \<Rightarrow> bool"
  cr_digest :: "payload \<Rightarrow> string"
  cr_orderId :: "string \<Rightarrow> string \<Rightarrow> string"
  cr_release :: "string \<Rightarrow> string \<Rightarrow> string \<Rightarrow> string"
  cr_makerCommitment :: "string \<Rightarrow> string"
  cr_shareCommitment :: "string \<Rightarrow> string"
  cr_sha256Hex :: "string \<Rightarrow> string"

record verified_order =
  vo_orderId :: string
  vo_orderDigest :: string
  vo_order :: order_body
  vo_auth :: maker_order_auth

record verified_intent =
  vi_intentDigest :: string
  vi_intent :: fill_intent_body
  vi_auth :: protocol_auth

record verified_fill =
  vf_fillDigest :: string
  vf_fill :: fill_body
  vf_auth :: protocol_auth

record verified_cancel =
  vc_cancelDigest :: string
  vc_cancel :: cancel_body
  vc_auth :: protocol_auth

definition base_auth :: "maker_order_auth \<Rightarrow> protocol_auth" where
  "base_auth a = \<lparr>pa_issuedAt = pa_issuedAt a, pa_expiresAt = pa_expiresAt a, pa_nonce = pa_nonce a,
     pa_signature = pa_signature a, pa_publicKey = pa_publicKey a, pa_descriptor = pa_descriptor a\<rparr>"

definition verifyProof :: "crypto \<Rightarrow> string \<Rightarrow> protocol_auth \<Rightarrow> payload \<Rightarrow> bool api" where
  "verifyProof cr signer auth payload =
     throw_if (\<not> cr_deployed cr) (PlainError ''Portable V2 requires a qualified v3 HTLC deployment'')
       (Inr (cr_verify cr signer auth payload))"


section \<open>Canonical bodies\<close>

definition PROTOCOL_AUTH_KEYS :: "string list" where
  "PROTOCOL_AUTH_KEYS = [''version'', ''scheme'', ''issuedAt'', ''expiresAt'', ''nonce'', ''signature'',
     ''publicKey'', ''descriptor'']"

definition MAKER_ORDER_AUTH_KEYS :: "string list" where
  "MAKER_ORDER_AUTH_KEYS = PROTOCOL_AUTH_KEYS @ [''makerTokenCommitment'', ''shareTokenCommitment'']"

definition parseAuth_fields :: "jobj \<Rightarrow> protocol_auth api" where
  "parseAuth_fields auth =
     (if map_of auth ''version'' \<noteq> Some (JStr ''2'') then invalid ''auth.version must be 2''
      else if map_of auth ''scheme'' \<noteq> Some (JStr ''qrl-sign-message-v2'')
        then invalid ''auth.scheme is unsupported''
      else
       js_bind (exactString (map_of auth ''descriptor'') ''auth.descriptor'' DESCRIPTOR_RE) (\<lambda>descriptor.
       js_bind (exactInteger (map_of auth ''issuedAt'') ''auth.issuedAt'') (\<lambda>issuedAt.
       js_bind (exactInteger (map_of auth ''expiresAt'') ''auth.expiresAt'') (\<lambda>expiresAt.
       js_bind (exactString (map_of auth ''nonce'') ''auth.nonce'' BYTES32_RE) (\<lambda>nonce.
       js_bind (exactString (map_of auth ''signature'') ''auth.signature'' SIGNATURE_RE) (\<lambda>signature.
       js_bind (exactString (map_of auth ''publicKey'') ''auth.publicKey'' PUBLIC_KEY_RE) (\<lambda>publicKey.
         Inr \<lparr>pa_issuedAt = issuedAt, pa_expiresAt = expiresAt, pa_nonce = nonce, pa_signature = signature,
           pa_publicKey = publicKey, pa_descriptor = descriptor\<rparr>)))))))"

definition parseAuth :: "json \<Rightarrow> protocol_auth api" where
  "parseAuth raw = js_bind (exactObject (Some raw) ''auth'' PROTOCOL_AUTH_KEYS) parseAuth_fields"

definition parseMakerOrderAuth :: "json \<Rightarrow> maker_order_auth api" where
  "parseMakerOrderAuth raw =
     js_bind (exactObject (Some raw) ''auth'' MAKER_ORDER_AUTH_KEYS) (\<lambda>exact.
     js_bind (parseAuth_fields exact) (\<lambda>a.
     js_bind (exactString (map_of exact ''makerTokenCommitment'') ''auth.makerTokenCommitment'' BYTES32_RE) (\<lambda>mk.
     js_bind (exactString (map_of exact ''shareTokenCommitment'') ''auth.shareTokenCommitment'' BYTES32_RE) (\<lambda>sh.
       Inr \<lparr>pa_issuedAt = pa_issuedAt a, pa_expiresAt = pa_expiresAt a, pa_nonce = pa_nonce a,
         pa_signature = pa_signature a, pa_publicKey = pa_publicKey a, pa_descriptor = pa_descriptor a,
         pa_makerTokenCommitment = mk, pa_shareTokenCommitment = sh\<rparr>))))"

definition parse_direction :: "json option \<Rightarrow> direction option" where
  "parse_direction raw = (case jstr raw of Some s \<Rightarrow>
     if s = ''eth->qrl'' then Some EthToQrl else if s = ''qrl->eth'' then Some QrlToEth else None | None \<Rightarrow> None)"

definition parse_asset :: "json option \<Rightarrow> asset_symbol option" where
  "parse_asset raw = (case jstr raw of Some s \<Rightarrow> map_option fst (find (\<lambda>p. snd p = s) ASSET_SYMBOLS) | None \<Rightarrow> None)"

definition parse_visibility :: "json option \<Rightarrow> visibility option" where
  "parse_visibility raw = (case jstr raw of Some s \<Rightarrow>
     if s = ''public'' then Some Public else if s = ''private'' then Some Private else None | None \<Rightarrow> None)"

definition opt_string :: "json option \<Rightarrow> string \<Rightarrow> (string \<Rightarrow> bool) \<Rightarrow> string option api" where
  "opt_string raw field pattern =
     (case raw of None \<Rightarrow> Inr None | Some _ \<Rightarrow> js_bind (exactString raw field pattern) (\<lambda>s. Inr (Some s)))"

definition canonical_takers :: "jobj \<Rightarrow> visibility \<Rightarrow> (string option \<times> string option) api" where
  "canonical_takers input visibility =
     (if visibility = Private then
        js_bind (opt_string (map_of input ''allowedTakerEth'') ''order.allowedTakerEth'' ETH_ADDR_LOWER_RE) (\<lambda>e.
        js_bind (opt_string (map_of input ''allowedTakerQrl'') ''order.allowedTakerQrl'' QRL_ADDR_LOWER_RE) (\<lambda>q.
          Inr (e, q)))
      else if map_of input ''allowedTakerEth'' \<noteq> None \<or> map_of input ''allowedTakerQrl'' \<noteq> None
        then invalid ''public signed orders cannot restrict the taker''
      else Inr (None, None))"

definition canonical_prelock :: "jobj \<Rightarrow> prelock_terms option api" where
  "canonical_prelock input =
     (case map_of input ''prelock'' of None \<Rightarrow> Inr None | Some raw \<Rightarrow>
        js_bind (exactObject (Some raw) ''order.prelock'' [''hashlock'', ''initiatorTimeout'']) (\<lambda>p.
        js_bind (exactString (map_of p ''hashlock'') ''order.prelock.hashlock'' HASHLOCK_RE) (\<lambda>h.
        js_bind (exactInteger (map_of p ''initiatorTimeout'') ''order.prelock.initiatorTimeout'') (\<lambda>t.
          Inr (Some \<lparr>pl_hashlock = h, pl_initiatorTimeout = t\<rparr>)))))"

definition canonicalOrderBody :: "json \<Rightarrow> order_body api" where
  "canonicalOrderBody raw =
     js_bind (allowedObject (Some raw) ''order'' [''direction'', ''asset'', ''fromAmount'', ''toAmount'',
        ''makerEthAccount'', ''makerQrlAccount'', ''visibility'', ''allowedTakerEth'', ''allowedTakerQrl'',
        ''prelock'']) (\<lambda>input.
     case parse_direction (map_of input ''direction'') of None \<Rightarrow> invalid ''order.direction is invalid'' | Some dir \<Rightarrow>
     case parse_asset (map_of input ''asset'') of None \<Rightarrow> invalid ''order.asset is invalid'' | Some asset \<Rightarrow>
     js_bind (exactString (map_of input ''fromAmount'') ''order.fromAmount'' CANONICAL_AMOUNT_RE) (\<lambda>fa.
     js_bind (exactString (map_of input ''toAmount'') ''order.toAmount'' CANONICAL_AMOUNT_RE) (\<lambda>ta.
     js_bind (exactString (map_of input ''makerEthAccount'') ''order.makerEthAccount'' ETH_ADDR_LOWER_RE) (\<lambda>me.
     js_bind (exactString (map_of input ''makerQrlAccount'') ''order.makerQrlAccount'' QRL_ADDR_LOWER_RE) (\<lambda>mq.
     case parse_visibility (map_of input ''visibility'') of None \<Rightarrow> invalid ''order.visibility is invalid'' | Some v \<Rightarrow>
     js_bind (canonical_takers input v) (\<lambda>(te, tq).
     js_bind (canonical_prelock input) (\<lambda>pl.
       Inr \<lparr>ob_direction = dir, ob_asset = asset, ob_fromAmount = fa, ob_toAmount = ta, ob_makerEthAccount = me,
         ob_makerQrlAccount = mq, ob_visibility = v, ob_allowedTakerEth = te, ob_allowedTakerQrl = tq,
         ob_prelock = pl\<rparr>)))))))"

definition canonicalFillIntentBody :: "json \<Rightarrow> fill_intent_body api" where
  "canonicalFillIntentBody raw =
     js_bind (exactObject (Some raw) ''intent'' [''orderDigest'', ''takerEthAccount'', ''takerQrlAccount'',
        ''releaseCommitment'']) (\<lambda>body.
     js_bind (exactString (map_of body ''orderDigest'') ''intent.orderDigest'' BYTES32_RE) (\<lambda>d.
     js_bind (exactString (map_of body ''takerEthAccount'') ''intent.takerEthAccount'' ETH_ADDR_LOWER_RE) (\<lambda>e.
     js_bind (exactString (map_of body ''takerQrlAccount'') ''intent.takerQrlAccount'' QRL_ADDR_LOWER_RE) (\<lambda>q.
     js_bind (exactString (map_of body ''releaseCommitment'') ''intent.releaseCommitment'' BYTES32_RE) (\<lambda>r.
       Inr \<lparr>fi_orderDigest = d, fi_takerEthAccount = e, fi_takerQrlAccount = q, fi_releaseCommitment = r\<rparr>)))))"

definition canonicalFillBody :: "json \<Rightarrow> fill_body api" where
  "canonicalFillBody raw =
     js_bind (exactObject (Some raw) ''fill'' [''orderDigest'', ''intentDigest'', ''takerEthAccount'',
        ''takerQrlAccount'', ''releaseCommitment'', ''hashlock'', ''initiatorTimeout'', ''responderTimeout'']) (\<lambda>body.
     js_bind (exactString (map_of body ''hashlock'') ''fill.hashlock'' HASHLOCK_RE) (\<lambda>h.
     if h = ZERO32 then invalid ''fill.hashlock cannot be zero'' else
     js_bind (exactString (map_of body ''orderDigest'') ''fill.orderDigest'' BYTES32_RE) (\<lambda>d.
     js_bind (exactString (map_of body ''intentDigest'') ''fill.intentDigest'' BYTES32_RE) (\<lambda>i.
     js_bind (exactString (map_of body ''takerEthAccount'') ''fill.takerEthAccount'' ETH_ADDR_LOWER_RE) (\<lambda>e.
     js_bind (exactString (map_of body ''takerQrlAccount'') ''fill.takerQrlAccount'' QRL_ADDR_LOWER_RE) (\<lambda>q.
     js_bind (exactString (map_of body ''releaseCommitment'') ''fill.releaseCommitment'' BYTES32_RE) (\<lambda>r.
     js_bind (exactInteger (map_of body ''initiatorTimeout'') ''fill.initiatorTimeout'') (\<lambda>t1.
     js_bind (exactInteger (map_of body ''responderTimeout'') ''fill.responderTimeout'') (\<lambda>t2.
       Inr \<lparr>fb_orderDigest = d, fb_intentDigest = i, fb_takerEthAccount = e, fb_takerQrlAccount = q,
         fb_releaseCommitment = r, fb_hashlock = h, fb_initiatorTimeout = t1, fb_responderTimeout = t2\<rparr>)))))))))"

definition canonicalCancelBody :: "json \<Rightarrow> cancel_body api" where
  "canonicalCancelBody raw =
     js_bind (exactObject (Some raw) ''cancel'' [''orderDigest'', ''reasonCode'']) (\<lambda>body.
     js_bind (exactString (map_of body ''orderDigest'') ''cancel.orderDigest'' BYTES32_RE) (\<lambda>d.
     js_bind (exactUint8 (map_of body ''reasonCode'') ''cancel.reasonCode'') (\<lambda>rc.
       Inr \<lparr>cb_orderDigest = d, cb_reasonCode = rc\<rparr>)))"


section \<open>Acceptance rules\<close>

definition reject_if :: "bool \<Rightarrow> string \<Rightarrow> 'a api \<Rightarrow> 'a api" where
  "reject_if b message k = throw_if b (ApiError 400 message None False) k"

definition order_payload :: "order_body \<Rightarrow> maker_order_auth \<Rightarrow> payload" where
  "order_payload body auth = OrderV2 body (pa_issuedAt auth) (pa_expiresAt auth) (pa_nonce auth)
     (pa_makerTokenCommitment auth) (pa_shareTokenCommitment auth)"

definition deriveOrderV1Id :: "crypto \<Rightarrow> string \<Rightarrow> string \<Rightarrow> string api" where
  "deriveOrderV1Id cr makerQrlAccount nonce =
     reject_if (\<not> QRL_ADDR_LOWER_RE makerQrlAccount \<or> \<not> BYTES32_RE nonce) ''OrderV1 identity is invalid''
       (Inr (cr_orderId cr makerQrlAccount nonce))"

definition prelock_window_bad :: "order_body \<Rightarrow> maker_order_auth \<Rightarrow> bool" where
  "prelock_window_bad body auth \<longleftrightarrow> (case ob_prelock body of None \<Rightarrow> False | Some p \<Rightarrow>
     pl_initiatorTimeout p - pa_issuedAt auth < MIN_PRELOCK_LISTING_WINDOW_S \<or>
     pl_initiatorTimeout p - pa_issuedAt auth > MAX_PRELOCK_LISTING_WINDOW_S)"

definition verifyOrderV1 :: "crypto \<Rightarrow> int \<Rightarrow> bool \<Rightarrow> json \<Rightarrow> json \<Rightarrow> verified_order api" where
  "verifyOrderV1 cr now allowExpired rawOrder rawAuth =
     js_bind (canonicalOrderBody rawOrder) (\<lambda>body.
     js_bind (parseMakerOrderAuth rawAuth) (\<lambda>auth.
     reject_if (pa_expiresAt auth \<le> pa_issuedAt auth) ''signed order expiry must follow issuance''
    (reject_if (pa_expiresAt auth - pa_issuedAt auth > MAX_ORDER_LIFETIME_S) ''signed order lifetime exceeds 48 hours''
    (reject_if (pa_issuedAt auth > now + MAX_CLOCK_SKEW_S) ''signed order issuance is in the future''
    (reject_if (\<not> allowExpired \<and> pa_expiresAt auth < now + MIN_REMAINING_LIFETIME_S)
       ''signed order is expired or too close to expiry''
    (reject_if (case ob_prelock body of None \<Rightarrow> False | Some p \<Rightarrow> pa_expiresAt auth > pl_initiatorTimeout p)
       ''signed order expiry exceeds the prelock timeout''
    (reject_if (prelock_window_bad body auth) ''signed prelock timeout is outside the listing window''
    (reject_if (pa_makerTokenCommitment auth = ZERO32) ''auth.makerTokenCommitment cannot be zero''
    (reject_if ((ob_visibility body = Public) = (pa_shareTokenCommitment auth \<noteq> ZERO32))
       ''auth.shareTokenCommitment does not match order visibility''
    (js_bind (verifyProof cr (ob_makerQrlAccount body) (base_auth auth) (order_payload body auth)) (\<lambda>ok.
     throw_if (\<not> ok) (ApiError 401 ''maker signature is invalid'' None False)
    (js_bind (deriveOrderV1Id cr (ob_makerQrlAccount body) (pa_nonce auth)) (\<lambda>oid.
       Inr \<lparr>vo_orderId = oid, vo_orderDigest = cr_digest cr (order_payload body auth),
         vo_order = body, vo_auth = auth\<rparr>)))))))))))))"

definition assertInitialAcceptance :: "protocol_auth \<Rightarrow> int \<Rightarrow> string \<Rightarrow> bool \<Rightarrow> 'a api \<Rightarrow> 'a api" where
  "assertInitialAcceptance auth now artifact allowExpired k =
     reject_if (pa_issuedAt auth > now + MAX_CLOCK_SKEW_S) (artifact @ '' issuance is in the future'')
    (reject_if (\<not> allowExpired \<and> pa_expiresAt auth \<le> now) (artifact @ '' is expired'') k)"

definition assertOrderValidity :: "verified_order \<Rightarrow> int \<Rightarrow> int \<Rightarrow> bool \<Rightarrow> 'a api \<Rightarrow> 'a api" where
  "assertOrderValidity order artifactIssuedAt now allowExpired k =
     reject_if (\<not> allowExpired \<and> now \<ge> pa_expiresAt (vo_auth order)) ''referenced order is expired''
    (reject_if (artifactIssuedAt < pa_issuedAt (vo_auth order) \<or> artifactIssuedAt \<ge> pa_expiresAt (vo_auth order))
       ''artifact issuance falls outside the order validity window'' k)"

definition assertOrderReference :: "verified_order \<Rightarrow> string \<Rightarrow> 'a api \<Rightarrow> 'a api" where
  "assertOrderReference order digest k =
     reject_if (digest \<noteq> vo_orderDigest order) ''orderDigest does not match the signed order'' k"

definition assertAllowedTaker :: "verified_order \<Rightarrow> string \<Rightarrow> string \<Rightarrow> 'a api \<Rightarrow> 'a api" where
  "assertAllowedTaker order eth qrl k =
     reject_if (nvl (ob_allowedTakerEth (vo_order order)) eth \<noteq> eth)
       ''taker ETH account is not allowed by the signed order''
    (reject_if (nvl (ob_allowedTakerQrl (vo_order order)) qrl \<noteq> qrl)
       ''taker QRL account is not allowed by the signed order'' k)"

definition intent_payload :: "fill_intent_body \<Rightarrow> protocol_auth \<Rightarrow> payload" where
  "intent_payload intent auth = FillIntentV2 intent (pa_nonce auth) (pa_issuedAt auth) (pa_expiresAt auth)"

definition verifyFillIntentV1 :: "crypto \<Rightarrow> int \<Rightarrow> bool \<Rightarrow> json \<Rightarrow> json \<Rightarrow> verified_order \<Rightarrow> verified_intent api" where
  "verifyFillIntentV1 cr now allowExpired rawIntent rawAuth order =
     js_bind (canonicalFillIntentBody rawIntent) (\<lambda>intent.
     js_bind (parseAuth rawAuth) (\<lambda>auth.
     assertOrderReference order (fi_orderDigest intent)
    (assertOrderValidity order (pa_issuedAt auth) now allowExpired
    (reject_if (pa_expiresAt auth \<le> pa_issuedAt auth) ''fill intent expiry must follow issuance''
    (reject_if (pa_expiresAt auth - pa_issuedAt auth > MAX_FILL_INTENT_LIFETIME_S)
       ''fill intent lifetime exceeds 120 seconds''
    (reject_if (pa_expiresAt auth > pa_expiresAt (vo_auth order))
       ''fill intent expiry exceeds the order validity window''
    (assertInitialAcceptance auth now ''fill intent'' allowExpired
    (assertAllowedTaker order (fi_takerEthAccount intent) (fi_takerQrlAccount intent)
    (js_bind (verifyProof cr (fi_takerQrlAccount intent) auth (intent_payload intent auth)) (\<lambda>ok.
     throw_if (\<not> ok) (ApiError 401 ''taker signature is invalid'' None False)
       (Inr \<lparr>vi_intentDigest = cr_digest cr (intent_payload intent auth), vi_intent = intent,
          vi_auth = auth\<rparr>)))))))))))"

definition fill_payload :: "fill_body \<Rightarrow> protocol_auth \<Rightarrow> verified_order \<Rightarrow> payload" where
  "fill_payload fill auth order = FillV2 \<lparr>ft_body = fill, ft_orderNonce = pa_nonce (vo_auth order),
     ft_fillNonce = pa_nonce auth, ft_issuedAt = pa_issuedAt auth, ft_respondBy = pa_expiresAt auth\<rparr>"

definition fill_timeouts :: "verified_order \<Rightarrow> fill_body \<Rightarrow> protocol_auth \<Rightarrow> int \<Rightarrow> bool \<Rightarrow> 'a api \<Rightarrow> 'a api" where
  "fill_timeouts order fill auth now allowExpired k =
     reject_if (fb_responderTimeout fill - pa_expiresAt auth \<le> MIN_RESPONDER_RUNWAY_AFTER_RESPONSE_S)
       ''responder timeout must be more than 600 seconds after respondBy''
    (let initiatorWindow = fb_initiatorTimeout fill - pa_issuedAt auth;
         responderWindow = fb_responderTimeout fill - pa_issuedAt auth in
     reject_if (responderWindow \<le> 0 \<or> initiatorWindow < responderWindow) ''fill timeouts must follow issuance''
    (reject_if (responderWindow > MAX_RESPONDER_WINDOW_S) ''fill responder timeout exceeds the maximum window''
    (reject_if (ob_prelock (vo_order order) = None \<and> initiatorWindow > MAX_INITIATOR_WINDOW_S)
       ''fill initiator timeout exceeds the maximum window''
    (reject_if (responderWindow > initiatorWindow div 2)
       ''initiator timeout window must be at least twice the responder window''
    (case ob_prelock (vo_order order) of None \<Rightarrow> k | Some p \<Rightarrow>
       reject_if (fb_hashlock fill \<noteq> pl_hashlock p \<or> fb_initiatorTimeout fill \<noteq> pl_initiatorTimeout p)
         ''fill hashlock and initiator timeout must match the signed prelock''
      (reject_if (fb_initiatorTimeout fill - pa_issuedAt auth < MIN_PRELOCK_RUNWAY_S)
         ''signed prelock must provide at least 9000 seconds of runway''
      (reject_if (\<not> allowExpired \<and> fb_initiatorTimeout fill - now < MIN_PRELOCK_RUNWAY_S)
         ''signed prelock must retain at least 9000 seconds of runway'' k)))))))"

definition verifyFillV1 :: "crypto \<Rightarrow> int \<Rightarrow> bool \<Rightarrow> json \<Rightarrow> json \<Rightarrow> verified_order \<Rightarrow> verified_intent
    \<Rightarrow> verified_fill api" where
  "verifyFillV1 cr now allowExpired rawFill rawAuth order intent =
     js_bind (canonicalFillBody rawFill) (\<lambda>fill.
     js_bind (parseAuth rawAuth) (\<lambda>auth.
     assertOrderReference order (fb_orderDigest fill)
    (assertOrderValidity order (pa_issuedAt auth) now allowExpired
    (reject_if (fb_intentDigest fill \<noteq> vi_intentDigest intent) ''intentDigest does not match the signed fill intent''
    (reject_if (fi_orderDigest (vi_intent intent) \<noteq> fb_orderDigest fill)
       ''fill intent references a different signed order''
    (reject_if (fb_takerEthAccount fill \<noteq> fi_takerEthAccount (vi_intent intent) \<or>
        fb_takerQrlAccount fill \<noteq> fi_takerQrlAccount (vi_intent intent) \<or>
        fb_releaseCommitment fill \<noteq> fi_releaseCommitment (vi_intent intent))
       ''fill taker terms do not match the signed fill intent''
    (reject_if (pa_issuedAt auth < pa_issuedAt (vi_auth intent) \<or> pa_issuedAt auth \<ge> pa_expiresAt (vi_auth intent))
       ''fill issuance falls outside the fill intent validity window''
    (reject_if (pa_expiresAt auth - pa_issuedAt auth < MIN_FILL_RESPONSE_S \<or>
        pa_expiresAt auth - pa_issuedAt auth > MAX_FILL_RESPONSE_S)
       ''fill respondBy must be 60 to 900 seconds after issuance''
    (reject_if (pa_expiresAt auth > pa_expiresAt (vo_auth order)) ''fill respondBy exceeds the order validity window''
    (assertInitialAcceptance auth now ''fill'' allowExpired
    (fill_timeouts order fill auth now allowExpired
    (js_bind (verifyProof cr (ob_makerQrlAccount (vo_order order)) auth (fill_payload fill auth order)) (\<lambda>ok.
     throw_if (\<not> ok) (ApiError 401 ''maker signature is invalid'' None False)
       (Inr \<lparr>vf_fillDigest = cr_digest cr (fill_payload fill auth order), vf_fill = fill,
          vf_auth = auth\<rparr>))))))))))))))"

definition cancel_payload :: "cancel_body \<Rightarrow> protocol_auth \<Rightarrow> verified_order \<Rightarrow> payload" where
  "cancel_payload cancel auth order =
     CancelV2 cancel (pa_nonce (vo_auth order)) (pa_nonce auth) (pa_issuedAt auth)"

definition verifyCancelV1 :: "crypto \<Rightarrow> int \<Rightarrow> bool \<Rightarrow> json \<Rightarrow> json \<Rightarrow> verified_order \<Rightarrow> verified_cancel api" where
  "verifyCancelV1 cr now allowExpired rawCancel rawAuth order =
     js_bind (canonicalCancelBody rawCancel) (\<lambda>cancel.
     js_bind (parseAuth rawAuth) (\<lambda>auth.
     assertOrderReference order (cb_orderDigest cancel)
    (assertOrderValidity order (pa_issuedAt auth) now allowExpired
    (reject_if (pa_expiresAt auth \<noteq> pa_expiresAt (vo_auth order))
       ''cancel auth expiry must equal the signed order expiry''
    (assertInitialAcceptance auth now ''cancel'' allowExpired
    (js_bind (verifyProof cr (ob_makerQrlAccount (vo_order order)) auth (cancel_payload cancel auth order)) (\<lambda>ok.
     throw_if (\<not> ok) (ApiError 401 ''maker signature is invalid'' None False)
       (Inr \<lparr>vc_cancelDigest = cr_digest cr (cancel_payload cancel auth order), vc_cancel = cancel,
          vc_auth = auth\<rparr>))))))))"

definition computeReleaseCommitment :: "crypto \<Rightarrow> string \<Rightarrow> string \<Rightarrow> string \<Rightarrow> string api" where
  "computeReleaseCommitment cr orderDigest requestNonce releaseSecret =
     js_bind (exactString (Some (JStr orderDigest)) ''orderDigest'' BYTES32_RE) (\<lambda>d.
     js_bind (exactString (Some (JStr requestNonce)) ''requestNonce'' BYTES32_RE) (\<lambda>n.
     js_bind (exactString (Some (JStr releaseSecret)) ''releaseSecret'' BYTES32_RE) (\<lambda>s.
       Inr (cr_release cr d n s))))"


section \<open>What an accepted artifact satisfies\<close>

lemma reject_if_Inr [js_simps]: "reject_if b m k = Inr r \<longleftrightarrow> \<not> b \<and> k = Inr r"
  by (simp add: reject_if_def throw_if_def)

lemma api_err_Inr [js_simps]: "api_err s m \<noteq> Inr r" "api_code_err s m c \<noteq> Inr r" "invalid m \<noteq> Inr r"
  by (simp_all add: api_err_def api_code_err_def invalid_def)

lemma shed_Inr [js_simps]: "shed r = Inr x \<longleftrightarrow> r = Inr x"
  by (auto simp: shed_def split: sum.splits store_error.splits)

lemma asserts_Inr [js_simps]:
  "assertInitialAcceptance a now m ae k = Inr r \<longleftrightarrow>
     pa_issuedAt a \<le> now + MAX_CLOCK_SKEW_S \<and> (ae \<or> now < pa_expiresAt a) \<and> k = Inr r"
  "assertOrderValidity vo t now ae k = Inr r \<longleftrightarrow>
     (ae \<or> now < pa_expiresAt (vo_auth vo)) \<and> pa_issuedAt (vo_auth vo) \<le> t \<and> t < pa_expiresAt (vo_auth vo) \<and> k = Inr r"
  "assertOrderReference vo d k = Inr r \<longleftrightarrow> d = vo_orderDigest vo \<and> k = Inr r"
  "assertAllowedTaker vo e q k = Inr r \<longleftrightarrow> nvl (ob_allowedTakerEth (vo_order vo)) e = e \<and>
     nvl (ob_allowedTakerQrl (vo_order vo)) q = q \<and> k = Inr r"
  by (auto simp: assertInitialAcceptance_def assertOrderValidity_def assertOrderReference_def
      assertAllowedTaker_def js_simps)

lemma verifyProof_Inr [js_simps]:
  "verifyProof cr s a p = Inr ok \<longleftrightarrow> cr_deployed cr \<and> ok = cr_verify cr s a p"
  by (auto simp: verifyProof_def js_simps)

text \<open>The timing contract of an accepted fill: the responder window outlives the response deadline by
  more than ten minutes, is at most half of the initiator window, and a signed prelock is echoed exactly.\<close>

definition fill_windows_ok :: "order_body \<Rightarrow> fill_body \<Rightarrow> protocol_auth \<Rightarrow> bool" where
  "fill_windows_ok ord f a \<longleftrightarrow>
     pa_expiresAt a + 600 < fb_responderTimeout f \<and> pa_issuedAt a < fb_responderTimeout f \<and>
     2 * (fb_responderTimeout f - pa_issuedAt a) \<le> fb_initiatorTimeout f - pa_issuedAt a \<and>
     fb_responderTimeout f - pa_issuedAt a \<le> 7200 \<and>
     (case ob_prelock ord of None \<Rightarrow> fb_initiatorTimeout f - pa_issuedAt a \<le> 14400
      | Some p \<Rightarrow> fb_hashlock f = pl_hashlock p \<and> fb_initiatorTimeout f = pl_initiatorTimeout p \<and>
          9000 \<le> fb_initiatorTimeout f - pa_issuedAt a)"

lemma fill_timeouts_iff [js_simps]:
  "fill_timeouts vo f a now ae k = Inr r \<longleftrightarrow> fill_windows_ok (vo_order vo) f a \<and>
     (ae \<or> ob_prelock (vo_order vo) = None \<or> 9000 \<le> fb_initiatorTimeout f - now) \<and> k = Inr r"
  by (cases "ob_prelock (vo_order vo)")
    (auto simp: fill_timeouts_def fill_windows_ok_def js_simps Let_def MIN_RESPONDER_RUNWAY_AFTER_RESPONSE_S_def
      MAX_RESPONDER_WINDOW_S_def MAX_INITIATOR_WINDOW_S_def MIN_PRELOCK_RUNWAY_S_def)

lemma verifyFillV1_Inr:
  assumes "verifyFillV1 cr now ae raw rawAuth vo vi = Inr vf"
  shows "fb_orderDigest (vf_fill vf) = vo_orderDigest vo" "fb_intentDigest (vf_fill vf) = vi_intentDigest vi"
    "cr_verify cr (ob_makerQrlAccount (vo_order vo)) (vf_auth vf) (fill_payload (vf_fill vf) (vf_auth vf) vo)"
    "vf_fillDigest vf = cr_digest cr (fill_payload (vf_fill vf) (vf_auth vf) vo)"
    "fb_takerEthAccount (vf_fill vf) = fi_takerEthAccount (vi_intent vi)"
    "fb_takerQrlAccount (vf_fill vf) = fi_takerQrlAccount (vi_intent vi)"
    "fb_releaseCommitment (vf_fill vf) = fi_releaseCommitment (vi_intent vi)"
    "pa_issuedAt (vi_auth vi) \<le> pa_issuedAt (vf_auth vf) \<and> pa_issuedAt (vf_auth vf) < pa_expiresAt (vi_auth vi)"
    "fill_windows_ok (vo_order vo) (vf_fill vf) (vf_auth vf)"
  using assms by (auto simp: verifyFillV1_def js_simps)

lemma verifyFillIntentV1_Inr:
  assumes "verifyFillIntentV1 cr now ae raw rawAuth vo = Inr vi"
  shows "fi_orderDigest (vi_intent vi) = vo_orderDigest vo"
    "cr_verify cr (fi_takerQrlAccount (vi_intent vi)) (vi_auth vi) (intent_payload (vi_intent vi) (vi_auth vi))"
    "vi_intentDigest vi = cr_digest cr (intent_payload (vi_intent vi) (vi_auth vi))"
    "pa_expiresAt (vi_auth vi) - pa_issuedAt (vi_auth vi) \<le> MAX_FILL_INTENT_LIFETIME_S"
    "\<not> ae \<Longrightarrow> now < pa_expiresAt (vi_auth vi)"
  using assms by (auto simp: verifyFillIntentV1_def js_simps)

end
