(* ===== verification/Book_Types.thy ===== *)
theory Book_Types
  imports Order_Signing
begin

text \<open>
  The rows of the order book, \<^verbatim>\<open>server/src/store.ts\<close>: stored orders, fill intents and the
  evidence of conflicting maker proofs, the JSON objects they are rendered as, the credential
  comparisons and the input validators of the unsigned endpoints, with the asset bounds of
  \<^verbatim>\<open>server/src/assets.ts\<close>. The lemmas show that rendering a canonical body and parsing it
  again is the identity, which is what the book relies on when it verifies a stored order again.
\<close>

section \<open>Assets and amounts\<close>

record amount_bounds =
  ab_minBaseUnits :: int
  ab_maxBaseUnits :: int
  ab_minLabel :: string

definition QRL_BOUNDS :: amount_bounds where
  "QRL_BOUNDS = \<lparr>ab_minBaseUnits = 10 ^ 15, ab_maxBaseUnits = 10 ^ 24, ab_minLabel = ''0.001''\<rparr>"

fun asset_bounds :: "asset_symbol \<Rightarrow> amount_bounds" where
  "asset_bounds ETH = \<lparr>ab_minBaseUnits = 10 ^ 15, ab_maxBaseUnits = 10 ^ 24, ab_minLabel = ''0.001''\<rparr>"
| "asset_bounds USDC = \<lparr>ab_minBaseUnits = 10 ^ 6, ab_maxBaseUnits = 10 ^ 13, ab_minLabel = ''1 USDC''\<rparr>"
| "asset_bounds TUSDT = \<lparr>ab_minBaseUnits = 10 ^ 6, ab_maxBaseUnits = 10 ^ 13, ab_minLabel = ''1 tUSDT''\<rparr>"

definition requireAsset :: "json option \<Rightarrow> asset_symbol api" where
  "requireAsset raw =
     (case raw of None \<Rightarrow> Inr ETH
      | Some _ \<Rightarrow> (case parse_asset raw of Some a \<Rightarrow> Inr a
          | None \<Rightarrow> api_err 400 ''asset must be one of ETH, USDC, tUSDT''))"

definition digit_value :: "char \<Rightarrow> nat" where
  "digit_value c = of_char c - 48"

definition dec_value :: "string \<Rightarrow> nat" where
  "dec_value s = foldl (\<lambda>n c. 10 * n + digit_value c) 0 s"

definition bigint :: "string \<Rightarrow> int" where
  "bigint s = int (dec_value s)"

definition AMOUNT_RE :: "string \<Rightarrow> bool" where
  "AMOUNT_RE s \<longleftrightarrow> 1 \<le> length s \<and> length s \<le> 30 \<and> list_all is_digit s"

definition requireAmount :: "json option \<Rightarrow> string \<Rightarrow> amount_bounds \<Rightarrow> string api" where
  "requireAmount raw field bounds =
     (case jstr raw of None \<Rightarrow> api_err 400 (field @ '' must be a decimal base-unit string'')
      | Some s \<Rightarrow>
          if \<not> AMOUNT_RE s then api_err 400 (field @ '' must be a decimal base-unit string'')
          else if bigint s < ab_minBaseUnits bounds
            then api_err 400 (field @ '' is below the '' @ ab_minLabel bounds @ '' minimum'')
          else if bigint s > ab_maxBaseUnits bounds then api_err 400 (field @ '' exceeds the maximum'')
          else Inr (show_int (bigint s)))"

definition requireAddress :: "json option \<Rightarrow> string \<Rightarrow> (string \<Rightarrow> bool) \<Rightarrow> string api" where
  "requireAddress raw field re =
     (case jstr raw of None \<Rightarrow> api_err 400 (field @ '' is not a valid address'')
      | Some s \<Rightarrow> if re s then Inr s else api_err 400 (field @ '' is not a valid address''))"

definition requireDirection :: "json option \<Rightarrow> direction api" where
  "requireDirection raw =
     (case parse_direction raw of Some d \<Rightarrow> Inr d
      | None \<Rightarrow> api_err 400 ''direction must be eth->qrl or qrl->eth'')"

definition ETH_ADDR_RE :: "string \<Rightarrow> bool" where
  "ETH_ADDR_RE s = matches ''0x'' is_hex_any 40 s"

definition QRL_ADDR_RE :: "string \<Rightarrow> bool" where
  "QRL_ADDR_RE s = matches ''Q'' is_hex_any 128 s"

definition RAW_TOKEN_RE :: "string \<Rightarrow> bool" where
  "RAW_TOKEN_RE s = matches '''' is_hex_lower 64 s"

definition ORDER_ID_RE :: "string \<Rightarrow> bool" where
  "ORDER_ID_RE s \<longleftrightarrow> matches '''' is_hex_lower 16 s \<or> matches '''' is_hex_lower 64 s"


section \<open>Stored rows\<close>

datatype order_status = Open | Accepted | Locking | Cancelled

record stored_intent = selected_fill_intent +
  st_acceptorIpHash :: string
  st_releasedAt :: "int option"
  st_releaseSecret :: "string option"

datatype terminal_conflict =
    FillConflict string fill_body protocol_auth fill_intent_body protocol_auth
  | CancelConflict string cancel_body protocol_auth

record order_conflict =
  oc_orderDigest :: string
  oc_order :: order_body
  oc_auth :: maker_order_auth

text \<open>
  Optional fields are options, except the two evidence lists (absent and empty are never
  distinguished) and the two flags that are only ever compared with \<^verbatim>\<open>true\<close>.
\<close>

record order =
  o_id :: string
  o_direction :: direction
  o_asset :: asset_symbol
  o_fromAmount :: string
  o_toAmount :: string
  o_makerEthAccount :: string
  o_makerQrlAccount :: string
  o_status :: order_status
  o_takerEthAccount :: "string option"
  o_takerQrlAccount :: "string option"
  o_hashlock :: "string option"
  o_initiatorTimeout :: "int option"
  o_responderTimeout :: "int option"
  o_prelocked :: bool
  o_createdAt :: int
  o_updatedAt :: int
  o_visibility :: visibility
  o_shareTokenHash :: "string option"
  o_allowedTakerEth :: "string option"
  o_allowedTakerQrl :: "string option"
  o_makerTokenHash :: string
  o_takerTokenHash :: "string option"
  o_acceptorIpHash :: "string option"
  o_creatorIpHash :: "string option"
  o_federationSourceHash :: "string option"
  o_makerAuth :: "maker_order_auth option"
  o_orderDigest :: "string option"
  o_fillIntents :: "stored_intent list option"
  o_fill :: "fill_body option"
  o_fillAuth :: "protocol_auth option"
  o_fillDigest :: "string option"
  o_selectedIntent :: "selected_fill_intent option"
  o_cancelProof :: "cancel_body option"
  o_cancelAuth :: "protocol_auth option"
  o_cancelDigest :: "string option"
  o_equivocated :: bool
  o_conflicts :: "terminal_conflict list"
  o_orderConflicts :: "order_conflict list"
  o_acceptedAt :: "int option"
  o_releasedAt :: "int option"
  o_releaseSecret :: "string option"

definition intents_of :: "order \<Rightarrow> stored_intent list" where
  "intents_of ord = nvl (o_fillIntents ord) []"

fun conflict_digest :: "terminal_conflict \<Rightarrow> string" where
  "conflict_digest (FillConflict d _ _ _ _) = d"
| "conflict_digest (CancelConflict d _ _) = d"

definition usesPortableTerminalProtocol :: "order \<Rightarrow> bool" where
  "usesPortableTerminalProtocol ord \<longleftrightarrow> o_makerAuth ord \<noteq> None \<and> o_fillIntents ord \<noteq> None"

definition isLiveIntent :: "stored_intent \<Rightarrow> int \<Rightarrow> bool" where
  "isLiveIntent i now \<longleftrightarrow> pa_expiresAt (si_auth i) > now"

definition public_intent :: "stored_intent \<Rightarrow> selected_fill_intent" where
  "public_intent i = selected_fill_intent.truncate i"


section \<open>Rendering as JSON objects\<close>

fun direction_str :: "direction \<Rightarrow> string" where
  "direction_str EthToQrl = ''eth->qrl''"
| "direction_str QrlToEth = ''qrl->eth''"

fun visibility_str :: "visibility \<Rightarrow> string" where
  "visibility_str Public = ''public''"
| "visibility_str Private = ''private''"

fun asset_str :: "asset_symbol \<Rightarrow> string" where
  "asset_str ETH = ''ETH''"
| "asset_str USDC = ''USDC''"
| "asset_str TUSDT = ''tUSDT''"

definition opt_entry :: "string \<Rightarrow> json option \<Rightarrow> jobj" where
  "opt_entry k v = (case v of None \<Rightarrow> [] | Some j \<Rightarrow> [(k, j)])"

definition prelock_json :: "prelock_terms \<Rightarrow> json" where
  "prelock_json p = JObj [(''hashlock'', JStr (pl_hashlock p)), (''initiatorTimeout'', JInt (pl_initiatorTimeout p))]"

definition order_body_obj :: "order_body \<Rightarrow> jobj" where
  "order_body_obj b =
     [(''direction'', JStr (direction_str (ob_direction b))), (''asset'', JStr (asset_str (ob_asset b))),
      (''fromAmount'', JStr (ob_fromAmount b)), (''toAmount'', JStr (ob_toAmount b)),
      (''makerEthAccount'', JStr (ob_makerEthAccount b)), (''makerQrlAccount'', JStr (ob_makerQrlAccount b)),
      (''visibility'', JStr (visibility_str (ob_visibility b)))]
     @ opt_entry ''allowedTakerEth'' (map_option JStr (ob_allowedTakerEth b))
     @ opt_entry ''allowedTakerQrl'' (map_option JStr (ob_allowedTakerQrl b))
     @ opt_entry ''prelock'' (map_option prelock_json (ob_prelock b))"

definition auth_fields :: "('a) protocol_auth_scheme \<Rightarrow> jobj" where
  "auth_fields a =
     [(''version'', JStr ''2''), (''scheme'', JStr ''qrl-sign-message-v2''), (''issuedAt'', JInt (pa_issuedAt a)),
      (''expiresAt'', JInt (pa_expiresAt a)), (''nonce'', JStr (pa_nonce a)), (''signature'', JStr (pa_signature a)),
      (''publicKey'', JStr (pa_publicKey a)), (''descriptor'', JStr (pa_descriptor a))]"

definition auth_json :: "protocol_auth \<Rightarrow> json" where
  "auth_json a = JObj (auth_fields a)"

definition maker_auth_json :: "maker_order_auth \<Rightarrow> json" where
  "maker_auth_json a = JObj (auth_fields a @
     [(''makerTokenCommitment'', JStr (pa_makerTokenCommitment a)),
      (''shareTokenCommitment'', JStr (pa_shareTokenCommitment a))])"

definition intent_json :: "fill_intent_body \<Rightarrow> json" where
  "intent_json i = JObj [(''orderDigest'', JStr (fi_orderDigest i)), (''takerEthAccount'', JStr (fi_takerEthAccount i)),
     (''takerQrlAccount'', JStr (fi_takerQrlAccount i)), (''releaseCommitment'', JStr (fi_releaseCommitment i))]"

definition fill_json :: "fill_body \<Rightarrow> json" where
  "fill_json f = JObj [(''orderDigest'', JStr (fb_orderDigest f)), (''intentDigest'', JStr (fb_intentDigest f)),
     (''takerEthAccount'', JStr (fb_takerEthAccount f)), (''takerQrlAccount'', JStr (fb_takerQrlAccount f)),
     (''releaseCommitment'', JStr (fb_releaseCommitment f)), (''hashlock'', JStr (fb_hashlock f)),
     (''initiatorTimeout'', JInt (fb_initiatorTimeout f)), (''responderTimeout'', JInt (fb_responderTimeout f))]"

definition cancel_json :: "cancel_body \<Rightarrow> json" where
  "cancel_json c = JObj [(''orderDigest'', JStr (cb_orderDigest c)), (''reasonCode'', JInt (cb_reasonCode c))]"

definition signed_body :: "order \<Rightarrow> order_body" where
  "signed_body ord =
     \<lparr>ob_direction = o_direction ord, ob_asset = o_asset ord, ob_fromAmount = o_fromAmount ord,
      ob_toAmount = o_toAmount ord, ob_makerEthAccount = o_makerEthAccount ord,
      ob_makerQrlAccount = o_makerQrlAccount ord, ob_visibility = o_visibility ord,
      ob_allowedTakerEth = o_allowedTakerEth ord, ob_allowedTakerQrl = o_allowedTakerQrl ord,
      ob_prelock = (if o_prelocked ord then
         (case (o_hashlock ord, o_initiatorTimeout ord) of
            (Some h, Some t) \<Rightarrow> Some \<lparr>pl_hashlock = h, pl_initiatorTimeout = t\<rparr> | _ \<Rightarrow> None)
       else None)\<rparr>"

definition signedOrderBody :: "order \<Rightarrow> json" where
  "signedOrderBody ord = JObj (order_body_obj (signed_body ord))"

definition verifiedSignedOrder :: "crypto \<Rightarrow> int \<Rightarrow> order \<Rightarrow> verified_order api" where
  "verifiedSignedOrder cr now ord =
     (case o_makerAuth ord of None \<Rightarrow> api_err 409 ''order is not portable''
      | Some auth \<Rightarrow> verifyOrderV1 cr now True (signedOrderBody ord) (maker_auth_json auth))"

text \<open>The first retained variant with the digest decides, as the loop's \<^verbatim>\<open>break\<close> does.\<close>

definition referencedSignedOrderVariant :: "crypto \<Rightarrow> int \<Rightarrow> order \<Rightarrow> json \<Rightarrow> verified_order api" where
  "referencedSignedOrderVariant cr now ord rawTerminal =
     (case rawTerminal of
        JObj terminal \<Rightarrow>
          (case jstr (map_of terminal ''orderDigest'') of
             None \<Rightarrow> api_err 400 ''terminal proof has an invalid orderDigest''
           | Some digest \<Rightarrow>
               throw_if (\<not> BYTES32_RE digest)
                 (ApiError 400 ''terminal proof has an invalid orderDigest'' None False)
               (js_bind (verifiedSignedOrder cr now ord) (\<lambda>primary.
                if vo_orderDigest primary = digest then Inr primary
                else (case find (\<lambda>c. oc_orderDigest c = digest) (o_orderConflicts ord) of
                   None \<Rightarrow> api_code_err 409 ''referenced signed order variant is unavailable'' FederationDependency
                 | Some c \<Rightarrow>
                     js_bind (verifyOrderV1 cr now True (JObj (order_body_obj (oc_order c)))
                         (maker_auth_json (oc_auth c))) (\<lambda>candidate.
                     if vo_orderId candidate \<noteq> o_id ord \<or> vo_orderDigest candidate \<noteq> digest
                     then api_code_err 409 ''referenced signed order variant is unavailable'' FederationDependency
                     else Inr candidate)))))
      | _ \<Rightarrow> api_err 400 ''terminal proof must be an object'')"


section \<open>Credentials\<close>

definition hex_value :: "char \<Rightarrow> nat option" where
  "hex_value c = (let n = (of_char c :: nat) in
     if 48 \<le> n \<and> n \<le> 57 then Some (n - 48) else if 97 \<le> n \<and> n \<le> 102 then Some (n - 87)
     else if 65 \<le> n \<and> n \<le> 70 then Some (n - 55) else None)"

text \<open>\<^verbatim>\<open>Buffer.from(s, "hex")\<close>: decoding stops at the first pair that is not hexadecimal.\<close>

fun buffer_from_hex :: "string \<Rightarrow> nat list" where
  "buffer_from_hex (a # b # s) =
     (case (hex_value a, hex_value b) of
        (Some x, Some y) \<Rightarrow> (16 * x + y) # buffer_from_hex s
      | _ \<Rightarrow> [])"
| "buffer_from_hex _ = []"

definition fixedHexMatches :: "string \<Rightarrow> string \<Rightarrow> bool" where
  "fixedHexMatches storedHex candidateHex \<longleftrightarrow> buffer_from_hex storedHex = buffer_from_hex candidateHex"

definition capabilityMatches :: "string \<Rightarrow> json option \<Rightarrow> (string \<Rightarrow> string) \<Rightarrow> bool" where
  "capabilityMatches storedHex raw compute =
     (case jstr raw of None \<Rightarrow> False
      | Some t \<Rightarrow> RAW_TOKEN_RE t \<and> fixedHexMatches storedHex (drop 2 (compute t)))"

definition legacyTokenMatches :: "crypto \<Rightarrow> string \<Rightarrow> json option \<Rightarrow> bool" where
  "legacyTokenMatches cr storedHex raw =
     (case jstr raw of None \<Rightarrow> False | Some t \<Rightarrow> fixedHexMatches storedHex (cr_sha256Hex cr t))"

definition exactRawToken :: "json option \<Rightarrow> string \<Rightarrow> string api" where
  "exactRawToken raw field =
     (case jstr raw of None \<Rightarrow> api_err 400 (field @ '' must be 32 bytes of lowercase hex'')
      | Some t \<Rightarrow> if RAW_TOKEN_RE t then Inr t else api_err 400 (field @ '' must be 32 bytes of lowercase hex''))"

definition shareAuthorized :: "crypto \<Rightarrow> order \<Rightarrow> json option \<Rightarrow> bool" where
  "shareAuthorized cr ord shareToken =
     (case o_shareTokenHash ord of None \<Rightarrow> False
      | Some h \<Rightarrow> if o_makerAuth ord = None then legacyTokenMatches cr h shareToken
          else capabilityMatches h shareToken (cr_shareCommitment cr))"

definition makerAuthorized :: "crypto \<Rightarrow> order \<Rightarrow> json option \<Rightarrow> bool" where
  "makerAuthorized cr ord token =
     (if o_makerAuth ord = None then legacyTokenMatches cr (o_makerTokenHash ord) token
      else capabilityMatches (o_makerTokenHash ord) token (cr_makerCommitment cr))"

definition authorized :: "crypto \<Rightarrow> order \<Rightarrow> json option \<Rightarrow> unit api" where
  "authorized cr ord token =
     throw_if (\<not> makerAuthorized cr ord token) (ApiError 403 ''invalid maker token'' None False) (Inr ())"

record capabilities =
  cap_makerToken :: string
  cap_shareToken :: "string option"

definition signedCreateCapabilities :: "crypto \<Rightarrow> verified_order \<Rightarrow> json option \<Rightarrow> json option \<Rightarrow> capabilities api" where
  "signedCreateCapabilities cr verified rawMaker rawShare =
     js_bind (exactRawToken rawMaker ''makerToken'') (\<lambda>makerToken.
     throw_if (\<not> capabilityMatches (drop 2 (pa_makerTokenCommitment (vo_auth verified))) (Some (JStr makerToken))
         (cr_makerCommitment cr))
       (ApiError 401 ''makerToken does not match the signed commitment'' None False)
    (if ob_visibility (vo_order verified) = Public then
       throw_if (rawShare \<noteq> None) (ApiError 400 ''public signed orders cannot carry a shareToken'' None False)
         (Inr \<lparr>cap_makerToken = makerToken, cap_shareToken = None\<rparr>)
     else
       js_bind (exactRawToken rawShare ''shareToken'') (\<lambda>shareToken.
       throw_if (\<not> capabilityMatches (drop 2 (pa_shareTokenCommitment (vo_auth verified))) (Some (JStr shareToken))
           (cr_shareCommitment cr))
         (ApiError 401 ''shareToken does not match the signed commitment'' None False)
         (Inr \<lparr>cap_makerToken = makerToken, cap_shareToken = Some shareToken\<rparr>))))"


section \<open>Parsing what was rendered\<close>

lemma opt_entry_simps [simp]: "opt_entry k None = []" "opt_entry k (Some j) = [(k, j)]"
  by (simp_all add: opt_entry_def)

lemma parse_str_simps [simp]:
  "parse_direction (Some (JStr (direction_str d))) = Some d"
  "parse_asset (Some (JStr (asset_str a))) = Some a"
  "parse_visibility (Some (JStr (visibility_str v))) = Some v"
  subgoal by (cases d) (simp_all add: parse_direction_def jstr_def)
  subgoal by (cases a) (simp_all add: parse_asset_def jstr_def ASSET_SYMBOLS_def)
  subgoal by (cases v) (simp_all add: parse_visibility_def jstr_def)
  done

definition prelock_wf :: "prelock_terms \<Rightarrow> bool" where
  "prelock_wf p \<longleftrightarrow> HASHLOCK_RE (pl_hashlock p) \<and> isSafeInteger (pl_initiatorTimeout p) \<and> 0 \<le> pl_initiatorTimeout p"

definition order_body_wf :: "order_body \<Rightarrow> bool" where
  "order_body_wf b \<longleftrightarrow> CANONICAL_AMOUNT_RE (ob_fromAmount b) \<and> CANONICAL_AMOUNT_RE (ob_toAmount b) \<and>
     ETH_ADDR_LOWER_RE (ob_makerEthAccount b) \<and> QRL_ADDR_LOWER_RE (ob_makerQrlAccount b) \<and>
     (case ob_allowedTakerEth b of None \<Rightarrow> True | Some e \<Rightarrow> ob_visibility b = Private \<and> ETH_ADDR_LOWER_RE e) \<and>
     (case ob_allowedTakerQrl b of None \<Rightarrow> True | Some q \<Rightarrow> ob_visibility b = Private \<and> QRL_ADDR_LOWER_RE q) \<and>
     (case ob_prelock b of None \<Rightarrow> True | Some p \<Rightarrow> prelock_wf p)"

lemma case_option_Inr [js_simps]:
  "(case x of None \<Rightarrow> invalid m | Some a \<Rightarrow> k a) = Inr r \<longleftrightarrow> (\<exists>a. x = Some a \<and> k a = Inr r)"
  "(case x of None \<Rightarrow> api_err n m | Some a \<Rightarrow> k a) = Inr r \<longleftrightarrow> (\<exists>a. x = Some a \<and> k a = Inr r)"
  "(case x of None \<Rightarrow> api_code_err n m c | Some a \<Rightarrow> k a) = Inr r \<longleftrightarrow> (\<exists>a. x = Some a \<and> k a = Inr r)"
  by (auto simp: js_simps split: option.splits)

lemma exactString_Inr [js_simps]: "exactString raw f p = Inr s \<longleftrightarrow> raw = Some (JStr s) \<and> p s"
  by (auto simp: exactString_def invalid_def api_err_def split: option.splits json.splits)

lemma exactInteger_Inr [js_simps]:
  "exactInteger raw f = Inr n \<longleftrightarrow> raw = Some (JInt n) \<and> isSafeInteger n \<and> 0 \<le> n"
  by (auto simp: exactInteger_def invalid_def api_err_def split: option.splits json.splits)

lemma exactString_JStr [simp]: "p s \<Longrightarrow> exactString (Some (JStr s)) f p = Inr s"
  by (simp add: exactString_def)

lemma exactInteger_JInt [simp]: "isSafeInteger n \<Longrightarrow> 0 \<le> n \<Longrightarrow> exactInteger (Some (JInt n)) f = Inr n"
  by (simp add: exactInteger_def)

lemma allowedObject_JObj:
  assumes "fst ` set obj \<subseteq> set keys"
  shows "allowedObject (Some (JObj obj)) f keys = Inr obj"
proof -
  have "find (\<lambda>k. k \<notin> set keys) (map fst obj) = None"
    using assms by (auto simp: find_None_iff)
  then show ?thesis by (simp add: allowedObject_def objectValue_def)
qed

lemma exactObject_JObj:
  assumes "fst ` set obj = set keys"
  shows "exactObject (Some (JObj obj)) f keys = Inr obj"
proof -
  have "find (\<lambda>k. k \<notin> fst ` set obj) keys = None"
    using assms by (auto simp: find_None_iff)
  then show ?thesis using assms by (simp add: exactObject_def allowedObject_JObj)
qed

lemma canonical_prelock_json:
  "prelock_wf p \<Longrightarrow> map_of obj ''prelock'' = Some (prelock_json p) \<Longrightarrow> canonical_prelock obj = Inr (Some p)"
  by (auto simp: canonical_prelock_def prelock_json_def exactObject_JObj prelock_wf_def)

lemma order_body_obj_keys:
  "fst ` set (order_body_obj b) \<subseteq> set [''direction'', ''asset'', ''fromAmount'', ''toAmount'',
     ''makerEthAccount'', ''makerQrlAccount'', ''visibility'', ''allowedTakerEth'', ''allowedTakerQrl'', ''prelock'']"
  by (cases "ob_allowedTakerEth b"; cases "ob_allowedTakerQrl b"; cases "ob_prelock b")
    (simp_all add: order_body_obj_def)

lemma order_body_obj_lookup:
  "map_of (order_body_obj b) ''direction'' = Some (JStr (direction_str (ob_direction b)))"
  "map_of (order_body_obj b) ''asset'' = Some (JStr (asset_str (ob_asset b)))"
  "map_of (order_body_obj b) ''fromAmount'' = Some (JStr (ob_fromAmount b))"
  "map_of (order_body_obj b) ''toAmount'' = Some (JStr (ob_toAmount b))"
  "map_of (order_body_obj b) ''makerEthAccount'' = Some (JStr (ob_makerEthAccount b))"
  "map_of (order_body_obj b) ''makerQrlAccount'' = Some (JStr (ob_makerQrlAccount b))"
  "map_of (order_body_obj b) ''visibility'' = Some (JStr (visibility_str (ob_visibility b)))"
  "map_of (order_body_obj b) ''allowedTakerEth'' = map_option JStr (ob_allowedTakerEth b)"
  "map_of (order_body_obj b) ''allowedTakerQrl'' = map_option JStr (ob_allowedTakerQrl b)"
  "map_of (order_body_obj b) ''prelock'' = map_option prelock_json (ob_prelock b)"
  by (cases "ob_allowedTakerEth b"; cases "ob_allowedTakerQrl b"; cases "ob_prelock b";
      simp add: order_body_obj_def)+

lemma canonical_takers_obj:
  assumes "order_body_wf b"
  shows "canonical_takers (order_body_obj b) (ob_visibility b) = Inr (ob_allowedTakerEth b, ob_allowedTakerQrl b)"
  using assms
  by (cases "ob_visibility b")
    (auto simp: canonical_takers_def order_body_obj_lookup opt_string_def order_body_wf_def split: option.splits)

lemma canonical_order_roundtrip:
  assumes "order_body_wf b"
  shows "canonicalOrderBody (JObj (order_body_obj b)) = Inr b"
proof -
  have "canonical_prelock (order_body_obj b) = Inr (ob_prelock b)"
    using assms
  proof (cases "ob_prelock b")
    case None
    then show ?thesis by (simp add: canonical_prelock_def order_body_obj_lookup)
  next
    case (Some p)
    with assms show ?thesis
      by (auto simp: order_body_wf_def order_body_obj_lookup intro: canonical_prelock_json)
  qed
  with assms show ?thesis
    by (simp add: canonicalOrderBody_def allowedObject_JObj [OF order_body_obj_keys] order_body_obj_lookup
        canonical_takers_obj) (simp add: order_body_wf_def)
qed

lemma canonical_takers_Inr:
  "canonical_takers i v = Inr (e, q) \<Longrightarrow>
     (case e of None \<Rightarrow> True | Some x \<Rightarrow> v = Private \<and> ETH_ADDR_LOWER_RE x) \<and>
     (case q of None \<Rightarrow> True | Some x \<Rightarrow> v = Private \<and> QRL_ADDR_LOWER_RE x)"
  by (auto simp: canonical_takers_def opt_string_def js_simps split: if_splits option.splits)

lemma canonical_prelock_Inr: "canonical_prelock i = Inr (Some p) \<Longrightarrow> prelock_wf p"
  by (auto simp: canonical_prelock_def js_simps prelock_wf_def split: option.splits)

lemma canonicalOrderBody_wf:
  assumes "canonicalOrderBody raw = Inr b"
  shows "order_body_wf b"
proof -
  from assms obtain i v te tq pl where
    "canonical_takers i v = Inr (te, tq)" "canonical_prelock i = Inr pl" and b:
    "CANONICAL_AMOUNT_RE (ob_fromAmount b)" "CANONICAL_AMOUNT_RE (ob_toAmount b)"
    "ETH_ADDR_LOWER_RE (ob_makerEthAccount b)" "QRL_ADDR_LOWER_RE (ob_makerQrlAccount b)"
    "ob_visibility b = v" "ob_allowedTakerEth b = te" "ob_allowedTakerQrl b = tq" "ob_prelock b = pl"
    by (auto simp: canonicalOrderBody_def js_simps)
  with canonical_takers_Inr [of i v te tq] canonical_prelock_Inr [of i] show ?thesis
    by (auto simp: order_body_wf_def split: option.splits)
qed

definition safe_nonneg :: "int \<Rightarrow> bool" where
  "safe_nonneg n \<longleftrightarrow> isSafeInteger n \<and> 0 \<le> n"

definition auth_wf :: "('a) protocol_auth_scheme \<Rightarrow> bool" where
  "auth_wf a \<longleftrightarrow> safe_nonneg (pa_issuedAt a) \<and> safe_nonneg (pa_expiresAt a) \<and> BYTES32_RE (pa_nonce a) \<and>
     SIGNATURE_RE (pa_signature a) \<and> PUBLIC_KEY_RE (pa_publicKey a) \<and> DESCRIPTOR_RE (pa_descriptor a)"

definition maker_auth_wf :: "maker_order_auth \<Rightarrow> bool" where
  "maker_auth_wf a \<longleftrightarrow> auth_wf a \<and> BYTES32_RE (pa_makerTokenCommitment a) \<and> BYTES32_RE (pa_shareTokenCommitment a)"

lemma auth_fields_lookup:
  "map_of (auth_fields a @ r) ''version'' = Some (JStr ''2'')"
  "map_of (auth_fields a @ r) ''scheme'' = Some (JStr ''qrl-sign-message-v2'')"
  "map_of (auth_fields a @ r) ''issuedAt'' = Some (JInt (pa_issuedAt a))"
  "map_of (auth_fields a @ r) ''expiresAt'' = Some (JInt (pa_expiresAt a))"
  "map_of (auth_fields a @ r) ''nonce'' = Some (JStr (pa_nonce a))"
  "map_of (auth_fields a @ r) ''signature'' = Some (JStr (pa_signature a))"
  "map_of (auth_fields a @ r) ''publicKey'' = Some (JStr (pa_publicKey a))"
  "map_of (auth_fields a @ r) ''descriptor'' = Some (JStr (pa_descriptor a))"
  by (simp_all add: auth_fields_def)

lemma parseAuth_fields_roundtrip:
  "auth_wf a \<Longrightarrow> parseAuth_fields (auth_fields a @ r) = Inr \<lparr>pa_issuedAt = pa_issuedAt a,
     pa_expiresAt = pa_expiresAt a, pa_nonce = pa_nonce a, pa_signature = pa_signature a,
     pa_publicKey = pa_publicKey a, pa_descriptor = pa_descriptor a\<rparr>"
  by (simp add: parseAuth_fields_def auth_fields_lookup auth_wf_def safe_nonneg_def del: map_of_append)

lemma parseAuth_roundtrip:
  fixes a :: protocol_auth
  assumes "auth_wf a"
  shows "parseAuth (auth_json a) = Inr a"
proof -
  have "exactObject (Some (auth_json a)) ''auth'' PROTOCOL_AUTH_KEYS = Inr (auth_fields a)"
    unfolding auth_json_def by (rule exactObject_JObj) (simp add: auth_fields_def PROTOCOL_AUTH_KEYS_def)
  with parseAuth_fields_roundtrip [OF assms, of "[]"] show ?thesis by (simp add: parseAuth_def)
qed

lemma parseMakerOrderAuth_roundtrip:
  assumes "maker_auth_wf a"
  shows "parseMakerOrderAuth (maker_auth_json a) = Inr a"
proof -
  let ?x = "[(''makerTokenCommitment'', JStr (pa_makerTokenCommitment a)),
      (''shareTokenCommitment'', JStr (pa_shareTokenCommitment a))]"
  have "exactObject (Some (maker_auth_json a)) ''auth'' MAKER_ORDER_AUTH_KEYS = Inr (auth_fields a @ ?x)"
    unfolding maker_auth_json_def
    by (rule exactObject_JObj) (simp add: auth_fields_def PROTOCOL_AUTH_KEYS_def MAKER_ORDER_AUTH_KEYS_def)
  moreover have "map_of (auth_fields a @ ?x) ''makerTokenCommitment'' = Some (JStr (pa_makerTokenCommitment a))"
    "map_of (auth_fields a @ ?x) ''shareTokenCommitment'' = Some (JStr (pa_shareTokenCommitment a))"
    by (simp_all add: auth_fields_def)
  ultimately show ?thesis using assms
    by (simp add: parseMakerOrderAuth_def parseAuth_fields_roundtrip maker_auth_wf_def del: map_of_append)
qed

lemma parseAuth_fields_wf: "parseAuth_fields i = Inr a \<Longrightarrow> auth_wf a"
  by (auto simp: parseAuth_fields_def js_simps auth_wf_def safe_nonneg_def split: if_splits)

lemma parseAuth_wf: "parseAuth raw = Inr a \<Longrightarrow> auth_wf a"
  by (auto simp: parseAuth_def js_simps dest: parseAuth_fields_wf)

lemma parseMakerOrderAuth_wf: "parseMakerOrderAuth raw = Inr a \<Longrightarrow> maker_auth_wf a"
  by (auto simp: parseMakerOrderAuth_def js_simps maker_auth_wf_def auth_wf_def dest!: parseAuth_fields_wf)

text \<open>An accepted order: what the signature covers, and every acceptance rule that does not look at the clock.\<close>

definition verified_order_ok :: "crypto \<Rightarrow> verified_order \<Rightarrow> bool" where
  "verified_order_ok cr vo \<longleftrightarrow> cr_deployed cr \<and> order_body_wf (vo_order vo) \<and> maker_auth_wf (vo_auth vo) \<and>
     pa_issuedAt (vo_auth vo) < pa_expiresAt (vo_auth vo) \<and>
     pa_expiresAt (vo_auth vo) - pa_issuedAt (vo_auth vo) \<le> MAX_ORDER_LIFETIME_S \<and>
     (case ob_prelock (vo_order vo) of None \<Rightarrow> True | Some p \<Rightarrow> pa_expiresAt (vo_auth vo) \<le> pl_initiatorTimeout p) \<and>
     \<not> prelock_window_bad (vo_order vo) (vo_auth vo) \<and> pa_makerTokenCommitment (vo_auth vo) \<noteq> ZERO32 \<and>
     (ob_visibility (vo_order vo) = Public \<longleftrightarrow> pa_shareTokenCommitment (vo_auth vo) = ZERO32) \<and>
     cr_verify cr (ob_makerQrlAccount (vo_order vo)) (base_auth (vo_auth vo)) (order_payload (vo_order vo) (vo_auth vo)) \<and>
     vo_orderId vo = cr_orderId cr (ob_makerQrlAccount (vo_order vo)) (pa_nonce (vo_auth vo)) \<and>
     vo_orderDigest vo = cr_digest cr (order_payload (vo_order vo) (vo_auth vo))"

lemma verifyOrderV1_Inr:
  assumes "verifyOrderV1 cr now ae raw rawAuth = Inr vo"
  shows "verified_order_ok cr vo" "pa_issuedAt (vo_auth vo) \<le> now + MAX_CLOCK_SKEW_S"
    "ae \<or> now + MIN_REMAINING_LIFETIME_S \<le> pa_expiresAt (vo_auth vo)"
proof -
  from assms obtain b a where "canonicalOrderBody raw = Inr b" "parseMakerOrderAuth rawAuth = Inr a"
    and *: "vo_order vo = b" "vo_auth vo = a"
    by (auto simp: verifyOrderV1_def js_simps)
  then have "order_body_wf (vo_order vo)" "maker_auth_wf (vo_auth vo)"
    by (auto dest: canonicalOrderBody_wf parseMakerOrderAuth_wf)
  with assms show "verified_order_ok cr vo" "pa_issuedAt (vo_auth vo) \<le> now + MAX_CLOCK_SKEW_S"
    "ae \<or> now + MIN_REMAINING_LIFETIME_S \<le> pa_expiresAt (vo_auth vo)"
    by (auto simp: verifyOrderV1_def verified_order_ok_def js_simps deriveOrderV1Id_def split: option.splits)
qed

lemma verifyOrderV1_again:
  assumes "verified_order_ok cr vo" "pa_issuedAt (vo_auth vo) \<le> now + MAX_CLOCK_SKEW_S"
  shows "verifyOrderV1 cr now True (JObj (order_body_obj (vo_order vo))) (maker_auth_json (vo_auth vo)) = Inr vo"
  using assms
  by (auto simp: verifyOrderV1_def verified_order_ok_def canonical_order_roundtrip parseMakerOrderAuth_roundtrip
      verifyProof_def reject_if_def deriveOrderV1Id_def order_body_wf_def maker_auth_wf_def auth_wf_def throw_if_def
      split: option.splits)

lemma dec_value_snoc: "dec_value (s @ [c]) = 10 * dec_value s + digit_value c"
  by (simp add: dec_value_def)

lemma digit_value_lt: "is_digit c \<Longrightarrow> digit_value c < 10"
  by (auto simp: is_digit_def char_in_def digit_value_def)

lemma char_of_48: "char_of (48::nat) = CHR ''0''"
  by code_simp

lemma char_of_digit_value: "is_digit c \<Longrightarrow> char_of (48 + digit_value c) = c"
  by (simp add: is_digit_def char_in_def digit_value_def)

lemma show_dec_value_pos:
  "s \<noteq> [] \<Longrightarrow> list_all is_digit s \<Longrightarrow> hd s \<noteq> CHR ''0'' \<Longrightarrow> 0 < dec_value s \<and> show_nat (dec_value s) = s"
proof (induction s rule: rev_induct)
  case Nil
  then show ?case by simp
next
  case (snoc c s)
  show ?case
  proof (cases "s = []")
    case True
    with snoc.prems have c: "is_digit c" "c \<noteq> CHR ''0''" by auto
    have "digit_value c \<noteq> 0"
    proof
      assume "digit_value c = 0"
      with char_of_digit_value [OF c(1)] have "c = char_of (48::nat)" by simp
      with c(2) show False by (simp add: char_of_48)
    qed
    with True c digit_value_lt [OF c(1)] char_of_digit_value [OF c(1)] show ?thesis
      by (simp add: dec_value_def) (subst show_nat.simps, simp)
  next
    case False
    with snoc.prems snoc.IH have s: "0 < dec_value s" "show_nat (dec_value s) = s" and c: "is_digit c" by auto
    have "\<not> dec_value (s @ [c]) < 10" "dec_value (s @ [c]) div 10 = dec_value s"
      "dec_value (s @ [c]) mod 10 = digit_value c"
      using s(1) digit_value_lt [OF c] by (simp_all add: dec_value_snoc)
    with s c show ?thesis
      by (subst show_nat.simps) (simp add: char_of_digit_value)
  qed
qed

lemma dec_value_show_nat: "dec_value (show_nat n) = n"
proof (induction n rule: show_nat.induct)
  case (1 n)
  have d: "digit_value (char_of (48 + m)) = m" if "m < 10" for m :: nat
    using that by (simp add: digit_value_def of_char_of)
  show ?case
  proof (cases "n < 10")
    case True
    then show ?thesis by (subst show_nat.simps) (simp add: dec_value_def d)
  next
    case False
    with 1 show ?thesis by (subst show_nat.simps) (simp add: dec_value_snoc d)
  qed
qed

lemma bigint_show_int: "0 \<le> n \<Longrightarrow> bigint (show_int n) = n"
  by (simp add: bigint_def show_int_def dec_value_show_nat)

lemma bigint_nonneg [simp]: "0 \<le> bigint s"
  by (simp add: bigint_def)

lemma canonical_amount_roundtrip: "CANONICAL_AMOUNT_RE s \<Longrightarrow> show_int (bigint s) = s"
proof -
  assume "CANONICAL_AMOUNT_RE s"
  then consider "s = ''0''" | "s \<noteq> []" "list_all is_digit s" "hd s \<noteq> CHR ''0''"
    by (cases s) (auto simp: CANONICAL_AMOUNT_RE_def)
  then show ?thesis
  proof cases
    case 1
    then show ?thesis by (simp add: bigint_def dec_value_def digit_value_def show_int_def show_nat.simps char_of_48)
  next
    case 2
    then show ?thesis by (simp add: show_int_def bigint_def show_dec_value_pos)
  qed
qed

lemma canonical_intent_roundtrip:
  assumes "canonicalFillIntentBody raw = Inr i"
  shows "canonicalFillIntentBody (intent_json i) = Inr i"
  using assms
  by (auto simp: canonicalFillIntentBody_def js_simps intent_json_def exactObject_JObj)

lemma canonical_fill_roundtrip:
  assumes "canonicalFillBody raw = Inr f"
  shows "canonicalFillBody (fill_json f) = Inr f"
  using assms
  by (auto simp: canonicalFillBody_def js_simps fill_json_def exactObject_JObj split: if_splits)

lemma canonical_cancel_roundtrip:
  assumes "canonicalCancelBody raw = Inr c"
  shows "canonicalCancelBody (cancel_json c) = Inr c"
  using assms
  by (auto simp: canonicalCancelBody_def js_simps cancel_json_def exactObject_JObj exactUint8_def)

lemma verifyFillIntentV1_again:
  assumes "verifyFillIntentV1 cr now ae raw rawAuth vo = Inr vi" "now \<le> now'"
  shows "verifyFillIntentV1 cr now' True (intent_json (vi_intent vi)) (auth_json (vi_auth vi)) vo = Inr vi"
proof -
  from assms(1) have "canonicalFillIntentBody raw = Inr (vi_intent vi)" "parseAuth rawAuth = Inr (vi_auth vi)"
    by (auto simp: verifyFillIntentV1_def js_simps)
  then have "canonicalFillIntentBody (intent_json (vi_intent vi)) = Inr (vi_intent vi)"
    "parseAuth (auth_json (vi_auth vi)) = Inr (vi_auth vi)"
    by (auto intro: canonical_intent_roundtrip parseAuth_roundtrip dest: parseAuth_wf)
  with assms show ?thesis by (auto simp: verifyFillIntentV1_def js_simps)
qed

lemma verifyFillV1_again:
  assumes "verifyFillV1 cr now ae raw rawAuth vo vi = Inr vf" "now \<le> now'"
  shows "verifyFillV1 cr now' True (fill_json (vf_fill vf)) (auth_json (vf_auth vf)) vo vi = Inr vf"
proof -
  from assms(1) have "canonicalFillBody raw = Inr (vf_fill vf)" "parseAuth rawAuth = Inr (vf_auth vf)"
    by (auto simp: verifyFillV1_def js_simps)
  then have "canonicalFillBody (fill_json (vf_fill vf)) = Inr (vf_fill vf)"
    "parseAuth (auth_json (vf_auth vf)) = Inr (vf_auth vf)"
    by (auto intro: canonical_fill_roundtrip parseAuth_roundtrip dest: parseAuth_wf)
  with assms show ?thesis by (auto simp: verifyFillV1_def js_simps)
qed

lemma verifyCancelV1_again:
  assumes "verifyCancelV1 cr now ae raw rawAuth vo = Inr vc" "now \<le> now'"
  shows "verifyCancelV1 cr now' True (cancel_json (vc_cancel vc)) (auth_json (vc_auth vc)) vo = Inr vc"
proof -
  from assms(1) have "canonicalCancelBody raw = Inr (vc_cancel vc)" "parseAuth rawAuth = Inr (vc_auth vc)"
    by (auto simp: verifyCancelV1_def js_simps)
  then have "canonicalCancelBody (cancel_json (vc_cancel vc)) = Inr (vc_cancel vc)"
    "parseAuth (auth_json (vc_auth vc)) = Inr (vc_auth vc)"
    by (auto intro: canonical_cancel_roundtrip parseAuth_roundtrip dest: parseAuth_wf)
  with assms show ?thesis by (auto simp: verifyCancelV1_def js_simps)
qed

end
