(* ===== verification/Order_Store.thy ===== *)
theory Order_Store
  imports Book_Types
begin

text \<open>
  The order book of \<^verbatim>\<open>server/src/store.ts\<close> as a state machine: every public operation of
  \<^verbatim>\<open>OrderStore\<close> as a function from the book to its answer and the next book. An operation that
  throws still returns a book, because the expiry sweep and the admission log change before the
  refusal. One call reads the clock once (\<open>en_now\<close>); random bytes, SHAKE256 and the signature
  scheme are parameters of the call's environment.
\<close>

section \<open>The book\<close>

datatype fed_kind = EvOrder | EvFillIntent | EvFill | EvCancel | EvRelease

record fed_event =
  fe_kind :: fed_kind
  fe_payload :: jobj

record book =
  bk_orders :: "(string, order) omap"
  bk_seenAt :: "(string, int) omap"
  bk_admissions :: "(string, int list) omap"
  bk_admissionsPrunedAt :: int
  bk_presenceTtlS :: int
  bk_dirty :: bool
  bk_pendingEvents :: "fed_event list"
  bk_notified :: nat

record book_env =
  en_cr :: crypto
  en_shake :: shake256
  en_now :: int
  en_makerToken :: string
  en_shareToken :: string
  en_orderId :: string
  en_takerToken :: string

type_synonym 'a answer = "'a api \<times> book"

definition MAX_OPEN_ORDERS :: nat where "MAX_OPEN_ORDERS = 200"
definition MAX_OPEN_ORDERS_PER_MAKER :: nat where "MAX_OPEN_ORDERS_PER_MAKER = 40"
definition MAX_OPEN_ORDERS_PER_IP :: nat where "MAX_OPEN_ORDERS_PER_IP = 50"
definition MAX_RETAINED_ORDERS :: nat where "MAX_RETAINED_ORDERS = 256"
definition MAX_RETAINED_ORDERS_PER_MAKER :: nat where "MAX_RETAINED_ORDERS_PER_MAKER = 64"
definition MAX_RETAINED_ORDERS_PER_IP :: nat where "MAX_RETAINED_ORDERS_PER_IP = 64"
definition MAX_RETAINED_FEDERATED_ORDERS :: nat where "MAX_RETAINED_FEDERATED_ORDERS = 128"
definition MAX_PUBLIC_PORTABLE_ORDERS :: nat where "MAX_PUBLIC_PORTABLE_ORDERS = 64"
definition MAX_FEDERATED_PUBLIC_PORTABLE_ORDERS :: nat where "MAX_FEDERATED_PUBLIC_PORTABLE_ORDERS = 48"
definition MAX_PUBLIC_PORTABLE_ORDERS_PER_FEDERATION_PEER :: nat where
  "MAX_PUBLIC_PORTABLE_ORDERS_PER_FEDERATION_PEER = 16"
definition OPEN_TTL_S :: int where "OPEN_TTL_S = 48 * 3600"
definition ACCEPTED_TTL_S :: int where "ACCEPTED_TTL_S = 3600"
definition CANCELLED_TTL_S :: int where "CANCELLED_TTL_S = 3600"
definition LOCKING_LINGER_S :: int where "LOCKING_LINGER_S = 24 * 3600"
definition DEFAULT_PRESENCE_TTL_S :: int where "DEFAULT_PRESENCE_TTL_S = 90"
definition MAX_CONCURRENT_TAKES_PER_IP :: nat where "MAX_CONCURRENT_TAKES_PER_IP = 4"
definition MAX_TAKES_PER_IP_PER_DAY :: nat where "MAX_TAKES_PER_IP_PER_DAY = 24"
definition TAKE_WINDOW_S :: int where "TAKE_WINDOW_S = 24 * 3600"
definition MAX_FILL_INTENTS_PER_ORDER :: nat where "MAX_FILL_INTENTS_PER_ORDER = 8"
definition MAX_INTENT_FUTURE_SKEW_S :: int where "MAX_INTENT_FUTURE_SKEW_S = 30"
definition ADMISSION_PRUNE_INTERVAL_S :: int where "ADMISSION_PRUNE_INTERVAL_S = 60"
definition MAX_ADMISSION_SOURCES :: nat where "MAX_ADMISSION_SOURCES = 10000"
definition MAX_CONFLICT_PROOFS :: nat where "MAX_CONFLICT_PROOFS = 2"
definition SIGNED_TERMINAL_GRACE_S :: int where "SIGNED_TERMINAL_GRACE_S = 5 * 60"
definition SIGNED_INTENT_RETENTION_S :: int where
  "SIGNED_INTENT_RETENTION_S = 15 * 60 + SIGNED_TERMINAL_GRACE_S"
definition LOCKING_SLOT_HORIZON_S :: int where "LOCKING_SLOT_HORIZON_S = 2 * 3600"
definition PRELOCK_MIN_T1_S :: int where "PRELOCK_MIN_T1_S = 3 * 3600"
definition PRELOCK_MAX_T1_S :: int where "PRELOCK_MAX_T1_S = 72 * 3600"
definition MIN_TAKEABLE_RUNWAY_S :: int where "MIN_TAKEABLE_RUNWAY_S = 2 * 3600 + 1800"

definition guard_op :: "book \<Rightarrow> 'a api \<Rightarrow> ('a \<Rightarrow> 'b answer) \<Rightarrow> 'b answer" where
  "guard_op bk r k = (case r of Inl e \<Rightarrow> (Inl e, bk) | Inr a \<Rightarrow> k a)"

definition require_that :: "bool \<Rightarrow> store_error \<Rightarrow> unit api" where
  "require_that b e = (if b then Inr () else Inl e)"

definition jint :: "json option \<Rightarrow> int option" where
  "jint j = (case j of Some (JInt n) \<Rightarrow> Some n | _ \<Rightarrow> None)"

definition persist :: "book \<Rightarrow> book" where
  "persist bk = bk\<lparr>bk_dirty := True\<rparr>"

definition publish :: "fed_event \<Rightarrow> book \<Rightarrow> book" where
  "publish ev bk = bk\<lparr>bk_pendingEvents := bk_pendingEvents bk @ [ev]\<rparr>"

definition put_order :: "order \<Rightarrow> book \<Rightarrow> book" where
  "put_order ord bk = bk\<lparr>bk_orders := AList.update (o_id ord) ord (bk_orders bk)\<rparr>"

definition set_seen :: "string \<Rightarrow> int \<Rightarrow> book \<Rightarrow> book" where
  "set_seen oid now bk = bk\<lparr>bk_seenAt := AList.update oid now (bk_seenAt bk)\<rparr>"

definition orders_of :: "book \<Rightarrow> order list" where
  "orders_of bk = map snd (bk_orders bk)"

definition find_order :: "book \<Rightarrow> string \<Rightarrow> order option" where
  "find_order bk oid = map_of (bk_orders bk) oid"


section \<open>The admission log\<close>

definition recentIntentAdmissions :: "string \<Rightarrow> int \<Rightarrow> book \<Rightarrow> int list \<times> book" where
  "recentIntentAdmissions ipHash now bk =
     (let recent = filter (\<lambda>t. t > now - TAKE_WINDOW_S) (nvl (map_of (bk_admissions bk) ipHash) [])
      in (recent, bk\<lparr>bk_admissions := (if recent = [] then AList.delete ipHash (bk_admissions bk)
            else AList.update ipHash recent (bk_admissions bk))\<rparr>))"

definition pruneIntentAdmissions :: "int \<Rightarrow> book \<Rightarrow> book" where
  "pruneIntentAdmissions now bk =
     (if now - bk_admissionsPrunedAt bk < ADMISSION_PRUNE_INTERVAL_S then bk
      else fold (\<lambda>ipHash b. snd (recentIntentAdmissions ipHash now b)) (map fst (bk_admissions bk))
        (bk\<lparr>bk_admissionsPrunedAt := now\<rparr>))"

definition recordIntentAdmission :: "string \<Rightarrow> int \<Rightarrow> book \<Rightarrow> book" where
  "recordIntentAdmission ipHash receivedAt bk =
     (case map_of (bk_admissions bk) ipHash of
        Some admissions \<Rightarrow>
          bk\<lparr>bk_admissions := AList.update ipHash (admissions @ [receivedAt]) (bk_admissions bk)\<rparr>
      | None \<Rightarrow>
          (let bk1 = (if length (bk_admissions bk) \<ge> MAX_ADMISSION_SOURCES
                 then pruneIntentAdmissions receivedAt (bk\<lparr>bk_admissionsPrunedAt := 0\<rparr>) else bk);
               bk2 = (if length (bk_admissions bk1) \<ge> MAX_ADMISSION_SOURCES
                 then bk1\<lparr>bk_admissions := (case bk_admissions bk1 of [] \<Rightarrow> []
                        | (k, _) # _ \<Rightarrow> AList.delete k (bk_admissions bk1))\<rparr> else bk1)
           in bk2\<lparr>bk_admissions := AList.update ipHash [receivedAt] (bk_admissions bk2)\<rparr>))"

definition seedIntentAdmissions :: "crypto \<Rightarrow> int \<Rightarrow> book \<Rightarrow> book" where
  "seedIntentAdmissions cr now bk =
     fold (\<lambda>i b. if st_acceptorIpHash i = cr_sha256Hex cr ''federation'' then b
            else if si_receivedAt i \<le> now - TAKE_WINDOW_S then b
            else recordIntentAdmission (st_acceptorIpHash i) (si_receivedAt i) b)
       (concat (map intents_of (orders_of bk))) bk"


section \<open>Reading the book\<close>

definition isSeen :: "book \<Rightarrow> order \<Rightarrow> int \<Rightarrow> bool" where
  "isSeen bk ord now \<longleftrightarrow> nvl (map_of (bk_seenAt bk) (o_id ord)) 0 + bk_presenceTtlS bk > now"

record public_order =
  pv_order :: order
  pv_released :: bool
  pv_makerSeen :: bool
  pv_conflictDigests :: "string list option"

text \<open>The public view: a removed field is cleared.\<close>

definition redact :: "order \<Rightarrow> order" where
  "redact ord = ord\<lparr>o_makerTokenHash := '''', o_takerTokenHash := None, o_acceptorIpHash := None,
     o_creatorIpHash := None, o_federationSourceHash := None, o_acceptedAt := None, o_shareTokenHash := None,
     o_fillIntents := None, o_conflicts := [], o_orderConflicts := [], o_releasedAt := None, o_releaseSecret := None,
     o_makerAuth := (if usesPortableTerminalProtocol ord then o_makerAuth ord else None),
     o_orderDigest := (if usesPortableTerminalProtocol ord then o_orderDigest ord else None)\<rparr>"

definition pub :: "int \<Rightarrow> book \<Rightarrow> order \<Rightarrow> public_order" where
  "pub now bk ord = \<lparr>pv_order = redact ord, pv_released = (o_releasedAt ord \<noteq> None),
     pv_makerSeen = isSeen bk ord now,
     pv_conflictDigests =
       (if length (o_conflicts ord) + length (o_orderConflicts ord) > 0
        then Some (map oc_orderDigest (o_orderConflicts ord) @ map conflict_digest (o_conflicts ord)) else None)\<rparr>"

definition sweep_expires :: "int \<Rightarrow> order \<Rightarrow> bool" where
  "sweep_expires now ord \<longleftrightarrow>
     (o_status ord = Open \<and> (now - o_updatedAt ord > OPEN_TTL_S \<or>
        (case o_makerAuth ord of None \<Rightarrow> False | Some a \<Rightarrow> now \<ge> pa_expiresAt a))) \<or>
     (o_status ord = Accepted \<and> now - o_updatedAt ord > ACCEPTED_TTL_S)"

definition sweep_removes :: "int \<Rightarrow> order \<Rightarrow> bool" where
  "sweep_removes now ord \<longleftrightarrow>
     (o_status ord = Cancelled \<and>
        (case o_makerAuth ord of None \<Rightarrow> now - o_updatedAt ord > CANCELLED_TTL_S
         | Some a \<Rightarrow> now > pa_expiresAt a + SIGNED_TERMINAL_GRACE_S \<and> now - o_updatedAt ord > SIGNED_TERMINAL_GRACE_S)) \<or>
     (o_status ord = Locking \<and>
        (case o_initiatorTimeout ord of None \<Rightarrow> False | Some t \<Rightarrow> now > t + LOCKING_LINGER_S))"

definition sweep_order :: "int \<Rightarrow> order \<Rightarrow> order option" where
  "sweep_order now ord =
     (let ord1 = ord\<lparr>o_fillIntents := map_option
            (filter (\<lambda>i. pa_expiresAt (si_auth i) + SIGNED_INTENT_RETENTION_S > now)) (o_fillIntents ord)\<rparr>
      in if sweep_expires now ord then Some (ord1\<lparr>o_status := Cancelled, o_updatedAt := now\<rparr>)
         else if sweep_removes now ord then None else Some ord1)"

definition sweep :: "int \<Rightarrow> book \<Rightarrow> book" where
  "sweep now bk =
     (let bk1 = pruneIntentAdmissions now bk;
          kept = concat (map (\<lambda>(k, ord). case sweep_order now ord of None \<Rightarrow> [] | Some ord' \<Rightarrow> [(k, ord')]) (bk_orders bk));
          removed = map (\<lambda>(k, ord). o_id ord) (filter (\<lambda>(k, ord). sweep_order now ord = None) (bk_orders bk));
          bk2 = bk1\<lparr>bk_orders := kept, bk_seenAt := filter (\<lambda>(k, t). k \<notin> set removed) (bk_seenAt bk1)\<rparr>
      in if list_ex (\<lambda>(k, ord). sweep_order now ord \<noteq> Some ord) (bk_orders bk) then persist bk2 else bk2)"

definition hasRunway :: "order \<Rightarrow> int \<Rightarrow> bool" where
  "hasRunway ord now \<longleftrightarrow> \<not> o_prelocked ord \<or>
     (case o_initiatorTimeout ord of None \<Rightarrow> True | Some t \<Rightarrow> t - now \<ge> MIN_TAKEABLE_RUNWAY_S)"

definition listOpen :: "book_env \<Rightarrow> book \<Rightarrow> public_order list answer" where
  "listOpen en bk0 = (let now = en_now en; bk = sweep now bk0 in
     (Inr (map (pub now bk) (js_sort (\<lambda>a b. o_createdAt b - o_createdAt a)
        (filter (\<lambda>ord. \<not> o_equivocated ord)
          (filter (\<lambda>ord. o_status ord = Open \<and> o_visibility ord = Public \<and> hasRunway ord now) (orders_of bk))))), bk))"

definition not_found :: "'a api" where
  "not_found = api_err 404 ''order not found''"

definition lookup_order :: "book \<Rightarrow> string \<Rightarrow> order api" where
  "lookup_order bk oid = (case find_order bk oid of None \<Rightarrow> not_found | Some ord \<Rightarrow> Inr ord)"

text \<open>A private row without its share token answers like a missing one.\<close>

definition hidden_without_share :: "crypto \<Rightarrow> order \<Rightarrow> json option \<Rightarrow> order api" where
  "hidden_without_share cr ord shareToken =
     (if o_visibility ord = Private \<and> \<not> shareAuthorized cr ord shareToken then not_found else Inr ord)"

definition get_order :: "book_env \<Rightarrow> string \<Rightarrow> json option \<Rightarrow> book \<Rightarrow> public_order answer" where
  "get_order en oid shareToken bk0 = (let now = en_now en; bk = sweep now bk0 in
     guard_op bk (js_bind (lookup_order bk oid) (\<lambda>ord. hidden_without_share (en_cr en) ord shareToken))
       (\<lambda>ord. (Inr (pub now bk ord), bk)))"

definition matchesMakerCapability :: "crypto \<Rightarrow> string \<Rightarrow> json option \<Rightarrow> book \<Rightarrow> bool" where
  "matchesMakerCapability cr oid token bk =
     (case find_order bk oid of None \<Rightarrow> False | Some ord \<Rightarrow> makerAuthorized cr ord token)"


section \<open>Creating orders\<close>

record created =
  cd_order :: public_order
  cd_makerToken :: string
  cd_shareToken :: "string option"

definition order_event :: "verified_order \<Rightarrow> fed_event" where
  "order_event vo = \<lparr>fe_kind = EvOrder, fe_payload =
     [(''order'', JObj (order_body_obj (vo_order vo))), (''auth'', maker_auth_json (vo_auth vo))]\<rparr>"

definition capacity_err :: "nat \<Rightarrow> string \<Rightarrow> store_error" where
  "capacity_err status message = ApiError status message (Some TransientCapacity) False"

definition bad :: "nat \<Rightarrow> string \<Rightarrow> store_error" where
  "bad status message = ApiError status message None False"

definition same_maker :: "string \<Rightarrow> string \<Rightarrow> order \<Rightarrow> bool" where
  "same_maker eth qrl ord \<longleftrightarrow> to_lower (o_makerEthAccount ord) = to_lower eth \<and>
     to_lower (o_makerQrlAccount ord) = to_lower qrl"

definition count_where :: "('a \<Rightarrow> bool) \<Rightarrow> 'a list \<Rightarrow> nat" where
  "count_where P xs = length (filter P xs)"

definition is_open :: "order \<Rightarrow> bool" where
  "is_open ord \<longleftrightarrow> o_status ord = Open"

definition create_totals :: "order list \<Rightarrow> unit api" where
  "create_totals retained =
     throw_if (length retained \<ge> MAX_RETAINED_ORDERS)
       (capacity_err 503 ''order book retained-state capacity is full'')
    (throw_if (count_where is_open retained \<ge> MAX_OPEN_ORDERS) (capacity_err 503 ''order book is full'') (Inr ()))"

definition create_limits :: "order list \<Rightarrow> string \<Rightarrow> string \<Rightarrow> string \<Rightarrow> bool \<Rightarrow> unit api" where
  "create_limits retained eth qrl creatorIpHash federated =
     throw_if (count_where (same_maker eth qrl) (filter is_open retained) \<ge> MAX_OPEN_ORDERS_PER_MAKER)
       (capacity_err 429 ''maker already has too many open orders'')
    (throw_if (count_where (same_maker eth qrl) retained \<ge> MAX_RETAINED_ORDERS_PER_MAKER)
       (capacity_err 429 ''maker already has too many retained order artifacts'')
    (throw_if (\<not> federated \<and>
        count_where (\<lambda>ord. o_creatorIpHash ord = Some creatorIpHash) (filter is_open retained) \<ge> MAX_OPEN_ORDERS_PER_IP)
       (capacity_err 429 ''source already has too many open orders'')
    (throw_if (count_where (\<lambda>ord. o_creatorIpHash ord = Some creatorIpHash) retained
        \<ge> (if federated then MAX_RETAINED_FEDERATED_ORDERS else MAX_RETAINED_ORDERS_PER_IP))
       (capacity_err 429 ''source already has too many retained order artifacts'') (Inr ()))))"

definition create_visibility :: "jobj \<Rightarrow> visibility api" where
  "create_visibility body =
     (case map_of body ''visibility'' of None \<Rightarrow> Inr Public
      | Some raw \<Rightarrow> (case parse_visibility (Some raw) of Some v \<Rightarrow> Inr v
          | None \<Rightarrow> Inl (bad 400 ''visibility must be public or private'')))"

definition public_portable :: "order \<Rightarrow> bool" where
  "public_portable ord \<longleftrightarrow> o_visibility ord = Public \<and> usesPortableTerminalProtocol ord"

definition federation_hash :: "crypto \<Rightarrow> string option \<Rightarrow> string" where
  "federation_hash cr source = cr_sha256Hex cr (''federation:'' @ nvl source ''unknown'')"

definition portable_limits :: "crypto \<Rightarrow> order list \<Rightarrow> bool \<Rightarrow> visibility \<Rightarrow> bool \<Rightarrow> string option \<Rightarrow> unit api" where
  "portable_limits cr retained signed visibility federated source =
     throw_if (signed \<and> visibility = Public \<and> count_where public_portable retained \<ge> MAX_PUBLIC_PORTABLE_ORDERS)
       (capacity_err 503 ''portable public-order capacity is full'')
    (if signed \<and> visibility = Public \<and> federated then
       (let federatedOrders = filter (\<lambda>ord. public_portable ord \<and> o_federationSourceHash ord \<noteq> None) retained in
        throw_if (length federatedOrders \<ge> MAX_FEDERATED_PUBLIC_PORTABLE_ORDERS)
          (capacity_err 503 ''federated portable public-order capacity is full'')
       (throw_if (count_where (\<lambda>ord. o_federationSourceHash ord = Some (federation_hash cr source)) federatedOrders
            \<ge> MAX_PUBLIC_PORTABLE_ORDERS_PER_FEDERATION_PEER)
          (capacity_err 429 ''federation source already has too many portable public orders'') (Inr ())))
     else Inr ())"

record access =
  ac_shareToken :: "string option"
  ac_takerEth :: "string option"
  ac_takerQrl :: "string option"

definition opt_address :: "json option \<Rightarrow> string \<Rightarrow> (string \<Rightarrow> bool) \<Rightarrow> string option api" where
  "opt_address raw field re =
     (case raw of None \<Rightarrow> Inr None | Some _ \<Rightarrow> js_bind (requireAddress raw field re) (\<lambda>a. Inr (Some a)))"

definition create_access :: "book_env \<Rightarrow> jobj \<Rightarrow> visibility \<Rightarrow> bool \<Rightarrow> bool \<Rightarrow> capabilities option \<Rightarrow> access api" where
  "create_access en body visibility signed federated caps =
     (if visibility = Private then
        (let shareToken = (if \<not> signed then Some (en_shareToken en)
             else (case caps of None \<Rightarrow> None | Some c \<Rightarrow> cap_shareToken c)) in
         throw_if (shareToken = None \<and> \<not> federated) (bad 400 ''private signed order shareToken is missing'')
        (js_bind (opt_address (map_of body ''allowedTakerEth'') ''allowedTakerEth'' ETH_ADDR_RE) (\<lambda>e.
         js_bind (opt_address (map_of body ''allowedTakerQrl'') ''allowedTakerQrl'' QRL_ADDR_RE) (\<lambda>q.
           Inr \<lparr>ac_shareToken = shareToken, ac_takerEth = e, ac_takerQrl = q\<rparr>))))
      else throw_if (map_of body ''allowedTakerEth'' \<noteq> None \<or> map_of body ''allowedTakerQrl'' \<noteq> None)
        (bad 400 ''taker restrictions require a private order'')
        (Inr \<lparr>ac_shareToken = None, ac_takerEth = None, ac_takerQrl = None\<rparr>))"

definition hashlock_in_use :: "string \<Rightarrow> order list \<Rightarrow> bool" where
  "hashlock_in_use h os = list_ex (\<lambda>other. o_hashlock other = Some h \<and> o_status other \<noteq> Cancelled) os"

definition create_prelock :: "jobj \<Rightarrow> int \<Rightarrow> bool \<Rightarrow> order list \<Rightarrow> prelock_terms option api" where
  "create_prelock body now federated retained =
     (case map_of body ''prelock'' of
        None \<Rightarrow> Inr None
      | Some (JObj p) \<Rightarrow>
          (case jstr (map_of p ''hashlock'') of
             None \<Rightarrow> Inl (bad 400 ''prelock.hashlock must be 32 bytes of lowercase hex'')
           | Some h \<Rightarrow>
               throw_if (\<not> HASHLOCK_RE h) (bad 400 ''prelock.hashlock must be 32 bytes of lowercase hex'')
              (case jint (map_of p ''initiatorTimeout'') of
                 None \<Rightarrow> Inl (bad 400 ''prelock.initiatorTimeout must be a unix-second integer'')
               | Some t \<Rightarrow>
                   throw_if (\<not> federated \<and> t < now + PRELOCK_MIN_T1_S)
                     (bad 400 ''prelock.initiatorTimeout is too soon for a takeable listing'')
                  (throw_if (\<not> federated \<and> t > now + PRELOCK_MAX_T1_S)
                     (bad 400 ''prelock.initiatorTimeout is too far out'')
                  (throw_if (hashlock_in_use (to_lower h) retained)
                     (bad 409 ''an order with this hashlock already exists'')
                     (Inr (Some \<lparr>pl_hashlock = to_lower h, pl_initiatorTimeout = t\<rparr>))))))
      | Some _ \<Rightarrow> Inl (bad 400 ''prelock must be an object''))"

record new_terms =
  nt_direction :: direction
  nt_asset :: asset_symbol
  nt_fromAmount :: string
  nt_toAmount :: string
  nt_makerEth :: string
  nt_makerQrl :: string
  nt_visibility :: visibility
  nt_access :: access
  nt_prelock :: "prelock_terms option"
  nt_id :: string

definition create_terms :: "book_env \<Rightarrow> jobj \<Rightarrow> string \<Rightarrow> verified_order option \<Rightarrow> bool \<Rightarrow> capabilities option
    \<Rightarrow> string option \<Rightarrow> book \<Rightarrow> new_terms api" where
  "create_terms en body makerIp verified federated caps source bk =
     (let retained = orders_of bk; cr = en_cr en; now = en_now en in
     js_bind (create_totals retained) (\<lambda>_.
     js_bind (requireDirection (map_of body ''direction'')) (\<lambda>dir.
     js_bind (requireAsset (map_of body ''asset'')) (\<lambda>asset.
     js_bind (requireAmount (map_of body ''fromAmount'') ''fromAmount''
        (if dir = EthToQrl then asset_bounds asset else QRL_BOUNDS)) (\<lambda>fa.
     js_bind (requireAmount (map_of body ''toAmount'') ''toAmount''
        (if dir = EthToQrl then QRL_BOUNDS else asset_bounds asset)) (\<lambda>ta.
     js_bind (requireAddress (map_of body ''makerEthAccount'') ''makerEthAccount'' ETH_ADDR_RE) (\<lambda>me.
     js_bind (requireAddress (map_of body ''makerQrlAccount'') ''makerQrlAccount'' QRL_ADDR_RE) (\<lambda>mq.
     js_bind (create_limits retained me mq (cr_sha256Hex cr makerIp) federated) (\<lambda>_.
     js_bind (create_visibility body) (\<lambda>v.
     js_bind (portable_limits cr retained (verified \<noteq> None) v federated source) (\<lambda>_.
     js_bind (create_access en body v (verified \<noteq> None) federated caps) (\<lambda>ac.
     js_bind (create_prelock body now federated retained) (\<lambda>pl.
     (let oid = (case verified of None \<Rightarrow> en_orderId en | Some vo \<Rightarrow> vo_orderId vo) in
     throw_if (find_order bk oid \<noteq> None) (bad 409 ''order already exists'')
    (throw_if (case verified of None \<Rightarrow> False | Some vo \<Rightarrow> \<not> federated \<and>
        list_ex (\<lambda>c. o_id c \<noteq> oid \<and> (o_makerTokenHash c = drop 2 (pa_makerTokenCommitment (vo_auth vo)) \<or>
          o_shareTokenHash c = Some (drop 2 (pa_shareTokenCommitment (vo_auth vo))))) retained)
       (bad 409 ''signed order capability commitment is already in use'')
    (throw_if (verified = None \<and> v = Private \<and> ac_shareToken ac = None)
       (bad 400 ''private order shareToken is missing'')
       (Inr \<lparr>nt_direction = dir, nt_asset = asset, nt_fromAmount = fa, nt_toAmount = ta, nt_makerEth = me,
          nt_makerQrl = mq, nt_visibility = v, nt_access = ac, nt_prelock = pl, nt_id = oid\<rparr>)))))))))))))))))"

definition new_order :: "book_env \<Rightarrow> string \<Rightarrow> verified_order option \<Rightarrow> bool \<Rightarrow> string option \<Rightarrow> new_terms \<Rightarrow> order" where
  "new_order en makerIp verified federated source nt =
     (let cr = en_cr en; now = en_now en in
      \<lparr>o_id = nt_id nt, o_direction = nt_direction nt, o_asset = nt_asset nt, o_fromAmount = nt_fromAmount nt,
       o_toAmount = nt_toAmount nt, o_makerEthAccount = nt_makerEth nt, o_makerQrlAccount = nt_makerQrl nt,
       o_status = Open, o_takerEthAccount = None, o_takerQrlAccount = None,
       o_hashlock = map_option pl_hashlock (nt_prelock nt),
       o_initiatorTimeout = map_option pl_initiatorTimeout (nt_prelock nt), o_responderTimeout = None,
       o_prelocked = (nt_prelock nt \<noteq> None), o_createdAt = now, o_updatedAt = now,
       o_visibility = nt_visibility nt,
       o_shareTokenHash = (if nt_visibility nt = Private then
          (case verified of Some vo \<Rightarrow> Some (drop 2 (pa_shareTokenCommitment (vo_auth vo)))
           | None \<Rightarrow> map_option (cr_sha256Hex cr) (ac_shareToken (nt_access nt))) else None),
       o_allowedTakerEth = ac_takerEth (nt_access nt), o_allowedTakerQrl = ac_takerQrl (nt_access nt),
       o_makerTokenHash = (case verified of Some vo \<Rightarrow> drop 2 (pa_makerTokenCommitment (vo_auth vo))
          | None \<Rightarrow> cr_sha256Hex cr (en_makerToken en)),
       o_takerTokenHash = None, o_acceptorIpHash = None, o_creatorIpHash = Some (cr_sha256Hex cr makerIp),
       o_federationSourceHash = (if federated then Some (federation_hash cr source) else None),
       o_makerAuth = map_option vo_auth verified, o_orderDigest = map_option vo_orderDigest verified,
       o_fillIntents = (if verified = None then None else Some []),
       o_fill = None, o_fillAuth = None, o_fillDigest = None, o_selectedIntent = None,
       o_cancelProof = None, o_cancelAuth = None, o_cancelDigest = None, o_equivocated = False,
       o_conflicts = [], o_orderConflicts = [], o_acceptedAt = None, o_releasedAt = None, o_releaseSecret = None\<rparr>)"

definition create_replay :: "book_env \<Rightarrow> verified_order \<Rightarrow> bool \<Rightarrow> capabilities option \<Rightarrow> order \<Rightarrow> book \<Rightarrow> created answer" where
  "create_replay en verified federated caps existing bk =
     (let now = en_now en in
      if o_orderDigest existing \<noteq> Some (vo_orderDigest verified)
        then (Inl (bad 409 ''order id conflicts with another signed order''), bk)
      else if federated \<or> caps = None
        then (Inr \<lparr>cd_order = pub now bk existing, cd_makerToken = '''', cd_shareToken = None\<rparr>, bk)
      else if \<not> fixedHexMatches (o_makerTokenHash existing) (drop 2 (pa_makerTokenCommitment (vo_auth verified))) \<or>
          (o_visibility existing = Private \<and> (case o_shareTokenHash existing of None \<Rightarrow> True
             | Some h \<Rightarrow> \<not> fixedHexMatches h (drop 2 (pa_shareTokenCommitment (vo_auth verified)))))
        then (Inl (bad 409 ''stored order capabilities do not match the signed proof''), bk)
      else (let bk1 = set_seen (o_id existing) now bk in
        (Inr \<lparr>cd_order = pub now bk1 existing, cd_makerToken = cap_makerToken (the caps),
           cd_shareToken = cap_shareToken (the caps)\<rparr>, bk1)))"

definition insert_new :: "book_env \<Rightarrow> string \<Rightarrow> verified_order option \<Rightarrow> bool \<Rightarrow> capabilities option \<Rightarrow> string option
    \<Rightarrow> new_terms \<Rightarrow> book \<Rightarrow> created answer" where
  "insert_new en makerIp verified federated caps source nt bk =
     (let now = en_now en; ord = new_order en makerIp verified federated source nt;
          bk1 = put_order ord bk;
          bk2 = (if federated then bk1 else set_seen (o_id ord) now bk1);
          bk3 = persist bk2;
          bk4 = (case verified of Some vo \<Rightarrow> if nt_visibility nt = Public then publish (order_event vo) bk3 else bk3
                 | None \<Rightarrow> bk3)
      in (Inr \<lparr>cd_order = pub now bk4 ord,
            cd_makerToken = (case verified of None \<Rightarrow> en_makerToken en
               | Some _ \<Rightarrow> (case caps of None \<Rightarrow> '''' | Some c \<Rightarrow> cap_makerToken c)),
            cd_shareToken = ac_shareToken (nt_access nt)\<rparr>, bk4))"

definition createInternal :: "book_env \<Rightarrow> jobj \<Rightarrow> string \<Rightarrow> verified_order option \<Rightarrow> bool \<Rightarrow> capabilities option
    \<Rightarrow> string option \<Rightarrow> book \<Rightarrow> created answer" where
  "createInternal en body makerIp verified federated caps source bk0 =
     (let bk = sweep (en_now en) bk0 in
      case (case verified of None \<Rightarrow> None | Some vo \<Rightarrow> map_option (Pair vo) (find_order bk (vo_orderId vo))) of
        Some (vo, existing) \<Rightarrow> create_replay en vo federated caps existing bk
      | None \<Rightarrow>
          guard_op bk (create_terms en body makerIp verified federated caps source bk)
            (\<lambda>nt. insert_new en makerIp verified federated caps source nt bk))"

definition assertLegacyOrderProtocolInput :: "shake256 \<Rightarrow> json option \<Rightarrow> unit api" where
  "assertLegacyOrderProtocolInput shake account =
     require_that (case jstr account of None \<Rightarrow> False | Some a \<Rightarrow> isQip55QrlAddress shake a)
       (bad 409 ''The v3 order book requires a QIP-55 64-byte QRL account'')"

definition create_order :: "book_env \<Rightarrow> jobj \<Rightarrow> string \<Rightarrow> book \<Rightarrow> created answer" where
  "create_order en body makerIp bk =
     guard_op bk (assertLegacyOrderProtocolInput (en_shake en) (map_of body ''makerQrlAccount''))
       (\<lambda>_. createInternal en body makerIp None False None None bk)"

definition createVerified :: "book_env \<Rightarrow> verified_order \<Rightarrow> json option \<Rightarrow> json option \<Rightarrow> string \<Rightarrow> book \<Rightarrow> created answer" where
  "createVerified en verified rawMaker rawShare makerIp bk =
     guard_op bk (signedCreateCapabilities (en_cr en) verified rawMaker rawShare)
       (\<lambda>caps. createInternal en (order_body_obj (vo_order verified)) makerIp (Some verified) False (Some caps) None bk)"

definition federation_source_ok :: "string \<Rightarrow> bool" where
  "federation_source_ok s \<longleftrightarrow> 1 \<le> length s \<and> length s \<le> 64 \<and>
     list_all (\<lambda>c. char_in 97 122 c \<or> is_digit c \<or> c = CHR ''-'') s \<and> hd s \<noteq> CHR ''-''"

text \<open>\<^verbatim>\<open>while (xs.length > n) xs.shift()\<close>.\<close>

definition keep_last :: "nat \<Rightarrow> 'a list \<Rightarrow> 'a list" where
  "keep_last n xs = drop (length xs - n) xs"

definition record_order_conflict :: "int \<Rightarrow> verified_order \<Rightarrow> order \<Rightarrow> order" where
  "record_order_conflict now verified existing =
     existing\<lparr>o_orderConflicts := keep_last MAX_CONFLICT_PROOFS (o_orderConflicts existing @
         [\<lparr>oc_orderDigest = vo_orderDigest verified, oc_order = vo_order verified, oc_auth = vo_auth verified\<rparr>]),
       o_equivocated := True,
       o_status := (if o_status existing = Open \<or> o_status existing = Accepted then Cancelled else o_status existing),
       o_updatedAt := now\<rparr>"

definition importVerifiedOrder :: "book_env \<Rightarrow> verified_order \<Rightarrow> string \<Rightarrow> book \<Rightarrow> public_order answer" where
  "importVerifiedOrder en verified source bk0 =
     (let now = en_now en; bk = sweep now bk0 in
      if ob_visibility (vo_order verified) \<noteq> Public
        then (Inl (bad 400 ''private signed orders are origin-only''), bk)
      else case find_order bk (vo_orderId verified) of
        Some existing \<Rightarrow>
          (if o_orderDigest existing = Some (vo_orderDigest verified) then (Inr (pub now bk existing), bk)
           else if list_ex (\<lambda>c. oc_orderDigest c = vo_orderDigest verified) (o_orderConflicts existing)
             then (Inr (pub now bk existing), bk)
           else (let ord = record_order_conflict now verified existing;
                     bk1 = persist (put_order ord bk);
                     bk2 = (if o_visibility ord = Public then publish (order_event verified) bk1 else bk1)
                 in (Inr (pub now bk2 ord), bk2)))
      | None \<Rightarrow>
          (if \<not> federation_source_ok source then (Inl (bad 400 ''federation source id is invalid''), bk)
           else (case createInternal en (order_body_obj (vo_order verified)) (''federation:'' @ source) (Some verified)
                   True None (Some source) bk of
                 (r, bk1) \<Rightarrow> (js_bind r (\<lambda>c. Inr (cd_order c)), bk1))))"


section \<open>Fill intents\<close>

definition liveIntentCount :: "stored_intent list \<Rightarrow> int \<Rightarrow> nat" where
  "liveIntentCount intents now = count_where (\<lambda>i. isLiveIntent i now) intents"

definition sourceLiveIntentCount :: "book \<Rightarrow> string \<Rightarrow> int \<Rightarrow> nat" where
  "sourceLiveIntentCount bk ipHash now =
     count_where (\<lambda>i. st_acceptorIpHash i = ipHash \<and> isLiveIntent i now) (concat (map intents_of (orders_of bk)))"

definition evictionOrder :: "stored_intent \<Rightarrow> stored_intent \<Rightarrow> int" where
  "evictionOrder l r =
     or_else (of_bool (st_releasedAt l \<noteq> None) - of_bool (st_releasedAt r \<noteq> None))
       (pa_expiresAt (si_auth l) - pa_expiresAt (si_auth r))"

definition bookIntentPriority :: "stored_intent \<Rightarrow> int" where
  "bookIntentPriority i = max (pa_issuedAt (si_auth i)) (si_receivedAt i)"

definition intentListOrder :: "stored_intent \<Rightarrow> stored_intent \<Rightarrow> int" where
  "intentListOrder l r =
     or_else (bookIntentPriority l - bookIntentPriority r)
       (or_else (pa_issuedAt (si_auth l) - pa_issuedAt (si_auth r))
         (locale_compare (si_intentDigest l) (si_intentDigest r)))"

definition intent_event :: "order \<Rightarrow> fill_intent_body \<Rightarrow> protocol_auth \<Rightarrow> fed_event" where
  "intent_event ord body auth = \<lparr>fe_kind = EvFillIntent, fe_payload =
     [(''orderId'', JStr (o_id ord)), (''intent'', intent_json body), (''auth'', auth_json auth)]\<rparr>"

definition short_runway :: store_error where
  "short_runway = bad 409 ''this pre-funded order has too little time left to swap safely''"

definition no_longer_open :: store_error where
  "no_longer_open = bad 409 ''order is no longer open''"

definition too_many_pending :: store_error where
  "too_many_pending = capacity_err 429 ''this order already has too many pending fill intents''"

definition requests_in_progress :: store_error where
  "requests_in_progress = bad 429 ''you already have fill requests in progress; finish or let them expire''"

definition daily_limit :: store_error where
  "daily_limit = bad 429 ''daily fill intent limit reached; leave some liquidity for others''"

text \<open>The refusals before any signature work; the admission log is pruned by the last of them.\<close>

definition shedFillIntent :: "crypto \<Rightarrow> int \<Rightarrow> order \<Rightarrow> json \<Rightarrow> string \<Rightarrow> book \<Rightarrow> unit answer" where
  "shedFillIntent cr now ord rawAuth takerIp bk =
     (let intents = intents_of ord;
          claimedNonce = (case rawAuth of JObj a \<Rightarrow> jstr (map_of a ''nonce'') | _ \<Rightarrow> None);
          ipHash = cr_sha256Hex cr takerIp in
      if (case claimedNonce of None \<Rightarrow> False | Some n \<Rightarrow> list_ex (\<lambda>i. pa_nonce (si_auth i) = n) intents)
        then (Inr (), bk)
      else if o_status ord \<noteq> Open \<or> o_equivocated ord then (shed (Inl no_longer_open), bk)
      else if \<not> hasRunway ord now then (shed (Inl short_runway), bk)
      else if liveIntentCount intents now \<ge> MAX_FILL_INTENTS_PER_ORDER then (shed (Inl too_many_pending), bk)
      else if sourceLiveIntentCount bk ipHash now \<ge> MAX_CONCURRENT_TAKES_PER_IP
        then (shed (Inl requests_in_progress), bk)
      else (case recentIntentAdmissions ipHash now bk of (recent, bk1) \<Rightarrow>
        if length recent \<ge> MAX_TAKES_PER_IP_PER_DAY then (shed (Inl daily_limit), bk1) else (Inr (), bk1)))"

definition evict_for :: "verified_intent \<Rightarrow> int \<Rightarrow> stored_intent list \<Rightarrow> stored_intent list api" where
  "evict_for verified now intents =
     (if length intents \<ge> MAX_FILL_INTENTS_PER_ORDER then
        (case first_of (js_sort evictionOrder (filter (\<lambda>i. \<not> isLiveIntent i now \<and>
            (pa_expiresAt (vi_auth verified) > now \<or> pa_expiresAt (si_auth i) < pa_expiresAt (vi_auth verified))) intents)) of
           None \<Rightarrow> Inl (capacity_err 429 ''this order already has too many retained fill intents'')
         | Some candidate \<Rightarrow> Inr (remove1 candidate intents))
      else Inr intents)"

definition new_intent :: "verified_intent \<Rightarrow> int \<Rightarrow> string \<Rightarrow> stored_intent" where
  "new_intent verified now ipHash = \<lparr>si_intentDigest = vi_intentDigest verified, si_intent = vi_intent verified,
     si_auth = vi_auth verified, si_receivedAt = now, st_acceptorIpHash = ipHash, st_releasedAt = None,
     st_releaseSecret = None\<rparr>"

definition admit_intent :: "int \<Rightarrow> order \<Rightarrow> verified_intent \<Rightarrow> string \<Rightarrow> bool \<Rightarrow> stored_intent list \<Rightarrow> book
    \<Rightarrow> selected_fill_intent answer" where
  "admit_intent now ord verified ipHash federated intents bk =
     (let stored = new_intent verified now ipHash;
          ord1 = ord\<lparr>o_fillIntents := Some (intents @ [stored]), o_updatedAt := now\<rparr>;
          bk1 = put_order ord1 bk;
          bk2 = (if federated then bk1 else recordIntentAdmission ipHash now bk1);
          bk3 = persist bk2;
          bk4 = (if o_visibility ord = Public then publish (intent_event ord (vi_intent verified) (vi_auth verified)) bk3
             else bk3)
      in (Inr (public_intent stored), bk4))"

definition storeFillIntent :: "crypto \<Rightarrow> int \<Rightarrow> order \<Rightarrow> verified_intent \<Rightarrow> string \<Rightarrow> bool \<Rightarrow> book
    \<Rightarrow> selected_fill_intent answer" where
  "storeFillIntent cr now ord verified takerIp federated bk =
     (let intents = intents_of ord; ipHash = cr_sha256Hex cr takerIp;
          incomingLive = pa_expiresAt (vi_auth verified) > now in
      case find (\<lambda>i. si_intentDigest i = vi_intentDigest verified) intents of
        Some replay \<Rightarrow> (Inr (public_intent replay), bk)
      | None \<Rightarrow>
        (if list_ex (\<lambda>i. pa_nonce (si_auth i) = pa_nonce (vi_auth verified)) intents
           then (Inl (bad 409 ''fill intent nonce conflicts with another signed intent''), bk)
         else if incomingLive \<and> liveIntentCount intents now \<ge> MAX_FILL_INTENTS_PER_ORDER
           then (Inl too_many_pending, bk)
         else if federated then
           guard_op bk (evict_for verified now intents) (\<lambda>kept. admit_intent now ord verified ipHash federated kept bk)
         else if list_ex (\<lambda>i. st_releasedAt i = None \<and> isLiveIntent i now \<and>
              fi_takerQrlAccount (si_intent i) = fi_takerQrlAccount (vi_intent verified)) intents
           then (Inl (bad 409 ''you already have a pending fill request for this order; wait for it to expire or release it''), bk)
         else if sourceLiveIntentCount bk ipHash now \<ge> MAX_CONCURRENT_TAKES_PER_IP
           then (Inl requests_in_progress, bk)
         else (case recentIntentAdmissions ipHash now bk of (recent, bk1) \<Rightarrow>
           if length recent \<ge> MAX_TAKES_PER_IP_PER_DAY then (Inl daily_limit, bk1)
           else guard_op bk1 (evict_for verified now intents)
             (\<lambda>kept. admit_intent now ord verified ipHash federated kept bk1))))"

definition submit_target :: "crypto \<Rightarrow> string \<Rightarrow> json option \<Rightarrow> book \<Rightarrow> order api" where
  "submit_target cr oid shareToken bk =
     shed (js_bind (lookup_order bk oid) (\<lambda>ord.
           js_bind (hidden_without_share cr ord shareToken) (\<lambda>ord.
           throw_if (\<not> usesPortableTerminalProtocol ord) (bad 409 ''legacy orders use the accept endpoint'') (Inr ord))))"

definition submitFillIntent :: "book_env \<Rightarrow> string \<Rightarrow> json \<Rightarrow> json \<Rightarrow> string \<Rightarrow> json option \<Rightarrow> book
    \<Rightarrow> selected_fill_intent answer" where
  "submitFillIntent en oid rawIntent rawAuth takerIp shareToken bk0 =
     (let cr = en_cr en; now = en_now en; bk = sweep now bk0 in
      guard_op bk (submit_target cr oid shareToken bk) (\<lambda>ord.
      case shedFillIntent cr now ord rawAuth takerIp bk of (gate, bk1) \<Rightarrow>
      guard_op bk1 (js_bind gate (\<lambda>_. js_bind (verifiedSignedOrder cr now ord) (\<lambda>vo.
          verifyFillIntentV1 cr now False rawIntent rawAuth vo))) (\<lambda>verified.
      case find (\<lambda>i. si_intentDigest i = vi_intentDigest verified) (intents_of ord) of
        Some replay \<Rightarrow> (Inr (public_intent replay), bk1)
      | None \<Rightarrow>
        (if o_status ord \<noteq> Open \<or> o_equivocated ord then (Inl no_longer_open, bk1)
         else if pa_issuedAt (vi_auth verified) > now + MAX_INTENT_FUTURE_SKEW_S
           then (Inl (bad 400 ''fill request is dated in the future; check your device clock''), bk1)
         else if \<not> hasRunway ord now then (Inl short_runway, bk1)
         else storeFillIntent cr now ord verified takerIp False bk1))))"

definition unavailable :: "string \<Rightarrow> store_error" where
  "unavailable message = ApiError 409 message (Some FederationDependency) False"

definition import_target :: "book \<Rightarrow> string \<Rightarrow> order api" where
  "import_target bk oid =
     (case find_order bk oid of None \<Rightarrow> Inl (unavailable ''referenced public order is unavailable'')
      | Some ord \<Rightarrow> if public_portable ord then Inr ord else Inl (unavailable ''referenced public order is unavailable''))"

definition importFillIntent :: "book_env \<Rightarrow> string \<Rightarrow> json \<Rightarrow> json \<Rightarrow> book \<Rightarrow> selected_fill_intent answer" where
  "importFillIntent en oid rawIntent rawAuth bk0 =
     (let cr = en_cr en; now = en_now en; bk = sweep now bk0 in
      guard_op bk (js_bind (import_target bk oid) (\<lambda>ord. js_bind (verifiedSignedOrder cr now ord) (\<lambda>vo.
          js_bind (verifyFillIntentV1 cr now True rawIntent rawAuth vo) (\<lambda>vi. Inr (ord, vi))))) (\<lambda>(ord, verified).
      case find (\<lambda>i. si_intentDigest i = vi_intentDigest verified) (intents_of ord) of
        Some replay \<Rightarrow> (Inr (public_intent replay), bk)
      | None \<Rightarrow>
        (if (o_status ord \<noteq> Open \<and> \<not> (o_status ord = Cancelled \<and> o_cancelProof ord = None)) \<or> o_equivocated ord
           then (Inl no_longer_open, bk)
         else storeFillIntent cr now ord verified ''federation'' True bk)))"

definition offered_intents :: "int \<Rightarrow> order \<Rightarrow> stored_intent list" where
  "offered_intents now ord = filter (\<lambda>i. st_releasedAt i = None \<and> pa_issuedAt (si_auth i) \<le> now \<and>
     pa_expiresAt (si_auth i) > now) (intents_of ord)"

definition listFillIntents :: "book_env \<Rightarrow> string \<Rightarrow> json option \<Rightarrow> book \<Rightarrow> selected_fill_intent list answer" where
  "listFillIntents en oid makerToken bk0 =
     (let now = en_now en; bk = sweep now bk0 in
      guard_op bk (js_bind (lookup_order bk oid) (\<lambda>ord.
          throw_if (\<not> usesPortableTerminalProtocol ord) (bad 409 ''order is not portable'')
         (js_bind (if o_visibility ord = Private then authorized (en_cr en) ord makerToken else Inr ()) (\<lambda>_. Inr ord))))
       (\<lambda>ord. if o_status ord \<noteq> Open \<or> o_equivocated ord then (Inr [], bk)
          else (Inr (map public_intent (js_sort intentListOrder (offered_intents now ord))), bk)))"


section \<open>Terminal proofs\<close>

definition rememberTerminalConflict :: "int \<Rightarrow> order \<Rightarrow> terminal_conflict \<Rightarrow> order option" where
  "rememberTerminalConflict now ord evidence =
     (if Some (conflict_digest evidence) = o_fillDigest ord \<or> Some (conflict_digest evidence) = o_cancelDigest ord \<or>
         list_ex (\<lambda>c. conflict_digest c = conflict_digest evidence) (o_conflicts ord)
      then None
      else Some (ord\<lparr>o_conflicts := keep_last MAX_CONFLICT_PROOFS (o_conflicts ord @ [evidence]),
             o_equivocated := True, o_updatedAt := now\<rparr>))"

definition commit_terminal :: "int \<Rightarrow> fed_event \<Rightarrow> order \<Rightarrow> book \<Rightarrow> public_order answer" where
  "commit_terminal now ev ord bk =
     (let bk1 = persist (put_order ord bk);
          bk2 = (if o_visibility ord = Public then publish ev bk1 else bk1)
      in (Inr (pub now bk2 ord), bk2))"

definition record_conflict :: "int \<Rightarrow> fed_event \<Rightarrow> terminal_conflict \<Rightarrow> order \<Rightarrow> book \<Rightarrow> public_order answer" where
  "record_conflict now ev evidence ord bk =
     (case rememberTerminalConflict now ord evidence of
        None \<Rightarrow> (Inr (pub now bk ord), bk)
      | Some ord1 \<Rightarrow> commit_terminal now ev ord1 bk)"

definition terminal_target :: "crypto \<Rightarrow> string \<Rightarrow> bool \<Rightarrow> json option \<Rightarrow> string \<Rightarrow> book \<Rightarrow> order api" where
  "terminal_target cr oid federated makerToken legacyMessage bk =
     (case find_order bk oid of
        None \<Rightarrow> Inl (if federated then unavailable ''order not found'' else bad 404 ''order not found'')
      | Some ord \<Rightarrow>
          throw_if (federated \<and> o_visibility ord \<noteq> Public) (bad 409 ''private signed orders are origin-only'')
         (js_bind (if \<not> federated \<and> o_visibility ord = Private then authorized cr ord makerToken else Inr ()) (\<lambda>_.
          throw_if (\<not> usesPortableTerminalProtocol ord) (bad 409 legacyMessage) (Inr ord))))"

definition fill_event :: "order \<Rightarrow> fill_body \<Rightarrow> protocol_auth \<Rightarrow> fill_intent_body \<Rightarrow> protocol_auth \<Rightarrow> fed_event" where
  "fill_event ord body auth intent intentAuth = \<lparr>fe_kind = EvFill, fe_payload =
     [(''orderId'', JStr (o_id ord)), (''fill'', fill_json body), (''auth'', auth_json auth),
      (''intent'', intent_json intent), (''intentAuth'', auth_json intentAuth)]\<rparr>"

definition cancel_event :: "order \<Rightarrow> cancel_body \<Rightarrow> protocol_auth \<Rightarrow> fed_event" where
  "cancel_event ord body auth = \<lparr>fe_kind = EvCancel, fe_payload =
     [(''orderId'', JStr (o_id ord)), (''cancel'', cancel_json body), (''auth'', auth_json auth)]\<rparr>"

definition fill_row :: "crypto \<Rightarrow> int \<Rightarrow> verified_intent \<Rightarrow> verified_fill \<Rightarrow> order \<Rightarrow> order" where
  "fill_row cr now intent fill ord =
     (let source = nvl (find (\<lambda>i. si_intentDigest i = vi_intentDigest intent) (intents_of ord))
            \<lparr>si_intentDigest = vi_intentDigest intent, si_intent = vi_intent intent, si_auth = vi_auth intent,
              si_receivedAt = now, st_acceptorIpHash = cr_sha256Hex cr ''federated-intent'',
              st_releasedAt = None, st_releaseSecret = None\<rparr>;
          released = (st_releasedAt source \<noteq> None \<and> st_releaseSecret source \<noteq> None) in
      ord\<lparr>o_fill := Some (vf_fill fill), o_fillAuth := Some (vf_auth fill), o_fillDigest := Some (vf_fillDigest fill),
        o_selectedIntent := Some (public_intent source),
        o_takerEthAccount := Some (fb_takerEthAccount (vf_fill fill)),
        o_takerQrlAccount := Some (fb_takerQrlAccount (vf_fill fill)),
        o_hashlock := Some (fb_hashlock (vf_fill fill)),
        o_initiatorTimeout := Some (fb_initiatorTimeout (vf_fill fill)),
        o_responderTimeout := Some (fb_responderTimeout (vf_fill fill)),
        o_status := Locking, o_acceptorIpHash := Some (st_acceptorIpHash source),
        o_acceptedAt := Some (pa_issuedAt (vf_auth fill)), o_updatedAt := now, o_takerTokenHash := None,
        o_releasedAt := (if released then st_releasedAt source else None),
        o_releaseSecret := (if released then st_releaseSecret source else None)\<rparr>)"

definition applyFill :: "book_env \<Rightarrow> string \<Rightarrow> json \<Rightarrow> json \<Rightarrow> json \<Rightarrow> json \<Rightarrow> bool \<Rightarrow> json option \<Rightarrow> book
    \<Rightarrow> public_order answer" where
  "applyFill en oid rawFill rawAuth rawIntent rawIntentAuth federated makerToken bk0 =
     (let cr = en_cr en; now = en_now en; bk = sweep now bk0 in
      guard_op bk (js_bind (terminal_target cr oid federated makerToken ''legacy orders use the hashlock endpoint'' bk) (\<lambda>ord.
          js_bind (referencedSignedOrderVariant cr now ord rawFill) (\<lambda>vo.
          js_bind (verifyFillIntentV1 cr now True rawIntent rawIntentAuth vo) (\<lambda>vi.
          js_bind (verifyFillV1 cr now federated rawFill rawAuth vo vi) (\<lambda>vf. Inr (ord, vi, vf)))))) (\<lambda>(ord, intent, fill).
      let ev = fill_event ord (vf_fill fill) (vf_auth fill) (vi_intent intent) (vi_auth intent) in
      if o_fillDigest ord = Some (vf_fillDigest fill) then (Inr (pub now bk ord), bk)
      else if o_fillDigest ord \<noteq> None \<or> o_cancelDigest ord \<noteq> None then
        record_conflict now ev
          (FillConflict (vf_fillDigest fill) (vf_fill fill) (vf_auth fill) (vi_intent intent) (vi_auth intent)) ord bk
      else if o_status ord \<noteq> Open \<and> \<not> (federated \<and> o_status ord = Cancelled \<and> o_cancelProof ord = None)
        then (Inl no_longer_open, bk)
      else commit_terminal now ev (fill_row cr now intent fill ord) bk))"

definition fillOrder :: "book_env \<Rightarrow> string \<Rightarrow> json \<Rightarrow> json \<Rightarrow> json \<Rightarrow> json \<Rightarrow> json option \<Rightarrow> book \<Rightarrow> public_order answer" where
  "fillOrder en oid rawFill rawAuth rawIntent rawIntentAuth makerToken bk =
     applyFill en oid rawFill rawAuth rawIntent rawIntentAuth False makerToken bk"

definition importFill :: "book_env \<Rightarrow> string \<Rightarrow> json \<Rightarrow> json \<Rightarrow> json \<Rightarrow> json \<Rightarrow> book \<Rightarrow> public_order answer" where
  "importFill en oid rawFill rawAuth rawIntent rawIntentAuth bk =
     applyFill en oid rawFill rawAuth rawIntent rawIntentAuth True None bk"

definition cancel_row :: "int \<Rightarrow> verified_cancel \<Rightarrow> order \<Rightarrow> order" where
  "cancel_row now cancel ord = ord\<lparr>o_cancelProof := Some (vc_cancel cancel), o_cancelAuth := Some (vc_auth cancel),
     o_cancelDigest := Some (vc_cancelDigest cancel), o_status := Cancelled, o_updatedAt := now\<rparr>"

definition applySignedCancel :: "book_env \<Rightarrow> string \<Rightarrow> json \<Rightarrow> json \<Rightarrow> bool \<Rightarrow> json option \<Rightarrow> book \<Rightarrow> public_order answer" where
  "applySignedCancel en oid rawCancel rawAuth federated makerToken bk0 =
     (let cr = en_cr en; now = en_now en; bk = sweep now bk0 in
      guard_op bk (js_bind (terminal_target cr oid federated makerToken ''order is not portable'' bk) (\<lambda>ord.
          js_bind (referencedSignedOrderVariant cr now ord rawCancel) (\<lambda>vo.
          js_bind (verifyCancelV1 cr now federated rawCancel rawAuth vo) (\<lambda>vc. Inr (ord, vc))))) (\<lambda>(ord, cancel).
      let ev = cancel_event ord (vc_cancel cancel) (vc_auth cancel) in
      if o_cancelDigest ord = Some (vc_cancelDigest cancel) then (Inr (pub now bk ord), bk)
      else if o_fillDigest ord \<noteq> None \<or> o_cancelDigest ord \<noteq> None then
        record_conflict now ev (CancelConflict (vc_cancelDigest cancel) (vc_cancel cancel) (vc_auth cancel)) ord bk
      else commit_terminal now ev (cancel_row now cancel ord) bk))"

definition cancelSigned :: "book_env \<Rightarrow> string \<Rightarrow> json \<Rightarrow> json \<Rightarrow> json option \<Rightarrow> book \<Rightarrow> public_order answer" where
  "cancelSigned en oid rawCancel rawAuth makerToken bk = applySignedCancel en oid rawCancel rawAuth False makerToken bk"

definition importSignedCancel :: "book_env \<Rightarrow> string \<Rightarrow> json \<Rightarrow> json \<Rightarrow> book \<Rightarrow> public_order answer" where
  "importSignedCancel en oid rawCancel rawAuth bk = applySignedCancel en oid rawCancel rawAuth True None bk"


section \<open>Unsigned takes\<close>

definition lockingSlotActive :: "int \<Rightarrow> order \<Rightarrow> bool" where
  "lockingSlotActive now ord \<longleftrightarrow> o_status ord = Locking \<and>
     (case o_initiatorTimeout ord of None \<Rightarrow> True | Some t1 \<Rightarrow> now \<le> t1) \<and>
     now \<le> nvl (o_acceptedAt ord) now + LOCKING_SLOT_HORIZON_S"

definition take_limits :: "int \<Rightarrow> string \<Rightarrow> book \<Rightarrow> unit api" where
  "take_limits now ipHash bk =
     (let mine = filter (\<lambda>ord. o_acceptorIpHash ord = Some ipHash) (orders_of bk) in
      throw_if (count_where (\<lambda>ord. o_releasedAt ord = None \<and> (o_status ord = Accepted \<or> lockingSlotActive now ord)) mine
          \<ge> MAX_CONCURRENT_TAKES_PER_IP)
        (bad 429 ''you already have swaps in progress; finish or let them expire'')
     (throw_if (count_where (\<lambda>ord. nvl (o_acceptedAt ord) 0 > now - TAKE_WINDOW_S) mine \<ge> MAX_TAKES_PER_IP_PER_DAY)
        (bad 429 ''daily take limit reached; leave some liquidity for others'') (Inr ())))"

definition take_taker :: "order \<Rightarrow> jobj \<Rightarrow> (string \<times> string) api" where
  "take_taker ord body =
     js_bind (requireAddress (map_of body ''takerEthAccount'') ''takerEthAccount'' ETH_ADDR_RE) (\<lambda>eth.
     js_bind (requireAddress (map_of body ''takerQrlAccount'') ''takerQrlAccount'' QRL_ADDR_RE) (\<lambda>qrl.
     throw_if ((case o_allowedTakerEth ord of None \<Rightarrow> False | Some a \<Rightarrow> to_lower a \<noteq> to_lower eth) \<or>
         (case o_allowedTakerQrl ord of None \<Rightarrow> False | Some a \<Rightarrow> to_lower a \<noteq> to_lower qrl))
       (bad 403 ''this order is reserved for a specific taker'') (Inr (eth, qrl))))"

definition take_row :: "crypto \<Rightarrow> int \<Rightarrow> string \<Rightarrow> string \<Rightarrow> string \<Rightarrow> string \<Rightarrow> order \<Rightarrow> order" where
  "take_row cr now ipHash takerToken eth qrl ord =
     ord\<lparr>o_takerEthAccount := Some eth, o_takerQrlAccount := Some qrl, o_status := Accepted,
       o_takerTokenHash := Some (cr_sha256Hex cr takerToken), o_acceptorIpHash := Some ipHash,
       o_acceptedAt := Some now, o_updatedAt := now, o_releasedAt := None\<rparr>"

definition commitTake :: "book_env \<Rightarrow> order \<Rightarrow> jobj \<Rightarrow> string \<Rightarrow> book \<Rightarrow> (public_order \<times> string) answer" where
  "commitTake en ord body takerIp bk =
     (let cr = en_cr en; now = en_now en; ipHash = cr_sha256Hex cr takerIp in
      guard_op bk (js_bind (take_limits now ipHash bk) (\<lambda>_. take_taker ord body)) (\<lambda>(eth, qrl).
        let ord1 = take_row cr now ipHash (en_takerToken en) eth qrl ord; bk1 = persist (put_order ord1 bk)
        in (Inr (pub now bk1 ord1, en_takerToken en), bk1)))"

definition accept_order :: "book_env \<Rightarrow> string \<Rightarrow> jobj \<Rightarrow> string \<Rightarrow> book \<Rightarrow> (public_order \<times> string) answer" where
  "accept_order en oid body takerIp bk0 =
     guard_op bk0 (assertLegacyOrderProtocolInput (en_shake en) (map_of body ''takerQrlAccount'')) (\<lambda>_.
     let now = en_now en; bk = sweep now bk0 in
     guard_op bk (js_bind (lookup_order bk oid) (\<lambda>ord.
         js_bind (hidden_without_share (en_cr en) ord (map_of body ''shareToken'')) (\<lambda>ord.
         throw_if (usesPortableTerminalProtocol ord) (bad 409 ''signed orders require a FillIntentV1 request'')
        (throw_if (o_status ord \<noteq> Open) no_longer_open
        (throw_if (\<not> hasRunway ord now) short_runway (Inr ord))))))
       (\<lambda>ord. commitTake en ord body takerIp bk))"

definition take_match :: "book \<Rightarrow> int \<Rightarrow> direction \<Rightarrow> asset_symbol \<Rightarrow> int \<Rightarrow> int \<Rightarrow> order \<Rightarrow> bool" where
  "take_match bk now dir asset maxPay minReceive ord \<longleftrightarrow>
     o_status ord = Open \<and> \<not> usesPortableTerminalProtocol ord \<and> o_visibility ord = Public \<and>
     o_direction ord = dir \<and> o_asset ord = asset \<and> bigint (o_toAmount ord) \<le> maxPay \<and>
     bigint (o_fromAmount ord) \<ge> minReceive \<and> isSeen bk ord now \<and> hasRunway ord now"

definition takeOrder :: "order \<Rightarrow> order \<Rightarrow> int" where
  "takeOrder a b =
     (let cross = bigint (o_fromAmount a) * bigint (o_toAmount b) - bigint (o_fromAmount b) * bigint (o_toAmount a);
          size = bigint (o_fromAmount a) - bigint (o_fromAmount b) in
      if cross \<noteq> 0 then (if cross > 0 then -1 else 1)
      else if size \<noteq> 0 then (if size > 0 then -1 else 1)
      else o_createdAt a - o_createdAt b)"

definition take_terms :: "jobj \<Rightarrow> (direction \<times> asset_symbol \<times> int \<times> int) api" where
  "take_terms body =
     js_bind (requireDirection (map_of body ''direction'')) (\<lambda>dir.
     js_bind (requireAsset (map_of body ''asset'')) (\<lambda>asset.
     js_bind (requireAmount (map_of body ''maxPay'') ''maxPay''
        (if dir = EthToQrl then QRL_BOUNDS else asset_bounds asset)) (\<lambda>mp.
     js_bind (requireAmount (map_of body ''minReceive'') ''minReceive''
        (if dir = EthToQrl then asset_bounds asset else QRL_BOUNDS)) (\<lambda>mr.
       Inr (dir, asset, bigint mp, bigint mr)))))"

definition take_order :: "book_env \<Rightarrow> jobj \<Rightarrow> string \<Rightarrow> book \<Rightarrow> (public_order \<times> string) answer" where
  "take_order en body takerIp bk0 =
     guard_op bk0 (assertLegacyOrderProtocolInput (en_shake en) (map_of body ''takerQrlAccount'')) (\<lambda>_.
     let now = en_now en; bk = sweep now bk0 in
     guard_op bk (js_bind (take_terms body) (\<lambda>(dir, asset, maxPay, minReceive).
         case first_of (js_sort takeOrder (filter (take_match bk now dir asset maxPay minReceive) (orders_of bk))) of
           None \<Rightarrow> Inl (bad 409 ''no open order matches those terms; the book may have moved'')
         | Some best \<Rightarrow> Inr best))
       (\<lambda>best. commitTake en best body takerIp bk))"

definition heartbeat :: "book_env \<Rightarrow> string \<Rightarrow> json option \<Rightarrow> book \<Rightarrow> public_order answer" where
  "heartbeat en oid token bk =
     (let now = en_now en in
      guard_op bk (js_bind (lookup_order bk oid) (\<lambda>ord. js_bind (authorized (en_cr en) ord token) (\<lambda>_. Inr ord))) (\<lambda>ord.
        let wasSeen = isSeen bk ord now; bk1 = set_seen (o_id ord) now bk;
            bk2 = (if wasSeen then bk1 else bk1\<lparr>bk_notified := Suc (bk_notified bk1)\<rparr>)
        in (Inr (pub now bk2 ord), bk2)))"

definition announce_terms :: "int \<Rightarrow> order \<Rightarrow> jobj \<Rightarrow> (string \<times> int \<times> int) api" where
  "announce_terms now ord body =
     (case jstr (map_of body ''hashlock'') of
        None \<Rightarrow> Inl (bad 400 ''hashlock must be 32 bytes of lowercase hex'')
      | Some h \<Rightarrow>
        throw_if (\<not> HASHLOCK_RE h) (bad 400 ''hashlock must be 32 bytes of lowercase hex'')
       (case jint (map_of body ''initiatorTimeout'') of
          None \<Rightarrow> Inl (bad 400 ''timeouts must be unix-second integers'')
        | Some t1 \<Rightarrow>
          (case jint (map_of body ''responderTimeout'') of
             None \<Rightarrow> Inl (bad 400 ''timeouts must be unix-second integers'')
           | Some t2 \<Rightarrow>
            throw_if (o_prelocked ord \<and> Some (to_lower h) \<noteq> o_hashlock ord)
              (bad 400 ''hashlock does not match the pre-funded escrow'')
           (throw_if (o_prelocked ord \<and> Some t1 \<noteq> o_initiatorTimeout ord)
              (bad 400 ''initiatorTimeout does not match the pre-funded escrow'')
           (throw_if (t2 \<le> now + 600) (bad 400 ''responder timeout is too soon'')
           (throw_if (t1 - now < 2 * (t2 - now))
              (bad 400 ''initiator timeout must be at least 2x the responder timeout'') (Inr (to_lower h, t1, t2))))))))"

definition announce_row :: "int \<Rightarrow> string \<Rightarrow> int \<Rightarrow> int \<Rightarrow> order \<Rightarrow> order" where
  "announce_row now h t1 t2 ord = ord\<lparr>o_hashlock := Some h, o_initiatorTimeout := Some t1, o_responderTimeout := Some t2,
     o_status := Locking, o_updatedAt := now\<rparr>"

definition announceHashlock :: "book_env \<Rightarrow> string \<Rightarrow> jobj \<Rightarrow> book \<Rightarrow> public_order answer" where
  "announceHashlock en oid body bk0 =
     (let now = en_now en; bk = sweep now bk0 in
      guard_op bk (js_bind (lookup_order bk oid) (\<lambda>ord.
          js_bind (authorized (en_cr en) ord (map_of body ''token'')) (\<lambda>_.
          throw_if (usesPortableTerminalProtocol ord) (bad 409 ''signed orders require a FillV1 proof'')
         (throw_if (o_status ord \<noteq> Accepted) (bad 409 ''order is not awaiting a hashlock'')
         (js_bind (announce_terms now ord body) (\<lambda>t. Inr (ord, t)))))))
       (\<lambda>(ord, h, t1, t2).
         let ord1 = announce_row now h t1 t2 ord; bk1 = persist (put_order ord1 bk)
         in (Inr (pub now bk1 ord1), bk1)))"

definition cancel_order :: "book_env \<Rightarrow> string \<Rightarrow> jobj \<Rightarrow> book \<Rightarrow> public_order answer" where
  "cancel_order en oid body bk0 =
     (let now = en_now en; bk = sweep now bk0 in
      guard_op bk (js_bind (lookup_order bk oid) (\<lambda>ord.
          js_bind (authorized (en_cr en) ord (map_of body ''token'')) (\<lambda>_.
          throw_if (usesPortableTerminalProtocol ord) (bad 409 ''signed orders require a CancelV1 proof'') (Inr ord))))
       (\<lambda>ord. if o_status ord = Cancelled then (Inr (pub now bk ord), bk)
          else (let ord1 = ord\<lparr>o_status := Cancelled, o_updatedAt := now\<rparr>; bk1 = persist (put_order ord1 bk)
                in (Inr (pub now bk1 ord1), bk1))))"


section \<open>Releases\<close>

definition exactPayload :: "jobj \<Rightarrow> string list \<Rightarrow> string \<Rightarrow> unit api" where
  "exactPayload raw names label =
     require_that (sort (map fst raw) = sort names) (bad 400 (label @ '' has unexpected fields''))"

definition release_event :: "order \<Rightarrow> string \<Rightarrow> string \<Rightarrow> string \<Rightarrow> fed_event" where
  "release_event ord key digest secret = \<lparr>fe_kind = EvRelease, fe_payload =
     [(''orderId'', JStr (o_id ord)), (key, JStr digest), (''releaseSecret'', JStr secret)]\<rparr>"

definition release_secret :: "jobj \<Rightarrow> string api" where
  "release_secret body =
     (case jstr (map_of body ''releaseSecret'') of
        None \<Rightarrow> Inl (bad 400 ''releaseSecret must be 32 bytes of lowercase hex'')
      | Some s \<Rightarrow> if BYTES32_RE s then Inr s else Inl (bad 400 ''releaseSecret must be 32 bytes of lowercase hex''))"

definition release_fill :: "crypto \<Rightarrow> int \<Rightarrow> order \<Rightarrow> string \<Rightarrow> json option \<Rightarrow> string \<Rightarrow> (order \<times> fed_event) option api" where
  "release_fill cr now ord orderDigest rawDigest secret =
     (case (jstr rawDigest, o_fill ord, o_selectedIntent ord) of
        (Some digest, Some fill, Some sel) \<Rightarrow>
          throw_if (\<not> BYTES32_RE digest \<or> o_fillDigest ord \<noteq> Some digest) (unavailable ''referenced fill is unavailable'')
         (js_bind (computeReleaseCommitment cr orderDigest (pa_nonce (si_auth sel)) secret) (\<lambda>expected.
          throw_if (expected \<noteq> fb_releaseCommitment fill) (bad 403 ''release secret does not match the signed fill'')
         (if o_releaseSecret ord = Some secret \<and> o_releasedAt ord \<noteq> None then Inr None
          else Inr (Some (ord\<lparr>o_releaseSecret := Some secret, o_releasedAt := Some now, o_updatedAt := now\<rparr>,
                 release_event ord ''fillDigest'' digest secret)))))
      | _ \<Rightarrow> Inl (unavailable ''referenced fill is unavailable''))"

definition mark_released :: "string \<Rightarrow> string \<Rightarrow> int \<Rightarrow> stored_intent list \<Rightarrow> stored_intent list" where
  "mark_released digest secret now = map (\<lambda>i. if si_intentDigest i = digest
     then i\<lparr>st_releaseSecret := Some secret, st_releasedAt := Some now\<rparr> else i)"

definition release_intent :: "crypto \<Rightarrow> int \<Rightarrow> order \<Rightarrow> string \<Rightarrow> json option \<Rightarrow> string \<Rightarrow> (order \<times> fed_event) option api" where
  "release_intent cr now ord orderDigest rawDigest secret =
     (case jstr rawDigest of None \<Rightarrow> Inl (bad 400 ''intentDigest must be 32 bytes of lowercase hex'')
      | Some digest \<Rightarrow>
        throw_if (\<not> BYTES32_RE digest) (bad 400 ''intentDigest must be 32 bytes of lowercase hex'')
       (let stored = find (\<lambda>i. si_intentDigest i = digest) (intents_of ord);
            selected = (case o_selectedIntent ord of None \<Rightarrow> None
               | Some s \<Rightarrow> if si_intentDigest s = digest then Some s else None) in
        case (case stored of Some i \<Rightarrow> Some (public_intent i) | None \<Rightarrow> selected) of
          None \<Rightarrow> Inl (unavailable ''referenced fill intent is unavailable'')
        | Some i \<Rightarrow>
          js_bind (computeReleaseCommitment cr orderDigest (pa_nonce (si_auth i)) secret) (\<lambda>expected.
          throw_if (expected \<noteq> fi_releaseCommitment (si_intent i)) (bad 403 ''release secret does not match the fill intent'')
         (if (case stored of None \<Rightarrow> False | Some s \<Rightarrow> st_releaseSecret s = Some secret \<and> st_releasedAt s \<noteq> None) \<or>
             (selected \<noteq> None \<and> o_releaseSecret ord = Some secret \<and> o_releasedAt ord \<noteq> None)
          then Inr None
          else (let toFill = (selected \<noteq> None \<and> o_fill ord \<noteq> None) in
            Inr (Some (ord\<lparr>o_fillIntents := map_option (mark_released digest secret now) (o_fillIntents ord),
                   o_releaseSecret := (if toFill then Some secret else o_releaseSecret ord),
                   o_releasedAt := (if toFill then Some now else o_releasedAt ord), o_updatedAt := now\<rparr>,
                 release_event ord ''intentDigest'' digest secret)))))))"

definition release_request :: "crypto \<Rightarrow> order \<Rightarrow> jobj \<Rightarrow> bool \<Rightarrow> (string \<times> string) api" where
  "release_request cr ord body federated =
     (let hasFill = map_of body ''fillDigest'' \<noteq> None; hasIntent = map_of body ''intentDigest'' \<noteq> None in
      throw_if (federated \<and> o_visibility ord \<noteq> Public) (bad 409 ''private signed orders are origin-only'')
     (throw_if (\<not> federated \<and> o_visibility ord = Private \<and> \<not> shareAuthorized cr ord (map_of body ''shareToken''))
        (bad 404 ''order not found'')
     (throw_if (hasFill = hasIntent) (bad 400 ''release must identify exactly one fill or fill intent'')
     (js_bind (exactPayload body ([if hasFill then ''fillDigest'' else ''intentDigest'', ''releaseSecret''] @
          (if o_visibility ord = Private \<and> \<not> federated then [''shareToken''] else [])) ''release'') (\<lambda>_.
      js_bind (release_secret body) (\<lambda>secret.
      case o_orderDigest ord of None \<Rightarrow> Inl (bad 409 ''order is not portable'')
      | Some d \<Rightarrow> Inr (secret, d)))))))"

definition releasePortable :: "book_env \<Rightarrow> order \<Rightarrow> jobj \<Rightarrow> bool \<Rightarrow> book \<Rightarrow> public_order answer" where
  "releasePortable en ord body federated bk =
     (let cr = en_cr en; now = en_now en in
      guard_op bk (js_bind (release_request cr ord body federated) (\<lambda>(secret, d).
          if map_of body ''fillDigest'' \<noteq> None then release_fill cr now ord d (map_of body ''fillDigest'') secret
          else release_intent cr now ord d (map_of body ''intentDigest'') secret)) (\<lambda>r.
        case r of None \<Rightarrow> (Inr (pub now bk ord), bk) | Some (ord1, ev) \<Rightarrow> commit_terminal now ev ord1 bk))"

definition relist_row :: "int \<Rightarrow> order \<Rightarrow> order" where
  "relist_row now ord = ord\<lparr>o_status := Open, o_takerEthAccount := None, o_takerQrlAccount := None, o_takerTokenHash := None,
     o_acceptorIpHash := None, o_acceptedAt := None, o_releasedAt := None, o_updatedAt := now\<rparr>"

definition walk_away_row :: "int \<Rightarrow> order \<Rightarrow> order" where
  "walk_away_row now ord = ord\<lparr>o_releasedAt := Some now, o_updatedAt := now\<rparr>"

definition update_row :: "int \<Rightarrow> order \<Rightarrow> book \<Rightarrow> public_order answer" where
  "update_row now ord bk = (let bk1 = persist (put_order ord bk) in (Inr (pub now bk1 ord), bk1))"

definition release_order :: "book_env \<Rightarrow> string \<Rightarrow> jobj \<Rightarrow> book \<Rightarrow> public_order answer" where
  "release_order en oid body bk0 =
     (let cr = en_cr en; now = en_now en; bk = sweep now bk0 in
      guard_op bk (lookup_order bk oid) (\<lambda>ord.
      if usesPortableTerminalProtocol ord then releasePortable en ord body False bk
      else guard_op bk (require_that (case (o_takerTokenHash ord, jstr (map_of body ''token'')) of
               (Some h, Some t) \<Rightarrow> cr_sha256Hex cr t = h | _ \<Rightarrow> False) (bad 403 ''invalid taker token'')) (\<lambda>_.
        if o_status ord = Accepted then update_row now (relist_row now ord) bk
        else if o_status ord = Locking \<and> o_releasedAt ord = None then update_row now (walk_away_row now ord) bk
        else (Inr (pub now bk ord), bk))))"

definition importRelease :: "book_env \<Rightarrow> string \<Rightarrow> jobj \<Rightarrow> book \<Rightarrow> public_order answer" where
  "importRelease en oid body bk0 =
     (let bk = sweep (en_now en) bk0 in
      guard_op bk (import_target bk oid) (\<lambda>ord. releasePortable en ord body True bk))"


section \<open>Federation\<close>

definition order_events :: "int \<Rightarrow> order \<Rightarrow> fed_event list" where
  "order_events now ord =
     (case o_makerAuth ord of None \<Rightarrow> []
      | Some auth \<Rightarrow>
        [\<lparr>fe_kind = EvOrder, fe_payload = [(''order'', signedOrderBody ord), (''auth'', maker_auth_json auth)]\<rparr>]
        @ map (\<lambda>c. \<lparr>fe_kind = EvOrder, fe_payload = [(''order'', JObj (order_body_obj (oc_order c))),
             (''auth'', maker_auth_json (oc_auth c))]\<rparr>) (o_orderConflicts ord)
        @ concat (map (\<lambda>i. if pa_expiresAt (si_auth i) + SIGNED_INTENT_RETENTION_S \<le> now then []
             else intent_event ord (si_intent i) (si_auth i) # (case st_releaseSecret i of None \<Rightarrow> []
               | Some s \<Rightarrow> [release_event ord ''intentDigest'' (si_intentDigest i) s])) (intents_of ord))
        @ (case (o_fill ord, o_fillAuth ord, o_selectedIntent ord) of
             (Some f, Some a, Some s) \<Rightarrow> [fill_event ord f a (si_intent s) (si_auth s)]
           | _ \<Rightarrow> (case (o_cancelProof ord, o_cancelAuth ord) of
                (Some c, Some a) \<Rightarrow> [cancel_event ord c a] | _ \<Rightarrow> []))
        @ map (\<lambda>c. case c of FillConflict _ f a i ia \<Rightarrow> fill_event ord f a i ia
             | CancelConflict _ c a \<Rightarrow> cancel_event ord c a) (o_conflicts ord)
        @ (case (o_releaseSecret ord, o_fillDigest ord, o_releasedAt ord) of
             (Some s, Some d, Some _) \<Rightarrow> [release_event ord ''fillDigest'' d s] | _ \<Rightarrow> []))"

definition federationSnapshot :: "book_env \<Rightarrow> bool \<Rightarrow> book \<Rightarrow> fed_event list answer" where
  "federationSnapshot en do_sweep bk0 =
     (let now = en_now en; bk = (if do_sweep then sweep now bk0 else bk0) in
      (Inr (concat (map (order_events now)
         (js_sort (\<lambda>a b. locale_compare (o_id a) (o_id b)) (filter public_portable (orders_of bk))))), bk))"

definition forget :: "'a answer \<Rightarrow> unit answer" where
  "forget r = (js_bind (fst r) (\<lambda>_. Inr ()), snd r)"

definition jfield :: "jobj \<Rightarrow> string \<Rightarrow> json" where
  "jfield p k = nvl (map_of p k) JNull"

definition applyFederationEvent :: "book_env \<Rightarrow> fed_event \<Rightarrow> string \<Rightarrow> book \<Rightarrow> unit answer" where
  "applyFederationEvent en ev source bk =
     (let p = fe_payload ev; cr = en_cr en; now = en_now en in
      if fe_kind ev = EvOrder then
        guard_op bk (js_bind (exactPayload p [''order'', ''auth''] ''federated order event'') (\<lambda>_.
            verifyOrderV1 cr now True (jfield p ''order'') (jfield p ''auth'')))
          (\<lambda>verified. forget (importVerifiedOrder en verified source bk))
      else
        guard_op bk (case jstr (map_of p ''orderId'') of
            None \<Rightarrow> Inl (bad 400 ''federation event has an invalid order id'')
          | Some oid \<Rightarrow> if ORDER_ID_RE oid then Inr oid else Inl (bad 400 ''federation event has an invalid order id'')) (\<lambda>oid.
        case fe_kind ev of
          EvFillIntent \<Rightarrow>
            guard_op bk (exactPayload p [''orderId'', ''intent'', ''auth''] ''federated fill intent event'')
              (\<lambda>_. forget (importFillIntent en oid (jfield p ''intent'') (jfield p ''auth'') bk))
        | EvFill \<Rightarrow>
            guard_op bk (exactPayload p [''orderId'', ''fill'', ''auth'', ''intent'', ''intentAuth''] ''federated fill event'')
              (\<lambda>_. forget (importFill en oid (jfield p ''fill'') (jfield p ''auth'') (jfield p ''intent'')
                 (jfield p ''intentAuth'') bk))
        | EvCancel \<Rightarrow>
            guard_op bk (exactPayload p [''orderId'', ''cancel'', ''auth''] ''federated cancel event'')
              (\<lambda>_. forget (importSignedCancel en oid (jfield p ''cancel'') (jfield p ''auth'') bk))
        | _ \<Rightarrow>
            (let hasFillDigest = map_of p ''fillDigest'' \<noteq> None;
                 key = (if hasFillDigest then ''fillDigest'' else ''intentDigest'') in
             guard_op bk (exactPayload p [''orderId'', key, ''releaseSecret''] ''federated release event'')
              (\<lambda>_. forget (importRelease en oid [(key, jfield p key), (''releaseSecret'', jfield p ''releaseSecret'')] bk)))))"

end
