(* ===== verification/Book_Lifecycle.thy ===== *)
theory Book_Lifecycle
  imports Order_Store
begin

text \<open>
  The life cycle of a row of the order book. \<open>row_step\<close> lists every way a request may change one
  row, each with the authority it needs; \<open>orders_evolve\<close> lifts it to the whole book. Every
  operation of \<^verbatim>\<open>OrderStore\<close> is shown to be a sweep followed by at most one such change, so
  the safety properties of the book are proved on the life cycle alone.
\<close>

section \<open>Changes of one row\<close>

definition terminal_free :: "order \<Rightarrow> bool" where
  "terminal_free ord \<longleftrightarrow> o_fillDigest ord = None \<and> o_cancelDigest ord = None"

text \<open>A signed variant of the row: the row's own order or a retained conflicting one.\<close>

definition variant_of :: "crypto \<Rightarrow> int \<Rightarrow> order \<Rightarrow> verified_order \<Rightarrow> bool" where
  "variant_of cr now ord vo \<longleftrightarrow> verified_order_ok cr vo \<and>
     (verifiedSignedOrder cr now ord = Inr vo \<or>
      (vo_orderId vo = o_id ord \<and> (\<exists>c\<in>set (o_orderConflicts ord). oc_orderDigest c = vo_orderDigest vo)))"

inductive row_step :: "crypto \<Rightarrow> int \<Rightarrow> order \<Rightarrow> order \<Rightarrow> bool" for cr :: crypto and now :: int where
  take: "o_status ord = Open \<Longrightarrow> \<not> usesPortableTerminalProtocol ord \<Longrightarrow> hasRunway ord now \<Longrightarrow>
     row_step cr now ord (take_row cr now ip tok eth qrl ord)"
| announce: "o_status ord = Accepted \<Longrightarrow> \<not> usesPortableTerminalProtocol ord \<Longrightarrow>
     makerAuthorized cr ord token \<Longrightarrow> now + 600 < t2 \<Longrightarrow> 2 * (t2 - now) \<le> t1 - now \<Longrightarrow>
     (o_prelocked ord \<Longrightarrow> o_hashlock ord = Some h \<and> o_initiatorTimeout ord = Some t1) \<Longrightarrow>
     row_step cr now ord (announce_row now h t1 t2 ord)"
| relist: "o_status ord = Accepted \<Longrightarrow> \<not> usesPortableTerminalProtocol ord \<Longrightarrow>
     o_takerTokenHash ord = Some (cr_sha256Hex cr token) \<Longrightarrow>
     row_step cr now ord (relist_row now ord)"
| walk_away: "o_status ord = Locking \<Longrightarrow> \<not> usesPortableTerminalProtocol ord \<Longrightarrow>
     o_takerTokenHash ord = Some (cr_sha256Hex cr token) \<Longrightarrow>
     row_step cr now ord (walk_away_row now ord)"
| withdraw: "\<not> usesPortableTerminalProtocol ord \<Longrightarrow> makerAuthorized cr ord token \<Longrightarrow>
     row_step cr now ord (ord\<lparr>o_status := Cancelled, o_updatedAt := now\<rparr>)"
| equivocate: "verified_order_ok cr vo \<Longrightarrow> vo_orderId vo = o_id ord \<Longrightarrow>
     o_orderDigest ord \<noteq> Some (vo_orderDigest vo) \<Longrightarrow>
     vo_orderDigest vo \<notin> oc_orderDigest ` set (o_orderConflicts ord) \<Longrightarrow>
     row_step cr now ord (record_order_conflict now vo ord)"
| propose: "usesPortableTerminalProtocol ord \<Longrightarrow> verifiedSignedOrder cr now ord = Inr vo \<Longrightarrow>
     verifyFillIntentV1 cr now ae raw rawAuth vo = Inr vi \<Longrightarrow>
     vi_intentDigest vi \<notin> si_intentDigest ` set (intents_of ord) \<Longrightarrow>
     evict_for vi now (intents_of ord) = Inr kept \<Longrightarrow>
     o_status ord = Open \<or> (o_status ord = Cancelled \<and> o_cancelProof ord = None) \<Longrightarrow> \<not> o_equivocated ord \<Longrightarrow>
     row_step cr now ord (ord\<lparr>o_fillIntents := Some (kept @ [new_intent vi now ip]), o_updatedAt := now\<rparr>)"
| fill: "usesPortableTerminalProtocol ord \<Longrightarrow> terminal_free ord \<Longrightarrow> o_status ord \<in> {Open, Cancelled} \<Longrightarrow>
     variant_of cr now ord vo \<Longrightarrow> verifyFillIntentV1 cr now True rawI rawIA vo = Inr vi \<Longrightarrow>
     verifyFillV1 cr now ae raw rawA vo vi = Inr vf \<Longrightarrow>
     row_step cr now ord (fill_row cr now vi vf ord)"
| cancel: "usesPortableTerminalProtocol ord \<Longrightarrow> terminal_free ord \<Longrightarrow>
     variant_of cr now ord vo \<Longrightarrow> verifyCancelV1 cr now ae raw rawA vo = Inr vc \<Longrightarrow>
     row_step cr now ord (cancel_row now vc ord)"
| dispute: "\<not> terminal_free ord \<Longrightarrow> rememberTerminalConflict now ord evidence = Some ord' \<Longrightarrow>
     row_step cr now ord ord'"
| release_fill: "usesPortableTerminalProtocol ord \<Longrightarrow> release_fill cr now ord d rd s = Inr (Some (ord', ev)) \<Longrightarrow>
     row_step cr now ord ord'"
| release_intent: "usesPortableTerminalProtocol ord \<Longrightarrow> release_intent cr now ord d rd s = Inr (Some (ord', ev)) \<Longrightarrow>
     row_step cr now ord ord'"

inductive_cases row_step_cases: "row_step cr now ord ord'"

type_synonym rows = "(string, order) omap"

definition swept_rows :: "int \<Rightarrow> rows \<Rightarrow> rows" where
  "swept_rows now rs = concat (map (\<lambda>(k, ord). case sweep_order now ord of None \<Rightarrow> [] | Some ord' \<Rightarrow> [(k, ord')]) rs)"

text \<open>What the admission checks establish for a row about to be inserted.\<close>

definition admissible :: "crypto \<Rightarrow> int \<Rightarrow> order list \<Rightarrow> order \<Rightarrow> bool" where
  "admissible cr now retained ord \<longleftrightarrow>
     length retained < MAX_RETAINED_ORDERS \<and>
     count_where (same_maker (o_makerEthAccount ord) (o_makerQrlAccount ord)) retained < MAX_RETAINED_ORDERS_PER_MAKER \<and>
     (public_portable ord \<longrightarrow> count_where public_portable retained < MAX_PUBLIC_PORTABLE_ORDERS) \<and>
     (\<forall>h. o_federationSourceHash ord = Some h \<longrightarrow> public_portable ord \<longrightarrow>
        count_where (\<lambda>r. public_portable r \<and> o_federationSourceHash r \<noteq> None) retained
          < MAX_FEDERATED_PUBLIC_PORTABLE_ORDERS \<and>
        count_where (\<lambda>r. public_portable r \<and> o_federationSourceHash r = Some h) retained
          < MAX_PUBLIC_PORTABLE_ORDERS_PER_FEDERATION_PEER) \<and>
     (\<forall>h. o_hashlock ord = Some h \<longrightarrow> \<not> hashlock_in_use h retained)"

inductive orders_evolve :: "crypto \<Rightarrow> int \<Rightarrow> rows \<Rightarrow> rows \<Rightarrow> bool" for cr :: crypto and now :: int where
  same: "orders_evolve cr now rs rs"
| change: "map_of rs oid = Some ord \<Longrightarrow> row_step cr now ord ord' \<Longrightarrow>
     orders_evolve cr now rs (AList.update (o_id ord) ord' rs)"
| add: "ord = new_order en makerIp verified federated source nt \<Longrightarrow> en_cr en = cr \<Longrightarrow> en_now en = now \<Longrightarrow>
     create_terms en body makerIp verified federated caps source bk = Inr nt \<Longrightarrow> bk_orders bk = rs \<Longrightarrow>
     (\<And>vo. verified = Some vo \<Longrightarrow> verified_order_ok cr vo \<and> body = order_body_obj (vo_order vo) \<and>
        pa_issuedAt (vo_auth vo) \<le> now + MAX_CLOCK_SKEW_S) \<Longrightarrow> (federated \<Longrightarrow> verified \<noteq> None) \<Longrightarrow>
     orders_evolve cr now rs (AList.update (o_id ord) ord rs)"

inductive book_step :: "crypto \<Rightarrow> int \<Rightarrow> book \<Rightarrow> book \<Rightarrow> bool" for cr :: crypto and now :: int where
  idle: "bk_orders bk' = bk_orders bk \<Longrightarrow> book_step cr now bk bk'"
| evolve: "orders_evolve cr now (swept_rows now (bk_orders bk)) (bk_orders bk') \<Longrightarrow> book_step cr now bk bk'"


section \<open>Every operation is a step\<close>

lemma bk_orders_simps [simp]:
  "bk_orders (persist bk) = bk_orders bk" "bk_orders (publish ev bk) = bk_orders bk"
  "bk_orders (set_seen i t bk) = bk_orders bk" "bk_orders (snd (recentIntentAdmissions ip now bk)) = bk_orders bk"
  "bk_orders (put_order ord bk) = AList.update (o_id ord) ord (bk_orders bk)"
  "bk_orders (snd (update_row now ord bk)) = AList.update (o_id ord) ord (bk_orders bk)"
  by (simp_all add: update_row_def persist_def publish_def set_seen_def recentIntentAdmissions_def put_order_def Let_def)

lemma fold_recent_orders:
  "bk_orders (fold (\<lambda>ip b. snd (recentIntentAdmissions ip now b)) ips bk) = bk_orders bk"
  by (induction ips arbitrary: bk) simp_all

lemma bk_orders_prune [simp]: "bk_orders (pruneIntentAdmissions now bk) = bk_orders bk"
  by (simp add: pruneIntentAdmissions_def fold_recent_orders)

lemma bk_orders_record [simp]: "bk_orders (recordIntentAdmission ip t bk) = bk_orders bk"
  by (simp add: recordIntentAdmission_def Let_def split: option.splits)

lemma bk_orders_sweep: "bk_orders (sweep now bk) = swept_rows now (bk_orders bk)"
  by (simp add: sweep_def Let_def swept_rows_def)

definition retain_intents :: "int \<Rightarrow> order \<Rightarrow> order" where
  "retain_intents now ord = ord\<lparr>o_fillIntents := map_option
     (filter (\<lambda>i. pa_expiresAt (si_auth i) + SIGNED_INTENT_RETENTION_S > now)) (o_fillIntents ord)\<rparr>"

lemma sweep_order_alt:
  "sweep_order now ord =
     (if sweep_expires now ord then Some (retain_intents now ord\<lparr>o_status := Cancelled, o_updatedAt := now\<rparr>)
      else if sweep_removes now ord then None else Some (retain_intents now ord))"
  by (simp add: sweep_order_def retain_intents_def Let_def)

lemma sweep_tests_retain [simp]:
  "sweep_expires now (retain_intents now ord) = sweep_expires now ord"
  "sweep_removes now (retain_intents now ord) = sweep_removes now ord"
  by (simp_all add: sweep_expires_def sweep_removes_def retain_intents_def cong: option.case_cong)

lemma retain_idem [simp]:
  "retain_intents now (retain_intents now ord) = retain_intents now ord"
  "retain_intents now (retain_intents now ord\<lparr>o_status := s, o_updatedAt := t\<rparr>) =
     retain_intents now ord\<lparr>o_status := s, o_updatedAt := t\<rparr>"
  by (simp_all add: retain_intents_def option.map_comp comp_def)

lemma sweep_cancelled_stays:
  "\<not> sweep_expires now (ord\<lparr>o_status := Cancelled, o_updatedAt := now\<rparr>)"
  "\<not> sweep_removes now (ord\<lparr>o_status := Cancelled, o_updatedAt := now\<rparr>)"
  by (simp_all add: sweep_expires_def sweep_removes_def CANCELLED_TTL_S_def SIGNED_TERMINAL_GRACE_S_def split: option.splits)

lemma sweep_order_idem: "sweep_order now ord = Some ord' \<Longrightarrow> sweep_order now ord' = Some ord'"
  by (auto simp: sweep_order_alt sweep_cancelled_stays split: if_splits)

lemma swept_rows_idem [simp]: "swept_rows now (swept_rows now rs) = swept_rows now rs"
  by (induction rs) (auto simp: swept_rows_def sweep_order_idem split: option.splits)

lemma guard_op_step:
  assumes "Q bk" and "\<And>a. r = Inr a \<Longrightarrow> Q (snd (k a))"
  shows "Q (snd (guard_op bk r k))"
  using assms by (auto simp: guard_op_def split: sum.splits)

lemma snd_forget [simp]: "snd (forget r) = snd r"
  by (simp add: forget_def)

lemma evolve_put:
  assumes "find_order bk oid = Some ord" "row_step cr now ord ord'" "o_id ord' = o_id ord"
  shows "orders_evolve cr now (bk_orders bk) (bk_orders (put_order ord' bk))"
  using orders_evolve.change [of "bk_orders bk" oid ord cr now ord'] assms by (simp add: find_order_def)

lemma case_option_Inl [js_simps]:
  "(case x of None \<Rightarrow> Inl e | Some a \<Rightarrow> k a) = Inr r \<longleftrightarrow> (\<exists>a. x = Some a \<and> k a = Inr r)"
  by (auto split: option.splits)

lemma jint_Some [js_simps]: "jint j = Some n \<longleftrightarrow> j = Some (JInt n)"
  by (auto simp: jint_def split: option.splits json.splits)

lemma lookup_order_Inr [js_simps]: "lookup_order bk oid = Inr ord \<longleftrightarrow> find_order bk oid = Some ord"
  by (auto simp: lookup_order_def not_found_def api_err_def split: option.splits)

lemma hidden_Inr [js_simps]: "hidden_without_share cr ord t = Inr ord' \<longleftrightarrow>
    ord' = ord \<and> (o_visibility ord = Private \<longrightarrow> shareAuthorized cr ord t)"
  by (auto simp: hidden_without_share_def not_found_def api_err_def)

lemma require_that_Inr [js_simps]: "require_that b e = Inr u \<longleftrightarrow> b"
  by (simp add: require_that_def)

lemma authorized_Inr [js_simps]: "authorized cr ord t = Inr u \<longleftrightarrow> makerAuthorized cr ord t"
  by (simp add: authorized_def js_simps)

lemma import_target_Inr [js_simps]: "import_target bk oid = Inr ord \<longleftrightarrow> find_order bk oid = Some ord \<and> public_portable ord"
  by (auto simp: import_target_def split: option.splits)

lemma terminal_target_Inr:
  "terminal_target cr oid fed t m bk = Inr ord \<longleftrightarrow> find_order bk oid = Some ord \<and> usesPortableTerminalProtocol ord \<and>
     (fed \<longrightarrow> o_visibility ord = Public) \<and> (\<not> fed \<and> o_visibility ord = Private \<longrightarrow> makerAuthorized cr ord t)"
  by (auto simp: terminal_target_def js_simps split: option.splits if_splits)

lemma terminal_target_D:
  "terminal_target cr oid fed t m bk = Inr ord \<Longrightarrow> find_order bk oid = Some ord \<and> usesPortableTerminalProtocol ord"
  by (simp add: terminal_target_Inr)

lemma row_ids [simp]:
  "o_id (take_row cr now ip tok e q ord) = o_id ord" "o_id (announce_row now h a b ord) = o_id ord"
  "o_id (record_order_conflict now vo ord) = o_id ord" "o_id (fill_row cr now vi vf ord) = o_id ord"
  "o_id (cancel_row now vc ord) = o_id ord" "o_id (relist_row now ord) = o_id ord" "o_id (walk_away_row now ord) = o_id ord"
  by (simp_all add: relist_row_def walk_away_row_def take_row_def announce_row_def record_order_conflict_def fill_row_def Let_def cancel_row_def)

lemma variant_ok:
  assumes "referencedSignedOrderVariant cr now ord raw = Inr vo"
  shows "variant_of cr now ord vo"
proof -
  obtain t where "raw = JObj t"
    using assms by (auto simp: referencedSignedOrderVariant_def js_simps split: json.splits)
  with assms consider "verifiedSignedOrder cr now ord = Inr vo"
    | c where "find (\<lambda>c. oc_orderDigest c = vo_orderDigest vo) (o_orderConflicts ord) = Some c" "vo_orderId vo = o_id ord"
        "verifyOrderV1 cr now True (JObj (order_body_obj (oc_order c))) (maker_auth_json (oc_auth c)) = Inr vo"
    by (fastforce simp: referencedSignedOrderVariant_def js_simps split: if_splits)
  then show ?thesis
  proof cases
    case 1
    then show ?thesis
      by (auto simp: variant_of_def verifiedSignedOrder_def js_simps dest: verifyOrderV1_Inr)
  next
    case 2
    then show ?thesis
      by (auto simp: variant_of_def find_Some_iff dest: verifyOrderV1_Inr(1) intro: nth_mem)
  qed
qed

lemma release_row_id:
  "release_fill cr now ord d rd s = Inr (Some (ord', ev)) \<Longrightarrow> o_id ord' = o_id ord"
  "release_intent cr now ord d rd s = Inr (Some (ord', ev)) \<Longrightarrow> o_id ord' = o_id ord"
  "rememberTerminalConflict now ord c = Some ord' \<Longrightarrow> o_id ord' = o_id ord"
  by (auto simp: release_fill_def release_intent_def rememberTerminalConflict_def js_simps Let_def
      split: option.splits if_splits)

lemma row_step_id: "row_step cr now ord ord' \<Longrightarrow> o_id ord' = o_id ord"
  by (induction rule: row_step.induct) (simp_all add: release_row_id)


abbreviation book_evolves :: "crypto \<Rightarrow> int \<Rightarrow> book \<Rightarrow> book \<Rightarrow> bool" where
  "book_evolves cr now bk bk' \<equiv> orders_evolve cr now (bk_orders bk) (bk_orders bk')"

lemma commit_terminal_step:
  assumes "find_order bk oid = Some ord" "row_step cr now ord ord'"
  shows "book_evolves cr now bk (snd (commit_terminal now ev ord' bk))"
  using evolve_put [OF assms row_step_id [OF assms(2)]] by (simp add: commit_terminal_def Let_def)

lemma record_conflict_step:
  assumes "find_order bk oid = Some ord" "\<not> terminal_free ord"
  shows "book_evolves cr now bk (snd (record_conflict now ev c ord bk))"
  using assms
  by (auto simp: record_conflict_def intro: orders_evolve.same commit_terminal_step row_step.dispute split: option.splits)

lemma releasePortable_step:
  assumes "find_order bk oid = Some ord" "usesPortableTerminalProtocol ord"
  shows "book_evolves (en_cr en) (en_now en) bk (snd (releasePortable en ord body fed bk))"
  unfolding releasePortable_def Let_def
proof (rule guard_op_step, rule orders_evolve.same)
  fix r
  assume r: "js_bind (release_request (en_cr en) ord body fed) (\<lambda>(secret, d).
      if map_of body ''fillDigest'' \<noteq> None
      then release_fill (en_cr en) (en_now en) ord d (map_of body ''fillDigest'') secret
      else release_intent (en_cr en) (en_now en) ord d (map_of body ''intentDigest'') secret) = Inr r"
  show "book_evolves (en_cr en) (en_now en) bk (snd (case r of None \<Rightarrow> (Inr (pub (en_now en) bk ord), bk)
      | Some (ord1, ev) \<Rightarrow> commit_terminal (en_now en) ev ord1 bk))"
  proof (cases r)
    case None
    then show ?thesis by (simp add: orders_evolve.same)
  next
    case (Some x)
    obtain ord1 ev where x: "x = (ord1, ev)" by force
    with r Some assms(2) have "row_step (en_cr en) (en_now en) ord ord1"
      by (auto simp: js_simps split: if_splits intro: row_step.release_fill row_step.release_intent)
    with assms(1) Some x show ?thesis by (auto intro: commit_terminal_step)
  qed
qed

lemma fill_commit_step:
  assumes "find_order bk oid = Some ord" "usesPortableTerminalProtocol ord" "variant_of cr now ord vo"
    "verifyFillIntentV1 cr now True ri ria vo = Inr vi" "verifyFillV1 cr now fed rf ra vo vi = Inr vf"
  shows "book_evolves cr now bk (snd (
      if o_fillDigest ord = Some (vf_fillDigest vf) then (Inr (pub now bk ord), bk)
      else if o_fillDigest ord \<noteq> None \<or> o_cancelDigest ord \<noteq> None then record_conflict now ev evidence ord bk
      else if o_status ord \<noteq> Open \<and> \<not> (fed \<and> o_status ord = Cancelled \<and> o_cancelProof ord = None)
        then (Inl no_longer_open, bk)
      else commit_terminal now ev (fill_row cr now vi vf ord) bk))"
proof (cases "terminal_free ord")
  case True
  with assms(2-5) have "o_status ord \<in> {Open, Cancelled} \<Longrightarrow> row_step cr now ord (fill_row cr now vi vf ord)"
    by (blast intro: row_step.fill)
  with True commit_terminal_step [OF assms(1)] show ?thesis by (auto simp: terminal_free_def orders_evolve.same)
next
  case False
  with record_conflict_step [OF assms(1)] show ?thesis by (auto simp: terminal_free_def orders_evolve.same)
qed

lemma applyFill_step:
  "book_evolves (en_cr en) (en_now en) (sweep (en_now en) bk)
     (snd (applyFill en oid rf ra ri ria fed tok bk))"
  unfolding applyFill_def Let_def
proof (rule guard_op_step, rule orders_evolve.same, goal_cases)
  case (1 x)
  then obtain ord vo vi vf where "find_order (sweep (en_now en) bk) oid = Some ord"
    "usesPortableTerminalProtocol ord" "referencedSignedOrderVariant (en_cr en) (en_now en) ord rf = Inr vo"
    "verifyFillIntentV1 (en_cr en) (en_now en) True ri ria vo = Inr vi"
    "verifyFillV1 (en_cr en) (en_now en) fed rf ra vo vi = Inr vf" "x = (ord, vi, vf)"
    by (auto simp: js_simps dest!: terminal_target_D)
  then show ?case by (simp only: prod.case) (rule fill_commit_step [OF _ _ variant_ok])
qed

lemma cancel_commit_step:
  assumes "find_order bk oid = Some ord" "usesPortableTerminalProtocol ord" "variant_of cr now ord vo"
    "verifyCancelV1 cr now fed rc ra vo = Inr vc"
  shows "book_evolves cr now bk (snd (
      if o_cancelDigest ord = Some (vc_cancelDigest vc) then (Inr (pub now bk ord), bk)
      else if o_fillDigest ord \<noteq> None \<or> o_cancelDigest ord \<noteq> None then record_conflict now ev evidence ord bk
      else commit_terminal now ev (cancel_row now vc ord) bk))"
proof (cases "terminal_free ord")
  case True
  with assms(2-4) have "row_step cr now ord (cancel_row now vc ord)"
    by (blast intro: row_step.cancel)
  with True commit_terminal_step [OF assms(1)] show ?thesis by (auto simp: terminal_free_def orders_evolve.same)
next
  case False
  with record_conflict_step [OF assms(1)] show ?thesis by (auto simp: terminal_free_def orders_evolve.same)
qed

lemma applySignedCancel_step:
  "book_evolves (en_cr en) (en_now en) (sweep (en_now en) bk)
     (snd (applySignedCancel en oid rc ra fed tok bk))"
  unfolding applySignedCancel_def Let_def
proof (rule guard_op_step, rule orders_evolve.same, goal_cases)
  case (1 x)
  then obtain ord vo vc where "find_order (sweep (en_now en) bk) oid = Some ord"
    "usesPortableTerminalProtocol ord" "referencedSignedOrderVariant (en_cr en) (en_now en) ord rc = Inr vo"
    "verifyCancelV1 (en_cr en) (en_now en) fed rc ra vo = Inr vc" "x = (ord, vc)"
    by (auto simp: js_simps dest!: terminal_target_D)
  then show ?case by (simp only: prod.case) (rule cancel_commit_step [OF _ _ variant_ok])
qed

lemma commitTake_step:
  assumes "find_order bk oid = Some ord" "o_status ord = Open" "\<not> usesPortableTerminalProtocol ord"
    "hasRunway ord (en_now en)"
  shows "book_evolves (en_cr en) (en_now en) bk (snd (commitTake en ord body ip bk))"
  unfolding commitTake_def Let_def
proof (rule guard_op_step, rule orders_evolve.same, goal_cases)
  case (1 x)
  obtain eth qrl where x: "x = (eth, qrl)" by force
  have "row_step (en_cr en) (en_now en) ord (take_row (en_cr en) (en_now en) (cr_sha256Hex (en_cr en) ip)
      (en_takerToken en) eth qrl ord)"
    using assms(2-4) by (rule row_step.take)
  from evolve_put [OF assms(1) this] x show ?case by simp
qed

lemma accept_step:
  "book_step (en_cr en) (en_now en) bk (snd (accept_order en oid body ip bk))"
  unfolding accept_order_def Let_def
proof (rule guard_op_step, rule book_step.idle, rule refl)
  show "book_step (en_cr en) (en_now en) bk (snd (guard_op (sweep (en_now en) bk)
      (js_bind (lookup_order (sweep (en_now en) bk) oid) (\<lambda>ord.
         js_bind (hidden_without_share (en_cr en) ord (map_of body ''shareToken'')) (\<lambda>ord.
         throw_if (usesPortableTerminalProtocol ord) (bad 409 ''signed orders require a FillIntentV1 request'')
        (throw_if (o_status ord \<noteq> Open) no_longer_open
        (throw_if (\<not> hasRunway ord (en_now en)) short_runway (Inr ord))))))
      (\<lambda>ord. commitTake en ord body ip (sweep (en_now en) bk))))"
    by (rule book_step.evolve, fold bk_orders_sweep, rule guard_op_step, rule orders_evolve.same)
      (auto simp: js_simps intro: commitTake_step)
qed

lemma find_order_row:
  "omap_wf (bk_orders bk) \<Longrightarrow> ord \<in> set (orders_of bk) \<Longrightarrow> \<exists>oid. find_order bk oid = Some ord"
  by (auto simp: find_order_def orders_of_def intro: map_of_is_SomeI)

lemma first_sorted_mem: "first_of (js_sort cmp xs) = Some x \<Longrightarrow> x \<in> set xs"
  by (metis first_of_Some list.set_intros(1) set_js_sort)

lemma take_step:
  assumes "omap_wf (bk_orders (sweep (en_now en) bk))"
  shows "book_step (en_cr en) (en_now en) bk (snd (take_order en body ip bk))"
  unfolding take_order_def Let_def
proof (rule guard_op_step, rule book_step.idle, rule refl, rule book_step.evolve, fold bk_orders_sweep,
    rule guard_op_step, rule orders_evolve.same)
  fix u best
  assume "js_bind (take_terms body) (\<lambda>(dir, asset, maxPay, minReceive).
       case first_of (js_sort takeOrder (filter (take_match (sweep (en_now en) bk) (en_now en) dir asset maxPay minReceive)
         (orders_of (sweep (en_now en) bk)))) of
         None \<Rightarrow> Inl (bad 409 ''no open order matches those terms; the book may have moved'')
       | Some best \<Rightarrow> Inr best) = Inr best"
  then have "best \<in> set (orders_of (sweep (en_now en) bk))" "o_status best = Open"
    "\<not> usesPortableTerminalProtocol best" "hasRunway best (en_now en)"
    by (auto simp: js_simps take_match_def dest!: first_sorted_mem)
  with find_order_row [OF assms] show "book_evolves (en_cr en) (en_now en) (sweep (en_now en) bk)
      (snd (commitTake en best body ip (sweep (en_now en) bk)))"
    by (blast intro: commitTake_step)
qed

lemma announce_terms_Inr:
  "announce_terms now ord body = Inr (h, t1, t2) \<Longrightarrow> now + 600 < t2 \<and> 2 * (t2 - now) \<le> t1 - now \<and>
     (o_prelocked ord \<longrightarrow> o_hashlock ord = Some h \<and> o_initiatorTimeout ord = Some t1)"
  by (auto simp: announce_terms_def js_simps)

lemma announce_step:
  "book_evolves (en_cr en) (en_now en) (sweep (en_now en) bk) (snd (announceHashlock en oid body bk))"
  unfolding announceHashlock_def Let_def
proof (rule guard_op_step, rule orders_evolve.same, goal_cases)
  case (1 x)
  then obtain ord h t1 t2 where f: "find_order (sweep (en_now en) bk) oid = Some ord" "x = (ord, h, t1, t2)"
    and s: "makerAuthorized (en_cr en) ord (map_of body ''token'')" "\<not> usesPortableTerminalProtocol ord"
      "o_status ord = Accepted" "announce_terms (en_now en) ord body = Inr (h, t1, t2)"
    by (auto simp: js_simps)
  from s announce_terms_Inr [OF s(4)] have "row_step (en_cr en) (en_now en) ord (announce_row (en_now en) h t1 t2 ord)"
    by (auto intro: row_step.announce)
  from evolve_put [OF f(1) this] f(2) show ?case by simp
qed

lemma cancel_step:
  "book_evolves (en_cr en) (en_now en) (sweep (en_now en) bk) (snd (cancel_order en oid body bk))"
  unfolding cancel_order_def Let_def
proof (rule guard_op_step, rule orders_evolve.same, goal_cases)
  case (1 ord)
  then have f: "find_order (sweep (en_now en) bk) oid = Some ord"
    "makerAuthorized (en_cr en) ord (map_of body ''token'')" "\<not> usesPortableTerminalProtocol ord"
    by (auto simp: js_simps)
  from evolve_put [OF f(1) row_step.withdraw [OF f(3,2)]] show ?case by (simp add: orders_evolve.same)
qed

lemma heartbeat_step: "bk_orders (snd (heartbeat en oid token bk)) = bk_orders bk"
  unfolding heartbeat_def Let_def by (rule guard_op_step) (simp_all add: set_seen_def)

lemma release_step:
  "book_evolves (en_cr en) (en_now en) (sweep (en_now en) bk) (snd (release_order en oid body bk))"
  unfolding release_order_def Let_def
proof (rule guard_op_step, rule orders_evolve.same, goal_cases)
  case (1 ord)
  let ?bk = "sweep (en_now en) bk"
  from 1 have f: "find_order ?bk oid = Some ord" by (simp add: js_simps)
  show ?case
  proof (cases "usesPortableTerminalProtocol ord")
    case True
    with releasePortable_step [OF f] show ?thesis by simp
  next
    case False
    have "book_evolves (en_cr en) (en_now en) ?bk (snd (
        if o_status ord = Accepted then update_row (en_now en) (relist_row (en_now en) ord) ?bk
        else if o_status ord = Locking \<and> o_releasedAt ord = None
          then update_row (en_now en) (walk_away_row (en_now en) ord) ?bk
        else (Inr (pub (en_now en) ?bk ord), ?bk)))"
      if t: "o_takerTokenHash ord = Some (cr_sha256Hex (en_cr en) tok)" for tok
      using evolve_put [OF f row_step.relist [OF _ False t]] evolve_put [OF f row_step.walk_away [OF _ False t]]
      by (simp add: orders_evolve.same)
    note row = this
    show ?thesis
      unfolding if_not_P [OF False]
    proof (rule guard_op_step, rule orders_evolve.same, goal_cases)
      case (1 u)
      then obtain tok where "o_takerTokenHash ord = Some (cr_sha256Hex (en_cr en) tok)"
        by (auto simp: js_simps split: option.splits)
      from row [OF this] show ?case by simp
    qed
  qed
qed

lemma importRelease_step:
  "book_evolves (en_cr en) (en_now en) (sweep (en_now en) bk) (snd (importRelease en oid body bk))"
  unfolding importRelease_def Let_def
  by (rule guard_op_step, rule orders_evolve.same)
    (auto simp: js_simps public_portable_def intro: releasePortable_step)

lemma listFillIntents_orders: "bk_orders (snd (listFillIntents en oid tok bk)) = bk_orders (sweep (en_now en) bk)"
  unfolding listFillIntents_def Let_def by (rule guard_op_step) simp_all

lemma shed_orders [simp]: "bk_orders (snd (shedFillIntent cr now ord ra ip bk)) = bk_orders bk"
  by (simp add: shedFillIntent_def Let_def case_prod_beta)

lemma admit_intent_orders:
  "bk_orders (snd (admit_intent now ord vi ip fed kept bk)) =
     AList.update (o_id ord) (ord\<lparr>o_fillIntents := Some (kept @ [new_intent vi now ip]), o_updatedAt := now\<rparr>) (bk_orders bk)"
  by (simp add: admit_intent_def Let_def)

lemma storeFillIntent_step:
  assumes f: "find_order bk oid = Some ord" and p: "usesPortableTerminalProtocol ord"
    and v: "verifiedSignedOrder cr now ord = Inr vo" "verifyFillIntentV1 cr now ae raw rawAuth vo = Inr vi"
    and s: "o_status ord = Open \<or> (o_status ord = Cancelled \<and> o_cancelProof ord = None)" "\<not> o_equivocated ord"
  shows "book_evolves cr now bk (snd (storeFillIntent cr now ord vi ip fed bk))"
proof -
  have admit: "book_evolves cr now bk (snd (admit_intent now ord vi iph fed' kept bk'))"
    if "evict_for vi now (intents_of ord) = Inr kept" "vi_intentDigest vi \<notin> si_intentDigest ` set (intents_of ord)"
      "bk_orders bk' = bk_orders bk" for kept iph fed' bk'
    using orders_evolve.change [of "bk_orders bk" oid ord, OF _ row_step.propose [OF p v that(2,1) s]] f that(3)
    by (simp add: admit_intent_orders find_order_def)
  show ?thesis
  proof (cases "find (\<lambda>i. si_intentDigest i = vi_intentDigest vi) (intents_of ord)")
    case (Some i)
    then show ?thesis by (simp add: storeFillIntent_def Let_def orders_evolve.same)
  next
    case None
    then have n: "vi_intentDigest vi \<notin> si_intentDigest ` set (intents_of ord)"
      by (auto simp: find_None_iff)
    obtain recent bk1 where r: "recentIntentAdmissions (cr_sha256Hex cr ip) now bk = (recent, bk1)" by force
    then have b: "bk_orders bk1 = bk_orders bk"
      using bk_orders_simps(4) [of "cr_sha256Hex cr ip" now bk] by simp
    have g: "book_evolves cr now bk (snd (guard_op bk' (evict_for vi now (intents_of ord))
        (\<lambda>kept. admit_intent now ord vi iph fed' kept bk')))" if "bk_orders bk' = bk_orders bk" for bk' iph fed'
      by (rule guard_op_step) (use that n admit in \<open>auto simp: orders_evolve.same\<close>)
    show ?thesis
      using None r b g [of bk] g [OF b] by (simp add: storeFillIntent_def Let_def orders_evolve.same)
  qed
qed

lemma submitFillIntent_step:
  "book_evolves (en_cr en) (en_now en) (sweep (en_now en) bk)
     (snd (submitFillIntent en oid ri ra ip share bk))"
  unfolding submitFillIntent_def Let_def
proof (rule guard_op_step, rule orders_evolve.same, goal_cases)
  case (1 ord)
  let ?bk = "sweep (en_now en) bk"
  from 1 have f: "find_order ?bk oid = Some ord" and p: "usesPortableTerminalProtocol ord"
    by (auto simp: submit_target_def js_simps)
  obtain gate bk1 where g: "shedFillIntent (en_cr en) (en_now en) ord ra ip ?bk = (gate, bk1)" by force
  then have b: "bk_orders bk1 = bk_orders ?bk"
    using shed_orders [of "en_cr en" "en_now en" ord ra ip ?bk] by simp
  then have f1: "find_order bk1 oid = Some ord" using f by (simp add: find_order_def)
  show ?case
    unfolding g prod.case
  proof (rule guard_op_step, goal_cases)
    case 1
    then show ?case by (simp add: b orders_evolve.same)
  next
    case (2 vi)
    then obtain vo where v: "verifiedSignedOrder (en_cr en) (en_now en) ord = Inr vo"
      "verifyFillIntentV1 (en_cr en) (en_now en) False ri ra vo = Inr vi"
      by (auto simp: js_simps)
    have "book_evolves (en_cr en) (en_now en) bk1 (snd (storeFillIntent (en_cr en) (en_now en) ord vi ip False bk1))"
      if "o_status ord = Open" "\<not> o_equivocated ord"
      using storeFillIntent_step [OF f1 p v] that by blast
    then show ?case by (auto simp: b orders_evolve.same split: option.splits)
  qed
qed

lemma importFillIntent_step:
  "book_evolves (en_cr en) (en_now en) (sweep (en_now en) bk) (snd (importFillIntent en oid ri ra bk))"
  unfolding importFillIntent_def Let_def
proof (rule guard_op_step, rule orders_evolve.same, goal_cases)
  case (1 x)
  then obtain ord vo vi where x: "x = (ord, vi)" and f: "find_order (sweep (en_now en) bk) oid = Some ord"
    and p: "usesPortableTerminalProtocol ord" and v: "verifiedSignedOrder (en_cr en) (en_now en) ord = Inr vo"
      "verifyFillIntentV1 (en_cr en) (en_now en) True ri ra vo = Inr vi"
    by (auto simp: js_simps public_portable_def)
  have "book_evolves (en_cr en) (en_now en) (sweep (en_now en) bk)
      (snd (storeFillIntent (en_cr en) (en_now en) ord vi ''federation'' True (sweep (en_now en) bk)))"
    if "o_status ord = Open \<or> (o_status ord = Cancelled \<and> o_cancelProof ord = None)" "\<not> o_equivocated ord"
    using storeFillIntent_step [OF f p v that] .
  with x show ?case by (auto simp: orders_evolve.same split: option.splits)
qed

lemma insert_new_orders:
  "bk_orders (snd (insert_new en ip v fed caps src nt bk)) =
     AList.update (nt_id nt) (new_order en ip v fed src nt) (bk_orders bk)"
  by (auto simp: insert_new_def Let_def new_order_def split: option.splits)

lemma new_order_id [simp]: "o_id (new_order en ip v fed src nt) = nt_id nt"
  by (simp add: new_order_def Let_def)

definition signed_input :: "crypto \<Rightarrow> int \<Rightarrow> jobj \<Rightarrow> verified_order option \<Rightarrow> bool" where
  "signed_input cr now body verified \<longleftrightarrow> (case verified of None \<Rightarrow> True
     | Some vo \<Rightarrow> verified_order_ok cr vo \<and> body = order_body_obj (vo_order vo) \<and>
         pa_issuedAt (vo_auth vo) \<le> now + MAX_CLOCK_SKEW_S)"

lemma create_replay_orders [simp]: "bk_orders (snd (create_replay en vo fed caps ord bk)) = bk_orders bk"
  by (simp add: create_replay_def Let_def)

lemma createInternal_step:
  assumes "signed_input (en_cr en) (en_now en) body v" "fed \<longrightarrow> v \<noteq> None"
  shows "book_evolves (en_cr en) (en_now en) (sweep (en_now en) bk)
     (snd (createInternal en body ip v fed caps src bk))"
proof (cases "case v of None \<Rightarrow> None | Some vo \<Rightarrow> map_option (Pair vo) (find_order (sweep (en_now en) bk) (vo_orderId vo))")
  case (Some p)
  then show ?thesis
    by (cases p) (simp add: createInternal_def Let_def orders_evolve.same)
next
  case None
  have "book_evolves (en_cr en) (en_now en) (sweep (en_now en) bk)
      (snd (guard_op (sweep (en_now en) bk) (create_terms en body ip v fed caps src (sweep (en_now en) bk))
        (\<lambda>nt. insert_new en ip v fed caps src nt (sweep (en_now en) bk))))"
  proof (rule guard_op_step, rule orders_evolve.same, goal_cases)
    case (1 nt)
    have "orders_evolve (en_cr en) (en_now en) (bk_orders (sweep (en_now en) bk))
        (AList.update (o_id (new_order en ip v fed src nt)) (new_order en ip v fed src nt) (bk_orders (sweep (en_now en) bk)))"
      using assms by (intro orders_evolve.add [OF refl refl refl 1 refl]) (auto simp: signed_input_def)
    then show ?case by (simp add: insert_new_orders)
  qed
  with None show ?thesis by (simp add: createInternal_def Let_def)
qed

lemma importVerifiedOrder_step:
  assumes "verified_order_ok (en_cr en) vo" "pa_issuedAt (vo_auth vo) \<le> en_now en + MAX_CLOCK_SKEW_S"
    and keys: "\<forall>(k, ord)\<in>set (bk_orders (sweep (en_now en) bk)). k = o_id ord"
  shows "book_evolves (en_cr en) (en_now en) (sweep (en_now en) bk) (snd (importVerifiedOrder en vo src bk))"
proof (cases "find_order (sweep (en_now en) bk) (vo_orderId vo)")
  case None
  have "book_evolves (en_cr en) (en_now en) (sweep (en_now en) (sweep (en_now en) bk))
      (snd (createInternal en (order_body_obj (vo_order vo)) (''federation:'' @ src) (Some vo) True None (Some src)
        (sweep (en_now en) bk)))"
    by (rule createInternal_step) (use assms in \<open>auto simp: signed_input_def\<close>)
  then have "book_evolves (en_cr en) (en_now en) (sweep (en_now en) bk)
      (snd (createInternal en (order_body_obj (vo_order vo)) (''federation:'' @ src) (Some vo) True None (Some src)
        (sweep (en_now en) bk)))"
    by (simp add: bk_orders_sweep)
  with None show ?thesis
    by (simp add: importVerifiedOrder_def Let_def orders_evolve.same case_prod_beta)
next
  case (Some ord)
  have oid: "vo_orderId vo = o_id ord"
    using Some keys by (auto simp: find_order_def dest!: map_of_SomeD)
  have "book_evolves (en_cr en) (en_now en) (sweep (en_now en) bk)
      (put_order (record_order_conflict (en_now en) vo ord) (sweep (en_now en) bk))"
    if "o_orderDigest ord \<noteq> Some (vo_orderDigest vo)" "\<not> list_ex (\<lambda>c. oc_orderDigest c = vo_orderDigest vo) (o_orderConflicts ord)"
    by (rule evolve_put [OF Some row_step.equivocate]) (use assms oid that in \<open>auto simp: list_ex_iff\<close>)
  with Some show ?thesis
    by (auto simp: importVerifiedOrder_def Let_def orders_evolve.same)
qed

lemma applyFederationEvent_step:
  assumes keys: "\<forall>(k, ord)\<in>set (bk_orders (sweep (en_now en) bk)). k = o_id ord"
  shows "book_step (en_cr en) (en_now en) bk (snd (applyFederationEvent en ev src bk))"
proof (cases "fe_kind ev = EvOrder")
  case True
  have "book_step (en_cr en) (en_now en) bk (snd (importVerifiedOrder en vo src bk))"
    if "verifyOrderV1 (en_cr en) (en_now en) True ro ra = Inr vo" for vo ro ra
    using importVerifiedOrder_step [OF verifyOrderV1_Inr(1,2) keys] that
    by (fastforce simp: bk_orders_sweep intro: book_step.evolve)
  with True show ?thesis
    unfolding applyFederationEvent_def Let_def
    by (simp only: simp_thms if_True) (rule guard_op_step [where Q = "book_step (en_cr en) (en_now en) bk"],
      auto simp: js_simps intro: book_step.idle)
next
  case False
  have ev: "book_step (en_cr en) (en_now en) bk bk'" if "book_evolves (en_cr en) (en_now en) (sweep (en_now en) bk) bk'" for bk'
    using that by (simp add: bk_orders_sweep book_step.evolve)
  have idle: "book_step (en_cr en) (en_now en) bk bk" by (simp add: book_step.idle)
  have guarded: "book_step (en_cr en) (en_now en) bk (snd (guard_op bk r (\<lambda>_. forget ans)))"
    if "book_evolves (en_cr en) (en_now en) (sweep (en_now en) bk) (snd ans)" for r :: "unit api" and ans :: "'x answer"
    by (rule guard_op_step) (use that idle ev in auto)
  note steps = guarded [OF importFillIntent_step] guarded [OF applyFill_step] guarded [OF applySignedCancel_step]
    guarded [OF importRelease_step]
  from False show ?thesis
    unfolding applyFederationEvent_def Let_def importFill_def importSignedCancel_def
    by (simp only: if_False) (rule guard_op_step, rule idle,
      cases "fe_kind ev"; simp only: fed_kind.case; (rule steps | simp))
qed

lemma read_ops_step:
  "bk_orders (snd (listOpen en bk)) = bk_orders (sweep (en_now en) bk)"
  "bk_orders (snd (get_order en oid share bk)) = bk_orders (sweep (en_now en) bk)"
  "bk_orders (snd (federationSnapshot en b bk)) = (if b then bk_orders (sweep (en_now en) bk) else bk_orders bk)"
  subgoal by (simp add: listOpen_def Let_def)
  subgoal unfolding get_order_def Let_def by (rule guard_op_step) simp_all
  subgoal by (simp add: federationSnapshot_def Let_def)
  done

end
