(* ===== verification/Write_Admission.thy ===== *)
theory Write_Admission
  imports Book_Types
begin

text \<open>
  Admission of work into the order book service: the lanes of \<^verbatim>\<open>server/src/admission.ts\<close>,
  the two bounds that hand out idempotent release handles (\<^verbatim>\<open>InflightWriteBound\<close> and
  \<^verbatim>\<open>FederationConcurrencyLimiter\<close>), and the fixed-window \<^verbatim>\<open>FederationResetLimiter\<close>.
  A release closure with its \<^verbatim>\<open>released\<close> flag is an entry of the bound's list of slots.
\<close>

section \<open>Paths\<close>

text \<open>\<^verbatim>\<open>s.split(c)\<close> on one character.\<close>

fun split_on :: "char \<Rightarrow> string \<Rightarrow> string list" where
  "split_on c [] = [[]]"
| "split_on c (x # s) =
     (if x = c then [] # split_on c s
      else (case split_on c s of [] \<Rightarrow> [[x]] | w # ws \<Rightarrow> (x # w) # ws))"

text \<open>
  The order routes are anchored patterns over \<^verbatim>\<open>/\<close>-separated segments, so a path is matched
  by its segments: \<open>order_path\<close> gives the captured id and what follows it.
\<close>

definition order_path :: "string \<Rightarrow> (string \<times> string list) option" where
  "order_path path = (case split_on CHR ''/'' path of
     [] # api # orders # oid # rest \<Rightarrow>
       if api = ''api'' \<and> orders = ''orders'' \<and> oid \<noteq> [] then Some (oid, rest) else None
   | _ \<Rightarrow> None)"


section \<open>Lanes\<close>

datatype admission_lane = MakerLane | SignedCreateLane | TakerLane

definition SIGNED_CREATE_PATH :: string where
  "SIGNED_CREATE_PATH = ''/api/orders/signed''"

definition MAKER_ORDER_PATH_RE :: "string \<Rightarrow> string option" where
  "MAKER_ORDER_PATH_RE path = (case order_path path of None \<Rightarrow> None
     | Some (oid, rest) \<Rightarrow>
         if rest \<in> {[''cancel''], [''cancel'', ''signed''], [''fill''], [''hashlock'']} then Some oid else None)"

definition admissionLane :: "string \<Rightarrow> string option \<Rightarrow> (string \<Rightarrow> string \<Rightarrow> bool) \<Rightarrow> admission_lane" where
  "admissionLane path makerToken matchesCapability =
     (if path = SIGNED_CREATE_PATH then SignedCreateLane
      else case MAKER_ORDER_PATH_RE path of None \<Rightarrow> TakerLane
      | Some oid \<Rightarrow> (case makerToken of None \<Rightarrow> TakerLane
          | Some t \<Rightarrow> if matchesCapability oid t then MakerLane else TakerLane))"

fun laneCeiling :: "admission_lane \<Rightarrow> int \<Rightarrow> int \<Rightarrow> int" where
  "laneCeiling MakerLane tot reserved = tot"
| "laneCeiling SignedCreateLane tot reserved = (tot - reserved) + reserved div 2"
| "laneCeiling TakerLane tot reserved = tot - reserved"


section \<open>Slots with idempotent release\<close>

type_synonym 'a slots = "('a \<times> bool) list"

definition held_slots :: "('a \<Rightarrow> bool) \<Rightarrow> 'a slots \<Rightarrow> int" where
  "held_slots P ss = int (length (filter (\<lambda>(a, released). P a \<and> \<not> released) ss))"

lemma held_slots_append [simp]:
  "held_slots P (ss @ [(a, False)]) = held_slots P ss + (if P a then 1 else 0)"
  by (simp add: held_slots_def)

lemma held_slots_release:
  "i < length ss \<Longrightarrow> ss ! i = (a, False) \<Longrightarrow>
     held_slots P (ss[i := (a, True)]) = held_slots P ss - (if P a then 1 else 0)"
proof (induction ss arbitrary: i)
  case Nil
  then show ?case by simp
next
  case (Cons s ss)
  show ?case
  proof (cases i)
    case 0
    with Cons.prems show ?thesis by (simp add: held_slots_def)
  next
    case (Suc j)
    with Cons.prems Cons.IH [of j] show ?thesis by (auto simp: held_slots_def split: prod.splits)
  qed
qed

lemma held_slots_nonneg [simp]: "0 \<le> held_slots P ss"
  by (simp add: held_slots_def)

lemma held_slots_mono: "(\<And>a. P a \<Longrightarrow> Q a) \<Longrightarrow> held_slots P ss \<le> held_slots Q ss"
  by (induction ss) (auto simp: held_slots_def)

lemma held_slots_split: "held_slots (\<lambda>_. True) ss = held_slots P ss + held_slots (\<lambda>a. \<not> P a) ss"
  by (induction ss) (auto simp: held_slots_def)

text \<open>
  What a holder of a handle relies on: the counter the bound keeps is the number of handles
  not yet released, an acquisition adds one, and a second release changes nothing.
\<close>

locale slot_bound =
  fixes slots :: "'s \<Rightarrow> 'a slots"
    and counter :: "'s \<Rightarrow> int"
    and acquire :: "'a \<Rightarrow> 's \<Rightarrow> 's option"
    and release :: "nat \<Rightarrow> 's \<Rightarrow> 's"
  assumes acquire_slot: "acquire a s = Some s' \<Longrightarrow>
      slots s' = slots s @ [(a, False)] \<and> counter s' = counter s + 1"
    and release_live: "i < length (slots s) \<Longrightarrow> slots s ! i = (a, False) \<Longrightarrow>
      slots (release i s) = (slots s)[i := (a, True)] \<and> counter (release i s) = counter s - 1"
    and release_dead: "length (slots s) \<le> i \<or> snd (slots s ! i) \<Longrightarrow> release i s = s"
begin

lemma acquire_counter:
  "counter s = held_slots (\<lambda>_. True) (slots s) \<Longrightarrow> acquire a s = Some s' \<Longrightarrow>
     counter s' = held_slots (\<lambda>_. True) (slots s')"
  using acquire_slot by fastforce

lemma release_counter:
  assumes "counter s = held_slots (\<lambda>_. True) (slots s)"
  shows "counter (release i s) = held_slots (\<lambda>_. True) (slots (release i s))"
proof (cases "i < length (slots s) \<and> \<not> snd (slots s ! i)")
  case True
  then obtain a where "i < length (slots s)" "slots s ! i = (a, False)"
    by (metis (full_types) prod.collapse)
  with assms release_live held_slots_release [of i "slots s" a "\<lambda>_. True"] show ?thesis by simp
next
  case False
  with assms release_dead show ?thesis by (metis not_le)
qed

lemma release_idempotent: "release i (release i s) = release i s"
proof (cases "i < length (slots s) \<and> \<not> snd (slots s ! i)")
  case True
  then obtain a where "i < length (slots s)" "slots s ! i = (a, False)"
    by (metis (full_types) prod.collapse)
  then have "snd (slots (release i s) ! i)" using release_live by simp
  then show ?thesis by (intro release_dead) blast
next
  case False
  with release_dead show ?thesis by (metis not_le)
qed

end


section \<open>The in-flight write bound\<close>

record write_bound =
  wb_total :: int
  wb_reserved :: int
  wb_active :: int
  wb_slots :: "admission_lane slots"

definition new_write_bound :: "int \<Rightarrow> int \<Rightarrow> write_bound option" where
  "new_write_bound tot reserved =
     (if tot < 1 then None
      else if reserved < 0 \<or> reserved \<ge> tot then None
      else Some \<lparr>wb_total = tot, wb_reserved = reserved, wb_active = 0, wb_slots = []\<rparr>)"

definition ceilingFor :: "write_bound \<Rightarrow> admission_lane \<Rightarrow> int" where
  "ceilingFor b lane = laneCeiling lane (wb_total b) (wb_reserved b)"

definition acquire_write :: "admission_lane \<Rightarrow> write_bound \<Rightarrow> write_bound option" where
  "acquire_write lane b =
     (if wb_active b \<ge> ceilingFor b lane then None
      else Some (b\<lparr>wb_active := wb_active b + 1, wb_slots := wb_slots b @ [(lane, False)]\<rparr>))"

definition release_write :: "nat \<Rightarrow> write_bound \<Rightarrow> write_bound" where
  "release_write i b =
     (if i < length (wb_slots b) \<and> \<not> snd (wb_slots b ! i)
      then b\<lparr>wb_slots := (wb_slots b)[i := (fst (wb_slots b ! i), True)], wb_active := wb_active b - 1\<rparr>
      else b)"

interpretation wb: slot_bound wb_slots wb_active acquire_write release_write
  by unfold_locales (auto simp: acquire_write_def release_write_def split: if_splits)

datatype 'a slot_op = AcquireSlot 'a | ReleaseSlot nat

fun slot_step :: "('a \<Rightarrow> 's \<Rightarrow> 's option) \<Rightarrow> (nat \<Rightarrow> 's \<Rightarrow> 's) \<Rightarrow> 'a slot_op \<Rightarrow> 's \<Rightarrow> 's" where
  "slot_step acq rel (AcquireSlot a) s = nvl (acq a s) s"
| "slot_step acq rel (ReleaseSlot i) s = rel i s"

definition run_writes :: "admission_lane slot_op list \<Rightarrow> write_bound \<Rightarrow> write_bound" where
  "run_writes ops b = fold (slot_step acquire_write release_write) ops b"

text \<open>Held slots of the lanes that may not use the maker headroom, and of takers alone.\<close>

abbreviation held_lane :: "write_bound \<Rightarrow> (admission_lane \<Rightarrow> bool) \<Rightarrow> int" where
  "held_lane b P \<equiv> held_slots P (wb_slots b)"

definition write_bound_ok :: "int \<Rightarrow> int \<Rightarrow> write_bound \<Rightarrow> bool" where
  "write_bound_ok tot reserved b \<longleftrightarrow> wb_total b = tot \<and> wb_reserved b = reserved \<and>
     wb_active b = held_lane b (\<lambda>_. True) \<and> wb_active b \<le> tot \<and>
     held_lane b (\<lambda>l. l = TakerLane) \<le> tot - reserved \<and>
     held_lane b (\<lambda>l. l \<noteq> MakerLane) \<le> (tot - reserved) + reserved div 2"

lemma acquire_write_ok:
  assumes "write_bound_ok t r b" "0 \<le> r" "acquire_write lane b = Some b'"
  shows "write_bound_ok t r b'"
proof -
  from assms(3) have b': "wb_active b < ceilingFor b lane" "wb_total b' = wb_total b" "wb_reserved b' = wb_reserved b"
    "wb_active b' = wb_active b + 1" "wb_slots b' = wb_slots b @ [(lane, False)]"
    by (auto simp: acquire_write_def split: if_splits)
  have le: "held_lane b P \<le> wb_active b" for P
    using assms(1) held_slots_mono [of P "\<lambda>_. True" "wb_slots b"] by (simp add: write_bound_ok_def)
  show ?thesis
    using assms(1,2) b' le [of "\<lambda>l. l = TakerLane"] le [of "\<lambda>l. l \<noteq> MakerLane"]
    by (cases lane) (auto simp: write_bound_ok_def ceilingFor_def)
qed

lemma release_write_ok:
  assumes "write_bound_ok t r b"
  shows "write_bound_ok t r (release_write i b)"
proof (cases "i < length (wb_slots b) \<and> \<not> snd (wb_slots b ! i)")
  case True
  then obtain l where l: "i < length (wb_slots b)" "wb_slots b ! i = (l, False)"
    by (metis (full_types) prod.collapse)
  have "held_lane (release_write i b) P = held_lane b P - (if P l then 1 else 0)" for P
    using l by (simp add: release_write_def held_slots_release)
  with assms l show ?thesis by (auto simp: write_bound_ok_def release_write_def)
next
  case False
  with assms show ?thesis by (auto simp: release_write_def)
qed

lemma run_writes_ok:
  assumes "new_write_bound t r = Some b"
  shows "write_bound_ok t r (run_writes ops b)" "0 \<le> r"
proof -
  from assms show r: "0 \<le> r" by (auto simp: new_write_bound_def split: if_splits)
  from assms have "write_bound_ok t r b"
    by (auto simp: new_write_bound_def write_bound_ok_def held_slots_def split: if_splits)
  then have "write_bound_ok t r (fold (slot_step acquire_write release_write) ops b)"
  proof (induction ops arbitrary: b)
    case (Cons x ops)
    have "write_bound_ok t r (slot_step acquire_write release_write x b)"
      using Cons.prems r acquire_write_ok release_write_ok
      by (cases x) (auto simp: nvl_def split: option.splits)
    with Cons.IH show ?case by simp
  qed simp
  then show "write_bound_ok t r (run_writes ops b)" by (simp add: run_writes_def)
qed

text \<open>
  C39: the reserved maker headroom. However writes of the three lanes are admitted and released,
  takers never hold more than the unreserved share, takers and signed creates together never
  more than that share and half of the reservation, and a write that proved the maker capability
  is admitted whenever fewer than the other half of the reservation is held by maker writes.
\<close>

theorem maker_headroom:
  assumes "new_write_bound tot reserved = Some b"
  shows "held_lane (run_writes ops b) (\<lambda>l. l = TakerLane) \<le> tot - reserved
    \<and> held_lane (run_writes ops b) (\<lambda>l. l \<noteq> MakerLane) \<le> tot - reserved + reserved div 2
    \<and> wb_active (run_writes ops b) \<le> tot
    \<and> (held_lane (run_writes ops b) (\<lambda>l. l = MakerLane) < reserved - reserved div 2
        \<longrightarrow> acquire_write MakerLane (run_writes ops b) \<noteq> None)"
  using run_writes_ok(1) [OF assms, of ops] held_slots_split [of "wb_slots (run_writes ops b)" "\<lambda>l. l = MakerLane"]
  by (auto simp: write_bound_ok_def acquire_write_def ceilingFor_def)

theorem maker_headroom_witness:
  "acquire_write MakerLane (run_writes [AcquireSlot TakerLane, AcquireSlot TakerLane, AcquireSlot SignedCreateLane,
       ReleaseSlot 0, ReleaseSlot 0, AcquireSlot TakerLane]
     \<lparr>wb_total = 4, wb_reserved = 3, wb_active = 0, wb_slots = []\<rparr>) \<noteq> None"
  using maker_headroom [of 4 3 "\<lparr>wb_total = 4, wb_reserved = 3, wb_active = 0, wb_slots = []\<rparr>"
      "[AcquireSlot TakerLane, AcquireSlot TakerLane, AcquireSlot SignedCreateLane,
       ReleaseSlot 0, ReleaseSlot 0, AcquireSlot TakerLane]"]
  by (simp add: new_write_bound_def run_writes_def acquire_write_def release_write_def ceilingFor_def nvl_def held_slots_def)


section \<open>The per-source concurrency limiter\<close>

record conc_limiter =
  cl_perSourceLimit :: int
  cl_globalLimit :: int
  cl_globalCount :: int
  cl_sourceCounts :: "(string, int) omap"
  cl_slots :: "string slots"

definition new_conc_limiter :: "int \<Rightarrow> int \<Rightarrow> conc_limiter option" where
  "new_conc_limiter perSource global =
     (if perSource < 1 \<or> global < 1 then None
      else Some \<lparr>cl_perSourceLimit = perSource, cl_globalLimit = global, cl_globalCount = 0,
        cl_sourceCounts = [], cl_slots = []\<rparr>)"

text \<open>\<open>Inl\<close> is the thrown error, \<open>Inr None\<close> a refusal.\<close>

record slot_limits =
  sl_perSource :: "int option"
  sl_global :: "int option"

definition acquire_source :: "string \<Rightarrow> slot_limits \<Rightarrow> conc_limiter \<Rightarrow> string + conc_limiter option" where
  "acquire_source source limits l =
     (if length source < 1 \<or> length source > 256 then Inl ''federation concurrency source is invalid''
      else (let perSourceLimit = min (cl_perSourceLimit l) (nvl (sl_perSource limits) (cl_perSourceLimit l));
                globalLimit = min (cl_globalLimit l) (nvl (sl_global limits) (cl_globalLimit l));
                sourceCount = nvl (map_of (cl_sourceCounts l) source) 0 in
        if sourceCount \<ge> perSourceLimit \<or> cl_globalCount l \<ge> globalLimit then Inr None
        else Inr (Some (l\<lparr>cl_globalCount := cl_globalCount l + 1,
               cl_sourceCounts := AList.update source (sourceCount + 1) (cl_sourceCounts l),
               cl_slots := cl_slots l @ [(source, False)]\<rparr>))))"

definition release_source :: "nat \<Rightarrow> conc_limiter \<Rightarrow> conc_limiter" where
  "release_source i l =
     (if i < length (cl_slots l) \<and> \<not> snd (cl_slots l ! i)
      then (let source = fst (cl_slots l ! i);
                remaining = nvl (map_of (cl_sourceCounts l) source) 1 - 1 in
        l\<lparr>cl_slots := (cl_slots l)[i := (source, True)], cl_globalCount := cl_globalCount l - 1,
          cl_sourceCounts := (if remaining = 0 then AList.delete source (cl_sourceCounts l)
             else AList.update source remaining (cl_sourceCounts l))\<rparr>)
      else l)"

text \<open>One class of caller is one choice of \<open>limits\<close>; its acquisition as the handle contract sees it.\<close>

definition acquire_within :: "slot_limits \<Rightarrow> string \<Rightarrow> conc_limiter \<Rightarrow> conc_limiter option" where
  "acquire_within limits source l = (case acquire_source source limits l of Inr r \<Rightarrow> r | Inl _ \<Rightarrow> None)"

interpretation cl: slot_bound cl_slots cl_globalCount "acquire_within limits" release_source
  for limits
  by unfold_locales
    (auto simp: acquire_within_def acquire_source_def release_source_def Let_def split: if_splits)

definition conc_ok :: "int \<Rightarrow> int \<Rightarrow> conc_limiter \<Rightarrow> bool" where
  "conc_ok ps gl l \<longleftrightarrow> cl_perSourceLimit l = ps \<and> cl_globalLimit l = gl \<and> omap_wf (cl_sourceCounts l) \<and>
     cl_globalCount l = held_slots (\<lambda>_. True) (cl_slots l) \<and> cl_globalCount l \<le> gl \<and>
     (\<forall>s. nvl (map_of (cl_sourceCounts l) s) 0 = held_slots (\<lambda>x. x = s) (cl_slots l)) \<and>
     (\<forall>s n. map_of (cl_sourceCounts l) s = Some n \<longrightarrow> 0 < n) \<and>
     (\<forall>s. held_slots (\<lambda>x. x = s) (cl_slots l) \<le> ps)"

lemma acquire_within_ok:
  assumes "conc_ok ps gl l" "acquire_within limits source l = Some l'"
  shows "conc_ok ps gl l'"
proof -
  let ?n = "nvl (map_of (cl_sourceCounts l) source) 0"
  from assms(2) have l': "l' = l\<lparr>cl_globalCount := cl_globalCount l + 1,
      cl_sourceCounts := AList.update source (?n + 1) (cl_sourceCounts l), cl_slots := cl_slots l @ [(source, False)]\<rparr>"
    and lt: "?n < cl_perSourceLimit l" "cl_globalCount l < cl_globalLimit l"
    by (auto simp: acquire_within_def acquire_source_def Let_def split: if_splits)
  from assms(1) have n: "?n = held_slots (\<lambda>x. x = source) (cl_slots l)" by (simp add: conc_ok_def)
  then have "0 < ?n + 1" using held_slots_nonneg [of "\<lambda>x. x = source" "cl_slots l"] by linarith
  with assms(1) l' lt n show ?thesis
    by (auto simp: conc_ok_def js_simps distinct_update nvl_def)
qed

lemma release_source_ok:
  assumes "conc_ok ps gl l"
  shows "conc_ok ps gl (release_source i l)"
proof (cases "i < length (cl_slots l) \<and> \<not> snd (cl_slots l ! i)")
  case True
  then obtain s where s: "i < length (cl_slots l)" "cl_slots l ! i = (s, False)"
    by (metis (full_types) prod.collapse)
  let ?h = "\<lambda>x. held_slots (\<lambda>y. y = x) (cl_slots l)"
  have h: "held_slots P (cl_slots (release_source i l)) = held_slots P (cl_slots l) - (if P s then 1 else 0)" for P
    using s by (simp add: release_source_def Let_def held_slots_release)
  have "0 < ?h s"
    using nth_mem [OF s(1)] s(2) by (force simp: held_slots_def filter_empty_conv)
  with assms have ms: "map_of (cl_sourceCounts l) s = Some (?h s)"
    by (auto simp: conc_ok_def nvl_def dest!: spec [of _ s] split: option.splits)
  have counts: "map_of (cl_sourceCounts (release_source i l)) x =
      (if x = s then (if ?h s = 1 then None else Some (?h s - 1)) else map_of (cl_sourceCounts l) x)" for x
    using s ms by (auto simp: release_source_def Let_def js_simps nvl_def)
  have fs: "cl_perSourceLimit (release_source i l) = ps" "cl_globalLimit (release_source i l) = gl"
    "omap_wf (cl_sourceCounts (release_source i l))" "cl_globalCount (release_source i l) = cl_globalCount l - 1"
    using assms s by (simp_all add: conc_ok_def release_source_def Let_def distinct_update distinct_delete)
  have "nvl (map_of (cl_sourceCounts (release_source i l)) x) 0 = held_slots (\<lambda>y. y = x) (cl_slots (release_source i l))" for x
    using assms h [of "\<lambda>y. y = x"] counts [of x] by (auto simp: conc_ok_def nvl_def)
  moreover have "0 < n" if "map_of (cl_sourceCounts (release_source i l)) x = Some n" for x n
    using assms that counts [of x] \<open>0 < ?h s\<close> by (auto simp: conc_ok_def split: if_splits)
  moreover have "held_slots (\<lambda>y. y = x) (cl_slots (release_source i l)) \<le> ps" for x
  proof -
    have "?h x \<le> ps" using assms by (simp add: conc_ok_def)
    with h [of "\<lambda>y. y = x"] show ?thesis by (auto split: if_splits)
  qed
  ultimately show ?thesis
    using assms fs h [of "\<lambda>_. True"] unfolding conc_ok_def by auto
next
  case False
  with assms show ?thesis by (auto simp: release_source_def)
qed

definition run_sources :: "(slot_limits \<times> string) slot_op list \<Rightarrow> conc_limiter \<Rightarrow> conc_limiter" where
  "run_sources ops l = fold (slot_step (\<lambda>(limits, source). acquire_within limits source) release_source) ops l"

lemma run_sources_ok:
  assumes "new_conc_limiter ps gl = Some l"
  shows "conc_ok ps gl (run_sources ops l)"
proof -
  from assms have "conc_ok ps gl l"
    by (auto simp: new_conc_limiter_def conc_ok_def held_slots_def nvl_def split: if_splits)
  then show ?thesis
    unfolding run_sources_def
  proof (induction ops arbitrary: l)
    case (Cons x ops)
    have "conc_ok ps gl (slot_step (\<lambda>(limits, source). acquire_within limits source) release_source x l)"
      using Cons.prems acquire_within_ok release_source_ok
      by (cases x) (auto simp: nvl_def split: option.splits)
    with Cons.IH show ?case by simp
  qed simp
qed

lemma conc_sources_bound:
  assumes "conc_ok ps gl l"
  shows "int (length (cl_sourceCounts l)) \<le> cl_globalCount l"
proof -
  let ?m = "cl_sourceCounts l" and ?held = "filter (\<lambda>(a, released). \<not> released) (cl_slots l)"
  have "set (map fst ?m) \<subseteq> fst ` set ?held"
  proof
    fix s
    assume "s \<in> set (map fst ?m)"
    then obtain n where "map_of ?m s = Some n" by (metis map_of_eq_None_iff not_Some_eq set_map)
    with assms have "held_slots (\<lambda>x. x = s) (cl_slots l) \<noteq> 0" by (force simp: conc_ok_def nvl_def split: option.splits)
    then obtain p where "p \<in> set (cl_slots l)" "fst p = s" "\<not> snd p"
      by (auto simp: held_slots_def filter_empty_conv)
    then show "s \<in> fst ` set ?held" by force
  qed
  then have "card (set (map fst ?m)) \<le> length ?held"
    by (meson List.finite_set card_image_le card_length card_mono finite_imageI le_trans)
  moreover have "card (set (map fst ?m)) = length ?m"
    using assms by (metis conc_ok_def distinct_card length_map)
  moreover have "cl_globalCount l = int (length ?held)"
    using assms by (simp add: conc_ok_def held_slots_def)
  ultimately show ?thesis by simp
qed

lemma conc_limits_hold:
  assumes "new_conc_limiter ps gl = Some l"
  shows "held_slots (\<lambda>_. True) (cl_slots (run_sources ops l)) \<le> gl"
    and "held_slots (\<lambda>x. x = s) (cl_slots (run_sources ops l)) \<le> ps"
    and "int (length (cl_sourceCounts (run_sources ops l))) \<le> gl"
  using run_sources_ok [OF assms, of ops] conc_sources_bound [OF run_sources_ok [OF assms, of ops]]
  by (auto simp: conc_ok_def)


section \<open>The fixed-window limiter\<close>

record reset_limiter =
  rl_perSourceLimit :: int
  rl_globalLimit :: int
  rl_windowMs :: int
  rl_window :: int
  rl_globalCount :: int
  rl_sourceCounts :: "(string, int) omap"

definition new_reset_limiter :: "int \<Rightarrow> int \<Rightarrow> int \<Rightarrow> reset_limiter option" where
  "new_reset_limiter ps gl w =
     (if ps < 1 \<or> gl < 1 \<or> w < 1 then None
      else Some \<lparr>rl_perSourceLimit = ps, rl_globalLimit = gl, rl_windowMs = w, rl_window = -1,
        rl_globalCount = 0, rl_sourceCounts = []\<rparr>)"

definition roll_window :: "int \<Rightarrow> reset_limiter \<Rightarrow> reset_limiter" where
  "roll_window w l =
     (if w > rl_window l then l\<lparr>rl_window := w, rl_globalCount := 0, rl_sourceCounts := []\<rparr> else l)"

definition allow_source :: "string \<Rightarrow> int \<Rightarrow> reset_limiter \<Rightarrow> string + bool \<times> reset_limiter" where
  "allow_source source now l =
     (if length source < 1 \<or> length source > 256 then Inl ''federation reset source is invalid''
      else if now < 0 then Inl ''federation reset time is invalid''
      else (let l1 = roll_window (now div rl_windowMs l) l;
                sourceCount = nvl (map_of (rl_sourceCounts l1) source) 0 in
        if rl_globalCount l1 \<ge> rl_globalLimit l1 then Inr (False, l1)
        else if sourceCount \<ge> rl_perSourceLimit l1 then Inr (False, l1)
        else Inr (True, l1\<lparr>rl_globalCount := rl_globalCount l1 + 1,
               rl_sourceCounts := AList.update source (sourceCount + 1) (rl_sourceCounts l1)\<rparr>)))"

text \<open>The requests let through, newest last, each with the window it was counted in.\<close>

fun run_requests :: "(string \<times> int) list \<Rightarrow> reset_limiter \<Rightarrow> (string \<times> int) list" where
  "run_requests [] l = []"
| "run_requests ((source, now) # rs) l =
     (case allow_source source now l of
        Inl _ \<Rightarrow> run_requests rs l
      | Inr (ok, l') \<Rightarrow> (if ok then [(source, rl_window l')] else []) @ run_requests rs l')"

definition admitted_in :: "int \<Rightarrow> (string \<Rightarrow> bool) \<Rightarrow> (string \<times> int) list \<Rightarrow> int" where
  "admitted_in w P xs = int (length (filter (\<lambda>(s, v). v = w \<and> P s) xs))"

lemma admitted_in_simps [simp]:
  "admitted_in w P [] = 0" "admitted_in w P (x # xs) = of_bool (snd x = w \<and> P (fst x)) + admitted_in w P xs"
  by (auto simp: admitted_in_def split: prod.splits)

lemma allow_source_facts:
  assumes "allow_source s now l = Inr (ok, l')"
  shows "rl_window l \<le> rl_window l'" "rl_perSourceLimit l' = rl_perSourceLimit l" "rl_globalLimit l' = rl_globalLimit l"
  using assms by (auto simp: allow_source_def roll_window_def Let_def split: if_splits)

lemma run_requests_later: "w < rl_window l \<Longrightarrow> admitted_in w P (run_requests rs l) = 0"
proof (induction rs arbitrary: l)
  case (Cons r rs)
  obtain s now where r: "r = (s, now)" by force
  show ?case
  proof (cases "allow_source s now l")
    case (Inl e)
    with Cons r show ?thesis by simp
  next
    case (Inr x)
    obtain ok l' where x: "x = (ok, l')" by force
    with Inr have "w < rl_window l'" using allow_source_facts(1) [of s now l ok l'] Cons.prems by simp
    with Cons.IH [of l'] Inr r x show ?thesis by simp
  qed
qed simp

definition spent :: "reset_limiter \<Rightarrow> int \<Rightarrow> int" where
  "spent l w = (if w = rl_window l then rl_globalCount l else 0)"

definition spent_by :: "reset_limiter \<Rightarrow> string \<Rightarrow> int \<Rightarrow> int" where
  "spent_by l s w = (if w = rl_window l then nvl (map_of (rl_sourceCounts l) s) 0 else 0)"

lemma spent_roll:
  "rl_window (roll_window v l) \<le> w \<Longrightarrow> spent (roll_window v l) w = spent l w"
  "rl_window (roll_window v l) \<le> w \<Longrightarrow> spent_by (roll_window v l) t w = spent_by l t w"
  by (auto simp: roll_window_def spent_def spent_by_def nvl_def)

lemma allow_source_cases:
  assumes "allow_source s now l = Inr (ok, l')"
  obtains (refused) v where "\<not> ok" "l' = roll_window v l"
  | (allowed) l1 v where "ok" "l1 = roll_window v l" "rl_globalCount l1 < rl_globalLimit l"
      "nvl (map_of (rl_sourceCounts l1) s) 0 < rl_perSourceLimit l"
      "l' = l1\<lparr>rl_globalCount := rl_globalCount l1 + 1,
         rl_sourceCounts := AList.update s (nvl (map_of (rl_sourceCounts l1) s) 0 + 1) (rl_sourceCounts l1)\<rparr>"
proof (cases ok)
  case False
  with assms that(1) show ?thesis by (auto simp: allow_source_def Let_def split: if_splits)
next
  case True
  let ?l1 = "roll_window (now div rl_windowMs l) l"
  have "rl_globalLimit ?l1 = rl_globalLimit l" "rl_perSourceLimit ?l1 = rl_perSourceLimit l"
    by (simp_all add: roll_window_def)
  with assms True show ?thesis
    by (intro that(2) [of ?l1 "now div rl_windowMs l"])
      (auto simp: allow_source_def Let_def split: if_splits)
qed

lemma allow_source_spent:
  assumes "allow_source s now l = Inr (ok, l')" "rl_window l' \<le> w"
  shows "spent l' w = spent l w + of_bool (ok \<and> rl_window l' = w)"
    and "spent_by l' t w = spent_by l t w + of_bool (ok \<and> rl_window l' = w \<and> t = s)"
    and "spent l w \<le> rl_globalLimit l \<Longrightarrow> spent l' w \<le> rl_globalLimit l"
    and "spent_by l t w \<le> rl_perSourceLimit l \<Longrightarrow> spent_by l' t w \<le> rl_perSourceLimit l"
proof -
  from assms(1) have "spent l' w = spent l w + of_bool (ok \<and> rl_window l' = w)
    \<and> spent_by l' t w = spent_by l t w + of_bool (ok \<and> rl_window l' = w \<and> t = s)
    \<and> (spent l w \<le> rl_globalLimit l \<longrightarrow> spent l' w \<le> rl_globalLimit l)
    \<and> (spent_by l t w \<le> rl_perSourceLimit l \<longrightarrow> spent_by l' t w \<le> rl_perSourceLimit l)"
  proof (cases rule: allow_source_cases)
    case (refused v)
    with assms(2) spent_roll show ?thesis by simp
  next
    case (allowed l1 v)
    from allowed(5) have w: "rl_window l' = rl_window l1"
      and g: "spent l' w = spent l1 w + of_bool (rl_window l1 = w)"
      and b: "spent_by l' t w = spent_by l1 t w + of_bool (rl_window l1 = w \<and> t = s)"
      by (auto simp: spent_def spent_by_def nvl_def map_of_omap_update)
    have "spent l1 w = spent l w" "spent_by l1 t w = spent_by l t w"
      using spent_roll [of v l w] assms(2) w allowed(2) by simp_all
    moreover have "rl_window l1 = w \<Longrightarrow> spent l1 w < rl_globalLimit l"
      "rl_window l1 = w \<Longrightarrow> spent_by l1 s w < rl_perSourceLimit l"
      using allowed(3,4) by (simp_all add: spent_def spent_by_def)
    ultimately show ?thesis using g b w allowed(1) by auto
  qed
  then show "spent l' w = spent l w + of_bool (ok \<and> rl_window l' = w)"
    and "spent_by l' t w = spent_by l t w + of_bool (ok \<and> rl_window l' = w \<and> t = s)"
    and "spent l w \<le> rl_globalLimit l \<Longrightarrow> spent l' w \<le> rl_globalLimit l"
    and "spent_by l t w \<le> rl_perSourceLimit l \<Longrightarrow> spent_by l' t w \<le> rl_perSourceLimit l"
    by blast+
qed

lemma window_budget:
  assumes "spent l w \<le> rl_globalLimit l" "spent_by l t w \<le> rl_perSourceLimit l"
  shows "spent l w + admitted_in w (\<lambda>_. True) (run_requests rs l) \<le> rl_globalLimit l
    \<and> spent_by l t w + admitted_in w (\<lambda>s. s = t) (run_requests rs l) \<le> rl_perSourceLimit l"
  using assms
proof (induction rs arbitrary: l)
  case (Cons r rs)
  obtain s now where r: "r = (s, now)" by force
  show ?case
  proof (cases "allow_source s now l")
    case (Inl e)
    with Cons r show ?thesis by simp
  next
    case (Inr x)
    obtain ok l' where x: "x = (ok, l')" by force
    note a = Inr [unfolded x]
    show ?thesis
    proof (cases "rl_window l' \<le> w")
      case True
      note sp = allow_source_spent [OF a True] and lim = allow_source_facts(2,3) [OF a]
      have "spent l' w \<le> rl_globalLimit l'" "spent_by l' t w \<le> rl_perSourceLimit l'"
        using sp(3) [OF Cons.prems(1)] sp(4) [OF Cons.prems(2)] lim by simp_all
      from Cons.IH [OF this] show ?thesis using a r sp(1) sp(2) [of t] lim by (auto split: if_splits)
    next
      case False
      then have "admitted_in w P (run_requests rs l') = 0" for P by (intro run_requests_later) simp
      with False a r Cons.prems show ?thesis by auto
    qed
  qed
qed simp

lemma reset_limits_hold:
  assumes "new_reset_limiter ps gl wms = Some l" "0 \<le> w"
  shows "admitted_in w (\<lambda>_. True) (run_requests rs l) \<le> gl \<and> admitted_in w (\<lambda>s. s = t) (run_requests rs l) \<le> ps"
proof -
  from assms have "spent l w = 0" "spent_by l t w = 0" "rl_globalLimit l = gl" "rl_perSourceLimit l = ps" "1 \<le> gl" "1 \<le> ps"
    by (auto simp: new_reset_limiter_def spent_def spent_by_def nvl_def split: if_splits)
  with window_budget [of l w t rs] show ?thesis by simp
qed

end
