(* ===== verification/Book_Routes.thy ===== *)
theory Book_Routes
  imports Book_Lifecycle Write_Admission
begin

text \<open>
  The order routes of the HTTP service (\<^verbatim>\<open>dispatch\<close> in \<^verbatim>\<open>server/src/server.ts\<close>) and the
  application of peer events, as one request on the book. Reading the body and taking a mutation
  slot can refuse a request before the store is reached; their outcomes are inputs of the request.
  The reachable books are those a non-decreasing clock and any sequence of requests produce.
\<close>

section \<open>Requests\<close>

record request =
  rq_method :: string
  rq_path :: string
  rq_ip :: string
  rq_makerHeader :: "string option"
  rq_shareHeader :: "string option"
  rq_body :: "jobj api"
  rq_slot :: "unit api"

datatype reply =
    Orders "public_order list"
  | Created created
  | Taken public_order string
  | OneOrder public_order
  | Intents "selected_fill_intent list"
  | OneIntent selected_fill_intent
  | NotFound

fun reply_status :: "reply \<Rightarrow> nat" where
  "reply_status (Created _) = 201"
| "reply_status (OneIntent _) = 201"
| "reply_status NotFound = 404"
| "reply_status _ = 200"

definition map_answer :: "('a \<Rightarrow> 'b) \<Rightarrow> 'a answer \<Rightarrow> 'b answer" where
  "map_answer f r = (js_bind (fst r) (\<lambda>a. Inr (f a)), snd r)"

text \<open>\<^verbatim>\<open>typeof header === "string" ? header : fallback\<close>.\<close>

definition header_or :: "string option \<Rightarrow> json option \<Rightarrow> json option" where
  "header_or h fallback = (case h of Some t \<Rightarrow> Some (JStr t) | None \<Rightarrow> fallback)"

text \<open>\<^verbatim>\<open>{ ...body, token: headerToken }\<close>.\<close>

definition maker_body :: "request \<Rightarrow> jobj \<Rightarrow> jobj" where
  "maker_body rq body = (case rq_makerHeader rq of Some t \<Rightarrow> AList.update ''token'' (JStr t) body | None \<Rightarrow> body)"

definition with_body :: "request \<Rightarrow> book \<Rightarrow> (jobj \<Rightarrow> 'a answer) \<Rightarrow> 'a answer" where
  "with_body rq bk k = guard_op bk (js_bind (rq_body rq) (\<lambda>body. js_bind (rq_slot rq) (\<lambda>_. Inr body))) k"

definition signed_create :: "book_env \<Rightarrow> jobj \<Rightarrow> string \<Rightarrow> book \<Rightarrow> created answer" where
  "signed_create en body ip bk =
     guard_op bk (js_bind (verifyOrderV1 (en_cr en) (en_now en) False (jfield body ''order'') (jfield body ''auth'')) (\<lambda>verified.
         throw_if (sort (map fst body) \<noteq> (if ob_visibility (vo_order verified) = Private
             then [''auth'', ''makerToken'', ''order'', ''shareToken''] else [''auth'', ''makerToken'', ''order'']))
           (bad 400 ''signed create request has unexpected fields'') (Inr verified)))
       (\<lambda>verified. createVerified en verified (map_of body ''makerToken'') (map_of body ''shareToken'') ip bk)"

definition bad_id :: "string \<Rightarrow> unit api" where
  "bad_id oid = require_that (ORDER_ID_RE oid) (bad 404 ''order not found'')"

definition order_action :: "book_env \<Rightarrow> request \<Rightarrow> string \<Rightarrow> string \<Rightarrow> book \<Rightarrow> reply answer" where
  "order_action en rq oid action bk =
     (if action = ''heartbeat'' then
        guard_op bk (rq_body rq) (\<lambda>body. map_answer OneOrder (heartbeat en oid (map_of body ''token'') bk))
      else with_body rq bk (\<lambda>body.
        if action = ''accept'' then map_answer (\<lambda>(p, t). Taken p t) (accept_order en oid body (rq_ip rq) bk)
        else if action = ''hashlock'' then map_answer OneOrder (announceHashlock en oid (maker_body rq body) bk)
        else if action = ''release'' then map_answer OneOrder (release_order en oid body bk)
        else map_answer OneOrder (cancel_order en oid (maker_body rq body) bk)))"

definition protocol_action :: "book_env \<Rightarrow> request \<Rightarrow> string \<Rightarrow> string \<Rightarrow> book \<Rightarrow> reply answer" where
  "protocol_action en rq oid action bk =
     (if action = ''intents'' \<and> rq_method rq = ''GET'' then
        map_answer Intents (listFillIntents en oid (header_or (rq_makerHeader rq) None) bk)
      else if action = ''intents'' \<and> rq_method rq = ''POST'' then
        with_body rq bk (\<lambda>body. map_answer OneIntent (submitFillIntent en oid (jfield body ''intent'') (jfield body ''auth'')
          (rq_ip rq) (header_or (rq_shareHeader rq) (map_of body ''shareToken'')) bk))
      else if action = ''fill'' \<and> rq_method rq = ''POST'' then
        with_body rq bk (\<lambda>body. map_answer OneOrder (fillOrder en oid (jfield body ''fill'') (jfield body ''auth'')
          (jfield body ''intent'') (jfield body ''intentAuth'') (header_or (rq_makerHeader rq) (map_of body ''token'')) bk))
      else (Inr NotFound, bk))"

definition order_route :: "book_env \<Rightarrow> request \<Rightarrow> string \<Rightarrow> string list \<Rightarrow> book \<Rightarrow> reply answer" where
  "order_route en rq oid rest bk =
     (if rest = [''cancel'', ''signed''] \<and> rq_method rq = ''POST'' then
        guard_op bk (bad_id oid) (\<lambda>_. with_body rq bk (\<lambda>body.
          map_answer OneOrder (cancelSigned en oid (jfield body ''cancel'') (jfield body ''auth'')
            (header_or (rq_makerHeader rq) (map_of body ''token'')) bk)))
      else if rest \<in> {[''intents''], [''fill'']} then
        guard_op bk (bad_id oid) (\<lambda>_. protocol_action en rq oid (hd rest) bk)
      else if rest = [] then
        guard_op bk (bad_id oid) (\<lambda>_.
          if rq_method rq = ''GET''
          then map_answer OneOrder (get_order en oid (header_or (rq_shareHeader rq) None) bk)
          else (Inr NotFound, bk))
      else if rest \<in> {[''accept''], [''hashlock''], [''cancel''], [''release''], [''heartbeat'']} then
        guard_op bk (bad_id oid) (\<lambda>_.
          if rq_method rq = ''POST'' then order_action en rq oid (hd rest) bk else (Inr NotFound, bk))
      else (Inr NotFound, bk))"

definition dispatch :: "book_env \<Rightarrow> request \<Rightarrow> book \<Rightarrow> reply answer" where
  "dispatch en rq bk =
     (if rq_method rq = ''GET'' \<and> rq_path rq = ''/api/orders/stream'' then
        guard_op bk (rq_slot rq) (\<lambda>_. map_answer Orders (listOpen en bk))
      else if rq_method rq = ''GET'' \<and> rq_path rq = ''/api/orders'' then map_answer Orders (listOpen en bk)
      else if rq_method rq = ''POST'' \<and> rq_path rq = ''/api/orders'' then
        with_body rq bk (\<lambda>body. map_answer Created (create_order en body (rq_ip rq) bk))
      else if rq_method rq = ''POST'' \<and> rq_path rq = ''/api/orders/signed'' then
        with_body rq bk (\<lambda>body. map_answer Created (signed_create en body (rq_ip rq) bk))
      else if rq_method rq = ''POST'' \<and> rq_path rq = ''/api/orders/take'' then
        with_body rq bk (\<lambda>body. map_answer (\<lambda>(p, t). Taken p t) (take_order en body (rq_ip rq) bk))
      else (case order_path (rq_path rq) of
        None \<Rightarrow> (Inr NotFound, bk)
      | Some (oid, rest) \<Rightarrow> order_route en rq oid rest bk))"


section \<open>Every request is one step of the book\<close>

definition book_wf :: "book \<Rightarrow> bool" where
  "book_wf bk \<longleftrightarrow> omap_wf (bk_orders bk) \<and> (\<forall>(k, ord)\<in>set (bk_orders bk). k = o_id ord)"

lemma sweep_order_id: "sweep_order now ord = Some ord' \<Longrightarrow> o_id ord' = o_id ord"
  by (auto simp: sweep_order_def Let_def split: if_splits)

lemma swept_keys: "fst ` set (swept_rows now rs) \<subseteq> fst ` set rs"
  by (force simp: swept_rows_def split: option.splits)

lemma swept_wf: "omap_wf rs \<Longrightarrow> omap_wf (swept_rows now rs)"
proof (induction rs)
  case (Cons r rs)
  obtain k ord where r: "r = (k, ord)" by force
  have "swept_rows now (r # rs) = (case sweep_order now ord of None \<Rightarrow> [] | Some ord' \<Rightarrow> [(k, ord')]) @ swept_rows now rs"
    by (simp add: swept_rows_def r)
  moreover have "k \<notin> fst ` set (swept_rows now rs)"
    using swept_keys [of now rs] Cons.prems r by auto
  ultimately show ?case using Cons r by (auto split: option.splits)
qed (simp add: swept_rows_def)

lemma swept_row:
  "(k, ord') \<in> set (swept_rows now rs) \<longleftrightarrow> (\<exists>ord. (k, ord) \<in> set rs \<and> sweep_order now ord = Some ord')"
  by (force simp: swept_rows_def split: option.splits)

lemma sweep_book_wf:
  assumes "book_wf bk"
  shows "book_wf (sweep now bk)"
  using assms by (fastforce simp: book_wf_def bk_orders_sweep swept_wf swept_row dest: sweep_order_id)

lemma snd_map_answer [simp]: "snd (map_answer f r) = snd r"
  by (simp add: map_answer_def)

lemma evolve_step:
  "book_evolves cr now (sweep now bk) bk' \<Longrightarrow> book_step cr now bk bk'"
  by (simp add: bk_orders_sweep book_step.evolve)

lemma same_step: "bk_orders bk' = bk_orders (sweep now bk) \<Longrightarrow> book_step cr now bk bk'"
  by (rule evolve_step) (simp add: orders_evolve.same)

lemma idle_step: "book_step cr now bk bk"
  by (simp add: book_step.idle)

lemma with_body_step:
  "(\<And>body. book_step cr now bk (snd (k body))) \<Longrightarrow> book_step cr now bk (snd (with_body rq bk k))"
  unfolding with_body_def by (rule guard_op_step) (simp_all add: idle_step)

lemma guarded_step:
  "(\<And>a. r = Inr a \<Longrightarrow> book_step cr now bk (snd (k a))) \<Longrightarrow> book_step cr now bk (snd (guard_op bk r k))"
  by (rule guard_op_step) (simp_all add: idle_step)

lemma create_step: "book_step (en_cr en) (en_now en) bk (snd (create_order en body ip bk))"
  unfolding create_order_def
  by (intro guarded_step evolve_step createInternal_step) (simp_all add: signed_input_def)

lemma signed_create_step: "book_step (en_cr en) (en_now en) bk (snd (signed_create en body ip bk))"
proof -
  have "book_step (en_cr en) (en_now en) bk (snd (createVerified en vo m s ip bk))"
    if "verifyOrderV1 (en_cr en) (en_now en) False ro ra = Inr vo" for vo m s ro ra
    unfolding createVerified_def using verifyOrderV1_Inr(1,2) [OF that]
    by (intro guarded_step evolve_step createInternal_step) (simp_all add: signed_input_def)
  then show ?thesis
    unfolding signed_create_def by (intro guarded_step) (auto simp: js_simps)
qed

lemmas store_steps = create_step signed_create_step accept_step
  evolve_step [OF announce_step] evolve_step [OF release_step] evolve_step [OF cancel_step]
  evolve_step [OF submitFillIntent_step] evolve_step [OF applyFill_step] evolve_step [OF applySignedCancel_step]
  same_step [OF listFillIntents_orders] same_step [OF read_ops_step(1)] same_step [OF read_ops_step(2)]

lemma heartbeat_book_step: "book_step (en_cr en) (en_now en) bk (snd (heartbeat en oid t bk))"
  by (rule book_step.idle) (rule heartbeat_step)

lemma if_step:
  "book_step cr now bk (snd a) \<Longrightarrow> book_step cr now bk (snd b) \<Longrightarrow> book_step cr now bk (snd (if P then a else b))"
  by simp

lemma not_found_step: "book_step cr now bk (snd (Inr NotFound, bk))"
  by (simp add: idle_step)

lemma mapped_step: "book_step cr now bk (snd r) \<Longrightarrow> book_step cr now bk (snd (map_answer f r))"
  by simp

lemmas route_steps = if_step mapped_step guarded_step with_body_step not_found_step

lemma order_action_step: "book_step (en_cr en) (en_now en) bk (snd (order_action en rq oid action bk))"
  unfolding order_action_def by (intro route_steps heartbeat_book_step store_steps)

lemma protocol_action_step: "book_step (en_cr en) (en_now en) bk (snd (protocol_action en rq oid action bk))"
  unfolding protocol_action_def fillOrder_def by (intro route_steps store_steps)

lemma order_route_step: "book_step (en_cr en) (en_now en) bk (snd (order_route en rq oid rest bk))"
  unfolding order_route_def cancelSigned_def
  by (intro route_steps store_steps order_action_step protocol_action_step)

lemma dispatch_step:
  assumes "book_wf bk"
  shows "book_step (en_cr en) (en_now en) bk (snd (dispatch en rq bk))"
proof -
  have "book_step (en_cr en) (en_now en) bk (snd (take_order en body ip bk))" for body ip
    using take_step sweep_book_wf [OF assms] by (simp add: book_wf_def)
  moreover have "book_step (en_cr en) (en_now en) bk (snd (case order_path (rq_path rq) of
      None \<Rightarrow> (Inr NotFound, bk) | Some (oid, rest) \<Rightarrow> order_route en rq oid rest bk))"
    by (cases "order_path (rq_path rq)") (auto simp: idle_step order_route_step split: prod.split)
  ultimately show ?thesis
    unfolding dispatch_def by (intro route_steps store_steps)
qed

lemma federation_step:
  assumes "book_wf bk"
  shows "book_step (en_cr en) (en_now en) bk (snd (applyFederationEvent en ev src bk))"
  using applyFederationEvent_step sweep_book_wf [OF assms, of "en_now en"] by (simp add: book_wf_def)

end
