(* ===== verification/Book_Runs.thy ===== *)
theory Book_Runs
  imports Book_Routes
begin

text \<open>
  Runs of the order book: sequences of HTTP requests and peer events, each with its own reading
  of the clock, and the books they reach from an empty one. A property of one row that holds of
  every inserted row and survives the expiry sweep, every change of the row life cycle and the
  passage of time holds of every row of every reachable book (locale \<open>row_invariant\<close>).
\<close>

section \<open>Operations and runs\<close>

datatype book_op =
    Request book_env request
  | PeerEvent book_env fed_event string

fun op_env :: "book_op \<Rightarrow> book_env" where
  "op_env (Request en rq) = en"
| "op_env (PeerEvent en ev src) = en"

abbreviation op_now :: "book_op \<Rightarrow> int" where
  "op_now op \<equiv> en_now (op_env op)"

fun exec_op :: "book_op \<Rightarrow> book \<Rightarrow> book" where
  "exec_op (Request en rq) bk = snd (dispatch en rq bk)"
| "exec_op (PeerEvent en ev src) bk = snd (applyFederationEvent en ev src bk)"

definition run_ops :: "book_op list \<Rightarrow> book \<Rightarrow> book" where
  "run_ops ops bk = fold exec_op ops bk"

lemma run_ops_simps [simp]: "run_ops [] bk = bk" "run_ops (op # ops) bk = run_ops ops (exec_op op bk)"
  by (simp_all add: run_ops_def)

inductive reachable :: "crypto \<Rightarrow> int \<Rightarrow> book \<Rightarrow> bool" for cr :: crypto where
  start: "bk_orders bk = [] \<Longrightarrow> reachable cr now bk"
| step: "reachable cr now bk \<Longrightarrow> en_cr (op_env op) = cr \<Longrightarrow> now \<le> op_now op \<Longrightarrow>
     reachable cr (op_now op) (exec_op op bk)"

lemma exec_op_step:
  assumes "book_wf bk"
  shows "book_step (en_cr (op_env op)) (op_now op) bk (exec_op op bk)"
  using assms by (cases op) (simp_all add: dispatch_step federation_step)

lemma set_update_subset: "set (AList.update k v m) \<subseteq> insert (k, v) (set m)"
  by (induction m) auto

lemma book_step_wf:
  assumes "book_step cr now bk bk'" "book_wf bk"
  shows "book_wf bk'"
  using assms
proof (cases rule: book_step.cases)
  case idle
  with assms show ?thesis by (simp add: book_wf_def)
next
  case evolve
  have wf: "omap_wf (swept_rows now (bk_orders bk))" "\<forall>(k, ord)\<in>set (swept_rows now (bk_orders bk)). k = o_id ord"
    using sweep_book_wf [OF assms(2), of now] by (simp_all add: book_wf_def bk_orders_sweep)
  from evolve show ?thesis
  proof (cases rule: orders_evolve.cases)
    case same
    with wf show ?thesis by (simp add: book_wf_def)
  next
    case (change oid ord ord')
    with wf row_step_id [OF change(3)] show ?thesis
      using set_update_subset [of "o_id ord" ord' "swept_rows now (bk_orders bk)"]
      by (auto simp: book_wf_def distinct_update)
  next
    case (add ord)
    with wf show ?thesis
      using set_update_subset [of "o_id ord" ord "swept_rows now (bk_orders bk)"]
      by (auto simp: book_wf_def distinct_update)
  qed
qed

lemma reachable_wf: "reachable cr now bk \<Longrightarrow> book_wf bk"
proof (induction rule: reachable.induct)
  case (start bk now)
  then show ?case by (simp add: book_wf_def)
next
  case (step now bk op)
  then show ?case using exec_op_step book_step_wf by blast
qed

lemma reachable_book_step:
  "reachable cr now bk \<Longrightarrow> en_cr (op_env op) = cr \<Longrightarrow> book_step cr (op_now op) bk (exec_op op bk)"
  using exec_op_step reachable_wf by blast


section \<open>Invariants of one row\<close>

definition all_rows :: "(order \<Rightarrow> bool) \<Rightarrow> rows \<Rightarrow> bool" where
  "all_rows P rs \<longleftrightarrow> (\<forall>(k, ord)\<in>set rs. P ord)"

lemma all_rows_update: "all_rows P rs \<Longrightarrow> P ord \<Longrightarrow> all_rows P (AList.update k ord rs)"
  using set_update_subset [of k ord rs] by (auto simp: all_rows_def)

locale row_invariant =
  fixes cr :: crypto
    and I :: "int \<Rightarrow> order \<Rightarrow> bool"
  assumes I_new: "create_terms en body ip verified fed caps src bk = Inr nt \<Longrightarrow> en_cr en = cr \<Longrightarrow>
      signed_input cr (en_now en) body verified \<Longrightarrow> (fed \<Longrightarrow> verified \<noteq> None) \<Longrightarrow>
      I (en_now en) (new_order en ip verified fed src nt)"
    and I_step: "I now ord \<Longrightarrow> row_step cr now ord ord' \<Longrightarrow> I now ord'"
    and I_sweep: "I now ord \<Longrightarrow> sweep_order now ord = Some ord' \<Longrightarrow> I now ord'"
    and I_later: "I now ord \<Longrightarrow> now \<le> now' \<Longrightarrow> I now' ord"
begin

lemma rows_swept: "all_rows (I now) rs \<Longrightarrow> all_rows (I now) (swept_rows now rs)"
  by (fastforce simp: all_rows_def swept_row intro: I_sweep)

lemma evolve_rows: "orders_evolve cr now rs rs' \<Longrightarrow> all_rows (I now) rs \<Longrightarrow> all_rows (I now) rs'"
proof (induction rule: orders_evolve.induct)
  case (change rs oid ord ord')
  then have "I now ord" by (auto simp: all_rows_def dest!: map_of_SomeD)
  with change show ?case by (auto intro: all_rows_update I_step)
next
  case (add ord en makerIp verified federated source nt body caps bk rs)
  then have "signed_input cr (en_now en) body verified" by (auto simp: signed_input_def split: option.splits)
  with add show ?case using I_new [OF add(4)] by (auto intro: all_rows_update)
qed

lemma step_rows: "book_step cr now bk bk' \<Longrightarrow> all_rows (I now) (bk_orders bk) \<Longrightarrow> all_rows (I now) (bk_orders bk')"
  by (erule book_step.cases) (auto intro: evolve_rows rows_swept)

lemma reachable_rows: "reachable cr now bk \<Longrightarrow> all_rows (I now) (bk_orders bk)"
proof (induction rule: reachable.induct)
  case (start bk now)
  then show ?case by (simp add: all_rows_def)
next
  case (step now bk op)
  then have "all_rows (I (op_now op)) (bk_orders bk)" by (auto simp: all_rows_def intro: I_later)
  with step(1,2) show ?case by (rule step_rows [OF reachable_book_step])
qed

lemma row_holds: "reachable cr now bk \<Longrightarrow> find_order bk oid = Some ord \<Longrightarrow> I now ord"
  using reachable_rows [of now bk] by (auto simp: find_order_def all_rows_def dest!: map_of_SomeD)

lemma every_row: "reachable cr now bk \<Longrightarrow> ord \<in> set (orders_of bk) \<Longrightarrow> I now ord"
  using reachable_rows [of now bk] by (auto simp: orders_of_def all_rows_def)

end


section \<open>What never changes\<close>

text \<open>A row with everything a later request may change blanked out.\<close>

definition frozen :: "order \<Rightarrow> order" where
  "frozen ord = ord\<lparr>o_status := Open, o_takerEthAccount := None, o_takerQrlAccount := None, o_hashlock := None,
     o_initiatorTimeout := None, o_responderTimeout := None, o_updatedAt := 0, o_takerTokenHash := None,
     o_acceptorIpHash := None, o_fillIntents := map_option (\<lambda>_. []) (o_fillIntents ord), o_fill := None,
     o_fillAuth := None, o_fillDigest := None, o_selectedIntent := None, o_cancelProof := None,
     o_cancelAuth := None, o_cancelDigest := None, o_equivocated := False, o_conflicts := [],
     o_orderConflicts := [], o_acceptedAt := None, o_releasedAt := None, o_releaseSecret := None\<rparr>"

lemmas row_defs = take_row_def announce_row_def relist_row_def walk_away_row_def record_order_conflict_def
  cancel_row_def

lemma release_frozen:
  "release_fill cr now ord d rd s = Inr (Some (ord', ev)) \<Longrightarrow> frozen ord' = frozen ord"
  "release_intent cr now ord d rd s = Inr (Some (ord', ev)) \<Longrightarrow> frozen ord' = frozen ord"
  "rememberTerminalConflict now ord c = Some ord' \<Longrightarrow> frozen ord' = frozen ord"
  by (auto simp: release_fill_def release_intent_def rememberTerminalConflict_def frozen_def js_simps Let_def
      option.map_comp comp_def split: option.splits if_splits)

lemma row_step_frozen: "row_step cr now ord ord' \<Longrightarrow> frozen ord' = frozen ord"
proof (induction rule: row_step.induct)
  case (propose ord)
  then obtain l where "o_fillIntents ord = Some l" by (auto simp: usesPortableTerminalProtocol_def)
  then show ?case by (simp add: frozen_def)
next
  case (dispute ord evidence ord')
  show ?case by (rule release_frozen(3)) fact
next
  case (release_fill ord d rd s ord' ev)
  show ?case by (rule release_frozen(1)) fact
next
  case (release_intent ord d rd s ord' ev)
  show ?case by (rule release_frozen(2)) fact
qed (simp_all add: frozen_def row_defs fill_row_def Let_def)

lemma sweep_frozen: "sweep_order now ord = Some ord' \<Longrightarrow> frozen ord' = frozen ord"
  by (auto simp: sweep_order_def frozen_def Let_def option.map_comp comp_def split: if_splits)

lemma frozen_fields:
  assumes "frozen a = frozen b"
  shows "o_id a = o_id b" "o_direction a = o_direction b" "o_asset a = o_asset b" "o_fromAmount a = o_fromAmount b"
    "o_toAmount a = o_toAmount b" "o_makerEthAccount a = o_makerEthAccount b" "o_makerQrlAccount a = o_makerQrlAccount b"
    "o_visibility a = o_visibility b" "o_shareTokenHash a = o_shareTokenHash b" "o_makerTokenHash a = o_makerTokenHash b"
    "o_makerAuth a = o_makerAuth b" "o_orderDigest a = o_orderDigest b" "o_prelocked a = o_prelocked b"
    "o_federationSourceHash a = o_federationSourceHash b" "usesPortableTerminalProtocol a = usesPortableTerminalProtocol b"
    "o_createdAt a = o_createdAt b" "public_portable a = public_portable b"
  using arg_cong [OF assms, of o_id] arg_cong [OF assms, of o_direction] arg_cong [OF assms, of o_asset]
    arg_cong [OF assms, of o_fromAmount] arg_cong [OF assms, of o_toAmount] arg_cong [OF assms, of o_makerEthAccount]
    arg_cong [OF assms, of o_makerQrlAccount] arg_cong [OF assms, of o_visibility] arg_cong [OF assms, of o_shareTokenHash]
    arg_cong [OF assms, of o_makerTokenHash] arg_cong [OF assms, of o_makerAuth] arg_cong [OF assms, of o_orderDigest]
    arg_cong [OF assms, of o_prelocked] arg_cong [OF assms, of o_federationSourceHash] arg_cong [OF assms, of o_fillIntents]
    arg_cong [OF assms, of o_createdAt]
  by (simp_all add: frozen_def usesPortableTerminalProtocol_def public_portable_def)
    (cases "o_fillIntents a"; cases "o_fillIntents b"; simp)+

end
