(* ===== verification/Book_Demo.thy ===== *)
theory Book_Demo
  imports Book_Runs
begin

text \<open>
  A concrete run of the book, for the witnesses: a peer relays a signed order and then the fill
  its maker signed. The signature scheme of the run accepts every signature and its digests are
  constant per payload kind.
\<close>

section \<open>The parties and their proofs\<close>

definition hexes :: "nat \<Rightarrow> string" where
  "hexes n = replicate n (CHR ''a'')"

lemma hexes_matches [simp]:
  "matches pre is_hex_lower n (pre @ hexes n)" "matches pre is_hex_any n (pre @ hexes n)"
  by (simp_all add: matches_def hexes_def list_all_iff is_hex_lower_def is_hex_any_def is_digit_def char_in_def)

fun demo_digest :: "payload \<Rightarrow> string" where
  "demo_digest (OrderV2 _ _ _ _ _ _) = ''0x0'' @ hexes 63"
| "demo_digest (FillIntentV2 _ _ _ _) = ''0x1'' @ hexes 63"
| "demo_digest (FillV2 _) = ''0x2'' @ hexes 63"
| "demo_digest (CancelV2 _ _ _ _) = ''0x3'' @ hexes 63"

definition demo_cr :: crypto where
  "demo_cr = \<lparr>cr_deployed = True, cr_verify = (\<lambda>_ _ _. True), cr_digest = demo_digest, cr_orderId = (\<lambda>_ _. hexes 64),
     cr_release = (\<lambda>_ _ _. ''0x'' @ hexes 64), cr_makerCommitment = (\<lambda>t. ''0x'' @ t), cr_shareCommitment = (\<lambda>t. ''0x'' @ t),
     cr_sha256Hex = (\<lambda>t. t)\<rparr>"

definition demo_auth :: "int \<Rightarrow> int \<Rightarrow> protocol_auth" where
  "demo_auth i e = \<lparr>pa_issuedAt = i, pa_expiresAt = e, pa_nonce = ''0x'' @ hexes 64, pa_signature = ''0x'' @ hexes (2 * 4627),
     pa_publicKey = ''0x'' @ hexes (2 * 2592), pa_descriptor = ''0x'' @ hexes 6\<rparr>"

definition demo_body :: order_body where
  "demo_body = \<lparr>ob_direction = EthToQrl, ob_asset = ETH, ob_fromAmount = ''1000000000000000'', ob_toAmount = ''2000000000000000'',
     ob_makerEthAccount = ''0x'' @ hexes 40, ob_makerQrlAccount = ''Q'' @ hexes 128, ob_visibility = Public,
     ob_allowedTakerEth = None, ob_allowedTakerQrl = None, ob_prelock = None\<rparr>"

definition demo_maker_auth :: maker_order_auth where
  "demo_maker_auth = \<lparr>pa_issuedAt = 1000, pa_expiresAt = 5000, pa_nonce = ''0x'' @ hexes 64, pa_signature = ''0x'' @ hexes (2 * 4627),
     pa_publicKey = ''0x'' @ hexes (2 * 2592), pa_descriptor = ''0x'' @ hexes 6, pa_makerTokenCommitment = ''0x'' @ hexes 64,
     pa_shareTokenCommitment = ZERO32\<rparr>"

definition demo_vo :: verified_order where
  "demo_vo = \<lparr>vo_orderId = hexes 64, vo_orderDigest = ''0x0'' @ hexes 63, vo_order = demo_body, vo_auth = demo_maker_auth\<rparr>"

definition demo_vi :: verified_intent where
  "demo_vi = \<lparr>vi_intentDigest = ''0x1'' @ hexes 63, vi_intent = \<lparr>fi_orderDigest = ''0x0'' @ hexes 63,
     fi_takerEthAccount = ''0x'' @ hexes 40, fi_takerQrlAccount = ''Q'' @ hexes 128, fi_releaseCommitment = ''0x'' @ hexes 64\<rparr>,
     vi_auth = demo_auth 1000 1100\<rparr>"

definition demo_fill :: fill_body where
  "demo_fill = \<lparr>fb_orderDigest = ''0x0'' @ hexes 63, fb_intentDigest = ''0x1'' @ hexes 63,
     fb_takerEthAccount = ''0x'' @ hexes 40, fb_takerQrlAccount = ''Q'' @ hexes 128, fb_releaseCommitment = ''0x'' @ hexes 64,
     fb_hashlock = ''0x'' @ hexes 64, fb_initiatorTimeout = 3000, fb_responderTimeout = 1800\<rparr>"

definition demo_vf :: verified_fill where
  "demo_vf = \<lparr>vf_fillDigest = ''0x2'' @ hexes 63, vf_fill = demo_fill, vf_auth = demo_auth 1010 1100\<rparr>"

definition demo_env :: "int \<Rightarrow> book_env" where
  "demo_env now = \<lparr>en_cr = demo_cr, en_shake = (\<lambda>_. []), en_now = now, en_makerToken = hexes 64, en_shareToken = hexes 64,
     en_orderId = hexes 16, en_takerToken = hexes 64\<rparr>"

definition empty_book :: book where
  "empty_book = \<lparr>bk_orders = [], bk_seenAt = [], bk_admissions = [], bk_admissionsPrunedAt = 0,
     bk_presenceTtlS = DEFAULT_PRESENCE_TTL_S, bk_dirty = False, bk_pendingEvents = [], bk_notified = 0\<rparr>"

lemma hexes_lower [simp]: "list_all is_hex_lower (hexes n)" "list_all is_hex_any (hexes n)" "length (hexes n) = n"
  by (simp_all add: hexes_def list_all_iff is_hex_lower_def is_hex_any_def is_digit_def char_in_def)

lemma hex_res [simp]:
  "BYTES32_RE (CHR ''0'' # CHR ''x'' # hexes 64)" "BYTES32_RE (CHR ''0'' # CHR ''x'' # CHR ''0'' # hexes 63)"
  "BYTES32_RE (CHR ''0'' # CHR ''x'' # CHR ''1'' # hexes 63)" "BYTES32_RE ZERO32" "ZERO32 \<noteq> CHR ''0'' # CHR ''x'' # hexes 64"
  "HASHLOCK_RE (CHR ''0'' # CHR ''x'' # hexes 64)" "ETH_ADDR_LOWER_RE (CHR ''0'' # CHR ''x'' # hexes 40)"
  "QRL_ADDR_LOWER_RE (CHR ''Q'' # hexes 128)" "ETH_ADDR_RE (CHR ''0'' # CHR ''x'' # hexes 40)" "QRL_ADDR_RE (CHR ''Q'' # hexes 128)"
  "ORDER_ID_RE (hexes 64)" "SIGNATURE_RE (CHR ''0'' # CHR ''x'' # hexes 9254)" "PUBLIC_KEY_RE (CHR ''0'' # CHR ''x'' # hexes 5184)"
  "DESCRIPTOR_RE (CHR ''0'' # CHR ''x'' # hexes 6)"
  subgoal by (simp add: BYTES32_RE_def matches_def)
  subgoal by (simp add: BYTES32_RE_def matches_def is_hex_lower_def is_digit_def char_in_def)
  subgoal by (simp add: BYTES32_RE_def matches_def is_hex_lower_def is_digit_def char_in_def)
  subgoal by (simp add: BYTES32_RE_def matches_def ZERO32_def list_all_iff is_hex_lower_def is_digit_def char_in_def)
  subgoal by (simp add: ZERO32_def hexes_def)
  subgoal by (simp add: HASHLOCK_RE_def BYTES32_RE_def matches_def)
  subgoal by (simp add: ETH_ADDR_LOWER_RE_def matches_def)
  subgoal by (simp add: QRL_ADDR_LOWER_RE_def matches_def)
  subgoal by (simp add: ETH_ADDR_RE_def matches_def)
  subgoal by (simp add: QRL_ADDR_RE_def matches_def)
  subgoal by (simp add: ORDER_ID_RE_def matches_def)
  subgoal by (simp add: SIGNATURE_RE_def matches_def)
  subgoal by (simp add: PUBLIC_KEY_RE_def matches_def)
  subgoal by (simp add: DESCRIPTOR_RE_def matches_def)
  done

lemma hex_nonzero [simp]: "CHR ''0'' # CHR ''x'' # hexes 64 \<noteq> ZERO32"
  by (rule not_sym) (rule hex_res(5))

lemma demo_vo_ok: "verified_order_ok demo_cr demo_vo"
  by (simp add: verified_order_ok_def demo_vo_def demo_cr_def demo_body_def demo_maker_auth_def order_body_wf_def maker_auth_wf_def
      auth_wf_def safe_nonneg_def isSafeInteger_def MAX_SAFE_INTEGER_def MAX_ORDER_LIFETIME_S_def prelock_window_bad_def CANONICAL_AMOUNT_RE_def
      is_digit_def char_in_def order_payload_def)

lemma demo_auth_roundtrip: "0 \<le> i \<Longrightarrow> 0 \<le> e \<Longrightarrow> i \<le> 5000 \<Longrightarrow> e \<le> 5000 \<Longrightarrow> parseAuth (auth_json (demo_auth i e)) = Inr (demo_auth i e)"
  by (rule parseAuth_roundtrip)
    (simp add: auth_wf_def demo_auth_def safe_nonneg_def isSafeInteger_def MAX_SAFE_INTEGER_def)

lemma demo_vi_verifies:
  "verifyFillIntentV1 demo_cr 1050 ae (intent_json (vi_intent demo_vi)) (auth_json (vi_auth demo_vi)) demo_vo = Inr demo_vi"
proof -
  have "canonicalFillIntentBody (intent_json (vi_intent demo_vi)) = Inr (vi_intent demo_vi)"
    by (simp add: canonicalFillIntentBody_def intent_json_def exactObject_JObj demo_vi_def)
  moreover have "parseAuth (auth_json (vi_auth demo_vi)) = Inr (demo_auth 1000 1100)"
    by (simp add: demo_vi_def demo_auth_roundtrip)
  ultimately show ?thesis
    by (simp add: verifyFillIntentV1_def assertOrderReference_def assertOrderValidity_def assertInitialAcceptance_def
        assertAllowedTaker_def reject_if_def verifyProof_def demo_vi_def demo_vo_def demo_auth_def demo_body_def demo_maker_auth_def
        demo_cr_def intent_payload_def MAX_FILL_INTENT_LIFETIME_S_def MAX_CLOCK_SKEW_S_def)
qed

lemma demo_vf_verifies:
  "verifyFillV1 demo_cr 1050 True (fill_json demo_fill) (auth_json (demo_auth 1010 1100)) demo_vo demo_vi = Inr demo_vf"
proof -
  have "canonicalFillBody (fill_json demo_fill) = Inr demo_fill"
    by (simp add: canonicalFillBody_def fill_json_def exactObject_JObj demo_fill_def isSafeInteger_def MAX_SAFE_INTEGER_def)
  moreover have "parseAuth (auth_json (demo_auth 1010 1100)) = Inr (demo_auth 1010 1100)"
    by (simp add: demo_auth_roundtrip)
  ultimately show ?thesis
    by (simp add: verifyFillV1_def assertOrderReference_def assertOrderValidity_def assertInitialAcceptance_def
        fill_timeouts_def reject_if_def verifyProof_def demo_vi_def demo_vo_def demo_vf_def demo_fill_def demo_auth_def demo_body_def
        demo_maker_auth_def demo_cr_def fill_payload_def MAX_CLOCK_SKEW_S_def MIN_FILL_RESPONSE_S_def MAX_FILL_RESPONSE_S_def
        MIN_RESPONDER_RUNWAY_AFTER_RESPONSE_S_def MAX_RESPONDER_WINDOW_S_def MAX_INITIATOR_WINDOW_S_def)
qed


section \<open>The run\<close>

definition demo_listed :: book where
  "demo_listed = exec_op (PeerEvent (demo_env 1050) (order_event demo_vo) ''peer'') empty_book"

definition demo_terms :: new_terms where
  "demo_terms = \<lparr>nt_direction = EthToQrl, nt_asset = ETH, nt_fromAmount = ''1000000000000000'', nt_toAmount = ''2000000000000000'',
     nt_makerEth = ''0x'' @ hexes 40, nt_makerQrl = ''Q'' @ hexes 128, nt_visibility = Public,
     nt_access = \<lparr>ac_shareToken = None, ac_takerEth = None, ac_takerQrl = None\<rparr>, nt_prelock = None, nt_id = hexes 64\<rparr>"

definition demo_row :: order where
  "demo_row = new_order (demo_env 1050) ''federation:peer'' (Some demo_vo) True (Some ''peer'') demo_terms"

definition demo_filled :: book where
  "demo_filled = exec_op (PeerEvent (demo_env 1050)
     (fill_event demo_row demo_fill (demo_auth 1010 1100) (vi_intent demo_vi) (vi_auth demo_vi)) ''peer'') demo_listed"

lemma sweep_empty: "bk_orders bk = [] \<Longrightarrow> bk_orders (sweep now bk) = []"
  by (simp add: bk_orders_sweep swept_rows_def)

lemma sweep_no_admissions: "bk_admissions bk = [] \<Longrightarrow> bk_admissions (sweep now bk) = []"
  by (simp add: sweep_def pruneIntentAdmissions_def Let_def persist_def)

lemma demo_amounts:
  "requireAmount (Some (JStr ''1000000000000000'')) f (asset_bounds ETH) = Inr ''1000000000000000''"
  "requireAmount (Some (JStr ''2000000000000000'')) f QRL_BOUNDS = Inr ''2000000000000000''"
proof -
  have "bigint ''1000000000000000'' = 10 ^ 15" "bigint ''2000000000000000'' = 2 * 10 ^ 15"
    by (simp_all add: bigint_def dec_value_def digit_value_def)
  moreover have "show_int (bigint ''1000000000000000'') = ''1000000000000000''" "show_int (bigint ''2000000000000000'') = ''2000000000000000''"
    by (rule canonical_amount_roundtrip, simp add: CANONICAL_AMOUNT_RE_def is_digit_def char_in_def)+
  ultimately show "requireAmount (Some (JStr ''1000000000000000'')) f (asset_bounds ETH) = Inr ''1000000000000000''"
    "requireAmount (Some (JStr ''2000000000000000'')) f QRL_BOUNDS = Inr ''2000000000000000''"
    by (simp_all add: requireAmount_def jstr_def AMOUNT_RE_def is_digit_def char_in_def QRL_BOUNDS_def)
qed

lemma demo_create_terms:
  assumes "bk_orders bk = []"
  shows "create_terms (demo_env 1050) (order_body_obj (vo_order demo_vo)) ''federation:peer'' (Some demo_vo) True None (Some ''peer'') bk
    = Inr demo_terms"
proof -
  have r: "orders_of bk = []" "find_order bk (hexes 64) = None" using assms by (simp_all add: orders_of_def find_order_def)
  show ?thesis
    unfolding create_terms_def Let_def r order_body_obj_lookup
    by (simp add: demo_vo_def demo_body_def create_totals_def create_limits_def count_where_def portable_limits_def
        create_visibility_def create_access_def create_prelock_def order_body_obj_lookup requireDirection_def requireAsset_def
        demo_amounts demo_amounts(1) [simplified] requireAddress_def jstr_def parse_direction_def parse_asset_def parse_visibility_def ASSET_SYMBOLS_def
        MAX_RETAINED_ORDERS_def MAX_OPEN_ORDERS_def MAX_OPEN_ORDERS_PER_MAKER_def MAX_RETAINED_ORDERS_PER_MAKER_def
        MAX_RETAINED_FEDERATED_ORDERS_def MAX_PUBLIC_PORTABLE_ORDERS_def MAX_FEDERATED_PUBLIC_PORTABLE_ORDERS_def
        MAX_PUBLIC_PORTABLE_ORDERS_PER_FEDERATION_PEER_def r throw_if_def demo_terms_def)
qed

lemma demo_listed_orders: "bk_orders demo_listed = [(hexes 64, demo_row)]" "bk_admissions demo_listed = []"
proof -
  have "verifyOrderV1 demo_cr 1050 True (JObj (order_body_obj demo_body)) (maker_auth_json demo_maker_auth) = Inr demo_vo"
    using verifyOrderV1_again [OF demo_vo_ok, of 1050]
    by (simp add: demo_vo_def demo_maker_auth_def MAX_CLOCK_SKEW_S_def)
  then have "demo_listed = snd (importVerifiedOrder (demo_env 1050) demo_vo ''peer'' empty_book)"
    by (simp add: demo_listed_def applyFederationEvent_def order_event_def exactPayload_def require_that_def jfield_def nvl_def
        demo_env_def guard_op_def demo_vo_def)
  moreover have "find_order (sweep 1050 empty_book) i = None" for i
    by (simp add: find_order_def sweep_empty empty_book_def)
  moreover have "ob_visibility (vo_order demo_vo) = Public" "en_now (demo_env 1050) = 1050"
    by (simp_all add: demo_vo_def demo_body_def demo_env_def)
  moreover have "federation_source_ok ''peer''" by (simp add: federation_source_ok_def char_in_def is_digit_def)
  ultimately have e: "demo_listed = snd (createInternal (demo_env 1050) (order_body_obj (vo_order demo_vo)) ''federation:peer''
      (Some demo_vo) True None (Some ''peer'') (sweep 1050 empty_book))"
    by (simp add: importVerifiedOrder_def Let_def case_prod_beta)
  have "bk_orders (snd (createInternal (demo_env 1050) (order_body_obj (vo_order demo_vo)) ''federation:peer'' (Some demo_vo)
      True None (Some ''peer'') bk)) = [(hexes 64, demo_row)]" if "bk_orders bk = []" for bk
    using that sweep_empty [OF that] demo_create_terms [of "sweep 1050 bk"]
    by (simp add: createInternal_def Let_def find_order_def guard_op_def insert_new_orders demo_env_def demo_row_def demo_terms_def)
  then show "bk_orders demo_listed = [(hexes 64, demo_row)]" unfolding e by (simp add: sweep_empty empty_book_def)
  have "bk_admissions (snd (createInternal (demo_env 1050) (order_body_obj (vo_order demo_vo)) ''federation:peer'' (Some demo_vo)
      True None (Some ''peer'') bk)) = []" if "bk_orders bk = []" "bk_admissions bk = []" for bk
    using that sweep_empty [OF that(1)] sweep_no_admissions [OF that(2)] demo_create_terms [of "sweep 1050 bk"]
    by (simp add: createInternal_def Let_def find_order_def guard_op_def insert_new_def put_order_def persist_def publish_def
        demo_env_def demo_terms_def)
  then show "bk_admissions demo_listed = []" unfolding e by (simp add: sweep_empty sweep_no_admissions empty_book_def)
qed

lemma demo_row_fields:
  "o_id demo_row = hexes 64" "o_status demo_row = Open" "o_makerAuth demo_row = Some demo_maker_auth"
  "o_fillIntents demo_row = Some []" "o_visibility demo_row = Public" "o_fillDigest demo_row = None"
  "o_cancelDigest demo_row = None" "o_cancelProof demo_row = None" "o_updatedAt demo_row = 1050"
  "signed_body demo_row = demo_body" "o_orderConflicts demo_row = []"
  "\<not> o_equivocated demo_row" "\<not> o_prelocked demo_row"
  by (simp_all add: demo_row_def new_order_def Let_def demo_terms_def demo_env_def demo_vo_def signed_body_def demo_body_def)

lemma demo_swept: "bk_orders (sweep 1050 demo_listed) = [(hexes 64, demo_row)]"
proof -
  have "sweep_order 1050 demo_row = Some demo_row"
    by (simp add: sweep_order_def sweep_expires_def sweep_removes_def demo_row_fields OPEN_TTL_S_def demo_maker_auth_def Let_def)
  then show ?thesis by (simp add: bk_orders_sweep demo_listed_orders swept_rows_def)
qed

lemma demo_row_verifies: "verifiedSignedOrder demo_cr 1050 demo_row = Inr demo_vo"
  using verifyOrderV1_again [OF demo_vo_ok, of 1050]
  by (simp add: verifiedSignedOrder_def demo_row_fields signedOrderBody_def demo_vo_def demo_maker_auth_def MAX_CLOCK_SKEW_S_def)

lemma demo_filled_orders: "bk_orders demo_filled = [(hexes 64, fill_row demo_cr 1050 demo_vi demo_vf demo_row)]"
proof -
  note sw = demo_swept
  from demo_row_verifies have "referencedSignedOrderVariant demo_cr 1050 demo_row (fill_json demo_fill) = Inr demo_vo"
    by (simp add: referencedSignedOrderVariant_def fill_json_def demo_fill_def jstr_def throw_if_def demo_vo_def)
  with sw demo_vi_verifies demo_vf_verifies show ?thesis
    by (simp add: demo_filled_def applyFederationEvent_def fill_event_def exactPayload_def require_that_def jfield_def nvl_def
        demo_env_def guard_op_def jstr_def demo_row_fields importFill_def applyFill_def Let_def terminal_target_def
        find_order_def throw_if_def usesPortableTerminalProtocol_def commit_terminal_def demo_vf_def)
qed

lemma demo_reachable: "reachable demo_cr 1050 demo_listed" "reachable demo_cr 1050 demo_filled"
proof -
  have "reachable demo_cr 1050 empty_book" by (rule reachable.start) (simp add: empty_book_def)
  from reachable.step [OF this, of "PeerEvent (demo_env 1050) (order_event demo_vo) ''peer''"]
  show l: "reachable demo_cr 1050 demo_listed" by (simp add: demo_listed_def demo_env_def)
  from reachable.step [OF l, of "PeerEvent (demo_env 1050)
     (fill_event demo_row demo_fill (demo_auth 1010 1100) (vi_intent demo_vi) (vi_auth demo_vi)) ''peer''"]
  show "reachable demo_cr 1050 demo_filled" by (simp add: demo_filled_def demo_env_def)
qed

end
