(* ===== verification/Book_Errors.thy ===== *)
theory Book_Errors
  imports Book_Demo
begin

text \<open>
  Error behaviour of the order book: whatever a request is refused for, before the store, by a
  validator, a capability check, a signature or a capacity, the rows are those before it or those
  after the expiry sweep, and no federation event was queued. Only the admission log and the
  presence of swept rows may differ.
\<close>

section \<open>Refusals leave the book alone\<close>

definition untouched :: "int \<Rightarrow> book \<Rightarrow> book \<Rightarrow> bool" where
  "untouched now bk bk' \<longleftrightarrow> (bk_orders bk' = bk_orders bk \<or> bk_orders bk' = swept_rows now (bk_orders bk)) \<and>
     bk_pendingEvents bk' = bk_pendingEvents bk"

definition quiet :: "int \<Rightarrow> book \<Rightarrow> 'a answer \<Rightarrow> bool" where
  "quiet now bk r \<longleftrightarrow> (case fst r of Inl e \<Rightarrow> untouched now bk (snd r) | Inr a \<Rightarrow> True)"

lemma pending_simps [simp]:
  "bk_pendingEvents (persist bk) = bk_pendingEvents bk" "bk_pendingEvents (snd (recentIntentAdmissions ip now bk)) = bk_pendingEvents bk"
  by (simp_all add: persist_def recentIntentAdmissions_def Let_def)

lemma fold_recent_pending:
  "bk_pendingEvents (fold (\<lambda>ip b. snd (recentIntentAdmissions ip now b)) ips bk) = bk_pendingEvents bk"
  by (induction ips arbitrary: bk) simp_all

lemma pending_sweep [simp]: "bk_pendingEvents (sweep now bk) = bk_pendingEvents bk"
  by (simp add: sweep_def Let_def pruneIntentAdmissions_def fold_recent_pending)

lemma untouched_refl [simp]: "untouched now bk bk"
  by (simp add: untouched_def)

lemma untouched_sweep [simp]: "untouched now bk (sweep now bk)"
  by (simp add: untouched_def bk_orders_sweep)

lemma untouched_same: "untouched now bk b \<Longrightarrow> bk_orders b' = bk_orders b \<Longrightarrow> bk_pendingEvents b' = bk_pendingEvents b \<Longrightarrow> untouched now bk b'"
  by (simp add: untouched_def)

lemma quiet_simps [simp]: "quiet now bk (Inr a, b)" "quiet now bk (Inl e, b) = untouched now bk b"
  by (simp_all add: quiet_def)

lemma quiet_guard:
  "untouched now bk b \<Longrightarrow> (\<And>a. r = Inr a \<Longrightarrow> quiet now bk (k a)) \<Longrightarrow> quiet now bk (guard_op b r k)"
  by (auto simp: guard_op_def split: sum.splits)

lemma quiet_if: "quiet now bk r \<Longrightarrow> quiet now bk s \<Longrightarrow> quiet now bk (if b then r else s)"
  by simp

lemma quiet_js_bind: "quiet now bk r \<Longrightarrow> quiet now bk (js_bind (fst r) (\<lambda>a. Inr (f a)), snd r)"
  by (cases "fst r") (simp_all add: quiet_def)

lemma quiet_mapped: "quiet now bk r \<Longrightarrow> quiet now bk (map_answer f r)"
  unfolding map_answer_def by (rule quiet_js_bind)

lemma quiet_forget: "quiet now bk r \<Longrightarrow> quiet now bk (forget r)"
  unfolding forget_def by (rule quiet_js_bind)

lemma quiet_swept: "quiet now (sweep now bk) r \<Longrightarrow> quiet now bk r"
  by (auto simp: quiet_def untouched_def bk_orders_sweep split: sum.splits)

lemmas quiet_intros = quiet_guard quiet_if untouched_refl untouched_sweep

lemma quiet_commits [simp]:
  "quiet now bk (commit_terminal t ev ord b)" "quiet now bk (record_conflict t ev c ord b)" "quiet now bk (update_row t ord b)"
  "quiet now bk (admit_intent t ord vi ip fed kept b)" "quiet now bk (insert_new en ip v fed caps src nt b)"
  by (simp_all add: commit_terminal_def record_conflict_def update_row_def admit_intent_def insert_new_def Let_def split: option.split)

lemma quiet_commitTake: "untouched (en_now en) bk b \<Longrightarrow> quiet (en_now en) bk (commitTake en ord body ip b)"
  unfolding commitTake_def Let_def by (rule quiet_guard) (auto split: prod.split)

lemma quiet_reads: "quiet (en_now en) bk (listOpen en bk)" "quiet (en_now en) bk (get_order en oid t bk)"
  "quiet (en_now en) bk (listFillIntents en oid t bk)" "quiet (en_now en) bk (heartbeat en oid t bk)"
  unfolding listOpen_def get_order_def listFillIntents_def heartbeat_def Let_def by (intro quiet_intros quiet_simps)+

lemma quiet_createInternal: "quiet (en_now en) bk (createInternal en body ip v fed caps src bk)"
proof -
  have "quiet (en_now en) bk (create_replay en vo fed caps ord (sweep (en_now en) bk))" for vo ord
    unfolding create_replay_def Let_def by (simp split: option.split)
  moreover have "quiet (en_now en) bk (guard_op (sweep (en_now en) bk) (create_terms en body ip v fed caps src (sweep (en_now en) bk))
      (\<lambda>nt. insert_new en ip v fed caps src nt (sweep (en_now en) bk)))"
    by (intro quiet_intros quiet_commits)
  ultimately show ?thesis
    unfolding createInternal_def Let_def by (auto split: option.split)
qed

lemma quiet_create: "quiet (en_now en) bk (create_order en body ip bk)" "quiet (en_now en) bk (signed_create en body ip bk)"
  unfolding create_order_def signed_create_def createVerified_def by (intro quiet_intros quiet_createInternal)+

lemma quiet_takes: "quiet (en_now en) bk (accept_order en oid body ip bk)" "quiet (en_now en) bk (take_order en body ip bk)"
  unfolding accept_order_def take_order_def Let_def by (intro quiet_intros quiet_commitTake)+

lemma quiet_maker: "quiet (en_now en) bk (announceHashlock en oid body bk)" "quiet (en_now en) bk (cancel_order en oid body bk)"
  unfolding announceHashlock_def cancel_order_def Let_def by (intro quiet_intros; auto split: prod.split)+

lemma quiet_releasePortable: "untouched (en_now en) bk b \<Longrightarrow> quiet (en_now en) bk (releasePortable en ord body fed b)"
  unfolding releasePortable_def Let_def by (rule quiet_guard) (auto split: option.split)

lemma quiet_release: "quiet (en_now en) bk (release_order en oid body bk)" "quiet (en_now en) bk (importRelease en oid body bk)"
  unfolding release_order_def importRelease_def Let_def
  by (intro quiet_intros quiet_releasePortable quiet_simps quiet_commits)+

lemma quiet_terminal: "quiet (en_now en) bk (applyFill en oid rf ra ri ria fed t bk)"
  "quiet (en_now en) bk (applySignedCancel en oid rc ra fed t bk)"
  unfolding applyFill_def applySignedCancel_def Let_def by (rule quiet_guard, simp, auto split: prod.split)+

lemma recent_snd:
  "recentIntentAdmissions ip now b = (recent, b1) \<Longrightarrow> bk_orders b1 = bk_orders b \<and> bk_pendingEvents b1 = bk_pendingEvents b"
  using bk_orders_simps(4) [of ip now b] pending_simps(2) [of ip now b] by simp

lemma quiet_store:
  assumes "untouched now bk b"
  shows "quiet now bk (storeFillIntent cr now ord vi ip fed b)"
proof -
  obtain recent b1 where r: "recentIntentAdmissions (cr_sha256Hex cr ip) now b = (recent, b1)" by force
  from untouched_same [OF assms] recent_snd [OF r] have b1: "untouched now bk b1" by blast
  have "quiet now bk (guard_op b' (evict_for vi now (intents_of ord)) (\<lambda>kept. admit_intent now ord vi iph fed kept b'))"
    if "untouched now bk b'" for b' iph
    by (intro quiet_guard that quiet_commits)
  with assms b1 r show ?thesis
    unfolding storeFillIntent_def Let_def by (auto split: option.split)
qed

lemma shed_untouched:
  assumes "untouched now bk b" "shedFillIntent cr now' ord ra ip b = (gate, b1)"
  shows "untouched now bk b1"
proof -
  have "bk_pendingEvents b1 = bk_pendingEvents b" "bk_orders b1 = bk_orders b"
    using assms(2) by (auto simp: shedFillIntent_def Let_def split: if_splits prod.splits dest: recent_snd)
  with assms(1) show ?thesis using untouched_same by blast
qed

lemma quiet_submit: "quiet (en_now en) bk (submitFillIntent en oid ri ra ip share bk)"
  unfolding submitFillIntent_def Let_def
proof (intro quiet_guard untouched_sweep, goal_cases)
  case (1 ord)
  obtain gate b1 where g: "shedFillIntent (en_cr en) (en_now en) ord ra ip (sweep (en_now en) bk) = (gate, b1)" by force
  have u: "untouched (en_now en) bk b1" using shed_untouched [OF untouched_sweep g] .
  show ?case unfolding g prod.case
    by (rule quiet_guard [OF u]) (auto simp: u quiet_store split: option.split)
qed

lemma quiet_import: "quiet (en_now en) bk (importFillIntent en oid ri ra bk)" "quiet (en_now en) bk (importVerifiedOrder en vo src bk)"
proof -
  show "quiet (en_now en) bk (importFillIntent en oid ri ra bk)"
    unfolding importFillIntent_def Let_def
    by (rule quiet_guard) (auto simp: quiet_store split: prod.split option.split)
  have c: "quiet (en_now en) bk (createInternal en body ip v fed caps s (sweep (en_now en) bk))" for body ip v fed caps s
    using quiet_createInternal [of en "sweep (en_now en) bk"] by (rule quiet_swept)
  show "quiet (en_now en) bk (importVerifiedOrder en vo src bk)"
    unfolding importVerifiedOrder_def Let_def case_prod_beta
    by (auto simp: quiet_js_bind [OF c] split: option.split)
qed

lemma quiet_federation: "quiet (en_now en) bk (applyFederationEvent en ev src bk)"
  unfolding applyFederationEvent_def Let_def importFill_def importSignedCancel_def
  by (cases "fe_kind ev")
    (auto intro!: quiet_guard quiet_forget quiet_import quiet_terminal quiet_release)

lemma quiet_with_body: "(\<And>body. quiet now bk (k body)) \<Longrightarrow> quiet now bk (with_body rq bk k)"
  unfolding with_body_def by (rule quiet_guard) simp_all

lemmas quiet_routes = quiet_if quiet_mapped quiet_guard untouched_refl quiet_with_body quiet_simps(1) quiet_reads quiet_create
  quiet_takes quiet_maker quiet_release(1) quiet_terminal quiet_submit

lemma quiet_order_route: "quiet (en_now en) bk (order_route en rq oid rest bk)"
  unfolding order_route_def protocol_action_def order_action_def cancelSigned_def fillOrder_def by (intro quiet_routes)

lemma quiet_dispatch: "quiet (en_now en) bk (dispatch en rq bk)"
proof -
  have "quiet (en_now en) bk (case order_path (rq_path rq) of
      None \<Rightarrow> (Inr NotFound, bk) | Some (oid, rest) \<Rightarrow> order_route en rq oid rest bk)"
    by (auto simp: quiet_order_route split: option.split prod.split)
  then show ?thesis unfolding dispatch_def by (intro quiet_routes)
qed

text \<open>
  C29: a refused request changes no order. If the book answers a request, or the application of a
  peer event, with an error, its rows are exactly those before the request or those after the
  expiry sweep, and no event was queued for the peers.
\<close>

theorem refused_request_is_inert:
  assumes "fst (dispatch en rq bk) = Inl e \<and> bk' = snd (dispatch en rq bk)
    \<or> fst (applyFederationEvent en ev src bk) = Inl e \<and> bk' = snd (applyFederationEvent en ev src bk)"
  shows "(bk_orders bk' = bk_orders bk \<or> bk_orders bk' = swept_rows (en_now en) (bk_orders bk)) \<and>
    bk_pendingEvents bk' = bk_pendingEvents bk"
  using assms quiet_dispatch [of en bk rq] quiet_federation [of en bk ev src] by (auto simp: quiet_def untouched_def)

theorem refused_request_is_inert_witness:
  "\<exists>e. fst (dispatch (demo_env 1060) \<lparr>rq_method = ''GET'', rq_path = ''/api/orders/zz'', rq_ip = '''', rq_makerHeader = None,
       rq_shareHeader = None, rq_body = Inr [], rq_slot = Inr ()\<rparr> demo_filled) = Inl e
     \<and> bk_pendingEvents (snd (dispatch (demo_env 1060) \<lparr>rq_method = ''GET'', rq_path = ''/api/orders/zz'', rq_ip = '''',
       rq_makerHeader = None, rq_shareHeader = None, rq_body = Inr [], rq_slot = Inr ()\<rparr> demo_filled)) = bk_pendingEvents demo_filled"
proof -
  let ?rq = "\<lparr>rq_method = ''GET'', rq_path = ''/api/orders/zz'', rq_ip = '''', rq_makerHeader = None,
    rq_shareHeader = None, rq_body = Inr [], rq_slot = Inr ()\<rparr>"
  have "fst (dispatch (demo_env 1060) ?rq demo_filled) = Inl (bad 404 ''order not found'')"
    by (simp add: dispatch_def order_path_def order_route_def bad_id_def require_that_def ORDER_ID_RE_def matches_def guard_op_def)
  with refused_request_is_inert [of "demo_env 1060" ?rq demo_filled "bad 404 ''order not found''"] show ?thesis by blast
qed

end
