(* ===== verification/Book_Invariant.thy ===== *)
theory Book_Invariant
  imports Book_Runs
begin

text \<open>
  The invariants of the order book. Each part of the row invariant is an interpretation of
  \<open>row_invariant\<close>: the shape of a row in each status, the terminal proofs and what they project
  onto the row, the bounded evidence and intents, and the signatures behind every proof a row
  holds. The counts the admission checks bound stay bounded on every reachable book.
\<close>

section \<open>The parts of the row invariant\<close>

definition status_ok :: "order \<Rightarrow> bool" where
  "status_ok ord \<longleftrightarrow>
     (o_status ord = Open \<longrightarrow> o_takerEthAccount ord = None \<and> o_takerQrlAccount ord = None \<and>
        o_takerTokenHash ord = None \<and> o_responderTimeout ord = None) \<and>
     (o_status ord = Accepted \<longrightarrow> \<not> usesPortableTerminalProtocol ord \<and> o_takerEthAccount ord \<noteq> None \<and>
        o_takerQrlAccount ord \<noteq> None \<and> o_takerTokenHash ord \<noteq> None \<and> o_responderTimeout ord = None) \<and>
     (o_status ord = Locking \<longrightarrow> o_takerEthAccount ord \<noteq> None \<and> o_takerQrlAccount ord \<noteq> None \<and> o_hashlock ord \<noteq> None \<and>
        (\<exists>t1 t2. o_initiatorTimeout ord = Some t1 \<and> o_responderTimeout ord = Some t2 \<and> t2 + 600 < t1)) \<and>
     (o_prelocked ord \<longrightarrow> o_hashlock ord \<noteq> None \<and> o_initiatorTimeout ord \<noteq> None)"

definition projects :: "fill_body \<Rightarrow> order \<Rightarrow> bool" where
  "projects f ord \<longleftrightarrow> o_status ord = Locking \<and> o_hashlock ord = Some (fb_hashlock f) \<and>
     o_initiatorTimeout ord = Some (fb_initiatorTimeout f) \<and> o_responderTimeout ord = Some (fb_responderTimeout f) \<and>
     o_takerEthAccount ord = Some (fb_takerEthAccount f) \<and> o_takerQrlAccount ord = Some (fb_takerQrlAccount f)"

definition terminal_ok :: "order \<Rightarrow> bool" where
  "terminal_ok ord \<longleftrightarrow>
     (case o_fill ord of
        None \<Rightarrow> o_fillAuth ord = None \<and> o_fillDigest ord = None \<and> o_selectedIntent ord = None
      | Some f \<Rightarrow> o_fillAuth ord \<noteq> None \<and> o_fillDigest ord \<noteq> None \<and> o_cancelProof ord = None \<and> projects f ord \<and>
          (\<exists>s. o_selectedIntent ord = Some s \<and> si_intentDigest s = fb_intentDigest f)) \<and>
     (case o_cancelProof ord of
        None \<Rightarrow> o_cancelAuth ord = None \<and> o_cancelDigest ord = None
      | Some c \<Rightarrow> o_cancelAuth ord \<noteq> None \<and> o_cancelDigest ord \<noteq> None \<and> o_status ord = Cancelled) \<and>
     (\<not> usesPortableTerminalProtocol ord \<longrightarrow> o_fill ord = None \<and> o_cancelProof ord = None)"

definition evidence_ok :: "order \<Rightarrow> bool" where
  "evidence_ok ord \<longleftrightarrow> length (o_conflicts ord) \<le> MAX_CONFLICT_PROOFS \<and> length (o_orderConflicts ord) \<le> MAX_CONFLICT_PROOFS \<and>
     (o_equivocated ord \<longleftrightarrow> o_conflicts ord \<noteq> [] \<or> o_orderConflicts ord \<noteq> []) \<and>
     (o_equivocated ord \<longrightarrow> o_status ord \<noteq> Open \<and> o_status ord \<noteq> Accepted)"

definition signed_shape :: "order \<Rightarrow> bool" where
  "signed_shape ord \<longleftrightarrow> (o_makerAuth ord \<noteq> None) = (o_fillIntents ord \<noteq> None) \<and>
     (o_makerAuth ord \<noteq> None) = (o_orderDigest ord \<noteq> None) \<and> (o_visibility ord = Private) = (o_shareTokenHash ord \<noteq> None)"

definition intent_signed :: "crypto \<Rightarrow> stored_intent \<Rightarrow> bool" where
  "intent_signed cr i \<longleftrightarrow>
     cr_verify cr (fi_takerQrlAccount (si_intent i)) (si_auth i) (intent_payload (si_intent i) (si_auth i)) \<and>
     si_intentDigest i = cr_digest cr (intent_payload (si_intent i) (si_auth i))"

definition intents_ok :: "crypto \<Rightarrow> order \<Rightarrow> bool" where
  "intents_ok cr ord \<longleftrightarrow> length (intents_of ord) \<le> MAX_FILL_INTENTS_PER_ORDER \<and>
     distinct (map si_intentDigest (intents_of ord)) \<and> (\<forall>i\<in>set (intents_of ord). intent_signed cr i)"

definition times_ok :: "int \<Rightarrow> order \<Rightarrow> bool" where
  "times_ok now ord \<longleftrightarrow> o_createdAt ord \<le> o_updatedAt ord \<and> o_updatedAt ord \<le> now"


section \<open>They hold of every row\<close>

lemma new_order_fields:
  "o_status (new_order en ip v fed src nt) = Open" "o_takerEthAccount (new_order en ip v fed src nt) = None"
  "o_takerQrlAccount (new_order en ip v fed src nt) = None" "o_takerTokenHash (new_order en ip v fed src nt) = None"
  "o_responderTimeout (new_order en ip v fed src nt) = None" "o_fill (new_order en ip v fed src nt) = None"
  "o_fillAuth (new_order en ip v fed src nt) = None" "o_fillDigest (new_order en ip v fed src nt) = None"
  "o_selectedIntent (new_order en ip v fed src nt) = None" "o_cancelProof (new_order en ip v fed src nt) = None"
  "o_cancelAuth (new_order en ip v fed src nt) = None" "o_cancelDigest (new_order en ip v fed src nt) = None"
  "\<not> o_equivocated (new_order en ip v fed src nt)" "o_conflicts (new_order en ip v fed src nt) = []"
  "o_orderConflicts (new_order en ip v fed src nt) = []"
  "o_prelocked (new_order en ip v fed src nt) = (nt_prelock nt \<noteq> None)"
  "o_hashlock (new_order en ip v fed src nt) = map_option pl_hashlock (nt_prelock nt)"
  "o_initiatorTimeout (new_order en ip v fed src nt) = map_option pl_initiatorTimeout (nt_prelock nt)"
  "o_createdAt (new_order en ip v fed src nt) = en_now en" "o_updatedAt (new_order en ip v fed src nt) = en_now en"
  "intents_of (new_order en ip v fed src nt) = []"
  by (simp_all add: new_order_def intents_of_def nvl_def Let_def)

lemma announce_gap: "(now :: int) + 600 < t2 \<Longrightarrow> 2 * (t2 - now) \<le> t1 - now \<Longrightarrow> t2 + 600 < t1"
  by arith

lemma fill_gap:
  assumes "verifyFillV1 cr now ae raw rawA vo vi = Inr vf"
  shows "fb_responderTimeout (vf_fill vf) + 600 < fb_initiatorTimeout (vf_fill vf)"
proof -
  have "pa_issuedAt (vf_auth vf) < pa_expiresAt (vf_auth vf)"
    using assms by (auto simp: verifyFillV1_def js_simps MIN_FILL_RESPONSE_S_def)
  with verifyFillV1_Inr(9) [OF assms] show ?thesis by (simp add: fill_windows_ok_def)
qed

definition released_row :: "int \<Rightarrow> string \<Rightarrow> string \<Rightarrow> bool \<Rightarrow> order \<Rightarrow> order" where
  "released_row now s digest sel ord = ord\<lparr>o_fillIntents := map_option (mark_released digest s now) (o_fillIntents ord),
     o_releaseSecret := (if sel then Some s else o_releaseSecret ord),
     o_releasedAt := (if sel then Some now else o_releasedAt ord), o_updatedAt := now\<rparr>"

lemma release_same:
  assumes "release_fill cr now ord d rd s = Inr (Some (ord', ev)) \<or> release_intent cr now ord d rd s = Inr (Some (ord', ev))"
  shows "ord' = ord\<lparr>o_releaseSecret := Some s, o_releasedAt := Some now, o_updatedAt := now\<rparr> \<or>
    (\<exists>digest sel. ord' = released_row now s digest sel ord)"
  using assms
proof
  assume "release_fill cr now ord d rd s = Inr (Some (ord', ev))"
  then have "ord' = ord\<lparr>o_releaseSecret := Some s, o_releasedAt := Some now, o_updatedAt := now\<rparr>"
    by (auto simp: release_fill_def js_simps split: option.splits if_splits)
  then show ?thesis ..
next
  assume "release_intent cr now ord d rd s = Inr (Some (ord', ev))"
  then have "\<exists>digest sel. ord' = released_row now s digest sel ord"
    unfolding release_intent_def Let_def case_option_Inl throw_if_Inr js_bind_Inr released_row_def [symmetric]
    by (auto simp: js_simps split: if_splits)
  then show ?thesis ..
qed

lemma dispute_same:
  "rememberTerminalConflict now ord c = Some ord' \<Longrightarrow> ord' = ord\<lparr>o_conflicts := keep_last MAX_CONFLICT_PROOFS (o_conflicts ord @ [c]),
     o_equivocated := True, o_updatedAt := now\<rparr>"
  by (auto simp: rememberTerminalConflict_def split: if_splits)

lemma release_status:
  assumes "release_fill cr now ord d rd s = Inr (Some (ord', ev)) \<or> release_intent cr now ord d rd s = Inr (Some (ord', ev))"
  shows "status_ok ord' = status_ok ord"
  using release_same [OF assms] by (elim disjE exE) (simp_all add: status_ok_def usesPortableTerminalProtocol_def released_row_def)

lemma row_step_status: "row_step cr now ord ord' \<Longrightarrow> status_ok ord \<Longrightarrow> status_ok ord'"
proof (induction rule: row_step.induct)
  case (announce ord token t2 t1 h)
  with announce_gap [of now t2 t1] show ?case by (simp add: status_ok_def announce_row_def)
next
  case (fill ord vo rawI rawIA vi ae raw rawA vf)
  with fill_gap [OF fill(6)] show ?case by (simp add: status_ok_def fill_row_def Let_def)
next
  case (dispute ord evidence ord')
  with dispute_same [OF dispute(2)] show ?case by (simp add: status_ok_def usesPortableTerminalProtocol_def)
next
  case (release_fill ord d rd s ord' ev)
  then show ?case using release_status [of cr now ord d rd s ord' ev] by simp
next
  case (release_intent ord d rd s ord' ev)
  then show ?case using release_status [of cr now ord d rd s ord' ev] by simp
qed (simp_all add: status_ok_def row_defs usesPortableTerminalProtocol_def split: order_status.splits)

lemma sweep_cases:
  assumes "sweep_order now ord = Some ord'"
  obtains "ord' = retain_intents now ord"
  | "o_status ord = Open \<or> o_status ord = Accepted" "ord' = retain_intents now ord\<lparr>o_status := Cancelled, o_updatedAt := now\<rparr>"
  using assms by (auto simp: sweep_order_alt sweep_expires_def split: if_splits)

lemma sweep_status: "status_ok ord \<Longrightarrow> sweep_order now ord = Some ord' \<Longrightarrow> status_ok ord'"
  by (erule sweep_cases) (simp_all add: status_ok_def usesPortableTerminalProtocol_def retain_intents_def)

interpretation status: row_invariant cr "\<lambda>_. status_ok" for cr
  by unfold_locales (simp add: status_ok_def new_order_fields; fail | blast intro: row_step_status sweep_status)+

lemma release_terminal:
  assumes "release_fill cr now ord d rd s = Inr (Some (ord', ev)) \<or> release_intent cr now ord d rd s = Inr (Some (ord', ev))"
  shows "terminal_ok ord' = terminal_ok ord"
  using release_same [OF assms]
  by (elim disjE exE) (simp_all add: terminal_ok_def projects_def usesPortableTerminalProtocol_def released_row_def cong: option.case_cong)

lemma terminal_free_ok: "terminal_ok ord \<Longrightarrow> terminal_free ord \<longleftrightarrow> o_fill ord = None \<and> o_cancelProof ord = None"
  by (auto simp: terminal_ok_def terminal_free_def split: option.splits)

lemma fill_row_terminal:
  assumes "verifyFillV1 cr now ae raw rawA vo vi = Inr vf" "terminal_free ord" "terminal_ok ord"
    "usesPortableTerminalProtocol ord"
  shows "terminal_ok (fill_row cr now vi vf ord)"
proof -
  have "si_intentDigest (nvl (find (\<lambda>i. si_intentDigest i = vi_intentDigest vi) (intents_of ord)) dflt) = vi_intentDigest vi"
    if "si_intentDigest dflt = vi_intentDigest vi" for dflt
    using that by (auto simp: nvl_def find_Some_iff split: option.splits)
  then show ?thesis
    using assms verifyFillV1_Inr(2) [OF assms(1)] terminal_free_ok [OF assms(3)]
    by (simp add: terminal_ok_def fill_row_def Let_def projects_def public_intent_def selected_fill_intent.truncate_def
        usesPortableTerminalProtocol_def)
qed

lemma row_step_terminal: "row_step cr now ord ord' \<Longrightarrow> terminal_ok ord \<Longrightarrow> terminal_ok ord'"
proof (induction rule: row_step.induct)
  case (fill ord vo rawI rawIA vi ae raw rawA vf)
  then show ?case by (blast intro: fill_row_terminal)
next
  case (dispute ord evidence ord')
  with dispute_same [OF dispute(2)] show ?case
    by (simp add: terminal_ok_def projects_def usesPortableTerminalProtocol_def cong: option.case_cong)
next
  case (release_fill ord d rd s ord' ev)
  then show ?case using release_terminal [of cr now ord d rd s ord' ev] by simp
next
  case (release_intent ord d rd s ord' ev)
  then show ?case using release_terminal [of cr now ord d rd s ord' ev] by simp
next
  case (cancel ord vo ae raw rawA vc)
  then show ?case using terminal_free_ok [OF cancel.prems]
    by (simp add: terminal_ok_def cancel_row_def usesPortableTerminalProtocol_def)
next
  case (equivocate vo ord)
  then show ?case
    by (simp add: terminal_ok_def record_order_conflict_def projects_def usesPortableTerminalProtocol_def cong: option.case_cong)
      (auto split: option.splits)
next
  case (propose ord vo ae raw rawAuth vi kept ip)
  then show ?case
    by (simp add: terminal_ok_def projects_def usesPortableTerminalProtocol_def cong: option.case_cong)
qed (auto simp: terminal_ok_def row_defs projects_def usesPortableTerminalProtocol_def split: option.splits)

lemma sweep_terminal: "terminal_ok ord \<Longrightarrow> sweep_order now ord = Some ord' \<Longrightarrow> terminal_ok ord'"
  by (erule sweep_cases)
    (auto simp: terminal_ok_def projects_def usesPortableTerminalProtocol_def retain_intents_def split: option.splits)

interpretation terminal: row_invariant cr "\<lambda>_. terminal_ok" for cr
  by unfold_locales (simp add: terminal_ok_def new_order_fields; fail | blast intro: row_step_terminal sweep_terminal)+

lemma keep_last_facts [simp]:
  "length (keep_last n xs) = min n (length xs)" "keep_last n xs = [] \<longleftrightarrow> n = 0 \<or> xs = []"
  by (auto simp: keep_last_def) (metis diff_less length_greater_0_conv not_le neq0_conv)

lemma keep_last_subset: "set (keep_last n xs) \<subseteq> set xs"
  by (simp add: keep_last_def set_drop_subset)

lemma terminal_not_live: "terminal_ok ord \<Longrightarrow> \<not> terminal_free ord \<Longrightarrow> o_status ord = Locking \<or> o_status ord = Cancelled"
  by (auto simp: terminal_ok_def terminal_free_def projects_def split: option.splits)

lemma release_evidence:
  assumes "release_fill cr now ord d rd s = Inr (Some (ord', ev)) \<or> release_intent cr now ord d rd s = Inr (Some (ord', ev))"
  shows "evidence_ok ord' = evidence_ok ord"
  using release_same [OF assms] by (elim disjE exE) (simp_all add: evidence_ok_def released_row_def)

lemma row_step_evidence:
  "row_step cr now ord ord' \<Longrightarrow> terminal_ok ord \<Longrightarrow> evidence_ok ord \<Longrightarrow> evidence_ok ord'"
proof (induction rule: row_step.induct)
  case (dispute ord evidence ord')
  with dispute_same [OF dispute(2)] terminal_not_live [OF dispute(3,1)] show ?case
    by (auto simp: evidence_ok_def MAX_CONFLICT_PROOFS_def)
next
  case (release_fill ord d rd s ord' ev)
  then show ?case using release_evidence [of cr now ord d rd s ord' ev] by simp
next
  case (release_intent ord d rd s ord' ev)
  then show ?case using release_evidence [of cr now ord d rd s ord' ev] by simp
next
  case (equivocate vo ord)
  then show ?case by (simp add: evidence_ok_def record_order_conflict_def MAX_CONFLICT_PROOFS_def)
qed (auto simp: evidence_ok_def row_defs fill_row_def Let_def)

lemma sweep_evidence: "evidence_ok ord \<Longrightarrow> sweep_order now ord = Some ord' \<Longrightarrow> evidence_ok ord'"
  by (erule sweep_cases) (simp_all add: evidence_ok_def retain_intents_def)

interpretation evidence: row_invariant cr "\<lambda>_ ord. terminal_ok ord \<and> evidence_ok ord" for cr
  by unfold_locales
    (simp add: terminal_ok_def evidence_ok_def new_order_fields; fail
     | blast intro: row_step_terminal sweep_terminal row_step_evidence sweep_evidence)+

lemma create_private_share:
  assumes "create_terms en body ip verified fed caps src bk = Inr nt" "verified = None" "nt_visibility nt = Private"
  shows "ac_shareToken (nt_access nt) \<noteq> None"
  using assms by (auto simp: create_terms_def js_simps Let_def)

lemma new_signed_shape:
  assumes "create_terms en body ip verified fed caps src bk = Inr nt"
  shows "signed_shape (new_order en ip verified fed src nt)"
  using create_private_share [OF assms]
  by (cases verified; cases "nt_visibility nt") (auto simp: signed_shape_def new_order_def Let_def)

lemma signed_shape_frozen:
  assumes "frozen a = frozen b"
  shows "signed_shape a = signed_shape b"
proof -
  have "map_option (\<lambda>_. [] :: stored_intent list) (o_fillIntents a) = map_option (\<lambda>_. []) (o_fillIntents b)"
    using arg_cong [OF assms, of o_fillIntents] by (simp add: frozen_def)
  then have "(o_fillIntents a = None) = (o_fillIntents b = None)"
    by (cases "o_fillIntents a"; cases "o_fillIntents b") simp_all
  with frozen_fields(8,9,11,12) [OF assms] show ?thesis by (simp add: signed_shape_def)
qed

interpretation shape: row_invariant cr "\<lambda>_. signed_shape" for cr
  by unfold_locales
    (blast intro: new_signed_shape, metis signed_shape_frozen row_step_frozen, metis signed_shape_frozen sweep_frozen)

lemma release_updated:
  assumes "release_fill cr now ord d rd s = Inr (Some (ord', ev)) \<or> release_intent cr now ord d rd s = Inr (Some (ord', ev))"
  shows "o_updatedAt ord' = now"
  using release_same [OF assms] by (elim disjE exE) (simp_all add: released_row_def)

lemma row_step_times: "row_step cr now ord ord' \<Longrightarrow> o_updatedAt ord' = now"
proof (induction rule: row_step.induct)
  case (dispute ord evidence ord')
  with dispute_same [OF dispute(2)] show ?case by simp
next
  case (release_fill ord d rd s ord' ev)
  then show ?case by (blast intro: release_updated)
next
  case (release_intent ord d rd s ord' ev)
  then show ?case by (blast intro: release_updated)
qed (simp_all add: row_defs fill_row_def Let_def)

interpretation times: row_invariant cr times_ok for cr
proof (unfold_locales, goal_cases)
  case 1
  then show ?case by (simp add: times_ok_def new_order_fields)
next
  case (2 now ord ord')
  with row_step_times [OF 2(2)] frozen_fields(16) [OF row_step_frozen [OF 2(2)]] show ?case by (simp add: times_ok_def)
next
  case (3 now ord ord')
  from 3(2) show ?case by (rule sweep_cases) (use 3(1) in \<open>simp_all add: times_ok_def retain_intents_def\<close>)
next
  case 4
  then show ?case by (simp add: times_ok_def)
qed

lemma first_of_sorted_in: "first_of (js_sort cmp (filter P xs)) = Some x \<Longrightarrow> x \<in> set xs \<and> P x"
  by (drule first_sorted_mem) simp

lemma evict_for_facts:
  assumes "evict_for vi now xs = Inr kept" "length xs \<le> MAX_FILL_INTENTS_PER_ORDER"
  shows "length kept < MAX_FILL_INTENTS_PER_ORDER" "set kept \<subseteq> set xs"
    "distinct (map si_intentDigest xs) \<Longrightarrow> distinct (map si_intentDigest kept)"
proof -
  consider "kept = xs" "length xs < MAX_FILL_INTENTS_PER_ORDER"
    | c where "c \<in> set xs" "kept = remove1 c xs"
  proof (cases "length xs \<ge> MAX_FILL_INTENTS_PER_ORDER")
    case True
    with assms(1) obtain c where c: "kept = remove1 c xs" "first_of (js_sort evictionOrder (filter (\<lambda>i. \<not> isLiveIntent i now \<and>
        (pa_expiresAt (vi_auth vi) > now \<or> pa_expiresAt (si_auth i) < pa_expiresAt (vi_auth vi))) xs)) = Some c"
      by (auto simp: evict_for_def case_option_Inl)
    from first_of_sorted_in [OF c(2)] have "c \<in> set xs" ..
    then show ?thesis using c(1) by (rule that(2))
  next
    case False
    with assms(1) that(1) show ?thesis by (simp add: evict_for_def)
  qed
  note cases = this
  from cases show "length kept < MAX_FILL_INTENTS_PER_ORDER"
  proof cases
    case (2 c)
    then have "0 < length xs" "length kept = length xs - 1" by (auto simp: length_remove1)
    then have "length kept < length xs" by linarith
    with assms(2) show ?thesis by linarith
  qed simp
  from cases show "set kept \<subseteq> set xs" by cases (simp_all add: set_remove1_subset)
  assume d: "distinct (map si_intentDigest xs)"
  from cases show "distinct (map si_intentDigest kept)"
  proof cases
    case 2
    from d have "distinct xs" "inj_on si_intentDigest (set xs)" by (simp_all add: distinct_map)
    with 2 show ?thesis by (auto simp: distinct_map distinct_remove1 intro: inj_on_subset)
  qed (use d in simp)
qed

lemma intents_ok_subset:
  assumes "intents_ok cr ord" "intents_of ord' = filter P (intents_of ord)"
  shows "intents_ok cr ord'"
  using assms by (auto simp: intents_ok_def distinct_map_filter intro: order_trans [OF length_filter_le])

lemma mark_released_digests [simp]: "map si_intentDigest (mark_released d s now l) = map si_intentDigest l"
  by (simp add: mark_released_def comp_def)

lemma mark_released_ok:
  assumes "intents_ok cr ord" "intents_of ord' = mark_released d s now (intents_of ord)"
  shows "intents_ok cr ord'"
proof -
  have "length (mark_released d s now (intents_of ord)) = length (intents_of ord)" by (simp add: mark_released_def)
  with assms show ?thesis by (auto simp: intents_ok_def) (auto simp: mark_released_def intent_signed_def)
qed

lemma intents_ok_cong: "intents_of ord' = intents_of ord \<Longrightarrow> intents_ok cr ord' = intents_ok cr ord"
  by (simp add: intents_ok_def)

lemma release_intents_ok:
  assumes "release_fill cr' now ord d rd s = Inr (Some (ord', ev)) \<or> release_intent cr' now ord d rd s = Inr (Some (ord', ev))"
    and "intents_ok cr ord"
  shows "intents_ok cr ord'"
  using release_same [OF assms(1)]
proof (elim disjE exE)
  fix digest sel
  assume "ord' = released_row now s digest sel ord"
  then have "intents_of ord' = mark_released digest s now (intents_of ord)"
    by (cases "o_fillIntents ord") (simp_all add: released_row_def intents_of_def nvl_def mark_released_def)
  with assms(2) show ?thesis by (rule mark_released_ok)
qed (use assms(2) in \<open>simp add: intents_ok_def intents_of_def\<close>)

lemma new_intent_signed:
  "verifyFillIntentV1 cr now ae raw rawAuth vo = Inr vi \<Longrightarrow> intent_signed cr (new_intent vi now' ip)"
  by (simp add: intent_signed_def new_intent_def verifyFillIntentV1_Inr(2,3))

lemma row_step_intents: "row_step cr now ord ord' \<Longrightarrow> intents_ok cr ord \<Longrightarrow> intents_ok cr ord'"
proof (induction rule: row_step.induct)
  case (propose ord vo ae raw rawAuth vi kept ip)
  have len: "length (intents_of ord) \<le> MAX_FILL_INTENTS_PER_ORDER" using propose.prems by (simp add: intents_ok_def)
  note e = evict_for_facts [OF propose(5) len]
  have "distinct (map si_intentDigest kept)" using e(3) propose.prems by (simp add: intents_ok_def)
  moreover have "vi_intentDigest vi \<notin> si_intentDigest ` set kept" using e(2) propose(4) by blast
  moreover have "\<forall>i\<in>set kept. intent_signed cr i" using e(2) propose.prems by (auto simp: intents_ok_def)
  moreover have "intents_of (ord\<lparr>o_fillIntents := Some (kept @ [new_intent vi now ip]), o_updatedAt := now\<rparr>) =
      kept @ [new_intent vi now ip]" by (simp add: intents_of_def nvl_def)
  ultimately show ?case
    using e(1) new_intent_signed [OF propose(3), of now ip] by (simp add: intents_ok_def) (simp add: new_intent_def)
next
  case (dispute ord evidence ord')
  have "intents_of ord' = intents_of ord" using dispute_same [OF dispute(2)] by (simp add: intents_of_def)
  with dispute.prems show ?case using intents_ok_cong by blast
next
  case (release_fill ord d rd s ord' ev)
  then show ?case by (blast intro: release_intents_ok)
next
  case (release_intent ord d rd s ord' ev)
  then show ?case by (blast intro: release_intents_ok)
qed (simp_all add: intents_ok_def intents_of_def row_defs fill_row_def Let_def)

lemma sweep_intents: "intents_ok cr ord \<Longrightarrow> sweep_order now ord = Some ord' \<Longrightarrow> intents_ok cr ord'"
  by (erule sweep_cases)
    (erule intents_ok_subset, cases "o_fillIntents ord", simp_all add: retain_intents_def intents_of_def nvl_def)+

interpretation intents: row_invariant cr "\<lambda>_. intents_ok cr" for cr
  by unfold_locales (simp add: intents_ok_def new_order_fields; fail | blast intro: row_step_intents sweep_intents)+

end
