(* ===== verification/Book_Authority.thy ===== *)
theory Book_Authority
  imports Book_Invariant Book_Demo
begin

text \<open>
  Who authorised what. Every signed row carries the order its maker signed; every fill a row
  holds was signed by a maker of an order with the row's id and answers an intent its taker
  signed; every cancellation was signed by such a maker. All of this survives any run.
\<close>

section \<open>The signed order behind a row\<close>

definition signed_row :: "crypto \<Rightarrow> order \<Rightarrow> bool" where
  "signed_row cr ord \<longleftrightarrow> (case o_makerAuth ord of None \<Rightarrow> True
     | Some a \<Rightarrow> (\<exists>vo. verified_order_ok cr vo \<and> vo_auth vo = a \<and> vo_orderId vo = o_id ord \<and>
         o_orderDigest ord = Some (vo_orderDigest vo) \<and>
         vo_order vo = (signed_body ord)\<lparr>ob_prelock := ob_prelock (vo_order vo)\<rparr>))"

lemma signed_body_frozen:
  assumes "frozen a = frozen b"
  shows "(signed_body a)\<lparr>ob_prelock := p\<rparr> = (signed_body b)\<lparr>ob_prelock := p\<rparr>"
proof -
  have "o_allowedTakerEth a = o_allowedTakerEth b" "o_allowedTakerQrl a = o_allowedTakerQrl b"
    using arg_cong [OF assms, of o_allowedTakerEth] arg_cong [OF assms, of o_allowedTakerQrl] by (simp_all add: frozen_def)
  with frozen_fields(2-8) [OF assms] show ?thesis by (simp add: signed_body_def)
qed

lemma signed_row_frozen:
  assumes "frozen a = frozen b"
  shows "signed_row cr a = signed_row cr b"
  using frozen_fields(1,11,12) [OF assms] signed_body_frozen [OF assms] by (simp add: signed_row_def cong: option.case_cong)

lemma requireAmount_canonical:
  "requireAmount (Some (JStr s)) f b = Inr r \<Longrightarrow> CANONICAL_AMOUNT_RE s \<Longrightarrow> r = s"
  by (auto simp: requireAmount_def jstr_def js_simps canonical_amount_roundtrip split: if_splits)

lemma requireAddress_Inr [js_simps]: "requireAddress raw f re = Inr a \<longleftrightarrow> raw = Some (JStr a) \<and> re a"
  by (auto simp: requireAddress_def jstr_def js_simps split: option.splits json.splits if_splits)

lemma create_terms_Inr:
  assumes "create_terms en body ip verified fed caps src bk = Inr nt"
  shows "create_totals (orders_of bk) = Inr ()" "requireDirection (map_of body ''direction'') = Inr (nt_direction nt)"
    "requireAsset (map_of body ''asset'') = Inr (nt_asset nt)"
    "requireAmount (map_of body ''fromAmount'') ''fromAmount''
        (if nt_direction nt = EthToQrl then asset_bounds (nt_asset nt) else QRL_BOUNDS) = Inr (nt_fromAmount nt)"
    "requireAmount (map_of body ''toAmount'') ''toAmount''
        (if nt_direction nt = EthToQrl then QRL_BOUNDS else asset_bounds (nt_asset nt)) = Inr (nt_toAmount nt)"
    "requireAddress (map_of body ''makerEthAccount'') ''makerEthAccount'' ETH_ADDR_RE = Inr (nt_makerEth nt)"
    "requireAddress (map_of body ''makerQrlAccount'') ''makerQrlAccount'' QRL_ADDR_RE = Inr (nt_makerQrl nt)"
    "create_limits (orders_of bk) (nt_makerEth nt) (nt_makerQrl nt) (cr_sha256Hex (en_cr en) ip) fed = Inr ()"
    "create_visibility body = Inr (nt_visibility nt)"
    "portable_limits (en_cr en) (orders_of bk) (verified \<noteq> None) (nt_visibility nt) fed src = Inr ()"
    "create_access en body (nt_visibility nt) (verified \<noteq> None) fed caps = Inr (nt_access nt)"
    "create_prelock body (en_now en) fed (orders_of bk) = Inr (nt_prelock nt)"
    "nt_id nt = (case verified of None \<Rightarrow> en_orderId en | Some vo \<Rightarrow> vo_orderId vo)"
    "find_order bk (nt_id nt) = None"
  using assms unfolding create_terms_def Let_def js_bind_Inr throw_if_Inr by auto

lemma create_visibility_str: "create_visibility body = Inr v \<Longrightarrow> map_of body ''visibility'' = Some (JStr (visibility_str w)) \<Longrightarrow> v = w"
  by (auto simp: create_visibility_def)

lemma create_access_signed:
  assumes "create_access en (order_body_obj b) (ob_visibility b) signed fed caps = Inr ac" "order_body_wf b"
  shows "ac_takerEth ac = ob_allowedTakerEth b" "ac_takerQrl ac = ob_allowedTakerQrl b"
  using assms
  by (cases "ob_visibility b"; cases "ob_allowedTakerEth b"; cases "ob_allowedTakerQrl b";
      auto simp: create_access_def order_body_obj_lookup opt_address_def js_simps Let_def)+

lemma create_terms_signed:
  assumes c: "create_terms en (order_body_obj (vo_order vo)) ip (Some vo) fed caps src bk = Inr nt"
    and ok: "order_body_wf (vo_order vo)"
  shows "nt_id nt = vo_orderId vo \<and> nt_direction nt = ob_direction (vo_order vo) \<and> nt_asset nt = ob_asset (vo_order vo) \<and>
    nt_fromAmount nt = ob_fromAmount (vo_order vo) \<and> nt_toAmount nt = ob_toAmount (vo_order vo) \<and>
    nt_makerEth nt = ob_makerEthAccount (vo_order vo) \<and> nt_makerQrl nt = ob_makerQrlAccount (vo_order vo) \<and>
    nt_visibility nt = ob_visibility (vo_order vo) \<and>
    ac_takerEth (nt_access nt) = ob_allowedTakerEth (vo_order vo) \<and> ac_takerQrl (nt_access nt) = ob_allowedTakerQrl (vo_order vo)"
proof -
  note t = create_terms_Inr [OF c]
  have am: "CANONICAL_AMOUNT_RE (ob_fromAmount (vo_order vo))" "CANONICAL_AMOUNT_RE (ob_toAmount (vo_order vo))"
    using ok by (simp_all add: order_body_wf_def)
  have v: "nt_visibility nt = ob_visibility (vo_order vo)"
    using create_visibility_str [OF t(9)] by (simp add: order_body_obj_lookup)
  have "nt_direction nt = ob_direction (vo_order vo)" using t(2) by (simp add: requireDirection_def order_body_obj_lookup)
  moreover have "nt_asset nt = ob_asset (vo_order vo)" using t(3) by (simp add: requireAsset_def order_body_obj_lookup)
  moreover have "nt_fromAmount nt = ob_fromAmount (vo_order vo)" "nt_toAmount nt = ob_toAmount (vo_order vo)"
    using requireAmount_canonical [OF _ am(1)] requireAmount_canonical [OF _ am(2)] t(4,5) by (simp_all add: order_body_obj_lookup)
  moreover have "nt_makerEth nt = ob_makerEthAccount (vo_order vo)" "nt_makerQrl nt = ob_makerQrlAccount (vo_order vo)"
    using t(6,7) by (simp_all add: js_simps order_body_obj_lookup)
  ultimately show ?thesis
    using v t(13) create_access_signed [of en "vo_order vo" "True" fed caps "nt_access nt"] t(11) ok by simp
qed

lemma new_signed_row:
  assumes "create_terms en body ip verified fed caps src bk = Inr nt" "en_cr en = cr" "signed_input cr (en_now en) body verified"
  shows "signed_row cr (new_order en ip verified fed src nt)"
proof (cases verified)
  case (Some vo)
  with assms(3) have vo: "verified_order_ok cr vo" "body = order_body_obj (vo_order vo)" by (simp_all add: signed_input_def)
  then have "order_body_wf (vo_order vo)" by (simp add: verified_order_ok_def)
  with create_terms_signed [of en vo ip fed caps src bk nt] assms(1) Some vo show ?thesis
    by (auto simp: signed_row_def new_order_def Let_def signed_body_def intro!: exI [of _ vo])
qed (simp add: signed_row_def new_order_def Let_def)

interpretation signed: row_invariant cr "\<lambda>_. signed_row cr" for cr
  by unfold_locales
    (blast intro: new_signed_row, metis signed_row_frozen row_step_frozen, metis signed_row_frozen sweep_frozen)


section \<open>The signatures behind a terminal proof\<close>

lemma variant_id:
  assumes "variant_of cr now ord vo" "signed_row cr ord"
  shows "vo_orderId vo = o_id ord"
proof (cases "verifiedSignedOrder cr now ord = Inr vo")
  case True
  then obtain a where a: "o_makerAuth ord = Some a"
    and v: "verifyOrderV1 cr now True (JObj (order_body_obj (signed_body ord))) (maker_auth_json a) = Inr vo"
    by (auto simp: verifiedSignedOrder_def signedOrderBody_def js_simps split: option.splits)
  from a assms(2) obtain w where w: "verified_order_ok cr w" "vo_auth w = a" "vo_orderId w = o_id ord"
    "vo_order w = (signed_body ord)\<lparr>ob_prelock := ob_prelock (vo_order w)\<rparr>"
    by (auto simp: signed_row_def)
  have "ob_makerQrlAccount (vo_order w) = ob_makerQrlAccount (signed_body ord)" by (subst w(4)) simp
  moreover have "ob_makerQrlAccount (vo_order vo) = ob_makerQrlAccount (signed_body ord)" "vo_auth vo = a"
    using v w(1,2)
    by (auto simp: verifyOrderV1_def js_simps canonicalOrderBody_def allowedObject_JObj [OF order_body_obj_keys]
        order_body_obj_lookup parseMakerOrderAuth_roundtrip verified_order_ok_def)
  moreover have "verified_order_ok cr vo" using v by (rule verifyOrderV1_Inr)
  ultimately show ?thesis using w(1-3) by (simp add: verified_order_ok_def)
next
  case False
  with assms(1) show ?thesis by (simp add: variant_of_def)
qed

definition fill_authorised :: "crypto \<Rightarrow> order \<Rightarrow> bool" where
  "fill_authorised cr ord \<longleftrightarrow> (case o_fill ord of None \<Rightarrow> True
     | Some f \<Rightarrow> (\<exists>vo fa i ia. verified_order_ok cr vo \<and> vo_orderId vo = o_id ord \<and>
         fb_orderDigest f = vo_orderDigest vo \<and> fi_orderDigest i = vo_orderDigest vo \<and>
         o_fillAuth ord = Some fa \<and> o_fillDigest ord = Some (cr_digest cr (fill_payload f fa vo)) \<and>
         cr_verify cr (ob_makerQrlAccount (vo_order vo)) fa (fill_payload f fa vo) \<and>
         cr_verify cr (fb_takerQrlAccount f) ia (intent_payload i ia) \<and>
         fb_intentDigest f = cr_digest cr (intent_payload i ia) \<and>
         fi_takerQrlAccount i = fb_takerQrlAccount f \<and> fi_takerEthAccount i = fb_takerEthAccount f \<and>
         fill_windows_ok (vo_order vo) f fa))"

definition cancel_authorised :: "crypto \<Rightarrow> order \<Rightarrow> bool" where
  "cancel_authorised cr ord \<longleftrightarrow> (case o_cancelProof ord of None \<Rightarrow> True
     | Some c \<Rightarrow> (\<exists>vo ca. verified_order_ok cr vo \<and> vo_orderId vo = o_id ord \<and> cb_orderDigest c = vo_orderDigest vo \<and>
         o_cancelAuth ord = Some ca \<and> o_cancelDigest ord = Some (cr_digest cr (cancel_payload c ca vo)) \<and>
         cr_verify cr (ob_makerQrlAccount (vo_order vo)) ca (cancel_payload c ca vo)))"

lemma verifyCancelV1_Inr:
  assumes "verifyCancelV1 cr now ae raw rawAuth vo = Inr vc"
  shows "cb_orderDigest (vc_cancel vc) = vo_orderDigest vo"
    "cr_verify cr (ob_makerQrlAccount (vo_order vo)) (vc_auth vc) (cancel_payload (vc_cancel vc) (vc_auth vc) vo)"
    "vc_cancelDigest vc = cr_digest cr (cancel_payload (vc_cancel vc) (vc_auth vc) vo)"
  using assms by (auto simp: verifyCancelV1_def js_simps)

lemma fill_row_authorised:
  assumes "variant_of cr now ord vo" "signed_row cr ord" "verifyFillIntentV1 cr now True rawI rawIA vo = Inr vi"
    "verifyFillV1 cr now ae raw rawA vo vi = Inr vf"
  shows "fill_authorised cr (fill_row cr now vi vf ord)"
proof -
  have "verified_order_ok cr vo" using assms(1) by (simp add: variant_of_def)
  with variant_id [OF assms(1,2)] verifyFillV1_Inr [OF assms(4)] verifyFillIntentV1_Inr [OF assms(3)] show ?thesis
    unfolding fill_authorised_def fill_row_def Let_def
    by (simp add: exI [of _ vo] exI [of _ "vi_intent vi"] exI [of _ "vi_auth vi"])
qed

lemma cancel_row_authorised:
  assumes "variant_of cr now ord vo" "signed_row cr ord" "verifyCancelV1 cr now ae raw rawA vo = Inr vc"
  shows "cancel_authorised cr (cancel_row now vc ord)"
proof -
  have "verified_order_ok cr vo" using assms(1) by (simp add: variant_of_def)
  with variant_id [OF assms(1,2)] verifyCancelV1_Inr [OF assms(3)] show ?thesis
    unfolding cancel_authorised_def cancel_row_def by (simp add: exI [of _ vo])
qed

definition proof_fields :: "order \<Rightarrow> (fill_body option \<times> protocol_auth option \<times> string option) \<times>
    (cancel_body option \<times> protocol_auth option \<times> string option)" where
  "proof_fields ord = ((o_fill ord, o_fillAuth ord, o_fillDigest ord), (o_cancelProof ord, o_cancelAuth ord, o_cancelDigest ord))"

lemma release_proofs:
  assumes "release_fill cr now ord d rd s = Inr (Some (ord', ev)) \<or> release_intent cr now ord d rd s = Inr (Some (ord', ev))"
  shows "proof_fields ord' = proof_fields ord"
  using release_same [OF assms] by (elim disjE exE) (simp_all add: proof_fields_def released_row_def)

definition fill_step :: "crypto \<Rightarrow> int \<Rightarrow> order \<Rightarrow> order \<Rightarrow> bool" where
  "fill_step cr now ord ord' \<longleftrightarrow> terminal_free ord \<and> usesPortableTerminalProtocol ord \<and>
     (\<exists>vo vi vf raw rawA rawI rawIA ae. variant_of cr now ord vo \<and> verifyFillIntentV1 cr now True rawI rawIA vo = Inr vi \<and>
        verifyFillV1 cr now ae raw rawA vo vi = Inr vf \<and> ord' = fill_row cr now vi vf ord)"

definition cancel_step_of :: "crypto \<Rightarrow> int \<Rightarrow> order \<Rightarrow> order \<Rightarrow> bool" where
  "cancel_step_of cr now ord ord' \<longleftrightarrow> terminal_free ord \<and> usesPortableTerminalProtocol ord \<and>
     (\<exists>vo vc raw rawA ae. variant_of cr now ord vo \<and> verifyCancelV1 cr now ae raw rawA vo = Inr vc \<and>
        ord' = cancel_row now vc ord)"

lemma row_step_proofs:
  "row_step cr now ord ord' \<Longrightarrow>
     proof_fields ord' = proof_fields ord \<or> fill_step cr now ord ord' \<or> cancel_step_of cr now ord ord'"
proof (induction rule: row_step.induct)
  case (fill ord vo rawI rawIA vi ae raw rawA vf)
  then show ?case unfolding fill_step_def by blast
next
  case (cancel ord vo ae raw rawA vc)
  then show ?case unfolding cancel_step_of_def by blast
next
  case (dispute ord evidence ord')
  with dispute_same [OF dispute(2)] show ?case by (simp add: proof_fields_def)
next
  case (release_fill ord d rd s ord' ev)
  then show ?case using release_proofs by blast
next
  case (release_intent ord d rd s ord' ev)
  then show ?case using release_proofs by blast
qed (simp_all add: proof_fields_def row_defs)

lemma row_proof_fields [simp]:
  "snd (proof_fields (fill_row cr now vi vf ord)) = snd (proof_fields ord)"
  "fst (proof_fields (cancel_row now vc ord)) = fst (proof_fields ord)"
  by (simp_all add: proof_fields_def fill_row_def cancel_row_def Let_def)

lemma authorised_cong:
  "fst (proof_fields a) = fst (proof_fields b) \<Longrightarrow> o_id a = o_id b \<Longrightarrow> fill_authorised cr a = fill_authorised cr b"
  "snd (proof_fields a) = snd (proof_fields b) \<Longrightarrow> o_id a = o_id b \<Longrightarrow> cancel_authorised cr a = cancel_authorised cr b"
  by (simp_all add: proof_fields_def fill_authorised_def cancel_authorised_def cong: option.case_cong)

definition authorised_row :: "crypto \<Rightarrow> order \<Rightarrow> bool" where
  "authorised_row cr ord \<longleftrightarrow> signed_row cr ord \<and> fill_authorised cr ord \<and> cancel_authorised cr ord"

lemma row_step_authorised:
  assumes "row_step cr now ord ord'" "authorised_row cr ord"
  shows "authorised_row cr ord'"
proof -
  have s: "signed_row cr ord" "fill_authorised cr ord" "cancel_authorised cr ord" using assms(2) by (simp_all add: authorised_row_def)
  have "signed_row cr ord'" using s(1) signed_row_frozen row_step_frozen [OF assms(1)] by blast
  moreover have "fill_authorised cr ord' \<and> cancel_authorised cr ord'"
    using row_step_proofs [OF assms(1)]
  proof (elim disjE)
    assume "proof_fields ord' = proof_fields ord"
    with s row_step_id [OF assms(1)] show ?thesis using authorised_cong [of ord' ord] by simp
  next
    assume "fill_step cr now ord ord'"
    then obtain vo vi vf raw rawA rawI rawIA ae where "variant_of cr now ord vo" "verifyFillIntentV1 cr now True rawI rawIA vo = Inr vi"
      "verifyFillV1 cr now ae raw rawA vo vi = Inr vf" "ord' = fill_row cr now vi vf ord" unfolding fill_step_def by blast
    with s fill_row_authorised [of cr now ord vo] authorised_cong(2) [of ord' ord cr] show ?thesis by simp
  next
    assume "cancel_step_of cr now ord ord'"
    then obtain vo vc raw rawA ae where "variant_of cr now ord vo" "verifyCancelV1 cr now ae raw rawA vo = Inr vc"
      "ord' = cancel_row now vc ord" unfolding cancel_step_of_def by blast
    with s cancel_row_authorised [of cr now ord vo] authorised_cong(1) [of ord' ord cr] show ?thesis by simp
  qed
  ultimately show ?thesis by (simp add: authorised_row_def)
qed

lemma sweep_authorised:
  assumes "authorised_row cr ord" "sweep_order now ord = Some ord'"
  shows "authorised_row cr ord'"
proof -
  from assms(2) have "proof_fields ord' = proof_fields ord"
    by (rule sweep_cases) (simp_all add: proof_fields_def retain_intents_def)
  with assms(1) show ?thesis
    using authorised_cong [of ord' ord cr] sweep_order_id [OF assms(2)] signed_row_frozen [OF sweep_frozen [OF assms(2)]]
    by (simp add: authorised_row_def)
qed

lemma new_authorised:
  assumes "create_terms en body ip verified fed caps src bk = Inr nt" "en_cr en = cr" "signed_input cr (en_now en) body verified"
  shows "authorised_row cr (new_order en ip verified fed src nt)"
  using new_signed_row [OF assms] by (simp add: authorised_row_def fill_authorised_def cancel_authorised_def new_order_fields)

interpretation authorised: row_invariant cr "\<lambda>_. authorised_row cr" for cr
  by unfold_locales (blast intro: new_authorised row_step_authorised sweep_authorised)+

text \<open>
  C4: a swap the book shows as filled was agreed by both parties. In every reachable book a row
  that holds a fill is locking with exactly the hashlock, timeouts and taker accounts of that
  fill; a maker of an order with the row's id signed the fill, the taker signed an intent for the
  same order and accounts, the fill answers that intent, and the responder timeout lies more than
  ten minutes before the initiator timeout.
\<close>

theorem fill_agreed_by_both:
  assumes "reachable cr now bk" "find_order bk oid = Some ord" "o_fill ord = Some f"
  shows "projects f ord \<and> o_id ord = oid \<and> fb_responderTimeout f + 600 < fb_initiatorTimeout f \<and>
    (\<exists>vo fa i ia. verified_order_ok cr vo \<and> vo_orderId vo = oid \<and> o_fillAuth ord = Some fa \<and>
       cr_verify cr (ob_makerQrlAccount (vo_order vo)) fa (fill_payload f fa vo) \<and>
       cr_verify cr (fb_takerQrlAccount f) ia (intent_payload i ia) \<and>
       fi_orderDigest i = vo_orderDigest vo \<and> fb_orderDigest f = vo_orderDigest vo \<and>
       fi_takerQrlAccount i = fb_takerQrlAccount f \<and> fi_takerEthAccount i = fb_takerEthAccount f \<and>
       fb_intentDigest f = cr_digest cr (intent_payload i ia))"
proof -
  have "o_id ord = oid"
    using reachable_wf [OF assms(1)] assms(2) by (auto simp: book_wf_def find_order_def dest!: map_of_SomeD)
  moreover have "projects f ord" using terminal.row_holds [OF assms(1,2)] assms(3) by (simp add: terminal_ok_def)
  moreover have "fb_responderTimeout f + 600 < fb_initiatorTimeout f"
    using status.row_holds [OF assms(1,2)] \<open>projects f ord\<close> by (auto simp: status_ok_def projects_def)
  ultimately show ?thesis
    using authorised.row_holds [OF assms(1,2)] assms(3) by (auto simp: authorised_row_def fill_authorised_def)
qed

theorem fill_agreed_by_both_witness:
  "projects demo_fill (fill_row demo_cr 1050 demo_vi demo_vf demo_row)
     \<and> (\<exists>vo fa. vo_orderId vo = hexes 64 \<and> cr_verify demo_cr (ob_makerQrlAccount (vo_order vo)) fa (fill_payload demo_fill fa vo))"
proof -
  have "find_order demo_filled (hexes 64) = Some (fill_row demo_cr 1050 demo_vi demo_vf demo_row)"
    by (simp add: find_order_def demo_filled_orders)
  moreover have "o_fill (fill_row demo_cr 1050 demo_vi demo_vf demo_row) = Some demo_fill"
    by (simp add: fill_row_def Let_def demo_vf_def)
  ultimately show ?thesis using fill_agreed_by_both [OF demo_reachable(2)] by blast
qed

end
