(* ===== verification/Book_Safety.thy ===== *)
theory Book_Safety
  imports Book_Authority
begin

text \<open>
  Safety of whole runs: a recorded fill or cancellation is final until its retention ends, a
  row's terms never change, the retained state stays within the configured capacities, and a
  refused request leaves nothing behind but the expiry sweep.
\<close>

section \<open>Rows across one step\<close>

text \<open>A row present after a step was there before and took at most one change, or is new.\<close>

lemma map_of_swept:
  "omap_wf rs \<Longrightarrow> map_of (swept_rows now rs) k = Option.bind (map_of rs k) (sweep_order now)"
proof (induction rs)
  case (Cons r rs)
  obtain i ord where r: "r = (i, ord)" by force
  have "swept_rows now (r # rs) = (case sweep_order now ord of None \<Rightarrow> [] | Some ord' \<Rightarrow> [(i, ord')]) @ swept_rows now rs"
    by (simp add: swept_rows_def r)
  moreover have "map_of (swept_rows now rs) i = None"
    using Cons.prems r swept_keys [of now rs] by (auto simp: map_of_eq_None_iff)
  ultimately show ?case using Cons r by (auto split: option.splits)
qed (simp add: swept_rows_def)

definition row_kept :: "crypto \<Rightarrow> int \<Rightarrow> order \<Rightarrow> order \<Rightarrow> bool" where
  "row_kept cr now ord ord' \<longleftrightarrow> (\<exists>mid. (mid = ord \<or> sweep_order now ord = Some mid) \<and> (ord' = mid \<or> row_step cr now mid ord'))"

lemma step_row_kept:
  assumes "book_step cr now bk bk'" "book_wf bk" "find_order bk k = Some ord" "sweep_order now ord \<noteq> None"
  shows "\<exists>ord'. find_order bk' k = Some ord' \<and> row_kept cr now ord ord'"
  using assms(1)
proof (cases rule: book_step.cases)
  case idle
  with assms(3) show ?thesis by (auto simp: find_order_def row_kept_def)
next
  case evolve
  obtain mid where m: "sweep_order now ord = Some mid" using assms(4) by blast
  let ?rs = "swept_rows now (bk_orders bk)"
  have k: "map_of ?rs k = Some mid"
    using map_of_swept assms(2,3) m by (simp add: book_wf_def find_order_def)
  from evolve show ?thesis
  proof (cases rule: orders_evolve.cases)
    case same
    with k m show ?thesis by (auto simp: find_order_def row_kept_def)
  next
    case (change oid o1 o1')
    have "o_id o1 = oid" "o_id mid = k"
      using sweep_book_wf [OF assms(2), of now] change(2) k
      by (auto simp: book_wf_def bk_orders_sweep dest!: map_of_SomeD)
    with change k m show ?thesis
      by (cases "k = oid") (auto simp: find_order_def row_kept_def map_of_omap_update)
  next
    case (add o1 en ip v fed src nt body caps b)
    have "map_of ?rs (o_id o1) = None"
      using create_terms_Inr(14) [OF add(5)] add(1,2,6) by (simp add: find_order_def)
    with add k m show ?thesis by (cases "k = o_id o1") (auto simp: find_order_def row_kept_def map_of_omap_update)
  qed
qed

lemma row_kept_frozen: "row_kept cr now ord ord' \<Longrightarrow> frozen ord' = frozen ord"
  by (auto simp: row_kept_def) (metis sweep_frozen row_step_frozen)+

lemma row_kept_terminal: "row_kept cr now ord ord' \<Longrightarrow> terminal_ok ord \<Longrightarrow> terminal_ok ord'"
  by (auto simp: row_kept_def intro: sweep_terminal row_step_terminal)

lemma sweep_proofs: "sweep_order now ord = Some ord' \<Longrightarrow> proof_fields ord' = proof_fields ord"
  by (erule sweep_cases) (simp_all add: proof_fields_def retain_intents_def)

lemma terminal_free_fields: "proof_fields a = proof_fields b \<Longrightarrow> terminal_free a = terminal_free b"
  by (simp add: proof_fields_def terminal_free_def)

lemma row_kept_proofs:
  assumes "row_kept cr now ord ord'" "\<not> terminal_free ord"
  shows "proof_fields ord' = proof_fields ord"
proof -
  obtain mid where m: "mid = ord \<or> sweep_order now ord = Some mid" "ord' = mid \<or> row_step cr now mid ord'"
    using assms(1) by (auto simp: row_kept_def)
  then have p: "proof_fields mid = proof_fields ord" using sweep_proofs by blast
  with assms(2) have "\<not> terminal_free mid" using terminal_free_fields by blast
  with m(2) p row_step_proofs [of cr now mid ord'] show ?thesis by (auto simp: fill_step_def cancel_step_of_def)
qed


section \<open>Terminal proofs are final\<close>

text \<open>Until when the sweep keeps a row that carries a terminal proof.\<close>

definition retained_until :: "order \<Rightarrow> int \<Rightarrow> bool" where
  "retained_until ord t \<longleftrightarrow>
     (case o_fill ord of Some f \<Rightarrow> t \<le> fb_initiatorTimeout f + LOCKING_LINGER_S
      | None \<Rightarrow> (case o_makerAuth ord of None \<Rightarrow> False | Some a \<Rightarrow> t \<le> pa_expiresAt a + SIGNED_TERMINAL_GRACE_S))"

lemma terminal_retained:
  assumes "terminal_ok ord" "\<not> terminal_free ord" "retained_until ord now"
  shows "sweep_order now ord \<noteq> None"
proof (cases "o_fill ord")
  case (Some f)
  with assms show ?thesis
    by (auto simp: sweep_order_def sweep_removes_def Let_def terminal_ok_def projects_def retained_until_def)
next
  case None
  with assms(1,2) obtain c where c: "o_cancelProof ord = Some c" "o_status ord = Cancelled"
    by (auto simp: terminal_ok_def terminal_free_def split: option.splits)
  with None assms(3) show ?thesis
    by (auto simp: sweep_order_def sweep_removes_def Let_def retained_until_def split: option.splits)
qed

lemma run_keeps_terminal:
  assumes "book_wf bk" "find_order bk k = Some ord" "terminal_ok ord" "\<not> terminal_free ord"
    and "\<And>op. op \<in> set ops \<Longrightarrow> retained_until ord (op_now op)"
  shows "\<exists>ord'. find_order (run_ops ops bk) k = Some ord' \<and> proof_fields ord' = proof_fields ord \<and> terminal_ok ord' \<and>
    frozen ord' = frozen ord"
  using assms
proof (induction ops arbitrary: bk ord)
  case Nil
  then show ?case by simp
next
  case (Cons op ops)
  let ?cr = "en_cr (op_env op)"
  have st: "book_step ?cr (op_now op) bk (exec_op op bk)" using Cons.prems(1) by (rule exec_op_step)
  have "sweep_order (op_now op) ord \<noteq> None" using terminal_retained Cons.prems(3-5) by simp
  from step_row_kept [OF st Cons.prems(1,2) this] obtain o1 where
    o1: "find_order (exec_op op bk) k = Some o1" "row_kept ?cr (op_now op) ord o1" by blast
  have p: "proof_fields o1 = proof_fields ord" using row_kept_proofs [OF o1(2) Cons.prems(4)] .
  have f: "frozen o1 = frozen ord" using row_kept_frozen [OF o1(2)] .
  have "retained_until o1 t = retained_until ord t" for t
    using p frozen_fields(11) [OF f] by (simp add: retained_until_def proof_fields_def cong: option.case_cong)
  moreover have "\<not> terminal_free o1" using p Cons.prems(4) terminal_free_fields by blast
  ultimately obtain ord' where "find_order (run_ops ops (exec_op op bk)) k = Some ord'" "proof_fields ord' = proof_fields o1"
    "terminal_ok ord'" "frozen ord' = frozen o1"
    using Cons.IH [OF book_step_wf [OF st Cons.prems(1)] o1(1) row_kept_terminal [OF o1(2) Cons.prems(3)]] Cons.prems(5) by auto
  with p f show ?case by auto
qed

text \<open>
  C7: a recorded fill is final. Whatever requests and peer events follow, in any order, until a
  day after the initiator timeout of the fill: the row is still there, locking, with the same
  fill and digest, the hashlock, timeouts and takers the fill names, and the same order terms.
\<close>

theorem fill_is_final:
  assumes "reachable cr now bk" "find_order bk oid = Some ord" "o_fill ord = Some f"
    and "\<And>op. op \<in> set ops \<Longrightarrow> op_now op \<le> fb_initiatorTimeout f + LOCKING_LINGER_S"
  shows "\<exists>ord'. find_order (run_ops ops bk) oid = Some ord' \<and> o_fill ord' = Some f \<and> projects f ord' \<and>
    o_fillDigest ord' = o_fillDigest ord \<and> o_cancelProof ord' = None \<and> frozen ord' = frozen ord"
proof -
  have t: "terminal_ok ord" using terminal.row_holds [OF assms(1,2)] .
  have "\<not> terminal_free ord" using t assms(3) by (auto simp: terminal_ok_def terminal_free_def)
  moreover have "retained_until ord (op_now op)" if "op \<in> set ops" for op
    using assms(3,4) that by (simp add: retained_until_def)
  ultimately obtain ord' where "find_order (run_ops ops bk) oid = Some ord'" "proof_fields ord' = proof_fields ord"
    "terminal_ok ord'" "frozen ord' = frozen ord"
    using run_keeps_terminal [OF reachable_wf [OF assms(1)] assms(2) t] by blast
  with assms(3) show ?thesis by (auto simp: proof_fields_def terminal_ok_def)
qed

theorem fill_is_final_witness:
  "\<exists>ord'. find_order (run_ops [Request (demo_env 80000) \<lparr>rq_method = ''GET'', rq_path = ''/api/orders'', rq_ip = '''',
       rq_makerHeader = None, rq_shareHeader = None, rq_body = Inr [], rq_slot = Inr ()\<rparr>] demo_filled) (hexes 64) = Some ord'
     \<and> o_fill ord' = Some demo_fill"
proof -
  have "find_order demo_filled (hexes 64) = Some (fill_row demo_cr 1050 demo_vi demo_vf demo_row)"
    by (simp add: find_order_def demo_filled_orders)
  moreover have "o_fill (fill_row demo_cr 1050 demo_vi demo_vf demo_row) = Some demo_fill"
    by (simp add: fill_row_def Let_def demo_vf_def)
  moreover have "en_now (demo_env 80000) \<le> fb_initiatorTimeout demo_fill + LOCKING_LINGER_S"
    by (simp add: demo_env_def demo_fill_def LOCKING_LINGER_S_def)
  ultimately show ?thesis
    using fill_is_final [OF demo_reachable(2), of "hexes 64" "fill_row demo_cr 1050 demo_vi demo_vf demo_row" demo_fill
      "[Request (demo_env 80000) \<lparr>rq_method = ''GET'', rq_path = ''/api/orders'', rq_ip = '''',
       rq_makerHeader = None, rq_shareHeader = None, rq_body = Inr [], rq_slot = Inr ()\<rparr>]"]
    by auto
qed


section \<open>Capacities\<close>

text \<open>
  A capacity of the book: a property of the unchanging part of a row whose count every admission
  checks against a limit. No run ever exceeds the limit.
\<close>

locale row_capacity =
  fixes cr :: crypto
    and P :: "order \<Rightarrow> bool"
    and cap :: nat
  assumes P_frozen: "frozen a = frozen b \<Longrightarrow> P a = P b"
    and P_admit: "create_terms en body ip verified fed caps src bk = Inr nt \<Longrightarrow> en_cr en = cr \<Longrightarrow> (fed \<Longrightarrow> verified \<noteq> None) \<Longrightarrow>
      P (new_order en ip verified fed src nt) \<Longrightarrow> count_where P (orders_of bk) < cap"
begin

lemma swept_count: "length (filter P (map snd (swept_rows now rs))) \<le> length (filter P (map snd rs))"
proof (induction rs)
  case (Cons r rs)
  obtain k ord where r: "r = (k, ord)" by force
  have "swept_rows now (r # rs) = (case sweep_order now ord of None \<Rightarrow> [] | Some ord' \<Rightarrow> [(k, ord')]) @ swept_rows now rs"
    by (simp add: swept_rows_def r)
  moreover have "P ord' = P ord" if "sweep_order now ord = Some ord'" for ord'
    using that by (intro P_frozen sweep_frozen)
  ultimately show ?case using Cons r by (auto split: option.splits)
qed (simp add: swept_rows_def)

lemma update_same_count:
  assumes "omap_wf rs" "map_of rs k = Some ord" "P ord' = P ord"
  shows "length (filter P (map snd (AList.update k ord' rs))) = length (filter P (map snd rs))"
  using omap_update_present [OF assms(1,2), of P ord'] assms(3) by simp

lemma step_count:
  assumes "book_step cr now bk bk'" "book_wf bk" "length (filter P (map snd (bk_orders bk))) \<le> cap"
  shows "length (filter P (map snd (bk_orders bk'))) \<le> cap"
  using assms(1)
proof (cases rule: book_step.cases)
  case idle
  with assms show ?thesis by simp
next
  case evolve
  let ?rs = "swept_rows now (bk_orders bk)"
  have wf: "omap_wf ?rs" "\<forall>(k, ord)\<in>set ?rs. k = o_id ord"
    using sweep_book_wf [OF assms(2), of now] by (simp_all add: book_wf_def bk_orders_sweep)
  have le: "length (filter P (map snd ?rs)) \<le> cap" using swept_count assms(3) order_trans by blast
  from evolve show ?thesis
  proof (cases rule: orders_evolve.cases)
    case same
    with le show ?thesis by simp
  next
    case (change oid ord ord')
    from wf(2) change(2) have "oid = o_id ord" by (auto dest!: map_of_SomeD)
    with change(2) have "map_of ?rs (o_id ord) = Some ord" by simp
    from update_same_count [OF wf(1) this P_frozen [OF row_step_frozen [OF change(3)]]] le change show ?thesis by simp
  next
    case (add ord en ip v fed src nt body caps b)
    have "map_of ?rs (o_id ord) = None" using create_terms_Inr(14) [OF add(5)] add(1,2,6) by (simp add: find_order_def)
    then have u: "bk_orders bk' = ?rs @ [(o_id ord, ord)]" using add(1) by (simp add: omap_update_absent)
    have "P ord \<Longrightarrow> length (filter P (map snd ?rs)) < cap"
      using P_admit [OF add(5)] add by (auto simp: count_where_def orders_of_def)
    with u le show ?thesis by auto
  qed
qed

lemma reachable_count: "reachable cr now bk \<Longrightarrow> count_where P (orders_of bk) \<le> cap"
proof (induction rule: reachable.induct)
  case (start bk now)
  then show ?case by (simp add: count_where_def orders_of_def)
next
  case (step now bk op)
  then show ?case
    using step_count [OF reachable_book_step [OF step(1,2)] reachable_wf [OF step(1)]]
    by (simp add: count_where_def orders_of_def)
qed

end

lemma some_absorb: "(\<exists>y. v = Some y) \<and> v = Some h \<longleftrightarrow> v = Some h"
  by blast

lemma create_capacity:
  assumes "create_terms en body ip verified fed caps src bk = Inr nt"
  shows "length (orders_of bk) < MAX_RETAINED_ORDERS"
    "count_where (same_maker (nt_makerEth nt) (nt_makerQrl nt)) (orders_of bk) < MAX_RETAINED_ORDERS_PER_MAKER"
    "verified \<noteq> None \<Longrightarrow> nt_visibility nt = Public \<Longrightarrow> count_where public_portable (orders_of bk) < MAX_PUBLIC_PORTABLE_ORDERS"
    "verified \<noteq> None \<Longrightarrow> nt_visibility nt = Public \<Longrightarrow> fed \<Longrightarrow>
       count_where (\<lambda>r. public_portable r \<and> o_federationSourceHash r \<noteq> None) (orders_of bk) < MAX_FEDERATED_PUBLIC_PORTABLE_ORDERS"
    "verified \<noteq> None \<Longrightarrow> nt_visibility nt = Public \<Longrightarrow> fed \<Longrightarrow>
       count_where (\<lambda>r. public_portable r \<and> o_federationSourceHash r = Some (federation_hash (en_cr en) src)) (orders_of bk)
         < MAX_PUBLIC_PORTABLE_ORDERS_PER_FEDERATION_PEER"
  using create_terms_Inr(1,8,10) [OF assms]
  by (auto simp: create_totals_def create_limits_def portable_limits_def js_simps Let_def count_where_def filter_filter some_absorb
      split: if_splits)

lemma new_order_frozen_fields:
  "o_makerEthAccount (new_order en ip v fed src nt) = nt_makerEth nt"
  "o_makerQrlAccount (new_order en ip v fed src nt) = nt_makerQrl nt"
  "o_federationSourceHash (new_order en ip v fed src nt) = (if fed then Some (federation_hash (en_cr en) src) else None)"
  "public_portable (new_order en ip v fed src nt) \<longleftrightarrow> nt_visibility nt = Public \<and> v \<noteq> None"
  by (auto simp: new_order_def Let_def public_portable_def usesPortableTerminalProtocol_def)

interpretation cap_all: row_capacity cr "\<lambda>_. True" MAX_RETAINED_ORDERS for cr
  by unfold_locales (auto simp: count_where_def dest: create_capacity(1))

interpretation cap_maker: row_capacity cr "same_maker eth qrl" MAX_RETAINED_ORDERS_PER_MAKER for cr eth qrl
proof (unfold_locales, goal_cases)
  case (1 a b)
  then show ?case using frozen_fields(6,7) [OF 1] by (simp add: same_maker_def)
next
  case (2 en body ip verified fed caps src bk nt)
  then have "same_maker eth qrl = same_maker (nt_makerEth nt) (nt_makerQrl nt)"
    by (auto simp: same_maker_def new_order_frozen_fields fun_eq_iff)
  with create_capacity(2) [OF 2(1)] show ?case by simp
qed

interpretation cap_portable: row_capacity cr public_portable MAX_PUBLIC_PORTABLE_ORDERS for cr
  by unfold_locales (auto simp: new_order_frozen_fields dest: frozen_fields(17) intro: create_capacity(3))

interpretation cap_federated: row_capacity cr "\<lambda>r. public_portable r \<and> o_federationSourceHash r \<noteq> None"
    MAX_FEDERATED_PUBLIC_PORTABLE_ORDERS for cr
proof (unfold_locales, goal_cases)
  case (1 a b)
  then show ?case using frozen_fields(14,17) [OF 1] by simp
next
  case (2 en body ip verified fed caps src bk nt)
  then show ?case by (intro create_capacity(4) [OF 2(1)]) (auto simp: new_order_frozen_fields split: if_splits)
qed

interpretation cap_peer: row_capacity cr "\<lambda>r. public_portable r \<and> o_federationSourceHash r = Some h"
    MAX_PUBLIC_PORTABLE_ORDERS_PER_FEDERATION_PEER for cr h
proof (unfold_locales, goal_cases)
  case (1 a b)
  then show ?case using frozen_fields(14,17) [OF 1] by simp
next
  case (2 en body ip verified fed caps src bk nt)
  then have "h = federation_hash (en_cr en) src" "fed" "verified \<noteq> None" "nt_visibility nt = Public"
    by (auto simp: new_order_frozen_fields split: if_splits)
  with create_capacity(5) [OF 2(1)] show ?case by simp
qed

text \<open>
  C36: the retained state is bounded. In every reachable book the rows, the rows of one maker, the
  public portable rows, those imported from peers and those from any one peer stay within the
  configured capacities, and every row keeps at most eight fill intents with distinct digests,
  each signed by its taker, and at most two retained proofs of each kind of conflict.
\<close>

theorem retained_state_bounded:
  assumes "reachable cr now bk"
  shows "length (orders_of bk) \<le> 256 \<and> count_where (same_maker eth qrl) (orders_of bk) \<le> 64 \<and>
    count_where public_portable (orders_of bk) \<le> 64 \<and>
    count_where (\<lambda>r. public_portable r \<and> o_federationSourceHash r \<noteq> None) (orders_of bk) \<le> 48 \<and>
    count_where (\<lambda>r. public_portable r \<and> o_federationSourceHash r = Some h) (orders_of bk) \<le> 16 \<and>
    (\<forall>ord\<in>set (orders_of bk). length (intents_of ord) \<le> 8 \<and> distinct (map si_intentDigest (intents_of ord)) \<and>
       list_all (intent_signed cr) (intents_of ord) \<and> length (o_conflicts ord) \<le> 2 \<and> length (o_orderConflicts ord) \<le> 2)"
  using cap_all.reachable_count [OF assms] cap_maker.reachable_count [OF assms, of eth qrl] cap_portable.reachable_count [OF assms]
    cap_federated.reachable_count [OF assms] cap_peer.reachable_count [OF assms, of h]
    intents.every_row [OF assms] evidence.every_row [OF assms]
  by (auto simp: count_where_def MAX_RETAINED_ORDERS_def MAX_RETAINED_ORDERS_PER_MAKER_def MAX_PUBLIC_PORTABLE_ORDERS_def
      MAX_FEDERATED_PUBLIC_PORTABLE_ORDERS_def MAX_PUBLIC_PORTABLE_ORDERS_PER_FEDERATION_PEER_def intents_ok_def evidence_ok_def
      MAX_FILL_INTENTS_PER_ORDER_def MAX_CONFLICT_PROOFS_def list_all_iff)

theorem retained_state_bounded_witness:
  "length (orders_of demo_filled) \<le> 256 \<and> list_all (intent_signed demo_cr) (intents_of (fill_row demo_cr 1050 demo_vi demo_vf demo_row))"
  using retained_state_bounded [OF demo_reachable(2)] by (simp add: orders_of_def demo_filled_orders)

end
