(* ===== verification/Book_Privacy.thy ===== *)
theory Book_Privacy
  imports Book_Errors Book_Safety
begin

text \<open>
  What the book gives away. The public view of a row does not depend on any credential, address
  hash, intent or secret the row stores; a private row without its share token answers like a
  missing one and is never listed; and every event queued for the peers is about a public order.
\<close>

section \<open>The public view\<close>

text \<open>
  The public view hides every secret of a row. Replacing the stored token hashes, the hashes of
  client addresses and of the peer a row came from, the acceptance time, the pending intents and
  the revealed release secret by anything else leaves the view that clients are sent unchanged.
\<close>

lemma public_view_hides_secrets:
  "pub now bk (ord\<lparr>o_makerTokenHash := a, o_takerTokenHash := b, o_acceptorIpHash := c, o_creatorIpHash := d,
      o_federationSourceHash := e, o_shareTokenHash := f, o_acceptedAt := g, o_releaseSecret := h,
      o_fillIntents := map_option (\<lambda>_. intents) (o_fillIntents ord),
      o_releasedAt := map_option (\<lambda>_. t) (o_releasedAt ord)\<rparr>) = pub now bk ord"
  by (simp add: pub_def redact_def isSeen_def usesPortableTerminalProtocol_def)


section \<open>Events for the peers\<close>

definition public_event :: "book \<Rightarrow> fed_event \<Rightarrow> bool" where
  "public_event bk ev \<longleftrightarrow>
     (if fe_kind ev = EvOrder then (\<exists>b. map_of (fe_payload ev) ''order'' = Some (JObj (order_body_obj b)) \<and> ob_visibility b = Public)
      else (\<exists>oid ord. map_of (fe_payload ev) ''orderId'' = Some (JStr oid) \<and> find_order bk oid = Some ord \<and> o_visibility ord = Public))"

definition queues_public :: "book \<Rightarrow> 'a answer \<Rightarrow> bool" where
  "queues_public bk r \<longleftrightarrow> bk_pendingEvents (snd r) = bk_pendingEvents bk \<or>
     (\<exists>ev. bk_pendingEvents (snd r) = bk_pendingEvents bk @ [ev] \<and> public_event (snd r) ev)"

lemma queues_none [simp]: "bk_pendingEvents b = bk_pendingEvents bk \<Longrightarrow> queues_public bk (a, b)"
  by (simp add: queues_public_def)

lemma queues_guard:
  "bk_pendingEvents b = bk_pendingEvents bk \<Longrightarrow> (\<And>a. r = Inr a \<Longrightarrow> queues_public bk (k a)) \<Longrightarrow> queues_public bk (guard_op b r k)"
  by (auto simp: guard_op_def split: sum.splits)

lemma queues_if: "queues_public bk r \<Longrightarrow> queues_public bk s \<Longrightarrow> queues_public bk (if P then r else s)"
  by simp

lemma queues_same: "queues_public bk r \<Longrightarrow> snd r' = snd r \<Longrightarrow> queues_public bk r'"
  by (simp add: queues_public_def)

lemma queues_mapped: "queues_public bk r \<Longrightarrow> queues_public bk (map_answer f r)"
  by (rule queues_same) simp_all

lemma queues_forget: "queues_public bk r \<Longrightarrow> queues_public bk (forget r)"
  by (rule queues_same) simp_all

definition about :: "fed_event \<Rightarrow> order \<Rightarrow> bool" where
  "about ev ord \<longleftrightarrow> fe_kind ev \<noteq> EvOrder \<and> map_of (fe_payload ev) ''orderId'' = Some (JStr (o_id ord))"

lemma event_about [simp]:
  "about (fill_event ord f fa i ia) ord" "about (cancel_event ord c ca) ord" "about (release_event ord k d s) ord"
  "about (intent_event ord i ia) ord"
  by (simp_all add: about_def fill_event_def cancel_event_def release_event_def intent_event_def)

lemma put_find: "find_order (put_order ord b) (o_id ord) = Some ord"
  by (simp add: find_order_def put_order_def map_of_omap_update)

lemma queues_commit:
  assumes "bk_pendingEvents b = bk_pendingEvents bk" "about ev ord"
  shows "queues_public bk (commit_terminal t ev ord b)"
  using assms put_find [of ord b]
  by (simp add: commit_terminal_def Let_def queues_public_def public_event_def about_def publish_def find_order_def persist_def put_order_def)

lemma about_id: "about ev ord \<Longrightarrow> o_id ord' = o_id ord \<Longrightarrow> about ev ord'"
  by (simp add: about_def)

lemma queues_conflict:
  assumes "bk_pendingEvents b = bk_pendingEvents bk" "about ev ord"
  shows "queues_public bk (record_conflict t ev c ord b)"
  unfolding record_conflict_def
  using assms queues_commit about_id release_row_id(3) by (fastforce split: option.split)

lemma pending_record [simp]: "bk_pendingEvents (recordIntentAdmission ip t b) = bk_pendingEvents b"
proof -
  have "bk_pendingEvents (pruneIntentAdmissions now b') = bk_pendingEvents b'" for now b'
    by (simp add: pruneIntentAdmissions_def fold_recent_pending)
  then show ?thesis by (simp add: recordIntentAdmission_def Let_def split: option.split)
qed

lemma pending_put [simp]: "bk_pendingEvents (put_order ord b) = bk_pendingEvents b" "bk_pendingEvents (set_seen i t b) = bk_pendingEvents b"
  by (simp_all add: put_order_def set_seen_def)

lemma queues_admit:
  assumes "bk_pendingEvents b = bk_pendingEvents bk"
  shows "queues_public bk (admit_intent t ord vi ip fed kept b)"
proof -
  have "find_order (persist (if fed then put_order o1 b else recordIntentAdmission ip t (put_order o1 b))) (o_id o1) = Some o1" for o1
    using put_find [of o1 b] by (simp add: find_order_def)
  from this [of "ord\<lparr>o_fillIntents := Some (kept @ [new_intent vi t ip]), o_updatedAt := t\<rparr>"] assms show ?thesis
    by (auto simp: admit_intent_def Let_def queues_public_def public_event_def intent_event_def publish_def find_order_def)
qed

lemma queues_commitTake: "bk_pendingEvents b = bk_pendingEvents bk \<Longrightarrow> queues_public bk (commitTake en ord body ip b)"
  unfolding commitTake_def Let_def by (rule queues_guard) (auto split: prod.split)

lemma queues_update_row: "bk_pendingEvents b = bk_pendingEvents bk \<Longrightarrow> queues_public bk (update_row t ord b)"
  by (simp add: update_row_def Let_def)

lemma queues_createInternal:
  assumes "signed_input (en_cr en) (en_now en) body v" "bk_pendingEvents b = bk_pendingEvents bk"
  shows "queues_public bk (createInternal en body ip v fed caps src b)"
proof -
  let ?b = "sweep (en_now en) b"
  have "queues_public bk (insert_new en ip v fed caps src nt ?b)" if t: "create_terms en body ip v fed caps src ?b = Inr nt" for nt
  proof (cases v)
    case None
    with assms(2) show ?thesis by (simp add: insert_new_def Let_def)
  next
    case (Some vo)
    with assms(1) have vo: "order_body_wf (vo_order vo)" "body = order_body_obj (vo_order vo)"
      by (simp_all add: signed_input_def verified_order_ok_def)
    with t Some have "nt_visibility nt = ob_visibility (vo_order vo)" using create_terms_signed [of en vo] by simp
    with Some assms(2) show ?thesis
      by (auto simp: insert_new_def Let_def queues_public_def publish_def public_event_def order_event_def)
  qed
  moreover have "queues_public bk (create_replay en vo fed caps ord ?b)" for vo ord
    unfolding create_replay_def Let_def using assms(2) by (auto split: option.split)
  ultimately show ?thesis
    unfolding createInternal_def Let_def using assms(2) by (auto intro!: queues_guard split: option.split)
qed

lemma queues_create: "queues_public bk (create_order en body ip bk)" "queues_public bk (signed_create en body ip bk)"
proof -
  show "queues_public bk (create_order en body ip bk)"
    unfolding create_order_def by (intro queues_guard queues_createInternal) (simp_all add: signed_input_def)
  have "queues_public bk (createVerified en vo m s ip bk)"
    if "verifyOrderV1 (en_cr en) (en_now en) False ro ra = Inr vo" for vo m s ro ra
    unfolding createVerified_def using verifyOrderV1_Inr(1,2) [OF that]
    by (intro queues_guard queues_createInternal) (simp_all add: signed_input_def)
  then show "queues_public bk (signed_create en body ip bk)"
    unfolding signed_create_def by (intro queues_guard) (auto simp: js_simps)
qed

lemma queues_reads: "queues_public bk (listOpen en bk)" "queues_public bk (get_order en oid t bk)"
  "queues_public bk (listFillIntents en oid t bk)" "queues_public bk (heartbeat en oid t bk)"
  unfolding listOpen_def get_order_def listFillIntents_def heartbeat_def Let_def
  by (intro queues_guard queues_if queues_none; simp)+

lemma queues_takes: "queues_public bk (accept_order en oid body ip bk)" "queues_public bk (take_order en body ip bk)"
  unfolding accept_order_def take_order_def Let_def by (intro queues_guard queues_commitTake; simp)+

lemma queues_maker: "queues_public bk (announceHashlock en oid body bk)" "queues_public bk (cancel_order en oid body bk)"
  unfolding announceHashlock_def cancel_order_def Let_def by (rule queues_guard, simp, auto split: prod.split)+

lemma release_about:
  "release_fill cr now ord d rd s = Inr (Some (ord', ev)) \<Longrightarrow> about ev ord"
  "release_intent cr now ord d rd s = Inr (Some (ord', ev)) \<Longrightarrow> about ev ord"
  by (auto simp: release_fill_def release_intent_def js_simps Let_def split: option.splits if_splits)

lemma queues_releasePortable:
  assumes "bk_pendingEvents b = bk_pendingEvents bk"
  shows "queues_public bk (releasePortable en ord body fed b)"
proof -
  have c: "queues_public bk (commit_terminal (en_now en) ev o1 b)" if "release_fill cr t ord d rd s = Inr (Some (o1, ev))"
    for cr t d rd s o1 ev
    by (rule queues_commit [OF assms about_id [OF release_about(1) [OF that] release_row_id(1) [OF that]]])
  have d: "queues_public bk (commit_terminal (en_now en) ev o1 b)" if "release_intent cr t ord d rd s = Inr (Some (o1, ev))"
    for cr t d rd s o1 ev
    by (rule queues_commit [OF assms about_id [OF release_about(2) [OF that] release_row_id(2) [OF that]]])
  show ?thesis
    unfolding releasePortable_def Let_def
    by (intro queues_guard assms) (auto simp: js_simps assms split: option.split if_splits dest: c d)
qed

lemma queues_release: "queues_public bk (release_order en oid body bk)" "queues_public bk (importRelease en oid body bk)"
  unfolding release_order_def importRelease_def Let_def
  by (intro queues_guard queues_if queues_releasePortable queues_update_row queues_none; simp)+

lemma queues_terminal: "queues_public bk (applyFill en oid rf ra ri ria fed t bk)" "queues_public bk (applySignedCancel en oid rc ra fed t bk)"
proof -
  have f: "about (fill_event ord f fa i ia) (fill_row cr now vi vf ord)" "about (cancel_event ord c ca) (cancel_row now vc ord)"
    for ord f fa i ia cr now vi vf c ca vc
    by (rule about_id [OF event_about(1)], simp, rule about_id [OF event_about(2)], simp)
  show "queues_public bk (applyFill en oid rf ra ri ria fed t bk)" "queues_public bk (applySignedCancel en oid rc ra fed t bk)"
    unfolding applyFill_def applySignedCancel_def Let_def
    by (rule queues_guard, simp, clarsimp simp: queues_conflict queues_commit f split: prod.split)+
qed

lemma queues_store:
  assumes "bk_pendingEvents b = bk_pendingEvents bk"
  shows "queues_public bk (storeFillIntent cr now ord vi ip fed b)"
proof -
  obtain recent b1 where r: "recentIntentAdmissions (cr_sha256Hex cr ip) now b = (recent, b1)" by force
  from recent_snd [OF r] assms have b1: "bk_pendingEvents b1 = bk_pendingEvents bk" by simp
  have "queues_public bk (guard_op b' (evict_for vi now (intents_of ord)) (\<lambda>kept. admit_intent now ord vi iph fed kept b'))"
    if "bk_pendingEvents b' = bk_pendingEvents bk" for b' iph
    by (intro queues_guard that queues_admit)
  with assms b1 r show ?thesis unfolding storeFillIntent_def Let_def by (auto split: option.split)
qed

lemma queues_submit: "queues_public bk (submitFillIntent en oid ri ra ip share bk)"
  unfolding submitFillIntent_def Let_def
proof (intro queues_guard pending_sweep, goal_cases)
  case (1 ord)
  obtain gate b1 where g: "shedFillIntent (en_cr en) (en_now en) ord ra ip (sweep (en_now en) bk) = (gate, b1)" by force
  have u: "bk_pendingEvents b1 = bk_pendingEvents bk"
    using shed_untouched [OF untouched_refl g] by (simp add: untouched_def)
  show ?case unfolding g prod.case
    by (rule queues_guard [OF u]) (auto simp: u queues_store split: option.split)
qed

lemma queues_import: "queues_public bk (importFillIntent en oid ri ra bk)"
  "verified_order_ok (en_cr en) vo \<Longrightarrow> pa_issuedAt (vo_auth vo) \<le> en_now en + MAX_CLOCK_SKEW_S \<Longrightarrow>
     queues_public bk (importVerifiedOrder en vo src bk)"
proof -
  show "queues_public bk (importFillIntent en oid ri ra bk)"
    unfolding importFillIntent_def Let_def
    by (rule queues_guard) (auto simp: queues_store split: prod.split option.split)
  assume vo: "verified_order_ok (en_cr en) vo" "pa_issuedAt (vo_auth vo) \<le> en_now en + MAX_CLOCK_SKEW_S"
  have c: "queues_public bk (r, snd (createInternal en (order_body_obj (vo_order vo)) ip (Some vo) True None s (sweep (en_now en) bk)))"
    for ip s and r :: "public_order api"
    by (rule queues_same [OF queues_createInternal [of en "order_body_obj (vo_order vo)" "Some vo" "sweep (en_now en) bk" bk]])
      (use vo in \<open>simp_all add: signed_input_def\<close>)
  show "queues_public bk (importVerifiedOrder en vo src bk)"
    unfolding importVerifiedOrder_def Let_def case_prod_beta
    by (auto simp: c split: option.split) (auto simp: queues_public_def publish_def public_event_def order_event_def)
qed

lemma queues_federation: "queues_public bk (applyFederationEvent en ev src bk)"
proof (cases "fe_kind ev = EvOrder")
  case True
  then show ?thesis
    unfolding applyFederationEvent_def Let_def
    by (simp only: simp_thms if_True) (rule queues_guard, simp,
      auto simp: js_simps intro!: queues_forget queues_import(2) dest: verifyOrderV1_Inr(1,2))
next
  case False
  then show ?thesis
    unfolding applyFederationEvent_def Let_def importFill_def importSignedCancel_def
    by (cases "fe_kind ev") (auto intro!: queues_guard queues_forget queues_import(1) queues_terminal queues_release)
qed

lemma queues_with_body: "(\<And>body. queues_public bk (k body)) \<Longrightarrow> queues_public bk (with_body rq bk k)"
  unfolding with_body_def by (rule queues_guard) simp_all

lemmas queues_routes = queues_if queues_mapped queues_guard refl queues_with_body queues_reads queues_create
  queues_takes queues_maker queues_release(1) queues_terminal queues_submit

lemma queues_not_found: "queues_public bk (Inr NotFound, bk)"
  by simp

lemma queues_order_route: "queues_public bk (order_route en rq oid rest bk)"
  unfolding order_route_def protocol_action_def order_action_def cancelSigned_def fillOrder_def
  by (intro queues_routes queues_not_found)

lemma queues_dispatch: "queues_public bk (dispatch en rq bk)"
proof -
  have "queues_public bk (case order_path (rq_path rq) of
      None \<Rightarrow> (Inr NotFound, bk) | Some (oid, rest) \<Rightarrow> order_route en rq oid rest bk)"
    by (auto simp: queues_order_route split: option.split prod.split)
  then show ?thesis unfolding dispatch_def by (intro queues_routes)
qed

text \<open>
  C37: only public orders leave this book. Every request and every peer event queues at most one
  federation event, and that event carries a public order or names a row of the book that is
  public, so a private order and its proofs are never relayed.
\<close>

theorem only_public_orders_relayed:
  "bk_pendingEvents (exec_op op bk) = bk_pendingEvents bk \<or>
     (\<exists>ev. bk_pendingEvents (exec_op op bk) = bk_pendingEvents bk @ [ev] \<and> public_event (exec_op op bk) ev)"
  using queues_dispatch queues_federation by (cases op) (auto simp: queues_public_def)


section \<open>Private orders\<close>

definition without_order :: "string \<Rightarrow> book \<Rightarrow> book" where
  "without_order oid bk = bk\<lparr>bk_orders := AList.delete oid (bk_orders bk)\<rparr>"

lemma without_order_missing: "find_order (sweep now (without_order oid bk)) oid = None"
proof -
  have "oid \<notin> fst ` set (bk_orders (sweep now (without_order oid bk)))"
    using swept_keys [of now "bk_orders (without_order oid bk)"] by (auto simp: bk_orders_sweep without_order_def AList.delete_eq)
  then show ?thesis by (simp add: find_order_def map_of_eq_None_iff)
qed

lemma swept_private:
  assumes "book_wf bk" "find_order bk oid = Some ord" "o_visibility ord = Private" "\<not> shareAuthorized cr ord t"
  shows "js_bind (lookup_order (sweep now bk) oid) (\<lambda>ord. js_bind (hidden_without_share cr ord t) k) = not_found"
proof (cases "find_order (sweep now bk) oid")
  case None
  then show ?thesis by (simp add: lookup_order_def not_found_def api_err_def)
next
  case (Some mid)
  then have "sweep_order now ord = Some mid"
    using assms(1,2) by (simp add: find_order_def bk_orders_sweep book_wf_def map_of_swept)
  then have f: "frozen mid = frozen ord" by (rule sweep_frozen)
  have "o_visibility mid = Private" "\<not> shareAuthorized cr mid t"
    using assms(3,4) frozen_fields(8,9,11) [OF f] by (auto simp: shareAuthorized_def split: option.splits if_splits)
  with Some show ?thesis by (simp add: lookup_order_def hidden_without_share_def not_found_def api_err_def)
qed

text \<open>
  C28: without its share token a private order does not exist. Reading it, taking it or proposing a
  fill for it, with any token that does not match, is answered exactly as by a book that never
  held the order.
\<close>

theorem private_order_is_invisible:
  assumes "book_wf bk" "find_order bk oid = Some ord" "o_visibility ord = Private"
  shows "(\<not> shareAuthorized (en_cr en) ord t \<longrightarrow> fst (get_order en oid t bk) = fst (get_order en oid t (without_order oid bk)))
    \<and> (\<not> shareAuthorized (en_cr en) ord (map_of body ''shareToken'') \<longrightarrow>
        fst (accept_order en oid body ip bk) = fst (accept_order en oid body ip (without_order oid bk)))
    \<and> (\<not> shareAuthorized (en_cr en) ord t \<longrightarrow>
        fst (submitFillIntent en oid ri ra ip t bk) = fst (submitFillIntent en oid ri ra ip t (without_order oid bk)))"
proof -
  have gone: "lookup_order (sweep (en_now en) (without_order oid bk)) oid = not_found"
    by (simp add: lookup_order_def without_order_missing)
  note hidden = swept_private [OF assms]
  have "fst (get_order en oid t bk) = fst (get_order en oid t (without_order oid bk))" if "\<not> shareAuthorized (en_cr en) ord t"
    using hidden [OF that, of "en_now en" Inr] gone
    by (cases "lookup_order (sweep (en_now en) bk) oid")
      (auto simp: get_order_def Let_def guard_op_def not_found_def api_err_def hidden_without_share_def split: if_splits)
  moreover have "fst (accept_order en oid body ip bk) = fst (accept_order en oid body ip (without_order oid bk))"
    if "\<not> shareAuthorized (en_cr en) ord (map_of body ''shareToken'')"
    using gone
    by (simp add: accept_order_def Let_def guard_op_def hidden [OF that] split: sum.split) (simp add: not_found_def api_err_def)
  moreover have "fst (submitFillIntent en oid ri ra ip t bk) = fst (submitFillIntent en oid ri ra ip t (without_order oid bk))"
    if "\<not> shareAuthorized (en_cr en) ord t"
    using gone
    by (simp add: submitFillIntent_def Let_def guard_op_def submit_target_def hidden [OF that])
      (simp add: shed_def not_found_def api_err_def)
  ultimately show ?thesis by blast
qed

theorem private_order_is_invisible_witness:
  "fst (get_order (demo_env 1060) (hexes 64) None
      (empty_book\<lparr>bk_orders := [(hexes 64, demo_row\<lparr>o_visibility := Private, o_shareTokenHash := Some ''ab''\<rparr>)]\<rparr>))
   = fst (get_order (demo_env 1060) (hexes 64) None (without_order (hexes 64)
      (empty_book\<lparr>bk_orders := [(hexes 64, demo_row\<lparr>o_visibility := Private, o_shareTokenHash := Some ''ab''\<rparr>)]\<rparr>)))"
proof -
  let ?ord = "demo_row\<lparr>o_visibility := Private, o_shareTokenHash := Some ''ab''\<rparr>"
  let ?bk = "empty_book\<lparr>bk_orders := [(hexes 64, ?ord)]\<rparr>"
  have "book_wf ?bk" "find_order ?bk (hexes 64) = Some ?ord" "o_visibility ?ord = Private"
    by (simp_all add: book_wf_def find_order_def demo_row_fields)
  moreover have "\<not> shareAuthorized (en_cr (demo_env 1060)) ?ord None"
    by (simp add: shareAuthorized_def demo_row_fields capabilityMatches_def jstr_def)
  ultimately show ?thesis
    using private_order_is_invisible [of ?bk "hexes 64" ?ord "demo_env 1060" None] by blast
qed

end
