(* ===== verification/Book_Market.thy ===== *)
theory Book_Market
  imports Complex_Main Book_Privacy
begin

text \<open>
  What takers get: a take by terms fills the best matching offer, the public listing shows only
  what can be taken, and the refusals made before any signature is checked never refuse a fill
  intent that full verification would have admitted.
\<close>

section \<open>Amounts of a row\<close>

definition in_bounds :: "amount_bounds \<Rightarrow> string \<Rightarrow> bool" where
  "in_bounds b s \<longleftrightarrow> ab_minBaseUnits b \<le> bigint s \<and> bigint s \<le> ab_maxBaseUnits b"

definition amounts_ok :: "order \<Rightarrow> bool" where
  "amounts_ok ord \<longleftrightarrow>
     in_bounds (if o_direction ord = EthToQrl then asset_bounds (o_asset ord) else QRL_BOUNDS) (o_fromAmount ord) \<and>
     in_bounds (if o_direction ord = EthToQrl then QRL_BOUNDS else asset_bounds (o_asset ord)) (o_toAmount ord)"

lemma requireAmount_within: "requireAmount raw f b = Inr s \<Longrightarrow> in_bounds b s"
  by (auto simp: requireAmount_def js_simps in_bounds_def bigint_show_int [OF bigint_nonneg] split: if_splits)

interpretation amounts: row_invariant cr "\<lambda>_. amounts_ok" for cr
proof (unfold_locales, goal_cases)
  case (1 en body ip verified fed caps src bk nt)
  from requireAmount_within [OF create_terms_Inr(4) [OF 1(1)]] requireAmount_within [OF create_terms_Inr(5) [OF 1(1)]]
  show ?case by (simp add: amounts_ok_def new_order_def Let_def split: if_splits)
next
  case (2 now ord ord')
  with frozen_fields(2-5) [OF row_step_frozen [OF 2(2)]] show ?case by (simp add: amounts_ok_def split: if_splits)
next
  case (3 now ord ord')
  with frozen_fields(2-5) [OF sweep_frozen [OF 3(2)]] show ?case by (simp add: amounts_ok_def split: if_splits)
qed

lemma bounds_positive: "0 < ab_minBaseUnits QRL_BOUNDS" "0 < ab_minBaseUnits (asset_bounds a)"
  by (simp_all add: QRL_BOUNDS_def, cases a, simp_all)

definition priced :: "order \<Rightarrow> bool" where
  "priced ord \<longleftrightarrow> 0 < bigint (o_fromAmount ord) \<and> 0 < bigint (o_toAmount ord)"

lemma amounts_priced: "amounts_ok ord \<Longrightarrow> priced ord"
  using bounds_positive(1) bounds_positive(2) [of "o_asset ord"]
  by (auto simp: amounts_ok_def in_bounds_def priced_def split: if_splits)


section \<open>Taking by terms\<close>

definition rate :: "order \<Rightarrow> rat" where
  "rate ord = of_int (bigint (o_fromAmount ord)) / of_int (bigint (o_toAmount ord))"

lemma rate_less: "priced a \<Longrightarrow> priced b \<Longrightarrow>
    rate a < rate b \<longleftrightarrow> bigint (o_fromAmount a) * bigint (o_toAmount b) < bigint (o_fromAmount b) * bigint (o_toAmount a)"
  by (simp add: rate_def priced_def divide_less_eq less_divide_eq mult.commute flip: of_int_mult)

lemma rate_eq: "priced a \<Longrightarrow> priced b \<Longrightarrow>
    rate a = rate b \<longleftrightarrow> bigint (o_fromAmount a) * bigint (o_toAmount b) = bigint (o_fromAmount b) * bigint (o_toAmount a)"
  by (simp add: rate_def priced_def frac_eq_eq flip: of_int_mult)

definition better :: "order \<Rightarrow> order \<Rightarrow> bool" where
  "better a b \<longleftrightarrow> rate b < rate a \<or> (rate a = rate b \<and> (bigint (o_fromAmount b) < bigint (o_fromAmount a) \<or>
     (bigint (o_fromAmount a) = bigint (o_fromAmount b) \<and> o_createdAt a \<le> o_createdAt b)))"

lemma takeOrder_better: "priced a \<Longrightarrow> priced b \<Longrightarrow> takeOrder a b \<le> 0 \<longleftrightarrow> better a b"
  using rate_less [of a b] rate_less [of b a] rate_eq [of a b] by (auto simp: takeOrder_def better_def Let_def)

interpretation take_sort: js_comparator takeOrder priced
  by unfold_locales (auto simp: takeOrder_better better_def)

lemma guard_op_Inr: "guard_op b r k = (Inr a, b') \<longleftrightarrow> (\<exists>x. r = Inr x \<and> k x = (Inr a, b'))"
  by (auto simp: guard_op_def split: sum.splits)

lemma take_order_picks:
  assumes "take_order en body ip bk = (Inr (p, tok), bk')"
  obtains dir asset maxPay minReceive best eth qrl where
    "take_terms body = Inr (dir, asset, maxPay, minReceive)"
    "first_of (js_sort takeOrder (filter (take_match (sweep (en_now en) bk) (en_now en) dir asset maxPay minReceive)
        (orders_of (sweep (en_now en) bk)))) = Some best"
    "bk' = persist (put_order (take_row (en_cr en) (en_now en) (cr_sha256Hex (en_cr en) ip) (en_takerToken en) eth qrl best)
        (sweep (en_now en) bk))" "tok = en_takerToken en"
proof -
  let ?bk = "sweep (en_now en) bk"
  from assms obtain best where r: "js_bind (take_terms body) (\<lambda>(dir, asset, maxPay, minReceive).
      case first_of (js_sort takeOrder (filter (take_match ?bk (en_now en) dir asset maxPay minReceive) (orders_of ?bk))) of
        None \<Rightarrow> Inl (bad 409 ''no open order matches those terms; the book may have moved'')
      | Some best \<Rightarrow> Inr best) = Inr best" and c: "commitTake en best body ip ?bk = (Inr (p, tok), bk')"
    by (auto simp: take_order_def Let_def guard_op_Inr)
  from r obtain dir asset maxPay minReceive where t: "take_terms body = Inr (dir, asset, maxPay, minReceive)"
    "first_of (js_sort takeOrder (filter (take_match ?bk (en_now en) dir asset maxPay minReceive) (orders_of ?bk))) = Some best"
    by (auto simp: js_bind_Inr case_option_Inl)
  from c obtain eth qrl where "bk' = persist (put_order (take_row (en_cr en) (en_now en) (cr_sha256Hex (en_cr en) ip)
      (en_takerToken en) eth qrl best) ?bk)" "tok = en_takerToken en"
    by (auto simp: commitTake_def Let_def guard_op_Inr split: prod.splits)
  with t show ?thesis by (rule that)
qed

text \<open>
  C26: a take by terms fills the best offer. When the book answers a take, the row it accepted was
  open, public, live, within the caller's limits on what it pays and receives, and no other row
  of the book that met those limits had a better rate, the same rate and a larger size, or equal
  terms and an earlier posting. The row is now accepted for the taker token that was returned.
\<close>

theorem take_fills_best_offer:
  assumes "reachable cr now bk" "en_cr en = cr" "now \<le> en_now en" "take_order en body ip bk = (Inr (p, tok), bk')"
  shows "\<exists>dir asset maxPay minReceive best row. take_terms body = Inr (dir, asset, maxPay, minReceive) \<and>
    best \<in> set (orders_of (sweep (en_now en) bk)) \<and>
    take_match (sweep (en_now en) bk) (en_now en) dir asset maxPay minReceive best \<and>
    (\<forall>r\<in>set (orders_of (sweep (en_now en) bk)).
       take_match (sweep (en_now en) bk) (en_now en) dir asset maxPay minReceive r \<longrightarrow> better best r) \<and>
    find_order bk' (o_id best) = Some row \<and> o_status row = Accepted \<and> frozen row = frozen best \<and>
    o_takerTokenHash row = Some (cr_sha256Hex cr tok)"
  using assms(4)
proof (rule take_order_picks)
  fix dir asset maxPay minReceive best eth qrl
  assume t: "take_terms body = Inr (dir, asset, maxPay, minReceive)"
    and f: "first_of (js_sort takeOrder (filter (take_match (sweep (en_now en) bk) (en_now en) dir asset maxPay minReceive)
        (orders_of (sweep (en_now en) bk)))) = Some best"
    and b: "bk' = persist (put_order (take_row (en_cr en) (en_now en) (cr_sha256Hex (en_cr en) ip) (en_takerToken en) eth qrl best)
        (sweep (en_now en) bk))" and tok: "tok = en_takerToken en"
  let ?rows = "orders_of (sweep (en_now en) bk)"
  have "all_rows amounts_ok (bk_orders bk)" using amounts.reachable_rows [OF assms(1)] by simp
  then have "all_rows amounts_ok (swept_rows (en_now en) (bk_orders bk))" by (rule amounts.rows_swept)
  then have pr: "priced r" if "r \<in> set ?rows" for r
    using that amounts_priced by (auto simp: orders_of_def bk_orders_sweep all_rows_def)
  then have "\<forall>r\<in>set (filter (take_match (sweep (en_now en) bk) (en_now en) dir asset maxPay minReceive) ?rows). priced r" by simp
  from take_sort.sort_first_least [OF this f] have m: "best \<in> set ?rows"
    "take_match (sweep (en_now en) bk) (en_now en) dir asset maxPay minReceive best"
    "\<And>r. r \<in> set ?rows \<Longrightarrow> take_match (sweep (en_now en) bk) (en_now en) dir asset maxPay minReceive r \<Longrightarrow> takeOrder best r \<le> 0"
    by auto
  let ?row = "take_row (en_cr en) (en_now en) (cr_sha256Hex (en_cr en) ip) (en_takerToken en) eth qrl best"
  have "find_order bk' (o_id best) = Some ?row"
    using put_find [of ?row "sweep (en_now en) bk"] b by (simp add: find_order_def)
  moreover have "o_status ?row = Accepted" "frozen ?row = frozen best" "o_takerTokenHash ?row = Some (cr_sha256Hex cr tok)"
    using tok assms(2) by (simp_all add: take_row_def frozen_def)
  ultimately show ?thesis using t m takeOrder_better pr by blast
qed

definition posted_row :: order where
  "posted_row = new_order (demo_env 1050) ''ip'' None False None (demo_terms\<lparr>nt_id := hexes 16\<rparr>)"

definition posted_book :: book where
  "posted_book = snd (dispatch (demo_env 1050) \<lparr>rq_method = ''POST'', rq_path = ''/api/orders'', rq_ip = ''ip'', rq_makerHeader = None,
     rq_shareHeader = None, rq_body = Inr (order_body_obj demo_body), rq_slot = Inr ()\<rparr> empty_book)"

definition take_body :: jobj where
  "take_body = [(''direction'', JStr ''eth->qrl''), (''maxPay'', JStr ''2000000000000000''), (''minReceive'', JStr ''1000000000000000''),
     (''takerEthAccount'', JStr (''0x'' @ hexes 40)), (''takerQrlAccount'', JStr (''Q'' @ hexes 128))]"

lemma hexes_qip55: "isQip55QrlAddress shake (CHR ''Q'' # hexes 128)"
proof -
  have "to_lower (hexes 128) = hexes 128" by (simp add: to_lower_def hexes_def lower_char_def)
  then show ?thesis by (simp add: isQip55QrlAddress_def QIP55_QRL_ADDRESS_RE_def matches_def Let_def)
qed

lemma posted_create_terms:
  assumes "bk_orders bk = []"
  shows "create_terms (demo_env 1050) (order_body_obj demo_body) ''ip'' None False None None bk = Inr (demo_terms\<lparr>nt_id := hexes 16\<rparr>)"
proof -
  have r: "orders_of bk = []" "find_order bk (hexes 16) = None" using assms by (simp_all add: orders_of_def find_order_def)
  show ?thesis
    unfolding create_terms_def Let_def r
    by (simp add: demo_body_def create_totals_def create_limits_def count_where_def portable_limits_def
        create_visibility_def create_access_def create_prelock_def order_body_obj_lookup requireDirection_def requireAsset_def
        demo_amounts demo_amounts(1) [simplified] requireAddress_def jstr_def parse_direction_def parse_asset_def parse_visibility_def
        ASSET_SYMBOLS_def MAX_RETAINED_ORDERS_def MAX_OPEN_ORDERS_def MAX_OPEN_ORDERS_PER_MAKER_def MAX_RETAINED_ORDERS_PER_MAKER_def
        MAX_OPEN_ORDERS_PER_IP_def MAX_RETAINED_ORDERS_PER_IP_def r throw_if_def demo_terms_def demo_env_def)
qed

lemma posted_book_facts:
  "bk_orders posted_book = [(hexes 16, posted_row)]" "map_of (bk_seenAt posted_book) (hexes 16) = Some 1050"
  "bk_presenceTtlS posted_book = 90"
proof -
  have e: "bk_orders (sweep 1050 empty_book) = []" "bk_presenceTtlS (sweep 1050 empty_book) = 90"
    by (simp_all add: sweep_empty empty_book_def sweep_def Let_def pruneIntentAdmissions_def DEFAULT_PRESENCE_TTL_S_def)
  have p: "posted_book = snd (insert_new (demo_env 1050) ''ip'' None False None None (demo_terms\<lparr>nt_id := hexes 16\<rparr>) (sweep 1050 empty_book))"
    by (simp add: posted_book_def dispatch_def with_body_def guard_op_def create_order_def assertLegacyOrderProtocolInput_def
        order_body_obj_lookup require_that_def demo_body_def jstr_def hexes_qip55 createInternal_def Let_def
        posted_create_terms [OF e(1), unfolded demo_body_def] demo_env_def [of 1050])
      (simp add: posted_create_terms [OF e(1), unfolded demo_body_def demo_env_def, simplified])
  show "bk_orders posted_book = [(hexes 16, posted_row)]" "map_of (bk_seenAt posted_book) (hexes 16) = Some 1050"
    "bk_presenceTtlS posted_book = 90"
    unfolding p using e by (simp_all add: insert_new_def Let_def put_order_def set_seen_def persist_def posted_row_def map_of_omap_update demo_env_def)
qed

lemma posted_row_fields:
  "o_id posted_row = hexes 16" "o_status posted_row = Open" "o_makerAuth posted_row = None" "o_fillIntents posted_row = None"
  "o_visibility posted_row = Public" "o_direction posted_row = EthToQrl" "o_asset posted_row = ETH" "o_updatedAt posted_row = 1050"
  "o_fromAmount posted_row = ''1000000000000000''" "o_toAmount posted_row = ''2000000000000000''" "\<not> o_prelocked posted_row"
  "o_acceptorIpHash posted_row = None" "o_allowedTakerEth posted_row = None" "o_allowedTakerQrl posted_row = None"
  by (simp_all add: posted_row_def new_order_def Let_def demo_terms_def demo_env_def)

lemma posted_sweep:
  "orders_of (sweep 1060 posted_book) = [posted_row]" "isSeen (sweep 1060 posted_book) posted_row 1060"
proof -
  have s: "sweep_order 1060 posted_row = Some posted_row"
    by (simp add: sweep_order_def sweep_expires_def sweep_removes_def posted_row_fields OPEN_TTL_S_def Let_def)
  then show "orders_of (sweep 1060 posted_book) = [posted_row]"
    by (simp add: orders_of_def bk_orders_sweep posted_book_facts swept_rows_def)
  have prune: "bk_seenAt (pruneIntentAdmissions t b) = bk_seenAt b \<and> bk_presenceTtlS (pruneIntentAdmissions t b) = bk_presenceTtlS b" for t b
  proof -
    have "bk_seenAt (fold (\<lambda>ip b. snd (recentIntentAdmissions ip t b)) ips b') = bk_seenAt b' \<and>
        bk_presenceTtlS (fold (\<lambda>ip b. snd (recentIntentAdmissions ip t b)) ips b') = bk_presenceTtlS b'" for ips b'
      by (induction ips arbitrary: b') (simp_all add: recentIntentAdmissions_def Let_def)
    then show ?thesis by (simp add: pruneIntentAdmissions_def)
  qed
  have "bk_seenAt (sweep 1060 posted_book) = bk_seenAt posted_book" "bk_presenceTtlS (sweep 1060 posted_book) = 90"
    using s prune [of 1060 posted_book] by (simp_all add: sweep_def Let_def posted_book_facts persist_def)
  then show "isSeen (sweep 1060 posted_book) posted_row 1060"
    by (simp add: isSeen_def posted_row_fields posted_book_facts nvl_def)
qed

lemma posted_reachable: "reachable demo_cr 1050 posted_book"
proof -
  have "reachable demo_cr 1050 empty_book" by (rule reachable.start) (simp add: empty_book_def)
  from reachable.step [OF this, of "Request (demo_env 1050) \<lparr>rq_method = ''POST'', rq_path = ''/api/orders'', rq_ip = ''ip'',
      rq_makerHeader = None, rq_shareHeader = None, rq_body = Inr (order_body_obj demo_body), rq_slot = Inr ()\<rparr>"]
  show ?thesis by (simp add: posted_book_def demo_env_def)
qed

lemma posted_taken: "\<exists>p bk'. take_order (demo_env 1060) take_body ''tk'' posted_book = (Inr (p, hexes 64), bk')"
proof -
  have am: "bigint ''1000000000000000'' = 10 ^ 15" "bigint ''2000000000000000'' = 2 * 10 ^ 15"
    by (simp_all add: bigint_def dec_value_def digit_value_def)
  have t: "take_terms take_body = Inr (EthToQrl, ETH, 2 * 10 ^ 15, 10 ^ 15)"
    by (simp add: take_terms_def take_body_def requireDirection_def requireAsset_def parse_direction_def jstr_def
        demo_amounts demo_amounts(1) [simplified] am)
  have "take_match (sweep 1060 posted_book) 1060 EthToQrl ETH (2 * 10 ^ 15) (10 ^ 15) posted_row"
    by (simp add: take_match_def posted_row_fields posted_sweep(2) usesPortableTerminalProtocol_def am hasRunway_def)
  then have "js_bind (take_terms take_body) (\<lambda>(dir, asset, maxPay, minReceive).
      case first_of (js_sort takeOrder (filter (take_match (sweep 1060 posted_book) 1060 dir asset maxPay minReceive)
        (orders_of (sweep 1060 posted_book)))) of
        None \<Rightarrow> Inl (bad 409 ''no open order matches those terms; the book may have moved'')
      | Some best \<Rightarrow> Inr best) = Inr posted_row"
    by (simp add: t posted_sweep(1) first_of_def)
  then show ?thesis
    by (simp add: take_order_def Let_def guard_op_def assertLegacyOrderProtocolInput_def require_that_def hexes_qip55 demo_env_def
        commitTake_def take_limits_def count_where_def posted_sweep(1) posted_row_fields throw_if_def take_taker_def requireAddress_def
        jstr_def MAX_CONCURRENT_TAKES_PER_IP_def MAX_TAKES_PER_IP_PER_DAY_def)
      (simp add: take_body_def requireAddress_def jstr_def hexes_qip55)
qed

theorem take_fills_best_offer_witness:
  "\<exists>p bk' best row. take_order (demo_env 1060) take_body ''tk'' posted_book = (Inr (p, hexes 64), bk')
     \<and> best \<in> set (orders_of (sweep 1060 posted_book)) \<and> find_order bk' (o_id best) = Some row \<and> o_status row = Accepted"
proof -
  obtain p bk' where t: "take_order (demo_env 1060) take_body ''tk'' posted_book = (Inr (p, hexes 64), bk')"
    using posted_taken by blast
  have "en_cr (demo_env 1060) = demo_cr" "1050 \<le> en_now (demo_env 1060)" "en_now (demo_env 1060) = 1060" by (simp_all add: demo_env_def)
  with take_fills_best_offer [OF posted_reachable _ _ t] t show ?thesis by auto
qed


section \<open>Refusals before verification\<close>

text \<open>The reference: the same request with every rule applied only after its signatures were verified.\<close>

definition submit_ungated :: "book_env \<Rightarrow> string \<Rightarrow> json \<Rightarrow> json \<Rightarrow> string \<Rightarrow> json option \<Rightarrow> book
    \<Rightarrow> selected_fill_intent answer" where
  "submit_ungated en oid rawIntent rawAuth takerIp shareToken bk0 =
     (let cr = en_cr en; now = en_now en; bk = sweep now bk0 in
      guard_op bk (submit_target cr oid shareToken bk) (\<lambda>ord.
      guard_op bk (js_bind (verifiedSignedOrder cr now ord) (\<lambda>vo. verifyFillIntentV1 cr now False rawIntent rawAuth vo)) (\<lambda>verified.
      case find (\<lambda>i. si_intentDigest i = vi_intentDigest verified) (intents_of ord) of
        Some replay \<Rightarrow> (Inr (public_intent replay), bk)
      | None \<Rightarrow>
        (if o_status ord \<noteq> Open \<or> o_equivocated ord then (Inl no_longer_open, bk)
         else if pa_issuedAt (vi_auth verified) > now + MAX_INTENT_FUTURE_SKEW_S
           then (Inl (bad 400 ''fill request is dated in the future; check your device clock''), bk)
         else if \<not> hasRunway ord now then (Inl short_runway, bk)
         else storeFillIntent cr now ord verified takerIp False bk))))"

definition claimed_nonce :: "json \<Rightarrow> string option" where
  "claimed_nonce rawAuth = (case rawAuth of JObj a \<Rightarrow> jstr (map_of a ''nonce'') | _ \<Rightarrow> None)"

lemma verified_nonce:
  assumes "verifyFillIntentV1 cr now ae ri ra vo = Inr vi"
  shows "claimed_nonce ra = Some (pa_nonce (vi_auth vi))"
proof -
  from assms have "parseAuth ra = Inr (vi_auth vi)" by (auto simp: verifyFillIntentV1_def js_simps)
  then obtain f where "exactObject (Some ra) ''auth'' PROTOCOL_AUTH_KEYS = Inr f" "parseAuth_fields f = Inr (vi_auth vi)"
    by (auto simp: parseAuth_def js_simps)
  moreover from this(1) have "ra = JObj f"
    by (auto simp: exactObject_def allowedObject_def objectValue_def js_simps split: option.splits json.splits if_splits)
  ultimately show ?thesis
    by (auto simp: claimed_nonce_def parseAuth_fields_def js_simps jstr_def split: if_splits) (metis protocol_auth.select_convs(3))
qed

lemma recent_idem:
  assumes "recentIntentAdmissions ip now bk = (recent, bk1)"
  shows "recentIntentAdmissions ip now bk1 = (recent, bk1)"
proof -
  define m where "m = bk_admissions bk"
  from assms have r: "recent = filter (\<lambda>t. t > now - TAKE_WINDOW_S) (nvl (map_of m ip) [])"
    and b: "bk1 = bk\<lparr>bk_admissions := (if recent = [] then AList.delete ip m else AList.update ip recent m)\<rparr>"
    by (auto simp: recentIntentAdmissions_def Let_def m_def)
  have "filter (\<lambda>t. t > now - TAKE_WINDOW_S) recent = recent" unfolding r by simp
  then show ?thesis
    unfolding recentIntentAdmissions_def Let_def b
    by (cases "recent = []") (auto simp: map_of_omap_delete map_of_omap_update nvl_def delete_idem)
qed

lemma same_source_count:
  "bk_orders b = bk_orders b' \<Longrightarrow> sourceLiveIntentCount b ip now = sourceLiveIntentCount b' ip now"
  by (simp add: sourceLiveIntentCount_def orders_of_def)

text \<open>Storing on the book the gate left gives what storing on the book before the gate gives.\<close>

lemma store_after_gate:
  assumes "recentIntentAdmissions (cr_sha256Hex cr ip) now bk = (recent, bk1)"
    and "find (\<lambda>i. si_intentDigest i = vi_intentDigest vi) (intents_of ord) = None"
  shows "storeFillIntent cr now ord vi ip False bk = (Inr x, b) \<longleftrightarrow> storeFillIntent cr now ord vi ip False bk1 = (Inr x, b)"
proof -
  have "sourceLiveIntentCount bk1 (cr_sha256Hex cr ip) now = sourceLiveIntentCount bk (cr_sha256Hex cr ip) now"
    by (rule same_source_count) (simp add: recent_snd [OF assms(1)])
  then show ?thesis
    unfolding storeFillIntent_def Let_def assms(2) option.case assms(1) recent_idem [OF assms(1)] prod.case by simp
qed

text \<open>A gate that refuses is a rule the stored path would refuse for as well.\<close>

lemma gate_refusal_is_rule:
  assumes "shedFillIntent cr now ord ra ip bk = (Inl e, bk1)" "pa_expiresAt (vi_auth vi) > now"
    and "find (\<lambda>i. si_intentDigest i = vi_intentDigest vi) (intents_of ord) = None"
  shows "o_status ord \<noteq> Open \<or> o_equivocated ord \<or> \<not> hasRunway ord now \<or> (\<nexists>x b. storeFillIntent cr now ord vi ip False bk = (Inr x, b))"
proof -
  obtain recent b1 where r: "recentIntentAdmissions (cr_sha256Hex cr ip) now bk = (recent, b1)" by force
  show ?thesis
    using assms(1,2)
    unfolding storeFillIntent_def Let_def assms(3) option.case r prod.case shedFillIntent_def
    by (auto split: if_splits)
qed

lemma gate_passes:
  assumes "shedFillIntent cr now ord ra ip bk = (Inr u, bk1)"
  shows "bk1 = bk \<or> (\<exists>recent. recentIntentAdmissions (cr_sha256Hex cr ip) now bk = (recent, bk1))"
  using assms by (auto simp: shedFillIntent_def Let_def shed_Inr split: if_splits prod.splits)

text \<open>No other payload has the digest of an intent the row holds.\<close>

definition no_collision :: "crypto \<Rightarrow> order \<Rightarrow> bool" where
  "no_collision cr ord \<longleftrightarrow> (\<forall>i\<in>set (intents_of ord). \<forall>p. cr_digest cr p = cr_digest cr (intent_payload (si_intent i) (si_auth i)) \<longrightarrow>
     p = intent_payload (si_intent i) (si_auth i))"

lemma gate_knows_replay:
  assumes "no_collision cr ord" "intents_ok cr ord"
    and "verifyFillIntentV1 cr now ae ri ra vo = Inr vi"
    and "find (\<lambda>i. si_intentDigest i = vi_intentDigest vi) (intents_of ord) = Some s"
  shows "shedFillIntent cr now' ord ra ip bk = (Inr (), bk)"
proof -
  from assms(4) have s: "s \<in> set (intents_of ord)" "si_intentDigest s = vi_intentDigest vi"
    by (auto simp: find_Some_iff)
  with assms(2) have "si_intentDigest s = cr_digest cr (intent_payload (si_intent s) (si_auth s))"
    by (auto simp: intents_ok_def intent_signed_def)
  then have "intent_payload (vi_intent vi) (vi_auth vi) = intent_payload (si_intent s) (si_auth s)"
    using s verifyFillIntentV1_Inr(3) [OF assms(3)] assms(1) by (auto simp: no_collision_def)
  then have "pa_nonce (si_auth s) = pa_nonce (vi_auth vi)" by (simp add: intent_payload_def)
  with s(1) verified_nonce [OF assms(3)] show ?thesis
    by (auto simp: shedFillIntent_def Let_def claimed_nonce_def list_ex_iff split: option.splits)
qed

lemma gated_row:
  assumes inj: "no_collision (en_cr en) ord" and ok: "intents_ok (en_cr en) ord"
    and v: "js_bind (verifiedSignedOrder (en_cr en) (en_now en) ord) (verifyFillIntentV1 (en_cr en) (en_now en) False ri ra) = Inr vi"
    and g: "shedFillIntent (en_cr en) (en_now en) ord ra ip bk = (gate, bk1)"
  defines "rest b \<equiv> (case find (\<lambda>i. si_intentDigest i = vi_intentDigest vi) (intents_of ord) of
        Some replay \<Rightarrow> (Inr (public_intent replay), b)
      | None \<Rightarrow>
        (if o_status ord \<noteq> Open \<or> o_equivocated ord then (Inl no_longer_open, b)
         else if pa_issuedAt (vi_auth vi) > en_now en + MAX_INTENT_FUTURE_SKEW_S
           then (Inl (bad 400 ''fill request is dated in the future; check your device clock''), b)
         else if \<not> hasRunway ord (en_now en) then (Inl short_runway, b)
         else storeFillIntent (en_cr en) (en_now en) ord vi ip False b))"
  shows "guard_op bk1 (js_bind gate (\<lambda>_. Inr vi)) (\<lambda>_. rest bk1) = (Inr x, b) \<longleftrightarrow> rest bk = (Inr x, b)"
proof -
  from v obtain vo where vo: "verifyFillIntentV1 (en_cr en) (en_now en) False ri ra vo = Inr vi" by (auto simp: js_bind_Inr)
  then have live: "pa_expiresAt (vi_auth vi) > en_now en" using verifyFillIntentV1_Inr(5) [OF vo] by simp
  show ?thesis
  proof (cases "find (\<lambda>i. si_intentDigest i = vi_intentDigest vi) (intents_of ord)")
    case (Some s)
    from gate_knows_replay [OF inj ok vo Some] g have "gate = Inr ()" "bk1 = bk" by auto
    then show ?thesis by (simp add: guard_op_def)
  next
    case None
    show ?thesis
    proof (cases gate)
      case (Inl e)
      with gate_refusal_is_rule [OF _ live None] g have "rest bk \<noteq> (Inr x, b)"
        unfolding rest_def None option.case by (auto split: if_splits)
      with Inl show ?thesis by (simp add: guard_op_def)
    next
      case (Inr u)
      have "rest bk1 = (Inr x, b) \<longleftrightarrow> rest bk = (Inr x, b)"
        using gate_passes [of "en_cr en" "en_now en" ord ra ip bk u bk1] g Inr store_after_gate [OF _ None, of "en_cr en" ip "en_now en" bk _ bk1 x b]
        unfolding rest_def None option.case by auto
      with Inr show ?thesis by (simp add: guard_op_def)
    qed
  qed
qed

text \<open>
  C27: the cheap refusals refuse nothing that would have been admitted. Unless another payload
  collides with the digest of an intent the order already holds, a fill intent is admitted, or recognised as a replay, by the endpoint that sheds
  load before any signature work exactly when it is by the endpoint that verifies first and
  applies the same rules afterwards, with the same answer and the same book.
\<close>

theorem early_refusals_are_exact:
  assumes "reachable cr now bk" "en_cr en = cr" "now \<le> en_now en"
    and "\<And>ord. find_order (sweep (en_now en) bk) oid = Some ord \<Longrightarrow> no_collision cr ord"
  shows "submitFillIntent en oid ri ra ip share bk = (Inr i, bk') \<longleftrightarrow> submit_ungated en oid ri ra ip share bk = (Inr i, bk')"
proof (cases "submit_target (en_cr en) oid share (sweep (en_now en) bk)")
  case (Inl e)
  then show ?thesis by (simp add: submitFillIntent_def submit_ungated_def Let_def guard_op_def)
next
  case (Inr ord)
  let ?bk = "sweep (en_now en) bk"
  obtain gate bk1 where g: "shedFillIntent (en_cr en) (en_now en) ord ra ip ?bk = (gate, bk1)" by force
  have fo: "find_order ?bk oid = Some ord" using Inr by (auto simp: submit_target_def js_simps)
  then have "(oid, ord) \<in> set (swept_rows (en_now en) (bk_orders bk))"
    by (auto simp: find_order_def bk_orders_sweep dest: map_of_SomeD)
  then have ok: "intents_ok (en_cr en) ord"
    using intents.rows_swept [OF intents.reachable_rows [OF assms(1)]] assms(2) by (auto simp: all_rows_def)
  show ?thesis
  proof (cases "js_bind (verifiedSignedOrder (en_cr en) (en_now en) ord) (verifyFillIntentV1 (en_cr en) (en_now en) False ri ra)")
    case (Inl e)
    then have "js_bind gate (\<lambda>_. js_bind (verifiedSignedOrder (en_cr en) (en_now en) ord)
        (verifyFillIntentV1 (en_cr en) (en_now en) False ri ra)) \<noteq> Inr y" for y
      by (cases gate) simp_all
    with Inl \<open>submit_target _ _ _ _ = Inr ord\<close> g show ?thesis
      by (auto simp: submitFillIntent_def submit_ungated_def Let_def guard_op_def split: sum.split)
  next
    case (Inr vi)
    from gated_row [OF assms(4) [OF fo, folded assms(2)] ok Inr g, of i bk'] Inr \<open>submit_target _ _ _ _ = Inr ord\<close> g show ?thesis
      unfolding submitFillIntent_def submit_ungated_def Let_def by (cases gate) (simp_all add: guard_op_def)
  qed
qed

lemma demo_submitted:
  "\<exists>i bk'. submit_ungated (demo_env 1050) (hexes 64) (intent_json (vi_intent demo_vi)) (auth_json (vi_auth demo_vi)) ''tk'' None demo_listed
     = (Inr i, bk')"
proof -
  let ?bk = "sweep 1050 demo_listed"
  have "submit_target demo_cr (hexes 64) None ?bk = Inr demo_row"
    by (simp add: submit_target_def lookup_order_def find_order_def demo_swept hidden_without_share_def demo_row_fields
        usesPortableTerminalProtocol_def throw_if_def shed_def)
  moreover have "sourceLiveIntentCount ?bk ip 1050 = 0" for ip
    by (simp add: sourceLiveIntentCount_def orders_of_def demo_swept intents_of_def demo_row_fields count_where_def)
  moreover have "fst (recentIntentAdmissions ip 1050 ?bk) = []" for ip
    by (simp add: recentIntentAdmissions_def Let_def sweep_no_admissions demo_listed_orders nvl_def)
  moreover have "pa_issuedAt (vi_auth demo_vi) = 1000" by (simp add: demo_vi_def demo_auth_def)
  ultimately show ?thesis
    by (auto simp: submit_ungated_def Let_def demo_env_def guard_op_def demo_row_verifies demo_vi_verifies intents_of_def nvl_def
        demo_row_fields hasRunway_def storeFillIntent_def liveIntentCount_def count_where_def evict_for_def admit_intent_def
        MAX_FILL_INTENTS_PER_ORDER_def MAX_CONCURRENT_TAKES_PER_IP_def MAX_TAKES_PER_IP_PER_DAY_def MAX_INTENT_FUTURE_SKEW_S_def
        case_prod_beta)
qed

theorem early_refusals_are_exact_witness:
  "\<exists>i bk'. submitFillIntent (demo_env 1050) (hexes 64) (intent_json (vi_intent demo_vi)) (auth_json (vi_auth demo_vi)) ''tk'' None demo_listed
     = (Inr i, bk')"
proof -
  obtain i bk' where u: "submit_ungated (demo_env 1050) (hexes 64) (intent_json (vi_intent demo_vi)) (auth_json (vi_auth demo_vi))
      ''tk'' None demo_listed = (Inr i, bk')" using demo_submitted by blast
  have e: "en_cr (demo_env 1050) = demo_cr" "1050 \<le> en_now (demo_env 1050)" by (simp_all add: demo_env_def)
  have "no_collision demo_cr ord" if "find_order (sweep (en_now (demo_env 1050)) demo_listed) (hexes 64) = Some ord" for ord
    using that by (simp add: demo_env_def find_order_def demo_swept no_collision_def intents_of_def demo_row_fields)
  from early_refusals_are_exact [OF demo_reachable(1) e this] u show ?thesis by blast
qed

end
