(* ===== verification/Response_Cache.thy ===== *)
theory Response_Cache
  imports Prelude
begin

text \<open>
  The cache of serialized federation pages (\<^verbatim>\<open>FederationResponseCache\<close> of
  \<^verbatim>\<open>server/src/federation-reset.ts\<close>): least recently used first, bounded in entries and in
  bytes, emptied when the clock steps back. A body is its list of bytes.
\<close>

section \<open>The cache\<close>

type_synonym bytes = "nat list"

record cached_response =
  cr_body :: bytes
  cr_expiresAt :: int

record response_cache =
  rc_maxEntries :: nat
  rc_maxBytes :: int
  rc_ttlMs :: int
  rc_entries :: "(string, cached_response) omap"
  rc_retainedBytes :: int
  rc_lastNow :: int

definition new_cache :: "nat \<Rightarrow> int \<Rightarrow> int \<Rightarrow> response_cache option" where
  "new_cache maxEntries maxBytes ttlMs =
     (if maxEntries < 1 \<or> maxBytes < 1 \<or> ttlMs < 1 then None
      else Some \<lparr>rc_maxEntries = maxEntries, rc_maxBytes = maxBytes, rc_ttlMs = ttlMs, rc_entries = [],
        rc_retainedBytes = 0, rc_lastNow = -1\<rparr>)"

definition cache_remove :: "string \<Rightarrow> response_cache \<Rightarrow> response_cache" where
  "cache_remove key c = (case map_of (rc_entries c) key of None \<Rightarrow> c
     | Some entry \<Rightarrow> c\<lparr>rc_retainedBytes := rc_retainedBytes c - int (length (cr_body entry)),
         rc_entries := AList.delete key (rc_entries c)\<rparr>)"

definition cache_prune :: "int \<Rightarrow> response_cache \<Rightarrow> response_cache" where
  "cache_prune now c = fold (\<lambda>(key, entry) c'. if cr_expiresAt entry \<le> now then cache_remove key c' else c')
     (rc_entries c) c"

definition cache_clear :: "response_cache \<Rightarrow> response_cache" where
  "cache_clear c = c\<lparr>rc_entries := [], rc_retainedBytes := 0\<rparr>"

lemma cache_remove_shorter:
  "rc_entries c = (k, v) # es \<Longrightarrow> length (rc_entries (cache_remove k c)) < Suc (length es)"
  by (simp add: cache_remove_def le_imp_less_Suc length_delete_le)

function make_room :: "nat \<Rightarrow> response_cache \<Rightarrow> response_cache" where
  "make_room n c =
     (if length (rc_entries c) \<ge> rc_maxEntries c \<or> rc_retainedBytes c + int n > rc_maxBytes c
      then (case rc_entries c of [] \<Rightarrow> c | (oldestKey, _) # _ \<Rightarrow> make_room n (cache_remove oldestKey c))
      else c)"
  by pat_completeness auto

termination make_room
  by (relation "measure (\<lambda>(n, c). length (rc_entries c))") (auto dest: cache_remove_shorter)

declare make_room.simps [simp del]

definition getOrCreate :: "string \<Rightarrow> bytes \<Rightarrow> int \<Rightarrow> response_cache \<Rightarrow> string + bytes \<times> response_cache" where
  "getOrCreate key created now c0 =
     (if length key < 1 \<or> length key > 512 then Inl ''federation response cache key is invalid''
      else if now < 0 then Inl ''federation response cache time is invalid''
      else (let c1 = (if now < rc_lastNow c0 then cache_clear c0 else c0);
                c2 = c1\<lparr>rc_lastNow := max (rc_lastNow c1) now\<rparr>;
                c3 = cache_prune now c2 in
        case map_of (rc_entries c3) key of
          Some cached \<Rightarrow> Inr (cr_body cached,
            c3\<lparr>rc_entries := AList.update key cached (AList.delete key (rc_entries c3))\<rparr>)
        | None \<Rightarrow>
            if int (length created) > rc_maxBytes c3 then Inr (created, c3)
            else (let c4 = make_room (length created) c3 in
              Inr (created, c4\<lparr>rc_entries := AList.update key \<lparr>cr_body = created, cr_expiresAt = now + rc_ttlMs c4\<rparr>
                     (rc_entries c4),
                   rc_retainedBytes := rc_retainedBytes c4 + int (length created)\<rparr>))))"


section \<open>Its bounds\<close>

abbreviation body_bytes :: "(string, cached_response) omap \<Rightarrow> int" where
  "body_bytes es \<equiv> omap_sum (\<lambda>_ e. int (length (cr_body e))) es"

definition accounted :: "response_cache \<Rightarrow> bool" where
  "accounted c \<longleftrightarrow> omap_wf (rc_entries c) \<and> rc_retainedBytes c = body_bytes (rc_entries c)"

definition cache_ok :: "response_cache \<Rightarrow> bool" where
  "cache_ok c \<longleftrightarrow> accounted c \<and> 1 \<le> rc_maxEntries c \<and> 1 \<le> rc_ttlMs c \<and>
     length (rc_entries c) \<le> rc_maxEntries c \<and> rc_retainedBytes c \<le> rc_maxBytes c \<and>
     (\<forall>(k, e)\<in>set (rc_entries c). cr_expiresAt e \<le> rc_lastNow c + rc_ttlMs c)"

lemma omap_sum_delete:
  "omap_wf m \<Longrightarrow> omap_sum f (AList.delete k m) = omap_sum f m - (case map_of m k of None \<Rightarrow> 0 | Some w \<Rightarrow> f k w)"
  by (induction m) (force simp: omap_sum_def AList.delete_eq split: option.splits dest: map_of_SomeD)+

lemma body_bytes_nonneg [simp]: "0 \<le> body_bytes es"
  by (rule omap_sum_nonneg) simp

definition shrinks :: "response_cache \<Rightarrow> response_cache \<Rightarrow> bool" where
  "shrinks c c' \<longleftrightarrow> accounted c' \<and> set (rc_entries c') \<subseteq> set (rc_entries c) \<and>
     length (rc_entries c') \<le> length (rc_entries c) \<and> rc_retainedBytes c' \<le> rc_retainedBytes c \<and>
     rc_maxEntries c' = rc_maxEntries c \<and> rc_maxBytes c' = rc_maxBytes c \<and> rc_ttlMs c' = rc_ttlMs c \<and>
     rc_lastNow c' = rc_lastNow c"

lemma shrinks_refl: "accounted c \<Longrightarrow> shrinks c c"
  by (simp add: shrinks_def)

lemma shrinks_trans: "shrinks a b \<Longrightarrow> shrinks b c \<Longrightarrow> shrinks a c"
  by (auto simp: shrinks_def)

lemma set_delete_subset: "set (AList.delete k m) \<subseteq> set m"
  by (auto simp: AList.delete_eq)

lemma remove_shrinks:
  assumes "accounted c"
  shows "shrinks c (cache_remove k c)"
  using assms length_delete_le [of k "rc_entries c"] set_delete_subset [of k "rc_entries c"]
  by (auto simp: shrinks_def accounted_def cache_remove_def omap_sum_delete distinct_delete split: option.splits)

lemma make_room_ok:
  assumes "accounted c" "1 \<le> rc_maxEntries c" "int n \<le> rc_maxBytes c"
  shows "shrinks c (make_room n c) \<and> length (rc_entries (make_room n c)) < rc_maxEntries c \<and>
    rc_retainedBytes (make_room n c) + int n \<le> rc_maxBytes c"
  using assms
proof (induction n c rule: make_room.induct)
  case (1 n c)
  show ?case
  proof (cases "length (rc_entries c) \<ge> rc_maxEntries c \<or> rc_retainedBytes c + int n > rc_maxBytes c")
    case False
    with 1 show ?thesis by (subst (1 2 3) make_room.simps) (simp add: shrinks_refl)
  next
    case True
    with 1 obtain k v es where es: "rc_entries c = (k, v) # es"
      by (cases "rc_entries c") (auto simp: accounted_def)
    let ?c = "cache_remove k c"
    have s: "shrinks c ?c" using remove_shrinks 1(2) by blast
    have same: "rc_maxEntries ?c = rc_maxEntries c" "rc_maxBytes ?c = rc_maxBytes c"
      by (simp_all add: cache_remove_def split: option.splits)
    from s have "accounted ?c" by (simp add: shrinks_def)
    with 1(1) [OF True es refl] 1 same have
      "shrinks ?c (make_room n ?c) \<and> length (rc_entries (make_room n ?c)) < rc_maxEntries c \<and>
       rc_retainedBytes (make_room n ?c) + int n \<le> rc_maxBytes c" by simp
    moreover have "make_room n c = make_room n ?c"
      using True es by (subst make_room.simps) auto
    ultimately show ?thesis using shrinks_trans [OF s] by simp
  qed
qed

lemma prune_fold_shrinks:
  "accounted c \<Longrightarrow> shrinks c (fold (\<lambda>(key, entry) c'. if cr_expiresAt entry \<le> now then cache_remove key c' else c') es c)"
proof (induction es arbitrary: c)
  case Nil
  then show ?case by (simp add: shrinks_refl)
next
  case (Cons e es)
  obtain k v where e: "e = (k, v)" by force
  let ?c = "if cr_expiresAt v \<le> now then cache_remove k c else c"
  have "shrinks c ?c" using Cons.prems by (simp add: remove_shrinks shrinks_refl)
  moreover from this have "accounted ?c" by (simp only: shrinks_def)
  ultimately have "shrinks c (fold (\<lambda>(key, entry) c'. if cr_expiresAt entry \<le> now then cache_remove key c' else c') es ?c)"
    using Cons.IH shrinks_trans by blast
  with e show ?case by simp
qed

lemma prune_removes:
  assumes "accounted c" "(k, e) \<in> set (rc_entries (cache_prune now c))"
  shows "now < cr_expiresAt e"
proof -
  let ?step = "\<lambda>(key, entry) c'. if cr_expiresAt entry \<le> now then cache_remove key c' else c'"
  have gone: "(k, e) \<notin> set (rc_entries (fold ?step es c'))"
    if "accounted c'" "(k, e) \<in> set es" "cr_expiresAt e \<le> now" for es c'
    using that
  proof (induction es arbitrary: c')
    case (Cons x es)
    obtain k1 v1 where x: "x = (k1, v1)" by force
    have acc: "accounted (?step x c')"
      using remove_shrinks [OF Cons.prems(1)] Cons.prems(1) x by (auto simp: shrinks_def)
    show ?case
    proof (cases "x = (k, e)")
      case True
      with Cons.prems(3) have "(k, e) \<notin> set (rc_entries (?step x c'))"
        by (auto simp: cache_remove_def AList.delete_eq split: option.splits dest: map_of_eq_None_iff [THEN iffD1] weak_map_of_SomeI)
      with prune_fold_shrinks [OF acc, of now es] show ?thesis by (auto simp: shrinks_def)
    next
      case False
      with Cons acc show ?thesis by auto
    qed
  qed simp
  from assms have "(k, e) \<in> set (rc_entries c)"
    using prune_fold_shrinks [OF assms(1), of now "rc_entries c"] by (auto simp: cache_prune_def shrinks_def)
  with gone [OF assms(1), of "rc_entries c"] assms(2) show ?thesis by (force simp: cache_prune_def)
qed

lemma prune_shrinks: "accounted c \<Longrightarrow> shrinks c (cache_prune now c)"
  by (simp add: cache_prune_def prune_fold_shrinks)

lemma cache_hit_ok:
  assumes "cache_ok c" "map_of (rc_entries c) key = Some e"
  shows "cache_ok (c\<lparr>rc_entries := AList.update key e (AList.delete key (rc_entries c))\<rparr>)"
proof -
  let ?es = "rc_entries c"
  have wf: "omap_wf ?es" using assms by (simp add: cache_ok_def accounted_def)
  have "AList.update key e (AList.delete key ?es) = AList.delete key ?es @ [(key, e)]"
    by (rule omap_update_absent) (simp add: delete_conv')
  moreover have "length (AList.delete key ?es) < length ?es"
    using assms(2) by (auto simp: AList.delete_eq dest!: map_of_SomeD intro!: length_filter_less)
  moreover have "body_bytes (AList.delete key ?es) = body_bytes ?es - int (length (cr_body e))"
    using assms(2) by (simp add: omap_sum_delete [OF wf])
  ultimately show ?thesis
    using assms wf distinct_delete [OF wf, of key] set_delete_subset [of key ?es] delete_notin_dom [of key ?es]
    by (auto simp: cache_ok_def accounted_def omap_sum_def dest!: map_of_SomeD)
qed

lemma cache_insert_ok:
  assumes "accounted c" "1 \<le> rc_ttlMs c" "length (rc_entries c) < rc_maxEntries c"
    "rc_retainedBytes c + int (length b) \<le> rc_maxBytes c" "map_of (rc_entries c) key = None" "now \<le> rc_lastNow c"
    "\<forall>(k, e)\<in>set (rc_entries c). cr_expiresAt e \<le> rc_lastNow c + rc_ttlMs c"
  shows "cache_ok (c\<lparr>rc_entries := AList.update key \<lparr>cr_body = b, cr_expiresAt = now + rc_ttlMs c\<rparr> (rc_entries c),
    rc_retainedBytes := rc_retainedBytes c + int (length b)\<rparr>)"
  using assms by (auto simp: cache_ok_def accounted_def omap_update_absent omap_sum_def map_of_eq_None_iff)

text \<open>The constructor starts within the bounds, so every cache that is only used by lookups stays there.\<close>

lemma new_cache_ok:
  assumes "new_cache maxEntries maxBytes ttlMs = Some c"
  shows "cache_ok c"
  using assms by (auto simp: new_cache_def cache_ok_def accounted_def omap_sum_def split: if_splits)

text \<open>
  C40: the page cache stays within its bounds and never serves a stale page. A new cache is within them
  (\<open>new_cache_ok\<close>), and for every request the cache accepts, the eviction loop ends with room for the page, the retained bytes are exactly those of
  the retained pages and at most the byte limit, the entries at most the entry limit, and the
  answer is the page just built or one retained under that key that has not expired and will
  within one lifetime.
\<close>

theorem response_cache_bounded:
  assumes "cache_ok c" "getOrCreate key created now c = Inr (body, c')"
  shows "cache_ok c' \<and> (body = created \<or>
    (\<exists>e. map_of (rc_entries c') key = Some e \<and> cr_body e = body \<and> now < cr_expiresAt e \<and> cr_expiresAt e \<le> now + rc_ttlMs c'))"
proof -
  define c1 where "c1 = (if now < rc_lastNow c then cache_clear c else c)"
  define c2 where "c2 = c1\<lparr>rc_lastNow := max (rc_lastNow c1) now\<rparr>"
  define c3 where "c3 = cache_prune now c2"
  have c2: "cache_ok c2" "rc_lastNow c2 = max (rc_lastNow c) now" "now < rc_lastNow c \<Longrightarrow> rc_entries c2 = []"
    using assms(1) body_bytes_nonneg [of "rc_entries c"]
    by (auto simp: c2_def c1_def cache_clear_def cache_ok_def accounted_def simp del: body_bytes_nonneg)
  then have acc: "accounted c2" by (simp add: cache_ok_def)
  note sh = prune_shrinks [OF acc, of now, folded c3_def]
  have c3: "cache_ok c3" "accounted c3" "rc_lastNow c3 = rc_lastNow c2" "rc_ttlMs c3 = rc_ttlMs c2"
    using sh c2(1) by (fastforce simp: cache_ok_def shrinks_def)+
  show ?thesis
  proof (cases "map_of (rc_entries c3) key")
    case (Some e)
    with assms(2) have r: "body = cr_body e" "c' = c3\<lparr>rc_entries := AList.update key e (AList.delete key (rc_entries c3))\<rparr>"
      by (auto simp: getOrCreate_def Let_def c1_def [symmetric] c2_def [symmetric] c3_def [symmetric] split: if_splits)
    have mem: "(key, e) \<in> set (rc_entries c3)" using Some by (rule map_of_SomeD)
    then have "now < cr_expiresAt e" using prune_removes [OF acc] by (simp add: c3_def)
    moreover have "cr_expiresAt e \<le> now + rc_ttlMs c3"
    proof -
      have "rc_lastNow c3 = now" using c2(2,3) c3(3) mem sh by (cases "now < rc_lastNow c") (auto simp: shrinks_def)
      with c3(1) mem show ?thesis by (auto simp: cache_ok_def)
    qed
    ultimately show ?thesis using r cache_hit_ok [OF c3(1) Some] by (simp add: update_conv')
  next
    case None
    let ?c4 = "make_room (length created) c3"
    show ?thesis
    proof (cases "int (length created) > rc_maxBytes c3")
      case True
      with None assms(2) c3(1) show ?thesis
        by (auto simp: getOrCreate_def Let_def c1_def [symmetric] c2_def [symmetric] c3_def [symmetric] split: if_splits)
    next
      case False
      with c3(1,2) have mr: "shrinks c3 ?c4" "length (rc_entries ?c4) < rc_maxEntries c3"
        "rc_retainedBytes ?c4 + int (length created) \<le> rc_maxBytes c3"
        using make_room_ok [of c3 "length created"] by (auto simp: cache_ok_def)
      moreover have "map_of (rc_entries ?c4) key = None"
        using None mr(1) by (auto simp: shrinks_def map_of_eq_None_iff)
      moreover have "now \<le> rc_lastNow ?c4" "\<forall>(k, e)\<in>set (rc_entries ?c4). cr_expiresAt e \<le> rc_lastNow ?c4 + rc_ttlMs ?c4"
        using mr(1) c2(2) c3 by (auto simp: shrinks_def cache_ok_def)
      ultimately have "cache_ok (?c4\<lparr>rc_entries := AList.update key \<lparr>cr_body = created, cr_expiresAt = now + rc_ttlMs ?c4\<rparr>
          (rc_entries ?c4), rc_retainedBytes := rc_retainedBytes ?c4 + int (length created)\<rparr>)"
        using c3(1) by (intro cache_insert_ok) (auto simp: shrinks_def cache_ok_def)
      with None False assms(2) show ?thesis
        by (auto simp: getOrCreate_def Let_def c1_def [symmetric] c2_def [symmetric] c3_def [symmetric] split: if_splits)
    qed
  qed
qed

theorem response_cache_bounded_witness:
  "\<exists>c'. getOrCreate ''b'' [4, 5] 10 \<lparr>rc_maxEntries = 1, rc_maxBytes = 3, rc_ttlMs = 5,
       rc_entries = [(''a'', \<lparr>cr_body = [1, 2], cr_expiresAt = 14\<rparr>)], rc_retainedBytes = 2, rc_lastNow = 9\<rparr> = Inr ([4, 5], c')
     \<and> cache_ok c'"
proof -
  let ?c = "\<lparr>rc_maxEntries = 1, rc_maxBytes = 3, rc_ttlMs = 5, rc_entries = [(''a'', \<lparr>cr_body = [1, 2], cr_expiresAt = 14\<rparr>)],
    rc_retainedBytes = 2, rc_lastNow = 9\<rparr>"
  have "cache_ok ?c" by (simp add: cache_ok_def accounted_def omap_sum_def)
  moreover obtain c' where "getOrCreate ''b'' [4, 5] 10 ?c = Inr ([4, 5], c')"
    by (simp add: getOrCreate_def cache_prune_def Let_def)
  ultimately show ?thesis using response_cache_bounded by blast
qed

end
