(* ===== verification/Protocol_Wire.thy ===== *)
theory Protocol_Wire
  imports Book_Types
begin

text \<open>
  The bytes that are signed (\<^verbatim>\<open>protocol-v2-wire.ts\<close>, kept byte-identical in the server, the
  market maker and the browser): the deployment domain, the field tables of the four artifacts,
  their canonical JSON text and its UTF-8 bytes; and the terms \<^verbatim>\<open>order-signing.ts\<close> builds from
  a verified body. The deployment profile is a parameter, with the checks the code makes on it.
\<close>

section \<open>Deployment profile\<close>

record v2_config =
  vc_version :: string
  vc_ethChainId :: string
  vc_qrlChainId :: string
  vc_qrlGenesisHash :: string
  vc_htlcInterface :: string
  vc_ethHtlc :: string
  vc_qrlHtlc :: string

definition HTLC_INTERFACE :: string where
  "HTLC_INTERFACE = ''v3''"

definition config_accepted :: "v2_config \<Rightarrow> bool" where
  "config_accepted c \<longleftrightarrow>
     vc_version c = ''2'' \<and> vc_ethChainId c = ''11155111'' \<and> vc_qrlChainId c = ''3151909'' \<and>
     vc_qrlGenesisHash c = ''0xd15407991193e6c23b733dc6bf9c628deaff8f9b6e252aa0d60030952b3e3ea4'' \<and>
     vc_htlcInterface c = HTLC_INTERFACE \<and>
     (vc_ethHtlc c = '''' \<or> matches ''0x'' is_hex_any 40 (vc_ethHtlc c)) \<and>
     (vc_qrlHtlc c = '''' \<or> matches ''Q'' is_hex_any 128 (vc_qrlHtlc c))"

definition domain_ethHtlc :: "v2_config \<Rightarrow> string" where
  "domain_ethHtlc c = (if vc_ethHtlc c = '''' then ''''
     else ''eip155:'' @ vc_ethChainId c @ '':'' @ to_lower (vc_ethHtlc c))"

definition domain_qrlHtlc :: "v2_config \<Rightarrow> string" where
  "domain_qrlHtlc c = (if vc_qrlHtlc c = '''' then '''' else ''Q'' @ to_lower (drop 1 (vc_qrlHtlc c)))"

definition ORDER_V2_DOMAIN :: "v2_config \<Rightarrow> (string \<times> string) list" where
  "ORDER_V2_DOMAIN c =
     [(''name'', ''QuantaSwap''), (''version'', ''2''), (''ethChainId'', vc_ethChainId c), (''ethHtlc'', domain_ethHtlc c),
      (''qrlChainId'', vc_qrlChainId c), (''qrlGenesisHash'', vc_qrlGenesisHash c), (''qrlHtlc'', domain_qrlHtlc c)]"

definition ORDER_V2_DEPLOYMENT :: "v2_config \<Rightarrow> jobj" where
  "ORDER_V2_DEPLOYMENT c =
     [(''ethChainId'', JStr (vc_ethChainId c)), (''ethHtlc'', JStr (domain_ethHtlc c)),
      (''qrlChainId'', JStr (vc_qrlChainId c)), (''qrlHtlc'', JStr (domain_qrlHtlc c))]"

definition assertV2Deployment :: "v2_config \<Rightarrow> (string, unit) result" where
  "assertV2Deployment c = throw_if
     (\<not> matches ''eip155:11155111:0x'' is_hex_lower 40 (domain_ethHtlc c) \<or>
      matches ''eip155:11155111:0x'' (\<lambda>ch. ch = CHR ''0'') 40 (domain_ethHtlc c) \<or>
      \<not> matches ''Q'' is_hex_lower 128 (domain_qrlHtlc c) \<or>
      (\<exists>n\<in>{1..length (domain_qrlHtlc c)}. matches ''Q'' (\<lambda>ch. ch = CHR ''0'') n (domain_qrlHtlc c)))
     ''Portable V2 requires a qualified v3 HTLC deployment'' (Inr ())"


section \<open>Field tables\<close>

record wire_field =
  wf_name :: string
  wf_type :: string

definition field_table :: "(string \<times> string) list \<Rightarrow> wire_field list" where
  "field_table = map (\<lambda>(n, t). \<lparr>wf_name = n, wf_type = t\<rparr>)"

definition DEPLOYMENT_FIELDS :: "(string \<times> string) list" where
  "DEPLOYMENT_FIELDS = [(''ethChainId'', ''uint256''), (''ethHtlc'', ''string''), (''qrlChainId'', ''uint256''), (''qrlHtlc'', ''string'')]"

definition ORDER_V1_FIELDS :: "wire_field list" where
  "ORDER_V1_FIELDS = field_table ([(''direction'', ''string''), (''asset'', ''string''), (''fromAmount'', ''uint256''),
     (''toAmount'', ''uint256''), (''makerEthAccount'', ''string''), (''makerQrlAccount'', ''string''), (''visibility'', ''string''),
     (''allowedTakerEth'', ''string''), (''allowedTakerQrl'', ''string''), (''prelocked'', ''bool''), (''hashlock'', ''bytes32''),
     (''initiatorTimeout'', ''uint64''), (''issuedAt'', ''uint64''), (''expiresAt'', ''uint64''), (''nonce'', ''bytes32''),
     (''makerTokenCommitment'', ''bytes32''), (''shareTokenCommitment'', ''bytes32'')] @ DEPLOYMENT_FIELDS)"

definition FILL_INTENT_V1_FIELDS :: "wire_field list" where
  "FILL_INTENT_V1_FIELDS = field_table ([(''orderDigest'', ''bytes32''), (''requestNonce'', ''bytes32''), (''takerEthAccount'', ''string''),
     (''takerQrlAccount'', ''string''), (''releaseCommitment'', ''bytes32''), (''issuedAt'', ''uint64''), (''expiresAt'', ''uint64'')]
     @ DEPLOYMENT_FIELDS)"

definition FILL_V1_FIELDS :: "wire_field list" where
  "FILL_V1_FIELDS = field_table ([(''orderDigest'', ''bytes32''), (''orderNonce'', ''bytes32''), (''intentDigest'', ''bytes32''),
     (''fillNonce'', ''bytes32''), (''takerEthAccount'', ''string''), (''takerQrlAccount'', ''string''), (''releaseCommitment'', ''bytes32''),
     (''hashlock'', ''bytes32''), (''initiatorTimeout'', ''uint64''), (''responderTimeout'', ''uint64''), (''issuedAt'', ''uint64''),
     (''respondBy'', ''uint64'')] @ DEPLOYMENT_FIELDS)"

definition CANCEL_V1_FIELDS :: "wire_field list" where
  "CANCEL_V1_FIELDS = field_table ([(''orderDigest'', ''bytes32''), (''orderNonce'', ''bytes32''), (''cancelNonce'', ''bytes32''),
     (''issuedAt'', ''uint64''), (''reasonCode'', ''uint8'')] @ DEPLOYMENT_FIELDS)"

definition PROTOCOL_V2_FIELDS :: "(string \<times> wire_field list) list" where
  "PROTOCOL_V2_FIELDS = [(''OrderV2'', ORDER_V1_FIELDS), (''FillIntentV2'', FILL_INTENT_V1_FIELDS), (''FillV2'', FILL_V1_FIELDS),
     (''CancelV2'', CANCEL_V1_FIELDS)]"


section \<open>JSON text and its bytes\<close>

datatype wire_value = WStr string | WBool bool | WArr "wire_value list" | WObj "(string \<times> wire_value) list"

definition hex_digit_char :: "nat \<Rightarrow> char" where
  "hex_digit_char n = (if n < 10 then char_of (48 + n) else char_of (87 + n))"

definition escape_char :: "char \<Rightarrow> string" where
  "escape_char c = (let n = of_char c :: nat in
     if c = CHR 0x22 \<or> c = CHR 0x5C then [CHR 0x5C, c]
     else if n = 8 then [CHR 0x5C, CHR ''b''] else if n = 9 then [CHR 0x5C, CHR ''t'']
     else if n = 10 then [CHR 0x5C, CHR ''n''] else if n = 12 then [CHR 0x5C, CHR ''f'']
     else if n = 13 then [CHR 0x5C, CHR ''r'']
     else if n < 32 then [CHR 0x5C, CHR ''u'', CHR ''0'', CHR ''0'', hex_digit_char (n div 16), hex_digit_char (n mod 16)]
     else [c])"

definition json_quote :: "string \<Rightarrow> string" where
  "json_quote s = [CHR 0x22] @ concat (map escape_char s) @ [CHR 0x22]"

fun comma_join :: "string list \<Rightarrow> string" where
  "comma_join [] = []"
| "comma_join [x] = x"
| "comma_join (x # xs) = x @ '','' @ comma_join xs"

text \<open>\<^verbatim>\<open>JSON.stringify\<close> on strings, booleans, arrays and objects.\<close>

fun stringify :: "wire_value \<Rightarrow> string" where
  "stringify (WStr s) = json_quote s"
| "stringify (WBool b) = (if b then ''true'' else ''false'')"
| "stringify (WArr vs) = ''['' @ comma_join (map stringify vs) @ '']''"
| "stringify (WObj kvs) = ''{'' @ comma_join (map (\<lambda>(k, v). json_quote k @ '':'' @ stringify v) kvs) @ ''}''"

definition utf8_char :: "char \<Rightarrow> nat list" where
  "utf8_char c = (let n = of_char c in if n < 128 then [n] else [192 + n div 64, 128 + n mod 64])"

definition utf8 :: "string \<Rightarrow> nat list" where
  "utf8 s = concat (map utf8_char s)"


section \<open>The signed message\<close>

record wire_payload =
  wp_types :: "(string \<times> wire_field list) list"
  wp_primaryType :: string
  wp_domain :: jobj
  wp_message :: jobj

definition MESSAGE_PREFIX :: string where
  "MESSAGE_PREFIX = ''QuantaSwap Protocol V2'' @ [CHR 0x00]"

definition UINT_RE :: "string \<Rightarrow> bool" where
  "UINT_RE s \<longleftrightarrow> s = ''0'' \<or> (s \<noteq> [] \<and> list_all is_digit s \<and> hd s \<noteq> CHR ''0'')"

definition printable :: "char \<Rightarrow> bool" where
  "printable c \<longleftrightarrow> 32 \<le> (of_char c :: nat) \<and> (of_char c :: nat) \<le> 126"

definition exactKeys :: "'a list \<Rightarrow> 'a list \<Rightarrow> (string, unit) result" where
  "exactKeys actual keys = throw_if (length actual \<noteq> length keys \<or> list_ex (\<lambda>k. k \<notin> set keys) actual)
     ''Protocol V2 contains missing or unsupported fields'' (Inr ())"

definition fields_json :: "wire_field list \<Rightarrow> wire_value" where
  "fields_json fs = WArr (map (\<lambda>f. WObj [(''name'', WStr (wf_name f)), (''type'', WStr (wf_type f))]) fs)"

definition uint_text :: "wire_field \<Rightarrow> json option \<Rightarrow> (string, string) result" where
  "uint_text field value =
     js_bind (case value of
         Some (JInt n) \<Rightarrow> if isSafeInteger n \<and> 0 \<le> n then Inr (Some (JStr (show_int n))) else Inl ''Invalid portable V2 integer''
       | Some JFloat \<Rightarrow> Inl ''Invalid portable V2 integer''
       | v \<Rightarrow> Inr v) (\<lambda>value.
     case value of
       Some (JStr s) \<Rightarrow> throw_if (\<not> UINT_RE s \<or> bigint s \<ge> 2 ^ nat (bigint (drop 4 (wf_type field))))
         ''Invalid portable V2 unsigned integer'' (Inr s)
     | _ \<Rightarrow> Inl ''Invalid portable V2 unsigned integer'')"

definition field_value :: "wire_field \<Rightarrow> json option \<Rightarrow> (string, wire_value) result" where
  "field_value field value =
     (if take 4 (wf_type field) = ''uint'' then js_bind (uint_text field value) (\<lambda>s. Inr (WStr s))
      else if wf_type field = ''bool'' then
        (case value of Some (JBool b) \<Rightarrow> Inr (WBool b) | _ \<Rightarrow> Inl ''Invalid portable V2 boolean'')
      else if wf_type field = ''bytes32'' then
        (case value of Some (JStr s) \<Rightarrow> throw_if (\<not> BYTES32_RE s) ''Invalid portable V2 bytes32'' (Inr (WStr s))
         | _ \<Rightarrow> Inl ''Invalid portable V2 bytes32'')
      else (case value of Some (JStr s) \<Rightarrow> throw_if (\<not> list_all printable s) ''Invalid portable V2 ASCII string'' (Inr (WStr s))
         | _ \<Rightarrow> Inl ''Invalid portable V2 ASCII string''))"

fun map_result :: "('a \<Rightarrow> ('e, 'b) result) \<Rightarrow> 'a list \<Rightarrow> ('e, 'b list) result" where
  "map_result f [] = Inr []"
| "map_result f (x # xs) = js_bind (f x) (\<lambda>y. js_bind (map_result f xs) (\<lambda>ys. Inr (y # ys)))"

definition message_values :: "wire_field list \<Rightarrow> jobj \<Rightarrow> (string, wire_value list) result" where
  "message_values fs msg =
     map_result (\<lambda>f. js_bind (field_value f (map_of msg (wf_name f))) (\<lambda>v. Inr (WArr [WStr (wf_name f), v]))) fs"

definition domain_values :: "v2_config \<Rightarrow> jobj \<Rightarrow> (string, wire_value list) result" where
  "domain_values c ds =
     map_result (\<lambda>(key, expected). throw_if (map_of ds key \<noteq> Some (JStr expected)) ''Portable V2 deployment domain mismatch''
       (Inr (WArr [WStr key, WStr expected]))) (ORDER_V2_DOMAIN c)"

definition protocolMessageBytes :: "v2_config \<Rightarrow> wire_payload \<Rightarrow> (string, nat list) result" where
  "protocolMessageBytes c p =
     (case map_of PROTOCOL_V2_FIELDS (wp_primaryType p) of
        None \<Rightarrow> Inl ''Unsupported portable V2 primary type''
      | Some fs \<Rightarrow>
        js_bind (exactKeys (map fst (wp_domain p)) (map fst (ORDER_V2_DOMAIN c))) (\<lambda>_.
        js_bind (exactKeys (map fst (wp_message p)) (map wf_name fs)) (\<lambda>_.
        js_bind (exactKeys (map fst (wp_types p)) [wp_primaryType p]) (\<lambda>_.
        throw_if (map_option (\<lambda>ts. stringify (fields_json ts)) (map_of (wp_types p) (wp_primaryType p)) \<noteq> Some (stringify (fields_json fs)))
          ''Portable V2 field schema mismatch''
       (js_bind (domain_values c (wp_domain p)) (\<lambda>ds.
        js_bind (message_values fs (wp_message p)) (\<lambda>vals.
        Inr (utf8 (MESSAGE_PREFIX @ stringify (WArr [WStr ''2'', WStr (wp_primaryType p), WArr ds, WArr vals]))))))))))"


section \<open>The terms of an artifact\<close>

definition caipEthAccount :: "v2_config \<Rightarrow> string \<Rightarrow> string" where
  "caipEthAccount c account = ''eip155:'' @ vc_ethChainId c @ '':'' @ account"

definition order_terms :: "v2_config \<Rightarrow> order_body \<Rightarrow> jobj" where
  "order_terms c b =
     [(''direction'', JStr (direction_str (ob_direction b))), (''asset'', JStr (asset_str (ob_asset b))),
      (''fromAmount'', JStr (ob_fromAmount b)), (''toAmount'', JStr (ob_toAmount b)),
      (''makerEthAccount'', JStr (caipEthAccount c (ob_makerEthAccount b))), (''makerQrlAccount'', JStr (ob_makerQrlAccount b)),
      (''visibility'', JStr (visibility_str (ob_visibility b))),
      (''allowedTakerEth'', JStr (case ob_allowedTakerEth b of None \<Rightarrow> '''' | Some e \<Rightarrow> caipEthAccount c e)),
      (''allowedTakerQrl'', JStr (nvl (ob_allowedTakerQrl b) '''')),
      (''prelocked'', JBool (ob_prelock b \<noteq> None)),
      (''hashlock'', JStr (case ob_prelock b of None \<Rightarrow> ZERO32 | Some p \<Rightarrow> pl_hashlock p)),
      (''initiatorTimeout'', JStr (case ob_prelock b of None \<Rightarrow> ''0'' | Some p \<Rightarrow> show_int (pl_initiatorTimeout p)))]
     @ ORDER_V2_DEPLOYMENT c"

fun payload_type :: "payload \<Rightarrow> string" where
  "payload_type (OrderV2 _ _ _ _ _ _) = ''OrderV2''"
| "payload_type (FillIntentV2 _ _ _ _) = ''FillIntentV2''"
| "payload_type (FillV2 _) = ''FillV2''"
| "payload_type (CancelV2 _ _ _ _) = ''CancelV2''"

fun payload_terms :: "v2_config \<Rightarrow> payload \<Rightarrow> jobj" where
  "payload_terms c (OrderV2 b issuedAt expiresAt nonce makerToken shareToken) = order_terms c b @
     [(''issuedAt'', JStr (show_int issuedAt)), (''expiresAt'', JStr (show_int expiresAt)), (''nonce'', JStr nonce),
      (''makerTokenCommitment'', JStr makerToken), (''shareTokenCommitment'', JStr shareToken)]"
| "payload_terms c (FillIntentV2 i requestNonce issuedAt expiresAt) =
     [(''orderDigest'', JStr (fi_orderDigest i)), (''requestNonce'', JStr requestNonce),
      (''takerEthAccount'', JStr (caipEthAccount c (fi_takerEthAccount i))), (''takerQrlAccount'', JStr (fi_takerQrlAccount i)),
      (''releaseCommitment'', JStr (fi_releaseCommitment i)), (''issuedAt'', JStr (show_int issuedAt)),
      (''expiresAt'', JStr (show_int expiresAt))] @ ORDER_V2_DEPLOYMENT c"
| "payload_terms c (FillV2 t) =
     [(''orderDigest'', JStr (fb_orderDigest (ft_body t))), (''orderNonce'', JStr (ft_orderNonce t)),
      (''intentDigest'', JStr (fb_intentDigest (ft_body t))), (''fillNonce'', JStr (ft_fillNonce t)),
      (''takerEthAccount'', JStr (caipEthAccount c (fb_takerEthAccount (ft_body t)))),
      (''takerQrlAccount'', JStr (fb_takerQrlAccount (ft_body t))), (''releaseCommitment'', JStr (fb_releaseCommitment (ft_body t))),
      (''hashlock'', JStr (fb_hashlock (ft_body t))), (''initiatorTimeout'', JStr (show_int (fb_initiatorTimeout (ft_body t)))),
      (''responderTimeout'', JStr (show_int (fb_responderTimeout (ft_body t)))), (''issuedAt'', JStr (show_int (ft_issuedAt t))),
      (''respondBy'', JStr (show_int (ft_respondBy t)))] @ ORDER_V2_DEPLOYMENT c"
| "payload_terms c (CancelV2 b orderNonce cancelNonce issuedAt) =
     [(''orderDigest'', JStr (cb_orderDigest b)), (''orderNonce'', JStr orderNonce), (''cancelNonce'', JStr cancelNonce),
      (''issuedAt'', JStr (show_int issuedAt)), (''reasonCode'', JInt (cb_reasonCode b))] @ ORDER_V2_DEPLOYMENT c"

definition buildPayload :: "v2_config \<Rightarrow> payload \<Rightarrow> wire_payload" where
  "buildPayload c p = \<lparr>wp_types = [(payload_type p, nvl (map_of PROTOCOL_V2_FIELDS (payload_type p)) [])],
     wp_primaryType = payload_type p, wp_domain = map (\<lambda>(k, v). (k, JStr v)) (ORDER_V2_DOMAIN c), wp_message = payload_terms c p\<rparr>"

definition signed_bytes :: "v2_config \<Rightarrow> payload \<Rightarrow> (string, nat list) result" where
  "signed_bytes c p = protocolMessageBytes c (buildPayload c p)"



section \<open>The text determines the value\<close>

lemma of_char_eq: "(of_char c :: nat) = of_char d \<longleftrightarrow> c = d"
  by (metis char_of_char)

lemma utf8_unique: "utf8 s = utf8 t \<Longrightarrow> s = t"
proof (induction s arbitrary: t)
  case Nil
  then show ?case by (cases t) (auto simp: utf8_def utf8_char_def Let_def split: if_splits)
next
  case (Cons c s)
  then obtain d t' where t: "t = d # t'" by (cases t) (auto simp: utf8_def utf8_char_def Let_def split: if_splits)
  with Cons.prems have e: "utf8_char c @ utf8 s = utf8_char d @ utf8 t'" by (simp add: utf8_def)
  have "c = d \<and> utf8 s = utf8 t'"
  proof (cases "(of_char c :: nat) < 128"; cases "(of_char d :: nat) < 128")
    assume b: "\<not> (of_char c :: nat) < 128" "\<not> (of_char d :: nat) < 128"
    with e have "(of_char c :: nat) div 64 = of_char d div 64" "(of_char c :: nat) mod 64 = of_char d mod 64"
      by (simp_all add: utf8_char_def Let_def)
    then have "(of_char c :: nat) = of_char d" by (metis div_mult_mod_eq)
    with b e show ?thesis by (simp add: of_char_eq utf8_char_def Let_def)
  qed (use e in \<open>auto simp: utf8_char_def Let_def of_char_eq\<close>)
  with Cons.IH t show ?case by simp
qed

lemma escape_printable: "printable c \<Longrightarrow> escape_char c = (if c = CHR 0x22 \<or> c = CHR 0x5C then [CHR 0x5C, c] else [c])"
  by (auto simp: escape_char_def printable_def Let_def)

lemma escaped_unique:
  assumes "list_all printable s" "list_all printable t"
    and "concat (map escape_char s) @ CHR 0x22 # r = concat (map escape_char t) @ CHR 0x22 # r'"
  shows "s = t \<and> r = r'"
  using assms
proof (induction s arbitrary: t)
  case Nil
  then show ?case by (cases t) (auto simp: escape_printable split: if_splits)
next
  case (Cons c s)
  then obtain d t' where t: "t = d # t'" by (cases t) (auto simp: escape_printable split: if_splits)
  with Cons show ?case by (auto simp: escape_printable split: if_splits)
qed

lemma quote_unique:
  assumes "list_all printable s" "list_all printable t" "json_quote s @ r = json_quote t @ r'"
  shows "s = t \<and> r = r'"
  using escaped_unique [OF assms(1,2)] assms(3) by (simp add: json_quote_def)

lemma comma_join_Cons: "comma_join (x # xs) = x @ concat (map ((#) (CHR '','')) xs)"
  by (induction xs arbitrary: x) simp_all

text \<open>Values built from printable strings, booleans and arrays.\<close>

fun value_ok :: "wire_value \<Rightarrow> bool" where
  "value_ok (WStr s) = list_all printable s"
| "value_ok (WBool b) = True"
| "value_ok (WArr vs) = list_all value_ok vs"
| "value_ok (WObj _) = False"

definition decodes :: "wire_value \<Rightarrow> bool" where
  "decodes v \<longleftrightarrow> (\<forall>w r r'. value_ok w \<longrightarrow> stringify v @ r = stringify w @ r' \<longrightarrow> v = w \<and> r = r')"

lemma stringify_head:
  "\<exists>c s. stringify v = c # s \<and> c \<noteq> CHR '']'' \<and> c \<noteq> CHR '',''"
  by (cases v) (auto simp: json_quote_def)

definition comma_then :: "wire_value \<Rightarrow> string" where
  "comma_then v = CHR '','' # stringify v"

lemma tail_unique:
  assumes "\<forall>v\<in>set vs. decodes v" "list_all value_ok ws"
    and "concat (map comma_then vs) @ CHR '']'' # r = concat (map comma_then ws) @ CHR '']'' # r'"
  shows "vs = ws \<and> r = r'"
  using assms
proof (induction vs arbitrary: ws)
  case Nil
  then show ?case by (cases ws) (auto simp: comma_then_def)
next
  case (Cons v vs)
  then obtain w ws' where w: "ws = w # ws'" by (cases ws) (auto simp: comma_then_def)
  with Cons.prems have "decodes v" "value_ok w"
    "stringify v @ concat (map comma_then vs) @ CHR '']'' # r
      = stringify w @ concat (map comma_then ws') @ CHR '']'' # r'"
    by (simp_all add: comma_then_def [abs_def])
  then have "v = w" "concat (map comma_then vs) @ CHR '']'' # r
      = concat (map comma_then ws') @ CHR '']'' # r'"
    unfolding decodes_def by blast+
  with Cons.IH [of ws'] Cons.prems w show ?case by simp
qed

lemma array_unique:
  assumes "\<forall>v\<in>set vs. decodes v" "list_all value_ok ws"
    and "comma_join (map stringify vs) @ CHR '']'' # r = comma_join (map stringify ws) @ CHR '']'' # r'"
  shows "vs = ws \<and> r = r'"
proof (cases vs)
  case Nil
  then have "CHR '']'' # r = comma_join (map stringify ws) @ CHR '']'' # r'" using assms(3) by simp
  then have "ws = []" using stringify_head [of "hd ws"] by (cases ws) (auto simp: comma_join_Cons)
  with Nil assms(3) show ?thesis by simp
next
  case (Cons v vs')
  then obtain w ws' where w: "ws = w # ws'"
    using assms(3) stringify_head [of v] by (cases ws) (auto simp: comma_join_Cons)
  have "stringify v @ concat (map comma_then vs') @ CHR '']'' # r =
      stringify w @ concat (map comma_then ws') @ CHR '']'' # r'"
    using assms(3) Cons w by (simp add: comma_join_Cons comp_def comma_then_def [abs_def])
  moreover have "decodes v" "value_ok w" using assms(1,2) Cons w by simp_all
  ultimately have "v = w" "concat (map comma_then vs') @ CHR '']'' # r =
      concat (map comma_then ws') @ CHR '']'' # r'"
    unfolding decodes_def by blast+
  with tail_unique [of vs' ws'] assms(1,2) Cons w show ?thesis by simp
qed

lemma stringify_decodes: "value_ok v \<Longrightarrow> decodes v"
proof (induction v)
  case (WStr s)
  show ?case
    unfolding decodes_def
  proof (intro allI impI)
    fix w r r' assume w: "value_ok w" "stringify (WStr s) @ r = stringify w @ r'"
    then obtain t where t: "w = WStr t" by (cases w) (auto simp: json_quote_def split: if_splits)
    with w WStr quote_unique [of s t r r'] show "WStr s = w \<and> r = r'" by simp
  qed
next
  case (WBool b)
  show ?case
    unfolding decodes_def
  proof (intro allI impI)
    fix w r r' assume "value_ok w" "stringify (WBool b) @ r = stringify w @ r'"
    then show "WBool b = w \<and> r = r'" by (cases w) (auto simp: json_quote_def split: if_splits)
  qed
next
  case (WArr vs)
  then have "\<forall>v\<in>set vs. decodes v" by (auto simp: list_all_iff)
  show ?case
    unfolding decodes_def
  proof (intro allI impI)
    fix w r r' assume w: "value_ok w" "stringify (WArr vs) @ r = stringify w @ r'"
    then obtain ws where ws: "w = WArr ws" by (cases w) (auto simp: json_quote_def split: if_splits)
    with w have "list_all value_ok ws" "comma_join (map stringify vs) @ CHR '']'' # r = comma_join (map stringify ws) @ CHR '']'' # r'"
      by simp_all
    from array_unique [OF \<open>\<forall>v\<in>set vs. decodes v\<close> this] ws show "WArr vs = w \<and> r = r'" by simp
  qed
qed simp

lemma stringify_unique: "value_ok v \<Longrightarrow> value_ok w \<Longrightarrow> stringify v = stringify w \<Longrightarrow> v = w"
  using stringify_decodes [of v] by (auto simp: decodes_def dest: spec [of _ w])



section \<open>Equal bytes, equal statements\<close>

lemma map_result_Inr: "map_result f xs = Inr ys \<longleftrightarrow> list_all2 (\<lambda>x y. f x = Inr y) xs ys"
  by (induction xs arbitrary: ys) (auto simp: js_bind_Inr list_all2_Cons1)

fun shown :: "json \<Rightarrow> wire_value" where
  "shown (JInt n) = WStr (show_int n)"
| "shown (JBool b) = WBool b"
| "shown (JStr s) = WStr s"
| "shown _ = WStr ''''"

lemma digit_printable: "is_digit c \<Longrightarrow> printable c"
  by (auto simp: is_digit_def char_in_def printable_def)

lemma hex_printable: "is_hex_lower c \<Longrightarrow> printable c"
  by (auto simp: is_hex_lower_def is_digit_def char_in_def printable_def)

lemma matches_printable:
  assumes "matches pre P n s" "list_all printable pre" "\<And>c. P c \<Longrightarrow> printable c"
  shows "list_all printable s"
proof -
  have "list_all printable (take (length pre) s)" "list_all printable (drop (length pre) s)"
    using assms by (auto simp: matches_def list_all_iff)
  then have "list_all printable (take (length pre) s @ drop (length pre) s)" unfolding list_all_append by blast
  then show ?thesis unfolding append_take_drop_id .
qed

lemma bytes32_printable: "BYTES32_RE s \<Longrightarrow> list_all printable s"
  unfolding BYTES32_RE_def by (erule matches_printable) (simp_all add: hex_printable, simp_all add: printable_def)

lemma uint_printable: "UINT_RE s \<Longrightarrow> list_all printable s"
  unfolding UINT_RE_def by (elim disjE) (simp add: printable_def, simp add: list_all_iff digit_printable)

lemma uint_text_Inr:
  assumes "uint_text f v = Inr s"
  shows "UINT_RE s \<and> (\<exists>j. v = Some j \<and> shown j = WStr s)"
proof (cases v)
  case None
  with assms show ?thesis by (simp add: uint_text_def)
next
  case (Some j)
  with assms show ?thesis by (cases j) (auto simp: uint_text_def throw_if_Inr split: if_splits)
qed

lemma field_value_Inr:
  assumes "field_value f v = Inr w"
  shows "value_ok w \<and> (\<exists>j. v = Some j \<and> w = shown j)"
proof (cases "take 4 (wf_type f) = ''uint''")
  case True
  with assms obtain s where "uint_text f v = Inr s" "w = WStr s" by (auto simp: field_value_def js_bind_Inr)
  with uint_text_Inr [OF this(1)] show ?thesis by (auto simp: uint_printable)
next
  case False
  show ?thesis
  proof (cases v)
    case None
    with assms False show ?thesis by (simp add: field_value_def split: if_splits)
  next
    case (Some j)
    with assms False show ?thesis by (cases j) (auto simp: field_value_def throw_if_Inr bytes32_printable split: if_splits)
  qed
qed

lemma message_values_Inr:
  assumes "message_values fs msg = Inr vals" "\<And>f. f \<in> set fs \<Longrightarrow> list_all printable (wf_name f)"
  shows "list_all value_ok vals \<and> vals = map (\<lambda>f. WArr [WStr (wf_name f), shown (the (map_of msg (wf_name f)))]) fs
    \<and> (\<forall>f\<in>set fs. map_of msg (wf_name f) \<noteq> None)"
  using assms unfolding message_values_def map_result_Inr
proof (induction fs vals rule: list_all2_induct)
  case (Cons f fs v vs)
  then obtain w where "field_value f (map_of msg (wf_name f)) = Inr w" "v = WArr [WStr (wf_name f), w]" by (auto simp: js_bind_Inr)
  with field_value_Inr [OF this(1)] Cons show ?case by auto
qed simp

lemma domain_values_Inr:
  "domain_values c ds = Inr vs \<Longrightarrow> vs = map (\<lambda>(k, v). WArr [WStr k, WStr v]) (ORDER_V2_DOMAIN c)"
  unfolding domain_values_def map_result_Inr
  by (induction rule: list_all2_induct) (auto simp: throw_if_Inr)

lemma field_tables_printable:
  assumes "(t, fs) \<in> set PROTOCOL_V2_FIELDS"
  shows "list_all printable t" "\<And>f. f \<in> set fs \<Longrightarrow> list_all printable (wf_name f)"
  using assms
  by (auto simp: PROTOCOL_V2_FIELDS_def ORDER_V1_FIELDS_def FILL_INTENT_V1_FIELDS_def FILL_V1_FIELDS_def CANCEL_V1_FIELDS_def
      field_table_def DEPLOYMENT_FIELDS_def printable_def)

text \<open>What a message that has bytes says, field by field.\<close>

definition says :: "wire_payload \<Rightarrow> string \<Rightarrow> wire_value" where
  "says p name = shown (the (map_of (wp_message p) name))"

lemma bytes_Inr:
  assumes "protocolMessageBytes c p = Inr b"
  obtains fs where "map_of PROTOCOL_V2_FIELDS (wp_primaryType p) = Some fs" "list_all printable (wp_primaryType p)"
    "list_all value_ok (map (\<lambda>f. WArr [WStr (wf_name f), says p (wf_name f)]) fs)"
    "b = utf8 (MESSAGE_PREFIX @ stringify (WArr [WStr ''2'', WStr (wp_primaryType p),
       WArr (map (\<lambda>(k, v). WArr [WStr k, WStr v]) (ORDER_V2_DOMAIN c)), WArr (map (\<lambda>f. WArr [WStr (wf_name f), says p (wf_name f)]) fs)]))"
proof -
  from assms obtain fs ds vals where f: "map_of PROTOCOL_V2_FIELDS (wp_primaryType p) = Some fs"
    and d: "domain_values c (wp_domain p) = Inr ds" and v: "message_values fs (wp_message p) = Inr vals"
    and b: "b = utf8 (MESSAGE_PREFIX @ stringify (WArr [WStr ''2'', WStr (wp_primaryType p), WArr ds, WArr vals]))"
    by (auto simp: protocolMessageBytes_def js_bind_Inr throw_if_Inr split: option.splits)
  note fields = field_tables_printable [OF map_of_SomeD [OF f]]
  from message_values_Inr [OF v fields(2)] domain_values_Inr [OF d] b f fields(1) show ?thesis
    by (intro that) (auto simp: says_def)
qed

lemma wire_unique:
  assumes "protocolMessageBytes c p = Inr b" "protocolMessageBytes c q = Inr b"
  shows "wp_primaryType p = wp_primaryType q \<and>
    (\<forall>f\<in>set (the (map_of PROTOCOL_V2_FIELDS (wp_primaryType p))). says p (wf_name f) = says q (wf_name f))"
proof -
  let ?d = "stringify (WArr (map (\<lambda>(k, v). WArr [WStr k, WStr v]) (ORDER_V2_DOMAIN c)))"
  let ?v = "\<lambda>x fs. WArr (map (\<lambda>f. WArr [WStr (wf_name f), says x (wf_name f)]) fs)"
  from assms(1) obtain fs where p: "map_of PROTOCOL_V2_FIELDS (wp_primaryType p) = Some fs" "list_all printable (wp_primaryType p)"
    "value_ok (?v p fs)" and bp: "b = utf8 (MESSAGE_PREFIX @ stringify (WArr [WStr ''2'', WStr (wp_primaryType p),
       WArr (map (\<lambda>(k, v). WArr [WStr k, WStr v]) (ORDER_V2_DOMAIN c)), ?v p fs]))"
    by (rule bytes_Inr) simp
  from assms(2) obtain gs where q: "map_of PROTOCOL_V2_FIELDS (wp_primaryType q) = Some gs" "list_all printable (wp_primaryType q)"
    "value_ok (?v q gs)" and bq: "b = utf8 (MESSAGE_PREFIX @ stringify (WArr [WStr ''2'', WStr (wp_primaryType q),
       WArr (map (\<lambda>(k, v). WArr [WStr k, WStr v]) (ORDER_V2_DOMAIN c)), ?v q gs]))"
    by (rule bytes_Inr) simp
  from utf8_unique [OF trans [OF bp [symmetric] bq]]
  have "json_quote (wp_primaryType p) @ '','' @ ?d @ '','' @ stringify (?v p fs) @ '']''
      = json_quote (wp_primaryType q) @ '','' @ ?d @ '','' @ stringify (?v q gs) @ '']''"
    by (simp del: stringify.simps(3) add: stringify.simps(3) [of "[_, _, _, _]"])
  from quote_unique [OF p(2) q(2) this] have t: "wp_primaryType p = wp_primaryType q"
    and e: "stringify (?v p fs) @ '']'' = stringify (?v q gs) @ '']''" by simp_all
  have "fs = gs" using p(1) q(1) t by simp
  moreover have "?v p fs = ?v q gs" using stringify_decodes [OF p(3)] q(3) e unfolding decodes_def by blast
  ultimately show ?thesis using t p(1) by simp
qed



section \<open>Verified artifacts\<close>

fun payload_wf :: "payload \<Rightarrow> bool" where
  "payload_wf (OrderV2 b i e n m s) \<longleftrightarrow> order_body_wf b \<and> safe_nonneg i \<and> safe_nonneg e \<and> BYTES32_RE n \<and> BYTES32_RE m \<and> BYTES32_RE s"
| "payload_wf (FillIntentV2 b n i e) \<longleftrightarrow> BYTES32_RE (fi_orderDigest b) \<and> ETH_ADDR_LOWER_RE (fi_takerEthAccount b) \<and>
     QRL_ADDR_LOWER_RE (fi_takerQrlAccount b) \<and> BYTES32_RE (fi_releaseCommitment b) \<and> BYTES32_RE n \<and> safe_nonneg i \<and> safe_nonneg e"
| "payload_wf (FillV2 t) \<longleftrightarrow> BYTES32_RE (fb_orderDigest (ft_body t)) \<and> BYTES32_RE (fb_intentDigest (ft_body t)) \<and>
     ETH_ADDR_LOWER_RE (fb_takerEthAccount (ft_body t)) \<and> QRL_ADDR_LOWER_RE (fb_takerQrlAccount (ft_body t)) \<and>
     BYTES32_RE (fb_releaseCommitment (ft_body t)) \<and> BYTES32_RE (fb_hashlock (ft_body t)) \<and>
     safe_nonneg (fb_initiatorTimeout (ft_body t)) \<and> safe_nonneg (fb_responderTimeout (ft_body t)) \<and>
     BYTES32_RE (ft_orderNonce t) \<and> BYTES32_RE (ft_fillNonce t) \<and> safe_nonneg (ft_issuedAt t) \<and> safe_nonneg (ft_respondBy t)"
| "payload_wf (CancelV2 b m n i) \<longleftrightarrow> BYTES32_RE (cb_orderDigest b) \<and> 0 \<le> cb_reasonCode b \<and> cb_reasonCode b \<le> 255 \<and>
     BYTES32_RE m \<and> BYTES32_RE n \<and> safe_nonneg i"

lemma canonical_bodies_wf:
  "canonicalFillIntentBody ri = Inr b \<Longrightarrow> BYTES32_RE (fi_orderDigest b) \<and> ETH_ADDR_LOWER_RE (fi_takerEthAccount b) \<and>
     QRL_ADDR_LOWER_RE (fi_takerQrlAccount b) \<and> BYTES32_RE (fi_releaseCommitment b)"
  "canonicalFillBody rf = Inr f \<Longrightarrow> BYTES32_RE (fb_orderDigest f) \<and> BYTES32_RE (fb_intentDigest f) \<and>
     ETH_ADDR_LOWER_RE (fb_takerEthAccount f) \<and> QRL_ADDR_LOWER_RE (fb_takerQrlAccount f) \<and> BYTES32_RE (fb_releaseCommitment f) \<and>
     BYTES32_RE (fb_hashlock f) \<and> safe_nonneg (fb_initiatorTimeout f) \<and> safe_nonneg (fb_responderTimeout f)"
  "canonicalCancelBody rc = Inr d \<Longrightarrow> BYTES32_RE (cb_orderDigest d) \<and> 0 \<le> cb_reasonCode d \<and> cb_reasonCode d \<le> 255"
  by (auto simp: canonicalFillIntentBody_def canonicalFillBody_def canonicalCancelBody_def exactUint8_def js_simps safe_nonneg_def
      HASHLOCK_RE_def split: if_splits)

lemma verified_payloads_wf:
  "verified_order_ok cr vo \<Longrightarrow> payload_wf (order_payload (vo_order vo) (vo_auth vo))"
  "verifyFillIntentV1 cr now ae ri ra vo = Inr vi \<Longrightarrow> payload_wf (intent_payload (vi_intent vi) (vi_auth vi))"
  "verified_order_ok cr vo \<Longrightarrow> verifyFillV1 cr now ae rf ra vo vi = Inr vf \<Longrightarrow> payload_wf (fill_payload (vf_fill vf) (vf_auth vf) vo)"
  "verified_order_ok cr vo \<Longrightarrow> verifyCancelV1 cr now ae rc ra vo = Inr vc \<Longrightarrow> payload_wf (cancel_payload (vc_cancel vc) (vc_auth vc) vo)"
proof -
  show "verified_order_ok cr vo \<Longrightarrow> payload_wf (order_payload (vo_order vo) (vo_auth vo))"
    by (simp add: verified_order_ok_def order_payload_def maker_auth_wf_def auth_wf_def)
next
  assume "verifyFillIntentV1 cr now ae ri ra vo = Inr vi"
  then have "canonicalFillIntentBody ri = Inr (vi_intent vi)" "auth_wf (vi_auth vi)"
    by (auto simp: verifyFillIntentV1_def js_simps dest: parseAuth_wf)
  then show "payload_wf (intent_payload (vi_intent vi) (vi_auth vi))"
    by (simp add: intent_payload_def auth_wf_def canonical_bodies_wf)
next
  assume "verified_order_ok cr vo" "verifyFillV1 cr now ae rf ra vo vi = Inr vf"
  then have "canonicalFillBody rf = Inr (vf_fill vf)" "parseAuth ra = Inr (vf_auth vf)" "maker_auth_wf (vo_auth vo)"
    by (auto simp: verifyFillV1_def js_simps verified_order_ok_def)
  then have "canonicalFillBody rf = Inr (vf_fill vf)" "auth_wf (vf_auth vf)" "BYTES32_RE (pa_nonce (vo_auth vo))"
    using parseAuth_wf [of ra "vf_auth vf"] by (simp_all add: maker_auth_wf_def auth_wf_def)
  then show "payload_wf (fill_payload (vf_fill vf) (vf_auth vf) vo)"
    by (simp add: fill_payload_def auth_wf_def canonical_bodies_wf)
next
  assume "verified_order_ok cr vo" "verifyCancelV1 cr now ae rc ra vo = Inr vc"
  then have "canonicalCancelBody rc = Inr (vc_cancel vc)" "parseAuth ra = Inr (vc_auth vc)" "maker_auth_wf (vo_auth vo)"
    by (auto simp: verifyCancelV1_def js_simps verified_order_ok_def)
  then have "canonicalCancelBody rc = Inr (vc_cancel vc)" "auth_wf (vc_auth vc)" "BYTES32_RE (pa_nonce (vo_auth vo))"
    using parseAuth_wf [of ra "vc_auth vc"] by (simp_all add: maker_auth_wf_def auth_wf_def)
  then show "payload_wf (cancel_payload (vc_cancel vc) (vc_auth vc) vo)"
    by (simp add: cancel_payload_def auth_wf_def canonical_bodies_wf)
qed

lemma show_int_inject: "safe_nonneg a \<Longrightarrow> safe_nonneg b \<Longrightarrow> show_int a = show_int b \<longleftrightarrow> a = b"
  by (metis bigint_show_int safe_nonneg_def)

lemma names_inject:
  "direction_str d = direction_str d' \<longleftrightarrow> d = d'" "visibility_str v = visibility_str v' \<longleftrightarrow> v = v'" "asset_str a = asset_str a' \<longleftrightarrow> a = a'"
  subgoal by (cases d; cases d'; simp)
  subgoal by (cases v; cases v'; simp)
  subgoal by (cases a; cases a'; simp)
  done

lemma caip_inject: "caipEthAccount c a = caipEthAccount c b \<longleftrightarrow> a = b" "caipEthAccount c a \<noteq> ''''" "'''' \<noteq> caipEthAccount c a"
  by (simp_all add: caipEthAccount_def)

lemma order_terms_inject:
  assumes "order_body_wf b" "order_body_wf b'"
    and "\<And>k. k \<in> set (map fst (order_terms c b)) \<Longrightarrow>
      shown (the (map_of (order_terms c b) k)) = shown (the (map_of (order_terms c b') k))"
  shows "b = b'"
proof -
  note at = assms(3) [unfolded order_terms_def]
  have "ob_direction b = ob_direction b'" using at [of "''direction''"] by (simp add: names_inject)
  moreover have "ob_asset b = ob_asset b'" using at [of "''asset''"] by (simp add: names_inject)
  moreover have "ob_fromAmount b = ob_fromAmount b'" "ob_toAmount b = ob_toAmount b'"
    using at [of "''fromAmount''"] at [of "''toAmount''"] by simp_all
  moreover have "ob_makerEthAccount b = ob_makerEthAccount b'" "ob_makerQrlAccount b = ob_makerQrlAccount b'"
    using at [of "''makerEthAccount''"] at [of "''makerQrlAccount''"] by (simp_all add: caip_inject)
  moreover have "ob_visibility b = ob_visibility b'" using at [of "''visibility''"] by (simp add: names_inject)
  moreover have "ob_allowedTakerEth b = ob_allowedTakerEth b'"
    using at [of "''allowedTakerEth''"] by (auto simp: caip_inject split: option.splits)
  moreover have "ob_allowedTakerQrl b = ob_allowedTakerQrl b'"
    using at [of "''allowedTakerQrl''"] assms(1,2)
    by (auto simp: order_body_wf_def nvl_def QRL_ADDR_LOWER_RE_def matches_def split: option.splits)
  moreover have "ob_prelock b = ob_prelock b'"
    using at [of "''prelocked''"] at [of "''hashlock''"] at [of "''initiatorTimeout''"] assms(1,2)
    by (auto simp: order_body_wf_def prelock_wf_def show_int_inject safe_nonneg_def split: option.splits intro!: prelock_terms.equality)
  ultimately show ?thesis by simp
qed


lemma says_build: "says (buildPayload c p) k = shown (the (map_of (payload_terms c p) k))"
  by (simp add: says_def buildPayload_def)

lemma table_of:
  "map_of PROTOCOL_V2_FIELDS (payload_type p) = Some (case p of OrderV2 _ _ _ _ _ _ \<Rightarrow> ORDER_V1_FIELDS
     | FillIntentV2 _ _ _ _ \<Rightarrow> FILL_INTENT_V1_FIELDS | FillV2 _ \<Rightarrow> FILL_V1_FIELDS | CancelV2 _ _ _ _ \<Rightarrow> CANCEL_V1_FIELDS)"
  by (cases p) (simp_all add: PROTOCOL_V2_FIELDS_def)

lemmas field_tables = ORDER_V1_FIELDS_def FILL_INTENT_V1_FIELDS_def FILL_V1_FIELDS_def CANCEL_V1_FIELDS_def field_table_def DEPLOYMENT_FIELDS_def

lemma payload_unique:
  assumes "payload_wf p" "payload_wf q" "payload_type p = payload_type q"
    and "\<And>f. f \<in> set (the (map_of PROTOCOL_V2_FIELDS (payload_type p))) \<Longrightarrow>
      shown (the (map_of (payload_terms c p) (wf_name f))) = shown (the (map_of (payload_terms c q) (wf_name f)))"
  shows "p = q"
proof -
  have at_names: "set ks \<subseteq> wf_name ` set (the (map_of PROTOCOL_V2_FIELDS (payload_type p))) \<Longrightarrow>
    list_all (\<lambda>k. shown (the (map_of (payload_terms c p) k)) = shown (the (map_of (payload_terms c q) k))) ks" for ks
    using assms(4) by (fastforce simp: list_all_iff)
  show ?thesis
  proof (cases p)
    case (OrderV2 b i e n m s)
    with assms(3) obtain b' i' e' n' m' s' where q: "q = OrderV2 b' i' e' n' m' s'" by (cases q) auto
    have names: "map fst (order_terms c x) = [''direction'', ''asset'', ''fromAmount'', ''toAmount'', ''makerEthAccount'', ''makerQrlAccount'',
        ''visibility'', ''allowedTakerEth'', ''allowedTakerQrl'', ''prelocked'', ''hashlock'', ''initiatorTimeout'', ''ethChainId'',
        ''ethHtlc'', ''qrlChainId'', ''qrlHtlc'']" for x
      by (simp add: order_terms_def ORDER_V2_DEPLOYMENT_def)
    have first: "map_of (order_terms c x @ r) k = map_of (order_terms c x) k" if "k \<in> set (map fst (order_terms c b))" for k x r
      using that unfolding names map_of_append map_add_def by (cases "map_of (order_terms c x) k") (simp_all add: map_of_eq_None_iff image_set names)
    note at = assms(4) [unfolded table_of OrderV2 q payload.case]
    have "b = b'"
    proof (rule order_terms_inject)
      show "order_body_wf b" "order_body_wf b'" using assms(1,2) OrderV2 q by simp_all
      show "shown (the (map_of (order_terms c b) k)) = shown (the (map_of (order_terms c b') k))"
        if "k \<in> set (map fst (order_terms c b))" for k
      proof -
        have "set (map fst (order_terms c b)) \<subseteq> wf_name ` set ORDER_V1_FIELDS" unfolding names by (simp add: field_tables)
        with that obtain f where "f \<in> set ORDER_V1_FIELDS" "wf_name f = k" by blast
        with at [of f] show ?thesis by (simp only: payload_terms.simps first [OF that] option.sel simp_thms)
      qed
    qed
    moreover have "shown (the (map_of (payload_terms c p) k)) = shown (the (map_of (payload_terms c q) k))"
      if "k \<in> {''issuedAt'', ''expiresAt'', ''nonce'', ''makerTokenCommitment'', ''shareTokenCommitment''}" for k
    proof -
      from that have "k \<in> wf_name ` set ORDER_V1_FIELDS" by (auto simp: field_tables)
      then show ?thesis using at OrderV2 q by auto
    qed
    from this [of "''issuedAt''"] this [of "''expiresAt''"] this [of "''nonce''"] this [of "''makerTokenCommitment''"]
      this [of "''shareTokenCommitment''"]
    have "i = i'" "e = e'" "n = n'" "m = m'" "s = s'"
      using assms(1,2) unfolding OrderV2 q payload_terms.simps order_terms_def ORDER_V2_DEPLOYMENT_def by (simp_all add: show_int_inject)
    ultimately show ?thesis using OrderV2 q by simp
  next
    case (FillIntentV2 b n i e)
    with assms(3) obtain b' n' i' e' where q: "q = FillIntentV2 b' n' i' e'" by (cases q) auto
    note at = at_names [of "[''orderDigest'', ''requestNonce'', ''takerEthAccount'', ''takerQrlAccount'', ''releaseCommitment'',
        ''issuedAt'', ''expiresAt'']", unfolded table_of FillIntentV2 q payload.case payload_terms.simps, simplified field_tables, simplified]
    from at assms(1,2) have "b = b'" unfolding FillIntentV2 q
      by (intro fill_intent_body.equality) (simp_all add: caip_inject)
    moreover from at assms(1,2) have "n = n'" "i = i'" "e = e'" unfolding FillIntentV2 q by (simp_all add: show_int_inject)
    ultimately show ?thesis using FillIntentV2 q by simp
  next
    case (FillV2 t)
    with assms(3) obtain t' where q: "q = FillV2 t'" by (cases q) auto
    note at = at_names [of "[''orderDigest'', ''orderNonce'', ''intentDigest'', ''fillNonce'', ''takerEthAccount'', ''takerQrlAccount'',
        ''releaseCommitment'', ''hashlock'', ''initiatorTimeout'', ''responderTimeout'', ''issuedAt'', ''respondBy'']",
        unfolded table_of FillV2 q payload.case payload_terms.simps, simplified field_tables, simplified]
    from at assms(1,2) have "t = t'" unfolding FillV2 q
      by (intro fill_terms.equality fill_body.equality) (simp_all add: show_int_inject caip_inject)
    then show ?thesis using FillV2 q by simp
  next
    case (CancelV2 b m n i)
    with assms(3) obtain b' m' n' i' where q: "q = CancelV2 b' m' n' i'" by (cases q) auto
    note at = at_names [of "[''orderDigest'', ''orderNonce'', ''cancelNonce'', ''issuedAt'', ''reasonCode'']",
        unfolded table_of CancelV2 q payload.case payload_terms.simps, simplified field_tables, simplified]
    from assms(1,2) CancelV2 q have "safe_nonneg (cb_reasonCode b)" "safe_nonneg (cb_reasonCode b')"
      by (auto simp: safe_nonneg_def isSafeInteger_def MAX_SAFE_INTEGER_def)
    with at have "b = b'" by (intro cancel_body.equality) (simp_all add: show_int_inject)
    moreover from at assms(1,2) have "m = m'" "n = n'" "i = i'" unfolding CancelV2 q by (simp_all add: show_int_inject)
    ultimately show ?thesis using CancelV2 q by simp
  qed
qed


section \<open>Every verified artifact has bytes\<close>

lemma show_nat_digits: "list_all is_digit (show_nat n) \<and> show_nat n \<noteq> [] \<and> (0 < n \<longrightarrow> hd (show_nat n) \<noteq> CHR ''0'')"
proof (induction n rule: show_nat.induct)
  case (1 n)
  have d: "is_digit (char_of (48 + m))" "m \<noteq> 0 \<Longrightarrow> char_of (48 + m) \<noteq> CHR ''0''" if "m < 10" for m :: nat
  proof -
    have v: "of_char (char_of (48 + m) :: char) = 48 + m" using that by (simp add: of_char_of)
    then show "is_digit (char_of (48 + m))" using that by (simp add: is_digit_def char_in_def)
    show "char_of (48 + m) \<noteq> CHR ''0''" if "m \<noteq> 0"
    proof
      assume "char_of (48 + m) = CHR ''0''"
      then have "of_char (char_of (48 + m) :: char) = (of_char (CHR ''0'') :: nat)" by simp
      with v that show False by simp
    qed
  qed
  show ?case
  proof (cases "n < 10")
    case True
    with d [of n] show ?thesis by (simp add: show_nat.simps [of n])
  next
    case False
    then have "0 < n div 10" by simp
    with 1 [OF False] d(1) [of "n mod 10"] False show ?thesis by (simp add: show_nat.simps [of n])
  qed
qed

lemma uint_show_int: "safe_nonneg n \<Longrightarrow> UINT_RE (show_int n)"
  using show_nat_digits [of "nat n"]
  by (cases "n = 0") (auto simp: UINT_RE_def show_int_def safe_nonneg_def show_nat.simps [of 0] char_of_def)

lemma dec_value_bound: "list_all is_digit s \<Longrightarrow> dec_value s < 10 ^ length s"
proof (induction s rule: rev_induct)
  case (snoc c s)
  then have "dec_value s < 10 ^ length s" "digit_value c < 10" by (simp_all add: digit_value_lt)
  then have "10 * dec_value s + digit_value c < 10 * 10 ^ length s" by linarith
  then show ?case by (simp add: dec_value_snoc)
qed (simp add: dec_value_def)

lemma amount_uint:
  assumes "CANONICAL_AMOUNT_RE s"
  shows "UINT_RE s" "bigint s < 2 ^ 256"
proof -
  show "UINT_RE s" using assms by (auto simp: CANONICAL_AMOUNT_RE_def UINT_RE_def)
  have "list_all is_digit s" "length s \<le> 30" using assms by (auto simp: CANONICAL_AMOUNT_RE_def is_digit_def char_in_def)
  with dec_value_bound [of s] power_increasing [of "length s" 30 "10::nat"] have "dec_value s < 10 ^ 30" by simp
  then have "dec_value s < 2 ^ 256" by simp
  then show "bigint s < 2 ^ 256" by (simp add: bigint_def)
qed

lemma field_value_ok:
  "list_all printable s \<Longrightarrow> field_value \<lparr>wf_name = k, wf_type = ''string''\<rparr> (Some (JStr s)) = Inr (WStr s)"
  "BYTES32_RE s \<Longrightarrow> field_value \<lparr>wf_name = k, wf_type = ''bytes32''\<rparr> (Some (JStr s)) = Inr (WStr s)"
  "field_value \<lparr>wf_name = k, wf_type = ''bool''\<rparr> (Some (JBool b)) = Inr (WBool b)"
  "UINT_RE s \<Longrightarrow> bigint s < 2 ^ 256 \<Longrightarrow> field_value \<lparr>wf_name = k, wf_type = ''uint256''\<rparr> (Some (JStr s)) = Inr (WStr s)"
  "safe_nonneg n \<Longrightarrow> field_value \<lparr>wf_name = k, wf_type = ''uint64''\<rparr> (Some (JStr (show_int n))) = Inr (WStr (show_int n))"
  "0 \<le> n \<Longrightarrow> n \<le> 255 \<Longrightarrow> field_value \<lparr>wf_name = k, wf_type = ''uint8''\<rparr> (Some (JInt n)) = Inr (WStr (show_int n))"
proof -
  have w: "bigint ''256'' = 256" "bigint ''64'' = 64" "bigint ''8'' = 8"
    by (simp_all add: bigint_def dec_value_def digit_value_def)
  show "list_all printable s \<Longrightarrow> field_value \<lparr>wf_name = k, wf_type = ''string''\<rparr> (Some (JStr s)) = Inr (WStr s)"
    "BYTES32_RE s \<Longrightarrow> field_value \<lparr>wf_name = k, wf_type = ''bytes32''\<rparr> (Some (JStr s)) = Inr (WStr s)"
    "field_value \<lparr>wf_name = k, wf_type = ''bool''\<rparr> (Some (JBool b)) = Inr (WBool b)"
    by (simp_all add: field_value_def)
  show "UINT_RE s \<Longrightarrow> bigint s < 2 ^ 256 \<Longrightarrow> field_value \<lparr>wf_name = k, wf_type = ''uint256''\<rparr> (Some (JStr s)) = Inr (WStr s)"
    by (simp add: field_value_def uint_text_def w throw_if_def)
  show "safe_nonneg n \<Longrightarrow> field_value \<lparr>wf_name = k, wf_type = ''uint64''\<rparr> (Some (JStr (show_int n))) = Inr (WStr (show_int n))"
    using uint_show_int [of n] bigint_show_int [of n]
    by (auto simp: field_value_def uint_text_def w throw_if_def safe_nonneg_def isSafeInteger_def MAX_SAFE_INTEGER_def)
  assume n: "0 \<le> n" "n \<le> 255"
  then have "safe_nonneg n" by (simp add: safe_nonneg_def isSafeInteger_def MAX_SAFE_INTEGER_def)
  with uint_show_int [of n] n show "field_value \<lparr>wf_name = k, wf_type = ''uint8''\<rparr> (Some (JInt n)) = Inr (WStr (show_int n))"
    by (simp add: field_value_def uint_text_def w throw_if_def bigint_show_int safe_nonneg_def)
qed


lemma printable_hexes:
  "ETH_ADDR_LOWER_RE s \<Longrightarrow> list_all printable s" "QRL_ADDR_LOWER_RE s \<Longrightarrow> list_all printable s"
  unfolding ETH_ADDR_LOWER_RE_def QRL_ADDR_LOWER_RE_def
  by (erule matches_printable, simp add: printable_def, simp add: hex_printable)+

lemma deployment_printable:
  assumes "config_accepted c"
  shows "list_all printable (domain_ethHtlc c)" "list_all printable (domain_qrlHtlc c)"
    "UINT_RE (vc_ethChainId c)" "bigint (vc_ethChainId c) < 2 ^ 256" "UINT_RE (vc_qrlChainId c)" "bigint (vc_qrlChainId c) < 2 ^ 256"
    "ETH_ADDR_LOWER_RE a \<Longrightarrow> list_all printable (caipEthAccount c a)"
proof -
  have l: "list_all printable (to_lower s)" if "list_all is_hex_any s" for s
    using that by (auto simp: to_lower_def list_all_iff intro!: hex_printable is_hex_lower_lower)
  have id: "vc_ethChainId c = ''11155111''" "vc_qrlChainId c = ''3151909''" using assms by (simp_all add: config_accepted_def)
  show "UINT_RE (vc_ethChainId c)" "bigint (vc_ethChainId c) < 2 ^ 256" "UINT_RE (vc_qrlChainId c)" "bigint (vc_qrlChainId c) < 2 ^ 256"
    unfolding id by (simp_all add: UINT_RE_def is_digit_def char_in_def bigint_def dec_value_def digit_value_def)
  show "ETH_ADDR_LOWER_RE a \<Longrightarrow> list_all printable (caipEthAccount c a)"
    using printable_hexes(1) [of a] by (simp add: caipEthAccount_def id printable_def [abs_def])
  show "list_all printable (domain_ethHtlc c)"
  proof (cases "vc_ethHtlc c = ''''")
    case False
    then have "matches ''0x'' is_hex_any 40 (vc_ethHtlc c)" using assms by (simp add: config_accepted_def)
    then obtain r where "vc_ethHtlc c = ''0x'' @ r" "list_all is_hex_any r"
      by (metis append_take_drop_id matches_def)
    with l [of r] show ?thesis
      by (simp add: domain_ethHtlc_def id to_lower_def printable_def [abs_def] lower_char_def)
  qed (simp add: domain_ethHtlc_def)
  show "list_all printable (domain_qrlHtlc c)"
  proof (cases "vc_qrlHtlc c = ''''")
    case False
    then have "list_all is_hex_any (drop 1 (vc_qrlHtlc c))" using assms by (auto simp: config_accepted_def matches_def)
    with l [of "drop 1 (vc_qrlHtlc c)"] show ?thesis by (simp add: domain_qrlHtlc_def printable_def [abs_def])
  qed (simp add: domain_qrlHtlc_def)
qed


lemma message_values_ok:
  assumes "list_all (\<lambda>f. \<exists>w. field_value f (map_of msg (wf_name f)) = Inr w) fs"
  shows "\<exists>vals. message_values fs msg = Inr vals"
  using assms
proof (induction fs)
  case (Cons f fs)
  then obtain w vals where "field_value f (map_of msg (wf_name f)) = Inr w" "message_values fs msg = Inr vals" by auto
  then show ?case by (simp add: message_values_def)
qed (simp add: message_values_def)

lemma order_body_printable:
  assumes "order_body_wf b" "config_accepted c"
  shows "list_all printable (direction_str (ob_direction b))" "list_all printable (asset_str (ob_asset b))"
    "list_all printable (visibility_str (ob_visibility b))" "list_all printable (caipEthAccount c (ob_makerEthAccount b))"
    "list_all printable (ob_makerQrlAccount b)" "list_all printable (nvl (ob_allowedTakerQrl b) '''')"
    "list_all printable (case ob_allowedTakerEth b of None \<Rightarrow> '''' | Some e \<Rightarrow> caipEthAccount c e)"
    "BYTES32_RE (case ob_prelock b of None \<Rightarrow> ZERO32 | Some p \<Rightarrow> pl_hashlock p)"
    "\<exists>n. safe_nonneg n \<and> (case ob_prelock b of None \<Rightarrow> ''0'' | Some p \<Rightarrow> show_int (pl_initiatorTimeout p)) = show_int n"
  subgoal by (cases "ob_direction b") (simp_all add: printable_def)
  subgoal by (cases "ob_asset b") (simp_all add: printable_def)
  subgoal by (cases "ob_visibility b") (simp_all add: printable_def)
  subgoal using assms by (simp add: order_body_wf_def deployment_printable)
  subgoal using assms by (simp add: order_body_wf_def printable_hexes)
  subgoal using assms by (simp add: order_body_wf_def nvl_def printable_hexes split: option.splits)
  subgoal using assms by (simp add: order_body_wf_def deployment_printable split: option.splits)
  subgoal using assms by (simp add: order_body_wf_def prelock_wf_def HASHLOCK_RE_def BYTES32_RE_def matches_def ZERO32_def list_all_iff
        is_hex_lower_def is_digit_def char_in_def split: option.splits)
  subgoal
  proof (cases "ob_prelock b")
    case None
    have "safe_nonneg 0 \<and> ''0'' = show_int 0"
      by (simp add: safe_nonneg_def isSafeInteger_def MAX_SAFE_INTEGER_def show_int_def show_nat.simps [of 0] char_of_48)
    with None show ?thesis by auto
  next
    case (Some p)
    with assms(1) have "safe_nonneg (pl_initiatorTimeout p)" by (simp add: order_body_wf_def prelock_wf_def safe_nonneg_def)
    with Some show ?thesis by auto
  qed
  done

lemma terms_have_values:
  assumes "config_accepted c" "payload_wf p"
  shows "\<exists>vals. message_values (the (map_of PROTOCOL_V2_FIELDS (payload_type p))) (payload_terms c p) = Inr vals"
proof (rule message_values_ok)
  note dep = deployment_printable [OF assms(1)]
  show "list_all (\<lambda>f. \<exists>w. field_value f (map_of (payload_terms c p) (wf_name f)) = Inr w)
      (the (map_of PROTOCOL_V2_FIELDS (payload_type p)))"
  proof (cases p)
    case (OrderV2 b i e n m s)
    with assms(2) have wf: "order_body_wf b" by simp
    note pr = order_body_printable [OF wf assms(1)]
    from pr(9) obtain t where t: "safe_nonneg t" "(case ob_prelock b of None \<Rightarrow> ''0'' | Some p \<Rightarrow> show_int (pl_initiatorTimeout p)) = show_int t"
      by blast
    from wf amount_uint have a: "UINT_RE (ob_fromAmount b)" "bigint (ob_fromAmount b) < 2 ^ 256" "UINT_RE (ob_toAmount b)" "bigint (ob_toAmount b) < 2 ^ 256"
      by (simp_all add: order_body_wf_def)
    from pr(1-8) t(1) a dep assms(2) show ?thesis
      unfolding table_of OrderV2 option.sel payload.case field_tables payload_terms.simps order_terms_def ORDER_V2_DEPLOYMENT_def t(2)
      by (simp add: field_value_ok)
  next
    case (FillIntentV2 b n i e)
    with dep assms(2) show ?thesis
      unfolding table_of FillIntentV2 option.sel payload.case field_tables payload_terms.simps ORDER_V2_DEPLOYMENT_def
      by (simp add: field_value_ok printable_hexes)
  next
    case (FillV2 t)
    with dep assms(2) show ?thesis
      unfolding table_of FillV2 option.sel payload.case field_tables payload_terms.simps ORDER_V2_DEPLOYMENT_def
      by (simp add: field_value_ok printable_hexes)
  next
    case (CancelV2 b m n i)
    with dep assms(2) show ?thesis
      unfolding table_of CancelV2 option.sel payload.case field_tables payload_terms.simps ORDER_V2_DEPLOYMENT_def
      by (simp add: field_value_ok)
  qed
qed

lemma terms_keys:
  "exactKeys (map fst (payload_terms c p)) (map wf_name (the (map_of PROTOCOL_V2_FIELDS (payload_type p)))) = Inr ()"
  unfolding table_of exactKeys_def
  by (cases p) (simp_all add: field_tables order_terms_def ORDER_V2_DEPLOYMENT_def)

lemma domain_ok:
  "exactKeys (map fst (map (\<lambda>(k, v). (k, JStr v)) (ORDER_V2_DOMAIN c))) (map fst (ORDER_V2_DOMAIN c)) = Inr ()"
  "\<exists>ds. domain_values c (map (\<lambda>(k, v). (k, JStr v)) (ORDER_V2_DOMAIN c)) = Inr ds"
  by (simp_all add: exactKeys_def ORDER_V2_DOMAIN_def domain_values_def)

lemma signed_bytes_exist:
  assumes "config_accepted c" "payload_wf p"
  shows "\<exists>b. signed_bytes c p = Inr b"
proof -
  obtain fs where fs: "map_of PROTOCOL_V2_FIELDS (payload_type p) = Some fs" using table_of by blast
  from terms_have_values [OF assms] fs obtain vals where v: "message_values fs (payload_terms c p) = Inr vals" by auto
  from domain_ok(2) obtain ds where d: "domain_values c (map (\<lambda>(k, v). (k, JStr v)) (ORDER_V2_DOMAIN c)) = Inr ds" by blast
  have "exactKeys [payload_type p] [payload_type p] = Inr ()" by (simp add: exactKeys_def)
  with fs v d domain_ok(1) [of c] terms_keys [of c p] show ?thesis
    by (simp add: signed_bytes_def protocolMessageBytes_def buildPayload_def nvl_def)
qed

text \<open>
  C2: what is signed is unambiguous. Every artifact with well-formed terms (and all artifacts the
  verifiers accept have them) has message bytes under an accepted deployment profile, and two
  artifacts with the same bytes are the same artifact: of the same kind, with the same terms, so a
  signature or a digest of one is never that of another.
\<close>

theorem signed_bytes_unambiguous:
  assumes "config_accepted c" "payload_wf p" "payload_wf q"
  shows "(\<exists>b. signed_bytes c p = Inr b) \<and> (signed_bytes c p = signed_bytes c q \<longrightarrow> p = q)"
proof -
  obtain b where b: "signed_bytes c p = Inr b" using signed_bytes_exist [OF assms(1,2)] by blast
  have "p = q" if "signed_bytes c q = Inr b"
  proof -
    have k: "wp_primaryType (buildPayload c x) = payload_type x" for x by (simp add: buildPayload_def)
    from wire_unique [OF b [unfolded signed_bytes_def] that [unfolded signed_bytes_def], unfolded k says_build]
    have "payload_type p = payload_type q" "\<And>f. f \<in> set (the (map_of PROTOCOL_V2_FIELDS (payload_type p))) \<Longrightarrow>
        shown (the (map_of (payload_terms c p) (wf_name f))) = shown (the (map_of (payload_terms c q) (wf_name f)))" by blast+
    then show ?thesis by (rule payload_unique [OF assms(2,3)])
  qed
  with b show ?thesis by simp
qed

definition demo_config :: v2_config where
  "demo_config = \<lparr>vc_version = ''2'', vc_ethChainId = ''11155111'', vc_qrlChainId = ''3151909'',
     vc_qrlGenesisHash = ''0xd15407991193e6c23b733dc6bf9c628deaff8f9b6e252aa0d60030952b3e3ea4'', vc_htlcInterface = ''v3'',
     vc_ethHtlc = '''', vc_qrlHtlc = ''''\<rparr>"

theorem signed_bytes_unambiguous_witness:
  "signed_bytes demo_config (CancelV2 \<lparr>cb_orderDigest = ZERO32, cb_reasonCode = 1\<rparr> ZERO32 ZERO32 7)
     \<noteq> signed_bytes demo_config (CancelV2 \<lparr>cb_orderDigest = ZERO32, cb_reasonCode = 2\<rparr> ZERO32 ZERO32 7)"
proof -
  have z: "BYTES32_RE ZERO32"
    by (simp add: BYTES32_RE_def matches_def ZERO32_def list_all_iff is_hex_lower_def is_digit_def char_in_def)
  have w: "payload_wf (CancelV2 \<lparr>cb_orderDigest = ZERO32, cb_reasonCode = r\<rparr> ZERO32 ZERO32 7)" if "0 \<le> r" "r \<le> 255" for r
    using that z by (simp add: safe_nonneg_def isSafeInteger_def MAX_SAFE_INTEGER_def)
  have "config_accepted demo_config" by (simp add: config_accepted_def demo_config_def HTLC_INTERFACE_def)
  from signed_bytes_unambiguous [OF this w [of 1] w [of 2]] show ?thesis by auto
qed

end
