(* ===== verification/Federation_Feed.thy ===== *)
theory Federation_Feed
  imports Order_Store Protocol_Wire
begin

text \<open>
  The federation event feed (\<^verbatim>\<open>server/src/federation.ts\<close>): canonical event identifiers, the
  retained ring with its staged appends and their undo, the append-only log file with compaction,
  torn-tail recovery, migration and quarantine, and the pages peers follow with a cursor. SHA-256
  is a parameter; the outcomes of file operations are inputs of the operation that performs them.
  A file is its complete lines, each parsed as JSON or not, and an unterminated rest.
\<close>

section \<open>Canonical events\<close>

lemma size_member_obj: "(k, v) \<in> set kvs \<Longrightarrow> size (v::json) < Suc (size_list (size_prod (\<lambda>x. 0) size) kvs)"
  by (induction kvs) auto

lemma size_member_arr: "v \<in> set vs \<Longrightarrow> size (v::json) < Suc (size_list size vs)"
  by (induction vs) auto

lemma map_result_cong [fundef_cong]:
  "xs = ys \<Longrightarrow> (\<And>x. x \<in> set ys \<Longrightarrow> f x = g x) \<Longrightarrow> map_result f xs = map_result g ys"
  by (induction xs arbitrary: ys) auto

function canonicalValue :: "json \<Rightarrow> (string, string) result" where
  "canonicalValue JNull = Inr ''null''"
| "canonicalValue (JStr s) = Inr (json_quote s)"
| "canonicalValue (JBool b) = Inr (if b then ''true'' else ''false'')"
| "canonicalValue (JInt n) = throw_if (\<not> isSafeInteger n) ''federation events may contain only safe integer numbers'' (Inr (show_int n))"
| "canonicalValue JFloat = Inl ''federation events may contain only safe integer numbers''"
| "canonicalValue (JArr vs) = js_bind (map_result canonicalValue vs) (\<lambda>ts. Inr (''['' @ comma_join ts @ '']''))"
| "canonicalValue (JObj kvs) =
     js_bind (map_result (\<lambda>kv. js_bind (canonicalValue (snd kv)) (\<lambda>t. Inr (json_quote (fst kv) @ '':'' @ t))) (sort_key fst kvs))
       (\<lambda>ts. Inr (''{'' @ comma_join ts @ ''}''))"
  by pat_completeness auto

termination canonicalValue
  by (relation "measure size") (auto dest: size_member_arr size_member_obj)

fun kind_str :: "fed_kind \<Rightarrow> string" where
  "kind_str EvOrder = ''order-v2''"
| "kind_str EvFillIntent = ''fill-intent-v2''"
| "kind_str EvFill = ''fill-v2''"
| "kind_str EvCancel = ''cancel-v2''"
| "kind_str EvRelease = ''release-v2''"

definition isEventKind :: "json option \<Rightarrow> fed_kind option" where
  "isEventKind value = find (\<lambda>k. value = Some (JStr (kind_str k))) [EvOrder, EvFillIntent, EvFill, EvCancel, EvRelease]"

definition event_json :: "fed_event \<Rightarrow> json" where
  "event_json ev = JObj [(''kind'', JStr (kind_str (fe_kind ev))), (''payload'', JObj (fe_payload ev))]"

definition canonicalFederationJson :: "fed_event \<Rightarrow> (string, string) result" where
  "canonicalFederationJson ev = canonicalValue (event_json ev)"

definition federationEventId :: "(string \<Rightarrow> string) \<Rightarrow> fed_event \<Rightarrow> (string, string) result" where
  "federationEventId sha256 ev = js_bind (canonicalFederationJson ev) (\<lambda>t. Inr (sha256 t))"

definition MAX_EVENT_BYTES :: nat where "MAX_EVENT_BYTES = 64 * 1024"
definition MAX_SNAPSHOT_EVENTS :: nat where "MAX_SNAPSHOT_EVENTS = 8192"
definition MAX_FEDERATION_INCREMENTAL_BYTES :: nat where "MAX_FEDERATION_INCREMENTAL_BYTES = 4 * 1024 * 1024"
definition RESET_CACHE_TTL_MS :: int where "RESET_CACHE_TTL_MS = 5000"

definition hasExactKeys :: "jobj \<Rightarrow> string list \<Rightarrow> bool" where
  "hasExactKeys value expected \<longleftrightarrow> length value = length expected \<and> (\<forall>k\<in>set expected. k \<in> set (map fst value))"

definition parseFederationEvent :: "json \<Rightarrow> (string, fed_event) result" where
  "parseFederationEvent raw =
     (case raw of
        JObj row \<Rightarrow>
          throw_if (\<not> hasExactKeys row [''kind'', ''payload'']) ''federation event has unexpected fields''
         (case isEventKind (map_of row ''kind'') of
            None \<Rightarrow> Inl ''federation event has an invalid kind''
          | Some k \<Rightarrow>
            (case map_of row ''payload'' of
               Some (JObj payload) \<Rightarrow>
                 (let ev = \<lparr>fe_kind = k, fe_payload = payload\<rparr> in
                  js_bind (canonicalFederationJson ev) (\<lambda>t.
                  throw_if (length (utf8 t) > MAX_EVENT_BYTES) ''federation event exceeds the size limit'' (Inr ev)))
             | _ \<Rightarrow> Inl ''federation event has an invalid payload''))
      | _ \<Rightarrow> Inl ''federation event must be an object'')"

definition federationSnapshotDigest :: "(string \<Rightarrow> string) \<Rightarrow> fed_event list \<Rightarrow> (string, string) result" where
  "federationSnapshotDigest sha256 rawEvents =
     throw_if (length rawEvents > MAX_SNAPSHOT_EVENTS) ''federation snapshot exceeds the event limit''
    (js_bind (map_result (\<lambda>raw. js_bind (parseFederationEvent (event_json raw)) (federationEventId sha256)) rawEvents) (\<lambda>ids.
       Inr (sha256 (''QuantaSwap Federation snapshot V1'' @ [CHR 0x00] @ concat (sort (remdups ids))))))"


section \<open>The feed\<close>

record feed_record =
  fr_seq :: int
  fr_eventId :: string
  fr_event :: fed_event
  fr_receivedAt :: int

record federation_page =
  fp_reset :: bool
  fp_cursor :: string
  fp_hasMore :: bool
  fp_events :: "feed_record list"
  fp_snapshot :: "(int \<times> string \<times> fed_event) list option"

record feed_cfg =
  fc_sha256 :: "string \<Rightarrow> string"
  fc_maxEvents :: nat
  fc_recordBytes :: "feed_record \<Rightarrow> nat"

record feed =
  ff_feedId :: string
  ff_nextSeq :: int
  ff_events :: "feed_record list"
  ff_eventIds :: "string set"
  ff_snapshotDigest :: "string option"
  ff_cachedResetPage :: "(int \<times> federation_page) option"
  ff_logLines :: "nat option"
  ff_logIdentity :: "nat option"
  ff_compactionFailing :: bool

definition new_feed :: "string \<Rightarrow> feed" where
  "new_feed fid = \<lparr>ff_feedId = fid, ff_nextSeq = 1, ff_events = [], ff_eventIds = {}, ff_snapshotDigest = None,
     ff_cachedResetPage = None, ff_logLines = None, ff_logIdentity = None, ff_compactionFailing = False\<rparr>"

definition oldest_seq :: "feed \<Rightarrow> int" where
  "oldest_seq f = (case ff_events f of [] \<Rightarrow> ff_nextSeq f | r # _ \<Rightarrow> fr_seq r)"

text \<open>\<^verbatim>\<open>FEDERATION_CURSOR_RE\<close>: 32 hexadecimal digits, a colon and a canonical number of at most 16 digits.\<close>

definition parse_cursor :: "string \<Rightarrow> (string \<times> int) option" where
  "parse_cursor s =
     (let n = drop 33 s in
      if length s > 33 \<and> list_all is_hex_lower (take 32 s) \<and> s ! 32 = CHR '':'' \<and> UINT_RE n \<and> length n \<le> 16
      then Some (take 32 s, bigint n) else None)"

definition requiresReset :: "string option \<Rightarrow> feed \<Rightarrow> bool" where
  "requiresReset cursor f =
     (case cursor of None \<Rightarrow> True | Some c \<Rightarrow>
        if length c > 64 then True
        else (case parse_cursor c of None \<Rightarrow> True | Some (fid, after) \<Rightarrow>
          if fid \<noteq> ff_feedId f then True
          else if \<not> isSafeInteger after then True
          else after < oldest_seq f - 1 \<or> after > ff_nextSeq f - 1))"

definition cursor_at :: "feed \<Rightarrow> int \<Rightarrow> string" where
  "cursor_at f n = ff_feedId f @ '':'' @ show_int n"


record feed_status =
  fst_retainedEvents :: nat
  fst_oldestSequence :: "int option"
  fst_latestSequence :: "int option"
  fst_lastEventAt :: "int option"
  fst_compactionFailing :: bool

definition feed_status_of :: "feed \<Rightarrow> feed_status" where
  "feed_status_of f = (case ff_events f of
      [] \<Rightarrow> \<lparr>fst_retainedEvents = 0, fst_oldestSequence = None, fst_latestSequence = None, fst_lastEventAt = None,
        fst_compactionFailing = ff_compactionFailing f\<rparr>
    | r # rs \<Rightarrow> \<lparr>fst_retainedEvents = length (r # rs), fst_oldestSequence = Some (fr_seq r),
        fst_latestSequence = Some (fr_seq (last (r # rs))), fst_lastEventAt = Some (fr_receivedAt (last (r # rs)) * 1000),
        fst_compactionFailing = ff_compactionFailing f\<rparr>)"

definition feed_has :: "string \<Rightarrow> feed \<Rightarrow> bool" where
  "feed_has eventId f \<longleftrightarrow> eventId \<in> ff_eventIds f"

definition shouldRecordFederationCheckpoint :: "int \<Rightarrow> bool \<Rightarrow> bool" where
  "shouldRecordFederationCheckpoint exitCode feedHealthy \<longleftrightarrow> exitCode = 0 \<and> feedHealthy"


section \<open>Log lines\<close>

definition digest_json :: "string option \<Rightarrow> json" where
  "digest_json d = (case d of None \<Rightarrow> JNull | Some t \<Rightarrow> JStr t)"

definition header_line :: "feed \<Rightarrow> json" where
  "header_line f = JObj [(''type'', JStr ''header''), (''version'', JInt 3), (''feedId'', JStr (ff_feedId f)),
     (''nextSeq'', JInt (ff_nextSeq f)), (''snapshotDigest'', digest_json (ff_snapshotDigest f))]"

definition event_line :: "feed_record \<Rightarrow> json" where
  "event_line r = JObj [(''type'', JStr ''event''), (''seq'', JInt (fr_seq r)), (''eventId'', JStr (fr_eventId r)),
     (''event'', event_json (fr_event r)), (''receivedAt'', JInt (fr_receivedAt r))]"

definition digest_line :: "string option \<Rightarrow> json" where
  "digest_line d = JObj [(''type'', JStr ''digest''), (''snapshotDigest'', digest_json d)]"

definition EVENT_ID_RE :: "string \<Rightarrow> bool" where
  "EVENT_ID_RE s \<longleftrightarrow> matches '''' is_hex_lower 64 s"

definition FEED_ID_RE :: "string \<Rightarrow> bool" where
  "FEED_ID_RE s \<longleftrightarrow> matches '''' is_hex_lower 32 s"

definition parseRecord :: "(string \<Rightarrow> string) \<Rightarrow> jobj \<Rightarrow> (string, feed_record) result" where
  "parseRecord sha256 row =
     (case (map_of row ''seq'', map_of row ''eventId'', map_of row ''receivedAt'') of
        (Some (JInt s), Some (JStr i), Some (JInt at)) \<Rightarrow>
          throw_if (\<not> isSafeInteger s \<or> s < 1) ''persisted federation event has an invalid sequence''
         (throw_if (\<not> EVENT_ID_RE i) ''persisted federation event has an invalid id''
         (throw_if (\<not> isSafeInteger at \<or> at < 0) ''persisted federation event has an invalid receive time''
         (js_bind (parseFederationEvent (nvl (map_of row ''event'') JNull)) (\<lambda>ev.
          js_bind (federationEventId sha256 ev) (\<lambda>i'.
          throw_if (i' \<noteq> i) ''persisted federation event has a mismatched id''
            (Inr \<lparr>fr_seq = s, fr_eventId = i, fr_event = ev, fr_receivedAt = at\<rparr>))))))
      | _ \<Rightarrow> Inl ''persisted federation event is invalid'')"

definition parseDigest :: "json option \<Rightarrow> (string, string option) result" where
  "parseDigest v = (case v of None \<Rightarrow> Inr None | Some JNull \<Rightarrow> Inr None
     | Some (JStr s) \<Rightarrow> throw_if (\<not> EVENT_ID_RE s) ''federation data file has an invalid snapshot digest'' (Inr (Some s))
     | _ \<Rightarrow> Inl ''federation data file has an invalid snapshot digest'')"

definition parseLine :: "json option \<Rightarrow> (string, jobj) result" where
  "parseLine l = (case l of None \<Rightarrow> Inl ''federation data file line is not valid JSON''
     | Some (JObj row) \<Rightarrow> Inr row | Some _ \<Rightarrow> Inl ''federation data file line must contain an object'')"


section \<open>Loading\<close>

record log_file =
  lf_lines :: "json option list"
  lf_rest :: "json option option"

type_synonym disk = "(nat \<times> log_file) option"

record log_scan =
  ls_digest :: "string option"
  ls_events :: "feed_record list"
  ls_ids :: "string set"
  ls_lastSeq :: int

definition trimmed :: "nat \<Rightarrow> feed_record list \<Rightarrow> feed_record list" where
  "trimmed maxEvents rs = take (length rs - maxEvents) rs"

definition kept :: "nat \<Rightarrow> feed_record list \<Rightarrow> feed_record list" where
  "kept maxEvents rs = drop (length rs - maxEvents) rs"

definition scan_event :: "nat \<Rightarrow> feed_record \<Rightarrow> log_scan \<Rightarrow> (string, log_scan) result" where
  "scan_event maxEvents r sc =
     throw_if (fr_seq r \<le> ls_lastSeq sc) ''federation data file sequences are not increasing''
    (let events = (if fr_eventId r \<in> ls_ids sc
           then (case find (\<lambda>e. fr_eventId e = fr_eventId r) (ls_events sc) of
             None \<Rightarrow> butlast (ls_events sc) | Some e \<Rightarrow> remove1 e (ls_events sc))
           else ls_events sc) @ [r]
     in Inr (sc\<lparr>ls_lastSeq := fr_seq r, ls_events := kept maxEvents events,
          ls_ids := insert (fr_eventId r) (ls_ids sc) - set (map fr_eventId (trimmed maxEvents events))\<rparr>))"

definition scan_line :: "feed_cfg \<Rightarrow> json option \<Rightarrow> log_scan \<Rightarrow> (string, log_scan) result" where
  "scan_line cfg l sc = js_bind (parseLine l) (\<lambda>row.
     if map_of row ''type'' = Some (JStr ''digest'') then
       js_bind (parseDigest (map_of row ''snapshotDigest'')) (\<lambda>d. Inr (sc\<lparr>ls_digest := d\<rparr>))
     else if map_of row ''type'' \<noteq> Some (JStr ''event'') then Inl ''federation data file line has an unknown type''
     else js_bind (parseRecord (fc_sha256 cfg) (AList.delete ''type'' row)) (\<lambda>r. scan_event (fc_maxEvents cfg) r sc))"

fun scan_lines :: "feed_cfg \<Rightarrow> json option list \<Rightarrow> log_scan \<Rightarrow> (string, log_scan) result" where
  "scan_lines cfg [] sc = Inr sc"
| "scan_lines cfg (l # ls) sc = js_bind (scan_line cfg l sc) (scan_lines cfg ls)"

definition increasing :: "feed_record list \<Rightarrow> bool" where
  "increasing rs \<longleftrightarrow> (\<forall>i<length rs. 0 < i \<longrightarrow> fr_seq (rs ! (i - 1)) < fr_seq (rs ! i))"

definition last_seq :: "feed_record list \<Rightarrow> int" where
  "last_seq rs = (if rs = [] then 0 else fr_seq (last rs))"

definition feed_identity :: "jobj \<Rightarrow> (string, string \<times> int) result" where
  "feed_identity row =
     (case map_of row ''feedId'' of
        Some (JStr fid) \<Rightarrow> throw_if (\<not> FEED_ID_RE fid) ''federation data file has an invalid feed id''
         (case map_of row ''nextSeq'' of
            Some (JInt n) \<Rightarrow> throw_if (\<not> isSafeInteger n \<or> n < 1) ''federation data file has an invalid sequence'' (Inr (fid, n))
          | _ \<Rightarrow> Inl ''federation data file has an invalid sequence'')
      | _ \<Rightarrow> Inl ''federation data file has an invalid feed id'')"

definition loadLegacyEnvelope :: "feed_cfg \<Rightarrow> jobj \<Rightarrow> feed \<Rightarrow> (string, feed) result" where
  "loadLegacyEnvelope cfg env f =
     js_bind (feed_identity env) (\<lambda>(fid, nextSeq).
     case map_of env ''events'' of
       Some (JArr raws) \<Rightarrow>
         throw_if (length raws > fc_maxEvents cfg) ''federation data file has an invalid event list''
        (js_bind (parseDigest (map_of env ''snapshotDigest'')) (\<lambda>d.
         js_bind (map_result (\<lambda>raw. case raw of JObj row \<Rightarrow> parseRecord (fc_sha256 cfg) row | _ \<Rightarrow> Inl ''persisted federation event is invalid'') raws) (\<lambda>events.
         throw_if (\<not> increasing events) ''federation data file sequences are not increasing''
        (throw_if (last_seq events \<ge> nextSeq) ''federation data file next sequence is invalid''
        (throw_if (\<not> distinct (map fr_eventId events)) ''federation data file contains duplicate events''
        (Inr (f\<lparr>ff_feedId := fid, ff_nextSeq := nextSeq, ff_events := events, ff_eventIds := set (map fr_eventId events),
            ff_snapshotDigest := d\<rparr>)))))))
     | _ \<Rightarrow> Inl ''federation data file has an invalid event list'')"

definition parseLog :: "feed_cfg \<Rightarrow> log_file \<Rightarrow> feed \<Rightarrow> (string, bool \<times> feed) result" where
  "parseLog cfg file f =
     (case lf_lines file of
        [] \<Rightarrow> (case lf_rest file of
            None \<Rightarrow> Inr (True, f)
          | Some raw \<Rightarrow> js_bind (parseLine raw) (\<lambda>env.
              throw_if (map_of env ''version'' \<noteq> Some (JInt 2)) ''federation data file has an unsupported version''
             (js_bind (loadLegacyEnvelope cfg env f) (\<lambda>f'. Inr (True, f')))))
      | first # rest \<Rightarrow>
          js_bind (parseLine first) (\<lambda>header.
          throw_if (map_of header ''type'' \<noteq> Some (JStr ''header'') \<or> map_of header ''version'' \<noteq> Some (JInt 3))
            ''federation data file has an unsupported version''
         (js_bind (feed_identity header) (\<lambda>(fid, nextSeq).
          js_bind (parseDigest (map_of header ''snapshotDigest'')) (\<lambda>d.
          js_bind (scan_lines cfg rest \<lparr>ls_digest = d, ls_events = [], ls_ids = {}, ls_lastSeq = 0\<rparr>) (\<lambda>sc.
          Inr (lf_rest file \<noteq> None, f\<lparr>ff_feedId := fid, ff_nextSeq := max nextSeq (ls_lastSeq sc + 1), ff_events := ls_events sc,
            ff_eventIds := ls_ids sc, ff_snapshotDigest := ls_digest sc, ff_logLines := Some (length rest)\<rparr>)))))))"



section \<open>File operations\<close>

datatype compact_outcome = CompactDone nat | StagingFailed | DirectorySyncFailed nat

datatype append_outcome = AppendDone | AppendUndone | AppendTorn nat "json option option"

text \<open>
  What the file system does during one operation: whether the lease proves ownership when an append
  checks it and when a compaction does, how a compaction ends (the new file's identity once it is renamed into place; staging or renaming fails;
  only the directory flush fails), and how an append ends (written and flushed; failed and truncated
  back; failed with the truncation failing too, which leaves some lines and an unterminated rest), and
  whether an unreadable log can be moved aside.
\<close>

record feed_io =
  io_owned :: bool
  io_compactOwned :: bool
  io_compact :: compact_outcome
  io_append :: append_outcome
  io_moved :: bool

datatype log_status = Unwritten | Owned | Missing | Replaced

definition logFileStatus :: "feed \<Rightarrow> disk \<Rightarrow> log_status" where
  "logFileStatus f d = (case ff_logIdentity f of None \<Rightarrow> Unwritten
     | Some remembered \<Rightarrow> (case d of None \<Rightarrow> Missing
         | Some (current, _) \<Rightarrow> if current = remembered then Owned else Replaced))"

definition lease_lost :: string where
  "lease_lost = ''single-writer lease is not owned''"

definition compact_file :: "feed \<Rightarrow> log_file" where
  "compact_file f = \<lparr>lf_lines = Some (header_line f) # map (\<lambda>r. Some (event_line r)) (ff_events f), lf_rest = None\<rparr>"

type_synonym 'a feed_answer = "(string + 'a) \<times> feed \<times> disk"

definition compact :: "feed_io \<Rightarrow> feed \<Rightarrow> disk \<Rightarrow> unit feed_answer" where
  "compact io f d =
     (if \<not> io_compactOwned io then (Inl lease_lost, f, d)
      else case io_compact io of
        StagingFailed \<Rightarrow> (Inl ''federation data could not be persisted safely'', f\<lparr>ff_logLines := None\<rparr>, d)
      | DirectorySyncFailed fresh \<Rightarrow>
          (Inl ''federation data could not be persisted safely'', f\<lparr>ff_logLines := None\<rparr>, Some (fresh, compact_file f))
      | CompactDone fresh \<Rightarrow>
          (Inr (), f\<lparr>ff_logLines := Some (length (ff_events f)), ff_logIdentity := Some fresh, ff_compactionFailing := False\<rparr>,
           Some (fresh, compact_file f)))"

definition appended :: "json list \<Rightarrow> log_file \<Rightarrow> log_file" where
  "appended lines file = file\<lparr>lf_lines := lf_lines file @ map Some lines\<rparr>"

definition compaction_due :: "feed_cfg \<Rightarrow> nat \<Rightarrow> bool" where
  "compaction_due cfg n \<longleftrightarrow> n > fc_maxEvents cfg + (fc_maxEvents cfg + 3) div 4"

definition write_lines :: "feed_cfg \<Rightarrow> feed_io \<Rightarrow> json list \<Rightarrow> nat \<Rightarrow> nat \<times> log_file \<Rightarrow> feed \<Rightarrow> unit feed_answer" where
  "write_lines cfg io lines linesBefore file f =
     (case io_append io of
        AppendUndone \<Rightarrow> (Inl ''federation data could not be persisted safely'', f\<lparr>ff_logLines := None\<rparr>, Some file)
      | AppendTorn k rest \<Rightarrow> (Inl ''federation data could not be persisted safely'', f\<lparr>ff_logLines := None\<rparr>,
          Some (fst file, (appended (take k lines) (snd file))\<lparr>lf_rest := rest\<rparr>))
      | AppendDone \<Rightarrow>
          (let n = linesBefore + length lines; f1 = f\<lparr>ff_logLines := Some n\<rparr>; d1 = Some (fst file, appended lines (snd file)) in
           if compaction_due cfg n then
             (case compact io f1 d1 of
                (Inr _, f2, d2) \<Rightarrow> (Inr (), f2, d2)
              | (Inl _, f2, d2) \<Rightarrow> (Inr (), f2\<lparr>ff_compactionFailing := True\<rparr>, d2))
           else (Inr (), f1, d1)))"

definition appendLines :: "feed_cfg \<Rightarrow> feed_io \<Rightarrow> json list \<Rightarrow> feed \<Rightarrow> disk \<Rightarrow> unit feed_answer" where
  "appendLines cfg io lines f d =
     (if lines = [] then (Inr (), f, d)
      else if \<not> io_owned io then (Inl lease_lost, f, d)
      else if logFileStatus f d = Replaced then (Inl ''federation data file was replaced by another order-book process'', f, d)
      else if logFileStatus f d = Missing then compact io f d
      else case (ff_logLines f, d) of
        (Some n, Some file) \<Rightarrow> write_lines cfg io lines n file f
      | (Some n, None) \<Rightarrow> write_lines cfg io lines n (0, \<lparr>lf_lines = [], lf_rest = None\<rparr>) f
      | (None, _) \<Rightarrow> compact io f d)"


section \<open>Appending\<close>

record staged_append =
  sg_lines :: "json list"
  sg_record :: feed_record
  sg_rollback :: "feed \<Rightarrow> feed"

definition drop_cache :: "bool \<Rightarrow> feed \<Rightarrow> feed" where
  "drop_cache stale f = (if stale then f\<lparr>ff_cachedResetPage := None\<rparr> else f)"

definition stageAppend :: "feed_cfg \<Rightarrow> fed_event \<Rightarrow> int \<Rightarrow> fed_event list option \<Rightarrow> feed \<Rightarrow> (string, staged_append \<times> feed) result" where
  "stageAppend cfg raw receivedAt snapshot f =
     js_bind (parseFederationEvent (event_json raw)) (\<lambda>ev.
     js_bind (federationEventId (fc_sha256 cfg) ev) (\<lambda>eventId.
     js_bind (case snapshot of None \<Rightarrow> Inr None | Some evs \<Rightarrow> js_bind (federationSnapshotDigest (fc_sha256 cfg) evs) (\<lambda>t. Inr (Some t)))
       (\<lambda>nextDigest.
     let existing = find (\<lambda>e. fr_eventId e = eventId) (ff_events f) in
     case (existing, nextDigest = ff_snapshotDigest f) of
       (Some e, True) \<Rightarrow>
         Inr (\<lparr>sg_lines = [], sg_record = e, sg_rollback = (\<lambda>g. g)\<rparr>,
           drop_cache (snapshot = None) f)
     | _ \<Rightarrow>
       throw_if (\<not> isSafeInteger receivedAt \<or> receivedAt < 0) ''federation event receive time is invalid''
      (let rec = \<lparr>fr_seq = ff_nextSeq f, fr_eventId = eventId, fr_event = ev, fr_receivedAt = receivedAt\<rparr>;
           fresh = (existing = None);
           pushed = ff_events f @ (if fresh then [rec] else []);
           removed = trimmed (fc_maxEvents cfg) pushed;
           f1 = f\<lparr>ff_nextSeq := (if fresh then ff_nextSeq f + 1 else ff_nextSeq f), ff_events := kept (fc_maxEvents cfg) pushed,
             ff_eventIds := (if fresh then insert eventId (ff_eventIds f) else ff_eventIds f) - set (map fr_eventId removed),
             ff_snapshotDigest := nextDigest\<rparr>;
           stale = (case ff_cachedResetPage f of None \<Rightarrow> False
             | Some (_, page) \<Rightarrow> \<not> fresh \<or> nextDigest \<noteq> ff_snapshotDigest f \<or> requiresReset (Some (fp_cursor page)) f1)
       in Inr (\<lparr>sg_lines = (if fresh then [event_line rec] else []) @
               (if nextDigest \<noteq> ff_snapshotDigest f then [digest_line nextDigest] else []),
             sg_record = (case existing of None \<Rightarrow> rec | Some e \<Rightarrow> e),
             sg_rollback = (\<lambda>g.
               let ring = (if fresh then remove1 rec (ff_events g) else ff_events g);
                   ids = (if fresh then ff_eventIds g - {eventId} else ff_eventIds g);
                   back = filter (\<lambda>e. e \<noteq> rec) removed
               in g\<lparr>ff_nextSeq := ff_nextSeq f, ff_snapshotDigest := ff_snapshotDigest f, ff_events := back @ ring,
                    ff_eventIds := ids \<union> set (map fr_eventId back), ff_cachedResetPage := None\<rparr>)\<rparr>,
           drop_cache stale f1)))))"

definition append_one :: "feed_cfg \<Rightarrow> feed_io \<Rightarrow> fed_event \<Rightarrow> int \<Rightarrow> fed_event list option \<Rightarrow> feed \<Rightarrow> disk \<Rightarrow> feed_record feed_answer" where
  "append_one cfg io raw receivedAt snapshot f d =
     (case stageAppend cfg raw receivedAt snapshot f of
        Inl e \<Rightarrow> (Inl e, f, d)
      | Inr (staged, f1) \<Rightarrow>
          if sg_lines staged = [] then (Inr (sg_record staged), f1, d)
          else (case appendLines cfg io (sg_lines staged) f1 d of
              (Inl e, f2, d2) \<Rightarrow> (Inl e, sg_rollback staged f2, d2)
            | (Inr _, f2, d2) \<Rightarrow> (Inr (sg_record staged), f2, d2)))"

text \<open>Stage every event; the first that cannot be staged stops the loop, with what was staged before it.\<close>

fun stage_all :: "feed_cfg \<Rightarrow> fed_event list \<Rightarrow> int \<Rightarrow> staged_append list \<Rightarrow> feed \<Rightarrow> (string + unit) \<times> staged_append list \<times> feed" where
  "stage_all cfg [] receivedAt staged f = (Inr (), staged, f)"
| "stage_all cfg (raw # raws) receivedAt staged f =
     (case stageAppend cfg raw receivedAt None f of
        Inl e \<Rightarrow> (Inl e, staged, f)
      | Inr (s, f1) \<Rightarrow> stage_all cfg raws receivedAt (staged @ [s]) f1)"

definition rollback_all :: "staged_append list \<Rightarrow> feed \<Rightarrow> feed" where
  "rollback_all staged f = foldr (\<lambda>s g. sg_rollback s g) staged f"

definition appendBatch :: "feed_cfg \<Rightarrow> feed_io \<Rightarrow> fed_event list \<Rightarrow> int \<Rightarrow> feed \<Rightarrow> disk \<Rightarrow> feed_record list feed_answer" where
  "appendBatch cfg io raws receivedAt f d =
     (if raws = [] then (Inr [], f, d)
      else case stage_all cfg raws receivedAt [] f of
        (Inl e, staged, f1) \<Rightarrow> (Inl e, rollback_all staged f1, d)
      | (Inr _, staged, f1) \<Rightarrow>
          (case appendLines cfg io (concat (map sg_lines staged)) f1 d of
             (Inl e, f2, d2) \<Rightarrow> (Inl e, rollback_all staged f2, d2)
           | (Inr _, f2, d2) \<Rightarrow> (Inr (map sg_record staged), f2, d2)))"

definition checkpoint :: "feed_cfg \<Rightarrow> feed_io \<Rightarrow> fed_event list \<Rightarrow> feed \<Rightarrow> disk \<Rightarrow> unit feed_answer" where
  "checkpoint cfg io rawEvents f d =
     (case federationSnapshotDigest (fc_sha256 cfg) rawEvents of
        Inl e \<Rightarrow> (Inl e, f, d)
      | Inr digest \<Rightarrow>
          if Some digest = ff_snapshotDigest f then (Inr (), f, d)
          else if logFileStatus f d \<noteq> Owned then (Inr (), f, d)
          else (case appendLines cfg io [digest_line (Some digest)] (f\<lparr>ff_snapshotDigest := Some digest\<rparr>) d of
              (Inl e, f2, d2) \<Rightarrow> (Inl e, f2\<lparr>ff_snapshotDigest := ff_snapshotDigest f\<rparr>, d2)
            | (Inr _, f2, d2) \<Rightarrow> (Inr (), f2, d2)))"

definition reconcileSnapshot :: "feed_cfg \<Rightarrow> feed_io \<Rightarrow> string \<Rightarrow> fed_event list \<Rightarrow> feed \<Rightarrow> disk \<Rightarrow> bool feed_answer" where
  "reconcileSnapshot cfg io freshId rawEvents f d =
     (case federationSnapshotDigest (fc_sha256 cfg) rawEvents of
        Inl e \<Rightarrow> (Inl e, f, d)
      | Inr digest \<Rightarrow>
          if Some digest = ff_snapshotDigest f then (Inr False, f, d)
          else (case compact io (f\<lparr>ff_feedId := freshId, ff_snapshotDigest := Some digest, ff_cachedResetPage := None\<rparr>) d of
              (Inl e, f2, d2) \<Rightarrow> (Inl e, f2\<lparr>ff_feedId := ff_feedId f, ff_snapshotDigest := ff_snapshotDigest f\<rparr>, d2)
            | (Inr _, f2, d2) \<Rightarrow> (Inr True, f2, d2)))"

text \<open>Start: read the log; an unreadable one is moved aside and the feed starts over under a new identity.\<close>

definition quarantine :: "feed_io \<Rightarrow> string \<Rightarrow> feed \<Rightarrow> disk \<Rightarrow> unit feed_answer" where
  "quarantine io quarantineId f d =
     (if \<not> io_owned io then (Inl lease_lost, f, d)
      else if \<not> io_moved io then (Inl ''federation data file could not be moved aside'', f, d)
      else (Inr (), new_feed quarantineId, None))"

definition load_feed :: "feed_cfg \<Rightarrow> feed_io \<Rightarrow> string \<Rightarrow> string \<Rightarrow> disk \<Rightarrow> unit feed_answer" where
  "load_feed cfg io freshId quarantineId d =
     (let f = new_feed freshId in
      case d of None \<Rightarrow> (Inr (), f, d)
      | Some (ident, file) \<Rightarrow>
        (case parseLog cfg file f of
           Inl _ \<Rightarrow>
             quarantine io quarantineId f d
         | Inr (rewrite, f1) \<Rightarrow>
             if rewrite then compact io f1 d else (Inr (), f1\<lparr>ff_logIdentity := Some ident\<rparr>, d)))"


section \<open>Pages\<close>

fun select_page :: "(feed_record \<Rightarrow> nat) \<Rightarrow> nat \<Rightarrow> nat \<Rightarrow> nat \<Rightarrow> feed_record list \<Rightarrow> feed_record list" where
  "select_page recordBytes limit count bytes [] = []"
| "select_page recordBytes limit count bytes (e # es) =
     (if count \<ge> limit then []
      else if count > 0 \<and> bytes + (recordBytes e + 1) > MAX_FEDERATION_INCREMENTAL_BYTES then []
      else e # select_page recordBytes limit (count + 1) (bytes + (recordBytes e + 1)) es)"

definition snapshot_records :: "(string \<Rightarrow> string) \<Rightarrow> int \<Rightarrow> fed_event list \<Rightarrow> (string, (int \<times> string \<times> fed_event) list) result" where
  "snapshot_records sha256 highWater evs =
     map_result (\<lambda>ev. js_bind (parseFederationEvent (event_json ev)) (\<lambda>p. js_bind (federationEventId sha256 p) (\<lambda>i. Inr (highWater, i, p)))) evs"

definition reset_page :: "feed_cfg \<Rightarrow> int \<Rightarrow> fed_event list \<Rightarrow> feed \<Rightarrow> (string, federation_page \<times> feed) result" where
  "reset_page cfg now snapshot f =
     throw_if (\<not> isSafeInteger now \<or> now < 0) ''federation clock returned an invalid time''
    (let build = js_bind (snapshot_records (fc_sha256 cfg) (ff_nextSeq f - 1) snapshot) (\<lambda>rs.
           let page = \<lparr>fp_reset = True, fp_cursor = cursor_at f (ff_nextSeq f - 1), fp_hasMore = False, fp_events = [], fp_snapshot = Some rs\<rparr>
           in Inr (page, f\<lparr>ff_cachedResetPage := Some (now + RESET_CACHE_TTL_MS, page)\<rparr>)) in
     case ff_cachedResetPage f of
       Some (expiresAt, page) \<Rightarrow> if now < expiresAt \<and> \<not> requiresReset (Some (fp_cursor page)) f then Inr (page, f) else build
     | None \<Rightarrow> build)"

definition feed_page :: "feed_cfg \<Rightarrow> int \<Rightarrow> string option \<Rightarrow> nat \<Rightarrow> fed_event list \<Rightarrow> feed \<Rightarrow> (string, federation_page \<times> feed) result" where
  "feed_page cfg now cursor limit snapshot f =
     throw_if (limit < 1 \<or> limit > 256) ''federation page limit must be between 1 and 256''
    (if requiresReset cursor f then reset_page cfg now snapshot f
     else case cursor of None \<Rightarrow> Inl ''federation cursor became invalid during pagination''
       | Some c \<Rightarrow> (case parse_cursor c of None \<Rightarrow> Inl ''federation cursor became invalid during pagination''
         | Some (_, after) \<Rightarrow>
           (let available = filter (\<lambda>e. fr_seq e > after) (ff_events f);
                selected = select_page (fc_recordBytes cfg) limit 0 256 available;
                lastSeq = (if selected = [] then after else fr_seq (last selected))
            in Inr (\<lparr>fp_reset = False, fp_cursor = cursor_at f lastSeq, fp_hasMore = length selected < length available,
                 fp_events = selected, fp_snapshot = None\<rparr>, f))))"



section \<open>The retained ring\<close>

definition cfg_ok :: "feed_cfg \<Rightarrow> bool" where
  "cfg_ok cfg \<longleftrightarrow> 1 \<le> fc_maxEvents cfg \<and> (\<forall>t. EVENT_ID_RE (fc_sha256 cfg t))"

definition record_ok :: "feed_cfg \<Rightarrow> feed_record \<Rightarrow> bool" where
  "record_ok cfg r \<longleftrightarrow> parseFederationEvent (event_json (fr_event r)) = Inr (fr_event r) \<and>
     federationEventId (fc_sha256 cfg) (fr_event r) = Inr (fr_eventId r) \<and> EVENT_ID_RE (fr_eventId r) \<and>
     1 \<le> fr_seq r \<and> isSafeInteger (fr_receivedAt r) \<and> 0 \<le> fr_receivedAt r"

definition ring_list :: "feed_cfg \<Rightarrow> feed_record list \<Rightarrow> bool" where
  "ring_list cfg rs \<longleftrightarrow> length rs \<le> fc_maxEvents cfg \<and> sorted_wrt (<) (map fr_seq rs) \<and> distinct (map fr_eventId rs) \<and>
     list_all (record_ok cfg) rs"

definition digest_ok :: "string option \<Rightarrow> bool" where
  "digest_ok d \<longleftrightarrow> (case d of None \<Rightarrow> True | Some t \<Rightarrow> EVENT_ID_RE t)"

definition ring_ok :: "feed_cfg \<Rightarrow> feed \<Rightarrow> bool" where
  "ring_ok cfg f \<longleftrightarrow> ring_list cfg (ff_events f) \<and> (\<forall>r\<in>set (ff_events f). fr_seq r < ff_nextSeq f) \<and>
     ff_eventIds f = set (map fr_eventId (ff_events f)) \<and> 1 \<le> ff_nextSeq f \<and> FEED_ID_RE (ff_feedId f) \<and> digest_ok (ff_snapshotDigest f)"

lemma kept_trimmed: "trimmed m rs @ kept m rs = rs"
  by (simp add: trimmed_def kept_def)

lemma kept_all [simp]: "length rs \<le> m \<Longrightarrow> kept m rs = rs" "length rs \<le> m \<Longrightarrow> trimmed m rs = []"
  by (simp_all add: kept_def trimmed_def)

lemma length_kept: "length (kept m rs) \<le> m"
  by (simp add: kept_def)

lemma parse_event_json: "parseFederationEvent (event_json ev) = Inr ev' \<Longrightarrow> ev' = ev"
  by (cases "fe_kind ev") (auto simp: parseFederationEvent_def event_json_def isEventKind_def Let_def js_bind_Inr throw_if_Inr
      intro!: fed_event.equality)

lemma event_id_re: "cfg_ok cfg \<Longrightarrow> federationEventId (fc_sha256 cfg) ev = Inr i \<Longrightarrow> EVENT_ID_RE i"
  by (auto simp: federationEventId_def cfg_ok_def js_bind_Inr)

lemma digest_re: "cfg_ok cfg \<Longrightarrow> federationSnapshotDigest (fc_sha256 cfg) evs = Inr t \<Longrightarrow> EVENT_ID_RE t"
  by (auto simp: federationSnapshotDigest_def cfg_ok_def js_bind_Inr throw_if_Inr)

lemma ring_list_suffix: "ring_list cfg (xs @ ys) \<Longrightarrow> ring_list cfg ys"
  by (simp add: ring_list_def sorted_wrt_append)

text \<open>Pushing a record with a new id and the next sequence, then trimming.\<close>

lemma kept_ring:
  assumes "sorted_wrt (<) (map fr_seq rs)" "distinct (map fr_eventId rs)" "list_all (record_ok cfg) rs"
  shows "ring_list cfg (kept (fc_maxEvents cfg) rs)"
    "set (map fr_eventId rs) - set (map fr_eventId (trimmed (fc_maxEvents cfg) rs)) = set (map fr_eventId (kept (fc_maxEvents cfg) rs))"
proof -
  let ?t = "trimmed (fc_maxEvents cfg) rs" and ?k = "kept (fc_maxEvents cfg) rs"
  have "sorted_wrt (<) (map fr_seq (?t @ ?k))" "distinct (map fr_eventId (?t @ ?k))" "list_all (record_ok cfg) (?t @ ?k)"
    using assms unfolding kept_trimmed .
  then show "ring_list cfg ?k" by (simp add: ring_list_def sorted_wrt_append length_kept)
  have "set (map fr_eventId rs) = set (map fr_eventId (?t @ ?k))" unfolding kept_trimmed ..
  with \<open>distinct (map fr_eventId (?t @ ?k))\<close>
  show "set (map fr_eventId rs) - set (map fr_eventId ?t) = set (map fr_eventId ?k)" by auto
qed

lemma pushed_ring:
  assumes "ring_ok cfg f" "fr_seq r = ff_nextSeq f" "fr_eventId r \<notin> ff_eventIds f" "record_ok cfg r"
  shows "sorted_wrt (<) (map fr_seq (ff_events f @ [r]))" "distinct (map fr_eventId (ff_events f @ [r]))"
    "list_all (record_ok cfg) (ff_events f @ [r])"
  using assms by (auto simp: ring_ok_def ring_list_def sorted_wrt_append list_all_iff)

lemma find_id_None: "ring_ok cfg f \<Longrightarrow> find (\<lambda>e. fr_eventId e = i) (ff_events f) = None \<longleftrightarrow> i \<notin> ff_eventIds f"
  by (auto simp: find_None_iff ring_ok_def)

definition same_state :: "feed \<Rightarrow> feed \<Rightarrow> bool" where
  "same_state f g \<longleftrightarrow> ff_feedId f = ff_feedId g \<and> ff_nextSeq f = ff_nextSeq g \<and> ff_events f = ff_events g \<and>
     ff_eventIds f = ff_eventIds g \<and> ff_snapshotDigest f = ff_snapshotDigest g"

definition same_log :: "feed \<Rightarrow> feed \<Rightarrow> bool" where
  "same_log f g \<longleftrightarrow> ff_logLines f = ff_logLines g \<and> ff_logIdentity f = ff_logIdentity g"

lemma same_state_refl [simp]: "same_state f f" by (simp add: same_state_def)
lemma same_log_refl [simp]: "same_log f f" by (simp add: same_log_def)

lemma same_state_ring: "same_state f g \<Longrightarrow> ring_ok cfg f \<longleftrightarrow> ring_ok cfg g"
  by (simp add: same_state_def ring_ok_def)

lemma drop_cache_simps [simp]:
  "ff_feedId (drop_cache b f) = ff_feedId f" "ff_nextSeq (drop_cache b f) = ff_nextSeq f" "ff_events (drop_cache b f) = ff_events f"
  "ff_eventIds (drop_cache b f) = ff_eventIds f" "ff_snapshotDigest (drop_cache b f) = ff_snapshotDigest f"
  "ff_logLines (drop_cache b f) = ff_logLines f" "ff_logIdentity (drop_cache b f) = ff_logIdentity f"
  by (simp_all add: drop_cache_def)

text \<open>What staging one event does: nothing, a new digest, or one more record.\<close>

lemma stageAppend_cases:
  assumes "cfg_ok cfg" "ring_ok cfg f" "stageAppend cfg raw at snapshot f = Inr (s, f1)"
  obtains (replay) "sg_lines s = []" "same_state f1 f" "same_log f1 f" "sg_rollback s = (\<lambda>g. g)" "sg_record s \<in> set (ff_events f)"
  | (digest) d where "sg_lines s = [digest_line d]" "digest_ok d" "d \<noteq> ff_snapshotDigest f" "same_log f1 f"
      "same_state f1 (f\<lparr>ff_snapshotDigest := d\<rparr>)" "sg_record s \<in> set (ff_events f)"
      "\<And>g. ff_events g = ff_events f \<Longrightarrow> ff_eventIds g = ff_eventIds f \<Longrightarrow> ff_feedId g = ff_feedId f \<Longrightarrow>
        same_state (sg_rollback s g) f \<and> same_log (sg_rollback s g) g"
  | (event) r d where "sg_lines s = event_line r # (if d \<noteq> ff_snapshotDigest f then [digest_line d] else [])" "digest_ok d" "same_log f1 f"
      "fr_seq r = ff_nextSeq f" "fr_eventId r \<notin> ff_eventIds f" "record_ok cfg r" "sg_record s = r"
      "same_state f1 (f\<lparr>ff_nextSeq := ff_nextSeq f + 1, ff_events := kept (fc_maxEvents cfg) (ff_events f @ [r]),
         ff_eventIds := set (map fr_eventId (kept (fc_maxEvents cfg) (ff_events f @ [r]))), ff_snapshotDigest := d\<rparr>)"
      "\<And>g. ff_events g = ff_events f1 \<Longrightarrow> ff_eventIds g = ff_eventIds f1 \<Longrightarrow> ff_feedId g = ff_feedId f \<Longrightarrow>
        same_state (sg_rollback s g) f \<and> same_log (sg_rollback s g) g"
proof -
  from assms(3) obtain i nd where p: "parseFederationEvent (event_json raw) = Inr raw"
    and i: "federationEventId (fc_sha256 cfg) raw = Inr i"
    and nd: "(case snapshot of None \<Rightarrow> Inr None | Some evs \<Rightarrow> js_bind (federationSnapshotDigest (fc_sha256 cfg) evs) (\<lambda>t. Inr (Some t))) = Inr nd"
    by (auto simp: stageAppend_def js_bind_Inr dest: parse_event_json)
  have dok: "digest_ok nd"
    using nd digest_re [OF assms(1)] by (auto simp: digest_ok_def js_bind_Inr split: option.splits)
  let ?old = "find (\<lambda>e. fr_eventId e = i) (ff_events f)"
  define r where "r = \<lparr>fr_seq = ff_nextSeq f, fr_eventId = i, fr_event = raw, fr_receivedAt = at\<rparr>"
  note st = assms(3) [unfolded stageAppend_def p i nd js_bind_simps Let_def]
  show thesis
  proof (cases ?old)
    case (Some e)
    then have e: "e \<in> set (ff_events f)" by (auto simp: find_Some_iff)
    show ?thesis
    proof (cases "nd = ff_snapshotDigest f")
      case True
      with st Some have "s = \<lparr>sg_lines = [], sg_record = e, sg_rollback = (\<lambda>g. g)\<rparr>" "f1 = drop_cache (snapshot = None) f" by simp_all
      with e show ?thesis by (intro replay) (simp_all add: same_state_def same_log_def)
    next
      case False
      have l: "length (ff_events f) \<le> fc_maxEvents cfg" using assms(2) by (simp add: ring_ok_def ring_list_def)
      from st Some False obtain stale where eq: "f1 = drop_cache stale (f\<lparr>ff_nextSeq := ff_nextSeq f, ff_events := ff_events f,
            ff_eventIds := ff_eventIds f, ff_snapshotDigest := nd\<rparr>)"
        and s: "sg_lines s = [digest_line nd]" "sg_record s = e" "sg_rollback s = (\<lambda>g. g\<lparr>ff_nextSeq := ff_nextSeq f,
            ff_snapshotDigest := ff_snapshotDigest f, ff_events := ff_events g, ff_eventIds := ff_eventIds g, ff_cachedResetPage := None\<rparr>)"
        using l by (fastforce simp: throw_if_Inr)
      show ?thesis by (rule digest [of nd]) (use s False e dok eq in \<open>simp_all add: same_state_def same_log_def\<close>)
    qed
  next
    case None
    then have new: "i \<notin> ff_eventIds f" using find_id_None [OF assms(2)] by simp
    from st None have at: "isSafeInteger at" "0 \<le> at" by (auto simp: throw_if_Inr)
    have rok: "record_ok cfg r"
      using p i event_id_re [OF assms(1) i] at assms(2) by (simp add: record_ok_def r_def ring_ok_def)
    have rn: "r \<notin> set (ff_events f)" using assms(2) by (auto simp: ring_ok_def r_def)
    let ?p = "ff_events f @ [r]" and ?m = "fc_maxEvents cfg"
    note pr = pushed_ring [OF assms(2), of r, unfolded r_def feed_record.select_convs, folded r_def, OF refl new rok]
    have ids: "insert i (ff_eventIds f) - set (map fr_eventId (trimmed ?m ?p)) = set (map fr_eventId (kept ?m ?p))"
      using kept_ring(2) [OF pr] assms(2) by (simp add: ring_ok_def r_def)
    have old: "set (trimmed ?m ?p) \<subseteq> set (ff_events f)"
    proof -
      have "length (trimmed ?m ?p) \<le> length (ff_events f)" using assms(1) by (simp add: trimmed_def cfg_ok_def)
      then have "trimmed ?m ?p = take (length (trimmed ?m ?p)) (ff_events f)" by (simp add: trimmed_def)
      then show ?thesis by (metis set_take_subset)
    qed
    with rn have t: "r \<notin> set (trimmed ?m ?p)" by blast
    have restored: "trimmed ?m ?p @ remove1 r (kept ?m ?p) = ff_events f"
    proof -
      have "remove1 r (trimmed ?m ?p @ kept ?m ?p) = trimmed ?m ?p @ remove1 r (kept ?m ?p)"
        using t by (simp add: remove1_append)
      then show ?thesis using rn unfolding kept_trimmed by (simp add: remove1_append)
    qed
    have ids': "set (map fr_eventId (kept ?m ?p)) - {i} \<union> set (map fr_eventId (trimmed ?m ?p)) = ff_eventIds f"
    proof -
      have "set (map fr_eventId (trimmed ?m ?p @ kept ?m ?p)) = insert i (ff_eventIds f)"
        using assms(2) unfolding kept_trimmed by (auto simp: ring_ok_def r_def)
      moreover have "i \<notin> set (map fr_eventId (trimmed ?m ?p))" using old new assms(2) by (auto simp: ring_ok_def)
      ultimately show ?thesis using new by auto
    qed
    from st None obtain stale where eq: "f1 = drop_cache stale (f\<lparr>ff_nextSeq := ff_nextSeq f + 1, ff_events := kept ?m ?p,
          ff_eventIds := insert i (ff_eventIds f) - set (map fr_eventId (trimmed ?m ?p)), ff_snapshotDigest := nd\<rparr>)"
      and s: "sg_lines s = event_line r # (if nd \<noteq> ff_snapshotDigest f then [digest_line nd] else [])" "sg_record s = r"
        "sg_rollback s = (\<lambda>g. g\<lparr>ff_nextSeq := ff_nextSeq f, ff_snapshotDigest := ff_snapshotDigest f,
           ff_events := filter (\<lambda>e. e \<noteq> r) (trimmed ?m ?p) @ remove1 r (ff_events g),
           ff_eventIds := ff_eventIds g - {i} \<union> set (map fr_eventId (filter (\<lambda>e. e \<noteq> r) (trimmed ?m ?p))), ff_cachedResetPage := None\<rparr>)"
      by (fastforce simp: throw_if_Inr r_def [symmetric])
    have ft: "filter (\<lambda>e. e \<noteq> r) (trimmed ?m ?p) = trimmed ?m ?p" using t by (auto simp: filter_id_conv)
    show ?thesis
      by (rule event [of r nd]) (use s dok rok new eq ids ids' restored in \<open>simp_all add: same_state_def same_log_def ft\<close>, simp_all add: r_def)
  qed
qed



section \<open>Batches and their undo\<close>

text \<open>The ring holds the last sequences without a gap, as it does from the first event of a feed on.\<close>

definition gapless :: "feed \<Rightarrow> bool" where
  "gapless f \<longleftrightarrow> (\<forall>i<length (ff_events f). fr_seq (ff_events f ! i) = ff_nextSeq f - int (length (ff_events f)) + int i)"

definition ring_grows :: "feed \<Rightarrow> feed \<Rightarrow> bool" where
  "ring_grows f g \<longleftrightarrow> oldest_seq f \<le> oldest_seq g \<and> ff_nextSeq f \<le> ff_nextSeq g \<and> (gapless f \<longrightarrow> gapless g) \<and>
     (\<forall>r\<in>set (ff_events f). r \<in> set (ff_events g) \<or> fr_seq r < oldest_seq g)"

lemma ring_grows_trans: "ring_grows f g \<Longrightarrow> ring_grows g h \<Longrightarrow> ring_grows f h"
  unfolding ring_grows_def by (meson order_trans less_le_trans)

lemma same_state_grows: "same_state f g \<Longrightarrow> ring_grows f g" "same_state f g \<Longrightarrow> ring_grows g f"
  by (simp_all add: same_state_def ring_grows_def gapless_def oldest_seq_def split: list.split)

lemma same_state_trans: "same_state f g \<Longrightarrow> same_state g h \<Longrightarrow> same_state f h"
  by (simp add: same_state_def)

lemma same_log_trans: "same_log f g \<Longrightarrow> same_log g h \<Longrightarrow> same_log f h"
  by (simp add: same_log_def)

lemma oldest_seq_le: "ring_ok cfg f \<Longrightarrow> r \<in> set (ff_events f) \<Longrightarrow> oldest_seq f \<le> fr_seq r"
  by (cases "ff_events f") (auto simp: ring_ok_def ring_list_def oldest_seq_def less_imp_le)

lemma oldest_seq_next: "ring_ok cfg f \<Longrightarrow> oldest_seq f \<le> ff_nextSeq f"
  by (cases "ff_events f") (auto simp: ring_ok_def oldest_seq_def less_imp_le)

lemma push_gapless:
  assumes "gapless f" "fr_seq r = ff_nextSeq f" "ff_events g = kept m (ff_events f @ [r])" "ff_nextSeq g = ff_nextSeq f + 1"
  shows "gapless g"
proof -
  define p where "p = ff_events f @ [r]"
  let ?k = "length p - m"
  have "fr_seq (ff_events g ! i) = ff_nextSeq g - int (length (ff_events g)) + int i" if i: "i < length (ff_events g)" for i
  proof -
    have g: "ff_events g = drop ?k p" using assms(3) by (simp add: kept_def p_def)
    have lp: "length p = length (ff_events f) + 1" by (simp add: p_def)
    have "?k + i < length p" using i unfolding g by simp
    then have n: "ff_events g ! i = p ! (?k + i)" unfolding g by simp
    have "fr_seq (p ! j) = ff_nextSeq f - int (length (ff_events f)) + int j" if "j < length p" for j
      using assms(1,2) that by (auto simp: gapless_def p_def nth_append)
    from this [OF \<open>?k + i < length p\<close>] n lp assms(4) i show ?thesis by (simp add: g)
  qed
  then show ?thesis by (simp add: gapless_def)
qed

lemma push_grows:
  assumes "cfg_ok cfg" "ring_ok cfg f" "fr_seq r = ff_nextSeq f" "ff_events g = kept (fc_maxEvents cfg) (ff_events f @ [r])"
    and "ff_nextSeq g = ff_nextSeq f + 1" "ring_ok cfg g"
  shows "ring_grows f g"
proof -
  let ?t = "trimmed (fc_maxEvents cfg) (ff_events f @ [r])"
  have "sorted_wrt (<) (map fr_seq (ff_events f @ [r]))"
    using assms(2,3) by (auto simp: ring_ok_def ring_list_def sorted_wrt_append)
  then have s: "sorted_wrt (<) (map fr_seq (?t @ ff_events g))" unfolding assms(4) kept_trimmed .
  have all: "set (ff_events f) \<union> {r} = set ?t \<union> set (ff_events g)"
    unfolding assms(4) set_append [symmetric] kept_trimmed by simp
  have "length (ff_events g) \<ge> 1" using assms(1,4) by (simp add: kept_def cfg_ok_def)
  then obtain h hs where h: "ff_events g = h # hs" by (cases "ff_events g") auto
  then have o: "oldest_seq g = fr_seq h" by (simp add: oldest_seq_def)
  have "fr_seq x < oldest_seq g" if "x \<in> set ?t" for x using s that h o by (auto simp: sorted_wrt_append)
  moreover have "oldest_seq f \<le> fr_seq h"
  proof (cases "h \<in> set (ff_events f)")
    case True
    with assms(2) show ?thesis by (rule oldest_seq_le)
  next
    case False
    with all h have "h = r" by auto
    with assms(3) oldest_seq_next [OF assms(2)] show ?thesis by simp
  qed
  ultimately show ?thesis using all o assms(5) push_gapless [OF _ assms(3-5)] by (auto simp: ring_grows_def)
qed

lemma stage_step:
  assumes "cfg_ok cfg" "ring_ok cfg f" "stageAppend cfg raw at snapshot f = Inr (s, f1)"
  shows "ring_ok cfg f1 \<and> same_log f1 f \<and> ff_feedId f1 = ff_feedId f \<and> ring_grows f f1 \<and>
    (sg_record s \<in> set (ff_events f1)) \<and>
    (\<forall>g. same_state g f1 \<longrightarrow> same_state (sg_rollback s g) f \<and> same_log (sg_rollback s g) g)"
  using assms
proof (cases rule: stageAppend_cases)
  case replay
  with assms(2) show ?thesis
    using same_state_ring [OF replay(2)] same_state_grows(2) [OF replay(2)]
    by (auto simp: same_state_def)
next
  case (digest d)
  have "ring_ok cfg (f\<lparr>ff_snapshotDigest := d\<rparr>)" using assms(2) digest(2) by (simp add: ring_ok_def)
  with digest same_state_ring [OF digest(5)] show ?thesis
    by (auto simp: same_state_def ring_grows_def gapless_def oldest_seq_def split: list.split)
next
  case (event r d)
  let ?g = "f\<lparr>ff_nextSeq := ff_nextSeq f + 1, ff_events := kept (fc_maxEvents cfg) (ff_events f @ [r]),
         ff_eventIds := set (map fr_eventId (kept (fc_maxEvents cfg) (ff_events f @ [r]))), ff_snapshotDigest := d\<rparr>"
  note pr = pushed_ring [OF assms(2) event(4,5,6)]
  have "set (kept (fc_maxEvents cfg) (ff_events f @ [r])) \<subseteq> set (ff_events f @ [r])" by (metis kept_def set_drop_subset)
  then have lt: "\<forall>x\<in>set (kept (fc_maxEvents cfg) (ff_events f @ [r])). fr_seq x < ff_nextSeq f + 1"
    using assms(2) event(4) by (fastforce simp: ring_ok_def)
  have ok: "ring_ok cfg ?g" using assms(2) kept_ring(1) [OF pr] lt event(2) by (simp add: ring_ok_def)
  have "ring_grows f f1" by (rule push_grows [OF assms(1,2) event(4)]) (use event(8) ok same_state_ring [OF event(8)] in \<open>simp_all add: same_state_def\<close>)
  moreover have "r \<in> set (ff_events f1)"
  proof -
    have "length (ff_events f @ [r]) - fc_maxEvents cfg \<le> length (ff_events f)" using assms(1) by (auto simp: cfg_ok_def)
    then have "kept (fc_maxEvents cfg) (ff_events f @ [r]) = drop (length (ff_events f @ [r]) - fc_maxEvents cfg) (ff_events f) @ [r]"
      by (simp add: kept_def)
    then show ?thesis using event(8) by (simp add: same_state_def)
  qed
  ultimately show ?thesis using event same_state_ring [OF event(8)] ok by (simp add: same_state_def)
qed

lemma stage_all_step:
  assumes "cfg_ok cfg" "ring_ok cfg f" "stage_all cfg raws at acc f = (res, acc', f1)"
  shows "ring_ok cfg f1 \<and> same_log f1 f \<and> ff_feedId f1 = ff_feedId f \<and> ring_grows f f1 \<and>
    (\<exists>new. acc' = acc @ new \<and> (res = Inr () \<longrightarrow> length new = length raws) \<and>
      (\<forall>s\<in>set new. sg_record s \<in> set (ff_events f1) \<or> fr_seq (sg_record s) < oldest_seq f1) \<and>
      (\<forall>g. same_state g f1 \<longrightarrow> same_state (rollback_all new g) f \<and> same_log (rollback_all new g) g))"
  using assms(2,3)
proof (induction raws arbitrary: acc f)
  case Nil
  then show ?case using same_state_grows(1) [OF same_state_refl] by (auto simp: rollback_all_def)
next
  case (Cons raw raws)
  show ?case
  proof (cases "stageAppend cfg raw at None f")
    case (Inl e)
    with Cons.prems show ?thesis using same_state_grows(1) [OF same_state_refl] by (auto simp: rollback_all_def)
  next
    case (Inr p)
    obtain s f2 where p: "p = (s, f2)" by force
    note st = stage_step [OF assms(1) Cons.prems(1) Inr [unfolded p]]
    from Cons.prems(2) Inr p have rest: "stage_all cfg raws at (acc @ [s]) f2 = (res, acc', f1)" by simp
    from Cons.IH [OF _ rest] st obtain new where ih: "ring_ok cfg f1" "same_log f1 f2" "ff_feedId f1 = ff_feedId f2" "ring_grows f2 f1"
      "acc' = (acc @ [s]) @ new" "res = Inr () \<longrightarrow> length new = length raws"
      "\<forall>s\<in>set new. sg_record s \<in> set (ff_events f1) \<or> fr_seq (sg_record s) < oldest_seq f1"
      "\<And>g. same_state g f1 \<Longrightarrow> same_state (rollback_all new g) f2 \<and> same_log (rollback_all new g) g" by blast
    have "same_state (rollback_all (s # new) g) f \<and> same_log (rollback_all (s # new) g) g" if "same_state g f1" for g
      using ih(8) [OF that] st same_log_trans by (auto simp: rollback_all_def)
    moreover have "sg_record s \<in> set (ff_events f1) \<or> fr_seq (sg_record s) < oldest_seq f1"
      using st ih(4) by (auto simp: ring_grows_def)
    ultimately show ?thesis
      using ih st by (intro conjI exI [of _ "s # new"]) (auto intro: same_log_trans ring_grows_trans)
  qed
qed



section \<open>What the log says\<close>

text \<open>A scan that started from a header with sequence \<open>ns\<close> has reached the state of the feed.\<close>

definition tracks :: "int \<Rightarrow> log_scan \<Rightarrow> feed \<Rightarrow> bool" where
  "tracks ns sc f \<longleftrightarrow> ls_digest sc = ff_snapshotDigest f \<and> ls_events sc = ff_events f \<and> ls_ids sc = ff_eventIds f \<and>
     max ns (ls_lastSeq sc + 1) = ff_nextSeq f"

definition replays :: "feed_cfg \<Rightarrow> log_file \<Rightarrow> feed \<Rightarrow> nat \<Rightarrow> bool" where
  "replays cfg file f n \<longleftrightarrow> (\<exists>header rest ns d0 sc. lf_lines file = Some (JObj header) # rest \<and> lf_rest file = None \<and> length rest = n \<and>
     map_of header ''type'' = Some (JStr ''header'') \<and> map_of header ''version'' = Some (JInt 3) \<and>
     feed_identity header = Inr (ff_feedId f, ns) \<and> parseDigest (map_of header ''snapshotDigest'') = Inr d0 \<and>
     scan_lines cfg rest \<lparr>ls_digest = d0, ls_events = [], ls_ids = {}, ls_lastSeq = 0\<rparr> = Inr sc \<and> tracks ns sc f)"

lemma replays_parse:
  assumes "replays cfg file f n"
  shows "\<exists>g. parseLog cfg file f0 = Inr (False, g) \<and> same_state g f \<and> ff_logLines g = Some n"
  using assms by (auto simp: replays_def parseLog_def parseLine_def throw_if_def tracks_def same_state_def)

lemma replays_state: "same_state f g \<Longrightarrow> replays cfg file f n \<longleftrightarrow> replays cfg file g n"
  by (simp add: replays_def tracks_def same_state_def)

lemma scan_lines_append: "scan_lines cfg (xs @ ys) sc = js_bind (scan_lines cfg xs sc) (scan_lines cfg ys)"
proof (induction xs arbitrary: sc)
  case (Cons x xs)
  then show ?case by (cases "scan_line cfg x sc") simp_all
qed simp

lemma digest_line_scan: "digest_ok d \<Longrightarrow> scan_line cfg (Some (digest_line d)) sc = Inr (sc\<lparr>ls_digest := d\<rparr>)"
  by (cases d) (simp_all add: scan_line_def digest_line_def parseLine_def parseDigest_def digest_json_def digest_ok_def throw_if_def)

lemma event_line_parse:
  assumes "record_ok cfg r" "isSafeInteger (fr_seq r)"
  shows "parseRecord (fc_sha256 cfg) [(''seq'', JInt (fr_seq r)), (''eventId'', JStr (fr_eventId r)),
     (''event'', event_json (fr_event r)), (''receivedAt'', JInt (fr_receivedAt r))] = Inr r"
  using assms by (simp add: parseRecord_def record_ok_def throw_if_def nvl_def)

lemma event_line_scan:
  assumes "record_ok cfg r" "isSafeInteger (fr_seq r)" "ls_lastSeq sc < fr_seq r" "fr_eventId r \<notin> ls_ids sc"
  shows "scan_line cfg (Some (event_line r)) sc = Inr (sc\<lparr>ls_lastSeq := fr_seq r, ls_events := kept (fc_maxEvents cfg) (ls_events sc @ [r]),
     ls_ids := insert (fr_eventId r) (ls_ids sc) - set (map fr_eventId (trimmed (fc_maxEvents cfg) (ls_events sc @ [r])))\<rparr>)"
  using event_line_parse [OF assms(1,2)] assms(3,4)
  by (simp add: scan_line_def event_line_def parseLine_def scan_event_def throw_if_def Let_def AList.delete_eq)

lemma safe_seq: "1 \<le> n \<Longrightarrow> n < m \<Longrightarrow> m \<le> MAX_SAFE_INTEGER \<Longrightarrow> isSafeInteger n"
  by (simp add: isSafeInteger_def)

text \<open>The lines of a staged event take a scan from the state before it to the state after it.\<close>

lemma staged_lines_scan:
  assumes "cfg_ok cfg" "ring_ok cfg f" "stageAppend cfg raw at snapshot f = Inr (s, f1)" "tracks ns sc f" "ff_nextSeq f1 \<le> MAX_SAFE_INTEGER"
  shows "\<exists>sc'. scan_lines cfg (map Some (sg_lines s)) sc = Inr sc' \<and> tracks ns sc' f1"
  using assms(1-3)
proof (cases rule: stageAppend_cases)
  case replay
  with assms(4) show ?thesis by (simp add: tracks_def same_state_def)
next
  case (digest d)
  with assms(4) show ?thesis by (simp add: digest_line_scan tracks_def same_state_def)
next
  case (event r d)
  have n: "ff_nextSeq f1 = ff_nextSeq f + 1" using event(8) by (simp add: same_state_def)
  have "isSafeInteger (fr_seq r)" using assms(2,5) n event(4) safe_seq [of "ff_nextSeq f" "ff_nextSeq f1"] by (simp add: ring_ok_def)
  then have sc: "scan_line cfg (Some (event_line r)) sc = Inr (sc\<lparr>ls_lastSeq := fr_seq r, ls_events := kept (fc_maxEvents cfg) (ls_events sc @ [r]),
     ls_ids := insert (fr_eventId r) (ls_ids sc) - set (map fr_eventId (trimmed (fc_maxEvents cfg) (ls_events sc @ [r])))\<rparr>)"
    using assms(4) event by (intro event_line_scan) (auto simp: tracks_def)
  have "insert (fr_eventId r) (ff_eventIds f) - set (map fr_eventId (trimmed (fc_maxEvents cfg) (ff_events f @ [r])))
      = set (map fr_eventId (kept (fc_maxEvents cfg) (ff_events f @ [r])))"
    using kept_ring(2) [OF pushed_ring [OF assms(2) event(4,5,6)]] assms(2) by (simp add: ring_ok_def)
  with assms(4) event n show ?thesis
    by (auto simp: sc digest_line_scan tracks_def same_state_def)
qed

lemma stage_all_scan:
  assumes "cfg_ok cfg" "ring_ok cfg f" "stage_all cfg raws at acc f = (res, acc @ new, f1)" "tracks ns sc f" "ff_nextSeq f1 \<le> MAX_SAFE_INTEGER"
  shows "\<exists>sc'. scan_lines cfg (map Some (concat (map sg_lines new))) sc = Inr sc' \<and> tracks ns sc' f1"
  using assms(2-4)
proof (induction raws arbitrary: acc f new sc)
  case Nil
  then show ?case by simp
next
  case (Cons raw raws)
  show ?case
  proof (cases "stageAppend cfg raw at None f")
    case (Inl e)
    with Cons.prems show ?thesis by simp
  next
    case (Inr p)
    obtain s f2 where p: "p = (s, f2)" by force
    note st = stage_step [OF assms(1) Cons.prems(1) Inr [unfolded p]]
    from Cons.prems(2) Inr p have rest: "stage_all cfg raws at (acc @ [s]) f2 = (res, acc @ new, f1)" by simp
    from stage_all_step [OF assms(1) _ rest] st obtain tl where tl: "acc @ new = (acc @ [s]) @ tl" and "ring_grows f2 f1" by blast
    then have "ff_nextSeq f2 \<le> MAX_SAFE_INTEGER" using assms(5) by (simp add: ring_grows_def)
    from staged_lines_scan [OF assms(1) Cons.prems(1) Inr [unfolded p] Cons.prems(3) this]
    obtain sc1 where sc1: "scan_lines cfg (map Some (sg_lines s)) sc = Inr sc1" "tracks ns sc1 f2" by blast
    from Cons.IH [OF _ rest [unfolded tl] sc1(2)] st obtain sc' where
      "scan_lines cfg (map Some (concat (map sg_lines tl))) sc1 = Inr sc'" "tracks ns sc' f1" by blast
    with sc1 tl show ?thesis by (simp add: scan_lines_append)
  qed
qed

lemma replays_append:
  assumes "replays cfg file f n" "ff_feedId f1 = ff_feedId f"
    and "\<And>ns sc. tracks ns sc f \<Longrightarrow> \<exists>sc'. scan_lines cfg (map Some ls) sc = Inr sc' \<and> tracks ns sc' f1"
  shows "replays cfg (appended ls file) f1 (n + length ls)"
proof -
  from assms(1) obtain header rest ns d0 sc where h: "lf_lines file = Some (JObj header) # rest" "lf_rest file = None" "length rest = n"
     "map_of header ''type'' = Some (JStr ''header'')" "map_of header ''version'' = Some (JInt 3)"
     "feed_identity header = Inr (ff_feedId f, ns)" "parseDigest (map_of header ''snapshotDigest'') = Inr d0"
     "scan_lines cfg rest \<lparr>ls_digest = d0, ls_events = [], ls_ids = {}, ls_lastSeq = 0\<rparr> = Inr sc" "tracks ns sc f"
    by (auto simp: replays_def)
  from assms(3) [OF h(9)] obtain sc' where "scan_lines cfg (map Some ls) sc = Inr sc'" "tracks ns sc' f1" by blast
  with h assms(2) show ?thesis
    unfolding replays_def appended_def by (intro exI [of _ header] exI [of _ "rest @ map Some ls"] exI) (auto simp: scan_lines_append)
qed

text \<open>A compacted file says what the feed holds.\<close>

lemma ring_scan:
  assumes "list_all (record_ok cfg) rs" "sorted_wrt (<) (map fr_seq (pre @ rs))" "distinct (map fr_eventId (pre @ rs))"
    and "length (pre @ rs) \<le> fc_maxEvents cfg" "\<forall>r\<in>set rs. isSafeInteger (fr_seq r)"
    and "ls_events sc = pre" "ls_ids sc = set (map fr_eventId pre)" "\<forall>r\<in>set rs. ls_lastSeq sc < fr_seq r"
  shows "\<exists>sc'. scan_lines cfg (map (\<lambda>r. Some (event_line r)) rs) sc = Inr sc' \<and> ls_digest sc' = ls_digest sc \<and> ls_events sc' = pre @ rs \<and>
    ls_ids sc' = set (map fr_eventId (pre @ rs)) \<and> ls_lastSeq sc' = (if rs = [] then ls_lastSeq sc else fr_seq (last rs))"
  using assms
proof (induction rs arbitrary: pre sc)
  case (Cons r rs)
  define sc1 where "sc1 = sc\<lparr>ls_lastSeq := fr_seq r, ls_events := pre @ [r], ls_ids := insert (fr_eventId r) (ls_ids sc)\<rparr>"
  have "scan_line cfg (Some (event_line r)) sc = Inr sc1"
    using Cons.prems by (subst event_line_scan) (auto simp: sc1_def)
  moreover have "\<exists>sc'. scan_lines cfg (map (\<lambda>r. Some (event_line r)) rs) sc1 = Inr sc' \<and> ls_digest sc' = ls_digest sc1 \<and>
      ls_events sc' = (pre @ [r]) @ rs \<and> ls_ids sc' = set (map fr_eventId ((pre @ [r]) @ rs)) \<and>
      ls_lastSeq sc' = (if rs = [] then ls_lastSeq sc1 else fr_seq (last rs))"
    using Cons.prems by (intro Cons.IH) (auto simp: sc1_def sorted_wrt_append)
  ultimately show ?case using Cons.prems(7) by (auto simp: sc1_def)
qed simp

lemma compact_replays:
  assumes "ring_ok cfg f" "ff_nextSeq f \<le> MAX_SAFE_INTEGER"
  shows "replays cfg (compact_file f) f (length (ff_events f))"
proof -
  let ?sc = "\<lparr>ls_digest = ff_snapshotDigest f, ls_events = [], ls_ids = {}, ls_lastSeq = 0\<rparr>"
  have r: "\<forall>r\<in>set (ff_events f). record_ok cfg r \<and> fr_seq r < ff_nextSeq f" using assms(1) by (auto simp: ring_ok_def ring_list_def list_all_iff)
  have "\<exists>sc'. scan_lines cfg (map (\<lambda>r. Some (event_line r)) (ff_events f)) ?sc = Inr sc' \<and> ls_digest sc' = ls_digest ?sc \<and> ls_events sc' = [] @ ff_events f \<and>
    ls_ids sc' = set (map fr_eventId ([] @ ff_events f)) \<and> ls_lastSeq sc' = (if ff_events f = [] then ls_lastSeq ?sc else fr_seq (last (ff_events f)))"
    using assms r by (intro ring_scan) (auto simp: ring_ok_def ring_list_def record_ok_def intro: safe_seq)
  then obtain sc where sc: "scan_lines cfg (map (\<lambda>r. Some (event_line r)) (ff_events f)) ?sc = Inr sc" "ls_digest sc = ff_snapshotDigest f"
    "ls_events sc = ff_events f" "ls_ids sc = set (map fr_eventId (ff_events f))"
    "ls_lastSeq sc = (if ff_events f = [] then 0 else fr_seq (last (ff_events f)))" by auto
  have "ls_lastSeq sc + 1 \<le> ff_nextSeq f" 
  proof (cases "ff_events f = []")
    case True
    with sc(5) assms(1) show ?thesis by (simp add: ring_ok_def)
  next
    case False
    with sc(5) bspec [OF r last_in_set [OF False]] show ?thesis by simp
  qed
  with sc assms have t: "tracks (ff_nextSeq f) sc f" by (auto simp: tracks_def ring_ok_def)
  let ?h = "[(''type'', JStr ''header''), (''version'', JInt 3), (''feedId'', JStr (ff_feedId f)),
     (''nextSeq'', JInt (ff_nextSeq f)), (''snapshotDigest'', digest_json (ff_snapshotDigest f))]"
  have "feed_identity ?h = Inr (ff_feedId f, ff_nextSeq f)"
    using assms by (simp add: feed_identity_def throw_if_def ring_ok_def isSafeInteger_def)
  moreover have "parseDigest (map_of ?h ''snapshotDigest'') = Inr (ff_snapshotDigest f)"
    using assms(1) by (cases "ff_snapshotDigest f") (simp_all add: parseDigest_def digest_json_def ring_ok_def digest_ok_def throw_if_def)
  ultimately show ?thesis
    unfolding replays_def compact_file_def header_line_def using sc(1) t
    by (intro exI [of _ ?h] exI [of _ "map (\<lambda>r. Some (event_line r)) (ff_events f)"] exI) auto
qed



section \<open>Reachable feeds\<close>

definition feed_inv :: "feed_cfg \<Rightarrow> feed \<Rightarrow> disk \<Rightarrow> bool" where
  "feed_inv cfg f d \<longleftrightarrow> ring_ok cfg f \<and> (ff_logLines f \<noteq> None \<longrightarrow> ff_logIdentity f \<noteq> None) \<and>
     (\<forall>n i file. ff_logLines f = Some n \<longrightarrow> ff_logIdentity f = Some i \<longrightarrow> d = Some (i, file) \<longrightarrow> ff_nextSeq f \<le> MAX_SAFE_INTEGER \<longrightarrow>
        replays cfg file f n)"

text \<open>The file at the path says what the feed holds.\<close>

definition durable :: "feed_cfg \<Rightarrow> feed \<Rightarrow> disk \<Rightarrow> bool" where
  "durable cfg f d \<longleftrightarrow> (ff_nextSeq f \<le> MAX_SAFE_INTEGER \<longrightarrow> (\<exists>i file n. d = Some (i, file) \<and> replays cfg file f n))"

text \<open>A write that failed: nothing but the line count is lost, and then the file is as it was.\<close>

definition write_failed :: "feed \<Rightarrow> disk \<Rightarrow> feed \<Rightarrow> disk \<Rightarrow> bool" where
  "write_failed f d f' d' \<longleftrightarrow> same_state f' f \<and> ff_logIdentity f' = ff_logIdentity f \<and>
     (ff_logLines f' = None \<or> ff_logLines f' = ff_logLines f \<and> d' = d)"

lemma feed_inv_ring: "feed_inv cfg f d \<Longrightarrow> ring_ok cfg f"
  by (simp add: feed_inv_def)

lemma feed_inv_failed:
  assumes "feed_inv cfg f d" "same_state f' f" "ff_logIdentity f' = ff_logIdentity f" "ff_logLines f' = None \<or> ff_logLines f' = ff_logLines f \<and> d' = d"
  shows "feed_inv cfg f' d'"
  using assms(1,3,4) same_state_ring [OF assms(2), of cfg] replays_state [OF assms(2), of cfg] assms(2)
  by (auto simp: feed_inv_def same_state_def)

lemma compact_cases:
  assumes "ring_ok cfg f" "compact io f d = (r, f', d')"
  shows "(\<exists>e. r = Inl e) \<and> write_failed f d f' d' \<or> r = Inr () \<and> same_state f' f \<and> feed_inv cfg f' d' \<and> durable cfg f' d'"
proof (cases "io_compactOwned io")
  case False
  with assms(2) show ?thesis by (auto simp: compact_def write_failed_def)
next
  case True
  show ?thesis
  proof (cases "io_compact io")
    case (CompactDone fresh)
    with True assms(2) have f': "f' = f\<lparr>ff_logLines := Some (length (ff_events f)), ff_logIdentity := Some fresh, ff_compactionFailing := False\<rparr>"
      and d': "d' = Some (fresh, compact_file f)" and r: "r = Inr ()" by (auto simp: compact_def)
    have s: "same_state f' f" by (simp add: f' same_state_def)
    have "replays cfg (compact_file f) f' (length (ff_events f))" if "ff_nextSeq f' \<le> MAX_SAFE_INTEGER"
      using compact_replays [OF assms(1)] that replays_state [OF s] f' by simp
    with s r show ?thesis using same_state_ring [OF s] assms(1) by (auto simp: feed_inv_def durable_def f' d')
  qed (use True assms(2) in \<open>auto simp: compact_def write_failed_def same_state_def\<close>)
qed

lemma write_lines_cases:
  assumes inv: "feed_inv cfg f d" and st: "ring_ok cfg f1" "same_log f1 f"
    and ext: "\<And>file n. replays cfg file f n \<Longrightarrow> ff_nextSeq f1 \<le> MAX_SAFE_INTEGER \<Longrightarrow> replays cfg (appended ls file) f1 (n + length ls)"
    and le: "ff_nextSeq f \<le> ff_nextSeq f1" and on: "ff_logLines f = Some n" "ff_logIdentity f = Some i" "d = Some (i, fl)"
    and w: "write_lines cfg io ls n (i, fl) f1 = (r, f', d')"
  shows "(\<exists>e. r = Inl e) \<and> write_failed f1 d f' d' \<or> r = Inr () \<and> same_state f' f1 \<and> feed_inv cfg f' d' \<and> durable cfg f' d'"
proof (cases "io_append io")
  case AppendDone
  define g where "g = f1\<lparr>ff_logLines := Some (n + length ls)\<rparr>"
  define dg where "dg = Some (i, appended ls fl)"
  have g: "same_state g f1" "ring_ok cfg g" using st(1) by (simp_all add: g_def same_state_def ring_ok_def)
  have rep: "replays cfg (appended ls fl) g (n + length ls)" if "ff_nextSeq g \<le> MAX_SAFE_INTEGER"
    using ext [of fl n] inv on le that replays_state [OF g(1)] by (auto simp: feed_inv_def g_def)
  have gi: "feed_inv cfg g dg" "durable cfg g dg"
    using rep g(2) st(2) on(2) by (auto simp: feed_inv_def durable_def g_def dg_def same_log_def)
  show ?thesis
  proof (cases "compaction_due cfg (n + length ls)")
    case False
    with w AppendDone g gi show ?thesis by (auto simp: write_lines_def Let_def g_def [symmetric] dg_def [symmetric])
  next
    case True
    obtain cr cf cd where c: "compact io g dg = (cr, cf, cd)" by (cases "compact io g dg") auto
    show ?thesis
    proof (cases cr)
      case (Inr u)
      with w AppendDone True c have e: "r = Inr ()" "f' = cf" "d' = cd" by (auto simp: write_lines_def Let_def g_def [symmetric] dg_def [symmetric])
      from compact_cases [OF g(2) c] Inr have "same_state cf g \<and> feed_inv cfg cf cd \<and> durable cfg cf cd" by auto
      with e same_state_trans [OF _ g(1)] show ?thesis by blast
    next
      case (Inl x)
      with w AppendDone True c have e: "r = Inr ()" "f' = cf\<lparr>ff_compactionFailing := True\<rparr>" "d' = cd"
        by (auto simp: write_lines_def Let_def g_def [symmetric] dg_def [symmetric])
      from compact_cases [OF g(2) c] Inl have wf: "write_failed g dg cf cd" by auto
      then have s: "same_state f' g" by (simp add: e same_state_def write_failed_def)
      have inv': "feed_inv cfg f' d'"
        by (rule feed_inv_failed [OF gi(1) s]) (use wf e in \<open>auto simp: write_failed_def\<close>)
      have "cd = dg \<or> (\<exists>fresh. cd = Some (fresh, compact_file g))"
        using c by (auto simp: compact_def split: if_splits compact_outcome.splits)
      then have "durable cfg g cd" using gi(2) compact_replays [OF g(2)] by (auto simp: durable_def)
      then have "durable cfg f' d'" using s e(3) replays_state [OF s] by (auto simp: durable_def same_state_def)
      with e(1) inv' same_state_trans [OF s g(1)] show ?thesis by blast
    qed
  qed
qed (use w in \<open>auto simp: write_lines_def write_failed_def same_state_def\<close>)

lemma appendLines_cases:
  assumes inv: "feed_inv cfg f d" and st: "ring_ok cfg f1" "same_log f1 f"
    and ext: "\<And>file n. replays cfg file f n \<Longrightarrow> ff_nextSeq f1 \<le> MAX_SAFE_INTEGER \<Longrightarrow> replays cfg (appended ls file) f1 (n + length ls)"
    and le: "ff_nextSeq f \<le> ff_nextSeq f1" and a: "appendLines cfg io ls f1 d = (r, f', d')" and ne: "ls \<noteq> []"
  shows "(\<exists>e. r = Inl e) \<and> write_failed f1 d f' d' \<or> r = Inr () \<and> same_state f' f1 \<and> feed_inv cfg f' d' \<and> durable cfg f' d'"
proof -
  have keep: "(\<exists>e. r = Inl e) \<and> write_failed f1 d f' d'" if "\<exists>e. (r, f', d') = (Inl e, f1, d)"
    using that by (auto simp: write_failed_def)
  note c = compact_cases [OF st(1), of io d r f' d']
  show ?thesis
  proof (cases "\<not> io_owned io \<or> logFileStatus f1 d = Replaced")
    case True
    with a ne keep show ?thesis by (auto simp: appendLines_def split: if_splits)
  next
    case False
    show ?thesis
    proof (cases "logFileStatus f1 d = Missing \<or> ff_logLines f1 = None")
      case True
      with False a ne have "compact io f1 d = (r, f', d')" by (auto simp: appendLines_def split: if_splits)
      with c show ?thesis by blast
    next
      case nm: False
      with st(2) inv obtain n i where n: "ff_logLines f = Some n" "ff_logIdentity f = Some i"
        by (auto simp: feed_inv_def same_log_def)
      with nm False st(2) obtain fl where d: "d = Some (i, fl)"
        by (auto simp: logFileStatus_def same_log_def split: option.splits if_splits)
      with a ne False nm n st(2) have "write_lines cfg io ls n (i, fl) f1 = (r, f', d')"
        by (auto simp: appendLines_def same_log_def)
      from write_lines_cases [OF inv st ext le n d this] show ?thesis .
    qed
  qed
qed

end
