(* ===== verification/Feed_Load.thy ===== *)
theory Feed_Load
  imports Federation_Feed
begin

text \<open>
  Loading the federation log (\<^verbatim>\<open>server/src/federation.ts\<close>): a file that is accepted gives a
  well-formed ring, and one that needs no rewrite is replayed by the lines it holds.
\<close>

section \<open>Loading gives a well-formed ring\<close>

lemma kind_of_str [simp]: "isEventKind (Some (JStr (kind_str k))) = Some k"
  by (cases k) (simp_all add: isEventKind_def)

lemma parse_event_again: "parseFederationEvent raw = Inr ev \<Longrightarrow> parseFederationEvent (event_json ev) = Inr ev"
  by (auto simp: parseFederationEvent_def event_json_def hasExactKeys_def Let_def js_bind_Inr throw_if_Inr
      split: json.splits option.splits)

lemma parseRecord_ok:
  assumes "parseRecord sha row = Inr r" "sha = fc_sha256 cfg"
  shows "record_ok cfg r"
  using assms(1) unfolding parseRecord_def assms(2)
  by (auto simp: record_ok_def js_bind_Inr throw_if_Inr parse_event_again split: option.splits json.splits)

lemma parseDigest_ok: "parseDigest v = Inr d \<Longrightarrow> digest_ok d"
  by (auto simp: parseDigest_def digest_ok_def throw_if_Inr split: option.splits json.splits)

lemma feed_identity_ok: "feed_identity row = Inr (fid, n) \<Longrightarrow> FEED_ID_RE fid \<and> 1 \<le> n"
  by (auto simp: feed_identity_def throw_if_Inr split: option.splits json.splits)

definition scan_ok :: "feed_cfg \<Rightarrow> log_scan \<Rightarrow> bool" where
  "scan_ok cfg sc \<longleftrightarrow> ring_list cfg (ls_events sc) \<and> ls_ids sc = set (map fr_eventId (ls_events sc)) \<and>
     (\<forall>r\<in>set (ls_events sc). fr_seq r \<le> ls_lastSeq sc) \<and> digest_ok (ls_digest sc) \<and> 0 \<le> ls_lastSeq sc"

lemma sorted_remove1: "sorted_wrt (<) (map f xs) \<Longrightarrow> sorted_wrt (<) (map f (remove1 x xs))" for f :: "'a \<Rightarrow> int"
proof (induction xs)
  case (Cons y ys)
  then show ?case using set_remove1_subset [of x ys] by auto
qed simp

lemma distinct_remove1_map: "distinct (map f xs) \<Longrightarrow> distinct (map f (remove1 x xs))"
proof (induction xs)
  case (Cons y ys)
  then show ?case using set_remove1_subset [of x ys] by auto
qed simp

lemma remove1_id_image:
  assumes "distinct (map f xs)" "x \<in> set xs"
  shows "set (map f (remove1 x xs)) = set (map f xs) - {f x}"
proof -
  have d: "distinct xs" using assms(1) by (simp add: distinct_map)
  then have "set (remove1 x xs) = set xs - {x}" by simp
  moreover have "f y = f x \<longleftrightarrow> y = x" if "y \<in> set xs" for y
    using assms that by (auto simp: distinct_map dest: inj_onD)
  ultimately show ?thesis using assms(2) by auto
qed

lemma scan_event_ok:
  assumes "scan_ok cfg sc" "record_ok cfg r" "scan_event (fc_maxEvents cfg) r sc = Inr sc'"
  shows "scan_ok cfg sc'"
proof -
  let ?i = "fr_eventId r" and ?es = "ls_events sc"
  define base where "base = (if ?i \<in> ls_ids sc then (case find (\<lambda>e. fr_eventId e = ?i) ?es of None \<Rightarrow> butlast ?es | Some e \<Rightarrow> remove1 e ?es) else ?es)"
  from assms(3) have lt: "ls_lastSeq sc < fr_seq r" and sc': "sc' = sc\<lparr>ls_lastSeq := fr_seq r,
      ls_events := kept (fc_maxEvents cfg) (base @ [r]),
      ls_ids := insert ?i (ls_ids sc) - set (map fr_eventId (trimmed (fc_maxEvents cfg) (base @ [r])))\<rparr>"
    by (auto simp: scan_event_def throw_if_Inr Let_def base_def [symmetric])
  have b: "sorted_wrt (<) (map fr_seq base) \<and> distinct (map fr_eventId base) \<and> set base \<subseteq> set ?es \<and> set (map fr_eventId base) = ls_ids sc - {?i}"
  proof (cases "?i \<in> ls_ids sc")
    case False
    with assms(1) show ?thesis by (auto simp: base_def scan_ok_def ring_list_def)
  next
    case True
    then obtain e where e: "find (\<lambda>e. fr_eventId e = ?i) ?es = Some e" "e \<in> set ?es" "fr_eventId e = ?i"
      using assms(1) by (cases "find (\<lambda>e. fr_eventId e = ?i) ?es") (auto simp: scan_ok_def find_None_iff find_Some_iff)
    have "distinct (map fr_eventId ?es)" "sorted_wrt (<) (map fr_seq ?es)" using assms(1) by (simp_all add: scan_ok_def ring_list_def)
    with e True assms(1) sorted_remove1 [of fr_seq ?es e] distinct_remove1_map [of fr_eventId ?es e] remove1_id_image [of fr_eventId ?es e] set_remove1_subset [of e ?es]
    show ?thesis by (simp add: base_def scan_ok_def)
  qed
  have old: "\<forall>x\<in>set ?es. fr_seq x \<le> ls_lastSeq sc \<and> record_ok cfg x"
    using assms(1) by (simp add: scan_ok_def ring_list_def list_all_iff)
  have bl: "fr_seq x < fr_seq r \<and> record_ok cfg x" if "x \<in> set base" for x
  proof -
    from that b have "x \<in> set ?es" by blast
    with old lt show ?thesis by (metis le_less_trans)
  qed
  have p: "sorted_wrt (<) (map fr_seq (base @ [r]))" "distinct (map fr_eventId (base @ [r]))" "list_all (record_ok cfg) (base @ [r])"
    using b bl assms(2) by (simp_all add: sorted_wrt_append list_all_iff)
  have "insert ?i (ls_ids sc) = set (map fr_eventId (base @ [r]))" using b by auto
  with kept_ring [OF p] have k: "ring_list cfg (ls_events sc')" "ls_ids sc' = set (map fr_eventId (ls_events sc'))" by (simp_all add: sc')
  have "set (kept (fc_maxEvents cfg) (base @ [r])) \<subseteq> set (base @ [r])" by (metis kept_def set_drop_subset)
  moreover have "\<forall>x\<in>set (base @ [r]). fr_seq x \<le> fr_seq r" using bl by (auto simp: less_imp_le)
  ultimately have "\<forall>x\<in>set (ls_events sc'). fr_seq x \<le> ls_lastSeq sc'" by (auto simp: sc')
  with k assms(1) lt show ?thesis by (simp add: scan_ok_def sc')
qed

lemma scan_line_ok: "scan_ok cfg sc \<Longrightarrow> scan_line cfg l sc = Inr sc' \<Longrightarrow> scan_ok cfg sc'"
  by (auto simp: scan_line_def js_bind_Inr split: if_splits dest!: parseDigest_ok intro: scan_event_ok parseRecord_ok)
    (simp add: scan_ok_def)

lemma scan_lines_ok: "scan_ok cfg sc \<Longrightarrow> scan_lines cfg ls sc = Inr sc' \<Longrightarrow> scan_ok cfg sc'"
  by (induction ls arbitrary: sc) (auto simp: js_bind_Inr dest: scan_line_ok)

lemma increasing_sorted: "increasing rs \<Longrightarrow> sorted_wrt (<) (map fr_seq rs)"
  unfolding sorted_wrt_map
  by (rule sorted_wrt_iff_nth_Suc_transp [THEN iffD2]) (auto simp: transp_def increasing_def dest: spec [of _ "Suc _"])

lemma sorted_le_last: "sorted_wrt (<) (map fr_seq rs) \<Longrightarrow> r \<in> set rs \<Longrightarrow> fr_seq r \<le> last_seq rs"
proof (induction rs rule: rev_induct)
  case (snoc x xs)
  then show ?case by (auto simp: last_seq_def sorted_wrt_append less_imp_le)
qed simp

lemma legacy_ok:
  assumes "loadLegacyEnvelope cfg env f = Inr g"
  shows "ring_ok cfg g"
proof -
  from assms obtain fid n where id: "feed_identity env = Inr (fid, n)" by (auto simp: loadLegacyEnvelope_def js_bind_Inr)
  note st = assms [unfolded loadLegacyEnvelope_def id js_bind_simps prod.case]
  from st obtain raws where raws: "map_of env ''events'' = Some (JArr raws)"
    by (cases "map_of env ''events''") (simp_all split: json.splits)
  from st [unfolded raws option.case json.case] obtain d events where p: "length raws \<le> fc_maxEvents cfg"
    "parseDigest (map_of env ''snapshotDigest'') = Inr d"
    "map_result (\<lambda>raw. case raw of JObj row \<Rightarrow> parseRecord (fc_sha256 cfg) row | _ \<Rightarrow> Inl ''persisted federation event is invalid'') raws = Inr events"
    "increasing events" "last_seq events < n" "distinct (map fr_eventId events)"
    and g: "g = f\<lparr>ff_feedId := fid, ff_nextSeq := n, ff_events := events, ff_eventIds := set (map fr_eventId events), ff_snapshotDigest := d\<rparr>"
    unfolding js_bind_Inr throw_if_Inr by (auto simp only: not_le not_not Inr_inject)
  have "length events = length raws \<and> list_all (record_ok cfg) events"
    using p(3) unfolding map_result_Inr
    by (induction rule: list_all2_induct) (auto split: json.splits intro: parseRecord_ok)
  with p feed_identity_ok [OF id] parseDigest_ok [OF p(2)] increasing_sorted [OF p(4)] show ?thesis
    by (auto simp: ring_ok_def ring_list_def g dest: sorted_le_last)
qed

lemma parseLog_ok:
  assumes "parseLog cfg fl f0 = Inr (rewrite, f)" "ring_ok cfg f0"
  shows "ring_ok cfg f \<and> (\<not> rewrite \<longrightarrow> (\<exists>n. ff_logLines f = Some n \<and> replays cfg fl f n))"
proof (cases "lf_lines fl")
  case Nil
  with assms show ?thesis by (auto simp: parseLog_def js_bind_Inr throw_if_Inr legacy_ok split: option.splits)
next
  case (Cons l rest)
  with assms(1) obtain header fid n d sc where h: "parseLine l = Inr header" "map_of header ''type'' = Some (JStr ''header'')"
    "map_of header ''version'' = Some (JInt 3)" "feed_identity header = Inr (fid, n)" "parseDigest (map_of header ''snapshotDigest'') = Inr d"
    and sc: "scan_lines cfg rest \<lparr>ls_digest = d, ls_events = [], ls_ids = {}, ls_lastSeq = 0\<rparr> = Inr sc"
    and rw: "rewrite = (lf_rest fl \<noteq> None)" and f: "f = f0\<lparr>ff_feedId := fid, ff_nextSeq := max n (ls_lastSeq sc + 1), ff_events := ls_events sc,
            ff_eventIds := ls_ids sc, ff_snapshotDigest := ls_digest sc, ff_logLines := Some (length rest)\<rparr>"
    by (auto simp: parseLog_def js_bind_Inr throw_if_Inr)
  have l: "l = Some (JObj header)" using h(1) by (auto simp: parseLine_def split: option.splits json.splits)
  have "scan_ok cfg \<lparr>ls_digest = d, ls_events = [], ls_ids = {}, ls_lastSeq = 0\<rparr>"
    using parseDigest_ok [OF h(5)] by (simp add: scan_ok_def ring_list_def)
  from scan_lines_ok [OF this sc] have ok: "scan_ok cfg sc" .
  have "ring_ok cfg f" using ok feed_identity_ok [OF h(4)] by (fastforce simp: f ring_ok_def scan_ok_def)
  moreover have "replays cfg fl f (length rest)" if "\<not> rewrite"
    unfolding replays_def using that rw h sc Cons l by (fastforce simp: f tracks_def)
  ultimately show ?thesis by (auto simp: f)
qed

end
