(* ===== verification/Feed_Safety.thy ===== *)
theory Feed_Safety
  imports Feed_Load
begin

text \<open>
  The federation feed over time (\<^verbatim>\<open>server/src/federation.ts\<close>): every operation of the class as a
  step of a transition relation, the invariant that memory and log agree, and what follows for a
  restart, for a failed write and for a peer that follows the feed with a cursor.
\<close>

section \<open>What each operation does\<close>

lemma load_feed_inv:
  assumes "FEED_ID_RE freshId" "FEED_ID_RE quarantineId" "load_feed cfg io freshId quarantineId d = (Inr (), f, d')"
  shows "feed_inv cfg f d'"
proof -
  have new: "ring_ok cfg (new_feed i)" "ff_logLines (new_feed i) = None" if "FEED_ID_RE i" for i
    using that by (simp_all add: new_feed_def ring_ok_def ring_list_def digest_ok_def)
  have ninv: "feed_inv cfg (new_feed i) e" if "FEED_ID_RE i" for i e using new [OF that] by (simp add: feed_inv_def)
  show ?thesis
  proof (cases d)
    case None
    with assms(3) ninv [OF assms(1)] show ?thesis by (simp add: load_feed_def Let_def)
  next
    case (Some p)
    obtain i fl where p: "p = (i, fl)" by force
    show ?thesis
    proof (cases "parseLog cfg fl (new_feed freshId)")
      case (Inl e)
      with assms(3) Some p ninv [OF assms(2)] show ?thesis by (auto simp: load_feed_def quarantine_def Let_def split: if_splits)
    next
      case (Inr q)
      obtain rewrite g where q: "q = (rewrite, g)" by force
      from parseLog_ok [OF Inr [unfolded q] new(1) [OF assms(1)]]
      have g: "ring_ok cfg g" "\<not> rewrite \<Longrightarrow> \<exists>n. ff_logLines g = Some n \<and> replays cfg fl g n" by auto
      show ?thesis
      proof (cases rewrite)
        case True
        with assms(3) Some p Inr q have "compact io g d = (Inr (), f, d')" by (simp add: load_feed_def Let_def)
        from compact_cases [OF g(1) this] show ?thesis by auto
      next
        case False
        with assms(3) Some p Inr q have f: "f = g\<lparr>ff_logIdentity := Some i\<rparr>" "d' = d" by (simp_all add: load_feed_def Let_def)
        then have "same_state g f" by (simp add: same_state_def)
        with g False f Some p show ?thesis using replays_state same_state_ring by (fastforce simp: feed_inv_def)
      qed
    qed
  qed
qed

text \<open>How an operation that returned leaves memory and file: everything was there already, or it is on disk now.\<close>

definition settled :: "feed_cfg \<Rightarrow> feed \<Rightarrow> disk \<Rightarrow> feed \<Rightarrow> disk \<Rightarrow> bool" where
  "settled cfg f d f' d' \<longleftrightarrow> feed_inv cfg f' d' \<and> ring_grows f f' \<and> ff_feedId f' = ff_feedId f \<and>
     (d' = d \<and> same_state f' f \<or> durable cfg f' d')"

lemma stage_all_quiet:
  assumes "cfg_ok cfg" "ring_ok cfg f" "stage_all cfg raws at acc f = (Inr (), acc @ new, f1)" "concat (map sg_lines new) = []"
  shows "same_state f1 f"
  using assms(2-4)
proof (induction raws arbitrary: acc f new)
  case Nil
  then show ?case by simp
next
  case (Cons raw raws)
  obtain s f2 where s: "stageAppend cfg raw at None f = Inr (s, f2)" using Cons.prems(2) by (auto split: sum.splits)
  with Cons.prems(2) have rest: "stage_all cfg raws at (acc @ [s]) f2 = (Inr (), acc @ new, f1)" by simp
  note st = stage_step [OF assms(1) Cons.prems(1) s]
  from stage_all_step [OF assms(1) _ rest] st obtain tl where tl: "new = s # tl" by auto
  then have "sg_lines s = []" using Cons.prems(3) by simp
  from assms(1) Cons.prems(1) s have "same_state f2 f" by (cases rule: stageAppend_cases) (use \<open>sg_lines s = []\<close> in auto)
  moreover have "same_state f1 f2" using Cons.IH [of f2 "acc @ [s]" tl] st rest tl Cons.prems(3) by simp
  ultimately show ?case using same_state_trans by blast
qed

lemma write_failed_back:
  assumes "write_failed f1 d g d'" "same_log f1 f" "\<And>h. same_state h f1 \<Longrightarrow> same_state (undo h) f \<and> same_log (undo h) h"
  shows "write_failed f d (undo g) d'"
proof -
  have "same_state g f1" using assms(1) by (simp add: write_failed_def)
  from assms(3) [OF this] assms(1,2) show ?thesis by (auto simp: write_failed_def same_log_def)
qed

lemma settled_write:
  assumes "ring_grows f f1" "ff_feedId f1 = ff_feedId f" "same_state f' f1" "feed_inv cfg f' d'" "durable cfg f' d'"
  shows "settled cfg f d f' d'"
  using assms ring_grows_trans [OF assms(1) same_state_grows(2) [OF assms(3)]] by (auto simp: settled_def same_state_def)

lemma settled_quiet:
  assumes "feed_inv cfg f d" "same_state f' f" "same_log f' f"
  shows "settled cfg f d f' d"
  using feed_inv_failed [OF assms(1,2)] assms same_state_grows(2) [OF assms(2)] by (auto simp: settled_def same_log_def same_state_def)

lemma same_state_oldest: "same_state f g \<Longrightarrow> ff_events f = ff_events g \<and> oldest_seq f = oldest_seq g"
  by (simp add: same_state_def oldest_seq_def split: list.split)

text \<open>Every append goes the same way: stage, write, and take the staging back when the write failed.\<close>

lemma staged_write:
  assumes inv: "feed_inv cfg f d"
    and st: "ring_ok cfg f1" "same_log f1 f" "ff_feedId f1 = ff_feedId f" "ring_grows f f1"
    and undo: "\<And>g. same_state g f1 \<Longrightarrow> same_state (undo g) f \<and> same_log (undo g) g"
    and ext: "\<And>ns sc. tracks ns sc f \<Longrightarrow> ff_nextSeq f1 \<le> MAX_SAFE_INTEGER \<Longrightarrow>
      \<exists>sc'. scan_lines cfg (map Some ls) sc = Inr sc' \<and> tracks ns sc' f1"
    and quiet: "ls = [] \<Longrightarrow> same_state f1 f"
    and a: "appendLines cfg io ls f1 d = (ar, f2, d2)"
  shows "(\<exists>e. ar = Inl e) \<and> write_failed f d (undo f2) d2 \<or> ar = Inr () \<and> settled cfg f d f2 d2 \<and> same_state f2 f1"
proof (cases "ls = []")
  case True
  with a have "ar = Inr ()" "f2 = f1" "d2 = d" by (simp_all add: appendLines_def)
  with settled_quiet [OF inv quiet [OF True] st(2)] show ?thesis by simp
next
  case False
  have ext': "replays cfg (appended ls fl) f1 (n + length ls)" if "replays cfg fl f n" "ff_nextSeq f1 \<le> MAX_SAFE_INTEGER" for fl n
    by (rule replays_append [OF that(1) st(3)]) (rule ext [OF _ that(2)])
  have "ff_nextSeq f \<le> ff_nextSeq f1" using st(4) by (simp add: ring_grows_def)
  from appendLines_cases [OF inv st(1,2) ext' this a False] show ?thesis
    using write_failed_back [OF _ st(2) undo] settled_write [OF st(4,3)] by blast
qed

lemma appendBatch_cases:
  assumes cfg: "cfg_ok cfg" and inv: "feed_inv cfg f d" and a: "appendBatch cfg io raws at f d = (r, f', d')"
  shows "(\<exists>e. r = Inl e) \<and> write_failed f d f' d' \<or>
    (\<exists>rs. r = Inr rs \<and> settled cfg f d f' d' \<and> length rs = length raws \<and>
       (\<forall>x\<in>set rs. x \<in> set (ff_events f') \<or> fr_seq x < oldest_seq f'))"
proof (cases "raws = []")
  case True
  with a settled_quiet [OF inv same_state_refl same_log_refl] show ?thesis by (simp add: appendBatch_def)
next
  case False
  obtain res staged f1 where st: "stage_all cfg raws at [] f = (res, staged, f1)" by (cases "stage_all cfg raws at [] f") auto
  note ring = feed_inv_ring [OF inv]
  from stage_all_step [OF cfg ring st]
  have s: "ring_ok cfg f1" "same_log f1 f" "ff_feedId f1 = ff_feedId f" "ring_grows f f1" and len: "res = Inr () \<Longrightarrow> length staged = length raws"
    and rs: "\<forall>s\<in>set staged. sg_record s \<in> set (ff_events f1) \<or> fr_seq (sg_record s) < oldest_seq f1"
    and undo: "\<And>g. same_state g f1 \<Longrightarrow> same_state (rollback_all staged g) f \<and> same_log (rollback_all staged g) g" by auto
  show ?thesis
  proof (cases res)
    case (Inl e)
    with a False st have "r = Inl e" "f' = rollback_all staged f1" "d' = d" by (auto simp: appendBatch_def)
    with s(2) undo [OF same_state_refl] show ?thesis by (auto simp: write_failed_def same_log_def)
  next
    case (Inr u)
    then have st': "stage_all cfg raws at [] f = (Inr (), [] @ staged, f1)" using st by simp
    let ?ls = "concat (map sg_lines staged)"
    obtain ar f2 d2 where al: "appendLines cfg io ?ls f1 d = (ar, f2, d2)" by (cases "appendLines cfg io ?ls f1 d") auto
    have w: "(\<exists>e. ar = Inl e) \<and> write_failed f d (rollback_all staged f2) d2 \<or> ar = Inr () \<and> settled cfg f d f2 d2 \<and> same_state f2 f1"
      by (rule staged_write [OF inv s undo stage_all_scan [OF cfg ring st'] stage_all_quiet [OF cfg ring st'] al])
    show ?thesis
    proof (cases ar)
      case (Inl e)
      with al a False st Inr have "r = Inl e" "f' = rollback_all staged f2" "d' = d2" by (auto simp: appendBatch_def)
      with w Inl show ?thesis by blast
    next
      case ok: (Inr v)
      with al a False st Inr have "r = Inr (map sg_record staged)" "f' = f2" "d' = d2" by (auto simp: appendBatch_def)
      with w ok len rs Inr same_state_oldest [of f2 f1] show ?thesis by auto
    qed
  qed
qed

lemma append_one_cases:
  assumes cfg: "cfg_ok cfg" and inv: "feed_inv cfg f d" and a: "append_one cfg io raw at snapshot f d = (r, f', d')"
  shows "(\<exists>e. r = Inl e) \<and> write_failed f d f' d' \<or> (\<exists>x. r = Inr x \<and> settled cfg f d f' d' \<and> x \<in> set (ff_events f'))"
proof (cases "stageAppend cfg raw at snapshot f")
  case (Inl e)
  with a show ?thesis by (auto simp: append_one_def write_failed_def)
next
  case (Inr p)
  obtain s f1 where p: "p = (s, f1)" by force
  note sa = Inr [unfolded p]
  note ring = feed_inv_ring [OF inv]
  from stage_step [OF cfg ring sa]
  have st: "ring_ok cfg f1" "same_log f1 f" "ff_feedId f1 = ff_feedId f" "ring_grows f f1" and rec: "sg_record s \<in> set (ff_events f1)"
    and undo: "\<And>g. same_state g f1 \<Longrightarrow> same_state (sg_rollback s g) f \<and> same_log (sg_rollback s g) g" by auto
  have quiet: "same_state f1 f" if "sg_lines s = []"
    using cfg ring sa by (cases rule: stageAppend_cases) (use that in auto)
  obtain ar f2 d2 where al: "appendLines cfg io (sg_lines s) f1 d = (ar, f2, d2)" by (cases "appendLines cfg io (sg_lines s) f1 d") auto
  have w: "(\<exists>e. ar = Inl e) \<and> write_failed f d (sg_rollback s f2) d2 \<or> ar = Inr () \<and> settled cfg f d f2 d2 \<and> same_state f2 f1"
    by (rule staged_write [OF inv st undo staged_lines_scan [OF cfg ring sa] quiet al])
  have e: "sg_lines s = [] \<Longrightarrow> ar = Inr () \<and> f2 = f1 \<and> d2 = d" using al by (simp add: appendLines_def)
  show ?thesis
  proof (cases ar)
    case (Inl e)
    with a sa al e have "r = Inl e" "f' = sg_rollback s f2" "d' = d2" by (auto simp: append_one_def split: if_splits)
    with w Inl show ?thesis by blast
  next
    case ok: (Inr v)
    with a sa al e have "r = Inr (sg_record s)" "f' = f2" "d' = d2" by (auto simp: append_one_def split: if_splits)
    with w ok rec same_state_oldest [of f2 f1] show ?thesis by auto
  qed
qed

lemma checkpoint_cases:
  assumes cfg: "cfg_ok cfg" and inv: "feed_inv cfg f d" and a: "checkpoint cfg io evs f d = (r, f', d')"
  shows "(\<exists>e. r = Inl e) \<and> write_failed f d f' d' \<or> r = Inr () \<and> feed_inv cfg f' d' \<and> ring_grows f f' \<and> ff_feedId f' = ff_feedId f"
proof (cases "federationSnapshotDigest (fc_sha256 cfg) evs")
  case (Inl e)
  with a show ?thesis by (auto simp: checkpoint_def write_failed_def)
next
  case (Inr t)
  show ?thesis
  proof (cases "Some t = ff_snapshotDigest f \<or> logFileStatus f d \<noteq> Owned")
    case True
    with a Inr have "r = Inr ()" "f' = f" "d' = d" by (auto simp: checkpoint_def split: if_splits)
    with inv same_state_grows [OF same_state_refl] show ?thesis by auto
  next
    case False
    define f1 where "f1 = f\<lparr>ff_snapshotDigest := Some t\<rparr>"
    let ?undo = "\<lambda>g. g\<lparr>ff_snapshotDigest := ff_snapshotDigest f\<rparr>"
    have dok: "digest_ok (Some t)" using digest_re [OF cfg Inr] by (simp add: digest_ok_def)
    have st: "ring_ok cfg f1" "same_log f1 f" "ff_feedId f1 = ff_feedId f" "ring_grows f f1"
      using feed_inv_ring [OF inv] dok by (auto simp: f1_def ring_ok_def same_log_def ring_grows_def gapless_def oldest_seq_def split: list.split)
    have undo: "same_state (?undo g) f \<and> same_log (?undo g) g" if "same_state g f1" for g
      using that by (simp add: same_state_def same_log_def f1_def)
    have ext: "\<exists>sc'. scan_lines cfg (map Some [digest_line (Some t)]) sc = Inr sc' \<and> tracks ns sc' f1" if "tracks ns sc f" for ns sc
      using that by (simp add: digest_line_scan [OF dok] tracks_def f1_def)
    obtain ar f2 d2 where al: "appendLines cfg io [digest_line (Some t)] f1 d = (ar, f2, d2)"
      by (cases "appendLines cfg io [digest_line (Some t)] f1 d") auto
    have w: "(\<exists>e. ar = Inl e) \<and> write_failed f d (?undo f2) d2 \<or> ar = Inr () \<and> settled cfg f d f2 d2 \<and> same_state f2 f1"
      by (rule staged_write [OF inv st undo ext _ al]) simp_all
    from a Inr False al have "(r, f', d') = (case ar of Inl e \<Rightarrow> (Inl e, ?undo f2, d2) | Inr _ \<Rightarrow> (Inr (), f2, d2))"
      by (auto simp: checkpoint_def f1_def [symmetric] split: sum.splits)
    with w show ?thesis by (auto simp: settled_def)
  qed
qed

lemma reconcileSnapshot_cases:
  assumes cfg: "cfg_ok cfg" and inv: "feed_inv cfg f d" and "FEED_ID_RE freshId"
    and a: "reconcileSnapshot cfg io freshId evs f d = (r, f', d')"
  shows "(\<exists>e. r = Inl e) \<and> write_failed f d f' d' \<or> r = Inr False \<and> f' = f \<and> d' = d \<or>
    r = Inr True \<and> feed_inv cfg f' d' \<and> durable cfg f' d' \<and> ring_grows f f' \<and> ff_feedId f' = freshId"
proof (cases "federationSnapshotDigest (fc_sha256 cfg) evs")
  case (Inl e)
  with a show ?thesis by (auto simp: reconcileSnapshot_def write_failed_def)
next
  case (Inr t)
  show ?thesis
  proof (cases "Some t = ff_snapshotDigest f")
    case True
    with a Inr show ?thesis by (auto simp: reconcileSnapshot_def)
  next
    case False
    define f1 where "f1 = f\<lparr>ff_feedId := freshId, ff_snapshotDigest := Some t, ff_cachedResetPage := None\<rparr>"
    have ring: "ring_ok cfg f1" using feed_inv_ring [OF inv] assms(3) digest_re [OF cfg Inr] by (simp add: ring_ok_def f1_def digest_ok_def)
    obtain cr f2 d2 where c: "compact io f1 d = (cr, f2, d2)" by (cases "compact io f1 d") auto
    from a Inr False c have eq: "(r, f', d') = (case cr of Inl e \<Rightarrow> (Inl e, f2\<lparr>ff_feedId := ff_feedId f, ff_snapshotDigest := ff_snapshotDigest f\<rparr>, d2)
        | Inr _ \<Rightarrow> (Inr True, f2, d2))"
      by (auto simp: reconcileSnapshot_def f1_def [symmetric] split: sum.splits)
    from compact_cases [OF ring c] show ?thesis
    proof
      assume "(\<exists>e. cr = Inl e) \<and> write_failed f1 d f2 d2"
      then obtain e where e: "cr = Inl e" and wf: "write_failed f1 d f2 d2" by blast
      have "write_failed f d (f2\<lparr>ff_feedId := ff_feedId f, ff_snapshotDigest := ff_snapshotDigest f\<rparr>) d2"
        using wf by (auto simp: write_failed_def same_state_def f1_def)
      with e eq show ?thesis by simp
    next
      assume w: "cr = Inr () \<and> same_state f2 f1 \<and> feed_inv cfg f2 d2 \<and> durable cfg f2 d2"
      then have s: "same_state f2 f1" by simp
      have "ring_grows f f1" by (simp add: ring_grows_def gapless_def f1_def oldest_seq_def split: list.split)
      then have "ring_grows f f2" using same_state_grows(2) [OF s] ring_grows_trans by blast
      moreover have "ff_feedId f2 = freshId" using s by (simp add: same_state_def f1_def)
      ultimately show ?thesis using w eq by simp
    qed
  qed
qed



section \<open>Reachable feeds\<close>

inductive feed_step :: "feed_cfg \<Rightarrow> feed \<times> disk \<Rightarrow> feed \<times> disk \<Rightarrow> bool" for cfg where
  batch: "appendBatch cfg io raws at f d = (r, f', d') \<Longrightarrow> feed_step cfg (f, d) (f', d')"
| one: "append_one cfg io raw at snapshot f d = (r1, f', d') \<Longrightarrow> feed_step cfg (f, d) (f', d')"
| check: "checkpoint cfg io evs f d = (r2, f', d') \<Longrightarrow> feed_step cfg (f, d) (f', d')"
| reconcile: "FEED_ID_RE freshId \<Longrightarrow> reconcileSnapshot cfg io freshId evs f d = (r3, f', d') \<Longrightarrow> feed_step cfg (f, d) (f', d')"
| page: "feed_page cfg now cursor limit snap f = Inr (p, f') \<Longrightarrow> feed_step cfg (f, d) (f', d)"
| outside: "\<forall>i fl. d' = Some (i, fl) \<longrightarrow> ff_logIdentity f \<noteq> Some i \<Longrightarrow> feed_step cfg (f, d) (f, d')"

text \<open>The feeds of a process: started from some file, then any operations, with other processes replacing the file between them.\<close>

inductive feed_reach :: "feed_cfg \<Rightarrow> feed \<times> disk \<Rightarrow> bool" for cfg where
  start: "FEED_ID_RE freshId \<Longrightarrow> FEED_ID_RE quarantineId \<Longrightarrow> load_feed cfg io freshId quarantineId d0 = (Inr (), f, d) \<Longrightarrow> feed_reach cfg (f, d)"
| step: "feed_reach cfg s \<Longrightarrow> feed_step cfg s s' \<Longrightarrow> feed_reach cfg s'"

lemma failed_inv: "feed_inv cfg f d \<Longrightarrow> write_failed f d f' d' \<Longrightarrow> feed_inv cfg f' d' \<and> ring_grows f f'"
  using feed_inv_failed [of cfg f d f' d'] same_state_grows(2) [of f' f] by (auto simp: write_failed_def)

lemma feed_page_state: "feed_page cfg now cursor limit snap f = Inr (p, f') \<Longrightarrow> same_state f' f \<and> same_log f' f"
  by (auto simp: feed_page_def reset_page_def throw_if_Inr js_bind_Inr Let_def same_state_def same_log_def split: option.splits if_splits)

lemma feed_step_inv:
  assumes "cfg_ok cfg" "feed_step cfg s s'" "feed_inv cfg (fst s) (snd s)"
  shows "feed_inv cfg (fst s') (snd s') \<and> ring_grows (fst s) (fst s')"
  using assms(2)
proof cases
  case (batch io raws at f d r f' d')
  with appendBatch_cases [OF assms(1) _ batch(3)] failed_inv assms(3) show ?thesis by (fastforce simp: settled_def)
next
  case (one io raw at snapshot f d r f' d')
  with append_one_cases [OF assms(1) _ one(3)] failed_inv assms(3) show ?thesis by (fastforce simp: settled_def)
next
  case (check io evs f d r f' d')
  with checkpoint_cases [OF assms(1) _ check(3)] failed_inv assms(3) show ?thesis by fastforce
next
  case (reconcile freshId io evs f d r f' d')
  with reconcileSnapshot_cases [OF assms(1) _ reconcile(3,4)] failed_inv assms(3) same_state_grows(1) [OF same_state_refl]
  show ?thesis by fastforce
next
  case (page now cursor limit snap f p f' d)
  from feed_page_state [OF page(3)] have "write_failed f d f' d" by (simp add: write_failed_def same_log_def)
  with page failed_inv [of cfg f d f' d] assms(3) show ?thesis by simp
next
  case (outside d' f d)
  with assms(3) same_state_grows(1) [OF same_state_refl] show ?thesis by (auto simp: feed_inv_def)
qed

lemma feed_reach_inv: "feed_reach cfg s \<Longrightarrow> cfg_ok cfg \<Longrightarrow> feed_inv cfg (fst s) (snd s)"
  by (induction rule: feed_reach.induct) (use load_feed_inv feed_step_inv in fastforce)+

lemma feed_steps_grow: "(feed_step cfg)\<^sup>*\<^sup>* s s' \<Longrightarrow> cfg_ok cfg \<Longrightarrow> feed_inv cfg (fst s) (snd s) \<Longrightarrow>
    feed_inv cfg (fst s') (snd s') \<and> ring_grows (fst s) (fst s')"
proof (induction rule: rtranclp_induct)
  case base
  then show ?case using same_state_grows(1) [OF same_state_refl] by simp
next
  case (step y z)
  then show ?case using feed_step_inv [OF _ step(2)] ring_grows_trans by blast
qed


section \<open>Restarts and failed writes\<close>

lemma durable_load:
  assumes "durable cfg f d" "ff_nextSeq f \<le> MAX_SAFE_INTEGER"
  shows "\<exists>g. load_feed cfg io freshId quarantineId d = (Inr (), g, d) \<and> same_state g f"
proof -
  from assms obtain i fl n where d: "d = Some (i, fl)" "replays cfg fl f n" by (auto simp: durable_def)
  from replays_parse [OF d(2), of "new_feed freshId"] obtain g where
    "parseLog cfg fl (new_feed freshId) = Inr (False, g)" "same_state g f" by blast
  with d(1) show ?thesis by (auto simp: load_feed_def Let_def same_state_def)
qed

lemma failed_append_file:
  assumes "appendLines cfg io ls f d = (Inl e, f', d')" "\<forall>k rest. io_append io \<noteq> AppendTorn k rest" "\<forall>n. io_compact io \<noteq> DirectorySyncFailed n"
    and "ff_logLines f \<noteq> None \<longrightarrow> ff_logIdentity f \<noteq> None"
  shows "d' = d"
proof -
  have c: "d2 = d1" if "compact io f1 d1 = (Inl x, f2, d2)" for f1 d1 x f2 d2
    using that assms(3) by (auto simp: compact_def split: if_splits compact_outcome.splits)
  have w: "d2 = Some fl" if "write_lines cfg io ls n fl f1 = (Inl x, f2, d2)" for n fl f1 x f2 d2
    using that assms(2) by (auto simp: write_lines_def Let_def split: append_outcome.splits if_splits prod.splits sum.splits)
  have m: "logFileStatus f None = Missing" if "ff_logLines f = Some n" for n
    using that assms(4) by (auto simp: logFileStatus_def)
  show ?thesis using assms(1) c w m
    by (auto simp: appendLines_def split: if_splits option.splits)
qed



text \<open>
  C8: An acknowledged batch survives a crash. When \<^verbatim>\<open>appendBatch\<close> returns in any reachable feed, each of
  its records is in the ring (or was already pushed out by later ones), and either every event was
  known before and neither the feed nor the file changed (then nothing is said of a restart: the log may
  have been removed meanwhile), or a process that starts from the file as it is now loads
  exactly the feed of memory, whatever the file system does to it next.
\<close>

theorem acknowledged_batch_is_durable:
  assumes "cfg_ok cfg" "feed_reach cfg (f, d)" "appendBatch cfg io raws at f d = (Inr rs, f', d')" "ff_nextSeq f' \<le> MAX_SAFE_INTEGER"
  shows "length rs = length raws \<and> (\<forall>x\<in>set rs. x \<in> set (ff_events f') \<or> fr_seq x < oldest_seq f') \<and>
    (d' = d \<and> same_state f' f \<or>
     (\<exists>g. load_feed cfg io' freshId quarantineId d' = (Inr (), g, d') \<and> same_state g f'))"
proof -
  have "feed_inv cfg f d" using feed_reach_inv [OF assms(2,1)] by simp
  from appendBatch_cases [OF assms(1) this assms(3)] have
    r: "settled cfg f d f' d'" "length rs = length raws" "\<forall>x\<in>set rs. x \<in> set (ff_events f') \<or> fr_seq x < oldest_seq f'" by auto
  with durable_load [OF _ assms(4)] show ?thesis by (auto simp: settled_def)
qed

text \<open>
  C10: A batch that fails changes nothing a peer can see: identity, ring, ids, next sequence and digest
  are as before, and the feed remains reachable for the retry. The file is untouched with two exceptions:
  the appended bytes could not be truncated away again, or the batch was written by a compaction whose
  rename succeeded and whose directory flush failed; then the file holds the failed batch.
\<close>

theorem failed_batch_leaves_feed:
  assumes "cfg_ok cfg" "feed_reach cfg (f, d)" "appendBatch cfg io raws at f d = (Inl e, f', d')"
  shows "same_state f' f \<and> feed_reach cfg (f', d') \<and>
    ((\<forall>k rest. io_append io \<noteq> AppendTorn k rest) \<longrightarrow> (\<forall>n. io_compact io \<noteq> DirectorySyncFailed n) \<longrightarrow> d' = d)"
proof (intro conjI impI)
  have inv: "feed_inv cfg f d" using feed_reach_inv [OF assms(2,1)] by simp
  from appendBatch_cases [OF assms(1) inv assms(3)] show "same_state f' f" by (auto simp: write_failed_def)
  show "feed_reach cfg (f', d')" by (rule feed_reach.step [OF assms(2) batch [OF assms(3)]])
  assume io: "\<forall>k rest. io_append io \<noteq> AppendTorn k rest" "\<forall>n. io_compact io \<noteq> DirectorySyncFailed n"
  obtain res staged f1 where st: "stage_all cfg raws at [] f = (res, staged, f1)" by (cases "stage_all cfg raws at [] f") auto
  from stage_all_step [OF assms(1) feed_inv_ring [OF inv] st] inv have "ff_logLines f1 \<noteq> None \<longrightarrow> ff_logIdentity f1 \<noteq> None"
    by (auto simp: same_log_def feed_inv_def)
  with assms(3) st show "d' = d"
    by (auto simp: appendBatch_def split: if_splits sum.splits prod.splits dest: failed_append_file [OF _ io])
qed

definition demo_feed_cfg :: feed_cfg where
  "demo_feed_cfg = \<lparr>fc_sha256 = (\<lambda>t. replicate 63 (CHR ''0'') @ (if even (length t) then ''b'' else ''a'')),
     fc_maxEvents = 4, fc_recordBytes = (\<lambda>_. 100)\<rparr>"

definition demo_io :: feed_io where
  "demo_io = \<lparr>io_owned = True, io_compactOwned = True, io_compact = CompactDone 7, io_append = AppendDone, io_moved = True\<rparr>"

definition demo_id :: string where "demo_id = replicate 32 (CHR ''a'')"

definition demo_event :: "string \<Rightarrow> fed_event" where
  "demo_event s = \<lparr>fe_kind = EvCancel, fe_payload = [(''side'', JStr s)]\<rparr>"

lemma demo_feed_ok: "cfg_ok demo_feed_cfg" "FEED_ID_RE demo_id"
  by (auto simp: cfg_ok_def demo_feed_cfg_def EVENT_ID_RE_def FEED_ID_RE_def demo_id_def matches_def is_hex_lower_def is_digit_def char_in_def list_all_iff)

lemma demo_reach: "feed_reach demo_feed_cfg (new_feed demo_id, None)"
  by (rule feed_reach.start [OF demo_feed_ok(2,2), of demo_feed_cfg demo_io None]) (simp add: load_feed_def Let_def)


lemma demo_text: "canonicalFederationJson (demo_event ''bid'') = Inr ''{\"kind\":\"cancel-v2\",\"payload\":{\"side\":\"bid\"}}''"
  by code_simp

lemma demo_parse: "parseFederationEvent (event_json (demo_event ''bid'')) = Inr (demo_event ''bid'')"
proof -
  have "length (utf8 ''{\"kind\":\"cancel-v2\",\"payload\":{\"side\":\"bid\"}}'') = 45" by code_simp
  then show ?thesis
    using demo_text by (simp add: parseFederationEvent_def event_json_def demo_event_def hasExactKeys_def isEventKind_def throw_if_def MAX_EVENT_BYTES_def Let_def)
qed

definition demo_hash :: "char \<Rightarrow> string" where "demo_hash c = replicate 63 (CHR ''0'') @ [c]"

lemma demo_event_id: "federationEventId (fc_sha256 demo_feed_cfg) (demo_event ''bid'') = Inr (demo_hash (CHR ''a''))"
  by code_simp

definition demo_record :: feed_record where
  "demo_record = \<lparr>fr_seq = 1, fr_eventId = demo_hash (CHR ''a''), fr_event = demo_event ''bid'', fr_receivedAt = 50\<rparr>"

definition demo_feed :: feed where
  "demo_feed = (new_feed demo_id)\<lparr>ff_nextSeq := 2, ff_events := [demo_record], ff_eventIds := {demo_hash (CHR ''a'')}, ff_snapshotDigest := None\<rparr>"

lemma demo_stage: "\<exists>undo. stageAppend demo_feed_cfg (demo_event ''bid'') 50 None (new_feed demo_id) =
    Inr (\<lparr>sg_lines = [event_line demo_record], sg_record = demo_record, sg_rollback = undo\<rparr>, demo_feed)"
  by (simp add: stageAppend_def demo_parse demo_event_id demo_feed_def new_feed_def Let_def throw_if_def isSafeInteger_def MAX_SAFE_INTEGER_def
      drop_cache_def demo_record_def demo_feed_cfg_def [THEN arg_cong [of _ _ fc_maxEvents]])


definition demo_after :: feed where
  "demo_after = demo_feed\<lparr>ff_logLines := Some 1, ff_logIdentity := Some 7, ff_compactionFailing := False\<rparr>"

lemma demo_batch: "appendBatch demo_feed_cfg demo_io [demo_event ''bid''] 50 (new_feed demo_id) None =
    (Inr [demo_record], demo_after, Some (7, compact_file demo_feed))"
  using demo_stage
  by (auto simp: appendBatch_def appendLines_def logFileStatus_def compact_def demo_io_def demo_feed_def demo_after_def new_feed_def)

theorem acknowledged_batch_is_durable_witness:
  "\<exists>g. load_feed demo_feed_cfg demo_io demo_id demo_id (Some (7, compact_file demo_feed)) = (Inr (), g, Some (7, compact_file demo_feed)) \<and>
     ff_events g = [demo_record] \<and> ff_nextSeq g = 2"
proof -
  have "ff_nextSeq demo_after \<le> MAX_SAFE_INTEGER" by (simp add: demo_after_def demo_feed_def MAX_SAFE_INTEGER_def)
  from acknowledged_batch_is_durable [OF demo_feed_ok(1) demo_reach demo_batch this, of demo_io demo_id demo_id]
  obtain g where "load_feed demo_feed_cfg demo_io demo_id demo_id (Some (7, compact_file demo_feed)) = (Inr (), g, Some (7, compact_file demo_feed))"
    "same_state g demo_after" by blast
  then show ?thesis by (intro exI [of _ g]) (simp add: same_state_def demo_after_def demo_feed_def)
qed

lemma demo_failed: "\<exists>f'. appendBatch demo_feed_cfg (demo_io\<lparr>io_compact := StagingFailed\<rparr>) [demo_event ''bid''] 50 (new_feed demo_id) None =
    (Inl ''federation data could not be persisted safely'', f', None)"
  using demo_stage
  by (auto simp: appendBatch_def appendLines_def logFileStatus_def compact_def demo_io_def demo_feed_def new_feed_def)

theorem failed_batch_leaves_feed_witness:
  "\<exists>f'. appendBatch demo_feed_cfg (demo_io\<lparr>io_compact := StagingFailed\<rparr>) [demo_event ''bid''] 50 (new_feed demo_id) None =
     (Inl ''federation data could not be persisted safely'', f', None) \<and> ff_events f' = [] \<and> ff_nextSeq f' = 1"
proof -
  from demo_failed obtain f' where a: "appendBatch demo_feed_cfg (demo_io\<lparr>io_compact := StagingFailed\<rparr>) [demo_event ''bid''] 50 (new_feed demo_id) None =
     (Inl ''federation data could not be persisted safely'', f', None)" by blast
  from failed_batch_leaves_feed [OF demo_feed_ok(1) demo_reach a] have "same_state f' (new_feed demo_id)" by blast
  with a show ?thesis by (intro exI [of _ f']) (simp add: same_state_def new_feed_def)
qed


section \<open>Following the feed\<close>

lemma show_nat_length: "n < 10 ^ Suc k \<Longrightarrow> length (show_nat n) \<le> Suc k"
proof (induction k arbitrary: n)
  case 0
  then show ?case by (simp add: show_nat.simps [of n])
next
  case (Suc k)
  show ?case
  proof (cases "n < 10")
    case True
    then show ?thesis by (simp add: show_nat.simps [of n])
  next
    case False
    have "n div 10 < 10 ^ Suc k" using Suc.prems by (simp add: div_less_iff_less_mult)
    with Suc.IH False show ?thesis by (simp add: show_nat.simps [of n])
  qed
qed

lemma parse_cursor_at:
  assumes "FEED_ID_RE (ff_feedId f)" "0 \<le> n" "n \<le> MAX_SAFE_INTEGER"
  shows "parse_cursor (cursor_at f n) = Some (ff_feedId f, n)" "length (cursor_at f n) \<le> 64"
proof -
  have l: "length (ff_feedId f) = 32" and h: "list_all is_hex_lower (ff_feedId f)"
    using assms(1) by (simp_all add: FEED_ID_RE_def matches_def)
  have "nat n < 10 ^ Suc 15" using assms(3) by (simp add: MAX_SAFE_INTEGER_def)
  from show_nat_length [OF this] have d: "length (show_int n) \<le> 16" using assms(2) by (simp add: show_int_def)
  have u: "UINT_RE (show_int n)" by (rule uint_show_int) (use assms in \<open>simp add: safe_nonneg_def isSafeInteger_def\<close>)
  have "drop 33 (cursor_at f n) = show_int n" "take 32 (cursor_at f n) = ff_feedId f" "cursor_at f n ! 32 = CHR '':''"
    using l by (simp_all add: cursor_at_def nth_append)
  with l h d u bigint_show_int [OF assms(2)] show "parse_cursor (cursor_at f n) = Some (ff_feedId f, n)" "length (cursor_at f n) \<le> 64"
    by (auto simp: parse_cursor_def Let_def cursor_at_def UINT_RE_def)
qed

lemma select_page_take: "\<exists>n. select_page rb limit c b es = take n es \<and> (1 \<le> limit \<longrightarrow> c = 0 \<longrightarrow> es \<noteq> [] \<longrightarrow> 1 \<le> n) \<and> n \<le> length es"
proof (induction es arbitrary: c b)
  case (Cons e es)
  from Cons.IH [of "c + 1" "b + (rb e + 1)"] obtain n where n: "select_page rb limit (c + 1) (b + (rb e + 1)) es = take n es" "n \<le> length es" by blast
  show ?case
  proof (cases "c \<ge> limit \<or> c > 0 \<and> b + (rb e + 1) > MAX_FEDERATION_INCREMENTAL_BYTES")
    case True
    then have "select_page rb limit c b (e # es) = take 0 (e # es)" by auto
    with True show ?thesis by (intro exI [of _ 0]) auto
  next
    case False
    with n have "select_page rb limit c b (e # es) = take (Suc n) (e # es)" by simp
    with n(2) show ?thesis by (intro exI [of _ "Suc n"]) auto
  qed
qed simp

lemma after_take:
  assumes "sorted_wrt (<) (map fr_seq rs)" "1 \<le> n" "n \<le> length rs"
  shows "filter (\<lambda>r. fr_seq (last (take n rs)) < fr_seq r) rs = drop n rs"
proof -
  obtain xs x where t: "take n rs = xs @ [x]" using assms(2,3) by (cases "take n rs" rule: rev_cases) auto
  then have rs: "rs = (xs @ [x]) @ drop n rs" by (metis append_take_drop_id)
  have "sorted_wrt (<) (map fr_seq ((xs @ [x]) @ drop n rs))" using assms(1) rs by simp
  then have "\<forall>r\<in>set xs. fr_seq r < fr_seq x" "\<forall>r\<in>set (drop n rs). fr_seq x < fr_seq r" by (auto simp: sorted_wrt_append)
  then have "filter (\<lambda>r. fr_seq x < fr_seq r) ((xs @ [x]) @ drop n rs) = drop n rs" by (auto simp: filter_empty_conv)
  then have "filter (\<lambda>r. fr_seq x < fr_seq r) rs = drop n rs" by (metis rs)
  with t show ?thesis by simp
qed


definition available :: "feed \<Rightarrow> int \<Rightarrow> feed_record list" where
  "available f after = filter (\<lambda>r. after < fr_seq r) (ff_events f)"

text \<open>A peer that asks for page after page until there are no more: at most \<open>n\<close> pages, what it received and its cursor.\<close>

fun follow :: "feed_cfg \<Rightarrow> nat \<Rightarrow> int \<Rightarrow> fed_event list \<Rightarrow> feed \<Rightarrow> nat \<Rightarrow> string \<Rightarrow> (feed_record list \<times> string) option" where
  "follow cfg limit now snap f 0 c = None"
| "follow cfg limit now snap f (Suc n) c =
     (case feed_page cfg now (Some c) limit snap f of
        Inl _ \<Rightarrow> None
      | Inr (p, f') \<Rightarrow>
          if fp_reset p then None
          else if fp_hasMore p then map_option (\<lambda>(rs, c'). (fp_events p @ rs, c')) (follow cfg limit now snap f' n (fp_cursor p))
          else Some (fp_events p, fp_cursor p))"

lemma accepted_page:
  assumes "1 \<le> limit" "limit \<le> 256" "\<not> requiresReset (Some c) f" "parse_cursor c = Some (fid, after)"
  obtains m where "m \<le> length (available f after)" "available f after \<noteq> [] \<Longrightarrow> 1 \<le> m"
    "feed_page cfg now (Some c) limit snap f = Inr (\<lparr>fp_reset = False,
       fp_cursor = cursor_at f (if take m (available f after) = [] then after else fr_seq (last (take m (available f after)))),
       fp_hasMore = (m < length (available f after)), fp_events = take m (available f after), fp_snapshot = None\<rparr>, f)"
proof -
  from select_page_take [of "fc_recordBytes cfg" limit 0 256 "available f after"] assms(1) obtain m where
    m: "select_page (fc_recordBytes cfg) limit 0 256 (available f after) = take m (available f after)"
      "available f after \<noteq> [] \<longrightarrow> 1 \<le> m" "m \<le> length (available f after)" by auto
  show thesis
    by (rule that [of m]) (use m assms in \<open>simp_all add: feed_page_def throw_if_def Let_def available_def [symmetric] min_def\<close>)
qed

lemma next_cursor:
  assumes "ring_ok cfg f" "ff_nextSeq f \<le> MAX_SAFE_INTEGER" "r \<in> set (ff_events f)"
  shows "\<not> requiresReset (Some (cursor_at f (fr_seq r))) f" "parse_cursor (cursor_at f (fr_seq r)) = Some (ff_feedId f, fr_seq r)"
proof -
  have b: "1 \<le> fr_seq r" "fr_seq r < ff_nextSeq f" "FEED_ID_RE (ff_feedId f)"
    using assms(1,3) by (auto simp: ring_ok_def ring_list_def record_ok_def list_all_iff)
  then have "isSafeInteger (fr_seq r)" using assms(2) by (simp add: isSafeInteger_def)
  with b parse_cursor_at [of f "fr_seq r"] assms(2) oldest_seq_le [OF assms(1,3)]
  show "\<not> requiresReset (Some (cursor_at f (fr_seq r))) f" "parse_cursor (cursor_at f (fr_seq r)) = Some (ff_feedId f, fr_seq r)"
    by (simp_all add: requiresReset_def not_less)
qed

lemma follow_all:
  assumes "ring_ok cfg f" "ff_nextSeq f \<le> MAX_SAFE_INTEGER" "1 \<le> limit" "limit \<le> 256"
    and "\<not> requiresReset (Some c) f" "parse_cursor c = Some (fid, after)" "length (available f after) \<le> n"
  shows "follow cfg limit now snap f (Suc n) c = Some (available f after,
    cursor_at f (if available f after = [] then after else fr_seq (last (available f after))))"
  using assms(5-7)
proof (induction n arbitrary: c fid after)
  case 0
  obtain m where "m \<le> length (available f after)" "feed_page cfg now (Some c) limit snap f = Inr (\<lparr>fp_reset = False,
       fp_cursor = cursor_at f (if take m (available f after) = [] then after else fr_seq (last (take m (available f after)))),
       fp_hasMore = (m < length (available f after)), fp_events = take m (available f after), fp_snapshot = None\<rparr>, f)"
    using accepted_page [OF assms(3,4) 0(1,2)] by blast
  with 0 show ?case by simp
next
  case (Suc n)
  let ?a = "available f after"
  obtain m where m: "m \<le> length ?a" "?a \<noteq> [] \<Longrightarrow> 1 \<le> m" and p: "feed_page cfg now (Some c) limit snap f = Inr (\<lparr>fp_reset = False,
       fp_cursor = cursor_at f (if take m ?a = [] then after else fr_seq (last (take m ?a))),
       fp_hasMore = (m < length ?a), fp_events = take m ?a, fp_snapshot = None\<rparr>, f)"
    using accepted_page [OF assms(3,4) Suc.prems(1,2)] by blast
  show ?case
  proof (cases "m < length ?a")
    case False
    with m p show ?thesis by (cases "?a = []") simp_all
  next
    case True
    then have "?a \<noteq> []" by auto
    with m(2) have ne: "take m ?a \<noteq> []" "1 \<le> m" by auto
    define l where "l = last (take m ?a)"
    have "l \<in> set (take m ?a)" using ne(1) by (simp add: l_def)
    then have l: "l \<in> set (ff_events f)" "after < fr_seq l" by (auto simp: available_def dest: in_set_takeD)
    have "sorted_wrt (<) (map fr_seq (ff_events f))" using assms(1) by (simp add: ring_ok_def ring_list_def)
    then have sa: "sorted_wrt (<) (map fr_seq ?a)" by (simp add: available_def sorted_wrt_map sorted_wrt_filter)
    have "available f (fr_seq l) = filter (\<lambda>r. fr_seq l < fr_seq r) ?a" using l(2) by (auto simp: available_def intro: filter_cong)
    also have "\<dots> = drop m ?a" unfolding l_def by (rule after_take [OF sa ne(2) m(1)])
    finally have rest: "available f (fr_seq l) = drop m ?a" .
    have "length (available f (fr_seq l)) \<le> n" using Suc.prems(3) ne(2) True by (simp add: rest)
    from Suc.IH [OF next_cursor [OF assms(1,2) l(1)] this] True
    have "follow cfg limit now snap f (Suc n) (cursor_at f (fr_seq l)) = Some (drop m ?a, cursor_at f (fr_seq (last ?a)))"
      by (simp add: rest last_drop)
    with p True ne(1) show ?thesis by (auto simp: l_def [symmetric] simp del: take_eq_Nil)
  qed
qed


text \<open>
  C9: A follower misses nothing. Take any reachable feed and anything the process does afterwards. A peer
  whose cursor is still accepted then and who asks for page after page comes to an end, within one page
  more than the ring has records, and has received exactly the retained records after its cursor, in
  order; among them is every record the earlier feed held after that cursor. The cursor it ends with
  is accepted as well.
\<close>

theorem follower_misses_nothing:
  assumes "cfg_ok cfg" "feed_reach cfg s" "(feed_step cfg)\<^sup>*\<^sup>* s (f, d)" "ff_nextSeq f \<le> MAX_SAFE_INTEGER" "1 \<le> limit" "limit \<le> 256"
    and "\<not> requiresReset (Some c) f" "parse_cursor c = Some (fid, after)"
  shows "\<exists>c'. follow cfg limit now snap f (Suc (length (ff_events f))) c = Some (filter (\<lambda>r. after < fr_seq r) (ff_events f), c') \<and>
    \<not> requiresReset (Some c') f \<and> (\<forall>r\<in>set (ff_events (fst s)). after < fr_seq r \<longrightarrow> r \<in> set (ff_events f))"
proof -
  from feed_steps_grow [OF assms(3,1) feed_reach_inv [OF assms(2,1)]]
  have ring: "ring_ok cfg f" and g: "ring_grows (fst s) f" by (auto dest: feed_inv_ring)
  define a where "a = available f after"
  from assms(7,8) have acc: "isSafeInteger after" "oldest_seq f - 1 \<le> after" "after \<le> ff_nextSeq f - 1"
    by (auto simp: requiresReset_def split: if_splits)
  have n: "0 \<le> after"
    using assms(8) by (auto simp: parse_cursor_def Let_def split: if_splits)
  have "\<not> requiresReset (Some (cursor_at f (if a = [] then after else fr_seq (last a)))) f"
  proof (cases "a = []")
    case True
    with parse_cursor_at [of f after] ring n acc assms(4) show ?thesis by (simp add: requiresReset_def ring_ok_def isSafeInteger_def)
  next
    case False
    then have "last a \<in> set (ff_events f)" using last_in_set [OF False] by (simp add: a_def available_def)
    with False next_cursor(1) [OF ring assms(4)] show ?thesis by simp
  qed
  moreover have "\<forall>r\<in>set (ff_events (fst s)). after < fr_seq r \<longrightarrow> r \<in> set (ff_events f)"
    using g acc(2) by (fastforce simp: ring_grows_def)
  moreover have "length (available f after) \<le> length (ff_events f)" by (simp add: available_def)
  from follow_all [OF ring assms(4-8) this]
  have "follow cfg limit now snap f (Suc (length (ff_events f))) c = Some (a, cursor_at f (if a = [] then after else fr_seq (last a)))"
    by (simp add: a_def)
  ultimately show ?thesis by (auto simp: a_def available_def)
qed

lemma demo_run: "(feed_step demo_feed_cfg)\<^sup>*\<^sup>* (new_feed demo_id, None) (demo_after, Some (7, compact_file demo_feed))"
  using batch [OF demo_batch] by (rule r_into_rtranclp)

lemma demo_next: "ff_nextSeq demo_after \<le> MAX_SAFE_INTEGER"
  by (simp add: demo_after_def demo_feed_def MAX_SAFE_INTEGER_def)

lemma demo_cursor: "parse_cursor (demo_id @ '':0'') = Some (demo_id, 0)"
  by code_simp

lemma demo_accepted: "\<not> requiresReset (Some (demo_id @ '':0'')) demo_after"
  by (simp add: requiresReset_def demo_cursor demo_after_def demo_feed_def new_feed_def oldest_seq_def demo_record_def
      isSafeInteger_def MAX_SAFE_INTEGER_def) (simp add: demo_id_def)

lemma demo_ring: "ff_events demo_after = [demo_record]" "fr_seq demo_record = 1"
  by (simp_all add: demo_after_def demo_feed_def demo_record_def)

theorem follower_misses_nothing_witness:
  "\<exists>c'. follow demo_feed_cfg 1 0 [] demo_after 2 (demo_id @ '':0'') = Some ([demo_record], c')"
proof -
  from follower_misses_nothing [OF demo_feed_ok(1) demo_reach demo_run demo_next _ _ demo_accepted demo_cursor, of 1 0 "[]"] obtain c' where
    "follow demo_feed_cfg 1 0 [] demo_after (Suc (length (ff_events demo_after))) (demo_id @ '':0'') =
       Some (filter (\<lambda>r. 0 < fr_seq r) (ff_events demo_after), c')" by auto
  then show ?thesis by (intro exI [of _ c']) (simp add: demo_ring numeral_2_eq_2 del: follow.simps)
qed


section \<open>A compaction whose directory flush failed\<close>

text \<open>
  The rename of a compaction puts a new file at the path, and the remembered identity is updated only
  after the directory flush. When that flush fails, the feed takes its own file for a replaced one and
  refuses every later write, although a failed compaction is meant to be retried by the next write.
\<close>

lemma stale_identity_refuses_writes:
  assumes "compact io f d = (Inl e, f1, d1)" "io_compactOwned io" "io_compact io = DirectorySyncFailed fresh"
    and "ff_logIdentity f = Some i" "i \<noteq> fresh" "io_owned io'" "ls \<noteq> []"
  shows "appendLines cfg io' ls f1 d1 = (Inl ''federation data file was replaced by another order-book process'', f1, d1)"
  using assms by (auto simp: compact_def appendLines_def logFileStatus_def)

end
