(* ===== verification/Peer_Page.thy ===== *)
theory Peer_Page
  imports Feed_Safety
begin

text \<open>
  What a mirror accepts from a peer (\<^verbatim>\<open>server/src/peer-sync.ts\<close>): the strict parser of a
  federation page and the check that a page continues the cursor it was requested with. The pages a
  feed serves for an accepted cursor pass both, so two correct processes never refuse each other.
\<close>

section \<open>Parsing a page\<close>

record peer_record =
  pr_seq :: int
  pr_eventId :: string
  pr_event :: fed_event

record peer_page =
  pp_reset :: bool
  pp_cursor :: string
  pp_hasMore :: bool
  pp_events :: "peer_record list"
  pp_snapshot :: "peer_record list option"

definition PEER_MAX_SNAPSHOT_EVENTS :: nat where "PEER_MAX_SNAPSHOT_EVENTS = 6144"

definition assertExactKeys :: "jobj \<Rightarrow> string list \<Rightarrow> string \<Rightarrow> (string, unit) result" where
  "assertExactKeys value expected label =
     throw_if (length value \<noteq> length expected \<or> \<not> list_all (\<lambda>k. k \<in> set (map fst value)) expected)
       (label @ '' has invalid fields'') (Inr ())"

definition parseCursor :: "string \<Rightarrow> string \<Rightarrow> (string, string \<times> int) result" where
  "parseCursor cursor label =
     (case parse_cursor cursor of
        None \<Rightarrow> Inl (label @ '' has an invalid cursor'')
      | Some (feedId, sequence) \<Rightarrow>
          throw_if (\<not> isSafeInteger sequence) (label @ '' has an invalid cursor'') (Inr (feedId, sequence)))"

definition parsePageRecord :: "(string \<Rightarrow> string) \<Rightarrow> json \<Rightarrow> string \<Rightarrow> string set \<Rightarrow> string \<Rightarrow> int \<Rightarrow>
    (string, peer_record \<times> string set) result" where
  "parsePageRecord sha256 raw label eventIds collectionLabel minimumSequence =
     (case raw of
        JObj row \<Rightarrow>
          js_bind (assertExactKeys row [''seq'', ''eventId'', ''event''] label) (\<lambda>_.
          case map_of row ''seq'' of
            Some (JInt s) \<Rightarrow>
              throw_if (\<not> isSafeInteger s \<or> s < minimumSequence) (label @ '' has an invalid sequence'')
             (case map_of row ''eventId'' of
                Some (JStr i) \<Rightarrow>
                  throw_if (\<not> EVENT_ID_RE i) (label @ '' has an invalid event id'')
                 (throw_if (i \<in> eventIds) (collectionLabel @ '' contains a duplicate event id'')
                 (case map_of row ''event'' of
                    Some (JObj event) \<Rightarrow>
                      js_bind (assertExactKeys event [''kind'', ''payload''] (label @ '' event'')) (\<lambda>_.
                      js_bind (parseFederationEvent (JObj event)) (\<lambda>ev.
                      js_bind (federationEventId sha256 ev) (\<lambda>i'.
                      throw_if (i' \<noteq> i) (label @ '' content hash does not match'')
                        (Inr (\<lparr>pr_seq = s, pr_eventId = i, pr_event = ev\<rparr>, insert i eventIds)))))
                  | _ \<Rightarrow> Inl (label @ '' has an invalid event'')))
              | _ \<Rightarrow> Inl (label @ '' has an invalid event id''))
          | _ \<Rightarrow> Inl (label @ '' has an invalid sequence''))
      | _ \<Rightarrow> Inl (label @ '' must be an object''))"

fun parsePageRecords :: "(string \<Rightarrow> string) \<Rightarrow> string \<Rightarrow> string set \<Rightarrow> string \<Rightarrow> int \<Rightarrow> nat \<Rightarrow> json list \<Rightarrow> (string, peer_record list) result" where
  "parsePageRecords sha256 label eventIds collectionLabel minimumSequence index [] = Inr []"
| "parsePageRecords sha256 label eventIds collectionLabel minimumSequence index (raw # raws) =
     js_bind (parsePageRecord sha256 raw (label @ '' '' @ show_nat index) eventIds collectionLabel minimumSequence) (\<lambda>(r, ids).
     js_bind (parsePageRecords sha256 label ids collectionLabel minimumSequence (index + 1) raws) (\<lambda>rs. Inr (r # rs)))"

definition contiguous :: "peer_record list \<Rightarrow> bool" where
  "contiguous rs \<longleftrightarrow> list_all (\<lambda>i. pr_seq (rs ! i) = pr_seq (rs ! (i - 1)) + 1) [1..<length rs]"

definition incremental_order :: "int \<Rightarrow> peer_record list \<Rightarrow> (string, unit) result" where
  "incremental_order sequence events =
     throw_if (\<not> contiguous events) ''federation peer event sequences are not contiguous''
    (throw_if (events \<noteq> [] \<and> sequence \<noteq> pr_seq (last events)) ''federation peer cursor does not match its event batch'' (Inr ()))"

definition parse_snapshot :: "(string \<Rightarrow> string) \<Rightarrow> json option \<Rightarrow> (string, peer_record list option) result" where
  "parse_snapshot sha256 raw =
     (case raw of
        None \<Rightarrow> Inr None
      | Some (JArr raws) \<Rightarrow>
          throw_if (length raws > PEER_MAX_SNAPSHOT_EVENTS) ''federation peer returned an invalid snapshot''
         (js_bind (parsePageRecords sha256 ''federation snapshot event'' {} ''federation snapshot'' 0 0 raws) (\<lambda>rs. Inr (Some rs)))
      | Some _ \<Rightarrow> Inl ''federation peer returned an invalid snapshot'')"

definition parse_page_events :: "(string \<Rightarrow> string) \<Rightarrow> bool \<Rightarrow> bool \<Rightarrow> json option \<Rightarrow> (string, peer_record list) result" where
  "parse_page_events sha256 reset hasMore raw =
     (case raw of
        Some (JArr raws) \<Rightarrow>
          throw_if (length raws > 256) ''federation peer returned an invalid event batch''
         (throw_if (reset \<and> hasMore) ''federation peer reset cannot continue across pages''
         (throw_if (reset \<and> raws \<noteq> []) ''federation peer reset cannot include incremental events''
         (throw_if (\<not> reset \<and> hasMore \<and> raws = []) ''federation peer continuation page cannot be empty''
         (parsePageRecords sha256 ''federation event'' {} ''federation event batch'' 1 0 raws))))
      | _ \<Rightarrow> Inl ''federation peer returned an invalid event batch'')"

definition parseFederationPage :: "(string \<Rightarrow> string) \<Rightarrow> json \<Rightarrow> (string, peer_page) result" where
  "parseFederationPage sha256 raw =
     (case raw of
        JObj row \<Rightarrow>
         (case map_of row ''reset'' of
            Some (JBool reset) \<Rightarrow>
             (let hasSnapshot = map_of row ''snapshot'' \<noteq> None in
              throw_if (reset \<and> \<not> hasSnapshot) ''federation peer reset omitted its snapshot''
             (throw_if (\<not> reset \<and> hasSnapshot) ''federation peer sent a snapshot without a reset''
             (js_bind (assertExactKeys row ([''reset'', ''cursor'', ''hasMore'', ''events''] @ (if reset then [''snapshot''] else []))
                 ''federation peer page'') (\<lambda>_.
              case map_of row ''cursor'' of
                Some (JStr c) \<Rightarrow>
                  js_bind (parseCursor c ''federation peer'') (\<lambda>(_, sequence).
                  case map_of row ''hasMore'' of
                    Some (JBool hasMore) \<Rightarrow>
                      js_bind (parse_page_events sha256 reset hasMore (map_of row ''events'')) (\<lambda>events.
                      js_bind (parse_snapshot sha256 (map_of row ''snapshot'')) (\<lambda>snapshot.
                      js_bind (if reset
                         then throw_if (\<exists>s. snapshot = Some s \<and> \<not> list_all (\<lambda>r. pr_seq r = sequence) s)
                             ''federation peer snapshot sequence does not match its cursor'' (Inr ())
                         else incremental_order sequence events) (\<lambda>_.
                      Inr \<lparr>pp_reset = reset, pp_cursor = c, pp_hasMore = hasMore, pp_events = events, pp_snapshot = snapshot\<rparr>)))
                  | _ \<Rightarrow> Inl ''federation peer returned an invalid continuation flag'')
              | _ \<Rightarrow> Inl ''federation peer returned an invalid cursor''))))
          | _ \<Rightarrow> Inl ''federation peer returned an invalid reset flag'')
      | _ \<Rightarrow> Inl ''federation peer returned an invalid page'')"

definition validateFederationPageProgress :: "string option \<Rightarrow> peer_page \<Rightarrow> (string, unit) result" where
  "validateFederationPageProgress requestedCursor page =
     (if pp_reset page then Inr ()
      else case requestedCursor of
        None \<Rightarrow> Inl ''federation peer omitted the required initial reset''
      | Some c \<Rightarrow>
          js_bind (parseCursor c ''requested federation cursor'') (\<lambda>(reqFeed, reqSeq).
          js_bind (parseCursor (pp_cursor page) ''returned federation cursor'') (\<lambda>(retFeed, retSeq).
          throw_if (reqFeed \<noteq> retFeed) ''federation peer changed feed id without a reset''
         (case pp_events page of
            [] \<Rightarrow> throw_if (retSeq \<noteq> reqSeq \<or> pp_hasMore page) ''federation peer returned a nonadvancing empty page'' (Inr ())
          | e # _ \<Rightarrow>
              throw_if (reqSeq = MAX_SAFE_INTEGER \<or> pr_seq e \<noteq> reqSeq + 1) ''federation peer event batch does not continue its cursor''
             (throw_if (retSeq \<le> reqSeq) ''federation peer cursor did not advance'' (Inr ()))))))"



section \<open>Serving a page\<close>

definition publicRecord :: "feed_record \<Rightarrow> peer_record" where
  "publicRecord r = \<lparr>pr_seq = fr_seq r, pr_eventId = fr_eventId r, pr_event = fr_event r\<rparr>"

definition record_json :: "peer_record \<Rightarrow> json" where
  "record_json r = JObj [(''seq'', JInt (pr_seq r)), (''eventId'', JStr (pr_eventId r)), (''event'', event_json (pr_event r))]"

text \<open>\<^verbatim>\<open>JSON.stringify(page)\<close> as a value: what \<^verbatim>\<open>serializeFederationPage\<close> sends and a peer reads back.\<close>

definition page_json :: "federation_page \<Rightarrow> json" where
  "page_json p = JObj ([(''reset'', JBool (fp_reset p)), (''cursor'', JStr (fp_cursor p)), (''hasMore'', JBool (fp_hasMore p)),
     (''events'', JArr (map (\<lambda>r. record_json (publicRecord r)) (fp_events p)))] @
     (case fp_snapshot p of None \<Rightarrow> []
      | Some rs \<Rightarrow> [(''snapshot'', JArr (map (\<lambda>(s, i, ev). record_json \<lparr>pr_seq = s, pr_eventId = i, pr_event = ev\<rparr>) rs))]))"

lemma parse_record_served:
  assumes "record_ok cfg r" "isSafeInteger (fr_seq r)" "fr_eventId r \<notin> ids"
  shows "parsePageRecord (fc_sha256 cfg) (record_json (publicRecord r)) label ids coll 1 = Inr (publicRecord r, insert (fr_eventId r) ids)"
proof -
  have ev: "event_json (fr_event r) = JObj [(''kind'', JStr (kind_str (fe_kind (fr_event r)))), (''payload'', JObj (fe_payload (fr_event r)))]"
    by (simp add: event_json_def)
  have p: "parseFederationEvent (JObj [(''kind'', JStr (kind_str (fe_kind (fr_event r)))), (''payload'', JObj (fe_payload (fr_event r)))]) = Inr (fr_event r)"
    using assms(1) by (simp add: record_ok_def ev [symmetric])
  from assms show ?thesis
    by (simp add: parsePageRecord_def record_json_def publicRecord_def assertExactKeys_def throw_if_def record_ok_def ev p)
qed

lemma parse_records_served:
  assumes "list_all (record_ok cfg) rs" "\<forall>r\<in>set rs. isSafeInteger (fr_seq r)" "distinct (map fr_eventId rs)"
    and "set (map fr_eventId rs) \<inter> ids = {}"
  shows "parsePageRecords (fc_sha256 cfg) label ids coll 1 n (map (\<lambda>r. record_json (publicRecord r)) rs) = Inr (map publicRecord rs)"
  using assms
proof (induction rs arbitrary: ids n)
  case (Cons r rs)
  then have "parsePageRecords (fc_sha256 cfg) label (insert (fr_eventId r) ids) coll 1 (n + 1) (map (\<lambda>r. record_json (publicRecord r)) rs) = Inr (map publicRecord rs)"
    by (intro Cons.IH) auto
  moreover have "parsePageRecord (fc_sha256 cfg) (record_json (publicRecord r)) (label @ '' '' @ show_nat n) ids coll 1 =
      Inr (publicRecord r, insert (fr_eventId r) ids)"
    using Cons.prems by (intro parse_record_served) auto
  ultimately show ?case by simp
qed simp

lemma select_page_length: "length (select_page rb limit c b es) \<le> limit - c"
proof (induction es arbitrary: c b)
  case (Cons e es)
  from Cons.IH [of "c + 1" "b + (rb e + 1)"] show ?case by (cases "c < limit") auto
qed simp

lemma filter_tail:
  assumes "\<forall>i<length xs. P (xs ! i) \<longleftrightarrow> k \<le> i"
  shows "filter P xs = drop k xs"
  using assms
proof (induction xs arbitrary: k)
  case (Cons x xs)
  have h: "P x \<longleftrightarrow> k = 0" using Cons.prems by (metis length_greater_0_conv list.distinct(1) nth_Cons_0 le_zero_eq)
  have "\<forall>i<length xs. P (xs ! i) \<longleftrightarrow> k \<le> Suc i" using Cons.prems by (metis Suc_less_eq length_Cons nth_Cons_Suc)
  then have "\<forall>i<length xs. P (xs ! i) \<longleftrightarrow> k - 1 \<le> i" by auto
  from Cons.IH [OF this] h show ?case by (cases k) auto
qed simp

lemma available_seqs:
  assumes "gapless f" "oldest_seq f - 1 \<le> after" "ff_events f \<noteq> [] \<or> after = ff_nextSeq f - 1" "i < length (available f after)"
  shows "fr_seq (available f after ! i) = after + 1 + int i"
proof -
  let ?n = "length (ff_events f)" and ?es = "ff_events f"
  define k where "k = nat (after + 1 - (ff_nextSeq f - int ?n))"
  have ne: "?es \<noteq> []" using assms(4) by (auto simp: available_def)
  have s: "fr_seq (?es ! j) = ff_nextSeq f - int ?n + int j" if "j < ?n" for j using assms(1) that by (simp add: gapless_def)
  have "oldest_seq f = ff_nextSeq f - int ?n" using ne s [of 0] by (cases ?es) (simp_all add: oldest_seq_def)
  with assms(2) have k: "int k = after + 1 - (ff_nextSeq f - int ?n)" by (simp add: k_def)
  have "available f after = drop k ?es"
    unfolding available_def by (rule filter_tail) (use s k in auto)
  with assms(4) s [of "k + i"] k show ?thesis by simp
qed


lemma contiguous_served:
  assumes "\<And>i. i < length rs \<Longrightarrow> fr_seq (rs ! i) = a + int i"
  shows "contiguous (map publicRecord rs)"
  unfolding contiguous_def using assms by (auto simp: list_all_iff publicRecord_def)

lemma served_records:
  assumes "ring_ok cfg f" "ff_nextSeq f \<le> MAX_SAFE_INTEGER" "rs = take m (available f after)"
  shows "list_all (record_ok cfg) rs \<and> (\<forall>r\<in>set rs. isSafeInteger (fr_seq r)) \<and> distinct (map fr_eventId rs)"
proof (intro conjI ballI)
  have sub: "set rs \<subseteq> set (ff_events f)" using assms(3) by (auto simp: available_def dest: in_set_takeD)
  have r: "list_all (record_ok cfg) (ff_events f)" "distinct (map fr_eventId (ff_events f))" "\<forall>r\<in>set (ff_events f). fr_seq r < ff_nextSeq f"
    using assms(1) by (simp_all add: ring_ok_def ring_list_def)
  show "list_all (record_ok cfg) rs" using sub r(1) by (auto simp: list_all_iff)
  have "distinct (map fr_eventId (filter (\<lambda>r. after < fr_seq r) (ff_events f)))" using r(2) by (rule distinct_map_filter)
  then show "distinct (map fr_eventId rs)" by (simp add: assms(3) available_def take_map [symmetric])
  fix x assume "x \<in> set rs"
  with sub r have "1 \<le> fr_seq x" "fr_seq x < ff_nextSeq f" by (auto simp: list_all_iff record_ok_def)
  with assms(2) show "isSafeInteger (fr_seq x)" by (simp add: isSafeInteger_def)
qed

text \<open>
  C18: What a feed serves, its peers accept. Take a reachable feed whose ring has no gap in its sequence
  numbers (the loader only asks for increasing ones, so that an edited log can hold a gap, which this property
  does not cover) and anything the process does afterwards while the sequence numbers stay safe integers. The page it answers to an accepted cursor passes the strict parser of the
  peer: every record with its content hash, the contiguous order, the cursor at the last record; and the
  page continues the requested cursor. The peer reads exactly the records that were served.
\<close>

theorem served_page_accepted:
  assumes "cfg_ok cfg" "feed_reach cfg s" "gapless (fst s)" "(feed_step cfg)\<^sup>*\<^sup>* s (f, d)" "ff_nextSeq f \<le> MAX_SAFE_INTEGER"
    and "\<not> requiresReset (Some c) f" "feed_page cfg now (Some c) limit snap f = Inr (p, f')"
  shows "\<exists>pp. parseFederationPage (fc_sha256 cfg) (page_json p) = Inr pp \<and> validateFederationPageProgress (Some c) pp = Inr () \<and>
    pp_events pp = map publicRecord (fp_events p) \<and> pp_cursor pp = fp_cursor p \<and> pp_hasMore pp = fp_hasMore p"
proof -
  from feed_steps_grow [OF assms(4,1) feed_reach_inv [OF assms(2,1)]] assms(3)
  have ring: "ring_ok cfg f" and g: "gapless f" by (auto simp: ring_grows_def dest: feed_inv_ring)
  from assms(6) obtain after where c: "parse_cursor c = Some (ff_feedId f, after)"
    and acc: "isSafeInteger after" "oldest_seq f - 1 \<le> after" "after \<le> ff_nextSeq f - 1"
    by (simp add: requiresReset_def split: if_splits option.splits prod.splits)
  have lim: "1 \<le> limit" "limit \<le> 256" using assms(7) by (auto simp: feed_page_def throw_if_Inr)
  define sel where "sel = select_page (fc_recordBytes cfg) limit 0 256 (available f after)"
  define lst where "lst = (if sel = [] then after else fr_seq (last sel))"
  have p: "p = \<lparr>fp_reset = False, fp_cursor = cursor_at f lst, fp_hasMore = (length sel < length (available f after)), fp_events = sel, fp_snapshot = None\<rparr>"
    using assms(6,7) lim c by (auto simp: feed_page_def throw_if_def Let_def available_def [symmetric] sel_def lst_def)
  have len: "length sel \<le> 256" using select_page_length [of "fc_recordBytes cfg" limit 0 256 "available f after"] lim by (simp add: sel_def)
  from select_page_take [of "fc_recordBytes cfg" limit 0 256 "available f after"] lim(1) obtain m where
    m: "sel = take m (available f after)" "available f after \<noteq> [] \<Longrightarrow> 1 \<le> m" "m \<le> length (available f after)"
    unfolding sel_def by auto
  have seqs: "fr_seq (sel ! i) = after + 1 + int i" if "i < length sel" for i
  proof -
    have "i < length (available f after)" using that m by auto
    moreover from this have "ff_events f \<noteq> []" by (auto simp: available_def)
    ultimately show ?thesis using available_seqs [OF g acc(2)] that m(1) by simp
  qed
  have sub: "set sel \<subseteq> set (ff_events f)" using m(1) by (auto simp: available_def dest: in_set_takeD)
  have lst: "lst = after + int (length sel)" using seqs [of "length sel - 1"] by (cases sel rule: rev_cases) (auto simp: lst_def)
  have "0 \<le> after" using c by (auto simp: parse_cursor_def Let_def split: if_splits)
  moreover have "lst \<le> ff_nextSeq f - 1"
    using acc(3) sub ring by (cases sel rule: rev_cases) (auto simp: lst_def ring_ok_def)
  ultimately have b: "0 \<le> lst" "lst \<le> MAX_SAFE_INTEGER" "isSafeInteger lst" "0 \<le> after"
    using assms(5) lst by (auto simp: isSafeInteger_def)
  from ring have "FEED_ID_RE (ff_feedId f)" by (simp add: ring_ok_def)
  note cur = parse_cursor_at(1) [OF this b(1,2)]
  have recs: "parsePageRecords (fc_sha256 cfg) ''federation event'' {} ''federation event batch'' 1 0 (map (\<lambda>r. record_json (publicRecord r)) sel) =
      Inr (map publicRecord sel)"
    by (rule parse_records_served) (use served_records [OF ring assms(5) m(1)] in auto)
  have more: "sel \<noteq> []" if "length sel < length (available f after)" using that m(1,3) m(2) by (cases "available f after = []") auto
  have order: "incremental_order lst (map publicRecord sel) = Inr ()"
    using contiguous_served [of sel "after + 1"] seqs by (simp add: incremental_order_def throw_if_def last_map lst_def) (simp add: publicRecord_def)
  define pp where "pp = \<lparr>pp_reset = False, pp_cursor = cursor_at f lst, pp_hasMore = (length sel < length (available f after)),
      pp_events = map publicRecord sel, pp_snapshot = None\<rparr>"
  have "parseFederationPage (fc_sha256 cfg) (page_json p) = Inr pp"
    using cur b(3) recs more order len
    by (simp add: p page_json_def parseFederationPage_def assertExactKeys_def parseCursor_def parse_page_events_def parse_snapshot_def
        throw_if_def Let_def pp_def o_def)
  moreover have "validateFederationPageProgress (Some c) pp = Inr ()"
  proof (cases sel)
    case Nil
    with more cur c b(3) acc(1) lst show ?thesis by (auto simp: validateFederationPageProgress_def parseCursor_def throw_if_def pp_def)
  next
    case (Cons r rs)
    with seqs [of 0] cur c b acc(1) lst show ?thesis
      by (auto simp: validateFederationPageProgress_def parseCursor_def throw_if_def pp_def publicRecord_def)
  qed
  ultimately show ?thesis by (intro exI [of _ pp]) (simp add: pp_def p)
qed


theorem served_page_accepted_witness:
  "\<exists>p f' pp. feed_page demo_feed_cfg 0 (Some (demo_id @ '':0'')) 1 [] demo_after = Inr (p, f') \<and>
     parseFederationPage (fc_sha256 demo_feed_cfg) (page_json p) = Inr pp \<and> pp_events pp = [publicRecord demo_record]"
proof -
  have a: "available demo_after 0 = [demo_record]" by (simp add: available_def demo_ring)
  obtain m p where m: "m \<le> length (available demo_after 0)" "available demo_after 0 \<noteq> [] \<Longrightarrow> 1 \<le> m"
    and p: "feed_page demo_feed_cfg 0 (Some (demo_id @ '':0'')) 1 [] demo_after = Inr (p, demo_after)" "fp_events p = take m (available demo_after 0)"
    by (rule accepted_page [OF _ _ demo_accepted demo_cursor, of 1 demo_feed_cfg 0 "[]"]) simp_all
  have "gapless (fst (new_feed demo_id, None :: disk))" by (simp add: gapless_def new_feed_def)
  from served_page_accepted [OF demo_feed_ok(1) demo_reach this demo_run demo_next demo_accepted p(1)] obtain pp where
    "parseFederationPage (fc_sha256 demo_feed_cfg) (page_json p) = Inr pp" "pp_events pp = map publicRecord (fp_events p)" by blast
  moreover have "m = 1" using m by (simp add: a)
  ultimately show ?thesis using p a by (intro exI [of _ p] exI [of _ demo_after] exI [of _ pp]) simp
qed

end
