(* ===== verification/Peer_Sync.thy ===== *)
theory Peer_Sync
  imports Peer_Page
begin

text \<open>
  Pull-based mirror synchronization (\<^verbatim>\<open>FederationPeerSync\<close> of
  \<^verbatim>\<open>server/src/peer-sync.ts\<close>): two workers walk the configured peers, follow each feed from its
  stored cursor, apply every record through the verifying callback, share one application of an event
  that several peers relay, hold back what cannot be applied yet and retry it. The code between two
  awaits is one step; answers of peers, results of applications, deadlines and the clock are inputs.
  Deferred events are shared mutable objects, so they live in a store and the map holds references.
\<close>

section \<open>State\<close>

definition MAX_PAGES_PER_SYNC :: nat where "MAX_PAGES_PER_SYNC = 16"
definition MAX_DEFERRED_EVENTS :: nat where "MAX_DEFERRED_EVENTS = 4096"
definition MAX_DEFERRED_EVENTS_PER_PEER :: nat where "MAX_DEFERRED_EVENTS_PER_PEER = 512"
definition MAX_DEFERRED_PASSES :: nat where "MAX_DEFERRED_PASSES = 8"
definition MAX_DEFERRED_AGE_MS :: int where "MAX_DEFERRED_AGE_MS = 60 * 60 * 1000"
definition MAX_DEFERRED_ATTEMPTS :: nat where "MAX_DEFERRED_ATTEMPTS = 512"
definition MAX_DEFERRED_BACKOFF_MS :: int where "MAX_DEFERRED_BACKOFF_MS = 60 * 1000"
definition PEER_BACKOFF_BASE_MS :: int where "PEER_BACKOFF_BASE_MS = 10 * 1000"
definition MAX_PEER_BACKOFF_MS :: int where "MAX_PEER_BACKOFF_MS = 5 * 60 * 1000"
definition MAX_REJECTED_EVENTS_PER_SYNC :: nat where "MAX_REJECTED_EVENTS_PER_SYNC = 8"
definition MAX_CONCURRENT_PEER_SYNCS :: nat where "MAX_CONCURRENT_PEER_SYNCS = 2"

datatype apply_result = Applied | Deferred | Rejected

datatype apply_outcome = Answered apply_result | Threw

record deferred_event =
  de_event :: fed_event
  de_peer :: string
  de_sources :: "string list"
  de_firstSeenAt :: int
  de_nextAttemptAt :: int
  de_attempts :: nat

record event_application =
  ea_peer :: string
  ea_event :: fed_event
  ea_outcome :: "apply_outcome option"

record peer_health =
  ph_failures :: nat
  ph_resetStreak :: nat
  ph_nextSyncAt :: int
  ph_lastAttemptAt :: "int option"
  ph_lastSuccessAt :: "int option"
  ph_lastFeedId :: "string option"

record peer_sync =
  ps_cursors :: "string \<Rightarrow> string option"
  ps_deferred :: "(string, nat) omap"
  ps_objects :: "nat \<Rightarrow> deferred_event"
  ps_nextRef :: nat
  ps_forceReset :: "string set"
  ps_health :: "string \<Rightarrow> peer_health option"
  ps_applications :: "string \<Rightarrow> nat option"
  ps_promises :: "event_application list"
  ps_rejectedThisSync :: "string \<Rightarrow> nat"
  ps_active :: "string set"
  ps_running :: bool
  ps_lastCompletedAt :: "int option"

definition new_health :: peer_health where
  "new_health = \<lparr>ph_failures = 0, ph_resetStreak = 0, ph_nextSyncAt = 0, ph_lastAttemptAt = None, ph_lastSuccessAt = None, ph_lastFeedId = None\<rparr>"

definition healthFor :: "string \<Rightarrow> peer_sync \<Rightarrow> peer_health" where
  "healthFor peer s = (case ps_health s peer of None \<Rightarrow> new_health | Some h \<Rightarrow> h)"

definition set_health :: "string \<Rightarrow> (peer_health \<Rightarrow> peer_health) \<Rightarrow> peer_sync \<Rightarrow> peer_sync" where
  "set_health peer upd s = s\<lparr>ps_health := (ps_health s)(peer := Some (upd (healthFor peer s)))\<rparr>"

definition peerBackoffMs :: "nat \<Rightarrow> int" where
  "peerBackoffMs streak = min MAX_PEER_BACKOFF_MS (PEER_BACKOFF_BASE_MS * 2 ^ min (streak - 1) 5)"

definition recordPeerIssue :: "int \<Rightarrow> string \<Rightarrow> peer_sync \<Rightarrow> peer_sync" where
  "recordPeerIssue now peer = set_health peer (\<lambda>h.
     h\<lparr>ph_failures := ph_failures h + 1, ph_nextSyncAt := max (ph_nextSyncAt h) (now + peerBackoffMs (ph_failures h + 1))\<rparr>)"

definition recordRejectedEvents :: "int \<Rightarrow> string \<Rightarrow> peer_sync \<Rightarrow> peer_sync" where
  "recordRejectedEvents now peer = recordPeerIssue now peer"

definition entry :: "string \<Rightarrow> peer_sync \<Rightarrow> deferred_event option" where
  "entry eventId s = map_option (ps_objects s) (map_of (ps_deferred s) eventId)"

definition update_object :: "nat \<Rightarrow> (deferred_event \<Rightarrow> deferred_event) \<Rightarrow> peer_sync \<Rightarrow> peer_sync" where
  "update_object ref upd s = s\<lparr>ps_objects := (ps_objects s)(ref := upd (ps_objects s ref))\<rparr>"


section \<open>Deferring\<close>

definition deferredCountForPeer :: "string \<Rightarrow> peer_sync \<Rightarrow> nat" where
  "deferredCountForPeer peer s = length (filter (\<lambda>(i, ref). peer \<in> set (de_sources (ps_objects s ref))) (ps_deferred s))"

definition drop_source :: "string \<Rightarrow> deferred_event \<Rightarrow> deferred_event" where
  "drop_source peer d =
     (let rest = remove1 peer (de_sources d) in
      d\<lparr>de_sources := rest, de_peer := (case rest of [] \<Rightarrow> de_peer d | p # _ \<Rightarrow> if de_peer d = peer then p else de_peer d)\<rparr>)"

definition resetDeferredPeer :: "string \<Rightarrow> peer_sync \<Rightarrow> peer_sync" where
  "resetDeferredPeer peer s =
     (let objects = (\<lambda>ref. if ref \<in> snd ` set (ps_deferred s) then drop_source peer (ps_objects s ref) else ps_objects s ref) in
      s\<lparr>ps_objects := objects, ps_deferred := filter (\<lambda>(i, ref). de_sources (objects ref) \<noteq> []) (ps_deferred s),
        ps_forceReset := insert peer (ps_forceReset s), ps_cursors := (ps_cursors s)(peer := None)\<rparr>)"

definition add_source :: "string \<Rightarrow> deferred_event \<Rightarrow> deferred_event" where
  "add_source peer d = d\<lparr>de_sources := (if peer \<in> set (de_sources d) then de_sources d else de_sources d @ [peer])\<rparr>"

definition deferRecord :: "int \<Rightarrow> peer_record \<Rightarrow> string \<Rightarrow> peer_sync \<Rightarrow> peer_sync" where
  "deferRecord now r peer s =
     (case map_of (ps_deferred s) (pr_eventId r) of
        Some ref \<Rightarrow>
          if peer \<notin> set (de_sources (ps_objects s ref)) \<and> deferredCountForPeer peer s \<ge> MAX_DEFERRED_EVENTS_PER_PEER
          then resetDeferredPeer peer s
          else update_object ref (add_source peer) s
      | None \<Rightarrow>
          if deferredCountForPeer peer s \<ge> MAX_DEFERRED_EVENTS_PER_PEER then resetDeferredPeer peer s
          else if length (ps_deferred s) \<ge> MAX_DEFERRED_EVENTS then resetDeferredPeer peer s
          else s\<lparr>ps_deferred := AList.update (pr_eventId r) (ps_nextRef s) (ps_deferred s),
                 ps_objects := (ps_objects s)(ps_nextRef s := \<lparr>de_event = pr_event r, de_peer = peer, de_sources = [peer],
                   de_firstSeenAt = now, de_nextAttemptAt = now, de_attempts = 0\<rparr>),
                 ps_nextRef := ps_nextRef s + 1\<rparr>)"


section \<open>Applying one record\<close>

datatype apply_wait = Ready apply_result | OnShared nat | OnOwn nat

definition apply_start :: "int \<Rightarrow> peer_record \<Rightarrow> string \<Rightarrow> peer_sync \<Rightarrow> apply_wait \<times> peer_sync" where
  "apply_start now r peer s =
     (if peer \<in> ps_forceReset s then (Ready Deferred, s)
      else case map_of (ps_deferred s) (pr_eventId r) of
        Some ref \<Rightarrow>
          if peer \<in> set (de_sources (ps_objects s ref)) then (Ready Deferred, s)
          else (OnOwn ref, deferRecord now r peer s)
      | None \<Rightarrow>
          (case ps_applications s (pr_eventId r) of
             Some n \<Rightarrow> (OnShared n, s)
           | None \<Rightarrow>
               (OnShared (length (ps_promises s)),
                s\<lparr>ps_applications := (ps_applications s)(pr_eventId r \<mapsto> length (ps_promises s)),
                  ps_promises := ps_promises s @ [\<lparr>ea_peer = peer, ea_event = pr_event r, ea_outcome = None\<rparr>]\<rparr>)))"

text \<open>\<^verbatim>\<open>sources[(sources.indexOf(peer) + 1) % sources.length] ?? peer\<close>\<close>

definition index_of :: "string \<Rightarrow> string list \<Rightarrow> nat option" where
  "index_of x xs = find (\<lambda>i. xs ! i = x) [0..<length xs]"

definition next_source :: "string \<Rightarrow> string list \<Rightarrow> string \<Rightarrow> string" where
  "next_source after sources otherwise =
     (if sources = [] then otherwise
      else sources ! (case index_of after sources of None \<Rightarrow> 0 | Some i \<Rightarrow> (i + 1) mod length sources))"

text \<open>After the await of an application made for a deferred event.\<close>

definition own_done :: "int \<Rightarrow> peer_record \<Rightarrow> string \<Rightarrow> nat \<Rightarrow> apply_result \<Rightarrow> peer_sync \<Rightarrow> apply_result \<times> peer_sync" where
  "own_done now r peer ref result s =
     (case result of
        Deferred \<Rightarrow> (Deferred, update_object ref (\<lambda>d. d\<lparr>de_peer := next_source peer (de_sources d) peer\<rparr>) s)
      | _ \<Rightarrow>
          (let s1 = (if result = Rejected
             then fold (recordRejectedEvents now) (filter (\<lambda>p. p \<noteq> peer) (de_sources (ps_objects s ref))) s else s)
           in (result, s1\<lparr>ps_deferred := AList.delete (pr_eventId r) (ps_deferred s1)\<rparr>)))"

text \<open>After the await of a shared application.\<close>

definition shared_done :: "int \<Rightarrow> peer_record \<Rightarrow> string \<Rightarrow> nat \<Rightarrow> apply_result \<Rightarrow> peer_sync \<Rightarrow> apply_wait \<times> peer_sync" where
  "shared_done now r peer n result s =
     (if result \<noteq> Deferred then (Ready result, s)
      else
        (let owner = ea_peer (ps_promises s ! n);
             s1 = (if ps_applications s (pr_eventId r) = Some n then s\<lparr>ps_applications := (ps_applications s)(pr_eventId r := None)\<rparr> else s);
             s2 = deferRecord now r owner s1
         in if owner \<noteq> peer then apply_start now r peer s2 else (Ready Deferred, s2)))"


section \<open>One peer\<close>

record sync_ctx =
  cx_peer :: string
  cx_cursor :: "string option"
  cx_page :: nat
  cx_feedId :: "string option"
  cx_reset :: bool
  cx_seen :: "string list"
  cx_rejected :: nat

datatype worker =
    Idle
  | Fetching sync_ctx
  | Applying sync_ctx peer_page "peer_record list"
  | AwaitShared sync_ctx peer_page peer_record "peer_record list" nat
  | AwaitOwn sync_ctx peer_page peer_record "peer_record list" nat

definition page_records :: "peer_page \<Rightarrow> peer_record list" where
  "page_records page = (if pp_reset page then (case pp_snapshot page of None \<Rightarrow> [] | Some rs \<Rightarrow> rs) else pp_events page)"

text \<open>\<^verbatim>\<open>syncConfiguredPeer\<close> up to the first request of \<^verbatim>\<open>syncPeer\<close>.\<close>

definition begin_peer :: "int \<Rightarrow> string \<Rightarrow> peer_sync \<Rightarrow> worker \<times> peer_sync" where
  "begin_peer now peer s =
     (if ph_nextSyncAt (healthFor peer s) > now then (Idle, set_health peer (\<lambda>h. h) s)
      else (Fetching \<lparr>cx_peer = peer, cx_cursor = ps_cursors s peer, cx_page = 0,
              cx_feedId = Option.bind (ps_cursors s peer) (\<lambda>c. map_option fst (parse_cursor c)), cx_reset = False, cx_seen = [], cx_rejected = 0\<rparr>,
            (set_health peer (\<lambda>h. h\<lparr>ph_lastAttemptAt := Some now\<rparr>) s)\<lparr>ps_active := insert peer (ps_active s)\<rparr>))"

definition fail_peer :: "int \<Rightarrow> string \<Rightarrow> peer_sync \<Rightarrow> worker \<times> peer_sync" where
  "fail_peer now peer s =
     (Idle, (set_health peer (\<lambda>h. h\<lparr>ph_failures := ph_failures h + 1, ph_nextSyncAt := now + peerBackoffMs (ph_failures h + 1)\<rparr>) s)
        \<lparr>ps_active := ps_active s - {peer}\<rparr>)"

definition finish_peer :: "int \<Rightarrow> sync_ctx \<Rightarrow> bool \<Rightarrow> peer_sync \<Rightarrow> worker \<times> peer_sync" where
  "finish_peer now cx forcedReset s =
     (let peer = cx_peer cx;
          s1 = set_health peer (\<lambda>h.
            (let h1 = (if cx_rejected cx = 0 then h\<lparr>ph_failures := 0\<rparr> else h);
                 repeatedReset = (forcedReset \<or> cx_reset cx \<and> ph_lastFeedId h1 \<noteq> None) in
             if repeatedReset then h1\<lparr>ph_resetStreak := ph_resetStreak h1 + 1, ph_nextSyncAt := now + peerBackoffMs (ph_resetStreak h1 + 1)\<rparr>
             else if \<not> cx_reset cx then h1\<lparr>ph_resetStreak := 0, ph_nextSyncAt := 0\<rparr> else h1)) s;
          s2 = (if cx_rejected cx > 0 then recordRejectedEvents now peer s1 else s1);
          s3 = set_health peer (\<lambda>h. h\<lparr>ph_lastFeedId := (case cx_feedId cx of None \<Rightarrow> ph_lastFeedId h | Some i \<Rightarrow> Some i),
             ph_lastSuccessAt := Some now\<rparr>) s2
      in (Idle, s3\<lparr>ps_active := ps_active s3 - {peer}\<rparr>))"

text \<open>A response that was read as a page (\<open>None\<close>: the request, the body or its parsing failed).\<close>

definition receive_page :: "int \<Rightarrow> sync_ctx \<Rightarrow> peer_page option \<Rightarrow> peer_sync \<Rightarrow> worker \<times> peer_sync" where
  "receive_page now cx answer s =
     (case answer of
        None \<Rightarrow> fail_peer now (cx_peer cx) s
      | Some page \<Rightarrow>
          (case validateFederationPageProgress (cx_cursor cx) page of
             Inl _ \<Rightarrow> fail_peer now (cx_peer cx) s
           | Inr _ \<Rightarrow>
               if pp_reset page \<and> cx_page cx > 0 then fail_peer now (cx_peer cx) s
               else
                 (let ids = map pr_eventId (page_records page) in
                  if \<not> distinct (cx_seen cx @ ids) then fail_peer now (cx_peer cx) s
                  else (Applying (cx\<lparr>cx_reset := cx_reset cx \<or> pp_reset page,
                          cx_feedId := map_option fst (parse_cursor (pp_cursor page)), cx_seen := cx_seen cx @ ids\<rparr>)
                          page (page_records page), s))))"

text \<open>The end of the page loop: a forced reset, the next page, or the end of this peer.\<close>

definition page_end :: "int \<Rightarrow> sync_ctx \<Rightarrow> peer_page \<Rightarrow> peer_sync \<Rightarrow> worker \<times> peer_sync" where
  "page_end now cx page s =
     (if cx_peer cx \<in> ps_forceReset s then
        finish_peer now cx True (s\<lparr>ps_forceReset := ps_forceReset s - {cx_peer cx}, ps_cursors := (ps_cursors s)(cx_peer cx := None)\<rparr>)
      else
        (let s1 = s\<lparr>ps_cursors := (ps_cursors s)(cx_peer cx \<mapsto> pp_cursor page)\<rparr> in
         if \<not> pp_hasMore page then finish_peer now cx False s1
         else if cx_page cx + 1 \<ge> MAX_PAGES_PER_SYNC then fail_peer now (cx_peer cx) s1
         else (Fetching (cx\<lparr>cx_cursor := Some (pp_cursor page), cx_page := cx_page cx + 1\<rparr>), s1)))"

text \<open>
  What follows the result of one record in the page loop; \<open>late\<close> is the deadline having passed by then,
  which matters before the loop is left for a forced reset (otherwise the step \<open>deadline\<close> comes next).
\<close>

definition record_done :: "bool \<Rightarrow> int \<Rightarrow> sync_ctx \<Rightarrow> peer_page \<Rightarrow> peer_record list \<Rightarrow> apply_result \<Rightarrow> peer_sync \<Rightarrow> worker \<times> peer_sync" where
  "record_done late now cx page rest result s =
     (let peer = cx_peer cx;
          total = min (ps_rejectedThisSync s peer + 1) (MAX_REJECTED_EVENTS_PER_SYNC + 1);
          s1 = (if result = Rejected then s\<lparr>ps_rejectedThisSync := (ps_rejectedThisSync s)(peer := total)\<rparr> else s);
          cx1 = (if result = Rejected then cx\<lparr>cx_rejected := cx_rejected cx + 1\<rparr> else cx)
      in if result = Rejected \<and> total \<ge> MAX_REJECTED_EVENTS_PER_SYNC then fail_peer now peer s1
         else if peer \<in> ps_forceReset s1 then (if late then fail_peer now peer s1 else page_end now cx1 page s1)
         else (Applying cx1 page rest, s1))"

definition continue_apply :: "bool \<Rightarrow> int \<Rightarrow> sync_ctx \<Rightarrow> peer_page \<Rightarrow> peer_record \<Rightarrow> peer_record list \<Rightarrow> apply_wait \<times> peer_sync \<Rightarrow> worker \<times> peer_sync" where
  "continue_apply late now cx page r rest ws =
     (case ws of
        (Ready result, s) \<Rightarrow> record_done late now cx page rest result s
      | (OnShared n, s) \<Rightarrow> (AwaitShared cx page r rest n, s)
      | (OnOwn ref, s) \<Rightarrow> (AwaitOwn cx page r rest ref, s))"

definition next_record :: "bool \<Rightarrow> int \<Rightarrow> sync_ctx \<Rightarrow> peer_page \<Rightarrow> peer_record list \<Rightarrow> peer_sync \<Rightarrow> worker \<times> peer_sync" where
  "next_record late now cx page todo s =
     (case todo of
        [] \<Rightarrow> page_end now cx page s
      | r # rest \<Rightarrow> continue_apply late now cx page r rest (apply_start now r (cx_peer cx) s))"

definition after_shared :: "bool \<Rightarrow> int \<Rightarrow> sync_ctx \<Rightarrow> peer_page \<Rightarrow> peer_record \<Rightarrow> peer_record list \<Rightarrow> nat \<Rightarrow> apply_outcome \<Rightarrow> peer_sync \<Rightarrow> worker \<times> peer_sync" where
  "after_shared late now cx page r rest n outcome s =
     (case outcome of
        Threw \<Rightarrow> fail_peer now (cx_peer cx) s
      | Answered result \<Rightarrow> continue_apply late now cx page r rest (shared_done now r (cx_peer cx) n result s))"

definition after_own :: "bool \<Rightarrow> int \<Rightarrow> sync_ctx \<Rightarrow> peer_page \<Rightarrow> peer_record \<Rightarrow> peer_record list \<Rightarrow> nat \<Rightarrow> apply_outcome \<Rightarrow> peer_sync \<Rightarrow> worker \<times> peer_sync" where
  "after_own late now cx page r rest ref outcome s =
     (case outcome of
        Threw \<Rightarrow> fail_peer now (cx_peer cx) s
      | Answered result \<Rightarrow> (case own_done now r (cx_peer cx) ref result s of (res, s1) \<Rightarrow> record_done late now cx page rest res s1))"



section \<open>Retrying what was deferred\<close>

record retry_tally =
  rt_rejectedByPeer :: "(string, nat) omap"
  rt_expiredByPeer :: "(string, nat) omap"
  rt_applied :: nat

definition count_up :: "string \<Rightarrow> (string, nat) omap \<Rightarrow> (string, nat) omap" where
  "count_up peer m = AList.update peer ((case map_of m peer of None \<Rightarrow> 0 | Some n \<Rightarrow> n) + 1) m"

definition count_capped :: "string \<Rightarrow> (string, nat) omap \<Rightarrow> (string, nat) omap" where
  "count_capped peer m = AList.update peer (min ((case map_of m peer of None \<Rightarrow> 0 | Some n \<Rightarrow> n) + 1) (MAX_REJECTED_EVENTS_PER_SYNC + 1)) m"

definition retry_expired :: "int \<Rightarrow> deferred_event \<Rightarrow> bool" where
  "retry_expired now d \<longleftrightarrow> now - de_firstSeenAt d \<ge> MAX_DEFERRED_AGE_MS \<or> de_attempts d \<ge> MAX_DEFERRED_ATTEMPTS"

definition eligibleSources :: "deferred_event \<Rightarrow> peer_sync \<Rightarrow> string list" where
  "eligibleSources d s = filter (\<lambda>p. ps_rejectedThisSync s p < MAX_REJECTED_EVENTS_PER_SYNC) (de_sources d)"

definition retry_attempted :: "int \<Rightarrow> nat \<Rightarrow> peer_sync \<Rightarrow> bool" where
  "retry_attempted now ref s \<longleftrightarrow> \<not> retry_expired now (ps_objects s ref) \<and> de_nextAttemptAt (ps_objects s ref) \<le> now \<and>
     eligibleSources (ps_objects s ref) s \<noteq> []"

definition expire_entry :: "string \<Rightarrow> nat \<Rightarrow> peer_sync \<Rightarrow> retry_tally \<Rightarrow> peer_sync \<times> retry_tally" where
  "expire_entry eventId ref s t =
     (let sources = de_sources (ps_objects s ref) in
      (s\<lparr>ps_deferred := AList.delete eventId (ps_deferred s),
         ps_cursors := (\<lambda>p. if p \<in> set sources then None else ps_cursors s p)\<rparr>,
       t\<lparr>rt_expiredByPeer := fold count_up sources (rt_expiredByPeer t)\<rparr>))"

definition reject_entry :: "string \<Rightarrow> nat \<Rightarrow> peer_sync \<Rightarrow> retry_tally \<Rightarrow> peer_sync \<times> retry_tally" where
  "reject_entry eventId ref s t =
     (let sources = de_sources (ps_objects s ref) in
      (s\<lparr>ps_deferred := AList.delete eventId (ps_deferred s),
         ps_rejectedThisSync := (\<lambda>p. if p \<in> set sources then min (ps_rejectedThisSync s p + 1) (MAX_REJECTED_EVENTS_PER_SYNC + 1)
           else ps_rejectedThisSync s p)\<rparr>,
       t\<lparr>rt_rejectedByPeer := fold count_capped sources (rt_rejectedByPeer t)\<rparr>))"

definition retry_entry :: "int \<Rightarrow> apply_outcome \<Rightarrow> string \<Rightarrow> nat \<Rightarrow> peer_sync \<Rightarrow> retry_tally \<Rightarrow> peer_sync \<times> retry_tally" where
  "retry_entry now outcome eventId ref s t =
     (let d = ps_objects s ref; eligible = eligibleSources d s in
      if retry_expired now d then expire_entry eventId ref s t
      else if de_nextAttemptAt d > now then (s, t)
      else case eligible of
        [] \<Rightarrow> (s, t)
      | firstSource # _ \<Rightarrow>
          (let s1 = update_object ref (\<lambda>d. d\<lparr>de_peer := (if de_peer d \<in> set eligible then de_peer d else firstSource),
                 de_attempts := de_attempts d + 1\<rparr>) s;
               d1 = ps_objects s1 ref
           in case outcome of
             Threw \<Rightarrow> (update_object ref (\<lambda>d. d\<lparr>de_nextAttemptAt := now + MAX_DEFERRED_BACKOFF_MS\<rparr>) s1, t)
           | Answered Deferred \<Rightarrow>
               (update_object ref (\<lambda>d. d\<lparr>de_peer := next_source (de_peer d) eligible (de_peer d),
                  de_nextAttemptAt := now + min MAX_DEFERRED_BACKOFF_MS (250 * 2 ^ min (de_attempts d1) 8)\<rparr>) s1, t)
           | Answered Rejected \<Rightarrow> reject_entry eventId ref s1 t
           | Answered Applied \<Rightarrow>
               (s1\<lparr>ps_deferred := AList.delete eventId (ps_deferred s1)\<rparr>, t\<lparr>rt_applied := rt_applied t + 1\<rparr>)))"

definition retry_reports :: "int \<Rightarrow> retry_tally \<Rightarrow> peer_sync \<Rightarrow> peer_sync" where
  "retry_reports now t s =
     fold (\<lambda>(peer, n). recordPeerIssue now peer) (rt_expiredByPeer t)
       (fold (\<lambda>(peer, n). recordRejectedEvents now peer) (rt_rejectedByPeer t) s)"


section \<open>Status\<close>

datatype peer_state = Pending | Syncing | Healthy | Degraded | Stale

datatype sync_state = SyncDisabled | SyncStarting | SyncHealthy | SyncDegraded

record peer_status =
  st_id :: string
  st_state :: peer_state
  st_consecutiveFailures :: nat
  st_resetStreak :: nat
  st_lastAttemptAt :: "int option"
  st_lastSuccessAt :: "int option"
  st_nextAttemptAt :: "int option"

record sync_status =
  ss_enabled :: bool
  ss_state :: sync_state
  ss_running :: bool
  ss_configuredPeers :: nat
  ss_healthyPeers :: nat
  ss_deferredEvents :: nat
  ss_lastCompletedAt :: "int option"
  ss_peers :: "peer_status list"

definition peer_state_of :: "int \<Rightarrow> int \<Rightarrow> bool \<Rightarrow> peer_health \<Rightarrow> peer_state" where
  "peer_state_of staleAfterMs now active h =
     (if ph_failures h > 0 \<or> ph_resetStreak h > 0 then Degraded
      else if ph_lastAttemptAt h = None then Pending
      else if (case ph_lastSuccessAt h of None \<Rightarrow> False | Some t \<Rightarrow> now - t > staleAfterMs) then Stale
      else if active then Syncing
      else if ph_lastSuccessAt h = None then Pending
      else Healthy)"

definition peer_status_of :: "int \<Rightarrow> int \<Rightarrow> peer_sync \<Rightarrow> string \<Rightarrow> string \<Rightarrow> peer_status" where
  "peer_status_of staleAfterMs now s peerId peer =
     (let h = healthFor peer s in
      \<lparr>st_id = peerId, st_state = peer_state_of staleAfterMs now (peer \<in> ps_active s) h, st_consecutiveFailures = ph_failures h,
       st_resetStreak = ph_resetStreak h, st_lastAttemptAt = ph_lastAttemptAt h, st_lastSuccessAt = ph_lastSuccessAt h,
       st_nextAttemptAt = (if ph_nextSyncAt h > now then Some (ph_nextSyncAt h) else None)\<rparr>)"

definition counts_as_healthy :: "int \<Rightarrow> int \<Rightarrow> peer_status \<Rightarrow> bool" where
  "counts_as_healthy staleAfterMs now p \<longleftrightarrow> st_state p = Healthy \<or>
     st_state p = Syncing \<and> (case st_lastSuccessAt p of None \<Rightarrow> False | Some t \<Rightarrow> now - t \<le> staleAfterMs)"

definition sync_status_of :: "int \<Rightarrow> string list \<Rightarrow> string list \<Rightarrow> int \<Rightarrow> peer_sync \<Rightarrow> (string, sync_status) result" where
  "sync_status_of staleAfterMs peerIds peers now s =
     throw_if (\<not> isSafeInteger now \<or> now < 0) ''federation status time is invalid''
    (let ps = map2 (peer_status_of staleAfterMs now s) peerIds peers in
     Inr \<lparr>ss_enabled = (peers \<noteq> []),
       ss_state = (if peers = [] then SyncDisabled
         else if list_ex (\<lambda>p. st_state p = Degraded \<or> st_state p = Stale) ps then SyncDegraded
         else if list_ex (\<lambda>p. st_lastSuccessAt p = None) ps then SyncStarting else SyncHealthy),
       ss_running = ps_running s, ss_configuredPeers = length ps, ss_healthyPeers = length (filter (counts_as_healthy staleAfterMs now) ps),
       ss_deferredEvents = length (ps_deferred s), ss_lastCompletedAt = ps_lastCompletedAt s, ss_peers = ps\<rparr>)"


section \<open>A synchronization round\<close>

datatype phase =
    Resting
  | Working nat "worker list"
  | Retrying nat "(string, nat) omap" retry_tally

text \<open>
  Beside the state of the class: what has been seen of the world. \<open>sn_answered\<close> are the events the
  apply callback accepted or rejected; \<open>sn_passed p\<close> the events of the pages behind the stored cursor
  of peer \<open>p\<close>, since the cursor was last absent.
\<close>

record sync_net =
  sn_sync :: peer_sync
  sn_phase :: phase
  sn_answered :: "string set"
  sn_passed :: "string \<Rightarrow> string set"

definition new_sync :: peer_sync where
  "new_sync = \<lparr>ps_cursors = (\<lambda>_. None), ps_deferred = [], ps_objects = (\<lambda>_. \<lparr>de_event = \<lparr>fe_kind = EvOrder, fe_payload = []\<rparr>, de_peer = [],
       de_sources = [], de_firstSeenAt = 0, de_nextAttemptAt = 0, de_attempts = 0\<rparr>), ps_nextRef = 0, ps_forceReset = {},
     ps_health = (\<lambda>_. None), ps_applications = (\<lambda>_. None), ps_promises = [], ps_rejectedThisSync = (\<lambda>_. 0), ps_active = {},
     ps_running = False, ps_lastCompletedAt = None\<rparr>"

definition sync_start :: "string list \<Rightarrow> peer_sync \<Rightarrow> phase \<times> peer_sync" where
  "sync_start peers s = (Working 0 (replicate (min MAX_CONCURRENT_PEER_SYNCS (length peers)) Idle),
     s\<lparr>ps_running := True, ps_applications := (\<lambda>_. None), ps_promises := [], ps_rejectedThisSync := (\<lambda>_. 0)\<rparr>)"

definition sync_finish :: "int \<Rightarrow> peer_sync \<Rightarrow> peer_sync" where
  "sync_finish now s = s\<lparr>ps_lastCompletedAt := Some now, ps_running := False\<rparr>"

definition no_tally :: retry_tally where
  "no_tally = \<lparr>rt_rejectedByPeer = [], rt_expiredByPeer = [], rt_applied = 0\<rparr>"

definition settles :: "apply_outcome \<Rightarrow> string \<Rightarrow> string set \<Rightarrow> string set" where
  "settles outcome eventId seen = (if outcome = Answered Applied \<or> outcome = Answered Rejected then insert eventId seen else seen)"

text \<open>The events behind the cursors after a step: cursors that are gone start over, a page that was finished adds its events.\<close>

definition passed_after :: "sync_ctx \<Rightarrow> peer_page \<Rightarrow> peer_sync \<Rightarrow> (string \<Rightarrow> string set) \<Rightarrow> string \<Rightarrow> string set" where
  "passed_after cx page s' passed p =
     (if ps_cursors s' p = None then {}
      else if p = cx_peer cx then passed p \<union> set (map pr_eventId (page_records page)) else passed p)"

definition passed_kept :: "peer_sync \<Rightarrow> (string \<Rightarrow> string set) \<Rightarrow> string \<Rightarrow> string set" where
  "passed_kept s' passed p = (if ps_cursors s' p = None then {} else passed p)"

inductive sync_step :: "string list \<Rightarrow> sync_net \<Rightarrow> sync_net \<Rightarrow> bool" for peers where
  start: "sync_start peers s = (ph, s') \<Longrightarrow>
    sync_step peers \<lparr>sn_sync = s, sn_phase = Resting, sn_answered = a, sn_passed = b\<rparr> \<lparr>sn_sync = s', sn_phase = ph, sn_answered = a, sn_passed = b\<rparr>"
| take_peer: "i < length ws \<Longrightarrow> ws ! i = Idle \<Longrightarrow> n < length peers \<Longrightarrow> begin_peer now (peers ! n) s = (w, s') \<Longrightarrow>
    sync_step peers \<lparr>sn_sync = s, sn_phase = Working n ws, sn_answered = a, sn_passed = b\<rparr>
      \<lparr>sn_sync = s', sn_phase = Working (n + 1) (ws[i := w]), sn_answered = a, sn_passed = passed_kept s' b\<rparr>"
| deadline: "i < length ws \<Longrightarrow> ws ! i = Fetching cx \<or> ws ! i = Applying cx page todo \<Longrightarrow> fail_peer now (cx_peer cx) s = (w, s') \<Longrightarrow>
    sync_step peers \<lparr>sn_sync = s, sn_phase = Working n ws, sn_answered = a, sn_passed = b\<rparr>
      \<lparr>sn_sync = s', sn_phase = Working n (ws[i := w]), sn_answered = a, sn_passed = passed_kept s' b\<rparr>"
| response: "i < length ws \<Longrightarrow> ws ! i = Fetching cx \<Longrightarrow> receive_page now cx answer s = (w, s') \<Longrightarrow>
    sync_step peers \<lparr>sn_sync = s, sn_phase = Working n ws, sn_answered = a, sn_passed = b\<rparr>
      \<lparr>sn_sync = s', sn_phase = Working n (ws[i := w]), sn_answered = a, sn_passed = passed_kept s' b\<rparr>"
| one_record: "i < length ws \<Longrightarrow> ws ! i = Applying cx page todo \<Longrightarrow> next_record late now cx page todo s = (w, s') \<Longrightarrow>
    sync_step peers \<lparr>sn_sync = s, sn_phase = Working n ws, sn_answered = a, sn_passed = b\<rparr>
      \<lparr>sn_sync = s', sn_phase = Working n (ws[i := w]), sn_answered = a,
       sn_passed = (if todo = [] then passed_after cx page s' b else passed_kept s' b)\<rparr>"
| settle_promise: "k < length (ps_promises s) \<Longrightarrow> ea_outcome (ps_promises s ! k) = None \<Longrightarrow>
    sync_step peers \<lparr>sn_sync = s, sn_phase = Working n ws, sn_answered = a, sn_passed = b\<rparr>
      \<lparr>sn_sync = s\<lparr>ps_promises := (ps_promises s)[k := (ps_promises s ! k)\<lparr>ea_outcome := Some outcome\<rparr>]\<rparr>, sn_phase = Working n ws,
       sn_answered = a, sn_passed = b\<rparr>"
| shared: "i < length ws \<Longrightarrow> ws ! i = AwaitShared cx page r rest k \<Longrightarrow> ea_outcome (ps_promises s ! k) = Some outcome \<Longrightarrow>
    after_shared late now cx page r rest k outcome s = (w, s') \<Longrightarrow>
    sync_step peers \<lparr>sn_sync = s, sn_phase = Working n ws, sn_answered = a, sn_passed = b\<rparr>
      \<lparr>sn_sync = s', sn_phase = Working n (ws[i := w]), sn_answered = settles outcome (pr_eventId r) a, sn_passed = passed_kept s' b\<rparr>"
| own: "i < length ws \<Longrightarrow> ws ! i = AwaitOwn cx page r rest ref \<Longrightarrow> after_own late now cx page r rest ref outcome s = (w, s') \<Longrightarrow>
    sync_step peers \<lparr>sn_sync = s, sn_phase = Working n ws, sn_answered = a, sn_passed = b\<rparr>
      \<lparr>sn_sync = s', sn_phase = Working n (ws[i := w]), sn_answered = settles outcome (pr_eventId r) a, sn_passed = passed_kept s' b\<rparr>"
| retry_start: "length peers \<le> n \<Longrightarrow> \<forall>w\<in>set ws. w = Idle \<Longrightarrow>
    sync_step peers \<lparr>sn_sync = s, sn_phase = Working n ws, sn_answered = a, sn_passed = b\<rparr>
      \<lparr>sn_sync = s, sn_phase = Retrying 0 (ps_deferred s) no_tally, sn_answered = a, sn_passed = b\<rparr>"
| retry: "retry_entry now outcome e ref s t = (s', t') \<Longrightarrow>
    sync_step peers \<lparr>sn_sync = s, sn_phase = Retrying k ((e, ref) # todo) t, sn_answered = a, sn_passed = b\<rparr>
      \<lparr>sn_sync = s', sn_phase = Retrying k todo t',
       sn_answered = (if retry_attempted now ref s then settles outcome e a else a), sn_passed = passed_kept s' b\<rparr>"
| retry_pass: "k + 1 < MAX_DEFERRED_PASSES \<Longrightarrow> rt_applied t > 0 \<Longrightarrow>
    sync_step peers \<lparr>sn_sync = s, sn_phase = Retrying k [] t, sn_answered = a, sn_passed = b\<rparr>
      \<lparr>sn_sync = s, sn_phase = Retrying (k + 1) (ps_deferred s) (t\<lparr>rt_applied := 0\<rparr>), sn_answered = a, sn_passed = b\<rparr>"
| retry_end: "k + 1 \<ge> MAX_DEFERRED_PASSES \<or> rt_applied t = 0 \<Longrightarrow>
    sync_step peers \<lparr>sn_sync = s, sn_phase = Retrying k [] t, sn_answered = a, sn_passed = b\<rparr>
      \<lparr>sn_sync = sync_finish now (retry_reports now t s), sn_phase = Resting, sn_answered = a, sn_passed = b\<rparr>"

end
