(* ===== verification/Sync_Safety.thy ===== *)
theory Sync_Safety
  imports Peer_Sync
begin

text \<open>
  No event is skipped (\<^verbatim>\<open>server/src/peer-sync.ts\<close>): whatever the interleaving of the workers,
  the answers of peers and of the apply callback, and however deferred events are dropped on quota or
  age, every event behind a stored cursor was applied, rejected or is still held for that peer. The
  queue of deferred events stays within its bounds.
\<close>

section \<open>Held and accounted events\<close>

definition held :: "peer_sync \<Rightarrow> string \<Rightarrow> string \<Rightarrow> bool" where
  "held s p e \<longleftrightarrow> (\<exists>ref. map_of (ps_deferred s) e = Some ref \<and> p \<in> set (de_sources (ps_objects s ref)))"

definition accounted :: "string set \<Rightarrow> peer_sync \<Rightarrow> string \<Rightarrow> string \<Rightarrow> bool" where
  "accounted a s p e \<longleftrightarrow> p \<in> ps_forceReset s \<or> e \<in> a \<or> held s p e"

definition queue_ok :: "peer_sync \<Rightarrow> bool" where
  "queue_ok s \<longleftrightarrow> omap_wf (ps_deferred s) \<and> distinct (map snd (ps_deferred s)) \<and>
     (\<forall>ref\<in>snd ` set (ps_deferred s). ref < ps_nextRef s \<and> distinct (de_sources (ps_objects s ref))) \<and>
     (\<forall>p\<in>ps_forceReset s. ps_cursors s p = None)"

text \<open>What a piece of code may do to the queue on behalf of any peer.\<close>

definition keeps :: "string set \<Rightarrow> peer_sync \<Rightarrow> string set \<Rightarrow> peer_sync \<Rightarrow> bool" where
  "keeps a s a' s' \<longleftrightarrow> queue_ok s' \<and> (\<forall>p e. accounted a s p e \<longrightarrow> accounted a' s' p e) \<and>
     (\<forall>p. ps_cursors s' p = ps_cursors s p \<or> ps_cursors s' p = None)"

lemma keeps_refl: "queue_ok s \<Longrightarrow> keeps a s a s"
  by (simp add: keeps_def)

lemma keeps_trans: "keeps a s a' s' \<Longrightarrow> keeps a' s' a'' s'' \<Longrightarrow> keeps a s a'' s''"
  unfolding keeps_def by metis

lemma health_frame [simp]:
  "ps_cursors (set_health p u s) = ps_cursors s" "ps_deferred (set_health p u s) = ps_deferred s" "ps_objects (set_health p u s) = ps_objects s"
  "ps_nextRef (set_health p u s) = ps_nextRef s" "ps_forceReset (set_health p u s) = ps_forceReset s"
  "ps_rejectedThisSync (set_health p u s) = ps_rejectedThisSync s"
  by (simp_all add: set_health_def)

lemma same_queue:
  assumes "ps_cursors s' = ps_cursors s" "ps_deferred s' = ps_deferred s" "ps_objects s' = ps_objects s" "ps_nextRef s' = ps_nextRef s"
    "ps_forceReset s' = ps_forceReset s"
  shows "accounted a s' = accounted a s" "queue_ok s' = queue_ok s"
  using assms by (simp_all add: fun_eq_iff accounted_def held_def queue_ok_def)

definition queue_part :: "peer_sync \<Rightarrow> (string \<Rightarrow> string option) \<times> (string, nat) omap \<times> (nat \<Rightarrow> deferred_event) \<times> nat \<times> string set" where
  "queue_part s = (ps_cursors s, ps_deferred s, ps_objects s, ps_nextRef s, ps_forceReset s)"

lemma queue_part_same: "queue_part s' = queue_part s \<Longrightarrow> accounted a s' = accounted a s \<and> queue_ok s' = queue_ok s \<and> ps_cursors s' = ps_cursors s"
  using same_queue [of s' s] by (simp add: queue_part_def)

lemma keeps_part: "queue_ok s \<Longrightarrow> queue_part s' = queue_part s \<Longrightarrow> keeps a s a s'"
  using queue_part_same [of s' s a] by (simp add: keeps_def)

lemma recordPeerIssue_part [simp]: "queue_part (recordPeerIssue now p s) = queue_part s" "queue_part (recordRejectedEvents now p s) = queue_part s"
  by (simp_all add: recordPeerIssue_def recordRejectedEvents_def queue_part_def)

lemma fold_issues_part: "queue_part (fold (recordRejectedEvents now) ps s) = queue_part s"
  by (induction ps arbitrary: s) simp_all

lemma accounted_mono: "a \<subseteq> a' \<Longrightarrow> accounted a s p e \<Longrightarrow> accounted a' s p e"
  by (auto simp: accounted_def)

lemma keeps_mono: "keeps a s a' s' \<Longrightarrow> a' \<subseteq> a'' \<Longrightarrow> keeps a s a'' s'"
  using accounted_mono [of a' a''] by (simp add: keeps_def)

lemma omap_wf_filter: "omap_wf m \<Longrightarrow> omap_wf (filter P m)"
  by (induction m) auto

lemma map_of_filter_wf: "omap_wf m \<Longrightarrow> map_of m e = Some ref \<Longrightarrow> P (e, ref) \<Longrightarrow> map_of (filter P m) e = Some ref"
proof -
  assume a: "omap_wf m" "map_of m e = Some ref" "P (e, ref)"
  from map_of_SomeD [OF a(2)] a(3) have "(e, ref) \<in> set (filter P m)" by simp
  with omap_wf_filter [OF a(1)] show ?thesis by (rule map_of_is_SomeI)
qed

lemma resetDeferredPeer_keeps:
  assumes "queue_ok s"
  shows "keeps a s a (resetDeferredPeer q s) \<and> q \<in> ps_forceReset (resetDeferredPeer q s)"
proof -
  let ?s = "resetDeferredPeer q s"
  define ob where "ob = (\<lambda>ref. if ref \<in> snd ` set (ps_deferred s) then drop_source q (ps_objects s ref) else ps_objects s ref)"
  have s': "ps_objects ?s = ob" "ps_deferred ?s = filter (\<lambda>(i, ref). de_sources (ob ref) \<noteq> []) (ps_deferred s)"
    "ps_forceReset ?s = insert q (ps_forceReset s)" "ps_cursors ?s = (ps_cursors s)(q := None)" "ps_nextRef ?s = ps_nextRef s"
    by (simp_all add: resetDeferredPeer_def Let_def ob_def)
  have h: "held ?s p e" if "held s p e" "p \<noteq> q" for p e
  proof -
    from that(1) obtain ref where ref: "map_of (ps_deferred s) e = Some ref" "p \<in> set (de_sources (ps_objects s ref))" by (auto simp: held_def)
    then have "ref \<in> snd ` set (ps_deferred s)" by (force dest: map_of_SomeD)
    then have p: "p \<in> set (de_sources (ob ref))" using ref(2) that(2) by (simp add: drop_source_def Let_def ob_def)
    then have "case (e, ref) of (i, ref) \<Rightarrow> de_sources (ob ref) \<noteq> []" by auto
    then have "map_of (ps_deferred ?s) e = Some ref"
      unfolding s'(2) using assms ref(1) by (intro map_of_filter_wf) (simp_all add: queue_ok_def)
    with p s'(1) show ?thesis by (auto simp: held_def)
  qed
  have src: "distinct (de_sources (ob ref))" if "distinct (de_sources (ps_objects s ref))" for ref
    using that by (simp add: ob_def drop_source_def Let_def)
  have "queue_ok ?s"
    using assms omap_wf_filter [of "ps_deferred s"] distinct_map_filter [of snd "ps_deferred s"]
    by (auto simp: queue_ok_def s' intro!: src)
  then show ?thesis using h by (auto simp: keeps_def accounted_def s')
qed

lemma deferRecord_keeps:
  assumes "queue_ok s"
  shows "keeps a s a (deferRecord now r q s) \<and> accounted a (deferRecord now r q s) q (pr_eventId r)"
proof -
  have reset: "keeps a s a (resetDeferredPeer q s) \<and> accounted a (resetDeferredPeer q s) q (pr_eventId r)"
    using resetDeferredPeer_keeps [OF assms, of a q] by (simp add: accounted_def)
  show ?thesis
  proof (cases "map_of (ps_deferred s) (pr_eventId r)")
    case (Some ref)
    let ?s = "update_object ref (add_source q) s"
    have "queue_ok ?s" using assms by (auto simp: queue_ok_def update_object_def add_source_def)
    moreover have "held ?s p e" if "held s p e" for p e
      using that by (auto simp: held_def update_object_def add_source_def)
    moreover have "held ?s q (pr_eventId r)" using Some by (auto simp: held_def update_object_def add_source_def)
    ultimately have "keeps a s a ?s \<and> accounted a ?s q (pr_eventId r)"
      by (auto simp: keeps_def accounted_def update_object_def)
    with reset Some show ?thesis by (simp add: deferRecord_def)
  next
    case None
    define s' where "s' = s\<lparr>ps_deferred := AList.update (pr_eventId r) (ps_nextRef s) (ps_deferred s),
                 ps_objects := (ps_objects s)(ps_nextRef s := \<lparr>de_event = pr_event r, de_peer = q, de_sources = [q],
                   de_firstSeenAt = now, de_nextAttemptAt = now, de_attempts = 0\<rparr>), ps_nextRef := ps_nextRef s + 1\<rparr>"
    have old: "\<forall>ref\<in>snd ` set (ps_deferred s). ref < ps_nextRef s" using assms by (auto simp: queue_ok_def)
    have d: "ps_deferred s' = ps_deferred s @ [(pr_eventId r, ps_nextRef s)]" using None by (simp add: s'_def omap_update_absent)
    have "pr_eventId r \<notin> fst ` set (ps_deferred s)" using None by (simp add: map_of_eq_None_iff)
    then have "queue_ok s'" using assms old by (auto simp: queue_ok_def d) (auto simp: s'_def)
    moreover have "held s' p e" if "held s p e" for p e
    proof -
      from that obtain ref where ref: "map_of (ps_deferred s) e = Some ref" "p \<in> set (de_sources (ps_objects s ref))" by (auto simp: held_def)
      then have "ref \<noteq> ps_nextRef s" using old by (force dest: map_of_SomeD)
      with ref show ?thesis by (auto simp: held_def d map_add_Some_iff) (auto simp: s'_def)
    qed
    moreover have "held s' q (pr_eventId r)" using None by (auto simp: held_def d map_add_Some_iff) (auto simp: s'_def)
    ultimately have "keeps a s a s' \<and> accounted a s' q (pr_eventId r)"
      by (auto simp: keeps_def accounted_def s'_def)
    with reset None show ?thesis by (simp add: deferRecord_def s'_def)
  qed
qed



section \<open>What a worker does\<close>

lemma keeps_acc: "keeps a s a' s' \<Longrightarrow> accounted a s p e \<Longrightarrow> accounted a' s' p e"
  by (simp add: keeps_def)

lemma keeps_queue: "keeps a s a' s' \<Longrightarrow> queue_ok s'"
  by (simp add: keeps_def)

lemma apply_start_keeps:
  assumes "queue_ok s" "apply_start now r p s = (w, s')"
  shows "keeps a s a s' \<and> ((\<exists>x. w = Ready x) \<or> (\<exists>ref. w = OnOwn ref) \<longrightarrow> accounted a s' p (pr_eventId r)) \<and> (\<forall>x. w = Ready x \<longrightarrow> x = Deferred)"
proof (cases "p \<in> ps_forceReset s")
  case True
  with assms show ?thesis by (auto simp: apply_start_def keeps_refl accounted_def)
next
  case nf: False
  show ?thesis
  proof (cases "map_of (ps_deferred s) (pr_eventId r)")
    case (Some ref)
    show ?thesis
    proof (cases "p \<in> set (de_sources (ps_objects s ref))")
      case True
      with Some nf assms show ?thesis by (auto simp: apply_start_def keeps_refl accounted_def held_def)
    next
      case False
      with Some nf assms(2) have "w = OnOwn ref" "s' = deferRecord now r p s" by (auto simp: apply_start_def)
      with deferRecord_keeps [OF assms(1), of a now r p] show ?thesis by simp
    qed
  next
    case None
    show ?thesis
    proof (cases "ps_applications s (pr_eventId r)")
      case None
      with nf \<open>map_of (ps_deferred s) (pr_eventId r) = None\<close> assms(2)
      have w: "w = OnShared (length (ps_promises s))" and q: "queue_part s' = queue_part s" by (auto simp: apply_start_def queue_part_def)
      from keeps_part [OF assms(1) q] w show ?thesis by simp
    next
      case (Some n)
      with nf \<open>map_of (ps_deferred s) (pr_eventId r) = None\<close> assms show ?thesis by (auto simp: apply_start_def keeps_refl)
    qed
  qed
qed

lemma shared_done_keeps:
  assumes "queue_ok s" "shared_done now r p n x s = (w, s')"
  shows "keeps a s (settles (Answered x) (pr_eventId r) a) s' \<and>
    ((\<exists>y. w = Ready y) \<or> (\<exists>ref. w = OnOwn ref) \<longrightarrow> accounted (settles (Answered x) (pr_eventId r) a) s' p (pr_eventId r))"
proof (cases "x = Deferred")
  case False
  then have "settles (Answered x) (pr_eventId r) a = insert (pr_eventId r) a" by (cases x) (simp_all add: settles_def)
  with False assms keeps_mono [OF keeps_refl [OF assms(1)], of a "insert (pr_eventId r) a"] show ?thesis
    by (auto simp: shared_done_def accounted_def)
next
  case True
  define s1 where "s1 = (if ps_applications s (pr_eventId r) = Some n then s\<lparr>ps_applications := (ps_applications s)(pr_eventId r := None)\<rparr> else s)"
  define own where "own = ea_peer (ps_promises s ! n)"
  have p1: "queue_part s1 = queue_part s" by (simp add: s1_def queue_part_def)
  then have q1: "queue_ok s1" using queue_part_same [OF p1] assms(1) by simp
  let ?s2 = "deferRecord now r own s1"
  have k2: "keeps a s a ?s2" "accounted a ?s2 own (pr_eventId r)"
    using deferRecord_keeps [OF q1, of a now r own] keeps_trans [OF keeps_part [OF assms(1) p1, of a]] by blast+
  have st: "settles (Answered x) (pr_eventId r) a = a" using True by (simp add: settles_def)
  have eq: "(if own \<noteq> p then apply_start now r p ?s2 else (Ready Deferred, ?s2)) = (w, s')"
    using assms(2) True unfolding shared_done_def Let_def s1_def own_def by simp
  then show ?thesis
  proof (cases "own = p")
    case True
    with k2 eq show ?thesis by (auto simp: st)
  next
    case False
    with eq have as: "apply_start now r p ?s2 = (w, s')" by simp
    from apply_start_keeps [OF keeps_queue [OF k2(1)] as, of a] keeps_trans [OF k2(1), of a s'] show ?thesis by (auto simp: st)
  qed
qed

lemma delete_keeps:
  assumes "queue_ok s" "e \<in> a'" "a \<subseteq> a'" "queue_part s1 = queue_part s"
  shows "keeps a s a' (s1\<lparr>ps_deferred := AList.delete e (ps_deferred s1)\<rparr>)"
proof -
  let ?s = "s1\<lparr>ps_deferred := AList.delete e (ps_deferred s1)\<rparr>"
  have q: "ps_deferred s1 = ps_deferred s" "ps_objects s1 = ps_objects s" "ps_forceReset s1 = ps_forceReset s" "ps_cursors s1 = ps_cursors s"
    "ps_nextRef s1 = ps_nextRef s" using assms(4) by (simp_all add: queue_part_def)
  have "distinct (map snd (AList.delete e (ps_deferred s)))"
    using assms(1) by (simp add: queue_ok_def AList.delete_eq distinct_map_filter)
  then have "queue_ok ?s" using assms(1) omap_wf_delete [of "ps_deferred s" e] by (auto simp: queue_ok_def q AList.delete_eq)
  moreover have "accounted a' ?s p x" if "accounted a s p x" for p x
    using that assms(2,3) by (cases "x = e") (auto simp: accounted_def held_def q map_of_omap_delete)
  ultimately show ?thesis by (simp add: keeps_def q)
qed

lemma update_peer_keeps:
  assumes "queue_ok s" "\<And>d. de_sources (u d) = de_sources d"
  shows "keeps a s a (update_object ref u s)"
proof -
  have o: "de_sources (ps_objects (update_object ref u s) k) = de_sources (ps_objects s k)" for k
    using assms(2) by (simp add: update_object_def)
  have f: "ps_deferred (update_object ref u s) = ps_deferred s" "ps_cursors (update_object ref u s) = ps_cursors s"
    "ps_forceReset (update_object ref u s) = ps_forceReset s" "ps_nextRef (update_object ref u s) = ps_nextRef s"
    by (simp_all add: update_object_def)
  show ?thesis using assms(1) by (simp add: keeps_def queue_ok_def accounted_def held_def o f)
qed

lemma own_done_keeps:
  assumes "queue_ok s" "accounted a s p (pr_eventId r)" "own_done now r p ref x s = (y, s')"
  shows "keeps a s (settles (Answered x) (pr_eventId r) a) s' \<and> accounted (settles (Answered x) (pr_eventId r) a) s' p (pr_eventId r)"
proof (cases "x = Deferred")
  case True
  then have s': "s' = update_object ref (\<lambda>d. d\<lparr>de_peer := next_source p (de_sources d) p\<rparr>) s" and st: "settles (Answered x) (pr_eventId r) a = a"
    using assms(3) by (auto simp: own_done_def settles_def)
  have k: "keeps a s a s'" unfolding s' by (rule update_peer_keeps [OF assms(1)]) simp
  from k keeps_acc [OF k assms(2)] show ?thesis by (simp add: st)
next
  case False
  let ?e = "pr_eventId r"
  have st: "settles (Answered x) ?e a = insert ?e a" using False by (cases x) (simp_all add: settles_def)
  obtain s1 where s1: "queue_part s1 = queue_part s" "s' = s1\<lparr>ps_deferred := AList.delete ?e (ps_deferred s1)\<rparr>"
    using assms(3) False fold_issues_part by (cases x) (auto simp: own_done_def Let_def)
  from delete_keeps [OF assms(1) _ _ s1(1), of ?e "insert ?e a" a] show ?thesis by (auto simp: st s1(2) accounted_def)
qed

fun worker_peer :: "worker \<Rightarrow> string option" where
  "worker_peer Idle = None"
| "worker_peer (Fetching cx) = Some (cx_peer cx)"
| "worker_peer (Applying cx page todo) = Some (cx_peer cx)"
| "worker_peer (AwaitShared cx page r rest n) = Some (cx_peer cx)"
| "worker_peer (AwaitOwn cx page r rest ref) = Some (cx_peer cx)"

text \<open>The records of the page that were gone through are accounted for.\<close>

definition page_done :: "string set \<Rightarrow> peer_sync \<Rightarrow> string \<Rightarrow> peer_page \<Rightarrow> peer_record list \<Rightarrow> bool" where
  "page_done a s p page todo \<longleftrightarrow> (\<exists>gone. page_records page = gone @ todo \<and> (\<forall>r\<in>set gone. accounted a s p (pr_eventId r)))"

fun worker_ok :: "string set \<Rightarrow> peer_sync \<Rightarrow> worker \<Rightarrow> bool" where
  "worker_ok a s Idle = True"
| "worker_ok a s (Fetching cx) = True"
| "worker_ok a s (Applying cx page todo) = page_done a s (cx_peer cx) page todo"
| "worker_ok a s (AwaitShared cx page r rest n) = page_done a s (cx_peer cx) page (r # rest)"
| "worker_ok a s (AwaitOwn cx page r rest ref) = (page_done a s (cx_peer cx) page rest \<and> accounted a s (cx_peer cx) (pr_eventId r))"

lemma page_done_mono:
  "page_done a s p page todo \<Longrightarrow> (\<And>e. accounted a s p e \<Longrightarrow> accounted a' s' p e) \<Longrightarrow> page_done a' s' p page todo"
  unfolding page_done_def by blast

lemma page_done_next:
  "page_done a s p page (r # rest) \<Longrightarrow> accounted a s p (pr_eventId r) \<Longrightarrow> page_done a s p page rest"
  unfolding page_done_def by (elim exE, rule_tac x = "gone @ [r]" in exI) auto

lemma page_done_all: "page_done a s p page [] \<Longrightarrow> r \<in> set (page_records page) \<Longrightarrow> accounted a s p (pr_eventId r)"
  by (auto simp: page_done_def)

lemma worker_ok_mono:
  "worker_ok a s w \<Longrightarrow> (\<And>p e. worker_peer w = Some p \<Longrightarrow> accounted a s p e \<Longrightarrow> accounted a' s' p e) \<Longrightarrow> worker_ok a' s' w"
  by (cases w) (auto intro: page_done_mono)


definition worker_step :: "string \<Rightarrow> peer_page option \<Rightarrow> string set \<Rightarrow> peer_sync \<Rightarrow> string set \<Rightarrow> worker \<Rightarrow> peer_sync \<Rightarrow> bool" where
  "worker_step p done_page a s a' w s' \<longleftrightarrow> queue_ok s' \<and> worker_ok a' s' w \<and> (w = Idle \<or> worker_peer w = Some p) \<and>
     (\<forall>q e. q \<noteq> p \<longrightarrow> accounted a s q e \<longrightarrow> accounted a' s' q e) \<and>
     (\<forall>q. q \<noteq> p \<longrightarrow> ps_cursors s' q = ps_cursors s q \<or> ps_cursors s' q = None) \<and>
     (ps_cursors s' p \<noteq> None \<longrightarrow> (\<forall>e. accounted a s p e \<longrightarrow> accounted a' s' p e) \<and>
        (case done_page of None \<Rightarrow> ps_cursors s' p = ps_cursors s p
         | Some page \<Rightarrow> \<forall>r\<in>set (page_records page). accounted a' s' p (pr_eventId r)))"

lemma plain_step:
  assumes "keeps a s a' s1" "queue_part s' = queue_part s1" "worker_ok a' s1 w" "w = Idle \<or> worker_peer w = Some p"
  shows "worker_step p None a s a' w s'"
proof -
  from queue_part_same [OF assms(2), of a'] have e: "accounted a' s' = accounted a' s1" "queue_ok s' = queue_ok s1" "ps_cursors s' = ps_cursors s1" by auto
  have "worker_ok a' s' w" using assms(3) e(1) by (auto intro: worker_ok_mono)
  with assms(1,4) e show ?thesis by (auto simp: worker_step_def keeps_def)
qed

lemma worker_step_after:
  assumes "keeps a s a1 s1" "worker_step p pg a1 s1 a' w s'"
  shows "worker_step p pg a s a' w s'"
proof -
  have c: "ps_cursors s1 q = ps_cursors s q \<or> ps_cursors s1 q = None" for q using assms(1) by (simp add: keeps_def)
  have "ps_cursors s' q = ps_cursors s q \<or> ps_cursors s' q = None" if "q \<noteq> p" for q
    using assms(2) that c [of q] by (auto simp: worker_step_def)
  with assms c [of p] keeps_acc [OF assms(1)] show ?thesis
    unfolding worker_step_def by (auto split: option.splits)
qed

lemma fail_part: "fail_peer now p s = (w, s') \<Longrightarrow> w = Idle \<and> queue_part s' = queue_part s"
  by (auto simp: fail_peer_def queue_part_def)

lemma queue_part_frame [simp]:
  "queue_part (set_health p u s) = queue_part s" "queue_part (s\<lparr>ps_active := x\<rparr>) = queue_part s"
  by (simp_all add: queue_part_def)

lemma finish_part: "finish_peer now cx forced s = (w, s') \<Longrightarrow> w = Idle \<and> queue_part s' = queue_part s"
  by (cases "cx_rejected cx > 0") (auto simp: finish_peer_def Let_def)

lemma fail_step: "queue_ok s \<Longrightarrow> fail_peer now p s = (w, s') \<Longrightarrow> worker_step p None a s a w s'"
proof -
  assume a: "queue_ok s" "fail_peer now p s = (w, s')"
  from fail_part [OF a(2)] show ?thesis by (intro plain_step [OF keeps_refl [OF a(1)]]) simp_all
qed

lemma page_end_forced:
  assumes "queue_ok s" "cx_peer cx \<in> ps_forceReset s" "page_end now cx page s = (w, s')"
  shows "worker_step (cx_peer cx) pg a s a w s'"
proof -
  let ?p = "cx_peer cx"
  define s1 where "s1 = s\<lparr>ps_forceReset := ps_forceReset s - {?p}, ps_cursors := (ps_cursors s)(?p := None)\<rparr>"
  have "finish_peer now cx True s1 = (w, s')" using assms(2,3) by (simp add: page_end_def s1_def)
  from finish_part [OF this] have w: "w = Idle" and q: "queue_part s' = queue_part s1" by auto
  from queue_part_same [OF q, of a] have e: "accounted a s' = accounted a s1" "queue_ok s' = queue_ok s1" "ps_cursors s' = ps_cursors s1" by auto
  have "queue_ok s1" using assms(1) by (auto simp: queue_ok_def s1_def)
  moreover have "accounted a s1 q x" if "q \<noteq> ?p" "accounted a s q x" for q x
    using that by (auto simp: accounted_def held_def s1_def)
  ultimately show ?thesis using w by (auto simp: worker_step_def e) (auto simp: s1_def)
qed

lemma page_end_commit:
  assumes "queue_ok s" "page_done a s (cx_peer cx) page []" "page_end now cx page s = (w, s')"
  shows "worker_step (cx_peer cx) (Some page) a s a w s'"
proof (cases "cx_peer cx \<in> ps_forceReset s")
  case True
  from page_end_forced [OF assms(1) True assms(3)] show ?thesis .
next
  case False
  let ?p = "cx_peer cx"
  define s1 where "s1 = s\<lparr>ps_cursors := (ps_cursors s)(?p \<mapsto> pp_cursor page)\<rparr>"
  have w: "(w = Idle \<or> (\<exists>cx'. w = Fetching cx' \<and> cx_peer cx' = ?p)) \<and> queue_part s' = queue_part s1"
  proof (cases "pp_hasMore page \<and> cx_page cx + 1 < MAX_PAGES_PER_SYNC")
    case True
    with False assms(3) show ?thesis by (auto simp: page_end_def Let_def s1_def)
  next
    case stop: False
    with False assms(3) have "finish_peer now cx False s1 = (w, s') \<or> fail_peer now ?p s1 = (w, s')"
      by (auto simp: page_end_def Let_def s1_def not_less split: if_splits)
    with finish_part fail_part show ?thesis by blast
  qed
  then have q: "queue_part s' = queue_part s1" ..
  from queue_part_same [OF q, of a] have e: "accounted a s' = accounted a s1" "queue_ok s' = queue_ok s1" "ps_cursors s' = ps_cursors s1" by auto
  have acc: "accounted a s1 = accounted a s" by (simp add: fun_eq_iff accounted_def held_def s1_def)
  have "queue_ok s1" using assms(1) False by (auto simp: queue_ok_def s1_def)
  moreover have "ps_cursors s1 x = ps_cursors s x" if "x \<noteq> ?p" for x using that by (simp add: s1_def)
  moreover have "worker_ok a s' w" using w by auto
  ultimately show ?thesis using w page_done_all [OF assms(2)] by (auto simp: worker_step_def e acc)
qed

lemma record_done_step:
  assumes "queue_ok s" "page_done a s (cx_peer cx) page rest" "record_done late now cx page rest x s = (w, s')"
  shows "worker_step (cx_peer cx) None a s a w s'"
proof -
  let ?p = "cx_peer cx"
  define s1 where "s1 = (if x = Rejected then s\<lparr>ps_rejectedThisSync := (ps_rejectedThisSync s)(?p := min (ps_rejectedThisSync s ?p + 1) (MAX_REJECTED_EVENTS_PER_SYNC + 1))\<rparr> else s)"
  define cx1 where "cx1 = (if x = Rejected then cx\<lparr>cx_rejected := cx_rejected cx + 1\<rparr> else cx)"
  have p1: "queue_part s1 = queue_part s" by (simp add: s1_def queue_part_def)
  note k1 = keeps_part [OF assms(1) p1, of a]
  have q1: "queue_ok s1" using keeps_queue [OF k1] .
  have c1: "cx_peer cx1 = ?p" by (simp add: cx1_def)
  have pd: "page_done a s1 ?p page rest" using assms(2) keeps_acc [OF k1] by (rule page_done_mono)
  define quota where "quota = (x = Rejected \<and> min (ps_rejectedThisSync s ?p + 1) (MAX_REJECTED_EVENTS_PER_SYNC + 1) \<ge> MAX_REJECTED_EVENTS_PER_SYNC)"
  have eq: "(if quota
      then fail_peer now ?p s1 else if ?p \<in> ps_forceReset s1 then (if late then fail_peer now ?p s1 else page_end now cx1 page s1) else (Applying cx1 page rest, s1)) = (w, s')"
    using assms(3) unfolding record_done_def Let_def s1_def cx1_def quota_def .
  consider "fail_peer now ?p s1 = (w, s')" | "?p \<in> ps_forceReset s1" "page_end now cx1 page s1 = (w, s')" | "w = Applying cx1 page rest" "s' = s1"
    using eq by (cases quota; cases "?p \<in> ps_forceReset s1"; cases late) simp_all
  then show ?thesis
  proof cases
    case 1
    from worker_step_after [OF k1 fail_step [OF q1 this]] show ?thesis .
  next
    case 2
    from worker_step_after [OF k1] page_end_forced [OF q1, of cx1] 2 show ?thesis by (simp add: c1)
  next
    case 3
    from plain_step [OF k1 refl, of w ?p] 3 pd show ?thesis by (simp add: c1)
  qed
qed

lemma continue_apply_step:
  assumes "queue_ok s" "page_done a s (cx_peer cx) page (r # rest)" "continue_apply late now cx page r rest (wt, s) = (w, s')"
    and "(\<exists>x. wt = Ready x) \<or> (\<exists>ref. wt = OnOwn ref) \<longrightarrow> accounted a s (cx_peer cx) (pr_eventId r)"
  shows "worker_step (cx_peer cx) None a s a w s'"
proof (cases wt)
  case (Ready x)
  with assms(3) have "record_done late now cx page rest x s = (w, s')" by (simp add: continue_apply_def)
  from record_done_step [OF assms(1) page_done_next [OF assms(2)] this] assms(4) Ready show ?thesis by simp
next
  case (OnShared n)
  with assms(2,3) show ?thesis by (intro plain_step [OF keeps_refl [OF assms(1)]]) (auto simp: continue_apply_def)
next
  case (OnOwn ref)
  with assms(3,4) page_done_next [OF assms(2)] show ?thesis
    by (intro plain_step [OF keeps_refl [OF assms(1)]]) (auto simp: continue_apply_def)
qed


lemma next_record_step:
  assumes "queue_ok s" "page_done a s (cx_peer cx) page todo" "next_record late now cx page todo s = (w, s')"
  shows "worker_step (cx_peer cx) (if todo = [] then Some page else None) a s a w s'"
proof (cases todo)
  case Nil
  with assms(3) have "page_end now cx page s = (w, s')" by (simp add: next_record_def)
  from page_end_commit [OF assms(1) assms(2) [unfolded Nil] this] Nil show ?thesis by simp
next
  case (Cons r rest)
  obtain wt s1 where st: "apply_start now r (cx_peer cx) s = (wt, s1)" by force
  from apply_start_keeps [OF assms(1) st, of a] have k: "keeps a s a s1"
    and acc: "(\<exists>x. wt = Ready x) \<or> (\<exists>ref. wt = OnOwn ref) \<longrightarrow> accounted a s1 (cx_peer cx) (pr_eventId r)" by blast+
  have pd: "page_done a s1 (cx_peer cx) page (r # rest)" using assms(2) Cons keeps_acc [OF k] by (auto intro: page_done_mono)
  have "continue_apply late now cx page r rest (wt, s1) = (w, s')" using assms(3) Cons st by (simp add: next_record_def)
  from worker_step_after [OF k continue_apply_step [OF keeps_queue [OF k] pd this acc]] Cons show ?thesis by simp
qed

lemma after_shared_step:
  assumes "queue_ok s" "page_done a s (cx_peer cx) page (r # rest)" "after_shared late now cx page r rest n outcome s = (w, s')"
  shows "worker_step (cx_peer cx) None a s (settles outcome (pr_eventId r) a) w s'"
proof (cases outcome)
  case Threw
  with assms fail_step [OF assms(1)] show ?thesis by (simp add: after_shared_def settles_def)
next
  case (Answered x)
  let ?a = "settles outcome (pr_eventId r) a"
  obtain wt s1 where st: "shared_done now r (cx_peer cx) n x s = (wt, s1)" by force
  from shared_done_keeps [OF assms(1) st, of a] Answered have k: "keeps a s ?a s1"
    and acc: "(\<exists>y. wt = Ready y) \<or> (\<exists>ref. wt = OnOwn ref) \<longrightarrow> accounted ?a s1 (cx_peer cx) (pr_eventId r)" by simp_all
  have pd: "page_done ?a s1 (cx_peer cx) page (r # rest)" using assms(2) keeps_acc [OF k] by (rule page_done_mono)
  have "continue_apply late now cx page r rest (wt, s1) = (w, s')" using assms(3) Answered st by (simp add: after_shared_def)
  from worker_step_after [OF k continue_apply_step [OF keeps_queue [OF k] pd this acc]] show ?thesis .
qed

lemma after_own_step:
  assumes "queue_ok s" "page_done a s (cx_peer cx) page rest" "accounted a s (cx_peer cx) (pr_eventId r)"
    and "after_own late now cx page r rest ref outcome s = (w, s')"
  shows "worker_step (cx_peer cx) None a s (settles outcome (pr_eventId r) a) w s'"
proof (cases outcome)
  case Threw
  with assms fail_step [OF assms(1)] show ?thesis by (simp add: after_own_def settles_def)
next
  case (Answered x)
  let ?a = "settles outcome (pr_eventId r) a"
  obtain y s1 where st: "own_done now r (cx_peer cx) ref x s = (y, s1)" by force
  from own_done_keeps [OF assms(1,3) st] Answered have k: "keeps a s ?a s1" by simp
  have pd: "page_done ?a s1 (cx_peer cx) page rest" using assms(2) keeps_acc [OF k] by (rule page_done_mono)
  have "record_done late now cx page rest y s1 = (w, s')" using assms(4) Answered st by (simp add: after_own_def)
  from worker_step_after [OF k record_done_step [OF keeps_queue [OF k] pd this]] show ?thesis .
qed

lemma receive_page_step:
  assumes "queue_ok s" "receive_page now cx answer s = (w, s')"
  shows "worker_step (cx_peer cx) None a s a w s'"
proof -
  consider "fail_peer now (cx_peer cx) s = (w, s')"
    | cx' page where "w = Applying cx' page (page_records page)" "cx_peer cx' = cx_peer cx" "s' = s"
    using assms(2) by (auto simp: receive_page_def Let_def split: option.splits sum.splits if_splits)
  then show ?thesis
  proof cases
    case 1
    with fail_step [OF assms(1)] show ?thesis .
  next
    case 2
    then show ?thesis by (intro plain_step [OF keeps_refl [OF assms(1)]]) (auto simp: page_done_def)
  qed
qed

lemma begin_peer_step:
  assumes "queue_ok s" "begin_peer now p s = (w, s')"
  shows "worker_step p None a s a w s'"
proof -
  have "queue_part s' = queue_part s \<and> (w = Idle \<or> (\<exists>cx. w = Fetching cx \<and> cx_peer cx = p))"
    using assms(2) by (auto simp: begin_peer_def split: if_splits)
  then show ?thesis by (intro plain_step [OF keeps_refl [OF assms(1)]]) auto
qed


section \<open>The invariant of a round\<close>

definition passed_ok :: "string set \<Rightarrow> peer_sync \<Rightarrow> (string \<Rightarrow> string set) \<Rightarrow> bool" where
  "passed_ok a s b \<longleftrightarrow> (\<forall>p. (ps_cursors s p = None \<longrightarrow> b p = {}) \<and> (\<forall>e\<in>b p. accounted a s p e))"

definition workers_ok :: "string list \<Rightarrow> string set \<Rightarrow> peer_sync \<Rightarrow> nat \<Rightarrow> worker list \<Rightarrow> bool" where
  "workers_ok peers a s n ws \<longleftrightarrow> (\<forall>w\<in>set ws. worker_ok a s w) \<and>
     (\<forall>i<length ws. \<forall>p. worker_peer (ws ! i) = Some p \<longrightarrow> p \<in> set (take n peers) \<and>
        (\<forall>j<length ws. j \<noteq> i \<longrightarrow> worker_peer (ws ! j) \<noteq> Some p))"

definition phase_ok :: "string list \<Rightarrow> string set \<Rightarrow> peer_sync \<Rightarrow> phase \<Rightarrow> bool" where
  "phase_ok peers a s ph \<longleftrightarrow> (case ph of Resting \<Rightarrow> True | Working n ws \<Rightarrow> workers_ok peers a s n ws
     | Retrying k todo t \<Rightarrow> set todo \<subseteq> set (ps_deferred s) \<and> omap_wf todo)"

definition net_ok :: "string list \<Rightarrow> sync_net \<Rightarrow> bool" where
  "net_ok peers N \<longleftrightarrow> queue_ok (sn_sync N) \<and> passed_ok (sn_answered N) (sn_sync N) (sn_passed N) \<and>
     phase_ok peers (sn_answered N) (sn_sync N) (sn_phase N)"

definition passed_next :: "string \<Rightarrow> peer_page option \<Rightarrow> peer_sync \<Rightarrow> (string \<Rightarrow> string set) \<Rightarrow> string \<Rightarrow> string set" where
  "passed_next p pg s' b q = (if ps_cursors s' q = None then {} else if q = p
     then b q \<union> (case pg of None \<Rightarrow> {} | Some page \<Rightarrow> set (map pr_eventId (page_records page))) else b q)"

lemma passed_next_cases:
  "passed_kept s' b = passed_next p None s' b" "passed_after cx page s' b = passed_next (cx_peer cx) (Some page) s' b"
  by (auto simp: fun_eq_iff passed_kept_def passed_after_def passed_next_def)

lemma worker_step_passed:
  assumes "passed_ok a s b" "worker_step p pg a s a' w s'"
  shows "passed_ok a' s' (passed_next p pg s' b)"
proof -
  have "accounted a' s' q e" if "e \<in> passed_next p pg s' b q" for q e
  proof (cases "q = p")
    case False
    with that have "e \<in> b q" by (auto simp: passed_next_def split: if_splits)
    with assms False show ?thesis by (auto simp: passed_ok_def worker_step_def)
  next
    case True
    with that have "ps_cursors s' p \<noteq> None" "e \<in> b p \<or> (\<exists>page. pg = Some page \<and> e \<in> pr_eventId ` set (page_records page))"
      by (auto simp: passed_next_def split: if_splits option.splits)
    with assms True show ?thesis by (auto simp: passed_ok_def worker_step_def)
  qed
  then show ?thesis by (auto simp: passed_ok_def passed_next_def)
qed

lemma worker_step_workers:
  assumes "workers_ok peers a s n ws" "i < length ws" "worker_step p pg a s a' w s'" "n \<le> n'" "p \<in> set (take n' peers)"
    and "\<forall>j<length ws. j \<noteq> i \<longrightarrow> worker_peer (ws ! j) \<noteq> Some p"
  shows "workers_ok peers a' s' n' (ws[i := w])"
proof -
  have take: "set (take n peers) \<subseteq> set (take n' peers)" using assms(4) by (rule set_take_subset_set_take)
  have w: "worker_ok a' s' w" "w = Idle \<or> worker_peer w = Some p" using assms(3) by (auto simp: worker_step_def)
  have other: "worker_ok a' s' (ws ! j)" if "j < length ws" "j \<noteq> i" for j
  proof (rule worker_ok_mono [of a s])
    show "worker_ok a s (ws ! j)" using assms(1) that by (simp add: workers_ok_def)
    fix q e
    assume "worker_peer (ws ! j) = Some q" "accounted a s q e"
    with that assms(6) show "accounted a' s' q e" using assms(3) by (auto simp: worker_step_def)
  qed
  have "worker_ok a' s' ((ws[i := w]) ! j)" if "j < length ws" for j using other w that by (cases "j = i") auto
  moreover have "q \<in> set (take n' peers) \<and> (\<forall>k<length ws. k \<noteq> j \<longrightarrow> worker_peer ((ws[i := w]) ! k) \<noteq> Some q)"
    if "j < length ws" "worker_peer ((ws[i := w]) ! j) = Some q" for j q
  proof (cases "j = i")
    case True
    with that assms(2) w(2) have "q = p" by auto
    with True assms(5,6) show ?thesis by simp
  next
    case False
    with that have q: "worker_peer (ws ! j) = Some q" by simp
    with assms(1) that(1) have old: "q \<in> set (take n peers)" "\<forall>k<length ws. k \<noteq> j \<longrightarrow> worker_peer (ws ! k) \<noteq> Some q"
      by (simp_all add: workers_ok_def)
    have "q \<noteq> p" using assms(6) that(1) False q by metis
    then have "worker_peer w \<noteq> Some q" using w(2) by auto
    with old take assms(2) show ?thesis by (auto simp: nth_list_update)
  qed
  ultimately show ?thesis by (auto simp: workers_ok_def in_set_conv_nth)
qed



section \<open>Retries\<close>

definition retries :: "string set \<Rightarrow> peer_sync \<Rightarrow> string set \<Rightarrow> peer_sync \<Rightarrow> string \<Rightarrow> bool" where
  "retries a s a' s' e \<longleftrightarrow> queue_ok s' \<and> (\<forall>p x. accounted a s p x \<longrightarrow> accounted a' s' p x \<or> ps_cursors s' p = None) \<and>
     (\<forall>p. ps_cursors s' p = ps_cursors s p \<or> ps_cursors s' p = None) \<and>
     (\<forall>x r. (x, r) \<in> set (ps_deferred s) \<longrightarrow> x \<noteq> e \<longrightarrow> (x, r) \<in> set (ps_deferred s'))"

lemma keeps_retries:
  assumes "keeps a s a' s'" "ps_deferred s' = ps_deferred s \<or> ps_deferred s' = AList.delete e (ps_deferred s)"
  shows "retries a s a' s' e"
  using assms by (auto simp: retries_def keeps_def AList.delete_eq)

lemma expire_entry_retries:
  assumes "queue_ok s" "(e, ref) \<in> set (ps_deferred s)" "expire_entry e ref s t = (s', t')"
  shows "retries a s a s' e"
proof -
  have s': "ps_deferred s' = AList.delete e (ps_deferred s)" "ps_objects s' = ps_objects s" "ps_nextRef s' = ps_nextRef s"
    "ps_forceReset s' = ps_forceReset s" "ps_cursors s' = (\<lambda>p. if p \<in> set (de_sources (ps_objects s ref)) then None else ps_cursors s p)"
    using assms(3) by (auto simp: expire_entry_def Let_def)
  have m: "map_of (ps_deferred s) e = Some ref" using assms(1,2) by (simp add: queue_ok_def)
  have "distinct (map snd (AList.delete e (ps_deferred s)))"
    using assms(1) by (simp add: queue_ok_def AList.delete_eq distinct_map_filter)
  then have "queue_ok s'" using assms(1) omap_wf_delete [of "ps_deferred s" e] by (auto simp: queue_ok_def s' AList.delete_eq)
  moreover have "accounted a s' p x \<or> ps_cursors s' p = None" if "accounted a s p x" for p x
    using that m by (cases "x = e") (auto simp: accounted_def held_def s' map_of_omap_delete)
  ultimately show ?thesis by (auto simp: retries_def s' AList.delete_eq)
qed

lemma retry_entry_retries:
  assumes "queue_ok s" "(e, ref) \<in> set (ps_deferred s)" "retry_entry now outcome e ref s t = (s', t')"
  shows "retries a s (if retry_attempted now ref s then settles outcome e a else a) s' e"
proof -
  let ?d = "ps_objects s ref"
  have quiet: "retries a s a s e" by (rule keeps_retries [OF keeps_refl [OF assms(1)]]) simp
  show ?thesis
  proof (cases "retry_expired now ?d")
    case True
    with assms(3) have "expire_entry e ref s t = (s', t')" by (simp add: retry_entry_def Let_def)
    from expire_entry_retries [OF assms(1,2) this] True show ?thesis by (simp add: retry_attempted_def)
  next
    case alive: False
    show ?thesis
    proof (cases "de_nextAttemptAt ?d > now \<or> eligibleSources ?d s = []")
      case True
      with alive assms(3) have "s' = s" by (auto simp: retry_entry_def Let_def split: if_splits)
      with True quiet show ?thesis by (auto simp: retry_attempted_def)
    next
      case False
      then have at: "retry_attempted now ref s" using alive by (auto simp: retry_attempted_def)
      from False obtain first more where el: "eligibleSources ?d s = first # more" by (cases "eligibleSources ?d s") auto
      define u where "u = (\<lambda>d::deferred_event. d\<lparr>de_peer := (if de_peer d \<in> set (first # more) then de_peer d else first), de_attempts := de_attempts d + 1\<rparr>)"
      let ?s1 = "update_object ref u s"
      have k1: "keeps a s a ?s1" by (rule update_peer_keeps [OF assms(1)]) (simp add: u_def)
      note q1 = keeps_queue [OF k1]
      have d1: "ps_deferred (update_object ref v s1) = ps_deferred s1" for v s1 by (simp add: update_object_def)
      note eq = assms(3) [unfolded retry_entry_def Let_def el list.case if_not_P [OF alive] u_def [symmetric]]
      have eq: "(case outcome of Threw \<Rightarrow> (update_object ref (\<lambda>d. d\<lparr>de_nextAttemptAt := now + MAX_DEFERRED_BACKOFF_MS\<rparr>) ?s1, t)
           | Answered Deferred \<Rightarrow> (update_object ref (\<lambda>d. d\<lparr>de_peer := next_source (de_peer d) (first # more) (de_peer d),
                  de_nextAttemptAt := now + min MAX_DEFERRED_BACKOFF_MS (250 * 2 ^ min (de_attempts (ps_objects ?s1 ref)) 8)\<rparr>) ?s1, t)
           | Answered Rejected \<Rightarrow> reject_entry e ref ?s1 t
           | Answered Applied \<Rightarrow> (?s1\<lparr>ps_deferred := AList.delete e (ps_deferred ?s1)\<rparr>, t\<lparr>rt_applied := rt_applied t + 1\<rparr>)) = (s', t')"
        using eq False by (simp cong: apply_outcome.case_cong apply_result.case_cong)
      show ?thesis
      proof (cases "settles outcome e a = a \<and> outcome \<noteq> Answered Applied \<and> outcome \<noteq> Answered Rejected")
        case True
        then obtain v where v: "s' = update_object ref v ?s1" "\<And>d. de_sources (v d) = de_sources d"
          using eq by (cases outcome) (auto split: apply_result.splits)
        have "keeps a s a s'" unfolding v(1) by (rule keeps_trans [OF k1 update_peer_keeps [OF q1 v(2)]])
        from keeps_retries [OF this, of e] True v(1) d1 show ?thesis by (simp add: at)
      next
        case settled: False
        then have st: "settles outcome e a = insert e a" "outcome = Answered Applied \<or> outcome = Answered Rejected" by (auto simp: settles_def)
        from st(2) eq obtain s2 where s2: "queue_part s2 = queue_part ?s1" "s' = s2\<lparr>ps_deferred := AList.delete e (ps_deferred s2)\<rparr>"
        proof (elim disjE)
          assume "outcome = Answered Applied"
          with eq show ?thesis by (intro that [of ?s1]) simp_all
        next
          assume "outcome = Answered Rejected"
          with eq have "reject_entry e ref ?s1 t = (s', t')" by simp
          then show ?thesis
            by (intro that [of "s'\<lparr>ps_deferred := ps_deferred ?s1\<rparr>"]) (auto simp: reject_entry_def Let_def queue_part_def)
        qed
        from keeps_trans [OF k1 delete_keeps [OF q1 _ _ s2(1), of e "insert e a" a]] have "keeps a s (insert e a) s'" by (auto simp: s2(2))
        moreover have "ps_deferred s' = AList.delete e (ps_deferred s)" using s2 d1 by (simp add: queue_part_def)
        ultimately show ?thesis using keeps_retries by (simp add: at st(1))
      qed
    qed
  qed
qed



section \<open>No event is skipped\<close>

lemma workers_ok_nth: "workers_ok peers a s n ws \<Longrightarrow> i < length ws \<Longrightarrow> worker_ok a s (ws ! i)"
  by (simp add: workers_ok_def)

lemma working_step:
  assumes ok: "queue_ok s" "passed_ok a s b" "workers_ok peers a s n ws"
    and w: "i < length ws" "worker_peer (ws ! i) = Some p" "worker_step p pg a s a' w s'"
  shows "net_ok peers \<lparr>sn_sync = s', sn_phase = Working n (ws[i := w]), sn_answered = a', sn_passed = passed_next p pg s' b\<rparr>"
proof -
  from ok(3) w(1,2) have "p \<in> set (take n peers)" "\<forall>j<length ws. j \<noteq> i \<longrightarrow> worker_peer (ws ! j) \<noteq> Some p" by (simp_all add: workers_ok_def)
  from worker_step_workers [OF ok(3) w(1,3) _ this] worker_step_passed [OF ok(2) w(3)] w(3)
  show ?thesis by (simp add: net_ok_def phase_ok_def worker_step_def)
qed

lemma working_step_kept:
  assumes "queue_ok s" "passed_ok a s b" "workers_ok peers a s n ws" "i < length ws" "worker_peer (ws ! i) = Some p" "worker_step p None a s a' w s'"
  shows "net_ok peers \<lparr>sn_sync = s', sn_phase = Working n (ws[i := w]), sn_answered = a', sn_passed = passed_kept s' b\<rparr>"
  using working_step [OF assms] by (simp add: passed_next_cases(1) [of s' b p])

lemma take_peer_step:
  assumes ok: "queue_ok s" "passed_ok a s b" "workers_ok peers a s n ws" "distinct peers"
    and w: "i < length ws" "ws ! i = Idle" "n < length peers" "begin_peer now (peers ! n) s = (w, s')"
  shows "net_ok peers \<lparr>sn_sync = s', sn_phase = Working (n + 1) (ws[i := w]), sn_answered = a, sn_passed = passed_kept s' b\<rparr>"
proof -
  note st = begin_peer_step [OF ok(1) w(4), of a]
  have new: "peers ! n \<notin> set (take n peers)" using ok(4) w(3) by (auto simp: in_set_conv_nth nth_eq_iff_index_eq)
  have "peers ! n \<in> set (take (n + 1) peers)" using w(3) by (simp add: take_Suc_conv_app_nth)
  moreover have "\<forall>j<length ws. j \<noteq> i \<longrightarrow> worker_peer (ws ! j) \<noteq> Some (peers ! n)"
    using ok(3) new by (auto simp: workers_ok_def)
  ultimately have "workers_ok peers a s' (n + 1) (ws[i := w])" using worker_step_workers [OF ok(3) w(1) st, of "n + 1"] by simp
  with worker_step_passed [OF ok(2) st] st show ?thesis
    by (simp add: net_ok_def phase_ok_def passed_next_cases(1) [of s' b "peers ! n"] worker_step_def)
qed

lemma retry_net:
  assumes "queue_ok s" "passed_ok a s b" "set ((e, ref) # todo) \<subseteq> set (ps_deferred s)" "omap_wf ((e, ref) # todo)" "retries a s a' s' e"
  shows "net_ok peers \<lparr>sn_sync = s', sn_phase = Retrying k todo t, sn_answered = a', sn_passed = passed_kept s' b\<rparr>"
proof -
  have "set todo \<subseteq> set (ps_deferred s')"
  proof
    fix x assume x: "x \<in> set todo"
    then have "fst x \<noteq> e" "x \<in> set (ps_deferred s)" using assms(3,4) by auto
    with assms(5) show "x \<in> set (ps_deferred s')" by (cases x) (auto simp: retries_def)
  qed
  moreover have "accounted a' s' p x" if "x \<in> passed_kept s' b p" for p x
  proof -
    from that have c: "ps_cursors s' p \<noteq> None" "x \<in> b p" by (auto simp: passed_kept_def split: if_splits)
    then have "accounted a s p x" using assms(2) by (simp add: passed_ok_def)
    moreover have "accounted a s p x \<longrightarrow> accounted a' s' p x \<or> ps_cursors s' p = None" using assms(5) by (simp add: retries_def)
    ultimately show ?thesis using c(1) by simp
  qed
  then have "passed_ok a' s' (passed_kept s' b)" by (simp add: passed_ok_def) (simp add: passed_kept_def)
  ultimately show ?thesis using assms(4,5) by (simp add: net_ok_def phase_ok_def retries_def)
qed

lemma passed_part: "passed_ok a s b \<Longrightarrow> queue_part s' = queue_part s \<Longrightarrow> passed_ok a s' b"
  using queue_part_same [of s' s a] by (simp add: passed_ok_def)

lemma retry_reports_part: "queue_part (retry_reports now t s) = queue_part s"
proof -
  have "queue_part (fold (\<lambda>(p, n). recordPeerIssue now p) xs s) = queue_part s"
    "queue_part (fold (\<lambda>(p, n). recordRejectedEvents now p) xs s) = queue_part s" for xs :: "(string, nat) omap" and s
    by (induction xs arbitrary: s) (auto split: prod.splits)
  then show ?thesis by (simp add: retry_reports_def)
qed

lemma sync_step_ok:
  assumes "sync_step peers N N'" "distinct peers" "net_ok peers N"
  shows "net_ok peers N'"
  using assms(1)
proof cases
  case (start s ph s' a b)
  then have "queue_part s' = queue_part s" by (auto simp: sync_start_def queue_part_def)
  with start assms(3) passed_part [of a s b s'] queue_part_same [of s' s a] show ?thesis
    by (auto simp: net_ok_def phase_ok_def sync_start_def workers_ok_def)
next
  case (take_peer i ws n now s w s' a b)
  with assms(3) have "queue_ok s" "passed_ok a s b" "workers_ok peers a s n ws" by (simp_all add: net_ok_def phase_ok_def)
  from take_peer_step [OF this assms(2) take_peer(3-6)] take_peer(2) show ?thesis by simp
next
  case (deadline i ws cx page todo now s w s' n a b)
  with assms(3) have ok: "queue_ok s" "passed_ok a s b" "workers_ok peers a s n ws" by (simp_all add: net_ok_def phase_ok_def)
  have "worker_peer (ws ! i) = Some (cx_peer cx)" using deadline(4) by auto
  from working_step_kept [OF ok deadline(3) this fail_step [OF ok(1) deadline(5)]] deadline(2) show ?thesis by simp
next
  case (response i ws cx now answer s w s' n a b)
  with assms(3) have ok: "queue_ok s" "passed_ok a s b" "workers_ok peers a s n ws" by (simp_all add: net_ok_def phase_ok_def)
  have "worker_peer (ws ! i) = Some (cx_peer cx)" using response(4) by simp
  from working_step_kept [OF ok response(3) this receive_page_step [OF ok(1) response(5)]] response(2) show ?thesis by simp
next
  case (one_record i ws cx page todo late now s w s' n a b)
  with assms(3) have ok: "queue_ok s" "passed_ok a s b" "workers_ok peers a s n ws" by (simp_all add: net_ok_def phase_ok_def)
  have wp: "worker_peer (ws ! i) = Some (cx_peer cx)" and "worker_ok a s (ws ! i)" using workers_ok_nth [OF ok(3) one_record(3)] one_record(4) by simp_all
  then have "page_done a s (cx_peer cx) page todo" using one_record(4) by simp
  from working_step [OF ok one_record(3) wp next_record_step [OF ok(1) this one_record(5)]] one_record(2) show ?thesis
    by (cases "todo = []") (simp_all add: passed_next_cases(2) passed_next_cases(1) [of s' b "cx_peer cx"])
next
  case (settle_promise k s n ws a b outcome)
  let ?s = "s\<lparr>ps_promises := (ps_promises s)[k := (ps_promises s ! k)\<lparr>ea_outcome := Some outcome\<rparr>]\<rparr>"
  have q: "queue_part ?s = queue_part s" by (simp add: queue_part_def)
  with settle_promise assms(3) passed_part [OF _ q, of a b] queue_part_same [OF q, of a] show ?thesis
    by (auto simp: net_ok_def phase_ok_def workers_ok_def intro: worker_ok_mono)
next
  case (shared i ws cx page r rest k s outcome late now w s' n a b)
  with assms(3) have ok: "queue_ok s" "passed_ok a s b" "workers_ok peers a s n ws" by (simp_all add: net_ok_def phase_ok_def)
  have wp: "worker_peer (ws ! i) = Some (cx_peer cx)" and "worker_ok a s (ws ! i)" using workers_ok_nth [OF ok(3) shared(3)] shared(4) by simp_all
  then have "page_done a s (cx_peer cx) page (r # rest)" using shared(4) by simp
  from working_step_kept [OF ok shared(3) wp after_shared_step [OF ok(1) this shared(6)]] shared(2) show ?thesis by simp
next
  case (own i ws cx page r rest ref late now outcome s w s' n a b)
  with assms(3) have ok: "queue_ok s" "passed_ok a s b" "workers_ok peers a s n ws" by (simp_all add: net_ok_def phase_ok_def)
  have wp: "worker_peer (ws ! i) = Some (cx_peer cx)" and "worker_ok a s (ws ! i)" using workers_ok_nth [OF ok(3) own(3)] own(4) by simp_all
  then have "page_done a s (cx_peer cx) page rest" "accounted a s (cx_peer cx) (pr_eventId r)" using own(4) by simp_all
  from working_step_kept [OF ok own(3) wp after_own_step [OF ok(1) this own(5)]] own(2) show ?thesis by simp
next
  case (retry_start n ws s a b)
  with assms(3) show ?thesis by (simp add: net_ok_def phase_ok_def queue_ok_def)
next
  case (retry now outcome e ref s t s' t' k todo a b)
  with assms(3) have ok: "queue_ok s" "passed_ok a s b" "set ((e, ref) # todo) \<subseteq> set (ps_deferred s)" "omap_wf ((e, ref) # todo)"
    by (simp_all add: net_ok_def phase_ok_def)
  then have "(e, ref) \<in> set (ps_deferred s)" by simp
  from retry_net [OF ok retry_entry_retries [OF ok(1) this retry(3)]] retry(2) show ?thesis by simp
next
  case (retry_pass k t s a b)
  with assms(3) show ?thesis by (simp add: net_ok_def phase_ok_def queue_ok_def)
next
  case (retry_end k t s a b now)
  have "queue_part (sync_finish now (retry_reports now t s)) = queue_part s"
    using retry_reports_part [of now t s] by (simp add: sync_finish_def queue_part_def)
  from queue_part_same [OF this, of a] passed_part [OF _ this, of a b] retry_end assms(3) show ?thesis
    by (simp add: net_ok_def phase_ok_def)
qed

definition idle_net :: sync_net where
  "idle_net = \<lparr>sn_sync = new_sync, sn_phase = Resting, sn_answered = {}, sn_passed = (\<lambda>_. {})\<rparr>"

lemma sync_reach_ok: "(sync_step peers)\<^sup>*\<^sup>* idle_net N \<Longrightarrow> distinct peers \<Longrightarrow> net_ok peers N"
proof (induction rule: rtranclp_induct)
  case base
  then show ?case by (simp add: idle_net_def net_ok_def phase_ok_def queue_ok_def passed_ok_def new_sync_def)
next
  case (step N N')
  then show ?case using sync_step_ok by blast
qed

text \<open>
  C11: No event is skipped. After any rounds of synchronization, in any interleaving of the two workers
  and with any answers, deadlines, rejections, quota resets and expiries, whatever lies behind the
  stored cursor of a peer was applied or rejected by the verifying callback or is still held in the
  queue with that peer as a source. So a cursor is never ahead of what the mirror has dealt with.
\<close>

theorem no_event_skipped:
  assumes "(sync_step peers)\<^sup>*\<^sup>* idle_net N" "distinct peers" "ps_cursors (sn_sync N) p \<noteq> None" "e \<in> sn_passed N p"
  shows "e \<in> sn_answered N \<or> (\<exists>d. entry e (sn_sync N) = Some d \<and> p \<in> set (de_sources d))"
proof -
  from sync_reach_ok [OF assms(1,2)] have ok: "queue_ok (sn_sync N)" "passed_ok (sn_answered N) (sn_sync N) (sn_passed N)"
    by (simp_all add: net_ok_def)
  then have "p \<notin> ps_forceReset (sn_sync N)" using assms(3) by (auto simp: queue_ok_def)
  with ok(2) assms(4) show ?thesis by (auto simp: passed_ok_def accounted_def held_def entry_def)
qed


definition demo_page :: peer_page where
  "demo_page = \<lparr>pp_reset = True, pp_cursor = demo_id @ '':1'', pp_hasMore = False, pp_events = [], pp_snapshot = Some [publicRecord demo_record]\<rparr>"

lemma demo_sync:
  "\<exists>N. (sync_step [''p''])\<^sup>*\<^sup>* idle_net N \<and> ps_cursors (sn_sync N) ''p'' = Some (demo_id @ '':1'') \<and> sn_answered N = {} \<and>
     demo_hash (CHR ''a'') \<in> sn_passed N ''p''"
proof -
  let ?r = "publicRecord demo_record" and ?net = "\<lambda>s ph b. \<lparr>sn_sync = s, sn_phase = ph, sn_answered = {}, sn_passed = b\<rparr>" and ?none = "\<lambda>_. {}"
  have pr: "page_records demo_page = [?r]" by (simp add: page_records_def demo_page_def)
  define s1 where "s1 = new_sync\<lparr>ps_running := True\<rparr>"
  have f1: "ps_cursors s1 = (\<lambda>_. None)" "ps_deferred s1 = []" "ps_forceReset s1 = {}" "ps_applications s1 = (\<lambda>_. None)" "ps_promises s1 = []"
    "healthFor ''p'' s1 = new_health" "ps_rejectedThisSync s1 = (\<lambda>_. 0)"
    by (simp_all add: s1_def new_sync_def healthFor_def)
  have 1: "sync_step [''p''] idle_net (?net s1 (Working 0 [Idle]) ?none)"
    unfolding idle_net_def by (rule start) (simp add: sync_start_def MAX_CONCURRENT_PEER_SYNCS_def s1_def new_sync_def)
  define cx where "cx = \<lparr>cx_peer = ''p'', cx_cursor = None, cx_page = 0, cx_feedId = None, cx_reset = False, cx_seen = [], cx_rejected = 0\<rparr>"
  define s2 where "s2 = snd (begin_peer 5 ''p'' s1)"
  have b2: "begin_peer 5 ''p'' s1 = (Fetching cx, s2)" by (simp add: s2_def begin_peer_def f1 new_health_def cx_def)
  then have f2: "queue_part s2 = queue_part s1" "ps_applications s2 = (\<lambda>_. None)" "ps_promises s2 = []" "ps_rejectedThisSync s2 = (\<lambda>_. 0)"
    by (auto simp: begin_peer_def f1 set_health_def queue_part_def split: if_splits)
  have 2: "sync_step [''p''] (?net s1 (Working 0 [Idle]) ?none) (?net s2 (Working (0 + 1) ([Idle][0 := Fetching cx])) (passed_kept s2 ?none))"
    by (rule take_peer [where now = 5]) (simp_all add: b2)
  have k: "passed_kept s ?none = ?none" for s by (simp add: passed_kept_def fun_eq_iff)
  define cx1 where "cx1 = cx\<lparr>cx_reset := True, cx_feedId := map_option fst (parse_cursor (pp_cursor demo_page)), cx_seen := [pr_eventId ?r]\<rparr>"
  have "receive_page 6 cx (Some demo_page) s2 = (Applying cx1 demo_page [?r], s2)"
    by (simp add: receive_page_def validateFederationPageProgress_def pr cx1_def cx_def) (simp add: demo_page_def)
  then have 3: "sync_step [''p''] (?net s2 (Working 1 [Fetching cx]) ?none) (?net s2 (Working 1 ([Fetching cx][0 := Applying cx1 demo_page [?r]])) (passed_kept s2 ?none))"
    by (intro response) simp_all
  have q2: "ps_cursors s2 = (\<lambda>_. None)" "ps_deferred s2 = []" "ps_forceReset s2 = {}" using f1 f2(1) by (simp_all add: queue_part_def)
  have c1: "cx_peer cx1 = ''p''" "cx_rejected cx1 = 0" "cx_page cx1 = 0" by (simp_all add: cx1_def cx_def)
  define s4 where "s4 = s2\<lparr>ps_applications := [pr_eventId ?r \<mapsto> 0], ps_promises := [\<lparr>ea_peer = ''p'', ea_event = pr_event ?r, ea_outcome = None\<rparr>]\<rparr>"
  have "next_record False 7 cx1 demo_page [?r] s2 = (AwaitShared cx1 demo_page ?r [] 0, s4)"
    by (simp add: next_record_def apply_start_def continue_apply_def q2 f2 c1 s4_def)
  then have 4: "sync_step [''p''] (?net s2 (Working 1 [Applying cx1 demo_page [?r]]) ?none)
      (?net s4 (Working 1 ([Applying cx1 demo_page [?r]][0 := AwaitShared cx1 demo_page ?r [] 0])) (if [?r] = [] then passed_after cx1 demo_page s4 ?none else passed_kept s4 ?none))"
    by (intro one_record) simp_all
  define s5 where "s5 = s4\<lparr>ps_promises := (ps_promises s4)[0 := (ps_promises s4 ! 0)\<lparr>ea_outcome := Some (Answered Deferred)\<rparr>]\<rparr>"
  have 5: "sync_step [''p''] (?net s4 (Working 1 [AwaitShared cx1 demo_page ?r [] 0]) ?none) (?net s5 (Working 1 [AwaitShared cx1 demo_page ?r [] 0]) ?none)"
    unfolding s5_def by (rule settle_promise) (simp_all add: s4_def)
  have f5: "ps_cursors s5 = (\<lambda>_. None)" "ps_deferred s5 = []" "ps_forceReset s5 = {}" "ps_applications s5 = [pr_eventId ?r \<mapsto> 0]"
    "ps_promises s5 = [\<lparr>ea_peer = ''p'', ea_event = pr_event ?r, ea_outcome = Some (Answered Deferred)\<rparr>]" "ps_rejectedThisSync s5 = (\<lambda>_. 0)"
    by (simp_all add: s5_def s4_def q2 f2)
  define s6 where "s6 = deferRecord 8 ?r ''p'' (s5\<lparr>ps_applications := (\<lambda>_. None)\<rparr>)"
  have f6: "ps_cursors s6 = (\<lambda>_. None)" "ps_forceReset s6 = {}"
    by (simp_all add: s6_def deferRecord_def f5 deferredCountForPeer_def MAX_DEFERRED_EVENTS_def MAX_DEFERRED_EVENTS_PER_PEER_def)
  have "after_shared False 8 cx1 demo_page ?r [] 0 (Answered Deferred) s5 = (Applying cx1 demo_page [], s6)"
    by (simp add: after_shared_def shared_done_def continue_apply_def record_done_def Let_def f5 c1 fun_upd_def f6(2) s6_def [symmetric] cong: if_cong)
  then have 6: "sync_step [''p''] (?net s5 (Working 1 [AwaitShared cx1 demo_page ?r [] 0]) ?none)
     \<lparr>sn_sync = s6, sn_phase = Working 1 ([AwaitShared cx1 demo_page ?r [] 0][0 := Applying cx1 demo_page []]),
      sn_answered = settles (Answered Deferred) (pr_eventId ?r) {}, sn_passed = passed_kept s6 ?none\<rparr>"
    by (intro shared) (simp_all add: f5)
  define s7 where "s7 = snd (next_record False 9 cx1 demo_page [] s6)"
  have n7: "next_record False 9 cx1 demo_page [] s6 = (Idle, s7)"
    by (simp add: s7_def next_record_def page_end_def finish_peer_def f6 c1 Let_def) (simp add: demo_page_def)
  then have c7: "ps_cursors s7 ''p'' = Some (demo_id @ '':1'')"
    by (auto simp: next_record_def page_end_def finish_peer_def f6 c1 Let_def demo_page_def)
  from n7 have 7: "sync_step [''p''] (?net s6 (Working 1 [Applying cx1 demo_page []]) ?none)
     (?net s7 (Working 1 ([Applying cx1 demo_page []][0 := Idle])) (if ([] :: peer_record list) = [] then passed_after cx1 demo_page s7 ?none else passed_kept s7 ?none))"
    by (intro one_record) simp_all
  let ?N = "?net s7 (Working 1 ([Applying cx1 demo_page []][0 := Idle])) (passed_after cx1 demo_page s7 ?none)"
  have "(sync_step [''p''])\<^sup>*\<^sup>* idle_net ?N"
    using 1 2 3 4 5 6 7 by (auto simp: k settles_def intro: rtranclp.rtrancl_into_rtrancl rtranclp.rtrancl_refl)
  then show ?thesis
    by (intro exI [of _ ?N]) (simp add: c7 passed_after_def c1 pr publicRecord_def demo_record_def)
qed

theorem no_event_skipped_witness:
  "\<exists>N d. (sync_step [''p''])\<^sup>*\<^sup>* idle_net N \<and> ps_cursors (sn_sync N) ''p'' \<noteq> None \<and> entry (demo_hash (CHR ''a'')) (sn_sync N) = Some d \<and>
     ''p'' \<in> set (de_sources d)"
proof -
  from demo_sync obtain N where N: "(sync_step [''p''])\<^sup>*\<^sup>* idle_net N" "ps_cursors (sn_sync N) ''p'' = Some (demo_id @ '':1'')" "sn_answered N = {}"
    "demo_hash (CHR ''a'') \<in> sn_passed N ''p''" by blast
  from no_event_skipped [OF N(1) _ _ N(4)] N show ?thesis by auto
qed

end
