(* ===== verification/Group_Commit.thy ===== *)
theory Group_Commit
  imports Prelude
begin

text \<open>
  Group commit of the order book (\<^verbatim>\<open>flush\<close>, \<^verbatim>\<open>persist\<close>, \<^verbatim>\<open>runCommits\<close> and
  \<^verbatim>\<open>failCommit\<close> of \<^verbatim>\<open>server/src/store.ts\<close>): every mutation of one event-loop turn shares one
  rewrite of the orders file and one batch of the federation feed, and a request handler reports
  success only when the promise it got from \<^verbatim>\<open>flush\<close> is resolved. The outcome of a write, what the
  observers call during a notification, and the rows and events themselves are inputs; a promise is a
  number, in the order they are handed out. Two fields observe the history: every state memory went through with the events it
  published, and how long that history was when a promise was handed out.
\<close>

section \<open>The commit loop\<close>

record ('b, 'e) commit_state =
  gc_orders :: 'b
  gc_pendingFederationEvents :: "'e list"
  gc_dirty :: bool
  gc_committing :: bool
  gc_commitFailure :: bool
  gc_runningCommitWaiters :: "nat list"
  gc_nextCommitWaiters :: "nat list"
  gc_resolved :: "nat list"
  gc_rejected :: "nat list"
  gc_file :: 'b
  gc_feed :: "'e list"
  gc_history :: "('b \<times> 'e list) list"
  gc_asked :: "nat list"

definition new_commits :: "'b \<Rightarrow> ('b, 'e) commit_state" where
  "new_commits b = \<lparr>gc_orders = b, gc_pendingFederationEvents = [], gc_dirty = False, gc_committing = False, gc_commitFailure = False,
     gc_runningCommitWaiters = [], gc_nextCommitWaiters = [], gc_resolved = [], gc_rejected = [], gc_file = b, gc_feed = [],
     gc_history = [], gc_asked = []\<rparr>"

definition startCommitLoop :: "('b, 'e) commit_state \<Rightarrow> ('b, 'e) commit_state" where
  "startCommitLoop s = s\<lparr>gc_committing := True\<rparr>"

definition persist_commit :: "('b, 'e) commit_state \<Rightarrow> ('b, 'e) commit_state" where
  "persist_commit s =
     (let s1 = s\<lparr>gc_dirty := True\<rparr> in
      if gc_committing s1 \<or> gc_commitFailure s1 then s1 else startCommitLoop s1)"

text \<open>One mutation of the book: its new rows, the events it publishes, and \<^verbatim>\<open>persist\<close>.\<close>

definition mutate :: "'b \<Rightarrow> 'e list \<Rightarrow> ('b, 'e) commit_state \<Rightarrow> ('b, 'e) commit_state" where
  "mutate b events s =
     persist_commit (s\<lparr>gc_orders := b, gc_pendingFederationEvents := gc_pendingFederationEvents s @ events,
       gc_history := gc_history s @ [(b, events)]\<rparr>)"

definition flush :: "('b, 'e) commit_state \<Rightarrow> ('b, 'e) commit_state" where
  "flush s0 =
     (let w = length (gc_asked s0); s = s0\<lparr>gc_asked := gc_asked s0 @ [length (gc_history s0)]\<rparr> in
      if gc_commitFailure s then s\<lparr>gc_rejected := w # gc_rejected s\<rparr>
      else if gc_dirty s then
        (let s1 = (if gc_committing s then s else startCommitLoop s)
         in s1\<lparr>gc_nextCommitWaiters := gc_nextCommitWaiters s1 @ [w]\<rparr>)
      else if gc_committing s then s\<lparr>gc_runningCommitWaiters := gc_runningCommitWaiters s @ [w]\<rparr>
      else s\<lparr>gc_resolved := w # gc_resolved s\<rparr>)"

definition hasUncommittedState :: "('b, 'e) commit_state \<Rightarrow> bool" where
  "hasUncommittedState s \<longleftrightarrow> gc_dirty s \<or> gc_committing s \<or> gc_commitFailure s"

definition failCommit :: "('b, 'e) commit_state \<Rightarrow> ('b, 'e) commit_state" where
  "failCommit s = s\<lparr>gc_commitFailure := True,
     gc_rejected := gc_runningCommitWaiters s @ gc_nextCommitWaiters s @ gc_rejected s,
     gc_runningCommitWaiters := [], gc_nextCommitWaiters := [], gc_pendingFederationEvents := []\<rparr>"

text \<open>
  What a write can do: succeed, fail before the orders file is replaced, fail when the directory is
  flushed after the replacement, or fail in the feed.
\<close>

datatype commit_outcome = Committed | SnapshotFailed | SnapshotUnsynced | FeedFailed

datatype ('b, 'e) call = Mutate 'b "'e list" | Flush

fun do_call :: "('b, 'e) call \<Rightarrow> ('b, 'e) commit_state \<Rightarrow> ('b, 'e) commit_state" where
  "do_call (Mutate b events) s = mutate b events s"
| "do_call Flush s = flush s"

definition write_commit :: "('b, 'e) commit_state \<Rightarrow> ('b, 'e) commit_state" where
  "write_commit s = s\<lparr>gc_dirty := False, gc_runningCommitWaiters := gc_nextCommitWaiters s, gc_nextCommitWaiters := [],
     gc_pendingFederationEvents := []\<rparr>"

definition settle_commit :: "('b, 'e) commit_state \<Rightarrow> ('b, 'e) commit_state" where
  "settle_commit s = s\<lparr>gc_resolved := gc_runningCommitWaiters s @ gc_resolved s, gc_runningCommitWaiters := []\<rparr>"

text \<open>One turn of the loop, with what the observers of the notification call.\<close>

definition commit_once :: "commit_outcome \<Rightarrow> ('b, 'e) call list \<Rightarrow> ('b, 'e) commit_state \<Rightarrow> ('b, 'e) commit_state" where
  "commit_once outcome calls s =
     (let events = gc_pendingFederationEvents s; s1 = write_commit s; s2 = s1\<lparr>gc_file := gc_orders s\<rparr> in
      if outcome = SnapshotFailed then failCommit s1
      else if outcome = SnapshotUnsynced \<or> outcome = FeedFailed \<and> events \<noteq> [] then failCommit s2
      else settle_commit (fold do_call calls (s2\<lparr>gc_feed := gc_feed s2 @ events\<rparr>)))"

text \<open>The loop runs while memory is ahead; \<open>None\<close> when it needs more turns than \<open>env\<close> has.\<close>

fun runCommits :: "(commit_outcome \<times> ('b, 'e) call list) list \<Rightarrow> ('b, 'e) commit_state \<Rightarrow> ('b, 'e) commit_state option" where
  "runCommits [] s = (if gc_dirty s \<and> \<not> gc_commitFailure s then None else Some (s\<lparr>gc_committing := False\<rparr>))"
| "runCommits ((outcome, calls) # env) s =
     (if gc_dirty s \<and> \<not> gc_commitFailure s then runCommits env (commit_once outcome calls s) else Some (s\<lparr>gc_committing := False\<rparr>))"

inductive commit_reach :: "'b \<Rightarrow> ('b, 'e) commit_state \<Rightarrow> bool" for b0 where
  start: "commit_reach b0 (new_commits b0)"
| request: "commit_reach b0 s \<Longrightarrow> commit_reach b0 (do_call c s)"
| turn: "commit_reach b0 s \<Longrightarrow> gc_committing s \<Longrightarrow> runCommits env s = Some s' \<Longrightarrow> commit_reach b0 s'"


section \<open>What is on disk\<close>

definition state_at :: "'b \<Rightarrow> ('b, 'e) commit_state \<Rightarrow> nat \<Rightarrow> 'b" where
  "state_at b0 s k = (if k = 0 then b0 else fst (gc_history s ! (k - 1)))"

definition events_at :: "('b, 'e) commit_state \<Rightarrow> nat \<Rightarrow> 'e list" where
  "events_at s k = concat (map snd (take k (gc_history s)))"

text \<open>The file and the feed hold the first \<open>k\<close> mutations.\<close>

definition on_disk :: "'b \<Rightarrow> ('b, 'e) commit_state \<Rightarrow> nat \<Rightarrow> bool" where
  "on_disk b0 s k \<longleftrightarrow> k \<le> length (gc_history s) \<and> gc_file s = state_at b0 s k \<and> gc_feed s = events_at s k"

text \<open>
  The invariant, with \<open>k\<close> mutations committed: a resolved promise was asked for when at most \<open>k\<close> had
  happened, and so was one of the running batch. Once a commit failed, the file may be one batch ahead
  of the feed.
\<close>

definition asked_by :: "('b, 'e) commit_state \<Rightarrow> nat list \<Rightarrow> nat \<Rightarrow> bool" where
  "asked_by s ws k \<longleftrightarrow> (\<forall>w\<in>set ws. w < length (gc_asked s) \<and> gc_asked s ! w \<le> k)"

definition promises_ok :: "('b, 'e) commit_state \<Rightarrow> bool" where
  "promises_ok s \<longleftrightarrow> (\<forall>n\<in>set (gc_asked s). n \<le> length (gc_history s)) \<and>
     {..<length (gc_asked s)} = set (gc_resolved s) \<union> set (gc_rejected s) \<union> set (gc_runningCommitWaiters s) \<union> set (gc_nextCommitWaiters s)"

definition failed_inv :: "'b \<Rightarrow> ('b, 'e) commit_state \<Rightarrow> nat \<Rightarrow> bool" where
  "failed_inv b0 s k \<longleftrightarrow> k \<le> length (gc_history s) \<and> gc_feed s = events_at s k \<and>
     (\<exists>j\<ge>k. j \<le> length (gc_history s) \<and> gc_file s = state_at b0 s j) \<and> gc_runningCommitWaiters s = [] \<and> gc_nextCommitWaiters s = []"

definition healthy_inv :: "'b \<Rightarrow> ('b, 'e) commit_state \<Rightarrow> nat \<Rightarrow> bool" where
  "healthy_inv b0 s k \<longleftrightarrow> on_disk b0 s k \<and> gc_feed s @ gc_pendingFederationEvents s = events_at s (length (gc_history s)) \<and>
     asked_by s (gc_runningCommitWaiters s) k \<and> (gc_dirty s \<longrightarrow> gc_committing s) \<and>
     (\<not> gc_dirty s \<longrightarrow> k = length (gc_history s) \<and> gc_nextCommitWaiters s = [])"

definition commit_inv :: "'b \<Rightarrow> ('b, 'e) commit_state \<Rightarrow> nat \<Rightarrow> bool" where
  "commit_inv b0 s k \<longleftrightarrow> gc_orders s = state_at b0 s (length (gc_history s)) \<and> asked_by s (gc_resolved s) k \<and> promises_ok s \<and>
     (if gc_commitFailure s then failed_inv b0 s k else healthy_inv b0 s k)"

text \<open>Between two turns of the loop nobody waits for a running commit.\<close>

definition between_turns :: "('b, 'e) commit_state \<Rightarrow> bool" where
  "between_turns s \<longleftrightarrow> gc_runningCommitWaiters s = [] \<and> (gc_committing s \<longrightarrow> gc_dirty s \<or> gc_commitFailure s)"

lemma state_at_grow: "k \<le> length (gc_history s) \<Longrightarrow> gc_history s' = gc_history s @ xs \<Longrightarrow> state_at b0 s' k = state_at b0 s k"
  by (cases k) (simp_all add: state_at_def nth_append)

lemma events_at_grow: "k \<le> length (gc_history s) \<Longrightarrow> gc_history s' = gc_history s @ xs \<Longrightarrow> events_at s' k = events_at s k"
  by (simp add: events_at_def)

lemma mutate_fields:
  "gc_history (mutate b es s) = gc_history s @ [(b, es)]" "gc_orders (mutate b es s) = b" "gc_dirty (mutate b es s)"
  "gc_pendingFederationEvents (mutate b es s) = gc_pendingFederationEvents s @ es" "gc_commitFailure (mutate b es s) = gc_commitFailure s"
  "gc_committing (mutate b es s) \<longleftrightarrow> gc_committing s \<or> \<not> gc_commitFailure s"
  "gc_runningCommitWaiters (mutate b es s) = gc_runningCommitWaiters s" "gc_nextCommitWaiters (mutate b es s) = gc_nextCommitWaiters s"
  "gc_resolved (mutate b es s) = gc_resolved s" "gc_rejected (mutate b es s) = gc_rejected s" "gc_asked (mutate b es s) = gc_asked s"
  "gc_file (mutate b es s) = gc_file s" "gc_feed (mutate b es s) = gc_feed s"
  by (auto simp: mutate_def persist_commit_def startCommitLoop_def Let_def)

lemma mutate_inv:
  assumes "commit_inv b0 s k"
  shows "commit_inv b0 (mutate b es s) k"
proof -
  let ?s = "mutate b es s"
  note h = mutate_fields(1) [of b es s]
  have at: "state_at b0 ?s j = state_at b0 s j" "events_at ?s j = events_at s j" if "j \<le> length (gc_history s)" for j
    using that h by (rule state_at_grow, rule events_at_grow)
  have all: "events_at ?s (length (gc_history ?s)) = events_at s (length (gc_history s)) @ es"
    "state_at b0 ?s (length (gc_history ?s)) = b" by (simp_all add: events_at_def state_at_def h)
  have p: "promises_ok ?s" using assms by (auto simp: commit_inv_def promises_ok_def mutate_fields)
  have a: "asked_by ?s ws j = asked_by s ws j" for ws j by (simp add: asked_by_def mutate_fields)
  show ?thesis
  proof (cases "gc_commitFailure s")
    case True
    with assms have "failed_inv b0 s k" by (simp add: commit_inv_def)
    then have "failed_inv b0 ?s k" using at by (auto simp: failed_inv_def mutate_fields)
    with True assms p a all show ?thesis by (simp add: commit_inv_def mutate_fields)
  next
    case False
    with assms have hi: "healthy_inv b0 s k" by (simp add: commit_inv_def)
    then have "on_disk b0 ?s k" using at by (simp add: healthy_inv_def on_disk_def mutate_fields)
    with hi have "healthy_inv b0 ?s k" unfolding healthy_inv_def all a by (simp add: mutate_fields False)
    with False assms p a all show ?thesis by (simp add: commit_inv_def mutate_fields)
  qed
qed

lemma flush_frame:
  "gc_history (flush s) = gc_history s" "gc_orders (flush s) = gc_orders s" "gc_dirty (flush s) = gc_dirty s" "gc_file (flush s) = gc_file s"
  "gc_feed (flush s) = gc_feed s" "gc_commitFailure (flush s) = gc_commitFailure s" "gc_pendingFederationEvents (flush s) = gc_pendingFederationEvents s"
  "gc_asked (flush s) = gc_asked s @ [length (gc_history s)]"
  by (simp_all add: flush_def Let_def startCommitLoop_def)

lemma asked_by_flush: "asked_by s ws k \<Longrightarrow> asked_by (flush s) ws k"
  by (auto simp: asked_by_def flush_frame nth_append)

lemma flush_inv:
  assumes "commit_inv b0 s k"
  shows "commit_inv b0 (flush s) k"
proof -
  let ?s = "flush s" and ?w = "length (gc_asked s)"
  have at: "state_at b0 ?s j = state_at b0 s j" "events_at ?s j = events_at s j" for j
    by (simp_all add: state_at_def events_at_def flush_frame)
  have mine: "asked_by ?s [?w] k" if "k = length (gc_history s)" using that by (simp add: asked_by_def flush_frame)
  have pr: "promises_ok s" "asked_by ?s (gc_resolved s) k" using assms asked_by_flush by (auto simp: commit_inv_def)
  have ps: "promises_ok ?s" using pr(1) by (auto simp: promises_ok_def flush_def Let_def startCommitLoop_def lessThan_Suc)
  show ?thesis
  proof (cases "gc_commitFailure s")
    case True
    have "failed_inv b0 ?s k" using assms True by (simp add: commit_inv_def failed_inv_def at flush_frame) (simp add: flush_def Let_def)
    moreover have "gc_resolved ?s = gc_resolved s" using True by (simp add: flush_def Let_def)
    ultimately show ?thesis using assms True ps pr(2) by (simp add: commit_inv_def flush_frame at)
  next
    case ok: False
    with assms have hi: "healthy_inv b0 s k" by (simp add: commit_inv_def)
    then have d: "on_disk b0 ?s k" "gc_feed ?s @ gc_pendingFederationEvents ?s = events_at ?s (length (gc_history ?s))"
      "asked_by ?s (gc_runningCommitWaiters s) k"
      using asked_by_flush by (auto simp: healthy_inv_def on_disk_def at flush_frame)
    show ?thesis
    proof (cases "gc_dirty s")
      case True
      with ok hi have c: "gc_committing s" by (simp add: healthy_inv_def)
      then have f: "?s = s\<lparr>gc_asked := gc_asked s @ [length (gc_history s)], gc_nextCommitWaiters := gc_nextCommitWaiters s @ [?w]\<rparr>"
        using ok True by (simp add: flush_def Let_def)
      have "healthy_inv b0 ?s k" using d True c unfolding healthy_inv_def by (simp add: f)
      with ok assms ps pr(2) show ?thesis by (simp add: commit_inv_def flush_frame at) (simp add: f)
    next
      case False
      with ok hi have k: "k = length (gc_history s)" and n: "gc_nextCommitWaiters s = []" by (simp_all add: healthy_inv_def)
      show ?thesis
      proof (cases "gc_committing s")
        case True
        then have f: "?s = s\<lparr>gc_asked := gc_asked s @ [length (gc_history s)], gc_runningCommitWaiters := gc_runningCommitWaiters s @ [?w]\<rparr>"
          using ok False by (simp add: flush_def Let_def)
        have "asked_by ?s (gc_runningCommitWaiters ?s) k" using d(3) mine [OF k] by (simp add: asked_by_def f)
        with d False k n have "healthy_inv b0 ?s k" unfolding healthy_inv_def by (simp add: f)
        with ok assms ps pr(2) show ?thesis by (simp add: commit_inv_def flush_frame at) (simp add: f)
      next
        case idle: False
        then have f: "?s = s\<lparr>gc_asked := gc_asked s @ [length (gc_history s)], gc_resolved := ?w # gc_resolved s\<rparr>"
          using ok False by (simp add: flush_def Let_def)
        have "healthy_inv b0 ?s k" using d False k n unfolding healthy_inv_def by (simp add: f)
        moreover have "asked_by ?s (gc_resolved ?s) k" using pr(2) mine [OF k] by (simp add: asked_by_def f)
        ultimately show ?thesis using ok assms ps by (simp add: commit_inv_def flush_frame at)
      qed
    qed
  qed
qed

lemma calls_inv: "commit_inv b0 s k \<Longrightarrow> commit_inv b0 (fold do_call calls s) k"
proof (induction calls arbitrary: s)
  case (Cons c calls)
  have "commit_inv b0 (do_call c s) k" using mutate_inv [OF Cons.prems] flush_inv [OF Cons.prems] by (cases c) simp_all
  with Cons.IH show ?case by simp
qed simp

lemma asked_bound: "promises_ok s \<Longrightarrow> w \<in> set (gc_nextCommitWaiters s) \<Longrightarrow> w < length (gc_asked s) \<and> gc_asked s ! w \<le> length (gc_history s)"
  by (auto simp: promises_ok_def) (metis Un_iff lessThan_iff nth_mem)+

text \<open>The state while a batch is being committed, and after it.\<close>

lemma failCommit_inv:
  assumes "commit_inv b0 s k" "between_turns s" "\<not> gc_commitFailure s" "f = gc_file s \<or> f = gc_orders s"
  shows "commit_inv b0 (failCommit ((write_commit s)\<lparr>gc_file := f\<rparr>)) k \<and> gc_commitFailure (failCommit ((write_commit s)\<lparr>gc_file := f\<rparr>)) \<and>
    gc_runningCommitWaiters (failCommit ((write_commit s)\<lparr>gc_file := f\<rparr>)) = []"
proof -
  let ?s = "failCommit ((write_commit s)\<lparr>gc_file := f\<rparr>)"
  have hi: "healthy_inv b0 s k" and o: "gc_orders s = state_at b0 s (length (gc_history s))" using assms(1,3) by (auto simp: commit_inv_def)
  have at: "state_at b0 ?s = state_at b0 s" "events_at ?s = events_at s"
    by (simp_all add: fun_eq_iff state_at_def events_at_def failCommit_def write_commit_def)
  have f: "gc_history ?s = gc_history s" "gc_feed ?s = gc_feed s" "gc_file ?s = f" "gc_runningCommitWaiters ?s = []" "gc_nextCommitWaiters ?s = []"
    "gc_commitFailure ?s" "gc_orders ?s = gc_orders s" "gc_resolved ?s = gc_resolved s" "gc_asked ?s = gc_asked s"
    "gc_rejected ?s = gc_nextCommitWaiters s @ gc_rejected s"
    by (simp_all add: failCommit_def write_commit_def)
  have kd: "k \<le> length (gc_history s)" "gc_feed s = events_at s k" "gc_file s = state_at b0 s k" using hi by (simp_all add: healthy_inv_def on_disk_def)
  then have "\<exists>j\<ge>k. j \<le> length (gc_history s) \<and> f = state_at b0 s j" using assms(4) o by auto
  then have "failed_inv b0 ?s k" using kd by (simp add: failed_inv_def at f)
  moreover have "promises_ok ?s" using assms(1,2) by (auto simp: commit_inv_def promises_ok_def f between_turns_def)
  ultimately show ?thesis using assms(1) o by (simp add: commit_inv_def f at asked_by_def)
qed

lemma written_inv:
  assumes "commit_inv b0 s k" "between_turns s" "\<not> gc_commitFailure s" "gc_committing s"
  defines "s1 \<equiv> (write_commit s)\<lparr>gc_file := gc_orders s, gc_feed := gc_feed s @ gc_pendingFederationEvents s\<rparr>"
  shows "commit_inv b0 s1 (length (gc_history s)) \<and> k \<le> length (gc_history s)"
proof -
  let ?n = "length (gc_history s)"
  have hi: "healthy_inv b0 s k" and o: "gc_orders s = state_at b0 s ?n" and p: "promises_ok s" and r: "asked_by s (gc_resolved s) k"
    using assms(1,3) by (auto simp: commit_inv_def)
  have at: "state_at b0 s1 = state_at b0 s" "events_at s1 = events_at s"
    by (simp_all add: fun_eq_iff state_at_def events_at_def s1_def write_commit_def)
  have k: "k \<le> ?n" using hi by (simp add: healthy_inv_def on_disk_def)
  have f: "gc_history s1 = gc_history s" "gc_file s1 = gc_orders s" "gc_feed s1 = gc_feed s @ gc_pendingFederationEvents s" "\<not> gc_dirty s1"
    "gc_runningCommitWaiters s1 = gc_nextCommitWaiters s" "gc_nextCommitWaiters s1 = []" "gc_orders s1 = gc_orders s" "gc_pendingFederationEvents s1 = []"
    "gc_resolved s1 = gc_resolved s" "gc_rejected s1 = gc_rejected s" "gc_asked s1 = gc_asked s" "\<not> gc_commitFailure s1"
    using assms(3) by (simp_all add: s1_def write_commit_def)
  have "asked_by s (gc_nextCommitWaiters s) ?n" using asked_bound [OF p] by (auto simp: asked_by_def)
  then have "asked_by s1 (gc_runningCommitWaiters s1) ?n" by (simp add: asked_by_def f)
  moreover have "gc_feed s1 = events_at s ?n" using hi by (simp add: healthy_inv_def f)
  ultimately have "healthy_inv b0 s1 ?n" using o by (simp add: healthy_inv_def on_disk_def f at)
  moreover have "promises_ok s1" using p assms(2) by (auto simp: promises_ok_def f between_turns_def)
  moreover have "asked_by s1 (gc_resolved s1) ?n" using r k by (auto simp: asked_by_def f)
  ultimately show ?thesis using o k by (simp add: commit_inv_def f at)
qed

lemma calls_frame:
  assumes "gc_committing s" "\<not> gc_commitFailure s"
  shows "gc_committing (fold do_call calls s) \<and> \<not> gc_commitFailure (fold do_call calls s)"
  using assms
proof (induction calls arbitrary: s)
  case (Cons c calls)
  have "gc_committing (do_call c s) \<and> \<not> gc_commitFailure (do_call c s)"
    using Cons.prems by (cases c) (simp_all add: mutate_fields flush_frame, simp add: flush_def Let_def)
  with Cons.IH show ?case by simp
qed simp

lemma settle_inv:
  assumes "commit_inv b0 s k" "\<not> gc_commitFailure s" "gc_committing s"
  shows "commit_inv b0 (settle_commit s) k"
proof -
  have at: "state_at b0 (settle_commit s) = state_at b0 s" "events_at (settle_commit s) = events_at s"
    by (simp_all add: fun_eq_iff state_at_def events_at_def settle_commit_def)
  have a: "asked_by (settle_commit s) ws j = asked_by s ws j" for ws j by (simp add: asked_by_def settle_commit_def)
  have "promises_ok (settle_commit s)" using assms(1) by (auto simp: commit_inv_def promises_ok_def settle_commit_def)
  with assms show ?thesis
    by (auto simp: commit_inv_def healthy_inv_def on_disk_def at a) (auto simp: settle_commit_def asked_by_def)
qed

lemma commit_once_inv:
  assumes "commit_inv b0 s k" "between_turns s" "\<not> gc_commitFailure s" "gc_committing s"
  shows "\<exists>k'\<ge>k. commit_inv b0 (commit_once outcome calls s) k' \<and> gc_runningCommitWaiters (commit_once outcome calls s) = []"
proof -
  have same: "(write_commit s)\<lparr>gc_file := gc_file s\<rparr> = write_commit s" by (simp add: write_commit_def)
  let ?s1 = "(write_commit s)\<lparr>gc_file := gc_orders s, gc_feed := gc_feed s @ gc_pendingFederationEvents s\<rparr>"
  let ?s2 = "fold do_call calls ?s1"
  consider "commit_once outcome calls s = failCommit ((write_commit s)\<lparr>gc_file := gc_file s\<rparr>)"
    | "commit_once outcome calls s = failCommit ((write_commit s)\<lparr>gc_file := gc_orders s\<rparr>)"
    | "commit_once outcome calls s = settle_commit ?s2"
    proof (cases "outcome = SnapshotFailed \<or> outcome = SnapshotUnsynced \<or> outcome = FeedFailed \<and> gc_pendingFederationEvents s \<noteq> []")
      case True
      have "commit_once SnapshotFailed calls s = failCommit (write_commit s)" by (simp add: commit_once_def Let_def)
      moreover have "commit_once outcome calls s = failCommit ((write_commit s)\<lparr>gc_file := gc_orders s\<rparr>)" if "outcome \<noteq> SnapshotFailed"
        using that True by (simp add: commit_once_def Let_def)
      ultimately show ?thesis using that(1,2) unfolding same by metis
    next
      case False
      have "gc_feed (write_commit s) = gc_feed s" by (simp add: write_commit_def)
      with False have "commit_once outcome calls s = settle_commit ?s2" by (auto simp: commit_once_def Let_def)
      then show ?thesis by (rule that(3))
    qed
  then show ?thesis
  proof cases
    case 1
    with failCommit_inv [OF assms(1-3), of "gc_file s"] show ?thesis by (intro exI [of _ k]) simp
  next
    case 2
    with failCommit_inv [OF assms(1-3), of "gc_orders s"] show ?thesis by (intro exI [of _ k]) simp
  next
    case 3
    from written_inv [OF assms] have w: "commit_inv b0 ?s1 (length (gc_history s))" "k \<le> length (gc_history s)" by auto
    have "gc_committing ?s2 \<and> \<not> gc_commitFailure ?s2" using assms(3,4) by (intro calls_frame) (simp_all add: write_commit_def)
    with settle_inv [OF calls_inv [OF w(1)]] w(2) 3 show ?thesis
      by (intro exI [of _ "length (gc_history s)"]) (simp add: settle_commit_def)
  qed
qed

lemma idle_inv:
  assumes "commit_inv b0 s k" "gc_runningCommitWaiters s = []" "\<not> gc_dirty s \<or> gc_commitFailure s"
  shows "commit_inv b0 (s\<lparr>gc_committing := False\<rparr>) k \<and> between_turns (s\<lparr>gc_committing := False\<rparr>)"
proof -
  let ?s = "s\<lparr>gc_committing := False\<rparr>"
  have at: "state_at b0 ?s = state_at b0 s" "events_at ?s = events_at s" by (simp_all add: fun_eq_iff state_at_def events_at_def)
  have a: "asked_by ?s ws j = asked_by s ws j" for ws j by (simp add: asked_by_def)
  have "promises_ok ?s = promises_ok s" by (simp add: promises_ok_def)
  with assms show ?thesis
    by (auto simp: commit_inv_def healthy_inv_def failed_inv_def on_disk_def at a between_turns_def)
qed

lemma commit_once_committing: "gc_committing s \<Longrightarrow> \<not> gc_commitFailure s \<Longrightarrow> gc_committing (commit_once outcome calls s)"
  using calls_frame [of "(write_commit s)\<lparr>gc_file := gc_orders s, gc_feed := gc_feed s @ gc_pendingFederationEvents s\<rparr>" calls]
  by (simp add: commit_once_def Let_def failCommit_def write_commit_def settle_commit_def)

lemma runCommits_inv:
  assumes "commit_inv b0 s k" "gc_runningCommitWaiters s = []" "gc_committing s" "runCommits env s = Some s'"
  shows "\<exists>k'\<ge>k. commit_inv b0 s' k' \<and> between_turns s' \<and> \<not> gc_committing s'"
  using assms
proof (induction env s arbitrary: k rule: runCommits.induct)
  case (1 s)
  then show ?case using idle_inv [OF 1(1,2)] by (intro exI [of _ k]) (auto split: if_splits)
next
  case (2 outcome calls env s)
  show ?case
  proof (cases "gc_dirty s \<and> \<not> gc_commitFailure s")
    case False
    with 2(5) idle_inv [OF 2(2,3)] show ?thesis by (intro exI [of _ k]) auto
  next
    case True
    have bt: "between_turns s" using 2(3) True by (simp add: between_turns_def)
    from commit_once_inv [OF 2(2) bt _ 2(4), of outcome calls] True obtain k1 where
      k1: "k \<le> k1" "commit_inv b0 (commit_once outcome calls s) k1" "gc_runningCommitWaiters (commit_once outcome calls s) = []" by auto
    from 2(1) [OF True k1(2,3) commit_once_committing] True 2(4,5) obtain k' where
      "k1 \<le> k'" "commit_inv b0 s' k' \<and> between_turns s' \<and> \<not> gc_committing s'" by auto
    with k1(1) show ?thesis by (meson le_trans)
  qed
qed

lemma between_turns_call: "between_turns s \<Longrightarrow> between_turns (do_call c s)"
proof (cases c)
  case (Mutate b es)
  then show "between_turns s \<Longrightarrow> ?thesis" by (simp add: between_turns_def mutate_fields)
next
  case Flush
  then show "between_turns s \<Longrightarrow> ?thesis" by (auto simp: between_turns_def flush_def Let_def startCommitLoop_def)
qed

lemma commit_reach_inv: "commit_reach b0 s \<Longrightarrow> between_turns s \<and> (\<exists>k. commit_inv b0 s k)"
proof (induction rule: commit_reach.induct)
  case start
  have "commit_inv b0 (new_commits b0) 0"
    by (simp add: commit_inv_def new_commits_def healthy_inv_def on_disk_def state_at_def events_at_def asked_by_def promises_ok_def)
  then show ?case by (auto simp: between_turns_def new_commits_def)
next
  case (request s c)
  then obtain k where "commit_inv b0 s k" by auto
  then have "commit_inv b0 (do_call c s) k" using calls_inv [of b0 s k "[c]"] by simp
  then show ?case using between_turns_call request by blast
next
  case (turn s env s')
  then obtain k where k: "commit_inv b0 s k" "between_turns s" by auto
  then have "gc_runningCommitWaiters s = []" by (simp add: between_turns_def)
  from runCommits_inv [OF k(1) this turn(2,3)] show ?case by auto
qed

lemma calls_flush_dirty: "set calls \<subseteq> {Flush} \<Longrightarrow> gc_dirty (fold do_call calls s) = gc_dirty s"
  by (induction calls arbitrary: s) (auto simp: flush_frame)

lemma quiet_turn:
  assumes "set calls \<subseteq> {Flush}"
  shows "\<not> gc_dirty (commit_once outcome calls s) \<or> gc_commitFailure (commit_once outcome calls s)"
  using calls_flush_dirty [OF assms, of "(write_commit s)\<lparr>gc_file := gc_orders s, gc_feed := gc_feed s @ gc_pendingFederationEvents s\<rparr>"]
  by (simp add: commit_once_def Let_def failCommit_def settle_commit_def write_commit_def)

lemma runCommits_ends: "set calls \<subseteq> {Flush} \<Longrightarrow> \<exists>s'. runCommits (env @ [(outcome, calls)]) s = Some s'"
proof (induction env arbitrary: s)
  case Nil
  then show ?case using quiet_turn [OF Nil, of outcome s] by auto
next
  case (Cons e env)
  then show ?case by (cases e) auto
qed

lemma settled_when_idle:
  assumes "commit_inv b0 s k" "between_turns s" "\<not> gc_committing s"
  shows "{..<length (gc_asked s)} = set (gc_resolved s) \<union> set (gc_rejected s)"
proof -
  have "gc_nextCommitWaiters s = []"
    using assms by (cases "gc_commitFailure s") (auto simp: commit_inv_def failed_inv_def healthy_inv_def)
  then show ?thesis using assms by (simp add: commit_inv_def promises_ok_def between_turns_def)
qed


section \<open>What a handler may report\<close>

text \<open>
  C12: a receipt is durable. In every state the store can reach, whatever order of mutations, flushes,
  commits and failed writes led there, a resolved promise that was handed out after \<open>n\<close> mutations
  means that the federation feed holds exactly the events of the first \<open>k\<close> mutations, in order, for
  some \<open>k \<ge> n\<close>, and the orders file the state after mutation \<open>j \<ge> k\<close>. File and feed differ only after
  a commit failed between the two writes.
\<close>

theorem receipt_is_durable:
  assumes "commit_reach b0 s" "w \<in> set (gc_resolved s)"
  shows "\<exists>k j. gc_asked s ! w \<le> k \<and> k \<le> j \<and> j \<le> length (gc_history s) \<and> gc_feed s = events_at s k \<and>
    gc_file s = state_at b0 s j \<and> (\<not> gc_commitFailure s \<longrightarrow> j = k)"
proof -
  from commit_reach_inv [OF assms(1)] obtain k where k: "commit_inv b0 s k" by auto
  then have a: "gc_asked s ! w \<le> k" using assms(2) by (auto simp: commit_inv_def asked_by_def)
  show ?thesis
  proof (cases "gc_commitFailure s")
    case True
    with k a show ?thesis by (auto simp: commit_inv_def failed_inv_def)
  next
    case False
    with k have "on_disk b0 s k" by (simp add: commit_inv_def healthy_inv_def)
    with a False show ?thesis by (auto simp: on_disk_def)
  qed
qed

definition demo_commit :: "(nat, string) commit_state" where
  "demo_commit = the (runCommits [(Committed, [Flush, Mutate 2 [''fill'']]), (FeedFailed, [])] (do_call Flush (do_call (Mutate 1 [''order'']) (new_commits 0))))"

lemma demo_commit_eq:
  "demo_commit = \<lparr>gc_orders = 2, gc_pendingFederationEvents = [], gc_dirty = False, gc_committing = False, gc_commitFailure = True,
     gc_runningCommitWaiters = [], gc_nextCommitWaiters = [], gc_resolved = [0, 1], gc_rejected = [], gc_file = 2, gc_feed = [''order''],
     gc_history = [(1, [''order'']), (2, [''fill''])], gc_asked = [1, 1]\<rparr>"
  by code_simp

lemma demo_commit_reach: "commit_reach 0 demo_commit"
proof -
  let ?s = "do_call Flush (do_call (Mutate 1 [''order'']) (new_commits (0::nat)))"
  have "runCommits [(Committed, [Flush, Mutate 2 [''fill'']]), (FeedFailed, [])] ?s = Some demo_commit" by code_simp
  moreover have "gc_committing ?s" by code_simp
  ultimately show ?thesis by (rule commit_reach.turn [rotated 2, OF _ commit_reach.request [OF commit_reach.request [OF commit_reach.start]]])
qed

lemma receipt_is_durable_witness:
  "\<exists>k j. gc_asked demo_commit ! 0 \<le> k \<and> k \<le> j \<and> j \<le> length (gc_history demo_commit) \<and> gc_feed demo_commit = events_at demo_commit k \<and>
    gc_file demo_commit = state_at 0 demo_commit j \<and> (\<not> gc_commitFailure demo_commit \<longrightarrow> j = k)"
  by (rule receipt_is_durable [OF demo_commit_reach]) (simp add: demo_commit_eq)

text \<open>
  C13: no handler waits for ever. Once a commit is scheduled, the loop ends as soon as the observers of
  one notification change nothing, whatever they did in the turns before and whatever the writes
  return, and then every promise ever handed out has been resolved or rejected.
\<close>

theorem every_promise_settles:
  assumes "commit_reach b0 s" "gc_committing s" "set calls \<subseteq> {Flush}"
  shows "\<exists>s'. runCommits (env @ [(outcome, calls)]) s = Some s' \<and> \<not> gc_committing s' \<and>
    {..<length (gc_asked s')} = set (gc_resolved s') \<union> set (gc_rejected s')"
proof -
  from runCommits_ends [OF assms(3)] obtain s' where r: "runCommits (env @ [(outcome, calls)]) s = Some s'" by blast
  from commit_reach_inv [OF assms(1)] obtain k where k: "commit_inv b0 s k" "gc_runningCommitWaiters s = []"
    by (auto simp: between_turns_def)
  from runCommits_inv [OF k assms(2) r] obtain k' where
    i: "commit_inv b0 s' k'" "between_turns s'" "\<not> gc_committing s'" by auto
  from r i(3) settled_when_idle [OF i] show ?thesis by (intro exI [of _ s'] conjI)
qed

lemma every_promise_settles_witness:
  "\<exists>s'. runCommits ([(Committed, [Mutate 2 [''fill'']])] @ [(SnapshotFailed, [Flush])]) (do_call (Mutate 1 [''order'']) (new_commits (0::nat))) = Some s' \<and>
    \<not> gc_committing s' \<and> {..<length (gc_asked s')} = set (gc_resolved s') \<union> set (gc_rejected s')"
proof (rule every_promise_settles)
  show "commit_reach 0 (do_call (Mutate 1 [''order'']) (new_commits (0::nat)))" by (intro commit_reach.intros)
qed (code_simp, simp)

end
