(* ===== verification/Book_Load.thy ===== *)
theory Book_Load
  imports Book_Authority Protocol_Wire
begin

text \<open>
  The orders file of \<^verbatim>\<open>server/src/store.ts\<close>: the rows \<^verbatim>\<open>writeSnapshot\<close> writes, and \<^verbatim>\<open>load\<close> with
  \<^verbatim>\<open>hydratePersistedOrder\<close>, which trusts nothing it reads: every field is checked for its shape, every
  proof is verified again, and a file with one bad row is refused as a whole. \<^verbatim>\<open>JSON.parse\<close> undoes
  \<^verbatim>\<open>JSON.stringify\<close> on the values written, so a file is its JSON value; reading it is an outcome.
\<close>

section \<open>Fields\<close>

definition invalidPersisted :: "nat \<Rightarrow> string \<Rightarrow> 'a api" where
  "invalidPersisted index field = Inl (PlainError (''persisted order '' @ show_nat index @ '' has an invalid '' @ field))"

definition matchingString :: "jobj \<Rightarrow> nat \<Rightarrow> string \<Rightarrow> (string \<Rightarrow> bool) \<Rightarrow> string api" where
  "matchingString row index field pattern =
     (case map_of row field of
        Some (JStr s) \<Rightarrow> if pattern s then Inr s else invalidPersisted index field
      | _ \<Rightarrow> invalidPersisted index field)"

definition optionalMatchingString :: "jobj \<Rightarrow> nat \<Rightarrow> string \<Rightarrow> (string \<Rightarrow> bool) \<Rightarrow> string option api" where
  "optionalMatchingString row index field pattern =
     (case map_of row field of None \<Rightarrow> Inr None
      | Some v \<Rightarrow> (case v of JStr s \<Rightarrow> if pattern s then Inr (Some s) else invalidPersisted index field
          | _ \<Rightarrow> invalidPersisted index field))"

definition nullableMatchingString :: "jobj \<Rightarrow> nat \<Rightarrow> string \<Rightarrow> (string \<Rightarrow> bool) \<Rightarrow> string option api" where
  "nullableMatchingString row index field pattern =
     (case map_of row field of
        Some JNull \<Rightarrow> Inr None
      | Some (JStr s) \<Rightarrow> if pattern s then Inr (Some s) else invalidPersisted index field
      | _ \<Rightarrow> invalidPersisted index field)"

definition safeInteger :: "jobj \<Rightarrow> nat \<Rightarrow> string \<Rightarrow> int api" where
  "safeInteger row index field =
     (case map_of row field of
        Some (JInt n) \<Rightarrow> if isSafeInteger n \<and> 0 \<le> n then Inr n else invalidPersisted index field
      | _ \<Rightarrow> invalidPersisted index field)"

definition optionalSafeInteger :: "jobj \<Rightarrow> nat \<Rightarrow> string \<Rightarrow> int option api" where
  "optionalSafeInteger row index field =
     (case map_of row field of None \<Rightarrow> Inr None | Some _ \<Rightarrow> js_bind (safeInteger row index field) (\<lambda>n. Inr (Some n)))"

definition nullableSafeInteger :: "jobj \<Rightarrow> nat \<Rightarrow> string \<Rightarrow> int option api" where
  "nullableSafeInteger row index field =
     (case map_of row field of Some JNull \<Rightarrow> Inr None | _ \<Rightarrow> js_bind (safeInteger row index field) (\<lambda>n. Inr (Some n)))"

definition persistedObject :: "json \<Rightarrow> nat \<Rightarrow> string \<Rightarrow> jobj api" where
  "persistedObject raw index field = (case raw of JObj obj \<Rightarrow> Inr obj | _ \<Rightarrow> invalidPersisted index field)"

definition bad_if :: "bool \<Rightarrow> nat \<Rightarrow> string \<Rightarrow> 'a api \<Rightarrow> 'a api" where
  "bad_if b index field k = (if b then invalidPersisted index field else k)"


section \<open>Fill intents\<close>

definition hydrate_release :: "crypto \<Rightarrow> jobj \<Rightarrow> nat \<Rightarrow> string \<Rightarrow> verified_order \<Rightarrow> verified_intent \<Rightarrow> (int option \<times> string option) api" where
  "hydrate_release cr row index field vo verified =
     js_bind (case map_of row ''releasedAt'' of None \<Rightarrow> Inr None
        | Some (JInt n) \<Rightarrow> bad_if (\<not> isSafeInteger n \<or> n < 0) index (field @ '' release time'') (Inr (Some n))
        | _ \<Rightarrow> invalidPersisted index (field @ '' release time'')) (\<lambda>releasedAt.
     js_bind (case map_of row ''releaseSecret'' of None \<Rightarrow> Inr None
        | Some (JStr s) \<Rightarrow> bad_if (\<not> BYTES32_RE s) index (field @ '' release secret'') (Inr (Some s))
        | _ \<Rightarrow> invalidPersisted index (field @ '' release secret'')) (\<lambda>releaseSecret.
     bad_if ((releasedAt = None) \<noteq> (releaseSecret = None)) index (field @ '' incomplete release proof'')
    (js_bind (case releaseSecret of None \<Rightarrow> Inr False
        | Some s \<Rightarrow> js_bind (computeReleaseCommitment cr (vo_orderDigest vo) (pa_nonce (vi_auth verified)) s)
            (\<lambda>c. Inr (c \<noteq> fi_releaseCommitment (vi_intent verified)))) (\<lambda>wrong.
     bad_if wrong index (field @ '' release commitment'') (Inr (releasedAt, releaseSecret))))))"

definition hydrateIntentProof :: "crypto \<Rightarrow> int \<Rightarrow> json \<Rightarrow> nat \<Rightarrow> string \<Rightarrow> verified_order \<Rightarrow> bool \<Rightarrow> (stored_intent \<times> verified_intent) api" where
  "hydrateIntentProof cr now raw index field vo includeIp =
     js_bind (persistedObject raw index field) (\<lambda>row.
     js_bind (verifyFillIntentV1 cr now True (jfield row ''intent'') (jfield row ''auth'') vo) (\<lambda>verified.
     bad_if (map_of row ''intentDigest'' \<noteq> Some (JStr (vi_intentDigest verified))) index (field @ '' digest'')
    (case map_of row ''receivedAt'' of
       Some (JInt receivedAt) \<Rightarrow>
         bad_if (\<not> isSafeInteger receivedAt \<or> receivedAt < 0) index (field @ '' receive time'')
        (let raw_ip = jstr (map_of row ''acceptorIpHash'');
             acceptorIpHash = (case raw_ip of
                Some s \<Rightarrow> if includeIp \<and> RAW_TOKEN_RE s then s else cr_sha256Hex cr ''federated-intent''
              | None \<Rightarrow> cr_sha256Hex cr ''federated-intent'')
         in bad_if (includeIp \<and> raw_ip \<noteq> Some acceptorIpHash) index (field @ '' source hash'')
           (js_bind (hydrate_release cr row index field vo verified) (\<lambda>(releasedAt, releaseSecret).
              Inr (\<lparr>si_intentDigest = vi_intentDigest verified, si_intent = vi_intent verified, si_auth = vi_auth verified,
                 si_receivedAt = receivedAt, st_acceptorIpHash = acceptorIpHash, st_releasedAt = releasedAt,
                 st_releaseSecret = releaseSecret\<rparr>, verified))))
     | _ \<Rightarrow> invalidPersisted index (field @ '' receive time''))))"


section \<open>One row\<close>

fun status_str :: "order_status \<Rightarrow> string" where
  "status_str Open = ''open''"
| "status_str Accepted = ''accepted''"
| "status_str Locking = ''locking''"
| "status_str Cancelled = ''cancelled''"

definition parse_status :: "json option \<Rightarrow> order_status option" where
  "parse_status raw = (case jstr raw of Some s \<Rightarrow>
     if s = ''open'' then Some Open else if s = ''accepted'' then Some Accepted else if s = ''locking'' then Some Locking
     else if s = ''cancelled'' then Some Cancelled else None | None \<Rightarrow> None)"

definition hydrate_asset :: "jobj \<Rightarrow> nat \<Rightarrow> asset_symbol api" where
  "hydrate_asset row index =
     (if map_of row ''asset'' \<in> {None, Some JNull} then Inr ETH
      else case parse_asset (map_of row ''asset'') of Some a \<Rightarrow> Inr a | None \<Rightarrow> invalidPersisted index ''asset'')"

definition hydrate_visibility :: "jobj \<Rightarrow> nat \<Rightarrow> string option \<Rightarrow> visibility api" where
  "hydrate_visibility row index shareTokenHash =
     (case map_of row ''visibility'' of None \<Rightarrow> Inr (if shareTokenHash \<noteq> None then Private else Public)
      | Some v \<Rightarrow> (case parse_visibility (Some v) of None \<Rightarrow> invalidPersisted index ''visibility''
          | Some w \<Rightarrow> Inr (if w = Private \<or> shareTokenHash \<noteq> None then Private else Public)))"

definition blank_order :: order where
  "blank_order = \<lparr>o_id = [], o_direction = EthToQrl, o_asset = ETH, o_fromAmount = [], o_toAmount = [], o_makerEthAccount = [],
     o_makerQrlAccount = [], o_status = Open, o_takerEthAccount = None, o_takerQrlAccount = None, o_hashlock = None,
     o_initiatorTimeout = None, o_responderTimeout = None, o_prelocked = False, o_createdAt = 0, o_updatedAt = 0,
     o_visibility = Public, o_shareTokenHash = None, o_allowedTakerEth = None, o_allowedTakerQrl = None, o_makerTokenHash = [],
     o_takerTokenHash = None, o_acceptorIpHash = None, o_creatorIpHash = None, o_federationSourceHash = None, o_makerAuth = None,
     o_orderDigest = None, o_fillIntents = None, o_fill = None, o_fillAuth = None, o_fillDigest = None, o_selectedIntent = None,
     o_cancelProof = None, o_cancelAuth = None, o_cancelDigest = None, o_equivocated = False, o_conflicts = [],
     o_orderConflicts = [], o_acceptedAt = None, o_releasedAt = None, o_releaseSecret = None\<rparr>"

text \<open>The scalar fields, in the order the code reads them.\<close>

definition hydrate_kind :: "jobj \<Rightarrow> nat \<Rightarrow> order api" where
  "hydrate_kind row index =
     (case parse_direction (map_of row ''direction'') of None \<Rightarrow> invalidPersisted index ''direction'' | Some dir \<Rightarrow>
      case parse_status (map_of row ''status'') of None \<Rightarrow> invalidPersisted index ''status'' | Some st \<Rightarrow>
      js_bind (hydrate_asset row index) (\<lambda>asset.
      js_bind (optionalMatchingString row index ''shareTokenHash'' RAW_TOKEN_RE) (\<lambda>share.
      js_bind (hydrate_visibility row index share) (\<lambda>vis.
        Inr (blank_order\<lparr>o_direction := dir, o_status := st, o_asset := asset, o_shareTokenHash := share, o_visibility := vis\<rparr>)))))"

definition hydrate_state :: "jobj \<Rightarrow> nat \<Rightarrow> order \<Rightarrow> order api" where
  "hydrate_state row index ord =
     js_bind (nullableMatchingString row index ''hashlock'' HASHLOCK_RE) (\<lambda>h.
     js_bind (nullableSafeInteger row index ''initiatorTimeout'') (\<lambda>t1.
     js_bind (nullableSafeInteger row index ''responderTimeout'') (\<lambda>t2.
     js_bind (optionalMatchingString row index ''allowedTakerEth'' ETH_ADDR_RE) (\<lambda>ae.
     js_bind (optionalMatchingString row index ''allowedTakerQrl'' QRL_ADDR_RE) (\<lambda>aq.
     js_bind (optionalMatchingString row index ''takerTokenHash'' RAW_TOKEN_RE) (\<lambda>tt.
     js_bind (optionalMatchingString row index ''acceptorIpHash'' RAW_TOKEN_RE) (\<lambda>ai.
     js_bind (optionalMatchingString row index ''creatorIpHash'' RAW_TOKEN_RE) (\<lambda>ci.
     js_bind (optionalMatchingString row index ''federationSourceHash'' RAW_TOKEN_RE) (\<lambda>fs.
     js_bind (optionalSafeInteger row index ''acceptedAt'') (\<lambda>at1.
     js_bind (optionalSafeInteger row index ''releasedAt'') (\<lambda>rt.
     js_bind (optionalMatchingString row index ''releaseSecret'' BYTES32_RE) (\<lambda>rs.
       Inr (ord\<lparr>o_hashlock := h, o_initiatorTimeout := t1, o_responderTimeout := t2,
         o_prelocked := (map_of row ''prelocked'' = Some (JBool True) \<and> h \<noteq> None \<and> t1 \<noteq> None), o_allowedTakerEth := ae,
         o_allowedTakerQrl := aq, o_takerTokenHash := tt, o_acceptorIpHash := ai, o_creatorIpHash := ci,
         o_federationSourceHash := fs, o_acceptedAt := at1, o_releasedAt := rt, o_releaseSecret := rs\<rparr>)))))))))))))"

definition hydrate_terms :: "jobj \<Rightarrow> nat \<Rightarrow> order \<Rightarrow> order api" where
  "hydrate_terms row index ord =
     js_bind (matchingString row index ''id'' ORDER_ID_RE) (\<lambda>oid.
     js_bind (matchingString row index ''fromAmount'' AMOUNT_RE) (\<lambda>fa.
     js_bind (matchingString row index ''toAmount'' AMOUNT_RE) (\<lambda>ta.
     js_bind (matchingString row index ''makerEthAccount'' ETH_ADDR_RE) (\<lambda>me.
     js_bind (matchingString row index ''makerQrlAccount'' QRL_ADDR_RE) (\<lambda>mq.
     js_bind (nullableMatchingString row index ''takerEthAccount'' ETH_ADDR_RE) (\<lambda>te.
     js_bind (nullableMatchingString row index ''takerQrlAccount'' QRL_ADDR_RE) (\<lambda>tq.
     js_bind (safeInteger row index ''createdAt'') (\<lambda>c.
     js_bind (safeInteger row index ''updatedAt'') (\<lambda>u.
     js_bind (matchingString row index ''makerTokenHash'' RAW_TOKEN_RE) (\<lambda>mt.
       Inr (ord\<lparr>o_id := oid, o_fromAmount := fa, o_toAmount := ta, o_makerEthAccount := me, o_makerQrlAccount := mq,
         o_takerEthAccount := te, o_takerQrlAccount := tq, o_createdAt := c, o_updatedAt := u, o_makerTokenHash := mt\<rparr>)))))))))))"

text \<open>The maker's proof, and the source of rows that an older version imported.\<close>

definition hydrate_maker :: "crypto \<Rightarrow> int \<Rightarrow> jobj \<Rightarrow> nat \<Rightarrow> order \<Rightarrow> (order \<times> verified_order option) api" where
  "hydrate_maker cr now row index ord =
     (case map_of row ''makerAuth'' of
        None \<Rightarrow> bad_if (o_federationSourceHash ord \<noteq> None) index ''federation source without maker proof'' (Inr (ord, None))
      | Some auth \<Rightarrow>
          js_bind (verifyOrderV1 cr now True (signedOrderBody ord) auth) (\<lambda>verified.
          bad_if (vo_orderId verified \<noteq> o_id ord) index ''signed order id''
         (bad_if (map_of row ''orderDigest'' \<noteq> None \<and> map_of row ''orderDigest'' \<noteq> Some (JStr (vo_orderDigest verified))) index
            ''signed order digest''
         (let legacy = o_visibility ord = Public \<and> o_federationSourceHash ord = None \<and>
                o_creatorIpHash ord = Some (cr_sha256Hex cr ''federation'')
          in Inr (ord\<lparr>o_makerAuth := Some (vo_auth verified), o_orderDigest := Some (vo_orderDigest verified),
               o_federationSourceHash := (if legacy then Some (cr_sha256Hex cr ''legacy-federation-source'')
                 else o_federationSourceHash ord)\<rparr>, Some verified)))))"

definition protocol_keys :: "string list" where
  "protocol_keys = [''orderDigest'', ''fillIntents'', ''selectedIntent'', ''fill'', ''fillAuth'', ''cancelProof'', ''cancelAuth'',
     ''cancelDigest'', ''conflicts'', ''orderConflicts'', ''equivocated'', ''releaseSecret'']"

definition hydrate_list :: "jobj \<Rightarrow> nat \<Rightarrow> string \<Rightarrow> string \<Rightarrow> nat \<Rightarrow> (nat \<times> json \<Rightarrow> 'a api) \<Rightarrow> 'a list option api" where
  "hydrate_list row index key field cap f =
     (case map_of row key of None \<Rightarrow> Inr None
      | Some (JArr xs) \<Rightarrow> bad_if (length xs > cap) index field (js_bind (map_result f (enumerate 0 xs)) (\<lambda>ys. Inr (Some ys)))
      | _ \<Rightarrow> invalidPersisted index field)"

definition hydrate_intents :: "crypto \<Rightarrow> int \<Rightarrow> jobj \<Rightarrow> nat \<Rightarrow> verified_order \<Rightarrow> order \<Rightarrow> order api" where
  "hydrate_intents cr now row index vo ord =
     js_bind (hydrate_list row index ''fillIntents'' ''fill intents'' MAX_FILL_INTENTS_PER_ORDER
        (\<lambda>(i, raw). js_bind (hydrateIntentProof cr now raw index (''fill intent '' @ show_nat i) vo True) (\<lambda>r. Inr (fst r)))) (\<lambda>intents.
     bad_if (\<not> distinct (map si_intentDigest (nvl intents []))) index ''duplicate fill intents''
       (Inr (ord\<lparr>o_fillIntents := intents\<rparr>)))"

definition hydrate_selected :: "crypto \<Rightarrow> int \<Rightarrow> jobj \<Rightarrow> nat \<Rightarrow> verified_order \<Rightarrow> order \<Rightarrow> (order \<times> verified_intent option) api" where
  "hydrate_selected cr now row index vo ord =
     (case map_of row ''selectedIntent'' of None \<Rightarrow> Inr (ord, None)
      | Some raw \<Rightarrow> js_bind (hydrateIntentProof cr now raw index ''selected intent'' vo False) (\<lambda>(stored, verified).
          Inr (ord\<lparr>o_selectedIntent := Some (public_intent stored)\<rparr>, Some verified)))"

definition hydrate_fill :: "crypto \<Rightarrow> int \<Rightarrow> jobj \<Rightarrow> nat \<Rightarrow> verified_order \<Rightarrow> order \<times> verified_intent option \<Rightarrow> order api" where
  "hydrate_fill cr now row index vo os =
     (let ord = fst os; raw = map_of row in
      if raw ''fill'' = None \<and> raw ''fillAuth'' = None \<and> raw ''fillDigest'' = None then Inr ord
      else case (raw ''fill'', raw ''fillAuth'', raw ''fillDigest'', snd os) of
        (Some rawFill, Some rawAuth, Some rawDigest, Some selected) \<Rightarrow>
          js_bind (verifyFillV1 cr now True rawFill rawAuth vo selected) (\<lambda>fill.
          bad_if (rawDigest \<noteq> JStr (vf_fillDigest fill)) index ''fill digest''
         (bad_if (o_hashlock ord \<noteq> Some (fb_hashlock (vf_fill fill)) \<or>
              o_initiatorTimeout ord \<noteq> Some (fb_initiatorTimeout (vf_fill fill)) \<or>
              o_responderTimeout ord \<noteq> Some (fb_responderTimeout (vf_fill fill)) \<or>
              o_takerEthAccount ord \<noteq> Some (fb_takerEthAccount (vf_fill fill)) \<or>
              o_takerQrlAccount ord \<noteq> Some (fb_takerQrlAccount (vf_fill fill))) index ''fill projection''
           (Inr (ord\<lparr>o_fill := Some (vf_fill fill), o_fillAuth := Some (vf_auth fill), o_fillDigest := Some (vf_fillDigest fill)\<rparr>))))
      | _ \<Rightarrow> invalidPersisted index ''fill proof'')"

definition hydrate_cancel :: "crypto \<Rightarrow> int \<Rightarrow> jobj \<Rightarrow> nat \<Rightarrow> verified_order \<Rightarrow> order \<Rightarrow> order api" where
  "hydrate_cancel cr now row index vo ord =
     (let raw = map_of row in
      if raw ''cancelProof'' = None \<and> raw ''cancelAuth'' = None \<and> raw ''cancelDigest'' = None then Inr ord
      else case (raw ''cancelProof'', raw ''cancelAuth'', raw ''cancelDigest'') of
        (Some rawCancel, Some rawAuth, Some rawDigest) \<Rightarrow>
          js_bind (verifyCancelV1 cr now True rawCancel rawAuth vo) (\<lambda>cancel.
          bad_if (rawDigest \<noteq> JStr (vc_cancelDigest cancel)) index ''cancel digest''
            (Inr (ord\<lparr>o_cancelProof := Some (vc_cancel cancel), o_cancelAuth := Some (vc_auth cancel),
               o_cancelDigest := Some (vc_cancelDigest cancel)\<rparr>)))
      | _ \<Rightarrow> invalidPersisted index ''cancel proof'')"

definition hydrate_conflict :: "crypto \<Rightarrow> int \<Rightarrow> nat \<Rightarrow> verified_order \<Rightarrow> nat \<times> json \<Rightarrow> terminal_conflict api" where
  "hydrate_conflict cr now index vo item =
     (let label = ''terminal conflict '' @ show_nat (fst item) in
      js_bind (persistedObject (snd item) index label) (\<lambda>conflict.
      if map_of conflict ''kind'' = Some (JStr ''fill-v2'') then
        js_bind (verifyFillIntentV1 cr now True (jfield conflict ''intent'') (jfield conflict ''intentAuth'') vo) (\<lambda>intent.
        js_bind (verifyFillV1 cr now True (jfield conflict ''body'') (jfield conflict ''auth'') vo intent) (\<lambda>fill.
        bad_if (map_of conflict ''digest'' \<noteq> Some (JStr (vf_fillDigest fill))) index (label @ '' digest'')
          (Inr (FillConflict (vf_fillDigest fill) (vf_fill fill) (vf_auth fill) (vi_intent intent) (vi_auth intent)))))
      else if map_of conflict ''kind'' = Some (JStr ''cancel-v2'') then
        js_bind (verifyCancelV1 cr now True (jfield conflict ''body'') (jfield conflict ''auth'') vo) (\<lambda>cancel.
        bad_if (map_of conflict ''digest'' \<noteq> Some (JStr (vc_cancelDigest cancel))) index (label @ '' digest'')
          (Inr (CancelConflict (vc_cancelDigest cancel) (vc_cancel cancel) (vc_auth cancel))))
      else invalidPersisted index (label @ '' kind'')))"

text \<open>An absent digest is compared as the empty string, which no digest is.\<close>

definition hydrate_conflicts :: "crypto \<Rightarrow> int \<Rightarrow> jobj \<Rightarrow> nat \<Rightarrow> verified_order \<Rightarrow> order \<Rightarrow> order api" where
  "hydrate_conflicts cr now row index vo ord =
     js_bind (hydrate_list row index ''conflicts'' ''terminal conflicts'' MAX_CONFLICT_PROOFS (hydrate_conflict cr now index vo)) (\<lambda>conflicts.
     let digests = map conflict_digest (nvl conflicts []) in
     bad_if (\<not> distinct digests \<or> (conflicts \<noteq> None \<and> (nvl (o_fillDigest ord) '''' \<in> set digests \<or> nvl (o_cancelDigest ord) '''' \<in> set digests)))
       index ''duplicate terminal conflicts'' (Inr (ord\<lparr>o_conflicts := nvl conflicts []\<rparr>)))"

definition hydrate_order_conflict :: "crypto \<Rightarrow> int \<Rightarrow> nat \<Rightarrow> string \<Rightarrow> nat \<times> json \<Rightarrow> order_conflict api" where
  "hydrate_order_conflict cr now index oid item =
     (let label = ''order conflict '' @ show_nat (fst item) in
      js_bind (persistedObject (snd item) index label) (\<lambda>conflict.
      js_bind (verifyOrderV1 cr now True (jfield conflict ''order'') (jfield conflict ''auth'')) (\<lambda>verified.
      bad_if (vo_orderId verified \<noteq> oid \<or> map_of conflict ''orderDigest'' \<noteq> Some (JStr (vo_orderDigest verified))) index
        (label @ '' reference'')
        (Inr \<lparr>oc_orderDigest = vo_orderDigest verified, oc_order = vo_order verified, oc_auth = vo_auth verified\<rparr>))))"

definition hydrate_order_conflicts :: "crypto \<Rightarrow> int \<Rightarrow> jobj \<Rightarrow> nat \<Rightarrow> order \<Rightarrow> order api" where
  "hydrate_order_conflicts cr now row index ord =
     js_bind (hydrate_list row index ''orderConflicts'' ''order conflicts'' MAX_CONFLICT_PROOFS
        (hydrate_order_conflict cr now index (o_id ord))) (\<lambda>conflicts.
     let digests = map oc_orderDigest (nvl conflicts []) in
     bad_if (\<not> distinct digests \<or> nvl (o_orderDigest ord) '''' \<in> set digests) index ''duplicate order conflicts''
       (Inr (ord\<lparr>o_orderConflicts := nvl conflicts []\<rparr>)))"

definition release_proved :: "crypto \<Rightarrow> verified_order \<Rightarrow> order \<Rightarrow> string \<Rightarrow> bool api" where
  "release_proved cr vo ord secret =
     (case (o_releasedAt ord, o_fill ord, o_selectedIntent ord) of
        (Some _, Some fill, Some sel) \<Rightarrow>
          js_bind (computeReleaseCommitment cr (vo_orderDigest vo) (pa_nonce (si_auth sel)) secret) (\<lambda>c.
            Inr (c = fb_releaseCommitment fill))
      | _ \<Rightarrow> Inr False)"

definition hydrate_checks :: "crypto \<Rightarrow> nat \<Rightarrow> verified_order \<Rightarrow> order \<Rightarrow> order api" where
  "hydrate_checks cr index vo ord =
     bad_if (o_selectedIntent ord \<noteq> None \<and> o_fill ord = None) index ''selected intent without fill''
    (bad_if (o_fill ord \<noteq> None \<and> o_status ord \<noteq> Locking) index ''fill status''
    (bad_if (o_cancelProof ord \<noteq> None \<and> o_fill ord = None \<and> o_status ord \<noteq> Cancelled) index ''cancel status''
    (case o_releaseSecret ord of
       Some secret \<Rightarrow> js_bind (release_proved cr vo ord secret) (\<lambda>ok. bad_if (\<not> ok) index ''release proof'' (Inr ord))
     | None \<Rightarrow> bad_if (o_fill ord \<noteq> None \<and> o_releasedAt ord \<noteq> None) index ''missing release proof'' (Inr ord))))"

definition hydrate_equivocated :: "jobj \<Rightarrow> order \<Rightarrow> order" where
  "hydrate_equivocated row ord = ord\<lparr>o_equivocated := (map_of row ''equivocated'' = Some (JBool True) \<or> o_conflicts ord \<noteq> [] \<or>
     o_orderConflicts ord \<noteq> [] \<or> (o_fill ord \<noteq> None \<and> o_cancelProof ord \<noteq> None))\<rparr>"

definition hydrate_protocol :: "crypto \<Rightarrow> int \<Rightarrow> jobj \<Rightarrow> nat \<Rightarrow> verified_order \<Rightarrow> order \<Rightarrow> order api" where
  "hydrate_protocol cr now row index vo ord =
     js_bind (hydrate_intents cr now row index vo ord) (\<lambda>o1.
     js_bind (hydrate_selected cr now row index vo o1) (\<lambda>o2.
     js_bind (hydrate_fill cr now row index vo o2) (\<lambda>o3.
     js_bind (hydrate_cancel cr now row index vo o3) (\<lambda>o4.
     js_bind (hydrate_conflicts cr now row index vo o4) (\<lambda>o5.
     js_bind (hydrate_order_conflicts cr now row index o5) (\<lambda>o6.
     js_bind (hydrate_checks cr index vo o6) (\<lambda>o7. Inr (hydrate_equivocated row o7))))))))"

definition hydratePersistedOrder :: "crypto \<Rightarrow> int \<Rightarrow> nat \<Rightarrow> json \<Rightarrow> order api" where
  "hydratePersistedOrder cr now index raw =
     js_bind (persistedObject raw index ''record'') (\<lambda>row.
     js_bind (hydrate_kind row index) (\<lambda>o1.
     js_bind (hydrate_state row index o1) (\<lambda>o2.
     js_bind (hydrate_terms row index o2) (\<lambda>o3.
     js_bind (hydrate_maker cr now row index o3) (\<lambda>(o4, portable).
     case portable of
       None \<Rightarrow> bad_if (\<exists>k\<in>set protocol_keys. map_of row k \<noteq> None) index ''portable protocol state without maker proof'' (Inr o4)
     | Some vo \<Rightarrow> hydrate_protocol cr now row index vo o4)))))"


section \<open>The whole file\<close>

datatype orders_file = NoFile | Unreadable | NotJson | Holds json

definition live_hashlock_taken :: "order \<Rightarrow> order list \<Rightarrow> bool" where
  "live_hashlock_taken ord existing \<longleftrightarrow> o_hashlock ord \<noteq> None \<and> o_status ord \<noteq> Cancelled \<and>
     list_ex (\<lambda>r. o_status r \<noteq> Cancelled \<and> o_hashlock r = o_hashlock ord) existing"

definition file_error :: "string \<Rightarrow> 'a api" where
  "file_error m = Inl (PlainError (''order data file '' @ m))"

definition check_portable :: "order list \<Rightarrow> order \<Rightarrow> unit api" where
  "check_portable loaded ord =
     (if public_portable ord then
        (let all = filter public_portable (loaded @ [ord]); fed = filter (\<lambda>r. o_federationSourceHash r \<noteq> None) all in
         if length all > MAX_PUBLIC_PORTABLE_ORDERS then file_error ''contains more than 64 portable public orders''
         else case o_federationSourceHash ord of None \<Rightarrow> Inr ()
           | Some h \<Rightarrow>
               if length fed > MAX_FEDERATED_PUBLIC_PORTABLE_ORDERS
                 then file_error ''contains more than 48 federated portable public orders''
               else if length (filter (\<lambda>r. o_federationSourceHash r = Some h) fed) > MAX_PUBLIC_PORTABLE_ORDERS_PER_FEDERATION_PEER
                 then file_error ''contains more than 16 portable public orders from one federation source''
               else Inr ())
      else Inr ())"

text \<open>The counters of the loop count the rows read so far, so they are written as counts of \<open>loaded\<close>.\<close>

definition load_row :: "crypto \<Rightarrow> int \<Rightarrow> book \<Rightarrow> nat \<Rightarrow> json \<Rightarrow> book api" where
  "load_row cr now bk index raw =
     js_bind (hydratePersistedOrder cr now index raw) (\<lambda>ord.
     if find_order bk (o_id ord) \<noteq> None then file_error (''contains duplicate id '' @ o_id ord)
     else if live_hashlock_taken ord (orders_of bk) then file_error (''contains duplicate live hashlock '' @ nvl (o_hashlock ord) [])
     else js_bind (check_portable (orders_of bk) ord) (\<lambda>_.
       let bk1 = put_order ord bk in Inr (if o_status ord = Open then set_seen (o_id ord) now bk1 else bk1)))"

fun load_rows :: "crypto \<Rightarrow> int \<Rightarrow> nat \<Rightarrow> json list \<Rightarrow> book \<Rightarrow> book api" where
  "load_rows cr now index [] bk = Inr bk"
| "load_rows cr now index (raw # raws) bk = js_bind (load_row cr now bk index raw) (load_rows cr now (Suc index) raws)"

definition new_store :: "int \<Rightarrow> book" where
  "new_store ttl = \<lparr>bk_orders = [], bk_seenAt = [], bk_admissions = [], bk_admissionsPrunedAt = 0, bk_presenceTtlS = ttl,
     bk_dirty = False, bk_pendingEvents = [], bk_notified = 0\<rparr>"

definition load_book :: "crypto \<Rightarrow> int \<Rightarrow> orders_file \<Rightarrow> book \<Rightarrow> book api" where
  "load_book cr now f bk =
     (case f of NoFile \<Rightarrow> Inr bk
      | Unreadable \<Rightarrow> file_error ''could not be read''
      | NotJson \<Rightarrow> file_error ''is not valid JSON''
      | Holds (JArr rows) \<Rightarrow> load_rows cr now 0 rows bk
      | Holds _ \<Rightarrow> file_error ''must contain an array'')"

text \<open>The constructor.\<close>

definition open_store :: "crypto \<Rightarrow> int \<Rightarrow> int \<Rightarrow> orders_file \<Rightarrow> book api" where
  "open_store cr now ttl f = js_bind (load_book cr now f (new_store ttl)) (\<lambda>bk. Inr (seedIntentAdmissions cr now bk))"


section \<open>What is written\<close>

text \<open>\<^verbatim>\<open>JSON.stringify\<close> leaves out the properties that are undefined.\<close>

definition present :: "(string \<times> json option) list \<Rightarrow> jobj" where
  "present kvs = concat (map (\<lambda>(k, v). opt_entry k v) kvs)"

definition or_null :: "json option \<Rightarrow> json option" where
  "or_null v = Some (nvl v JNull)"

definition selected_fields :: "'a selected_fill_intent_scheme \<Rightarrow> (string \<times> json option) list" where
  "selected_fields i = [(''intentDigest'', Some (JStr (si_intentDigest i))), (''intent'', Some (intent_json (si_intent i))),
     (''auth'', Some (auth_json (si_auth i))), (''receivedAt'', Some (JInt (si_receivedAt i)))]"

definition stored_intent_json :: "stored_intent \<Rightarrow> json" where
  "stored_intent_json i = JObj (present (selected_fields i @ [(''acceptorIpHash'', Some (JStr (st_acceptorIpHash i))),
     (''releasedAt'', map_option JInt (st_releasedAt i)), (''releaseSecret'', map_option JStr (st_releaseSecret i))]))"

fun conflict_json :: "terminal_conflict \<Rightarrow> json" where
  "conflict_json (FillConflict d f fa i ia) = JObj [(''kind'', JStr ''fill-v2''), (''digest'', JStr d), (''body'', fill_json f),
     (''auth'', auth_json fa), (''intent'', intent_json i), (''intentAuth'', auth_json ia)]"
| "conflict_json (CancelConflict d c ca) = JObj [(''kind'', JStr ''cancel-v2''), (''digest'', JStr d), (''body'', cancel_json c),
     (''auth'', auth_json ca)]"

definition order_conflict_json :: "order_conflict \<Rightarrow> json" where
  "order_conflict_json c = JObj [(''orderDigest'', JStr (oc_orderDigest c)), (''order'', JObj (order_body_obj (oc_order c))),
     (''auth'', maker_auth_json (oc_auth c))]"

definition evidence_json :: "('a \<Rightarrow> json) \<Rightarrow> 'a list \<Rightarrow> json option" where
  "evidence_json f xs = (if xs = [] then None else Some (JArr (map f xs)))"

definition flag_json :: "bool \<Rightarrow> json option" where
  "flag_json b = (if b then Some (JBool True) else None)"

definition row_fields :: "order \<Rightarrow> (string \<times> json option) list" where
  "row_fields ord =
     [(''id'', Some (JStr (o_id ord))), (''direction'', Some (JStr (direction_str (o_direction ord)))),
      (''asset'', Some (JStr (asset_str (o_asset ord)))), (''fromAmount'', Some (JStr (o_fromAmount ord))),
      (''toAmount'', Some (JStr (o_toAmount ord))), (''makerEthAccount'', Some (JStr (o_makerEthAccount ord))),
      (''makerQrlAccount'', Some (JStr (o_makerQrlAccount ord))), (''status'', Some (JStr (status_str (o_status ord)))),
      (''takerEthAccount'', or_null (map_option JStr (o_takerEthAccount ord))),
      (''takerQrlAccount'', or_null (map_option JStr (o_takerQrlAccount ord))),
      (''hashlock'', or_null (map_option JStr (o_hashlock ord))),
      (''initiatorTimeout'', or_null (map_option JInt (o_initiatorTimeout ord))),
      (''responderTimeout'', or_null (map_option JInt (o_responderTimeout ord))),
      (''prelocked'', flag_json (o_prelocked ord)), (''createdAt'', Some (JInt (o_createdAt ord))),
      (''updatedAt'', Some (JInt (o_updatedAt ord))), (''visibility'', Some (JStr (visibility_str (o_visibility ord)))),
      (''shareTokenHash'', map_option JStr (o_shareTokenHash ord)), (''allowedTakerEth'', map_option JStr (o_allowedTakerEth ord)),
      (''allowedTakerQrl'', map_option JStr (o_allowedTakerQrl ord)), (''makerTokenHash'', Some (JStr (o_makerTokenHash ord))),
      (''takerTokenHash'', map_option JStr (o_takerTokenHash ord)), (''acceptorIpHash'', map_option JStr (o_acceptorIpHash ord)),
      (''creatorIpHash'', map_option JStr (o_creatorIpHash ord)),
      (''federationSourceHash'', map_option JStr (o_federationSourceHash ord)),
      (''makerAuth'', map_option maker_auth_json (o_makerAuth ord)), (''orderDigest'', map_option JStr (o_orderDigest ord)),
      (''fillIntents'', map_option (\<lambda>l. JArr (map stored_intent_json l)) (o_fillIntents ord)),
      (''fill'', map_option fill_json (o_fill ord)), (''fillAuth'', map_option auth_json (o_fillAuth ord)),
      (''fillDigest'', map_option JStr (o_fillDigest ord)),
      (''selectedIntent'', map_option (\<lambda>i. JObj (present (selected_fields i))) (o_selectedIntent ord)),
      (''cancelProof'', map_option cancel_json (o_cancelProof ord)), (''cancelAuth'', map_option auth_json (o_cancelAuth ord)),
      (''cancelDigest'', map_option JStr (o_cancelDigest ord)), (''equivocated'', flag_json (o_equivocated ord)),
      (''conflicts'', evidence_json conflict_json (o_conflicts ord)),
      (''orderConflicts'', evidence_json order_conflict_json (o_orderConflicts ord)),
      (''acceptedAt'', map_option JInt (o_acceptedAt ord)), (''releasedAt'', map_option JInt (o_releasedAt ord)),
      (''releaseSecret'', map_option JStr (o_releaseSecret ord))]"

definition row_json :: "order \<Rightarrow> json" where
  "row_json ord = JObj (present (row_fields ord))"

text \<open>
  What the file holds after \<^verbatim>\<open>writeSnapshot\<close>: the lease is checked first, the new content goes to a
  temporary file, and the rename is the moment it counts. \<open>Replaced\<close> is a failure to flush the
  directory afterwards.
\<close>

datatype write_outcome = Written | NotOwned | NotReplaced | Replaced

definition writeSnapshot :: "write_outcome \<Rightarrow> book \<Rightarrow> orders_file \<Rightarrow> unit api \<times> orders_file" where
  "writeSnapshot outcome bk f =
     (let new = Holds (JArr (map row_json (orders_of bk)));
          failed = Inl (PlainError ''order data could not be persisted safely'')
      in case outcome of Written \<Rightarrow> (Inr (), new) | NotOwned \<Rightarrow> (Inl (PlainError ''not the owner''), f)
         | NotReplaced \<Rightarrow> (failed, f) | Replaced \<Rightarrow> (failed, new))"


section \<open>Reading what was written\<close>

lemma present_keys: "fst ` set (present kvs) \<subseteq> fst ` set kvs"
  by (force simp: present_def opt_entry_def split: option.splits)

lemma map_of_present:
  assumes "distinct (map fst kvs)"
  shows "map_of (present kvs) k = (case map_of kvs k of None \<Rightarrow> None | Some v \<Rightarrow> v)"
  using assms
proof (induction kvs)
  case (Cons kv kvs)
  obtain k' v where kv: "kv = (k', v)" by (cases kv)
  have "k' \<notin> fst ` set (present kvs)" using Cons.prems kv present_keys [of kvs] by auto
  then have "map_of (present kvs) k' = None" by (simp add: map_of_eq_None_iff)
  then show ?case using Cons kv by (cases v) (auto simp: present_def)
qed (simp add: present_def)

lemma row_keys_distinct: "distinct (map fst (row_fields ord))"
  by (simp add: row_fields_def)

lemma row_lookup:
  "map_of (present (row_fields ord)) k = (case map_of (row_fields ord) k of None \<Rightarrow> None | Some v \<Rightarrow> v)"
  by (rule map_of_present [OF row_keys_distinct])

lemma row_get:
  "map_of (present (row_fields ord)) ''id'' = Some (JStr (o_id ord))"
  "map_of (present (row_fields ord)) ''direction'' = Some (JStr (direction_str (o_direction ord)))"
  "map_of (present (row_fields ord)) ''asset'' = Some (JStr (asset_str (o_asset ord)))"
  "map_of (present (row_fields ord)) ''fromAmount'' = Some (JStr (o_fromAmount ord))"
  "map_of (present (row_fields ord)) ''toAmount'' = Some (JStr (o_toAmount ord))"
  "map_of (present (row_fields ord)) ''makerEthAccount'' = Some (JStr (o_makerEthAccount ord))"
  "map_of (present (row_fields ord)) ''makerQrlAccount'' = Some (JStr (o_makerQrlAccount ord))"
  "map_of (present (row_fields ord)) ''status'' = Some (JStr (status_str (o_status ord)))"
  "map_of (present (row_fields ord)) ''takerEthAccount'' = or_null (map_option JStr (o_takerEthAccount ord))"
  "map_of (present (row_fields ord)) ''takerQrlAccount'' = or_null (map_option JStr (o_takerQrlAccount ord))"
  "map_of (present (row_fields ord)) ''hashlock'' = or_null (map_option JStr (o_hashlock ord))"
  "map_of (present (row_fields ord)) ''initiatorTimeout'' = or_null (map_option JInt (o_initiatorTimeout ord))"
  "map_of (present (row_fields ord)) ''responderTimeout'' = or_null (map_option JInt (o_responderTimeout ord))"
  "map_of (present (row_fields ord)) ''prelocked'' = flag_json (o_prelocked ord)"
  "map_of (present (row_fields ord)) ''createdAt'' = Some (JInt (o_createdAt ord))"
  "map_of (present (row_fields ord)) ''updatedAt'' = Some (JInt (o_updatedAt ord))"
  "map_of (present (row_fields ord)) ''visibility'' = Some (JStr (visibility_str (o_visibility ord)))"
  "map_of (present (row_fields ord)) ''shareTokenHash'' = map_option JStr (o_shareTokenHash ord)"
  "map_of (present (row_fields ord)) ''allowedTakerEth'' = map_option JStr (o_allowedTakerEth ord)"
  "map_of (present (row_fields ord)) ''allowedTakerQrl'' = map_option JStr (o_allowedTakerQrl ord)"
  "map_of (present (row_fields ord)) ''makerTokenHash'' = Some (JStr (o_makerTokenHash ord))"
  by (simp_all add: row_lookup) (simp_all add: row_fields_def)

lemma row_get_protocol:
  "map_of (present (row_fields ord)) ''takerTokenHash'' = map_option JStr (o_takerTokenHash ord)"
  "map_of (present (row_fields ord)) ''acceptorIpHash'' = map_option JStr (o_acceptorIpHash ord)"
  "map_of (present (row_fields ord)) ''creatorIpHash'' = map_option JStr (o_creatorIpHash ord)"
  "map_of (present (row_fields ord)) ''federationSourceHash'' = map_option JStr (o_federationSourceHash ord)"
  "map_of (present (row_fields ord)) ''makerAuth'' = map_option maker_auth_json (o_makerAuth ord)"
  "map_of (present (row_fields ord)) ''orderDigest'' = map_option JStr (o_orderDigest ord)"
  "map_of (present (row_fields ord)) ''fillIntents'' = map_option (\<lambda>l. JArr (map stored_intent_json l)) (o_fillIntents ord)"
  "map_of (present (row_fields ord)) ''fill'' = map_option fill_json (o_fill ord)"
  "map_of (present (row_fields ord)) ''fillAuth'' = map_option auth_json (o_fillAuth ord)"
  "map_of (present (row_fields ord)) ''fillDigest'' = map_option JStr (o_fillDigest ord)"
  "map_of (present (row_fields ord)) ''selectedIntent'' = map_option (\<lambda>i. JObj (present (selected_fields i))) (o_selectedIntent ord)"
  "map_of (present (row_fields ord)) ''cancelProof'' = map_option cancel_json (o_cancelProof ord)"
  "map_of (present (row_fields ord)) ''cancelAuth'' = map_option auth_json (o_cancelAuth ord)"
  "map_of (present (row_fields ord)) ''cancelDigest'' = map_option JStr (o_cancelDigest ord)"
  "map_of (present (row_fields ord)) ''equivocated'' = flag_json (o_equivocated ord)"
  "map_of (present (row_fields ord)) ''conflicts'' = evidence_json conflict_json (o_conflicts ord)"
  "map_of (present (row_fields ord)) ''orderConflicts'' = evidence_json order_conflict_json (o_orderConflicts ord)"
  "map_of (present (row_fields ord)) ''acceptedAt'' = map_option JInt (o_acceptedAt ord)"
  "map_of (present (row_fields ord)) ''releasedAt'' = map_option JInt (o_releasedAt ord)"
  "map_of (present (row_fields ord)) ''releaseSecret'' = map_option JStr (o_releaseSecret ord)"
  by (simp_all add: row_lookup) (simp_all add: row_fields_def)

end
