(* ===== verification/Book_Restart.thy ===== *)
theory Book_Restart
  imports Book_Load
begin

text \<open>
  Restarts of the order book. \<open>restorable\<close> is what a row must satisfy to survive one: its fields have
  their shapes, and every proof it holds verifies against the row's own signed order. A restorable row
  is read back as it was written, every row that is read is restorable, and a row of a running book is
  restorable unless it holds proofs about another order the maker signed under the same nonce.
\<close>

section \<open>Restorable rows\<close>

definition scalars_ok :: "order \<Rightarrow> bool" where
  "scalars_ok ord \<longleftrightarrow> ORDER_ID_RE (o_id ord) \<and> AMOUNT_RE (o_fromAmount ord) \<and> AMOUNT_RE (o_toAmount ord) \<and>
     ETH_ADDR_RE (o_makerEthAccount ord) \<and> QRL_ADDR_RE (o_makerQrlAccount ord) \<and> RAW_TOKEN_RE (o_makerTokenHash ord) \<and>
     pred_option ETH_ADDR_RE (o_takerEthAccount ord) \<and> pred_option QRL_ADDR_RE (o_takerQrlAccount ord) \<and>
     pred_option HASHLOCK_RE (o_hashlock ord) \<and> pred_option safe_nonneg (o_initiatorTimeout ord) \<and>
     pred_option safe_nonneg (o_responderTimeout ord) \<and> pred_option ETH_ADDR_RE (o_allowedTakerEth ord) \<and>
     pred_option QRL_ADDR_RE (o_allowedTakerQrl ord) \<and> pred_option RAW_TOKEN_RE (o_shareTokenHash ord) \<and>
     pred_option RAW_TOKEN_RE (o_takerTokenHash ord) \<and> pred_option RAW_TOKEN_RE (o_acceptorIpHash ord) \<and>
     pred_option RAW_TOKEN_RE (o_creatorIpHash ord) \<and> pred_option RAW_TOKEN_RE (o_federationSourceHash ord) \<and>
     pred_option safe_nonneg (o_acceptedAt ord) \<and> pred_option safe_nonneg (o_releasedAt ord) \<and>
     pred_option BYTES32_RE (o_releaseSecret ord) \<and> safe_nonneg (o_createdAt ord) \<and> safe_nonneg (o_updatedAt ord)"

definition coherent_row :: "order \<Rightarrow> bool" where
  "coherent_row ord \<longleftrightarrow> (o_shareTokenHash ord \<noteq> None \<longrightarrow> o_visibility ord = Private) \<and>
     (o_prelocked ord \<longrightarrow> o_hashlock ord \<noteq> None \<and> o_initiatorTimeout ord \<noteq> None)"

definition strip_protocol :: "order \<Rightarrow> order" where
  "strip_protocol ord = ord\<lparr>o_makerAuth := None, o_orderDigest := None, o_fillIntents := None, o_fill := None, o_fillAuth := None,
     o_fillDigest := None, o_selectedIntent := None, o_cancelProof := None, o_cancelAuth := None, o_cancelDigest := None,
     o_equivocated := False, o_conflicts := [], o_orderConflicts := []\<rparr>"

lemma read_simps:
  "map_of row f = Some (JStr s) \<Longrightarrow> p s \<Longrightarrow> matchingString row i f p = Inr s"
  "map_of row f = map_option JStr x \<Longrightarrow> pred_option p x \<Longrightarrow> optionalMatchingString row i f p = Inr x"
  "map_of row f = or_null (map_option JStr x) \<Longrightarrow> pred_option p x \<Longrightarrow> nullableMatchingString row i f p = Inr x"
  "map_of row f = Some (JInt n) \<Longrightarrow> safe_nonneg n \<Longrightarrow> safeInteger row i f = Inr n"
  "map_of row f = map_option JInt y \<Longrightarrow> pred_option safe_nonneg y \<Longrightarrow> optionalSafeInteger row i f = Inr y"
  "map_of row f = or_null (map_option JInt y) \<Longrightarrow> pred_option safe_nonneg y \<Longrightarrow> nullableSafeInteger row i f = Inr y"
  subgoal by (simp add: matchingString_def)
  subgoal by (cases x) (simp_all add: optionalMatchingString_def)
  subgoal by (cases x) (simp_all add: nullableMatchingString_def or_null_def)
  subgoal by (simp add: safeInteger_def safe_nonneg_def)
  subgoal by (cases y) (simp_all add: optionalSafeInteger_def safeInteger_def safe_nonneg_def)
  subgoal by (cases y) (simp_all add: nullableSafeInteger_def safeInteger_def safe_nonneg_def or_null_def)
  done

lemma parse_status_str: "parse_status (Some (JStr (status_str s))) = Some s"
  by (cases s) (simp_all add: parse_status_def jstr_def)

lemma hydrate_scalars:
  assumes "scalars_ok ord" "coherent_row ord"
  defines "row \<equiv> present (row_fields ord)"
  shows "js_bind (hydrate_kind row i) (\<lambda>o1. js_bind (hydrate_state row i o1) (hydrate_terms row i)) = Inr (strip_protocol ord)"
proof -
  let ?o1 = "blank_order\<lparr>o_direction := o_direction ord, o_status := o_status ord, o_asset := o_asset ord,
    o_shareTokenHash := o_shareTokenHash ord, o_visibility := o_visibility ord\<rparr>"
  let ?o2 = "?o1\<lparr>o_hashlock := o_hashlock ord, o_initiatorTimeout := o_initiatorTimeout ord, o_responderTimeout := o_responderTimeout ord,
    o_prelocked := o_prelocked ord, o_allowedTakerEth := o_allowedTakerEth ord, o_allowedTakerQrl := o_allowedTakerQrl ord,
    o_takerTokenHash := o_takerTokenHash ord, o_acceptorIpHash := o_acceptorIpHash ord, o_creatorIpHash := o_creatorIpHash ord,
    o_federationSourceHash := o_federationSourceHash ord, o_acceptedAt := o_acceptedAt ord, o_releasedAt := o_releasedAt ord,
    o_releaseSecret := o_releaseSecret ord\<rparr>"
  have "hydrate_visibility row i (o_shareTokenHash ord) = Inr (o_visibility ord)"
    using assms(2) by (cases "o_visibility ord") (auto simp: hydrate_visibility_def row_def row_get coherent_row_def parse_visibility_def jstr_def)
  moreover have "hydrate_asset row i = Inr (o_asset ord)" by (simp add: hydrate_asset_def row_def row_get)
  moreover have "optionalMatchingString row i ''shareTokenHash'' RAW_TOKEN_RE = Inr (o_shareTokenHash ord)"
    using assms(1) unfolding row_def scalars_ok_def by (intro read_simps(2) row_get) simp
  ultimately have 1: "hydrate_kind row i = Inr ?o1" by (simp add: hydrate_kind_def row_def row_get parse_status_str)
  have p: "(map_of row ''prelocked'' = Some (JBool True) \<and> o_hashlock ord \<noteq> None \<and> o_initiatorTimeout ord \<noteq> None) = o_prelocked ord"
    using assms(2) by (auto simp: row_def row_get flag_json_def coherent_row_def)
  note s = assms(1) [unfolded scalars_ok_def]
  have 2: "hydrate_state row i ?o1 = Inr ?o2"
    using s unfolding hydrate_state_def p [symmetric]
    by (simp add: row_def row_get row_get_protocol read_simps del: p)
  have 3: "hydrate_terms row i ?o2 = Inr (strip_protocol ord)"
    using s unfolding hydrate_terms_def
    by (simp add: row_def row_get read_simps) (simp add: strip_protocol_def blank_order_def)
  show ?thesis by (simp add: 1 2 3)
qed

definition legacy_source :: "crypto \<Rightarrow> order \<Rightarrow> bool" where
  "legacy_source cr ord \<longleftrightarrow> o_visibility ord = Public \<and> o_federationSourceHash ord = None \<and>
     o_creatorIpHash ord = Some (cr_sha256Hex cr ''federation'')"

definition maker_ok :: "crypto \<Rightarrow> int \<Rightarrow> verified_order \<Rightarrow> order \<Rightarrow> bool" where
  "maker_ok cr now vo ord \<longleftrightarrow> o_makerAuth ord = Some (vo_auth vo) \<and> o_orderDigest ord = Some (vo_orderDigest vo) \<and>
     vo_orderId vo = o_id ord \<and> vo_order vo = signed_body ord \<and> verified_order_ok cr vo \<and>
     pa_issuedAt (vo_auth vo) \<le> now + MAX_CLOCK_SKEW_S \<and> \<not> legacy_source cr ord"

definition intent_proof :: "'a selected_fill_intent_scheme \<Rightarrow> verified_intent" where
  "intent_proof i = \<lparr>vi_intentDigest = si_intentDigest i, vi_intent = si_intent i, vi_auth = si_auth i\<rparr>"

definition intent_verifies :: "crypto \<Rightarrow> int \<Rightarrow> verified_order \<Rightarrow> 'a selected_fill_intent_scheme \<Rightarrow> bool" where
  "intent_verifies cr now vo i \<longleftrightarrow>
     verifyFillIntentV1 cr now True (intent_json (si_intent i)) (auth_json (si_auth i)) vo = Inr (intent_proof i)"

definition release_ok :: "crypto \<Rightarrow> verified_order \<Rightarrow> stored_intent \<Rightarrow> bool" where
  "release_ok cr vo i \<longleftrightarrow> (case st_releaseSecret i of None \<Rightarrow> st_releasedAt i = None
     | Some s \<Rightarrow> st_releasedAt i \<noteq> None \<and> BYTES32_RE s \<and>
         computeReleaseCommitment cr (vo_orderDigest vo) (pa_nonce (si_auth i)) s = Inr (fi_releaseCommitment (si_intent i)))"

definition stored_ok :: "crypto \<Rightarrow> int \<Rightarrow> verified_order \<Rightarrow> stored_intent \<Rightarrow> bool" where
  "stored_ok cr now vo i \<longleftrightarrow> intent_verifies cr now vo i \<and> safe_nonneg (si_receivedAt i) \<and> RAW_TOKEN_RE (st_acceptorIpHash i) \<and>
     pred_option safe_nonneg (st_releasedAt i) \<and> release_ok cr vo i"

definition proposals_ok :: "crypto \<Rightarrow> int \<Rightarrow> verified_order \<Rightarrow> order \<Rightarrow> bool" where
  "proposals_ok cr now vo ord \<longleftrightarrow> length (intents_of ord) \<le> MAX_FILL_INTENTS_PER_ORDER \<and>
     distinct (map si_intentDigest (intents_of ord)) \<and> (\<forall>i\<in>set (intents_of ord). stored_ok cr now vo i)"

definition fill_ok :: "crypto \<Rightarrow> int \<Rightarrow> verified_order \<Rightarrow> order \<Rightarrow> bool" where
  "fill_ok cr now vo ord \<longleftrightarrow> (case o_selectedIntent ord of
       None \<Rightarrow> o_fill ord = None \<and> o_fillAuth ord = None \<and> o_fillDigest ord = None
     | Some s \<Rightarrow> intent_verifies cr now vo s \<and> safe_nonneg (si_receivedAt s) \<and>
         (\<exists>vf. o_fill ord = Some (vf_fill vf) \<and> o_fillAuth ord = Some (vf_auth vf) \<and> o_fillDigest ord = Some (vf_fillDigest vf) \<and>
            projects (vf_fill vf) ord \<and>
            verifyFillV1 cr now True (fill_json (vf_fill vf)) (auth_json (vf_auth vf)) vo (intent_proof s) = Inr vf))"

definition cancel_ok :: "crypto \<Rightarrow> int \<Rightarrow> verified_order \<Rightarrow> order \<Rightarrow> bool" where
  "cancel_ok cr now vo ord \<longleftrightarrow> (case o_cancelProof ord of
       None \<Rightarrow> o_cancelAuth ord = None \<and> o_cancelDigest ord = None
     | Some c \<Rightarrow> (o_fill ord = None \<longrightarrow> o_status ord = Cancelled) \<and>
         (\<exists>vc. c = vc_cancel vc \<and> o_cancelAuth ord = Some (vc_auth vc) \<and> o_cancelDigest ord = Some (vc_cancelDigest vc) \<and>
            verifyCancelV1 cr now True (cancel_json c) (auth_json (vc_auth vc)) vo = Inr vc))"

fun conflict_ok :: "crypto \<Rightarrow> int \<Rightarrow> verified_order \<Rightarrow> terminal_conflict \<Rightarrow> bool" where
  "conflict_ok cr now vo (FillConflict d f fa i ia) \<longleftrightarrow>
     (\<exists>vi vf. verifyFillIntentV1 cr now True (intent_json i) (auth_json ia) vo = Inr vi \<and> i = vi_intent vi \<and> ia = vi_auth vi \<and>
        verifyFillV1 cr now True (fill_json f) (auth_json fa) vo vi = Inr vf \<and> f = vf_fill vf \<and> fa = vf_auth vf \<and> d = vf_fillDigest vf)"
| "conflict_ok cr now vo (CancelConflict d c ca) \<longleftrightarrow>
     (\<exists>vc. verifyCancelV1 cr now True (cancel_json c) (auth_json ca) vo = Inr vc \<and> c = vc_cancel vc \<and> ca = vc_auth vc \<and> d = vc_cancelDigest vc)"

definition variant_ok :: "crypto \<Rightarrow> int \<Rightarrow> string \<Rightarrow> order_conflict \<Rightarrow> bool" where
  "variant_ok cr now oid c \<longleftrightarrow> (\<exists>vo. verified_order_ok cr vo \<and> pa_issuedAt (vo_auth vo) \<le> now + MAX_CLOCK_SKEW_S \<and> vo_orderId vo = oid \<and>
     c = \<lparr>oc_orderDigest = vo_orderDigest vo, oc_order = vo_order vo, oc_auth = vo_auth vo\<rparr>)"

definition disputes_ok :: "crypto \<Rightarrow> int \<Rightarrow> verified_order \<Rightarrow> order \<Rightarrow> bool" where
  "disputes_ok cr now vo ord \<longleftrightarrow> length (o_conflicts ord) \<le> MAX_CONFLICT_PROOFS \<and> length (o_orderConflicts ord) \<le> MAX_CONFLICT_PROOFS \<and>
     (\<forall>c\<in>set (o_conflicts ord). conflict_ok cr now vo c) \<and> (\<forall>c\<in>set (o_orderConflicts ord). variant_ok cr now (o_id ord) c) \<and>
     distinct (map conflict_digest (o_conflicts ord)) \<and> distinct (map oc_orderDigest (o_orderConflicts ord)) \<and>
     nvl (o_fillDigest ord) [] \<notin> conflict_digest ` set (o_conflicts ord) \<and>
     nvl (o_cancelDigest ord) [] \<notin> conflict_digest ` set (o_conflicts ord) \<and>
     nvl (o_orderDigest ord) [] \<notin> oc_orderDigest ` set (o_orderConflicts ord) \<and>
     (o_conflicts ord \<noteq> [] \<or> o_orderConflicts ord \<noteq> [] \<or> (o_fill ord \<noteq> None \<and> o_cancelProof ord \<noteq> None) \<longrightarrow> o_equivocated ord)"

definition released_ok :: "crypto \<Rightarrow> verified_order \<Rightarrow> order \<Rightarrow> bool" where
  "released_ok cr vo ord \<longleftrightarrow> (case o_releaseSecret ord of None \<Rightarrow> o_fill ord \<noteq> None \<longrightarrow> o_releasedAt ord = None
     | Some s \<Rightarrow> release_proved cr vo ord s = Inr True)"

definition no_protocol :: "order \<Rightarrow> bool" where
  "no_protocol ord \<longleftrightarrow> ord = strip_protocol ord \<and> o_releaseSecret ord = None \<and> o_federationSourceHash ord = None"

definition restorable :: "crypto \<Rightarrow> int \<Rightarrow> order \<Rightarrow> bool" where
  "restorable cr now ord \<longleftrightarrow> scalars_ok ord \<and> coherent_row ord \<and>
     (if o_makerAuth ord = None then no_protocol ord
      else \<exists>vo. maker_ok cr now vo ord \<and> proposals_ok cr now vo ord \<and> fill_ok cr now vo ord \<and> cancel_ok cr now vo ord \<and>
        disputes_ok cr now vo ord \<and> released_ok cr vo ord)"


section \<open>A restorable row is read back\<close>

lemma hydrate_maker_back:
  assumes "maker_ok cr now vo ord"
  shows "hydrate_maker cr now (present (row_fields ord)) i (strip_protocol ord) =
    Inr ((strip_protocol ord)\<lparr>o_makerAuth := Some (vo_auth vo), o_orderDigest := Some (vo_orderDigest vo)\<rparr>, Some vo)"
proof -
  have "signed_body (strip_protocol ord) = vo_order vo"
    using assms by (simp add: maker_ok_def signed_body_def strip_protocol_def)
  then have "verifyOrderV1 cr now True (signedOrderBody (strip_protocol ord)) (maker_auth_json (vo_auth vo)) = Inr vo"
    using assms verifyOrderV1_again [of cr vo now] by (simp add: maker_ok_def signedOrderBody_def)
  moreover have "o_id (strip_protocol ord) = vo_orderId vo" "\<not> legacy_source cr (strip_protocol ord)"
    using assms by (simp_all add: maker_ok_def strip_protocol_def legacy_source_def)
  ultimately show ?thesis using assms
    by (simp add: hydrate_maker_def row_get_protocol maker_ok_def bad_if_def Let_def legacy_source_def)
qed

lemma selected_get:
  "map_of (present (selected_fields i @ r)) ''intentDigest'' = Some (JStr (si_intentDigest i))"
  "map_of (present (selected_fields i @ r)) ''intent'' = Some (intent_json (si_intent i))"
  "map_of (present (selected_fields i @ r)) ''auth'' = Some (auth_json (si_auth i))"
  "map_of (present (selected_fields i @ r)) ''receivedAt'' = Some (JInt (si_receivedAt i))"
  by (simp_all add: present_def selected_fields_def)

lemma stored_get:
  defines "row i \<equiv> present (selected_fields i @ [(''acceptorIpHash'', Some (JStr (st_acceptorIpHash i))),
     (''releasedAt'', map_option JInt (st_releasedAt i)), (''releaseSecret'', map_option JStr (st_releaseSecret i))])"
  shows "map_of (row i) ''acceptorIpHash'' = Some (JStr (st_acceptorIpHash i))"
    "map_of (row i) ''releasedAt'' = map_option JInt (st_releasedAt i)"
    "map_of (row i) ''releaseSecret'' = map_option JStr (st_releaseSecret i)"
  by (simp_all add: row_def map_of_present selected_fields_def)

lemma jstr_JStr [simp]: "jstr (Some (JStr s)) = Some s" "jstr None = None"
  by (simp_all add: jstr_def)

lemma hydrate_stored:
  assumes "stored_ok cr now vo s"
  shows "hydrateIntentProof cr now (stored_intent_json s) index field vo True = Inr (s, intent_proof s)"
proof -
  define row where "row = present (selected_fields s @ [(''acceptorIpHash'', Some (JStr (st_acceptorIpHash s))),
     (''releasedAt'', map_option JInt (st_releasedAt s)), (''releaseSecret'', map_option JStr (st_releaseSecret s))])"
  note get = selected_get [of s, folded row_def] stored_get [of s, folded row_def]
  have g: "map_of row ''intentDigest'' = Some (JStr (si_intentDigest s))" "map_of row ''intent'' = Some (intent_json (si_intent s))"
    "map_of row ''auth'' = Some (auth_json (si_auth s))" "map_of row ''receivedAt'' = Some (JInt (si_receivedAt s))"
    by (simp_all add: row_def selected_get)
  have r: "hydrate_release cr row index field vo (intent_proof s) = Inr (st_releasedAt s, st_releaseSecret s)"
    using assms
    by (cases "st_releasedAt s"; cases "st_releaseSecret s")
      (simp_all add: hydrate_release_def get stored_ok_def release_ok_def bad_if_def safe_nonneg_def intent_proof_def)
  have "verifyFillIntentV1 cr now True (intent_json (si_intent s)) (auth_json (si_auth s)) vo = Inr (intent_proof s)"
    using assms by (simp add: stored_ok_def intent_verifies_def)
  then show ?thesis using assms r unfolding stored_intent_json_def row_def [symmetric]
    by (simp add: hydrateIntentProof_def persistedObject_def jfield_def g get bad_if_def stored_ok_def safe_nonneg_def Let_def)
      (simp add: intent_proof_def)
qed

lemma hydrate_chosen:
  assumes "intent_verifies cr now vo s" "safe_nonneg (si_receivedAt s)"
  shows "\<exists>st. hydrateIntentProof cr now (JObj (present (selected_fields s))) index field vo False = Inr (st, intent_proof s) \<and>
    public_intent st = s"
proof -
  define row where "row = present (selected_fields s)"
  have g: "map_of row ''intentDigest'' = Some (JStr (si_intentDigest s))" "map_of row ''intent'' = Some (intent_json (si_intent s))"
    "map_of row ''auth'' = Some (auth_json (si_auth s))" "map_of row ''receivedAt'' = Some (JInt (si_receivedAt s))"
    "map_of row ''acceptorIpHash'' = None" "map_of row ''releasedAt'' = None" "map_of row ''releaseSecret'' = None"
    by (simp_all add: row_def present_def selected_fields_def)
  have "hydrate_release cr row index field vo (intent_proof s) = Inr (None, None)"
    by (simp add: hydrate_release_def g bad_if_def)
  then show ?thesis using assms unfolding row_def [symmetric]
    by (simp add: hydrateIntentProof_def persistedObject_def jfield_def g bad_if_def intent_verifies_def safe_nonneg_def Let_def)
      (simp add: public_intent_def selected_fill_intent.truncate_def intent_proof_def)
qed

lemma map_result_back:
  assumes "\<And>n x. x \<in> set xs \<Longrightarrow> f (n, g x) = Inr x"
  shows "map_result f (enumerate k (map g xs)) = Inr xs"
  using assms by (induction xs arbitrary: k) simp_all

lemma hydrate_list_back:
  assumes "map_of row key = Some (JArr (map g xs))" "length xs \<le> cap" "\<And>n x. x \<in> set xs \<Longrightarrow> f (n, g x) = Inr x"
  shows "hydrate_list row i key field cap f = Inr (Some xs)"
  using assms map_result_back [of xs f g 0] by (simp add: hydrate_list_def bad_if_def)

lemma hydrate_intents_back:
  assumes "proposals_ok cr now vo ord"
  shows "hydrate_intents cr now (present (row_fields ord)) i vo b = Inr (b\<lparr>o_fillIntents := o_fillIntents ord\<rparr>)"
proof (cases "o_fillIntents ord")
  case None
  then show ?thesis by (simp add: hydrate_intents_def hydrate_list_def row_get_protocol bad_if_def)
next
  case (Some xs)
  then have x: "intents_of ord = xs" by (simp add: intents_of_def)
  let ?f = "\<lambda>(n, raw). js_bind (hydrateIntentProof cr now raw i (''fill intent '' @ show_nat n) vo True) (\<lambda>r. Inr (fst r))"
  have "hydrate_list (present (row_fields ord)) i ''fillIntents'' ''fill intents'' MAX_FILL_INTENTS_PER_ORDER ?f = Inr (Some xs)"
    using assms hydrate_stored [of cr now vo] by (intro hydrate_list_back [of _ _ stored_intent_json])
      (simp_all add: row_get_protocol Some proposals_ok_def x)
  then show ?thesis using assms Some by (simp add: hydrate_intents_def proposals_ok_def x bad_if_def)
qed

lemma hydrate_fill_back:
  assumes "fill_ok cr now vo ord" "o_hashlock b = o_hashlock ord" "o_initiatorTimeout b = o_initiatorTimeout ord"
    "o_responderTimeout b = o_responderTimeout ord" "o_takerEthAccount b = o_takerEthAccount ord"
    "o_takerQrlAccount b = o_takerQrlAccount ord" "o_selectedIntent b = None" "o_fill b = None" "o_fillAuth b = None" "o_fillDigest b = None"
  shows "js_bind (hydrate_selected cr now (present (row_fields ord)) i vo b) (hydrate_fill cr now (present (row_fields ord)) i vo) =
    Inr (b\<lparr>o_selectedIntent := o_selectedIntent ord, o_fill := o_fill ord, o_fillAuth := o_fillAuth ord, o_fillDigest := o_fillDigest ord\<rparr>)"
proof (cases "o_selectedIntent ord")
  case None
  then have "o_fill ord = None" "o_fillAuth ord = None" "o_fillDigest ord = None" using assms(1) by (simp_all add: fill_ok_def)
  with None assms(7-10) show ?thesis by (simp add: hydrate_selected_def hydrate_fill_def row_get_protocol)
next
  case (Some s)
  with assms(1) obtain vf where vf: "o_fill ord = Some (vf_fill vf)" "o_fillAuth ord = Some (vf_auth vf)" "o_fillDigest ord = Some (vf_fillDigest vf)"
    "projects (vf_fill vf) ord" "verifyFillV1 cr now True (fill_json (vf_fill vf)) (auth_json (vf_auth vf)) vo (intent_proof s) = Inr vf"
    and s: "intent_verifies cr now vo s" "safe_nonneg (si_receivedAt s)" by (auto simp: fill_ok_def)
  from hydrate_chosen [OF s, of i "''selected intent''"] obtain st where
    st: "hydrateIntentProof cr now (JObj (present (selected_fields s))) i ''selected intent'' vo False = Inr (st, intent_proof s)" "public_intent st = s"
    by blast
  show ?thesis using vf st assms(2-6) Some
    by (simp add: hydrate_selected_def hydrate_fill_def row_get_protocol bad_if_def projects_def)
qed

lemma hydrate_cancel_back:
  assumes "cancel_ok cr now vo ord" "o_cancelProof b = None" "o_cancelAuth b = None" "o_cancelDigest b = None"
  shows "hydrate_cancel cr now (present (row_fields ord)) i vo b =
    Inr (b\<lparr>o_cancelProof := o_cancelProof ord, o_cancelAuth := o_cancelAuth ord, o_cancelDigest := o_cancelDigest ord\<rparr>)"
proof (cases "o_cancelProof ord")
  case None
  with assms(1) have "o_cancelAuth ord = None" "o_cancelDigest ord = None" by (simp_all add: cancel_ok_def)
  with None assms(2-4) show ?thesis by (simp add: hydrate_cancel_def row_get_protocol)
next
  case (Some c)
  with assms(1) show ?thesis by (auto simp: cancel_ok_def hydrate_cancel_def row_get_protocol bad_if_def)
qed

lemma hydrate_conflict_back:
  assumes "conflict_ok cr now vo c"
  shows "hydrate_conflict cr now i vo (n, conflict_json c) = Inr c"
  using assms by (cases c) (auto simp: hydrate_conflict_def persistedObject_def jfield_def bad_if_def)

lemma hydrate_order_conflict_back:
  assumes "variant_ok cr now oid c"
  shows "hydrate_order_conflict cr now i oid (n, order_conflict_json c) = Inr c"
proof -
  from assms obtain vo where vo: "verified_order_ok cr vo" "pa_issuedAt (vo_auth vo) \<le> now + MAX_CLOCK_SKEW_S" "vo_orderId vo = oid"
    "c = \<lparr>oc_orderDigest = vo_orderDigest vo, oc_order = vo_order vo, oc_auth = vo_auth vo\<rparr>" by (auto simp: variant_ok_def)
  with verifyOrderV1_again [OF vo(1,2)] show ?thesis
    by (simp add: hydrate_order_conflict_def persistedObject_def order_conflict_json_def jfield_def bad_if_def)
qed

lemma hydrate_conflicts_back:
  assumes "disputes_ok cr now vo ord" "o_fillDigest b = o_fillDigest ord" "o_cancelDigest b = o_cancelDigest ord" "o_conflicts b = []"
  shows "hydrate_conflicts cr now (present (row_fields ord)) i vo b = Inr (b\<lparr>o_conflicts := o_conflicts ord\<rparr>)"
proof (cases "o_conflicts ord = []")
  case True
  with assms(4) show ?thesis by (simp add: hydrate_conflicts_def hydrate_list_def row_get_protocol evidence_json_def bad_if_def)
next
  case False
  have "hydrate_list (present (row_fields ord)) i ''conflicts'' ''terminal conflicts'' MAX_CONFLICT_PROOFS (hydrate_conflict cr now i vo) =
      Inr (Some (o_conflicts ord))"
    using assms(1) False hydrate_conflict_back [of cr now vo] by (intro hydrate_list_back [of _ _ conflict_json])
      (simp_all add: row_get_protocol evidence_json_def disputes_ok_def)
  with assms show ?thesis by (simp add: hydrate_conflicts_def disputes_ok_def bad_if_def Let_def)
qed

lemma hydrate_order_conflicts_back:
  assumes "disputes_ok cr now vo ord" "o_orderDigest b = o_orderDigest ord" "o_id b = o_id ord" "o_orderConflicts b = []"
  shows "hydrate_order_conflicts cr now (present (row_fields ord)) i b = Inr (b\<lparr>o_orderConflicts := o_orderConflicts ord\<rparr>)"
proof (cases "o_orderConflicts ord = []")
  case True
  with assms(4) show ?thesis by (simp add: hydrate_order_conflicts_def hydrate_list_def row_get_protocol evidence_json_def bad_if_def)
next
  case False
  have "hydrate_list (present (row_fields ord)) i ''orderConflicts'' ''order conflicts'' MAX_CONFLICT_PROOFS
      (hydrate_order_conflict cr now i (o_id b)) = Inr (Some (o_orderConflicts ord))"
    using assms(1,3) False hydrate_order_conflict_back [of cr now "o_id ord"] by (intro hydrate_list_back [of _ _ order_conflict_json])
      (simp_all add: row_get_protocol evidence_json_def disputes_ok_def)
  with assms show ?thesis by (simp add: hydrate_order_conflicts_def disputes_ok_def bad_if_def Let_def)
qed

lemma hydrate_checks_ok:
  assumes "fill_ok cr now vo ord" "cancel_ok cr now vo ord" "released_ok cr vo ord"
  shows "hydrate_checks cr i vo ord = Inr ord"
proof -
  have "o_selectedIntent ord \<noteq> None \<Longrightarrow> o_fill ord \<noteq> None" "o_fill ord \<noteq> None \<Longrightarrow> o_status ord = Locking"
    using assms(1) by (auto simp: fill_ok_def projects_def split: option.splits)
  moreover have "o_cancelProof ord \<noteq> None \<Longrightarrow> o_fill ord = None \<Longrightarrow> o_status ord = Cancelled"
    using assms(2) by (auto simp: cancel_ok_def)
  ultimately show ?thesis using assms(3)
    by (cases "o_releaseSecret ord") (auto simp: hydrate_checks_def bad_if_def released_ok_def)
qed

lemma hydrate_protocol_back:
  assumes "proposals_ok cr now vo ord" "fill_ok cr now vo ord" "cancel_ok cr now vo ord" "disputes_ok cr now vo ord" "released_ok cr vo ord"
    and "o_makerAuth ord = Some ma" "o_orderDigest ord = Some d"
  shows "hydrate_protocol cr now (present (row_fields ord)) i vo
      ((strip_protocol ord)\<lparr>o_makerAuth := Some ma, o_orderDigest := Some d\<rparr>) = Inr ord"
proof -
  let ?row = "present (row_fields ord)"
  define b0 where "b0 = (strip_protocol ord)\<lparr>o_makerAuth := Some ma, o_orderDigest := Some d\<rparr>"
  define b1 where "b1 = b0\<lparr>o_fillIntents := o_fillIntents ord\<rparr>"
  define b3 where "b3 = b1\<lparr>o_selectedIntent := o_selectedIntent ord, o_fill := o_fill ord, o_fillAuth := o_fillAuth ord, o_fillDigest := o_fillDigest ord\<rparr>"
  define b4 where "b4 = b3\<lparr>o_cancelProof := o_cancelProof ord, o_cancelAuth := o_cancelAuth ord, o_cancelDigest := o_cancelDigest ord\<rparr>"
  define b5 where "b5 = b4\<lparr>o_conflicts := o_conflicts ord\<rparr>"
  define b6 where "b6 = b5\<lparr>o_orderConflicts := o_orderConflicts ord\<rparr>"
  note bs = b6_def b5_def b4_def b3_def b1_def b0_def strip_protocol_def
  have 1: "hydrate_intents cr now ?row i vo b0 = Inr b1" unfolding b1_def using assms(1) by (rule hydrate_intents_back)
  have 2: "js_bind (hydrate_selected cr now ?row i vo b1) (hydrate_fill cr now ?row i vo) = Inr b3"
    unfolding b3_def using assms(2) by (rule hydrate_fill_back) (simp_all add: bs)
  then have 2: "js_bind (hydrate_selected cr now ?row i vo b1) (\<lambda>o2. js_bind (hydrate_fill cr now ?row i vo o2) k) = k b3" for k :: "order \<Rightarrow> order api"
    by (auto simp: js_simps)
  have 4: "hydrate_cancel cr now ?row i vo b3 = Inr b4" unfolding b4_def using assms(3) by (rule hydrate_cancel_back) (simp_all add: bs)
  have 5: "hydrate_conflicts cr now ?row i vo b4 = Inr b5" unfolding b5_def using assms(4) by (rule hydrate_conflicts_back) (simp_all add: bs)
  have 6: "hydrate_order_conflicts cr now ?row i b5 = Inr b6"
    unfolding b6_def using assms(4) by (rule hydrate_order_conflicts_back) (simp_all add: bs assms(7))
  have b6: "b6 = ord\<lparr>o_equivocated := False\<rparr>" using assms(6,7) by (simp add: bs)
  have 7: "hydrate_checks cr i vo b6 = Inr b6"
    using assms(2,3,5) unfolding b6
    by (intro hydrate_checks_ok [of cr now]) (simp_all add: fill_ok_def cancel_ok_def released_ok_def release_proved_def projects_def cong: option.case_cong)
  have "hydrate_equivocated ?row b6 = ord"
    using assms(4) unfolding b6 by (cases "o_equivocated ord") (auto simp: hydrate_equivocated_def row_get_protocol flag_json_def disputes_ok_def)
  then show ?thesis unfolding b0_def [symmetric] by (simp add: hydrate_protocol_def 1 2 4 5 6 7)
qed

lemma row_back:
  assumes "restorable cr now ord"
  shows "hydratePersistedOrder cr now i (row_json ord) = Inr ord"
proof -
  let ?row = "present (row_fields ord)"
  have s: "scalars_ok ord" "coherent_row ord" using assms by (simp_all add: restorable_def)
  have sc: "js_bind (hydrate_kind ?row i) (\<lambda>o1. js_bind (hydrate_state ?row i o1) (\<lambda>o2. js_bind (hydrate_terms ?row i o2) k)) =
      k (strip_protocol ord)" for k :: "order \<Rightarrow> order api"
    using hydrate_scalars [OF s, of i] by (auto simp: js_simps)
  show ?thesis
  proof (cases "o_makerAuth ord")
    case None
    with assms have n: "no_protocol ord" by (simp add: restorable_def)
    then have f: "ord = strip_protocol ord" "o_releaseSecret ord = None" "o_federationSourceHash ord = None" by (simp_all add: no_protocol_def)
    have p: "o_orderDigest ord = None \<and> o_fillIntents ord = None \<and> o_fill ord = None \<and> o_fillAuth ord = None \<and> o_selectedIntent ord = None \<and>
        o_cancelProof ord = None \<and> o_cancelAuth ord = None \<and> o_cancelDigest ord = None \<and> \<not> o_equivocated ord \<and> o_conflicts ord = [] \<and>
        o_orderConflicts ord = []"
      by (subst (1 2 3 4 5 6 7 8 9 10 11) f(1)) (simp add: strip_protocol_def)
    have "o_federationSourceHash (strip_protocol ord) = None" using f(1,3) by metis
    then show ?thesis using f p None
      by (simp add: hydratePersistedOrder_def persistedObject_def row_json_def sc hydrate_maker_def row_get_protocol bad_if_def
          protocol_keys_def flag_json_def evidence_json_def)
  next
    case (Some ma)
    with assms obtain vo where vo: "maker_ok cr now vo ord" "proposals_ok cr now vo ord" "fill_ok cr now vo ord" "cancel_ok cr now vo ord"
      "disputes_ok cr now vo ord" "released_ok cr vo ord" by (auto simp: restorable_def)
    have "o_makerAuth ord = Some (vo_auth vo)" "o_orderDigest ord = Some (vo_orderDigest vo)" using vo(1) by (simp_all add: maker_ok_def)
    from hydrate_protocol_back [OF vo(2-6) this] show ?thesis
      by (simp add: hydratePersistedOrder_def persistedObject_def row_json_def sc hydrate_maker_back [OF vo(1)])
  qed
qed


section \<open>A file is read back\<close>

definition keyed :: "order list \<Rightarrow> (string, order) omap" where
  "keyed ords = map (\<lambda>r. (o_id r, r)) ords"

definition graced :: "int \<Rightarrow> order list \<Rightarrow> (string, int) omap" where
  "graced now ords = map (\<lambda>r. (o_id r, now)) (filter (\<lambda>r. o_status r = Open) ords)"

definition live_hashlocks :: "order list \<Rightarrow> string option list" where
  "live_hashlocks ords = map o_hashlock (filter (\<lambda>r. o_hashlock r \<noteq> None \<and> o_status r \<noteq> Cancelled) ords)"

definition portable_caps :: "order list \<Rightarrow> bool" where
  "portable_caps ords \<longleftrightarrow> count_where public_portable ords \<le> MAX_PUBLIC_PORTABLE_ORDERS \<and>
     count_where (\<lambda>r. public_portable r \<and> o_federationSourceHash r \<noteq> None) ords \<le> MAX_FEDERATED_PUBLIC_PORTABLE_ORDERS \<and>
     (\<forall>h. count_where (\<lambda>r. public_portable r \<and> o_federationSourceHash r = Some h) ords \<le> MAX_PUBLIC_PORTABLE_ORDERS_PER_FEDERATION_PEER)"

lemma filter_length_prefix: "length (filter P (xs @ [x])) \<le> length (filter P (xs @ x # ys))"
  by simp

lemma check_portable_ok:
  assumes "portable_caps (pre @ ord # ords)"
  shows "check_portable pre ord = Inr ()"
proof -
  let ?l = "pre @ ord # ords"
  have le: "length (filter P (pre @ [ord])) \<le> c" if "count_where P ?l \<le> c" for P and c :: nat
    using filter_length_prefix [of P pre ord ords] that unfolding count_where_def by linarith
  have f: "filter Q (filter P xs) = filter (\<lambda>r. P r \<and> Q r) xs" for P Q and xs :: "order list" by (simp add: conj_commute)
  have 1: "length (filter public_portable (pre @ [ord])) \<le> MAX_PUBLIC_PORTABLE_ORDERS"
    using assms by (intro le) (simp add: portable_caps_def)
  have 2: "length (filter (\<lambda>r. public_portable r \<and> o_federationSourceHash r \<noteq> None) (pre @ [ord])) \<le> MAX_FEDERATED_PUBLIC_PORTABLE_ORDERS"
    using assms by (intro le) (simp add: portable_caps_def)
  have 3: "length (filter (\<lambda>r. public_portable r \<and> o_federationSourceHash r = Some h) (pre @ [ord])) \<le> MAX_PUBLIC_PORTABLE_ORDERS_PER_FEDERATION_PEER"
    if "o_federationSourceHash ord = Some h" for h
    using assms that by (intro le) (auto simp: portable_caps_def)
  have e: "(\<exists>y. v = Some y) \<and> v = Some h \<longleftrightarrow> v = Some h" for v and h :: string by auto
  show ?thesis
  proof (cases "o_federationSourceHash ord")
    case None
    with 1 show ?thesis by (simp add: check_portable_def Let_def del: filter_append filter_filter)
  next
    case (Some h)
    with 1 2 3 [OF Some] show ?thesis by (simp add: check_portable_def Let_def f e del: filter_append filter_filter)
  qed
qed

lemma load_row_back:
  assumes "restorable cr now ord" "bk_orders bk = keyed pre" "bk_seenAt bk = graced now pre"
    and "distinct (map o_id (pre @ ord # ords))" "distinct (live_hashlocks (pre @ ord # ords))" "portable_caps (pre @ ord # ords)"
  shows "load_row cr now bk k (row_json ord) = Inr (bk\<lparr>bk_orders := keyed (pre @ [ord]), bk_seenAt := graced now (pre @ [ord])\<rparr>)"
proof -
  have ids: "o_id ord \<notin> o_id ` set pre" using assms(4) by auto
  then have "map_of (keyed pre) (o_id ord) = None" "map_of (graced now pre) (o_id ord) = None"
    by (auto simp: keyed_def graced_def map_of_eq_None_iff)
  note absent = this omap_update_absent [OF this(1), of ord] omap_update_absent [OF this(2), of now]
  have "\<not> live_hashlock_taken ord pre"
  proof
    assume t: "live_hashlock_taken ord pre"
    then have "o_hashlock ord \<in> set (live_hashlocks pre)"
      unfolding live_hashlock_taken_def live_hashlocks_def list_ex_iff by (metis (mono_tags, lifting) image_eqI list.set_map mem_Collect_eq set_filter)
    moreover have "live_hashlocks (pre @ ord # ords) = live_hashlocks pre @ o_hashlock ord # live_hashlocks ords"
      using t by (simp add: live_hashlocks_def live_hashlock_taken_def)
    ultimately show False using assms(5) by auto
  qed
  moreover have "orders_of bk = pre" by (simp add: orders_of_def assms(2) keyed_def comp_def)
  moreover have "keyed (pre @ [ord]) = keyed pre @ [(o_id ord, ord)]"
    "graced now (pre @ [ord]) = graced now pre @ (if o_status ord = Open then [(o_id ord, now)] else [])" by (simp_all add: keyed_def graced_def)
  ultimately show ?thesis using row_back [OF assms(1)] check_portable_ok [OF assms(6)] assms(2,3)
    by (simp add: load_row_def find_order_def absent put_order_def set_seen_def Let_def)
qed

lemma load_rows_back:
  assumes "\<forall>r\<in>set ords. restorable cr now r" "bk_orders bk = keyed pre" "bk_seenAt bk = graced now pre"
    and "distinct (map o_id (pre @ ords))" "distinct (live_hashlocks (pre @ ords))" "portable_caps (pre @ ords)"
  shows "load_rows cr now k (map row_json ords) bk = Inr (bk\<lparr>bk_orders := keyed (pre @ ords), bk_seenAt := graced now (pre @ ords)\<rparr>)"
  using assms
proof (induction ords arbitrary: k pre bk)
  case (Cons ord ords)
  have r: "restorable cr now ord" using Cons.prems(1) by simp
  note l = load_row_back [OF r Cons.prems(2-6)]
  show ?case using Cons.IH [of "bk\<lparr>bk_orders := keyed (pre @ [ord]), bk_seenAt := graced now (pre @ [ord])\<rparr>" "pre @ [ord]"] Cons.prems
    by (simp add: l)
qed simp

lemma fold_recent_seen:
  "bk_seenAt (fold (\<lambda>ip b. snd (recentIntentAdmissions ip now b)) ips bk) = bk_seenAt bk"
  by (induction ips arbitrary: bk) (simp_all add: recentIntentAdmissions_def Let_def)

lemma record_seen [simp]: "bk_seenAt (recordIntentAdmission ip t bk) = bk_seenAt bk"
  by (simp add: recordIntentAdmission_def pruneIntentAdmissions_def fold_recent_seen Let_def split: option.split)

lemma seed_orders [simp]: "bk_orders (seedIntentAdmissions cr now bk) = bk_orders bk" "bk_seenAt (seedIntentAdmissions cr now bk) = bk_seenAt bk"
proof -
  have f: "bk_orders (fold (\<lambda>i b. if P i then b else if Q i then b else recordIntentAdmission (g i) (h i) b) xs b) = bk_orders b \<and>
      bk_seenAt (fold (\<lambda>i b. if P i then b else if Q i then b else recordIntentAdmission (g i) (h i) b) xs b) = bk_seenAt b"
    for P Q g h b and xs :: "stored_intent list"
    by (induction xs arbitrary: b) simp_all
  show "bk_orders (seedIntentAdmissions cr now bk) = bk_orders bk" "bk_seenAt (seedIntentAdmissions cr now bk) = bk_seenAt bk"
    by (simp_all add: seedIntentAdmissions_def f Let_def)
qed

lemma open_written:
  assumes "book_wf bk" "\<forall>r\<in>set (orders_of bk). restorable cr now r" "distinct (live_hashlocks (orders_of bk))" "portable_caps (orders_of bk)"
  shows "\<exists>bk'. open_store cr now ttl (snd (writeSnapshot Written bk f)) = Inr bk' \<and> bk_orders bk' = bk_orders bk \<and>
    bk_seenAt bk' = graced now (orders_of bk)"
proof -
  have k: "keyed (orders_of bk) = bk_orders bk"
    using assms(1) by (auto simp: keyed_def orders_of_def book_wf_def comp_def case_prod_unfold intro!: map_idI)
  have "distinct (map o_id (orders_of bk))"
  proof -
    have "map o_id (orders_of bk) = map fst (bk_orders bk)" unfolding k [symmetric] by (simp add: keyed_def comp_def)
    with assms(1) show ?thesis by (simp add: book_wf_def)
  qed
  with load_rows_back [of "orders_of bk" cr now "new_store ttl" "[]" 0] assms k show ?thesis
    by (simp add: open_store_def load_book_def writeSnapshot_def new_store_def keyed_def graced_def)
qed

end
