(* ===== verification/Book_Reload.thy ===== *)
theory Book_Reload
  imports Book_Restart
begin

text \<open>
  What a start makes of an arbitrary orders file: every row it accepts is restorable, so a file cannot
  bring a proof into the book that its signer did not make, and a book that was read is written and
  read again unchanged.
\<close>

section \<open>Every row that is read is restorable\<close>

lemma bad_if_Inr [js_simps]: "bad_if b i f k = Inr r \<longleftrightarrow> \<not> b \<and> k = Inr r"
  by (simp add: bad_if_def invalidPersisted_def)

lemma invalidPersisted_Inr [js_simps]: "invalidPersisted i f \<noteq> Inr r"
  by (simp add: invalidPersisted_def)

lemma matchingString_Inr [js_simps]: "matchingString row i f p = Inr s \<longleftrightarrow> map_of row f = Some (JStr s) \<and> p s"
  by (auto simp: matchingString_def js_simps split: option.splits json.splits)

lemma safeInteger_Inr [js_simps]: "safeInteger row i f = Inr n \<longleftrightarrow> map_of row f = Some (JInt n) \<and> safe_nonneg n"
  by (auto simp: safeInteger_def safe_nonneg_def js_simps split: option.splits json.splits)

lemma read_options:
  "optionalMatchingString row i f p = Inr x \<Longrightarrow> pred_option p x"
  "nullableMatchingString row i f p = Inr x \<Longrightarrow> pred_option p x"
  "optionalSafeInteger row i f = Inr y \<Longrightarrow> pred_option safe_nonneg y"
  "nullableSafeInteger row i f = Inr y \<Longrightarrow> pred_option safe_nonneg y"
  by (auto simp: optionalMatchingString_def nullableMatchingString_def optionalSafeInteger_def nullableSafeInteger_def js_simps
      split: option.splits json.splits if_splits)

lemma visibility_read: "hydrate_visibility row i share = Inr v \<Longrightarrow> share \<noteq> None \<longrightarrow> v = Private"
  by (auto simp: hydrate_visibility_def js_simps split: option.splits if_splits)

lemma kind_read:
  assumes "hydrate_kind row i = Inr b"
  shows "strip_protocol b = b" "pred_option RAW_TOKEN_RE (o_shareTokenHash b)" "o_shareTokenHash b \<noteq> None \<longrightarrow> o_visibility b = Private"
proof -
  from assms obtain dir st a share v where "optionalMatchingString row i ''shareTokenHash'' RAW_TOKEN_RE = Inr share"
    "hydrate_visibility row i share = Inr v" and
    b: "b = blank_order\<lparr>o_direction := dir, o_status := st, o_asset := a, o_shareTokenHash := share, o_visibility := v\<rparr>"
    unfolding hydrate_kind_def by (auto simp: js_bind_Inr invalidPersisted_Inr split: option.splits)
  then show "strip_protocol b = b" "pred_option RAW_TOKEN_RE (o_shareTokenHash b)" "o_shareTokenHash b \<noteq> None \<longrightarrow> o_visibility b = Private"
    using read_options(1) visibility_read by (auto simp: b strip_protocol_def blank_order_def)
qed

lemma state_read:
  assumes "hydrate_state row i b = Inr c"
  shows "strip_protocol c = c \<longleftrightarrow> strip_protocol b = b"
    "o_shareTokenHash c = o_shareTokenHash b" "o_visibility c = o_visibility b"
    "pred_option HASHLOCK_RE (o_hashlock c)" "pred_option safe_nonneg (o_initiatorTimeout c)" "pred_option safe_nonneg (o_responderTimeout c)"
    "pred_option ETH_ADDR_RE (o_allowedTakerEth c)" "pred_option QRL_ADDR_RE (o_allowedTakerQrl c)"
    "pred_option RAW_TOKEN_RE (o_takerTokenHash c)" "pred_option RAW_TOKEN_RE (o_acceptorIpHash c)"
    "pred_option RAW_TOKEN_RE (o_creatorIpHash c)" "pred_option RAW_TOKEN_RE (o_federationSourceHash c)"
    "pred_option safe_nonneg (o_acceptedAt c)" "pred_option safe_nonneg (o_releasedAt c)" "pred_option BYTES32_RE (o_releaseSecret c)"
    "o_prelocked c \<longrightarrow> o_hashlock c \<noteq> None \<and> o_initiatorTimeout c \<noteq> None"
    "o_releaseSecret c \<noteq> None \<longrightarrow> map_of row ''releaseSecret'' \<noteq> None"
proof -
  from assms obtain h t1 t2 ae aq tt ai ci fs at1 rt rs where *:
    "nullableMatchingString row i ''hashlock'' HASHLOCK_RE = Inr h" "nullableSafeInteger row i ''initiatorTimeout'' = Inr t1"
    "nullableSafeInteger row i ''responderTimeout'' = Inr t2" "optionalMatchingString row i ''allowedTakerEth'' ETH_ADDR_RE = Inr ae"
    "optionalMatchingString row i ''allowedTakerQrl'' QRL_ADDR_RE = Inr aq" "optionalMatchingString row i ''takerTokenHash'' RAW_TOKEN_RE = Inr tt"
    "optionalMatchingString row i ''acceptorIpHash'' RAW_TOKEN_RE = Inr ai" "optionalMatchingString row i ''creatorIpHash'' RAW_TOKEN_RE = Inr ci"
    "optionalMatchingString row i ''federationSourceHash'' RAW_TOKEN_RE = Inr fs" "optionalSafeInteger row i ''acceptedAt'' = Inr at1"
    "optionalSafeInteger row i ''releasedAt'' = Inr rt" "optionalMatchingString row i ''releaseSecret'' BYTES32_RE = Inr rs"
    and c: "c = b\<lparr>o_hashlock := h, o_initiatorTimeout := t1, o_responderTimeout := t2,
         o_prelocked := (map_of row ''prelocked'' = Some (JBool True) \<and> h \<noteq> None \<and> t1 \<noteq> None), o_allowedTakerEth := ae,
         o_allowedTakerQrl := aq, o_takerTokenHash := tt, o_acceptorIpHash := ai, o_creatorIpHash := ci,
         o_federationSourceHash := fs, o_acceptedAt := at1, o_releasedAt := rt, o_releaseSecret := rs\<rparr>"
    unfolding hydrate_state_def js_bind_Inr by blast
  show "o_shareTokenHash c = o_shareTokenHash b" "o_visibility c = o_visibility b"
    "pred_option HASHLOCK_RE (o_hashlock c)" "pred_option safe_nonneg (o_initiatorTimeout c)" "pred_option safe_nonneg (o_responderTimeout c)"
    "pred_option ETH_ADDR_RE (o_allowedTakerEth c)" "pred_option QRL_ADDR_RE (o_allowedTakerQrl c)"
    "pred_option RAW_TOKEN_RE (o_takerTokenHash c)" "pred_option RAW_TOKEN_RE (o_acceptorIpHash c)"
    "pred_option RAW_TOKEN_RE (o_creatorIpHash c)" "pred_option RAW_TOKEN_RE (o_federationSourceHash c)"
    "pred_option safe_nonneg (o_acceptedAt c)" "pred_option safe_nonneg (o_releasedAt c)" "pred_option BYTES32_RE (o_releaseSecret c)"
    "o_prelocked c \<longrightarrow> o_hashlock c \<noteq> None \<and> o_initiatorTimeout c \<noteq> None"
    using *(1,2) *(3)[THEN read_options(4)] *(4-9)[THEN read_options(1)] *(10,11)[THEN read_options(3)] *(12)[THEN read_options(1)]
      *(1)[THEN read_options(2)] *(2)[THEN read_options(4)] by (simp_all add: c)
  show "o_releaseSecret c \<noteq> None \<longrightarrow> map_of row ''releaseSecret'' \<noteq> None"
    using *(12) by (auto simp: c optionalMatchingString_def split: option.splits)
  show "strip_protocol c = c \<longleftrightarrow> strip_protocol b = b"
    by (cases b) (auto simp: c strip_protocol_def)
qed

lemma terms_read:
  assumes "hydrate_terms row i c = Inr d"
  shows "\<exists>oid fa ta me mq te tq ca ua mt. ORDER_ID_RE oid \<and> AMOUNT_RE fa \<and> AMOUNT_RE ta \<and> ETH_ADDR_RE me \<and> QRL_ADDR_RE mq \<and>
    pred_option ETH_ADDR_RE te \<and> pred_option QRL_ADDR_RE tq \<and> safe_nonneg ca \<and> safe_nonneg ua \<and> RAW_TOKEN_RE mt \<and>
    d = c\<lparr>o_id := oid, o_fromAmount := fa, o_toAmount := ta, o_makerEthAccount := me, o_makerQrlAccount := mq,
         o_takerEthAccount := te, o_takerQrlAccount := tq, o_createdAt := ca, o_updatedAt := ua, o_makerTokenHash := mt\<rparr>"
  using assms unfolding hydrate_terms_def js_bind_Inr matchingString_Inr safeInteger_Inr
  by (fast dest!: read_options(2))

lemma scalars_read:
  assumes "hydrate_kind row i = Inr o1" "hydrate_state row i o1 = Inr o2" "hydrate_terms row i o2 = Inr d"
  shows "scalars_ok d" "coherent_row d" "strip_protocol d = d" "o_releaseSecret d \<noteq> None \<longrightarrow> map_of row ''releaseSecret'' \<noteq> None"
proof -
  note k = kind_read [OF assms(1)] and s = state_read [OF assms(2)]
  from terms_read [OF assms(3)] obtain oid fa ta me mq te tq ca ua mt where
    t: "ORDER_ID_RE oid" "AMOUNT_RE fa" "AMOUNT_RE ta" "ETH_ADDR_RE me" "QRL_ADDR_RE mq" "pred_option ETH_ADDR_RE te"
      "pred_option QRL_ADDR_RE tq" "safe_nonneg ca" "safe_nonneg ua" "RAW_TOKEN_RE mt" and
    d: "d = o2\<lparr>o_id := oid, o_fromAmount := fa, o_toAmount := ta, o_makerEthAccount := me, o_makerQrlAccount := mq,
         o_takerEthAccount := te, o_takerQrlAccount := tq, o_createdAt := ca, o_updatedAt := ua, o_makerTokenHash := mt\<rparr>"
    by blast
  from s(1) k(1) have st: "strip_protocol o2 = o2" by simp
  show "scalars_ok d" using t s(2-15) k(2) by (simp add: scalars_ok_def d)
  show "coherent_row d" using s(2,3,16) k(3) by (simp add: coherent_row_def d)
  have "strip_protocol d = (strip_protocol o2)\<lparr>o_id := oid, o_fromAmount := fa, o_toAmount := ta, o_makerEthAccount := me,
      o_makerQrlAccount := mq, o_takerEthAccount := te, o_takerQrlAccount := tq, o_createdAt := ca, o_updatedAt := ua, o_makerTokenHash := mt\<rparr>"
    by (simp add: d strip_protocol_def)
  then show "strip_protocol d = d" by (simp add: st d)
  show "o_releaseSecret d \<noteq> None \<longrightarrow> map_of row ''releaseSecret'' \<noteq> None" using s(17) by (simp add: d)
qed

lemma canonical_prelock_same:
  "canonical_prelock obj = Inr x \<Longrightarrow> map_of obj ''prelock'' = map_option prelock_json pl \<Longrightarrow> x = pl"
  by (cases pl) (auto simp: canonical_prelock_def prelock_json_def exactObject_JObj js_simps)

lemma canonical_takers_same:
  "canonical_takers obj v = Inr (e, q) \<Longrightarrow> map_of obj ''allowedTakerEth'' = map_option JStr te \<Longrightarrow>
     map_of obj ''allowedTakerQrl'' = map_option JStr tq \<Longrightarrow> e = te \<and> q = tq"
  by (cases te; cases tq) (auto simp: canonical_takers_def opt_string_def js_simps split: if_splits)

lemma canonical_body_same:
  assumes "canonicalOrderBody (JObj (order_body_obj b)) = Inr b'"
  shows "b' = b"
proof -
  note l = order_body_obj_lookup [of b]
  from assms obtain e q pl where t: "canonical_takers (order_body_obj b) (ob_visibility b) = Inr (e, q)"
    "canonical_prelock (order_body_obj b) = Inr pl" and b': "b' = \<lparr>ob_direction = ob_direction b, ob_asset = ob_asset b,
      ob_fromAmount = ob_fromAmount b, ob_toAmount = ob_toAmount b, ob_makerEthAccount = ob_makerEthAccount b,
      ob_makerQrlAccount = ob_makerQrlAccount b, ob_visibility = ob_visibility b, ob_allowedTakerEth = e, ob_allowedTakerQrl = q, ob_prelock = pl\<rparr>"
    by (auto simp: canonicalOrderBody_def js_simps allowedObject_JObj [OF order_body_obj_keys] l)
  from canonical_takers_same [OF t(1) l(8,9)] canonical_prelock_same [OF t(2) l(10)] show ?thesis by (simp add: b')
qed

lemma maker_read:
  assumes "hydrate_maker cr now row i d = Inr (e, p)" "scalars_ok d" "coherent_row d" "strip_protocol d = d"
    and "\<And>s. RAW_TOKEN_RE (cr_sha256Hex cr s)"
  shows "scalars_ok e \<and> coherent_row e \<and> o_releaseSecret e = o_releaseSecret d \<and>
    (case p of None \<Rightarrow> e = d \<and> o_federationSourceHash d = None
     | Some vo \<Rightarrow> maker_ok cr now vo e \<and> (strip_protocol e)\<lparr>o_makerAuth := o_makerAuth e, o_orderDigest := o_orderDigest e\<rparr> = e)"
proof (cases "map_of row ''makerAuth''")
  case None
  with assms show ?thesis by (auto simp: hydrate_maker_def js_simps)
next
  case (Some auth)
  define fs where "fs = (if o_visibility d = Public \<and> o_federationSourceHash d = None \<and> o_creatorIpHash d = Some (cr_sha256Hex cr ''federation'')
    then Some (cr_sha256Hex cr ''legacy-federation-source'') else o_federationSourceHash d)"
  from assms(1) Some obtain vo where vo: "verifyOrderV1 cr now True (signedOrderBody d) auth = Inr vo" "vo_orderId vo = o_id d" "p = Some vo" and
    e: "e = d\<lparr>o_makerAuth := Some (vo_auth vo), o_orderDigest := Some (vo_orderDigest vo), o_federationSourceHash := fs\<rparr>"
    unfolding fs_def by (auto simp: hydrate_maker_def js_simps Let_def)
  from vo(1) have "canonicalOrderBody (signedOrderBody d) = Inr (vo_order vo)" by (auto simp: verifyOrderV1_def js_simps)
  then have body: "vo_order vo = signed_body d" unfolding signedOrderBody_def by (rule canonical_body_same)
  note v = verifyOrderV1_Inr [OF vo(1)]
  have "signed_body e = signed_body d" by (simp add: e signed_body_def)
  moreover have "\<not> legacy_source cr e" by (simp add: e legacy_source_def fs_def)
  ultimately have m: "maker_ok cr now vo e" using v(1,2) vo(2) body by (simp add: maker_ok_def) (simp add: e)
  have sc: "scalars_ok e" using assms(2,5) by (simp add: scalars_ok_def e fs_def)
  have "coherent_row e" using assms(3) by (simp add: coherent_row_def e)
  moreover have "strip_protocol e = (strip_protocol d)\<lparr>o_federationSourceHash := fs\<rparr>" by (simp add: e strip_protocol_def)
  ultimately show ?thesis using sc m vo(3) assms(4) by (simp add: e)
qed

lemma number_case_Inr [js_simps]:
  "(case x of Some (JInt n) \<Rightarrow> k n | _ \<Rightarrow> invalidPersisted i f) = Inr r \<longleftrightarrow> (\<exists>n. x = Some (JInt n) \<and> k n = Inr r)"
  by (auto simp: js_simps split: option.splits json.splits)

lemma object_Inr [js_simps]: "persistedObject raw i f = Inr row \<longleftrightarrow> raw = JObj row"
  by (auto simp: persistedObject_def js_simps split: json.splits)

lemma bind_pair_Inr: "js_bind m (\<lambda>(a, b). k a b) = Inr r \<longleftrightarrow> (\<exists>a b. m = Inr (a, b) \<and> k a b = Inr r)"
  by (auto simp: js_bind_Inr)

lemma release_read:
  assumes "hydrate_release cr row i f vo vi = Inr (rt, rs)"
  shows "pred_option safe_nonneg rt \<and> (case rs of None \<Rightarrow> rt = None
     | Some s \<Rightarrow> rt \<noteq> None \<and> BYTES32_RE s \<and>
         computeReleaseCommitment cr (vo_orderDigest vo) (pa_nonce (vi_auth vi)) s = Inr (fi_releaseCommitment (vi_intent vi)))"
proof -
  define A where "A = (case map_of row ''releasedAt'' of None \<Rightarrow> Inr None
      | Some (JInt n) \<Rightarrow> bad_if (\<not> isSafeInteger n \<or> n < 0) i (f @ '' release time'') (Inr (Some n))
      | _ \<Rightarrow> invalidPersisted i (f @ '' release time''))"
  define B where "B = (case map_of row ''releaseSecret'' of None \<Rightarrow> Inr None
      | Some (JStr s) \<Rightarrow> bad_if (\<not> BYTES32_RE s) i (f @ '' release secret'') (Inr (Some s))
      | _ \<Rightarrow> invalidPersisted i (f @ '' release secret''))"
  define D where "D s = js_bind (computeReleaseCommitment cr (vo_orderDigest vo) (pa_nonce (vi_auth vi)) s)
      (\<lambda>c. Inr (c \<noteq> fi_releaseCommitment (vi_intent vi)))" for s
  from assms obtain wrong where a: "A = Inr rt" and b: "B = Inr rs" and c: "(rt = None) = (rs = None)" "\<not> wrong" and
    d: "(case rs of None \<Rightarrow> Inr False | Some s \<Rightarrow> D s) = Inr wrong"
    unfolding hydrate_release_def A_def [symmetric] B_def [symmetric] D_def [symmetric] js_bind_Inr bad_if_Inr by blast
  have "pred_option safe_nonneg rt"
    using a by (auto simp: A_def js_simps safe_nonneg_def split: option.splits json.splits)
  moreover have "pred_option BYTES32_RE rs"
    using b by (auto simp: B_def js_simps split: option.splits json.splits)
  ultimately show ?thesis using c d by (cases rs) (auto simp: D_def js_bind_Inr)
qed

lemma intent_read:
  assumes "hydrateIntentProof cr now raw i f vo ip = Inr (st, vi)" "\<And>s. RAW_TOKEN_RE (cr_sha256Hex cr s)"
  shows "intent_verifies cr now vo st \<and> safe_nonneg (si_receivedAt st) \<and> vi = intent_proof st \<and> (ip \<longrightarrow> stored_ok cr now vo st)"
proof -
  define acc where "acc row = (case jstr (map_of row ''acceptorIpHash'') of
      Some s \<Rightarrow> if ip \<and> RAW_TOKEN_RE s then s else cr_sha256Hex cr ''federated-intent'' | None \<Rightarrow> cr_sha256Hex cr ''federated-intent'')"
    for row
  from assms(1) obtain row n rt rs where row: "verifyFillIntentV1 cr now True (jfield row ''intent'') (jfield row ''auth'') vo = Inr vi"
    and n: "safe_nonneg n" "ip \<longrightarrow> jstr (map_of row ''acceptorIpHash'') = Some (acc row)"
    and rel: "hydrate_release cr row i f vo vi = Inr (rt, rs)"
    and eq: "st = \<lparr>si_intentDigest = vi_intentDigest vi, si_intent = vi_intent vi, si_auth = vi_auth vi, si_receivedAt = n,
      st_acceptorIpHash = acc row, st_releasedAt = rt, st_releaseSecret = rs\<rparr>"
    unfolding hydrateIntentProof_def bind_pair_Inr js_bind_Inr bad_if_Inr number_case_Inr Let_def acc_def [symmetric] safe_nonneg_def not_less de_Morgan_disj not_not
    by (elim exE conjE, case_tac ab) (simp only: prod.case sum.inject prod.inject, blast)
  have st: "si_intentDigest st = vi_intentDigest vi" "si_intent st = vi_intent vi" "si_auth st = vi_auth vi" by (simp_all add: eq)
  have p: "vi = intent_proof st" by (simp add: intent_proof_def st)
  have v: "intent_verifies cr now vo st"
    unfolding intent_verifies_def p [symmetric] st(2,3) using row by (rule verifyFillIntentV1_again) simp
  have "pred_option safe_nonneg (st_releasedAt st) \<and> release_ok cr vo st"
    using release_read [OF rel] by (simp add: release_ok_def eq cong: option.case_cong)
  moreover have "ip \<longrightarrow> RAW_TOKEN_RE (st_acceptorIpHash st)"
    using n(2) assms(2) by (auto simp: eq acc_def split: option.splits if_splits)
  moreover have "si_receivedAt st = n" by (simp add: eq)
  ultimately show ?thesis using p v n(1) by (simp add: stored_ok_def)
qed

lemma list_read:
  assumes "hydrate_list row i key field cap f = Inr xs" "\<forall>n raw x. f (n, raw) = Inr x \<longrightarrow> P x"
  shows "length (nvl xs []) \<le> cap \<and> (\<forall>x\<in>set (nvl xs []). P x) \<and> (xs \<noteq> None \<longrightarrow> map_of row key \<noteq> None)"
proof -
  have "list_all P ys" if "map_result f (enumerate k raws) = Inr ys" for raws ys k
    using that assms(2) by (induction raws arbitrary: k ys) (auto simp: js_simps)
  moreover have "length ys = length raws" if "map_result f (enumerate k raws) = Inr ys" for raws ys k
    using that by (induction raws arbitrary: k ys) (auto simp: js_simps)
  ultimately show ?thesis using assms(1)
    by (auto simp: hydrate_list_def js_simps list_all_iff split: option.splits json.splits)
qed

lemma intents_read:
  assumes "hydrate_intents cr now row i vo b = Inr c" "\<And>s. RAW_TOKEN_RE (cr_sha256Hex cr s)"
  shows "\<exists>xs. c = b\<lparr>o_fillIntents := xs\<rparr> \<and> length (nvl xs []) \<le> MAX_FILL_INTENTS_PER_ORDER \<and>
    distinct (map si_intentDigest (nvl xs [])) \<and> (\<forall>x\<in>set (nvl xs []). stored_ok cr now vo x)"
proof -
  let ?f = "\<lambda>(n, raw). js_bind (hydrateIntentProof cr now raw i (''fill intent '' @ show_nat n) vo True) (\<lambda>r. Inr (fst r))"
  from assms(1) obtain xs where xs: "hydrate_list row i ''fillIntents'' ''fill intents'' MAX_FILL_INTENTS_PER_ORDER ?f = Inr xs"
    "distinct (map si_intentDigest (nvl xs []))" "c = b\<lparr>o_fillIntents := xs\<rparr>" by (auto simp: hydrate_intents_def js_simps)
  have "\<forall>n raw x. ?f (n, raw) = Inr x \<longrightarrow> stored_ok cr now vo x"
    using intent_read [OF _ assms(2)] by (auto simp: js_simps)
  from list_read [OF xs(1), of "stored_ok cr now vo", OF this] xs(2,3) show ?thesis by blast
qed

lemma public_intent_same [simp]:
  "intent_proof (public_intent st) = intent_proof st" "intent_verifies cr now vo (public_intent st) = intent_verifies cr now vo st"
  "si_receivedAt (public_intent st) = si_receivedAt st"
  by (simp_all add: public_intent_def selected_fill_intent.truncate_def intent_proof_def intent_verifies_def)

lemma selected_read:
  assumes "hydrate_selected cr now row i vo b = Inr (c, sel)" "\<And>s. RAW_TOKEN_RE (cr_sha256Hex cr s)" "o_selectedIntent b = None"
  shows "\<exists>s. c = b\<lparr>o_selectedIntent := s\<rparr> \<and> sel = map_option intent_proof s \<and>
    (\<forall>x. s = Some x \<longrightarrow> intent_verifies cr now vo x \<and> safe_nonneg (si_receivedAt x))"
proof (cases "map_of row ''selectedIntent''")
  case None
  with assms(1,3) show ?thesis by (auto simp: hydrate_selected_def intro!: exI [of _ None])
next
  case (Some raw)
  with assms(1) obtain st vi where h: "hydrateIntentProof cr now raw i ''selected intent'' vo False = Inr (st, vi)"
    "c = b\<lparr>o_selectedIntent := Some (public_intent st)\<rparr>" "sel = Some vi" by (auto simp: hydrate_selected_def js_simps)
  from intent_read [OF h(1) assms(2)] h(2,3) show ?thesis by (intro exI [of _ "Some (public_intent st)"]) simp
qed

lemma verified_fill_again:
  "verifyFillV1 cr now True raw rawA vo vi = Inr vf \<Longrightarrow>
     verifyFillV1 cr now True (fill_json (vf_fill vf)) (auth_json (vf_auth vf)) vo vi = Inr vf"
  by (rule verifyFillV1_again [OF _ order_refl])

lemma verified_cancel_again:
  "verifyCancelV1 cr now True raw rawA vo = Inr vc \<Longrightarrow>
     verifyCancelV1 cr now True (cancel_json (vc_cancel vc)) (auth_json (vc_auth vc)) vo = Inr vc"
  by (rule verifyCancelV1_again [OF _ order_refl])

lemma complete_Inr:
  "(case (a, b, c, d) of (Some x, Some y, Some z, Some w) \<Rightarrow> k x y z w | _ \<Rightarrow> invalidPersisted i f) = Inr r \<longleftrightarrow>
     (\<exists>x y z w. a = Some x \<and> b = Some y \<and> c = Some z \<and> d = Some w \<and> k x y z w = Inr r)"
  "(case (a, b, c) of (Some x, Some y, Some z) \<Rightarrow> h x y z | _ \<Rightarrow> invalidPersisted i f) = Inr r \<longleftrightarrow>
     (\<exists>x y z. a = Some x \<and> b = Some y \<and> c = Some z \<and> h x y z = Inr r)"
  by (cases a; cases b; cases c; cases d; simp add: invalidPersisted_Inr)+

lemma fill_read:
  assumes "hydrate_fill cr now row i vo (b, sel) = Inr c" "o_fill b = None" "o_fillAuth b = None" "o_fillDigest b = None"
  shows "\<exists>f fa d. c = b\<lparr>o_fill := f, o_fillAuth := fa, o_fillDigest := d\<rparr> \<and>
    ((f = None \<and> fa = None \<and> d = None) \<or> (\<exists>vi vf. sel = Some vi \<and> f = Some (vf_fill vf) \<and> fa = Some (vf_auth vf) \<and> d = Some (vf_fillDigest vf) \<and>
       verifyFillV1 cr now True (fill_json (vf_fill vf)) (auth_json (vf_auth vf)) vo vi = Inr vf \<and>
       o_hashlock b = Some (fb_hashlock (vf_fill vf)) \<and> o_initiatorTimeout b = Some (fb_initiatorTimeout (vf_fill vf)) \<and>
       o_responderTimeout b = Some (fb_responderTimeout (vf_fill vf)) \<and> o_takerEthAccount b = Some (fb_takerEthAccount (vf_fill vf)) \<and>
       o_takerQrlAccount b = Some (fb_takerQrlAccount (vf_fill vf))))"
proof (cases "map_of row ''fill'' = None \<and> map_of row ''fillAuth'' = None \<and> map_of row ''fillDigest'' = None")
  case True
  with assms show ?thesis by (simp add: hydrate_fill_def) (intro exI [of _ None]; simp)
next
  case False
  then obtain rf ra vi vf where "sel = Some vi" "verifyFillV1 cr now True rf ra vo vi = Inr vf"
    "o_hashlock b = Some (fb_hashlock (vf_fill vf))" "o_initiatorTimeout b = Some (fb_initiatorTimeout (vf_fill vf))"
    "o_responderTimeout b = Some (fb_responderTimeout (vf_fill vf))" "o_takerEthAccount b = Some (fb_takerEthAccount (vf_fill vf))"
    "o_takerQrlAccount b = Some (fb_takerQrlAccount (vf_fill vf))"
    "c = b\<lparr>o_fill := Some (vf_fill vf), o_fillAuth := Some (vf_auth vf), o_fillDigest := Some (vf_fillDigest vf)\<rparr>"
    using assms(1) unfolding hydrate_fill_def Let_def if_not_P [OF False] fst_conv snd_conv complete_Inr js_bind_Inr bad_if_Inr by blast
  with verified_fill_again [of cr now rf ra vo vi vf] show ?thesis by blast
qed

lemma cancel_read:
  assumes "hydrate_cancel cr now row i vo b = Inr c" "o_cancelProof b = None" "o_cancelAuth b = None" "o_cancelDigest b = None"
  shows "\<exists>p pa d. c = b\<lparr>o_cancelProof := p, o_cancelAuth := pa, o_cancelDigest := d\<rparr> \<and>
    ((p = None \<and> pa = None \<and> d = None) \<or> (\<exists>vc. p = Some (vc_cancel vc) \<and> pa = Some (vc_auth vc) \<and> d = Some (vc_cancelDigest vc) \<and>
       verifyCancelV1 cr now True (cancel_json (vc_cancel vc)) (auth_json (vc_auth vc)) vo = Inr vc))"
proof (cases "map_of row ''cancelProof'' = None \<and> map_of row ''cancelAuth'' = None \<and> map_of row ''cancelDigest'' = None")
  case True
  with assms show ?thesis by (simp add: hydrate_cancel_def) (intro exI [of _ None]; simp)
next
  case False
  then obtain rc ra vc where "verifyCancelV1 cr now True rc ra vo = Inr vc"
    "c = b\<lparr>o_cancelProof := Some (vc_cancel vc), o_cancelAuth := Some (vc_auth vc), o_cancelDigest := Some (vc_cancelDigest vc)\<rparr>"
    using assms(1) unfolding hydrate_cancel_def Let_def if_not_P [OF False] complete_Inr js_bind_Inr bad_if_Inr by blast
  with verified_cancel_again [of cr now rc ra vo vc] show ?thesis by blast
qed

lemma conflict_read:
  assumes "hydrate_conflict cr now i vo (n, raw) = Inr c"
  shows "conflict_ok cr now vo c"
proof -
  from assms obtain conflict where "raw = JObj conflict" and
    "(\<exists>vi vf. verifyFillIntentV1 cr now True (jfield conflict ''intent'') (jfield conflict ''intentAuth'') vo = Inr vi \<and>
       verifyFillV1 cr now True (jfield conflict ''body'') (jfield conflict ''auth'') vo vi = Inr vf \<and>
       c = FillConflict (vf_fillDigest vf) (vf_fill vf) (vf_auth vf) (vi_intent vi) (vi_auth vi)) \<or>
     (\<exists>vc. verifyCancelV1 cr now True (jfield conflict ''body'') (jfield conflict ''auth'') vo = Inr vc \<and>
       c = CancelConflict (vc_cancelDigest vc) (vc_cancel vc) (vc_auth vc))"
    unfolding hydrate_conflict_def Let_def fst_conv snd_conv js_bind_Inr object_Inr bad_if_Inr
    by (auto simp: js_bind_Inr bad_if_Inr invalidPersisted_Inr split: if_splits)
  then show ?thesis
  proof (elim disjE exE conjE)
    fix vi vf
    assume v: "verifyFillIntentV1 cr now True (jfield conflict ''intent'') (jfield conflict ''intentAuth'') vo = Inr vi"
      "verifyFillV1 cr now True (jfield conflict ''body'') (jfield conflict ''auth'') vo vi = Inr vf"
      and c: "c = FillConflict (vf_fillDigest vf) (vf_fill vf) (vf_auth vf) (vi_intent vi) (vi_auth vi)"
    from verifyFillIntentV1_again [OF v(1) order_refl] verified_fill_again [OF v(2)] show ?thesis unfolding c by auto
  next
    fix vc
    assume v: "verifyCancelV1 cr now True (jfield conflict ''body'') (jfield conflict ''auth'') vo = Inr vc"
      and c: "c = CancelConflict (vc_cancelDigest vc) (vc_cancel vc) (vc_auth vc)"
    from verified_cancel_again [OF v] show ?thesis unfolding c by auto
  qed
qed

lemma conflicts_read:
  assumes "hydrate_conflicts cr now row i vo b = Inr c" "o_conflicts b = []"
  shows "\<exists>xs. c = b\<lparr>o_conflicts := xs\<rparr> \<and> length xs \<le> MAX_CONFLICT_PROOFS \<and> (\<forall>x\<in>set xs. conflict_ok cr now vo x) \<and>
    distinct (map conflict_digest xs) \<and> nvl (o_fillDigest b) [] \<notin> conflict_digest ` set xs \<and>
    nvl (o_cancelDigest b) [] \<notin> conflict_digest ` set xs"
proof -
  from assms(1) obtain xs where xs:
    "hydrate_list row i ''conflicts'' ''terminal conflicts'' MAX_CONFLICT_PROOFS (hydrate_conflict cr now i vo) = Inr xs"
    "distinct (map conflict_digest (nvl xs []))" "xs = None \<or> nvl (o_fillDigest b) [] \<notin> conflict_digest ` set (nvl xs []) \<and>
      nvl (o_cancelDigest b) [] \<notin> conflict_digest ` set (nvl xs [])" "c = b\<lparr>o_conflicts := nvl xs []\<rparr>"
    unfolding hydrate_conflicts_def Let_def js_bind_Inr bad_if_Inr by auto
  have "\<forall>n raw x. hydrate_conflict cr now i vo (n, raw) = Inr x \<longrightarrow> conflict_ok cr now vo x" using conflict_read by blast
  from list_read [OF xs(1) this] xs(2-4) show ?thesis by (intro exI [of _ "nvl xs []"]) auto
qed

lemma order_conflict_read:
  assumes "hydrate_order_conflict cr now i oid (n, raw) = Inr c"
  shows "variant_ok cr now oid c"
proof -
  from assms obtain row vo where v: "verifyOrderV1 cr now True (jfield row ''order'') (jfield row ''auth'') = Inr vo" and
    c: "vo_orderId vo = oid" "c = \<lparr>oc_orderDigest = vo_orderDigest vo, oc_order = vo_order vo, oc_auth = vo_auth vo\<rparr>"
    unfolding hydrate_order_conflict_def Let_def fst_conv snd_conv js_bind_Inr bad_if_Inr by auto
  from verifyOrderV1_Inr(1,2) [OF v] c show ?thesis unfolding variant_ok_def by blast
qed

lemma order_conflicts_read:
  assumes "hydrate_order_conflicts cr now row i b = Inr c"
  shows "\<exists>xs. c = b\<lparr>o_orderConflicts := xs\<rparr> \<and> length xs \<le> MAX_CONFLICT_PROOFS \<and> (\<forall>x\<in>set xs. variant_ok cr now (o_id b) x) \<and>
    distinct (map oc_orderDigest xs) \<and> nvl (o_orderDigest b) [] \<notin> oc_orderDigest ` set xs"
proof -
  from assms obtain xs where xs:
    "hydrate_list row i ''orderConflicts'' ''order conflicts'' MAX_CONFLICT_PROOFS (hydrate_order_conflict cr now i (o_id b)) = Inr xs"
    "distinct (map oc_orderDigest (nvl xs []))" "nvl (o_orderDigest b) [] \<notin> oc_orderDigest ` set (nvl xs [])"
    "c = b\<lparr>o_orderConflicts := nvl xs []\<rparr>"
    unfolding hydrate_order_conflicts_def Let_def js_bind_Inr bad_if_Inr by auto
  have "\<forall>n raw x. hydrate_order_conflict cr now i (o_id b) (n, raw) = Inr x \<longrightarrow> variant_ok cr now (o_id b) x"
    using order_conflict_read by blast
  from list_read [OF xs(1) this] xs(2-4) show ?thesis by blast
qed

lemma checks_read:
  assumes "hydrate_checks cr i vo b = Inr c"
  shows "c = b \<and> (o_selectedIntent b \<noteq> None \<longrightarrow> o_fill b \<noteq> None) \<and> (o_fill b \<noteq> None \<longrightarrow> o_status b = Locking) \<and>
    (o_cancelProof b \<noteq> None \<and> o_fill b = None \<longrightarrow> o_status b = Cancelled) \<and> released_ok cr vo b"
  using assms unfolding hydrate_checks_def bad_if_Inr released_ok_def
  by (cases "o_releaseSecret b") (auto simp: js_bind_Inr bad_if_Inr)

lemma protocol_read:
  assumes "hydrate_protocol cr now row i vo e = Inr ord" "\<And>s. RAW_TOKEN_RE (cr_sha256Hex cr s)"
    and e: "(strip_protocol e)\<lparr>o_makerAuth := o_makerAuth e, o_orderDigest := o_orderDigest e\<rparr> = e"
  shows "\<exists>fi se f fa fd p pa pd cs vs q. ord = e\<lparr>o_fillIntents := fi, o_selectedIntent := se, o_fill := f, o_fillAuth := fa,
      o_fillDigest := fd, o_cancelProof := p, o_cancelAuth := pa, o_cancelDigest := pd, o_conflicts := cs, o_orderConflicts := vs,
      o_equivocated := q\<rparr> \<and> proposals_ok cr now vo ord \<and> fill_ok cr now vo ord \<and> cancel_ok cr now vo ord \<and> disputes_ok cr now vo ord \<and>
      released_ok cr vo ord"
proof -
  have blank: "o_selectedIntent e = None" "o_fill e = None" "o_fillAuth e = None" "o_fillDigest e = None" "o_cancelProof e = None"
    "o_cancelAuth e = None" "o_cancelDigest e = None" "o_conflicts e = []"
    by (subst e [symmetric], simp add: strip_protocol_def)+
  from assms(1) obtain o1 o2 sel o3 o4 o5 o6 where s: "hydrate_intents cr now row i vo e = Inr o1"
    "hydrate_selected cr now row i vo o1 = Inr (o2, sel)" "hydrate_fill cr now row i vo (o2, sel) = Inr o3"
    "hydrate_cancel cr now row i vo o3 = Inr o4" "hydrate_conflicts cr now row i vo o4 = Inr o5"
    "hydrate_order_conflicts cr now row i o5 = Inr o6" "hydrate_checks cr i vo o6 = Inr o6" "ord = hydrate_equivocated row o6"
    unfolding hydrate_protocol_def js_bind_Inr by (metis checks_read sum.inject(2) surj_pair)
  from intents_read [OF s(1) assms(2)] obtain fi where o1: "o1 = e\<lparr>o_fillIntents := fi\<rparr>"
    and fi: "length (nvl fi []) \<le> MAX_FILL_INTENTS_PER_ORDER" "distinct (map si_intentDigest (nvl fi []))" "\<forall>x\<in>set (nvl fi []). stored_ok cr now vo x"
    by blast
  from selected_read [OF s(2) assms(2)] obtain se where o2: "o2 = o1\<lparr>o_selectedIntent := se\<rparr>" and sel: "sel = map_option intent_proof se"
    and se: "\<forall>x. se = Some x \<longrightarrow> intent_verifies cr now vo x \<and> safe_nonneg (si_receivedAt x)" by (auto simp: o1 blank)
  have b2: "o_fill o2 = None" "o_fillAuth o2 = None" "o_fillDigest o2 = None" by (simp_all add: o2 o1 blank)
  from fill_read [OF s(3) b2] obtain f fa fd where o3: "o3 = o2\<lparr>o_fill := f, o_fillAuth := fa, o_fillDigest := fd\<rparr>"
    and f: "(f = None \<and> fa = None \<and> fd = None) \<or> (\<exists>vi vf. sel = Some vi \<and> f = Some (vf_fill vf) \<and> fa = Some (vf_auth vf) \<and>
       fd = Some (vf_fillDigest vf) \<and> verifyFillV1 cr now True (fill_json (vf_fill vf)) (auth_json (vf_auth vf)) vo vi = Inr vf \<and>
       o_hashlock o2 = Some (fb_hashlock (vf_fill vf)) \<and> o_initiatorTimeout o2 = Some (fb_initiatorTimeout (vf_fill vf)) \<and>
       o_responderTimeout o2 = Some (fb_responderTimeout (vf_fill vf)) \<and> o_takerEthAccount o2 = Some (fb_takerEthAccount (vf_fill vf)) \<and>
       o_takerQrlAccount o2 = Some (fb_takerQrlAccount (vf_fill vf)))" by blast
  have b3: "o_cancelProof o3 = None" "o_cancelAuth o3 = None" "o_cancelDigest o3 = None" by (simp_all add: o3 o2 o1 blank)
  from cancel_read [OF s(4) b3] obtain p pa pd where o4: "o4 = o3\<lparr>o_cancelProof := p, o_cancelAuth := pa, o_cancelDigest := pd\<rparr>"
    and p: "(p = None \<and> pa = None \<and> pd = None) \<or> (\<exists>vc. p = Some (vc_cancel vc) \<and> pa = Some (vc_auth vc) \<and> pd = Some (vc_cancelDigest vc) \<and>
       verifyCancelV1 cr now True (cancel_json (vc_cancel vc)) (auth_json (vc_auth vc)) vo = Inr vc)" by blast
  from conflicts_read [OF s(5)] obtain cs where o5: "o5 = o4\<lparr>o_conflicts := cs\<rparr>" and cs: "length cs \<le> MAX_CONFLICT_PROOFS"
    "\<forall>x\<in>set cs. conflict_ok cr now vo x" "distinct (map conflict_digest cs)" "nvl fd [] \<notin> conflict_digest ` set cs"
    "nvl pd [] \<notin> conflict_digest ` set cs" by (auto simp: o4 o3 o2 o1 blank)
  from order_conflicts_read [OF s(6)] obtain vs where o6: "o6 = o5\<lparr>o_orderConflicts := vs\<rparr>" and vs: "length vs \<le> MAX_CONFLICT_PROOFS"
    "\<forall>x\<in>set vs. variant_ok cr now (o_id e) x" "distinct (map oc_orderDigest vs)" "nvl (o_orderDigest e) [] \<notin> oc_orderDigest ` set vs"
    by (auto simp: o5 o4 o3 o2 o1)
  define q where "q = o_equivocated ord"
  have ord: "ord = e\<lparr>o_fillIntents := fi, o_selectedIntent := se, o_fill := f, o_fillAuth := fa, o_fillDigest := fd, o_cancelProof := p,
      o_cancelAuth := pa, o_cancelDigest := pd, o_conflicts := cs, o_orderConflicts := vs, o_equivocated := q\<rparr>"
    using s(8) by (simp add: q_def hydrate_equivocated_def o6 o5 o4 o3 o2 o1)
  have q: "cs \<noteq> [] \<or> vs \<noteq> [] \<or> (f \<noteq> None \<and> p \<noteq> None) \<longrightarrow> q"
    using s(8) by (auto simp: q_def hydrate_equivocated_def o6 o5 o4 o3 o2 o1)
  from checks_read [OF s(7)] have ck: "se \<noteq> None \<longrightarrow> f \<noteq> None" "f \<noteq> None \<longrightarrow> o_status e = Locking"
    "p \<noteq> None \<and> f = None \<longrightarrow> o_status e = Cancelled" and rel: "released_ok cr vo o6" by (simp_all add: o6 o5 o4 o3 o2 o1)
  have "proposals_ok cr now vo ord" using fi by (simp add: proposals_ok_def intents_of_def ord)
  moreover have "fill_ok cr now vo ord"
    using f ck(1,2) se sel by (cases se) (auto simp: fill_ok_def projects_def ord o2 o1)
  moreover have "cancel_ok cr now vo ord" using p ck(3) by (auto simp: cancel_ok_def ord)
  moreover have "disputes_ok cr now vo ord" using cs vs q by (simp add: disputes_ok_def ord)
  moreover have "released_ok cr vo ord"
    using rel by (simp add: released_ok_def release_proved_def ord o6 o5 o4 o3 o2 o1 cong: option.case_cong)
  ultimately show ?thesis using ord by blast
qed

lemma maker_ok_same:
  "maker_ok cr now vo (e\<lparr>o_fillIntents := fi, o_selectedIntent := se, o_fill := f, o_fillAuth := fa, o_fillDigest := fd, o_cancelProof := p,
      o_cancelAuth := pa, o_cancelDigest := pd, o_conflicts := cs, o_orderConflicts := vs, o_equivocated := q\<rparr>) = maker_ok cr now vo e"
  by (simp add: maker_ok_def signed_body_def legacy_source_def)

lemma row_read:
  assumes "hydratePersistedOrder cr now i raw = Inr ord" "\<And>s. RAW_TOKEN_RE (cr_sha256Hex cr s)"
  shows "restorable cr now ord"
proof -
  from assms(1) obtain row o1 o2 d ep where h: "hydrate_kind row i = Inr o1" "hydrate_state row i o1 = Inr o2" "hydrate_terms row i o2 = Inr d"
    "hydrate_maker cr now row i d = Inr ep" and
    r: "(case ep of (e, p) \<Rightarrow> case p of None \<Rightarrow> bad_if (\<exists>k\<in>set protocol_keys. map_of row k \<noteq> None) i ''portable protocol state without maker proof'' (Inr e)
     | Some vo \<Rightarrow> hydrate_protocol cr now row i vo e) = Inr ord"
    unfolding hydratePersistedOrder_def js_bind_Inr by blast
  obtain e p where ep: "ep = (e, p)" by (cases ep)
  note r = r [unfolded ep prod.case] and sc = scalars_read [OF h(1-3)]
  note m = maker_read [OF h(4) [unfolded ep] sc(1-3) assms(2)]
  show ?thesis
  proof (cases p)
    case None
    with m have e: "e = d" "o_federationSourceHash d = None" by simp_all
    with r None have o: "ord = d" "map_of row ''releaseSecret'' = None" by (auto simp: bad_if_Inr protocol_keys_def)
    have "o_makerAuth d = None" by (subst sc(3) [symmetric]) (simp add: strip_protocol_def)
    moreover have "no_protocol d" using sc(3,4) o(2) e(2) by (simp add: no_protocol_def)
    ultimately show ?thesis using sc(1,2) by (simp add: restorable_def o(1))
  next
    case (Some vo)
    with m have e: "scalars_ok e" "coherent_row e" "maker_ok cr now vo e"
      "(strip_protocol e)\<lparr>o_makerAuth := o_makerAuth e, o_orderDigest := o_orderDigest e\<rparr> = e" by simp_all
    from r Some have "hydrate_protocol cr now row i vo e = Inr ord" by simp
    from protocol_read [OF this assms(2) e(4)] obtain fi se f fa fd p pa pd cs vs q where
      o: "ord = e\<lparr>o_fillIntents := fi, o_selectedIntent := se, o_fill := f, o_fillAuth := fa, o_fillDigest := fd, o_cancelProof := p,
        o_cancelAuth := pa, o_cancelDigest := pd, o_conflicts := cs, o_orderConflicts := vs, o_equivocated := q\<rparr>"
      and ok: "proposals_ok cr now vo ord" "fill_ok cr now vo ord" "cancel_ok cr now vo ord" "disputes_ok cr now vo ord" "released_ok cr vo ord"
      by blast
    have "scalars_ok ord" "coherent_row ord" using e(1,2) by (simp_all add: o scalars_ok_def coherent_row_def)
    moreover have "maker_ok cr now vo ord" using e(3) unfolding o maker_ok_same .
    moreover have "o_makerAuth ord \<noteq> None" using e(3) by (simp add: o maker_ok_def)
    ultimately show ?thesis using ok unfolding restorable_def by auto
  qed
qed


section \<open>Every file that is read\<close>

definition file_ok :: "crypto \<Rightarrow> int \<Rightarrow> book \<Rightarrow> bool" where
  "file_ok cr now bk \<longleftrightarrow> book_wf bk \<and> (\<forall>r\<in>set (orders_of bk). restorable cr now r) \<and> distinct (live_hashlocks (orders_of bk)) \<and>
     portable_caps (orders_of bk)"

lemma check_portable_Inr:
  assumes "check_portable pre ord = Inr u" "portable_caps pre"
  shows "portable_caps (pre @ [ord])"
proof (cases "public_portable ord")
  case False
  then show ?thesis using assms(2) by (auto simp: portable_caps_def count_where_def)
next
  case True
  let ?l = "pre @ [ord]"
  have a: "length (filter public_portable ?l) \<le> MAX_PUBLIC_PORTABLE_ORDERS"
    using assms(1) True by (auto simp: check_portable_def Let_def file_error_def split: if_splits)
  have f: "filter Q (filter P xs) = filter (\<lambda>r. P r \<and> Q r) xs" for P Q and xs :: "order list" by (simp add: conj_commute)
  have e: "(\<exists>y. v = Some y) \<and> v = Some h \<longleftrightarrow> v = Some h" for v and h :: string by auto
  show ?thesis
  proof (cases "o_federationSourceHash ord")
    case None
    with a assms(2) True show ?thesis by (auto simp: portable_caps_def count_where_def)
  next
    case (Some h)
    have b: "count_where (\<lambda>r. public_portable r \<and> o_federationSourceHash r \<noteq> None) ?l \<le> MAX_FEDERATED_PUBLIC_PORTABLE_ORDERS"
      "count_where (\<lambda>r. public_portable r \<and> o_federationSourceHash r = Some h) ?l \<le> MAX_PUBLIC_PORTABLE_ORDERS_PER_FEDERATION_PEER"
      using assms(1) True Some
      by (auto simp: check_portable_def Let_def file_error_def count_where_def f e simp del: filter_append filter_filter split: if_splits)
    have "count_where (\<lambda>r. public_portable r \<and> o_federationSourceHash r = Some h') ?l \<le> MAX_PUBLIC_PORTABLE_ORDERS_PER_FEDERATION_PEER"
      for h'
      using b(2) assms(2) Some by (cases "h' = h") (auto simp: portable_caps_def count_where_def)
    with a b(1) show ?thesis unfolding portable_caps_def count_where_def by blast
  qed
qed

lemma load_row_ok:
  assumes "load_row cr now bk i raw = Inr bk'" "file_ok cr now bk" "\<And>s. RAW_TOKEN_RE (cr_sha256Hex cr s)"
  shows "file_ok cr now bk'"
proof -
  from assms(1) obtain ord where h: "hydratePersistedOrder cr now i raw = Inr ord" "find_order bk (o_id ord) = None"
    "\<not> live_hashlock_taken ord (orders_of bk)" "check_portable (orders_of bk) ord = Inr ()" and
    b: "bk_orders bk' = bk_orders (put_order ord bk)"
    by (auto simp: load_row_def js_bind_Inr file_error_def set_seen_def Let_def split: if_splits)
  have rows: "bk_orders bk' = bk_orders bk @ [(o_id ord, ord)]"
    using h(2) omap_update_absent [of "bk_orders bk" "o_id ord" ord] by (simp add: b find_order_def put_order_def)
  then have l: "orders_of bk' = orders_of bk @ [ord]" by (simp add: orders_of_def)
  have "book_wf bk'" using assms(2) h(2) by (auto simp: file_ok_def book_wf_def rows find_order_def map_of_eq_None_iff)
  moreover have "\<forall>r\<in>set (orders_of bk'). restorable cr now r"
    using assms(2) row_read [OF h(1) assms(3)] by (simp add: file_ok_def l)
  moreover have "distinct (live_hashlocks (orders_of bk'))"
    using assms(2) h(3) by (auto simp: file_ok_def l live_hashlocks_def live_hashlock_taken_def list_ex_iff)
  moreover have "portable_caps (orders_of bk')" using check_portable_Inr [OF h(4)] assms(2) by (simp add: file_ok_def l)
  ultimately show ?thesis by (simp add: file_ok_def)
qed

lemma load_rows_ok:
  "load_rows cr now i raws bk = Inr bk' \<Longrightarrow> file_ok cr now bk \<Longrightarrow> (\<And>s. RAW_TOKEN_RE (cr_sha256Hex cr s)) \<Longrightarrow> file_ok cr now bk'"
proof (induction raws arbitrary: i bk)
  case (Cons raw raws)
  then obtain b where "load_row cr now bk i raw = Inr b" "load_rows cr now (Suc i) raws b = Inr bk'" by (auto simp: js_bind_Inr)
  with Cons.IH load_row_ok [OF _ Cons.prems(2,3)] Cons.prems(3) show ?case by blast
qed simp

lemma open_store_ok:
  assumes "open_store cr now ttl f = Inr bk" "\<And>s. RAW_TOKEN_RE (cr_sha256Hex cr s)"
  shows "file_ok cr now bk"
proof -
  have new: "file_ok cr now (new_store ttl)"
    by (simp add: file_ok_def new_store_def book_wf_def orders_of_def live_hashlocks_def portable_caps_def count_where_def)
  from assms(1) obtain b where b: "load_book cr now f (new_store ttl) = Inr b" "bk = seedIntentAdmissions cr now b"
    by (auto simp: open_store_def js_bind_Inr)
  have "file_ok cr now b"
    using b(1) new load_rows_ok [OF _ new assms(2)] by (auto simp: load_book_def file_error_def split: orders_file.splits json.splits)
  moreover have "file_ok cr now bk = file_ok cr now b" by (simp add: b(2) file_ok_def book_wf_def orders_of_def)
  ultimately show ?thesis by simp
qed

lemma restorable_authorised:
  assumes "restorable cr now ord"
  shows "authorised_row cr ord \<and> intents_ok cr ord"
proof (cases "o_makerAuth ord")
  case None
  with assms have n: "no_protocol ord" by (simp add: restorable_def)
  have "o_fill ord = None" "o_cancelProof ord = None" "o_fillIntents ord = None"
    by (subst conjunct1 [OF n [unfolded no_protocol_def]], simp add: strip_protocol_def)+
  with None show ?thesis
    by (simp add: authorised_row_def signed_row_def fill_authorised_def cancel_authorised_def intents_ok_def intents_of_def)
next
  case (Some a)
  with assms obtain vo where vo: "maker_ok cr now vo ord" "proposals_ok cr now vo ord" "fill_ok cr now vo ord" "cancel_ok cr now vo ord"
    by (auto simp: restorable_def)
  then have m: "verified_order_ok cr vo" "vo_orderId vo = o_id ord" "vo_auth vo = a" "o_orderDigest ord = Some (vo_orderDigest vo)"
    "vo_order vo = signed_body ord" using Some by (simp_all add: maker_ok_def)
  have "signed_row cr ord" using m Some by (auto simp: signed_row_def intro!: exI [of _ vo])
  moreover have "fill_authorised cr ord"
  proof (cases "o_selectedIntent ord")
    case None
    with vo(3) show ?thesis by (simp add: fill_ok_def fill_authorised_def)
  next
    case (Some s)
    with vo(3) obtain vf where i: "intent_verifies cr now vo s" and
      f: "o_fill ord = Some (vf_fill vf)" "o_fillAuth ord = Some (vf_auth vf)" "o_fillDigest ord = Some (vf_fillDigest vf)"
        "verifyFillV1 cr now True (fill_json (vf_fill vf)) (auth_json (vf_auth vf)) vo (intent_proof s) = Inr vf"
      by (auto simp: fill_ok_def)
    note v = verifyFillV1_Inr [OF f(4)] verifyFillIntentV1_Inr(1-3) [OF i [unfolded intent_verifies_def]]
    have "\<exists>fa i ia. fb_orderDigest (vf_fill vf) = vo_orderDigest vo \<and> fi_orderDigest i = vo_orderDigest vo \<and>
         o_fillAuth ord = Some fa \<and> o_fillDigest ord = Some (cr_digest cr (fill_payload (vf_fill vf) fa vo)) \<and>
         cr_verify cr (ob_makerQrlAccount (vo_order vo)) fa (fill_payload (vf_fill vf) fa vo) \<and>
         cr_verify cr (fb_takerQrlAccount (vf_fill vf)) ia (intent_payload i ia) \<and>
         fb_intentDigest (vf_fill vf) = cr_digest cr (intent_payload i ia) \<and>
         fi_takerQrlAccount i = fb_takerQrlAccount (vf_fill vf) \<and> fi_takerEthAccount i = fb_takerEthAccount (vf_fill vf) \<and>
         fill_windows_ok (vo_order vo) (vf_fill vf) fa"
      using v f(2,3) by (intro exI [of _ "vf_auth vf"] exI [of _ "vi_intent (intent_proof s)"] exI [of _ "vi_auth (intent_proof s)"]) simp
    with m(1,2) show ?thesis unfolding fill_authorised_def f(1) option.case by blast
  qed
  moreover have "cancel_authorised cr ord"
  proof (cases "o_cancelProof ord")
    case None
    then show ?thesis by (simp add: cancel_authorised_def)
  next
    case (Some c)
    with vo(4) obtain vc where c: "c = vc_cancel vc" "o_cancelAuth ord = Some (vc_auth vc)" "o_cancelDigest ord = Some (vc_cancelDigest vc)"
      "verifyCancelV1 cr now True (cancel_json c) (auth_json (vc_auth vc)) vo = Inr vc" by (auto simp: cancel_ok_def)
    from verifyCancelV1_Inr [OF c(4)] m(1,2) c(1-3) Some show ?thesis by (auto simp: cancel_authorised_def intro!: exI [of _ vo])
  qed
  moreover have "intent_signed cr i" if "i \<in> set (intents_of ord)" for i
  proof -
    have "intent_verifies cr now vo i" using vo(2) that by (simp add: proposals_ok_def stored_ok_def)
    then show ?thesis using verifyFillIntentV1_Inr(2,3) [of cr now True _ _ vo "intent_proof i"]
      by (simp add: intent_verifies_def intent_signed_def) (simp add: intent_proof_def)
  qed
  ultimately show ?thesis using vo(2) by (simp add: authorised_row_def intents_ok_def proposals_ok_def)
qed

lemma run_keeps_rows:
  assumes "book_wf bk" "all_rows (\<lambda>r. authorised_row cr r \<and> intents_ok cr r) (bk_orders bk)" "\<forall>op\<in>set ops. en_cr (op_env op) = cr"
  shows "all_rows (\<lambda>r. authorised_row cr r \<and> intents_ok cr r) (bk_orders (run_ops ops bk))"
  using assms
proof (induction ops arbitrary: bk)
  case (Cons op ops)
  have st: "book_step cr (op_now op) bk (exec_op op bk)" using exec_op_step [OF Cons.prems(1), of op] Cons.prems(3) by simp
  have a: "all_rows (authorised_row cr) (bk_orders bk)" "all_rows (intents_ok cr) (bk_orders bk)"
    using Cons.prems(2) by (auto simp: all_rows_def)
  have "all_rows (\<lambda>r. authorised_row cr r \<and> intents_ok cr r) (bk_orders (exec_op op bk))"
    using authorised.step_rows [OF st a(1)] intents.step_rows [OF st a(2)] by (auto simp: all_rows_def)
  with Cons.IH [OF book_step_wf [OF st Cons.prems(1)]] Cons.prems(3) show ?case by simp
qed simp


section \<open>Restarts\<close>

text \<open>
  C17: a file cannot forge a proof. Whatever an orders file holds, if the store opens, then after any
  further requests and peer events every row carries the order its maker signed, every fill was signed
  by such a maker and answers an intent its taker signed, every cancellation was signed by such a
  maker, and every proposal by its taker.
\<close>

theorem no_forged_row_after_restart:
  assumes "\<forall>s. RAW_TOKEN_RE (cr_sha256Hex cr s)" "open_store cr now ttl f = Inr bk" "\<forall>op\<in>set ops. en_cr (op_env op) = cr"
    and "ord \<in> set (orders_of (run_ops ops bk))"
  shows "signed_row cr ord \<and> fill_authorised cr ord \<and> cancel_authorised cr ord \<and> list_all (intent_signed cr) (intents_of ord)"
proof -
  have ok: "file_ok cr now bk" using open_store_ok [OF assms(2)] assms(1) by blast
  then have "all_rows (\<lambda>r. authorised_row cr r \<and> intents_ok cr r) (bk_orders bk)"
    using restorable_authorised by (force simp: file_ok_def all_rows_def orders_of_def)
  with run_keeps_rows [OF _ this assms(3)] ok have "all_rows (\<lambda>r. authorised_row cr r \<and> intents_ok cr r) (bk_orders (run_ops ops bk))"
    by (simp add: file_ok_def)
  with assms(4) show ?thesis
    by (auto simp: all_rows_def orders_of_def authorised_row_def intents_ok_def list_all_iff)
qed

lemma restorable_later:
  assumes "restorable cr now ord" "now \<le> now'"
  shows "restorable cr now' ord"
proof -
  have iv2: "intent_verifies cr now' vo i" if "intent_verifies cr now vo i" for vo and i :: selected_fill_intent
    using verifyFillIntentV1_again [of cr now True _ _ vo "intent_proof i" now'] that assms(2)
    by (simp add: intent_verifies_def) (simp add: intent_proof_def)
  have iv3: "intent_verifies cr now' vo i" if "intent_verifies cr now vo i" for vo and i :: stored_intent
    using verifyFillIntentV1_again [of cr now True _ _ vo "intent_proof i" now'] that assms(2)
    by (simp add: intent_verifies_def) (simp add: intent_proof_def)
  have p: "proposals_ok cr now' vo ord" if "proposals_ok cr now vo ord" for vo
    using that iv3 by (auto simp: proposals_ok_def stored_ok_def)
  have f: "fill_ok cr now' vo ord" if "fill_ok cr now vo ord" for vo
    using that iv2 verifyFillV1_again [OF _ assms(2)] by (auto simp: fill_ok_def split: option.splits)
  have c: "cancel_ok cr now' vo ord" if "cancel_ok cr now vo ord" for vo
    using that verifyCancelV1_again [OF _ assms(2)] by (auto simp: cancel_ok_def split: option.splits)
  have e: "conflict_ok cr now' vo x" if "conflict_ok cr now vo x" for vo x
    using that verifyFillIntentV1_again [OF _ assms(2)] verifyFillV1_again [OF _ assms(2)] verifyCancelV1_again [OF _ assms(2)]
    by (cases x) auto
  have v: "variant_ok cr now' oid x" if "variant_ok cr now oid x" for oid x
    using that assms(2) unfolding variant_ok_def by (auto intro: order_trans)
  have d: "disputes_ok cr now' vo ord" if "disputes_ok cr now vo ord" for vo using that e v by (simp add: disputes_ok_def)
  have m: "maker_ok cr now' vo ord" if "maker_ok cr now vo ord" for vo using that assms(2) by (simp add: maker_ok_def)
  have "maker_ok cr now' vo ord \<and> proposals_ok cr now' vo ord \<and> fill_ok cr now' vo ord \<and> cancel_ok cr now' vo ord \<and>
      disputes_ok cr now' vo ord \<and> released_ok cr vo ord"
    if "maker_ok cr now vo ord \<and> proposals_ok cr now vo ord \<and> fill_ok cr now vo ord \<and> cancel_ok cr now vo ord \<and>
      disputes_ok cr now vo ord \<and> released_ok cr vo ord" for vo
    using that p [of vo] f [of vo] c [of vo] d [of vo] m [of vo] by simp
  then show ?thesis using assms(1) unfolding restorable_def by metis
qed

text \<open>
  C16: a restart changes nothing. Whatever file a store was opened from, writing its rows back and
  opening the store again at any later time gives exactly the same rows in the same order, and every
  open listing gets one presence window.
\<close>

theorem restart_changes_nothing:
  assumes "\<forall>s. RAW_TOKEN_RE (cr_sha256Hex cr s)" "open_store cr now ttl f = Inr bk" "now \<le> now'"
  shows "\<exists>bk'. open_store cr now' ttl (snd (writeSnapshot Written bk f)) = Inr bk' \<and> bk_orders bk' = bk_orders bk \<and>
    bk_seenAt bk' = graced now' (orders_of bk)"
proof -
  have "file_ok cr now bk" using open_store_ok [OF assms(2)] assms(1) by blast
  then have "book_wf bk" "\<forall>r\<in>set (orders_of bk). restorable cr now' r" "distinct (live_hashlocks (orders_of bk))"
    "portable_caps (orders_of bk)" using restorable_later [OF _ assms(3)] by (auto simp: file_ok_def)
  then show ?thesis by (rule open_written)
qed

definition demo_cr2 :: crypto where
  "demo_cr2 = demo_cr\<lparr>cr_sha256Hex := \<lambda>_. hexes 64\<rparr>"

definition demo_kept :: order where
  "demo_kept = (fill_row demo_cr2 1050 demo_vi demo_vf demo_row)\<lparr>o_makerTokenHash := hexes 64, o_creatorIpHash := Some (hexes 64),
     o_federationSourceHash := Some (hexes 64)\<rparr>"

lemma demo_cr2_verifies:
  "verified_order_ok demo_cr2 demo_vo"
  "verifyFillIntentV1 demo_cr2 1050 True (intent_json (vi_intent demo_vi)) (auth_json (vi_auth demo_vi)) demo_vo = Inr demo_vi"
  "verifyFillV1 demo_cr2 1050 True (fill_json demo_fill) (auth_json (demo_auth 1010 1100)) demo_vo demo_vi = Inr demo_vf"
  using demo_vo_ok demo_vi_verifies [of True] demo_vf_verifies
  by (simp_all add: demo_cr2_def verified_order_ok_def verifyFillIntentV1_def verifyFillV1_def verifyProof_def)

lemma hexes_shapes:
  "RAW_TOKEN_RE (hexes 64)" "ORDER_ID_RE (hexes 64)" "ETH_ADDR_RE (''0x'' @ hexes 40)" "QRL_ADDR_RE (''Q'' @ hexes 128)"
  "HASHLOCK_RE (''0x'' @ hexes 64)"
  by (simp_all add: RAW_TOKEN_RE_def ORDER_ID_RE_def ETH_ADDR_RE_def QRL_ADDR_RE_def HASHLOCK_RE_def BYTES32_RE_def matches_def)

lemma demo_kept_restorable: "restorable demo_cr2 1050 demo_kept"
proof -
  note d = demo_kept_def fill_row_def demo_row_def new_order_def demo_terms_def demo_env_def demo_vo_def demo_vi_def demo_vf_def demo_fill_def
    demo_body_def Let_def
  have "scalars_ok demo_kept"
    by (simp add: scalars_ok_def d hexes_shapes hexes_shapes [simplified] safe_nonneg_def isSafeInteger_def MAX_SAFE_INTEGER_def AMOUNT_RE_def
        is_digit_def char_in_def intents_of_def demo_auth_def demo_cr2_def)
  moreover have "coherent_row demo_kept" by (simp add: coherent_row_def d)
  moreover have "maker_ok demo_cr2 1050 demo_vo demo_kept"
    using demo_cr2_verifies(1) by (simp add: maker_ok_def legacy_source_def MAX_CLOCK_SKEW_S_def demo_maker_auth_def)
      (simp add: d signed_body_def demo_maker_auth_def)
  moreover have "o_makerAuth demo_kept \<noteq> None" by (simp add: d)
  moreover have "proposals_ok demo_cr2 1050 demo_vo demo_kept" by (simp add: proposals_ok_def intents_of_def d)
  moreover have "fill_ok demo_cr2 1050 demo_vo demo_kept"
  proof -
    let ?s = "\<lparr>si_intentDigest = vi_intentDigest demo_vi, si_intent = vi_intent demo_vi, si_auth = vi_auth demo_vi, si_receivedAt = 1050\<rparr>"
    have "o_selectedIntent demo_kept = Some ?s"
      by (simp add: demo_kept_def fill_row_def intents_of_def demo_row_fields Let_def public_intent_def selected_fill_intent.truncate_def)
    moreover have "intent_proof ?s = demo_vi" by (simp add: intent_proof_def)
    moreover have "vf_fill demo_vf = demo_fill" "vf_auth demo_vf = demo_auth 1010 1100" by (simp_all add: demo_vf_def)
    moreover have "projects demo_fill demo_kept" "o_fill demo_kept = Some demo_fill" "o_fillAuth demo_kept = Some (demo_auth 1010 1100)"
      "o_fillDigest demo_kept = Some (vf_fillDigest demo_vf)" by (simp_all add: projects_def demo_kept_def fill_row_def Let_def demo_vf_def)
    ultimately show ?thesis using demo_cr2_verifies(2,3)
      by (simp add: fill_ok_def intent_verifies_def safe_nonneg_def isSafeInteger_def MAX_SAFE_INTEGER_def) (intro exI [of _ demo_vf], simp)
  qed
  moreover have "cancel_ok demo_cr2 1050 demo_vo demo_kept" by (simp add: cancel_ok_def d)
  moreover have "disputes_ok demo_cr2 1050 demo_vo demo_kept" by (simp add: disputes_ok_def d)
  moreover have "released_ok demo_cr2 demo_vo demo_kept" by (simp add: released_ok_def d intents_of_def)
  ultimately show ?thesis unfolding restorable_def by auto
qed

definition demo_file :: orders_file where
  "demo_file = Holds (JArr [row_json demo_kept])"

lemma demo_file_opens: "\<exists>bk. open_store demo_cr2 1050 90 demo_file = Inr bk \<and> bk_orders bk = [(hexes 64, demo_kept)]"
proof -
  let ?bk = "(new_store 90)\<lparr>bk_orders := [(hexes 64, demo_kept)]\<rparr>"
  have "o_id demo_kept = hexes 64" by (simp add: demo_kept_def fill_row_def Let_def demo_row_fields)
  then have wf: "book_wf ?bk" by (simp add: book_wf_def)
  have l: "orders_of ?bk = [demo_kept]" by (simp add: orders_of_def)
  have r: "\<forall>r\<in>set (orders_of ?bk). restorable demo_cr2 1050 r" unfolding l using demo_kept_restorable by simp
  have h: "distinct (live_hashlocks (orders_of ?bk))" unfolding l by (simp add: live_hashlocks_def)
  have c: "portable_caps (orders_of ?bk)" unfolding l
    by (simp add: portable_caps_def count_where_def MAX_PUBLIC_PORTABLE_ORDERS_def MAX_FEDERATED_PUBLIC_PORTABLE_ORDERS_def
        MAX_PUBLIC_PORTABLE_ORDERS_PER_FEDERATION_PEER_def)
  have "snd (writeSnapshot Written ?bk NoFile) = demo_file" by (simp add: writeSnapshot_def demo_file_def l)
  with open_written [OF wf r h c, of 90 NoFile] show ?thesis by auto
qed

lemma sha_demo: "\<forall>s. RAW_TOKEN_RE (cr_sha256Hex demo_cr2 s)"
  by (simp add: demo_cr2_def hexes_shapes)

lemma restart_changes_nothing_witness:
  "\<exists>bk bk'. open_store demo_cr2 1050 90 demo_file = Inr bk \<and>
     open_store demo_cr2 2000 90 (snd (writeSnapshot Written bk demo_file)) = Inr bk' \<and> bk_orders bk' = [(hexes 64, demo_kept)]"
proof -
  from demo_file_opens obtain bk where bk: "open_store demo_cr2 1050 90 demo_file = Inr bk" "bk_orders bk = [(hexes 64, demo_kept)]" by blast
  have "(1050::int) \<le> 2000" by simp
  from restart_changes_nothing [OF sha_demo bk(1) this] bk show ?thesis by auto
qed

lemma no_forged_row_after_restart_witness:
  "\<exists>bk. open_store demo_cr2 1050 90 demo_file = Inr bk \<and> fill_authorised demo_cr2 demo_kept \<and> o_fill demo_kept \<noteq> None"
proof -
  from demo_file_opens obtain bk where bk: "open_store demo_cr2 1050 90 demo_file = Inr bk" "bk_orders bk = [(hexes 64, demo_kept)]" by blast
  have "\<forall>op\<in>set []. en_cr (op_env op) = demo_cr2" "demo_kept \<in> set (orders_of (run_ops [] bk))" by (simp_all add: orders_of_def bk(2))
  from no_forged_row_after_restart [OF sha_demo bk(1) this] bk(1) show ?thesis
    by (simp add: demo_kept_def fill_row_def Let_def)
qed

end
