(* ===== verification/Process_Lease.thy ===== *)
theory Process_Lease
  imports Protocol_Types
begin

text \<open>
  The single-writer lease of \<^verbatim>\<open>server/src/process-lease.ts\<close> over one protected file. A process that
  starts observes the lease file, takes a recovery guard, looks again under the guard, writes its
  record and confirms it; a holder proves its ownership before every write, refreshes the file's time
  and notices when it is displaced. Each file operation is one step, so the steps of any number of
  starting, running and dying processes interleave freely.
\<close>

section \<open>Records and liveness\<close>

record lease_record =
  lr_pid :: int
  lr_processStart :: string
  lr_bootId :: string
  lr_pidNamespace :: string
  lr_identityDigest :: string
  lr_leaseId :: string

definition LEASE_TTL_MS :: int where "LEASE_TTL_MS = 90000"
definition LEASE_HEARTBEAT_INTERVAL_MS :: int where "LEASE_HEARTBEAT_INTERVAL_MS = 10000"
definition LEASE_CLOCK_SKEW_MS :: int where "LEASE_CLOCK_SKEW_MS = 30000"
definition GUARD_STALE_MS :: int where "GUARD_STALE_MS = 600000"

definition UNKNOWN_PID_NAMESPACE :: string where
  "UNKNOWN_PID_NAMESPACE = ''unknown''"

definition parseLease :: "json option \<Rightarrow> lease_record option" where
  "parseLease raw =
     (case raw of Some (JObj v) \<Rightarrow>
        (if map_of v ''version'' \<noteq> Some (JInt 1) then None
         else case (jsafe (map_of v ''pid''), jstr (map_of v ''processStart''), jstr (map_of v ''bootId''),
             jstr (map_of v ''pidNamespace''), jstr (map_of v ''identityDigest''), jstr (map_of v ''leaseId'')) of
           (Some p, Some s, Some b, Some n, Some d, Some l) \<Rightarrow>
             if p \<le> 0 then None
             else Some \<lparr>lr_pid = p, lr_processStart = s, lr_bootId = b, lr_pidNamespace = n, lr_identityDigest = d, lr_leaseId = l\<rparr>
         | _ \<Rightarrow> None)
      | _ \<Rightarrow> None)"

definition lease_json :: "lease_record \<Rightarrow> json" where
  "lease_json r = JObj [(''version'', JInt 1), (''pid'', JInt (lr_pid r)), (''processStart'', JStr (lr_processStart r)),
     (''bootId'', JStr (lr_bootId r)), (''pidNamespace'', JStr (lr_pidNamespace r)),
     (''identityDigest'', JStr (lr_identityDigest r)), (''leaseId'', JStr (lr_leaseId r))]"

text \<open>A lease file as observed: \<open>None\<close> is a file without a usable record.\<close>

record observed_lease =
  ol_record :: "lease_record option"
  ol_mtimeMs :: int

record lease_liveness =
  lv_bootId :: string
  lv_pidNamespace :: string
  lv_now :: int
  lv_ttlMs :: int

definition usesPidSemantics :: "lease_record \<Rightarrow> lease_liveness \<Rightarrow> bool" where
  "usesPidSemantics r lv \<longleftrightarrow>
     lv_pidNamespace lv \<noteq> UNKNOWN_PID_NAMESPACE \<and> lr_pidNamespace r \<noteq> UNKNOWN_PID_NAMESPACE \<and>
     lr_pidNamespace r = lv_pidNamespace lv \<and> lr_bootId r = lv_bootId lv"

definition heartbeatAgeMs :: "'a observed_lease_scheme \<Rightarrow> lease_liveness \<Rightarrow> int" where
  "heartbeatAgeMs ol lv = lv_now lv - ol_mtimeMs ol"

text \<open>\<open>procs\<close> is what \<^verbatim>\<open>/proc\<close> shows: the start time of a process id, when such a process runs.\<close>

definition live_within :: "int \<Rightarrow> (int \<Rightarrow> string option) \<Rightarrow> 'a observed_lease_scheme option \<Rightarrow> lease_liveness \<Rightarrow> bool" where
  "live_within ttl procs observed lv =
     (case observed of None \<Rightarrow> False
      | Some ol \<Rightarrow> (case ol_record ol of None \<Rightarrow> False
          | Some r \<Rightarrow>
              if usesPidSemantics r lv then lr_bootId r = lv_bootId lv \<and> procs (lr_pid r) = Some (lr_processStart r)
              else if heartbeatAgeMs ol lv < - LEASE_CLOCK_SKEW_MS then False
              else heartbeatAgeMs ol lv < ttl))"

definition isLiveLease :: "(int \<Rightarrow> string option) \<Rightarrow> 'a observed_lease_scheme option \<Rightarrow> lease_liveness \<Rightarrow> bool" where
  "isLiveLease procs observed lv = live_within (lv_ttlMs lv) procs observed lv"

definition isLiveGuard :: "(int \<Rightarrow> string option) \<Rightarrow> 'a observed_lease_scheme option \<Rightarrow> lease_liveness \<Rightarrow> bool" where
  "isLiveGuard procs observed lv = live_within GUARD_STALE_MS procs observed lv"


section \<open>A held lease\<close>

record process_lease =
  ps_leaseId :: string
  ps_ttlMs :: int
  ps_closed :: bool
  ps_lost :: bool
  ps_lostReason :: string
  ps_beating :: bool
  ps_failedBeats :: int
  ps_failureBudget :: int

definition LEASE_LOSS_REPLACED :: string where
  "LEASE_LOSS_REPLACED = ''the lease file now carries another holder'' @ [CHR 0x27] @ ''s lease id''"

definition LEASE_LOSS_REMOVED :: string where
  "LEASE_LOSS_REMOVED = ''the lease file was removed''"

definition LEASE_LOSS_UNVERIFIABLE :: "int \<Rightarrow> string" where
  "LEASE_LOSS_UNVERIFIABLE n = ''the lease file stayed unverifiable for '' @ show_int n @ '' consecutive heartbeats''"

definition new_lease :: "string \<Rightarrow> int \<Rightarrow> process_lease" where
  "new_lease l ttl = \<lparr>ps_leaseId = l, ps_ttlMs = ttl, ps_closed = False, ps_lost = False,
     ps_lostReason = LEASE_LOSS_REPLACED, ps_beating = False, ps_failedBeats = 0, ps_failureBudget = 1\<rparr>"

datatype 'a read_result = Unread | Saw "'a observed_lease_scheme option"

datatype lease_error = LeaseLost | LeaseUnverifiable | BadInterval

definition markLost :: "string \<Rightarrow> process_lease \<Rightarrow> process_lease" where
  "markLost reason p = (if ps_lost p then p else p\<lparr>ps_lost := True, ps_lostReason := reason, ps_beating := False\<rparr>)"

definition startHeartbeat :: "int \<Rightarrow> process_lease \<Rightarrow> (lease_error, process_lease) result" where
  "startHeartbeat intervalMs p =
     (if intervalMs * 3 > ps_ttlMs p then Inl BadInterval
      else if ps_beating p \<or> ps_closed p \<or> ps_lost p then Inr p
      else Inr (p\<lparr>ps_failureBudget := max 1 ((ps_ttlMs p - 2 * intervalMs) div intervalMs), ps_beating := True\<rparr>))"

definition assertOwned :: "'a read_result \<Rightarrow> process_lease \<Rightarrow> (lease_error, unit) result \<times> process_lease" where
  "assertOwned seen p =
     (if ps_lost p \<or> ps_closed p then (Inl LeaseLost, p)
      else case seen of
        Unread \<Rightarrow> (Inl LeaseUnverifiable, p)
      | Saw None \<Rightarrow> (Inl LeaseLost, markLost LEASE_LOSS_REMOVED p)
      | Saw (Some ol) \<Rightarrow> (case ol_record ol of
            None \<Rightarrow> (Inl LeaseUnverifiable, p)
          | Some r \<Rightarrow> if lr_leaseId r \<noteq> ps_leaseId p then (Inl LeaseLost, markLost LEASE_LOSS_REPLACED p) else (Inr (), p)))"

definition countFailedBeat :: "process_lease \<Rightarrow> process_lease" where
  "countFailedBeat p =
     (let p1 = p\<lparr>ps_failedBeats := ps_failedBeats p + 1\<rparr> in
      if ps_failedBeats p1 < ps_failureBudget p1 then p1 else markLost (LEASE_LOSS_UNVERIFIABLE (ps_failedBeats p1)) p1)"

text \<open>One beat: it reads the file and, when the file still carries this lease, sets its time; \<open>stamped\<close>
  tells whether the time could be set.\<close>

definition stamp_beat :: "bool \<Rightarrow> process_lease \<Rightarrow> process_lease" where
  "stamp_beat stamped p = (if stamped then p\<lparr>ps_failedBeats := 0\<rparr> else countFailedBeat p)"

definition beat :: "'a read_result \<Rightarrow> bool \<Rightarrow> process_lease \<Rightarrow> process_lease" where
  "beat seen stamped p =
     (if ps_closed p \<or> ps_lost p then p
      else case seen of
        Unread \<Rightarrow> countFailedBeat p
      | Saw None \<Rightarrow> markLost LEASE_LOSS_REMOVED p
      | Saw (Some ol) \<Rightarrow> (case ol_record ol of
            None \<Rightarrow> countFailedBeat p
          | Some r \<Rightarrow> if lr_leaseId r \<noteq> ps_leaseId p then markLost LEASE_LOSS_REPLACED p
              else stamp_beat stamped p))"

definition close_lease :: "process_lease \<Rightarrow> process_lease" where
  "close_lease p = (if ps_closed p then p else p\<lparr>ps_closed := True, ps_beating := False\<rparr>)"


section \<open>Processes on one lease file\<close>

text \<open>
  What a process records of itself, and the lifetime it runs with. A file has the identity of its creation:
  a starter that opens a file and is then slow to write its record writes into the file it opened, also
  when another has meanwhile been put under the same name.
\<close>

record process_identity =
  pi_pid :: int
  pi_start :: string
  pi_boot :: string
  pi_namespace :: string
  pi_digest :: string
  pi_ttl :: int

record lease_file = observed_lease +
  lf_inode :: string

datatype leaving = Retry | Refuse | Own string

text \<open>
  Where a process stands, by the file operation it performs next: \<open>n\<close> is the attempt of the acquisition
  loop, \<open>g\<close> the id of its recovery guard, \<open>l\<close> the id of its lease.
\<close>

datatype lease_phase =
    Unstarted
  | Looking nat
  | Guarding nat string
  | GuardCreated nat string
  | GuardSeen nat string
  | GuardStale nat string string
  | GuardWritten nat string
  | InGuard nat string
  | Checked nat string string bool
  | LeaseCreated nat string string
  | LeaseWritten nat string string
  | Leaving nat string leaving
  | Unlinking nat string leaving
  | Unlinked nat leaving
  | Holding process_lease
  | Beating process_lease
  | Closing process_lease
  | Ended

record lease_world =
  lw_lease :: "lease_file option"
  lw_guard :: "lease_file option"
  lw_now :: int
  lw_alive :: "nat list"
  lw_phase :: "nat \<Rightarrow> lease_phase"
  lw_drawn :: "string list"
  lw_disturbed :: bool

definition MAX_LEASE_ATTEMPTS :: nat where "MAX_LEASE_ATTEMPTS = 500"

definition proc_table :: "(nat \<Rightarrow> process_identity) \<Rightarrow> nat list \<Rightarrow> int \<Rightarrow> string option" where
  "proc_table who alive pid = map_option (\<lambda>q. pi_start (who q)) (find (\<lambda>q. pi_pid (who q) = pid) alive)"

definition liveness_of :: "(nat \<Rightarrow> process_identity) \<Rightarrow> nat \<Rightarrow> lease_world \<Rightarrow> lease_liveness" where
  "liveness_of who p w = \<lparr>lv_bootId = pi_boot (who p), lv_pidNamespace = pi_namespace (who p), lv_now = lw_now w, lv_ttlMs = pi_ttl (who p)\<rparr>"

definition makeRecord :: "process_identity \<Rightarrow> string \<Rightarrow> lease_record" where
  "makeRecord i l = \<lparr>lr_pid = pi_pid i, lr_processStart = pi_start i, lr_bootId = pi_boot i,
     lr_pidNamespace = pi_namespace i, lr_identityDigest = pi_digest i, lr_leaseId = l\<rparr>"

definition lease_id_of :: "'a observed_lease_scheme option \<Rightarrow> string option" where
  "lease_id_of observed = Option.bind observed (\<lambda>ol. map_option lr_leaseId (ol_record ol))"

definition lease_is_live :: "(nat \<Rightarrow> process_identity) \<Rightarrow> nat \<Rightarrow> lease_world \<Rightarrow> bool" where
  "lease_is_live who p w = isLiveLease (proc_table who (lw_alive w)) (lw_lease w) (liveness_of who p w)"

definition guard_is_live :: "(nat \<Rightarrow> process_identity) \<Rightarrow> nat \<Rightarrow> lease_world \<Rightarrow> bool" where
  "guard_is_live who p w = isLiveGuard (proc_table who (lw_alive w)) (lw_guard w) (liveness_of who p w)"

text \<open>An exclusive create leaves an empty file, a write fills the file that was opened, and a rename
  puts a complete file under the name.\<close>

definition empty_file :: "string \<Rightarrow> int \<Rightarrow> lease_file" where
  "empty_file l t = \<lparr>ol_record = None, ol_mtimeMs = t, lf_inode = l\<rparr>"

definition full_file :: "process_identity \<Rightarrow> string \<Rightarrow> int \<Rightarrow> lease_file" where
  "full_file i l t = \<lparr>ol_record = Some (makeRecord i l), ol_mtimeMs = t, lf_inode = l\<rparr>"

definition fill_file :: "process_identity \<Rightarrow> string \<Rightarrow> int \<Rightarrow> lease_file option \<Rightarrow> lease_file option" where
  "fill_file i l t f = (case f of None \<Rightarrow> None | Some x \<Rightarrow> if lf_inode x = l then Some (full_file i l t) else f)"

definition goto :: "nat \<Rightarrow> lease_phase \<Rightarrow> lease_world \<Rightarrow> lease_world" where
  "goto p ph w = w\<lparr>lw_phase := (lw_phase w)(p := ph)\<rparr>"

definition after_leaving :: "process_identity \<Rightarrow> nat \<Rightarrow> leaving \<Rightarrow> lease_phase" where
  "after_leaving i n next =
     (case next of Retry \<Rightarrow> Looking (n + 1) | Refuse \<Rightarrow> Ended | Own l \<Rightarrow> Holding (new_lease l (pi_ttl i)))"

text \<open>The next file operation of a process that acquires the lease; \<open>fresh\<close> is what the random source
  gives when the operation is followed by drawing an id.\<close>

fun acquire_step :: "(nat \<Rightarrow> process_identity) \<Rightarrow> nat \<Rightarrow> string \<Rightarrow> lease_world \<Rightarrow> lease_phase \<Rightarrow> lease_world" where
  "acquire_step who p fresh w (Looking n) =
     (if n \<ge> MAX_LEASE_ATTEMPTS then goto p Ended w
      else if lease_is_live who p w then goto p Ended w
      else goto p (Guarding n fresh) w)"
| "acquire_step who p fresh w (Guarding n g) =
     (if lw_guard w \<noteq> None then goto p (GuardSeen n g) w
      else goto p (GuardCreated n g) (w\<lparr>lw_guard := Some (empty_file g (lw_now w))\<rparr>))"
| "acquire_step who p fresh w (GuardCreated n g) =
     goto p (GuardWritten n g) (w\<lparr>lw_guard := fill_file (who p) g (lw_now w) (lw_guard w)\<rparr>)"
| "acquire_step who p fresh w (GuardSeen n g) =
     (case lw_guard w of
        None \<Rightarrow> goto p (Looking (n + 1)) w
      | Some f \<Rightarrow>
          if ol_record f = None \<or> guard_is_live who p w then goto p (Looking (n + 1)) w
          else goto p (GuardStale n g (lf_inode f)) w)"
| "acquire_step who p fresh w (GuardStale n g d) =
     goto p (GuardWritten n g) (w\<lparr>lw_guard := Some (full_file (who p) g (lw_now w)),
       lw_disturbed := (lw_disturbed w \<or> (case lw_guard w of None \<Rightarrow> False | Some f \<Rightarrow> lf_inode f \<noteq> d))\<rparr>)"
| "acquire_step who p fresh w (GuardWritten n g) = goto p (InGuard n g) w"
| "acquire_step who p fresh w (InGuard n g) =
     (if lease_is_live who p w then goto p (Leaving n g Refuse) w
      else goto p (Checked n g fresh (lw_lease w \<noteq> None)) w)"
| "acquire_step who p fresh w (Checked n g l present) =
     (if present then goto p (LeaseWritten n g l) (w\<lparr>lw_lease := Some (full_file (who p) l (lw_now w))\<rparr>)
      else if lw_lease w \<noteq> None then goto p (Leaving n g Retry) w
      else goto p (LeaseCreated n g l) (w\<lparr>lw_lease := Some (empty_file l (lw_now w))\<rparr>))"
| "acquire_step who p fresh w (LeaseCreated n g l) =
     goto p (LeaseWritten n g l) (w\<lparr>lw_lease := fill_file (who p) l (lw_now w) (lw_lease w)\<rparr>)"
| "acquire_step who p fresh w (LeaseWritten n g l) =
     goto p (Leaving n g (if lease_id_of (lw_lease w) = Some l then Own l else Retry)) w"
| "acquire_step who p fresh w (Leaving n g next) =
     (if lease_id_of (lw_guard w) = Some g then goto p (Unlinking n g next) w
      else goto p (after_leaving (who p) n next) w)"
| "acquire_step who p fresh w (Unlinking n g next) =
     (if lw_guard w = None then goto p Ended w
      else goto p (Unlinked n next) (w\<lparr>lw_guard := None\<rparr>))"
| "acquire_step who p fresh w (Unlinked n next) = goto p (after_leaving (who p) n next) w"
| "acquire_step who p fresh w _ = w"

text \<open>The same operation failing: under the guard the guard is still released, elsewhere the
  acquisition ends.\<close>

fun throw_phase :: "lease_phase \<Rightarrow> lease_phase" where
  "throw_phase (InGuard n g) = Leaving n g Refuse"
| "throw_phase (Checked n g l present) = Leaving n g Refuse"
| "throw_phase (LeaseCreated n g l) = Leaving n g Refuse"
| "throw_phase (LeaseWritten n g l) = Leaving n g Refuse"
| "throw_phase (Holding ps) = Holding ps"
| "throw_phase (Beating ps) = Holding (countFailedBeat ps)"
| "throw_phase (Closing ps) = Holding (close_lease ps)"
| "throw_phase Unstarted = Unstarted"
| "throw_phase _ = Ended"

definition beat_step :: "nat \<Rightarrow> process_lease \<Rightarrow> bool \<Rightarrow> lease_world \<Rightarrow> lease_world" where
  "beat_step p ps readable w =
     (let seen = (if readable then Saw (lw_lease w) else Unread) in
      if \<not> ps_closed ps \<and> \<not> ps_lost ps \<and> readable \<and> lease_id_of (lw_lease w) = Some (ps_leaseId ps) then goto p (Beating ps) w
      else goto p (Holding (beat seen False ps)) w)"

definition stamp_step :: "nat \<Rightarrow> process_lease \<Rightarrow> lease_world \<Rightarrow> lease_world" where
  "stamp_step p ps w =
     goto p (Holding (stamp_beat (lw_lease w \<noteq> None) ps)) (w\<lparr>lw_lease := map_option (ol_mtimeMs_update (\<lambda>_. lw_now w)) (lw_lease w)\<rparr>)"

definition close_step :: "nat \<Rightarrow> process_lease \<Rightarrow> bool \<Rightarrow> lease_world \<Rightarrow> lease_world" where
  "close_step p ps readable w =
     (if \<not> ps_closed ps \<and> \<not> ps_lost ps \<and> readable \<and> lease_id_of (lw_lease w) = Some (ps_leaseId ps)
      then goto p (Closing (close_lease ps)) w else goto p (Holding (close_lease ps)) w)"

definition assert_seen :: "bool \<Rightarrow> lease_world \<Rightarrow> unit lease_file_ext read_result" where
  "assert_seen readable w = (if readable then Saw (lw_lease w) else Unread)"

text \<open>The files an earlier run left, and no process started yet.\<close>

definition left_file :: "lease_record option \<times> int \<Rightarrow> lease_file" where
  "left_file f = \<lparr>ol_record = fst f, ol_mtimeMs = snd f, lf_inode = (case fst f of None \<Rightarrow> [] | Some r \<Rightarrow> lr_leaseId r)\<rparr>"

definition left_ids :: "(lease_record option \<times> int) option \<Rightarrow> string list" where
  "left_ids f = (case f of None \<Rightarrow> [] | Some x \<Rightarrow> [lf_inode (left_file x)])"

definition start_world :: "(lease_record option \<times> int) option \<Rightarrow> (lease_record option \<times> int) option \<Rightarrow> int \<Rightarrow> lease_world" where
  "start_world lease guard t = \<lparr>lw_lease = map_option left_file lease, lw_guard = map_option left_file guard, lw_now = t, lw_alive = [],
     lw_phase = (\<lambda>_. Unstarted),
     lw_drawn = left_ids lease @ left_ids guard,
     lw_disturbed = False\<rparr>"

text \<open>
  One step of the world. A process starts under a process id no running one has; it may die at any point;
  files may be removed by hand. \<open>lw_disturbed\<close> records that a file was removed by hand, or that the takeover
  of a guard replaced another one than the guard it judged dead.
\<close>

inductive lease_step :: "(nat \<Rightarrow> process_identity) \<Rightarrow> lease_world \<Rightarrow> lease_world \<Rightarrow> bool" for who :: "nat \<Rightarrow> process_identity" where
  starts: "\<lbrakk>lw_phase w p = Unstarted; pi_pid (who p) \<notin> (\<lambda>q. pi_pid (who q)) ` set (lw_alive w)\<rbrakk>
    \<Longrightarrow> lease_step who w (goto p (Looking 0) (w\<lparr>lw_alive := p # lw_alive w\<rparr>))"
| acts: "\<lbrakk>p \<in> set (lw_alive w); fresh \<notin> set (lw_drawn w)\<rbrakk>
    \<Longrightarrow> lease_step who w ((acquire_step who p fresh w (lw_phase w p))\<lparr>lw_drawn := fresh # lw_drawn w\<rparr>)"
| throws: "p \<in> set (lw_alive w) \<Longrightarrow> lease_step who w (goto p (throw_phase (lw_phase w p)) w)"
| begins: "\<lbrakk>p \<in> set (lw_alive w); lw_phase w p = Holding ps; startHeartbeat interval ps = Inr ps'\<rbrakk>
    \<Longrightarrow> lease_step who w (goto p (Holding ps') w)"
| asserts: "\<lbrakk>p \<in> set (lw_alive w); lw_phase w p = Holding ps\<rbrakk>
    \<Longrightarrow> lease_step who w (goto p (Holding (snd (assertOwned (assert_seen readable w) ps))) w)"
| beats: "\<lbrakk>p \<in> set (lw_alive w); lw_phase w p = Holding ps; ps_beating ps\<rbrakk>
    \<Longrightarrow> lease_step who w (beat_step p ps readable w)"
| stamps: "\<lbrakk>p \<in> set (lw_alive w); lw_phase w p = Beating ps\<rbrakk>
    \<Longrightarrow> lease_step who w (stamp_step p ps w)"
| closes: "\<lbrakk>p \<in> set (lw_alive w); lw_phase w p = Holding ps\<rbrakk>
    \<Longrightarrow> lease_step who w (close_step p ps readable w)"
| unlinks: "\<lbrakk>p \<in> set (lw_alive w); lw_phase w p = Closing ps\<rbrakk>
    \<Longrightarrow> lease_step who w (goto p (Holding (close_lease ps)) (w\<lparr>lw_lease := None\<rparr>))"
| dies: "p \<in> set (lw_alive w) \<Longrightarrow> lease_step who w (goto p Ended (w\<lparr>lw_alive := filter (\<lambda>q. q \<noteq> p) (lw_alive w)\<rparr>))"
| passes: "0 \<le> d \<Longrightarrow> lease_step who w (w\<lparr>lw_now := lw_now w + d\<rparr>)"
| removed: "lease_step who w (w\<lparr>lw_lease := (if onLease then None else lw_lease w),
    lw_guard := (if onLease then lw_guard w else None), lw_disturbed := True\<rparr>)"

abbreviation lease_reach :: "(nat \<Rightarrow> process_identity) \<Rightarrow> lease_world \<Rightarrow> lease_world \<Rightarrow> bool" where
  "lease_reach who \<equiv> (lease_step who)\<^sup>*\<^sup>*"

section \<open>A record survives its file\<close>

lemma parse_lease_json:
  assumes "0 < lr_pid r" "isSafeInteger (lr_pid r)"
  shows "parseLease (Some (lease_json r)) = Some r"
  using assms by (simp add: parseLease_def lease_json_def jsafe_def jstr_def)


section \<open>A failing heartbeat\<close>

text \<open>A beat that cannot read the file, finds no record in it, or cannot set its time.\<close>

definition failing_beat :: "string \<Rightarrow> unit observed_lease_scheme read_result \<times> bool \<Rightarrow> bool" where
  "failing_beat l b \<longleftrightarrow>
     (case fst b of Unread \<Rightarrow> True
      | Saw None \<Rightarrow> False
      | Saw (Some ol) \<Rightarrow> (case ol_record ol of None \<Rightarrow> True | Some r \<Rightarrow> lr_leaseId r = l \<and> \<not> snd b))"

definition beats_of :: "(unit observed_lease_scheme read_result \<times> bool) list \<Rightarrow> process_lease \<Rightarrow> process_lease" where
  "beats_of bs p = foldl (\<lambda>q b. beat (fst b) (snd b) q) p bs"

lemma failing_beat_counts:
  "\<not> ps_closed p \<Longrightarrow> \<not> ps_lost p \<Longrightarrow> failing_beat (ps_leaseId p) b \<Longrightarrow> beat (fst b) (snd b) p = countFailedBeat p"
  by (auto simp: failing_beat_def beat_def stamp_beat_def split: read_result.splits option.splits)

lemma lost_beats: "ps_lost p \<Longrightarrow> beats_of bs p = p"
  by (induction bs) (simp_all add: beats_of_def beat_def)

lemma countFailedBeat_facts:
  "ps_leaseId (countFailedBeat p) = ps_leaseId p" "ps_closed (countFailedBeat p) = ps_closed p"
  "ps_failureBudget (countFailedBeat p) = ps_failureBudget p" "ps_failedBeats (countFailedBeat p) = ps_failedBeats p + 1"
  "\<not> ps_lost p \<Longrightarrow> ps_lost (countFailedBeat p) \<longleftrightarrow> ps_failureBudget p \<le> ps_failedBeats p + 1"
  by (auto simp: countFailedBeat_def markLost_def Let_def)

lemma failing_beats_lost:
  assumes "\<not> ps_closed p" "\<not> ps_lost p" "ps_failedBeats p < ps_failureBudget p" "list_all (failing_beat (ps_leaseId p)) bs"
  shows "ps_lost (beats_of bs p) \<longleftrightarrow> ps_failureBudget p \<le> ps_failedBeats p + int (length bs)"
  using assms
proof (induction bs arbitrary: p)
  case (Cons b bs)
  have b: "beats_of (b # bs) p = beats_of bs (countFailedBeat p)"
    using failing_beat_counts [OF Cons.prems(1,2)] Cons.prems(4) by (simp add: beats_of_def)
  show ?case
  proof (cases "ps_lost (countFailedBeat p)")
    case True
    then show ?thesis using lost_beats [OF True] countFailedBeat_facts(5) [OF Cons.prems(2)] unfolding b by simp
  next
    case False
    then show ?thesis using Cons.IH [of "countFailedBeat p"] Cons.prems countFailedBeat_facts(5) [OF Cons.prems(2)]
      unfolding b by (simp add: countFailedBeat_facts add.assoc)
  qed
qed (simp add: beats_of_def)

lemma budget_in_time:
  fixes i ttl :: int assumes "0 < i" "i * 3 \<le> ttl"
  shows "max 1 ((ttl - 2 * i) div i) * i + 2 * i \<le> ttl"
proof -
  have "1 \<le> (ttl - 2 * i) div i" using zdiv_mono1 [of i "ttl - 2 * i" i] assms by simp
  moreover have "(ttl - 2 * i) div i * i \<le> ttl - 2 * i" using assms(1) by (simp add: minus_mod_eq_div_mult [symmetric])
  ultimately show ?thesis by (simp add: max_def)
qed

text \<open>
  C38: a holder that can no longer show it is alive notices in time. Once the heartbeat runs, a run of failing
  beats makes the lease lost exactly when it reaches the budget, and that many beats take at least two
  heartbeat intervals less than the lifetime a peer waits for before it takes the lease over.\<close>
theorem loss_precedes_expiry:
  assumes "startHeartbeat interval p = Inr p'" "0 < interval" "\<not> ps_beating p" "\<not> ps_closed p" "\<not> ps_lost p" "ps_failedBeats p = 0"
    "list_all (failing_beat (ps_leaseId p)) bs"
  shows "(ps_lost (beats_of bs p') \<longleftrightarrow> ps_failureBudget p' \<le> int (length bs)) \<and>
    ps_failureBudget p' * interval + 2 * interval \<le> ps_ttlMs p"
proof -
  have i: "interval * 3 \<le> ps_ttlMs p"
    and p': "p' = p\<lparr>ps_failureBudget := max 1 ((ps_ttlMs p - 2 * interval) div interval), ps_beating := True\<rparr>"
    using assms by (auto simp: startHeartbeat_def split: if_splits)
  show ?thesis using failing_beats_lost [of p' bs] assms budget_in_time [OF assms(2) i] unfolding p' by simp
qed

theorem loss_precedes_expiry_witness:
  "\<exists>p'. startHeartbeat LEASE_HEARTBEAT_INTERVAL_MS (new_lease ''l'' LEASE_TTL_MS) = Inr p' \<and> ps_failureBudget p' = 7 \<and>
     ps_lost (beats_of (replicate 7 (Unread, False)) p') \<and> \<not> ps_lost (beats_of (replicate 6 (Unread, False)) p')"
proof -
  let ?p = "new_lease ''l'' LEASE_TTL_MS"
  obtain p' where p': "startHeartbeat LEASE_HEARTBEAT_INTERVAL_MS ?p = Inr p'" "ps_failureBudget p' = 7"
    by (simp add: startHeartbeat_def new_lease_def LEASE_TTL_MS_def LEASE_HEARTBEAT_INTERVAL_MS_def)
  have "ps_lost (beats_of (replicate n (Unread, False)) p') \<longleftrightarrow> 7 \<le> n" for n
    using loss_precedes_expiry [OF p'(1), of "replicate n (Unread, False)"] p'(2)
    by (simp add: LEASE_HEARTBEAT_INTERVAL_MS_def new_lease_def failing_beat_def list_all_iff)
  from this [of 7] this [of 6] show ?thesis using p' by auto
qed


section \<open>The acquisition ends\<close>

fun acquiring :: "lease_phase \<Rightarrow> bool" where
  "acquiring Unstarted \<longleftrightarrow> False"
| "acquiring (Holding ps) \<longleftrightarrow> False"
| "acquiring (Beating ps) \<longleftrightarrow> False"
| "acquiring (Closing ps) \<longleftrightarrow> False"
| "acquiring Ended \<longleftrightarrow> False"
| "acquiring _ \<longleftrightarrow> True"

fun steps_left :: "lease_phase \<Rightarrow> nat" where
  "steps_left (Looking n) = (MAX_LEASE_ATTEMPTS - n) * 12 + 1"
| "steps_left (Guarding n g) = (MAX_LEASE_ATTEMPTS - n) * 12"
| "steps_left (GuardCreated n g) = (MAX_LEASE_ATTEMPTS - n) * 12 - 1"
| "steps_left (GuardSeen n g) = (MAX_LEASE_ATTEMPTS - n) * 12 - 1"
| "steps_left (GuardStale n g d) = (MAX_LEASE_ATTEMPTS - n) * 12 - 2"
| "steps_left (GuardWritten n g) = (MAX_LEASE_ATTEMPTS - n) * 12 - 3"
| "steps_left (InGuard n g) = (MAX_LEASE_ATTEMPTS - n) * 12 - 4"
| "steps_left (Checked n g l b) = (MAX_LEASE_ATTEMPTS - n) * 12 - 5"
| "steps_left (LeaseCreated n g l) = (MAX_LEASE_ATTEMPTS - n) * 12 - 6"
| "steps_left (LeaseWritten n g l) = (MAX_LEASE_ATTEMPTS - n) * 12 - 7"
| "steps_left (Leaving n g nx) = (MAX_LEASE_ATTEMPTS - n) * 12 - 8"
| "steps_left (Unlinking n g nx) = (MAX_LEASE_ATTEMPTS - n) * 12 - 9"
| "steps_left (Unlinked n nx) = (MAX_LEASE_ATTEMPTS - n) * 12 - 10"
| "steps_left _ = 0"

fun attempt_of :: "lease_phase \<Rightarrow> nat" where
  "attempt_of (Guarding n g) = n"
| "attempt_of (GuardCreated n g) = n"
| "attempt_of (GuardSeen n g) = n"
| "attempt_of (GuardStale n g d) = n"
| "attempt_of (GuardWritten n g) = n"
| "attempt_of (InGuard n g) = n"
| "attempt_of (Checked n g l b) = n"
| "attempt_of (LeaseCreated n g l) = n"
| "attempt_of (LeaseWritten n g l) = n"
| "attempt_of (Leaving n g nx) = n"
| "attempt_of (Unlinking n g nx) = n"
| "attempt_of (Unlinked n nx) = n"
| "attempt_of _ = 0"

text \<open>Each file operation of an acquisition brings it nearer to its end, whatever the others do.\<close>

lemma acquire_progress:
  assumes "acquiring ph" "attempt_of ph < MAX_LEASE_ATTEMPTS"
  shows "steps_left (lw_phase (acquire_step who p fresh w ph) p) < steps_left ph"
    and "attempt_of (lw_phase (acquire_step who p fresh w ph) p) < MAX_LEASE_ATTEMPTS"
proof -
  have m: "n < MAX_LEASE_ATTEMPTS \<Longrightarrow> 12 \<le> (MAX_LEASE_ATTEMPTS - n) * 12" for n by simp
  have s: "n < MAX_LEASE_ATTEMPTS \<Longrightarrow> (MAX_LEASE_ATTEMPTS - Suc n) * 12 + 12 = (MAX_LEASE_ATTEMPTS - n) * 12" for n by simp
  show "steps_left (lw_phase (acquire_step who p fresh w ph) p) < steps_left ph"
    using assms m [of "attempt_of ph"] s [of "attempt_of ph"]
    by (cases ph) (auto simp: goto_def after_leaving_def MAX_LEASE_ATTEMPTS_def split: leaving.split option.split)
  show "attempt_of (lw_phase (acquire_step who p fresh w ph) p) < MAX_LEASE_ATTEMPTS"
    using assms by (cases ph) (auto simp: goto_def after_leaving_def MAX_LEASE_ATTEMPTS_def split: leaving.split option.split)
qed

section \<open>The lease over a set of files\<close>

text \<open>\<^verbatim>\<open>BookLease\<close>: the files of a book in sorted order, one lease each; \<open>acquired\<close> is what acquiring the lease
  of a file gives. A failed acquisition closes the leases already held, last first.\<close>

definition book_files :: "(string \<Rightarrow> string) \<Rightarrow> string list \<Rightarrow> string list" where
  "book_files resolve files = sort (remdups (map resolve files))"

datatype 'e book_refusal = NoFiles | AcquireFailed 'e

fun acquire_each :: "(string \<Rightarrow> ('e, process_lease) result) \<Rightarrow> string list \<Rightarrow> process_lease list \<Rightarrow>
    ('e \<times> process_lease list, process_lease list) result" where
  "acquire_each acquired [] held = Inr held"
| "acquire_each acquired (f # fs) held =
     (case acquired f of Inl e \<Rightarrow> Inl (e, map close_lease (rev held)) | Inr p \<Rightarrow> acquire_each acquired fs (held @ [p]))"

definition book_acquire :: "(string \<Rightarrow> string) \<Rightarrow> (string \<Rightarrow> ('e, process_lease) result) \<Rightarrow> string list \<Rightarrow>
    ('e book_refusal \<times> process_lease list, process_lease list) result" where
  "book_acquire resolve acquired files =
     (if book_files resolve files = [] then Inl (NoFiles, [])
      else case acquire_each acquired (book_files resolve files) [] of
          Inl (e, closed) \<Rightarrow> Inl (AcquireFailed e, closed)
        | Inr held \<Rightarrow> Inr held)"

text \<open>The check stops at the first lease that does not pass; the leases before it have been looked at.\<close>

fun book_assertOwned :: "('a read_result \<times> process_lease) list \<Rightarrow> (lease_error, unit) result \<times> process_lease list" where
  "book_assertOwned [] = (Inr (), [])"
| "book_assertOwned ((seen, p) # ls) =
     (case assertOwned seen p of
        (Inl e, p') \<Rightarrow> (Inl e, p' # map snd ls)
      | (Inr u, p') \<Rightarrow> (let (r, ls') = book_assertOwned ls in (r, p' # ls')))"

definition book_close :: "process_lease list \<Rightarrow> process_lease list" where
  "book_close ls = rev (map close_lease (rev ls))"

lemma acquire_each_failed:
  "acquire_each acquired fs held = Inl (e, closed) \<Longrightarrow> list_all ps_closed closed"
  by (induction fs arbitrary: held) (auto simp: close_lease_def list_all_iff split: sum.splits)

lemma acquire_each_held:
  "acquire_each acquired fs held = Inr ls \<Longrightarrow> length ls = length held + length fs"
  by (induction fs arbitrary: held) (auto split: sum.splits)

lemma book_acquire_order:
  "book_acquire resolve acquired files = book_acquire resolve acquired files'" if "resolve ` set files = resolve ` set files'"
proof -
  have "book_files resolve files = book_files resolve files'"
    using that unfolding book_files_def by (intro sorted_distinct_set_unique) simp_all
  then show ?thesis by (simp add: book_acquire_def)
qed

lemma book_assertOwned_passes:
  "fst (book_assertOwned ls) = Inr () \<longleftrightarrow> list_all (\<lambda>(seen, p). fst (assertOwned seen p) = Inr ()) ls"
  by (induction ls rule: book_assertOwned.induct) (auto split: prod.splits sum.splits)

end
