(* ===== verification/Lease_Safety.thy ===== *)
theory Lease_Safety
  imports Process_Lease
begin

text \<open>
  What the writer lease guarantees. The write fence: at any moment at most one process passes
  \<^verbatim>\<open>assertOwned\<close>, and one whose lease is proved lost never passes again, whatever the interleaving. Exclusive
  holding: processes that see each other's process ids and are not disturbed hold the lease one at a time.
\<close>

section \<open>Ids\<close>

fun leaving_lease :: "leaving \<Rightarrow> string option" where
  "leaving_lease (Own l) = Some l"
| "leaving_lease _ = None"

text \<open>The lease id of a process that confirmed its record, and of one that is still writing it.\<close>

fun held_id :: "lease_phase \<Rightarrow> string option" where
  "held_id (Leaving n g nx) = leaving_lease nx"
| "held_id (Unlinking n g nx) = leaving_lease nx"
| "held_id (Unlinked n nx) = leaving_lease nx"
| "held_id (Holding ps) = Some (ps_leaseId ps)"
| "held_id (Beating ps) = Some (ps_leaseId ps)"
| "held_id (Closing ps) = Some (ps_leaseId ps)"
| "held_id _ = None"

fun writing_id :: "lease_phase \<Rightarrow> string option" where
  "writing_id (Checked n g l present) = Some l"
| "writing_id (LeaseCreated n g l) = Some l"
| "writing_id (LeaseWritten n g l) = Some l"
| "writing_id _ = None"

definition lease_id :: "lease_phase \<Rightarrow> string option" where
  "lease_id ph = (case held_id ph of Some l \<Rightarrow> Some l | None \<Rightarrow> writing_id ph)"

definition may_create :: "string \<Rightarrow> lease_phase \<Rightarrow> bool" where
  "may_create l ph = (case ph of Checked n g l' present \<Rightarrow> l' = l | _ \<Rightarrow> False)"

named_theorems lease_simps

lemma id_kept [lease_simps]:
  "ps_leaseId (markLost r ps) = ps_leaseId ps" "ps_leaseId (countFailedBeat ps) = ps_leaseId ps"
  "ps_leaseId (stamp_beat b ps) = ps_leaseId ps" "ps_leaseId (close_lease ps) = ps_leaseId ps"
  "ps_leaseId (new_lease l t) = l"
  by (simp_all add: markLost_def countFailedBeat_def stamp_beat_def close_lease_def new_lease_def Let_def)

lemma beat_id [lease_simps]: "ps_leaseId (beat seen b ps) = ps_leaseId ps"
  by (simp add: beat_def lease_simps split: read_result.splits option.splits)

lemma assert_id [lease_simps]: "ps_leaseId (snd (assertOwned seen ps)) = ps_leaseId ps"
  by (simp add: assertOwned_def lease_simps split: read_result.splits option.splits)

lemma startHeartbeat_id: "startHeartbeat i ps = Inr ps' \<Longrightarrow> ps_leaseId ps' = ps_leaseId ps"
  by (auto simp: startHeartbeat_def split: if_splits)

lemma goto_simps [simp]:
  "lw_phase (goto p ph w) = (lw_phase w)(p := ph)" "lw_lease (goto p ph w) = lw_lease w" "lw_guard (goto p ph w) = lw_guard w"
  "lw_drawn (goto p ph w) = lw_drawn w" "lw_alive (goto p ph w) = lw_alive w" "lw_now (goto p ph w) = lw_now w"
  "lw_disturbed (goto p ph w) = lw_disturbed w"
  by (simp_all add: goto_def)

text \<open>An acting process changes no phase but its own.\<close>

lemma acquire_others: "q \<noteq> p \<Longrightarrow> lw_phase (acquire_step who p fresh w ph) q = lw_phase w q"
  by (cases ph) (simp_all split: option.split)

lemma acquire_frame [simp]:
  "lw_drawn (acquire_step who p fresh w ph) = lw_drawn w" "lw_alive (acquire_step who p fresh w ph) = lw_alive w"
  "lw_now (acquire_step who p fresh w ph) = lw_now w"
  by (cases ph, simp_all split: option.split)+

lemma fill_file_facts:
  "fill_file i l t f = None \<longleftrightarrow> f = None"
  "fill_file i l t f = Some x \<Longrightarrow> \<exists>y. f = Some y \<and> lf_inode y = lf_inode x \<and>
     (x = y \<or> x = full_file i l t \<and> lf_inode y = l)"
  by (auto simp: fill_file_def full_file_def split: option.splits if_splits)

lemma file_simps [simp]:
  "lf_inode (empty_file l t) = l" "lf_inode (full_file i l t) = l" "ol_record (empty_file l t) = None"
  "ol_record (full_file i l t) = Some (makeRecord i l)" "lr_leaseId (makeRecord i l) = l"
  by (simp_all add: empty_file_def full_file_def makeRecord_def)


section \<open>The fence\<close>

text \<open>Ids are drawn once: no two processes have one, a file has the id it was created for, and a
  confirmed record does not become unreadable.\<close>

definition ids_drawn :: "lease_world \<Rightarrow> bool" where
  "ids_drawn w \<longleftrightarrow>
     (\<forall>p l. lease_id (lw_phase w p) = Some l \<longrightarrow> l \<in> set (lw_drawn w)) \<and>
     (\<forall>p q l. lease_id (lw_phase w p) = Some l \<longrightarrow> lease_id (lw_phase w q) = Some l \<longrightarrow> p = q)"

definition file_ids :: "lease_world \<Rightarrow> bool" where
  "file_ids w \<longleftrightarrow>
     (\<forall>f. lw_lease w = Some f \<longrightarrow> lf_inode f \<in> set (lw_drawn w) \<and> (\<forall>r. ol_record f = Some r \<longrightarrow> lr_leaseId r = lf_inode f) \<and>
        (ol_record f = None \<longrightarrow> (\<forall>p. held_id (lw_phase w p) \<noteq> Some (lf_inode f))))"

text \<open>The id of a displaced holder.\<close>

definition spent :: "string \<Rightarrow> lease_world \<Rightarrow> bool" where
  "spent l w \<longleftrightarrow> l \<in> set (lw_drawn w) \<and> (\<forall>p. \<not> may_create l (lw_phase w p)) \<and> (\<forall>f. lw_lease w = Some f \<longrightarrow> lf_inode f \<noteq> l)"

text \<open>How an id moves: an acting process keeps the id it has, drops it, or takes the fresh one.\<close>

lemma after_leaving_id: "lease_id (after_leaving i n nx) = leaving_lease nx" "held_id (after_leaving i n nx) = leaving_lease nx"
  "\<not> may_create l (after_leaving i n nx)"
  by (cases nx, simp_all add: after_leaving_def lease_id_def lease_simps may_create_def)+

lemma lease_id_simps [simp]:
  "lease_id Unstarted = None" "lease_id (Looking n) = None" "lease_id (Guarding n g) = None" "lease_id (GuardCreated n g) = None"
  "lease_id (GuardSeen n g) = None" "lease_id (GuardStale n g d) = None" "lease_id (GuardWritten n g) = None"
  "lease_id (InGuard n g) = None" "lease_id (Checked n g l b) = Some l" "lease_id (LeaseCreated n g l) = Some l"
  "lease_id (LeaseWritten n g l) = Some l" "lease_id (Leaving n g nx) = leaving_lease nx" "lease_id (Unlinking n g nx) = leaving_lease nx"
  "lease_id (Unlinked n nx) = leaving_lease nx" "lease_id (Holding ps) = Some (ps_leaseId ps)"
  "lease_id (Beating ps) = Some (ps_leaseId ps)" "lease_id (Closing ps) = Some (ps_leaseId ps)" "lease_id Ended = None"
  by (simp_all add: lease_id_def split: option.split)

lemma acquire_id:
  assumes "lw_phase w p = ph" "lease_id (lw_phase (acquire_step who p fresh w ph) p) = Some l"
  shows "lease_id ph = Some l \<or> l = fresh"
  using assms by (cases ph) (auto simp: after_leaving_id split: if_splits option.splits)

lemma acquire_held:
  assumes "lw_phase w p = ph" "held_id (lw_phase (acquire_step who p fresh w ph) p) = Some l" "held_id ph \<noteq> Some l"
  shows "lease_id_of (lw_lease w) = Some l \<and> lw_lease (acquire_step who p fresh w ph) = lw_lease w"
  using assms by (cases ph) (auto simp: after_leaving_id split: if_splits option.splits)

lemma throw_ids: "lease_id (throw_phase ph) = Some l \<Longrightarrow> held_id ph = Some l \<and> held_id (throw_phase ph) = Some l"
  by (cases ph) (simp_all add: lease_simps)

lemma held_lease_id: "held_id ph = Some l \<Longrightarrow> lease_id ph = Some l"
  by (simp add: lease_id_def)

text \<open>How the lease file moves.\<close>

lemma acquire_lease:
  assumes "lw_lease (acquire_step who p fresh w ph) \<noteq> lw_lease w"
  obtains l where "writing_id ph = Some l"
      "lw_lease (acquire_step who p fresh w ph) = Some (full_file (who p) l (lw_now w))"
      "may_create l ph \<or> (\<exists>f. lw_lease w = Some f \<and> lf_inode f = l)"
    | l where "may_create l ph" "writing_id ph = Some l"
      "lw_lease (acquire_step who p fresh w ph) = Some (empty_file l (lw_now w))"
      "held_id (lw_phase (acquire_step who p fresh w ph) p) = None"
  using assms by (cases ph) (auto simp: fill_file_def may_create_def split: if_splits option.splits)


subsection \<open>Every step keeps the ids apart\<close>

text \<open>Most steps change one phase only, without a new id.\<close>

lemma ids_drawn_same_phase:
  assumes "ids_drawn w" "lw_phase w' = (lw_phase w)(p := ph)" "set (lw_drawn w) \<subseteq> set (lw_drawn w')"
    "\<And>l. lease_id ph = Some l \<Longrightarrow> lease_id (lw_phase w p) = Some l \<or> l \<in> set (lw_drawn w') \<and> l \<notin> set (lw_drawn w)"
  shows "ids_drawn w'"
proof -
  have 1: "lease_id (lw_phase w q) = Some l \<Longrightarrow> l \<in> set (lw_drawn w)" for q l using assms(1) unfolding ids_drawn_def by blast
  have 2: "lease_id (lw_phase w q) = Some l \<Longrightarrow> lease_id (lw_phase w r) = Some l \<Longrightarrow> q = r" for q r l
    using assms(1) unfolding ids_drawn_def by blast
  show ?thesis unfolding ids_drawn_def assms(2)
    using assms(3,4) 1 2 by (auto simp: fun_upd_def split: if_splits)
qed

lemma acquire_phase_upd:
  "lw_phase w p = ph \<Longrightarrow> lw_phase (acquire_step who p fresh w ph) = (lw_phase w)(p := lw_phase (acquire_step who p fresh w ph) p)"
  by (rule ext) (simp add: acquire_others)

lemma holder_step_ids:
  "lw_phase (beat_step p ps b w) = (lw_phase w)(p := lw_phase (beat_step p ps b w) p)"
  "lease_id (lw_phase (beat_step p ps b w) p) = Some (ps_leaseId ps)"
  "lw_phase (close_step p ps b w) = (lw_phase w)(p := lw_phase (close_step p ps b w) p)"
  "lease_id (lw_phase (close_step p ps b w) p) = Some (ps_leaseId ps)"
  by (simp_all add: beat_step_def close_step_def Let_def lease_simps)

lemma beat_close_frame [simp]:
  "lw_lease (beat_step p ps b w) = lw_lease w" "lw_lease (close_step p ps b w) = lw_lease w"
  "lw_guard (beat_step p ps b w) = lw_guard w" "lw_guard (close_step p ps b w) = lw_guard w"
  "lw_alive (beat_step p ps b w) = lw_alive w" "lw_alive (close_step p ps b w) = lw_alive w"
  "lw_disturbed (beat_step p ps b w) = lw_disturbed w" "lw_disturbed (close_step p ps b w) = lw_disturbed w"
  by (simp_all add: beat_step_def close_step_def Let_def)

lemma stamp_frame [simp]:
  "lw_lease (stamp_step p ps w) = map_option (ol_mtimeMs_update (\<lambda>_. lw_now w)) (lw_lease w)"
  "lw_guard (stamp_step p ps w) = lw_guard w" "lw_alive (stamp_step p ps w) = lw_alive w"
  "lw_disturbed (stamp_step p ps w) = lw_disturbed w" "lw_drawn (stamp_step p ps w) = lw_drawn w"
  "lw_phase (stamp_step p ps w) = (lw_phase w)(p := Holding (stamp_beat (lw_lease w \<noteq> None) ps))"
  by (simp_all add: stamp_step_def)

lemma lease_step_phase:
  assumes "lease_step who w w'"
  obtains (same) "lw_phase w' = lw_phase w" "lw_drawn w' = lw_drawn w"
    | (moved) p ph where "lw_phase w' = (lw_phase w)(p := ph)" "set (lw_drawn w) \<subseteq> set (lw_drawn w')"
        "\<And>l. lease_id ph = Some l \<Longrightarrow> lease_id (lw_phase w p) = Some l \<or> l \<in> set (lw_drawn w') \<and> l \<notin> set (lw_drawn w)"
  using assms
proof cases
  case (acts p fresh)
  show thesis
    by (rule moved [of p "lw_phase (acquire_step who p fresh w (lw_phase w p)) p"])
      (use acts in \<open>auto simp: acquire_others fun_eq_iff dest!: acquire_id [OF refl]\<close>)
next
  case (throws p)
  show thesis by (rule moved [of p "throw_phase (lw_phase w p)"]) (use throws in \<open>auto dest: throw_ids intro: held_lease_id\<close>)
next
  case (begins p ps i ps')
  then show thesis by (intro moved [of p "Holding ps'"]) (auto dest: startHeartbeat_id)
next
  case (beats p ps b)
  show thesis
    by (rule moved [of p "lw_phase w' p"]) (use beats holder_step_ids [of p ps b w] in \<open>auto simp: beat_step_def Let_def\<close>)
next
  case (closes p ps b)
  show thesis
    by (rule moved [of p "lw_phase w' p"]) (use closes holder_step_ids [of p ps b w] in \<open>auto simp: close_step_def Let_def\<close>)
next
  case (starts p)
  then show thesis by (intro moved [of p "Looking 0"]) auto
next
  case (asserts p ps b)
  then show thesis by (intro moved [of p "Holding (snd (assertOwned (assert_seen b w) ps))"]) (auto simp: lease_simps)
next
  case (stamps p ps)
  then show thesis by (intro moved [of p "Holding (stamp_beat (lw_lease w \<noteq> None) ps)"]) (auto simp: lease_simps)
next
  case (unlinks p ps)
  then show thesis by (intro moved [of p "Holding (close_lease ps)"]) (auto simp: lease_simps)
next
  case (dies p)
  then show thesis by (intro moved [of p Ended]) auto
qed (rule same; simp)+

lemma ids_drawn_step: "lease_step who w w' \<Longrightarrow> ids_drawn w \<Longrightarrow> ids_drawn w'"
  by (erule lease_step_phase) (simp add: ids_drawn_def, rule ids_drawn_same_phase)

text \<open>How the lease file moves in a step: it stays up to its time, it goes, or the acting process writes it.\<close>

definition same_lease :: "lease_file option \<Rightarrow> lease_file option \<Rightarrow> bool" where
  "same_lease f f' \<longleftrightarrow> map_option (\<lambda>x. (lf_inode x, ol_record x)) f = map_option (\<lambda>x. (lf_inode x, ol_record x)) f'"

lemma same_lease_refl [simp]: "same_lease f f"
  by (simp add: same_lease_def)

lemma same_lease_Some: "same_lease f (Some x') \<Longrightarrow> \<exists>x. f = Some x \<and> lf_inode x = lf_inode x' \<and> ol_record x = ol_record x'"
  by (auto simp: same_lease_def)

lemma same_lease_stamped [simp]: "same_lease f (map_option (ol_mtimeMs_update (\<lambda>_. t)) f)"
  by (cases f) (simp_all add: same_lease_def)

lemma lease_step_lease:
  assumes "lease_step who w w'"
  obtains (kept) "same_lease (lw_lease w) (lw_lease w')"
    | (gone) "lw_lease w' = None"
    | (wrote) p fresh where "w' = (acquire_step who p fresh w (lw_phase w p))\<lparr>lw_drawn := fresh # lw_drawn w\<rparr>"
        "p \<in> set (lw_alive w)" "lw_lease w' \<noteq> lw_lease w"
  using assms
proof cases
  case (acts p fresh)
  then show thesis by (cases "lw_lease w' = lw_lease w") (auto intro: kept wrote)
next
  case (removed b)
  show thesis
  proof (cases b)
    case True
    with removed show ?thesis by (intro gone) simp
  next
    case False
    with removed show ?thesis by (intro kept) simp
  qed
next
  case (unlinks p ps)
  then show thesis by (intro gone) simp
qed (rule kept; simp)+

lemma may_create_writing: "may_create l ph \<Longrightarrow> lease_id ph = Some l"
  by (cases ph) (simp_all add: may_create_def)

lemma writing_lease_id: "writing_id ph = Some l \<Longrightarrow> lease_id ph = Some l"
  by (cases ph) simp_all

text \<open>A process holds an id only after it read the file with that id.\<close>

lemma lease_step_held:
  assumes "lease_step who w w'" "held_id (lw_phase w' p) = Some l" "held_id (lw_phase w p) \<noteq> Some l"
  shows "lease_id_of (lw_lease w) = Some l \<and> lw_lease w' = lw_lease w"
  using assms(1)
proof cases
  case (acts q fresh)
  have "held_id (lw_phase w' p) = held_id (lw_phase w p)" if "p \<noteq> q" using acquire_others [OF that] unfolding acts(1) by simp
  then have "\<not> p \<noteq> q" using assms(2) assms(3) by fastforce
  then have q: "q = p" by blast
  have "held_id (lw_phase (acquire_step who p fresh w (lw_phase w p)) p) = Some l" using assms(2) acts(1) q by simp
  from acquire_held [OF refl this assms(3)] show ?thesis unfolding acts(1) q by simp
next
  case (throws q)
  then show ?thesis using assms(2,3) throw_ids [OF held_lease_id, of "lw_phase w p" l] by (auto split: if_splits)
next
  case (begins q ps i ps')
  then show ?thesis using assms(2,3) startHeartbeat_id [of i ps ps'] by (auto split: if_splits)
qed (use assms(2,3) in \<open>auto simp: lease_simps beat_step_def close_step_def Let_def split: if_splits\<close>)

lemma file_ids_step:
  assumes step: "lease_step who w w'" and ids: "ids_drawn w" "file_ids w"
  shows "file_ids w'"
proof -
  have drawn: "set (lw_drawn w) \<subseteq> set (lw_drawn w')" using step by (rule lease_step_phase) auto
  have held: "held_id (lw_phase w' p) \<noteq> Some (lf_inode f)"
    if "lw_lease w = Some f" "ol_record f = None" for p f
  proof
    assume "held_id (lw_phase w' p) = Some (lf_inode f)"
    moreover have "held_id (lw_phase w p) \<noteq> Some (lf_inode f)" using ids(2) that by (auto simp: file_ids_def)
    ultimately have "lease_id_of (lw_lease w) = Some (lf_inode f)" using lease_step_held [OF step] by blast
    with that show False by (simp add: lease_id_of_def)
  qed
  from step show ?thesis
  proof (cases rule: lease_step_lease)
    case kept
    show ?thesis unfolding file_ids_def
    proof (intro allI impI)
      fix f' assume f': "lw_lease w' = Some f'"
      from same_lease_Some [OF kept [unfolded f']] obtain f where f: "lw_lease w = Some f" "lf_inode f = lf_inode f'" "ol_record f = ol_record f'"
        by blast
      show "lf_inode f' \<in> set (lw_drawn w') \<and> (\<forall>r. ol_record f' = Some r \<longrightarrow> lr_leaseId r = lf_inode f') \<and>
          (ol_record f' = None \<longrightarrow> (\<forall>p. held_id (lw_phase w' p) \<noteq> Some (lf_inode f')))"
        using ids(2) f drawn held [OF f(1)] unfolding file_ids_def by auto
    qed
  next
    case gone
    then show ?thesis by (simp add: file_ids_def)
  next
    case (wrote p fresh)
    let ?a = "acquire_step who p fresh w (lw_phase w p)"
    have "lw_lease ?a \<noteq> lw_lease w" using wrote(1,3) by simp
    then show ?thesis
    proof (cases rule: acquire_lease)
      case (1 l)
      have "l \<in> set (lw_drawn w)" using ids(1) writing_lease_id [OF 1(1)] unfolding ids_drawn_def by blast
      then show ?thesis using 1(2) unfolding wrote(1) by (simp add: file_ids_def)
    next
      case (2 l)
      have l: "l \<in> set (lw_drawn w)" "lease_id (lw_phase w q) = Some l \<Longrightarrow> q = p" for q
        using ids(1) writing_lease_id [OF 2(2)] unfolding ids_drawn_def by blast+
      have "held_id (lw_phase ?a q) \<noteq> Some l" for q
      proof (cases "q = p")
        case False
        then show ?thesis using l(2) held_lease_id by (auto simp: acquire_others)
      qed (simp add: 2(4))
      then show ?thesis using l(1) 2(3) unfolding wrote(1) by (simp add: file_ids_def)
    qed
  qed
qed

lemma spent_step:
  assumes step: "lease_step who w w'" and sp: "spent l w"
  shows "spent l w'"
proof -
  have drawn: "l \<in> set (lw_drawn w')" "l \<in> set (lw_drawn w)"
    using step sp unfolding spent_def by (auto elim!: lease_step_phase)
  have none: "\<not> may_create l (lw_phase w p)" for p using sp unfolding spent_def by blast
  have create: "\<not> may_create l (lw_phase w' p)" for p
    using step
  proof cases
    case (acts q fresh)
    have "\<not> may_create l (lw_phase (acquire_step who q fresh w (lw_phase w q)) q)"
      using acts(3) drawn(2) none [of q]
      by (cases "lw_phase w q") (auto simp: may_create_def after_leaving_id [unfolded may_create_def] split: option.splits)
    then show ?thesis using none [of p] unfolding acts(1) by (cases "p = q") (simp_all add: acquire_others)
  next
    case (throws q)
    then show ?thesis using none by (cases "lw_phase w q") (simp_all add: may_create_def)
  qed (use none in \<open>auto simp: may_create_def beat_step_def close_step_def Let_def\<close>)
  have other: "lf_inode f \<noteq> l" if "lw_lease w = Some f" for f using sp that unfolding spent_def by blast
  from step have "\<forall>f. lw_lease w' = Some f \<longrightarrow> lf_inode f \<noteq> l"
  proof (cases rule: lease_step_lease)
    case kept
    then show ?thesis using other same_lease_Some by metis
  next
    case gone
    then show ?thesis by simp
  next
    case (wrote p fresh)
    have "lw_lease (acquire_step who p fresh w (lw_phase w p)) \<noteq> lw_lease w" using wrote(1,3) by simp
    then show ?thesis
      by (cases rule: acquire_lease) (use none [of p] other in \<open>auto simp: wrote(1)\<close>)
  qed
  with drawn create show ?thesis unfolding spent_def by blast
qed


subsection \<open>One writer, and no way back\<close>

text \<open>
  What a holder's check of a write comes to, whether or not the lease file can be read at that moment. Only
  \<open>LeaseLost\<close> is proof of a loss; a file that cannot be read, or holds no record, refuses that one write.\<close>

definition write_check :: "bool \<Rightarrow> lease_world \<Rightarrow> nat \<Rightarrow> (lease_error, unit) result option" where
  "write_check readable w p = (case lw_phase w p of
       Holding ps \<Rightarrow> Some (fst (assertOwned (assert_seen readable w) ps))
     | _ \<Rightarrow> None)"

abbreviation may_write :: "bool \<Rightarrow> lease_world \<Rightarrow> nat \<Rightarrow> bool" where
  "may_write readable w p \<equiv> write_check readable w p = Some (Inr ())"

lemma assertOwned_passes:
  "fst (assertOwned (Saw seen) ps) = Inr () \<longleftrightarrow>
     \<not> ps_lost ps \<and> \<not> ps_closed ps \<and> lease_id_of seen = Some (ps_leaseId ps)"
  by (auto simp: assertOwned_def lease_id_of_def split: option.splits)

lemma may_write_iff:
  "may_write b w p \<longleftrightarrow> b \<and> (\<exists>ps. lw_phase w p = Holding ps \<and> \<not> ps_lost ps \<and> \<not> ps_closed ps \<and>
     lease_id_of (lw_lease w) = Some (ps_leaseId ps))"
  by (cases "lw_phase w p"; cases b) (simp_all add: write_check_def assert_seen_def assertOwned_passes, simp add: assertOwned_def)

lemma lost_not_allowed:
  assumes "write_check b w p = Some (Inl LeaseLost)"
  shows "\<exists>ps. lw_phase w p = Holding ps" "\<not> may_write True w p"
  using assms
  by (cases "lw_phase w p"; cases b; auto simp: write_check_def assert_seen_def assertOwned_def split: option.splits if_splits)+

definition well_drawn :: "lease_world \<Rightarrow> bool" where
  "well_drawn w \<longleftrightarrow> ids_drawn w \<and> file_ids w"

lemma well_drawn_reach:
  assumes "lease_reach who w w'" "well_drawn w" shows "well_drawn w'"
  using assms by induction (auto simp: well_drawn_def intro: ids_drawn_step file_ids_step)

lemma left_file_facts:
  "map_option left_file x = Some f \<Longrightarrow> lf_inode f \<in> set (left_ids x)"
  "map_option left_file x = Some f \<Longrightarrow> ol_record f = Some r \<Longrightarrow> lr_leaseId r = lf_inode f"
  by (auto simp: left_file_def left_ids_def)

lemma start_world_simps [simp]:
  "lw_lease (start_world lease guard t) = map_option left_file lease" "lw_guard (start_world lease guard t) = map_option left_file guard"
  "lw_phase (start_world lease guard t) p = Unstarted" "lw_alive (start_world lease guard t) = []"
  "lw_drawn (start_world lease guard t) = left_ids lease @ left_ids guard" "\<not> lw_disturbed (start_world lease guard t)"
  by (simp_all add: start_world_def)

lemma well_drawn_start: "well_drawn (start_world lease guard t)"
proof -
  have "file_ids (start_world lease guard t)"
    unfolding file_ids_def by (simp del: map_option_eq_Some) (metis left_file_facts)
  then show ?thesis by (simp add: well_drawn_def ids_drawn_def)
qed

text \<open>A holder that is lost stays lost; one whose file went has a spent id.\<close>

fun displaced_phase :: "string \<Rightarrow> bool \<Rightarrow> lease_phase \<Rightarrow> bool" where
  "displaced_phase l sp (Holding ps) \<longleftrightarrow> ps_leaseId ps = l \<and> (ps_lost ps \<or> ps_closed ps \<or> sp)"
| "displaced_phase l sp (Beating ps) \<longleftrightarrow> ps_leaseId ps = l \<and> (ps_lost ps \<or> ps_closed ps \<or> sp)"
| "displaced_phase l sp (Closing ps) \<longleftrightarrow> ps_leaseId ps = l \<and> (ps_lost ps \<or> ps_closed ps \<or> sp)"
| "displaced_phase l sp Ended \<longleftrightarrow> True"
| "displaced_phase l sp _ \<longleftrightarrow> False"

definition displaced :: "string \<Rightarrow> nat \<Rightarrow> lease_world \<Rightarrow> bool" where
  "displaced l p w \<longleftrightarrow> displaced_phase l (spent l w) (lw_phase w p)"

lemma displaced_phase_mono: "displaced_phase l sp ph \<Longrightarrow> (sp \<Longrightarrow> sp') \<Longrightarrow> displaced_phase l sp' ph"
  by (cases ph) auto

lemma lost_kept [lease_simps]:
  "ps_lost (markLost r ps) \<longleftrightarrow> True" "ps_closed (markLost r ps) \<longleftrightarrow> ps_closed ps"
  "ps_lost ps \<Longrightarrow> ps_lost (countFailedBeat ps)" "ps_closed (countFailedBeat ps) \<longleftrightarrow> ps_closed ps"
  "ps_lost ps \<Longrightarrow> ps_lost (stamp_beat b ps)" "ps_closed (stamp_beat b ps) \<longleftrightarrow> ps_closed ps"
  "ps_lost (close_lease ps) \<longleftrightarrow> ps_lost ps" "ps_closed (close_lease ps) \<longleftrightarrow> True"
  by (simp_all add: markLost_def countFailedBeat_def stamp_beat_def close_lease_def Let_def)

lemma lost_kept_beat [lease_simps]:
  "ps_lost ps \<Longrightarrow> ps_lost (beat seen b ps)" "ps_closed (beat seen b ps) \<longleftrightarrow> ps_closed ps"
  by (simp_all add: beat_def lease_simps split: read_result.splits option.splits)

lemma lost_kept_assert [lease_simps]:
  "ps_lost ps \<Longrightarrow> ps_lost (snd (assertOwned seen ps))" "ps_closed (snd (assertOwned seen ps)) \<longleftrightarrow> ps_closed ps"
  by (simp_all add: assertOwned_def lease_simps split: read_result.splits option.splits)

lemma startHeartbeat_kept:
  "startHeartbeat i ps = Inr ps' \<Longrightarrow> ps_leaseId ps' = ps_leaseId ps \<and> ps_lost ps' = ps_lost ps \<and> ps_closed ps' = ps_closed ps"
  by (auto simp: startHeartbeat_def split: if_splits)

lemma displaced_phase_throw: "displaced_phase l sp ph \<Longrightarrow> displaced_phase l sp (throw_phase ph)"
  by (cases ph) (auto simp: lease_simps)

lemma displaced_step:
  assumes step: "lease_step who w w'" and d: "displaced l p w"
  shows "displaced l p w'"
proof -
  have sp: "spent l w \<Longrightarrow> spent l w'" by (rule spent_step [OF step])
  have d': "displaced_phase l (spent l w') (lw_phase w p)"
    using d sp unfolding displaced_def by (rule displaced_phase_mono)
  from step have "displaced_phase l (spent l w') (lw_phase w' p)"
  proof cases
    case (acts q fresh)
    have "lw_phase (acquire_step who p fresh w (lw_phase w p)) p = lw_phase w p"
      using d' by (cases "lw_phase w p") simp_all
    then have "lw_phase w' p = lw_phase w p" using acquire_others [of p q who fresh w] unfolding acts(1) by (cases "p = q") simp_all
    with d' show ?thesis by simp
  next
    case (throws q)
    with d' displaced_phase_throw show ?thesis by (cases "p = q") simp_all
  next
    case (begins q ps i ps')
    with d' show ?thesis using startHeartbeat_kept [OF begins(4)] by (cases "p = q") simp_all
  next
    case (asserts q ps b)
    with d' show ?thesis by (cases "p = q") (auto simp: lease_simps)
  next
    case (beats q ps b)
    with d' show ?thesis by (cases "p = q") (auto simp: lease_simps beat_step_def Let_def)
  next
    case (stamps q ps)
    with d' show ?thesis by (cases "p = q") (auto simp: lease_simps)
  next
    case (closes q ps b)
    with d' show ?thesis by (cases "p = q") (auto simp: lease_simps close_step_def)
  next
    case (starts q)
    with d' show ?thesis by (cases "p = q") simp_all
  next
    case (unlinks q ps)
    with d' show ?thesis by (cases "p = q") (auto simp: lease_simps)
  next
    case (dies q)
    with d' show ?thesis by (cases "p = q") simp_all
  qed (use d' in simp_all)
  then show ?thesis by (simp add: displaced_def)
qed

text \<open>A holder that may not write has been displaced.\<close>

lemma refused_is_displaced:
  assumes "well_drawn w" "lw_phase w p = Holding ps" "\<not> may_write True w p"
  shows "displaced (ps_leaseId ps) p w"
proof (cases "ps_lost ps \<or> ps_closed ps")
  case False
  let ?l = "ps_leaseId ps"
  have id: "lease_id (lw_phase w p) = Some ?l" "held_id (lw_phase w p) = Some ?l" by (simp_all add: assms(2))
  have drawn: "?l \<in> set (lw_drawn w)" and only: "lease_id (lw_phase w q) = Some ?l \<Longrightarrow> q = p" for q
    using assms(1) id(1) unfolding well_drawn_def ids_drawn_def by blast+
  have "\<not> may_create ?l (lw_phase w q)" for q
    using only [of q] may_create_writing [of ?l "lw_phase w q"] by (auto simp: assms(2) may_create_def)
  moreover have "lf_inode f \<noteq> ?l" if f: "lw_lease w = Some f" for f
  proof (cases "ol_record f")
    case None
    then show ?thesis using assms(1) f id(2) unfolding well_drawn_def file_ids_def by metis
  next
    case (Some r)
    then have "lr_leaseId r = lf_inode f" using assms(1) f unfolding well_drawn_def file_ids_def by blast
    then show ?thesis using assms(2,3) f Some False by (auto simp: may_write_iff lease_id_of_def)
  qed
  ultimately show ?thesis using drawn by (simp add: displaced_def assms(2) spent_def)
qed (auto simp: displaced_def assms(2))

lemma displaced_refused:
  assumes "well_drawn w" "displaced l p w" shows "\<not> may_write b w p"
proof
  assume "may_write b w p"
  then obtain ps where ps: "lw_phase w p = Holding ps" "\<not> ps_lost ps" "\<not> ps_closed ps" "lease_id_of (lw_lease w) = Some (ps_leaseId ps)"
    by (auto simp: may_write_iff)
  then obtain f r where f: "lw_lease w = Some f" "ol_record f = Some r" "lr_leaseId r = ps_leaseId ps"
    by (auto simp: lease_id_of_def bind_eq_Some_conv)
  have "spent (ps_leaseId ps) w" using assms(2) ps by (auto simp: displaced_def)
  then have "lf_inode f \<noteq> ps_leaseId ps" using f(1) by (simp add: spent_def)
  moreover have "lr_leaseId r = lf_inode f" using assms(1) f unfolding well_drawn_def file_ids_def by blast
  ultimately show False using f(3) by simp
qed

subsection \<open>Runs\<close>

datatype lease_move = Start nat | Act nat string | Die nat

fun lease_run :: "(nat \<Rightarrow> process_identity) \<Rightarrow> lease_move list \<Rightarrow> lease_world \<Rightarrow> lease_world option" where
  "lease_run who [] w = Some w"
| "lease_run who (Start p # ms) w =
     (if lw_phase w p = Unstarted \<and> pi_pid (who p) \<notin> (\<lambda>q. pi_pid (who q)) ` set (lw_alive w)
      then lease_run who ms (goto p (Looking 0) (w\<lparr>lw_alive := p # lw_alive w\<rparr>)) else None)"
| "lease_run who (Act p fresh # ms) w =
     (if p \<in> set (lw_alive w) \<and> fresh \<notin> set (lw_drawn w)
      then lease_run who ms ((acquire_step who p fresh w (lw_phase w p))\<lparr>lw_drawn := fresh # lw_drawn w\<rparr>) else None)"
| "lease_run who (Die p # ms) w =
     (if p \<in> set (lw_alive w)
      then lease_run who ms (goto p Ended (w\<lparr>lw_alive := filter (\<lambda>q. q \<noteq> p) (lw_alive w)\<rparr>)) else None)"

lemma lease_run_reach: "lease_run who ms w = Some w' \<Longrightarrow> lease_reach who w w'"
proof (induction who ms w rule: lease_run.induct)
  case (2 who p ms w)
  then show ?case by (auto split: if_splits intro: converse_rtranclp_into_rtranclp lease_step.starts)
next
  case (3 who p fresh ms w)
  then show ?case by (auto split: if_splits intro: converse_rtranclp_into_rtranclp lease_step.acts)
next
  case (4 who p ms w)
  then show ?case by (auto split: if_splits intro: converse_rtranclp_into_rtranclp lease_step.dies)
qed simp

definition demo_who :: "nat \<Rightarrow> process_identity" where
  "demo_who p = \<lparr>pi_pid = int p + 100, pi_start = ''start'', pi_boot = ''boot'', pi_namespace = ''pid:[1]'',
     pi_digest = ''digest'', pi_ttl = LEASE_TTL_MS\<rparr>"

lemmas demo_run = start_world_def left_ids_def left_file_def goto_def demo_who_def MAX_LEASE_ATTEMPTS_def lease_is_live_def guard_is_live_def
  isLiveLease_def isLiveGuard_def live_within_def usesPidSemantics_def heartbeatAgeMs_def liveness_of_def proc_table_def UNKNOWN_PID_NAMESPACE_def
  LEASE_CLOCK_SKEW_MS_def LEASE_TTL_MS_def GUARD_STALE_MS_def makeRecord_def lease_id_of_def empty_file_def full_file_def fill_file_def after_leaving_def

text \<open>A starter died with the guard on disk, and a lease of an earlier boot is there to be replaced; two
  starters find the dead guard, replace it one after the other and confirm their own records in turn.\<close>

definition old_lease :: "(lease_record option \<times> int) option" where
  "old_lease = Some (Some \<lparr>lr_pid = 7, lr_processStart = ''start'', lr_bootId = ''earlier'', lr_pidNamespace = ''pid:[1]'',
     lr_identityDigest = ''digest'', lr_leaseId = ''old''\<rparr>, 0)"

definition race_moves :: "lease_move list" where
  "race_moves = [Start 0, Act 0 ''a'', Act 0 ''b'', Act 0 ''c'', Die 0, Start 1, Start 2,
     Act 1 ''d'', Act 1 ''e'', Act 1 ''f'', Act 2 ''g'', Act 2 ''h'', Act 2 ''i'',
     Act 1 ''j'', Act 1 ''k'', Act 1 ''l'', Act 2 ''m'', Act 2 ''n'', Act 2 ''o'',
     Act 1 ''p'', Act 1 ''q'', Act 2 ''r'', Act 2 ''s'', Act 1 ''t'', Act 2 ''u'', Act 2 ''v'', Act 2 ''w'']"

lemma race_run:
  "\<exists>w. lease_run demo_who race_moves (start_world old_lease None 100000) = Some w \<and> lw_now w = 100000 \<and>
     lw_phase w 1 = Holding (new_lease ''l'' LEASE_TTL_MS) \<and> lw_phase w 2 = Holding (new_lease ''o'' LEASE_TTL_MS) \<and>
     lease_id_of (lw_lease w) = Some ''o''"
  by (simp add: race_moves_def demo_run old_lease_def)


subsection \<open>The fence itself\<close>

text \<open>
  C14: the write fence. In any interleaving of starting, running, stalling and dying processes, on any hosts
  and with files removed by hand, at most one process passes the ownership check that every persisted write
  runs, whoever can read the lease file; and once the check of a holder proves the lease lost, that holder never passes
  it again: it cannot write over its successor's data. A check that could not read the file, or found no
  record in it, refuses its own write and proves nothing.\<close>
theorem write_fence:
  assumes "lease_reach who (start_world lease guard t) w" "lease_reach who w w'"
  shows "(write_check b w' p = Some (Inr ()) \<longrightarrow> write_check b' w' q = Some (Inr ()) \<longrightarrow> p = q) \<and>
         (write_check b w r = Some (Inl LeaseLost) \<longrightarrow> write_check b' w' r \<noteq> Some (Inr ()))"
proof -
  have wd: "well_drawn w" by (rule well_drawn_reach [OF assms(1) well_drawn_start])
  then have wd': "well_drawn w'" by (rule well_drawn_reach [OF assms(2)])
  have "may_write b w' p \<Longrightarrow> may_write b' w' q \<Longrightarrow> p = q"
    using wd' unfolding well_drawn_def ids_drawn_def may_write_iff by (metis lease_id_simps(15) option.inject)
  moreover have "displaced l r w \<Longrightarrow> displaced l r w'" for l
    using assms(2) by induction (auto intro: displaced_step)
  then have "write_check b w r = Some (Inl LeaseLost) \<Longrightarrow> \<not> may_write b' w' r"
    using refused_is_displaced [OF wd] displaced_refused [OF wd'] lost_not_allowed by blast
  ultimately show ?thesis by blast
qed

theorem write_fence_witness:
  "\<exists>w. lease_reach demo_who (start_world old_lease None 100000) w \<and> write_check True w 1 = Some (Inl LeaseLost) \<and>
     write_check True w 2 = Some (Inr ()) \<and>
     (\<forall>w' b. lease_reach demo_who w w' \<longrightarrow> write_check b w' 1 \<noteq> Some (Inr ()))"
proof -
  obtain w where w: "lease_run demo_who race_moves (start_world old_lease None 100000) = Some w"
     "lw_phase w 1 = Holding (new_lease ''l'' LEASE_TTL_MS)" "lw_phase w 2 = Holding (new_lease ''o'' LEASE_TTL_MS)"
     "lease_id_of (lw_lease w) = Some ''o''"
    using race_run by blast
  have r: "lease_reach demo_who (start_world old_lease None 100000) w" by (rule lease_run_reach [OF w(1)])
  have m: "may_write True w 2" using w by (auto simp: may_write_iff new_lease_def)
  have l: "write_check True w 1 = Some (Inl LeaseLost)"
    using w(2,4) by (auto simp: write_check_def assert_seen_def assertOwned_def new_lease_def lease_id_of_def bind_eq_Some_conv)
  have "\<not> may_write b w' 1" if "lease_reach demo_who w w'" for w' b
    using write_fence [OF r that, of True 2 True 2 1] write_fence [OF r that, of True 2 b 2 1] l by blast
  then show ?thesis using r l m by blast
qed

end
