(* ===== verification/Lease_Exclusive.thy ===== *)
theory Lease_Exclusive
  imports Lease_Safety
begin

text \<open>
  Exclusive holding under process-id semantics: processes that see each other's process ids hold the writer
  lease one at a time, unless a file is removed by hand or the takeover of a dead starter's guard hits another
  guard. What that exception costs is shown at the end: two starters can then both confirm their record.
\<close>

section \<open>Who stands where\<close>

text \<open>The guard a process wants, has just created, or holds with its record in it.\<close>

fun pending_id :: "lease_phase \<Rightarrow> string option" where
  "pending_id (Guarding n g) = Some g"
| "pending_id (GuardSeen n g) = Some g"
| "pending_id (GuardStale n g d) = Some g"
| "pending_id _ = None"

fun created_id :: "lease_phase \<Rightarrow> string option" where
  "created_id (GuardCreated n g) = Some g"
| "created_id _ = None"

fun full_id :: "lease_phase \<Rightarrow> string option" where
  "full_id (GuardWritten n g) = Some g"
| "full_id (InGuard n g) = Some g"
| "full_id (Checked n g l b) = Some g"
| "full_id (LeaseCreated n g l) = Some g"
| "full_id (LeaseWritten n g l) = Some g"
| "full_id (Leaving n g nx) = Some g"
| "full_id (Unlinking n g nx) = Some g"
| "full_id _ = None"

fun stale_id :: "lease_phase \<Rightarrow> string option" where
  "stale_id (GuardStale n g d) = Some d"
| "stale_id _ = None"

definition guard_id :: "lease_phase \<Rightarrow> string option" where
  "guard_id ph = (case pending_id ph of Some g \<Rightarrow> Some g | None \<Rightarrow>
     (case created_id ph of Some g \<Rightarrow> Some g | None \<Rightarrow> full_id ph))"

text \<open>A process holds the lease from the moment its record is written until it releases it.\<close>

fun holding_id :: "lease_phase \<Rightarrow> string option" where
  "holding_id (LeaseWritten n g l) = Some l"
| "holding_id (Leaving n g nx) = leaving_lease nx"
| "holding_id (Unlinking n g nx) = leaving_lease nx"
| "holding_id (Unlinked n nx) = leaving_lease nx"
| "holding_id (Holding ps) = (if ps_closed ps then None else Some (ps_leaseId ps))"
| "holding_id (Beating ps) = (if ps_closed ps then None else Some (ps_leaseId ps))"
| "holding_id (Closing ps) = Some (ps_leaseId ps)"
| "holding_id _ = None"

definition is_checked :: "lease_phase \<Rightarrow> bool" where
  "is_checked ph = (case ph of Checked n g l b \<Rightarrow> True | _ \<Rightarrow> False)"

lemma guard_id_simps [simp]:
  "guard_id Unstarted = None" "guard_id (Looking n) = None" "guard_id (Guarding n g) = Some g" "guard_id (GuardCreated n g) = Some g"
  "guard_id (GuardSeen n g) = Some g" "guard_id (GuardStale n g d) = Some g" "guard_id (GuardWritten n g) = Some g"
  "guard_id (InGuard n g) = Some g" "guard_id (Checked n g l b) = Some g" "guard_id (LeaseCreated n g l) = Some g"
  "guard_id (LeaseWritten n g l) = Some g" "guard_id (Leaving n g nx) = Some g" "guard_id (Unlinking n g nx) = Some g"
  "guard_id (Unlinked n nx) = None" "guard_id (Holding ps) = None"
  "guard_id (Beating ps) = None" "guard_id (Closing ps) = None" "guard_id Ended = None"
  by (simp_all add: guard_id_def)

lemma guard_id_of:
  "pending_id ph = Some g \<Longrightarrow> guard_id ph = Some g" "created_id ph = Some g \<Longrightarrow> guard_id ph = Some g"
  "full_id ph = Some g \<Longrightarrow> guard_id ph = Some g"
  by (cases ph; simp)+

text \<open>All processes run under one boot, in one known namespace, and a process id with its start time names one of them.\<close>

definition see_each_other :: "(nat \<Rightarrow> process_identity) \<Rightarrow> bool" where
  "see_each_other who \<longleftrightarrow>
     (\<forall>p q. pi_namespace (who p) = pi_namespace (who q) \<and> pi_boot (who p) = pi_boot (who q)) \<and>
     (\<forall>p. pi_namespace (who p) \<noteq> UNKNOWN_PID_NAMESPACE) \<and>
     (\<forall>p q. pi_pid (who p) = pi_pid (who q) \<longrightarrow> pi_start (who p) = pi_start (who q) \<longrightarrow> p = q)"

definition pids_apart :: "(nat \<Rightarrow> process_identity) \<Rightarrow> lease_world \<Rightarrow> bool" where
  "pids_apart who w \<longleftrightarrow>
     (\<forall>p \<in> set (lw_alive w). \<forall>q \<in> set (lw_alive w). pi_pid (who p) = pi_pid (who q) \<longrightarrow> p = q) \<and>
     (\<forall>p. p \<notin> set (lw_alive w) \<longrightarrow> lw_phase w p = Unstarted \<or> lw_phase w p = Ended)"

lemma proc_table_alive:
  assumes "pids_apart who w" "p \<in> set (lw_alive w)"
  shows "proc_table who (lw_alive w) (pi_pid (who p)) = Some (pi_start (who p))"
proof -
  have "find (\<lambda>q. pi_pid (who q) = pi_pid (who p)) (lw_alive w) = Some p"
  proof (cases "find (\<lambda>q. pi_pid (who q) = pi_pid (who p)) (lw_alive w)")
    case None
    with assms(2) show ?thesis by (auto simp: find_None_iff)
  next
    case (Some q)
    then have "q \<in> set (lw_alive w)" "pi_pid (who q) = pi_pid (who p)" by (auto simp: find_Some_iff)
    then show ?thesis using assms Some unfolding pids_apart_def by blast
  qed
  then show ?thesis by (simp add: proc_table_def)
qed

lemma alive_is_live:
  assumes "see_each_other who" "pids_apart who w" "p \<in> set (lw_alive w)" "ol_record f = Some (makeRecord (who p) l)"
  shows "live_within ttl (proc_table who (lw_alive w)) (Some f) (liveness_of who q w)"
  using assms proc_table_alive [OF assms(2,3)]
  by (auto simp: live_within_def usesPidSemantics_def liveness_of_def makeRecord_def see_each_other_def)

lemma same_holder:
  assumes "see_each_other who" "makeRecord (who p) l = makeRecord (who q) l'" shows "p = q \<and> l = l'"
  using assms by (auto simp: makeRecord_def see_each_other_def)

lemma pids_apart_step:
  assumes "lease_step who w w'" "pids_apart who w" shows "pids_apart who w'"
proof -
  have alive: "lw_alive (acquire_step who p fresh w ph) = lw_alive w" for p fresh ph by simp
  from assms(1) show ?thesis
  proof cases
    case (acts p fresh)
    then show ?thesis using assms(2) by (auto simp: pids_apart_def) (metis acquire_others)+
  next
    case (starts p)
    then show ?thesis using assms(2) by (auto simp: pids_apart_def image_iff)
  next
    case (beats p ps b)
    then show ?thesis using assms(2) by (auto simp: pids_apart_def beat_step_def Let_def)
  next
    case (closes p ps b)
    then show ?thesis using assms(2) by (auto simp: pids_apart_def close_step_def)
  qed (use assms(2) in \<open>auto simp: pids_apart_def\<close>)
qed


section \<open>The guard admits one\<close>

definition guards_ok :: "(nat \<Rightarrow> process_identity) \<Rightarrow> lease_world \<Rightarrow> bool" where
  "guards_ok who w \<longleftrightarrow>
     (\<forall>p g. guard_id (lw_phase w p) = Some g \<longrightarrow> g \<in> set (lw_drawn w)) \<and>
     (\<forall>p q g. guard_id (lw_phase w p) = Some g \<longrightarrow> guard_id (lw_phase w q) = Some g \<longrightarrow> p = q) \<and>
     (\<forall>f. lw_guard w = Some f \<longrightarrow> lf_inode f \<in> set (lw_drawn w) \<and> (\<forall>q. pending_id (lw_phase w q) \<noteq> Some (lf_inode f))) \<and>
     (\<forall>p g. created_id (lw_phase w p) = Some g \<longrightarrow> (\<exists>t. lw_guard w = Some (empty_file g t))) \<and>
     (\<forall>p g. full_id (lw_phase w p) = Some g \<longrightarrow> (\<exists>t. lw_guard w = Some (full_file (who p) g t))) \<and>
     (\<forall>p d. stale_id (lw_phase w p) = Some d \<longrightarrow> d \<in> set (lw_drawn w) \<and> (\<forall>q. guard_id (lw_phase w q) \<noteq> Some d))"

lemma guards_okD:
  assumes "guards_ok who w"
  shows "guard_id (lw_phase w p) = Some g \<Longrightarrow> g \<in> set (lw_drawn w)"
    "guard_id (lw_phase w p) = Some g \<Longrightarrow> guard_id (lw_phase w q) = Some g \<Longrightarrow> p = q"
    "lw_guard w = Some f \<Longrightarrow> lf_inode f \<in> set (lw_drawn w)"
    "lw_guard w = Some f \<Longrightarrow> pending_id (lw_phase w q) \<noteq> Some (lf_inode f)"
    "created_id (lw_phase w p) = Some g \<Longrightarrow> \<exists>t. lw_guard w = Some (empty_file g t)"
    "full_id (lw_phase w p) = Some g \<Longrightarrow> \<exists>t. lw_guard w = Some (full_file (who p) g t)"
    "stale_id (lw_phase w p) = Some d \<Longrightarrow> d \<in> set (lw_drawn w)"
    "stale_id (lw_phase w p) = Some d \<Longrightarrow> guard_id (lw_phase w q) \<noteq> Some d"
  using assms unfolding guards_ok_def by blast+

definition in_guard :: "lease_phase \<Rightarrow> string option" where
  "in_guard ph = (case created_id ph of Some g \<Rightarrow> Some g | None \<Rightarrow> full_id ph)"

lemma in_guard_file:
  assumes "guards_ok who w" "in_guard (lw_phase w p) = Some g"
  shows "\<exists>f. lw_guard w = Some f \<and> lf_inode f = g" "guard_id (lw_phase w p) = Some g"
  using assms guards_okD(5,6) [OF assms(1)] guard_id_of
  by (fastforce simp: in_guard_def split: option.splits)+

lemma in_guard_unique:
  assumes "guards_ok who w" "in_guard (lw_phase w p) = Some g" "in_guard (lw_phase w q) = Some g'" shows "p = q"
proof -
  have "g = g'" using in_guard_file(1) [OF assms(1,2)] in_guard_file(1) [OF assms(1,3)] by auto
  then show ?thesis using guards_okD(2) [OF assms(1)] in_guard_file(2) [OF assms(1,2)] in_guard_file(2) [OF assms(1,3)] by blast
qed

lemma guards_move:
  assumes ok: "guards_ok who w" and ph: "lw_phase w' = (lw_phase w)(p := ph)" "lw_guard w' = lw_guard w"
    "set (lw_drawn w) \<subseteq> set (lw_drawn w')"
    and "\<And>g. guard_id ph = Some g \<Longrightarrow> guard_id (lw_phase w p) = Some g \<or> g \<in> set (lw_drawn w') \<and> g \<notin> set (lw_drawn w)"
    and "\<And>g. pending_id ph = Some g \<Longrightarrow> pending_id (lw_phase w p) = Some g \<or> g \<notin> set (lw_drawn w)"
    and "\<And>g. created_id ph = Some g \<Longrightarrow> created_id (lw_phase w p) = Some g"
    and "\<And>g. full_id ph = Some g \<Longrightarrow> full_id (lw_phase w p) = Some g"
    and "\<And>d. stale_id ph = Some d \<Longrightarrow> stale_id (lw_phase w p) = Some d \<or>
        d \<in> set (lw_drawn w) \<and> (\<forall>q. guard_id (lw_phase w q) \<noteq> Some d)"
  shows "guards_ok who w'"
proof -
  note D = guards_okD [OF ok]
  have 1: "guard_id (lw_phase w' q) = Some g \<Longrightarrow>
      guard_id (lw_phase w q) = Some g \<or> q = p \<and> g \<in> set (lw_drawn w') \<and> g \<notin> set (lw_drawn w)" for q g
    using assms(5) ph(1) by (cases "q = p") auto
  have 2: "pending_id (lw_phase w' q) = Some g \<Longrightarrow> pending_id (lw_phase w q) = Some g \<or> g \<notin> set (lw_drawn w)" for q g
    using assms(6) ph(1) by (cases "q = p") auto
  have 3: "created_id (lw_phase w' q) = Some g \<Longrightarrow> created_id (lw_phase w q) = Some g" for q g
    using assms(7) ph(1) by (cases "q = p") auto
  have 4: "full_id (lw_phase w' q) = Some g \<Longrightarrow> full_id (lw_phase w q) = Some g" for q g
    using assms(8) ph(1) by (cases "q = p") auto
  have 5: "stale_id (lw_phase w' q) = Some d \<Longrightarrow> d \<in> set (lw_drawn w) \<and> (\<forall>q. guard_id (lw_phase w q) \<noteq> Some d)" for q d
    using assms(9) ph(1) D(7,8) by (cases "q = p") auto
  show ?thesis unfolding guards_ok_def ph(2)
  proof (intro conjI allI impI)
    fix q g assume "guard_id (lw_phase w' q) = Some g"
    then show "g \<in> set (lw_drawn w')" using 1 D(1) ph(3) by blast
  next
    fix q r g assume "guard_id (lw_phase w' q) = Some g" "guard_id (lw_phase w' r) = Some g"
    then show "q = r" using 1 [of q g] 1 [of r g] D(1,2) by blast
  next
    fix f assume "lw_guard w = Some f"
    then show "lf_inode f \<in> set (lw_drawn w')" using D(3) ph(3) by blast
  next
    fix f q assume "lw_guard w = Some f"
    then show "pending_id (lw_phase w' q) \<noteq> Some (lf_inode f)" using 2 D(3,4) by blast
  next
    fix q g assume "created_id (lw_phase w' q) = Some g"
    then show "\<exists>t. lw_guard w = Some (empty_file g t)" using 3 D(5) by blast
  next
    fix q g assume "full_id (lw_phase w' q) = Some g"
    then show "\<exists>t. lw_guard w = Some (full_file (who q) g t)" using 4 D(6) by blast
  next
    fix q d assume "stale_id (lw_phase w' q) = Some d"
    then show "d \<in> set (lw_drawn w')" using 5 ph(3) by blast
  next
    fix q r d assume "stale_id (lw_phase w' q) = Some d"
    then show "guard_id (lw_phase w' r) \<noteq> Some d" using 1 [of r d] 5 by blast
  qed
qed

text \<open>The guard file changes while nobody else is in the guard: \<open>p\<close> puts its own there, or takes it away.\<close>

lemma guards_change:
  assumes ok: "guards_ok who w" and ph: "lw_phase w' = (lw_phase w)(p := ph)" "lw_drawn w' = fresh # lw_drawn w"
    and alone: "\<And>q. q \<noteq> p \<Longrightarrow> in_guard (lw_phase w q) = None"
    and new: "lw_guard w' = None \<and> in_guard ph = None \<or>
      guard_id (lw_phase w p) = Some g \<and> guard_id ph = Some g \<and>
       ((\<exists>t. lw_guard w' = Some (empty_file g t)) \<and> full_id ph = None \<or> (\<exists>t. lw_guard w' = Some (full_file (who p) g t)) \<and> created_id ph = None)"
    and "\<And>g'. guard_id ph = Some g' \<Longrightarrow> guard_id (lw_phase w p) = Some g'" "pending_id ph = None" "stale_id ph = None"
  shows "guards_ok who w'"
proof -
  note D = guards_okD [OF ok]
  have 1: "guard_id (lw_phase w' q) = Some g' \<Longrightarrow> guard_id (lw_phase w q) = Some g'" for q g'
    using assms(6) ph(1) by (cases "q = p") auto
  have 2: "pending_id (lw_phase w' q) = Some g' \<Longrightarrow> q \<noteq> p \<and> pending_id (lw_phase w q) = Some g'" for q g'
    using assms(7) ph(1) by (cases "q = p") auto
  have 3: "created_id (lw_phase w' q) = None" "full_id (lw_phase w' q) = None" if "q \<noteq> p" for q
    using alone [OF that] that ph(1) by (auto simp: in_guard_def split: option.splits)
  have 4: "stale_id (lw_phase w' q) = Some d \<Longrightarrow> stale_id (lw_phase w q) = Some d" for q d
    using assms(8) ph(1) by (cases "q = p") auto
  have g: "guard_id (lw_phase w p) = Some g \<and> lf_inode f = g" if "lw_guard w' = Some f" for f using new that by auto
  show ?thesis unfolding guards_ok_def
  proof (intro conjI allI impI)
    fix q g assume "guard_id (lw_phase w' q) = Some g"
    then show "g \<in> set (lw_drawn w')" using 1 D(1) ph(2) by auto
  next
    fix q r g assume "guard_id (lw_phase w' q) = Some g" "guard_id (lw_phase w' r) = Some g"
    then show "q = r" using 1 D(2) by blast
  next
    fix f assume "lw_guard w' = Some f"
    then show "lf_inode f \<in> set (lw_drawn w')" using g D(1) ph(2) by auto
  next
    fix f q assume f: "lw_guard w' = Some f"
    show "pending_id (lw_phase w' q) \<noteq> Some (lf_inode f)" using g [OF f] 2 guard_id_of(1) D(2) by metis
  next
    fix q g' assume "created_id (lw_phase w' q) = Some g'"
    then show "\<exists>t. lw_guard w' = Some (empty_file g' t)"
      using 3 [of q] new ph(1) guard_id_of(2) [of ph g'] by (cases "q = p") (auto simp: in_guard_def)
  next
    fix q g' assume "full_id (lw_phase w' q) = Some g'"
    then show "\<exists>t. lw_guard w' = Some (full_file (who q) g' t)"
      using 3 [of q] new ph(1) guard_id_of(3) [of ph g'] by (cases "q = p") (auto simp: in_guard_def split: option.splits)
  next
    fix q d assume "stale_id (lw_phase w' q) = Some d"
    then show "d \<in> set (lw_drawn w')" using 4 D(7) ph(2) by auto
  next
    fix q r d assume "stale_id (lw_phase w' q) = Some d"
    then show "guard_id (lw_phase w' r) \<noteq> Some d" using 1 4 D(8) by blast
  qed
qed


section \<open>The lease has one holder\<close>

definition is_creating :: "lease_phase \<Rightarrow> string option" where
  "is_creating ph = (case ph of LeaseCreated n g l \<Rightarrow> Some l | _ \<Rightarrow> None)"

definition leases_ok :: "(nat \<Rightarrow> process_identity) \<Rightarrow> lease_world \<Rightarrow> bool" where
  "leases_ok who w \<longleftrightarrow>
     (\<forall>p l. holding_id (lw_phase w p) = Some l \<longrightarrow> (\<exists>f. lw_lease w = Some f \<and> ol_record f = Some (makeRecord (who p) l))) \<and>
     (\<forall>p l. is_creating (lw_phase w p) = Some l \<longrightarrow> (\<exists>f. lw_lease w = Some f \<and> lf_inode f = l \<and> ol_record f = None)) \<and>
     (\<forall>p q. is_checked (lw_phase w p) \<longrightarrow> holding_id (lw_phase w q) = None)"

lemma leases_okD:
  assumes "leases_ok who w"
  shows "holding_id (lw_phase w p) = Some l \<Longrightarrow> \<exists>f. lw_lease w = Some f \<and> ol_record f = Some (makeRecord (who p) l)"
    "is_creating (lw_phase w p) = Some l \<Longrightarrow> \<exists>f. lw_lease w = Some f \<and> lf_inode f = l \<and> ol_record f = None"
    "is_checked (lw_phase w p) \<Longrightarrow> holding_id (lw_phase w q) = None"
  using assms unfolding leases_ok_def by blast+

lemma one_holder:
  assumes "see_each_other who" "leases_ok who w" "holding_id (lw_phase w p) = Some l" "holding_id (lw_phase w q) = Some l'"
  shows "p = q"
  using leases_okD(1) [OF assms(2,3)] leases_okD(1) [OF assms(2,4)] same_holder [OF assms(1)] by fastforce

lemma holder_in_file:
  assumes "leases_ok who w" "holding_id (lw_phase w p) = Some l"
  shows "lease_id_of (lw_lease w) = Some l"
  using leases_okD(1) [OF assms] by (auto simp: lease_id_of_def makeRecord_def)

lemma leases_move:
  assumes ok: "leases_ok who w" and ph: "lw_phase w' = (lw_phase w)(p := ph)" "same_lease (lw_lease w) (lw_lease w')"
    and "\<And>l. holding_id ph = Some l \<Longrightarrow> holding_id (lw_phase w p) = Some l"
    and "\<And>l. is_creating ph = Some l \<Longrightarrow> is_creating (lw_phase w p) = Some l"
    and "is_checked ph \<Longrightarrow> is_checked (lw_phase w p) \<or> (\<forall>q. holding_id (lw_phase w q) = None)"
  shows "leases_ok who w'"
proof -
  note D = leases_okD [OF ok]
  have 1: "holding_id (lw_phase w' q) = Some l \<Longrightarrow> holding_id (lw_phase w q) = Some l" for q l
    using assms(4) ph(1) by (cases "q = p") auto
  have 2: "is_creating (lw_phase w' q) = Some l \<Longrightarrow> is_creating (lw_phase w q) = Some l" for q l
    using assms(5) ph(1) by (cases "q = p") auto
  have 3: "is_checked (lw_phase w' q) \<Longrightarrow> holding_id (lw_phase w r) = None" for q r
    using assms(6) ph(1) D(3) by (cases "q = p") auto
  have file': "\<exists>f'. lw_lease w' = Some f' \<and> lf_inode f' = lf_inode f \<and> ol_record f' = ol_record f" if "lw_lease w = Some f" for f
    using ph(2) that by (cases "lw_lease w'") (auto simp: same_lease_def)
  show ?thesis unfolding leases_ok_def
  proof (intro conjI allI impI)
    fix q l assume "holding_id (lw_phase w' q) = Some l"
    from D(1) [OF 1 [OF this]] show "\<exists>f. lw_lease w' = Some f \<and> ol_record f = Some (makeRecord (who q) l)" using file' by metis
  next
    fix q l assume "is_creating (lw_phase w' q) = Some l"
    from D(2) [OF 2 [OF this]] show "\<exists>f. lw_lease w' = Some f \<and> lf_inode f = l \<and> ol_record f = None" using file' by metis
  next
    fix q r assume "is_checked (lw_phase w' q)"
    then show "holding_id (lw_phase w' r) = None" using 1 3 by (metis not_None_eq)
  qed
qed

text \<open>The lease file changes while nobody else holds it or is about to.\<close>

lemma leases_change:
  assumes ph: "lw_phase w' = (lw_phase w)(p := ph)"
    and alone: "\<And>q. q \<noteq> p \<Longrightarrow> holding_id (lw_phase w q) = None \<and> is_creating (lw_phase w q) = None \<and> \<not> (is_checked (lw_phase w q) \<and> holding_id ph \<noteq> None)"
    and new: "\<not> is_checked ph" "\<And>l. holding_id ph = Some l \<Longrightarrow> \<exists>f. lw_lease w' = Some f \<and> ol_record f = Some (makeRecord (who p) l)"
      "\<And>l. is_creating ph = Some l \<Longrightarrow> \<exists>f. lw_lease w' = Some f \<and> lf_inode f = l \<and> ol_record f = None"
  shows "leases_ok who w'"
  unfolding leases_ok_def
proof (intro conjI allI impI)
  fix q l assume "holding_id (lw_phase w' q) = Some l"
  then show "\<exists>f. lw_lease w' = Some f \<and> ol_record f = Some (makeRecord (who q) l)"
    using alone [of q] new(2) ph by (cases "q = p") auto
next
  fix q l assume "is_creating (lw_phase w' q) = Some l"
  then show "\<exists>f. lw_lease w' = Some f \<and> lf_inode f = l \<and> ol_record f = None"
    using alone [of q] new(3) ph by (cases "q = p") auto
next
  fix q r assume "is_checked (lw_phase w' q)"
  then show "holding_id (lw_phase w' r) = None"
    using alone [of q] alone [of r] new(1) ph by (cases "q = p"; cases "r = p") auto
qed


section \<open>Every step keeps it so\<close>

definition exclusive :: "(nat \<Rightarrow> process_identity) \<Rightarrow> lease_world \<Rightarrow> bool" where
  "exclusive who w \<longleftrightarrow> pids_apart who w \<and> guards_ok who w \<and> leases_ok who w"

lemma special_phases [simp]:
  "is_checked (Checked n g l b)" "\<not> is_checked (LeaseCreated n g l)" "is_creating (LeaseCreated n g l) = Some l" "is_creating (Checked n g l b) = None"
  "\<not> is_checked Unstarted" "\<not> is_checked (Looking n)" "\<not> is_checked (Guarding n g)" "\<not> is_checked (GuardCreated n g)"
  "\<not> is_checked (GuardSeen n g)" "\<not> is_checked (GuardStale n g d)" "\<not> is_checked (GuardWritten n g)" "\<not> is_checked (InGuard n g)"
  "\<not> is_checked (Leaving n g nx)" "\<not> is_checked (Unlinking n g nx)" "\<not> is_checked (Unlinked n nx)" "\<not> is_checked (LeaseWritten n g l)"
  "\<not> is_checked (Holding ps)" "\<not> is_checked (Beating ps)" "\<not> is_checked (Closing ps)" "\<not> is_checked Ended"
  "is_creating Unstarted = None" "is_creating (Looking n) = None" "is_creating (Guarding n g) = None" "is_creating (GuardCreated n g) = None"
  "is_creating (GuardSeen n g) = None" "is_creating (GuardStale n g d) = None" "is_creating (GuardWritten n g) = None" "is_creating (InGuard n g) = None"
  "is_creating (Leaving n g nx) = None" "is_creating (Unlinking n g nx) = None" "is_creating (Unlinked n nx) = None" "is_creating (LeaseWritten n g l) = None"
  "is_creating (Holding ps) = None" "is_creating (Beating ps) = None" "is_creating (Closing ps) = None" "is_creating Ended = None"
  by (simp_all add: is_checked_def is_creating_def)

lemma after_leaving_facts [simp]:
  "guard_id (after_leaving i n nx) = None" "pending_id (after_leaving i n nx) = None" "created_id (after_leaving i n nx) = None"
  "full_id (after_leaving i n nx) = None" "stale_id (after_leaving i n nx) = None" "holding_id (after_leaving i n nx) = leaving_lease nx"
  "\<not> is_checked (after_leaving i n nx)" "is_creating (after_leaving i n nx) = None" "in_guard (after_leaving i n nx) = None"
  by (cases nx; simp add: after_leaving_def is_checked_def is_creating_def in_guard_def new_lease_def)+

text \<open>A process that is alive is seen alive.\<close>

lemma holder_seen:
  assumes "see_each_other who" "exclusive who w" "holding_id (lw_phase w q) = Some l"
  shows "lease_is_live who p w"
proof -
  have q: "q \<in> set (lw_alive w)" using assms(2,3) unfolding exclusive_def pids_apart_def by force
  obtain f where f: "lw_lease w = Some f" "ol_record f = Some (makeRecord (who q) l)"
    using assms(2,3) leases_okD(1) unfolding exclusive_def by blast
  show ?thesis using alive_is_live [OF assms(1) _ q f(2)] assms(2) f(1)
    by (simp add: lease_is_live_def isLiveLease_def exclusive_def)
qed

lemma guard_owner_seen:
  assumes "see_each_other who" "exclusive who w" "lw_guard w = Some f" "ol_record f \<noteq> None" "guard_id (lw_phase w q) = Some (lf_inode f)"
  shows "guard_is_live who p w"
proof -
  have q: "q \<in> set (lw_alive w)" using assms(2,5) unfolding exclusive_def pids_apart_def by force
  have ok: "guards_ok who w" using assms(2) unfolding exclusive_def by blast
  have "pending_id (lw_phase w q) \<noteq> Some (lf_inode f)" using guards_okD(4) [OF ok assms(3)] .
  moreover have "created_id (lw_phase w q) \<noteq> Some (lf_inode f)" using guards_okD(5) [OF ok, of q "lf_inode f"] assms(3,4) by (metis file_simps(3) option.inject)
  ultimately have "full_id (lw_phase w q) = Some (lf_inode f)" using assms(5) by (auto simp: guard_id_def split: option.splits)
  from guards_okD(6) [OF ok this] assms(3) have "ol_record f = Some (makeRecord (who q) (lf_inode f))"
    by (metis file_simps(4) option.inject)
  then show ?thesis using alive_is_live [OF assms(1) _ q] assms(2,3)
    by (simp add: guard_is_live_def isLiveGuard_def exclusive_def)
qed

text \<open>The file operations of an acquisition, for the guard and for the lease.\<close>

lemma guards_act:
  assumes see: "see_each_other who" and ex: "exclusive who w" and fresh: "fresh \<notin> set (lw_drawn w)"
    and w': "w' = (acquire_step who p fresh w (lw_phase w p))\<lparr>lw_drawn := fresh # lw_drawn w\<rparr>" and calm: "\<not> lw_disturbed w'"
  shows "guards_ok who w'"
proof -
  have ok: "guards_ok who w" using ex unfolding exclusive_def by blast
  note D = guards_okD [OF ok]
  define ph where "ph = lw_phase w' p"
  have upd: "lw_phase w' = (lw_phase w)(p := ph)" by (rule ext) (simp add: ph_def w' acquire_others)
  have drawn: "set (lw_drawn w) \<subseteq> set (lw_drawn w')" "lw_drawn w' = fresh # lw_drawn w" by (auto simp: w')
  note move = guards_move [OF ok upd _ drawn(1)]
  note change = guards_change [OF ok upd drawn(2)]
  have alone: "in_guard (lw_phase w q) = None" if "lw_guard w = None" for q
    using in_guard_file(1) [OF ok, of q] that by (cases "in_guard (lw_phase w q)") auto
  have mutex: "in_guard (lw_phase w q) = None" if "in_guard (lw_phase w p) = Some g" "q \<noteq> p" for q g
    using in_guard_unique [OF ok that(1), of q] that(2) by (cases "in_guard (lw_phase w q)") auto
  show ?thesis
  proof (cases "lw_phase w p")
    case (Guarding n g)
    show ?thesis
    proof (cases "lw_guard w")
      case None
      then have "ph = GuardCreated n g" "lw_guard w' = Some (empty_file g (lw_now w))" by (simp_all add: ph_def w' Guarding)
      then show ?thesis using alone [OF None] Guarding by (intro change [of g]) auto
    next
      case (Some f)
      then have "ph = GuardSeen n g" by (simp add: ph_def w' Guarding)
      then show ?thesis by (rule_tac move) (use Some Guarding in \<open>auto simp: w'\<close>)
    qed
  next
    case (GuardCreated n g)
    obtain t where t: "lw_guard w = Some (empty_file g t)" using D(5) [of p g] GuardCreated by auto
    have "ph = GuardWritten n g" "lw_guard w' = Some (full_file (who p) g (lw_now w))"
      using t by (simp_all add: ph_def w' GuardCreated fill_file_def)
    then show ?thesis using mutex [of g] GuardCreated by (intro change [of g]) (auto simp: in_guard_def)
  next
    case (GuardSeen n g)
    show ?thesis
    proof (cases "ph = Looking (n + 1)")
      case True
      then show ?thesis by (rule_tac move) (use GuardSeen in \<open>auto simp: w' split: option.split\<close>)
    next
      case False
      then obtain f where f: "lw_guard w = Some f" "ol_record f \<noteq> None" "\<not> guard_is_live who p w" "ph = GuardStale n g (lf_inode f)"
        by (auto simp: ph_def w' GuardSeen split: option.splits if_splits)
      have "guard_id (lw_phase w q) \<noteq> Some (lf_inode f)" for q
        using guard_owner_seen [OF see ex f(1,2)] f(3) by blast
      then show ?thesis using f D(3) by (rule_tac move) (use GuardSeen in \<open>auto simp: w'\<close>)
    qed
  next
    case (GuardStale n g d)
    have new: "ph = GuardWritten n g" "lw_guard w' = Some (full_file (who p) g (lw_now w))" by (simp_all add: ph_def w' GuardStale)
    have "in_guard (lw_phase w q) = None" for q
    proof (cases "lw_guard w")
      case (Some f)
      then have "lf_inode f = d" using calm by (simp add: w' GuardStale)
      moreover have "guard_id (lw_phase w q) \<noteq> Some d" using D(8) [of p d q] GuardStale by simp
      ultimately show ?thesis using in_guard_file [OF ok, of q] Some by (cases "in_guard (lw_phase w q)") auto
    qed (rule alone)
    then show ?thesis using new GuardStale by (intro change [of g]) auto
  next
    case (Unlinking n g nx)
    obtain t where t: "lw_guard w = Some (full_file (who p) g t)" using D(6) [of p g] Unlinking by auto
    then have "ph = Unlinked n nx" "lw_guard w' = None" by (simp_all add: ph_def w' Unlinking)
    then show ?thesis using mutex [of g] Unlinking by (intro change) (auto simp: in_guard_def)
  qed (rule move; use fresh in \<open>auto simp: ph_def w' split: if_splits\<close>)+
qed

lemma leases_act:
  assumes see: "see_each_other who" and ex: "exclusive who w"
    and w': "w' = (acquire_step who p fresh w (lw_phase w p))\<lparr>lw_drawn := fresh # lw_drawn w\<rparr>"
  shows "leases_ok who w'"
proof -
  have ok: "leases_ok who w" "guards_ok who w" using ex unfolding exclusive_def by blast+
  note D = leases_okD [OF ok(1)]
  define ph where "ph = lw_phase w' p"
  have upd: "lw_phase w' = (lw_phase w)(p := ph)" by (rule ext) (simp add: ph_def w' acquire_others)
  note move = leases_move [OF ok(1) upd]
  note change = leases_change [OF upd]
  have mutex: "\<not> is_checked (lw_phase w q)" "is_creating (lw_phase w q) = None" if "full_id (lw_phase w p) = Some g" "q \<noteq> p" for q g
  proof -
    have "in_guard (lw_phase w p) = Some g" using that(1) by (cases "lw_phase w p") (auto simp: in_guard_def)
    then have "in_guard (lw_phase w q) = None" using in_guard_unique [OF ok(2), of p g q] that(2) by (cases "in_guard (lw_phase w q)") auto
    then show "\<not> is_checked (lw_phase w q)" "is_creating (lw_phase w q) = None"
      by (cases "lw_phase w q"; simp add: in_guard_def is_checked_def is_creating_def)+
  qed
  show ?thesis
  proof (cases "lw_phase w p")
    case (InGuard n g)
    show ?thesis
    proof (cases "lease_is_live who p w")
      case True
      then show ?thesis by (intro move) (simp_all add: ph_def w' InGuard)
    next
      case False
      then have "holding_id (lw_phase w q) = None" for q
        using holder_seen [OF see ex, of q] by (cases "holding_id (lw_phase w q)") auto
      then show ?thesis by (intro move) (use False in \<open>simp_all add: ph_def w' InGuard\<close>)
    qed
  next
    case (Checked n g l b)
    have none: "holding_id (lw_phase w q) = None" for q using D(3) [of p q] Checked by simp
    have others: "\<not> is_checked (lw_phase w q)" "is_creating (lw_phase w q) = None" if "q \<noteq> p" for q
      using mutex [of g q] that Checked by simp_all
    consider "\<not> b" "lw_lease w \<noteq> None" | b | "\<not> b" "lw_lease w = None" by blast
    then show ?thesis
    proof cases
      case 1
      then show ?thesis by (intro move) (simp_all add: ph_def w' Checked)
    next
      case 2
      then have "ph = LeaseWritten n g l" "lw_lease w' = Some (full_file (who p) l (lw_now w))" by (simp_all add: ph_def w' Checked)
      then show ?thesis by (intro change) (use none others in simp_all)
    next
      case 3
      then have "ph = LeaseCreated n g l" "lw_lease w' = Some (empty_file l (lw_now w))" by (simp_all add: ph_def w' Checked)
      then show ?thesis by (intro change) (use none others in simp_all)
    qed
  next
    case (LeaseCreated n g l)
    obtain f where f: "lw_lease w = Some f" "lf_inode f = l" "ol_record f = None" using D(2) [of p l] LeaseCreated by auto
    have none: "holding_id (lw_phase w q) = None" for q
      using D(1) [of q] f by (cases "holding_id (lw_phase w q)") auto
    have "ph = LeaseWritten n g l" "lw_lease w' = Some (full_file (who p) l (lw_now w))"
      using f by (simp_all add: ph_def w' LeaseCreated fill_file_def)
    then show ?thesis
      by (intro change) (use none mutex [of g] LeaseCreated in auto)
  next
    case (LeaseWritten n g l)
    have "lease_id_of (lw_lease w) = Some l" using holder_in_file [OF ok(1), of p l] LeaseWritten by simp
    then show ?thesis by (intro move) (simp_all add: ph_def w' LeaseWritten)
  qed (rule move; auto simp: ph_def w' split: if_splits option.splits)+
qed

lemma exclusive_phase:
  assumes "exclusive who w" "lw_phase w' = (lw_phase w)(p := ph)" "lw_guard w' = lw_guard w" "lw_drawn w' = lw_drawn w"
    "same_lease (lw_lease w) (lw_lease w')" "pids_apart who w'"
    "guard_id ph = None \<or> guard_id ph = guard_id (lw_phase w p) \<and> full_id ph = full_id (lw_phase w p)"
    "pending_id ph = None" "created_id ph = None" "stale_id ph = None" "is_creating ph = None" "\<not> is_checked ph"
    "holding_id ph = None \<or> holding_id ph = holding_id (lw_phase w p)"
  shows "exclusive who w'"
proof -
  have full: "full_id ph = Some g \<Longrightarrow> full_id (lw_phase w p) = Some g" for g using assms(7) guard_id_of(3) [of ph g] by auto
  have "guards_ok who w'"
    using assms(1) unfolding exclusive_def
    by (elim conjE guards_move [OF _ assms(2,3)]) (use assms full in auto)
  moreover have "leases_ok who w'"
    using assms(1) unfolding exclusive_def
    by (elim conjE leases_move [OF _ assms(2,5)]) (use assms in auto)
  ultimately show ?thesis using assms(6) by (simp add: exclusive_def)
qed

lemma closed_kept [lease_simps]:
  "ps_closed (snd (assertOwned seen ps)) = ps_closed ps" "startHeartbeat i ps = Inr ps' \<Longrightarrow> ps_closed ps' = ps_closed ps"
  by (auto simp: lease_simps dest: startHeartbeat_kept)

lemma throw_facts:
  assumes "ph = lw_phase w p"
  shows "guard_id (throw_phase ph) = None \<or> guard_id (throw_phase ph) = guard_id ph \<and> full_id (throw_phase ph) = full_id ph"
    "pending_id (throw_phase ph) = None" "created_id (throw_phase ph) = None" "stale_id (throw_phase ph) = None"
    "is_creating (throw_phase ph) = None" "\<not> is_checked (throw_phase ph)"
    "holding_id (throw_phase ph) = None \<or> holding_id (throw_phase ph) = holding_id ph"
  by (cases ph; simp add: lease_simps)+

lemma exclusive_step:
  assumes see: "see_each_other who" and step: "lease_step who w w'" and calm: "\<not> lw_disturbed w'" and ex: "exclusive who w"
  shows "exclusive who w'"
proof -
  have pids: "pids_apart who w'" using pids_apart_step [OF step] ex unfolding exclusive_def by blast
  note move = exclusive_phase [OF ex _ _ _ _ pids]
  from step show ?thesis
  proof cases
    case (acts p fresh)
    show ?thesis using guards_act [OF see ex acts(3,1) calm] leases_act [OF see ex acts(1)] pids by (simp add: exclusive_def)
  next
    case (starts p)
    then show ?thesis by (intro move [of p "Looking 0"]) simp_all
  next
    case (throws p)
    then show ?thesis by (intro move [of p "throw_phase (lw_phase w p)"]) (use throw_facts [OF refl, of w p] in simp_all)
  next
    case (begins p ps i ps')
    then show ?thesis using startHeartbeat_kept [OF begins(4)] by (intro move [of p "Holding ps'"]) simp_all
  next
    case (asserts p ps b)
    then show ?thesis by (intro move [of p "Holding (snd (assertOwned (assert_seen b w) ps))"]) (simp_all add: lease_simps)
  next
    case (beats p ps b)
    then show ?thesis by (intro move [of p "lw_phase w' p"]) (simp_all add: lease_simps beat_step_def Let_def)
  next
    case (stamps p ps)
    then show ?thesis by (intro move [of p "Holding (stamp_beat (lw_lease w \<noteq> None) ps)"]) (simp_all add: lease_simps)
  next
    case (closes p ps b)
    then show ?thesis by (intro move [of p "lw_phase w' p"]) (simp_all add: lease_simps close_step_def)
  next
    case (unlinks p ps)
    have ok: "leases_ok who w" "guards_ok who w" using ex unfolding exclusive_def by blast+
    have p: "holding_id (lw_phase w p) = Some (ps_leaseId ps)" using unlinks by simp
    have "holding_id (lw_phase w q) = None" if "q \<noteq> p" for q
      using one_holder [OF see ok(1) p, of q] that by (cases "holding_id (lw_phase w q)") auto
    moreover have "is_creating (lw_phase w q) = None" for q
      using leases_okD(1) [OF ok(1) p] leases_okD(2) [OF ok(1), of q] by (cases "is_creating (lw_phase w q)") auto
    moreover have "\<not> is_checked (lw_phase w q)" for q using leases_okD(3) [OF ok(1), of q p] p by auto
    ultimately have "leases_ok who w'" using unlinks
      by (intro leases_change [of w' w p "Holding (close_lease ps)"]) (auto simp: lease_simps)
    moreover have "guards_ok who w'" using unlinks by (intro guards_move [OF ok(2), of w' p "Holding (close_lease ps)"]) auto
    ultimately show ?thesis using pids by (simp add: exclusive_def)
  next
    case (dies p)
    then show ?thesis by (intro move [of p Ended]) simp_all
  next
    case (passes d)
    then show ?thesis using ex by (simp add: exclusive_def guards_ok_def leases_ok_def pids_apart_def)
  next
    case (removed b)
    then show ?thesis using calm by simp
  qed
qed

lemma exclusive_start: "exclusive who (start_world lease guard t)"
proof -
  have "guards_ok who (start_world lease guard t)"
    unfolding guards_ok_def by (simp del: map_option_eq_Some) (metis left_file_facts(1))
  then show ?thesis by (simp add: exclusive_def pids_apart_def leases_ok_def)
qed

lemma disturbed_step: "lease_step who w w' \<Longrightarrow> lw_disturbed w \<Longrightarrow> lw_disturbed w'"
proof (induction rule: lease_step.induct)
  case (acts p w fresh)
  then show ?case by (cases "lw_phase w p") (simp_all split: option.split)
qed simp_all

lemma exclusive_reach:
  assumes "see_each_other who" "lease_reach who w w'" "exclusive who w" "\<not> lw_disturbed w'"
  shows "exclusive who w'"
  using assms(2,4)
proof induction
  case (step w1 w2)
  then have "\<not> lw_disturbed w1" using disturbed_step by blast
  with step show ?case using exclusive_step [OF assms(1)] by blast
qed (use assms(3) in simp)

text \<open>
  C15: one holder at a time. Among processes that see each other's process ids, as long as no file was removed
  by hand and no takeover of a guard replaced another guard than the one judged dead: a process that holds the
  lease, from writing its record to releasing it, is the only one that does, the file carries its id, and every
  process that looks at the file judges the lease live.\<close>
theorem single_holder:
  assumes "see_each_other who" "lease_reach who (start_world lease guard t) w" "\<not> lw_disturbed w"
    "holding_id (lw_phase w p) = Some l"
  shows "lease_id_of (lw_lease w) = Some l \<and> lease_is_live who r w \<and> (holding_id (lw_phase w q) \<noteq> None \<longrightarrow> q = p)"
proof -
  have ex: "exclusive who w" by (rule exclusive_reach [OF assms(1,2) exclusive_start assms(3)])
  then have ok: "leases_ok who w" unfolding exclusive_def by blast
  show ?thesis
    using holder_in_file [OF ok assms(4)] holder_seen [OF assms(1) ex assms(4)] one_holder [OF assms(1) ok assms(4), where q = q] by auto
qed


section \<open>Runs\<close>

lemma demo_see: "see_each_other demo_who"
  by (simp add: see_each_other_def demo_who_def UNKNOWN_PID_NAMESPACE_def)

text \<open>Process 0 starts and dies with its guard on disk; 1 takes the guard over and acquires the lease.\<close>

definition demo_moves :: "lease_move list" where
  "demo_moves = [Start 0, Act 0 ''a'', Act 0 ''b'', Act 0 ''c'', Die 0, Start 1, Act 1 ''d'', Act 1 ''e'', Act 1 ''f'', Act 1 ''g'',
     Act 1 ''h'', Act 1 ''i'', Act 1 ''j'', Act 1 ''k'', Act 1 ''l'', Act 1 ''m'', Act 1 ''n'', Act 1 ''o'']"

theorem single_holder_witness:
  "\<exists>w. lease_run demo_who demo_moves (start_world None None 0) = Some w \<and> lease_id_of (lw_lease w) = Some ''i'' \<and> lease_is_live demo_who 2 w"
proof -
  obtain w where w: "lease_run demo_who demo_moves (start_world None None 0) = Some w" "\<not> lw_disturbed w" "lw_phase w 1 = Holding (new_lease ''i'' LEASE_TTL_MS)"
    by (simp add: demo_moves_def demo_run)
  from single_holder [OF demo_see lease_run_reach [OF w(1)] w(2), of 1 "''i''" 2 1] w show ?thesis
    by (simp add: new_lease_def)
qed

text \<open>
  The exception is real and needs no stalled process: when a starter died with the guard on disk and a lease of an
  earlier boot is there to be replaced, two starters that both find the dead guard replace it one after the other,
  both find the lease stale, and confirm their own records in turn.
\<close>

text \<open>
  Two starters may both confirm the lease of one data directory, in one process-id namespace and with no time
  passing, after a third died inside the guard; the fence then lets only the later one write.\<close>

lemma two_starters_confirm:
  "see_each_other demo_who \<and>
   (\<exists>w. lease_reach demo_who (start_world old_lease None 100000) w \<and> lw_now w = 100000 \<and>
     lw_phase w 1 = Holding (new_lease ''l'' LEASE_TTL_MS) \<and> lw_phase w 2 = Holding (new_lease ''o'' LEASE_TTL_MS) \<and>
     \<not> may_write True w 1 \<and> may_write True w 2)"
proof -
  obtain w where "lease_run demo_who race_moves (start_world old_lease None 100000) = Some w" "lw_now w = 100000"
     "lw_phase w 1 = Holding (new_lease ''l'' LEASE_TTL_MS)" "lw_phase w 2 = Holding (new_lease ''o'' LEASE_TTL_MS)"
     "lease_id_of (lw_lease w) = Some ''o''"
    using race_run by blast
  then show ?thesis using demo_see lease_run_reach [of demo_who race_moves] by (fastforce simp: may_write_iff new_lease_def)
qed

end
