(* ===== verification/Maker_Signing.thy ===== *)
theory Maker_Signing
  imports Book_Demo
begin

text \<open>
  The maker's and the headless taker's side of the signed protocol, \<^verbatim>\<open>marketmaker/src/protocol-signing.ts\<close>:
  normalisation of bodies, the payloads that are signed, the digests that link artifacts, and the signer with
  everything it refuses to sign. The wallet, SHA-256 and the ML-DSA check are parameters, the same ones
  (\<open>crypto\<close>) the order book's verifiers use. The properties say that what the signer signs is what
  \<^verbatim>\<open>server/src/order-signing.ts\<close> accepts.
\<close>

section \<open>Field checks\<close>

datatype signing_error = Refused string | BadAddress addr_error

type_synonym 'a signing = "(signing_error, 'a) result"

definition refuse_if :: "bool \<Rightarrow> string \<Rightarrow> 'a signing \<Rightarrow> 'a signing" where
  "refuse_if b message k = throw_if b (Refused message) k"

definition BYTES32_ANY_RE :: "string \<Rightarrow> bool" where
  "BYTES32_ANY_RE s = matches ''0x'' is_hex_any 64 s"

definition ETH_ADDRESS_ANY_RE :: "string \<Rightarrow> bool" where
  "ETH_ADDRESS_ANY_RE s = matches ''0x'' is_hex_any 40 s"

definition QRL_ADDRESS_ANY_RE :: "string \<Rightarrow> bool" where
  "QRL_ADDRESS_ANY_RE s = matches ''Q'' is_hex_any 128 s"

definition CAPABILITY_RE :: "string \<Rightarrow> bool" where
  "CAPABILITY_RE s = matches [] is_hex_lower 64 s"

definition OFFICIAL_DESCRIPTOR :: string where
  "OFFICIAL_DESCRIPTOR = ''0x010000''"

definition ORDER_LIFETIME_S :: int where "ORDER_LIFETIME_S = 48 * 3600"
definition MIN_ORDER_LIFETIME_S :: int where "MIN_ORDER_LIFETIME_S = 60"

definition bytes32 :: "string \<Rightarrow> string \<Rightarrow> string signing" where
  "bytes32 value field = refuse_if (\<not> BYTES32_ANY_RE value) (field @ '' must be a 32-byte hex string'') (Inr (to_lower value))"

definition safeUint :: "int \<Rightarrow> string \<Rightarrow> int signing" where
  "safeUint value field =
     refuse_if (\<not> isSafeInteger value \<or> value < 0) (field @ '' must be a non-negative safe integer'') (Inr value)"

definition uint8 :: "int \<Rightarrow> string \<Rightarrow> int signing" where
  "uint8 value field = js_bind (safeUint value field) (\<lambda>_.
     refuse_if (value > 255) (field @ '' must fit uint8'') (Inr value))"

definition ethAddress :: "string \<Rightarrow> string \<Rightarrow> string signing" where
  "ethAddress value field = refuse_if (\<not> ETH_ADDRESS_ANY_RE value) (field @ '' must be an Ethereum address'') (Inr (to_lower value))"

definition qrlAddress :: "shake256 \<Rightarrow> string \<Rightarrow> string \<Rightarrow> string signing" where
  "qrlAddress shake value field =
     refuse_if (\<not> QRL_ADDRESS_ANY_RE value) (field @ '' must be a QRL address'')
    (case canonicalQip55QrlAddress shake value of Inl e \<Rightarrow> Inl (BadAddress e)
     | Inr _ \<Rightarrow> Inr (''Q'' @ to_lower (drop 1 value)))"

definition amount :: "string \<Rightarrow> string \<Rightarrow> string signing" where
  "amount value field = refuse_if (\<not> CANONICAL_AMOUNT_RE value) (field @ '' must be a canonical base-unit amount'') (Inr value)"

definition capabilityToken :: "string \<Rightarrow> string \<Rightarrow> string signing" where
  "capabilityToken value field = refuse_if (\<not> CAPABILITY_RE value) (field @ '' must be 32 raw bytes as lowercase hex'') (Inr value)"

definition makerCommitment :: "crypto \<Rightarrow> string \<Rightarrow> string signing" where
  "makerCommitment cr token = js_bind (capabilityToken token ''capability token'') (\<lambda>t. Inr (cr_makerCommitment cr t))"

fun opt_bind :: "('a \<Rightarrow> 'b signing) \<Rightarrow> 'a option \<Rightarrow> 'b option signing" where
  "opt_bind f None = Inr None"
| "opt_bind f (Some a) = js_bind (f a) (\<lambda>b. Inr (Some b))"


section \<open>Bodies and payloads\<close>

definition normalizePrelock :: "prelock_terms \<Rightarrow> prelock_terms signing" where
  "normalizePrelock p =
     js_bind (bytes32 (pl_hashlock p) ''order.prelock.hashlock'') (\<lambda>h.
     js_bind (safeUint (pl_initiatorTimeout p) ''order.prelock.initiatorTimeout'') (\<lambda>t.
       Inr \<lparr>pl_hashlock = h, pl_initiatorTimeout = t\<rparr>))"

definition normalizeOrderBody :: "shake256 \<Rightarrow> order_body \<Rightarrow> order_body signing" where
  "normalizeOrderBody shake body =
     refuse_if (ob_visibility body = Public \<and> (ob_allowedTakerEth body \<noteq> None \<or> ob_allowedTakerQrl body \<noteq> None))
       ''public orders cannot restrict the taker''
    (js_bind (amount (ob_fromAmount body) ''order.fromAmount'') (\<lambda>fa.
     js_bind (amount (ob_toAmount body) ''order.toAmount'') (\<lambda>ta.
     js_bind (ethAddress (ob_makerEthAccount body) ''order.makerEthAccount'') (\<lambda>me.
     js_bind (qrlAddress shake (ob_makerQrlAccount body) ''order.makerQrlAccount'') (\<lambda>mq.
     js_bind (opt_bind (\<lambda>a. ethAddress a ''order.allowedTakerEth'') (ob_allowedTakerEth body)) (\<lambda>te.
     js_bind (opt_bind (\<lambda>a. qrlAddress shake a ''order.allowedTakerQrl'') (ob_allowedTakerQrl body)) (\<lambda>tq.
     js_bind (opt_bind normalizePrelock (ob_prelock body)) (\<lambda>pl.
       Inr \<lparr>ob_direction = ob_direction body, ob_asset = ob_asset body, ob_fromAmount = fa, ob_toAmount = ta,
         ob_makerEthAccount = me, ob_makerQrlAccount = mq, ob_visibility = ob_visibility body,
         ob_allowedTakerEth = te, ob_allowedTakerQrl = tq, ob_prelock = pl\<rparr>))))))))"

text \<open>The unsigned part of an order's authorization.\<close>

record order_auth_terms =
  oa_issuedAt :: int
  oa_expiresAt :: int
  oa_nonce :: string
  oa_makerTokenCommitment :: string
  oa_shareTokenCommitment :: string

definition order_auth_terms_of :: "maker_order_auth \<Rightarrow> order_auth_terms" where
  "order_auth_terms_of a = \<lparr>oa_issuedAt = pa_issuedAt a, oa_expiresAt = pa_expiresAt a, oa_nonce = pa_nonce a,
     oa_makerTokenCommitment = pa_makerTokenCommitment a, oa_shareTokenCommitment = pa_shareTokenCommitment a\<rparr>"

definition buildOrderV1Payload :: "shake256 \<Rightarrow> order_body \<Rightarrow> order_auth_terms \<Rightarrow> payload signing" where
  "buildOrderV1Payload shake body auth =
     js_bind (normalizeOrderBody shake body) (\<lambda>order.
     js_bind (safeUint (oa_issuedAt auth) ''auth.issuedAt'') (\<lambda>i.
     js_bind (safeUint (oa_expiresAt auth) ''auth.expiresAt'') (\<lambda>e.
     js_bind (bytes32 (oa_nonce auth) ''auth.nonce'') (\<lambda>n.
     js_bind (bytes32 (oa_makerTokenCommitment auth) ''auth.makerTokenCommitment'') (\<lambda>mk.
     js_bind (bytes32 (oa_shareTokenCommitment auth) ''auth.shareTokenCommitment'') (\<lambda>sh.
       Inr (OrderV2 order i e n mk sh)))))))"

definition buildFillIntentV1Payload :: "shake256 \<Rightarrow> fill_intent_body \<Rightarrow> int \<Rightarrow> int \<Rightarrow> string \<Rightarrow> payload signing" where
  "buildFillIntentV1Payload shake body issuedAt expiresAt nonce =
     js_bind (safeUint issuedAt ''intent.issuedAt'') (\<lambda>i.
     js_bind (safeUint expiresAt ''intent.expiresAt'') (\<lambda>e.
     refuse_if (e \<le> i) ''intent expiry must follow issuance''
    (js_bind (bytes32 (fi_orderDigest body) ''intent.orderDigest'') (\<lambda>d.
     js_bind (bytes32 nonce ''intent.requestNonce'') (\<lambda>n.
     js_bind (ethAddress (fi_takerEthAccount body) ''intent.takerEthAccount'') (\<lambda>te.
     js_bind (qrlAddress shake (fi_takerQrlAccount body) ''intent.takerQrlAccount'') (\<lambda>tq.
     js_bind (bytes32 (fi_releaseCommitment body) ''intent.releaseCommitment'') (\<lambda>r.
       Inr (FillIntentV2 \<lparr>fi_orderDigest = d, fi_takerEthAccount = te, fi_takerQrlAccount = tq,
         fi_releaseCommitment = r\<rparr> n i e)))))))))"

definition normalizeFillBody :: "shake256 \<Rightarrow> fill_body \<Rightarrow> fill_body signing" where
  "normalizeFillBody shake body =
     js_bind (bytes32 (fb_orderDigest body) ''fill.orderDigest'') (\<lambda>d.
     js_bind (bytes32 (fb_intentDigest body) ''fill.intentDigest'') (\<lambda>i.
     js_bind (ethAddress (fb_takerEthAccount body) ''fill.takerEthAccount'') (\<lambda>te.
     js_bind (qrlAddress shake (fb_takerQrlAccount body) ''fill.takerQrlAccount'') (\<lambda>tq.
     js_bind (bytes32 (fb_releaseCommitment body) ''fill.releaseCommitment'') (\<lambda>r.
     js_bind (bytes32 (fb_hashlock body) ''fill.hashlock'') (\<lambda>h.
     js_bind (safeUint (fb_initiatorTimeout body) ''fill.initiatorTimeout'') (\<lambda>t1.
     js_bind (safeUint (fb_responderTimeout body) ''fill.responderTimeout'') (\<lambda>t2.
       Inr \<lparr>fb_orderDigest = d, fb_intentDigest = i, fb_takerEthAccount = te, fb_takerQrlAccount = tq,
         fb_releaseCommitment = r, fb_hashlock = h, fb_initiatorTimeout = t1, fb_responderTimeout = t2\<rparr>))))))))"

definition buildFillV1Payload :: "shake256 \<Rightarrow> fill_body \<Rightarrow> string \<Rightarrow> int \<Rightarrow> int \<Rightarrow> string \<Rightarrow> payload signing" where
  "buildFillV1Payload shake body orderNonce issuedAt expiresAt nonce =
     js_bind (normalizeFillBody shake body) (\<lambda>fill.
     js_bind (safeUint issuedAt ''auth.issuedAt'') (\<lambda>i.
     js_bind (safeUint expiresAt ''auth.expiresAt'') (\<lambda>e.
     refuse_if (e \<le> i) ''fill response deadline must follow issuance''
    (js_bind (bytes32 orderNonce ''orderAuth.nonce'') (\<lambda>on.
     js_bind (bytes32 nonce ''auth.nonce'') (\<lambda>n.
       Inr (FillV2 \<lparr>ft_body = fill, ft_orderNonce = on, ft_fillNonce = n, ft_issuedAt = i, ft_respondBy = e\<rparr>)))))))"

definition normalizeCancelBody :: "cancel_body \<Rightarrow> cancel_body signing" where
  "normalizeCancelBody body =
     js_bind (bytes32 (cb_orderDigest body) ''cancel.orderDigest'') (\<lambda>d.
     js_bind (uint8 (cb_reasonCode body) ''cancel.reasonCode'') (\<lambda>c.
       Inr \<lparr>cb_orderDigest = d, cb_reasonCode = c\<rparr>))"

definition buildCancelV1Payload :: "cancel_body \<Rightarrow> string \<Rightarrow> int \<Rightarrow> string \<Rightarrow> payload signing" where
  "buildCancelV1Payload body orderNonce issuedAt nonce =
     js_bind (normalizeCancelBody body) (\<lambda>cancel.
     js_bind (bytes32 orderNonce ''orderAuth.nonce'') (\<lambda>on.
     js_bind (bytes32 nonce ''auth.nonce'') (\<lambda>n.
     js_bind (safeUint issuedAt ''auth.issuedAt'') (\<lambda>i.
       Inr (CancelV2 cancel on n i)))))"

definition computeOrderDigest :: "crypto \<Rightarrow> shake256 \<Rightarrow> order_body \<Rightarrow> order_auth_terms \<Rightarrow> string signing" where
  "computeOrderDigest cr shake body auth = js_bind (buildOrderV1Payload shake body auth) (\<lambda>p. Inr (cr_digest cr p))"

definition computeFillIntentDigest :: "crypto \<Rightarrow> shake256 \<Rightarrow> fill_intent_body \<Rightarrow> protocol_auth \<Rightarrow> string signing" where
  "computeFillIntentDigest cr shake body auth =
     js_bind (buildFillIntentV1Payload shake body (pa_issuedAt auth) (pa_expiresAt auth) (pa_nonce auth)) (\<lambda>p. Inr (cr_digest cr p))"

definition computeFillDigest :: "crypto \<Rightarrow> shake256 \<Rightarrow> fill_body \<Rightarrow> string \<Rightarrow> protocol_auth \<Rightarrow> string signing" where
  "computeFillDigest cr shake body orderNonce auth =
     js_bind (buildFillV1Payload shake body orderNonce (pa_issuedAt auth) (pa_expiresAt auth) (pa_nonce auth)) (\<lambda>p. Inr (cr_digest cr p))"

definition computeCancelDigest :: "crypto \<Rightarrow> cancel_body \<Rightarrow> string \<Rightarrow> protocol_auth \<Rightarrow> string signing" where
  "computeCancelDigest cr body orderNonce auth =
     js_bind (buildCancelV1Payload body orderNonce (pa_issuedAt auth) (pa_nonce auth)) (\<lambda>p. Inr (cr_digest cr p))"

definition derive_order_id :: "crypto \<Rightarrow> shake256 \<Rightarrow> string \<Rightarrow> string \<Rightarrow> string signing" where
  "derive_order_id cr shake makerQrlAccount nonce =
     js_bind (qrlAddress shake makerQrlAccount ''makerQrlAccount'') (\<lambda>m.
     js_bind (bytes32 nonce ''nonce'') (\<lambda>n. Inr (cr_orderId cr m n)))"

definition release_commitment :: "crypto \<Rightarrow> string \<Rightarrow> string \<Rightarrow> string \<Rightarrow> string signing" where
  "release_commitment cr orderDigest requestNonce releaseSecret =
     js_bind (bytes32 orderDigest ''orderDigest'') (\<lambda>d.
     js_bind (bytes32 requestNonce ''requestNonce'') (\<lambda>n.
     js_bind (bytes32 releaseSecret ''releaseSecret'') (\<lambda>s.
       Inr (cr_release cr d n s))))"


section \<open>Verification\<close>

text \<open>The library refuses to look at any proof without a qualified deployment; the caller then sees \<open>False\<close>.\<close>

definition verifyOfficialV1Proof :: "crypto \<Rightarrow> string \<Rightarrow> protocol_auth \<Rightarrow> payload \<Rightarrow> bool" where
  "verifyOfficialV1Proof cr signer auth p \<longleftrightarrow> cr_deployed cr \<and> cr_verify cr signer auth p"

definition has_keys :: "jobj \<Rightarrow> string list \<Rightarrow> bool" where
  "has_keys obj keys \<longleftrightarrow> length obj = length keys \<and> list_all (\<lambda>k. k \<in> fst ` set obj) keys"

definition canonical_string :: "jobj \<Rightarrow> string \<Rightarrow> (string \<Rightarrow> bool) \<Rightarrow> string option" where
  "canonical_string obj key pattern =
     (case map_of obj key of Some (JStr s) \<Rightarrow> if pattern s then Some s else None | _ \<Rightarrow> None)"

definition canonical_integer :: "jobj \<Rightarrow> string \<Rightarrow> int option" where
  "canonical_integer obj key =
     (case map_of obj key of Some (JInt n) \<Rightarrow> if isSafeInteger n then Some n else None | _ \<Rightarrow> None)"

definition fillIntentBodyIsCanonical :: "json \<Rightarrow> fill_intent_body option" where
  "fillIntentBodyIsCanonical raw =
     (case raw of JObj obj \<Rightarrow>
        (if \<not> has_keys obj [''orderDigest'', ''takerEthAccount'', ''takerQrlAccount'', ''releaseCommitment''] then None
         else case (canonical_string obj ''orderDigest'' BYTES32_RE, canonical_string obj ''takerEthAccount'' ETH_ADDR_LOWER_RE,
              canonical_string obj ''takerQrlAccount'' QRL_ADDR_LOWER_RE, canonical_string obj ''releaseCommitment'' BYTES32_RE) of
            (Some d, Some e, Some q, Some r) \<Rightarrow>
              Some \<lparr>fi_orderDigest = d, fi_takerEthAccount = e, fi_takerQrlAccount = q, fi_releaseCommitment = r\<rparr>
          | _ \<Rightarrow> None)
      | _ \<Rightarrow> None)"

definition protocolAuthIsCanonical :: "json \<Rightarrow> int \<Rightarrow> protocol_auth option" where
  "protocolAuthIsCanonical raw now =
     (case raw of JObj obj \<Rightarrow>
        (if \<not> has_keys obj PROTOCOL_AUTH_KEYS \<or> map_of obj ''version'' \<noteq> Some (JStr ''2'') \<or>
            map_of obj ''scheme'' \<noteq> Some (JStr ''qrl-sign-message-v2'') then None
         else case (canonical_integer obj ''issuedAt'', canonical_integer obj ''expiresAt'', canonical_string obj ''nonce'' BYTES32_RE,
              canonical_string obj ''signature'' SIGNATURE_RE, canonical_string obj ''publicKey'' PUBLIC_KEY_RE,
              canonical_string obj ''descriptor'' DESCRIPTOR_RE) of
            (Some i, Some e, Some n, Some s, Some p, Some d) \<Rightarrow>
              if 0 \<le> i \<and> i < e \<and> e - i \<le> MAX_FILL_INTENT_LIFETIME_S \<and> i \<le> now + MAX_CLOCK_SKEW_S \<and> now < e
              then Some \<lparr>pa_issuedAt = i, pa_expiresAt = e, pa_nonce = n, pa_signature = s, pa_publicKey = p, pa_descriptor = d\<rparr>
              else None
          | _ \<Rightarrow> None)
      | _ \<Rightarrow> None)"

text \<open>The order's own window is optional, as in the options object.\<close>

record intent_window =
  iw_now :: int
  iw_orderIssuedAt :: "int option"
  iw_orderExpiresAt :: "int option"

definition window_bad :: "intent_window \<Rightarrow> protocol_auth \<Rightarrow> bool" where
  "window_bad w auth \<longleftrightarrow>
     (case iw_orderIssuedAt w of None \<Rightarrow> False | Some i \<Rightarrow> \<not> safe_nonneg i \<or> pa_issuedAt auth < i) \<or>
     (case iw_orderExpiresAt w of None \<Rightarrow> False | Some e \<Rightarrow> \<not> safe_nonneg e \<or> e < pa_expiresAt auth) \<or>
     (case (iw_orderIssuedAt w, iw_orderExpiresAt w) of (Some i, Some e) \<Rightarrow> e \<le> i | _ \<Rightarrow> False)"

definition verify_fill_intent :: "crypto \<Rightarrow> shake256 \<Rightarrow> json \<Rightarrow> json \<Rightarrow> string \<Rightarrow> intent_window \<Rightarrow> bool" where
  "verify_fill_intent cr shake rawBody rawAuth expectedOrderDigest w \<longleftrightarrow>
     isSafeInteger (iw_now w) \<and> 0 \<le> iw_now w \<and> iw_now w \<le> MAX_SAFE_INTEGER - MAX_CLOCK_SKEW_S \<and>
     BYTES32_RE expectedOrderDigest \<and>
     (case (fillIntentBodyIsCanonical rawBody, protocolAuthIsCanonical rawAuth (iw_now w)) of
        (Some body, Some auth) \<Rightarrow>
          fi_orderDigest body = expectedOrderDigest \<and> \<not> window_bad w auth \<and>
          (case buildFillIntentV1Payload shake body (pa_issuedAt auth) (pa_expiresAt auth) (pa_nonce auth) of
             Inl _ \<Rightarrow> False
           | Inr p \<Rightarrow> verifyOfficialV1Proof cr (fi_takerQrlAccount body) auth p)
      | _ \<Rightarrow> False)"


section \<open>The signer\<close>

text \<open>A wallet gives its public key and a signature over a payload; \<^verbatim>\<open>close\<close> wipes it.\<close>

record protocol_signer =
  sg_address :: string
  sg_publicKey :: string
  sg_sign :: "payload \<Rightarrow> string"
  sg_closed :: bool

definition new_signer :: "shake256 \<Rightarrow> string \<Rightarrow> string \<Rightarrow> (payload \<Rightarrow> string) \<Rightarrow> protocol_signer signing" where
  "new_signer shake walletAddress publicKey sign =
     (case canonicalQip55QrlAddress shake walletAddress of Inl e \<Rightarrow> Inl (BadAddress e)
      | Inr a \<Rightarrow> Inr \<lparr>sg_address = ''Q'' @ to_lower (drop 1 a), sg_publicKey = publicKey, sg_sign = sign, sg_closed = False\<rparr>)"

definition close_signer :: "protocol_signer \<Rightarrow> protocol_signer" where
  "close_signer sg = sg\<lparr>sg_closed := True\<rparr>"

definition signer_ready :: "shake256 \<Rightarrow> protocol_signer \<Rightarrow> 'a signing \<Rightarrow> 'a signing" where
  "signer_ready shake sg k =
     refuse_if (sg_closed sg) ''protocol signer is closed''
    (case assertPortableOrderV1CanSign shake (sg_address sg) of Inl e \<Rightarrow> Inl (BadAddress e) | Inr _ \<Rightarrow> k)"

definition signMessageDigest :: "crypto \<Rightarrow> protocol_signer \<Rightarrow> payload \<Rightarrow> string signing" where
  "signMessageDigest cr sg p =
     refuse_if (\<not> cr_deployed cr) ''Portable V2 requires a qualified v3 HTLC deployment'' (Inr (sg_sign sg p))"

definition signed_auth :: "protocol_signer \<Rightarrow> int \<Rightarrow> int \<Rightarrow> string \<Rightarrow> string \<Rightarrow> protocol_auth" where
  "signed_auth sg issuedAt expiresAt nonce signature =
     \<lparr>pa_issuedAt = issuedAt, pa_expiresAt = expiresAt, pa_nonce = nonce, pa_signature = signature,
      pa_publicKey = sg_publicKey sg, pa_descriptor = OFFICIAL_DESCRIPTOR\<rparr>"

record sign_order_options =
  so_makerToken :: string
  so_shareToken :: "string option"
  so_issuedAt :: "int option"
  so_expiresAt :: "int option"
  so_nonce :: "string option"

text \<open>\<open>fresh\<close> is what the random source gives where no nonce is passed.\<close>

definition signOrderV1 :: "crypto \<Rightarrow> shake256 \<Rightarrow> protocol_signer \<Rightarrow> int \<Rightarrow> string \<Rightarrow> order_body \<Rightarrow> sign_order_options
    \<Rightarrow> (order_body \<times> maker_order_auth) signing" where
  "signOrderV1 cr shake sg now fresh body opts =
     signer_ready shake sg
    (js_bind (normalizeOrderBody shake body) (\<lambda>order.
     refuse_if (ob_visibility order \<noteq> Public) ''headless market maker supports public signed orders only''
    (refuse_if (ob_makerQrlAccount order \<noteq> sg_address sg) ''order maker QRL account does not match the signing seed''
    (js_bind (safeUint (nvl (so_issuedAt opts) now) ''auth.issuedAt'') (\<lambda>issuedAt.
     let defaultExpiry = (case ob_prelock order of None \<Rightarrow> issuedAt + ORDER_LIFETIME_S
            | Some p \<Rightarrow> min (issuedAt + ORDER_LIFETIME_S) (pl_initiatorTimeout p)) in
     js_bind (safeUint (nvl (so_expiresAt opts) defaultExpiry) ''auth.expiresAt'') (\<lambda>expiresAt.
     refuse_if (expiresAt - issuedAt < MIN_ORDER_LIFETIME_S) ''order expiry must provide at least 60 seconds of runway''
    (refuse_if (expiresAt - issuedAt > ORDER_LIFETIME_S) ''order lifetime exceeds 48 hours''
    (refuse_if (case ob_prelock order of None \<Rightarrow> False | Some p \<Rightarrow> expiresAt > pl_initiatorTimeout p)
       ''prelocked order proof cannot outlive its initiator lock''
    (refuse_if (case ob_prelock order of None \<Rightarrow> False | Some p \<Rightarrow>
         pl_initiatorTimeout p - issuedAt < MIN_PRELOCK_LISTING_WINDOW_S \<or> pl_initiatorTimeout p - issuedAt > MAX_PRELOCK_LISTING_WINDOW_S)
       ''prelocked order timeout is outside the listing window''
    (refuse_if (so_shareToken opts \<noteq> None) ''public orders cannot carry a share capability''
    (js_bind (bytes32 (nvl (so_nonce opts) fresh) ''auth.nonce'') (\<lambda>nonce.
     js_bind (capabilityToken (so_makerToken opts) ''maker token'') (\<lambda>token.
     js_bind (makerCommitment cr token) (\<lambda>mk.
     js_bind (buildOrderV1Payload shake order \<lparr>oa_issuedAt = issuedAt, oa_expiresAt = expiresAt, oa_nonce = nonce,
         oa_makerTokenCommitment = mk, oa_shareTokenCommitment = ZERO32\<rparr>) (\<lambda>p.
     js_bind (signMessageDigest cr sg p) (\<lambda>signature.
       Inr (order, \<lparr>pa_issuedAt = issuedAt, pa_expiresAt = expiresAt, pa_nonce = nonce, pa_signature = signature,
         pa_publicKey = sg_publicKey sg, pa_descriptor = OFFICIAL_DESCRIPTOR, pa_makerTokenCommitment = mk,
         pa_shareTokenCommitment = ZERO32\<rparr>)))))))))))))))))"

record sign_intent_options =
  sn_order :: order_body
  sn_auth :: maker_order_auth
  sn_orderDigest :: string
  sn_takerEthAccount :: string
  sn_releaseSecret :: string
  sn_issuedAt :: "int option"
  sn_expiresAt :: "int option"
  sn_requestNonce :: "string option"

definition signFillIntentV1 :: "crypto \<Rightarrow> shake256 \<Rightarrow> protocol_signer \<Rightarrow> int \<Rightarrow> string \<Rightarrow> sign_intent_options
    \<Rightarrow> (fill_intent_body \<times> protocol_auth) signing" where
  "signFillIntentV1 cr shake sg now fresh opts =
     signer_ready shake sg
    (js_bind (normalizeOrderBody shake (sn_order opts)) (\<lambda>order.
     let orderAuth = sn_auth opts in
     refuse_if (ob_visibility order \<noteq> Public) ''headless taker supports public signed orders only''
    (js_bind (computeOrderDigest cr shake order (order_auth_terms_of orderAuth)) (\<lambda>orderDigest.
     js_bind (bytes32 (sn_orderDigest opts) ''intent.orderDigest'') (\<lambda>given.
     refuse_if (given \<noteq> orderDigest) ''fill intent does not match the verified order digest''
    (js_bind (buildOrderV1Payload shake order (order_auth_terms_of orderAuth)) (\<lambda>op.
     refuse_if (\<not> verifyOfficialV1Proof cr (ob_makerQrlAccount order) (base_auth orderAuth) op)
       ''order proof is not authenticated by its maker''
    (js_bind (safeUint (nvl (sn_issuedAt opts) now) ''intent.issuedAt'') (\<lambda>issuedAt.
     refuse_if (issuedAt < pa_issuedAt orderAuth) ''fill intent cannot predate its order''
    (js_bind (safeUint (nvl (sn_expiresAt opts) (issuedAt + MAX_FILL_INTENT_LIFETIME_S)) ''intent.expiresAt'') (\<lambda>wanted.
     let expiresAt = min wanted (pa_expiresAt orderAuth) in
     refuse_if (expiresAt \<le> issuedAt \<or> expiresAt - issuedAt > MAX_FILL_INTENT_LIFETIME_S)
       ''fill intent must expire within 120 seconds of issuance and inside its order window''
    (js_bind (bytes32 (nvl (sn_requestNonce opts) fresh) ''intent.requestNonce'') (\<lambda>nonce.
     js_bind (ethAddress (sn_takerEthAccount opts) ''intent.takerEthAccount'') (\<lambda>te.
     js_bind (bytes32 (sn_releaseSecret opts) ''intent.releaseSecret'') (\<lambda>secret.
     js_bind (release_commitment cr orderDigest nonce secret) (\<lambda>rc.
     let intent = \<lparr>fi_orderDigest = orderDigest, fi_takerEthAccount = te, fi_takerQrlAccount = sg_address sg,
       fi_releaseCommitment = rc\<rparr> in
     js_bind (buildFillIntentV1Payload shake intent issuedAt expiresAt nonce) (\<lambda>p.
     js_bind (signMessageDigest cr sg p) (\<lambda>signature.
       Inr (intent, signed_auth sg issuedAt expiresAt nonce signature)))))))))))))))))))"

record sign_fill_options =
  sl_order :: order_body
  sl_auth :: maker_order_auth
  sl_selected :: selected_fill_intent
  sl_respondBy :: int
  sl_issuedAt :: "int option"
  sl_fillNonce :: "string option"

definition fill_selects :: "crypto \<Rightarrow> shake256 \<Rightarrow> fill_body \<Rightarrow> string \<Rightarrow> maker_order_auth \<Rightarrow> selected_fill_intent \<Rightarrow> int \<Rightarrow> bool signing" where
  "fill_selects cr shake fill orderDigest orderAuth selected now =
     (let intent = si_intent selected in
      if fb_orderDigest fill \<noteq> orderDigest then Inr False
      else js_bind (computeFillIntentDigest cr shake intent (si_auth selected)) (\<lambda>d.
        Inr (si_intentDigest selected = d \<and> fb_intentDigest fill = si_intentDigest selected \<and>
          fb_takerEthAccount fill = fi_takerEthAccount intent \<and> fb_takerQrlAccount fill = fi_takerQrlAccount intent \<and>
          fb_releaseCommitment fill = fi_releaseCommitment intent \<and>
          verify_fill_intent cr shake (intent_json intent) (auth_json (si_auth selected)) orderDigest
            \<lparr>iw_now = now, iw_orderIssuedAt = Some (pa_issuedAt orderAuth), iw_orderExpiresAt = Some (pa_expiresAt orderAuth)\<rparr>)))"

definition maker_owns_order :: "protocol_signer \<Rightarrow> order_body \<Rightarrow> maker_order_auth \<Rightarrow> bool" where
  "maker_owns_order sg order orderAuth \<longleftrightarrow>
     ob_makerQrlAccount order = sg_address sg \<and> pa_publicKey orderAuth = sg_publicKey sg \<and> pa_descriptor orderAuth = OFFICIAL_DESCRIPTOR"

definition sign_fill_windows :: "order_body \<Rightarrow> fill_body \<Rightarrow> int \<Rightarrow> int \<Rightarrow> 'a signing \<Rightarrow> 'a signing" where
  "sign_fill_windows order fill issuedAt expiresAt k =
     (let initiatorWindow = fb_initiatorTimeout fill - issuedAt; responderWindow = fb_responderTimeout fill - issuedAt in
     refuse_if (responderWindow \<le> 0 \<or> initiatorWindow < responderWindow \<or> responderWindow > initiatorWindow div 2)
       ''fill timeout windows are invalid''
    (refuse_if (responderWindow > MAX_RESPONDER_WINDOW_S) ''fill responder timeout exceeds the maximum window''
    (refuse_if (ob_prelock order = None \<and> initiatorWindow > MAX_INITIATOR_WINDOW_S) ''fill initiator timeout exceeds the maximum window''
    (refuse_if (case ob_prelock order of None \<Rightarrow> False | Some p \<Rightarrow>
         fb_hashlock fill \<noteq> pl_hashlock p \<or> fb_initiatorTimeout fill \<noteq> pl_initiatorTimeout p)
       ''fill does not exactly match the signed prelock''
    (refuse_if (fb_responderTimeout fill - expiresAt \<le> MIN_RESPONDER_RUNWAY_AFTER_RESPONSE_S)
       ''fill responder timeout has insufficient post-response runway'' k)))))"

definition signFillV1 :: "crypto \<Rightarrow> shake256 \<Rightarrow> protocol_signer \<Rightarrow> int \<Rightarrow> string \<Rightarrow> fill_body \<Rightarrow> sign_fill_options
    \<Rightarrow> signed_fill signing" where
  "signFillV1 cr shake sg now fresh body opts =
     signer_ready shake sg
    (js_bind (normalizeFillBody shake body) (\<lambda>fill.
     js_bind (normalizeOrderBody shake (sl_order opts)) (\<lambda>order.
     let orderAuth = sl_auth opts; selected = sl_selected opts in
     js_bind (safeUint (nvl (sl_issuedAt opts) now) ''auth.issuedAt'') (\<lambda>issuedAt.
     js_bind (safeUint (sl_respondBy opts) ''auth.expiresAt'') (\<lambda>expiresAt.
     js_bind (bytes32 (nvl (sl_fillNonce opts) fresh) ''auth.nonce'') (\<lambda>nonce.
     refuse_if (expiresAt - issuedAt < MIN_FILL_RESPONSE_S \<or> expiresAt - issuedAt > MAX_FILL_RESPONSE_S)
       ''fill response window must be between 60 and 900 seconds''
    (refuse_if (ob_visibility order \<noteq> Public) ''headless market maker supports public signed orders only''
    (refuse_if (\<not> maker_owns_order sg order orderAuth) ''fill order context is not authenticated by this maker''
    (js_bind (buildOrderV1Payload shake order (order_auth_terms_of orderAuth)) (\<lambda>op.
     refuse_if (\<not> verifyOfficialV1Proof cr (ob_makerQrlAccount order) (base_auth orderAuth) op)
       ''fill order context is not authenticated by this maker''
    (js_bind (computeOrderDigest cr shake order (order_auth_terms_of orderAuth)) (\<lambda>orderDigest.
     js_bind (fill_selects cr shake fill orderDigest orderAuth selected issuedAt) (\<lambda>selects.
     refuse_if (\<not> selects) ''fill does not authenticate the selected live intent''
    (refuse_if (issuedAt \<ge> pa_expiresAt (si_auth selected) \<or> expiresAt > pa_expiresAt orderAuth)
       ''fill authorization is outside its order or intent window''
    (refuse_if (fb_hashlock fill = ZERO32) ''fill hashlock cannot be zero''
    (sign_fill_windows order fill issuedAt expiresAt
    (js_bind (buildFillV1Payload shake fill (pa_nonce orderAuth) issuedAt expiresAt nonce) (\<lambda>p.
     js_bind (signMessageDigest cr sg p) (\<lambda>signature.
       Inr \<lparr>sf_fill = fill, sf_auth = signed_auth sg issuedAt expiresAt nonce signature\<rparr>)))))))))))))))))))"

record sign_cancel_options =
  sk_orderNonce :: string
  sk_expiresAt :: int
  sk_issuedAt :: "int option"
  sk_cancelNonce :: "string option"

definition signCancelV1 :: "crypto \<Rightarrow> shake256 \<Rightarrow> protocol_signer \<Rightarrow> int \<Rightarrow> string \<Rightarrow> cancel_body \<Rightarrow> sign_cancel_options
    \<Rightarrow> signed_cancel signing" where
  "signCancelV1 cr shake sg now fresh body opts =
     signer_ready shake sg
    (js_bind (normalizeCancelBody body) (\<lambda>cancel.
     js_bind (bytes32 (sk_orderNonce opts) ''orderAuth.nonce'') (\<lambda>orderNonce.
     js_bind (safeUint (nvl (sk_issuedAt opts) now) ''auth.issuedAt'') (\<lambda>issuedAt.
     js_bind (safeUint (sk_expiresAt opts) ''auth.expiresAt'') (\<lambda>expiresAt.
     js_bind (bytes32 (nvl (sk_cancelNonce opts) fresh) ''auth.nonce'') (\<lambda>nonce.
     refuse_if (expiresAt \<le> issuedAt) ''cancel authorization expiry must follow issuance''
    (js_bind (buildCancelV1Payload cancel orderNonce issuedAt nonce) (\<lambda>p.
     js_bind (signMessageDigest cr sg p) (\<lambda>signature.
       Inr \<lparr>sc_cancel = cancel, sc_auth = signed_auth sg issuedAt expiresAt nonce signature\<rparr>)))))))))"


section \<open>What the checks leave\<close>

lemma refuse_if_Inr [js_simps]: "refuse_if b m k = Inr r \<longleftrightarrow> \<not> b \<and> k = Inr r"
  by (simp add: refuse_if_def throw_if_def)

lemma safeUint_Inr [js_simps]: "safeUint n f = Inr m \<longleftrightarrow> safe_nonneg n \<and> m = n"
  by (auto simp: safeUint_def js_simps safe_nonneg_def)

lemma field_Inr [js_simps]:
  "bytes32 v f = Inr s \<longleftrightarrow> BYTES32_ANY_RE v \<and> s = to_lower v"
  "ethAddress v f = Inr s \<longleftrightarrow> ETH_ADDRESS_ANY_RE v \<and> s = to_lower v"
  "amount v f = Inr s \<longleftrightarrow> CANONICAL_AMOUNT_RE v \<and> s = v"
  "capabilityToken v f = Inr s \<longleftrightarrow> CAPABILITY_RE v \<and> s = v"
  "uint8 n f = Inr m \<longleftrightarrow> safe_nonneg n \<and> n \<le> 255 \<and> m = n"
  by (auto simp: bytes32_def ethAddress_def amount_def capabilityToken_def uint8_def js_simps)

lemma qrlAddress_Inr [js_simps]:
  "qrlAddress shake v f = Inr s \<longleftrightarrow> QRL_ADDRESS_ANY_RE v \<and> isQip55QrlAddress shake v \<and> s = ''Q'' @ to_lower (drop 1 v)"
  by (auto simp: qrlAddress_def canonicalQip55QrlAddress_def js_simps split: sum.splits if_splits)

lemma signer_ready_Inr [js_simps]:
  "signer_ready shake sg k = Inr r \<longleftrightarrow> \<not> sg_closed sg \<and> isQip55QrlAddress shake (sg_address sg) \<and> k = Inr r"
  by (auto simp: signer_ready_def assertPortableOrderV1CanSign_def js_simps split: sum.splits)

lemma signMessageDigest_Inr [js_simps]: "signMessageDigest cr sg p = Inr s \<longleftrightarrow> cr_deployed cr \<and> s = sg_sign sg p"
  by (auto simp: signMessageDigest_def js_simps)

text \<open>Lower case is canonical, and what is canonical stays as it is.\<close>

lemma lower_char_fixed: "is_hex_lower c \<Longrightarrow> lower_char c = c"
  by (auto simp: is_hex_lower_def is_digit_def char_in_def lower_char_def Let_def)

lemma lower_matches:
  "matches pre is_hex_any n s \<Longrightarrow> to_lower pre = pre \<Longrightarrow> matches pre is_hex_lower n (to_lower s)"
  by (auto simp: matches_def to_lower_def list_all_iff take_map drop_map intro: is_hex_lower_lower)

lemma matches_lower:
  assumes "matches pre is_hex_lower n s" "to_lower pre = pre"
  shows "matches pre is_hex_any n s" "to_lower s = s"
proof -
  have "to_lower (drop (length pre) s) = drop (length pre) s"
    using assms(1) by (simp add: matches_def to_lower_def list_all_iff lower_char_fixed map_idI)
  moreover have "s = pre @ drop (length pre) s" using assms(1) unfolding matches_def by (metis append_take_drop_id)
  ultimately show "to_lower s = s" using assms(2) by (metis to_lower_append)
  show "matches pre is_hex_any n s" using assms(1) by (auto simp: matches_def list_all_iff is_hex_any_def)
qed

lemma lower_prefix: "to_lower ''0x'' = ''0x''" by code_simp

lemma lower_canonical:
  "BYTES32_ANY_RE v \<Longrightarrow> BYTES32_RE (to_lower v)" "ETH_ADDRESS_ANY_RE v \<Longrightarrow> ETH_ADDR_LOWER_RE (to_lower v)"
  "QRL_ADDRESS_ANY_RE v \<Longrightarrow> QRL_ADDR_LOWER_RE (CHR ''Q'' # to_lower (drop (Suc 0) v))"
  using lower_matches [OF _ lower_prefix] lower_matches [of "[]" 128 "drop 1 v"]
  by (auto simp: BYTES32_ANY_RE_def BYTES32_RE_def ETH_ADDRESS_ANY_RE_def ETH_ADDR_LOWER_RE_def QRL_ADDRESS_ANY_RE_def
      QRL_ADDR_LOWER_RE_def matches_def to_lower_def)

lemma canonical_stays [simp]:
  "BYTES32_RE v \<Longrightarrow> BYTES32_ANY_RE v" "BYTES32_RE v \<Longrightarrow> to_lower v = v"
  "ETH_ADDR_LOWER_RE v \<Longrightarrow> ETH_ADDRESS_ANY_RE v" "ETH_ADDR_LOWER_RE v \<Longrightarrow> to_lower v = v"
  using matches_lower [OF _ lower_prefix]
  by (auto simp: BYTES32_ANY_RE_def BYTES32_RE_def ETH_ADDRESS_ANY_RE_def ETH_ADDR_LOWER_RE_def)

lemma qrl_stays [simp]:
  assumes "QRL_ADDR_LOWER_RE v"
  shows "QRL_ADDRESS_ANY_RE v" "CHR ''Q'' # to_lower (drop (Suc 0) v) = v" "isQip55QrlAddress shake v"
proof -
  have v: "v = CHR ''Q'' # drop 1 v" and m: "matches [] is_hex_lower 128 (drop 1 v)"
    using assms by (cases v; auto simp: QRL_ADDR_LOWER_RE_def matches_def)+
  have l: "to_lower (drop 1 v) = drop 1 v" using matches_lower(2) [OF m] by (simp add: to_lower_def)
  then show "CHR ''Q'' # to_lower (drop (Suc 0) v) = v" using v by simp
  have "matches ''Q'' is_hex_any 128 v" using assms by (auto simp: QRL_ADDR_LOWER_RE_def matches_def list_all_iff is_hex_any_def)
  then show "QRL_ADDRESS_ANY_RE v" "isQip55QrlAddress shake v"
    using l by (simp_all add: QRL_ADDRESS_ANY_RE_def isQip55QrlAddress_def QIP55_QRL_ADDRESS_RE_def)
qed

lemma opt_bind_Inr [js_simps]:
  "opt_bind f x = Inr y \<longleftrightarrow> (case x of None \<Rightarrow> y = None | Some a \<Rightarrow> \<exists>b. f a = Inr b \<and> y = Some b)"
  by (cases x) (auto simp: js_simps)

lemma normalizePrelock_Inr [js_simps]:
  "normalizePrelock p = Inr q \<longleftrightarrow> BYTES32_ANY_RE (pl_hashlock p) \<and> safe_nonneg (pl_initiatorTimeout p) \<and>
     q = \<lparr>pl_hashlock = to_lower (pl_hashlock p), pl_initiatorTimeout = pl_initiatorTimeout p\<rparr>"
  by (auto simp: normalizePrelock_def js_simps)

lemma opt_fields:
  "opt_bind (\<lambda>a. ethAddress a f) x = Inr y \<Longrightarrow> (y = None) = (x = None) \<and> pred_option ETH_ADDR_LOWER_RE y"
  "opt_bind (\<lambda>a. qrlAddress shake a f) x = Inr z \<Longrightarrow> (z = None) = (x = None) \<and> pred_option QRL_ADDR_LOWER_RE z"
  "opt_bind normalizePrelock p = Inr q \<Longrightarrow> pred_option prelock_wf q"
  subgoal by (cases x) (auto simp: js_simps lower_canonical)
  subgoal by (cases x) (auto simp: js_simps lower_canonical)
  subgoal by (cases p) (auto simp: js_simps prelock_wf_def HASHLOCK_RE_def safe_nonneg_def lower_canonical)
  done

lemma opt_stays:
  "pred_option ETH_ADDR_LOWER_RE x \<Longrightarrow> opt_bind (\<lambda>a. ethAddress a f) x = Inr x"
  "pred_option QRL_ADDR_LOWER_RE x \<Longrightarrow> opt_bind (\<lambda>a. qrlAddress shake a f) x = Inr x"
  "pred_option prelock_wf p \<Longrightarrow> opt_bind normalizePrelock p = Inr p"
  subgoal by (cases x) (simp_all add: js_simps)
  subgoal by (cases x) (simp_all add: js_simps)
  subgoal
  proof (cases p)
    case (Some q)
    then show "pred_option prelock_wf p \<Longrightarrow> ?thesis"
      by (cases q) (simp add: js_simps prelock_wf_def HASHLOCK_RE_def safe_nonneg_def)
  qed simp
  done

lemma body_wf_alt:
  "order_body_wf b \<longleftrightarrow> CANONICAL_AMOUNT_RE (ob_fromAmount b) \<and> CANONICAL_AMOUNT_RE (ob_toAmount b) \<and>
     ETH_ADDR_LOWER_RE (ob_makerEthAccount b) \<and> QRL_ADDR_LOWER_RE (ob_makerQrlAccount b) \<and>
     (ob_visibility b = Public \<longrightarrow> ob_allowedTakerEth b = None \<and> ob_allowedTakerQrl b = None) \<and>
     pred_option ETH_ADDR_LOWER_RE (ob_allowedTakerEth b) \<and> pred_option QRL_ADDR_LOWER_RE (ob_allowedTakerQrl b) \<and>
     pred_option prelock_wf (ob_prelock b)"
  by (cases "ob_visibility b") (auto simp: order_body_wf_def split: option.splits)

lemma normalize_order_wf:
  assumes "normalizeOrderBody shake b = Inr ord"
  shows "order_body_wf ord"
proof -
  from assms obtain te tq pl where nf:
    "opt_bind (\<lambda>a. ethAddress a ''order.allowedTakerEth'') (ob_allowedTakerEth b) = Inr te"
    "opt_bind (\<lambda>a. qrlAddress shake a ''order.allowedTakerQrl'') (ob_allowedTakerQrl b) = Inr tq"
    "opt_bind normalizePrelock (ob_prelock b) = Inr pl"
    "ob_visibility b = Public \<longrightarrow> ob_allowedTakerEth b = None \<and> ob_allowedTakerQrl b = None"
    "ob_visibility ord = ob_visibility b" "ob_allowedTakerEth ord = te" "ob_allowedTakerQrl ord = tq" "ob_prelock ord = pl"
    "CANONICAL_AMOUNT_RE (ob_fromAmount ord)" "CANONICAL_AMOUNT_RE (ob_toAmount ord)"
    "ETH_ADDR_LOWER_RE (ob_makerEthAccount ord)" "QRL_ADDR_LOWER_RE (ob_makerQrlAccount ord)"
    unfolding normalizeOrderBody_def refuse_if_Inr js_bind_Inr by (auto simp: field_Inr qrlAddress_Inr lower_canonical)
  show ?thesis using nf opt_fields(1) [OF nf(1)] opt_fields(2) [OF nf(2)] opt_fields(3) [OF nf(3)] unfolding body_wf_alt by simp
qed

lemma normalize_order_canonical:
  assumes "order_body_wf ord"
  shows "normalizeOrderBody shake ord = Inr ord"
  using assms unfolding normalizeOrderBody_def refuse_if_Inr js_bind_Inr body_wf_alt
  by (auto simp: field_Inr qrlAddress_Inr opt_stays)

lemma build_order_canonical:
  assumes "order_body_wf ord" "safe_nonneg (oa_issuedAt a)" "safe_nonneg (oa_expiresAt a)" "BYTES32_RE (oa_nonce a)"
    "BYTES32_RE (oa_makerTokenCommitment a)" "BYTES32_RE (oa_shareTokenCommitment a)"
  shows "buildOrderV1Payload shake ord a =
    Inr (OrderV2 ord (oa_issuedAt a) (oa_expiresAt a) (oa_nonce a) (oa_makerTokenCommitment a) (oa_shareTokenCommitment a))"
  using assms by (simp add: buildOrderV1Payload_def normalize_order_canonical js_simps)

lemma build_order_auth:
  assumes "order_body_wf ord" "maker_auth_wf a"
  shows "buildOrderV1Payload shake ord (order_auth_terms_of a) = Inr (order_payload ord a)"
    "computeOrderDigest cr shake ord (order_auth_terms_of a) = Inr (cr_digest cr (order_payload ord a))"
  using assms build_order_canonical [of ord "order_auth_terms_of a" shake]
  by (simp_all add: order_auth_terms_of_def order_payload_def maker_auth_wf_def auth_wf_def computeOrderDigest_def js_simps)

text \<open>A wallet whose key and signatures have the ML-DSA-87 sizes and whose signatures verify.\<close>

definition wallet_ok :: "crypto \<Rightarrow> protocol_signer \<Rightarrow> bool" where
  "wallet_ok cr sg \<longleftrightarrow> PUBLIC_KEY_RE (sg_publicKey sg) \<and> (\<forall>p. SIGNATURE_RE (sg_sign sg p)) \<and>
     (\<forall>p i e n. cr_verify cr (sg_address sg) (signed_auth sg i e n (sg_sign sg p)) p)"

text \<open>SHA-256 commitments are 32 bytes and not zero.\<close>

definition commitment_ok :: "string \<Rightarrow> bool" where
  "commitment_ok c \<longleftrightarrow> BYTES32_RE c \<and> c \<noteq> ZERO32"

lemma official_descriptor: "DESCRIPTOR_RE OFFICIAL_DESCRIPTOR"
  by code_simp

lemma zero32: "BYTES32_RE ZERO32"
  by code_simp

lemma signOrderV1_Inr:
  assumes "signOrderV1 cr shake sg now fresh body opts = Inr (ord, a)"
  shows "order_body_wf ord" "ob_visibility ord = Public" "ob_makerQrlAccount ord = sg_address sg" "cr_deployed cr"
    "safe_nonneg (pa_issuedAt a)" "safe_nonneg (pa_expiresAt a)" "BYTES32_RE (pa_nonce a)"
    "60 \<le> pa_expiresAt a - pa_issuedAt a" "pa_expiresAt a - pa_issuedAt a \<le> MAX_ORDER_LIFETIME_S"
    "case ob_prelock ord of None \<Rightarrow> True | Some p \<Rightarrow> pa_expiresAt a \<le> pl_initiatorTimeout p"
    "\<not> prelock_window_bad ord a" "pa_makerTokenCommitment a = cr_makerCommitment cr (so_makerToken opts)"
    "pa_shareTokenCommitment a = ZERO32" "pa_publicKey a = sg_publicKey sg" "pa_descriptor a = OFFICIAL_DESCRIPTOR"
    "\<exists>p. buildOrderV1Payload shake ord (order_auth_terms_of a) = Inr p \<and> pa_signature a = sg_sign sg p"
proof -
  obtain p where nf: "normalizeOrderBody shake body = Inr ord" "ob_visibility ord = Public" "ob_makerQrlAccount ord = sg_address sg"
    "safe_nonneg (pa_issuedAt a)" "safe_nonneg (pa_expiresAt a)" "60 \<le> pa_expiresAt a - pa_issuedAt a"
    "pa_expiresAt a - pa_issuedAt a \<le> MAX_ORDER_LIFETIME_S"
    "case ob_prelock ord of None \<Rightarrow> True | Some p \<Rightarrow> pa_expiresAt a \<le> pl_initiatorTimeout p"
    "\<not> prelock_window_bad ord a" "BYTES32_ANY_RE (nvl (so_nonce opts) fresh)" "pa_nonce a = to_lower (nvl (so_nonce opts) fresh)"
    "pa_makerTokenCommitment a = cr_makerCommitment cr (so_makerToken opts)"
    "pa_shareTokenCommitment a = ZERO32" "pa_publicKey a = sg_publicKey sg" "pa_descriptor a = OFFICIAL_DESCRIPTOR"
    and p: "buildOrderV1Payload shake ord (order_auth_terms_of a) = Inr p" "cr_deployed cr" "pa_signature a = sg_sign sg p"
    using assms
    by (auto simp: signOrderV1_def Let_def signer_ready_Inr refuse_if_Inr js_bind_Inr safeUint_Inr field_Inr signMessageDigest_Inr
        makerCommitment_def prelock_window_bad_def order_auth_terms_of_def MIN_ORDER_LIFETIME_S_def ORDER_LIFETIME_S_def
        MAX_ORDER_LIFETIME_S_def split: option.splits)
  show "order_body_wf ord" by (rule normalize_order_wf [OF nf(1)])
  show "BYTES32_RE (pa_nonce a)" using nf(10,11) by (simp add: lower_canonical)
  show "\<exists>p. buildOrderV1Payload shake ord (order_auth_terms_of a) = Inr p \<and> pa_signature a = sg_sign sg p" using p by blast
  show "ob_visibility ord = Public" "ob_makerQrlAccount ord = sg_address sg" "cr_deployed cr" "safe_nonneg (pa_issuedAt a)"
    "safe_nonneg (pa_expiresAt a)" "60 \<le> pa_expiresAt a - pa_issuedAt a" "pa_expiresAt a - pa_issuedAt a \<le> MAX_ORDER_LIFETIME_S"
    "case ob_prelock ord of None \<Rightarrow> True | Some p \<Rightarrow> pa_expiresAt a \<le> pl_initiatorTimeout p"
    "\<not> prelock_window_bad ord a" "pa_makerTokenCommitment a = cr_makerCommitment cr (so_makerToken opts)"
    "pa_shareTokenCommitment a = ZERO32" "pa_publicKey a = sg_publicKey sg" "pa_descriptor a = OFFICIAL_DESCRIPTOR"
    using nf p by auto
qed

text \<open>
  C23: what the maker signs as an order, the order book accepts while it lives. Let the wallet answer with keys and
  signatures of the documented sizes that verify under its address, and let the release commitment be a 32-byte hash.
  If the signer returns an order, the book's verifier accepts its JSON at any time of the book at which the order was
  issued at most five minutes ahead and at least a minute of it is left, derives the id the maker derives and the digest the maker computes.\<close>
theorem signed_order_accepted:
  assumes "signOrderV1 cr shake sg now fresh body opts = Inr (ord, a)"
    "wallet_ok cr sg" "commitment_ok (cr_makerCommitment cr (so_makerToken opts))"
    "pa_issuedAt a \<le> bookNow + MAX_CLOCK_SKEW_S" "bookNow + MIN_REMAINING_LIFETIME_S \<le> pa_expiresAt a"
  shows "\<exists>d i. computeOrderDigest cr shake ord (order_auth_terms_of a) = Inr d \<and>
    derive_order_id cr shake (ob_makerQrlAccount ord) (pa_nonce a) = Inr i \<and>
    verifyOrderV1 cr bookNow False (JObj (order_body_obj ord)) (maker_auth_json a) =
      Inr \<lparr>vo_orderId = i, vo_orderDigest = d, vo_order = ord, vo_auth = a\<rparr>"
proof -
  note f = signOrderV1_Inr [OF assms(1)]
  obtain p where p: "buildOrderV1Payload shake ord (order_auth_terms_of a) = Inr p" "pa_signature a = sg_sign sg p" using f(16) by blast
  have wf: "maker_auth_wf a"
    using f p assms(2,3) official_descriptor zero32
    by (simp add: maker_auth_wf_def auth_wf_def wallet_ok_def commitment_ok_def)
  note b = build_order_auth [OF f(1) wf]
  have "base_auth a = signed_auth sg (pa_issuedAt a) (pa_expiresAt a) (pa_nonce a) (sg_sign sg (order_payload ord a))"
    using p b(1) f(14,15) by (simp add: base_auth_def signed_auth_def)
  then have "cr_verify cr (ob_makerQrlAccount ord) (base_auth a) (order_payload ord a)"
    using assms(2) f(3) by (simp add: wallet_ok_def)
  moreover have "QRL_ADDR_LOWER_RE (ob_makerQrlAccount ord)" using f(1) by (simp add: order_body_wf_def)
  moreover have "\<not> (case ob_prelock ord of None \<Rightarrow> False | Some p \<Rightarrow> pa_expiresAt a > pl_initiatorTimeout p)"
    using f(10) by (simp split: option.splits)
  moreover have "BYTES32_RE (pa_nonce a)" using f(7) .
  ultimately have "verifyOrderV1 cr bookNow False (JObj (order_body_obj ord)) (maker_auth_json a) =
      Inr \<lparr>vo_orderId = cr_orderId cr (ob_makerQrlAccount ord) (pa_nonce a), vo_orderDigest = cr_digest cr (order_payload ord a),
        vo_order = ord, vo_auth = a\<rparr>"
    unfolding verifyOrderV1_def canonical_order_roundtrip [OF f(1)] parseMakerOrderAuth_roundtrip [OF wf] js_bind_simps reject_if_Inr
    using f(2,4,8,9,11,12,13) assms(3,4,5) by (auto simp: js_simps deriveOrderV1Id_def commitment_ok_def)
  moreover have "derive_order_id cr shake (ob_makerQrlAccount ord) (pa_nonce a) = Inr (cr_orderId cr (ob_makerQrlAccount ord) (pa_nonce a))"
    using f(1,7) by (simp add: derive_order_id_def js_simps order_body_wf_def)
  ultimately show ?thesis using b(2) by blast
qed


section \<open>Intents\<close>

definition intent_body_wf :: "fill_intent_body \<Rightarrow> bool" where
  "intent_body_wf i \<longleftrightarrow> BYTES32_RE (fi_orderDigest i) \<and> ETH_ADDR_LOWER_RE (fi_takerEthAccount i) \<and>
     QRL_ADDR_LOWER_RE (fi_takerQrlAccount i) \<and> BYTES32_RE (fi_releaseCommitment i)"

lemma intent_canonical:
  "fillIntentBodyIsCanonical (intent_json i) = Some j \<longleftrightarrow> intent_body_wf i \<and> j = i"
  by (cases i) (auto simp: fillIntentBodyIsCanonical_def intent_json_def has_keys_def canonical_string_def intent_body_wf_def)

lemma auth_canonical:
  "protocolAuthIsCanonical (auth_json a) now = Some b \<longleftrightarrow>
     b = a \<and> auth_wf a \<and> pa_issuedAt a < pa_expiresAt a \<and> pa_expiresAt a - pa_issuedAt a \<le> MAX_FILL_INTENT_LIFETIME_S \<and>
     pa_issuedAt a \<le> now + MAX_CLOCK_SKEW_S \<and> now < pa_expiresAt a"
  by (cases a) (auto simp: protocolAuthIsCanonical_def auth_json_def auth_fields_def has_keys_def PROTOCOL_AUTH_KEYS_def canonical_string_def
      canonical_integer_def auth_wf_def safe_nonneg_def)

lemma build_intent_canonical:
  assumes "intent_body_wf i" "safe_nonneg s" "safe_nonneg e" "s < e" "BYTES32_RE n"
  shows "buildFillIntentV1Payload shake i s e n = Inr (FillIntentV2 i n s e)"
  using assms by (cases i) (simp add: buildFillIntentV1Payload_def js_simps intent_body_wf_def)

lemma intent_body_roundtrip: "intent_body_wf i \<Longrightarrow> canonicalFillIntentBody (intent_json i) = Inr i"
  by (cases i) (simp add: canonicalFillIntentBody_def intent_json_def exactObject_JObj intent_body_wf_def)

lemma verify_fill_intent_facts:
  assumes "verify_fill_intent cr shake (intent_json i) (auth_json a) d w"
  shows "intent_body_wf i" "auth_wf a" "pa_issuedAt a < pa_expiresAt a" "pa_expiresAt a - pa_issuedAt a \<le> MAX_FILL_INTENT_LIFETIME_S"
    "fi_orderDigest i = d" "\<not> window_bad w a" "cr_deployed cr" "iw_now w < pa_expiresAt a"
    "cr_verify cr (fi_takerQrlAccount i) a (intent_payload i a)"
    "computeFillIntentDigest cr shake i a = Inr (cr_digest cr (intent_payload i a))"
proof -
  from assms obtain p where f: "intent_body_wf i" "auth_wf a" "pa_issuedAt a < pa_expiresAt a"
      "pa_expiresAt a - pa_issuedAt a \<le> MAX_FILL_INTENT_LIFETIME_S" "fi_orderDigest i = d" "\<not> window_bad w a" "iw_now w < pa_expiresAt a"
    and p: "buildFillIntentV1Payload shake i (pa_issuedAt a) (pa_expiresAt a) (pa_nonce a) = Inr p"
      "cr_deployed cr" "cr_verify cr (fi_takerQrlAccount i) a p"
    by (auto simp: verify_fill_intent_def intent_canonical auth_canonical verifyOfficialV1Proof_def split: option.splits sum.splits)
  have q: "buildFillIntentV1Payload shake i (pa_issuedAt a) (pa_expiresAt a) (pa_nonce a) = Inr (intent_payload i a)"
    using build_intent_canonical [OF f(1), of "pa_issuedAt a" "pa_expiresAt a" "pa_nonce a" shake] f(2,3)
    by (simp add: auth_wf_def intent_payload_def)
  show "cr_verify cr (fi_takerQrlAccount i) a (intent_payload i a)" using p q by simp
  show "computeFillIntentDigest cr shake i a = Inr (cr_digest cr (intent_payload i a))"
    using q by (simp add: computeFillIntentDigest_def js_simps)
  show "intent_body_wf i" "auth_wf a" "pa_issuedAt a < pa_expiresAt a" "pa_expiresAt a - pa_issuedAt a \<le> MAX_FILL_INTENT_LIFETIME_S"
    "fi_orderDigest i = d" "\<not> window_bad w a" "cr_deployed cr" "iw_now w < pa_expiresAt a"
    using f p by simp_all
qed

lemma signFillIntentV1_Inr:
  assumes "signFillIntentV1 cr shake sg now fresh opts = Inr (i, a)"
  shows "\<exists>ord d p. normalizeOrderBody shake (sn_order opts) = Inr ord \<and> ob_visibility ord = Public \<and>
    computeOrderDigest cr shake ord (order_auth_terms_of (sn_auth opts)) = Inr d \<and> fi_orderDigest i = d \<and>
    fi_takerQrlAccount i = sg_address sg \<and> isQip55QrlAddress shake (sg_address sg) \<and>
    pa_issuedAt (sn_auth opts) \<le> pa_issuedAt a \<and> pa_issuedAt a < pa_expiresAt a \<and>
    pa_expiresAt a - pa_issuedAt a \<le> MAX_FILL_INTENT_LIFETIME_S \<and> pa_expiresAt a \<le> pa_expiresAt (sn_auth opts) \<and>
    release_commitment cr d (pa_nonce a) (to_lower (sn_releaseSecret opts)) = Inr (fi_releaseCommitment i) \<and>
    buildFillIntentV1Payload shake i (pa_issuedAt a) (pa_expiresAt a) (pa_nonce a) = Inr p \<and> cr_deployed cr \<and>
    a = signed_auth sg (pa_issuedAt a) (pa_expiresAt a) (pa_nonce a) (sg_sign sg p) \<and> BYTES32_RE (pa_nonce a) \<and>
    ETH_ADDR_LOWER_RE (fi_takerEthAccount i) \<and> BYTES32_RE d"
  using assms
  by (auto simp: signFillIntentV1_def Let_def signer_ready_Inr refuse_if_Inr js_bind_Inr safeUint_Inr field_Inr signMessageDigest_Inr
      signed_auth_def lower_canonical)

lemma new_signer_address:
  assumes "new_signer shake wa pk sign = Inr sg"
  shows "QRL_ADDR_LOWER_RE (sg_address sg)"
proof -
  have wa: "QRL_ADDRESS_ANY_RE wa" and sg: "sg_address sg = CHR ''Q'' # to_lower (checksummedHex shake (to_lower (drop 1 wa)))"
    using assms
    by (auto simp: new_signer_def canonicalQip55QrlAddress_def isQip55QrlAddress_def QIP55_QRL_ADDRESS_RE_def
        QRL_ADDRESS_ANY_RE_def split: sum.splits if_splits)
  have "list_all is_hex_lower (to_lower (drop 1 wa))"
    using wa by (intro hex_lower_to_lower) (simp add: QRL_ADDRESS_ANY_RE_def matches_def)
  then have "sg_address sg = CHR ''Q'' # to_lower (drop (Suc 0) wa)" unfolding sg by simp
  then show ?thesis using lower_canonical(3) [OF wa] by simp
qed

text \<open>SHA-256 hashes are 32 bytes.\<close>

definition hashes_ok :: "crypto \<Rightarrow> bool" where
  "hashes_ok cr \<longleftrightarrow> (\<forall>d n s. BYTES32_RE (cr_release cr d n s)) \<and> (\<forall>p. BYTES32_RE (cr_digest cr p))"

text \<open>
  C24: what the headless taker signs as an intent, the order book accepts. If the signer returns an intent for an order
  the book has verified, the book accepts it for as long as the intent lives, under the digest both sides compute.\<close>
theorem signed_intent_accepted:
  assumes "new_signer shake wa pk sign = Inr sg" "wallet_ok cr sg" "hashes_ok cr"
    "signFillIntentV1 cr shake sg now fresh opts = Inr (i, a)"
    "verified_order_ok cr vo" "vo_order vo = sn_order opts" "vo_auth vo = sn_auth opts"
    "pa_issuedAt a \<le> bookNow + MAX_CLOCK_SKEW_S" "bookNow < pa_expiresAt a"
  shows "\<exists>d. computeFillIntentDigest cr shake i a = Inr d \<and>
    verifyFillIntentV1 cr bookNow False (intent_json i) (auth_json a) vo = Inr \<lparr>vi_intentDigest = d, vi_intent = i, vi_auth = a\<rparr>"
proof -
  have wf: "order_body_wf (vo_order vo)" "maker_auth_wf (vo_auth vo)" using assms(5) by (simp_all add: verified_order_ok_def)
  obtain ord d p where f: "normalizeOrderBody shake (sn_order opts) = Inr ord" "ob_visibility ord = Public"
    "computeOrderDigest cr shake ord (order_auth_terms_of (sn_auth opts)) = Inr d" "fi_orderDigest i = d"
    "fi_takerQrlAccount i = sg_address sg" "pa_issuedAt (sn_auth opts) \<le> pa_issuedAt a" "pa_issuedAt a < pa_expiresAt a"
    "pa_expiresAt a - pa_issuedAt a \<le> MAX_FILL_INTENT_LIFETIME_S" "pa_expiresAt a \<le> pa_expiresAt (sn_auth opts)"
    "release_commitment cr d (pa_nonce a) (to_lower (sn_releaseSecret opts)) = Inr (fi_releaseCommitment i)"
    and p: "buildFillIntentV1Payload shake i (pa_issuedAt a) (pa_expiresAt a) (pa_nonce a) = Inr p" "cr_deployed cr"
    and a: "a = signed_auth sg (pa_issuedAt a) (pa_expiresAt a) (pa_nonce a) (sg_sign sg p)" "BYTES32_RE (pa_nonce a)"
      "ETH_ADDR_LOWER_RE (fi_takerEthAccount i)" "BYTES32_RE d"
    using signFillIntentV1_Inr [OF assms(4)] by blast
  have ord: "ord = vo_order vo" using f(1) normalize_order_canonical [OF wf(1), of shake] assms(6) by simp
  have d: "d = vo_orderDigest vo"
    using f(3) build_order_auth(2) [OF wf, of cr shake] assms(5,7) by (simp add: ord verified_order_ok_def)
  have "BYTES32_RE (fi_releaseCommitment i)"
    using f(10) assms(3) unfolding release_commitment_def js_bind_Inr hashes_ok_def by (metis Inr_inject)
  then have i: "intent_body_wf i" using a f new_signer_address [OF assms(1)] by (simp add: intent_body_wf_def)
  have t: "safe_nonneg (pa_issuedAt a)" "safe_nonneg (pa_expiresAt a)"
    using p(1) by (auto simp: buildFillIntentV1Payload_def js_bind_Inr safeUint_Inr)
  have sig: "pa_signature a = sg_sign sg p" "pa_publicKey a = sg_publicKey sg" "pa_descriptor a = OFFICIAL_DESCRIPTOR"
    by (subst a(1), simp add: signed_auth_def)+
  have awf: "auth_wf a" using t a(2) sig assms(2) official_descriptor by (simp add: auth_wf_def wallet_ok_def)
  have q: "p = intent_payload i a" using build_intent_canonical [OF i t f(7) a(2), of shake] p(1) by (simp add: intent_payload_def)
  have "cr_verify cr (sg_address sg) (signed_auth sg (pa_issuedAt a) (pa_expiresAt a) (pa_nonce a) (sg_sign sg p)) p"
    using assms(2) by (simp add: wallet_ok_def)
  then have v: "cr_verify cr (fi_takerQrlAccount i) a (intent_payload i a)" using a(1) f(5) q by simp
  have free: "ob_allowedTakerEth (vo_order vo) = None" "ob_allowedTakerQrl (vo_order vo) = None"
    using wf(1) f(2) ord unfolding body_wf_alt by blast+
  have "verifyFillIntentV1 cr bookNow False (intent_json i) (auth_json a) vo =
      Inr \<lparr>vi_intentDigest = cr_digest cr (intent_payload i a), vi_intent = i, vi_auth = a\<rparr>"
    unfolding verifyFillIntentV1_def intent_body_roundtrip [OF i] parseAuth_roundtrip [OF awf] js_bind_simps
    using f d v p(2) assms(7,8,9) free by (auto simp: js_simps)
  moreover have "computeFillIntentDigest cr shake i a = Inr (cr_digest cr (intent_payload i a))"
    using p(1) q by (simp add: computeFillIntentDigest_def js_simps)
  ultimately show ?thesis by blast
qed


section \<open>Fills and cancels\<close>

definition fill_body_wf :: "fill_body \<Rightarrow> bool" where
  "fill_body_wf f \<longleftrightarrow> BYTES32_RE (fb_orderDigest f) \<and> BYTES32_RE (fb_intentDigest f) \<and> ETH_ADDR_LOWER_RE (fb_takerEthAccount f) \<and>
     QRL_ADDR_LOWER_RE (fb_takerQrlAccount f) \<and> BYTES32_RE (fb_releaseCommitment f) \<and> BYTES32_RE (fb_hashlock f) \<and>
     safe_nonneg (fb_initiatorTimeout f) \<and> safe_nonneg (fb_responderTimeout f)"

lemma normalize_fill_wf: "normalizeFillBody shake b = Inr f \<Longrightarrow> fill_body_wf f"
  by (auto simp: normalizeFillBody_def js_bind_Inr field_Inr safeUint_Inr qrlAddress_Inr fill_body_wf_def lower_canonical)

lemma normalize_fill_canonical: "fill_body_wf f \<Longrightarrow> normalizeFillBody shake f = Inr f"
  by (cases f) (auto simp: normalizeFillBody_def js_bind_Inr field_Inr safeUint_Inr qrlAddress_Inr fill_body_wf_def)

lemma build_fill_canonical:
  assumes "fill_body_wf f" "BYTES32_RE on" "safe_nonneg i" "safe_nonneg e" "i < e" "BYTES32_RE n"
  shows "buildFillV1Payload shake f on i e n = Inr (FillV2 \<lparr>ft_body = f, ft_orderNonce = on, ft_fillNonce = n, ft_issuedAt = i, ft_respondBy = e\<rparr>)"
  using assms by (simp add: buildFillV1Payload_def normalize_fill_canonical js_simps)

lemma fill_body_roundtrip:
  "fill_body_wf f \<Longrightarrow> fb_hashlock f \<noteq> ZERO32 \<Longrightarrow> canonicalFillBody (fill_json f) = Inr f"
  by (cases f) (simp add: canonicalFillBody_def fill_json_def exactObject_JObj fill_body_wf_def HASHLOCK_RE_def safe_nonneg_def)

definition sign_windows_ok :: "order_body \<Rightarrow> fill_body \<Rightarrow> int \<Rightarrow> int \<Rightarrow> bool" where
  "sign_windows_ok ord f i e \<longleftrightarrow>
     e + 600 < fb_responderTimeout f \<and> i < fb_responderTimeout f \<and>
     2 * (fb_responderTimeout f - i) \<le> fb_initiatorTimeout f - i \<and> fb_responderTimeout f - i \<le> 7200 \<and>
     (case ob_prelock ord of None \<Rightarrow> fb_initiatorTimeout f - i \<le> 14400
      | Some p \<Rightarrow> fb_hashlock f = pl_hashlock p \<and> fb_initiatorTimeout f = pl_initiatorTimeout p)"

lemma sign_fill_windows_Inr:
  "sign_fill_windows ord f i e k = Inr r \<longleftrightarrow> sign_windows_ok ord f i e \<and> k = Inr r"
  by (cases "ob_prelock ord")
    (auto simp: sign_fill_windows_def sign_windows_ok_def refuse_if_Inr Let_def MIN_RESPONDER_RUNWAY_AFTER_RESPONSE_S_def
      MAX_RESPONDER_WINDOW_S_def MAX_INITIATOR_WINDOW_S_def)

text \<open>What a signed fill satisfies.\<close>

definition fill_signed :: "crypto \<Rightarrow> shake256 \<Rightarrow> protocol_signer \<Rightarrow> sign_fill_options \<Rightarrow> signed_fill \<Rightarrow> order_body \<Rightarrow> string \<Rightarrow> payload \<Rightarrow> bool" where
  "fill_signed cr shake sg opts sf ord d p \<longleftrightarrow>
     (let fill = sf_fill sf; auth = sf_auth sf; intent = si_intent (sl_selected opts); ia = si_auth (sl_selected opts) in
     normalizeOrderBody shake (sl_order opts) = Inr ord \<and> fill_body_wf fill \<and> fb_hashlock fill \<noteq> ZERO32 \<and>
     computeOrderDigest cr shake ord (order_auth_terms_of (sl_auth opts)) = Inr d \<and>
     ob_makerQrlAccount ord = sg_address sg \<and>
     fb_orderDigest fill = d \<and> computeFillIntentDigest cr shake intent ia = Inr (fb_intentDigest fill) \<and>
     fb_takerEthAccount fill = fi_takerEthAccount intent \<and> fb_takerQrlAccount fill = fi_takerQrlAccount intent \<and>
     fb_releaseCommitment fill = fi_releaseCommitment intent \<and>
     verify_fill_intent cr shake (intent_json intent) (auth_json ia) d
       \<lparr>iw_now = pa_issuedAt auth, iw_orderIssuedAt = Some (pa_issuedAt (sl_auth opts)), iw_orderExpiresAt = Some (pa_expiresAt (sl_auth opts))\<rparr> \<and>
     MIN_FILL_RESPONSE_S \<le> pa_expiresAt auth - pa_issuedAt auth \<and> pa_expiresAt auth - pa_issuedAt auth \<le> MAX_FILL_RESPONSE_S \<and>
     pa_issuedAt auth < pa_expiresAt ia \<and> pa_expiresAt auth \<le> pa_expiresAt (sl_auth opts) \<and>
     safe_nonneg (pa_issuedAt auth) \<and> safe_nonneg (pa_expiresAt auth) \<and> BYTES32_RE (pa_nonce auth) \<and>
     sign_windows_ok ord fill (pa_issuedAt auth) (pa_expiresAt auth) \<and>
     buildFillV1Payload shake fill (pa_nonce (sl_auth opts)) (pa_issuedAt auth) (pa_expiresAt auth) (pa_nonce auth) = Inr p \<and>
     cr_deployed cr \<and> auth = signed_auth sg (pa_issuedAt auth) (pa_expiresAt auth) (pa_nonce auth) (sg_sign sg p))"

lemma signFillV1_Inr:
  assumes "signFillV1 cr shake sg now fresh body opts = Inr sf"
  shows "\<exists>ord d p. fill_signed cr shake sg opts sf ord d p"
proof -
  define i where "i = nvl (sl_issuedAt opts) now"
  define e where "e = sl_respondBy opts"
  define n where "n = to_lower (nvl (sl_fillNonce opts) fresh)"
  from assms obtain fill ord d op p where nf: "normalizeFillBody shake body = Inr fill"
    "normalizeOrderBody shake (sl_order opts) = Inr ord" "safe_nonneg i" "safe_nonneg e" "BYTES32_ANY_RE (nvl (sl_fillNonce opts) fresh)"
    "\<not> (e - i < MIN_FILL_RESPONSE_S \<or> e - i > MAX_FILL_RESPONSE_S)" "maker_owns_order sg ord (sl_auth opts)"
    "computeOrderDigest cr shake ord (order_auth_terms_of (sl_auth opts)) = Inr d"
    "fill_selects cr shake fill d (sl_auth opts) (sl_selected opts) i = Inr True"
    "\<not> (pa_expiresAt (si_auth (sl_selected opts)) \<le> i \<or> e > pa_expiresAt (sl_auth opts))" "fb_hashlock fill \<noteq> ZERO32"
    "sign_windows_ok ord fill i e" "buildFillV1Payload shake fill (pa_nonce (sl_auth opts)) i e n = Inr p" "cr_deployed cr"
    "sf = \<lparr>sf_fill = fill, sf_auth = signed_auth sg i e n (sg_sign sg p)\<rparr>"
    unfolding signFillV1_def Let_def signer_ready_Inr refuse_if_Inr js_bind_Inr safeUint_Inr field_Inr signMessageDigest_Inr sign_fill_windows_Inr
      i_def [symmetric] e_def [symmetric] n_def [symmetric]
    by (elim exE conjE) (rule that, (assumption | simp)+)
  have "BYTES32_RE n" using nf(5) lower_canonical(1) by (simp add: n_def)
  then have "fill_signed cr shake sg opts sf ord d p"
    using nf normalize_fill_wf [OF nf(1)]
    by (auto simp: fill_signed_def signed_auth_def Let_def fill_selects_def js_bind_Inr maker_owns_order_def split: if_splits)
  then show ?thesis by blast
qed


text \<open>What the book asks of a fill beyond what the signer asks.\<close>

definition book_asks_more :: "int \<Rightarrow> order_body \<Rightarrow> fill_body \<Rightarrow> protocol_auth \<Rightarrow> protocol_auth \<Rightarrow> bool" where
  "book_asks_more bookNow ord fill intentAuth auth \<longleftrightarrow>
     pa_issuedAt intentAuth \<le> pa_issuedAt auth \<and>
     (ob_prelock ord \<noteq> None \<longrightarrow> MIN_PRELOCK_RUNWAY_S \<le> fb_initiatorTimeout fill - pa_issuedAt auth \<and>
        MIN_PRELOCK_RUNWAY_S \<le> fb_initiatorTimeout fill - bookNow) \<and>
     pa_issuedAt auth \<le> bookNow + MAX_CLOCK_SKEW_S \<and> bookNow < pa_expiresAt auth"

lemma fill_timeouts_signed:
  assumes "sign_windows_ok (vo_order vo) f (pa_issuedAt a) (pa_expiresAt a)"
  shows "fill_timeouts vo f a now False k = Inr r \<longleftrightarrow>
    (ob_prelock (vo_order vo) \<noteq> None \<longrightarrow> MIN_PRELOCK_RUNWAY_S \<le> fb_initiatorTimeout f - pa_issuedAt a \<and>
      MIN_PRELOCK_RUNWAY_S \<le> fb_initiatorTimeout f - now) \<and> k = Inr r"
  using assms
  by (cases "ob_prelock (vo_order vo)")
    (auto simp: fill_timeouts_def sign_windows_ok_def js_simps Let_def MIN_RESPONDER_RUNWAY_AFTER_RESPONSE_S_def
      MAX_RESPONDER_WINDOW_S_def MAX_INITIATOR_WINDOW_S_def)

lemma fill_signed_auth:
  assumes "fill_signed cr shake sg opts sf ord d p" "wallet_ok cr sg" "verified_order_ok cr vo"
    "vo_order vo = sl_order opts" "vo_auth vo = sl_auth opts"
  shows "ord = vo_order vo" "d = vo_orderDigest vo" "auth_wf (sf_auth sf)" "p = fill_payload (sf_fill sf) (sf_auth sf) vo"
    "cr_verify cr (ob_makerQrlAccount (vo_order vo)) (sf_auth sf) (fill_payload (sf_fill sf) (sf_auth sf) vo)"
proof -
  define f where "f = sf_fill sf"
  define a where "a = sf_auth sf"
  note fs = assms(1) [unfolded fill_signed_def Let_def, folded f_def a_def]
  have wf: "order_body_wf (vo_order vo)" "maker_auth_wf (vo_auth vo)" using assms(3) by (simp_all add: verified_order_ok_def)
  show o: "ord = vo_order vo" using fs normalize_order_canonical [OF wf(1), of shake] assms(4) by simp
  show "d = vo_orderDigest vo"
    using fs build_order_auth(2) [OF wf, of cr shake] assms(3,5) by (simp add: o verified_order_ok_def)
  have a: "a = signed_auth sg (pa_issuedAt a) (pa_expiresAt a) (pa_nonce a) (sg_sign sg p)" using fs by blast
  have sig: "pa_signature a = sg_sign sg p" "pa_publicKey a = sg_publicKey sg" "pa_descriptor a = OFFICIAL_DESCRIPTOR"
    by (subst a, simp add: signed_auth_def)+
  show "auth_wf (sf_auth sf)"
    using fs sig assms(2) official_descriptor by (simp add: auth_wf_def wallet_ok_def a_def [symmetric])
  have t: "pa_issuedAt a < pa_expiresAt a" using fs by (simp add: MIN_FILL_RESPONSE_S_def)
  have n: "BYTES32_RE (pa_nonce (vo_auth vo))" using wf(2) by (simp add: maker_auth_wf_def auth_wf_def)
  have "buildFillV1Payload shake f (pa_nonce (vo_auth vo)) (pa_issuedAt a) (pa_expiresAt a) (pa_nonce a) = Inr (fill_payload f a vo)"
    using fs t n build_fill_canonical [of f "pa_nonce (vo_auth vo)" "pa_issuedAt a" "pa_expiresAt a" "pa_nonce a" shake]
    by (simp add: fill_payload_def)
  then show p: "p = fill_payload (sf_fill sf) (sf_auth sf) vo" using fs assms(5) by (simp add: f_def a_def)
  have "cr_verify cr (sg_address sg) (signed_auth sg (pa_issuedAt a) (pa_expiresAt a) (pa_nonce a) (sg_sign sg p)) p"
    using assms(2) by (simp add: wallet_ok_def)
  moreover have "ob_makerQrlAccount (vo_order vo) = sg_address sg" using fs o by simp
  ultimately show "cr_verify cr (ob_makerQrlAccount (vo_order vo)) (sf_auth sf) (fill_payload (sf_fill sf) (sf_auth sf) vo)"
    using a p by (simp add: a_def)
qed

text \<open>
  A signed cancel is accepted exactly when it names the order it was signed for, expires with it, and the clocks
  agree; the signer checks none of this, its caller passes the order's terms.\<close>

lemma signed_cancel_accepted:
  assumes "signCancelV1 cr shake sg now fresh body opts = Inr sc" "wallet_ok cr sg"
    "verified_order_ok cr vo" "ob_makerQrlAccount (vo_order vo) = sg_address sg" "pa_nonce (vo_auth vo) = to_lower (sk_orderNonce opts)"
  shows "(\<exists>vc. verifyCancelV1 cr bookNow False (cancel_json (sc_cancel sc)) (auth_json (sc_auth sc)) vo = Inr vc) \<longleftrightarrow>
    cb_orderDigest (sc_cancel sc) = vo_orderDigest vo \<and> sk_expiresAt opts = pa_expiresAt (vo_auth vo) \<and>
    pa_issuedAt (vo_auth vo) \<le> pa_issuedAt (sc_auth sc) \<and> pa_issuedAt (sc_auth sc) \<le> bookNow + MAX_CLOCK_SKEW_S \<and>
    bookNow < pa_expiresAt (vo_auth vo)"
proof -
  define c where "c = sc_cancel sc"
  define a where "a = sc_auth sc"
  from assms(1) obtain p where f: "BYTES32_RE (cb_orderDigest c)" "safe_nonneg (cb_reasonCode c)" "cb_reasonCode c \<le> 255"
    "safe_nonneg (pa_issuedAt a)" "safe_nonneg (pa_expiresAt a)" "BYTES32_RE (pa_nonce a)" "pa_issuedAt a < pa_expiresAt a"
    "pa_expiresAt a = sk_expiresAt opts" "p = CancelV2 c (to_lower (sk_orderNonce opts)) (pa_nonce a) (pa_issuedAt a)"
    "pa_signature a = sg_sign sg p" "pa_publicKey a = sg_publicKey sg" "pa_descriptor a = OFFICIAL_DESCRIPTOR" "cr_deployed cr"
    "a = signed_auth sg (pa_issuedAt a) (pa_expiresAt a) (pa_nonce a) (sg_sign sg p)"
    unfolding c_def a_def
    by (auto simp: signCancelV1_def normalizeCancelBody_def buildCancelV1Payload_def uint8_def js_bind_Inr signer_ready_Inr refuse_if_Inr
        safeUint_Inr field_Inr signMessageDigest_Inr signed_auth_def lower_canonical)
  have "auth_wf a" using f assms(2) official_descriptor by (simp add: auth_wf_def wallet_ok_def)
  then have pa: "parseAuth (auth_json a) = Inr a" by (rule parseAuth_roundtrip)
  have rt: "canonicalCancelBody (cancel_json c) = Inr c"
    using f by (cases c) (simp add: canonicalCancelBody_def cancel_json_def exactObject_JObj exactUint8_def js_simps safe_nonneg_def)
  have "cr_verify cr (sg_address sg) (signed_auth sg (pa_issuedAt a) (pa_expiresAt a) (pa_nonce a) (sg_sign sg p)) p"
    using assms(2) by (simp add: wallet_ok_def)
  moreover have "p = cancel_payload c a vo" using f assms(5) by (simp add: cancel_payload_def)
  ultimately have v: "cr_verify cr (ob_makerQrlAccount (vo_order vo)) a (cancel_payload c a vo)" using f(14) assms(4) by simp
  show ?thesis
    unfolding c_def [symmetric] a_def [symmetric] verifyCancelV1_def rt pa js_bind_simps assertOrderReference_def
      assertOrderValidity_def assertInitialAcceptance_def reject_if_Inr verifyProof_def js_bind_Inr throw_if_Inr
    using f v by auto
qed

text \<open>
  C22: what the maker signs as a fill, the order book accepts exactly when three more things hold that the signer
  does not look at: the fill is not issued before the intent it selects, a prelocked order still has its 9,000 seconds
  of runway, and the two clocks agree well enough. Everything else the book asks for is settled by the signature.\<close>
theorem signed_fill_accepted:
  assumes "signFillV1 cr shake sg now fresh body opts = Inr sf" "wallet_ok cr sg"
    "verified_order_ok cr vo" "vo_order vo = sl_order opts" "vo_auth vo = sl_auth opts"
    "verifyFillIntentV1 cr t ae rawIntent rawIntentAuth vo = Inr vi"
    "vi_intent vi = si_intent (sl_selected opts)" "vi_auth vi = si_auth (sl_selected opts)"
  shows "(\<exists>vf. verifyFillV1 cr bookNow False (fill_json (sf_fill sf)) (auth_json (sf_auth sf)) vo vi = Inr vf) \<longleftrightarrow>
    book_asks_more bookNow (sl_order opts) (sf_fill sf) (si_auth (sl_selected opts)) (sf_auth sf)"
proof -
  obtain ord d p where s: "fill_signed cr shake sg opts sf ord d p" using signFillV1_Inr [OF assms(1)] by blast
  note q = fill_signed_auth [OF s assms(2,3,4,5)]
  define f where "f = sf_fill sf"
  define a where "a = sf_auth sf"
  note fs = s [unfolded fill_signed_def Let_def, folded f_def a_def]
  have w: "sign_windows_ok (vo_order vo) f (pa_issuedAt a) (pa_expiresAt a)" using fs q(1) by simp
  have vf: "verify_fill_intent cr shake (intent_json (vi_intent vi)) (auth_json (vi_auth vi)) d
      \<lparr>iw_now = pa_issuedAt a, iw_orderIssuedAt = Some (pa_issuedAt (vo_auth vo)), iw_orderExpiresAt = Some (pa_expiresAt (vo_auth vo))\<rparr>"
    using fs assms(5,7,8) by simp
  note i = verify_fill_intent_facts [OF vf]
  have d: "fb_intentDigest f = vi_intentDigest vi"
    using fs i(10) verifyFillIntentV1_Inr(3) [OF assms(6)] assms(7,8) by simp
  have after: "pa_issuedAt (vo_auth vo) \<le> pa_issuedAt (vi_auth vi)" using i(6) by (simp add: window_bad_def)
  have rt: "canonicalFillBody (fill_json f) = Inr f" using fs fill_body_roundtrip by simp
  have c: "fb_orderDigest f = vo_orderDigest vo" "fi_orderDigest (vi_intent vi) = fb_orderDigest f"
    "fb_takerEthAccount f = fi_takerEthAccount (vi_intent vi)" "fb_takerQrlAccount f = fi_takerQrlAccount (vi_intent vi)"
    "fb_releaseCommitment f = fi_releaseCommitment (vi_intent vi)" "pa_issuedAt a < pa_expiresAt (vi_auth vi)"
    "MIN_FILL_RESPONSE_S \<le> pa_expiresAt a - pa_issuedAt a" "pa_expiresAt a - pa_issuedAt a \<le> MAX_FILL_RESPONSE_S"
    "pa_expiresAt a \<le> pa_expiresAt (vo_auth vo)" "cr_deployed cr"
    using fs q(2) i(5) assms(5,7,8) by simp_all
  have b: "pa_issuedAt a < pa_expiresAt (vo_auth vo)" using c(7,9) by (simp add: MIN_FILL_RESPONSE_S_def)
  have v: "cr_verify cr (ob_makerQrlAccount (vo_order vo)) a (fill_payload f a vo)" using q(5) by (simp add: f_def a_def)
  have pa: "parseAuth (auth_json a) = Inr a" using parseAuth_roundtrip [OF q(3)] by (simp add: a_def)
  show ?thesis
    unfolding f_def [symmetric] a_def [symmetric] verifyFillV1_def rt pa js_bind_simps assertOrderReference_def
      assertOrderValidity_def assertInitialAcceptance_def reject_if_Inr fill_timeouts_signed [OF w] verifyProof_def
      js_bind_Inr throw_if_Inr book_asks_more_def assms(4,8) [symmetric]
    using c b after d v by auto
qed



section \<open>A signed trade\<close>

definition demo_signer :: protocol_signer where
  "demo_signer = \<lparr>sg_address = ''Q'' @ hexes 128, sg_publicKey = ''0x'' @ hexes (2 * 2592),
     sg_sign = (\<lambda>_. ''0x'' @ hexes (2 * 4627)), sg_closed = False\<rparr>"

definition signed_maker_auth :: maker_order_auth where
  "signed_maker_auth = demo_maker_auth\<lparr>pa_descriptor := OFFICIAL_DESCRIPTOR\<rparr>"

definition signed_vo :: verified_order where
  "signed_vo = demo_vo\<lparr>vo_auth := signed_maker_auth\<rparr>"

lemma signed_vo_ok: "verified_order_ok demo_cr signed_vo"
  using official_descriptor
  by (simp add: verified_order_ok_def signed_vo_def demo_vo_def demo_cr_def demo_body_def signed_maker_auth_def demo_maker_auth_def
      order_body_wf_def maker_auth_wf_def auth_wf_def safe_nonneg_def isSafeInteger_def MAX_SAFE_INTEGER_def MAX_ORDER_LIFETIME_S_def
      prelock_window_bad_def CANONICAL_AMOUNT_RE_def is_digit_def char_in_def order_payload_def)

lemma demo_wallet_ok: "wallet_ok demo_cr demo_signer"
  by (simp add: wallet_ok_def demo_signer_def demo_cr_def)

lemma demo_hashes_ok: "hashes_ok demo_cr"
proof -
  have "BYTES32_RE (demo_digest p)" for p
    by (cases p) (auto simp: BYTES32_RE_def matches_def is_hex_lower_def is_digit_def char_in_def)
  then show ?thesis by (simp add: hashes_ok_def demo_cr_def)
qed

lemma demo_terms_wf: "order_body_wf demo_body" "maker_auth_wf signed_maker_auth"
  using signed_vo_ok by (simp_all add: verified_order_ok_def signed_vo_def demo_vo_def)

lemma demo_fields:
  "ob_visibility demo_body = Public" "ob_prelock demo_body = None" "ob_makerQrlAccount demo_body = CHR ''Q'' # hexes 128"
  "sg_address demo_signer = CHR ''Q'' # hexes 128" "\<not> sg_closed demo_signer" "cr_deployed demo_cr"
  "sg_publicKey demo_signer = CHR ''0'' # CHR ''x'' # hexes 5184" "sg_sign demo_signer p = CHR ''0'' # CHR ''x'' # hexes 9254"
  by (simp_all add: demo_body_def demo_signer_def demo_cr_def)

lemma demo_times: "safe_nonneg 1000" "safe_nonneg 1010" "safe_nonneg 1050" "safe_nonneg 1100" "safe_nonneg 1800" "safe_nonneg 3000" "safe_nonneg 5000"
  by (simp_all add: safe_nonneg_def isSafeInteger_def MAX_SAFE_INTEGER_def)

lemma demo_order_signed:
  "signOrderV1 demo_cr (\<lambda>_. []) demo_signer 1000 (''0x'' @ hexes 64) demo_body
     \<lparr>so_makerToken = hexes 64, so_shareToken = None, so_issuedAt = None, so_expiresAt = Some 5000, so_nonce = None\<rparr>
   = Inr (demo_body, signed_maker_auth)"
proof -
  have c: "CAPABILITY_RE (hexes 64)" by (simp add: CAPABILITY_RE_def matches_def)
  have t: "order_auth_terms_of signed_maker_auth = \<lparr>oa_issuedAt = 1000, oa_expiresAt = 5000, oa_nonce = ''0x'' @ hexes 64,
      oa_makerTokenCommitment = ''0x'' @ hexes 64, oa_shareTokenCommitment = ZERO32\<rparr>"
    by (simp add: order_auth_terms_of_def signed_maker_auth_def demo_maker_auth_def)
  have "cr_makerCommitment demo_cr (hexes 64) = ''0x'' @ hexes 64" by (simp add: demo_cr_def)
  then show ?thesis
    using build_order_auth(1) [OF demo_terms_wf(1,2), of "\<lambda>_. []", unfolded t] c
    unfolding signOrderV1_def signer_ready_Inr js_bind_Inr refuse_if_Inr Let_def safeUint_Inr field_Inr signMessageDigest_Inr
      normalize_order_canonical [OF demo_terms_wf(1)]
    by (simp add: demo_fields makerCommitment_def js_simps demo_times MIN_ORDER_LIFETIME_S_def ORDER_LIFETIME_S_def
        signed_maker_auth_def demo_maker_auth_def)
qed

theorem signed_order_accepted_witness:
  "\<exists>d i. computeOrderDigest demo_cr (\<lambda>_. []) demo_body (order_auth_terms_of signed_maker_auth) = Inr d \<and>
    derive_order_id demo_cr (\<lambda>_. []) (ob_makerQrlAccount demo_body) (pa_nonce signed_maker_auth) = Inr i \<and>
    verifyOrderV1 demo_cr 1050 False (JObj (order_body_obj demo_body)) (maker_auth_json signed_maker_auth) =
      Inr \<lparr>vo_orderId = i, vo_orderDigest = d, vo_order = demo_body, vo_auth = signed_maker_auth\<rparr>"
  by (rule signed_order_accepted [OF demo_order_signed demo_wallet_ok])
    (simp_all add: demo_cr_def commitment_ok_def signed_maker_auth_def demo_maker_auth_def MAX_CLOCK_SKEW_S_def MIN_REMAINING_LIFETIME_S_def)


definition signed_intent_auth :: protocol_auth where
  "signed_intent_auth = signed_auth demo_signer 1000 1100 (''0x'' @ hexes 64) (''0x'' @ hexes (2 * 4627))"

definition demo_intent_options :: sign_intent_options where
  "demo_intent_options = \<lparr>sn_order = demo_body, sn_auth = signed_maker_auth, sn_orderDigest = ''0x0'' @ hexes 63,
     sn_takerEthAccount = ''0x'' @ hexes 40, sn_releaseSecret = ''0x'' @ hexes 64, sn_issuedAt = Some 1000,
     sn_expiresAt = Some 1100, sn_requestNonce = None\<rparr>"

lemma demo_new_signer:
  "new_signer (\<lambda>_. []) (''Q'' @ hexes 128) (''0x'' @ hexes (2 * 2592)) (\<lambda>_. ''0x'' @ hexes (2 * 4627)) = Inr demo_signer"
proof -
  have "isQip55QrlAddress (\<lambda>_. []) (''Q'' @ hexes 128)" by simp
  moreover have "to_lower (hexes 128) = hexes 128"
    using qrl_stays(2) [of "''Q'' @ hexes 128"] by simp
  ultimately show ?thesis by (simp add: new_signer_def canonicalQip55QrlAddress_def demo_signer_def)
qed

lemma demo_order_digest:
  "computeOrderDigest demo_cr (\<lambda>_. []) demo_body (order_auth_terms_of signed_maker_auth) = Inr (''0x0'' @ hexes 63)"
  using build_order_auth(2) [OF demo_terms_wf, of demo_cr "\<lambda>_. []"] by (simp add: demo_cr_def order_payload_def)

lemma demo_intent_wf: "intent_body_wf (vi_intent demo_vi)"
  by (simp add: intent_body_wf_def demo_vi_def)

lemma demo_build_intent:
  "buildFillIntentV1Payload (\<lambda>_. []) (vi_intent demo_vi) 1000 1100 (''0x'' @ hexes 64) =
     Inr (FillIntentV2 (vi_intent demo_vi) (''0x'' @ hexes 64) 1000 1100)"
  by (rule build_intent_canonical [OF demo_intent_wf]) (simp_all add: demo_times)

lemma demo_intent_signed:
  "signFillIntentV1 demo_cr (\<lambda>_. []) demo_signer 1000 (''0x'' @ hexes 64) demo_intent_options = Inr (vi_intent demo_vi, signed_intent_auth)"
proof -
  have rc: "release_commitment demo_cr (''0x0'' @ hexes 63) (''0x'' @ hexes 64) (''0x'' @ hexes 64) = Inr (''0x'' @ hexes 64)"
    by (simp add: release_commitment_def js_simps demo_cr_def)
  have o: "verifyOfficialV1Proof demo_cr acc aut pay" for acc aut pay by (simp add: verifyOfficialV1Proof_def demo_cr_def)
  have e: "pa_issuedAt signed_maker_auth = 1000" "pa_expiresAt signed_maker_auth = 5000"
    by (simp_all add: signed_maker_auth_def demo_maker_auth_def)
  have i: "\<lparr>fi_orderDigest = ''0x0'' @ hexes 63, fi_takerEthAccount = ''0x'' @ hexes 40, fi_takerQrlAccount = sg_address demo_signer,
      fi_releaseCommitment = ''0x'' @ hexes 64\<rparr> = vi_intent demo_vi"
    by (simp add: demo_vi_def demo_signer_def)
  show ?thesis
    using rc i demo_order_digest build_order_auth(1) [OF demo_terms_wf, of "\<lambda>_. []"] demo_build_intent
    unfolding signFillIntentV1_def signer_ready_Inr js_bind_Inr refuse_if_Inr Let_def safeUint_Inr field_Inr signMessageDigest_Inr
      demo_intent_options_def sign_intent_options.simps normalize_order_canonical [OF demo_terms_wf(1)]
    by (simp add: demo_fields js_simps demo_times e o MAX_FILL_INTENT_LIFETIME_S_def signed_intent_auth_def)
qed

theorem signed_intent_accepted_witness:
  "\<exists>d. computeFillIntentDigest demo_cr (\<lambda>_. []) (vi_intent demo_vi) signed_intent_auth = Inr d \<and>
    verifyFillIntentV1 demo_cr 1050 False (intent_json (vi_intent demo_vi)) (auth_json signed_intent_auth) signed_vo =
      Inr \<lparr>vi_intentDigest = d, vi_intent = vi_intent demo_vi, vi_auth = signed_intent_auth\<rparr>"
  by (rule signed_intent_accepted [OF demo_new_signer demo_wallet_ok demo_hashes_ok demo_intent_signed signed_vo_ok])
    (simp_all add: signed_vo_def demo_vo_def demo_intent_options_def signed_intent_auth_def signed_auth_def MAX_CLOCK_SKEW_S_def)


definition demo_fill_options :: sign_fill_options where
  "demo_fill_options = \<lparr>sl_order = demo_body, sl_auth = signed_maker_auth,
     sl_selected = \<lparr>si_intentDigest = ''0x1'' @ hexes 63, si_intent = vi_intent demo_vi, si_auth = signed_intent_auth, si_receivedAt = 1005\<rparr>,
     sl_respondBy = 1100, sl_issuedAt = Some 1010, sl_fillNonce = None\<rparr>"

definition signed_demo_fill :: signed_fill where
  "signed_demo_fill = \<lparr>sf_fill = demo_fill, sf_auth = signed_auth demo_signer 1010 1100 (''0x'' @ hexes 64) (''0x'' @ hexes (2 * 4627))\<rparr>"

lemma demo_fill_wf: "fill_body_wf demo_fill"
  by (simp add: fill_body_wf_def demo_fill_def demo_times)

lemma demo_verify_intent:
  "verify_fill_intent demo_cr (\<lambda>_. []) (intent_json (vi_intent demo_vi)) (auth_json signed_intent_auth) (''0x0'' @ hexes 63)
     \<lparr>iw_now = 1010, iw_orderIssuedAt = Some 1000, iw_orderExpiresAt = Some 5000\<rparr>"
proof -
  have "fillIntentBodyIsCanonical (intent_json (vi_intent demo_vi)) = Some (vi_intent demo_vi)"
    using demo_intent_wf by (simp add: intent_canonical)
  moreover have "protocolAuthIsCanonical (auth_json signed_intent_auth) 1010 = Some signed_intent_auth"
    using official_descriptor
    by (simp add: auth_canonical signed_intent_auth_def signed_auth_def auth_wf_def demo_times demo_fields MAX_FILL_INTENT_LIFETIME_S_def MAX_CLOCK_SKEW_S_def)
  moreover have "fi_orderDigest (vi_intent demo_vi) = ''0x0'' @ hexes 63" by (simp add: demo_vi_def)
  ultimately show ?thesis
    using demo_build_intent
    by (simp add: verify_fill_intent_def window_bad_def demo_times signed_intent_auth_def signed_auth_def verifyOfficialV1Proof_def
        isSafeInteger_def MAX_SAFE_INTEGER_def MAX_CLOCK_SKEW_S_def demo_cr_def)
qed

lemma demo_selects:
  "fill_selects demo_cr (\<lambda>_. []) demo_fill (''0x0'' @ hexes 63) signed_maker_auth (sl_selected demo_fill_options) 1010 = Inr True"
proof -
  have t: "pa_issuedAt signed_maker_auth = 1000" "pa_expiresAt signed_maker_auth = 5000"
    by (simp_all add: signed_maker_auth_def demo_maker_auth_def)
  have i: "pa_issuedAt signed_intent_auth = 1000" "pa_expiresAt signed_intent_auth = 1100" "pa_nonce signed_intent_auth = ''0x'' @ hexes 64"
    by (simp_all add: signed_intent_auth_def signed_auth_def)
  have "computeFillIntentDigest demo_cr (\<lambda>_. []) (vi_intent demo_vi) signed_intent_auth = Inr (''0x1'' @ hexes 63)"
    using demo_build_intent by (simp add: computeFillIntentDigest_def i demo_cr_def)
  then show ?thesis
    using demo_verify_intent by (simp add: fill_selects_def demo_fill_options_def) (simp add: demo_fill_def demo_vi_def t)
qed

lemma demo_fill_signed:
  "signFillV1 demo_cr (\<lambda>_. []) demo_signer 1010 (''0x'' @ hexes 64) demo_fill demo_fill_options = Inr signed_demo_fill"
proof -
  have b: "buildFillV1Payload (\<lambda>_. []) demo_fill (pa_nonce signed_maker_auth) 1010 1100 (''0x'' @ hexes 64) =
      Inr (FillV2 \<lparr>ft_body = demo_fill, ft_orderNonce = ''0x'' @ hexes 64, ft_fillNonce = ''0x'' @ hexes 64, ft_issuedAt = 1010, ft_respondBy = 1100\<rparr>)"
    using build_fill_canonical [OF demo_fill_wf, of "''0x'' @ hexes 64" 1010 1100 "''0x'' @ hexes 64"]
    by (simp add: demo_times signed_maker_auth_def demo_maker_auth_def)
  have w: "sign_windows_ok demo_body demo_fill 1010 1100"
    by (simp add: sign_windows_ok_def demo_fields demo_fill_def)
  have c: "maker_owns_order demo_signer demo_body signed_maker_auth" "verifyOfficialV1Proof demo_cr acc aut pay" for acc aut pay
    subgoal by (simp add: maker_owns_order_def signed_maker_auth_def demo_maker_auth_def demo_fields)
    subgoal by (simp add: verifyOfficialV1Proof_def demo_cr_def)
    done
  have t: "pa_expiresAt signed_maker_auth = 5000" "pa_expiresAt signed_intent_auth = 1100" "fb_hashlock demo_fill \<noteq> ZERO32"
    by (simp_all add: signed_maker_auth_def demo_maker_auth_def signed_intent_auth_def signed_auth_def demo_fill_def)
  show ?thesis
    using b w c t demo_order_digest demo_selects build_order_auth(1) [OF demo_terms_wf, of "\<lambda>_. []"]
    unfolding signFillV1_def signer_ready_Inr js_bind_Inr refuse_if_Inr Let_def safeUint_Inr field_Inr signMessageDigest_Inr sign_fill_windows_Inr
      normalize_fill_canonical [OF demo_fill_wf] demo_fill_options_def sign_fill_options.simps normalize_order_canonical [OF demo_terms_wf(1)]
    by (simp add: demo_fields demo_times MIN_FILL_RESPONSE_S_def MAX_FILL_RESPONSE_S_def signed_demo_fill_def exI [of _ True])
qed

lemma demo_intent_verifies:
  "verifyFillIntentV1 demo_cr 1050 False (intent_json (vi_intent demo_vi)) (auth_json signed_intent_auth) signed_vo =
     Inr \<lparr>vi_intentDigest = ''0x1'' @ hexes 63, vi_intent = vi_intent demo_vi, vi_auth = signed_intent_auth\<rparr>"
proof -
  have "auth_wf signed_intent_auth"
    using official_descriptor by (simp add: signed_intent_auth_def signed_auth_def auth_wf_def demo_times demo_fields)
  then show ?thesis
    unfolding verifyFillIntentV1_def intent_body_roundtrip [OF demo_intent_wf] parseAuth_roundtrip [OF \<open>auth_wf signed_intent_auth\<close>] js_bind_simps
    by (simp add: assertOrderReference_def assertOrderValidity_def assertInitialAcceptance_def
        assertAllowedTaker_def reject_if_def verifyProof_def demo_vi_def signed_vo_def demo_vo_def signed_intent_auth_def signed_auth_def
        demo_body_def signed_maker_auth_def demo_maker_auth_def demo_cr_def intent_payload_def MAX_FILL_INTENT_LIFETIME_S_def MAX_CLOCK_SKEW_S_def)
qed

theorem signed_fill_accepted_witness:
  "\<exists>vf. verifyFillV1 demo_cr 1050 False (fill_json demo_fill) (auth_json (sf_auth signed_demo_fill)) signed_vo
     \<lparr>vi_intentDigest = ''0x1'' @ hexes 63, vi_intent = vi_intent demo_vi, vi_auth = signed_intent_auth\<rparr> = Inr vf"
  using signed_fill_accepted [OF demo_fill_signed demo_wallet_ok signed_vo_ok _ _ demo_intent_verifies, of 1050]
  by (simp add: signed_vo_def demo_vo_def demo_fill_options_def book_asks_more_def signed_demo_fill_def signed_auth_def
      signed_intent_auth_def demo_fields MAX_CLOCK_SKEW_S_def)

end
