(* ===== verification/Taker_Proofs.thy ===== *)
theory Taker_Proofs
  imports Maker_Signing
begin

text \<open>
  What the scripted taker makes of the order book's rows, \<^verbatim>\<open>marketmaker/src/taker-proofs.ts\<close> and the
  responses of \<^verbatim>\<open>taker-orderbook.ts\<close>: the parser of an untrusted row, and the checks of an order, of
  the taker's own intent, of the maker's fill and of a cancellation. The parser yields canonical rows only
  (\<open>parsed_row_shape\<close>), and the taker goes on with no fill but one that the order book's own verifier accepts at
  that moment.
\<close>

section \<open>Untrusted rows\<close>

datatype taker_error = TakerError string | FundingBlocked string | TakerSigning signing_error

type_synonym 'a taker = "(taker_error, 'a) result"

definition malformed :: "string \<Rightarrow> 'a taker" where
  "malformed field = Inl (TakerError (field @ '' is malformed''))"

definition object_field :: "json option \<Rightarrow> string \<Rightarrow> jobj taker" where
  "object_field raw field = (case raw of Some (JObj obj) \<Rightarrow> Inr obj | _ \<Rightarrow> malformed field)"

definition onlyKeys :: "jobj \<Rightarrow> string list \<Rightarrow> string \<Rightarrow> 'a taker \<Rightarrow> 'a taker" where
  "onlyKeys obj keys field k =
     throw_if (list_ex (\<lambda>key. key \<notin> set keys) (map fst obj)) (TakerError (field @ '' has unsupported fields'')) k"

definition exactly :: "jobj \<Rightarrow> string list \<Rightarrow> string \<Rightarrow> 'a taker \<Rightarrow> 'a taker" where
  "exactly obj keys field k =
     throw_if (length obj \<noteq> length keys \<or> list_ex (\<lambda>key. key \<notin> set keys) (map fst obj))
       (TakerError (field @ '' has unsupported or missing fields'')) k"

definition text_field :: "json option \<Rightarrow> (string \<Rightarrow> bool) \<Rightarrow> string \<Rightarrow> string taker" where
  "text_field raw pattern field =
     (case raw of Some (JStr s) \<Rightarrow> if pattern s then Inr s else malformed field | _ \<Rightarrow> malformed field)"

definition uint_field :: "json option \<Rightarrow> string \<Rightarrow> int taker" where
  "uint_field raw field =
     (case raw of Some (JInt n) \<Rightarrow> if isSafeInteger n \<and> 0 \<le> n then Inr n else malformed field | _ \<Rightarrow> malformed field)"

definition nullableText :: "json option \<Rightarrow> (string \<Rightarrow> bool) \<Rightarrow> string \<Rightarrow> string option taker" where
  "nullableText raw pattern field =
     (if raw = Some JNull then Inr None else js_bind (text_field raw pattern field) (\<lambda>s. Inr (Some s)))"

definition nullableUint :: "json option \<Rightarrow> string \<Rightarrow> int option taker" where
  "nullableUint raw field = (if raw = Some JNull then Inr None else js_bind (uint_field raw field) (\<lambda>n. Inr (Some n)))"

definition boolOr :: "json option \<Rightarrow> bool \<Rightarrow> string \<Rightarrow> bool taker" where
  "boolOr raw fallback field =
     (case raw of None \<Rightarrow> Inr fallback | Some (JBool b) \<Rightarrow> Inr b | _ \<Rightarrow> malformed field)"

text \<open>A member that may be absent.\<close>

definition optional :: "json option \<Rightarrow> (json option \<Rightarrow> 'a taker) \<Rightarrow> 'a option taker" where
  "optional raw read = (case raw of None \<Rightarrow> Inr None | Some j \<Rightarrow> js_bind (read raw) (\<lambda>v. Inr (Some v)))"

definition HEX_RE :: "string \<Rightarrow> bool" where
  "HEX_RE s \<longleftrightarrow> take 2 s = ''0x'' \<and> drop 2 s \<noteq> [] \<and> list_all is_hex_lower (drop 2 s)"

definition PORTABLE_ID_RE :: "string \<Rightarrow> bool" where
  "PORTABLE_ID_RE s = matches [] is_hex_lower 64 s"

definition MAX_CONFLICT_DIGESTS :: nat where "MAX_CONFLICT_DIGESTS = 32"

definition parseProtocolAuth :: "json option \<Rightarrow> string \<Rightarrow> protocol_auth taker" where
  "parseProtocolAuth raw field =
     js_bind (object_field raw field) (\<lambda>auth.
     exactly auth PROTOCOL_AUTH_KEYS field
    (throw_if (map_of auth ''version'' \<noteq> Some (JStr ''2'')) (TakerError (field @ ''.version is malformed''))
    (throw_if (map_of auth ''scheme'' \<noteq> Some (JStr ''qrl-sign-message-v2'')) (TakerError (field @ ''.scheme is malformed''))
    (js_bind (uint_field (map_of auth ''issuedAt'') (field @ ''.issuedAt'')) (\<lambda>i.
     js_bind (uint_field (map_of auth ''expiresAt'') (field @ ''.expiresAt'')) (\<lambda>e.
     js_bind (text_field (map_of auth ''nonce'') BYTES32_RE (field @ ''.nonce'')) (\<lambda>n.
     js_bind (text_field (map_of auth ''signature'') HEX_RE (field @ ''.signature'')) (\<lambda>s.
     js_bind (text_field (map_of auth ''publicKey'') HEX_RE (field @ ''.publicKey'')) (\<lambda>p.
     js_bind (text_field (map_of auth ''descriptor'') DESCRIPTOR_RE (field @ ''.descriptor'')) (\<lambda>d.
       Inr \<lparr>pa_issuedAt = i, pa_expiresAt = e, pa_nonce = n, pa_signature = s, pa_publicKey = p, pa_descriptor = d\<rparr>))))))))))"

definition COMMITMENT_KEYS :: "string list" where
  "COMMITMENT_KEYS = [''makerTokenCommitment'', ''shareTokenCommitment'']"

definition parse_order_auth :: "json option \<Rightarrow> string \<Rightarrow> maker_order_auth taker" where
  "parse_order_auth raw field =
     js_bind (object_field raw field) (\<lambda>auth.
     exactly auth (PROTOCOL_AUTH_KEYS @ COMMITMENT_KEYS) field
    (js_bind (parseProtocolAuth (Some (JObj (filter (\<lambda>e. fst e \<notin> set COMMITMENT_KEYS) auth))) field) (\<lambda>a.
     js_bind (text_field (map_of auth ''makerTokenCommitment'') BYTES32_RE (field @ ''.makerTokenCommitment'')) (\<lambda>m.
     js_bind (text_field (map_of auth ''shareTokenCommitment'') BYTES32_RE (field @ ''.shareTokenCommitment'')) (\<lambda>s.
       Inr (protocol_auth.extend a (maker_order_auth.fields m s)))))))"

definition parseFillIntentBody :: "json option \<Rightarrow> string \<Rightarrow> fill_intent_body taker" where
  "parseFillIntentBody raw field =
     js_bind (object_field raw field) (\<lambda>body.
     exactly body [''orderDigest'', ''takerEthAccount'', ''takerQrlAccount'', ''releaseCommitment''] field
    (js_bind (text_field (map_of body ''orderDigest'') BYTES32_RE (field @ ''.orderDigest'')) (\<lambda>d.
     js_bind (text_field (map_of body ''takerEthAccount'') ETH_ADDR_LOWER_RE (field @ ''.takerEthAccount'')) (\<lambda>e.
     js_bind (text_field (map_of body ''takerQrlAccount'') QRL_ADDR_LOWER_RE (field @ ''.takerQrlAccount'')) (\<lambda>q.
     js_bind (text_field (map_of body ''releaseCommitment'') BYTES32_RE (field @ ''.releaseCommitment'')) (\<lambda>r.
       Inr \<lparr>fi_orderDigest = d, fi_takerEthAccount = e, fi_takerQrlAccount = q, fi_releaseCommitment = r\<rparr>))))))"

definition parseSelectedIntent :: "json option \<Rightarrow> string \<Rightarrow> selected_fill_intent taker" where
  "parseSelectedIntent raw field =
     js_bind (object_field raw field) (\<lambda>row.
     exactly row [''intentDigest'', ''intent'', ''auth'', ''receivedAt''] field
    (js_bind (parseProtocolAuth (map_of row ''auth'') (field @ ''.auth'')) (\<lambda>auth.
     throw_if (pa_expiresAt auth \<le> pa_issuedAt auth \<or> pa_expiresAt auth - pa_issuedAt auth > MAX_FILL_INTENT_LIFETIME_S)
       (TakerError (field @ ''.auth lifetime is malformed''))
    (js_bind (text_field (map_of row ''intentDigest'') BYTES32_RE (field @ ''.intentDigest'')) (\<lambda>d.
     js_bind (parseFillIntentBody (map_of row ''intent'') (field @ ''.intent'')) (\<lambda>i.
     js_bind (uint_field (map_of row ''receivedAt'') (field @ ''.receivedAt'')) (\<lambda>t.
       Inr \<lparr>si_intentDigest = d, si_intent = i, si_auth = auth, si_receivedAt = t\<rparr>)))))))"

definition parseFillBody :: "json option \<Rightarrow> string \<Rightarrow> fill_body taker" where
  "parseFillBody raw field =
     js_bind (object_field raw field) (\<lambda>body.
     exactly body [''orderDigest'', ''intentDigest'', ''takerEthAccount'', ''takerQrlAccount'', ''releaseCommitment'',
       ''hashlock'', ''initiatorTimeout'', ''responderTimeout''] field
    (js_bind (text_field (map_of body ''orderDigest'') BYTES32_RE (field @ ''.orderDigest'')) (\<lambda>d.
     js_bind (text_field (map_of body ''intentDigest'') BYTES32_RE (field @ ''.intentDigest'')) (\<lambda>i.
     js_bind (text_field (map_of body ''takerEthAccount'') ETH_ADDR_LOWER_RE (field @ ''.takerEthAccount'')) (\<lambda>e.
     js_bind (text_field (map_of body ''takerQrlAccount'') QRL_ADDR_LOWER_RE (field @ ''.takerQrlAccount'')) (\<lambda>q.
     js_bind (text_field (map_of body ''releaseCommitment'') BYTES32_RE (field @ ''.releaseCommitment'')) (\<lambda>r.
     js_bind (text_field (map_of body ''hashlock'') BYTES32_RE (field @ ''.hashlock'')) (\<lambda>h.
     js_bind (uint_field (map_of body ''initiatorTimeout'') (field @ ''.initiatorTimeout'')) (\<lambda>t1.
     js_bind (uint_field (map_of body ''responderTimeout'') (field @ ''.responderTimeout'')) (\<lambda>t2.
       Inr \<lparr>fb_orderDigest = d, fb_intentDigest = i, fb_takerEthAccount = e, fb_takerQrlAccount = q, fb_releaseCommitment = r,
         fb_hashlock = h, fb_initiatorTimeout = t1, fb_responderTimeout = t2\<rparr>))))))))))"

definition parseCancelBody :: "json option \<Rightarrow> string \<Rightarrow> cancel_body taker" where
  "parseCancelBody raw field =
     js_bind (object_field raw field) (\<lambda>body.
     exactly body [''orderDigest'', ''reasonCode''] field
    (js_bind (uint_field (map_of body ''reasonCode'') (field @ ''.reasonCode'')) (\<lambda>c.
     throw_if (c > 255) (TakerError (field @ ''.reasonCode is malformed''))
    (js_bind (text_field (map_of body ''orderDigest'') BYTES32_RE (field @ ''.orderDigest'')) (\<lambda>d.
       Inr \<lparr>cb_orderDigest = d, cb_reasonCode = c\<rparr>)))))"

record taker_row =
  tr_id :: string
  tr_direction :: direction
  tr_asset :: asset_symbol
  tr_fromAmount :: string
  tr_toAmount :: string
  tr_makerEthAccount :: string
  tr_makerQrlAccount :: string
  tr_status :: order_status
  tr_takerEthAccount :: "string option"
  tr_takerQrlAccount :: "string option"
  tr_hashlock :: "string option"
  tr_initiatorTimeout :: "int option"
  tr_responderTimeout :: "int option"
  tr_released :: bool
  tr_makerSeen :: "bool option"
  tr_visibility :: visibility
  tr_allowedTakerEth :: "string option"
  tr_allowedTakerQrl :: "string option"
  tr_prelocked :: bool
  tr_makerAuth :: "maker_order_auth option"
  tr_orderDigest :: "string option"
  tr_fill :: "fill_body option"
  tr_fillAuth :: "protocol_auth option"
  tr_fillDigest :: "string option"
  tr_selectedIntent :: "selected_fill_intent option"
  tr_cancelProof :: "cancel_body option"
  tr_cancelAuth :: "protocol_auth option"
  tr_cancelDigest :: "string option"
  tr_equivocated :: bool
  tr_conflictDigests :: "string list"
  tr_createdAt :: int
  tr_updatedAt :: int

definition ROW_KEYS :: "string list" where
  "ROW_KEYS = [''id'', ''direction'', ''asset'', ''fromAmount'', ''toAmount'', ''makerEthAccount'', ''makerQrlAccount'', ''status'',
     ''takerEthAccount'', ''takerQrlAccount'', ''hashlock'', ''initiatorTimeout'', ''responderTimeout'', ''released'', ''makerSeen'',
     ''visibility'', ''allowedTakerEth'', ''allowedTakerQrl'', ''prelocked'', ''makerAuth'', ''orderDigest'', ''fill'', ''fillAuth'',
     ''fillDigest'', ''selectedIntent'', ''cancelProof'', ''cancelAuth'', ''cancelDigest'', ''equivocated'', ''conflictDigests'',
     ''createdAt'', ''updatedAt'']"

definition read_status :: "json option \<Rightarrow> order_status option" where
  "read_status raw =
     (if raw = Some (JStr ''open'') then Some Open else if raw = Some (JStr ''accepted'') then Some Accepted
      else if raw = Some (JStr ''locking'') then Some Locking else if raw = Some (JStr ''cancelled'') then Some Cancelled else None)"

definition read_visibility :: "json option \<Rightarrow> visibility option" where
  "read_visibility raw =
     (if raw = None \<or> raw = Some (JStr ''public'') then Some Public else if raw = Some (JStr ''private'') then Some Private else None)"

definition required :: "'a option \<Rightarrow> string \<Rightarrow> 'a taker" where
  "required v field = (case v of None \<Rightarrow> malformed field | Some a \<Rightarrow> Inr a)"

fun text_list :: "string \<Rightarrow> nat \<Rightarrow> json list \<Rightarrow> string list taker" where
  "text_list field i [] = Inr []"
| "text_list field i (j # js) =
     js_bind (text_field (Some j) BYTES32_RE (field @ ''.conflictDigests['' @ show_nat i @ '']'')) (\<lambda>s.
     js_bind (text_list field (Suc i) js) (\<lambda>ss. Inr (s # ss)))"

definition conflict_list :: "json option \<Rightarrow> string \<Rightarrow> string list taker" where
  "conflict_list raw field =
     (case raw of None \<Rightarrow> Inr []
      | Some (JArr js) \<Rightarrow> js_bind (text_list field 0 js) (\<lambda>ds.
          throw_if (length ds > MAX_CONFLICT_DIGESTS) (TakerError (field @ ''.conflictDigests is oversized'')) (Inr ds))
      | _ \<Rightarrow> malformed (field @ ''.conflictDigests''))"

definition parse_row_proofs :: "jobj \<Rightarrow> string \<Rightarrow> taker_row \<Rightarrow> taker_row taker" where
  "parse_row_proofs row field r =
     js_bind (optional (map_of row ''makerAuth'') (\<lambda>v. parse_order_auth v (field @ ''.makerAuth''))) (\<lambda>ma.
     js_bind (optional (map_of row ''orderDigest'') (\<lambda>v. text_field v BYTES32_RE (field @ ''.orderDigest''))) (\<lambda>od.
     js_bind (optional (map_of row ''fill'') (\<lambda>v. parseFillBody v (field @ ''.fill''))) (\<lambda>fl.
     js_bind (optional (map_of row ''fillAuth'') (\<lambda>v. parseProtocolAuth v (field @ ''.fillAuth''))) (\<lambda>fa.
     js_bind (optional (map_of row ''fillDigest'') (\<lambda>v. text_field v BYTES32_RE (field @ ''.fillDigest''))) (\<lambda>fd.
     js_bind (optional (map_of row ''selectedIntent'') (\<lambda>v. parseSelectedIntent v (field @ ''.selectedIntent''))) (\<lambda>si.
     js_bind (optional (map_of row ''cancelProof'') (\<lambda>v. parseCancelBody v (field @ ''.cancelProof''))) (\<lambda>cp.
     js_bind (optional (map_of row ''cancelAuth'') (\<lambda>v. parseProtocolAuth v (field @ ''.cancelAuth''))) (\<lambda>ca.
     js_bind (optional (map_of row ''cancelDigest'') (\<lambda>v. text_field v BYTES32_RE (field @ ''.cancelDigest''))) (\<lambda>cd.
     js_bind (boolOr (map_of row ''equivocated'') False (field @ ''.equivocated'')) (\<lambda>eq.
     js_bind (uint_field (map_of row ''createdAt'') (field @ ''.createdAt'')) (\<lambda>t1.
     js_bind (uint_field (map_of row ''updatedAt'') (field @ ''.updatedAt'')) (\<lambda>t2.
       Inr (r\<lparr>tr_makerAuth := ma, tr_orderDigest := od, tr_fill := fl, tr_fillAuth := fa, tr_fillDigest := fd,
         tr_selectedIntent := si, tr_cancelProof := cp, tr_cancelAuth := ca, tr_cancelDigest := cd, tr_equivocated := eq,
         tr_createdAt := t1, tr_updatedAt := t2\<rparr>)))))))))))))"

definition parse_row_terms :: "jobj \<Rightarrow> string \<Rightarrow> direction \<Rightarrow> asset_symbol \<Rightarrow> order_status \<Rightarrow> visibility \<Rightarrow> string list \<Rightarrow> taker_row taker" where
  "parse_row_terms row field dir asset status vis conflicts =
     js_bind (text_field (map_of row ''id'') PORTABLE_ID_RE (field @ ''.id'')) (\<lambda>oid.
     js_bind (text_field (map_of row ''fromAmount'') CANONICAL_AMOUNT_RE (field @ ''.fromAmount'')) (\<lambda>fa.
     js_bind (text_field (map_of row ''toAmount'') CANONICAL_AMOUNT_RE (field @ ''.toAmount'')) (\<lambda>ta.
     js_bind (text_field (map_of row ''makerEthAccount'') ETH_ADDR_LOWER_RE (field @ ''.makerEthAccount'')) (\<lambda>me.
     js_bind (text_field (map_of row ''makerQrlAccount'') QRL_ADDR_LOWER_RE (field @ ''.makerQrlAccount'')) (\<lambda>mq.
     js_bind (nullableText (map_of row ''takerEthAccount'') ETH_ADDR_LOWER_RE (field @ ''.takerEthAccount'')) (\<lambda>te.
     js_bind (nullableText (map_of row ''takerQrlAccount'') QRL_ADDR_LOWER_RE (field @ ''.takerQrlAccount'')) (\<lambda>tq.
     js_bind (nullableText (map_of row ''hashlock'') BYTES32_RE (field @ ''.hashlock'')) (\<lambda>h.
     js_bind (nullableUint (map_of row ''initiatorTimeout'') (field @ ''.initiatorTimeout'')) (\<lambda>t1.
     js_bind (nullableUint (map_of row ''responderTimeout'') (field @ ''.responderTimeout'')) (\<lambda>t2.
     js_bind (boolOr (map_of row ''released'') False (field @ ''.released'')) (\<lambda>rel.
     js_bind (optional (map_of row ''makerSeen'') (\<lambda>v. boolOr v False (field @ ''.makerSeen''))) (\<lambda>seen.
     js_bind (optional (map_of row ''allowedTakerEth'') (\<lambda>v. text_field v ETH_ADDR_LOWER_RE (field @ ''.allowedTakerEth''))) (\<lambda>ae.
     js_bind (optional (map_of row ''allowedTakerQrl'') (\<lambda>v. text_field v QRL_ADDR_LOWER_RE (field @ ''.allowedTakerQrl''))) (\<lambda>aq.
     js_bind (boolOr (map_of row ''prelocked'') False (field @ ''.prelocked'')) (\<lambda>pre.
       Inr \<lparr>tr_id = oid, tr_direction = dir, tr_asset = asset, tr_fromAmount = fa, tr_toAmount = ta, tr_makerEthAccount = me,
         tr_makerQrlAccount = mq, tr_status = status, tr_takerEthAccount = te, tr_takerQrlAccount = tq, tr_hashlock = h,
         tr_initiatorTimeout = t1, tr_responderTimeout = t2, tr_released = rel, tr_makerSeen = seen, tr_visibility = vis,
         tr_allowedTakerEth = ae, tr_allowedTakerQrl = aq, tr_prelocked = pre, tr_makerAuth = None, tr_orderDigest = None,
         tr_fill = None, tr_fillAuth = None, tr_fillDigest = None, tr_selectedIntent = None, tr_cancelProof = None,
         tr_cancelAuth = None, tr_cancelDigest = None, tr_equivocated = False, tr_conflictDigests = conflicts,
         tr_createdAt = 0, tr_updatedAt = 0\<rparr>)))))))))))))))"

definition parseBookOrderRow :: "json option \<Rightarrow> string \<Rightarrow> taker_row taker" where
  "parseBookOrderRow raw field =
     js_bind (object_field raw field) (\<lambda>row.
     onlyKeys row ROW_KEYS field
    (js_bind (required (parse_direction (map_of row ''direction'')) (field @ ''.direction'')) (\<lambda>dir.
     js_bind (required (if map_of row ''asset'' = None then Some ETH else parse_asset (map_of row ''asset'')) (field @ ''.asset'')) (\<lambda>asset.
     js_bind (required (read_status (map_of row ''status'')) (field @ ''.status'')) (\<lambda>status.
     js_bind (required (read_visibility (map_of row ''visibility'')) (field @ ''.visibility'')) (\<lambda>vis.
     js_bind (conflict_list (map_of row ''conflictDigests'') field) (\<lambda>conflicts.
     js_bind (parse_row_terms row field dir asset status vis conflicts) (\<lambda>r.
     parse_row_proofs row field r))))))))"

definition orderBodyFromRow :: "taker_row \<Rightarrow> order_body" where
  "orderBodyFromRow row =
     \<lparr>ob_direction = tr_direction row, ob_asset = tr_asset row, ob_fromAmount = tr_fromAmount row, ob_toAmount = tr_toAmount row,
      ob_makerEthAccount = tr_makerEthAccount row, ob_makerQrlAccount = tr_makerQrlAccount row, ob_visibility = tr_visibility row,
      ob_allowedTakerEth = tr_allowedTakerEth row, ob_allowedTakerQrl = tr_allowedTakerQrl row,
      ob_prelock = (case (tr_hashlock row, tr_initiatorTimeout row) of
         (Some h, Some t) \<Rightarrow> if tr_prelocked row then Some \<lparr>pl_hashlock = h, pl_initiatorTimeout = t\<rparr> else None
       | _ \<Rightarrow> None)\<rparr>"


section \<open>Orders and intents\<close>

text \<open>
  The members of \<^verbatim>\<open>VerifiedTakerOrder\<close> that only copy the row or the proof (\<^verbatim>\<open>asset\<close>, \<^verbatim>\<open>direction\<close>, \<^verbatim>\<open>prelocked\<close>,
  \<^verbatim>\<open>makerSeen\<close>, \<^verbatim>\<open>issuedAt\<close>, \<^verbatim>\<open>expiresAt\<close>) are read from \<open>vt_row\<close> and \<open>vt_auth\<close>.
\<close>

record verified_taker_order =
  vt_id :: string
  vt_order :: order_body
  vt_auth :: maker_order_auth
  vt_orderDigest :: string
  vt_fromAmount :: int
  vt_toAmount :: int
  vt_row :: taker_row

definition order_window_bad :: "maker_order_auth \<Rightarrow> int \<Rightarrow> bool \<Rightarrow> bool" where
  "order_window_bad auth now allowExpired \<longleftrightarrow>
     pa_expiresAt auth \<le> pa_issuedAt auth \<or> pa_expiresAt auth - pa_issuedAt auth > ORDER_LIFETIME_S \<or>
     pa_issuedAt auth > now + MAX_CLOCK_SKEW_S \<or> (\<not> allowExpired \<and> pa_expiresAt auth \<le> now) \<or>
     pa_makerTokenCommitment auth = ZERO32"

definition listing_bad :: "taker_row \<Rightarrow> maker_order_auth \<Rightarrow> bool" where
  "listing_bad row auth \<longleftrightarrow> tr_prelocked row \<and>
     (case (tr_hashlock row, tr_initiatorTimeout row) of
        (Some h, Some t) \<Rightarrow> t - pa_issuedAt auth < MIN_PRELOCK_LISTING_WINDOW_S \<or>
          t - pa_issuedAt auth > MAX_PRELOCK_LISTING_WINDOW_S \<or> pa_expiresAt auth > t
      | _ \<Rightarrow> True)"

fun caught :: "'a option signing \<Rightarrow> 'a option" where
  "caught (Inl e) = None"
| "caught (Inr v) = v"

definition verifyMakerOrder :: "crypto \<Rightarrow> shake256 \<Rightarrow> taker_row \<Rightarrow> int \<Rightarrow> bool \<Rightarrow> verified_taker_order option" where
  "verifyMakerOrder cr shake row now allowExpired =
     (case tr_makerAuth row of None \<Rightarrow> None | Some auth \<Rightarrow>
       caught
         (if order_window_bad auth now allowExpired then Inr None
          else if tr_equivocated row \<or> tr_conflictDigests row \<noteq> [] then Inr None
          else if tr_visibility row \<noteq> Public \<or> pa_shareTokenCommitment auth \<noteq> ZERO32 \<or> tr_allowedTakerEth row \<noteq> None \<or>
            tr_allowedTakerQrl row \<noteq> None then Inr None
          else js_bind (derive_order_id cr shake (tr_makerQrlAccount row) (pa_nonce auth)) (\<lambda>oid.
            if tr_id row \<noteq> oid \<or> listing_bad row auth then Inr None
            else js_bind (computeOrderDigest cr shake (orderBodyFromRow row) (order_auth_terms_of auth)) (\<lambda>digest.
              if tr_orderDigest row \<noteq> None \<and> tr_orderDigest row \<noteq> Some digest then Inr None
              else js_bind (buildOrderV1Payload shake (orderBodyFromRow row) (order_auth_terms_of auth)) (\<lambda>p.
                if \<not> verifyOfficialV1Proof cr (tr_makerQrlAccount row) (base_auth auth) p then Inr None
                else if bigint (tr_fromAmount row) = 0 \<or> bigint (tr_toAmount row) = 0 then Inr None
                else Inr (Some \<lparr>vt_id = tr_id row, vt_order = orderBodyFromRow row, vt_auth = auth, vt_orderDigest = digest,
                  vt_fromAmount = bigint (tr_fromAmount row), vt_toAmount = bigint (tr_toAmount row), vt_row = row\<rparr>))))))"

record signed_intent =
  sg_intent :: fill_intent_body
  sg_intentAuth :: protocol_auth

definition verifyOwnIntent :: "crypto \<Rightarrow> shake256 \<Rightarrow> signed_intent \<Rightarrow> string \<Rightarrow> maker_order_auth \<Rightarrow> int \<Rightarrow> bool \<Rightarrow> bool" where
  "verifyOwnIntent cr shake signed orderDigest orderAuth now allowExpired \<longleftrightarrow>
     (let intent = sg_intent signed; auth = sg_intentAuth signed in
      \<not> (fi_orderDigest intent \<noteq> orderDigest \<or> pa_expiresAt auth \<le> pa_issuedAt auth \<or>
         pa_expiresAt auth - pa_issuedAt auth > MAX_FILL_INTENT_LIFETIME_S \<or> pa_issuedAt auth > now + MAX_CLOCK_SKEW_S \<or>
         (\<not> allowExpired \<and> pa_expiresAt auth \<le> now) \<or> pa_issuedAt auth < pa_issuedAt orderAuth \<or>
         pa_expiresAt auth > pa_expiresAt orderAuth) \<and>
      (case buildFillIntentV1Payload shake intent (pa_issuedAt auth) (pa_expiresAt auth) (pa_nonce auth) of
         Inl _ \<Rightarrow> False | Inr p \<Rightarrow> verifyOfficialV1Proof cr (fi_takerQrlAccount intent) auth p))"

definition sameSignedIntent :: "signed_intent \<Rightarrow> signed_intent \<Rightarrow> bool" where
  "sameSignedIntent l r \<longleftrightarrow>
     fi_orderDigest (sg_intent l) = fi_orderDigest (sg_intent r) \<and>
     fi_takerEthAccount (sg_intent l) = fi_takerEthAccount (sg_intent r) \<and>
     fi_takerQrlAccount (sg_intent l) = fi_takerQrlAccount (sg_intent r) \<and>
     fi_releaseCommitment (sg_intent l) = fi_releaseCommitment (sg_intent r) \<and>
     pa_issuedAt (sg_intentAuth l) = pa_issuedAt (sg_intentAuth r) \<and> pa_expiresAt (sg_intentAuth l) = pa_expiresAt (sg_intentAuth r) \<and>
     pa_nonce (sg_intentAuth l) = pa_nonce (sg_intentAuth r) \<and> pa_signature (sg_intentAuth l) = pa_signature (sg_intentAuth r) \<and>
     pa_publicKey (sg_intentAuth l) = pa_publicKey (sg_intentAuth r) \<and> pa_descriptor (sg_intentAuth l) = pa_descriptor (sg_intentAuth r)"


section \<open>The maker's fill\<close>

record taker_recovery =
  rc_orderDigest :: string
  rc_intent :: signed_intent
  rc_intentDigest :: string

record verified_maker_fill =
  vm_fill :: fill_body
  vm_auth :: protocol_auth
  vm_fillDigest :: string

record fill_binding =
  bi_fill :: fill_body
  bi_auth :: protocol_auth
  bi_orderAuth :: maker_order_auth
  bi_recovery :: taker_recovery
  bi_prelock :: "prelock_terms option"

definition fillBindingIsValid :: "fill_binding \<Rightarrow> bool" where
  "fillBindingIsValid x \<longleftrightarrow>
     (let fill = bi_fill x; auth = bi_auth x; orderAuth = bi_orderAuth x; recovery = bi_recovery x;
          intent = sg_intent (rc_intent recovery); intentAuth = sg_intentAuth (rc_intent recovery);
          responseWindow = pa_expiresAt auth - pa_issuedAt auth;
          initiatorWindow = fb_initiatorTimeout fill - pa_issuedAt auth;
          responderWindow = fb_responderTimeout fill - pa_issuedAt auth
      in fb_hashlock fill \<noteq> ZERO32 \<and> fb_orderDigest fill = rc_orderDigest recovery \<and> fb_intentDigest fill = rc_intentDigest recovery \<and>
         fb_takerEthAccount fill = fi_takerEthAccount intent \<and> fb_takerQrlAccount fill = fi_takerQrlAccount intent \<and>
         fb_releaseCommitment fill = fi_releaseCommitment intent \<and>
         responseWindow \<ge> MIN_FILL_RESPONSE_S \<and> responseWindow \<le> MAX_FILL_RESPONSE_S \<and> pa_expiresAt auth \<le> pa_expiresAt orderAuth \<and>
         pa_issuedAt auth \<ge> pa_issuedAt intentAuth \<and> pa_issuedAt auth < pa_expiresAt intentAuth \<and>
         responderWindow > 0 \<and> responderWindow \<le> MAX_RESPONDER_WINDOW_S \<and>
         fb_responderTimeout fill - pa_expiresAt auth > MIN_RESPONDER_RUNWAY_AFTER_RESPONSE_S \<and>
         initiatorWindow \<ge> responderWindow \<and> responderWindow \<le> initiatorWindow div 2 \<and>
         (bi_prelock x \<noteq> None \<or> initiatorWindow \<le> MAX_INITIATOR_WINDOW_S) \<and>
         (case bi_prelock x of None \<Rightarrow> True
          | Some p \<Rightarrow> fb_hashlock fill = pl_hashlock p \<and> fb_initiatorTimeout fill = pl_initiatorTimeout p \<and>
              initiatorWindow \<ge> MIN_PRELOCK_RUNWAY_S))"

definition row_prelock :: "taker_row \<Rightarrow> prelock_terms option" where
  "row_prelock row = (case (tr_hashlock row, tr_initiatorTimeout row) of
     (Some h, Some t) \<Rightarrow> if tr_prelocked row then Some \<lparr>pl_hashlock = h, pl_initiatorTimeout = t\<rparr> else None | _ \<Rightarrow> None)"

definition fillTermsAreValid :: "taker_row \<Rightarrow> fill_body \<Rightarrow> protocol_auth \<Rightarrow> taker_recovery \<Rightarrow> int \<Rightarrow> bool" where
  "fillTermsAreValid row fill auth recovery now \<longleftrightarrow>
     (case tr_makerAuth row of None \<Rightarrow> False | Some orderAuth \<Rightarrow>
       \<not> (tr_prelocked row \<and> row_prelock row = None) \<and> pa_issuedAt auth \<le> now + MAX_CLOCK_SKEW_S \<and>
       (row_prelock row = None \<or> fb_initiatorTimeout fill - now \<ge> MIN_PRELOCK_RUNWAY_S) \<and>
       fillBindingIsValid \<lparr>bi_fill = fill, bi_auth = auth, bi_orderAuth = orderAuth, bi_recovery = recovery, bi_prelock = row_prelock row\<rparr>)"

definition blocked_if :: "bool \<Rightarrow> string \<Rightarrow> 'a taker \<Rightarrow> 'a taker" where
  "blocked_if b message k = throw_if b (FundingBlocked message) k"

definition signing_of :: "'a signing \<Rightarrow> 'a taker" where
  "signing_of r = (case r of Inl e \<Rightarrow> Inl (TakerSigning e) | Inr a \<Rightarrow> Inr a)"

definition row_contradicts :: "taker_row \<Rightarrow> fill_body \<Rightarrow> bool" where
  "row_contradicts row fill \<longleftrightarrow>
     tr_takerEthAccount row \<noteq> Some (fb_takerEthAccount fill) \<or> tr_takerQrlAccount row \<noteq> Some (fb_takerQrlAccount fill) \<or>
     tr_hashlock row \<noteq> Some (fb_hashlock fill) \<or> tr_initiatorTimeout row \<noteq> Some (fb_initiatorTimeout fill) \<or>
     tr_responderTimeout row \<noteq> Some (fb_responderTimeout fill)"

definition selects_other :: "crypto \<Rightarrow> shake256 \<Rightarrow> selected_fill_intent \<Rightarrow> taker_recovery \<Rightarrow> bool taker" where
  "selects_other cr shake selected recovery =
     (if si_intentDigest selected \<noteq> rc_intentDigest recovery \<or>
         \<not> sameSignedIntent \<lparr>sg_intent = si_intent selected, sg_intentAuth = si_auth selected\<rparr> (rc_intent recovery) then Inr True
      else js_bind (signing_of (computeFillIntentDigest cr shake (sg_intent (rc_intent recovery)) (sg_intentAuth (rc_intent recovery))))
        (\<lambda>d. Inr (rc_intentDigest recovery \<noteq> d)))"

text \<open>The checks on a complete fill, after the row has been looked at.\<close>

definition verify_complete_fill :: "crypto \<Rightarrow> shake256 \<Rightarrow> taker_row \<Rightarrow> fill_body \<Rightarrow> protocol_auth \<Rightarrow> selected_fill_intent
    \<Rightarrow> maker_order_auth \<Rightarrow> taker_recovery \<Rightarrow> int \<Rightarrow> verified_maker_fill option taker" where
  "verify_complete_fill cr shake row fill auth selected makerAuth recovery now =
     blocked_if (case verifyMakerOrder cr shake row now True of None \<Rightarrow> True | Some v \<Rightarrow> vt_orderDigest v \<noteq> rc_orderDigest recovery)
       ''the live order no longer matches the saved request; funding is blocked''
    (blocked_if (now \<ge> pa_expiresAt auth) ''the maker response deadline passed before funding; request a fresh order''
    (js_bind (selects_other cr shake selected recovery) (\<lambda>other.
     blocked_if other ''the maker selected a different proposal; funding is blocked''
    (blocked_if (\<not> verifyOwnIntent cr shake (rc_intent recovery) (rc_orderDigest recovery) makerAuth now True)
       ''the saved proposal no longer verifies; funding is blocked''
    (blocked_if (\<not> fillTermsAreValid row fill auth recovery now) ''the maker FillV2 terms are invalid; funding is blocked''
    (js_bind (signing_of (buildFillV1Payload shake fill (pa_nonce makerAuth) (pa_issuedAt auth) (pa_expiresAt auth) (pa_nonce auth))) (\<lambda>p.
     blocked_if (\<not> verifyOfficialV1Proof cr (tr_makerQrlAccount row) auth p) ''the maker FillV2 proof is invalid; funding is blocked''
    (js_bind (signing_of (computeFillDigest cr shake fill (pa_nonce makerAuth) auth)) (\<lambda>d.
     blocked_if (tr_fillDigest row \<noteq> None \<and> tr_fillDigest row \<noteq> Some d)
       ''the order book returned a mismatched FillV2 digest; funding is blocked''
    (blocked_if (row_contradicts row fill) ''the order projection contradicts its own FillV2; funding is blocked''
       (Inr (Some \<lparr>vm_fill = fill, vm_auth = auth, vm_fillDigest = d\<rparr>))))))))))))"

definition verifyMakerFill :: "crypto \<Rightarrow> shake256 \<Rightarrow> taker_row \<Rightarrow> taker_recovery \<Rightarrow> int \<Rightarrow> verified_maker_fill option taker" where
  "verifyMakerFill cr shake row recovery now =
     blocked_if (tr_released row) ''this proposal was released; funding is blocked''
    (blocked_if (tr_equivocated row \<or> tr_conflictDigests row \<noteq> [] \<or> tr_cancelProof row \<noteq> None \<or> tr_cancelAuth row \<noteq> None)
       ''the maker published conflicting terminal messages; funding is blocked''
    (if tr_fill row = None \<and> tr_fillAuth row = None then Inr None
     else if tr_status row \<noteq> Locking then Inl (FundingBlocked ''the order carries an incomplete FillV2; funding is blocked'')
     else (case (tr_fill row, tr_fillAuth row, tr_selectedIntent row, tr_makerAuth row) of
         (Some fill, Some auth, Some selected, Some makerAuth) \<Rightarrow>
           verify_complete_fill cr shake row fill auth selected makerAuth recovery now
       | _ \<Rightarrow> Inl (FundingBlocked ''the order carries an incomplete FillV2; funding is blocked''))))"

definition verifyMakerCancel :: "crypto \<Rightarrow> taker_row \<Rightarrow> string \<Rightarrow> int \<Rightarrow> bool" where
  "verifyMakerCancel cr row orderDigest now \<longleftrightarrow>
     (case (tr_cancelAuth row, tr_cancelProof row, tr_makerAuth row) of
        (Some auth, Some cancel, Some orderAuth) \<Rightarrow>
          \<not> (cb_orderDigest cancel \<noteq> orderDigest \<or> pa_issuedAt auth < pa_issuedAt orderAuth \<or>
             pa_issuedAt auth > pa_expiresAt orderAuth \<or> pa_expiresAt auth \<noteq> pa_expiresAt orderAuth \<or>
             pa_issuedAt auth > now + MAX_CLOCK_SKEW_S) \<and>
          (case buildCancelV1Payload cancel (pa_nonce orderAuth) (pa_issuedAt auth) (pa_nonce auth) of
             Inl _ \<Rightarrow> False | Inr p \<Rightarrow> verifyOfficialV1Proof cr (tr_makerQrlAccount row) auth p)
      | _ \<Rightarrow> False)"


section \<open>Responses of the order book\<close>

definition MAX_LISTED_ROWS :: nat where "MAX_LISTED_ROWS = 200"

record listed_book =
  lb_rows :: "taker_row list"
  lb_skipped :: nat

fun list_rows :: "json list \<Rightarrow> string list \<Rightarrow> listed_book taker" where
  "list_rows [] seen = Inr \<lparr>lb_rows = [], lb_skipped = 0\<rparr>"
| "list_rows (raw # raws) seen =
     (case parseBookOrderRow (Some raw) ''order response'' of
        Inl _ \<Rightarrow> js_bind (list_rows raws seen) (\<lambda>l. Inr (l\<lparr>lb_skipped := lb_skipped l + 1\<rparr>))
      | Inr row \<Rightarrow>
          if tr_id row \<in> set seen then Inl (TakerError ''order book returned duplicate order ids'')
          else js_bind (list_rows raws (tr_id row # seen)) (\<lambda>l. Inr (l\<lparr>lb_rows := row # lb_rows l\<rparr>)))"

definition listOpen_taker :: "jobj \<Rightarrow> listed_book taker" where
  "listOpen_taker payload =
     (case map_of payload ''orders'' of
        Some (JArr raws) \<Rightarrow>
          throw_if (length raws > MAX_LISTED_ROWS) (TakerError ''order book returned too many orders'') (list_rows raws [])
      | _ \<Rightarrow> Inl (TakerError ''order book returned an invalid order list''))"

definition getRow :: "string \<Rightarrow> jobj \<Rightarrow> taker_row taker" where
  "getRow oid response =
     exactly response [''order''] ''order response''
    (js_bind (parseBookOrderRow (map_of response ''order'') ''order response'') (\<lambda>row.
     throw_if (tr_id row \<noteq> oid) (TakerError ''order book returned a different order id'') (Inr row)))"

definition submitIntent :: "crypto \<Rightarrow> shake256 \<Rightarrow> signed_intent \<Rightarrow> jobj \<Rightarrow> selected_fill_intent taker" where
  "submitIntent cr shake signed response =
     exactly response [''intent''] ''intent response''
    (js_bind (parseSelectedIntent (map_of response ''intent'') ''intent response'') (\<lambda>accepted.
     js_bind (signing_of (computeFillIntentDigest cr shake (sg_intent signed) (sg_intentAuth signed))) (\<lambda>d.
     throw_if (si_intentDigest accepted \<noteq> d \<or>
         \<not> sameSignedIntent \<lparr>sg_intent = si_intent accepted, sg_intentAuth = si_auth accepted\<rparr> signed)
       (TakerError ''the order book did not preserve the signed FillIntentV2 request'') (Inr accepted))))"



section \<open>Parsed rows are canonical\<close>

lemma malformed_Inr [js_simps]: "malformed f \<noteq> Inr a"
  by (simp add: malformed_def)

lemma taker_fields_Inr [js_simps]:
  "object_field raw f = Inr obj \<longleftrightarrow> raw = Some (JObj obj)"
  "text_field raw pat f = Inr s \<longleftrightarrow> raw = Some (JStr s) \<and> pat s"
  "uint_field raw f = Inr n \<longleftrightarrow> raw = Some (JInt n) \<and> safe_nonneg n"
  "boolOr raw b f = Inr c \<longleftrightarrow> raw = None \<and> c = b \<or> raw = Some (JBool c)"
  "required v f = Inr x \<longleftrightarrow> v = Some x"
  by (auto simp: object_field_def text_field_def uint_field_def boolOr_def required_def safe_nonneg_def js_simps
      split: option.splits json.splits)

lemma taker_optional_Inr [js_simps]:
  "nullableText raw pat f = Inr v \<longleftrightarrow> raw = Some JNull \<and> v = None \<or> (\<exists>s. raw = Some (JStr s) \<and> pat s \<and> v = Some s)"
  "nullableUint raw f = Inr w \<longleftrightarrow> raw = Some JNull \<and> w = None \<or> (\<exists>n. raw = Some (JInt n) \<and> safe_nonneg n \<and> w = Some n)"
  "optional raw rd = Inr x \<longleftrightarrow> raw = None \<and> x = None \<or> raw \<noteq> None \<and> (\<exists>a. rd raw = Inr a \<and> x = Some a)"
  by (auto simp: nullableText_def nullableUint_def optional_def js_simps split: option.splits)

lemma exactly_Inr [js_simps]:
  "exactly obj ks f k = Inr a \<longleftrightarrow> length obj = length ks \<and> fst ` set obj \<subseteq> set ks \<and> k = Inr a"
  "onlyKeys obj ks f k = Inr a \<longleftrightarrow> fst ` set obj \<subseteq> set ks \<and> k = Inr a"
  by (auto simp: exactly_def onlyKeys_def list_ex_iff throw_if_def)

text \<open>Everything but the sizes of the key and of the signature, which the taker leaves to the ML-DSA check.\<close>

definition auth_shape :: "('a) protocol_auth_scheme \<Rightarrow> bool" where
  "auth_shape a \<longleftrightarrow> safe_nonneg (pa_issuedAt a) \<and> safe_nonneg (pa_expiresAt a) \<and> BYTES32_RE (pa_nonce a) \<and>
     HEX_RE (pa_signature a) \<and> HEX_RE (pa_publicKey a) \<and> DESCRIPTOR_RE (pa_descriptor a)"

definition order_auth_shape :: "maker_order_auth \<Rightarrow> bool" where
  "order_auth_shape a \<longleftrightarrow> auth_shape a \<and> BYTES32_RE (pa_makerTokenCommitment a) \<and> BYTES32_RE (pa_shareTokenCommitment a)"

definition selected_shape :: "selected_fill_intent \<Rightarrow> bool" where
  "selected_shape s \<longleftrightarrow> BYTES32_RE (si_intentDigest s) \<and> intent_body_wf (si_intent s) \<and> auth_shape (si_auth s) \<and>
     safe_nonneg (si_receivedAt s) \<and> pa_issuedAt (si_auth s) < pa_expiresAt (si_auth s) \<and>
     pa_expiresAt (si_auth s) - pa_issuedAt (si_auth s) \<le> MAX_FILL_INTENT_LIFETIME_S"

definition cancel_shape :: "cancel_body \<Rightarrow> bool" where
  "cancel_shape c \<longleftrightarrow> BYTES32_RE (cb_orderDigest c) \<and> 0 \<le> cb_reasonCode c \<and> cb_reasonCode c \<le> 255"

definition row_terms_shape :: "taker_row \<Rightarrow> bool" where
  "row_terms_shape r \<longleftrightarrow> PORTABLE_ID_RE (tr_id r) \<and> CANONICAL_AMOUNT_RE (tr_fromAmount r) \<and> CANONICAL_AMOUNT_RE (tr_toAmount r) \<and>
     ETH_ADDR_LOWER_RE (tr_makerEthAccount r) \<and> QRL_ADDR_LOWER_RE (tr_makerQrlAccount r) \<and>
     pred_option ETH_ADDR_LOWER_RE (tr_takerEthAccount r) \<and> pred_option QRL_ADDR_LOWER_RE (tr_takerQrlAccount r) \<and>
     pred_option BYTES32_RE (tr_hashlock r) \<and> pred_option safe_nonneg (tr_initiatorTimeout r) \<and>
     pred_option safe_nonneg (tr_responderTimeout r) \<and> pred_option ETH_ADDR_LOWER_RE (tr_allowedTakerEth r) \<and>
     pred_option QRL_ADDR_LOWER_RE (tr_allowedTakerQrl r) \<and> list_all BYTES32_RE (tr_conflictDigests r) \<and>
     length (tr_conflictDigests r) \<le> MAX_CONFLICT_DIGESTS"

definition row_proofs_shape :: "taker_row \<Rightarrow> bool" where
  "row_proofs_shape r \<longleftrightarrow> pred_option order_auth_shape (tr_makerAuth r) \<and> pred_option BYTES32_RE (tr_orderDigest r) \<and>
     pred_option fill_body_wf (tr_fill r) \<and> pred_option auth_shape (tr_fillAuth r) \<and> pred_option BYTES32_RE (tr_fillDigest r) \<and>
     pred_option selected_shape (tr_selectedIntent r) \<and> pred_option cancel_shape (tr_cancelProof r) \<and>
     pred_option auth_shape (tr_cancelAuth r) \<and> pred_option BYTES32_RE (tr_cancelDigest r) \<and>
     safe_nonneg (tr_createdAt r) \<and> safe_nonneg (tr_updatedAt r)"

definition row_shape :: "taker_row \<Rightarrow> bool" where
  "row_shape r \<longleftrightarrow> row_terms_shape r \<and> row_proofs_shape r"

lemma parsed_auth: "parseProtocolAuth raw f = Inr a \<Longrightarrow> auth_shape a"
  by (auto simp: parseProtocolAuth_def js_simps auth_shape_def)

lemma extended_auth: "auth_shape (protocol_auth.extend a x) = auth_shape a"
  by (simp add: auth_shape_def protocol_auth.defs)

lemma parsed_order_auth: "parse_order_auth raw f = Inr a \<Longrightarrow> order_auth_shape a"
  by (auto simp: parse_order_auth_def js_simps order_auth_shape_def extended_auth protocol_auth.defs maker_order_auth.defs
      dest!: parsed_auth) (auto simp: auth_shape_def)

lemma parsed_intent: "parseFillIntentBody raw f = Inr i \<Longrightarrow> intent_body_wf i"
  by (auto simp: parseFillIntentBody_def js_simps intent_body_wf_def)

lemma parsed_selected: "parseSelectedIntent raw f = Inr s \<Longrightarrow> selected_shape s"
  by (auto simp: parseSelectedIntent_def js_simps selected_shape_def dest: parsed_auth parsed_intent)

lemma parsed_fill: "parseFillBody raw f = Inr b \<Longrightarrow> fill_body_wf b"
  by (auto simp: parseFillBody_def js_simps fill_body_wf_def)

lemma parsed_cancel: "parseCancelBody raw f = Inr c \<Longrightarrow> cancel_shape c"
  by (auto simp: parseCancelBody_def js_simps cancel_shape_def safe_nonneg_def)

lemma text_list_all: "text_list f i js = Inr ds \<Longrightarrow> list_all BYTES32_RE ds"
  by (induction f i js arbitrary: ds rule: text_list.induct) (auto simp: js_simps)

lemma conflict_list_Inr: "conflict_list raw f = Inr ds \<Longrightarrow> list_all BYTES32_RE ds \<and> length ds \<le> MAX_CONFLICT_DIGESTS"
  by (auto simp: conflict_list_def js_simps split: option.splits json.splits dest: text_list_all)

lemma optional_all: "optional raw rd = Inr x \<Longrightarrow> (\<And>v a. rd v = Inr a \<Longrightarrow> P a) \<Longrightarrow> pred_option P x"
  by (auto simp: taker_optional_Inr)

lemma parsed_terms:
  assumes "parse_row_terms row f dir asset status vis conflicts = Inr r" "list_all BYTES32_RE conflicts"
    "length conflicts \<le> MAX_CONFLICT_DIGESTS"
  shows "row_terms_shape r"
proof -
  from assms(1) obtain oid fa ta me mq te tq h t1 t2 rel seen ae aq pre where p:
    "text_field (map_of row ''id'') PORTABLE_ID_RE (f @ ''.id'') = Inr oid"
    "text_field (map_of row ''fromAmount'') CANONICAL_AMOUNT_RE (f @ ''.fromAmount'') = Inr fa"
    "text_field (map_of row ''toAmount'') CANONICAL_AMOUNT_RE (f @ ''.toAmount'') = Inr ta"
    "text_field (map_of row ''makerEthAccount'') ETH_ADDR_LOWER_RE (f @ ''.makerEthAccount'') = Inr me"
    "text_field (map_of row ''makerQrlAccount'') QRL_ADDR_LOWER_RE (f @ ''.makerQrlAccount'') = Inr mq"
    "nullableText (map_of row ''takerEthAccount'') ETH_ADDR_LOWER_RE (f @ ''.takerEthAccount'') = Inr te"
    "nullableText (map_of row ''takerQrlAccount'') QRL_ADDR_LOWER_RE (f @ ''.takerQrlAccount'') = Inr tq"
    "nullableText (map_of row ''hashlock'') BYTES32_RE (f @ ''.hashlock'') = Inr h"
    "nullableUint (map_of row ''initiatorTimeout'') (f @ ''.initiatorTimeout'') = Inr t1"
    "nullableUint (map_of row ''responderTimeout'') (f @ ''.responderTimeout'') = Inr t2"
    "optional (map_of row ''allowedTakerEth'') (\<lambda>v. text_field v ETH_ADDR_LOWER_RE (f @ ''.allowedTakerEth'')) = Inr ae"
    "optional (map_of row ''allowedTakerQrl'') (\<lambda>v. text_field v QRL_ADDR_LOWER_RE (f @ ''.allowedTakerQrl'')) = Inr aq"
    and r: "\<lparr>tr_id = oid, tr_direction = dir, tr_asset = asset, tr_fromAmount = fa, tr_toAmount = ta, tr_makerEthAccount = me,
         tr_makerQrlAccount = mq, tr_status = status, tr_takerEthAccount = te, tr_takerQrlAccount = tq, tr_hashlock = h,
         tr_initiatorTimeout = t1, tr_responderTimeout = t2, tr_released = rel, tr_makerSeen = seen, tr_visibility = vis,
         tr_allowedTakerEth = ae, tr_allowedTakerQrl = aq, tr_prelocked = pre, tr_makerAuth = None, tr_orderDigest = None,
         tr_fill = None, tr_fillAuth = None, tr_fillDigest = None, tr_selectedIntent = None, tr_cancelProof = None,
         tr_cancelAuth = None, tr_cancelDigest = None, tr_equivocated = False, tr_conflictDigests = conflicts,
         tr_createdAt = 0, tr_updatedAt = 0\<rparr> = r"
    unfolding parse_row_terms_def js_bind_Inr sum.inject by (elim exE conjE) (rule that; assumption)
  have "pred_option ETH_ADDR_LOWER_RE ae" "pred_option QRL_ADDR_LOWER_RE aq" "pred_option ETH_ADDR_LOWER_RE te"
    "pred_option QRL_ADDR_LOWER_RE tq" "pred_option BYTES32_RE h" "pred_option safe_nonneg t1" "pred_option safe_nonneg t2"
    subgoal by (rule optional_all [OF p(11)]) (simp add: taker_fields_Inr)
    subgoal by (rule optional_all [OF p(12)]) (simp add: taker_fields_Inr)
    subgoal using p(6) by (auto simp: taker_optional_Inr)
    subgoal using p(7) by (auto simp: taker_optional_Inr)
    subgoal using p(8) by (auto simp: taker_optional_Inr)
    subgoal using p(9) by (auto simp: taker_optional_Inr)
    subgoal using p(10) by (auto simp: taker_optional_Inr)
    done
  then show ?thesis
    using p(1,2,3,4,5) assms(2,3) unfolding row_terms_shape_def r [symmetric] taker_fields_Inr by simp
qed

lemma parsed_proofs:
  assumes "parse_row_proofs row f r = Inr r'" "row_terms_shape r"
  shows "row_shape r'"
proof -
  from assms(1) obtain ma od fl fa fd si cp ca cd eq t1 t2 where
    ps: "optional (map_of row ''makerAuth'') (\<lambda>v. parse_order_auth v (f @ ''.makerAuth'')) = Inr ma"
    "optional (map_of row ''orderDigest'') (\<lambda>v. text_field v BYTES32_RE (f @ ''.orderDigest'')) = Inr od"
    "optional (map_of row ''fill'') (\<lambda>v. parseFillBody v (f @ ''.fill'')) = Inr fl"
    "optional (map_of row ''fillAuth'') (\<lambda>v. parseProtocolAuth v (f @ ''.fillAuth'')) = Inr fa"
    "optional (map_of row ''fillDigest'') (\<lambda>v. text_field v BYTES32_RE (f @ ''.fillDigest'')) = Inr fd"
    "optional (map_of row ''selectedIntent'') (\<lambda>v. parseSelectedIntent v (f @ ''.selectedIntent'')) = Inr si"
    "optional (map_of row ''cancelProof'') (\<lambda>v. parseCancelBody v (f @ ''.cancelProof'')) = Inr cp"
    "optional (map_of row ''cancelAuth'') (\<lambda>v. parseProtocolAuth v (f @ ''.cancelAuth'')) = Inr ca"
    "optional (map_of row ''cancelDigest'') (\<lambda>v. text_field v BYTES32_RE (f @ ''.cancelDigest'')) = Inr cd"
    "uint_field (map_of row ''createdAt'') (f @ ''.createdAt'') = Inr t1"
    "uint_field (map_of row ''updatedAt'') (f @ ''.updatedAt'') = Inr t2"
    and r: "r\<lparr>tr_makerAuth := ma, tr_orderDigest := od, tr_fill := fl, tr_fillAuth := fa, tr_fillDigest := fd,
         tr_selectedIntent := si, tr_cancelProof := cp, tr_cancelAuth := ca, tr_cancelDigest := cd, tr_equivocated := eq,
         tr_createdAt := t1, tr_updatedAt := t2\<rparr> = r'"
    unfolding parse_row_proofs_def js_bind_Inr sum.inject by (elim exE conjE) (rule that; assumption)
  have "pred_option order_auth_shape ma" "pred_option BYTES32_RE od" "pred_option fill_body_wf fl" "pred_option auth_shape fa"
    "pred_option BYTES32_RE fd" "pred_option selected_shape si" "pred_option cancel_shape cp" "pred_option auth_shape ca"
    "pred_option BYTES32_RE cd"
    subgoal by (rule optional_all [OF ps(1) parsed_order_auth])
    subgoal by (rule optional_all [OF ps(2)]) (simp add: taker_fields_Inr)
    subgoal by (rule optional_all [OF ps(3) parsed_fill])
    subgoal by (rule optional_all [OF ps(4) parsed_auth])
    subgoal by (rule optional_all [OF ps(5)]) (simp add: taker_fields_Inr)
    subgoal by (rule optional_all [OF ps(6) parsed_selected])
    subgoal by (rule optional_all [OF ps(7) parsed_cancel])
    subgoal by (rule optional_all [OF ps(8) parsed_auth])
    subgoal by (rule optional_all [OF ps(9)]) (simp add: taker_fields_Inr)
    done
  then have "row_proofs_shape r'"
    using ps(10,11) unfolding row_proofs_shape_def r [symmetric] by (simp add: taker_fields_Inr)
  moreover have "row_terms_shape r'" using assms(2) by (simp add: r [symmetric] row_terms_shape_def)
  ultimately show ?thesis by (simp add: row_shape_def)
qed

text \<open>
  Whatever JSON the order book answers with, a row the taker goes on with is canonical: lower-case
  addresses and digests of the right length, canonical amounts, safe non-negative times, at most 32 conflict digests,
  and proofs of the right shape.\<close>

lemma parsed_row_shape:
  assumes "parseBookOrderRow raw f = Inr r"
  shows "row_shape r"
proof -
  from assms obtain row dir asset status vis conflicts r0 where p: "conflict_list (map_of row ''conflictDigests'') f = Inr conflicts"
    "parse_row_terms row f dir asset status vis conflicts = Inr r0" "parse_row_proofs row f r0 = Inr r"
    unfolding parseBookOrderRow_def js_bind_Inr exactly_Inr by (elim exE conjE) (rule that; assumption)
  have "row_terms_shape r0" using parsed_terms [OF p(2)] conflict_list_Inr [OF p(1)] by simp
  then show ?thesis by (rule parsed_proofs [OF p(3)])
qed

section \<open>What the taker verifies, the book verifies\<close>

text \<open>An ML-DSA-87 proof that verifies has a key of 2,592 bytes and a signature of 4,627 bytes.\<close>

definition proof_sizes :: "crypto \<Rightarrow> bool" where
  "proof_sizes cr \<longleftrightarrow> (\<forall>s a p. cr_verify cr s a p \<longrightarrow>
     length (pa_signature a) = 2 + 2 * 4627 \<and> length (pa_publicKey a) = 2 + 2 * 2592)"

lemma hex_of_size:
  "HEX_RE s \<Longrightarrow> length s = 2 + n \<Longrightarrow> matches ''0x'' is_hex_lower n s"
  by (simp add: HEX_RE_def matches_def numeral_2_eq_2)

lemma sized_auth:
  assumes "auth_shape a" "cr_verify cr s b p" "proof_sizes cr" "pa_signature b = pa_signature a" "pa_publicKey b = pa_publicKey a"
  shows "auth_wf a"
  using assms hex_of_size [of "pa_signature a" "2 * 4627"] hex_of_size [of "pa_publicKey a" "2 * 2592"]
  unfolding proof_sizes_def by (fastforce simp: auth_shape_def auth_wf_def SIGNATURE_RE_def PUBLIC_KEY_RE_def)

definition taker_order_facts :: "crypto \<Rightarrow> shake256 \<Rightarrow> taker_row \<Rightarrow> int \<Rightarrow> bool \<Rightarrow> verified_taker_order \<Rightarrow> maker_order_auth \<Rightarrow> payload \<Rightarrow> bool" where
  "taker_order_facts cr shake row now ae v auth p \<longleftrightarrow>
     tr_makerAuth row = Some auth \<and> \<not> order_window_bad auth now ae \<and> \<not> tr_equivocated row \<and> tr_conflictDigests row = [] \<and>
     tr_visibility row = Public \<and> pa_shareTokenCommitment auth = ZERO32 \<and> tr_allowedTakerEth row = None \<and> tr_allowedTakerQrl row = None \<and>
     derive_order_id cr shake (tr_makerQrlAccount row) (pa_nonce auth) = Inr (tr_id row) \<and> \<not> listing_bad row auth \<and>
     computeOrderDigest cr shake (orderBodyFromRow row) (order_auth_terms_of auth) = Inr (vt_orderDigest v) \<and>
     (tr_orderDigest row = None \<or> tr_orderDigest row = Some (vt_orderDigest v)) \<and>
     buildOrderV1Payload shake (orderBodyFromRow row) (order_auth_terms_of auth) = Inr p \<and>
     verifyOfficialV1Proof cr (tr_makerQrlAccount row) (base_auth auth) p \<and>
     bigint (tr_fromAmount row) \<noteq> 0 \<and> bigint (tr_toAmount row) \<noteq> 0 \<and>
     v = \<lparr>vt_id = tr_id row, vt_order = orderBodyFromRow row, vt_auth = auth, vt_orderDigest = vt_orderDigest v,
       vt_fromAmount = bigint (tr_fromAmount row), vt_toAmount = bigint (tr_toAmount row), vt_row = row\<rparr>"

lemma caught_Some: "caught r = Some v \<longleftrightarrow> r = Inr (Some v)"
  by (cases r) auto

lemma signing_if_Inr:
  "(if b then Inr None else k) = Inr (Some v) \<longleftrightarrow> \<not> b \<and> (k :: 'a option signing) = Inr (Some v)"
  by simp

lemma verifyMakerOrder_Some:
  "verifyMakerOrder cr shake row now ae = Some v \<longleftrightarrow> (\<exists>auth p. taker_order_facts cr shake row now ae v auth p)"
proof (cases "tr_makerAuth row")
  case None
  then show ?thesis by (simp add: verifyMakerOrder_def taker_order_facts_def)
next
  case (Some auth)
  then show ?thesis
    unfolding verifyMakerOrder_def taker_order_facts_def Some option.case caught_Some signing_if_Inr js_bind_Inr
    by (cases v) auto
qed

lemma row_order_verified:
  assumes "row_shape row" "proof_sizes cr" "verifyMakerOrder cr shake row now ae = Some v"
  shows "verified_order_ok cr \<lparr>vo_orderId = tr_id row, vo_orderDigest = vt_orderDigest v, vo_order = orderBodyFromRow row, vo_auth = vt_auth v\<rparr>"
    "tr_makerAuth row = Some (vt_auth v)" "cr_deployed cr" "ob_visibility (orderBodyFromRow row) = Public"
proof -
  obtain auth p where f: "taker_order_facts cr shake row now ae v auth p" using assms(3) verifyMakerOrder_Some by blast
  note f = f [unfolded taker_order_facts_def]
  have v: "vt_auth v = auth" using f by (metis verified_taker_order.select_convs(3))
  let ?b = "orderBodyFromRow row"
  have t: "row_terms_shape row" "order_auth_shape auth" using assms(1) f by (auto simp: row_shape_def row_proofs_shape_def)
  have b: "order_body_wf ?b"
    using t(1) f by (auto simp: body_wf_alt orderBodyFromRow_def row_terms_shape_def prelock_wf_def HASHLOCK_RE_def safe_nonneg_def split: option.splits)
  have cv: "cr_deployed cr" "cr_verify cr (tr_makerQrlAccount row) (base_auth auth) p"
    using f by (simp_all add: verifyOfficialV1Proof_def)
  have w: "maker_auth_wf auth"
    using t(2) sized_auth [of auth, OF _ cv(2) assms(2)] by (simp add: maker_auth_wf_def order_auth_shape_def base_auth_def)
  note pd = build_order_auth [OF b w]
  have m: "ob_makerQrlAccount ?b = tr_makerQrlAccount row" by (simp add: orderBodyFromRow_def)
  have "derive_order_id cr shake (tr_makerQrlAccount row) (pa_nonce auth) = Inr (cr_orderId cr (tr_makerQrlAccount row) (pa_nonce auth))"
    using t by (simp add: derive_order_id_def js_simps row_terms_shape_def order_auth_shape_def auth_shape_def)
  then have "tr_id row = cr_orderId cr (tr_makerQrlAccount row) (pa_nonce auth)" using f by simp
  moreover have "p = order_payload ?b auth" "vt_orderDigest v = cr_digest cr (order_payload ?b auth)"
  proof -
    have "buildOrderV1Payload shake ?b (order_auth_terms_of auth) = Inr p"
      "computeOrderDigest cr shake ?b (order_auth_terms_of auth) = Inr (vt_orderDigest v)" using f by blast+
    then show "p = order_payload ?b auth" "vt_orderDigest v = cr_digest cr (order_payload ?b auth)" using pd by simp_all
  qed
  moreover have "case ob_prelock ?b of None \<Rightarrow> True | Some q \<Rightarrow> pa_expiresAt auth \<le> pl_initiatorTimeout q" "\<not> prelock_window_bad ?b auth"
    using f by (auto simp: listing_bad_def orderBodyFromRow_def prelock_window_bad_def split: option.splits if_splits)
  moreover have "ob_visibility ?b = Public" using f by (simp add: orderBodyFromRow_def)
  moreover have ow: "pa_issuedAt auth < pa_expiresAt auth" "pa_expiresAt auth - pa_issuedAt auth \<le> MAX_ORDER_LIFETIME_S"
    "pa_makerTokenCommitment auth \<noteq> ZERO32" "pa_shareTokenCommitment auth = ZERO32" "tr_makerAuth row = Some auth"
    using f by (auto simp: order_window_bad_def ORDER_LIFETIME_S_def MAX_ORDER_LIFETIME_S_def)
  ultimately show "verified_order_ok cr \<lparr>vo_orderId = tr_id row, vo_orderDigest = vt_orderDigest v, vo_order = ?b, vo_auth = vt_auth v\<rparr>"
    "tr_makerAuth row = Some (vt_auth v)" "cr_deployed cr" "ob_visibility ?b = Public"
    using ow cv b w m v by (simp_all add: verified_order_ok_def cong: option.case_cong)
qed



text \<open>What a fill satisfies that the taker goes on to fund.\<close>

definition taker_fill_facts :: "crypto \<Rightarrow> shake256 \<Rightarrow> taker_row \<Rightarrow> taker_recovery \<Rightarrow> int \<Rightarrow> verified_maker_fill \<Rightarrow> verified_taker_order
    \<Rightarrow> selected_fill_intent \<Rightarrow> payload \<Rightarrow> bool" where
  "taker_fill_facts cr shake row rc now vm v selected p \<longleftrightarrow>
     \<not> tr_released row \<and> \<not> tr_equivocated row \<and> tr_conflictDigests row = [] \<and> tr_cancelProof row = None \<and> tr_cancelAuth row = None \<and>
     tr_status row = Locking \<and> tr_fill row = Some (vm_fill vm) \<and> tr_fillAuth row = Some (vm_auth vm) \<and>
     tr_selectedIntent row = Some selected \<and> tr_makerAuth row \<noteq> None \<and>
     verifyMakerOrder cr shake row now True = Some v \<and> vt_orderDigest v = rc_orderDigest rc \<and> now < pa_expiresAt (vm_auth vm) \<and>
     si_intentDigest selected = rc_intentDigest rc \<and>
     sameSignedIntent \<lparr>sg_intent = si_intent selected, sg_intentAuth = si_auth selected\<rparr> (rc_intent rc) \<and>
     computeFillIntentDigest cr shake (sg_intent (rc_intent rc)) (sg_intentAuth (rc_intent rc)) = Inr (rc_intentDigest rc) \<and>
     verifyOwnIntent cr shake (rc_intent rc) (rc_orderDigest rc) (the (tr_makerAuth row)) now True \<and>
     fillTermsAreValid row (vm_fill vm) (vm_auth vm) rc now \<and>
     buildFillV1Payload shake (vm_fill vm) (pa_nonce (the (tr_makerAuth row))) (pa_issuedAt (vm_auth vm)) (pa_expiresAt (vm_auth vm))
       (pa_nonce (vm_auth vm)) = Inr p \<and>
     verifyOfficialV1Proof cr (tr_makerQrlAccount row) (vm_auth vm) p \<and>
     computeFillDigest cr shake (vm_fill vm) (pa_nonce (the (tr_makerAuth row))) (vm_auth vm) = Inr (vm_fillDigest vm) \<and>
     (tr_fillDigest row = None \<or> tr_fillDigest row = Some (vm_fillDigest vm)) \<and> \<not> row_contradicts row (vm_fill vm)"

lemma blocked_if_Inr [js_simps]: "blocked_if b m k = Inr a \<longleftrightarrow> \<not> b \<and> k = Inr a"
  by (simp add: blocked_if_def throw_if_def)

lemma signing_of_Inr [js_simps]: "signing_of r = Inr a \<longleftrightarrow> r = Inr a"
  by (simp add: signing_of_def split: sum.splits)

lemma selects_other_Inr:
  "selects_other cr shake selected rc = Inr False \<longleftrightarrow> si_intentDigest selected = rc_intentDigest rc \<and>
     sameSignedIntent \<lparr>sg_intent = si_intent selected, sg_intentAuth = si_auth selected\<rparr> (rc_intent rc) \<and>
     computeFillIntentDigest cr shake (sg_intent (rc_intent rc)) (sg_intentAuth (rc_intent rc)) = Inr (rc_intentDigest rc)"
  by (auto simp: selects_other_def js_simps)

lemma ex_Inr_False: "(\<exists>b. x = Inr b \<and> \<not> b \<and> R) \<longleftrightarrow> x = Inr False \<and> R"
  by auto

lemma not_option_case: "\<not> (case m of None \<Rightarrow> True | Some v \<Rightarrow> f v \<noteq> y) \<longleftrightarrow> (\<exists>v. m = Some v \<and> f v = y)"
  by (cases m) auto

lemma verified_maker_fill_eq: "\<lparr>vm_fill = f, vm_auth = a, vm_fillDigest = d\<rparr> = vm \<longleftrightarrow> vm_fill vm = f \<and> vm_auth vm = a \<and> vm_fillDigest vm = d"
  by (cases vm) auto

lemma verify_complete_fill_Inr:
  "verify_complete_fill cr shake row fill auth selected makerAuth rc now = Inr (Some vm) \<longleftrightarrow>
     (\<exists>v p. verifyMakerOrder cr shake row now True = Some v \<and> vt_orderDigest v = rc_orderDigest rc \<and> now < pa_expiresAt auth \<and>
       selects_other cr shake selected rc = Inr False \<and> verifyOwnIntent cr shake (rc_intent rc) (rc_orderDigest rc) makerAuth now True \<and>
       fillTermsAreValid row fill auth rc now \<and>
       buildFillV1Payload shake fill (pa_nonce makerAuth) (pa_issuedAt auth) (pa_expiresAt auth) (pa_nonce auth) = Inr p \<and>
       verifyOfficialV1Proof cr (tr_makerQrlAccount row) auth p \<and>
       computeFillDigest cr shake fill (pa_nonce makerAuth) auth = Inr (vm_fillDigest vm) \<and>
       (tr_fillDigest row = None \<or> tr_fillDigest row = Some (vm_fillDigest vm)) \<and> \<not> row_contradicts row fill \<and>
       vm_fill vm = fill \<and> vm_auth vm = auth)"
  unfolding verify_complete_fill_def blocked_if_Inr js_bind_Inr signing_of_Inr ex_Inr_False not_option_case not_le sum.inject option.inject
    verified_maker_fill_eq
  by auto

lemma verifyMakerFill_Some:
  "verifyMakerFill cr shake row rc now = Inr (Some vm) \<longleftrightarrow> (\<exists>v selected p. taker_fill_facts cr shake row rc now vm v selected p)"
  unfolding verifyMakerFill_def taker_fill_facts_def blocked_if_Inr
  by (auto simp: verify_complete_fill_Inr selects_other_Inr split: option.splits)



text \<open>The intent is the one the row shows, so it has its shape.\<close>

lemma same_intent: "sameSignedIntent l r \<longleftrightarrow> l = r"
  by (cases l; cases r; cases "sg_intent l"; cases "sg_intent r"; cases "sg_intentAuth l"; cases "sg_intentAuth r")
    (auto simp: sameSignedIntent_def)

lemma own_intent_verified:
  assumes "verifyOwnIntent cr shake si d orderAuth now True" "intent_body_wf (sg_intent si)" "auth_shape (sg_intentAuth si)"
    "proof_sizes cr" "verified_order_ok cr vo" "vo_auth vo = orderAuth" "vo_orderDigest vo = d" "ob_visibility (vo_order vo) = Public"
  shows "verifyFillIntentV1 cr now True (intent_json (sg_intent si)) (auth_json (sg_intentAuth si)) vo =
      Inr \<lparr>vi_intentDigest = cr_digest cr (intent_payload (sg_intent si) (sg_intentAuth si)), vi_intent = sg_intent si, vi_auth = sg_intentAuth si\<rparr>"
    "computeFillIntentDigest cr shake (sg_intent si) (sg_intentAuth si) = Inr (cr_digest cr (intent_payload (sg_intent si) (sg_intentAuth si)))"
    "pa_issuedAt orderAuth \<le> pa_issuedAt (sg_intentAuth si)"
proof -
  define i where "i = sg_intent si"
  define a where "a = sg_intentAuth si"
  from assms(1) obtain p where f: "fi_orderDigest i = d" "pa_issuedAt a < pa_expiresAt a" "pa_expiresAt a - pa_issuedAt a \<le> MAX_FILL_INTENT_LIFETIME_S"
    "pa_issuedAt a \<le> now + MAX_CLOCK_SKEW_S" "pa_issuedAt orderAuth \<le> pa_issuedAt a" "pa_expiresAt a \<le> pa_expiresAt orderAuth"
    "buildFillIntentV1Payload shake i (pa_issuedAt a) (pa_expiresAt a) (pa_nonce a) = Inr p" "verifyOfficialV1Proof cr (fi_takerQrlAccount i) a p"
    by (auto simp: verifyOwnIntent_def Let_def i_def a_def split: sum.splits)
  have v: "cr_deployed cr" "cr_verify cr (fi_takerQrlAccount i) a p" using f(8) by (simp_all add: verifyOfficialV1Proof_def)
  have aw: "auth_wf a" using sized_auth [OF assms(3) v(2) [unfolded a_def] assms(4)] by (simp add: a_def)
  have "p = intent_payload i a" and cd: "computeFillIntentDigest cr shake i a = Inr (cr_digest cr (intent_payload i a))"
    using f(2,7) aw build_intent_canonical [OF assms(2), of "pa_issuedAt a" "pa_expiresAt a" "pa_nonce a" shake]
    by (simp_all add: i_def [symmetric] auth_wf_def intent_payload_def computeFillIntentDigest_def)
  then have v: "cr_verify cr (fi_takerQrlAccount i) a (intent_payload i a)" "cr_deployed cr" using v by simp_all
  have "order_body_wf (vo_order vo)" using assms(5) by (simp add: verified_order_ok_def)
  then have free: "ob_allowedTakerEth (vo_order vo) = None" "ob_allowedTakerQrl (vo_order vo) = None"
    using assms(8) unfolding body_wf_alt by blast+
  have "verifyFillIntentV1 cr now True (intent_json i) (auth_json a) vo =
      Inr \<lparr>vi_intentDigest = cr_digest cr (intent_payload i a), vi_intent = i, vi_auth = a\<rparr>"
    unfolding verifyFillIntentV1_def i_def [symmetric] a_def [symmetric] intent_body_roundtrip [OF assms(2), folded i_def] parseAuth_roundtrip [OF aw] js_bind_simps
    using f v free assms(6,7) by (auto simp: js_simps)
  then show "verifyFillIntentV1 cr now True (intent_json (sg_intent si)) (auth_json (sg_intentAuth si)) vo =
      Inr \<lparr>vi_intentDigest = cr_digest cr (intent_payload (sg_intent si) (sg_intentAuth si)), vi_intent = sg_intent si, vi_auth = sg_intentAuth si\<rparr>"
    "computeFillIntentDigest cr shake (sg_intent si) (sg_intentAuth si) = Inr (cr_digest cr (intent_payload (sg_intent si) (sg_intentAuth si)))"
    "pa_issuedAt orderAuth \<le> pa_issuedAt (sg_intentAuth si)"
    using cd f(5) by (simp_all add: i_def a_def)
qed

lemma terms_windows:
  assumes "fillTermsAreValid row f a rc now" "vo_order vo = orderBodyFromRow row"
  shows "fill_timeouts vo f a now False k = k"
proof -
  have p: "ob_prelock (vo_order vo) = row_prelock row"
    by (simp add: assms(2) orderBodyFromRow_def row_prelock_def)
  show ?thesis
    using assms(1)
    by (cases "row_prelock row")
      (auto simp: fillTermsAreValid_def fillBindingIsValid_def Let_def fill_timeouts_def p reject_if_def throw_if_def split: option.splits)
qed


definition row_vo :: "taker_row \<Rightarrow> verified_taker_order \<Rightarrow> verified_order" where
  "row_vo row v = \<lparr>vo_orderId = tr_id row, vo_orderDigest = vt_orderDigest v, vo_order = orderBodyFromRow row, vo_auth = vt_auth v\<rparr>"

lemma row_vo_fields [simp]:
  "vo_orderId (row_vo row v) = tr_id row" "vo_orderDigest (row_vo row v) = vt_orderDigest v" "vo_order (row_vo row v) = orderBodyFromRow row"
  "vo_auth (row_vo row v) = vt_auth v"
  by (simp_all add: row_vo_def)

lemma fill_accepted_by_book:
  assumes "taker_fill_facts cr shake row rc now vm v selected p" "row_shape row" "proof_sizes cr" "verified_order_ok cr (row_vo row v)"
    "tr_makerAuth row = Some (vt_auth v)" "vi = \<lparr>vi_intentDigest = rc_intentDigest rc, vi_intent = sg_intent (rc_intent rc), vi_auth = sg_intentAuth (rc_intent rc)\<rparr>"
    "fi_orderDigest (sg_intent (rc_intent rc)) = rc_orderDigest rc" "pa_issuedAt (vt_auth v) \<le> pa_issuedAt (sg_intentAuth (rc_intent rc))"
  shows "verifyFillV1 cr now False (fill_json (vm_fill vm)) (auth_json (vm_auth vm)) (row_vo row v) vi =
    Inr \<lparr>vf_fillDigest = vm_fillDigest vm, vf_fill = vm_fill vm, vf_auth = vm_auth vm\<rparr>"
proof -
  define fl where "fl = vm_fill vm"
  define a where "a = vm_auth vm"
  note fs = assms(1) [unfolded taker_fill_facts_def, folded fl_def a_def]
  have tv: "fillTermsAreValid row fl a rc now" and cd: "computeFillDigest cr shake fl (pa_nonce (vt_auth v)) a = Inr (vm_fillDigest vm)"
    and bp: "buildFillV1Payload shake fl (pa_nonce (vt_auth v)) (pa_issuedAt a) (pa_expiresAt a) (pa_nonce a) = Inr p"
    and vp: "cr_verify cr (tr_makerQrlAccount row) a p" "cr_deployed cr" and live: "now < pa_expiresAt a"
    and od: "vt_orderDigest v = rc_orderDigest rc" and rf: "tr_fill row = Some fl" "tr_fillAuth row = Some a"
    using fs assms(5) by (simp_all add: verifyOfficialV1Proof_def)
  have fw: "fill_body_wf fl" and ash: "auth_shape a" using assms(2) rf by (auto simp: row_shape_def row_proofs_shape_def)
  have aw: "auth_wf a" using sized_auth [OF ash vp(1) assms(3)] by simp
  have b: "fb_hashlock fl \<noteq> ZERO32" "fb_orderDigest fl = rc_orderDigest rc" "fb_intentDigest fl = rc_intentDigest rc"
    "fb_takerEthAccount fl = fi_takerEthAccount (sg_intent (rc_intent rc))" "fb_takerQrlAccount fl = fi_takerQrlAccount (sg_intent (rc_intent rc))"
    "fb_releaseCommitment fl = fi_releaseCommitment (sg_intent (rc_intent rc))" "MIN_FILL_RESPONSE_S \<le> pa_expiresAt a - pa_issuedAt a"
    "pa_expiresAt a - pa_issuedAt a \<le> MAX_FILL_RESPONSE_S" "pa_expiresAt a \<le> pa_expiresAt (vt_auth v)"
    "pa_issuedAt (sg_intentAuth (rc_intent rc)) \<le> pa_issuedAt a" "pa_issuedAt a < pa_expiresAt (sg_intentAuth (rc_intent rc))"
    "pa_issuedAt a \<le> now + MAX_CLOCK_SKEW_S"
    using tv assms(5) by (auto simp: fillTermsAreValid_def fillBindingIsValid_def Let_def)
  have t: "pa_issuedAt a < pa_expiresAt a" using b(7) by (simp add: MIN_FILL_RESPONSE_S_def)
  have n: "BYTES32_RE (pa_nonce (vt_auth v))" using assms(4) by (simp add: verified_order_ok_def maker_auth_wf_def auth_wf_def)
  have "buildFillV1Payload shake fl (pa_nonce (vt_auth v)) (pa_issuedAt a) (pa_expiresAt a) (pa_nonce a) = Inr (fill_payload fl a (row_vo row v))"
    using build_fill_canonical [OF fw n _ _ t] aw by (simp add: fill_payload_def auth_wf_def)
  then have pay: "p = fill_payload fl a (row_vo row v)" "vm_fillDigest vm = cr_digest cr (fill_payload fl a (row_vo row v))"
    using bp cd by (simp_all add: computeFillDigest_def)
  have m: "ob_makerQrlAccount (orderBodyFromRow row) = tr_makerQrlAccount row" by (simp add: orderBodyFromRow_def)
  have after: "pa_issuedAt (vt_auth v) \<le> pa_issuedAt a" "pa_issuedAt a < pa_expiresAt (vt_auth v)" "now < pa_expiresAt (vt_auth v)"
    using assms(8) b(9,10) t live by simp_all
  have w: "fill_timeouts (row_vo row v) fl a now False k = k" for k :: "verified_fill api"
    by (rule terms_windows [OF tv]) simp
  show ?thesis
    unfolding verifyFillV1_def fl_def [symmetric] a_def [symmetric] fill_body_roundtrip [OF fw b(1)] parseAuth_roundtrip [OF aw] js_bind_simps
      assertOrderReference_def assertOrderValidity_def assertInitialAcceptance_def reject_if_Inr w verifyProof_def js_bind_Inr throw_if_Inr assms(6)
    using b after live od vp pay m assms(7) by (simp add: exI [of _ True])
qed

text \<open>
  C25: the taker goes on with no fill but one the order book accepts. If the taker's checks pass for a row some book
  answered with, then the maker's order, the taker's saved intent and the fill the row shows all verify for the book's
  own verifiers at that moment, under the digests the taker saved and computed; the row is neither released nor
  disputed, and its projected terms are those of the fill. A book that lies can withhold a fill but not make one up.\<close>
theorem taker_funds_book_fill:
  assumes "parseBookOrderRow raw field = Inr row" "proof_sizes cr" "verifyMakerFill cr shake row rc now = Inr (Some vm)"
  shows "\<exists>vo vi. verified_order_ok cr vo \<and> vo_orderId vo = tr_id row \<and> vo_order vo = orderBodyFromRow row \<and>
    vo_orderDigest vo = rc_orderDigest rc \<and>
    verifyOrderV1 cr now True (JObj (order_body_obj (vo_order vo))) (maker_auth_json (vo_auth vo)) = Inr vo \<and>
    verifyFillIntentV1 cr now True (intent_json (sg_intent (rc_intent rc))) (auth_json (sg_intentAuth (rc_intent rc))) vo = Inr vi \<and>
    vi_intentDigest vi = rc_intentDigest rc \<and>
    verifyFillV1 cr now False (fill_json (vm_fill vm)) (auth_json (vm_auth vm)) vo vi =
      Inr \<lparr>vf_fillDigest = vm_fillDigest vm, vf_fill = vm_fill vm, vf_auth = vm_auth vm\<rparr> \<and>
    \<not> tr_released row \<and> \<not> tr_equivocated row \<and> \<not> row_contradicts row (vm_fill vm)"
proof -
  obtain v selected p where s: "taker_fill_facts cr shake row rc now vm v selected p" using assms(3) verifyMakerFill_Some by blast
  note fs = s [unfolded taker_fill_facts_def]
  have shape: "row_shape row" using parsed_row_shape [OF assms(1)] .
  have vm: "verifyMakerOrder cr shake row now True = Some v" using fs by blast
  note o1 = row_order_verified [OF shape assms(2) vm]
  have vo: "verified_order_ok cr (row_vo row v)" using o1(1) by (simp add: row_vo_def)
  have rc: "rc_intent rc = \<lparr>sg_intent = si_intent selected, sg_intentAuth = si_auth selected\<rparr>" using fs by (simp add: same_intent)
  have sel: "intent_body_wf (sg_intent (rc_intent rc))" "auth_shape (sg_intentAuth (rc_intent rc))"
    using shape fs by (auto simp: row_shape_def row_proofs_shape_def selected_shape_def rc)
  have own: "verifyOwnIntent cr shake (rc_intent rc) (rc_orderDigest rc) (vt_auth v) now True" using fs o1(2) by simp
  have od: "vt_orderDigest v = rc_orderDigest rc" using fs by blast
  note i1 = own_intent_verified [OF own sel assms(2) vo] 
  have id: "rc_intentDigest rc = cr_digest cr (intent_payload (sg_intent (rc_intent rc)) (sg_intentAuth (rc_intent rc)))"
    using i1(2) fs od o1(4) by simp
  have so: "pa_issuedAt (vt_auth v) \<le> now + MAX_CLOCK_SKEW_S"
    using vm verifyMakerOrder_Some [of cr shake row now True v] o1(2) by (auto simp: taker_order_facts_def order_window_bad_def)
  have fo: "fi_orderDigest (sg_intent (rc_intent rc)) = rc_orderDigest rc" using own by (simp add: verifyOwnIntent_def Let_def)
  show ?thesis
    using fill_accepted_by_book [OF s shape assms(2) vo o1(2) refl fo] i1 id od vo fs o1(4) verifyOrderV1_again [OF vo, of now] so
    by (intro exI [of _ "row_vo row v"]) simp
qed


section \<open>A fill that is funded\<close>

text \<open>What the order book writes of a proof, the taker reads back.\<close>

lemma sized_hex: "matches ''0x'' is_hex_lower n s \<Longrightarrow> 0 < n \<Longrightarrow> HEX_RE s"
  by (auto simp: HEX_RE_def matches_def numeral_2_eq_2)

lemma sized_HEX: "SIGNATURE_RE s \<Longrightarrow> HEX_RE s" "PUBLIC_KEY_RE s \<Longrightarrow> HEX_RE s"
  by (auto simp: SIGNATURE_RE_def PUBLIC_KEY_RE_def intro: sized_hex)

lemma auth_fields_read:
  "auth_wf a \<Longrightarrow> parseProtocolAuth (Some (JObj (auth_fields a))) f = Inr \<lparr>pa_issuedAt = pa_issuedAt a,
     pa_expiresAt = pa_expiresAt a, pa_nonce = pa_nonce a, pa_signature = pa_signature a,
     pa_publicKey = pa_publicKey a, pa_descriptor = pa_descriptor a\<rparr>"
  unfolding parseProtocolAuth_def object_field_def option.case json.case js_bind_simps
  by (simp add: js_simps auth_fields_lookup [of _ "[]", simplified] auth_wf_def sized_HEX PROTOCOL_AUTH_KEYS_def auth_fields_def)

lemma auth_read: "auth_wf a \<Longrightarrow> parseProtocolAuth (Some (auth_json a)) f = Inr a"
  using auth_fields_read [of a f] by (simp add: auth_json_def)

lemma order_auth_read: "maker_auth_wf a \<Longrightarrow> parse_order_auth (Some (maker_auth_json a)) f = Inr a"
proof -
  assume w: "maker_auth_wf a"
  let ?o = "auth_fields a @ [(''makerTokenCommitment'', JStr (pa_makerTokenCommitment a)), (''shareTokenCommitment'', JStr (pa_shareTokenCommitment a))]"
  have "filter (\<lambda>e. fst e \<notin> set COMMITMENT_KEYS) ?o = auth_fields a"
    by (simp add: auth_fields_def COMMITMENT_KEYS_def)
  moreover have "length ?o = length (PROTOCOL_AUTH_KEYS @ COMMITMENT_KEYS)" "fst ` set ?o \<subseteq> set (PROTOCOL_AUTH_KEYS @ COMMITMENT_KEYS)"
    by (simp_all add: auth_fields_def COMMITMENT_KEYS_def PROTOCOL_AUTH_KEYS_def)
  moreover have "map_of ?o ''makerTokenCommitment'' = Some (JStr (pa_makerTokenCommitment a))"
    "map_of ?o ''shareTokenCommitment'' = Some (JStr (pa_shareTokenCommitment a))" by (simp_all add: auth_fields_def)
  ultimately show ?thesis
    using auth_fields_read [of a f] w
    unfolding parse_order_auth_def maker_auth_json_def object_field_def option.case json.case js_bind_simps js_bind_Inr exactly_Inr
    by (simp add: maker_auth_wf_def js_simps protocol_auth.defs maker_order_auth.defs)
qed

lemma taker_intent_read: "intent_body_wf i \<Longrightarrow> parseFillIntentBody (Some (intent_json i)) f = Inr i"
  by (simp add: parseFillIntentBody_def object_field_def intent_json_def js_simps intent_body_wf_def)

lemma taker_fill_read: "fill_body_wf b \<Longrightarrow> parseFillBody (Some (fill_json b)) f = Inr b"
  by (simp add: parseFillBody_def object_field_def fill_json_def js_simps fill_body_wf_def)


definition sized_cr :: crypto where
  "sized_cr = demo_cr\<lparr>cr_verify := (\<lambda>_ a _. length (pa_signature a) = 2 + 2 * 4627 \<and> length (pa_publicKey a) = 2 + 2 * 2592)\<rparr>"

definition shown_intent :: selected_fill_intent where
  "shown_intent = \<lparr>si_intentDigest = ''0x1'' @ hexes 63, si_intent = vi_intent demo_vi, si_auth = demo_auth 1000 1100, si_receivedAt = 1005\<rparr>"

definition shown_row :: jobj where
  "shown_row = [(''id'', JStr (hexes 64)), (''direction'', JStr ''eth->qrl''), (''asset'', JStr ''ETH''),
     (''fromAmount'', JStr ''1000000000000000''), (''toAmount'', JStr ''2000000000000000''),
     (''makerEthAccount'', JStr (''0x'' @ hexes 40)), (''makerQrlAccount'', JStr (''Q'' @ hexes 128)), (''status'', JStr ''locking''),
     (''takerEthAccount'', JStr (''0x'' @ hexes 40)), (''takerQrlAccount'', JStr (''Q'' @ hexes 128)), (''hashlock'', JStr (''0x'' @ hexes 64)),
     (''initiatorTimeout'', JInt 3000), (''responderTimeout'', JInt 1800), (''makerAuth'', maker_auth_json demo_maker_auth),
     (''orderDigest'', JStr (''0x0'' @ hexes 63)), (''fill'', fill_json demo_fill), (''fillAuth'', auth_json (demo_auth 1010 1100)),
     (''fillDigest'', JStr (''0x2'' @ hexes 63)),
     (''selectedIntent'', JObj [(''intentDigest'', JStr (''0x1'' @ hexes 63)), (''intent'', intent_json (vi_intent demo_vi)),
       (''auth'', auth_json (demo_auth 1000 1100)), (''receivedAt'', JInt 1005)]),
     (''createdAt'', JInt 1000), (''updatedAt'', JInt 1010)]"

definition read_row :: taker_row where
  "read_row = \<lparr>tr_id = hexes 64, tr_direction = EthToQrl, tr_asset = ETH, tr_fromAmount = ''1000000000000000'',
     tr_toAmount = ''2000000000000000'', tr_makerEthAccount = ''0x'' @ hexes 40, tr_makerQrlAccount = ''Q'' @ hexes 128,
     tr_status = Locking, tr_takerEthAccount = Some (''0x'' @ hexes 40), tr_takerQrlAccount = Some (''Q'' @ hexes 128),
     tr_hashlock = Some (''0x'' @ hexes 64), tr_initiatorTimeout = Some 3000, tr_responderTimeout = Some 1800, tr_released = False,
     tr_makerSeen = None, tr_visibility = Public, tr_allowedTakerEth = None, tr_allowedTakerQrl = None, tr_prelocked = False,
     tr_makerAuth = Some demo_maker_auth, tr_orderDigest = Some (''0x0'' @ hexes 63), tr_fill = Some demo_fill,
     tr_fillAuth = Some (demo_auth 1010 1100), tr_fillDigest = Some (''0x2'' @ hexes 63), tr_selectedIntent = Some shown_intent,
     tr_cancelProof = None, tr_cancelAuth = None, tr_cancelDigest = None, tr_equivocated = False, tr_conflictDigests = [],
     tr_createdAt = 1000, tr_updatedAt = 1010\<rparr>"

definition demo_recovery :: taker_recovery where
  "demo_recovery = \<lparr>rc_orderDigest = ''0x0'' @ hexes 63,
     rc_intent = \<lparr>sg_intent = vi_intent demo_vi, sg_intentAuth = demo_auth 1000 1100\<rparr>, rc_intentDigest = ''0x1'' @ hexes 63\<rparr>"

lemma demo_auth_wf: "safe_nonneg i \<Longrightarrow> safe_nonneg e \<Longrightarrow> auth_wf (demo_auth i e)"
  by (simp add: demo_auth_def auth_wf_def)

lemma demo_maker_auth_ok: "maker_auth_wf demo_maker_auth"
  by (simp add: demo_maker_auth_def maker_auth_wf_def auth_wf_def demo_times)

lemma shown_intent_read:
  "parseSelectedIntent (Some (JObj [(''intentDigest'', JStr (''0x1'' @ hexes 63)), (''intent'', intent_json (vi_intent demo_vi)),
       (''auth'', auth_json (demo_auth 1000 1100)), (''receivedAt'', JInt 1005)])) f = Inr shown_intent"
proof -
  have "pa_issuedAt (demo_auth 1000 1100) = 1000" "pa_expiresAt (demo_auth 1000 1100) = 1100" by (simp_all add: demo_auth_def)
  then show ?thesis
    by (simp add: parseSelectedIntent_def object_field_def js_simps shown_intent_def auth_read demo_auth_wf demo_times taker_intent_read [OF demo_intent_wf]
        MAX_FILL_INTENT_LIFETIME_S_def safe_nonneg_def isSafeInteger_def MAX_SAFE_INTEGER_def)
qed

lemma demo_amount_text:
  "CANONICAL_AMOUNT_RE ''1000000000000000''" "CANONICAL_AMOUNT_RE ''2000000000000000''"
  by code_simp+

lemma two_hex: "BYTES32_RE (''0x2'' @ hexes 63)"
  by (simp add: BYTES32_RE_def matches_def is_hex_lower_def is_digit_def char_in_def)

definition shown_terms :: taker_row where
  "shown_terms = read_row\<lparr>tr_makerAuth := None, tr_orderDigest := None, tr_fill := None, tr_fillAuth := None, tr_fillDigest := None,
     tr_selectedIntent := None, tr_createdAt := 0, tr_updatedAt := 0\<rparr>"

lemma shown_terms_read:
  "parse_row_terms shown_row f EthToQrl ETH Locking Public [] = Inr shown_terms"
proof -
  have id: "PORTABLE_ID_RE (hexes 64)" by (simp add: PORTABLE_ID_RE_def matches_def)
  have t: "safe_nonneg 3000" "safe_nonneg 1800" by (simp_all add: demo_times)
  show ?thesis
    by (simp add: parse_row_terms_def shown_row_def text_field_def nullableText_def nullableUint_def uint_field_def optional_def boolOr_def id
        demo_amount_text t [unfolded safe_nonneg_def] shown_terms_def read_row_def)
qed

lemma shown_proofs_read:
  "parse_row_proofs shown_row f shown_terms = Inr read_row"
  using shown_intent_read [of "f @ ''.selectedIntent''"] two_hex
  by (simp add: parse_row_proofs_def shown_row_def text_field_def uint_field_def optional_def boolOr_def
      order_auth_read [OF demo_maker_auth_ok] taker_fill_read [OF demo_fill_wf] auth_read [OF demo_auth_wf] demo_times
      shown_terms_def read_row_def isSafeInteger_def MAX_SAFE_INTEGER_def)

lemma shown_row_read: "parseBookOrderRow (Some (JObj shown_row)) f = Inr read_row"
proof -
  have k: "fst ` set shown_row \<subseteq> set ROW_KEYS" by (simp add: shown_row_def ROW_KEYS_def)
  have l: "map_of shown_row ''direction'' = Some (JStr ''eth->qrl'')" "map_of shown_row ''asset'' = Some (JStr ''ETH'')"
    "map_of shown_row ''status'' = Some (JStr ''locking'')" "map_of shown_row ''visibility'' = None" "map_of shown_row ''conflictDigests'' = None"
    by (simp_all add: shown_row_def)
  show ?thesis
    unfolding parseBookOrderRow_def object_field_def option.case json.case js_bind_simps l exactly_Inr
    by (simp add: k required_def jstr_def parse_direction_def parse_asset_def ASSET_SYMBOLS_def read_status_def read_visibility_def conflict_list_def
        shown_terms_read shown_proofs_read exactly_Inr)
qed


lemma sized_digests: "cr_digest sized_cr = demo_digest" "cr_orderId sized_cr = (\<lambda>_ _. hexes 64)" "cr_deployed sized_cr"
  by (simp_all add: sized_cr_def demo_cr_def)

lemma sized_proof: "auth_wf (a :: protocol_auth) \<Longrightarrow> verifyOfficialV1Proof sized_cr acc a p"
  by (simp add: verifyOfficialV1Proof_def sized_digests) (simp add: sized_cr_def auth_wf_def SIGNATURE_RE_def PUBLIC_KEY_RE_def matches_def)

lemma sized_cr_ok: "proof_sizes sized_cr"
  by (simp add: proof_sizes_def sized_cr_def)

lemma read_row_body: "orderBodyFromRow read_row = demo_body"
  by (simp add: orderBodyFromRow_def read_row_def demo_body_def)

lemma demo_body_wf: "order_body_wf demo_body"
  using demo_vo_ok by (simp add: verified_order_ok_def demo_vo_def)

lemma read_order_verifies:
  "\<exists>v. verifyMakerOrder sized_cr (\<lambda>_. []) read_row 1050 True = Some v \<and> vt_orderDigest v = ''0x0'' @ hexes 63"
proof -
  let ?v = "\<lparr>vt_id = hexes 64, vt_order = demo_body, vt_auth = demo_maker_auth, vt_orderDigest = ''0x0'' @ hexes 63,
    vt_fromAmount = bigint (tr_fromAmount read_row), vt_toAmount = bigint (tr_toAmount read_row), vt_row = read_row\<rparr>"
  have d: "derive_order_id sized_cr (\<lambda>_. []) (tr_makerQrlAccount read_row) (pa_nonce demo_maker_auth) = Inr (hexes 64)"
    by (simp add: derive_order_id_def js_simps read_row_def demo_maker_auth_def sized_digests)
  note b = build_order_auth(1) [OF demo_body_wf demo_maker_auth_ok, of "\<lambda>_. []"]
  have g: "computeOrderDigest sized_cr (\<lambda>_. []) demo_body (order_auth_terms_of demo_maker_auth) = Inr (''0x0'' @ hexes 63)"
    using build_order_auth(2) [OF demo_body_wf demo_maker_auth_ok, of sized_cr "\<lambda>_. []"] by (simp add: sized_digests order_payload_def)
  have a: "bigint ''1000000000000000'' = 1000000000000000" "bigint ''2000000000000000'' = 2000000000000000"
    by (simp_all add: bigint_def dec_value_def digit_value_def)
  have w: "auth_wf (base_auth demo_maker_auth)" using demo_maker_auth_ok by (simp add: maker_auth_wf_def base_auth_def auth_wf_def)
  have "\<not> order_window_bad demo_maker_auth 1050 True" "\<not> listing_bad read_row demo_maker_auth"
    by (simp_all add: order_window_bad_def listing_bad_def read_row_def demo_maker_auth_def ORDER_LIFETIME_S_def MAX_CLOCK_SKEW_S_def)
  then have "taker_order_facts sized_cr (\<lambda>_. []) read_row 1050 True ?v demo_maker_auth (order_payload demo_body demo_maker_auth)"
    using d g b sized_proof [OF w]
    unfolding taker_order_facts_def read_row_body
    by (simp add: read_row_def a) (simp add: demo_maker_auth_def)
  then show ?thesis using verifyMakerOrder_Some [of sized_cr "\<lambda>_. []" read_row 1050 True ?v] by auto
qed

lemma read_fill_verifies:
  "verifyMakerFill sized_cr (\<lambda>_. []) read_row demo_recovery 1050 =
     Inr (Some \<lparr>vm_fill = demo_fill, vm_auth = demo_auth 1010 1100, vm_fillDigest = ''0x2'' @ hexes 63\<rparr>)"
proof -
  let ?m = "\<lparr>vm_fill = demo_fill, vm_auth = demo_auth 1010 1100, vm_fillDigest = ''0x2'' @ hexes 63\<rparr>"
  obtain v where v: "verifyMakerOrder sized_cr (\<lambda>_. []) read_row 1050 True = Some v" "vt_orderDigest v = ''0x0'' @ hexes 63"
    using read_order_verifies by blast
  have ia: "pa_issuedAt (demo_auth i e) = i" "pa_expiresAt (demo_auth i e) = e" "pa_nonce (demo_auth i e) = ''0x'' @ hexes 64" for i e
    by (simp_all add: demo_auth_def)
  have oa: "pa_issuedAt demo_maker_auth = 1000" "pa_expiresAt demo_maker_auth = 5000" "pa_nonce demo_maker_auth = ''0x'' @ hexes 64"
    by (simp_all add: demo_maker_auth_def)
  have bi: "buildFillIntentV1Payload (\<lambda>_. []) (vi_intent demo_vi) 1000 1100 (''0x'' @ hexes 64) =
      Inr (FillIntentV2 (vi_intent demo_vi) (''0x'' @ hexes 64) 1000 1100)" by (rule demo_build_intent)
  have bf: "buildFillV1Payload (\<lambda>_. []) demo_fill (''0x'' @ hexes 64) 1010 1100 (''0x'' @ hexes 64) =
      Inr (FillV2 \<lparr>ft_body = demo_fill, ft_orderNonce = ''0x'' @ hexes 64, ft_fillNonce = ''0x'' @ hexes 64, ft_issuedAt = 1010, ft_respondBy = 1100\<rparr>)"
    using build_fill_canonical [OF demo_fill_wf, of "''0x'' @ hexes 64" 1010 1100 "''0x'' @ hexes 64"] by (simp add: demo_times)
  have own: "verifyOwnIntent sized_cr (\<lambda>_. []) (rc_intent demo_recovery) (''0x0'' @ hexes 63) demo_maker_auth 1050 True"
    using bi sized_proof [OF demo_auth_wf [of 1000 1100]]
    by (simp add: verifyOwnIntent_def demo_recovery_def ia oa demo_times MAX_FILL_INTENT_LIFETIME_S_def MAX_CLOCK_SKEW_S_def) (simp add: demo_vi_def)
  have idg: "computeFillIntentDigest sized_cr (\<lambda>_. []) (vi_intent demo_vi) (demo_auth 1000 1100) = Inr (''0x1'' @ hexes 63)"
    using bi by (simp add: computeFillIntentDigest_def ia sized_digests)
  have fdg: "computeFillDigest sized_cr (\<lambda>_. []) demo_fill (''0x'' @ hexes 64) (demo_auth 1010 1100) = Inr (''0x2'' @ hexes 63)"
    using bf by (simp add: computeFillDigest_def ia sized_digests)
  have tv: "fillTermsAreValid read_row demo_fill (demo_auth 1010 1100) demo_recovery 1050"
    by (simp add: fillTermsAreValid_def row_prelock_def read_row_def fillBindingIsValid_def demo_recovery_def ia oa Let_def MAX_CLOCK_SKEW_S_def
        MIN_FILL_RESPONSE_S_def MAX_FILL_RESPONSE_S_def MAX_RESPONDER_WINDOW_S_def MIN_RESPONDER_RUNWAY_AFTER_RESPONSE_S_def MAX_INITIATOR_WINDOW_S_def)
      (simp add: demo_fill_def demo_vi_def ZERO32_def hexes_def)
  have "\<not> row_contradicts read_row demo_fill" by (simp add: row_contradicts_def read_row_def demo_fill_def)
  then have "taker_fill_facts sized_cr (\<lambda>_. []) read_row demo_recovery 1050 ?m v shown_intent
      (FillV2 \<lparr>ft_body = demo_fill, ft_orderNonce = ''0x'' @ hexes 64, ft_fillNonce = ''0x'' @ hexes 64, ft_issuedAt = 1010, ft_respondBy = 1100\<rparr>)"
    using v own tv bf idg fdg sized_proof [OF demo_auth_wf [of 1010 1100]]
    unfolding taker_fill_facts_def
    by (simp add: demo_recovery_def read_row_def shown_intent_def same_intent ia oa demo_times)
  then show ?thesis using verifyMakerFill_Some by blast
qed

theorem taker_funds_book_fill_witness:
  "\<exists>vo vi. verified_order_ok sized_cr vo \<and> vo_orderDigest vo = ''0x0'' @ hexes 63 \<and> vi_intentDigest vi = ''0x1'' @ hexes 63 \<and>
    verifyFillV1 sized_cr 1050 False (fill_json demo_fill) (auth_json (demo_auth 1010 1100)) vo vi =
      Inr \<lparr>vf_fillDigest = ''0x2'' @ hexes 63, vf_fill = demo_fill, vf_auth = demo_auth 1010 1100\<rparr>"
  using taker_funds_book_fill [OF shown_row_read [of "[]"] sized_cr_ok read_fill_verifies]
  by (fastforce simp: demo_recovery_def)

end
