(* ===== verification/Spec2Isabelle.thy ===== *)
theory Spec2Isabelle
  imports Taker_Policy Swap_Machine Maker_Policy Maker_Admission Price_Feed Book_Market Response_Cache Sync_Safety Group_Commit Book_Reload Lease_Exclusive Taker_Proofs
begin

text \<open>
  QuantaSwap exchanges assets between Ethereum and QRL by atomic swaps. A maker publishes a signed
  offer in an order book; a taker answers with a signed intent; the maker picks one and signs a fill
  that fixes a hashlock and two deadlines. Then both lock funds in an escrow contract, one on each
  chain; whoever knows the secret claims the other side's escrow, which publishes the secret for the
  second claim, and whatever is not claimed in time is refunded. No party of the exchange is trusted:
  the contract keeps the funds, the order book only relays proofs that everybody checks, and each bot
  or browser decides from what it reads itself.

  \<^bold>\<open>Parts and how they meet.\<close> The escrow contract is the same on both chains. The market maker and
  the scripted taker are polling loops around a pure decision function each; the browser derives the
  same steps for a person. They read escrows as the decoded leg state, compare accounts in canonical
  spelling, and sign and verify four artifacts (order, fill intent, fill, cancel) over canonical
  bytes. The order book stores and relays the artifacts through HTTP routes that pass admission
  lanes; its public rows become events of a federation feed, which other books follow and apply
  through the same verification.

  \<^bold>\<open>Theories and the code they model.\<close>
  \<^item> \<open>Prelude\<close>: results that may carry a thrown error, short-circuit conditions, insertion-ordered
    maps, the stable comparator sort with its contract as a locale, character classes. Everything
    else builds on it.
  \<^item> \<open>Htlc_Contract\<close> (\<^verbatim>\<open>contracts/hyperion/HTLCv3.hyp\<close>): storage, every function with its guards in
    order, the best-effort payout that ends as a payment or a credit, and the transitions of a chain.
    Shown: value is conserved per token, a hashlock is used once (refinement of a four-state
    machine), settled escrows stay settled, a claim cannot be stopped by the payee, credits move only
    on their owner's word.
  \<^item> \<open>Address\<close> (\<^verbatim>\<open>marketmaker/src/qip55.ts\<close>, \<^verbatim>\<open>frontend/src/lib/qrlAddress.ts\<close>): the account spellings,
    with the locale of a canonical form and its interpretations. \<open>Leg\<close> (\<^verbatim>\<open>marketmaker/src/htlc.ts\<close>,
    \<^verbatim>\<open>assets.ts\<close>): decoded escrows, the claim choke point and the asset registry. \<open>Protocol_Types\<close>
    (\<^verbatim>\<open>marketmaker/src/protocol-signing.ts\<close>): the signed bodies as records and JSON as a datatype.
  \<^item> \<open>Maker_Policy\<close> (\<^verbatim>\<open>policy.ts\<close>), \<open>Maker_Admission\<close> (\<^verbatim>\<open>admission.ts\<close>), \<open>Price_Feed\<close> (\<^verbatim>\<open>price.ts\<close>),
    \<open>Taker_Policy\<close> (\<^verbatim>\<open>taker-policy.ts\<close>), \<open>Swap_Machine\<close> (\<^verbatim>\<open>frontend/src/lib/swapMachine.ts\<close>, \<^verbatim>\<open>swapStatus.ts\<close>,
    \<^verbatim>\<open>prelock.ts\<close>): the decision cores. For each action the lemmas list everything that holds when it
    is taken, for any input; the properties say that funds are only locked, revealed, refunded or
    given up when that is safe, and that the browser and the taker accept the same escrows.
  \<^item> \<open>Order_Signing\<close> (\<^verbatim>\<open>server/src/order-signing.ts\<close>): shape checks and acceptance rules of the four
    artifacts. \<open>Protocol_Wire\<close> (\<^verbatim>\<open>protocol-v2-wire.ts\<close>, \<^verbatim>\<open>protocol-v2-config.ts\<close>): the signed bytes, and
    that two artifacts with the same bytes are the same artifact.
  \<^item> \<open>Book_Types\<close>, \<open>Order_Store\<close> (\<^verbatim>\<open>server/src/store.ts\<close>): rows and every operation of the order book on
    an explicit state. \<open>Book_Lifecycle\<close> lists the ways one row may change and shows that each operation
    is a sweep followed by at most one of them. \<open>Write_Admission\<close> (\<^verbatim>\<open>admission.ts\<close>,
    \<^verbatim>\<open>federation-reset.ts\<close>) and \<open>Book_Routes\<close> (\<^verbatim>\<open>server.ts\<close>) put the lanes and the routes around it.
    \<open>Book_Runs\<close> are the books any sequence of requests and peer events reaches; the locale
    \<open>row_invariant\<close> turns facts about single changes into facts about every row of a reachable book,
    and \<open>Book_Invariant\<close>, \<open>Book_Authority\<close>, \<open>Book_Safety\<close>, \<open>Book_Errors\<close>, \<open>Book_Privacy\<close>, \<open>Book_Market\<close> use it:
    who signed what a row shows, that a fill is final, that refusals change nothing, that private
    rows stay private, that a take gets the best offer. \<open>Book_Demo\<close> is a concrete run for witnesses.
  \<^item> \<open>Federation_Feed\<close>, \<open>Feed_Load\<close>, \<open>Feed_Safety\<close> (\<^verbatim>\<open>server/src/federation.ts\<close>): the event ring with staged
    appends and their undo, its log file, and the pages with cursors. An acknowledged batch survives
    a restart, a failed one leaves no trace in memory, and a follower receives every retained event.
    \<open>Response_Cache\<close> (\<^verbatim>\<open>federation-reset.ts\<close>) is the bounded cache of served pages.
  \<^item> \<open>Peer_Page\<close>, \<open>Peer_Sync\<close>, \<open>Sync_Safety\<close> (\<^verbatim>\<open>server/src/peer-sync.ts\<close>): the strict parser of pages, which
    accepts what a feed serves, and the two concurrent workers with the queue of deferred events,
    whose cursors never pass an event that was not dealt with.
  \<^item> \<open>Group_Commit\<close> (\<^verbatim>\<open>flush\<close>, \<^verbatim>\<open>runCommits\<close>, \<^verbatim>\<open>failCommit\<close> of \<^verbatim>\<open>server/src/store.ts\<close>): the loop that makes
    the mutations of one turn durable, with its waiters. A resolved promise is on disk and in the
    feed, and every promise settles.
  \<^item> \<open>Book_Load\<close> (\<^verbatim>\<open>load\<close>, \<^verbatim>\<open>hydratePersistedOrder\<close>, \<^verbatim>\<open>writeSnapshot\<close> of \<^verbatim>\<open>server/src/store.ts\<close>): the orders
    file. \<open>Book_Restart\<close> shows that a row which satisfies \<open>restorable\<close> is read back as it was written,
    \<open>Book_Reload\<close> that every accepted row satisfies it, so that a file cannot forge a proof and a
    restart changes nothing.
  \<^item> \<open>Process_Lease\<close> (\<^verbatim>\<open>server/src/process-lease.ts\<close>): the writer lease of the data files. Each file
    operation of \<^verbatim>\<open>ProcessLease.acquire\<close>, of the heartbeat and of the release is a step, and a world
    holds one lease file, its recovery guard and any number of processes. \<open>Lease_Safety\<close> proves the
    write fence for every interleaving, \<open>Lease_Exclusive\<close> that processes which see each other hold
    the lease one at a time, and exhibits the takeover race that this excepts. An acquisition makes at
    most 500 attempts of at most twelve operations (\<open>acquire_progress\<close>).
  \<^item> \<open>Maker_Signing\<close> (\<^verbatim>\<open>marketmaker/src/protocol-signing.ts\<close>): the signer of the two bots, with its field
    checks, payloads and digests. What it signs the order book accepts; for a fill the theorem says
    exactly which three conditions the signer leaves to its caller.
  \<^item> \<open>Taker_Proofs\<close> (\<^verbatim>\<open>marketmaker/src/taker-proofs.ts\<close>, \<^verbatim>\<open>taker-orderbook.ts\<close>): the taker's parser of rows it does not trust
    and its verification of orders, fills and cancellations. A fill it goes on with is one the book's
    verifier accepts.

  \<^bold>\<open>Conventions.\<close> A TypeScript or contract function is a HOL function with its guards in source order; a
  thrown error is the left side of a sum (\<open>Inl\<close>), and where the code changes state before it throws,
  the state is returned beside the error. Classes are records that operations return updated. \<^verbatim>\<open>Map\<close>s
  whose order matters are association lists. Integers are unbounded as \<^verbatim>\<open>bigint\<close>s are; JavaScript numbers
  are integers with their \<^verbatim>\<open>isSafeInteger\<close> checks written out, and every JSON number that is not an
  integer is the one value \<open>JFloat\<close>. Objects that several holders mutate (the promises and deferred
  events of a synchronization round) live in an explicit store. Code between two awaits is one step.

  \<^bold>\<open>Parameters.\<close> Hash functions, signature checks, random bytes, the clock (read once per operation of
  the order book), amounts formatted for display, floating-point prices, the deployment profile, and
  the answers of chains, files and peers are arguments or inputs. The assumptions on them are stated
  where they are used: digests have their fixed width, token balances are what the token reports.

  \<^bold>\<open>Bounds and fuel.\<close> No definition has an arbitrary bound. \<open>canonicalValue\<close> recurses on JSON with a
  termination proof; \<open>follow\<close> takes the number of pages as fuel, and one more than the records in the
  ring is proved to be enough; scans and folds are structural.

  \<^bold>\<open>Not modelled.\<close> Rendering, wallets, RPC and HTTP transport, file-descriptor handling below the level
  of outcomes, configuration parsing, load tests and build scripts: they hold no state of the
  protocol. The state files of the two bots and the loops that drive their decisions: about five
  thousand lines of file and RPC plumbing around the decision cores that are modelled, whose inputs
  they gather. Of the writer lease, the sweep of staging files and the callback that shuts the server
  down; the ownership check is a property of the lease and not a guard of every modelled write.
\<close>

end
